(* ===== verification/Flight_Prelude.thy ===== *)
theory Flight_Prelude
  imports Complex_Main "HOL-Library.Word"
begin

unbundle bit_operations_syntax

text \<open>
  What every component shares: the C integer conversions, the flat byte memory the packing
  routines write through their \<open>unsigned char *\<close> arguments, and the bit view of that memory.

  Conventions. A C expression is evaluated in \<open>int\<close> arithmetic (signed) or in \<open>nat\<close>
  (unsigned quantities, sizes, indices), and the conversion that C applies when a value is
  stored in a variable of type \<open>T\<close> is written out by one of the casts below
  (\<open>u8\<close>, \<open>s8\<close>, \<open>u16\<close>, \<open>s16\<close>, \<open>u32\<close>, \<open>s32\<close>).
  The target is the flight computer's x86-64: two's complement, little endian, 16-bit
  \<open>short\<close>, 32-bit \<open>int\<close>, signed \<open>char\<close>, arithmetic right shift of negative values.
  A pointer into a buffer is a \<open>nat\<close> address.
\<close>

named_theorems cast_simps \<open>casts whose argument is in range\<close>
named_theorems mem_simps \<open>loads next to a store\<close>
named_theorems bit_view \<open>reading bits of the byte memory\<close>

section \<open>C integer conversions\<close>

definition u8 :: "int \<Rightarrow> int" where "u8 x = take_bit 8 x"
definition s8 :: "int \<Rightarrow> int" where "s8 x = signed_take_bit 7 x"
definition u16 :: "int \<Rightarrow> int" where "u16 x = take_bit 16 x"
definition s16 :: "int \<Rightarrow> int" where "s16 x = signed_take_bit 15 x"
definition u32 :: "int \<Rightarrow> int" where "u32 x = take_bit 32 x"
definition s32 :: "int \<Rightarrow> int" where "s32 x = signed_take_bit 31 x"

definition is_u8 :: "int \<Rightarrow> bool" where "is_u8 x \<longleftrightarrow> 0 \<le> x \<and> x < 256"
definition is_s8 :: "int \<Rightarrow> bool" where "is_s8 x \<longleftrightarrow> -128 \<le> x \<and> x < 128"
definition is_u16 :: "int \<Rightarrow> bool" where "is_u16 x \<longleftrightarrow> 0 \<le> x \<and> x < 65536"
definition is_s16 :: "int \<Rightarrow> bool" where "is_s16 x \<longleftrightarrow> -32768 \<le> x \<and> x < 32768"
definition is_u32 :: "int \<Rightarrow> bool" where "is_u32 x \<longleftrightarrow> 0 \<le> x \<and> x < 4294967296"

lemmas range_defs = is_u8_def is_s8_def is_u16_def is_s16_def is_u32_def

lemma u8_id [cast_simps]: "is_u8 x \<Longrightarrow> u8 x = x"
  by (simp add: u8_def is_u8_def take_bit_int_eq_self)

lemma u16_id [cast_simps]: "is_u16 x \<Longrightarrow> u16 x = x"
  by (simp add: u16_def is_u16_def take_bit_int_eq_self)

lemma u32_id [cast_simps]: "is_u32 x \<Longrightarrow> u32 x = x"
  by (simp add: u32_def is_u32_def take_bit_int_eq_self)

lemma s8_id [cast_simps]: "is_s8 x \<Longrightarrow> s8 x = x"
  by (simp add: s8_def is_s8_def signed_take_bit_int_eq_self)

lemma s16_id [cast_simps]: "is_s16 x \<Longrightarrow> s16 x = x"
  by (simp add: s16_def is_s16_def signed_take_bit_int_eq_self)

lemma is_u8_u8 [simp]: "is_u8 (u8 x)"
  by (simp add: is_u8_def u8_def take_bit_int_less_exp [of 8 x, simplified])

lemma is_u16_u16 [simp]: "is_u16 (u16 x)"
  using take_bit_int_less_exp [of 16 x] by (simp add: is_u16_def u16_def)

lemma is_u32_u32 [simp]: "is_u32 (u32 x)"
  using take_bit_int_less_exp [of 32 x] by (simp add: is_u32_def u32_def)

lemma is_s8_s8 [simp]: "is_s8 (s8 x)"
  using signed_take_bit_int_less_exp [of 7 x] signed_take_bit_int_greater_eq_minus_exp [of 7 x]
  by (simp add: is_s8_def s8_def)

lemma is_s16_s16 [simp]: "is_s16 (s16 x)"
  using signed_take_bit_int_less_exp [of 15 x] signed_take_bit_int_greater_eq_minus_exp [of 15 x]
  by (simp add: is_s16_def s16_def)

lemma s16_u16 [simp]: "s16 (u16 x) = s16 x"
  by (simp add: s16_def u16_def signed_take_bit_take_bit)

lemma u16_s16 [simp]: "u16 (s16 x) = u16 x"
  by (simp add: s16_def u16_def take_bit_signed_take_bit)

lemma s8_u8 [simp]: "s8 (u8 x) = s8 x"
  by (simp add: s8_def u8_def signed_take_bit_take_bit)

lemma u8_s8 [simp]: "u8 (s8 x) = u8 x"
  by (simp add: s8_def u8_def take_bit_signed_take_bit)

text \<open>C's integer division truncates towards zero.\<close>

definition c_div :: "int \<Rightarrow> int \<Rightarrow> int" where
  "c_div a b = sgn a * sgn b * (\<bar>a\<bar> div \<bar>b\<bar>)"

lemma c_div_nonneg: "0 \<le> a \<Longrightarrow> 0 < b \<Longrightarrow> c_div a b = a div b"
  by (cases "a = 0") (simp_all add: c_div_def)

text \<open>C's conversion of a floating value to an integer truncates towards zero.\<close>

definition c_trunc :: "real \<Rightarrow> int" where
  "c_trunc x = (if 0 \<le> x then \<lfloor>x\<rfloor> else \<lceil>x\<rceil>)"

section \<open>The byte memory\<close>

type_synonym byte = "8 word"
type_synonym mem = "nat \<Rightarrow> byte"

definition zeroed :: "mem \<Rightarrow> nat \<Rightarrow> nat \<Rightarrow> bool" where
  \<comment> \<open>the bytes at \<open>a\<close> up to \<open>b\<close> (excluded) are zero, as after \<open>memset(p,0,n)\<close>\<close>
  "zeroed m a b \<longleftrightarrow> (\<forall>i. a \<le> i \<and> i < b \<longrightarrow> m i = 0)"

definition same_outside :: "mem \<Rightarrow> mem \<Rightarrow> nat \<Rightarrow> nat \<Rightarrow> bool" where
  \<comment> \<open>the two memories differ at most at addresses \<open>a\<close> up to \<open>b\<close> (excluded)\<close>
  "same_outside m m' a b \<longleftrightarrow> (\<forall>i. i < a \<or> b \<le> i \<longrightarrow> m' i = m i)"

definition same_inside :: "mem \<Rightarrow> mem \<Rightarrow> nat \<Rightarrow> nat \<Rightarrow> bool" where
  \<comment> \<open>the two memories agree at addresses \<open>a\<close> up to \<open>b\<close> (excluded)\<close>
  "same_inside m m' a b \<longleftrightarrow> (\<forall>i. a \<le> i \<and> i < b \<longrightarrow> m' i = m i)"

definition load8u :: "mem \<Rightarrow> nat \<Rightarrow> int" where
  "load8u m a = uint (m a)"

definition load8s :: "mem \<Rightarrow> nat \<Rightarrow> int" where
  "load8s m a = s8 (load8u m a)"

definition load16u :: "mem \<Rightarrow> nat \<Rightarrow> int" where
  "load16u m a = uint (m a) + push_bit 8 (uint (m (a + 1)))"

definition load16s :: "mem \<Rightarrow> nat \<Rightarrow> int" where
  "load16s m a = s16 (load16u m a)"

definition load32u :: "mem \<Rightarrow> nat \<Rightarrow> int" where
  "load32u m a = load16u m a + push_bit 16 (load16u m (a + 2))"

definition load32s :: "mem \<Rightarrow> nat \<Rightarrow> int" where
  "load32s m a = s32 (load32u m a)"

definition store8 :: "mem \<Rightarrow> nat \<Rightarrow> int \<Rightarrow> mem" where
  "store8 m a v = m(a := word_of_int v)"

definition store16 :: "mem \<Rightarrow> nat \<Rightarrow> int \<Rightarrow> mem" where
  "store16 m a v = m(a := word_of_int v, a + 1 := word_of_int (drop_bit 8 v))"

definition store32 :: "mem \<Rightarrow> nat \<Rightarrow> int \<Rightarrow> mem" where
  "store32 m a v = store16 (store16 m a v) (a + 2) (drop_bit 16 v)"

text \<open>The bit view: bit \<open>p\<close> of the memory is bit \<open>p mod 8\<close> of byte \<open>p div 8\<close>.\<close>

definition mbit :: "mem \<Rightarrow> nat \<Rightarrow> bool" where
  "mbit m p = bit (m (p div 8)) (p mod 8)"

lemma mbit_byte [bit_view]: "k < 8 \<Longrightarrow> mbit m (8 * a + k) = bit (m a) k"
  by (simp add: mbit_def)

lemma bit_uint_byte: "bit (uint (x :: byte)) k \<longleftrightarrow> k < 8 \<and> bit x k"
  by (auto simp: bit_uint_iff)

lemma add_push_bit_disjoint:
  fixes x y :: int
  assumes "take_bit n x = x"
  shows "bit (x + push_bit n y) k = (if k < n then bit x k else bit y (k - n))"
proof -
  have small: "bit x j \<Longrightarrow> j < n" for j
    by (metis assms bit_take_bit_iff)
  have "x + push_bit n y = x OR push_bit n y"
    by (rule disjunctive_add) (use small in \<open>force simp: bit_push_bit_iff\<close>)
  then show ?thesis
    using small [of k] by (auto simp: bit_or_iff bit_push_bit_iff)
qed

lemma take_bit_uint_byte: "take_bit 8 (uint (x :: byte)) = uint x"
  by (rule bit_eqI) (auto simp: bit_take_bit_iff bit_uint_byte)

lemma bit_load16u [bit_view]: "bit (load16u m a) k \<longleftrightarrow> k < 16 \<and> mbit m (8 * a + k)"
proof (cases "k < 8")
  case True
  then show ?thesis
    by (simp add: load16u_def add_push_bit_disjoint take_bit_uint_byte bit_uint_byte mbit_byte)
next
  case False
  then obtain j where j: "k = 8 + j"
    using le_Suc_ex not_less by blast
  have "j < 8 \<Longrightarrow> mbit m (8 * a + (8 + j)) = bit (m (Suc a)) j"
    using mbit_byte [of j m "Suc a"] by (simp add: ac_simps)
  then show ?thesis
    by (cases "j < 8")
      (simp_all add: j load16u_def add_push_bit_disjoint take_bit_uint_byte bit_uint_byte)
qed

lemma take_bit_load16u: "take_bit 16 (load16u m a) = load16u m a"
  by (rule bit_eqI) (auto simp: bit_take_bit_iff bit_load16u)

lemma bit_load32u [bit_view]: "bit (load32u m a) k \<longleftrightarrow> k < 32 \<and> mbit m (8 * a + k)"
proof -
  have "k \<ge> 16 \<Longrightarrow> 8 * (a + 2) + (k - 16) = 8 * a + k"
    by simp
  then show ?thesis
    by (auto simp: load32u_def add_push_bit_disjoint take_bit_load16u bit_load16u)
qed

lemma bit_load32s [bit_view]: "k < 32 \<Longrightarrow> bit (load32s m a) k = mbit m (8 * a + k)"
  by (cases "k = 31") (auto simp: load32s_def s32_def bit_signed_take_bit_iff bit_load32u min_def)

section \<open>16-bit loads and stores\<close>

lemma mbit_store16:
  "mbit (store16 m a v) p \<longleftrightarrow>
    (if 8 * a \<le> p \<and> p < 8 * a + 16 then bit v (p - 8 * a) else mbit m p)"
proof -
  define b k where "b = p div 8" and "k = p mod 8"
  have p: "p = 8 * b + k" "k < 8"
    by (simp_all add: b_def k_def)
  have bits: "mbit m' p = bit (m' b) k" for m'
    by (simp add: mbit_def b_def k_def)
  consider "b = a" | "b = a + 1" | "b \<noteq> a" "b \<noteq> a + 1"
    by blast
  then show ?thesis
  proof cases
    case 3
    then have "\<not> (8 * a \<le> p \<and> p < 8 * a + 16)"
      using p by auto
    then have F: "(8 * a \<le> p \<and> p < 8 * a + 16) = False"
      by blast
    show ?thesis
      unfolding F using 3 by (simp add: mbit_def store16_def b_def)
  qed (unfold bits, use p in \<open>simp_all add: store16_def bit_simps bit_drop_bit_eq\<close>)
qed

lemma load16u_store16 [simp]: "load16u (store16 m a v) a = u16 v"
  by (rule bit_eqI) (auto simp: bit_load16u mbit_store16 u16_def bit_take_bit_iff)

lemma load16u_store16_other:
  "a + 2 \<le> b \<or> b + 2 \<le> a \<Longrightarrow> load16u (store16 m a v) b = load16u m b"
  by (rule bit_eqI) (auto simp: bit_load16u mbit_store16)

text \<open>Copying an array of 16-bit elements to and from the byte memory, as \<open>memcpy\<close> does.\<close>

definition store_shorts :: "mem \<Rightarrow> nat \<Rightarrow> int list \<Rightarrow> mem" where
  "store_shorts m a xs = fold (\<lambda>i m. store16 m (a + 2 * i) (xs ! i)) [0..<length xs] m"

definition load_shorts :: "mem \<Rightarrow> nat \<Rightarrow> nat \<Rightarrow> int list" where
  "load_shorts m a n = map (\<lambda>i. load16s m (a + 2 * i)) [0..<n]"

definition load_ushorts :: "mem \<Rightarrow> nat \<Rightarrow> nat \<Rightarrow> int list" where
  "load_ushorts m a n = map (\<lambda>i. load16u m (a + 2 * i)) [0..<n]"

lemma store_shorts_nth:
  assumes "i < length xs"
  shows "load16u (store_shorts m a xs) (a + 2 * i) = u16 (xs ! i)"
proof -
  have "load16u (fold (\<lambda>i m. store16 m (a + 2 * i) (xs ! i)) [0..<k] m) (a + 2 * i) = u16 (xs ! i)"
    if "i < k" for k
    using that
  proof (induction k)
    case (Suc k)
    show ?case
    proof (cases "i = k")
      case False
      with Suc show ?thesis by (simp add: load16u_store16_other)
    qed simp
  qed simp
  with assms show ?thesis by (simp add: store_shorts_def)
qed

lemma load_store_shorts:
  assumes "\<forall>x\<in>set xs. is_s16 x"
  shows "load_shorts (store_shorts m a xs) a (length xs) = xs"
  by (rule nth_equalityI)
    (use assms in \<open>simp_all add: load_shorts_def load16s_def store_shorts_nth cast_simps\<close>)

lemma load_store_ushorts:
  assumes "\<forall>x\<in>set xs. is_u16 x"
  shows "load_ushorts (store_shorts m a xs) a (length xs) = xs"
  by (rule nth_equalityI)
    (use assms in \<open>simp_all add: load_ushorts_def store_shorts_nth cast_simps\<close>)

lemma same_outside_refl [simp]: "same_outside m m a b"
  by (simp add: same_outside_def)

lemma same_inside_refl [simp]: "same_inside m m a b"
  by (simp add: same_inside_def)

lemma same_inside_trans:
  "same_inside m m' a b \<Longrightarrow> same_inside m' m'' a b \<Longrightarrow> same_inside m m'' a b"
  by (simp add: same_inside_def)

lemma same_inside_mono:
  "same_inside m m' a b \<Longrightarrow> a \<le> a' \<Longrightarrow> b' \<le> b \<Longrightarrow> same_inside m m' a' b'"
  by (simp add: same_inside_def)

lemma same_outside_inside:
  "same_outside m m' a b \<Longrightarrow> d \<le> a \<or> b \<le> c \<Longrightarrow> same_inside m m' c d"
  by (auto simp: same_outside_def same_inside_def)

lemma load8u_inside: "same_inside m m' b c \<Longrightarrow> b \<le> a \<Longrightarrow> a + 1 \<le> c \<Longrightarrow> load8u m' a = load8u m a"
  by (simp add: same_inside_def load8u_def)

lemma load16u_inside: "same_inside m m' b c \<Longrightarrow> b \<le> a \<Longrightarrow> a + 2 \<le> c \<Longrightarrow> load16u m' a = load16u m a"
  by (simp add: same_inside_def load16u_def)

lemma load32u_inside: "same_inside m m' b c \<Longrightarrow> b \<le> a \<Longrightarrow> a + 4 \<le> c \<Longrightarrow> load32u m' a = load32u m a"
  by (simp add: same_inside_def load32u_def load16u_def)

lemma load_shorts_inside:
  "same_inside m m' a c \<Longrightarrow> a + 2 * n \<le> c \<Longrightarrow> load_shorts m' a n = load_shorts m a n"
  by (auto simp: load_shorts_def load16s_def intro!: arg_cong [of _ _ s16] load16u_inside)

lemma load_ushorts_inside:
  "same_inside m m' a c \<Longrightarrow> a + 2 * n \<le> c \<Longrightarrow> load_ushorts m' a n = load_ushorts m a n"
  by (auto simp: load_ushorts_def intro!: load16u_inside)

lemma zeroed_mono: "zeroed m a b \<Longrightarrow> a \<le> a' \<Longrightarrow> b' \<le> b \<Longrightarrow> zeroed m a' b'"
  by (simp add: zeroed_def)

lemma zeroed_outside: "zeroed m a b \<Longrightarrow> same_outside m m' c d \<Longrightarrow> d \<le> a \<Longrightarrow> zeroed m' a b"
  by (simp add: zeroed_def same_outside_def)

lemma same_outside_trans:
  "same_outside m m' a b \<Longrightarrow> same_outside m' m'' a b \<Longrightarrow> same_outside m m'' a b"
  by (simp add: same_outside_def)

lemma same_outside_mono:
  "same_outside m m' a b \<Longrightarrow> a' \<le> a \<Longrightarrow> b \<le> b' \<Longrightarrow> same_outside m m' a' b'"
  by (simp add: same_outside_def)

lemma same_outside_store16: "same_outside m (store16 m a v) a (a + 2)"
  by (simp add: same_outside_def store16_def)

lemma same_outside_fold:
  assumes "\<And>i m. i \<in> set is \<Longrightarrow> same_outside m (f i m) a b"
  shows "same_outside m (fold f is m) a b"
  using assms by (induction "is" arbitrary: m) (auto intro: same_outside_trans)

lemma store_shorts_outside: "same_outside m (store_shorts m a xs) a (a + 2 * length xs)"
  unfolding store_shorts_def
  by (rule same_outside_fold) (auto intro: same_outside_mono [OF same_outside_store16])

lemma same_outside_store8: "same_outside m (store8 m a v) a (a + 1)"
  by (simp add: same_outside_def store8_def)

lemma same_outside_store32: "same_outside m (store32 m a v) a (a + 4)"
  by (simp add: same_outside_def store32_def store16_def)

lemma load8u_cong: "same_outside m m' b c \<Longrightarrow> a + 1 \<le> b \<or> c \<le> a \<Longrightarrow> load8u m' a = load8u m a"
  by (auto simp: same_outside_def load8u_def)

lemma load16u_cong: "same_outside m m' b c \<Longrightarrow> a + 2 \<le> b \<or> c \<le> a \<Longrightarrow> load16u m' a = load16u m a"
  by (auto simp: same_outside_def load16u_def)

lemma load32u_cong: "same_outside m m' b c \<Longrightarrow> a + 4 \<le> b \<or> c \<le> a \<Longrightarrow> load32u m' a = load32u m a"
  by (auto simp: same_outside_def load32u_def load16u_def)

lemma load8u_store8 [simp]: "load8u (store8 m a v) a = u8 v"
  by (simp add: load8u_def store8_def u8_def uint_word_of_int_eq)

lemma load32u_store32 [simp]: "load32u (store32 m a v) a = u32 v"
proof -
  have "load16u (store16 (store16 m a v) (a + 2) (drop_bit 16 v)) a = u16 v"
    by (subst load16u_store16_other) simp_all
  moreover have "u16 v + push_bit 16 (u16 (drop_bit 16 v)) = u32 v"
    by (rule bit_eqI)
      (auto simp: add_push_bit_disjoint u16_def u32_def bit_take_bit_iff bit_drop_bit_eq)
  ultimately show ?thesis
    by (simp add: load32u_def store32_def)
qed

text \<open>Loads next to a store, for the fixed offsets of a structure.\<close>

lemma load_store_other [mem_simps]:
  "a + 1 \<le> b \<or> b + 1 \<le> a \<Longrightarrow> load8u (store8 m a v) b = load8u m b"
  "a + 2 \<le> b \<or> b + 1 \<le> a \<Longrightarrow> load8u (store16 m a v) b = load8u m b"
  "a + 4 \<le> b \<or> b + 1 \<le> a \<Longrightarrow> load8u (store32 m a v) b = load8u m b"
  "a + 1 \<le> b \<or> b + 2 \<le> a \<Longrightarrow> load16u (store8 m a v) b = load16u m b"
  "a + 2 \<le> b \<or> b + 2 \<le> a \<Longrightarrow> load16u (store16 m a v) b = load16u m b"
  "a + 4 \<le> b \<or> b + 2 \<le> a \<Longrightarrow> load16u (store32 m a v) b = load16u m b"
  "a + 1 \<le> b \<or> b + 4 \<le> a \<Longrightarrow> load32u (store8 m a v) b = load32u m b"
  "a + 2 \<le> b \<or> b + 4 \<le> a \<Longrightarrow> load32u (store16 m a v) b = load32u m b"
  "a + 4 \<le> b \<or> b + 4 \<le> a \<Longrightarrow> load32u (store32 m a v) b = load32u m b"
  using same_outside_store8 same_outside_store16 same_outside_store32
  by (blast intro: load8u_cong load16u_cong load32u_cong)+

section \<open>Bits of natural numbers\<close>

lemma bit_ge_exp_nat: "(g::nat) < 2 ^ j \<Longrightarrow> bit g k \<Longrightarrow> k < j"
  by (metis bit_take_bit_iff take_bit_nat_eq_self)

lemma bit_add_top: "(g::nat) < 2 ^ j \<Longrightarrow> bit (g + 2 ^ j) k \<longleftrightarrow> k = j \<or> bit g k"
proof -
  assume g: "g < 2 ^ j"
  have "g + 2 ^ j = g OR 2 ^ j"
    by (rule disjunctive_add) (use bit_ge_exp_nat [OF g] in \<open>auto simp: bit_exp_iff\<close>)
  then show ?thesis
    by (auto simp: bit_or_iff bit_exp_iff)
qed

lemma drop_bit_mod_2: "drop_bit i (n::nat) mod 2 = of_bool (bit n i)"
  by (simp add: bit_iff_odd_drop_bit odd_iff_mod_2_eq_one)

lemma drop_bit_and_1: "drop_bit i (n::nat) AND 1 = of_bool (bit n i)"
  by (simp add: and_one_eq drop_bit_mod_2)

end
