(* ===== verification/Compress_Types.thy ===== *)
theory Compress_Types
  imports Flight_Prelude
begin

text \<open>
  The data of the compression library: the encoding types, error codes, channel headers and
  channel structures of \<open>common/includes/anitaStructures.h\<close> and
  \<open>common/compressLib/compressLib.h\<close>, and the four switch statements of
  \<open>compressLib.c\<close> that translate between bit sizes and encoding types.
\<close>

named_theorems enc_type_simps \<open>encoding types and their bit sizes\<close>

section \<open>Encoding types\<close>

text \<open>
  The enumerators in the order of the header. A variable of the enumeration that was read from a
  packet can hold any integer: \<open>ENCODE_OTHER\<close> is a value that is no enumerator.
\<close>

datatype ChannelEncodingType_t =
    ENCODE_NONE
  | ENCODE_LOSSLESS_12BIT
  | ENCODE_LOSSLESS_BINARY
  | ENCODE_LOSSLESS_11BIT
  | ENCODE_LOSSLESS_10BIT
  | ENCODE_LOSSLESS_9BIT
  | ENCODE_LOSSLESS_8BIT
  | ENCODE_LOSSLESS_7BIT
  | ENCODE_LOSSLESS_6BIT
  | ENCODE_LOSSLESS_5BIT
  | ENCODE_LOSSLESS_4BIT
  | ENCODE_LOSSLESS_3BIT
  | ENCODE_LOSSLESS_2BIT
  | ENCODE_LOSSLESS_1BIT
  | ENCODE_LOSSLESS_FIBONACCI
  | ENCODE_LOSSLESS_BINFIB_COMBO
  | ENCODE_LOSSLESS_BINFIB_10BIT
  | ENCODE_LOSSLESS_BINFIB_9BIT
  | ENCODE_LOSSLESS_BINFIB_8BIT
  | ENCODE_LOSSLESS_BINFIB_7BIT
  | ENCODE_LOSSLESS_BINFIB_6BIT
  | ENCODE_LOSSLESS_BINFIB_5BIT
  | ENCODE_LOSSLESS_BINFIB_4BIT
  | ENCODE_LOSSLESS_BINFIB_3BIT
  | ENCODE_LOSSLESS_BINFIB_2BIT
  | ENCODE_LOSSLESS_BINFIB_1BIT
  | ENCODE_LOSSY_MULAW
  | ENCODE_LOSSY_MULAW_8BIT
  | ENCODE_LOSSY_MULAW_7BIT
  | ENCODE_LOSSY_MULAW_6BIT
  | ENCODE_LOSSY_MULAW_5BIT
  | ENCODE_LOSSY_MULAW_4BIT
  | ENCODE_LOSSY_MULAW_3BIT
  | ENCODE_LOSSY_MULAW_11_8
  | ENCODE_LOSSY_MULAW_11_7
  | ENCODE_LOSSY_MULAW_11_6
  | ENCODE_LOSSY_MULAW_11_5
  | ENCODE_LOSSY_MULAW_11_4
  | ENCODE_LOSSY_MULAW_11_3
  | ENCODE_LOSSY_MULAW_10_8
  | ENCODE_LOSSY_MULAW_10_7
  | ENCODE_LOSSY_MULAW_10_6
  | ENCODE_LOSSY_MULAW_10_5
  | ENCODE_LOSSY_MULAW_10_4
  | ENCODE_LOSSY_MULAW_10_3
  | ENCODE_LOSSY_MULAW_9_7
  | ENCODE_LOSSY_MULAW_9_6
  | ENCODE_LOSSY_MULAW_9_5
  | ENCODE_LOSSY_MULAW_9_4
  | ENCODE_LOSSY_MULAW_9_3
  | ENCODE_LOSSY_MULAW_8_6
  | ENCODE_LOSSY_MULAW_8_5
  | ENCODE_LOSSY_MULAW_8_4
  | ENCODE_LOSSY_MULAW_8_3
  | ENCODE_LOSSY_MULAW_7_5
  | ENCODE_LOSSY_MULAW_7_4
  | ENCODE_LOSSY_MULAW_7_3
  | ENCODE_LOSSY_MULAW_6_4
  | ENCODE_LOSSY_MULAW_6_3
  | ENCODE_OTHER int

text \<open>The integer an enumerator stands for in memory.\<close>

definition encType_code :: "ChannelEncodingType_t \<Rightarrow> int" where
  "encType_code t = (case t of
     ENCODE_NONE \<Rightarrow> 0
   | ENCODE_LOSSLESS_12BIT \<Rightarrow> 256
   | ENCODE_LOSSLESS_BINARY \<Rightarrow> 257
   | ENCODE_LOSSLESS_11BIT \<Rightarrow> 258
   | ENCODE_LOSSLESS_10BIT \<Rightarrow> 259
   | ENCODE_LOSSLESS_9BIT \<Rightarrow> 260
   | ENCODE_LOSSLESS_8BIT \<Rightarrow> 261
   | ENCODE_LOSSLESS_7BIT \<Rightarrow> 262
   | ENCODE_LOSSLESS_6BIT \<Rightarrow> 263
   | ENCODE_LOSSLESS_5BIT \<Rightarrow> 264
   | ENCODE_LOSSLESS_4BIT \<Rightarrow> 265
   | ENCODE_LOSSLESS_3BIT \<Rightarrow> 266
   | ENCODE_LOSSLESS_2BIT \<Rightarrow> 267
   | ENCODE_LOSSLESS_1BIT \<Rightarrow> 268
   | ENCODE_LOSSLESS_FIBONACCI \<Rightarrow> 269
   | ENCODE_LOSSLESS_BINFIB_COMBO \<Rightarrow> 512
   | ENCODE_LOSSLESS_BINFIB_10BIT \<Rightarrow> 513
   | ENCODE_LOSSLESS_BINFIB_9BIT \<Rightarrow> 514
   | ENCODE_LOSSLESS_BINFIB_8BIT \<Rightarrow> 515
   | ENCODE_LOSSLESS_BINFIB_7BIT \<Rightarrow> 516
   | ENCODE_LOSSLESS_BINFIB_6BIT \<Rightarrow> 517
   | ENCODE_LOSSLESS_BINFIB_5BIT \<Rightarrow> 518
   | ENCODE_LOSSLESS_BINFIB_4BIT \<Rightarrow> 519
   | ENCODE_LOSSLESS_BINFIB_3BIT \<Rightarrow> 520
   | ENCODE_LOSSLESS_BINFIB_2BIT \<Rightarrow> 521
   | ENCODE_LOSSLESS_BINFIB_1BIT \<Rightarrow> 522
   | ENCODE_LOSSY_MULAW \<Rightarrow> 768
   | ENCODE_LOSSY_MULAW_8BIT \<Rightarrow> 769
   | ENCODE_LOSSY_MULAW_7BIT \<Rightarrow> 770
   | ENCODE_LOSSY_MULAW_6BIT \<Rightarrow> 771
   | ENCODE_LOSSY_MULAW_5BIT \<Rightarrow> 772
   | ENCODE_LOSSY_MULAW_4BIT \<Rightarrow> 773
   | ENCODE_LOSSY_MULAW_3BIT \<Rightarrow> 774
   | ENCODE_LOSSY_MULAW_11_8 \<Rightarrow> 775
   | ENCODE_LOSSY_MULAW_11_7 \<Rightarrow> 776
   | ENCODE_LOSSY_MULAW_11_6 \<Rightarrow> 777
   | ENCODE_LOSSY_MULAW_11_5 \<Rightarrow> 778
   | ENCODE_LOSSY_MULAW_11_4 \<Rightarrow> 779
   | ENCODE_LOSSY_MULAW_11_3 \<Rightarrow> 780
   | ENCODE_LOSSY_MULAW_10_8 \<Rightarrow> 781
   | ENCODE_LOSSY_MULAW_10_7 \<Rightarrow> 782
   | ENCODE_LOSSY_MULAW_10_6 \<Rightarrow> 783
   | ENCODE_LOSSY_MULAW_10_5 \<Rightarrow> 784
   | ENCODE_LOSSY_MULAW_10_4 \<Rightarrow> 785
   | ENCODE_LOSSY_MULAW_10_3 \<Rightarrow> 786
   | ENCODE_LOSSY_MULAW_9_7 \<Rightarrow> 787
   | ENCODE_LOSSY_MULAW_9_6 \<Rightarrow> 788
   | ENCODE_LOSSY_MULAW_9_5 \<Rightarrow> 789
   | ENCODE_LOSSY_MULAW_9_4 \<Rightarrow> 790
   | ENCODE_LOSSY_MULAW_9_3 \<Rightarrow> 791
   | ENCODE_LOSSY_MULAW_8_6 \<Rightarrow> 792
   | ENCODE_LOSSY_MULAW_8_5 \<Rightarrow> 793
   | ENCODE_LOSSY_MULAW_8_4 \<Rightarrow> 794
   | ENCODE_LOSSY_MULAW_8_3 \<Rightarrow> 795
   | ENCODE_LOSSY_MULAW_7_5 \<Rightarrow> 796
   | ENCODE_LOSSY_MULAW_7_4 \<Rightarrow> 797
   | ENCODE_LOSSY_MULAW_7_3 \<Rightarrow> 798
   | ENCODE_LOSSY_MULAW_6_4 \<Rightarrow> 799
   | ENCODE_LOSSY_MULAW_6_3 \<Rightarrow> 800
   | ENCODE_OTHER v \<Rightarrow> v)"

definition encType_of_code :: "int \<Rightarrow> ChannelEncodingType_t" where
  "encType_of_code v =
    (if v = 0 then ENCODE_NONE else
     if v = 256 then ENCODE_LOSSLESS_12BIT else
     if v = 257 then ENCODE_LOSSLESS_BINARY else
     if v = 258 then ENCODE_LOSSLESS_11BIT else
     if v = 259 then ENCODE_LOSSLESS_10BIT else
     if v = 260 then ENCODE_LOSSLESS_9BIT else
     if v = 261 then ENCODE_LOSSLESS_8BIT else
     if v = 262 then ENCODE_LOSSLESS_7BIT else
     if v = 263 then ENCODE_LOSSLESS_6BIT else
     if v = 264 then ENCODE_LOSSLESS_5BIT else
     if v = 265 then ENCODE_LOSSLESS_4BIT else
     if v = 266 then ENCODE_LOSSLESS_3BIT else
     if v = 267 then ENCODE_LOSSLESS_2BIT else
     if v = 268 then ENCODE_LOSSLESS_1BIT else
     if v = 269 then ENCODE_LOSSLESS_FIBONACCI else
     if v = 512 then ENCODE_LOSSLESS_BINFIB_COMBO else
     if v = 513 then ENCODE_LOSSLESS_BINFIB_10BIT else
     if v = 514 then ENCODE_LOSSLESS_BINFIB_9BIT else
     if v = 515 then ENCODE_LOSSLESS_BINFIB_8BIT else
     if v = 516 then ENCODE_LOSSLESS_BINFIB_7BIT else
     if v = 517 then ENCODE_LOSSLESS_BINFIB_6BIT else
     if v = 518 then ENCODE_LOSSLESS_BINFIB_5BIT else
     if v = 519 then ENCODE_LOSSLESS_BINFIB_4BIT else
     if v = 520 then ENCODE_LOSSLESS_BINFIB_3BIT else
     if v = 521 then ENCODE_LOSSLESS_BINFIB_2BIT else
     if v = 522 then ENCODE_LOSSLESS_BINFIB_1BIT else
     if v = 768 then ENCODE_LOSSY_MULAW else
     if v = 769 then ENCODE_LOSSY_MULAW_8BIT else
     if v = 770 then ENCODE_LOSSY_MULAW_7BIT else
     if v = 771 then ENCODE_LOSSY_MULAW_6BIT else
     if v = 772 then ENCODE_LOSSY_MULAW_5BIT else
     if v = 773 then ENCODE_LOSSY_MULAW_4BIT else
     if v = 774 then ENCODE_LOSSY_MULAW_3BIT else
     if v = 775 then ENCODE_LOSSY_MULAW_11_8 else
     if v = 776 then ENCODE_LOSSY_MULAW_11_7 else
     if v = 777 then ENCODE_LOSSY_MULAW_11_6 else
     if v = 778 then ENCODE_LOSSY_MULAW_11_5 else
     if v = 779 then ENCODE_LOSSY_MULAW_11_4 else
     if v = 780 then ENCODE_LOSSY_MULAW_11_3 else
     if v = 781 then ENCODE_LOSSY_MULAW_10_8 else
     if v = 782 then ENCODE_LOSSY_MULAW_10_7 else
     if v = 783 then ENCODE_LOSSY_MULAW_10_6 else
     if v = 784 then ENCODE_LOSSY_MULAW_10_5 else
     if v = 785 then ENCODE_LOSSY_MULAW_10_4 else
     if v = 786 then ENCODE_LOSSY_MULAW_10_3 else
     if v = 787 then ENCODE_LOSSY_MULAW_9_7 else
     if v = 788 then ENCODE_LOSSY_MULAW_9_6 else
     if v = 789 then ENCODE_LOSSY_MULAW_9_5 else
     if v = 790 then ENCODE_LOSSY_MULAW_9_4 else
     if v = 791 then ENCODE_LOSSY_MULAW_9_3 else
     if v = 792 then ENCODE_LOSSY_MULAW_8_6 else
     if v = 793 then ENCODE_LOSSY_MULAW_8_5 else
     if v = 794 then ENCODE_LOSSY_MULAW_8_4 else
     if v = 795 then ENCODE_LOSSY_MULAW_8_3 else
     if v = 796 then ENCODE_LOSSY_MULAW_7_5 else
     if v = 797 then ENCODE_LOSSY_MULAW_7_4 else
     if v = 798 then ENCODE_LOSSY_MULAW_7_3 else
     if v = 799 then ENCODE_LOSSY_MULAW_6_4 else
     if v = 800 then ENCODE_LOSSY_MULAW_6_3 else
     ENCODE_OTHER v)"

definition getBinaryEncType :: "int \<Rightarrow> ChannelEncodingType_t" where
  "getBinaryEncType bitSize =
    (if bitSize = 12 then ENCODE_LOSSLESS_12BIT else
     if bitSize = 11 then ENCODE_LOSSLESS_11BIT else
     if bitSize = 10 then ENCODE_LOSSLESS_10BIT else
     if bitSize = 9 then ENCODE_LOSSLESS_9BIT else
     if bitSize = 8 then ENCODE_LOSSLESS_8BIT else
     if bitSize = 7 then ENCODE_LOSSLESS_7BIT else
     if bitSize = 6 then ENCODE_LOSSLESS_6BIT else
     if bitSize = 5 then ENCODE_LOSSLESS_5BIT else
     if bitSize = 4 then ENCODE_LOSSLESS_4BIT else
     if bitSize = 3 then ENCODE_LOSSLESS_3BIT else
     if bitSize = 2 then ENCODE_LOSSLESS_2BIT else
     if bitSize = 1 then ENCODE_LOSSLESS_1BIT else
     ENCODE_LOSSLESS_12BIT)"

definition getBinFibEncType :: "int \<Rightarrow> ChannelEncodingType_t" where
  "getBinFibEncType bitSize =
    (if bitSize = 10 then ENCODE_LOSSLESS_BINFIB_10BIT else
     if bitSize = 9 then ENCODE_LOSSLESS_BINFIB_9BIT else
     if bitSize = 8 then ENCODE_LOSSLESS_BINFIB_8BIT else
     if bitSize = 7 then ENCODE_LOSSLESS_BINFIB_7BIT else
     if bitSize = 6 then ENCODE_LOSSLESS_BINFIB_6BIT else
     if bitSize = 5 then ENCODE_LOSSLESS_BINFIB_5BIT else
     if bitSize = 4 then ENCODE_LOSSLESS_BINFIB_4BIT else
     if bitSize = 3 then ENCODE_LOSSLESS_BINFIB_3BIT else
     if bitSize = 2 then ENCODE_LOSSLESS_BINFIB_2BIT else
     if bitSize = 1 then ENCODE_LOSSLESS_BINFIB_1BIT else
     ENCODE_LOSSLESS_BINFIB_10BIT)"

definition getBinaryBitSize :: "ChannelEncodingType_t \<Rightarrow> nat" where
  "getBinaryBitSize encType = (case encType of
     ENCODE_LOSSLESS_12BIT \<Rightarrow> 12
   | ENCODE_LOSSLESS_11BIT \<Rightarrow> 11
   | ENCODE_LOSSLESS_10BIT \<Rightarrow> 10
   | ENCODE_LOSSLESS_9BIT \<Rightarrow> 9
   | ENCODE_LOSSLESS_8BIT \<Rightarrow> 8
   | ENCODE_LOSSLESS_7BIT \<Rightarrow> 7
   | ENCODE_LOSSLESS_6BIT \<Rightarrow> 6
   | ENCODE_LOSSLESS_5BIT \<Rightarrow> 5
   | ENCODE_LOSSLESS_4BIT \<Rightarrow> 4
   | ENCODE_LOSSLESS_3BIT \<Rightarrow> 3
   | ENCODE_LOSSLESS_2BIT \<Rightarrow> 2
   | ENCODE_LOSSLESS_1BIT \<Rightarrow> 1
   | _ \<Rightarrow> 12)"

definition getBinFibBitSize :: "ChannelEncodingType_t \<Rightarrow> nat" where
  "getBinFibBitSize encType = (case encType of
     ENCODE_LOSSLESS_BINFIB_10BIT \<Rightarrow> 10
   | ENCODE_LOSSLESS_BINFIB_9BIT \<Rightarrow> 9
   | ENCODE_LOSSLESS_BINFIB_8BIT \<Rightarrow> 8
   | ENCODE_LOSSLESS_BINFIB_7BIT \<Rightarrow> 7
   | ENCODE_LOSSLESS_BINFIB_6BIT \<Rightarrow> 6
   | ENCODE_LOSSLESS_BINFIB_5BIT \<Rightarrow> 5
   | ENCODE_LOSSLESS_BINFIB_4BIT \<Rightarrow> 4
   | ENCODE_LOSSLESS_BINFIB_3BIT \<Rightarrow> 3
   | ENCODE_LOSSLESS_BINFIB_2BIT \<Rightarrow> 2
   | ENCODE_LOSSLESS_BINFIB_1BIT \<Rightarrow> 1
   | _ \<Rightarrow> 10)"

text \<open>The pair is \<open>(*inputPtr, *mulawPtr)\<close>.\<close>

definition getInputAndMuLawBits :: "ChannelEncodingType_t \<Rightarrow> nat \<times> nat" where
  "getInputAndMuLawBits encType = (case encType of
     ENCODE_LOSSY_MULAW_11_8 \<Rightarrow> (11, 8)
   | ENCODE_LOSSY_MULAW_11_7 \<Rightarrow> (11, 7)
   | ENCODE_LOSSY_MULAW_11_6 \<Rightarrow> (11, 6)
   | ENCODE_LOSSY_MULAW_11_5 \<Rightarrow> (11, 5)
   | ENCODE_LOSSY_MULAW_11_4 \<Rightarrow> (11, 4)
   | ENCODE_LOSSY_MULAW_11_3 \<Rightarrow> (11, 3)
   | ENCODE_LOSSY_MULAW_10_8 \<Rightarrow> (10, 8)
   | ENCODE_LOSSY_MULAW_10_7 \<Rightarrow> (10, 7)
   | ENCODE_LOSSY_MULAW_10_6 \<Rightarrow> (10, 6)
   | ENCODE_LOSSY_MULAW_10_5 \<Rightarrow> (10, 5)
   | ENCODE_LOSSY_MULAW_10_4 \<Rightarrow> (10, 4)
   | ENCODE_LOSSY_MULAW_10_3 \<Rightarrow> (10, 3)
   | ENCODE_LOSSY_MULAW_9_7 \<Rightarrow> (9, 7)
   | ENCODE_LOSSY_MULAW_9_6 \<Rightarrow> (9, 6)
   | ENCODE_LOSSY_MULAW_9_5 \<Rightarrow> (9, 5)
   | ENCODE_LOSSY_MULAW_9_4 \<Rightarrow> (9, 4)
   | ENCODE_LOSSY_MULAW_9_3 \<Rightarrow> (9, 3)
   | ENCODE_LOSSY_MULAW_8_6 \<Rightarrow> (8, 6)
   | ENCODE_LOSSY_MULAW_8_5 \<Rightarrow> (8, 5)
   | ENCODE_LOSSY_MULAW_8_4 \<Rightarrow> (8, 4)
   | ENCODE_LOSSY_MULAW_8_3 \<Rightarrow> (8, 3)
   | ENCODE_LOSSY_MULAW_7_5 \<Rightarrow> (7, 5)
   | ENCODE_LOSSY_MULAW_7_4 \<Rightarrow> (7, 4)
   | ENCODE_LOSSY_MULAW_7_3 \<Rightarrow> (7, 3)
   | ENCODE_LOSSY_MULAW_6_4 \<Rightarrow> (6, 4)
   | ENCODE_LOSSY_MULAW_6_3 \<Rightarrow> (6, 3)
   | _ \<Rightarrow> (11, 8))"

definition getEncodingTypeFromInputAndMuLawBits :: "nat \<Rightarrow> nat \<Rightarrow> ChannelEncodingType_t" where
  "getEncodingTypeFromInputAndMuLawBits inputBits mulawBits =
    (if inputBits = 11 then
      (if mulawBits = 8 then ENCODE_LOSSY_MULAW_11_8 else
      if mulawBits = 7 then ENCODE_LOSSY_MULAW_11_7 else
      if mulawBits = 6 then ENCODE_LOSSY_MULAW_11_6 else
      if mulawBits = 5 then ENCODE_LOSSY_MULAW_11_5 else
      if mulawBits = 4 then ENCODE_LOSSY_MULAW_11_4 else
      if mulawBits = 3 then ENCODE_LOSSY_MULAW_11_3 else ENCODE_LOSSY_MULAW_11_8)
     else if inputBits = 10 then
      (if mulawBits = 8 then ENCODE_LOSSY_MULAW_10_8 else
      if mulawBits = 7 then ENCODE_LOSSY_MULAW_10_7 else
      if mulawBits = 6 then ENCODE_LOSSY_MULAW_10_6 else
      if mulawBits = 5 then ENCODE_LOSSY_MULAW_10_5 else
      if mulawBits = 4 then ENCODE_LOSSY_MULAW_10_4 else
      if mulawBits = 3 then ENCODE_LOSSY_MULAW_10_3 else ENCODE_LOSSY_MULAW_10_8)
     else if inputBits = 9 then
      (if mulawBits = 7 then ENCODE_LOSSY_MULAW_9_7 else
      if mulawBits = 6 then ENCODE_LOSSY_MULAW_9_6 else
      if mulawBits = 5 then ENCODE_LOSSY_MULAW_9_5 else
      if mulawBits = 4 then ENCODE_LOSSY_MULAW_9_4 else
      if mulawBits = 3 then ENCODE_LOSSY_MULAW_9_3 else ENCODE_LOSSY_MULAW_9_7)
     else if inputBits = 8 then
      (if mulawBits = 6 then ENCODE_LOSSY_MULAW_8_6 else
      if mulawBits = 5 then ENCODE_LOSSY_MULAW_8_5 else
      if mulawBits = 4 then ENCODE_LOSSY_MULAW_8_4 else
      if mulawBits = 3 then ENCODE_LOSSY_MULAW_8_3 else ENCODE_LOSSY_MULAW_8_6)
     else if inputBits = 7 then
      (if mulawBits = 5 then ENCODE_LOSSY_MULAW_7_5 else
      if mulawBits = 4 then ENCODE_LOSSY_MULAW_7_4 else
      if mulawBits = 3 then ENCODE_LOSSY_MULAW_7_3 else ENCODE_LOSSY_MULAW_7_5)
     else if inputBits = 6 then
      (if mulawBits = 4 then ENCODE_LOSSY_MULAW_6_4 else
      if mulawBits = 3 then ENCODE_LOSSY_MULAW_6_3 else ENCODE_LOSSY_MULAW_6_4)
     else 
      (if mulawBits = 8 then ENCODE_LOSSY_MULAW_11_8 else
      if mulawBits = 7 then ENCODE_LOSSY_MULAW_11_7 else
      if mulawBits = 6 then ENCODE_LOSSY_MULAW_11_6 else
      if mulawBits = 5 then ENCODE_LOSSY_MULAW_11_5 else
      if mulawBits = 4 then ENCODE_LOSSY_MULAW_11_4 else
      if mulawBits = 3 then ENCODE_LOSSY_MULAW_11_3 else ENCODE_LOSSY_MULAW_11_8))"

section \<open>Error codes\<close>

datatype CompressErrorCode_t =
    COMPRESS_E_OK
  | COMPRESS_E_PACK
  | COMPRESS_E_BADSIZE
  | COMPRESS_E_UNPACK
  | COMPRESS_E_NO_PEDS
  | COMPRESS_E_BAD_PEDS
  | COMPRESS_E_TOO_BIG
  | COMPRESS_E_BAD_CRC
  | COMPRESS_E_BAD_CODE

definition compressErrorCodeAsString :: "CompressErrorCode_t \<Rightarrow> string" where
  "compressErrorCodeAsString code = (case code of
     COMPRESS_E_OK \<Rightarrow> ''Success''
   | COMPRESS_E_PACK \<Rightarrow> ''Error packing data''
   | COMPRESS_E_BADSIZE \<Rightarrow> ''Enocded data size wrong''
   | COMPRESS_E_UNPACK \<Rightarrow> ''Error unpacking data''
   | COMPRESS_E_NO_PEDS \<Rightarrow> ''Pedestals not available''
   | COMPRESS_E_BAD_PEDS \<Rightarrow> ''Pedestals malformed''
   | COMPRESS_E_TOO_BIG \<Rightarrow> ''Data overflow''
   | COMPRESS_E_BAD_CRC \<Rightarrow> ''Checksum mismatch''
   | _ \<Rightarrow> ''Unknown error code'')"

section \<open>Channels\<close>

abbreviation (input) ACTIVE_SURFS :: nat where "ACTIVE_SURFS \<equiv> 12"
abbreviation (input) CHANNELS_PER_SURF :: nat where "CHANNELS_PER_SURF \<equiv> 9"
abbreviation (input) NUM_DIGITZED_CHANNELS :: nat where "NUM_DIGITZED_CHANNELS \<equiv> 108"
abbreviation (input) MAX_NUMBER_SAMPLES :: nat where "MAX_NUMBER_SAMPLES \<equiv> 260"

definition GetChanIndex :: "nat \<Rightarrow> nat \<Rightarrow> nat" where
  "GetChanIndex a b = b + CHANNELS_PER_SURF * a"

text \<open>The four header bytes of a channel.\<close>

record RawSurfChannelHeader_t =
  chanId :: int
  chipIdFlag :: int
  firstHitbus :: int
  lastHitbus :: int

text \<open>A raw channel: \<open>unsigned short\<close> samples.\<close>

record SurfChannelFull_t =
  full_header :: RawSurfChannelHeader_t
  full_data :: "int list"

text \<open>
  A pedestal subtracted channel: \<open>short\<close> samples and extrema. The \<open>float\<close> fields
  are modelled by reals.
\<close>

record SurfChannelPedSubbed_t =
  ps_header :: RawSurfChannelHeader_t
  xMax :: int
  xMin :: int
  ps_mean :: real
  ps_rms :: real
  ps_data :: "int list"

definition wf_header :: "RawSurfChannelHeader_t \<Rightarrow> bool" where
  "wf_header h \<longleftrightarrow> is_u8 (chanId h) \<and> is_u8 (chipIdFlag h) \<and> is_u8 (firstHitbus h) \<and> is_u8 (lastHitbus h)"

definition wf_channel :: "SurfChannelPedSubbed_t \<Rightarrow> bool" where
  "wf_channel ch \<longleftrightarrow> wf_header (ps_header ch) \<and> is_s16 (xMax ch) \<and> is_s16 (xMin ch) \<and>
     length (ps_data ch) = MAX_NUMBER_SAMPLES \<and> (\<forall>x\<in>set (ps_data ch). is_s16 x)"

section \<open>Bit sizes and encoding types\<close>

lemma encType_of_code_code: "encType_of_code (encType_code t) = t \<or> (\<exists>v. t = ENCODE_OTHER v)"
  by (cases t) (simp_all add: encType_of_code_def encType_code_def)

lemma getBinary_bitSize [enc_type_simps]:
  "1 \<le> n \<Longrightarrow> n \<le> 12 \<Longrightarrow> getBinaryBitSize (getBinaryEncType (int n)) = n"
proof -
  assume "1 \<le> n" "n \<le> 12"
  then have "n \<in> {1, 2, 3, 4, 5, 6, 7, 8, 9, 10, 11, 12}"
    by (simp add: set_eq_iff) presburger
  then show ?thesis
    by (auto simp: getBinaryEncType_def getBinaryBitSize_def)
qed

lemma getBinFib_bitSize [enc_type_simps]:
  "1 \<le> n \<Longrightarrow> n \<le> 10 \<Longrightarrow> getBinFibBitSize (getBinFibEncType (int n)) = n"
proof -
  assume "1 \<le> n" "n \<le> 10"
  then have "n \<in> {1, 2, 3, 4, 5, 6, 7, 8, 9, 10}"
    by (simp add: set_eq_iff) presburger
  then show ?thesis
    by (auto simp: getBinFibEncType_def getBinFibBitSize_def)
qed

text \<open>The 26 pairs of input bits and mu-law bits that have tables.\<close>

definition mulaw_pairs :: "(nat \<times> nat) list" where
  "mulaw_pairs = [(11, 8), (11, 7), (11, 6), (11, 5), (11, 4), (11, 3),
     (10, 8), (10, 7), (10, 6), (10, 5), (10, 4), (10, 3),
     (9, 7), (9, 6), (9, 5), (9, 4), (9, 3), (8, 6), (8, 5), (8, 4), (8, 3),
     (7, 5), (7, 4), (7, 3), (6, 4), (6, 3)]"

lemma mulaw_bits_of_encType [enc_type_simps]:
  "(i, m) \<in> set mulaw_pairs \<Longrightarrow>
   getInputAndMuLawBits (getEncodingTypeFromInputAndMuLawBits i m) = (i, m)"
  by (auto simp: mulaw_pairs_def getInputAndMuLawBits_def getEncodingTypeFromInputAndMuLawBits_def)

end
