(* ===== verification/Wave_Interface.thy ===== *)
theory Wave_Interface
  imports Compress_Types
begin

text \<open>
  The interface between the channel layer and the waveform codecs of \<open>compressLib.c\<close>.
  An encoder writes a waveform at an address and returns the memory, the number of bytes and
  the encoding type; a decoder reads it back. \<open>decodes_to\<close> says that the bytes at an address
  are, whatever is around them and whatever is written elsewhere afterwards, the encoding of
  given samples.
\<close>

definition decodes_to ::
    "(mem \<Rightarrow> nat \<Rightarrow> int \<Rightarrow> SurfChannelPedSubbed_t \<Rightarrow> ChannelEncodingType_t \<Rightarrow>
       (CompressErrorCode_t \<times> SurfChannelPedSubbed_t) option) \<Rightarrow>
     mem \<Rightarrow> nat \<Rightarrow> nat \<Rightarrow> ChannelEncodingType_t \<Rightarrow> int list \<Rightarrow> bool" where
  "decodes_to dec m input n encType xs \<longleftrightarrow>
     (\<forall>m' ch. same_inside m m' input (input + n) \<and> length (ps_data ch) = MAX_NUMBER_SAMPLES \<longrightarrow>
        dec m' input (int n) ch encType = Some (COMPRESS_E_OK, ch\<lparr>ps_data := xs\<rparr>))"

locale wave_codec =
  fixes enc :: "nat \<Rightarrow> SurfChannelPedSubbed_t \<Rightarrow> mem \<Rightarrow> (mem \<times> nat \<times> ChannelEncodingType_t) option"
    and dec :: "mem \<Rightarrow> nat \<Rightarrow> int \<Rightarrow> SurfChannelPedSubbed_t \<Rightarrow> ChannelEncodingType_t \<Rightarrow>
      (CompressErrorCode_t \<times> SurfChannelPedSubbed_t) option"
    and valid :: "SurfChannelPedSubbed_t \<Rightarrow> bool"
    and result :: "SurfChannelPedSubbed_t \<Rightarrow> int list"
    and bound :: nat
  assumes law: "valid ch \<Longrightarrow> zeroed m buffer (buffer + bound) \<Longrightarrow>
    \<exists>m' n encType. enc buffer ch m = Some (m', n, encType) \<and> n \<le> bound \<and>
      same_outside m m' buffer (buffer + n) \<and> decodes_to dec m' buffer n encType (result ch)"
begin

lemma encodes:
  assumes "valid ch" "zeroed m buffer (buffer + bound)"
  obtains m' n encType where "enc buffer ch m = Some (m', n, encType)" "n \<le> bound"
    "same_outside m m' buffer (buffer + n)" "decodes_to dec m' buffer n encType (result ch)"
  using law [OF assms] by blast

text \<open>The same facts with a larger area and through another decoder that agrees on the type.\<close>

lemma encodes_in:
  assumes "valid ch" "zeroed m buffer (buffer + b)" "bound \<le> b"
    and "\<And>m' n t. enc buffer ch m = Some (m', n, t) \<Longrightarrow> (\<forall>m i k c. dec' m i k c t = dec m i k c t)"
  shows "\<exists>m' n encType. enc buffer ch m = Some (m', n, encType) \<and> n \<le> b \<and>
      same_outside m m' buffer (buffer + n) \<and> decodes_to dec' m' buffer n encType (result ch)"
proof -
  have "zeroed m buffer (buffer + bound)"
    by (rule zeroed_mono [OF assms(2)]) (use assms(3) in auto)
  from law [OF assms(1) this] assms(3,4) show ?thesis
    unfolding decodes_to_def by fastforce
qed

text \<open>Decoding what was just written.\<close>

lemma immediate:
  assumes "valid ch" "zeroed m buffer (buffer + bound)" "length (ps_data ch') = MAX_NUMBER_SAMPLES"
    and "enc buffer ch m = Some (m', n, encType)"
  shows "dec m' buffer (int n) ch' encType = Some (COMPRESS_E_OK, ch'\<lparr>ps_data := result ch\<rparr>)"
  using law [OF assms(1,2)] assms(3,4) by (auto simp: decodes_to_def)

lemma written_and_read:
  assumes "valid ch" "zeroed m buffer (buffer + bound)" "length (ps_data ch') = MAX_NUMBER_SAMPLES"
  shows "\<exists>m' n encType. enc buffer ch m = Some (m', n, encType) \<and> n \<le> bound \<and>
    same_outside m m' buffer (buffer + n) \<and>
    dec m' buffer (int n) ch' encType = Some (COMPRESS_E_OK, ch'\<lparr>ps_data := result ch\<rparr>)"
  using law [OF assms(1,2)] assms(3) unfolding decodes_to_def by (metis same_inside_refl)

text \<open>Two waveforms one after the other.\<close>

lemma consecutive:
  assumes "valid ch1" "valid ch2" "zeroed m buffer (buffer + 2 * bound)"
    and "length (ps_data ch') = MAX_NUMBER_SAMPLES"
  obtains m1 n1 t1 m2 n2 t2 where
    "enc buffer ch1 m = Some (m1, n1, t1)" "enc (buffer + n1) ch2 m1 = Some (m2, n2, t2)"
    "dec m2 buffer (int n1) ch' t1 = Some (COMPRESS_E_OK, ch'\<lparr>ps_data := result ch1\<rparr>)"
    "dec m2 (buffer + n1) (int n2) ch' t2 = Some (COMPRESS_E_OK, ch'\<lparr>ps_data := result ch2\<rparr>)"
proof -
  have "zeroed m buffer (buffer + bound)"
    by (rule zeroed_mono [OF assms(3)]) auto
  then obtain m1 n1 t1 where 1: "enc buffer ch1 m = Some (m1, n1, t1)" "n1 \<le> bound"
    "same_outside m m1 buffer (buffer + n1)" "decodes_to dec m1 buffer n1 t1 (result ch1)"
    using encodes [OF assms(1)] by metis
  have "zeroed m1 (buffer + n1) (buffer + n1 + bound)"
    by (rule zeroed_outside [OF zeroed_mono [OF assms(3)] 1(3)]) (use 1(2) in auto)
  then obtain m2 n2 t2 where 2: "enc (buffer + n1) ch2 m1 = Some (m2, n2, t2)"
    "same_outside m1 m2 (buffer + n1) (buffer + n1 + n2)"
    "decodes_to dec m2 (buffer + n1) n2 t2 (result ch2)"
    using encodes [OF assms(2)] by metis
  have "same_inside m1 m2 buffer (buffer + n1)"
    by (rule same_outside_inside [OF 2(2)]) simp
  then show thesis
    using that [OF 1(1) 2(1)] 1(4) 2(3) assms(4) by (simp add: decodes_to_def)
qed

end

end
