(* ===== verification/Bit_Stream.thy ===== *)
theory Bit_Stream
  imports Compress_Types
begin

text \<open>
  The bit packing loop that \<open>compressLib.c\<close> repeats in each of its encoders, and the bit
  extraction loop that it repeats in each of its decoders.
  A cursor is the pair \<open>currentChar\<close>, \<open>currentBit\<close> with the memory it points into.
  The lemmas describe both loops on the bit view of the memory: a write ORs the low bits of the
  value into the next bits of the stream, a read returns the next bits of the stream.
  The locale \<open>sample_code\<close> is the interface between a stream and the sample codes written
  to it; its client lemma is the round trip of a whole waveform.
\<close>

section \<open>Writing\<close>

record cursor =
  cmem :: mem
  currentChar :: nat
  currentBit :: nat

text \<open>\<open>bitMask=0; for(bitNum=0;bitNum<n;bitNum++) bitMask|=(1<<bitNum);\<close>\<close>

primrec bitMaskLoop :: "nat \<Rightarrow> nat" where
  "bitMaskLoop 0 = 0"
| "bitMaskLoop (Suc n) = bitMaskLoop n OR push_bit n 1"

text \<open>
  The loop \<open>while(numBitsLeft)\<close>. A store through \<open>unsigned char *\<close> keeps the low
  8 bits of the right hand side.
\<close>

function put_bits :: "nat \<Rightarrow> nat \<Rightarrow> cursor \<Rightarrow> cursor" where
  "put_bits newVal numBitsLeft c =
     (if numBitsLeft = 0 then c
      else let room = 8 - currentBit c; a = currentChar c in
        if numBitsLeft > room then
          put_bits (drop_bit room newVal) (numBitsLeft - room)
            \<lparr>cmem = (cmem c)(a := cmem c a OR
                word_of_nat (push_bit (currentBit c) (newVal AND bitMaskLoop room))),
             currentChar = a + 1, currentBit = 0\<rparr>
        else
          let m = (cmem c)(a := cmem c a OR
                word_of_nat (push_bit (currentBit c) (newVal AND bitMaskLoop numBitsLeft)));
              b = currentBit c + numBitsLeft
          in if b = 8 then \<lparr>cmem = m, currentChar = a + 1, currentBit = 0\<rparr>
             else \<lparr>cmem = m, currentChar = a, currentBit = b\<rparr>)"
  by pat_completeness auto
termination
  by (relation "measure (\<lambda>(v, n, c). 2 * n + (if currentBit c < 8 then 0 else 1))") auto

declare put_bits.simps [simp del]

definition cpos :: "cursor \<Rightarrow> nat" where
  "cpos c = 8 * currentChar c + currentBit c"

definition wf_cursor :: "cursor \<Rightarrow> bool" where
  "wf_cursor c \<longleftrightarrow> currentBit c < 8"

text \<open>The number of bytes written since \<open>a\<close>: \<open>if(currentBit) currentChar++\<close>.\<close>

definition bytes_since :: "nat \<Rightarrow> cursor \<Rightarrow> nat" where
  "bytes_since a c = (if currentBit c \<noteq> 0 then currentChar c + 1 else currentChar c) - a"

lemma bitMaskLoop_mask: "bitMaskLoop n = mask n"
  by (induction n) (auto simp: mask_Suc_exp push_bit_eq_mult or.commute)

text \<open>What a write of \<open>n\<close> bits of \<open>v\<close> does to the stream.\<close>

definition wrote :: "nat \<Rightarrow> nat \<Rightarrow> cursor \<Rightarrow> cursor \<Rightarrow> bool" where
  "wrote v n c c' \<longleftrightarrow> wf_cursor c' \<and> cpos c' = cpos c + n \<and>
     (\<forall>p. mbit (cmem c') p \<longleftrightarrow> mbit (cmem c) p \<or>
            (cpos c \<le> p \<and> p < cpos c + n \<and> bit v (p - cpos c)))"

lemma bit_word_of_nat_byte: "bit (word_of_nat v :: byte) k \<longleftrightarrow> k < 8 \<and> bit v k"
  by (simp add: bit_simps)

lemma mbit_or_byte:
  assumes b: "b < 8" "b + n \<le> 8"
  shows "mbit (m(a := m a OR word_of_nat (push_bit b (v AND mask n)))) p \<longleftrightarrow>
    mbit m p \<or> (8 * a + b \<le> p \<and> p < 8 * a + b + n \<and> bit v (p - (8 * a + b)))"
proof (cases "p div 8 = a")
  case True
  define k where "k = p mod 8"
  have p: "p = 8 * a + k" "k < 8"
    using True by (auto simp: k_def)
  show ?thesis
    using b p(2) unfolding p(1)
    by (auto simp: mbit_byte bit_or_iff bit_word_of_nat_byte bit_push_bit_iff bit_and_iff
        bit_mask_iff less_diff_conv2)
next
  case False
  have "\<not> (8 * a + b \<le> p \<and> p < 8 * a + b + n)"
    using b False by auto
  with False show ?thesis
    by (auto simp: mbit_def)
qed

lemma put_bits_wrote: "wf_cursor c \<Longrightarrow> wrote v n c (put_bits v n c)"
proof (induction v n c rule: put_bits.induct)
  case (1 v n c)
  let ?a = "currentChar c" and ?b = "currentBit c"
  have b: "?b < 8"
    using 1(2) by (simp add: wf_cursor_def)
  show ?case
  proof (cases "n = 0")
    case True
    then show ?thesis
      using 1(2) by (auto simp: wrote_def put_bits.simps)
  next
    case n: False
    show ?thesis
    proof (cases "n > 8 - ?b")
      case True
      define c1 where "c1 = \<lparr>cmem = (cmem c)(?a := cmem c ?a OR
          word_of_nat (push_bit ?b (v AND bitMaskLoop (8 - ?b)))), currentChar = ?a + 1,
          currentBit = 0\<rparr>"
      have IH: "wrote (drop_bit (8 - ?b) v) (n - (8 - ?b)) c1
          (put_bits (drop_bit (8 - ?b) v) (n - (8 - ?b)) c1)"
        using 1(1) [OF n refl refl True] by (simp add: c1_def wf_cursor_def)
      have step: "put_bits v n c = put_bits (drop_bit (8 - ?b) v) (n - (8 - ?b)) c1"
        using n True by (simp add: put_bits.simps [of v n c] c1_def Let_def)
      have m1: "mbit (cmem c1) p \<longleftrightarrow>
          mbit (cmem c) p \<or> (cpos c \<le> p \<and> p < cpos c + (8 - ?b) \<and> bit v (p - cpos c))" for p
        using mbit_or_byte [of ?b "8 - ?b" "cmem c" ?a v p] b
        by (simp add: c1_def bitMaskLoop_mask cpos_def)
      have pos: "cpos c1 = cpos c + (8 - ?b)"
        using b by (simp add: c1_def cpos_def)
      have join: "(cpos c \<le> p \<and> p < cpos c + r \<and> bit v (p - cpos c)) \<or>
          (cpos c + r \<le> p \<and> p < cpos c + r + (n - r) \<and> bit (drop_bit r v) (p - (cpos c + r)))
          \<longleftrightarrow> (cpos c \<le> p \<and> p < cpos c + n \<and> bit v (p - cpos c))"
        if "r < n" for p r
      proof (cases "p < cpos c + r")
        case False
        then obtain j where "p = cpos c + (r + j)"
          by (metis add.assoc le_Suc_ex not_less)
        with that show ?thesis by (auto simp: bit_drop_bit_eq)
      qed (use that in auto)
      show ?thesis
        using IH True join [OF True] unfolding step wrote_def pos m1 by simp
    next
      case False
      then show ?thesis
        using n b mbit_or_byte [of ?b n "cmem c" ?a v]
        by (auto simp: put_bits.simps [of v n c] wrote_def wf_cursor_def cpos_def
            bitMaskLoop_mask Let_def)
    qed
  qed
qed

text \<open>A write leaves every byte before the cursor, and every byte behind its last bit, alone.\<close>

lemma mem_eq_if_bits: "(\<And>k. k < 8 \<Longrightarrow> mbit m' (8 * i + k) = mbit m (8 * i + k)) \<Longrightarrow> m' i = m i"
  by (rule bit_word_eqI) (simp add: mbit_byte)

lemma wrote_same_outside:
  assumes "wrote v n c c'" "currentChar c = a" "cpos c + n \<le> 8 * b"
  shows "same_outside (cmem c) (cmem c') a b"
  using assms unfolding same_outside_def
  by (auto intro!: mem_eq_if_bits simp: wrote_def cpos_def)

section \<open>A stream of code words\<close>

text \<open>The stream of code words \<open>(value, numBits)\<close> and what it means as a list of bits.\<close>

definition put_codes :: "(nat \<times> nat) list \<Rightarrow> cursor \<Rightarrow> cursor" where
  "put_codes = fold (\<lambda>(v, n). put_bits v n)"

definition code_bits :: "nat \<times> nat \<Rightarrow> bool list" where
  "code_bits vn = map (bit (fst vn)) [0..<snd vn]"

definition stream_bits :: "(nat \<times> nat) list \<Rightarrow> bool list" where
  "stream_bits vns = concat (map code_bits vns)"

lemma length_code_bits [simp]: "length (code_bits vn) = snd vn"
  by (simp add: code_bits_def)

lemma length_stream_bits: "length (stream_bits vns) = sum_list (map snd vns)"
  by (induction vns) (auto simp: stream_bits_def)

lemma stream_bits_simps [simp]:
  "stream_bits [] = []"
  "stream_bits (vn # vns) = code_bits vn @ stream_bits vns"
  by (simp_all add: stream_bits_def)

definition wrote_stream :: "bool list \<Rightarrow> cursor \<Rightarrow> cursor \<Rightarrow> bool" where
  "wrote_stream bs c c' \<longleftrightarrow> wf_cursor c' \<and> cpos c' = cpos c + length bs \<and>
     (\<forall>p. mbit (cmem c') p \<longleftrightarrow> mbit (cmem c) p \<or>
            (cpos c \<le> p \<and> p < cpos c + length bs \<and> bs ! (p - cpos c)))"

lemma wrote_code_bits: "wrote v n c c' \<longleftrightarrow> wrote_stream (code_bits (v, n)) c c'"
proof -
  have "(cpos c \<le> p \<and> p < cpos c + n \<and> bit v (p - cpos c)) \<longleftrightarrow>
      (cpos c \<le> p \<and> p < cpos c + n \<and> code_bits (v, n) ! (p - cpos c))" for p
    by (auto simp: code_bits_def)
  then show ?thesis
    by (simp add: wrote_def wrote_stream_def)
qed

lemma wrote_stream_append:
  assumes "wrote_stream bs c c'" "wrote_stream bs' c' c''"
  shows "wrote_stream (bs @ bs') c c''"
proof -
  have pos: "cpos c' = cpos c + length bs" "cpos c'' = cpos c + length bs + length bs'"
    using assms by (simp_all add: wrote_stream_def)
  have "mbit (cmem c'') p \<longleftrightarrow> mbit (cmem c) p \<or>
      (cpos c \<le> p \<and> p < cpos c + length (bs @ bs') \<and> (bs @ bs') ! (p - cpos c))" for p
  proof (cases "p < cpos c + length bs")
    case True
    then show ?thesis
      using assms pos by (auto simp: wrote_stream_def nth_append)
  next
    case False
    then obtain j where "p = cpos c + (length bs + j)"
      by (metis add.assoc le_Suc_ex not_less)
    then show ?thesis
      using assms pos by (auto simp: wrote_stream_def)
  qed
  then show ?thesis
    using assms pos by (simp add: wrote_stream_def)
qed

lemma put_codes_wrote: "wf_cursor c \<Longrightarrow> wrote_stream (stream_bits vns) c (put_codes vns c)"
proof (induction vns arbitrary: c)
  case Nil
  then show ?case
    by (auto simp: put_codes_def wrote_stream_def)
next
  case (Cons vn vns)
  obtain v n where vn: "vn = (v, n)"
    by fastforce
  have 1: "wrote_stream (code_bits vn) c (put_bits v n c)"
    using put_bits_wrote [OF Cons.prems, of v n] by (simp add: vn wrote_code_bits)
  then have "wf_cursor (put_bits v n c)"
    by (simp add: wrote_stream_def)
  from wrote_stream_append [OF 1 Cons.IH [OF this]] show ?case
    by (simp add: vn put_codes_def)
qed

lemma put_codes_append: "put_codes (xs @ ys) c = put_codes ys (put_codes xs c)"
  by (simp add: put_codes_def)

lemma wrote_stream_same_outside:
  assumes "wrote_stream bs c c'" "currentChar c = a" "cpos c + length bs \<le> 8 * b"
  shows "same_outside (cmem c) (cmem c') a b"
  using assms unfolding same_outside_def
  by (auto intro!: mem_eq_if_bits simp: wrote_stream_def cpos_def)

text \<open>Written into zeroed memory, the stream is what the memory holds.\<close>

definition holds_stream :: "mem \<Rightarrow> nat \<Rightarrow> bool list \<Rightarrow> bool" where
  "holds_stream m p bs \<longleftrightarrow> (\<forall>i < length bs. mbit m (p + i) = bs ! i)"

lemma zeroed_mbit: "zeroed m a b \<Longrightarrow> 8 * a \<le> p \<Longrightarrow> p < 8 * b \<Longrightarrow> \<not> mbit m p"
  by (simp add: zeroed_def mbit_def less_mult_imp_div_less div_le_mono [of "8 * a" p 8, simplified]
      mult.commute)

lemma wrote_stream_holds:
  assumes "wrote_stream bs c c'" "zeroed (cmem c) (currentChar c) b" "cpos c + length bs \<le> 8 * b"
  shows "holds_stream (cmem c') (cpos c) bs"
  unfolding holds_stream_def
proof (intro allI impI)
  fix i
  assume "i < length bs"
  moreover from this have "\<not> mbit (cmem c) (cpos c + i)"
    using assms(3) by (intro zeroed_mbit [OF assms(2)]) (auto simp: cpos_def)
  ultimately show "mbit (cmem c') (cpos c + i) = bs ! i"
    using assms(1) by (simp add: wrote_stream_def)
qed

lemma holds_stream_append:
  "holds_stream m p (bs @ bs') \<longleftrightarrow> holds_stream m p bs \<and> holds_stream m (p + length bs) bs'"
  (is "?L \<longleftrightarrow> ?R")
proof
  assume L: ?L
  have "mbit m (p + i) = bs ! i" if "i < length bs" for i
    using L [unfolded holds_stream_def, rule_format, of i] that by (simp add: nth_append)
  moreover have "mbit m (p + length bs + i) = bs' ! i" if "i < length bs'" for i
    using L [unfolded holds_stream_def, rule_format, of "length bs + i"] that
    by (simp add: nth_append add.assoc)
  ultimately show ?R
    by (simp add: holds_stream_def)
next
  assume R: ?R
  have "mbit m (p + i) = (bs @ bs') ! i" if i: "i < length (bs @ bs')" for i
  proof (cases "i < length bs")
    case True
    with R show ?thesis by (simp add: holds_stream_def nth_append)
  next
    case False
    then obtain j where "i = length bs + j" "j < length bs'"
      using i by (metis add_less_cancel_left le_Suc_ex length_append not_less)
    with R show ?thesis by (simp add: holds_stream_def nth_append add.assoc)
  qed
  then show ?L
    by (simp add: holds_stream_def)
qed

lemma holds_stream_inside:
  assumes "holds_stream m p bs" "same_inside m m' a b" "8 * a \<le> p" "p + length bs \<le> 8 * b"
  shows "holds_stream m' p bs"
proof -
  have "a \<le> (p + i) div 8" "(p + i) div 8 < b" if "i < length bs" for i
    using assms(3,4) that by (simp_all add: less_eq_div_iff_mult_less_eq div_less_iff_less_mult)
  then have "m' ((p + i) div 8) = m ((p + i) div 8)" if "i < length bs" for i
    using assms(2) that unfolding same_inside_def by blast
  then show ?thesis
    using assms(1) by (simp add: holds_stream_def mbit_def)
qed

text \<open>
  The loop over the samples that every encoder runs: \<open>g\<close> computes the code word of a sample
  (\<open>None\<close> when that reads outside a table).
\<close>

primrec put_samples :: "(int \<Rightarrow> (nat \<times> nat) option) \<Rightarrow> int list \<Rightarrow> cursor \<Rightarrow> cursor option" where
  "put_samples g [] c = Some c"
| "put_samples g (x # xs) c =
     (case g x of None \<Rightarrow> None | Some (newVal, numBits) \<Rightarrow> put_samples g xs (put_bits newVal numBits c))"

lemma put_samples_codes:
  "(\<And>x. x \<in> set xs \<Longrightarrow> g x = Some (h x)) \<Longrightarrow> put_samples g xs c = Some (put_codes (map h xs) c)"
  by (induction xs arbitrary: c) (auto simp: put_codes_def split: prod.splits)

lemma put_samples_wrote:
  assumes "\<And>x. x \<in> set xs \<Longrightarrow> g x = Some (h x)" "wf_cursor c"
  obtains c' where "put_samples g xs c = Some c'" "wrote_stream (stream_bits (map h xs)) c c'"
  using put_samples_codes [of xs g h c] put_codes_wrote [of c "map h xs"] assms by auto

lemma code_bits_take_bit: "code_bits (take_bit n v, n) = code_bits (v, n)"
  by (simp add: code_bits_def bit_take_bit_iff)

section \<open>Reading\<close>

text \<open>
  \<open>for(bitNum=currentBit;bitNum<currentBit+bitSize;bitNum++)
  tempNum|= (((fred>>bitNum)&0x1)<<(bitNum-currentBit));\<close>
  The cast \<open>T\<close> is the one of the type of \<open>tempNum\<close>. The shift counts of all callers
  stay below 32.
\<close>

definition extractBits :: "(int \<Rightarrow> int) \<Rightarrow> int \<Rightarrow> nat \<Rightarrow> nat \<Rightarrow> int" where
  "extractBits T fred cb bitSize =
     fold (\<lambda>bitNum tempNum. T (tempNum OR push_bit (bitNum - cb) (drop_bit bitNum fred AND 1)))
       [cb..<cb + bitSize] 0"

text \<open>\<open>while(currentBit>=8) { currentBit-=8; currentChar++; }\<close>\<close>

function advance :: "nat \<Rightarrow> nat \<Rightarrow> nat \<times> nat" where
  "advance cc cb = (if cb \<ge> 8 then advance (cc + 1) (cb - 8) else (cc, cb))"
  by pat_completeness auto
termination by (relation "measure snd") auto

declare advance.simps [simp del]

text \<open>
  The decoding loop of \<open>decodePSWaveLosslessBinary\<close> and \<open>decodePSWaveLossyMuLaw\<close>,
  over the expression \<open>f\<close> that the loop assigns to \<open>data[sampNum]\<close>
  (\<open>None\<close> when evaluating it reads outside a table).
\<close>

function decode_fixed :: "(int \<Rightarrow> int option) \<Rightarrow> (int \<Rightarrow> int) \<Rightarrow> nat \<Rightarrow> mem \<Rightarrow> nat \<Rightarrow> int \<Rightarrow>
    nat \<Rightarrow> nat \<Rightarrow> nat \<Rightarrow> int list \<Rightarrow> (CompressErrorCode_t \<times> int list) option" where
  "decode_fixed f T bitSize m input numBytes sampNum cc cb dat =
     (if sampNum < MAX_NUMBER_SAMPLES then
        (case f (extractBits T (load32s m cc) cb bitSize) of
           None \<Rightarrow> None
         | Some v \<Rightarrow>
             let dat = dat[sampNum := v]; cc' = fst (advance cc (cb + bitSize));
                 cb' = snd (advance cc (cb + bitSize))
             in if int cc' - int input > numBytes then Some (COMPRESS_E_BADSIZE, dat)
                else decode_fixed f T bitSize m input numBytes (sampNum + 1) cc' cb' dat)
      else Some (COMPRESS_E_OK, dat))"
  by pat_completeness auto
termination
  by (relation "measure (\<lambda>(f, T, bitSize, m, input, numBytes, sampNum, cc, cb, dat).
    MAX_NUMBER_SAMPLES - sampNum)") auto

declare decode_fixed.simps [simp del]

lemma advance_eq: "advance cc cb = (cc + cb div 8, cb mod 8)"
proof (induction cc cb rule: advance.induct)
  case (1 cc cb)
  show ?case
  proof (cases "cb \<ge> 8")
    case True
    have "cb div 8 = Suc ((cb - 8) div 8)" "cb mod 8 = (cb - 8) mod 8"
      using True le_div_geq [of 8 cb] le_mod_geq [of 8 cb] by simp_all
    with 1 [OF True] True show ?thesis
      by (simp add: advance.simps [of cc cb])
  qed (simp add: advance.simps [of cc cb])
qed

lemma extractBits_eq:
  assumes T: "\<And>x. 0 \<le> x \<Longrightarrow> x < 2 ^ n \<Longrightarrow> T x = x"
  shows "extractBits T fred cb n = take_bit n (drop_bit cb fred)"
proof -
  have loop: "fold (\<lambda>bitNum tempNum. T (tempNum OR push_bit (bitNum - cb) (drop_bit bitNum fred AND 1)))
      [cb..<cb + k] 0 = take_bit k (drop_bit cb fred)" if "k \<le> n" for k
    using that
  proof (induction k)
    case (Suc k)
    have bit: "push_bit k (drop_bit (cb + k) fred AND 1) = push_bit k (of_bool (bit fred (cb + k)))"
      by (simp add: and_one_eq bit_iff_odd_drop_bit odd_iff_mod_2_eq_one)
    have val: "take_bit k (drop_bit cb fred) OR push_bit k (drop_bit (cb + k) fred AND 1) =
        take_bit (Suc k) (drop_bit cb fred)"
      unfolding bit
      by (rule bit_eqI)
        (auto simp: bit_or_iff bit_take_bit_iff bit_push_bit_iff bit_drop_bit_eq bit_1_iff less_Suc_eq)
    have "take_bit (Suc k) (drop_bit cb fred) < 2 ^ n"
      using take_bit_int_less_exp [of "Suc k" "drop_bit cb fred"]
        power_increasing [of "Suc k" n "2::int"] Suc.prems by linarith
    then have "T (take_bit (Suc k) (drop_bit cb fred)) = take_bit (Suc k) (drop_bit cb fred)"
      by (intro T) auto
    with Suc val show ?case by simp
  qed simp
  from loop [OF order_refl] show ?thesis
    unfolding extractBits_def .
qed

text \<open>What a read sees is the next code word of the stream.\<close>

lemma extractBits_holds:
  assumes T: "\<And>x. 0 \<le> x \<Longrightarrow> x < 2 ^ n \<Longrightarrow> T x = x"
    and h: "holds_stream m (8 * cc + cb) (code_bits (v, n))"
    and v: "v < 2 ^ n" and n: "cb + n \<le> 32"
  shows "extractBits T (load32s m cc) cb n = int v"
proof -
  have "bit (take_bit n (drop_bit cb (load32s m cc))) k = bit (int v) k" for k
  proof (cases "k < n")
    case True
    then have "mbit m (8 * cc + cb + k) = bit v k"
      using h by (auto simp: holds_stream_def code_bits_def)
    with True n show ?thesis
      by (simp add: bit_take_bit_iff bit_drop_bit_eq bit_load32s bit_of_nat_iff add.assoc)
  next
    case False
    then have "\<not> bit v k"
      using bit_ge_exp_nat [OF v] by blast
    with False show ?thesis
      by (simp add: bit_take_bit_iff bit_of_nat_iff)
  qed
  then show ?thesis
    by (simp add: extractBits_eq [OF T] bit_eqI)
qed

section \<open>The interface of a fixed width sample code\<close>

text \<open>
  \<open>enc\<close> is what an encoder writes for a sample, \<open>dec\<close> what the decoding loop
  assigns for a code word, \<open>quant\<close> the sample that comes back. \<open>valid\<close> is the set
  of samples the code is made for.
\<close>

lemma list_update_append1: "length xs = i \<Longrightarrow> (xs @ y # ys)[i := z] = (xs @ [z]) @ ys"
  by (simp add: list_update_append)

locale sample_code =
  fixes enc :: "int \<Rightarrow> nat"
    and dec :: "int \<Rightarrow> int option"
    and trunc :: "int \<Rightarrow> int"
    and width :: nat
    and valid :: "int \<Rightarrow> bool"
    and quant :: "int \<Rightarrow> int"
  assumes width_le: "valid x \<Longrightarrow> width \<le> 24"
    and trunc_id: "valid x \<Longrightarrow> 0 \<le> v \<Longrightarrow> v < 2 ^ width \<Longrightarrow> trunc v = v"
    and enc_less: "valid x \<Longrightarrow> enc x < 2 ^ width"
    and dec_enc: "valid x \<Longrightarrow> dec (int (enc x)) = Some (quant x)"
begin

definition codes :: "int list \<Rightarrow> (nat \<times> nat) list" where
  "codes xs = map (\<lambda>x. (enc x, width)) xs"

lemma length_codes: "length (stream_bits (codes xs)) = length xs * width"
  by (induction xs) (simp_all add: codes_def)

lemma decode_stream:
  assumes "sampNum + length xs = MAX_NUMBER_SAMPLES" "length ys = sampNum"
    and "length zs = length xs" "\<forall>x\<in>set xs. valid x" "cb < 8"
    and "holds_stream m (8 * cc + cb) (stream_bits (codes xs))"
    and "int ((8 * cc + cb + length xs * width) div 8) - int input \<le> numBytes"
  shows "decode_fixed dec trunc width m input numBytes sampNum cc cb (ys @ zs) =
    Some (COMPRESS_E_OK, ys @ map quant xs)"
  using assms
proof (induction xs arbitrary: sampNum cc cb ys zs)
  case Nil
  then show ?case
    by (simp add: decode_fixed.simps)
next
  case (Cons x xs)
  obtain z zs' where zs: "zs = z # zs'" "length zs' = length xs"
    using Cons.prems(3) by (cases zs) auto
  have ok: "valid x" "width \<le> 24"
    using Cons.prems(4) width_le by auto
  have holds: "holds_stream m (8 * cc + cb) (code_bits (enc x, width))"
    "holds_stream m (8 * cc + cb + width) (stream_bits (codes xs))"
    using Cons.prems(6) by (simp_all add: codes_def holds_stream_append)
  have read: "extractBits trunc (load32s m cc) cb width = int (enc x)"
    by (rule extractBits_holds [OF trunc_id [OF ok(1)] holds(1) enc_less [OF ok(1)]])
      (use ok Cons.prems(5) in auto)
  let ?cc = "cc + (cb + width) div 8" and ?cb = "(cb + width) mod 8"
  have pos: "8 * ?cc + ?cb = 8 * cc + cb + width"
    by simp
  have less: "int ?cc - int input \<le> numBytes"
  proof -
    have "?cc \<le> (8 * cc + cb + length (x # xs) * width) div 8"
      using div_le_mono [of "8 * cc + (cb + width)" "8 * cc + cb + length (x # xs) * width" 8]
      by simp
    with Cons.prems(7) show ?thesis by linarith
  qed
  have "decode_fixed dec trunc width m input numBytes (sampNum + 1) ?cc ?cb
      ((ys @ [quant x]) @ zs') = Some (COMPRESS_E_OK, (ys @ [quant x]) @ map quant xs)"
    by (rule Cons.IH)
      (use Cons.prems zs holds(2) pos in \<open>simp_all add: add.assoc add.commute [of width]\<close>)
  moreover have "decode_fixed dec trunc width m input numBytes sampNum cc cb (ys @ zs) =
      decode_fixed dec trunc width m input numBytes (sampNum + 1) ?cc ?cb
      ((ys @ [quant x]) @ zs')"
    using Cons.prems(1,2) less zs
    by (simp add: decode_fixed.simps [of _ _ _ _ _ _ sampNum] read dec_enc [OF ok(1)]
        advance_eq list_update_append1 Let_def)
  ultimately show ?case by simp
qed

text \<open>A waveform written into zeroed memory decodes to its quantised samples.\<close>

theorem roundtrip:
  assumes "currentBit c = 0" "zeroed (cmem c) (currentChar c) b"
    and "currentChar c + (MAX_NUMBER_SAMPLES * width + 7) div 8 \<le> b"
    and "length xs = MAX_NUMBER_SAMPLES" "\<forall>x\<in>set xs. valid x"
    and "length dat = MAX_NUMBER_SAMPLES" "input \<le> currentChar c"
    and w: "wrote_stream (stream_bits (codes xs)) c c'"
    and numBytes: "numBytes = int (bytes_since input c')"
    and m'': "same_inside (cmem c') m'' (currentChar c) b"
  shows "decode_fixed dec trunc width m'' input numBytes 0 (currentChar c) 0 dat =
    Some (COMPRESS_E_OK, map quant xs)"
proof -
  have len: "length (stream_bits (codes xs)) = MAX_NUMBER_SAMPLES * width"
    using assms(4) by (simp add: length_codes)
  have "cpos c + length (stream_bits (codes xs)) \<le> 8 * b"
    using assms(1,3) len by (simp add: cpos_def)
  then have "holds_stream m'' (cpos c) (stream_bits (codes xs))"
    by (intro holds_stream_inside [OF wrote_stream_holds [OF w assms(2)] m'']) (auto simp: cpos_def)
  moreover have "int ((8 * currentChar c + length xs * width) div 8) - int input \<le> numBytes"
  proof -
    have *: "8 * currentChar c + length xs * width = 8 * currentChar c' + currentBit c'"
      "currentBit c' < 8"
      using w assms(1,4) len by (simp_all add: wrote_stream_def cpos_def wf_cursor_def)
    show ?thesis
      using *(2) assms(7) numBytes unfolding *(1) by (auto simp: bytes_since_def)
  qed
  ultimately show ?thesis
    using decode_stream [of 0 xs "[]" dat 0 m'' "currentChar c" input numBytes] assms
    by (simp add: cpos_def)
qed

end

end
