(* ===== verification/Pack12.thy ===== *)
theory Pack12
  imports Compress_Types
begin

text \<open>
  \<open>src/common/compressLib/pack12bit.c\<close>: four 12-bit quantities in three 16-bit words, and
  the waveform codec \<open>encodePSWave12bitBinary\<close> / \<open>decodePSWave12bitBinary\<close> of
  \<open>compressLib.c\<close> built on it.
  The four element array \<open>w\<close> is a list, the packed words are stored in the byte memory.
\<close>

section \<open>pack12bit\<close>

definition pack12bit :: "int list \<Rightarrow> nat \<Rightarrow> mem \<Rightarrow> mem" where
  "pack12bit w destp m =
     (let m = store16 m destp (u16 ((w ! 0 AND 0xfff) + (push_bit 12 (w ! 3) AND 0xf000)));
          m = store16 m (destp + 2) (u16 ((w ! 1 AND 0xfff) + (push_bit 8 (w ! 3) AND 0xf000)))
      in store16 m (destp + 4) (u16 ((w ! 2 AND 0xfff) + (push_bit 4 (w ! 3) AND 0xf000))))"

definition unpack12bit :: "mem \<Rightarrow> nat \<Rightarrow> int list" where
  "unpack12bit m srcp =
     (let w3 = 0; val = load16u m srcp;
          w0 = val AND 0xfff; w3 = u16 (w3 + drop_bit 12 (val AND 0xf000));
          val = load16u m (srcp + 2);
          w1 = val AND 0xfff; w3 = u16 (w3 + drop_bit 8 (val AND 0xf000));
          val = load16u m (srcp + 4);
          w2 = val AND 0xfff; w3 = u16 (w3 + drop_bit 4 (val AND 0xf000))
      in [w0, w1, w2, w3])"

lemma bit_0xfff: "bit (0xfff :: int) k \<longleftrightarrow> k < 12"
proof -
  have "(0xfff :: int) = mask 12"
    by (simp add: mask_eq_exp_minus_1)
  then show ?thesis
    by (simp only: bit_mask_iff) simp
qed

lemma bit_0xf000: "bit (0xf000 :: int) k \<longleftrightarrow> 12 \<le> k \<and> k < 16"
proof -
  have "(0xf000 :: int) = push_bit 12 (mask 4)"
    by (simp add: mask_eq_exp_minus_1 push_bit_eq_mult)
  then show ?thesis
    by (simp only: bit_push_bit_iff bit_mask_iff) auto
qed

lemmas nibble_simps = bit_and_iff bit_or_iff bit_0xfff bit_0xf000 bit_push_bit_iff bit_drop_bit_eq
  bit_take_bit_iff o_apply

text \<open>The word that \<open>pack12bit\<close> stores: a low part of 12 bits and a nibble on top.\<close>

lemma pack12_word:
  fixes x y :: int
  shows "u16 ((x AND 0xfff) + (push_bit s y AND 0xf000)) AND 0xfff = take_bit 12 x"
    and "u16 ((x AND 0xfff) + (push_bit s y AND 0xf000)) AND 0xf000 = push_bit s y AND 0xf000"
    and "u16 (u16 ((x AND 0xfff) + (push_bit s y AND 0xf000))) =
      u16 ((x AND 0xfff) + (push_bit s y AND 0xf000))"
proof -
  let ?v = "(x AND 0xfff) + (push_bit s y AND 0xf000)"
  have "?v = (x AND 0xfff) OR (push_bit s y AND 0xf000)"
    by (rule disjunctive_add) (auto simp: nibble_simps)
  then have *: "bit ?v k \<longleftrightarrow>
      (k < 12 \<and> bit x k) \<or> (12 \<le> k \<and> k < 16 \<and> s \<le> k \<and> bit y (k - s))" for k
    by (simp only: nibble_simps) auto
  show "u16 ?v AND 0xfff = take_bit 12 x" "u16 ?v AND 0xf000 = push_bit s y AND 0xf000"
    by (rule bit_eqI; simp only: u16_def nibble_simps *; auto)+
  show "u16 (u16 ?v) = u16 ?v"
    by (simp add: u16_def)
qed

lemma nibbles:
  fixes y :: int
  assumes "0 \<le> y" "y < 4096"
  shows "u16 (u16 (u16 (0 + drop_bit 12 (push_bit 12 y AND 0xf000)) +
    drop_bit 8 (push_bit 8 y AND 0xf000)) + drop_bit 4 (push_bit 4 y AND 0xf000)) = y"
proof -
  have n1: "drop_bit 12 (push_bit 12 y AND 0xf000) = take_bit 4 y"
    by (rule bit_eqI) (simp only: nibble_simps, auto)
  have n2: "drop_bit 8 (push_bit 8 y AND 0xf000) = push_bit 4 (take_bit 4 (drop_bit 4 y))"
    by (rule bit_eqI) (simp only: nibble_simps, auto)
  have n3: "drop_bit 4 (push_bit 4 y AND 0xf000) = push_bit 8 (take_bit 4 (drop_bit 8 y))"
    by (rule bit_eqI) (simp only: nibble_simps, auto)
  have sum: "take_bit 4 y + push_bit 4 (take_bit 4 (drop_bit 4 y)) +
      push_bit 8 (take_bit 4 (drop_bit 8 y)) = y"
  proof -
    define q r where "q = y div 16" and "r = q div 16"
    have "y div 256 = r"
      using zdiv_zmult2_eq [of 16 y 16] by (simp add: q_def r_def)
    moreover have "r mod 16 = r"
      using assms by (simp add: q_def r_def)
    moreover have "y = 16 * q + y mod 16" "q = 16 * r + q mod 16"
      unfolding r_def q_def by (simp_all only: mult_div_mod_eq)
    ultimately show ?thesis
      by (simp add: take_bit_eq_mod drop_bit_eq_div push_bit_eq_mult q_def [symmetric])
  qed
  define A B C where "A = take_bit 4 y" and "B = push_bit 4 (take_bit 4 (drop_bit 4 y))"
    and "C = push_bit 8 (take_bit 4 (drop_bit 8 y))"
  have nonneg: "0 \<le> A" "0 \<le> B" "0 \<le> C"
    by (simp_all only: A_def B_def C_def push_bit_nonnegative_int_iff take_bit_nonnegative)
  have total: "A + B + C = y"
    using sum by (simp only: A_def B_def C_def)
  show ?thesis
    unfolding n1 n2 n3 A_def [symmetric] B_def [symmetric] C_def [symmetric]
    using nonneg total assms by (simp add: cast_simps range_defs)
qed

lemma unpack_pack12:
  assumes "length w = 4" "\<forall>x\<in>set w. 0 \<le> x \<and> x < 4096"
  shows "unpack12bit (pack12bit w a m) a = w"
proof -
  obtain w0 w1 w2 w3 where w: "w = [w0, w1, w2, w3]"
    using assms(1) by (auto simp: length_Suc_conv eval_nat_numeral)
  have "take_bit 12 x = x" if "x \<in> set w" for x
    using assms(2) that by (simp add: take_bit_int_eq_self)
  then show ?thesis
    using assms(2) nibbles [of w3]
    by (simp add: w unpack12bit_def pack12bit_def Let_def load16u_store16_other
        pack12_word del: push_bit_and drop_bit_and)
qed

lemma pack12bit_outside: "same_outside m (pack12bit w a m) a (a + 6)"
  by (simp add: same_outside_def pack12bit_def store16_def Let_def)

lemma unpack12bit_cong:
  "same_outside m m' b c \<Longrightarrow> a + 6 \<le> b \<or> c \<le> a \<Longrightarrow> unpack12bit m' a = unpack12bit m a"
  by (auto simp: same_outside_def unpack12bit_def load16u_def Let_def)

lemma unpack12bit_inside:
  "same_inside m m' b c \<Longrightarrow> b \<le> a \<Longrightarrow> a + 6 \<le> c \<Longrightarrow> unpack12bit m' a = unpack12bit m a"
  by (simp add: same_inside_def unpack12bit_def load16u_def Let_def)

section \<open>The 12-bit waveform\<close>

abbreviation (input) OFFSET_VALUE :: int where "OFFSET_VALUE \<equiv> 2048"

text \<open>\<open>for(samp=0;samp<MAX_NUMBER_SAMPLES;samp+=4)\<close> is the loop over \<open>samp = 4 * k\<close>.\<close>

definition encodePSWave12bitBinary :: "nat \<Rightarrow> SurfChannelPedSubbed_t \<Rightarrow> mem \<Rightarrow> mem \<times> nat" where
  "encodePSWave12bitBinary buffer ch m =
     (fold (\<lambda>samp m.
        let charNum = (samp * 3) div 2;
            w = map (\<lambda>valNum. u16 (ps_data ch ! (samp + valNum) + OFFSET_VALUE)) [0..<4]
        in pack12bit w (buffer + charNum) m)
      (map (\<lambda>k. 4 * k) [0..<MAX_NUMBER_SAMPLES div 4]) m,
      3 * (MAX_NUMBER_SAMPLES div 4) * 2)"

definition decodePSWave12bitBinary ::
    "mem \<Rightarrow> nat \<Rightarrow> int \<Rightarrow> SurfChannelPedSubbed_t \<Rightarrow> CompressErrorCode_t \<times> SurfChannelPedSubbed_t" where
  "decodePSWave12bitBinary m input numBytes ch =
     (let encSize = 3 * (int MAX_NUMBER_SAMPLES div 4) * 2 in
      if numBytes \<noteq> encSize then (COMPRESS_E_BADSIZE, ch)
      else (COMPRESS_E_OK, ch\<lparr>ps_data :=
        fold (\<lambda>charNum dat.
          let samp = 2 * (charNum div 3); w = unpack12bit m (input + charNum)
          in fold (\<lambda>valNum dat. dat[samp + valNum := s16 (s16 (w ! valNum) - OFFSET_VALUE)]) [0..<4] dat)
        (map (\<lambda>k. 6 * k) [0..<MAX_NUMBER_SAMPLES div 4]) (ps_data ch)\<rparr>))"

definition valid12 :: "int \<Rightarrow> bool" where
  "valid12 x \<longleftrightarrow> -2048 \<le> x \<and> x < 2048"

definition group12 :: "int list \<Rightarrow> nat \<Rightarrow> int list" where
  "group12 xs k = map (\<lambda>v. u16 (xs ! (4 * k + v) + 2048)) [0..<4]"

lemma upt_0_4: "[0..<4] = [0, 1, 2, 3]"
  by (simp add: upt_rec)

lemma encode12_fold:
  "encodePSWave12bitBinary buffer ch m =
    (fold (\<lambda>k. pack12bit (group12 (ps_data ch) k) (buffer + 6 * k)) [0..<65] m, 390)"
proof -
  have "4 * k * 3 div 2 = 6 * k" for k :: nat
    by simp
  then show ?thesis
    by (simp add: encodePSWave12bitBinary_def fold_map comp_def group12_def)
qed

lemma encode12_group:
  assumes "i < n" "\<forall>x\<in>set (group12 xs i). 0 \<le> x \<and> x < 4096"
  shows "unpack12bit (fold (\<lambda>k. pack12bit (group12 xs k) (buffer + 6 * k)) [0..<n] m) (buffer + 6 * i)
    = group12 xs i"
  using assms(1)
proof (induction n)
  case (Suc n)
  show ?case
  proof (cases "i = n")
    case True
    with assms(2) show ?thesis
      by (simp add: unpack_pack12 group12_def)
  next
    case False
    with Suc have "i < n" by simp
    let ?m = "fold (\<lambda>k. pack12bit (group12 xs k) (buffer + 6 * k)) [0..<n] m"
    have "unpack12bit (pack12bit (group12 xs n) (buffer + 6 * n) ?m) (buffer + 6 * i) =
        unpack12bit ?m (buffer + 6 * i)"
      using \<open>i < n\<close> by (intro unpack12bit_cong [OF pack12bit_outside]) auto
    with Suc.IH [OF \<open>i < n\<close>] show ?thesis by simp
  qed
qed simp

lemma decode12_fold:
  assumes "length xs = 4 * n" "length dat = 4 * n"
    and "\<And>k. k < n \<Longrightarrow> w k = group12 xs k" "\<forall>x\<in>set xs. valid12 x"
  shows "fold (\<lambda>k dat. fold (\<lambda>v dat. dat[4 * k + v := s16 (s16 (w k ! v) - 2048)]) [0..<4] dat) [0..<n] dat
    = xs"
proof -
  define step where "step = (\<lambda>k dat. fold (\<lambda>v dat. dat[4 * k + v := s16 (s16 (w k ! v) - 2048)]) [0..<4] dat)"
  have len: "length (fold step ks d) = length d" for ks d
    by (induction ks arbitrary: d) (simp_all add: step_def upt_0_4)
  have val: "s16 (s16 (x + 2048) - 2048) = x" if "valid12 x" for x
    using that by (simp add: valid12_def cast_simps range_defs)
  have ok: "valid12 (xs ! i)" if "i < 4 * n" for i
    using assms(1,4) that by simp
  have "fold step [0..<j] dat ! i = xs ! i" if "j \<le> n" "i < 4 * j" for j i
    using that
  proof (induction j)
    case (Suc j)
    have "length (fold step [0..<j] dat) = 4 * n"
      by (simp add: len assms)
    moreover have "i < 4 * j \<or> i = 4 * j \<or> i = 4 * j + 1 \<or> i = 4 * j + 2 \<or> i = 4 * j + 3"
      using Suc.prems by auto
    ultimately show ?case
      using Suc assms(3) [of j] ok [of i]
      by (auto simp: step_def upt_0_4 group12_def nth_list_update val)
  qed simp
  then have "fold step [0..<n] dat = xs"
    by (intro nth_equalityI) (simp_all add: len assms)
  then show ?thesis
    by (simp add: step_def)
qed

lemma encode12_outside:
  "same_outside m (fst (encodePSWave12bitBinary buffer ch m)) buffer (buffer + 390)"
  unfolding encode12_fold fst_conv
  by (rule same_outside_fold) (auto intro: same_outside_mono [OF pack12bit_outside])

lemma decode_encode_12bit:
  assumes "length (ps_data ch) = MAX_NUMBER_SAMPLES" "\<forall>x\<in>set (ps_data ch). valid12 x"
    and "length (ps_data ch') = MAX_NUMBER_SAMPLES"
    and "encodePSWave12bitBinary buffer ch m = (m', n)"
    and m'': "same_inside m' m'' buffer (buffer + n)"
  shows "decodePSWave12bitBinary m'' buffer (int n) ch' =
    (COMPRESS_E_OK, ch'\<lparr>ps_data := ps_data ch\<rparr>)"
proof -
  have m': "m' = fold (\<lambda>k. pack12bit (group12 (ps_data ch) k) (buffer + 6 * k)) [0..<65] m" "n = 390"
    using assms(4) by (simp_all add: encode12_fold)
  have "\<forall>x\<in>set (group12 (ps_data ch) k). 0 \<le> x \<and> x < 4096" if "k < 65" for k
  proof -
    have "valid12 (ps_data ch ! (4 * k + v))" if "v < 4" for v
      using assms(1,2) \<open>k < 65\<close> that by simp
    moreover have "0 \<le> u16 (x + 2048) \<and> u16 (x + 2048) < 4096" if "valid12 x" for x
      using that by (simp add: valid12_def cast_simps range_defs)
    ultimately show ?thesis
      by (auto simp: group12_def)
  qed
  then have g: "unpack12bit m'' (buffer + 6 * k) = group12 (ps_data ch) k" if "k < 65" for k
    using encode12_group [OF that] unpack12bit_inside [OF m'', of "buffer + 6 * k"] that
    by (simp add: m')
  have "2 * (6 * k div 3) = 4 * k" for k :: nat
    by simp
  then show ?thesis
    using decode12_fold [of "ps_data ch" 65 "ps_data ch'" "\<lambda>k. unpack12bit m'' (buffer + 6 * k)"] assms(1-3) g
    by (simp add: decodePSWave12bitBinary_def fold_map comp_def m'(2))
qed

section \<open>Properties\<close>

text \<open>
  \<open>pack12bit\<close> and \<open>unpack12bit\<close>: four 12-bit quantities packed in three 16-bit words
  come back.
\<close>

theorem pack12_roundtrip:
  "length w = 4 \<Longrightarrow> \<forall>x\<in>set w. 0 \<le> x \<and> x < 4096 \<Longrightarrow> unpack12bit (pack12bit w a m) a = w"
  by (rule unpack_pack12)

theorem pack12_roundtrip_witness:
  "unpack12bit (pack12bit [1, 4095, 2048, 1234] 10 (\<lambda>_. 0)) 10 = [1, 4095, 2048, 1234]"
  by (rule pack12_roundtrip) simp_all

end
