(* ===== verification/MuLaw_Tables.thy ===== *)
theory MuLaw_Tables
  imports Main
begin

text \<open>
  The look-up tables of \<open>src/common/compressLib/mulawTables.h\<close>, with the source's names
  and values. The compression tables \<open>linear*toMuLaw*\<close> are long and constant in pieces:
  they are written run by run, \<open>(n, v)\<close> standing for \<open>n\<close> consecutive entries
  \<open>v\<close>. The expansion tables \<open>mulaw*toLinear*\<close> are written entry by entry.
\<close>

definition rle :: "(int \<times> int) list \<Rightarrow> int list" where
  "rle runs = concat (map (\<lambda>(n, v). replicate (nat n) v) runs)"

section \<open>11 bits and 8 bits\<close>

definition linear11toMuLaw8_runs :: "(int \<times> int) list" where
  "linear11toMuLaw8_runs = [
    (22, -127), (43, -126), (41, -125), (39, -124), (38, -123), (36, -122), (35, -121), (33,
    -120), (31, -119), (31, -118), (29, -117), (27, -116), (27, -115), (25, -114), (25, -113),
    (23, -112), (22, -111), (22, -110), (20, -109), (20, -108), (18, -107), (18, -106), (18,
    -105), (16, -104), (16, -103), (15, -102), (14, -101), (14, -100), (13, -99), (13, -98),
    (12, -97), (12, -96), (11, -95), (10, -94), (11, -93), (9, -92), (10, -91), (9, -90), (8,
    -89), (8, -88), (8, -87), (8, -86), (7, -85), (7, -84), (6, -83), (7, -82), (6, -81), (5,
    -80), (6, -79), (5, -78), (5, -77), (5, -76), (5, -75), (4, -74), (4, -73), (4, -72), (4,
    -71), (4, -70), (4, -69), (3, -68), (3, -67), (3, -66), (3, -65), (3, -64), (3, -63), (3,
    -62), (2, -61), (3, -60), (2, -59), (2, -58), (2, -57), (2, -56), (2, -55), (2, -54), (2,
    -53), (1, -52), (2, -51), (2, -50), (1, -49), (2, -48), (1, -47), (1, -46), (1, -45), (2,
    -44), (1, -43), (1, -42), (1, -41), (1, -40), (1, -39), (1, -38), (1, -37), (1, -36), (1,
    -34), (1, -33), (1, -32), (1, -30), (1, -29), (1, -27), (1, -25), (1, -23), (1, -21), (1,
    -19), (1, -16), (1, -13), (1, -9), (1, -5), (1, 0), (1, 5), (1, 9), (1, 13), (1, 16), (1,
    19), (1, 21), (1, 23), (1, 25), (1, 27), (1, 29), (1, 30), (1, 32), (1, 33), (1, 34), (1,
    36), (1, 37), (1, 38), (1, 39), (1, 40), (1, 41), (1, 42), (1, 43), (2, 44), (1, 45), (1,
    46), (1, 47), (2, 48), (1, 49), (2, 50), (2, 51), (1, 52), (2, 53), (2, 54), (2, 55), (2,
    56), (2, 57), (2, 58), (2, 59), (3, 60), (2, 61), (3, 62), (3, 63), (3, 64), (3, 65), (3,
    66), (3, 67), (3, 68), (4, 69), (4, 70), (4, 71), (4, 72), (4, 73), (4, 74), (5, 75), (5,
    76), (5, 77), (5, 78), (6, 79), (5, 80), (6, 81), (7, 82), (6, 83), (7, 84), (7, 85), (8,
    86), (8, 87), (8, 88), (8, 89), (9, 90), (10, 91), (9, 92), (11, 93), (10, 94), (11, 95),
    (12, 96), (12, 97), (13, 98), (13, 99), (14, 100), (14, 101), (15, 102), (16, 103), (16,
    104), (18, 105), (18, 106), (18, 107), (20, 108), (20, 109), (22, 110), (22, 111), (23,
    112), (25, 113), (25, 114), (27, 115), (27, 116), (29, 117), (31, 118), (31, 119), (33,
    120), (35, 121), (36, 122), (38, 123), (39, 124), (41, 125), (43, 126), (22, 127)]"

definition linear11toMuLaw8 :: "int list" where
  "linear11toMuLaw8 = rle linear11toMuLaw8_runs"

definition mulaw8toLinear11 :: "int list" where
  "mulaw8toLinear11 = [
    -1023, -979, -937, -897, -858, -822, -786, -753, -720, -689, -660, -631, -604, -578, -553,
    -529, -507, -485, -464, -444, -425, -407, -389, -372, -356, -341, -326, -312, -298, -285,
    -273, -261, -250, -239, -229, -219, -209, -200, -191, -183, -175, -167, -160, -153, -146,
    -140, -134, -128, -122, -117, -112, -107, -102, -98, -93, -89, -85, -81, -78, -74, -71,
    -68, -65, -62, -59, -56, -54, -51, -49, -46, -44, -42, -40, -38, -37, -35, -33, -32, -30,
    -29, -27, -26, -25, -23, -22, -21, -20, -19, -18, -17, -16, -15, -14, -14, -13, -12, -12,
    -11, -10, -10, -9, -8, -8, -7, -7, -6, -6, -6, -5, -5, -4, -4, -4, -3, -3, -3, -2, -2, -2,
    -2, -1, -1, -1, -1, -1, 0, 0, 0, 0, 0, 1, 1, 1, 1, 1, 2, 2, 2, 2, 3, 3, 3, 4, 4, 4, 5, 5,
    6, 6, 6, 7, 7, 8, 8, 9, 10, 10, 11, 12, 12, 13, 14, 14, 15, 16, 17, 18, 19, 20, 21, 22,
    23, 25, 26, 27, 29, 30, 32, 33, 35, 37, 38, 40, 42, 44, 46, 49, 51, 54, 56, 59, 62, 65,
    68, 71, 74, 78, 81, 85, 89, 93, 98, 102, 107, 112, 117, 122, 128, 134, 140, 146, 153, 160,
    167, 175, 183, 191, 200, 209, 219, 229, 239, 250, 261, 273, 285, 298, 312, 326, 341, 356,
    372, 389, 407, 425, 444, 464, 485, 507, 529, 553, 578, 604, 631, 660, 689, 720, 753, 786,
    822, 858, 897, 937, 979, 1023]"

section \<open>11 bits and 7 bits\<close>

definition linear11toMuLaw7_runs :: "(int \<times> int) list" where
  "linear11toMuLaw7_runs = [
    (38, -63), (74, -62), (68, -61), (63, -60), (59, -59), (54, -58), (50, -57), (46, -56),
    (43, -55), (40, -54), (37, -53), (34, -52), (31, -51), (30, -50), (27, -49), (25, -48),
    (23, -47), (21, -46), (20, -45), (19, -44), (17, -43), (16, -42), (14, -41), (14, -40),
    (12, -39), (12, -38), (10, -37), (10, -36), (10, -35), (8, -34), (8, -33), (7, -32), (7,
    -31), (6, -30), (6, -29), (6, -28), (4, -27), (5, -26), (4, -25), (4, -24), (4, -23), (3,
    -22), (3, -21), (3, -20), (3, -19), (3, -18), (2, -17), (2, -16), (2, -15), (2, -14), (1,
    -13), (2, -12), (1, -11), (2, -10), (1, -9), (1, -8), (1, -7), (1, -6), (1, -5), (1, -4),
    (1, -3), (1, -2), (1, 0), (1, 2), (1, 3), (1, 4), (1, 5), (1, 6), (1, 7), (1, 8), (1, 9),
    (2, 10), (1, 11), (2, 12), (1, 13), (2, 14), (2, 15), (2, 16), (2, 17), (3, 18), (3, 19),
    (3, 20), (3, 21), (3, 22), (4, 23), (4, 24), (4, 25), (5, 26), (4, 27), (6, 28), (6, 29),
    (6, 30), (7, 31), (7, 32), (8, 33), (8, 34), (10, 35), (10, 36), (10, 37), (12, 38), (12,
    39), (14, 40), (14, 41), (16, 42), (17, 43), (19, 44), (20, 45), (21, 46), (23, 47), (25,
    48), (27, 49), (30, 50), (31, 51), (34, 52), (37, 53), (40, 54), (43, 55), (46, 56), (50,
    57), (54, 58), (59, 59), (63, 60), (68, 61), (74, 62), (38, 63)]"

definition linear11toMuLaw7 :: "int list" where
  "linear11toMuLaw7 = rle linear11toMuLaw7_runs"

definition mulaw7toLinear11 :: "int list" where
  "mulaw7toLinear11 = [
    -1023, -947, -876, -810, -750, -693, -641, -593, -549, -507, -469, -434, -401, -371, -343,
    -317, -293, -270, -250, -231, -213, -197, -181, -167, -154, -142, -131, -121, -111, -102,
    -94, -87, -80, -73, -67, -62, -56, -52, -47, -43, -39, -36, -33, -30, -27, -24, -22, -20,
    -18, -16, -14, -12, -11, -9, -8, -7, -6, -5, -4, -3, -2, -1, -1, 0, 1, 1, 2, 3, 4, 5, 6,
    7, 8, 9, 11, 12, 14, 16, 18, 20, 22, 24, 27, 30, 33, 36, 39, 43, 47, 52, 56, 62, 67, 73,
    80, 87, 94, 102, 111, 121, 131, 142, 154, 167, 181, 197, 213, 231, 250, 270, 293, 317,
    343, 371, 401, 434, 469, 507, 549, 593, 641, 693, 750, 810, 876, 947, 1023]"

section \<open>11 bits and 6 bits\<close>

definition linear11toMuLaw6_runs :: "(int \<times> int) list" where
  "linear11toMuLaw6_runs = [
    (67, -31), (122, -30), (107, -29), (93, -28), (82, -27), (71, -26), (63, -25), (54, -24),
    (48, -23), (42, -22), (36, -21), (32, -20), (28, -19), (25, -18), (21, -17), (19, -16),
    (16, -15), (14, -14), (13, -13), (11, -12), (9, -11), (9, -10), (7, -9), (6, -8), (6, -7),
    (5, -6), (4, -5), (4, -4), (3, -3), (3, -2), (2, -1), (3, 0), (2, 1), (3, 2), (3, 3), (4,
    4), (4, 5), (5, 6), (6, 7), (6, 8), (7, 9), (9, 10), (9, 11), (11, 12), (13, 13), (14,
    14), (16, 15), (19, 16), (21, 17), (25, 18), (28, 19), (32, 20), (36, 21), (42, 22), (48,
    23), (54, 24), (63, 25), (71, 26), (82, 27), (93, 28), (107, 29), (122, 30), (67, 31)]"

definition linear11toMuLaw6 :: "int list" where
  "linear11toMuLaw6 = rle linear11toMuLaw6_runs"

definition mulaw6toLinear11 :: "int list" where
  "mulaw6toLinear11 = [
    -1023, -893, -778, -679, -591, -515, -448, -390, -339, -294, -255, -221, -192, -165, -143,
    -123, -105, -90, -77, -65, -55, -46, -38, -31, -25, -20, -16, -12, -8, -5, -2, 0, 2, 5, 8,
    12, 16, 20, 25, 31, 38, 46, 55, 65, 77, 90, 105, 123, 143, 165, 192, 221, 255, 294, 339,
    390, 448, 515, 591, 679, 778, 893, 1023]"

section \<open>11 bits and 5 bits\<close>

definition linear11toMuLaw5_runs :: "(int \<times> int) list" where
  "linear11toMuLaw5_runs = [
    (115, -15), (194, -14), (154, -13), (123, -12), (97, -11), (77, -10), (61, -9), (49, -8),
    (38, -7), (31, -6), (24, -5), (19, -4), (16, -3), (12, -2), (9, -1), (9, 0), (9, 1), (12,
    2), (16, 3), (19, 4), (24, 5), (31, 6), (38, 7), (49, 8), (61, 9), (77, 10), (97, 11),
    (123, 12), (154, 13), (194, 14), (115, 15)]"

definition linear11toMuLaw5 :: "int list" where
  "linear11toMuLaw5 = rle linear11toMuLaw5_runs"

definition mulaw5toLinear11 :: "int list" where
  "mulaw5toLinear11 = [
    -1023, -805, -632, -495, -386, -300, -231, -177, -133, -99, -72, -50, -33, -19, -9, 0, 9,
    19, 33, 50, 72, 99, 133, 177, 231, 300, 386, 495, 632, 805, 1023]"

section \<open>11 bits and 4 bits\<close>

definition linear11toMuLaw4_runs :: "(int \<times> int) list" where
  "linear11toMuLaw4_runs = [
    (196, -7), (293, -6), (197, -5), (133, -4), (89, -3), (60, -2), (41, -1), (29, 0), (41,
    1), (60, 2), (89, 3), (133, 4), (197, 5), (293, 6), (196, 7)]"

definition linear11toMuLaw4 :: "int list" where
  "linear11toMuLaw4 = rle linear11toMuLaw4_runs"

definition mulaw4toLinear11 :: "int list" where
  "mulaw4toLinear11 = [
    -1023, -666, -426, -264, -156, -82, -33, 0, 33, 82, 156, 264, 426, 666, 1023]"

section \<open>11 bits and 3 bits\<close>

definition linear11toMuLaw3_runs :: "(int \<times> int) list" where
  "linear11toMuLaw3_runs = [
    (342, -3), (414, -2), (207, -1), (121, 0), (207, 1), (414, 2), (342, 3)]"

definition linear11toMuLaw3 :: "int list" where
  "linear11toMuLaw3 = rle linear11toMuLaw3_runs"

definition mulaw3toLinear11 :: "int list" where
  "mulaw3toLinear11 = [
    -1023, -438, -146, 0, 146, 438, 1023]"

section \<open>10 bits and 8 bits\<close>

definition linear10toMuLaw8_runs :: "(int \<times> int) list" where
  "linear10toMuLaw8_runs = [
    (11, -127), (21, -126), (21, -125), (19, -124), (19, -123), (18, -122), (18, -121), (16,
    -120), (16, -119), (15, -118), (15, -117), (13, -116), (14, -115), (12, -114), (13, -113),
    (11, -112), (11, -111), (11, -110), (10, -109), (10, -108), (9, -107), (9, -106), (9,
    -105), (8, -104), (8, -103), (8, -102), (7, -101), (7, -100), (6, -99), (7, -98), (6,
    -97), (6, -96), (5, -95), (5, -94), (6, -93), (4, -92), (5, -91), (5, -90), (4, -89), (4,
    -88), (4, -87), (4, -86), (3, -85), (4, -84), (3, -83), (3, -82), (3, -81), (3, -80), (3,
    -79), (2, -78), (3, -77), (2, -76), (3, -75), (2, -74), (2, -73), (2, -72), (2, -71), (2,
    -70), (2, -69), (1, -68), (2, -67), (1, -66), (2, -65), (1, -64), (2, -63), (1, -62), (1,
    -61), (2, -60), (1, -59), (1, -58), (1, -57), (1, -56), (1, -55), (1, -54), (1, -53), (1,
    -51), (1, -50), (1, -49), (1, -48), (1, -46), (1, -44), (1, -43), (1, -41), (1, -39), (1,
    -37), (1, -34), (1, -32), (1, -29), (1, -25), (1, -21), (1, -16), (1, -9), (1, 0), (1, 9),
    (1, 16), (1, 21), (1, 25), (1, 29), (1, 32), (1, 34), (1, 37), (1, 39), (1, 41), (1, 43),
    (1, 44), (1, 46), (1, 48), (1, 49), (1, 50), (1, 51), (1, 53), (1, 54), (1, 55), (1, 56),
    (1, 57), (1, 58), (1, 59), (2, 60), (1, 61), (1, 62), (2, 63), (1, 64), (2, 65), (1, 66),
    (2, 67), (1, 68), (2, 69), (2, 70), (2, 71), (2, 72), (2, 73), (2, 74), (3, 75), (2, 76),
    (3, 77), (2, 78), (3, 79), (3, 80), (3, 81), (3, 82), (3, 83), (4, 84), (3, 85), (4, 86),
    (4, 87), (4, 88), (4, 89), (5, 90), (5, 91), (4, 92), (6, 93), (5, 94), (5, 95), (6, 96),
    (6, 97), (7, 98), (6, 99), (7, 100), (7, 101), (8, 102), (8, 103), (8, 104), (9, 105), (9,
    106), (9, 107), (10, 108), (10, 109), (11, 110), (11, 111), (11, 112), (13, 113), (12,
    114), (14, 115), (13, 116), (15, 117), (15, 118), (16, 119), (16, 120), (18, 121), (18,
    122), (19, 123), (19, 124), (21, 125), (21, 126), (11, 127)]"

definition linear10toMuLaw8 :: "int list" where
  "linear10toMuLaw8 = rle linear10toMuLaw8_runs"

definition mulaw8toLinear10 :: "int list" where
  "mulaw8toLinear10 = [
    -511, -489, -468, -448, -429, -410, -393, -376, -360, -344, -330, -315, -302, -289, -276,
    -264, -253, -242, -232, -222, -212, -203, -194, -186, -178, -170, -163, -156, -149, -143,
    -136, -131, -125, -119, -114, -109, -105, -100, -96, -91, -87, -84, -80, -76, -73, -70,
    -67, -64, -61, -58, -56, -53, -51, -49, -47, -44, -42, -41, -39, -37, -35, -34, -32, -31,
    -29, -28, -27, -26, -24, -23, -22, -21, -20, -19, -18, -17, -17, -16, -15, -14, -14, -13,
    -12, -12, -11, -11, -10, -9, -9, -9, -8, -8, -7, -7, -6, -6, -6, -5, -5, -5, -5, -4, -4,
    -4, -3, -3, -3, -3, -3, -2, -2, -2, -2, -2, -2, -1, -1, -1, -1, -1, -1, -1, 0, 0, 0, 0, 0,
    0, 0, 0, 0, 0, 0, 1, 1, 1, 1, 1, 1, 1, 2, 2, 2, 2, 2, 2, 3, 3, 3, 3, 3, 4, 4, 4, 5, 5, 5,
    5, 6, 6, 6, 7, 7, 8, 8, 9, 9, 9, 10, 11, 11, 12, 12, 13, 14, 14, 15, 16, 17, 17, 18, 19,
    20, 21, 22, 23, 24, 26, 27, 28, 29, 31, 32, 34, 35, 37, 39, 41, 42, 44, 47, 49, 51, 53,
    56, 58, 61, 64, 67, 70, 73, 76, 80, 84, 87, 91, 96, 100, 105, 109, 114, 119, 125, 131,
    136, 143, 149, 156, 163, 170, 178, 186, 194, 203, 212, 222, 232, 242, 253, 264, 276, 289,
    302, 315, 330, 344, 360, 376, 393, 410, 429, 448, 468, 489, 511]"

section \<open>10 bits and 7 bits\<close>

definition linear10toMuLaw7_runs :: "(int \<times> int) list" where
  "linear10toMuLaw7_runs = [
    (19, -63), (37, -62), (34, -61), (31, -60), (30, -59), (27, -58), (25, -57), (23, -56),
    (21, -55), (20, -54), (19, -53), (17, -52), (15, -51), (15, -50), (14, -49), (12, -48),
    (12, -47), (10, -46), (10, -45), (10, -44), (8, -43), (8, -42), (7, -41), (7, -40), (6,
    -39), (6, -38), (5, -37), (5, -36), (5, -35), (4, -34), (4, -33), (4, -32), (3, -31), (3,
    -30), (3, -29), (3, -28), (2, -27), (3, -26), (2, -25), (2, -24), (2, -23), (1, -22), (2,
    -21), (1, -20), (2, -19), (1, -18), (1, -17), (1, -16), (1, -15), (1, -14), (1, -13), (1,
    -12), (1, -10), (1, -9), (1, -7), (1, -5), (1, -3), (1, 0), (1, 3), (1, 5), (1, 7), (1,
    9), (1, 10), (1, 12), (1, 13), (1, 14), (1, 15), (1, 16), (1, 17), (1, 18), (2, 19), (1,
    20), (2, 21), (1, 22), (2, 23), (2, 24), (2, 25), (3, 26), (2, 27), (3, 28), (3, 29), (3,
    30), (3, 31), (4, 32), (4, 33), (4, 34), (5, 35), (5, 36), (5, 37), (6, 38), (6, 39), (7,
    40), (7, 41), (8, 42), (8, 43), (10, 44), (10, 45), (10, 46), (12, 47), (12, 48), (14,
    49), (15, 50), (15, 51), (17, 52), (19, 53), (20, 54), (21, 55), (23, 56), (25, 57), (27,
    58), (30, 59), (31, 60), (34, 61), (37, 62), (19, 63)]"

definition linear10toMuLaw7 :: "int list" where
  "linear10toMuLaw7 = rle linear10toMuLaw7_runs"

definition mulaw7toLinear10 :: "int list" where
  "mulaw7toLinear10 = [
    -511, -473, -437, -405, -374, -346, -320, -296, -274, -253, -234, -217, -200, -185, -171,
    -158, -146, -135, -125, -115, -106, -98, -91, -84, -77, -71, -66, -60, -56, -51, -47, -43,
    -40, -37, -34, -31, -28, -26, -24, -22, -20, -18, -16, -15, -13, -12, -11, -10, -9, -8,
    -7, -6, -5, -5, -4, -3, -3, -2, -2, -1, -1, -1, 0, 0, 0, 1, 1, 1, 2, 2, 3, 3, 4, 5, 5, 6,
    7, 8, 9, 10, 11, 12, 13, 15, 16, 18, 20, 22, 24, 26, 28, 31, 34, 37, 40, 43, 47, 51, 56,
    60, 66, 71, 77, 84, 91, 98, 106, 115, 125, 135, 146, 158, 171, 185, 200, 217, 234, 253,
    274, 296, 320, 346, 374, 405, 437, 473, 511]"

section \<open>10 bits and 6 bits\<close>

definition linear10toMuLaw6_runs :: "(int \<times> int) list" where
  "linear10toMuLaw6_runs = [
    (33, -31), (61, -30), (54, -29), (46, -28), (41, -27), (36, -26), (31, -25), (27, -24),
    (24, -23), (21, -22), (18, -21), (16, -20), (14, -19), (13, -18), (10, -17), (10, -16),
    (8, -15), (7, -14), (6, -13), (6, -12), (4, -11), (5, -10), (3, -9), (3, -8), (3, -7), (3,
    -6), (2, -5), (2, -4), (1, -3), (2, -2), (1, -1), (1, 0), (1, 1), (2, 2), (1, 3), (2, 4),
    (2, 5), (3, 6), (3, 7), (3, 8), (3, 9), (5, 10), (4, 11), (6, 12), (6, 13), (7, 14), (8,
    15), (10, 16), (10, 17), (13, 18), (14, 19), (16, 20), (18, 21), (21, 22), (24, 23), (27,
    24), (31, 25), (36, 26), (41, 27), (46, 28), (54, 29), (61, 30), (33, 31)]"

definition linear10toMuLaw6 :: "int list" where
  "linear10toMuLaw6 = rle linear10toMuLaw6_runs"

definition mulaw6toLinear10 :: "int list" where
  "mulaw6toLinear10 = [
    -511, -446, -389, -339, -295, -257, -224, -195, -169, -147, -128, -111, -96, -83, -71,
    -61, -53, -45, -38, -32, -27, -23, -19, -16, -13, -10, -8, -6, -4, -2, -1, 0, 1, 2, 4, 6,
    8, 10, 13, 16, 19, 23, 27, 32, 38, 45, 53, 61, 71, 83, 96, 111, 128, 147, 169, 195, 224,
    257, 295, 339, 389, 446, 511]"

section \<open>10 bits and 5 bits\<close>

definition linear10toMuLaw5_runs :: "(int \<times> int) list" where
  "linear10toMuLaw5_runs = [
    (57, -15), (97, -14), (77, -13), (62, -12), (48, -11), (39, -10), (30, -9), (25, -8), (19,
    -7), (15, -6), (12, -5), (10, -4), (8, -3), (6, -2), (4, -1), (5, 0), (4, 1), (6, 2), (8,
    3), (10, 4), (12, 5), (15, 6), (19, 7), (25, 8), (30, 9), (39, 10), (48, 11), (62, 12),
    (77, 13), (97, 14), (57, 15)]"

definition linear10toMuLaw5 :: "int list" where
  "linear10toMuLaw5 = rle linear10toMuLaw5_runs"

definition mulaw5toLinear10 :: "int list" where
  "mulaw5toLinear10 = [
    -511, -402, -316, -247, -193, -150, -115, -88, -67, -49, -36, -25, -16, -10, -4, 0, 4, 10,
    16, 25, 36, 49, 67, 88, 115, 150, 193, 247, 316, 402, 511]"

section \<open>10 bits and 4 bits\<close>

definition linear10toMuLaw4_runs :: "(int \<times> int) list" where
  "linear10toMuLaw4_runs = [
    (98, -7), (146, -6), (99, -5), (66, -4), (45, -3), (30, -2), (20, -1), (15, 0), (20, 1),
    (30, 2), (45, 3), (66, 4), (99, 5), (146, 6), (98, 7)]"

definition linear10toMuLaw4 :: "int list" where
  "linear10toMuLaw4 = rle linear10toMuLaw4_runs"

definition mulaw4toLinear10 :: "int list" where
  "mulaw4toLinear10 = [
    -511, -333, -213, -132, -78, -41, -17, 0, 17, 41, 78, 132, 213, 333, 511]"

section \<open>10 bits and 3 bits\<close>

definition linear10toMuLaw3_runs :: "(int \<times> int) list" where
  "linear10toMuLaw3_runs = [
    (171, -3), (207, -2), (103, -1), (61, 0), (103, 1), (207, 2), (171, 3)]"

definition linear10toMuLaw3 :: "int list" where
  "linear10toMuLaw3 = rle linear10toMuLaw3_runs"

definition mulaw3toLinear10 :: "int list" where
  "mulaw3toLinear10 = [
    -511, -219, -73, 0, 73, 219, 511]"

section \<open>9 bits and 7 bits\<close>

definition linear9toMuLaw7_runs :: "(int \<times> int) list" where
  "linear9toMuLaw7_runs = [
    (9, -63), (19, -62), (17, -61), (15, -60), (15, -59), (14, -58), (12, -57), (12, -56),
    (10, -55), (10, -54), (10, -53), (8, -52), (8, -51), (7, -50), (7, -49), (6, -48), (6,
    -47), (5, -46), (5, -45), (5, -44), (4, -43), (4, -42), (4, -41), (3, -40), (3, -39), (3,
    -38), (3, -37), (2, -36), (3, -35), (2, -34), (2, -33), (2, -32), (1, -31), (2, -30), (1,
    -29), (2, -28), (1, -27), (1, -26), (1, -25), (1, -24), (1, -23), (1, -22), (1, -21), (1,
    -19), (1, -18), (1, -16), (1, -14), (1, -12), (1, -9), (1, -5), (1, 0), (1, 5), (1, 9),
    (1, 12), (1, 14), (1, 16), (1, 18), (1, 19), (1, 21), (1, 22), (1, 23), (1, 24), (1, 25),
    (1, 26), (1, 27), (2, 28), (1, 29), (2, 30), (1, 31), (2, 32), (2, 33), (2, 34), (3, 35),
    (2, 36), (3, 37), (3, 38), (3, 39), (3, 40), (4, 41), (4, 42), (4, 43), (5, 44), (5, 45),
    (5, 46), (6, 47), (6, 48), (7, 49), (7, 50), (8, 51), (8, 52), (10, 53), (10, 54), (10,
    55), (12, 56), (12, 57), (14, 58), (15, 59), (15, 60), (17, 61), (19, 62), (9, 63)]"

definition linear9toMuLaw7 :: "int list" where
  "linear9toMuLaw7 = rle linear9toMuLaw7_runs"

definition mulaw7toLinear9 :: "int list" where
  "mulaw7toLinear9 = [
    -255, -236, -218, -202, -187, -173, -160, -148, -137, -126, -117, -108, -100, -92, -85,
    -79, -73, -67, -62, -57, -53, -49, -45, -42, -38, -35, -33, -30, -28, -26, -23, -22, -20,
    -18, -17, -15, -14, -13, -12, -11, -10, -9, -8, -7, -7, -6, -5, -5, -4, -4, -3, -3, -3,
    -2, -2, -2, -1, -1, -1, -1, -1, 0, 0, 0, 0, 0, 1, 1, 1, 1, 1, 2, 2, 2, 3, 3, 3, 4, 4, 5,
    5, 6, 7, 7, 8, 9, 10, 11, 12, 13, 14, 15, 17, 18, 20, 22, 23, 26, 28, 30, 33, 35, 38, 42,
    45, 49, 53, 57, 62, 67, 73, 79, 85, 92, 100, 108, 117, 126, 137, 148, 160, 173, 187, 202,
    218, 236, 255]"

section \<open>9 bits and 6 bits\<close>

definition linear9toMuLaw6_runs :: "(int \<times> int) list" where
  "linear9toMuLaw6_runs = [
    (16, -31), (31, -30), (27, -29), (23, -28), (20, -27), (18, -26), (16, -25), (13, -24),
    (12, -23), (11, -22), (9, -21), (8, -20), (7, -19), (6, -18), (5, -17), (5, -16), (4,
    -15), (4, -14), (3, -13), (3, -12), (2, -11), (2, -10), (2, -9), (1, -8), (2, -7), (1,
    -6), (1, -5), (1, -4), (1, -3), (1, -2), (1, 0), (1, 2), (1, 3), (1, 4), (1, 5), (1, 6),
    (2, 7), (1, 8), (2, 9), (2, 10), (2, 11), (3, 12), (3, 13), (4, 14), (4, 15), (5, 16), (5,
    17), (6, 18), (7, 19), (8, 20), (9, 21), (11, 22), (12, 23), (13, 24), (16, 25), (18, 26),
    (20, 27), (23, 28), (27, 29), (31, 30), (16, 31)]"

definition linear9toMuLaw6 :: "int list" where
  "linear9toMuLaw6 = rle linear9toMuLaw6_runs"

definition mulaw6toLinear9 :: "int list" where
  "mulaw6toLinear9 = [
    -255, -222, -194, -169, -147, -128, -112, -97, -85, -73, -64, -55, -48, -41, -36, -31,
    -26, -22, -19, -16, -14, -11, -9, -8, -6, -5, -4, -3, -2, -1, -1, 0, 1, 1, 2, 3, 4, 5, 6,
    8, 9, 11, 14, 16, 19, 22, 26, 31, 36, 41, 48, 55, 64, 73, 85, 97, 112, 128, 147, 169, 194,
    222, 255]"

section \<open>9 bits and 5 bits\<close>

definition linear9toMuLaw5_runs :: "(int \<times> int) list" where
  "linear9toMuLaw5_runs = [
    (28, -15), (49, -14), (38, -13), (31, -12), (24, -11), (20, -10), (15, -9), (12, -8), (10,
    -7), (7, -6), (6, -5), (5, -4), (4, -3), (3, -2), (2, -1), (3, 0), (2, 1), (3, 2), (4, 3),
    (5, 4), (6, 5), (7, 6), (10, 7), (12, 8), (15, 9), (20, 10), (24, 11), (31, 12), (38, 13),
    (49, 14), (28, 15)]"

definition linear9toMuLaw5 :: "int list" where
  "linear9toMuLaw5 = rle linear9toMuLaw5_runs"

definition mulaw5toLinear9 :: "int list" where
  "mulaw5toLinear9 = [
    -255, -201, -158, -123, -96, -75, -58, -44, -33, -25, -18, -13, -8, -5, -2, 0, 2, 5, 8,
    13, 18, 25, 33, 44, 58, 75, 96, 123, 158, 201, 255]"

section \<open>9 bits and 4 bits\<close>

definition linear9toMuLaw4_runs :: "(int \<times> int) list" where
  "linear9toMuLaw4_runs = [
    (49, -7), (73, -6), (49, -5), (33, -4), (23, -3), (15, -2), (10, -1), (7, 0), (10, 1),
    (15, 2), (23, 3), (33, 4), (49, 5), (73, 6), (49, 7)]"

definition linear9toMuLaw4 :: "int list" where
  "linear9toMuLaw4 = rle linear9toMuLaw4_runs"

definition mulaw4toLinear9 :: "int list" where
  "mulaw4toLinear9 = [
    -255, -166, -106, -66, -39, -21, -8, 0, 8, 21, 39, 66, 106, 166, 255]"

section \<open>9 bits and 3 bits\<close>

definition linear9toMuLaw3_runs :: "(int \<times> int) list" where
  "linear9toMuLaw3_runs = [
    (85, -3), (104, -2), (51, -1), (31, 0), (51, 1), (104, 2), (85, 3)]"

definition linear9toMuLaw3 :: "int list" where
  "linear9toMuLaw3 = rle linear9toMuLaw3_runs"

definition mulaw3toLinear9 :: "int list" where
  "mulaw3toLinear9 = [
    -255, -109, -36, 0, 36, 109, 255]"

section \<open>8 bits and 6 bits\<close>

definition linear8toMuLaw6_runs :: "(int \<times> int) list" where
  "linear8toMuLaw6_runs = [
    (8, -31), (15, -30), (14, -29), (11, -28), (10, -27), (9, -26), (8, -25), (7, -24), (6,
    -23), (5, -22), (5, -21), (4, -20), (3, -19), (3, -18), (3, -17), (2, -16), (2, -15), (2,
    -14), (2, -13), (1, -12), (1, -11), (1, -10), (1, -9), (1, -8), (1, -7), (1, -5), (1, -3),
    (1, 0), (1, 3), (1, 5), (1, 7), (1, 8), (1, 9), (1, 10), (1, 11), (1, 12), (2, 13), (2,
    14), (2, 15), (2, 16), (3, 17), (3, 18), (3, 19), (4, 20), (5, 21), (5, 22), (6, 23), (7,
    24), (8, 25), (9, 26), (10, 27), (11, 28), (14, 29), (15, 30), (8, 31)]"

definition linear8toMuLaw6 :: "int list" where
  "linear8toMuLaw6 = rle linear8toMuLaw6_runs"

definition mulaw6toLinear8 :: "int list" where
  "mulaw6toLinear8 = [
    -127, -111, -97, -84, -73, -64, -56, -48, -42, -37, -32, -27, -24, -21, -18, -15, -13,
    -11, -10, -8, -7, -6, -5, -4, -3, -2, -2, -1, -1, -1, 0, 0, 0, 1, 1, 1, 2, 2, 3, 4, 5, 6,
    7, 8, 10, 11, 13, 15, 18, 21, 24, 27, 32, 37, 42, 48, 56, 64, 73, 84, 97, 111, 127]"

section \<open>8 bits and 5 bits\<close>

definition linear8toMuLaw5_runs :: "(int \<times> int) list" where
  "linear8toMuLaw5_runs = [
    (14, -15), (24, -14), (19, -13), (16, -12), (12, -11), (10, -10), (7, -9), (6, -8), (5,
    -7), (4, -6), (3, -5), (2, -4), (2, -3), (2, -2), (1, -1), (1, 0), (1, 1), (2, 2), (2, 3),
    (2, 4), (3, 5), (4, 6), (5, 7), (6, 8), (7, 9), (10, 10), (12, 11), (16, 12), (19, 13),
    (24, 14), (14, 15)]"

definition linear8toMuLaw5 :: "int list" where
  "linear8toMuLaw5 = rle linear8toMuLaw5_runs"

definition mulaw5toLinear8 :: "int list" where
  "mulaw5toLinear8 = [
    -127, -100, -78, -61, -48, -37, -29, -22, -17, -12, -9, -6, -4, -2, -1, 0, 1, 2, 4, 6, 9,
    12, 17, 22, 29, 37, 48, 61, 78, 100, 127]"

section \<open>8 bits and 4 bits\<close>

definition linear8toMuLaw4_runs :: "(int \<times> int) list" where
  "linear8toMuLaw4_runs = [
    (24, -7), (37, -6), (24, -5), (17, -4), (11, -3), (8, -2), (5, -1), (3, 0), (5, 1), (8,
    2), (11, 3), (17, 4), (24, 5), (37, 6), (24, 7)]"

definition linear8toMuLaw4 :: "int list" where
  "linear8toMuLaw4 = rle linear8toMuLaw4_runs"

definition mulaw4toLinear8 :: "int list" where
  "mulaw4toLinear8 = [
    -127, -83, -53, -33, -19, -10, -4, 0, 4, 10, 19, 33, 53, 83, 127]"

section \<open>8 bits and 3 bits\<close>

definition linear8toMuLaw3_runs :: "(int \<times> int) list" where
  "linear8toMuLaw3_runs = [
    (42, -3), (52, -2), (26, -1), (15, 0), (26, 1), (52, 2), (42, 3)]"

definition linear8toMuLaw3 :: "int list" where
  "linear8toMuLaw3 = rle linear8toMuLaw3_runs"

definition mulaw3toLinear8 :: "int list" where
  "mulaw3toLinear8 = [
    -127, -54, -18, 0, 18, 54, 127]"

section \<open>7 bits and 5 bits\<close>

definition linear7toMuLaw5_runs :: "(int \<times> int) list" where
  "linear7toMuLaw5_runs = [
    (7, -15), (12, -14), (9, -13), (8, -12), (6, -11), (5, -10), (4, -9), (3, -8), (2, -7),
    (2, -6), (2, -5), (1, -4), (1, -3), (1, -2), (1, 0), (1, 2), (1, 3), (1, 4), (2, 5), (2,
    6), (2, 7), (3, 8), (4, 9), (5, 10), (6, 11), (8, 12), (9, 13), (12, 14), (7, 15)]"

definition linear7toMuLaw5 :: "int list" where
  "linear7toMuLaw5 = rle linear7toMuLaw5_runs"

definition mulaw5toLinear7 :: "int list" where
  "mulaw5toLinear7 = [
    -63, -50, -39, -30, -24, -18, -14, -11, -8, -6, -4, -3, -2, -1, -1, 0, 1, 1, 2, 3, 4, 6,
    8, 11, 14, 18, 24, 30, 39, 50, 63]"

section \<open>7 bits and 4 bits\<close>

definition linear7toMuLaw4_runs :: "(int \<times> int) list" where
  "linear7toMuLaw4_runs = [
    (12, -7), (18, -6), (12, -5), (9, -4), (5, -3), (4, -2), (3, -1), (1, 0), (3, 1), (4, 2),
    (5, 3), (9, 4), (12, 5), (18, 6), (12, 7)]"

definition linear7toMuLaw4 :: "int list" where
  "linear7toMuLaw4 = rle linear7toMuLaw4_runs"

definition mulaw4toLinear7 :: "int list" where
  "mulaw4toLinear7 = [
    -63, -41, -26, -16, -10, -5, -2, 0, 2, 5, 10, 16, 26, 41, 63]"

section \<open>7 bits and 3 bits\<close>

definition linear7toMuLaw3_runs :: "(int \<times> int) list" where
  "linear7toMuLaw3_runs = [
    (21, -3), (26, -2), (13, -1), (7, 0), (13, 1), (26, 2), (21, 3)]"

definition linear7toMuLaw3 :: "int list" where
  "linear7toMuLaw3 = rle linear7toMuLaw3_runs"

definition mulaw3toLinear7 :: "int list" where
  "mulaw3toLinear7 = [
    -63, -27, -9, 0, 9, 27, 63]"

section \<open>6 bits and 4 bits\<close>

definition linear6toMuLaw4_runs :: "(int \<times> int) list" where
  "linear6toMuLaw4_runs = [
    (6, -7), (9, -6), (6, -5), (4, -4), (3, -3), (2, -2), (1, -1), (1, 0), (1, 1), (2, 2), (3,
    3), (4, 4), (6, 5), (9, 6), (6, 7)]"

definition linear6toMuLaw4 :: "int list" where
  "linear6toMuLaw4 = rle linear6toMuLaw4_runs"

definition mulaw4toLinear6 :: "int list" where
  "mulaw4toLinear6 = [
    -31, -20, -13, -8, -5, -2, -1, 0, 1, 2, 5, 8, 13, 20, 31]"

section \<open>6 bits and 3 bits\<close>

definition linear6toMuLaw3_runs :: "(int \<times> int) list" where
  "linear6toMuLaw3_runs = [
    (10, -3), (13, -2), (7, -1), (3, 0), (7, 1), (13, 2), (10, 3)]"

definition linear6toMuLaw3 :: "int list" where
  "linear6toMuLaw3 = rle linear6toMuLaw3_runs"

definition mulaw3toLinear6 :: "int list" where
  "mulaw3toLinear6 = [
    -31, -13, -4, 0, 4, 13, 31]"

end
