(* ===== verification/Comp_Utils.thy ===== *)
theory Comp_Utils
  imports Flight_Prelude
begin

text \<open>
  The packing helpers of \<open>src/common/compressLib/compUtils.c\<close>: the bifurcation of signed
  samples to positive integers (both widths), \<open>bitstrip\<close> and the median.
  An array argument is the list of its elements, with \<open>nwords\<close> the count the caller
  passes; reading past the list is \<open>None\<close>.
\<close>

section \<open>Bifurcation\<close>

definition bifurcate :: "int \<Rightarrow> int" where
  "bifurcate input = (if input \<ge> 0 then u16 (2 * u16 input + 1) else u16 (2 * u16 \<bar>input\<bar>))"

definition unbifurcate :: "int \<Rightarrow> int" where
  "unbifurcate input =
     (if input mod 2 = 1 then s16 (c_div (input - 1) 2) else s16 (- c_div input 2))"

text \<open>\<open>input*=-1\<close> stores the product back into a \<open>char\<close>.\<close>

definition charbifurcate :: "int \<Rightarrow> int" where
  "charbifurcate input =
     (if input \<ge> 0 then u8 (2 * u8 input + 1)
      else let input = s8 (input * -1) in u8 (2 * u8 input))"

definition charunbifurcate :: "int \<Rightarrow> int" where
  "charunbifurcate input =
     (if input mod 2 = 1 then s8 (c_div (input - 1) 2) else s8 (- c_div input 2))"

lemma bifurcate_nonneg: "0 \<le> x \<Longrightarrow> x < 32768 \<Longrightarrow> bifurcate x = 2 * x + 1"
  by (simp add: bifurcate_def cast_simps range_defs)

lemma bifurcate_neg: "x < 0 \<Longrightarrow> -32768 < x \<Longrightarrow> bifurcate x = - 2 * x"
  by (simp add: bifurcate_def cast_simps range_defs)

lemma bifurcate_min: "bifurcate (-32768) = 0"
  by (simp add: bifurcate_def u16_def)

lemma is_u16_bifurcate [simp]: "is_u16 (bifurcate x)"
  by (simp add: bifurcate_def)

lemma bifurcate_pos: "-32768 < x \<Longrightarrow> x < 32768 \<Longrightarrow> 0 < bifurcate x"
  by (cases "0 \<le> x") (simp_all add: bifurcate_nonneg bifurcate_neg)

lemma unbifurcate_odd: "0 \<le> k \<Longrightarrow> k < 32768 \<Longrightarrow> unbifurcate (2 * k + 1) = k"
  by (simp add: unbifurcate_def c_div_nonneg cast_simps range_defs)

lemma unbifurcate_even: "0 \<le> k \<Longrightarrow> k \<le> 32768 \<Longrightarrow> unbifurcate (2 * k) = - k"
  by (simp add: unbifurcate_def c_div_nonneg cast_simps range_defs)

lemma unbifurcate_bifurcate_inv:
  assumes "-32768 < x" "x < 32768"
  shows "unbifurcate (bifurcate x) = x"
proof (cases "0 \<le> x")
  case False
  then show ?thesis
    using assms unbifurcate_even [of "- x"] by (simp add: bifurcate_neg)
qed (use assms in \<open>simp add: bifurcate_nonneg unbifurcate_odd\<close>)

lemma bifurcate_unbifurcate_inv:
  assumes "0 < n" "n < 65536"
  shows "bifurcate (unbifurcate n) = n"
proof (cases "even n")
  case True
  then obtain k where "n = 2 * k" by (elim evenE)
  with assms show ?thesis
    by (simp add: unbifurcate_even bifurcate_neg)
next
  case False
  then obtain k where "n = 2 * k + 1" by (elim oddE)
  with assms show ?thesis
    by (simp add: unbifurcate_odd bifurcate_nonneg)
qed

text \<open>Which samples fit in \<open>b\<close> bits once bifurcated.\<close>

lemma bifurcate_less_iff:
  assumes "-32768 < x" "x < 32768"
  shows "bifurcate x < 2 * h \<longleftrightarrow> - h < x \<and> x < h"
  using assms by (cases "0 \<le> x") (simp_all add: bifurcate_nonneg bifurcate_neg; linarith)+

lemma charbifurcate_nonneg: "0 \<le> x \<Longrightarrow> x < 128 \<Longrightarrow> charbifurcate x = 2 * x + 1"
  by (simp add: charbifurcate_def cast_simps range_defs)

lemma charbifurcate_neg: "x < 0 \<Longrightarrow> -128 < x \<Longrightarrow> charbifurcate x = - 2 * x"
  by (simp add: charbifurcate_def cast_simps range_defs)

lemma charunbifurcate_odd: "0 \<le> k \<Longrightarrow> k < 128 \<Longrightarrow> charunbifurcate (2 * k + 1) = k"
  by (simp add: charunbifurcate_def c_div_nonneg cast_simps range_defs)

lemma charunbifurcate_even: "0 \<le> k \<Longrightarrow> k \<le> 128 \<Longrightarrow> charunbifurcate (2 * k) = - k"
  by (simp add: charunbifurcate_def c_div_nonneg cast_simps range_defs)

lemma charunbifurcate_charbifurcate_inv:
  assumes "-128 < x" "x < 128"
  shows "charunbifurcate (charbifurcate x) = x"
proof (cases "0 \<le> x")
  case False
  then show ?thesis
    using assms charunbifurcate_even [of "- x"] by (simp add: charbifurcate_neg)
qed (use assms in \<open>simp add: charbifurcate_nonneg charunbifurcate_odd\<close>)

section \<open>Stripping and the median\<close>

definition bitstrip :: "nat \<Rightarrow> nat \<Rightarrow> int list \<Rightarrow> int list option" where
  "bitstrip nbits nwords dat =
     (if nwords \<le> length dat
      then Some (map (drop_bit nbits) (take nwords dat) @ drop nwords dat) else None)"

text \<open>\<open>uscompare\<close> orders the elements for \<open>qsort\<close>.\<close>

definition uscompare :: "int \<Rightarrow> int \<Rightarrow> int" where
  "uscompare e1 e2 = (if e1 < e2 then -1 else if e1 > e2 then 1 else 0)"

text \<open>
  \<open>qsort(scratch,nwords,sizeof(unsigned short),uscompare)\<close>: the C library's sort, by the
  order that \<open>uscompare\<close> is.
\<close>

fun us_insert :: "int \<Rightarrow> int list \<Rightarrow> int list" where
  "us_insert x [] = [x]"
| "us_insert x (y # ys) = (if uscompare x y > 0 then y # us_insert x ys else x # y # ys)"

definition us_qsort :: "int list \<Rightarrow> int list" where
  "us_qsort xs = foldr us_insert xs []"

definition findmedian :: "nat \<Rightarrow> int list \<Rightarrow> int option" where
  "findmedian nwords dat =
     (if 0 < nwords \<and> nwords \<le> length dat then Some (us_qsort (take nwords dat) ! (nwords div 2))
      else None)"

lemma us_qsort_sort: "us_qsort xs = sort xs"
proof -
  have "us_insert x ys = insort x ys" for x ys
    by (induction ys) (auto simp: uscompare_def)
  then have "us_insert = insort"
    by (intro ext)
  then show ?thesis
    by (simp add: us_qsort_def sort_key_def)
qed

lemma sorted_nth_counts:
  assumes "sorted (ys :: int list)" "k < length ys"
  shows "length (filter (\<lambda>y. y < ys ! k) ys) \<le> k"
    and "length (filter (\<lambda>y. y > ys ! k) ys) \<le> length ys - k - 1"
proof -
  have "{i. i < length ys \<and> ys ! i < ys ! k} \<subseteq> {0..<k}"
  proof
    fix i assume i: "i \<in> {i. i < length ys \<and> ys ! i < ys ! k}"
    then have "\<not> k \<le> i"
      using sorted_nth_mono [OF assms(1), of k i] by auto
    then show "i \<in> {0..<k}" by simp
  qed
  from card_mono [OF _ this] show "length (filter (\<lambda>y. y < ys ! k) ys) \<le> k"
    by (simp add: length_filter_conv_card)
  have "{i. i < length ys \<and> ys ! i > ys ! k} \<subseteq> {Suc k..<length ys}"
  proof
    fix i assume i: "i \<in> {i. i < length ys \<and> ys ! i > ys ! k}"
    then have "\<not> i \<le> k"
      using sorted_nth_mono [OF assms(1), of i k] assms(2) by auto
    then show "i \<in> {Suc k..<length ys}" using i by simp
  qed
  from card_mono [OF _ this] show "length (filter (\<lambda>y. y > ys ! k) ys) \<le> length ys - k - 1"
    by (simp add: length_filter_conv_card)
qed

lemma length_filter_sort: "length (filter P (sort xs)) = length (filter P (xs :: int list))"
  by (simp add: filter_sort)

section \<open>Properties\<close>

text \<open>
  Bifurcation is a bijection between the signed 16-bit numbers other than \<open>-32768\<close> and
  the positive 16-bit numbers, and \<open>unbifurcate\<close> is its inverse.
\<close>

theorem bifurcation_bijective:
  "bij_betw bifurcate {-32768<..<32768} {0<..<65536} \<and>
   (\<forall>x \<in> {-32768<..<32768}. unbifurcate (bifurcate x) = x)"
proof (intro conjI ballI bij_betw_byWitness [where f' = unbifurcate])
  fix x :: int
  assume x: "x \<in> {-32768<..<32768}"
  then show "unbifurcate (bifurcate x) = x" "unbifurcate (bifurcate x) = x"
    by (auto intro: unbifurcate_bifurcate_inv)
next
  fix n :: int
  assume "n \<in> {0<..<65536}"
  then show "bifurcate (unbifurcate n) = n"
    by (auto intro: bifurcate_unbifurcate_inv)
next
  show "bifurcate ` {-32768<..<32768} \<subseteq> {0<..<65536}"
    using is_u16_bifurcate bifurcate_pos by (auto simp: is_u16_def)
  show "unbifurcate ` {0<..<65536} \<subseteq> {-32768<..<32768}"
  proof
    fix y assume "y \<in> unbifurcate ` {0<..<65536}"
    then obtain n where n: "0 < n" "n < 65536" "y = unbifurcate n"
      by auto
    show "y \<in> {-32768<..<32768}"
      using n unbifurcate_odd [of "n div 2"] unbifurcate_even [of "n div 2"]
      by (cases "even n") (auto elim!: evenE oddE)
  qed
qed

theorem bifurcation_bijective_witness: "unbifurcate (bifurcate (-7)) = -7"
  using bifurcation_bijective by auto

text \<open>
  \<open>findmedian\<close> returns one of the words, with at most half of the words below it and at
  most half above it.
\<close>

theorem findmedian_is_median:
  assumes "findmedian nwords xs = Some v"
  shows "v \<in> set (take nwords xs) \<and> length (filter (\<lambda>y. y < v) (take nwords xs)) \<le> nwords div 2 \<and>
    length (filter (\<lambda>y. y > v) (take nwords xs)) \<le> (nwords - 1) div 2"
proof -
  let ?xs = "take nwords xs"
  have n: "0 < nwords" "length ?xs = nwords" and v: "v = sort ?xs ! (nwords div 2)"
    using assms by (auto simp: findmedian_def us_qsort_sort split: if_splits)
  have k: "nwords div 2 < length (sort ?xs)"
    using n by simp
  then have "v \<in> set ?xs"
    using nth_mem [OF k] v by simp
  moreover have "nwords - nwords div 2 - 1 \<le> (nwords - 1) div 2"
    by (cases "even nwords") (auto elim!: evenE oddE)
  ultimately show ?thesis
    using sorted_nth_counts [OF sorted_sort k] n(2) unfolding v length_filter_sort by simp
qed

theorem findmedian_is_median_witness:
  "length (filter (\<lambda>y. y > 7) [9, 5, 1, 7 :: int]) \<le> (4 - 1) div 2"
  using findmedian_is_median [of 4 "[9, 5, 1, 7]" 7] by (simp only: findmedian_def us_qsort_def) (simp add: uscompare_def)

end
