(* ===== verification/MuLaw.thy ===== *)
theory MuLaw
  imports MuLaw_Tables Comp_Utils Compress_Types
begin

text \<open>
  The mu-law companding of \<open>src/common/compressLib/mulaw.c\<close> on the tables of
  \<open>mulawTables.h\<close>. A table access outside the table is \<open>None\<close>: both functions
  compute \<open>index = input + 2^(bits-1)\<close>, while the tables have \<open>2^bits-1\<close> entries
  and their middle entry at \<open>2^(bits-1)-1\<close>.
  The lemmas bound what the composition of the two does to a sample.
\<close>

section \<open>The conversions\<close>

definition tab_get :: "int list \<Rightarrow> int \<Rightarrow> int option" where
  "tab_get tab index = (if 0 \<le> index \<and> index < int (length tab) then Some (tab ! nat index) else None)"

text \<open>The two nested switches choose the table.\<close>

definition toMuLaw_table :: "nat \<Rightarrow> nat \<Rightarrow> int list" where
  "toMuLaw_table inputBits mulawBits =
    (if inputBits = 11 then
       (if mulawBits = 8 then linear11toMuLaw8 else
        if mulawBits = 7 then linear11toMuLaw7 else
        if mulawBits = 6 then linear11toMuLaw6 else
        if mulawBits = 5 then linear11toMuLaw5 else
        if mulawBits = 4 then linear11toMuLaw4 else
        if mulawBits = 3 then linear11toMuLaw3 else
        linear11toMuLaw8)
     else if inputBits = 10 then
       (if mulawBits = 8 then linear10toMuLaw8 else
        if mulawBits = 7 then linear10toMuLaw7 else
        if mulawBits = 6 then linear10toMuLaw6 else
        if mulawBits = 5 then linear10toMuLaw5 else
        if mulawBits = 4 then linear10toMuLaw4 else
        if mulawBits = 3 then linear10toMuLaw3 else
        linear10toMuLaw8)
     else if inputBits = 9 then
       (if mulawBits = 7 then linear9toMuLaw7 else
        if mulawBits = 6 then linear9toMuLaw6 else
        if mulawBits = 5 then linear9toMuLaw5 else
        if mulawBits = 4 then linear9toMuLaw4 else
        if mulawBits = 3 then linear9toMuLaw3 else
        linear9toMuLaw7)
     else if inputBits = 8 then
       (if mulawBits = 6 then linear8toMuLaw6 else
        if mulawBits = 5 then linear8toMuLaw5 else
        if mulawBits = 4 then linear8toMuLaw4 else
        if mulawBits = 3 then linear8toMuLaw3 else
        linear8toMuLaw6)
     else if inputBits = 7 then
       (if mulawBits = 5 then linear7toMuLaw5 else
        if mulawBits = 4 then linear7toMuLaw4 else
        if mulawBits = 3 then linear7toMuLaw3 else
        linear7toMuLaw5)
     else if inputBits = 6 then
       (if mulawBits = 4 then linear6toMuLaw4 else
        if mulawBits = 3 then linear6toMuLaw3 else
        linear6toMuLaw4)
     else 
       (if mulawBits = 8 then linear11toMuLaw8 else
        if mulawBits = 7 then linear11toMuLaw7 else
        if mulawBits = 6 then linear11toMuLaw6 else
        if mulawBits = 5 then linear11toMuLaw5 else
        if mulawBits = 4 then linear11toMuLaw4 else
        if mulawBits = 3 then linear11toMuLaw3 else
        linear11toMuLaw8))"

definition fromMuLaw_table :: "nat \<Rightarrow> nat \<Rightarrow> int list" where
  "fromMuLaw_table outputBits mulawBits =
    (if outputBits = 11 then
       (if mulawBits = 8 then mulaw8toLinear11 else
        if mulawBits = 7 then mulaw7toLinear11 else
        if mulawBits = 6 then mulaw6toLinear11 else
        if mulawBits = 5 then mulaw5toLinear11 else
        if mulawBits = 4 then mulaw4toLinear11 else
        if mulawBits = 3 then mulaw3toLinear11 else
        mulaw8toLinear11)
     else if outputBits = 10 then
       (if mulawBits = 8 then mulaw8toLinear10 else
        if mulawBits = 7 then mulaw7toLinear10 else
        if mulawBits = 6 then mulaw6toLinear10 else
        if mulawBits = 5 then mulaw5toLinear10 else
        if mulawBits = 4 then mulaw4toLinear10 else
        if mulawBits = 3 then mulaw3toLinear10 else
        mulaw8toLinear10)
     else if outputBits = 9 then
       (if mulawBits = 7 then mulaw7toLinear9 else
        if mulawBits = 6 then mulaw6toLinear9 else
        if mulawBits = 5 then mulaw5toLinear9 else
        if mulawBits = 4 then mulaw4toLinear9 else
        if mulawBits = 3 then mulaw3toLinear9 else
        mulaw7toLinear9)
     else if outputBits = 8 then
       (if mulawBits = 6 then mulaw6toLinear8 else
        if mulawBits = 5 then mulaw5toLinear8 else
        if mulawBits = 4 then mulaw4toLinear8 else
        if mulawBits = 3 then mulaw3toLinear8 else
        mulaw6toLinear8)
     else if outputBits = 7 then
       (if mulawBits = 5 then mulaw5toLinear7 else
        if mulawBits = 4 then mulaw4toLinear7 else
        if mulawBits = 3 then mulaw3toLinear7 else
        mulaw5toLinear7)
     else if outputBits = 6 then
       (if mulawBits = 4 then mulaw4toLinear6 else
        if mulawBits = 3 then mulaw3toLinear6 else
        mulaw4toLinear6)
     else 
       (if mulawBits = 8 then mulaw8toLinear11 else
        if mulawBits = 7 then mulaw7toLinear11 else
        if mulawBits = 6 then mulaw6toLinear11 else
        if mulawBits = 5 then mulaw5toLinear11 else
        if mulawBits = 4 then mulaw4toLinear11 else
        if mulawBits = 3 then mulaw3toLinear11 else
        mulaw8toLinear11))"

definition convertToMuLaw :: "int \<Rightarrow> nat \<Rightarrow> nat \<Rightarrow> int option" where
  "convertToMuLaw input inputBits mulawBits =
     tab_get (toMuLaw_table inputBits mulawBits) (input + 2 ^ (inputBits - 1))"

definition convertToMuLawUC :: "int \<Rightarrow> nat \<Rightarrow> nat \<Rightarrow> int option" where
  "convertToMuLawUC input inputBits mulawBits =
     map_option charbifurcate (convertToMuLaw input inputBits mulawBits)"

definition convertFromMuLaw :: "int \<Rightarrow> nat \<Rightarrow> nat \<Rightarrow> int option" where
  "convertFromMuLaw input outputBits mulawBits =
     tab_get (fromMuLaw_table outputBits mulawBits) (input + 2 ^ (mulawBits - 1))"

definition convertFromMuLawUC :: "int \<Rightarrow> nat \<Rightarrow> nat \<Rightarrow> int option" where
  "convertFromMuLawUC input outputBits mulawBits =
     convertFromMuLaw (charunbifurcate input) outputBits mulawBits"

section \<open>Walking a compression table along its expansion table\<close>

text \<open>
  \<open>mu_walk q E off pos runs ys\<close>: the entries of \<open>runs\<close> stand for the samples
  \<open>off, off + 1, ...\<close>, the entries of \<open>ys\<close> for the codes \<open>pos, pos + 1, ...\<close>,
  and every sample \<open>x\<close> with \<open>\<bar>x\<bar> \<le> q\<close> expands to a value above \<open>x\<close> and at most
  \<open>x + E\<close>.
\<close>

fun mu_walk :: "int \<Rightarrow> int \<Rightarrow> int \<Rightarrow> int \<Rightarrow> (int \<times> int) list \<Rightarrow> int list \<Rightarrow> bool" where
  "mu_walk q E off pos [] ys = True"
| "mu_walk q E off pos ((n, c) # rs) [] = (off > q)"
| "mu_walk q E off pos ((n, c) # rs) (y # ys) =
    (if off > q then True
     else if pos = c then
       (off + n - 1 < - q \<or> (min (off + n - 1) q < y \<and> y \<le> max off (- q) + E)) \<and> 0 \<le> n \<and>
       mu_walk q E (off + n) pos rs (y # ys)
     else pos < c \<and> mu_walk q E off (pos + 1) ((n, c) # rs) ys)"

lemma rle_simps [simp]: "rle [] = []" "rle ((n, v) # rs) = replicate (nat n) v @ rle rs"
  by (simp_all add: rle_def)

lemma mu_walk_sound:
  assumes "mu_walk q E off pos runs ys" "j < length (rle runs)" "- q \<le> off + int j" "off + int j \<le> q"
  shows "\<exists>k. rle runs ! j = pos + int k \<and> k < length ys \<and>
    off + int j < ys ! k \<and> ys ! k \<le> off + int j + E"
  using assms
proof (induction q E off pos runs ys arbitrary: j rule: mu_walk.induct)
  case (3 q E off pos n c rs y ys)
  have le: "off \<le> q" using 3 by simp
  show ?case
  proof (cases "pos = c")
    case True
    with 3(3) le have here: "off + n - 1 < - q \<or> (min (off + n - 1) q < y \<and> y \<le> max off (- q) + E)"
      and n: "0 \<le> n" and rest: "mu_walk q E (off + n) pos rs (y # ys)"
      by simp_all
    show ?thesis
    proof (cases "j < nat n")
      case True
      with here n 3(5,6) have "off + int j < y" "y \<le> off + int j + E"
        by auto
      with True \<open>pos = c\<close> show ?thesis
        by (intro exI [of _ 0]) (simp add: nth_append)
    next
      case False
      then obtain i where i: "j = nat n + i"
        using le_Suc_ex not_less by blast
      have "\<exists>k. rle rs ! i = pos + int k \<and> k < length (y # ys) \<and>
          off + n + int i < (y # ys) ! k \<and> (y # ys) ! k \<le> off + n + int i + E"
        by (rule 3(1) [OF _ True rest]) (use le 3(4-6) i n in auto)
      then show ?thesis
        using i n by (simp add: nth_append add.assoc)
    qed
  next
    case False
    with 3(3) le have "mu_walk q E off (pos + 1) ((n, c) # rs) ys" by simp
    from 3(2) [OF _ False this 3(4-6)] le obtain k where
      "rle ((n, c) # rs) ! j = pos + 1 + int k" "k < length ys"
      "off + int j < ys ! k" "ys ! k \<le> off + int j + E"
      by auto
    then show ?thesis
      by (intro exI [of _ "Suc k"]) simp
  qed
qed auto

section \<open>Every pair of tables\<close>

text \<open>The largest deviation of each pair, over the samples \<open>\<bar>x\<bar> \<le> 2^(inputBits-2)\<close>.\<close>

definition mulaw_errs :: "((nat \<times> nat) \<times> int) list" where
  "mulaw_errs = [
     ((11, 8), 33), ((11, 7), 61), ((11, 6), 110), ((11, 5), 195), ((11, 4), 329), ((11, 3), 756),
     ((10, 8), 17), ((10, 7), 30), ((10, 6), 55), ((10, 5), 98), ((10, 4), 165), ((10, 3), 378),
     ((9, 7), 15), ((9, 6), 27), ((9, 5), 49), ((9, 4), 82), ((9, 3), 189),
     ((8, 6), 13), ((8, 5), 24), ((8, 4), 41), ((8, 3), 94),
     ((7, 5), 12), ((7, 4), 20), ((7, 3), 47),
     ((6, 4), 15), ((6, 3), 23)]"

definition mulaw_err :: "nat \<Rightarrow> nat \<Rightarrow> int" where
  "mulaw_err inputBits mulawBits =
     (case map_of mulaw_errs (inputBits, mulawBits) of Some e \<Rightarrow> e | None \<Rightarrow> 0)"

definition toMuLaw_runs :: "nat \<Rightarrow> nat \<Rightarrow> (int \<times> int) list" where
  "toMuLaw_runs inputBits mulawBits =
    (if inputBits = 11 then
       (if mulawBits = 8 then linear11toMuLaw8_runs else
        if mulawBits = 7 then linear11toMuLaw7_runs else
        if mulawBits = 6 then linear11toMuLaw6_runs else
        if mulawBits = 5 then linear11toMuLaw5_runs else
        if mulawBits = 4 then linear11toMuLaw4_runs else
        if mulawBits = 3 then linear11toMuLaw3_runs else
        linear11toMuLaw8_runs)
     else if inputBits = 10 then
       (if mulawBits = 8 then linear10toMuLaw8_runs else
        if mulawBits = 7 then linear10toMuLaw7_runs else
        if mulawBits = 6 then linear10toMuLaw6_runs else
        if mulawBits = 5 then linear10toMuLaw5_runs else
        if mulawBits = 4 then linear10toMuLaw4_runs else
        if mulawBits = 3 then linear10toMuLaw3_runs else
        linear10toMuLaw8_runs)
     else if inputBits = 9 then
       (if mulawBits = 7 then linear9toMuLaw7_runs else
        if mulawBits = 6 then linear9toMuLaw6_runs else
        if mulawBits = 5 then linear9toMuLaw5_runs else
        if mulawBits = 4 then linear9toMuLaw4_runs else
        if mulawBits = 3 then linear9toMuLaw3_runs else
        linear9toMuLaw7_runs)
     else if inputBits = 8 then
       (if mulawBits = 6 then linear8toMuLaw6_runs else
        if mulawBits = 5 then linear8toMuLaw5_runs else
        if mulawBits = 4 then linear8toMuLaw4_runs else
        if mulawBits = 3 then linear8toMuLaw3_runs else
        linear8toMuLaw6_runs)
     else if inputBits = 7 then
       (if mulawBits = 5 then linear7toMuLaw5_runs else
        if mulawBits = 4 then linear7toMuLaw4_runs else
        if mulawBits = 3 then linear7toMuLaw3_runs else
        linear7toMuLaw5_runs)
     else if inputBits = 6 then
       (if mulawBits = 4 then linear6toMuLaw4_runs else
        if mulawBits = 3 then linear6toMuLaw3_runs else
        linear6toMuLaw4_runs)
     else 
       (if mulawBits = 8 then linear11toMuLaw8_runs else
        if mulawBits = 7 then linear11toMuLaw7_runs else
        if mulawBits = 6 then linear11toMuLaw6_runs else
        if mulawBits = 5 then linear11toMuLaw5_runs else
        if mulawBits = 4 then linear11toMuLaw4_runs else
        if mulawBits = 3 then linear11toMuLaw3_runs else
        linear11toMuLaw8_runs))"

lemmas table_defs = linear11toMuLaw8_runs_def mulaw8toLinear11_def linear11toMuLaw7_runs_def
  mulaw7toLinear11_def linear11toMuLaw6_runs_def mulaw6toLinear11_def
  linear11toMuLaw5_runs_def mulaw5toLinear11_def linear11toMuLaw4_runs_def
  mulaw4toLinear11_def linear11toMuLaw3_runs_def mulaw3toLinear11_def
  linear10toMuLaw8_runs_def mulaw8toLinear10_def linear10toMuLaw7_runs_def
  mulaw7toLinear10_def linear10toMuLaw6_runs_def mulaw6toLinear10_def
  linear10toMuLaw5_runs_def mulaw5toLinear10_def linear10toMuLaw4_runs_def
  mulaw4toLinear10_def linear10toMuLaw3_runs_def mulaw3toLinear10_def
  linear9toMuLaw7_runs_def mulaw7toLinear9_def linear9toMuLaw6_runs_def mulaw6toLinear9_def
  linear9toMuLaw5_runs_def mulaw5toLinear9_def linear9toMuLaw4_runs_def mulaw4toLinear9_def
  linear9toMuLaw3_runs_def mulaw3toLinear9_def linear8toMuLaw6_runs_def mulaw6toLinear8_def
  linear8toMuLaw5_runs_def mulaw5toLinear8_def linear8toMuLaw4_runs_def mulaw4toLinear8_def
  linear8toMuLaw3_runs_def mulaw3toLinear8_def linear7toMuLaw5_runs_def mulaw5toLinear7_def
  linear7toMuLaw4_runs_def mulaw4toLinear7_def linear7toMuLaw3_runs_def mulaw3toLinear7_def
  linear6toMuLaw4_runs_def mulaw4toLinear6_def linear6toMuLaw3_runs_def mulaw3toLinear6_def

lemmas toMuLaw_defs = linear11toMuLaw8_def linear11toMuLaw7_def linear11toMuLaw6_def linear11toMuLaw5_def
  linear11toMuLaw4_def linear11toMuLaw3_def linear10toMuLaw8_def linear10toMuLaw7_def
  linear10toMuLaw6_def linear10toMuLaw5_def linear10toMuLaw4_def linear10toMuLaw3_def
  linear9toMuLaw7_def linear9toMuLaw6_def linear9toMuLaw5_def linear9toMuLaw4_def
  linear9toMuLaw3_def linear8toMuLaw6_def linear8toMuLaw5_def linear8toMuLaw4_def
  linear8toMuLaw3_def linear7toMuLaw5_def linear7toMuLaw4_def linear7toMuLaw3_def
  linear6toMuLaw4_def linear6toMuLaw3_def

definition runs_ok :: "int \<Rightarrow> int \<Rightarrow> (int \<times> int) list \<Rightarrow> bool" where
  "runs_ok len h runs \<longleftrightarrow> sum_list (map fst runs) = len \<and> list_all (\<lambda>(n, c). 0 \<le> n \<and> - h < c \<and> c < h) runs"

lemma mulaw_errs_pairs: "map fst mulaw_errs = mulaw_pairs"
  by (simp add: mulaw_errs_def mulaw_pairs_def)

lemma mulaw_walks:
  "list_all (\<lambda>((b, m), e). mu_walk (2 ^ (b - 2)) e (- (2 ^ (b - 1))) (- (2 ^ (m - 1)))
     (toMuLaw_runs b m) (fromMuLaw_table b m)) mulaw_errs"
  by (simp add: mulaw_errs_def toMuLaw_runs_def fromMuLaw_table_def table_defs)

lemma mulaw_runs_ok:
  "list_all (\<lambda>(b, m). runs_ok (2 ^ b - 1) (2 ^ (m - 1)) (toMuLaw_runs b m)) mulaw_pairs"
  by (simp add: mulaw_pairs_def toMuLaw_runs_def runs_ok_def table_defs)

lemma toMuLaw_table_rle: "toMuLaw_table b m = rle (toMuLaw_runs b m)"
  by (simp add: toMuLaw_table_def toMuLaw_runs_def toMuLaw_defs)

lemma mulaw_pair_facts:
  assumes "(b, m) \<in> set mulaw_pairs"
  shows "mu_walk (2 ^ (b - 2)) (mulaw_err b m) (- (2 ^ (b - 1))) (- (2 ^ (m - 1)))
      (toMuLaw_runs b m) (fromMuLaw_table b m)"
    and "runs_ok (2 ^ b - 1) (2 ^ (m - 1)) (toMuLaw_runs b m)"
    and "6 \<le> b" "b \<le> 11" "3 \<le> m" "m \<le> 8"
proof -
  have "distinct (map fst mulaw_errs)"
    by (simp add: mulaw_errs_def)
  moreover have "(b, m) \<in> fst ` set mulaw_errs"
    using assms mulaw_errs_pairs by (metis list.set_map)
  ultimately have "((b, m), mulaw_err b m) \<in> set mulaw_errs"
    by (auto simp: mulaw_err_def)
  then show "mu_walk (2 ^ (b - 2)) (mulaw_err b m) (- (2 ^ (b - 1))) (- (2 ^ (m - 1)))
      (toMuLaw_runs b m) (fromMuLaw_table b m)"
    using mulaw_walks unfolding list_all_iff by fastforce
  show "runs_ok (2 ^ b - 1) (2 ^ (m - 1)) (toMuLaw_runs b m)"
    using mulaw_runs_ok assms unfolding list_all_iff by fastforce
  show "6 \<le> b" "b \<le> 11" "3 \<le> m" "m \<le> 8"
    using assms by (auto simp: mulaw_pairs_def)
qed

lemma runs_ok_length: "runs_ok len h runs \<Longrightarrow> int (length (rle runs)) = len"
  unfolding runs_ok_def by (induction runs arbitrary: len) auto

lemma runs_ok_codes: "runs_ok len h runs \<Longrightarrow> c \<in> set (rle runs) \<Longrightarrow> - h < c \<and> c < h"
  unfolding runs_ok_def rle_def by (fastforce simp: list_all_iff)

lemma charbifurcate_bits:
  assumes "3 \<le> m" "m \<le> 8" "- (2 ^ (m - 1)) < c" "c < (2 ^ (m - 1) :: int)"
  shows "0 \<le> charbifurcate c" "charbifurcate c < 2 ^ m" "charunbifurcate (charbifurcate c) = c"
proof -
  have m: "(2::int) ^ m = 2 * 2 ^ (m - 1)" "(2::int) ^ (m - 1) \<le> 128"
    using assms power_increasing [of "m - 1" 7 "2::int"] by (simp_all flip: power_Suc)
  have c: "-128 < c" "c < 128"
    using assms m by linarith+
  show "charunbifurcate (charbifurcate c) = c"
    using c by (rule charunbifurcate_charbifurcate_inv)
  show "0 \<le> charbifurcate c" "charbifurcate c < 2 ^ m"
    using c assms m
    by (cases "0 \<le> c"; simp add: charbifurcate_nonneg charbifurcate_neg)+
qed

lemma mulaw_sample:
  assumes pair: "(b, m) \<in> set mulaw_pairs" and x: "\<bar>x\<bar> \<le> 2 ^ (b - 2)"
  obtains u y where "convertToMuLawUC x b m = Some u" "0 \<le> u" "u < 2 ^ m"
    "convertFromMuLawUC u b m = Some y" "x < y" "y \<le> x + mulaw_err b m"
proof -
  note facts = mulaw_pair_facts [OF pair]
  have "(2::int) ^ b = 4 * 2 ^ (b - 2)" "(2::int) ^ (b - 1) = 2 * 2 ^ (b - 2)"
    "(16::int) \<le> 2 ^ (b - 2)"
  proof -
    define d where "d = b - 2"
    with facts(3) have d: "b = d + 2" "4 \<le> d" by simp_all
    show "(2::int) ^ b = 4 * 2 ^ (b - 2)" "(2::int) ^ (b - 1) = 2 * 2 ^ (b - 2)"
      "(16::int) \<le> 2 ^ (b - 2)"
      using power_increasing [of 4 d "2::int"] d(2) by (simp_all add: d(1))
  qed
  with x have idx: "0 \<le> x + 2 ^ (b - 1)" "x + 2 ^ (b - 1) < 2 ^ b - 1"
    by linarith+
  define j where "j = nat (x + 2 ^ (b - 1))"
  have j: "int j = x + 2 ^ (b - 1)" "j < length (rle (toMuLaw_runs b m))"
    using idx runs_ok_length [OF facts(2)] by (simp_all add: j_def nat_less_iff)
  obtain k where k: "rle (toMuLaw_runs b m) ! j = - (2 ^ (m - 1)) + int k"
    "k < length (fromMuLaw_table b m)" "x < fromMuLaw_table b m ! k"
    "fromMuLaw_table b m ! k \<le> x + mulaw_err b m"
    using mu_walk_sound [OF facts(1) j(2)] j(1) x unfolding abs_le_iff by auto
  define c where "c = rle (toMuLaw_runs b m) ! j"
  have enc: "convertToMuLaw x b m = Some c"
    using idx runs_ok_length [OF facts(2)]
    by (simp add: convertToMuLaw_def tab_get_def toMuLaw_table_rle c_def j_def)
  have c: "- (2 ^ (m - 1)) < c" "c < 2 ^ (m - 1)"
    using runs_ok_codes [OF facts(2), of c] j(2) by (auto simp: c_def)
  have dec: "convertFromMuLaw c b m = Some (fromMuLaw_table b m ! k)"
    using k(1,2) by (simp add: convertFromMuLaw_def tab_get_def c_def)
  show thesis
    by (rule that [of "charbifurcate c" "fromMuLaw_table b m ! k"])
      (use charbifurcate_bits [OF facts(5,6) c] enc dec k(3,4) in
        \<open>simp_all add: convertToMuLawUC_def convertFromMuLawUC_def\<close>)
qed

section \<open>Properties\<close>

text \<open>
  The error of the mu-law code: for each of the 26 pairs of bit sizes and each input up to
  a quarter of the full scale, the code fits in its bits, the tables are read in bounds, and
  the value that comes back is too large, by at least one and at most \<open>mulaw_err\<close>.
\<close>

theorem mulaw_code_error:
  assumes "(b, m) \<in> set mulaw_pairs" "\<bar>x\<bar> \<le> 2 ^ (b - 2)"
  shows "\<exists>u y. convertToMuLawUC x b m = Some u \<and> 0 \<le> u \<and> u < 2 ^ m \<and>
    convertFromMuLawUC u b m = Some y \<and> x < y \<and> y \<le> x + mulaw_err b m"
  by (rule mulaw_sample [OF assms]) blast

theorem mulaw_code_error_witness:
  "\<exists>u y. convertToMuLawUC 300 11 8 = Some u \<and> convertFromMuLawUC u 11 8 = Some y \<and> 300 < y"
  using mulaw_code_error [of 11 8 300] by (auto simp: mulaw_pairs_def)

end
