(* ===== verification/Fibonacci.thy ===== *)
theory Fibonacci
  imports Flight_Prelude
begin

text \<open>
  The Fibonacci coder of \<open>common/compressLib/fibonacci.c\<close>: a positive number is written as a
  sum of non-adjacent Fibonacci numbers (its minimal representation), one bit per number, and the
  pair of ones that ends every code word marks where it stops.
  The lemmas show that a code word has exactly one such pair, at its top, that it fits in 24
  bits, and that \<open>unfibonacci\<close> inverts the coder on every non-zero \<open>unsigned short\<close>.
\<close>

named_theorems fib_simps \<open>the table of Fibonacci numbers\<close>

section \<open>The code\<close>

definition fn :: "nat list" where
  "fn = [1, 2, 3, 5, 8, 13, 21, 34, 55, 89,
         144, 233, 377, 610, 987, 1597, 2584, 4181, 6765, 10946,
         17711, 28657, 46368, 75025]"

text \<open>
  \<open>while(input>=fn[i]) i++\<close>: the bound on \<open>i\<close> is the size of the table, which an
  \<open>unsigned short\<close> never reaches (\<open>fib_index_in_table\<close>).
\<close>

function fib_index :: "nat \<Rightarrow> nat \<Rightarrow> nat" where
  "fib_index input i = (if i < 24 \<and> fn ! i \<le> input then fib_index input (Suc i) else i)"
  by pat_completeness auto
termination
  by (relation "measure (\<lambda>(input, i). 24 - i)") auto

declare fib_index.simps [simp del]

text \<open>The loop that sets the bits, for \<open>i\<close> from its start minus one down to zero.\<close>

primrec fib_bits :: "nat \<Rightarrow> nat \<Rightarrow> nat \<Rightarrow> nat" where
  "fib_bits 0 input output = output"
| "fib_bits (Suc i) input output =
     (if fn ! i \<le> input then fib_bits i (input - fn ! i) (output + push_bit i 1)
      else fib_bits i input output)"

definition encodeFibonacci :: "nat \<Rightarrow> nat \<times> nat" where
  \<comment> \<open>the code word and \<open>*numBits\<close>; the argument is an \<open>unsigned short\<close>\<close>
  "encodeFibonacci input =
     (let input = take_bit 16 input;
          i = fib_index input 0
      in (fib_bits i input (push_bit i 1), i + 1))"

definition fibonacci :: "nat \<Rightarrow> nat" where
  "fibonacci input = fst (encodeFibonacci input)"

function unfib_loop :: "nat \<Rightarrow> nat \<Rightarrow> nat \<Rightarrow> nat \<Rightarrow> nat" where
  "unfib_loop input i lastbit output =
     (if i < 23 then
        let curbit = drop_bit i input AND 1 in
        if curbit = 1 \<and> lastbit = 1 then output
        else unfib_loop input (Suc i) curbit
               (if curbit = 1 then take_bit 16 (output + fn ! i) else output)
      else output)"
  by pat_completeness auto
termination
  by (relation "measure (\<lambda>(input, i, lastbit, output). 23 - i)") (auto simp: Let_def)

declare unfib_loop.simps [simp del]

definition unfibonacci :: "nat \<Rightarrow> nat" where
  "unfibonacci input = unfib_loop (take_bit 32 input) 0 0 0"

section \<open>The table\<close>

lemma fn_nth_simps [fib_simps]:
  "fn ! 0 = 1" "fn ! Suc 0 = 2"
  by (simp_all add: fn_def)

lemma fn_rec: "i < 22 \<Longrightarrow> fn ! Suc (Suc i) = fn ! Suc i + fn ! i"
proof -
  assume "i < 22"
  then have "i \<in> {0, 1, 2, 3, 4, 5, 6, 7, 8, 9, 10, 11, 12, 13, 14, 15, 16, 17, 18, 19, 20, 21}"
    by (simp add: set_eq_iff) presburger
  then show ?thesis
    by (simp add: fn_def) (elim disjE; simp)
qed

lemma fn_top: "fn ! 23 = 75025"
  by (simp add: fn_def)

text \<open>Which numbers the set bits of a code word stand for.\<close>

primrec fib_value :: "nat \<Rightarrow> nat \<Rightarrow> nat" where
  "fib_value g 0 = 0"
| "fib_value g (Suc k) = fib_value g k + (if bit g k then fn ! k else 0)"

definition no_pair :: "nat \<Rightarrow> bool" where
  "no_pair g \<longleftrightarrow> (\<forall>j. \<not> (bit g j \<and> bit g (Suc j)))"

section \<open>The minimal representation\<close>

lemma fib_value_cong: "(\<And>j. j < k \<Longrightarrow> bit g j = bit h j) \<Longrightarrow> fib_value g k = fib_value h k"
  by (induction k) auto

lemma fib_value_mono: "k \<le> l \<Longrightarrow> fib_value g k \<le> fib_value g l"
  by (induction l) (auto simp: le_Suc_eq)

lemma fib_bits_acc: "fib_bits i input out = fib_bits i input 0 + out"
proof (induction i arbitrary: input out)
  case (Suc i)
  show ?case
    by (simp add: Suc [of _ "out + _"] Suc [of _ "2 ^ i"] Suc [of input out])
qed simp

lemma fib_bits_step_top:
  assumes "fn ! Suc i \<le> input" "input < fn ! Suc i + fn ! i"
  shows "fib_bits (Suc (Suc i)) input 0 = fib_bits i (input - fn ! Suc i) 0 + 2 ^ Suc i"
proof -
  have "\<not> fn ! i \<le> input - fn ! Suc i"
    using assms by simp
  then show ?thesis
    using assms(1) fib_bits_acc [of i "input - fn ! Suc i" "2 ^ Suc i"]
    by (simp add: push_bit_eq_mult)
qed

lemma fib_bits_minimal:
  "i \<le> 23 \<Longrightarrow> input < fn ! i \<Longrightarrow>
   fib_bits i input 0 < 2 ^ i \<and> fib_value (fib_bits i input 0) i = input \<and> no_pair (fib_bits i input 0)"
proof (induction i arbitrary: input rule: induct_nat_012)
  case 0
  then show ?case by (simp add: fib_simps no_pair_def)
next
  case 1
  then show ?case by (auto simp: fib_simps no_pair_def bit_1_iff bit_0)
next
  case (ge2 i)
  have rec: "fn ! Suc (Suc i) = fn ! Suc i + fn ! i"
    using ge2.prems(1) by (intro fn_rec) simp
  show ?case
  proof (cases "fn ! Suc i \<le> input")
    case True
    define g where "g = fib_bits i (input - fn ! Suc i) 0"
    have IH: "g < 2 ^ i" "fib_value g i = input - fn ! Suc i" "no_pair g"
      using ge2.IH(1) [of "input - fn ! Suc i"] ge2.prems rec True by (auto simp: g_def)
    define c where "c = g + 2 ^ Suc i"
    have eq: "fib_bits (Suc (Suc i)) input 0 = c"
      using ge2.prems rec True by (simp add: fib_bits_step_top g_def c_def del: fib_bits.simps)
    have small: "g < 2 ^ Suc i"
      using IH(1) by simp
    have bits: "bit c k \<longleftrightarrow> k = Suc i \<or> bit g k" for k
      unfolding c_def by (rule bit_add_top [OF small])
    have nob: "\<not> bit g i" "\<not> bit g (Suc i)" "\<not> bit g (Suc (Suc i))"
      using bit_ge_exp_nat [OF IH(1)] by fastforce+
    have "c < 2 ^ Suc (Suc i)"
      using small by (simp add: c_def)
    moreover have "fib_value c i = fib_value g i"
      by (rule fib_value_cong) (simp add: bits)
    moreover have "no_pair c"
      using IH(3) nob by (auto simp: no_pair_def bits)
    ultimately show ?thesis
      using IH(2) nob True unfolding eq by (simp add: bits)
  next
    case False
    then have "fib_bits (Suc (Suc i)) input 0 = fib_bits (Suc i) input 0"
      by simp
    moreover have IH: "fib_bits (Suc i) input 0 < 2 ^ Suc i"
      "fib_value (fib_bits (Suc i) input 0) (Suc i) = input" "no_pair (fib_bits (Suc i) input 0)"
      using ge2.IH(2) [of input] ge2.prems(1) False by simp_all
    moreover have "\<not> bit (fib_bits (Suc i) input 0) (Suc i)"
      using bit_ge_exp_nat [OF IH(1)] by blast
    ultimately show ?thesis
      by (simp del: fib_bits.simps)
  qed
qed

section \<open>The length of a code word\<close>

lemma fib_index_bounds:
  "i \<le> 24 \<Longrightarrow> fib_index input i \<le> 24 \<and> i \<le> fib_index input i \<and>
     (fib_index input i < 24 \<longrightarrow> input < fn ! fib_index input i) \<and>
     (\<forall>j. i \<le> j \<and> j < fib_index input i \<longrightarrow> fn ! j \<le> input)"
proof (induction input i rule: fib_index.induct)
  case (1 input i)
  show ?case
  proof (cases "i < 24 \<and> fn ! i \<le> input")
    case True
    then have eq: "fib_index input i = fib_index input (Suc i)"
      by (subst fib_index.simps) simp
    have IH: "fib_index input (Suc i) \<le> 24 \<and> Suc i \<le> fib_index input (Suc i) \<and>
        (fib_index input (Suc i) < 24 \<longrightarrow> input < fn ! fib_index input (Suc i)) \<and>
        (\<forall>j. Suc i \<le> j \<and> j < fib_index input (Suc i) \<longrightarrow> fn ! j \<le> input)"
      using True by (intro "1.IH") auto
    then show ?thesis
      using True unfolding eq by (metis Suc_leD Suc_leI le_neq_implies_less)
  next
    case False
    then have "fib_index input i = i"
      by (subst fib_index.simps) auto
    then show ?thesis
      using False "1.prems" by auto
  qed
qed

text \<open>An \<open>unsigned short\<close> never runs off the table.\<close>

lemma fib_index_in_table: "input < 65536 \<Longrightarrow> fib_index input 0 \<le> 23"
  using fib_index_bounds [of 0 input] fn_top by (cases "fib_index input 0 = 24") (auto dest: spec [of _ 23])

section \<open>Code words\<close>

text \<open>
  The contract of a code word of \<open>n\<close> bits: two ones at its top, no two adjacent ones below.
  A reader that sees the bits in increasing order therefore stops exactly at its end.
\<close>

definition code_word :: "nat \<Rightarrow> nat \<Rightarrow> bool" where
  "code_word c n \<longleftrightarrow> 2 \<le> n \<and> n \<le> 24 \<and> c < 2 ^ n \<and> bit c (n - 1) \<and> bit c (n - 2) \<and>
     (\<forall>j. Suc j < n - 1 \<longrightarrow> \<not> (bit c j \<and> bit c (Suc j)))"

lemma encode_split:
  assumes "0 < x" "x < 65536"
  obtains i where "i < 23" "fn ! i \<le> x" "x < fn ! Suc i"
    "encodeFibonacci x = (fib_bits (Suc i) x 0 + 2 ^ Suc i, Suc (Suc i))"
proof -
  have x: "take_bit 16 x = x"
    using assms by (simp add: take_bit_nat_eq_self)
  let ?k = "fib_index x 0"
  have le: "?k \<le> 23"
    by (rule fib_index_in_table [OF assms(2)])
  have lt: "x < fn ! ?k"
    using fib_index_bounds [of 0 x] le by simp
  with assms(1) have "?k \<noteq> 0"
    by (cases "?k") (simp_all add: fib_simps)
  then obtain i where i: "?k = Suc i"
    using not0_implies_Suc by blast
  have "fn ! i \<le> x"
    using fib_index_bounds [of 0 x] i by simp
  moreover have "encodeFibonacci x = (fib_bits (Suc i) x 0 + 2 ^ Suc i, Suc (Suc i))"
    unfolding encodeFibonacci_def Let_def x i
    by (simp add: fib_bits_acc [of "Suc i" x "2 * 2 ^ i"] push_bit_eq_mult del: fib_bits.simps)
  ultimately show thesis
    using that [of i] le lt i by simp
qed

lemma fib_bits_has_top:
  assumes "i < 23" "fn ! i \<le> x" "x < fn ! Suc i"
  shows "bit (fib_bits (Suc i) x 0) i"
proof -
  have small: "fib_bits (Suc i) x 0 < 2 ^ Suc i"
    and val: "fib_value (fib_bits (Suc i) x 0) (Suc i) = x"
    using fib_bits_minimal [of "Suc i" x] assms by auto
  have "fib_bits (Suc i) x 0 = fib_bits i (x - fn ! i) 0 + 2 ^ i"
    using assms(2) fib_bits_acc [of i "x - fn ! i" "2 ^ i"] by simp
  with small have lt: "fib_bits i (x - fn ! i) 0 < 2 ^ i"
    by simp
  show ?thesis
    unfolding \<open>fib_bits (Suc i) x 0 = _\<close> by (simp add: bit_add_top [OF lt])
qed

lemma encode_code_word:
  assumes "0 < x" "x < 65536"
  shows "code_word (fst (encodeFibonacci x)) (snd (encodeFibonacci x)) \<and>
         fib_value (fst (encodeFibonacci x)) (snd (encodeFibonacci x) - 1) = x"
proof -
  obtain i where i: "i < 23" "fn ! i \<le> x" "x < fn ! Suc i"
    and enc: "encodeFibonacci x = (fib_bits (Suc i) x 0 + 2 ^ Suc i, Suc (Suc i))"
    using encode_split [OF assms] by blast
  define g where "g = fib_bits (Suc i) x 0"
  define c where "c = g + 2 ^ Suc i"
  have g: "g < 2 ^ Suc i" "fib_value g (Suc i) = x" "no_pair g" "bit g i"
    using fib_bits_minimal [of "Suc i" x] fib_bits_has_top [OF i] i
    by (auto simp: g_def simp del: fib_bits.simps)
  have bits: "bit c k \<longleftrightarrow> k = Suc i \<or> bit g k" for k
    unfolding c_def by (rule bit_add_top [OF g(1)])
  have "fib_value c (Suc i) = fib_value g (Suc i)"
    by (rule fib_value_cong) (simp add: bits)
  moreover have "code_word c (Suc (Suc i))"
    using g i(1) by (auto simp: code_word_def bits no_pair_def) (simp add: c_def)
  ultimately show ?thesis
    using g(2) enc by (simp add: c_def g_def del: fib_bits.simps fib_value.simps)
qed

lemma unfib_loop_unfold:
  "unfib_loop c k lastbit out =
     (if k < 23 then
        if bit c k \<and> lastbit = 1 then out
        else unfib_loop c (Suc k) (of_bool (bit c k))
               (if bit c k then take_bit 16 (out + fn ! k) else out)
      else out)"
  by (subst unfib_loop.simps) (unfold Let_def drop_bit_and_1, simp)

lemma unfib_loop_code_word:
  assumes "code_word c n" "fib_value c (n - 1) < 65536"
  shows "k \<le> n - 1 \<Longrightarrow>
    unfib_loop c k (of_bool (0 < k \<and> bit c (k - 1))) (fib_value c k) = fib_value c (n - 1)"
proof (induction "n - 1 - k" arbitrary: k)
  case 0
  then have k: "k = n - 1" by simp
  with assms(1) have "bit c k" "0 < k" "bit c (k - 1)" "k \<le> 23"
    by (auto simp: code_word_def numeral_2_eq_2)
  then show ?case
    by (subst unfib_loop_unfold) (simp add: k)
next
  case (Suc d)
  then have k: "k < n - 1" "k < 23"
    using assms(1) by (auto simp: code_word_def)
  have nopair: "0 < k \<Longrightarrow> \<not> (bit c k \<and> bit c (k - 1))"
    using assms(1) k unfolding code_word_def by (metis Suc_pred')
  have "fib_value c (Suc k) < 65536"
    using fib_value_mono [of "Suc k" "n - 1" c] assms(2) k by simp
  then have wrap: "bit c k \<Longrightarrow> take_bit 16 (fib_value c k + fn ! k) = fib_value c (Suc k)"
    by (simp add: take_bit_nat_eq_self)
  have "unfib_loop c k (of_bool (0 < k \<and> bit c (k - 1))) (fib_value c k) =
        unfib_loop c (Suc k) (of_bool (bit c k)) (fib_value c (Suc k))"
    using k nopair wrap by (subst unfib_loop_unfold) auto
  also have "\<dots> = fib_value c (n - 1)"
    using Suc.hyps(1) [of "Suc k"] Suc.hyps(2) k by simp
  finally show ?case .
qed

lemma unfibonacci_code_word:
  assumes "code_word c n" "fib_value c (n - 1) < 65536"
  shows "unfibonacci c = fib_value c (n - 1)"
proof -
  have "c < 2 ^ 32"
    using assms(1) power_increasing [of n 32 "2::nat"]
    by (auto simp: code_word_def intro: less_le_trans)
  then show ?thesis
    using unfib_loop_code_word [OF assms, of 0]
    by (simp add: unfibonacci_def take_bit_nat_eq_self)
qed

lemma unfibonacci_fibonacci: "0 < x \<Longrightarrow> x < 65536 \<Longrightarrow> unfibonacci (fst (encodeFibonacci x)) = x"
  using encode_code_word unfibonacci_code_word by metis

section \<open>Properties\<close>

text \<open>Encoding a positive 16-bit number and decoding the code word gives the number back.\<close>

theorem fibonacci_roundtrip:
  "0 < x \<Longrightarrow> x < 65536 \<Longrightarrow> unfibonacci (fst (encodeFibonacci x)) = x"
  by (rule unfibonacci_fibonacci)

theorem fibonacci_roundtrip_witness: "unfibonacci (fst (encodeFibonacci 4242)) = 4242"
  by (rule fibonacci_roundtrip) simp_all

lemma code_word_prefix:
  assumes "code_word c n" "code_word d k" "n \<le> k" "take_bit n d = c"
  shows "n = k \<and> c = d"
proof (rule ccontr)
  assume *: "\<not> (n = k \<and> c = d)"
  have "n \<noteq> k"
  proof
    assume "n = k"
    then have "take_bit n d = d"
      using assms(2) by (simp add: code_word_def take_bit_nat_eq_self)
    with * \<open>n = k\<close> assms(4) show False by simp
  qed
  then have "Suc (n - 2) < k - 1"
    using assms(1,3) by (auto simp: code_word_def)
  moreover have "bit d (n - 2)" "bit d (Suc (n - 2))"
    using assms(1,4) by (auto simp: code_word_def bit_take_bit_iff Suc_diff_le numeral_2_eq_2 Suc_diff_Suc)
  ultimately show False
    using assms(2) unfolding code_word_def by blast
qed

text \<open>
  The code is prefix free: the code word of a positive 16-bit number does not begin the code
  word of another one (low bits first), so a stream of code words decodes in one way only.
\<close>

theorem fibonacci_prefix_free:
  assumes "0 < x" "x < 65536" "0 < y" "y < 65536" "x \<noteq> y"
    and "snd (encodeFibonacci x) \<le> snd (encodeFibonacci y)"
  shows "take_bit (snd (encodeFibonacci x)) (fst (encodeFibonacci y)) \<noteq> fst (encodeFibonacci x)"
proof
  assume "take_bit (snd (encodeFibonacci x)) (fst (encodeFibonacci y)) = fst (encodeFibonacci x)"
  then have "fst (encodeFibonacci x) = fst (encodeFibonacci y)"
    using code_word_prefix [of _ _ "fst (encodeFibonacci y)" "snd (encodeFibonacci y)"] assms encode_code_word
    by blast
  with unfibonacci_fibonacci assms(1-5) show False
    by metis
qed

lemma fn_small: "fn ! 0 = 1" "fn ! 1 = 2" "fn ! Suc 0 = 2" "fn ! 2 = 3" "fn ! 3 = 5"
    "fn ! Suc (Suc 0) = 3" "fn ! Suc (Suc (Suc 0)) = 5"
  by (simp_all add: fn_def)

lemma encode_examples: "encodeFibonacci 1 = (3, 2)" "encodeFibonacci 4 = (13, 4)"
proof -
  have "fib_index 1 0 = 1"
    using fib_index.simps [of 1 0] fib_index.simps [of 1 1] by (simp add: fn_small)
  moreover have "fib_bits 1 1 2 = 3"
    by (simp add: fn_small)
  ultimately show "encodeFibonacci 1 = (3, 2)"
    by (simp add: encodeFibonacci_def)
  have "fib_index 4 3 = 3" "fib_index 4 2 = fib_index 4 3" "fib_index 4 (Suc 0) = fib_index 4 2" "fib_index 4 0 = fib_index 4 (Suc 0)"
    by (subst fib_index.simps, simp add: fn_small numeral_2_eq_2 numeral_3_eq_3)+
  moreover have "fib_bits (Suc (Suc (Suc 0))) 4 8 = 13"
    using fn_small by (simp add: numeral_2_eq_2)
  ultimately show "encodeFibonacci 4 = (13, 4)"
    by (simp add: encodeFibonacci_def take_bit_eq_mod numeral_3_eq_3)
qed

theorem fibonacci_prefix_free_witness: "take_bit 2 (13 :: nat) \<noteq> 3"
  using fibonacci_prefix_free [of 1 4] by (simp only: encode_examples) simp

end
