(* ===== verification/Wave_Codec.thy ===== *)
theory Wave_Codec
  imports Wave_Interface Bit_Stream Pack12 MuLaw Fibonacci "HOL-Library.Log_Nat"
begin

text \<open>
  The waveform codecs of \<open>src/common/compressLib/compressLib.c\<close>: \<open>encodePSWave*\<close> and
  \<open>decodePSWave*\<close>. An encoder takes the address of its buffer, the channel and the memory,
  and returns the memory, the number of bytes (its C result) and, where it has the argument
  \<open>encTypePtr\<close>, the encoding type. A decoder returns the error code and the channel.
  \<open>None\<close> is undefined behaviour: a table read out of bounds, or a conversion of a value that
  the target type cannot represent.
  \<open>ch\<close> is \<open>*chanPtr\<close>; its sample array is the list \<open>ps_data ch\<close>.
\<close>

section \<open>No compression\<close>

definition encodePSWaveNone :: "nat \<Rightarrow> SurfChannelPedSubbed_t \<Rightarrow> mem \<Rightarrow> mem \<times> nat" where
  "encodePSWaveNone buffer ch m = (store_shorts m buffer (ps_data ch), MAX_NUMBER_SAMPLES * 2)"

definition decodePSWaveNone ::
    "mem \<Rightarrow> nat \<Rightarrow> int \<Rightarrow> SurfChannelPedSubbed_t \<Rightarrow> CompressErrorCode_t \<times> SurfChannelPedSubbed_t" where
  "decodePSWaveNone m input numBytes ch =
     (let encSize = int MAX_NUMBER_SAMPLES * 2 in
      if numBytes \<noteq> encSize then (COMPRESS_E_BADSIZE, ch)
      else (COMPRESS_E_OK, ch\<lparr>ps_data := load_shorts m input MAX_NUMBER_SAMPLES\<rparr>))"

text \<open>
  In the interface: the first argument is the encoding type that \<open>encodePSChannel\<close> leaves in
  the header for an encoder that does not set it.
\<close>

definition with_type :: "ChannelEncodingType_t \<Rightarrow> (mem \<times> nat) option \<Rightarrow> (mem \<times> nat \<times> ChannelEncodingType_t) option" where
  "with_type encType r = map_option (\<lambda>(m, n). (m, n, encType)) r"

definition valid_none :: "SurfChannelPedSubbed_t \<Rightarrow> bool" where
  "valid_none ch \<longleftrightarrow> length (ps_data ch) = MAX_NUMBER_SAMPLES \<and> (\<forall>x\<in>set (ps_data ch). is_s16 x)"

interpretation none_codec: wave_codec
  "\<lambda>buffer ch m. with_type ENCODE_NONE (Some (encodePSWaveNone buffer ch m))"
  "\<lambda>m input n ch t. Some (decodePSWaveNone m input n ch)" valid_none ps_data 520
proof unfold_locales
  fix ch m buffer
  assume v: "valid_none ch"
  have "load_shorts m' buffer 260 = ps_data ch"
    if "same_inside (store_shorts m buffer (ps_data ch)) m' buffer (buffer + 520)" for m'
    using load_shorts_inside [OF that, of 260] load_store_shorts [of "ps_data ch" m buffer] v
    by (simp add: valid_none_def)
  then show "\<exists>m' n encType.
      with_type ENCODE_NONE (Some (encodePSWaveNone buffer ch m)) = Some (m', n, encType) \<and> n \<le> 520 \<and>
      same_outside m m' buffer (buffer + n) \<and>
      decodes_to (\<lambda>m input n ch t. Some (decodePSWaveNone m input n ch)) m' buffer n encType (ps_data ch)"
    using v store_shorts_outside [of m buffer "ps_data ch"]
    by (simp add: with_type_def encodePSWaveNone_def decodes_to_def decodePSWaveNone_def valid_none_def)
qed

section \<open>Twelve bits\<close>

definition valid_12bit :: "SurfChannelPedSubbed_t \<Rightarrow> bool" where
  "valid_12bit ch \<longleftrightarrow> length (ps_data ch) = MAX_NUMBER_SAMPLES \<and> (\<forall>x\<in>set (ps_data ch). valid12 x)"

interpretation twelve_codec: wave_codec
  "\<lambda>buffer ch m. with_type ENCODE_LOSSLESS_12BIT (Some (encodePSWave12bitBinary buffer ch m))"
  "\<lambda>m input n ch t. Some (decodePSWave12bitBinary m input n ch)" valid_12bit ps_data 390
proof unfold_locales
  fix ch m buffer
  assume v: "valid_12bit ch"
  obtain m' n where enc: "encodePSWave12bitBinary buffer ch m = (m', n)"
    by fastforce
  then have "n = 390" "same_outside m m' buffer (buffer + 390)"
    using encode12_outside [of m buffer ch] by (simp_all add: encode12_fold)
  moreover have "decodePSWave12bitBinary m'' buffer (int n) ch' = (COMPRESS_E_OK, ch'\<lparr>ps_data := ps_data ch\<rparr>)"
    if "same_inside m' m'' buffer (buffer + n)" "length (ps_data ch') = MAX_NUMBER_SAMPLES" for m'' ch'
    using decode_encode_12bit [OF _ _ that(2) enc that(1)] v by (simp add: valid_12bit_def)
  ultimately show "\<exists>m' n encType.
      with_type ENCODE_LOSSLESS_12BIT (Some (encodePSWave12bitBinary buffer ch m)) = Some (m', n, encType) \<and>
      n \<le> 390 \<and> same_outside m m' buffer (buffer + n) \<and>
      decodes_to (\<lambda>m input n ch t. Some (decodePSWave12bitBinary m input n ch)) m' buffer n encType (ps_data ch)"
    by (simp add: enc with_type_def decodes_to_def)
qed

section \<open>Lossless binary\<close>

text \<open>
  The number of bits for the sample range \<open>rangeTotal\<close>, as the code computes it. The
  logarithm of a non-positive number converts to no \<open>int\<close>. (The rounding of
  \<open>logValue\<close> to \<open>float\<close> does not move it across an integer, for arguments up to
  \<open>2^16\<close>.)
\<close>

definition log_bitSize :: "int \<Rightarrow> nat option" where
  "log_bitSize rangeTotal =
     (if rangeTotal + 1 \<le> 0 then None
      else let logValue = ln (real_of_int (rangeTotal + 1)) / ln 2; bitSize = c_trunc logValue
           in Some (nat (if logValue - real_of_int bitSize > 0 then bitSize + 1 else bitSize)))"

definition encodePSWaveLosslessBinary ::
    "nat \<Rightarrow> SurfChannelPedSubbed_t \<Rightarrow> mem \<Rightarrow> (mem \<times> nat \<times> ChannelEncodingType_t) option" where
  "encodePSWaveLosslessBinary buffer ch m =
     (let rangeTotal = xMax ch - xMin ch in
      case log_bitSize rangeTotal of None \<Rightarrow> None
      | Some bitSize \<Rightarrow>
          let encType = getBinaryEncType (int bitSize);
              mean = xMin ch + c_div rangeTotal 2;
              c = \<lparr>cmem = store16 m buffer mean, currentChar = buffer + 2, currentBit = 0\<rparr>
          in case put_samples (\<lambda>x. Some (nat (bifurcate (s16 (x - mean))), bitSize)) (ps_data ch) c of
               None \<Rightarrow> None
             | Some c \<Rightarrow> Some (cmem c, bytes_since buffer c, encType))"

definition decodePSWaveLosslessBinary ::
    "mem \<Rightarrow> nat \<Rightarrow> int \<Rightarrow> SurfChannelPedSubbed_t \<Rightarrow> ChannelEncodingType_t \<Rightarrow>
      (CompressErrorCode_t \<times> SurfChannelPedSubbed_t) option" where
  "decodePSWaveLosslessBinary m input numBytes ch encType =
     (let mean = load16s m input; bitSize = getBinaryBitSize encType
      in case decode_fixed (\<lambda>tempNum. Some (s16 (mean + unbifurcate tempNum))) u16 bitSize
                m input numBytes 0 (input + 2) 0 (ps_data ch) of
           None \<Rightarrow> None
         | Some (code, dat) \<Rightarrow> Some (code, ch\<lparr>ps_data := dat\<rparr>))"

lemma log_bitSize_ceillog2: "0 \<le> r \<Longrightarrow> log_bitSize r = Some (ceillog2 (nat (r + 1)))"
proof -
  assume r: "0 \<le> r"
  define l where "l = log 2 (real_of_int (r + 1))"
  have ln: "ln (real_of_int (r + 1)) / ln 2 = l"
    by (simp add: l_def log_def)
  have "0 \<le> l"
    using r by (simp add: l_def)
  then have "nat (if l - real_of_int \<lfloor>l\<rfloor> > 0 then \<lfloor>l\<rfloor> + 1 else \<lfloor>l\<rfloor>) = nat \<lceil>l\<rceil>"
    by (simp add: ceiling_altdef) linarith
  moreover have "ceillog2 (nat (r + 1)) = nat \<lceil>l\<rceil>"
    using r by (simp add: ceillog2_def l_def)
  ultimately show ?thesis
    using r \<open>0 \<le> l\<close> unfolding log_bitSize_def ln by (auto simp: c_trunc_def Let_def)
qed

definition bin_mean :: "int \<Rightarrow> int \<Rightarrow> int" where
  "bin_mean lo hi = lo + (hi - lo) div 2"

text \<open>
  The samples of a channel with extrema \<open>lo\<close>, \<open>hi\<close> in \<open>b\<close> bits, and what comes
  back: when the range is one less than a power of two, the largest sample does not fit.
\<close>

definition valid_bin :: "int \<Rightarrow> int \<Rightarrow> nat \<Rightarrow> int \<Rightarrow> bool" where
  "valid_bin lo hi b x \<longleftrightarrow>
     is_s16 lo \<and> is_s16 hi \<and> lo \<le> x \<and> x \<le> hi \<and> 1 \<le> b \<and> b \<le> 11 \<and> hi - lo + 1 \<le> 2 ^ b"

definition quant_bin :: "int \<Rightarrow> int \<Rightarrow> nat \<Rightarrow> int \<Rightarrow> int" where
  "quant_bin lo hi b x = (if hi - lo + 1 = 2 ^ b \<and> x = hi then bin_mean lo hi else x)"

definition bin_code :: "int \<Rightarrow> int \<Rightarrow> nat \<Rightarrow> int \<Rightarrow> nat" where
  "bin_code lo hi b x = take_bit b (nat (bifurcate (s16 (x - bin_mean lo hi))))"

lemma bin_code_value:
  assumes "valid_bin lo hi b x"
  shows "int (bin_code lo hi b x) =
    (if hi - lo + 1 = 2 ^ b \<and> x = hi then 1 else bifurcate (x - bin_mean lo hi))"
proof -
  define h :: int where "h = 2 ^ (b - 1)"
  define d where "d = x - bin_mean lo hi"
  have b: "(2::int) ^ b = 2 * h" "1 \<le> h" "h \<le> 1024"
    using assms power_increasing [of "b - 1" 10 "2::int"]
    by (auto simp: h_def valid_bin_def simp flip: power_Suc)
  have d: "- h < d" "d \<le> h" "d = h \<longleftrightarrow> hi - lo + 1 = 2 * h \<and> x = hi"
    using assms b unfolding d_def bin_mean_def valid_bin_def by auto
  then have s: "s16 d = d"
    using b by (intro s16_id) (simp add: range_defs)
  have code: "int (bin_code lo hi b x) = take_bit b (bifurcate d)"
    using is_u16_bifurcate [of d]
    unfolding is_u16_def by (simp add: bin_code_def s of_nat_take_bit flip: d_def)
  show ?thesis
  proof (cases "d = h")
    case True
    then have "bifurcate d = 2 ^ b + 1"
      using b by (simp add: bifurcate_nonneg)
    moreover have "take_bit b (2 ^ b + 1 :: int) = 1"
      using b by (simp add: take_bit_eq_mod mod_add_self1)
    ultimately have "int (bin_code lo hi b x) = 1"
      by (simp only: code)
    then show ?thesis
      using True d(3) b by simp
  next
    case False
    with d have "bifurcate d < 2 * h"
      using b bifurcate_less_iff [of d h] by auto
    then have "take_bit b (bifurcate d) = bifurcate d"
      using b is_u16_bifurcate [of d] by (simp add: take_bit_int_eq_self is_u16_def)
    moreover have "\<not> (hi - lo + 1 = 2 ^ b \<and> x = hi)"
      using False d(3) b by simp
    ultimately show ?thesis
      unfolding code if_not_P [OF \<open>\<not> (hi - lo + 1 = 2 ^ b \<and> x = hi)\<close>] by (simp only: d_def)
  qed
qed

text \<open>The binary code of a range is a sample code.\<close>

interpretation binary: sample_code "bin_code lo hi b"
  "\<lambda>t. Some (s16 (bin_mean lo hi + unbifurcate t))" u16 b "valid_bin lo hi b" "quant_bin lo hi b"
  for lo hi :: int and b :: nat
proof unfold_locales
  fix x v :: int
  assume x: "valid_bin lo hi b x"
  show "b \<le> 24"
    using x by (simp add: valid_bin_def)
  show "bin_code lo hi b x < 2 ^ b"
    by (simp add: bin_code_def)
  show "u16 v = v" if "0 \<le> v" "v < 2 ^ b"
    using that x power_increasing [of b 16 "2::int"]
    by (intro u16_id) (simp add: is_u16_def valid_bin_def)
  have mean: "is_s16 (bin_mean lo hi)" and s16x: "is_s16 x"
    using x by (auto simp: valid_bin_def bin_mean_def range_defs)
  have "-32768 < x - bin_mean lo hi" "x - bin_mean lo hi < 32768"
    using x power_increasing [of b 11 "2::int"] by (auto simp: valid_bin_def bin_mean_def)
  then have inv: "unbifurcate (bifurcate (x - bin_mean lo hi)) = x - bin_mean lo hi"
    by (rule unbifurcate_bifurcate_inv)
  show "Some (s16 (bin_mean lo hi + unbifurcate (int (bin_code lo hi b x)))) = Some (quant_bin lo hi b x)"
    using unbifurcate_odd [of 0] mean s16x
    by (auto simp: bin_code_value [OF x] quant_bin_def inv s16_id)
qed

lemma quant_bin_fits: "hi - lo + 1 < 2 ^ b \<Longrightarrow> quant_bin lo hi b x = x"
  by (simp add: quant_bin_def)

lemma bytes_since_wrote:
  assumes "wrote_stream bs c c'" "currentBit c = 0" "a \<le> currentChar c"
  shows "bytes_since a c' = currentChar c - a + (length bs + 7) div 8"
proof -
  have "8 * currentChar c' + currentBit c' = 8 * currentChar c + length bs" "currentBit c' < 8"
    using assms by (auto simp: wrote_stream_def cpos_def wf_cursor_def)
  then show ?thesis
    using assms(3) by (auto simp: bytes_since_def)
qed

lemma decode_encode_binary:
  assumes data: "length (ps_data ch) = MAX_NUMBER_SAMPLES"
      "\<forall>x\<in>set (ps_data ch). xMin ch \<le> x \<and> x \<le> xMax ch"
    and ext: "is_s16 (xMin ch)" "is_s16 (xMax ch)" "xMin ch < xMax ch" "xMax ch - xMin ch < 2048"
    and mem: "zeroed m buffer (buffer + 520)"
  obtains m' n where
    "encodePSWaveLosslessBinary buffer ch m =
      Some (m', n, getBinaryEncType (int (ceillog2 (nat (xMax ch - xMin ch + 1)))))"
    "decodes_to decodePSWaveLosslessBinary m' buffer n
       (getBinaryEncType (int (ceillog2 (nat (xMax ch - xMin ch + 1)))))
       (map (quant_bin (xMin ch) (xMax ch) (ceillog2 (nat (xMax ch - xMin ch + 1)))) (ps_data ch))"
    "same_outside m m' buffer (buffer + n)"
    "n = 2 + (MAX_NUMBER_SAMPLES * ceillog2 (nat (xMax ch - xMin ch + 1)) + 7) div 8"
proof -
  define lo hi b where "lo = xMin ch" and "hi = xMax ch" and "b = ceillog2 (nat (hi - lo + 1))"
  define mean where "mean = bin_mean lo hi"
  define c where "c = \<lparr>cmem = store16 m buffer mean, currentChar = buffer + 2, currentBit = 0\<rparr>"
  have range: "2 \<le> nat (hi - lo + 1)" "nat (hi - lo + 1) \<le> 2 ^ 11"
    using ext by (simp_all add: lo_def hi_def)
  have b: "1 \<le> b" "b \<le> 11"
    using range ceillog2_ge_iff [of "nat (hi - lo + 1)" 1] ceillog2_le_iff [of "nat (hi - lo + 1)" 11]
    by (simp_all add: b_def)
  have "int (nat (hi - lo + 1)) \<le> int (2 ^ b)"
    unfolding b_def by (simp only: of_nat_le_iff le_two_power_ceillog2)
  then have valid: "\<forall>x\<in>set (ps_data ch). valid_bin lo hi b x"
    using data(2) ext b by (simp add: valid_bin_def lo_def hi_def)
  obtain c' where c': "put_samples (\<lambda>x. Some (nat (bifurcate (s16 (x - mean))), b)) (ps_data ch) c = Some c'"
    "wrote_stream (stream_bits (map (\<lambda>x. (nat (bifurcate (s16 (x - mean))), b)) (ps_data ch))) c c'"
    using put_samples_wrote [of "ps_data ch" "\<lambda>x. Some (nat (bifurcate (s16 (x - mean))), b)"
        "\<lambda>x. (nat (bifurcate (s16 (x - mean))), b)" c]
    by (auto simp: c_def wf_cursor_def)
  have "stream_bits (map (\<lambda>x. (nat (bifurcate (s16 (x - mean))), b)) xs) = stream_bits (binary.codes lo hi b xs)"
    for xs
    unfolding binary.codes_def
    by (induction xs) (simp_all add: bin_code_def mean_def code_bits_take_bit)
  with c'(2) have w: "wrote_stream (stream_bits (binary.codes lo hi b (ps_data ch))) c c'"
    by simp
  have len: "length (stream_bits (binary.codes lo hi b (ps_data ch))) = MAX_NUMBER_SAMPLES * b"
    using data(1) by (simp add: binary.length_codes)
  define n where "n = bytes_since buffer c'"
  have n: "n = 2 + (MAX_NUMBER_SAMPLES * b + 7) div 8"
    using bytes_since_wrote [OF w] len by (simp add: n_def c_def)
  have enc: "encodePSWaveLosslessBinary buffer ch m = Some (cmem c', n, getBinaryEncType (int b))"
    using ext(3) log_bitSize_ceillog2 [of "hi - lo"] c'(1)
    by (simp add: encodePSWaveLosslessBinary_def Let_def c_def c_div_nonneg mean_def bin_mean_def
        lo_def hi_def b_def n_def)
  have n_le: "n \<le> 520"
  proof -
    have "(260 * b + 7) div 8 \<le> (260 * 11 + 7) div 8"
      using b by (intro div_le_mono) simp
    then show ?thesis by (simp add: n)
  qed
  have zero: "zeroed (cmem c) (currentChar c) (buffer + n)"
    using mem n_le by (simp add: c_def zeroed_def store16_def)
  have out2: "same_outside (cmem c) (cmem c') (buffer + 2) (buffer + n)"
    by (rule wrote_stream_same_outside [OF w]) (simp_all add: c_def cpos_def len n)
  have out: "same_outside m (cmem c') buffer (buffer + n)"
    using out2 same_outside_store16 [of m buffer mean] n
    by (auto simp: same_outside_def c_def)
  have "is_s16 mean"
    using ext by (auto simp: mean_def bin_mean_def lo_def hi_def range_defs)
  then have ld: "load16s (cmem c') buffer = mean"
    using load16u_cong [OF out2, of buffer] by (simp add: load16s_def c_def s16_id)
  have bits: "getBinaryBitSize (getBinaryEncType (int b)) = b"
    using b getBinary_bitSize [of b] by simp
  have "decodePSWaveLosslessBinary m'' buffer (int n) ch' (getBinaryEncType (int b)) =
      Some (COMPRESS_E_OK, ch'\<lparr>ps_data := map (quant_bin lo hi b) (ps_data ch)\<rparr>)"
    if m'': "same_inside (cmem c') m'' buffer (buffer + n)" and ch': "length (ps_data ch') = MAX_NUMBER_SAMPLES"
    for m'' ch'
  proof -
    have "load16s m'' buffer = mean"
      using load16u_inside [OF m'', of buffer] n ld by (simp add: load16s_def)
    moreover have "decode_fixed (\<lambda>t. Some (s16 (bin_mean lo hi + unbifurcate t))) u16 b m'' buffer (int n)
        0 (currentChar c) 0 (ps_data ch') = Some (COMPRESS_E_OK, map (quant_bin lo hi b) (ps_data ch))"
      by (rule binary.roundtrip [OF _ zero _ data(1) valid ch' _ w _ same_inside_mono [OF m'']])
        (use n in \<open>simp_all add: c_def n_def\<close>)
    ultimately show ?thesis
      by (simp add: decodePSWaveLosslessBinary_def Let_def bits c_def mean_def)
  qed
  then have dec: "decodes_to decodePSWaveLosslessBinary (cmem c') buffer n (getBinaryEncType (int b))
      (map (quant_bin lo hi b) (ps_data ch))"
    by (simp add: decodes_to_def)
  show thesis
    by (rule that [of "cmem c'" n]) (use enc dec out n in \<open>simp_all only: lo_def hi_def b_def\<close>)
qed

definition valid_binary :: "SurfChannelPedSubbed_t \<Rightarrow> bool" where
  "valid_binary ch \<longleftrightarrow> length (ps_data ch) = MAX_NUMBER_SAMPLES \<and>
     (\<forall>x\<in>set (ps_data ch). xMin ch \<le> x \<and> x \<le> xMax ch) \<and>
     is_s16 (xMin ch) \<and> is_s16 (xMax ch) \<and> xMin ch < xMax ch \<and> xMax ch - xMin ch < 2048"

definition result_binary :: "SurfChannelPedSubbed_t \<Rightarrow> int list" where
  "result_binary ch =
     map (quant_bin (xMin ch) (xMax ch) (ceillog2 (nat (xMax ch - xMin ch + 1)))) (ps_data ch)"

interpretation binary_codec: wave_codec encodePSWaveLosslessBinary decodePSWaveLosslessBinary
  valid_binary result_binary 520
proof unfold_locales
  fix ch m buffer
  assume v: "valid_binary ch" and z: "zeroed m buffer (buffer + 520)"
  let ?b = "ceillog2 (nat (xMax ch - xMin ch + 1))"
  have "xMin ch < xMax ch" "xMax ch - xMin ch < 2048"
    using v by (simp_all add: valid_binary_def)
  then have "1 \<le> nat (xMax ch - xMin ch + 1)" "nat (xMax ch - xMin ch + 1) \<le> 2 ^ 11"
    by simp_all
  then have "?b \<le> 11"
    by (subst ceillog2_le_iff) simp_all
  then have "(260 * ?b + 7) div 8 \<le> (260 * 11 + 7) div 8"
    by (intro div_le_mono) simp
  then have n: "2 + (260 * ?b + 7) div 8 \<le> 520" by simp
  obtain m' n where "encodePSWaveLosslessBinary buffer ch m = Some (m', n, getBinaryEncType (int ?b))"
    "decodes_to decodePSWaveLosslessBinary m' buffer n (getBinaryEncType (int ?b)) (result_binary ch)"
    "same_outside m m' buffer (buffer + n)" "n = 2 + (260 * ?b + 7) div 8"
    by (rule decode_encode_binary [of ch m buffer, OF _ _ _ _ _ _ z])
      (use v in \<open>simp_all only: valid_binary_def result_binary_def, blast+\<close>)
  with n show "\<exists>m' n encType. encodePSWaveLosslessBinary buffer ch m = Some (m', n, encType) \<and> n \<le> 520 \<and>
      same_outside m m' buffer (buffer + n) \<and>
      decodes_to decodePSWaveLosslessBinary m' buffer n encType (result_binary ch)"
    by blast
qed

lemma result_binary_exact:
  assumes "\<not> (\<exists>k. xMax ch - xMin ch + 1 = 2 ^ k)"
  shows "result_binary ch = ps_data ch"
  using assms by (auto simp: result_binary_def quant_bin_def intro!: map_idI)

section \<open>Lossy mu-law\<close>

definition clampVal :: "int \<Rightarrow> int \<Rightarrow> int \<Rightarrow> int" where
  \<comment> \<open>\<open>if(testVal>maxVal) testVal=maxVal; if(testVal<minVal) testVal=minVal;\<close>\<close>
  "clampVal maxVal minVal testVal =
     (let testVal = (if testVal > maxVal then maxVal else testVal)
      in if testVal < minVal then minVal else testVal)"

definition encodePSWaveLossyMuLaw ::
    "nat \<Rightarrow> SurfChannelPedSubbed_t \<Rightarrow> ChannelEncodingType_t \<Rightarrow> mem \<Rightarrow> (mem \<times> nat) option" where
  "encodePSWaveLossyMuLaw buffer ch encType m =
     (let (inputBits, mulawBits) = getInputAndMuLawBits encType;
          maxVal = s16 (2 ^ (inputBits - 1)); minVal = s16 (-1 * maxVal);
          rangeTotal = s16 (xMax ch - xMin ch);
          mean = xMin ch + c_div rangeTotal 2;
          c = \<lparr>cmem = store8 m buffer mean, currentChar = buffer + 1, currentBit = 0\<rparr>
      in case put_samples (\<lambda>x. map_option (\<lambda>newVal. (nat newVal, mulawBits))
               (convertToMuLawUC (clampVal maxVal minVal (s16 (x - mean))) inputBits mulawBits))
             (ps_data ch) c of
           None \<Rightarrow> None
         | Some c \<Rightarrow> Some (cmem c, bytes_since buffer c))"

definition decodePSWaveLossyMuLaw ::
    "mem \<Rightarrow> nat \<Rightarrow> int \<Rightarrow> SurfChannelPedSubbed_t \<Rightarrow> ChannelEncodingType_t \<Rightarrow>
      (CompressErrorCode_t \<times> SurfChannelPedSubbed_t) option" where
  "decodePSWaveLossyMuLaw m input numBytes ch encType =
     (let mean = load8s m input; (inputBits, mulawBits) = getInputAndMuLawBits encType
      in case decode_fixed (\<lambda>tempNum. map_option (\<lambda>newVal. s16 (mean + newVal))
                (convertFromMuLawUC tempNum inputBits mulawBits)) u8 mulawBits
                m input numBytes 0 (input + 1) 0 (ps_data ch) of
           None \<Rightarrow> None
         | Some (code, dat) \<Rightarrow> Some (code, ch\<lparr>ps_data := dat\<rparr>))"

text \<open>\<open>while(rangeTotal>(1<<numBits)) numBits++;\<close>: a \<open>short\<close> never gets past 15.\<close>

function rangeBits :: "int \<Rightarrow> nat \<Rightarrow> nat" where
  "rangeBits rangeTotal numBits =
     (if numBits < 31 \<and> rangeTotal > 2 ^ numBits then rangeBits rangeTotal (numBits + 1) else numBits)"
  by pat_completeness auto
termination by (relation "measure (\<lambda>(r, n). 31 - n)") auto

declare rangeBits.simps [simp del]

text \<open>\<open>if(inputBits<6) inputBits=6; if(inputBits<mulawBits+2) inputBits=mulawBits+2;\<close>\<close>

definition mulawInputBits :: "nat \<Rightarrow> nat \<Rightarrow> nat" where
  "mulawInputBits inputBits mulawBits =
     (let inputBits = (if inputBits < 6 then 6 else inputBits)
      in if inputBits < mulawBits + 2 then mulawBits + 2 else inputBits)"

definition encodePSWaveLossyMulawOptimally ::
    "nat \<Rightarrow> SurfChannelPedSubbed_t \<Rightarrow> nat \<Rightarrow> mem \<Rightarrow> (mem \<times> nat \<times> ChannelEncodingType_t) option" where
  "encodePSWaveLossyMulawOptimally buffer ch mulawBits m =
     (let rangeTotal = s16 (xMax ch - xMin ch); numBits = rangeBits rangeTotal 1;
          inputBits = numBits + 1
      in if inputBits \<le> mulawBits then encodePSWaveLosslessBinary buffer ch m
         else let inputBits = mulawInputBits inputBits mulawBits;
                  encType = getEncodingTypeFromInputAndMuLawBits inputBits mulawBits
              in case encodePSWaveLossyMuLaw buffer ch encType m of
                   None \<Rightarrow> None | Some (m, n) \<Rightarrow> Some (m, n, encType))"

definition mulaw_valid :: "int \<Rightarrow> nat \<Rightarrow> nat \<Rightarrow> int \<Rightarrow> bool" where
  "mulaw_valid mean b m x \<longleftrightarrow> (b, m) \<in> set mulaw_pairs \<and> is_s8 mean \<and> \<bar>x - mean\<bar> \<le> 2 ^ (b - 2)"

definition mulaw_code :: "int \<Rightarrow> nat \<Rightarrow> nat \<Rightarrow> int \<Rightarrow> nat" where
  "mulaw_code mean b m x = nat (the (convertToMuLawUC (x - mean) b m))"

definition mulaw_dec :: "int \<Rightarrow> nat \<Rightarrow> nat \<Rightarrow> int \<Rightarrow> int option" where
  "mulaw_dec mean b m t = map_option (\<lambda>newVal. s16 (mean + newVal)) (convertFromMuLawUC t b m)"

definition mulaw_quant :: "int \<Rightarrow> nat \<Rightarrow> nat \<Rightarrow> int \<Rightarrow> int" where
  "mulaw_quant mean b m x = the (mulaw_dec mean b m (int (mulaw_code mean b m x)))"

lemma mulaw_err_small: "(b, m) \<in> set mulaw_pairs \<Longrightarrow> mulaw_err b m \<le> 756"
  by (auto simp: mulaw_pairs_def mulaw_err_def mulaw_errs_def)

lemma mulaw_code_facts:
  assumes "mulaw_valid mean b m x"
  obtains y where "convertToMuLawUC (x - mean) b m = Some (int (mulaw_code mean b m x))"
    "mulaw_code mean b m x < 2 ^ m" "mulaw_dec mean b m (int (mulaw_code mean b m x)) = Some y"
    "x < y" "y \<le> x + mulaw_err b m" "b \<le> 11" "m \<le> 8"
proof -
  have pair: "(b, m) \<in> set mulaw_pairs" and d: "\<bar>x - mean\<bar> \<le> 2 ^ (b - 2)" and mean: "is_s8 mean"
    using assms by (simp_all add: mulaw_valid_def)
  obtain u z where uz: "convertToMuLawUC (x - mean) b m = Some u" "0 \<le> u" "u < 2 ^ m"
    "convertFromMuLawUC u b m = Some z" "x - mean < z" "z \<le> x - mean + mulaw_err b m"
    using mulaw_sample [OF pair d] .
  note b = mulaw_pair_facts(4,6) [OF pair]
  have "(2::int) ^ (b - 2) \<le> 512"
    using b power_increasing [of "b - 2" 9 "2::int"] by simp
  then have "is_s16 (mean + z)"
    using mulaw_err_small [OF pair] uz(5,6) mean d by (auto simp: range_defs)
  with uz b show thesis
    by (intro that [of "mean + z"])
      (simp_all add: mulaw_code_def mulaw_dec_def s16_id nat_less_iff)
qed

interpretation mulaw: sample_code "mulaw_code mean b m" "mulaw_dec mean b m" u8 m
    "mulaw_valid mean b m" "mulaw_quant mean b m"
  for mean :: int and b m :: nat
proof unfold_locales
  fix x v :: int
  assume x: "mulaw_valid mean b m x"
  from mulaw_code_facts [OF this] obtain y where y: "mulaw_code mean b m x < 2 ^ m"
    "mulaw_dec mean b m (int (mulaw_code mean b m x)) = Some y" "m \<le> 8"
    by blast
  then show "m \<le> 24" "mulaw_code mean b m x < 2 ^ m"
    "mulaw_dec mean b m (int (mulaw_code mean b m x)) = Some (mulaw_quant mean b m x)"
    by (simp_all add: mulaw_quant_def)
  show "u8 v = v" if "0 \<le> v" "v < 2 ^ m"
    using that y(3) power_increasing [of m 8 "2::int"]
    by (intro u8_id) (simp add: is_u8_def)
qed

lemma mulaw_quant_bounds:
  "mulaw_valid mean b m x \<Longrightarrow> x < mulaw_quant mean b m x \<and> mulaw_quant mean b m x \<le> x + mulaw_err b m"
  by (erule mulaw_code_facts) (simp add: mulaw_quant_def)

lemma load8s_store8:
  assumes "same_outside (store8 m a v) m' b c" "a < b" "is_s8 v"
  shows "load8s m' a = v"
proof -
  have "m' a = word_of_int v"
    using assms by (simp add: same_outside_def store8_def)
  then show ?thesis
    using s8_u8 [of v] s8_id [OF assms(3)]
    by (simp add: load8s_def load8u_def uint_word_of_int_eq u8_def)
qed

lemma clampVal_id: "minVal \<le> v \<Longrightarrow> v \<le> maxVal \<Longrightarrow> clampVal maxVal minVal v = v"
  by (simp add: clampVal_def)

lemma mulaw_encoder_sample:
  assumes "mulaw_valid mean b m x"
  shows "map_option (\<lambda>newVal. (nat newVal, m))
      (convertToMuLawUC (clampVal (s16 (2 ^ (b - 1))) (s16 (-1 * s16 (2 ^ (b - 1)))) (s16 (x - mean))) b m)
    = Some (mulaw_code mean b m x, m)"
proof -
  obtain y where y: "convertToMuLawUC (x - mean) b m = Some (int (mulaw_code mean b m x))" "b \<le> 11"
    using mulaw_code_facts [OF assms] by blast
  have "6 \<le> b" and d: "\<bar>x - mean\<bar> \<le> 2 ^ (b - 2)"
    using assms mulaw_pair_facts(3) by (auto simp: mulaw_valid_def)
  define h :: int where "h = 2 ^ (b - 1)"
  have h: "0 \<le> h" "h \<le> 1024" "2 ^ (b - 2) \<le> h"
    using power_increasing [of "b - 1" 10 "2::int"] y(2) by (simp_all add: h_def power_increasing)
  have dh: "- h \<le> x - mean" "x - mean \<le> h"
    using d h(3) by linarith+
  then have "s16 h = h" "s16 (- h) = - h" "s16 (x - mean) = x - mean"
    using h by (simp_all add: s16_id range_defs)
  then show ?thesis
    unfolding h_def [symmetric] using dh h by (simp add: clampVal_id y(1))
qed

lemma decode_encode_mulaw:
  assumes bits: "getInputAndMuLawBits encType = (b, k)"
    and data: "length (ps_data ch) = MAX_NUMBER_SAMPLES" "\<forall>x\<in>set (ps_data ch). mulaw_valid mean b k x"
    and mean: "mean = xMin ch + c_div (s16 (xMax ch - xMin ch)) 2"
    and mem: "zeroed m buffer (buffer + 520)"
  obtains m' n where "encodePSWaveLossyMuLaw buffer ch encType m = Some (m', n)"
    "decodes_to decodePSWaveLossyMuLaw m' buffer n encType (map (mulaw_quant mean b k) (ps_data ch))"
    "same_outside m m' buffer (buffer + n)" "n = 1 + (MAX_NUMBER_SAMPLES * k + 7) div 8"
proof -
  define c where "c = \<lparr>cmem = store8 m buffer mean, currentChar = buffer + 1, currentBit = 0\<rparr>"
  have "hd (ps_data ch) \<in> set (ps_data ch)"
    using data(1) by (intro hd_in_set) auto
  then have "is_s8 mean" and k: "k \<le> 8"
    using data(2) mulaw_pair_facts(6) by (auto simp: mulaw_valid_def)
  obtain c' where c': "put_samples (\<lambda>x. map_option (\<lambda>newVal. (nat newVal, k))
       (convertToMuLawUC (clampVal (s16 (2 ^ (b - 1))) (s16 (-1 * s16 (2 ^ (b - 1)))) (s16 (x - mean))) b k))
      (ps_data ch) c = Some c'"
    and w: "wrote_stream (stream_bits (mulaw.codes mean b k (ps_data ch))) c c'"
    unfolding mulaw.codes_def
    using put_samples_wrote [of "ps_data ch" _ "\<lambda>x. (mulaw_code mean b k x, k)" c,
        OF mulaw_encoder_sample [OF data(2) [rule_format]]]
    by (auto simp: c_def wf_cursor_def)
  have len: "length (stream_bits (mulaw.codes mean b k (ps_data ch))) = MAX_NUMBER_SAMPLES * k"
    using data(1) by (simp add: mulaw.length_codes)
  define n where "n = bytes_since buffer c'"
  have n: "n = 1 + (MAX_NUMBER_SAMPLES * k + 7) div 8"
    using bytes_since_wrote [OF w] len by (simp add: n_def c_def)
  have enc: "encodePSWaveLossyMuLaw buffer ch encType m = Some (cmem c', n)"
    using c' by (simp add: encodePSWaveLossyMuLaw_def bits Let_def c_def n_def flip: mean)
  have out2: "same_outside (cmem c) (cmem c') (buffer + 1) (buffer + n)"
    by (rule wrote_stream_same_outside [OF w]) (simp_all add: c_def cpos_def len n)
  have out: "same_outside m (cmem c') buffer (buffer + n)"
    using out2 n by (auto simp: same_outside_def c_def store8_def)
  have ld: "load8s (cmem c') buffer = mean"
    using load8s_store8 [of m buffer mean "cmem c'"] out2 \<open>is_s8 mean\<close> by (simp add: c_def)
  have "(260 * k + 7) div 8 \<le> (260 * 8 + 7) div 8"
    using k by (intro div_le_mono) simp
  then have n_le: "n \<le> 520"
    by (simp add: n)
  have "decodePSWaveLossyMuLaw m'' buffer (int n) ch' encType =
      Some (COMPRESS_E_OK, ch'\<lparr>ps_data := map (mulaw_quant mean b k) (ps_data ch)\<rparr>)"
    if m'': "same_inside (cmem c') m'' buffer (buffer + n)" and ch': "length (ps_data ch') = MAX_NUMBER_SAMPLES"
    for m'' ch'
  proof -
    have "load8s m'' buffer = mean"
      using load8u_inside [OF m'', of buffer] n ld by (simp add: load8s_def)
    moreover have "decode_fixed (mulaw_dec mean b k) u8 k m'' buffer (int n) 0 (currentChar c) 0 (ps_data ch') =
        Some (COMPRESS_E_OK, map (mulaw_quant mean b k) (ps_data ch))"
      by (rule mulaw.roundtrip [where b = "buffer + n", OF _ _ _ data(1,2) ch' _ w _ same_inside_mono [OF m'']])
        (use n n_le mem in \<open>simp_all add: c_def n_def zeroed_def store8_def\<close>)
    ultimately show ?thesis
      by (simp add: decodePSWaveLossyMuLaw_def bits Let_def c_def mulaw_dec_def [abs_def])
  qed
  then have "decodes_to decodePSWaveLossyMuLaw (cmem c') buffer n encType (map (mulaw_quant mean b k) (ps_data ch))"
    by (simp add: decodes_to_def)
  with that enc out n show thesis by blast
qed

section \<open>The optimal mu-law code\<close>

lemma rangeBits_bound: "r \<le> 32767 \<Longrightarrow> n \<le> 15 \<Longrightarrow> r \<le> 2 ^ rangeBits r n \<and> n \<le> rangeBits r n"
proof (induction r n rule: rangeBits.induct)
  case (1 r n)
  show ?case
  proof (cases "n < 31 \<and> r > 2 ^ n")
    case True
    then have "n \<noteq> 15"
      using 1(2) by auto
    with 1 True show ?thesis
      by (simp add: rangeBits.simps [of r n])
  next
    case False
    with 1(3) show ?thesis
      by (simp add: rangeBits.simps [of r n] not_less)
  qed
qed

lemma rangeBits_least: "r \<le> 2 ^ k \<Longrightarrow> n \<le> k \<Longrightarrow> rangeBits r n \<le> k"
proof (induction r n rule: rangeBits.induct)
  case (1 r n)
  show ?case
  proof (cases "n < 31 \<and> r > 2 ^ n")
    case True
    then have "n \<noteq> k"
      using 1(2) by auto
    then have "rangeBits r (n + 1) \<le> k"
      using 1 True by simp
    with True show ?thesis
      by (simp add: rangeBits.simps [of r n])
  next
    case False
    with 1(3) show ?thesis
      by (simp only: rangeBits.simps [of r n] if_False)
  qed
qed

lemma mulawInputBits_pair:
  assumes "3 \<le> k" "k \<le> 8" "inputBits \<le> 11"
  shows "(mulawInputBits inputBits k, k) \<in> set mulaw_pairs" "inputBits \<le> mulawInputBits inputBits k"
proof -
  define i where "i = (if inputBits < 6 then 6 else inputBits)"
  have k: "k = 3 \<or> k = 4 \<or> k = 5 \<or> k = 6 \<or> k = 7 \<or> k = 8"
    using assms(1,2) by linarith
  have "6 \<le> i" "i \<le> 11"
    using assms(3) by (simp_all add: i_def)
  then have i: "i = 6 \<or> i = 7 \<or> i = 8 \<or> i = 9 \<or> i = 10 \<or> i = 11"
    by linarith
  have "mulawInputBits inputBits k = (if i < k + 2 then k + 2 else i)"
    by (simp add: mulawInputBits_def i_def Let_def)
  then show "(mulawInputBits inputBits k, k) \<in> set mulaw_pairs"
    using k by (elim disjE; insert i; elim disjE; simp add: mulaw_pairs_def)
  show "inputBits \<le> mulawInputBits inputBits k"
    by (simp add: mulawInputBits_def Let_def)
qed

section \<open>Properties\<close>


definition example_channel :: "int list \<Rightarrow> SurfChannelPedSubbed_t" where
  "example_channel xs = \<lparr>ps_header = \<lparr>chanId = 3, chipIdFlag = 0, firstHitbus = 10, lastHitbus = 20\<rparr>,
     xMax = 4, xMin = -1, ps_mean = 0, ps_rms = 1, ps_data = xs\<rparr>"


end
