(* ===== verification/Fib_Codec.thy ===== *)
theory Fib_Codec
  imports Wave_Codec
begin

text \<open>
  The Fibonacci waveform codec of \<open>compressLib.c\<close>: \<open>encodePSWaveLosslessFibonacci\<close> and
  \<open>decodePSWaveLosslessFibonacci\<close>. Each sample is a prefix code word that ends at the first
  two adjacent ones; the decoder looks for them in a 32-bit window.
\<close>

section \<open>The codec\<close>

text \<open>
  \<open>int mean=chanPtr->mean; if(mean>127) mean=127; if(mean<-127) mean=-127;\<close>
  A \<open>float\<close> that does not fit an \<open>int\<close> converts to no value.
\<close>

definition clamp_mean :: "real \<Rightarrow> int option" where
  "clamp_mean r =
     (let mean = c_trunc r in
      if mean < - (2 ^ 31) \<or> 2 ^ 31 \<le> mean then None
      else let mean = (if mean > 127 then 127 else mean)
           in Some (if mean < -127 then -127 else mean))"

definition encodePSWaveLosslessFibonacci ::
    "nat \<Rightarrow> SurfChannelPedSubbed_t \<Rightarrow> mem \<Rightarrow> (mem \<times> nat) option" where
  "encodePSWaveLosslessFibonacci buffer ch m =
     (case clamp_mean (ps_mean ch) of None \<Rightarrow> None
      | Some mean \<Rightarrow>
         let c = \<lparr>cmem = store8 m buffer mean, currentChar = buffer + 1, currentBit = 0\<rparr>
         in case put_samples (\<lambda>x.
                 let (code, numBits) = encodeFibonacci (nat (bifurcate (s16 (x - mean))))
                 in Some (nat (u16 (int code)), numBits)) (ps_data ch) c of
              None \<Rightarrow> None
            | Some c \<Rightarrow> Some (cmem c, bytes_since buffer c))"

text \<open>
  The search for two adjacent ones from \<open>tempBit\<close> on. Looking at bit 32 of the window is a
  shift by the width of \<open>int\<close>, which is undefined.
\<close>

function fib_scan :: "int \<Rightarrow> nat \<Rightarrow> nat option" where
  "fib_scan fred tempBit =
     (if tempBit < 32 then
        if drop_bit tempBit fred AND 1 \<noteq> 0 then
          if tempBit + 1 \<ge> 32 then None
          else if drop_bit (tempBit + 1) fred AND 1 \<noteq> 0 then Some tempBit
          else fib_scan fred (tempBit + 1)
        else fib_scan fred (tempBit + 1)
      else Some tempBit)"
  by pat_completeness auto
termination by (relation "measure (\<lambda>(fred, t). 32 - t)") auto

declare fib_scan.simps [simp del]

function decode_fib :: "int \<Rightarrow> mem \<Rightarrow> nat \<Rightarrow> int \<Rightarrow> nat \<Rightarrow> nat \<Rightarrow> nat \<Rightarrow> int list \<Rightarrow>
    (CompressErrorCode_t \<times> int list) option" where
  "decode_fib mean m input numBytes sampNum cc cb dat =
     (if sampNum < MAX_NUMBER_SAMPLES then
        let fred = load32s m cc in
        case fib_scan fred cb of
          None \<Rightarrow> None
        | Some tempBit \<Rightarrow>
            let found = tempBit < 32;
                fibNum = extractBits u16 fred cb (tempBit + 2 - cb);
                unfibNum = int (unfibonacci (nat fibNum));
                dat = (if found then dat[sampNum := s16 (mean + unbifurcate unfibNum)] else dat);
                cc = (if found then cc + (tempBit + 2) div 8 else cc);
                cb = (if found then (tempBit + 2) mod 8 else cb)
            in if int cc - int input > numBytes then Some (COMPRESS_E_BADSIZE, dat)
               else decode_fib mean m input numBytes (sampNum + 1) cc cb dat
      else Some (COMPRESS_E_OK, dat))"
  by pat_completeness auto
termination
  by (relation "measure (\<lambda>(mean, m, input, numBytes, sampNum, cc, cb, dat). MAX_NUMBER_SAMPLES - sampNum)")
    auto

declare decode_fib.simps [simp del]

definition decodePSWaveLosslessFibonacci ::
    "mem \<Rightarrow> nat \<Rightarrow> int \<Rightarrow> SurfChannelPedSubbed_t \<Rightarrow>
      (CompressErrorCode_t \<times> SurfChannelPedSubbed_t) option" where
  "decodePSWaveLosslessFibonacci m input numBytes ch =
     (case decode_fib (load8s m input) m input numBytes 0 (input + 1) 0 (ps_data ch) of
        None \<Rightarrow> None
      | Some (code, dat) \<Rightarrow> Some (code, ch\<lparr>ps_data := dat\<rparr>))"

section \<open>Finding the end of a code word\<close>

lemma fib_scan_unfold:
  "fib_scan fred t = (if t < 32 then
      if bit fred t then if t = 31 then None else if bit fred (t + 1) then Some t else fib_scan fred (t + 1)
      else fib_scan fred (t + 1) else Some t)"
  by (subst fib_scan.simps) (auto simp: bit_iff_and_drop_bit_eq_1 and_one_eq)

lemma fib_scan_code_word:
  assumes "code_word w n" "cb + n \<le> 32"
    and bits: "\<And>j. j < n \<Longrightarrow> bit fred (cb + j) = bit w j"
  shows "fib_scan fred cb = Some (cb + n - 2)"
proof -
  have n: "2 \<le> n" "bit w (n - 2)" "bit w (Suc (n - 2))"
    using assms(1) by (auto simp: code_word_def Suc_diff_le numeral_2_eq_2 Suc_diff_Suc)
  have "fib_scan fred (cb + j) = Some (cb + n - 2)" if "j \<le> n - 2" for j
    using that
  proof (induction "n - 2 - j" arbitrary: j)
    case 0
    then have "j = n - 2" by simp
    then show ?case
      using n assms(2) bits [of "n - 2"] bits [of "Suc (n - 2)"]
      by (subst fib_scan_unfold) auto
  next
    case (Suc k)
    then have "fib_scan fred (cb + Suc j) = Some (cb + n - 2)"
      by (intro Suc.hyps(1)) auto
    moreover have "\<not> (bit w j \<and> bit w (Suc j))"
      using assms(1) Suc.hyps(2) n(1) by (auto simp: code_word_def)
    ultimately show ?case
      using Suc.hyps(2) assms(2) bits [of j] bits [of "Suc j"]
      by (subst fib_scan_unfold) auto
  qed
  from this [of 0] show ?thesis by simp
qed

lemma fib_read:
  assumes w: "code_word w n" "n \<le> 16" and cb: "cb < 8"
    and h: "holds_stream m (8 * cc + cb) (code_bits (w, n))"
  shows "fib_scan (load32s m cc) cb = Some (cb + n - 2)"
    and "extractBits u16 (load32s m cc) cb n = int w"
proof -
  show "fib_scan (load32s m cc) cb = Some (cb + n - 2)"
    by (rule fib_scan_code_word [OF w(1)])
      (use h w(2) cb in \<open>auto simp: holds_stream_def code_bits_def bit_load32s add.assoc\<close>)
  show "extractBits u16 (load32s m cc) cb n = int w"
  proof (rule extractBits_holds [OF _ h])
    show "u16 x = x" if "0 \<le> x" "x < 2 ^ n" for x
      using that w(2) power_increasing [of n 16 "2::int"]
      by (intro u16_id) (simp add: is_u16_def)
  qed (use w cb in \<open>auto simp: code_word_def\<close>)
qed

section \<open>The round trip\<close>

text \<open>
  A code word is kept in an \<open>unsigned short\<close>: the samples whose code word has at most 16
  bits are those within 798 of the mean.
\<close>

definition valid_fib :: "int \<Rightarrow> int \<Rightarrow> bool" where
  "valid_fib mean x \<longleftrightarrow> is_s8 mean \<and> -798 \<le> x - mean \<and> x - mean \<le> 797"

definition fib_code :: "int \<Rightarrow> int \<Rightarrow> nat \<times> nat" where
  "fib_code mean x = encodeFibonacci (nat (bifurcate (x - mean)))"

lemma fib_code_facts:
  assumes "valid_fib mean x"
  shows "code_word (fst (fib_code mean x)) (snd (fib_code mean x))" "snd (fib_code mean x) \<le> 16"
    and "fst (fib_code mean x) < 65536"
    and "unbifurcate (int (unfibonacci (fst (fib_code mean x)))) = x - mean"
proof -
  define v where "v = nat (bifurcate (x - mean))"
  have d: "-32768 < x - mean" "x - mean < 32768"
    using assms by (auto simp: valid_fib_def)
  have "0 < bifurcate (x - mean)" "bifurcate (x - mean) < 1597"
    using bifurcate_pos [OF d] assms
    by (auto simp: valid_fib_def) (cases "0 \<le> x - mean"; simp add: bifurcate_nonneg bifurcate_neg)
  then have v: "0 < v" "v < 1597" "int v = bifurcate (x - mean)" "v < 65536"
    by (simp_all add: v_def)
  obtain i where i: "i < 23" "fn ! i \<le> v" "encodeFibonacci v = (fib_bits (Suc i) v 0 + 2 ^ Suc i, Suc (Suc i))"
    using encode_split [OF v(1,4)] by blast
  have "i < 15"
  proof (rule ccontr)
    assume "\<not> i < 15"
    then have "i = 15 \<or> i = 16 \<or> i = 17 \<or> i = 18 \<or> i = 19 \<or> i = 20 \<or> i = 21 \<or> i = 22"
      using i(1) by linarith
    then have "1597 \<le> fn ! i"
      by (elim disjE) (simp_all add: fn_def)
    with i(2) v(2) show False by simp
  qed
  with i(3) show n: "snd (fib_code mean x) \<le> 16"
    by (simp add: fib_code_def flip: v_def)
  show cw: "code_word (fst (fib_code mean x)) (snd (fib_code mean x))"
    using encode_code_word [OF v(1,4)] by (simp add: fib_code_def flip: v_def)
  show "fst (fib_code mean x) < 65536"
    using cw n power_increasing [OF n, of "2::nat"] by (auto simp: code_word_def)
  show "unbifurcate (int (unfibonacci (fst (fib_code mean x)))) = x - mean"
    using unfibonacci_fibonacci [OF v(1,4)] unbifurcate_bifurcate_inv [OF d] v(3)
    by (simp add: fib_code_def flip: v_def)
qed

lemma decode_fib_stream:
  assumes "sampNum + length xs = MAX_NUMBER_SAMPLES" "length ys = sampNum"
    and "length zs = length xs" "\<forall>x\<in>set xs. valid_fib mean x" "cb < 8"
    and "holds_stream m (8 * cc + cb) (stream_bits (map (fib_code mean) xs))"
    and "int ((8 * cc + cb + length (stream_bits (map (fib_code mean) xs))) div 8) - int input \<le> numBytes"
  shows "decode_fib mean m input numBytes sampNum cc cb (ys @ zs) = Some (COMPRESS_E_OK, ys @ xs)"
  using assms
proof (induction xs arbitrary: sampNum cc cb ys zs)
  case Nil
  then show ?case
    by (simp add: decode_fib.simps)
next
  case (Cons x xs)
  obtain z zs' where zs: "zs = z # zs'" "length zs' = length xs"
    using Cons.prems(3) by (cases zs) auto
  obtain w n where wn: "fib_code mean x = (w, n)"
    by fastforce
  have ok: "valid_fib mean x"
    using Cons.prems(4) by simp
  note facts = fib_code_facts [OF ok, unfolded wn fst_conv snd_conv]
  have n2: "2 \<le> n"
    using facts(1) by (simp add: code_word_def)
  have holds: "holds_stream m (8 * cc + cb) (code_bits (w, n))"
    "holds_stream m (8 * cc + cb + n) (stream_bits (map (fib_code mean) xs))"
    using Cons.prems(6) wn by (simp_all add: holds_stream_append)
  note read = fib_read [OF facts(1,2) Cons.prems(5) holds(1)]
  have s16x: "s16 x = x"
    using ok by (intro s16_id) (auto simp: valid_fib_def range_defs)
  let ?cc = "cc + (cb + n) div 8" and ?cb = "(cb + n) mod 8"
  have pos: "8 * ?cc + ?cb = 8 * cc + cb + n"
    by simp
  have less: "int ?cc - int input \<le> numBytes"
  proof -
    have "?cc \<le> (8 * cc + cb + length (stream_bits (map (fib_code mean) (x # xs)))) div 8"
      using div_le_mono [of "8 * cc + (cb + n)" "8 * cc + cb + length (stream_bits (map (fib_code mean) (x # xs)))" 8]
      by (simp add: wn)
    with Cons.prems(7) show ?thesis by linarith
  qed
  have "decode_fib mean m input numBytes (sampNum + 1) ?cc ?cb ((ys @ [x]) @ zs') =
      Some (COMPRESS_E_OK, (ys @ [x]) @ xs)"
    by (rule Cons.IH)
      (use Cons.prems zs holds(2) pos wn in \<open>simp_all add: add.assoc add.commute [of n]\<close>)
  moreover have arith: "cb + n - 2 < 32" "Suc (Suc (cb + n - 2)) = cb + n"
    using Cons.prems(5) facts(2) n2 by simp_all
  moreover have "decode_fib mean m input numBytes sampNum cc cb (ys @ zs) =
      decode_fib mean m input numBytes (sampNum + 1) ?cc ?cb ((ys @ [x]) @ zs')"
    using Cons.prems(1,2) less zs
    by (simp add: decode_fib.simps [of _ _ _ _ sampNum] read facts(4) s16x Let_def arith
        list_update_append1)
  ultimately show ?case by simp
qed

lemma fib_encoder_sample:
  assumes "valid_fib mean x"
  shows "(let (code, numBits) = encodeFibonacci (nat (bifurcate (s16 (x - mean))))
      in Some (nat (u16 (int code)), numBits)) = Some (fib_code mean x)"
proof -
  have "s16 (x - mean) = x - mean"
    using assms by (intro s16_id) (auto simp: valid_fib_def range_defs)
  moreover have "nat (u16 (int (fst (fib_code mean x)))) = fst (fib_code mean x)"
    using fib_code_facts(3) [OF assms] by (simp add: u16_id is_u16_def)
  ultimately show ?thesis
    by (simp add: fib_code_def split_beta Let_def)
qed

lemma fib_code_length: "valid_fib mean x \<Longrightarrow> snd (fib_code mean x) \<le> 16"
  by (rule fib_code_facts)

lemma decode_encode_fib:
  assumes mean: "clamp_mean (ps_mean ch) = Some mean"
    and data: "length (ps_data ch) = MAX_NUMBER_SAMPLES" "\<forall>x\<in>set (ps_data ch). valid_fib mean x"
    and mem: "zeroed m buffer (buffer + 521)"
  obtains m' n where "encodePSWaveLosslessFibonacci buffer ch m = Some (m', n)"
    "decodes_to (\<lambda>m input n ch t. decodePSWaveLosslessFibonacci m input n ch) m' buffer n
      ENCODE_LOSSLESS_FIBONACCI (ps_data ch)"
    "same_outside m m' buffer (buffer + n)" "n \<le> 521"
proof -
  define c where "c = \<lparr>cmem = store8 m buffer mean, currentChar = buffer + 1, currentBit = 0\<rparr>"
  define bs where "bs = stream_bits (map (fib_code mean) (ps_data ch))"
  obtain c' where c': "put_samples (\<lambda>x. let (code, numBits) = encodeFibonacci (nat (bifurcate (s16 (x - mean))))
      in Some (nat (u16 (int code)), numBits)) (ps_data ch) c = Some c'"
    and w: "wrote_stream bs c c'"
    unfolding bs_def
    using put_samples_wrote [of "ps_data ch" _ "fib_code mean" c,
        OF fib_encoder_sample [OF data(2) [rule_format]]]
    by (auto simp: c_def wf_cursor_def)
  have "length (stream_bits (map (fib_code mean) xs)) \<le> 16 * length xs"
    if "\<forall>x\<in>set xs. valid_fib mean x" for xs
    using that by (induction xs) (use fib_code_length in fastforce)+
  from this [OF data(2)] have len: "length bs \<le> 4160"
    by (simp add: bs_def data(1))
  define n where "n = bytes_since buffer c'"
  have n: "n = 1 + (length bs + 7) div 8"
    using bytes_since_wrote [OF w] by (simp add: n_def c_def)
  have "(length bs + 7) div 8 \<le> (4160 + 7) div 8"
    using len by (intro div_le_mono) simp
  then have n_le: "n \<le> 521"
    by (simp add: n)
  have cpos: "cpos c + length bs \<le> 8 * (buffer + n)"
    by (simp add: c_def cpos_def n)
  have enc: "encodePSWaveLosslessFibonacci buffer ch m = Some (cmem c', n)"
    using c' by (simp add: encodePSWaveLosslessFibonacci_def mean Let_def c_def n_def)
  have out2: "same_outside (store8 m buffer mean) (cmem c') (buffer + 1) (buffer + n)"
    using wrote_stream_same_outside [OF w _ cpos, of "buffer + 1"] by (simp add: c_def)
  have out: "same_outside m (cmem c') buffer (buffer + n)"
    using out2 n by (auto simp: same_outside_def store8_def)
  have "hd (ps_data ch) \<in> set (ps_data ch)"
    using data(1) by (intro hd_in_set) auto
  then have "is_s8 mean"
    using data(2) by (auto simp: valid_fib_def)
  then have ld: "load8s (cmem c') buffer = mean"
    by (intro load8s_store8 [OF out2]) simp_all
  have holds: "holds_stream (cmem c') (8 * (buffer + 1)) bs"
    using wrote_stream_holds [OF w, of "buffer + 521"] mem cpos n_le
    by (simp add: c_def cpos_def zeroed_def store8_def)
  have size: "int ((8 * (buffer + 1) + length bs) div 8) - int buffer \<le> int n"
  proof -
    have "(8 * (buffer + 1) + length bs) div 8 \<le> buffer + n"
      by (simp add: n)
    then show ?thesis by simp
  qed
  have "decodePSWaveLosslessFibonacci m'' buffer (int n) ch' = Some (COMPRESS_E_OK, ch'\<lparr>ps_data := ps_data ch\<rparr>)"
    if m'': "same_inside (cmem c') m'' buffer (buffer + n)" and ch': "length (ps_data ch') = MAX_NUMBER_SAMPLES"
    for m'' ch'
  proof -
    have "load8s m'' buffer = mean"
      using load8u_inside [OF m'', of buffer] n ld by (simp add: load8s_def)
    moreover have "holds_stream m'' (8 * (buffer + 1)) bs"
      by (rule holds_stream_inside [OF holds m'']) (use cpos in \<open>simp_all add: c_def cpos_def\<close>)
    then have "decode_fib mean m'' buffer (int n) 0 (buffer + 1) 0 ([] @ ps_data ch') =
        Some (COMPRESS_E_OK, [] @ ps_data ch)"
      using size unfolding bs_def by (intro decode_fib_stream) (simp_all add: data ch')
    ultimately show ?thesis
      by (simp add: decodePSWaveLosslessFibonacci_def)
  qed
  then have "decodes_to (\<lambda>m input n ch t. decodePSWaveLosslessFibonacci m input n ch) (cmem c') buffer n
      ENCODE_LOSSLESS_FIBONACCI (ps_data ch)"
    by (simp add: decodes_to_def)
  with that enc out n_le show thesis by blast
qed

definition valid_fibonacci :: "SurfChannelPedSubbed_t \<Rightarrow> bool" where
  "valid_fibonacci ch \<longleftrightarrow> length (ps_data ch) = MAX_NUMBER_SAMPLES \<and>
     (case clamp_mean (ps_mean ch) of None \<Rightarrow> False
      | Some mean \<Rightarrow> \<forall>x\<in>set (ps_data ch). valid_fib mean x)"

interpretation fib_codec: wave_codec
  "\<lambda>buffer ch m. with_type ENCODE_LOSSLESS_FIBONACCI (encodePSWaveLosslessFibonacci buffer ch m)"
  "\<lambda>m input n ch t. decodePSWaveLosslessFibonacci m input n ch" valid_fibonacci ps_data 521
proof unfold_locales
  fix ch m buffer
  assume v: "valid_fibonacci ch" and z: "zeroed m buffer (buffer + 521)"
  obtain mean where mean: "clamp_mean (ps_mean ch) = Some mean" "\<forall>x\<in>set (ps_data ch). valid_fib mean x"
    using v by (auto simp: valid_fibonacci_def split: option.splits)
  show "\<exists>m' n encType.
      with_type ENCODE_LOSSLESS_FIBONACCI (encodePSWaveLosslessFibonacci buffer ch m) = Some (m', n, encType) \<and>
      n \<le> 521 \<and> same_outside m m' buffer (buffer + n) \<and>
      decodes_to (\<lambda>m input n ch t. decodePSWaveLosslessFibonacci m input n ch) m' buffer n encType (ps_data ch)"
    by (rule decode_encode_fib [OF mean(1) _ mean(2) z])
      (use v in \<open>auto simp: valid_fibonacci_def with_type_def\<close>)
qed

section \<open>Properties\<close>

text \<open>
  C37. The Fibonacci codec is lossless for the samples from 798 below to 797 above the clamped mean (those
  whose code word has at most 16 bits), and takes at most 521 bytes.
\<close>

theorem lossless_fibonacci_roundtrip:
  assumes "length (ps_data ch) = MAX_NUMBER_SAMPLES" "clamp_mean (ps_mean ch) = Some mean"
    and "\<forall>x\<in>set (ps_data ch). valid_fib mean x"
    and "zeroed m buffer (buffer + 521)" "length (ps_data ch') = MAX_NUMBER_SAMPLES"
  shows "\<exists>m' n. encodePSWaveLosslessFibonacci buffer ch m = Some (m', n) \<and> n \<le> 521 \<and>
    same_outside m m' buffer (buffer + n) \<and>
    decodePSWaveLosslessFibonacci m' buffer (int n) ch' = Some (COMPRESS_E_OK, ch'\<lparr>ps_data := ps_data ch\<rparr>)"
proof -
  have "valid_fibonacci ch"
    using assms(1-3) by (simp add: valid_fibonacci_def)
  from fib_codec.written_and_read [OF this assms(4,5)] show ?thesis
    by (auto simp: with_type_def)
qed

theorem lossless_fibonacci_roundtrip_witness:
  "\<exists>m' n. encodePSWaveLosslessFibonacci 0 (example_channel (replicate 260 (-5))) (\<lambda>_. 0) = Some (m', n) \<and>
    decodePSWaveLosslessFibonacci m' 0 (int n) (example_channel (replicate 260 0)) =
      Some (COMPRESS_E_OK, example_channel (replicate 260 (-5)))"
  using lossless_fibonacci_roundtrip [of "example_channel (replicate 260 (-5))" 0 "\<lambda>_. 0" 0 "example_channel (replicate 260 0)"]
  by (auto simp: example_channel_def valid_fib_def zeroed_def range_defs clamp_mean_def c_trunc_def)

end
