(* ===== verification/BinFib_Codec.thy ===== *)
theory BinFib_Codec
  imports Fib_Codec "HOL-Library.Monad_Syntax"
begin

text \<open>
  The combined waveform codec of \<open>compressLib.c\<close>: \<open>encodePSWaveLosslessBinFibCombo\<close> and
  \<open>decodePSWaveLosslessBinFibCombo\<close>. A sample near the mean is written in \<open>bitSize\<close> bits;
  the others are flagged there and follow as Fibonacci code words in an overflow stream behind the
  binary one. The decoder does not know how many overflow code words there are: it reads them
  until a window of 32 bits holds none, into an array of 256 elements.
\<close>

section \<open>The encoder\<close>

text \<open>What the encoder keeps: the binary cursor and the overflow cursor share the memory.\<close>

record combo =
  bin_pos :: "nat \<times> nat"   \<comment> \<open>\<open>currentChar\<close>, \<open>currentBit\<close>\<close>
  ovf_pos :: "nat \<times> nat"   \<comment> \<open>\<open>overflowChar\<close>, \<open>overflowBit\<close>\<close>
  combo_mem :: mem

definition put_bin :: "nat \<Rightarrow> nat \<Rightarrow> combo \<Rightarrow> combo" where
  "put_bin newVal numBits s =
     (let c = put_bits newVal numBits
                \<lparr>cmem = combo_mem s, currentChar = fst (bin_pos s), currentBit = snd (bin_pos s)\<rparr>
      in s\<lparr>bin_pos := (currentChar c, currentBit c), combo_mem := cmem c\<rparr>)"

definition put_ovf :: "nat \<Rightarrow> nat \<Rightarrow> combo \<Rightarrow> combo" where
  "put_ovf newVal numBits s =
     (let c = put_bits newVal numBits
                \<lparr>cmem = combo_mem s, currentChar = fst (ovf_pos s), currentBit = snd (ovf_pos s)\<rparr>
      in s\<lparr>ovf_pos := (currentChar c, currentBit c), combo_mem := cmem c\<rparr>)"

text \<open>The fields of a run that the loop over the samples does not change.\<close>

record combo_par =
  cp_mean :: int
  cp_xMin :: int
  cp_xMax :: int
  cp_bitSize :: nat

definition flagVal :: "nat \<Rightarrow> int" where
  "flagVal bitSize = u16 (2 ^ bitSize - 1)"

definition combo_params :: "int \<Rightarrow> nat \<Rightarrow> combo_par option" where
  \<comment> \<open>\<open>xMin=mean-(1<<(bitSize-1)); xMax=mean+(1<<(bitSize-1)); xMax-=1;\<close>\<close>
  "combo_params mean bitSize =
     (if bitSize = 0 \<or> bitSize > 31 then None
      else Some \<lparr>cp_mean = mean, cp_xMin = s16 (mean - 2 ^ (bitSize - 1)),
                 cp_xMax = s16 (s16 (mean + 2 ^ (bitSize - 1)) - 1), cp_bitSize = bitSize\<rparr>)"

definition overflow_val :: "combo_par \<Rightarrow> int \<Rightarrow> int" where
  "overflow_val p x =
     (if x \<ge> cp_xMax p then u16 (2 * (x - cp_xMax p) + 1) else u16 (2 * (cp_xMin p - x) + 2))"

definition put_combo :: "combo_par \<Rightarrow> int \<Rightarrow> combo \<Rightarrow> combo" where
  "put_combo p x s =
     (if cp_xMin p < x \<and> x < cp_xMax p
      then put_bin (nat (bifurcate (s16 (x - cp_mean p)))) (cp_bitSize p) s
      else let (asFib, fibBits) = encodeFibonacci (nat (overflow_val p x)) in
           put_bin (nat (flagVal (cp_bitSize p))) (cp_bitSize p) (put_ovf asFib fibBits s))"

text \<open>\<open>rangeTotal=(int)(numSigma*sigma)\<close> with \<open>numSigma=3\<close>, and the number of bits for it.\<close>

definition combo_bitSize :: "real \<Rightarrow> nat option" where
  "combo_bitSize sigma =
     (let rangeTotal = c_trunc (3 * sigma) in
      if rangeTotal < - (2 ^ 31) \<or> 2 ^ 31 \<le> rangeTotal + 1 then None
      else map_option (\<lambda>bitSize. if bitSize = 1 then bitSize + 1 else bitSize) (log_bitSize rangeTotal))"

definition encodePSWaveLosslessBinFibCombo ::
    "nat \<Rightarrow> SurfChannelPedSubbed_t \<Rightarrow> mem \<Rightarrow> (mem \<times> nat \<times> ChannelEncodingType_t) option" where
  "encodePSWaveLosslessBinFibCombo buffer ch m =
     do {
       mean \<leftarrow> clamp_mean (ps_mean ch);
       bitSize \<leftarrow> combo_bitSize (ps_rms ch);
       p \<leftarrow> combo_params mean bitSize;
       let currentChar = buffer + 1;
       let s = fold (put_combo p) (ps_data ch)
                 \<lparr>bin_pos = (currentChar, 0),
                  ovf_pos = (currentChar + MAX_NUMBER_SAMPLES * bitSize div 8, MAX_NUMBER_SAMPLES * bitSize mod 8),
                  combo_mem = store8 m buffer mean\<rparr>;
       let (overflowChar, overflowBit) = ovf_pos s;
       Some (combo_mem s, (if overflowBit \<noteq> 0 then overflowChar + 1 else overflowChar) - buffer,
             getBinFibEncType (int bitSize))
     }"

section \<open>The decoder\<close>

definition overflow_sample :: "combo_par \<Rightarrow> int \<Rightarrow> int" where
  "overflow_sample p tempNum =
     (if tempNum AND 1 \<noteq> 0 then s16 (cp_xMax p + drop_bit 1 (tempNum - 1))
      else s16 (cp_xMin p - drop_bit 1 (tempNum - 2)))"

text \<open>
  The loop through the overflow, \<open>while(overflowNum<260)\<close>: the values read so far are the list
  \<open>overFlowVals\<close>, whose length is \<open>overflowNum\<close>. Storing element 256 of the array is
  out of bounds. \<open>if(tempBit==32) break;\<close> ends the loop when nothing was found, and also
  when a code word ends with the window.
\<close>

function read_overflow :: "combo_par \<Rightarrow> mem \<Rightarrow> nat \<Rightarrow> nat \<Rightarrow> int list \<Rightarrow> int list option" where
  "read_overflow p m oc ob overFlowVals =
     (if length overFlowVals < 260 then
        let fred = load32s m oc in
        case fib_scan fred ob of
          None \<Rightarrow> None
        | Some tempBit \<Rightarrow>
            if tempBit = 32 then Some overFlowVals
            else if length overFlowVals \<ge> 256 then None
            else let fibNum = extractBits s32 fred ob (tempBit + 2 - ob);
                     tempNum = int (unfibonacci (nat (u32 fibNum)));
                     overFlowVals = overFlowVals @ [overflow_sample p tempNum]
                 in if tempBit + 2 = 32 then Some overFlowVals
                    else read_overflow p m (oc + (tempBit + 2) div 8) ((tempBit + 2) mod 8) overFlowVals
      else Some overFlowVals)"
  by pat_completeness auto
termination
  by (relation "measure (\<lambda>(p, m, oc, ob, vs). 260 - length vs)") auto

declare read_overflow.simps [simp del]

text \<open>
  The loop through the binary part. A flagged sample takes the next overflow value; past those
  that were read, \<open>overFlowVals[overflowNum]\<close> is uninitialised.
\<close>

function decode_combo :: "combo_par \<Rightarrow> mem \<Rightarrow> int list \<Rightarrow> nat \<Rightarrow> nat \<Rightarrow> nat \<Rightarrow> int list \<Rightarrow> int list option" where
  "decode_combo p m overFlowVals sampNum cc cb dat =
     (if sampNum < MAX_NUMBER_SAMPLES then
        let tempNum = extractBits u16 (load32s m cc) cb (cp_bitSize p);
            pos = advance cc (cb + cp_bitSize p)
        in if tempNum = flagVal (cp_bitSize p) then
             (case overFlowVals of
                [] \<Rightarrow> None
              | v # vs \<Rightarrow> decode_combo p m vs (sampNum + 1) (fst pos) (snd pos) (dat[sampNum := v]))
           else decode_combo p m overFlowVals (sampNum + 1) (fst pos) (snd pos)
                  (dat[sampNum := s16 (cp_mean p + unbifurcate tempNum)])
      else Some dat)"
  by pat_completeness auto
termination
  by (relation "measure (\<lambda>(p, m, vs, sampNum, cc, cb, dat). MAX_NUMBER_SAMPLES - sampNum)") auto

declare decode_combo.simps [simp del]

definition decodePSWaveLosslessBinFibCombo ::
    "mem \<Rightarrow> nat \<Rightarrow> int \<Rightarrow> SurfChannelPedSubbed_t \<Rightarrow> ChannelEncodingType_t \<Rightarrow>
      (CompressErrorCode_t \<times> SurfChannelPedSubbed_t) option" where
  "decodePSWaveLosslessBinFibCombo m input numBytes ch encType =
     do {
       let mean = load8s m input;
       let bitSize = getBinFibBitSize encType;
       p \<leftarrow> combo_params mean bitSize;
       let currentChar = input + 1;
       vs \<leftarrow> read_overflow p m (currentChar + MAX_NUMBER_SAMPLES * bitSize div 8)
               (MAX_NUMBER_SAMPLES * bitSize mod 8) [];
       dat \<leftarrow> decode_combo p m vs 0 currentChar 0 (ps_data ch);
       Some (COMPRESS_E_OK, ch\<lparr>ps_data := dat\<rparr>)
     }"

section \<open>What the encoder writes\<close>

definition near :: "combo_par \<Rightarrow> int \<Rightarrow> bool" where
  "near p x \<longleftrightarrow> cp_xMin p < x \<and> x < cp_xMax p"

definition bin_word :: "combo_par \<Rightarrow> int \<Rightarrow> nat \<times> nat" where
  "bin_word p x =
     (if near p x then nat (bifurcate (s16 (x - cp_mean p))) else nat (flagVal (cp_bitSize p)), cp_bitSize p)"

definition ovf_word :: "combo_par \<Rightarrow> int \<Rightarrow> nat \<times> nat" where
  "ovf_word p x = encodeFibonacci (nat (overflow_val p x))"

definition bin_words :: "combo_par \<Rightarrow> int list \<Rightarrow> (nat \<times> nat) list" where
  "bin_words p xs = map (bin_word p) xs"

definition ovf_words :: "combo_par \<Rightarrow> int list \<Rightarrow> (nat \<times> nat) list" where
  "ovf_words p xs = map (ovf_word p) (filter (\<lambda>x. \<not> near p x) xs)"

definition bitAt :: "nat \<times> nat \<Rightarrow> nat" where
  "bitAt pos = 8 * fst pos + snd pos"

text \<open>The bits of the two streams, written from \<open>B\<close> and from \<open>V\<close> on.\<close>

definition wrote_two :: "nat \<Rightarrow> nat \<Rightarrow> mem \<Rightarrow> bool list \<Rightarrow> bool list \<Rightarrow> combo \<Rightarrow> bool" where
  "wrote_two B V m bs os s \<longleftrightarrow> snd (bin_pos s) < 8 \<and> snd (ovf_pos s) < 8 \<and>
     bitAt (bin_pos s) = B + length bs \<and> bitAt (ovf_pos s) = V + length os \<and>
     (\<forall>p. mbit (combo_mem s) p \<longleftrightarrow> mbit m p \<or> (B \<le> p \<and> p < B + length bs \<and> bs ! (p - B)) \<or>
            (V \<le> p \<and> p < V + length os \<and> os ! (p - V)))"

lemma range_append:
  "(B \<le> p \<and> p < B + length (bs @ cs) \<and> (bs @ cs) ! (p - B)) \<longleftrightarrow>
   (B \<le> p \<and> p < B + length bs \<and> bs ! (p - B)) \<or>
   (B + length bs \<le> p \<and> p < B + length bs + length cs \<and> cs ! (p - (B + length bs)))"
proof (cases "p < B + length bs")
  case True
  then show ?thesis by (auto simp: nth_append)
next
  case False
  then obtain j where "p = B + (length bs + j)"
    by (metis add.assoc le_Suc_ex not_less)
  then show ?thesis by auto
qed

lemma put_bin_wrote:
  assumes "wrote_two B V m bs os s"
  shows "wrote_two B V m (bs @ code_bits (v, n)) os (put_bin v n s)"
proof -
  let ?c = "\<lparr>cmem = combo_mem s, currentChar = fst (bin_pos s), currentBit = snd (bin_pos s)\<rparr>"
  have w: "wrote_stream (code_bits (v, n)) ?c (put_bits v n ?c)"
    using put_bits_wrote [of ?c v n] assms by (simp add: wrote_code_bits wf_cursor_def wrote_two_def)
  have c: "cpos ?c = B + length bs"
    using assms by (simp add: cpos_def wrote_two_def bitAt_def)
  show ?thesis
    using w assms unfolding wrote_two_def wrote_stream_def range_append c
    by (simp add: put_bin_def Let_def bitAt_def cpos_def wf_cursor_def) blast
qed

lemma put_ovf_wrote:
  assumes "wrote_two B V m bs os s"
  shows "wrote_two B V m bs (os @ code_bits (v, n)) (put_ovf v n s)"
proof -
  let ?c = "\<lparr>cmem = combo_mem s, currentChar = fst (ovf_pos s), currentBit = snd (ovf_pos s)\<rparr>"
  have w: "wrote_stream (code_bits (v, n)) ?c (put_bits v n ?c)"
    using put_bits_wrote [of ?c v n] assms by (simp add: wrote_code_bits wf_cursor_def wrote_two_def)
  have c: "cpos ?c = V + length os"
    using assms by (simp add: cpos_def wrote_two_def bitAt_def)
  show ?thesis
    using w assms unfolding wrote_two_def wrote_stream_def range_append c
    by (simp add: put_ovf_def Let_def bitAt_def cpos_def wf_cursor_def)
qed

lemma fold_put_combo:
  "wrote_two B V m bs os s \<Longrightarrow>
   wrote_two B V m (bs @ stream_bits (bin_words p xs)) (os @ stream_bits (ovf_words p xs))
     (fold (put_combo p) xs s)"
proof (induction xs arbitrary: bs os s)
  case (Cons x xs)
  let ?bs = "bs @ code_bits (bin_word p x)"
  let ?os = "os @ (if near p x then [] else code_bits (ovf_word p x))"
  obtain w n where wn: "encodeFibonacci (nat (overflow_val p x)) = (w, n)"
    by fastforce
  have "wrote_two B V m ?bs ?os (put_combo p x s)"
    using put_bin_wrote [OF Cons.prems] put_bin_wrote [OF put_ovf_wrote [OF Cons.prems]]
    by (simp add: put_combo_def bin_word_def ovf_word_def near_def wn)
  from Cons.IH [OF this] show ?case
    by (simp add: bin_words_def ovf_words_def split: if_splits)
qed (simp add: bin_words_def ovf_words_def)

section \<open>Reading it back\<close>

text \<open>The parameters of a run: \<open>bitSize\<close> between 2 and 10 and a clamped mean.\<close>

definition combo_ok :: "combo_par \<Rightarrow> bool" where
  "combo_ok p \<longleftrightarrow> 2 \<le> cp_bitSize p \<and> cp_bitSize p \<le> 10 \<and> -127 \<le> cp_mean p \<and> cp_mean p \<le> 127 \<and>
     cp_xMin p = cp_mean p - 2 ^ (cp_bitSize p - 1) \<and> cp_xMax p = cp_mean p + 2 ^ (cp_bitSize p - 1) - 1"

definition valid_combo :: "int \<Rightarrow> bool" where
  "valid_combo x \<longleftrightarrow> -32000 \<le> x \<and> x \<le> 32000"

lemma combo_ok_bounds:
  assumes "combo_ok p"
  obtains h where "2 ^ cp_bitSize p = 2 * h" "2 \<le> h" "h \<le> 512"
    "cp_xMin p = cp_mean p - h" "cp_xMax p = cp_mean p + h - 1"
proof -
  define d where "d = cp_bitSize p - 2"
  have d: "cp_bitSize p = d + 2" "d \<le> 8"
    using assms by (auto simp: combo_ok_def d_def)
  have "(1::int) \<le> 2 ^ d" "(2::int) ^ d \<le> 256"
    using power_increasing [of d 8 "2::int"] d by simp_all
  with assms d show thesis
    by (intro that [of "2 * 2 ^ d"]) (simp_all add: combo_ok_def)
qed

lemma flagVal_eq: "combo_ok p \<Longrightarrow> flagVal (cp_bitSize p) = 2 ^ cp_bitSize p - 1"
  by (erule combo_ok_bounds) (simp add: flagVal_def u16_id is_u16_def)

lemma overflow_val_facts:
  assumes "combo_ok p" "valid_combo x" "\<not> near p x"
  shows "0 < overflow_val p x" "overflow_val p x < 65536" "overflow_sample p (overflow_val p x) = x"
proof -
  obtain h where h: "2 \<le> h" "h \<le> 512" "cp_xMin p = cp_mean p - h" "cp_xMax p = cp_mean p + h - 1"
    using combo_ok_bounds [OF assms(1)] by metis
  have mean: "-127 \<le> cp_mean p" "cp_mean p \<le> 127"
    using assms(1) by (simp_all add: combo_ok_def)
  have x: "s16 x = x" "-32000 \<le> x" "x \<le> 32000"
    using assms(2) by (auto simp: valid_combo_def s16_id is_s16_def)
  show "0 < overflow_val p x" "overflow_val p x < 65536" "overflow_sample p (overflow_val p x) = x"
  proof (atomize (full), cases "x \<ge> cp_xMax p")
    case True
    define k where "k = x - cp_xMax p"
    have k: "0 \<le> k" "2 * k + 1 < 65536" "x = cp_xMax p + k"
      using True h mean x by (simp_all add: k_def)
    then have v: "overflow_val p x = 2 * k + 1"
      using True by (simp add: overflow_val_def u16_id is_u16_def flip: k_def)
    have "overflow_sample p (2 * k + 1) = s16 (cp_xMax p + k)"
      by (simp add: overflow_sample_def and_one_eq drop_bit_eq_div)
    with k v x(1) show "0 < overflow_val p x \<and> overflow_val p x < 65536 \<and> overflow_sample p (overflow_val p x) = x"
      by simp
  next
    case False
    then have low: "x \<le> cp_xMin p"
      using assms(3) by (simp add: near_def)
    define k where "k = cp_xMin p - x"
    have k: "0 \<le> k" "2 * k + 2 < 65536" "x = cp_xMin p - k"
      using low h mean x by (simp_all add: k_def)
    then have v: "overflow_val p x = 2 * k + 2"
      using False by (simp add: overflow_val_def u16_id is_u16_def flip: k_def)
    have "overflow_sample p (2 * k + 2) = s16 (cp_xMin p - k)"
      by (simp add: overflow_sample_def and_one_eq drop_bit_eq_div)
    with k v x(1) show "0 < overflow_val p x \<and> overflow_val p x < 65536 \<and> overflow_sample p (overflow_val p x) = x"
      by simp
  qed
qed

lemma ovf_word_facts:
  assumes "combo_ok p" "valid_combo x" "\<not> near p x"
  obtains w n where "ovf_word p x = (w, n)" "code_word w n" "int (unfibonacci w) = overflow_val p x"
proof -
  note v = overflow_val_facts [OF assms]
  have "code_word (fst (ovf_word p x)) (snd (ovf_word p x))" "unfibonacci (fst (ovf_word p x)) = nat (overflow_val p x)"
    using encode_code_word [of "nat (overflow_val p x)"] unfibonacci_fibonacci [of "nat (overflow_val p x)"] v(1,2)
    by (simp_all add: ovf_word_def)
  with v(1) show thesis
    by (intro that [of "fst (ovf_word p x)" "snd (ovf_word p x)"]) simp_all
qed

lemma fib_scan_none: "(\<And>k. t \<le> k \<Longrightarrow> k < 32 \<Longrightarrow> \<not> bit fred k) \<Longrightarrow> t \<le> 32 \<Longrightarrow> fib_scan fred t = Some 32"
proof (induction "32 - t" arbitrary: t)
  case (Suc n)
  then have "fib_scan fred (t + 1) = Some 32"
    by (intro Suc.hyps(1)) auto
  with Suc show ?case
    by (subst fib_scan_unfold) auto
qed (simp add: fib_scan_unfold)

text \<open>The overflow stream, with 32 zero bits behind it.\<close>

lemma read_overflow_stream:
  assumes "combo_ok p" "\<forall>x\<in>set xs. valid_combo x \<and> \<not> near p x" "length vs + length xs \<le> 256" "ob < 8"
    and "holds_stream m (8 * oc + ob) (stream_bits (map (ovf_word p) xs) @ replicate 32 False)"
  shows "read_overflow p m oc ob vs = Some (vs @ xs)"
  using assms
proof (induction xs arbitrary: oc ob vs)
  case Nil
  have "fib_scan (load32s m oc) ob = Some 32"
  proof (rule fib_scan_none)
    fix k assume k: "ob \<le> k" "k < 32"
    then obtain i where i: "k = ob + i" "i < 32"
      using le_Suc_ex by force
    then have "\<not> mbit m (8 * oc + ob + i)"
      using Nil.prems(5) by (simp add: holds_stream_def)
    with i k show "\<not> bit (load32s m oc) k"
      by (simp add: bit_load32s add.assoc)
  qed (use Nil.prems(4) in simp)
  with Nil.prems(3) show ?case
    by (subst read_overflow.simps) simp
next
  case (Cons x xs)
  have x: "valid_combo x" "\<not> near p x"
    using Cons.prems(2) by simp_all
  obtain w n where wn: "ovf_word p x = (w, n)" "code_word w n" "int (unfibonacci w) = overflow_val p x"
    using ovf_word_facts [OF Cons.prems(1) x] .
  have n: "2 \<le> n" "n \<le> 24" "w < 2 ^ n"
    using wn(2) by (simp_all add: code_word_def)
  have holds: "holds_stream m (8 * oc + ob) (code_bits (w, n))"
    "holds_stream m (8 * oc + ob + n) (stream_bits (map (ovf_word p) xs) @ replicate 32 False)"
    using Cons.prems(5) wn(1) by (simp_all add: holds_stream_append)
  have scan: "fib_scan (load32s m oc) ob = Some (ob + n - 2)"
    by (rule fib_scan_code_word [OF wn(2)])
      (use holds(1) n Cons.prems(4) in \<open>auto simp: holds_stream_def code_bits_def bit_load32s add.assoc\<close>)
  have "s32 v = v" if "0 \<le> v" "v < 2 ^ n" for v
    using that n(2) power_increasing [of n 24 "2::int"]
    by (simp add: s32_def signed_take_bit_int_eq_self)
  then have read: "extractBits s32 (load32s m oc) ob n = int w"
    by (rule extractBits_holds [OF _ holds(1) n(3)]) (use n Cons.prems(4) in auto)
  have "int w < 2 ^ 24"
    using n power_increasing [of n 24 "2::nat"] by (simp add: of_nat_less_iff [of w, symmetric] del: of_nat_less_iff)
  then have w32: "nat (u32 (int w)) = w"
    by (simp add: u32_id is_u32_def)
  have arith: "ob + n - 2 < 32" "ob + n - 2 \<noteq> 32" "Suc (Suc (ob + n - 2)) = ob + n" "ob + n \<noteq> 32"
    using n Cons.prems(4) by simp_all
  have pos: "8 * (oc + (ob + n) div 8) + (ob + n) mod 8 = 8 * oc + ob + n"
    by simp
  have "read_overflow p m (oc + (ob + n) div 8) ((ob + n) mod 8) (vs @ [x]) = Some ((vs @ [x]) @ xs)"
    by (rule Cons.IH) (use Cons.prems holds(2) pos in \<open>simp_all add: ac_simps\<close>)
  moreover have "read_overflow p m oc ob vs = read_overflow p m (oc + (ob + n) div 8) ((ob + n) mod 8) (vs @ [x])"
    using Cons.prems(3) overflow_val_facts(3) [OF Cons.prems(1) x]
    by (subst read_overflow.simps) (simp add: scan arith read w32 wn(3) Let_def)
  ultimately show ?case by simp
qed

text \<open>The binary stream, with the overflow values at hand.\<close>

lemma bin_word_facts:
  assumes "combo_ok p" "valid_combo x"
  shows "fst (bin_word p x) < 2 ^ cp_bitSize p"
    and "(int (fst (bin_word p x)) = flagVal (cp_bitSize p)) = (\<not> near p x)"
    and "near p x \<Longrightarrow> s16 (cp_mean p + unbifurcate (int (fst (bin_word p x)))) = x"
proof -
  obtain h where h: "2 ^ cp_bitSize p = 2 * h" "2 \<le> h" "h \<le> 512"
    "cp_xMin p = cp_mean p - h" "cp_xMax p = cp_mean p + h - 1"
    using combo_ok_bounds [OF assms(1)] .
  note flag = flagVal_eq [OF assms(1), unfolded h(1)]
  have nat_pow: "k < 2 ^ cp_bitSize p \<longleftrightarrow> int k < 2 * h" for k :: nat
    by (metis h(1) of_nat_less_iff of_nat_numeral of_nat_power)
  have close: "int (fst (bin_word p x)) = bifurcate (x - cp_mean p)" "bifurcate (x - cp_mean p) < 2 * h - 1"
    "s16 (cp_mean p + unbifurcate (bifurcate (x - cp_mean p))) = x" if "near p x"
  proof -
    have d: "- h < x - cp_mean p" "x - cp_mean p < h - 1"
      using that h by (auto simp: near_def)
    then have "s16 (x - cp_mean p) = x - cp_mean p"
      using h by (intro s16_id) (simp add: is_s16_def)
    then show "int (fst (bin_word p x)) = bifurcate (x - cp_mean p)"
      using that is_u16_bifurcate [of "x - cp_mean p"] by (simp add: bin_word_def is_u16_def)
    show "bifurcate (x - cp_mean p) < 2 * h - 1"
      using d h by (cases "0 \<le> x - cp_mean p") (simp_all add: bifurcate_nonneg bifurcate_neg)
    show "s16 (cp_mean p + unbifurcate (bifurcate (x - cp_mean p))) = x"
      using unbifurcate_bifurcate_inv [of "x - cp_mean p"] d h assms(2)
      by (simp add: s16_id is_s16_def valid_combo_def)
  qed
  show "fst (bin_word p x) < 2 ^ cp_bitSize p"
    using close flag h by (cases "near p x") (simp_all add: nat_pow, simp add: bin_word_def)
  show "(int (fst (bin_word p x)) = flagVal (cp_bitSize p)) = (\<not> near p x)"
    using close flag h by (cases "near p x") (simp_all, simp add: bin_word_def)
  show "near p x \<Longrightarrow> s16 (cp_mean p + unbifurcate (int (fst (bin_word p x)))) = x"
    using close by simp
qed

lemma decode_combo_stream:
  assumes "combo_ok p" "\<forall>x\<in>set xs. valid_combo x" "sampNum + length xs = MAX_NUMBER_SAMPLES"
    and "length ys = sampNum" "length zs = length xs" "cb < 8"
    and "holds_stream m (8 * cc + cb) (stream_bits (bin_words p xs))"
  shows "decode_combo p m (filter (\<lambda>x. \<not> near p x) xs @ rest) sampNum cc cb (ys @ zs) = Some (ys @ xs)"
  using assms
proof (induction xs arbitrary: sampNum cc cb ys zs)
  case Nil
  then show ?case
    by (simp add: decode_combo.simps)
next
  case (Cons x xs)
  obtain z zs' where zs: "zs = z # zs'" "length zs' = length xs"
    using Cons.prems(5) by (cases zs) auto
  let ?b = "cp_bitSize p"
  have b: "?b \<le> 10" and x: "valid_combo x"
    using Cons.prems(1,2) by (simp_all add: combo_ok_def)
  note facts = bin_word_facts [OF Cons.prems(1) x]
  have bw: "bin_word p x = (fst (bin_word p x), ?b)"
    by (simp add: bin_word_def)
  have holds: "holds_stream m (8 * cc + cb) (code_bits (fst (bin_word p x), ?b))"
    "holds_stream m (8 * cc + cb + ?b) (stream_bits (bin_words p xs))"
  proof -
    have "snd (bin_word p x) = ?b"
      by (simp add: bin_word_def)
    then show "holds_stream m (8 * cc + cb) (code_bits (fst (bin_word p x), ?b))"
      "holds_stream m (8 * cc + cb + ?b) (stream_bits (bin_words p xs))"
      using Cons.prems(7) bw by (simp_all add: bin_words_def holds_stream_append)
  qed
  have "u16 v = v" if "0 \<le> v" "v < 2 ^ ?b" for v
    using that b power_increasing [of ?b 16 "2::int"] by (intro u16_id) (simp add: is_u16_def)
  then have read: "extractBits u16 (load32s m cc) cb ?b = int (fst (bin_word p x))"
    by (rule extractBits_holds [OF _ holds(1) facts(1)]) (use b Cons.prems(6) in auto)
  have pos: "8 * (cc + (cb + ?b) div 8) + (cb + ?b) mod 8 = 8 * cc + cb + ?b"
    by simp
  have "decode_combo p m (filter (\<lambda>x. \<not> near p x) xs @ rest) (sampNum + 1) (cc + (cb + ?b) div 8)
      ((cb + ?b) mod 8) ((ys @ [x]) @ zs') = Some ((ys @ [x]) @ xs)"
    by (rule Cons.IH) (use Cons.prems zs holds(2) pos in \<open>simp_all add: ac_simps\<close>)
  then show ?case
    using Cons.prems(3,4) facts(2,3) zs(1)
    by (subst decode_combo.simps) (simp add: read advance_eq list_update_append1 Let_def)
qed

section \<open>The round trip\<close>

definition combo_par_of :: "SurfChannelPedSubbed_t \<Rightarrow> combo_par option" where
  "combo_par_of ch =
     do { mean \<leftarrow> clamp_mean (ps_mean ch); b \<leftarrow> combo_bitSize (ps_rms ch); combo_params mean b }"

definition valid_combo_channel :: "SurfChannelPedSubbed_t \<Rightarrow> bool" where
  \<comment> \<open>at most 256 samples overflow, and the bit size has an encoding type of its own\<close>
  "valid_combo_channel ch \<longleftrightarrow> length (ps_data ch) = MAX_NUMBER_SAMPLES \<and>
     (\<forall>x\<in>set (ps_data ch). valid_combo x) \<and>
     (case combo_par_of ch of None \<Rightarrow> False
      | Some p \<Rightarrow> 2 \<le> cp_bitSize p \<and> cp_bitSize p \<le> 10 \<and>
          length (filter (\<lambda>x. \<not> near p x) (ps_data ch)) \<le> 256)"

lemma clamp_mean_range: "clamp_mean r = Some mean \<Longrightarrow> -127 \<le> mean \<and> mean \<le> 127"
  by (auto simp: clamp_mean_def Let_def split: if_splits)

lemma combo_params_ok:
  assumes "combo_params mean b = Some p" "-127 \<le> mean" "mean \<le> 127" "2 \<le> b" "b \<le> 10"
  shows "combo_ok p" "cp_mean p = mean" "cp_bitSize p = b"
proof -
  have "(2::int) ^ (b - 1) \<le> 512"
    using assms(5) power_increasing [of "b - 1" 9 "2::int"] by simp
  then have "s16 (mean - 2 ^ (b - 1)) = mean - 2 ^ (b - 1)" "s16 (mean + 2 ^ (b - 1)) = mean + 2 ^ (b - 1)"
    "s16 (mean + 2 ^ (b - 1) - 1) = mean + 2 ^ (b - 1) - 1"
    using assms(2,3) zero_le_power [of "2::int" "b - 1"]
    by (auto intro!: s16_id simp: is_s16_def simp del: zero_le_power)
  with assms show "combo_ok p" "cp_mean p = mean" "cp_bitSize p = b"
    by (auto simp: combo_params_def combo_ok_def split: if_splits)
qed

lemma getBinFib_bits: "2 \<le> b \<Longrightarrow> b \<le> 10 \<Longrightarrow> getBinFibBitSize (getBinFibEncType (int b)) = b"
  using getBinFib_bitSize [of b] by simp

lemma stream_bits_ovf_length:
  assumes "combo_ok p" "\<forall>x\<in>set xs. valid_combo x \<and> \<not> near p x"
  shows "length (stream_bits (map (ovf_word p) xs)) \<le> 24 * length xs"
  using assms(2)
proof (induction xs)
  case (Cons x xs)
  obtain w n where "ovf_word p x = (w, n)" "code_word w n"
    by (rule ovf_word_facts [OF assms(1), of x]) (use Cons.prems in auto)
  with Cons show ?case
    by (simp add: code_word_def)
qed simp

lemma length_bin_words: "length (stream_bits (bin_words p xs)) = length xs * cp_bitSize p"
  by (induction xs) (simp_all add: bin_words_def bin_word_def)

lemma decode_encode_combo:
  assumes v: "valid_combo_channel ch" and z: "zeroed m buffer (buffer + 1100)"
  obtains m' n encType where "encodePSWaveLosslessBinFibCombo buffer ch m = Some (m', n, encType)"
    "n \<le> 1100" "same_outside m m' buffer (buffer + n)"
    "\<And>m'' ch'. same_inside m' m'' buffer (buffer + n) \<Longrightarrow> zeroed m'' (buffer + n) (buffer + n + 4) \<Longrightarrow>
      length (ps_data ch') = MAX_NUMBER_SAMPLES \<Longrightarrow>
      decodePSWaveLosslessBinFibCombo m'' buffer (int n) ch' encType =
        Some (COMPRESS_E_OK, ch'\<lparr>ps_data := ps_data ch\<rparr>)"
proof -
  obtain mean b p where mean: "clamp_mean (ps_mean ch) = Some mean" and b: "combo_bitSize (ps_rms ch) = Some b"
    and p: "combo_params mean b = Some p" and b2: "2 \<le> cp_bitSize p" "cp_bitSize p \<le> 10"
    and few: "length (filter (\<lambda>x. \<not> near p x) (ps_data ch)) \<le> 256"
    and data: "length (ps_data ch) = 260" "\<forall>x\<in>set (ps_data ch). valid_combo x"
    using v by (auto simp: valid_combo_channel_def combo_par_of_def bind_eq_Some_conv split: option.splits)
  have bp: "cp_bitSize p = b" and "b \<noteq> 0"
    using p by (auto simp: combo_params_def split: if_splits)
  note ok = combo_params_ok [OF p conjunct1 [OF clamp_mean_range [OF mean]]
      conjunct2 [OF clamp_mean_range [OF mean]] b2 [unfolded bp]]
  define xs where "xs = filter (\<lambda>x. \<not> near p x) (ps_data ch)"
  define B V where "B = 8 * (buffer + 1)" and "V = 8 * (buffer + 1) + 260 * b"
  define bs os where "bs = stream_bits (bin_words p (ps_data ch))" and "os = stream_bits (map (ovf_word p) xs)"
  define q r where "q = 260 * b div 8" and "r = 260 * b mod 8"
  have qr: "8 * q + r = 260 * b" "r < 8"
    unfolding q_def r_def by (rule mult_div_mod_eq) simp
  define init where "init = \<lparr>bin_pos = (buffer + 1, 0), ovf_pos = (buffer + 1 + q, r), combo_mem = store8 m buffer mean\<rparr>"
  define s where "s = fold (put_combo p) (ps_data ch) init"
  have "wrote_two B V (store8 m buffer mean) [] [] init"
    using qr by (auto simp: init_def wrote_two_def bitAt_def B_def V_def)
  from fold_put_combo [OF this, of p "ps_data ch"]
  have w: "wrote_two B V (store8 m buffer mean) bs os s"
    by (simp add: s_def bs_def os_def xs_def ovf_words_def)
  have len: "length bs = 260 * b" "length os \<le> 24 * 256"
    using data few stream_bits_ovf_length [OF ok(1), of xs] bp
    by (auto simp: bs_def os_def length_bin_words xs_def)
  obtain oc ob where o: "ovf_pos s = (oc, ob)"
    by fastforce
  have oc: "8 * oc + ob = V + length os" "ob < 8"
    using w o by (auto simp: wrote_two_def bitAt_def)
  define n where "n = (if ob \<noteq> 0 then oc + 1 else oc) - buffer"
  have n: "buffer + 1 \<le> oc" "V + length os \<le> 8 * (buffer + n)" "8 * (buffer + n) < V + length os + 8" "n \<le> 1100"
    using oc len b2 bp by (auto simp: n_def V_def)
  have enc: "encodePSWaveLosslessBinFibCombo buffer ch m = Some (combo_mem s, n, getBinFibEncType (int b))"
  proof -
    have "fold (put_combo p) (ps_data ch) \<lparr>bin_pos = (buffer + 1, 0), ovf_pos = (buffer + 1 + 260 * b div 8,
        260 * b mod 8), combo_mem = store8 m buffer mean\<rparr> = s"
      by (simp add: s_def init_def q_def r_def)
    with mean b p o show ?thesis
      by (simp add: encodePSWaveLosslessBinFibCombo_def Let_def n_def)
  qed
  have keep: "mbit (combo_mem s) q = mbit (store8 m buffer mean) q" if "q < B \<or> V + length os \<le> q" for q
    using w len(1) that by (auto simp: wrote_two_def B_def V_def)
  have out1: "same_outside (store8 m buffer mean) (combo_mem s) (buffer + 1) (buffer + n)"
    unfolding same_outside_def
    by (intro allI impI mem_eq_if_bits keep) (use n(2) in \<open>auto simp: B_def\<close>)
  have out: "same_outside m (combo_mem s) buffer (buffer + n)"
    using out1 n(1) by (auto simp: same_outside_def store8_def n_def)
  have zero: "\<not> mbit (store8 m buffer mean) q" if "B \<le> q" "q < 8 * (buffer + n)" for q
    using zeroed_mbit [of "store8 m buffer mean" "buffer + 1" "buffer + n" q] z n(4) that
    by (simp add: zeroed_def store8_def B_def)
  have bits: "mbit (combo_mem s) q \<longleftrightarrow> (q < V \<and> bs ! (q - B)) \<or> (V \<le> q \<and> q < V + length os \<and> os ! (q - V))"
    if "B \<le> q" "q < 8 * (buffer + n)" for q
    using w zero [OF that] that len(1) by (auto simp: wrote_two_def B_def V_def)
  have ld: "load8s (combo_mem s) buffer = mean"
    by (rule load8s_store8 [OF out1]) (use clamp_mean_range [OF mean] in \<open>auto simp: is_s8_def\<close>)
  show thesis
  proof (rule that [OF enc n(4) out])
    fix m'' and ch' :: SurfChannelPedSubbed_t
    assume same: "same_inside (combo_mem s) m'' buffer (buffer + n)" and pad: "zeroed m'' (buffer + n) (buffer + n + 4)"
      and ch': "length (ps_data ch') = MAX_NUMBER_SAMPLES"
    have same_bits: "mbit m'' q = mbit (combo_mem s) q" if "B \<le> q" "q < 8 * (buffer + n)" for q
      using same that by (simp add: mbit_def same_inside_def B_def less_eq_div_iff_mult_less_eq div_less_iff_less_mult)
    have hb: "holds_stream m'' (8 * (buffer + 1) + 0) bs"
      unfolding holds_stream_def
      using same_bits bits len(1) n(2) by (auto simp: B_def V_def)
    have ho: "holds_stream m'' V (os @ replicate 32 False)"
      unfolding holds_stream_def
    proof (intro allI impI)
      fix i assume i: "i < length (os @ replicate 32 False)"
      show "mbit m'' (V + i) = (os @ replicate 32 False) ! i"
      proof (cases "V + i < 8 * (buffer + n)")
        case True
        with i show ?thesis
          using same_bits [of "V + i"] bits [of "V + i"] by (auto simp: B_def V_def nth_append)
      next
        case False
        then have "\<not> i < length os" "8 * (buffer + n) \<le> V + i" "V + i < 8 * (buffer + n + 4)"
          using n(2) i by auto
        with zeroed_mbit [OF pad] i show ?thesis
          by (simp add: nth_append)
      qed
    qed
    have V: "V = 8 * (buffer + 1 + q) + r"
      using qr by (simp add: V_def)
    have vs: "read_overflow p m'' (buffer + 1 + q) r [] = Some ([] @ xs)"
      by (rule read_overflow_stream [OF ok(1)])
        (use ho few data qr(2) in \<open>auto simp: V os_def xs_def\<close>)
    have "decode_combo p m'' (xs @ []) 0 (buffer + 1) 0 ([] @ ps_data ch') = Some ([] @ ps_data ch)"
      unfolding xs_def
      by (rule decode_combo_stream [OF ok(1) data(2)])
        (use hb data ch' in \<open>simp_all add: bs_def\<close>)
    moreover have "load8s m'' buffer = mean"
      using load8u_inside [OF same, of buffer] n ld by (simp add: load8s_def n_def)
    ultimately show "decodePSWaveLosslessBinFibCombo m'' buffer (int n) ch' (getBinFibEncType (int b)) =
        Some (COMPRESS_E_OK, ch'\<lparr>ps_data := ps_data ch\<rparr>)"
      using vs p getBinFib_bits [of b] b2 bp
      unfolding decodePSWaveLosslessBinFibCombo_def Let_def q_def r_def by simp
  qed
qed

section \<open>Properties\<close>

text \<open>
  C36. The combined codec is lossless when at most 256 samples overflow the binary part and the
  bit size lies between 2 and 10, provided four zero bytes follow the encoded data: its decoder
  reads the overflow until a window of 32 bits holds no code word, past \<open>numBytes\<close>.
\<close>

theorem lossless_binfib_roundtrip:
  assumes "valid_combo_channel ch" "zeroed m buffer (buffer + 1104)" "length (ps_data ch') = MAX_NUMBER_SAMPLES"
  shows "\<exists>m' n encType. encodePSWaveLosslessBinFibCombo buffer ch m = Some (m', n, encType) \<and> n \<le> 1100 \<and>
    same_outside m m' buffer (buffer + n) \<and>
    decodePSWaveLosslessBinFibCombo m' buffer (int n) ch' encType =
      Some (COMPRESS_E_OK, ch'\<lparr>ps_data := ps_data ch\<rparr>)"
proof (rule decode_encode_combo [OF assms(1)])
  show "zeroed m buffer (buffer + 1100)"
    by (rule zeroed_mono [OF assms(2)]) auto
next
  fix m' n encType
  assume enc: "encodePSWaveLosslessBinFibCombo buffer ch m = Some (m', n, encType)"
    "n \<le> 1100" "same_outside m m' buffer (buffer + n)"
    and dec: "\<And>m'' ch'. same_inside m' m'' buffer (buffer + n) \<Longrightarrow> zeroed m'' (buffer + n) (buffer + n + 4) \<Longrightarrow>
      length (ps_data ch') = MAX_NUMBER_SAMPLES \<Longrightarrow>
      decodePSWaveLosslessBinFibCombo m'' buffer (int n) ch' encType =
        Some (COMPRESS_E_OK, ch'\<lparr>ps_data := ps_data ch\<rparr>)"
  have "zeroed m' (buffer + n) (buffer + n + 4)"
    by (rule zeroed_outside [OF zeroed_mono [OF assms(2)] enc(3)]) (use enc(2) in auto)
  with dec [OF same_inside_refl _ assms(3)] enc show ?thesis
    by blast
qed

theorem lossless_binfib_roundtrip_witness:
  "\<exists>m' n encType. encodePSWaveLosslessBinFibCombo 4 (example_channel (replicate 200 0 @ replicate 60 (-40))) (\<lambda>_. 0) =
      Some (m', n, encType) \<and>
    decodePSWaveLosslessBinFibCombo m' 4 (int n) (example_channel (replicate 260 0)) encType =
      Some (COMPRESS_E_OK, example_channel (replicate 200 0 @ replicate 60 (-40)))"
proof -
  let ?ch = "example_channel (replicate 200 0 @ replicate 60 (-40))"
  have "ceillog2 (2 ^ 2) = 2"
    by (rule ceillog2_2_power)
  then have "combo_bitSize 1 = Some 2"
    using log_bitSize_ceillog2 [of 3] by (simp add: combo_bitSize_def c_trunc_def)
  then have par: "combo_par_of ?ch = Some \<lparr>cp_mean = 0, cp_xMin = -2, cp_xMax = 1, cp_bitSize = 2\<rparr>"
    by (simp add: combo_par_of_def example_channel_def clamp_mean_def c_trunc_def combo_params_def
        s16_def signed_take_bit_eq_take_bit_shift)
  have "ps_data ?ch = replicate 200 0 @ replicate 60 (-40)"
    by (simp add: example_channel_def)
  then have "valid_combo_channel ?ch"
    unfolding valid_combo_channel_def par by (simp add: near_def valid_combo_def)
  then show ?thesis
    using lossless_binfib_roundtrip [of ?ch "\<lambda>_. 0" 4 "example_channel (replicate 260 0)"]
    by (auto simp: example_channel_def zeroed_def)
qed

end
