(* ===== verification/Checksum.thy ===== *)
theory Checksum
  imports Flight_Prelude "HOL-Library.Multiset"
begin

text \<open>
  The checksums of the flight software: \<open>simpleIntCrc\<close> (\<open>utilLib.c\<close>, packet headers),
  \<open>simpleCrcShort\<close> (\<open>compressLib.c\<close>, channel headers) and the three functions of
  \<open>sipcomLib/crc_simple.c\<close> (SIP and LOS telemetry). Each reads \<open>n\<close> words at the address
  \<open>p\<close>, adds them up at the width of its accumulator and returns the complement of the sum.
  The locale \<open>word_checksum\<close> is their contract: what such a checksum detects, and what not.
\<close>

section \<open>The functions\<close>

definition load64u :: "mem \<Rightarrow> nat \<Rightarrow> int" where
  "load64u m a = load32u m a + push_bit 32 (load32u m (a + 4))"

definition u64 :: "int \<Rightarrow> int" where "u64 x = take_bit 64 x"

definition simpleIntCrc :: "mem \<Rightarrow> nat \<Rightarrow> nat \<Rightarrow> int" where
  "simpleIntCrc m p n =
     u32 (u32 (0xffffffff - fold (\<lambda>i sum. u32 (sum + load32u m (p + 4 * i))) [0..<n] 0) + 1)"

definition simpleCrcShort :: "mem \<Rightarrow> nat \<Rightarrow> nat \<Rightarrow> int" where
  "simpleCrcShort m p n =
     u16 (0xffff - fold (\<lambda>i sum. u16 (sum + load16u m (p + 2 * i))) [0..<n] 0 + 1)"

definition crc_short :: "mem \<Rightarrow> nat \<Rightarrow> nat \<Rightarrow> int" where
  "crc_short m p n =
     u16 (0xffff - fold (\<lambda>i sum. u16 (sum + load16u m (p + 2 * i))) [0..<n] 0 + 1)"

definition crc_char :: "mem \<Rightarrow> nat \<Rightarrow> nat \<Rightarrow> int" where
  "crc_char m p n =
     u8 (0xff - fold (\<lambda>i sum. u8 (sum + load8u m (p + i))) [0..<n] 0 + 1)"

text \<open>\<open>unsigned long\<close> has 64 bits, the constant \<open>0xffffffff\<close> has 32.\<close>

definition crc_long :: "mem \<Rightarrow> nat \<Rightarrow> nat \<Rightarrow> int" where
  "crc_long m p n =
     u64 (u64 (0xffffffff - fold (\<lambda>i sum. u64 (sum + load64u m (p + 8 * i))) [0..<n] 0) + 1)"

section \<open>The contract\<close>

text \<open>
  \<open>crc ws\<close> is the checksum of the words \<open>ws\<close>, and \<open>total\<close> what the words and their
  checksum add up to modulo \<open>2 ^ width\<close>.
\<close>

locale word_checksum =
  fixes crc :: "int list \<Rightarrow> int"
    and width :: nat
    and total :: int
  assumes crc_sum: "crc ws = take_bit width (total - sum_list ws)"
begin

lemma verifies: "take_bit width (sum_list ws + crc ws) = take_bit width total"
  by (simp add: crc_sum take_bit_eq_mod mod_simps)

lemma crc_range: "0 \<le> crc ws \<and> crc ws < 2 ^ width"
  by (simp add: crc_sum)

lemma crc_eq_iff: "crc ws = crc ws' \<longleftrightarrow> take_bit width (sum_list ws) = take_bit width (sum_list ws')"
proof -
  have "crc ws = crc ws' \<longleftrightarrow> (2 ^ width) dvd (sum_list ws' - sum_list ws)"
    by (simp add: crc_sum take_bit_eq_mod mod_eq_dvd_iff algebra_simps)
  then show ?thesis
    by (simp add: take_bit_eq_mod mod_eq_dvd_iff) (metis dvd_minus_iff minus_diff_eq)
qed

text \<open>One wrong word is always detected.\<close>

lemma detects_one_word:
  assumes "i < length ws" "0 \<le> v" "v < 2 ^ width" "0 \<le> ws ! i" "ws ! i < 2 ^ width" "v \<noteq> ws ! i"
  shows "crc (ws[i := v]) \<noteq> crc ws"
proof
  assume "crc (ws[i := v]) = crc ws"
  then have "(2 ^ width) dvd (sum_list (ws[i := v]) - sum_list ws)"
    by (simp add: crc_eq_iff take_bit_eq_mod mod_eq_dvd_iff)
  moreover have "sum_list (ws[i := v]) - sum_list ws = v - ws ! i"
    using assms(1) by (induction ws arbitrary: i) (auto split: nat.splits)
  ultimately have "v mod 2 ^ width = ws ! i mod 2 ^ width"
    by (simp add: mod_eq_dvd_iff)
  with assms show False by simp
qed

text \<open>The order of the words, and words that are zero, are not.\<close>

lemma permuted: "mset ws = mset ws' \<Longrightarrow> crc ws = crc ws'"
  by (metis crc_sum sum_mset_sum_list)

lemma zero_words: "crc (ws @ replicate n 0) = crc ws"
  by (simp add: crc_sum sum_list_replicate)

end

section \<open>The functions meet the contract\<close>

lemma fold_sum_take_bit:
  "fold (\<lambda>i sum. take_bit w (sum + f i)) is (take_bit w s) = take_bit w (s + sum_list (map f is))" for s :: int
  by (induction "is" arbitrary: s) (simp_all add: take_bit_eq_mod mod_simps add.assoc)

lemma complement_u:
  "take_bit w (take_bit w (k - take_bit w s) + 1) = take_bit w (k + 1 - s)" for k s :: int
  by (simp add: take_bit_eq_mod mod_simps algebra_simps)

lemma complement_i: "take_bit w (k - take_bit w s + 1) = take_bit w (k + 1 - s)" for k s :: int
  by (simp add: take_bit_eq_mod mod_simps algebra_simps)

definition load_uints :: "mem \<Rightarrow> nat \<Rightarrow> nat \<Rightarrow> int list" where
  "load_uints m p n = map (\<lambda>i. load32u m (p + 4 * i)) [0..<n]"

definition load_uchars :: "mem \<Rightarrow> nat \<Rightarrow> nat \<Rightarrow> int list" where
  "load_uchars m p n = map (\<lambda>i. load8u m (p + i)) [0..<n]"

definition load_ulongs :: "mem \<Rightarrow> nat \<Rightarrow> nat \<Rightarrow> int list" where
  "load_ulongs m p n = map (\<lambda>i. load64u m (p + 8 * i)) [0..<n]"

definition crc_of :: "nat \<Rightarrow> int \<Rightarrow> int list \<Rightarrow> int" where
  "crc_of width tot ws = take_bit width (tot - sum_list ws)"

interpretation intCrc: word_checksum "crc_of 32 (2 ^ 32)" 32 "2 ^ 32"
  by unfold_locales (simp add: crc_of_def)

interpretation shortCrc: word_checksum "crc_of 16 (2 ^ 16)" 16 "2 ^ 16"
  by unfold_locales (simp add: crc_of_def)

interpretation charCrc: word_checksum "crc_of 8 (2 ^ 8)" 8 "2 ^ 8"
  by unfold_locales (simp add: crc_of_def)

interpretation longCrc: word_checksum "crc_of 64 (2 ^ 32)" 64 "2 ^ 32"
  by unfold_locales (simp add: crc_of_def)

lemma simpleIntCrc_words: "simpleIntCrc m p n = crc_of 32 (2 ^ 32) (load_uints m p n)"
  using fold_sum_take_bit [of 32 "\<lambda>i. load32u m (p + 4 * i)" "[0..<n]" 0]
    complement_u [of 32 "0xffffffff" "sum_list (load_uints m p n)"]
  by (simp add: simpleIntCrc_def crc_of_def load_uints_def u32_def)

lemma simpleCrcShort_words: "simpleCrcShort m p n = crc_of 16 (2 ^ 16) (load_ushorts m p n)"
  using fold_sum_take_bit [of 16 "\<lambda>i. load16u m (p + 2 * i)" "[0..<n]" 0]
    complement_i [of 16 "0xffff" "sum_list (load_ushorts m p n)"]
  by (simp add: simpleCrcShort_def crc_of_def load_ushorts_def u16_def)

lemma crc_short_words: "crc_short m p n = crc_of 16 (2 ^ 16) (load_ushorts m p n)"
  using simpleCrcShort_words [of m p n] by (simp add: simpleCrcShort_def crc_short_def)

lemma crc_char_words: "crc_char m p n = crc_of 8 (2 ^ 8) (load_uchars m p n)"
  using fold_sum_take_bit [of 8 "\<lambda>i. load8u m (p + i)" "[0..<n]" 0]
    complement_i [of 8 "0xff" "sum_list (load_uchars m p n)"]
  by (simp add: crc_char_def crc_of_def load_uchars_def u8_def)

lemma crc_long_words: "crc_long m p n = crc_of 64 (2 ^ 32) (load_ulongs m p n)"
  using fold_sum_take_bit [of 64 "\<lambda>i. load64u m (p + 8 * i)" "[0..<n]" 0]
    complement_u [of 64 "0xffffffff" "sum_list (load_ulongs m p n)"]
  by (simp add: crc_long_def crc_of_def load_ulongs_def u64_def)

section \<open>Properties\<close>

lemma load_uints_store:
  assumes "i < n"
  shows "load_uints (store32 m (p + 4 * i) v) p n = (load_uints m p n)[i := u32 v]"
proof (rule nth_equalityI)
  fix j assume "j < length (load_uints (store32 m (p + 4 * i) v) p n)"
  then have "j < n" by (simp add: load_uints_def)
  moreover have "load32u (store32 m (p + 4 * i) v) (p + 4 * j) = load32u m (p + 4 * j)" if "j \<noteq> i"
    using that by (intro load_store_other(9)) linarith
  ultimately show "load_uints (store32 m (p + 4 * i) v) p n ! j = (load_uints m p n)[i := u32 v] ! j"
    by (cases "j = i") (simp_all add: load_uints_def nth_list_update)
qed (simp add: load_uints_def)

lemma is_u32_load32u: "is_u32 (load32u m a)"
proof -
  have "take_bit 32 (load32u m a) = load32u m a"
    by (rule bit_eqI) (auto simp: bit_take_bit_iff bit_load32u)
  then show ?thesis
    by (metis is_u32_u32 u32_def)
qed

text \<open>
  The packet checksum \<open>simpleIntCrc\<close> detects every change of a single 32-bit word of the
  words it covers.
\<close>

theorem packet_crc_detects:
  assumes "i < n" "u32 v \<noteq> load32u m (p + 4 * i)"
  shows "simpleIntCrc (store32 m (p + 4 * i) v) p n \<noteq> simpleIntCrc m p n"
  unfolding simpleIntCrc_words load_uints_store [OF assms(1)]
  by (rule intCrc.detects_one_word)
    (use assms is_u32_load32u [of m "p + 4 * i"] is_u32_u32 [of v] in \<open>auto simp: load_uints_def is_u32_def\<close>)

theorem packet_crc_detects_witness:
  "simpleIntCrc (store32 (\<lambda>_. 0) 8 77) 0 5 \<noteq> simpleIntCrc (\<lambda>_. 0) 0 5"
  using packet_crc_detects [of 2 5 77 "\<lambda>_. 0" 0] by (simp add: load32u_def load16u_def u32_def)

text \<open>
  It does not detect reordered words: the checksum depends on the multiset of the words only.
\<close>

theorem packet_crc_order:
  assumes "mset (load_uints m p n) = mset (load_uints m' p' n)"
  shows "simpleIntCrc m p n = simpleIntCrc m' p' n"
  unfolding simpleIntCrc_words using assms by (rule intCrc.permuted)

theorem packet_crc_order_witness:
  "simpleIntCrc (\<lambda>a. if a = 0 then 9 else 0) 0 2 = simpleIntCrc (\<lambda>a. if a = 4 then 9 else 0) 0 2"
  by (rule packet_crc_order) (simp add: load_uints_def load32u_def load16u_def upt_rec)

end
