(* ===== verification/Packets.thy ===== *)
theory Packets
  imports Checksum
begin

text \<open>
  The packets of \<open>src/common/utilLib/utilLib.c\<close> and \<open>src/common/includes/anitaStructures.h\<close>:
  the 16-byte \<open>GenericHeader_t\<close> in front of all data (\<open>fillGenericHeader\<close>), the check of
  a received packet (\<open>checkPacket\<close>), and the names and masks of the flight programs.
  A header is laid out in the byte memory: \<open>code\<close> at 0, \<open>packetNumber\<close> at 4,
  \<open>numBytes\<close> at 8, \<open>feByte\<close> at 10, \<open>verId\<close> at 11, \<open>checksum\<close> at 12.
  The size the compiler gives to a packet structure is the parameter \<open>sizeof\<close>.
\<close>

section \<open>Packet codes\<close>

datatype PacketCode_t =
    PACKET_BD
  | PACKET_HD
  | PACKET_WV
  | PACKET_SURF
  | PACKET_HD_SLAC
  | PACKET_SURF_HK
  | PACKET_TURF_RATE
  | PACKET_AVG_SURF_HK
  | PACKET_SUM_TURF_RATE
  | PACKET_TURF_REGISTER
  | PACKET_TURF_EVENT_DATA
  | PACKET_PEDSUB_WV
  | PACKET_ENC_SURF
  | PACKET_ENC_SURF_PEDSUB
  | PACKET_ENC_EVENT_WRAPPER
  | PACKET_PED_SUBBED_EVENT
  | PACKET_ENC_WV_PEDSUB
  | PACKET_ENC_PEDSUB_EVENT_WRAPPER
  | PACKET_PEDSUB_SURF
  | PACKET_LAB_PED
  | PACKET_FULL_PED
  | PACKET_GPS_ADU5_PAT
  | PACKET_GPS_ADU5_SAT
  | PACKET_GPS_ADU5_VTG
  | PACKET_GPS_G12_POS
  | PACKET_GPS_G12_SAT
  | PACKET_GPS_GGA
  | PACKET_HKD
  | PACKET_HKD_SS
  | PACKET_CMD_ECHO
  | PACKET_MONITOR
  | PACKET_WAKEUP_LOS
  | PACKET_WAKEUP_HIGHRATE
  | PACKET_WAKEUP_COMM1
  | PACKET_WAKEUP_COMM2
  | PACKET_SLOW1
  | PACKET_SLOW2
  | PACKET_SLOW_FULL
  | PACKET_ZIPPED_PACKET
  | PACKET_ZIPPED_FILE
  | PACKET_RUN_START
  | PACKET_OTHER_MONITOR
  | PACKET_GPSD_START
  | PACKET_LOGWATCHD_START
  | PACKET_ACQD_START
  | PACKET_GPU_AVE_POW_SPEC
  | PACKET_RTLSDR_POW_SPEC
  | PACKET_TUFF_STATUS
  | PACKET_TUFF_RAW_CMD

primrec packet_code :: "PacketCode_t \<Rightarrow> int" where
  "packet_code PACKET_BD = 0xff"
| "packet_code PACKET_HD = 0x100"
| "packet_code PACKET_WV = 0x101"
| "packet_code PACKET_SURF = 0x102"
| "packet_code PACKET_HD_SLAC = 0x103"
| "packet_code PACKET_SURF_HK = 0x110"
| "packet_code PACKET_TURF_RATE = 0x111"
| "packet_code PACKET_AVG_SURF_HK = 0x112"
| "packet_code PACKET_SUM_TURF_RATE = 0x113"
| "packet_code PACKET_TURF_REGISTER = 0x114"
| "packet_code PACKET_TURF_EVENT_DATA = 0x115"
| "packet_code PACKET_PEDSUB_WV = 0x120"
| "packet_code PACKET_ENC_SURF = 0x121"
| "packet_code PACKET_ENC_SURF_PEDSUB = 0x122"
| "packet_code PACKET_ENC_EVENT_WRAPPER = 0x123"
| "packet_code PACKET_PED_SUBBED_EVENT = 0x124"
| "packet_code PACKET_ENC_WV_PEDSUB = 0x125"
| "packet_code PACKET_ENC_PEDSUB_EVENT_WRAPPER = 0x126"
| "packet_code PACKET_PEDSUB_SURF = 0x127"
| "packet_code PACKET_LAB_PED = 0x130"
| "packet_code PACKET_FULL_PED = 0x131"
| "packet_code PACKET_GPS_ADU5_PAT = 0x200"
| "packet_code PACKET_GPS_ADU5_SAT = 0x201"
| "packet_code PACKET_GPS_ADU5_VTG = 0x202"
| "packet_code PACKET_GPS_G12_POS = 0x203"
| "packet_code PACKET_GPS_G12_SAT = 0x204"
| "packet_code PACKET_GPS_GGA = 0x205"
| "packet_code PACKET_HKD = 0x300"
| "packet_code PACKET_HKD_SS = 0x301"
| "packet_code PACKET_CMD_ECHO = 0x400"
| "packet_code PACKET_MONITOR = 0x500"
| "packet_code PACKET_WAKEUP_LOS = 0x600"
| "packet_code PACKET_WAKEUP_HIGHRATE = 0x601"
| "packet_code PACKET_WAKEUP_COMM1 = 0x602"
| "packet_code PACKET_WAKEUP_COMM2 = 0x603"
| "packet_code PACKET_SLOW1 = 0x700"
| "packet_code PACKET_SLOW2 = 0x800"
| "packet_code PACKET_SLOW_FULL = 0x801"
| "packet_code PACKET_ZIPPED_PACKET = 0x900"
| "packet_code PACKET_ZIPPED_FILE = 0xa00"
| "packet_code PACKET_RUN_START = 0xb00"
| "packet_code PACKET_OTHER_MONITOR = 0xb01"
| "packet_code PACKET_GPSD_START = 0xc00"
| "packet_code PACKET_LOGWATCHD_START = 0xc01"
| "packet_code PACKET_ACQD_START = 0xc02"
| "packet_code PACKET_GPU_AVE_POW_SPEC = 0xd"
| "packet_code PACKET_RTLSDR_POW_SPEC = 0xe00"
| "packet_code PACKET_TUFF_STATUS = 0xf00"
| "packet_code PACKET_TUFF_RAW_CMD = 0xf01"

definition all_packets :: "PacketCode_t list" where
  "all_packets = [PACKET_BD, PACKET_HD, PACKET_WV,
     PACKET_SURF, PACKET_HD_SLAC, PACKET_SURF_HK,
     PACKET_TURF_RATE, PACKET_AVG_SURF_HK, PACKET_SUM_TURF_RATE,
     PACKET_TURF_REGISTER, PACKET_TURF_EVENT_DATA, PACKET_PEDSUB_WV,
     PACKET_ENC_SURF, PACKET_ENC_SURF_PEDSUB, PACKET_ENC_EVENT_WRAPPER,
     PACKET_PED_SUBBED_EVENT, PACKET_ENC_WV_PEDSUB, PACKET_ENC_PEDSUB_EVENT_WRAPPER,
     PACKET_PEDSUB_SURF, PACKET_LAB_PED, PACKET_FULL_PED,
     PACKET_GPS_ADU5_PAT, PACKET_GPS_ADU5_SAT, PACKET_GPS_ADU5_VTG,
     PACKET_GPS_G12_POS, PACKET_GPS_G12_SAT, PACKET_GPS_GGA,
     PACKET_HKD, PACKET_HKD_SS, PACKET_CMD_ECHO,
     PACKET_MONITOR, PACKET_WAKEUP_LOS, PACKET_WAKEUP_HIGHRATE,
     PACKET_WAKEUP_COMM1, PACKET_WAKEUP_COMM2, PACKET_SLOW1,
     PACKET_SLOW2, PACKET_SLOW_FULL, PACKET_ZIPPED_PACKET,
     PACKET_ZIPPED_FILE, PACKET_RUN_START, PACKET_OTHER_MONITOR,
     PACKET_GPSD_START, PACKET_LOGWATCHD_START, PACKET_ACQD_START,
     PACKET_GPU_AVE_POW_SPEC, PACKET_RTLSDR_POW_SPEC, PACKET_TUFF_STATUS,
     PACKET_TUFF_RAW_CMD]"

text \<open>The enumerator that \<open>switch(code&BASE_PACKET_MASK)\<close> selects.\<close>

definition base_packet :: "int \<Rightarrow> PacketCode_t option" where
  "base_packet code = map_of (map (\<lambda>p. (packet_code p, p)) all_packets) (code AND 0xffff)"

definition packet_verId :: "PacketCode_t \<Rightarrow> int" where
  "packet_verId p = (case p of
     PACKET_BD \<Rightarrow> 40
   | PACKET_HD \<Rightarrow> 41
   | PACKET_HD_SLAC \<Rightarrow> 40
   | PACKET_WV \<Rightarrow> 40
   | PACKET_SURF \<Rightarrow> 40
   | PACKET_SURF_HK \<Rightarrow> 41
   | PACKET_TURF_RATE \<Rightarrow> 42
   | PACKET_AVG_SURF_HK \<Rightarrow> 41
   | PACKET_SUM_TURF_RATE \<Rightarrow> 42
   | PACKET_TURF_REGISTER \<Rightarrow> 40
   | PACKET_LAB_PED \<Rightarrow> 40
   | PACKET_FULL_PED \<Rightarrow> 40
   | PACKET_ENC_WV_PEDSUB \<Rightarrow> 40
   | PACKET_ENC_SURF \<Rightarrow> 40
   | PACKET_PED_SUBBED_EVENT \<Rightarrow> 40
   | PACKET_GPS_ADU5_PAT \<Rightarrow> 40
   | PACKET_GPS_ADU5_SAT \<Rightarrow> 40
   | PACKET_GPS_ADU5_VTG \<Rightarrow> 40
   | PACKET_GPS_G12_POS \<Rightarrow> 40
   | PACKET_GPS_G12_SAT \<Rightarrow> 40
   | PACKET_GPS_GGA \<Rightarrow> 40
   | PACKET_HKD \<Rightarrow> 40
   | PACKET_HKD_SS \<Rightarrow> 40
   | PACKET_CMD_ECHO \<Rightarrow> 40
   | PACKET_MONITOR \<Rightarrow> 41
   | PACKET_SLOW1 \<Rightarrow> 40
   | PACKET_SLOW2 \<Rightarrow> 40
   | PACKET_SLOW_FULL \<Rightarrow> 40
   | PACKET_ZIPPED_FILE \<Rightarrow> 40
   | PACKET_ZIPPED_PACKET \<Rightarrow> 40
   | PACKET_RUN_START \<Rightarrow> 40
   | PACKET_OTHER_MONITOR \<Rightarrow> 41
   | PACKET_GPSD_START \<Rightarrow> 40
   | PACKET_LOGWATCHD_START \<Rightarrow> 40
   | PACKET_ACQD_START \<Rightarrow> 41
   | PACKET_GPU_AVE_POW_SPEC \<Rightarrow> 40
   | PACKET_RTLSDR_POW_SPEC \<Rightarrow> 40
   | PACKET_TUFF_STATUS \<Rightarrow> 40
   | PACKET_TUFF_RAW_CMD \<Rightarrow> 40
   | _ \<Rightarrow> 0)"

text \<open>
  The \<open>switch\<close> of \<open>checkPacket\<close>: \<open>None\<close> for a code it does not know, 0 for a packet
  without a fixed size.
\<close>

definition packet_size :: "(string \<Rightarrow> int) \<Rightarrow> PacketCode_t \<Rightarrow> int option" where
  "packet_size sizeof p = (case p of
     PACKET_BD \<Rightarrow> Some (sizeof ''AnitaEventBody_t'')
   | PACKET_HD \<Rightarrow> Some (sizeof ''AnitaEventHeader_t'')
   | PACKET_WV \<Rightarrow> Some (sizeof ''RawWaveformPacket_t'')
   | PACKET_PEDSUB_WV \<Rightarrow> Some (sizeof ''PedSubbedWaveformPacket_t'')
   | PACKET_PEDSUB_SURF \<Rightarrow> Some (sizeof ''PedSubbedSurfPacket_t'')
   | PACKET_SURF \<Rightarrow> Some (sizeof ''RawSurfPacket_t'')
   | PACKET_SURF_HK \<Rightarrow> Some (sizeof ''FullSurfHkStruct_t'')
   | PACKET_TURF_RATE \<Rightarrow> Some (sizeof ''TurfRateStruct_t'')
   | PACKET_TURF_REGISTER \<Rightarrow> Some (sizeof ''TurfRegisterContents_t'')
   | PACKET_AVG_SURF_HK \<Rightarrow> Some (sizeof ''AveragedSurfHkStruct_t'')
   | PACKET_SUM_TURF_RATE \<Rightarrow> Some (sizeof ''SummedTurfRateStruct_t'')
   | PACKET_ENC_WV_PEDSUB \<Rightarrow> Some 0
   | PACKET_ENC_SURF \<Rightarrow> Some 0
   | PACKET_ENC_SURF_PEDSUB \<Rightarrow> Some 0
   | PACKET_PED_SUBBED_EVENT \<Rightarrow> Some (sizeof ''PedSubbedEventBody_t'')
   | PACKET_LAB_PED \<Rightarrow> Some (sizeof ''FullLabChipPedStruct_t'')
   | PACKET_FULL_PED \<Rightarrow> Some (sizeof ''FullPedStruct_t'')
   | PACKET_GPS_ADU5_PAT \<Rightarrow> Some (sizeof ''GpsAdu5PatStruct_t'')
   | PACKET_GPS_ADU5_SAT \<Rightarrow> Some (sizeof ''GpsAdu5SatStruct_t'')
   | PACKET_GPS_ADU5_VTG \<Rightarrow> Some (sizeof ''GpsAdu5VtgStruct_t'')
   | PACKET_GPS_G12_POS \<Rightarrow> Some (sizeof ''GpsG12PosStruct_t'')
   | PACKET_GPS_G12_SAT \<Rightarrow> Some (sizeof ''GpsG12SatStruct_t'')
   | PACKET_GPS_GGA \<Rightarrow> Some (sizeof ''GpsGgaStruct_t'')
   | PACKET_HKD \<Rightarrow> Some (sizeof ''HkDataStruct_t'')
   | PACKET_HKD_SS \<Rightarrow> Some (sizeof ''SSHkDataStruct_t'')
   | PACKET_CMD_ECHO \<Rightarrow> Some (sizeof ''CommandEcho_t'')
   | PACKET_MONITOR \<Rightarrow> Some (sizeof ''MonitorStruct_t'')
   | PACKET_WAKEUP_LOS \<Rightarrow> Some 4000
   | PACKET_WAKEUP_HIGHRATE \<Rightarrow> Some 500
   | PACKET_WAKEUP_COMM1 \<Rightarrow> Some 100
   | PACKET_WAKEUP_COMM2 \<Rightarrow> Some 100
   | PACKET_SLOW1 \<Rightarrow> Some (sizeof ''SlowRateType1_t'')
   | PACKET_SLOW2 \<Rightarrow> Some (sizeof ''SlowRateType1_t'')
   | PACKET_SLOW_FULL \<Rightarrow> Some (sizeof ''SlowRateFull_t'')
   | PACKET_RUN_START \<Rightarrow> Some (sizeof ''RunStart_t'')
   | PACKET_OTHER_MONITOR \<Rightarrow> Some (sizeof ''OtherMonitorStruct_t'')
   | PACKET_ZIPPED_PACKET \<Rightarrow> Some 0
   | PACKET_ZIPPED_FILE \<Rightarrow> Some 0
   | PACKET_GPSD_START \<Rightarrow> Some (sizeof ''GpsdStartStruct_t'')
   | PACKET_LOGWATCHD_START \<Rightarrow> Some (sizeof ''LogWatchdStart_t'')
   | PACKET_ACQD_START \<Rightarrow> Some (sizeof ''AcqdStartStruct_t'')
   | PACKET_GPU_AVE_POW_SPEC \<Rightarrow> Some (sizeof ''GpuPhiSectorPowerSpectrumStruct_t'')
   | PACKET_TUFF_STATUS \<Rightarrow> Some (sizeof ''TuffNotchStatus_t'')
   | PACKET_TUFF_RAW_CMD \<Rightarrow> Some (sizeof ''TuffRawCmd_t'')
   | PACKET_RTLSDR_POW_SPEC \<Rightarrow> Some (sizeof ''RtlSdrPowerSpectraStruct_t'')
   | _ \<Rightarrow> None)"

definition packetCodeAsString :: "int \<Rightarrow> string" where
  "packetCodeAsString code = (case base_packet code of
     None \<Rightarrow> ''Unknown Packet Code''
   | Some p \<Rightarrow> (case p of
     PACKET_BD \<Rightarrow> ''AnitaEventBody_t''
   | PACKET_HD \<Rightarrow> ''AnitaEventHeader_t''
   | PACKET_WV \<Rightarrow> ''RawWaveformPacket_t''
   | PACKET_PEDSUB_WV \<Rightarrow> ''PedSubbedWaveformPacket_t''
   | PACKET_SURF \<Rightarrow> ''RawSurfPacket_t''
   | PACKET_PEDSUB_SURF \<Rightarrow> ''PedSubbedSurfPacket_t''
   | PACKET_SURF_HK \<Rightarrow> ''FullSurfHkStruct_t''
   | PACKET_TURF_RATE \<Rightarrow> ''TurfRateStruct_t''
   | PACKET_LAB_PED \<Rightarrow> ''FullLabChipPedStruct_t''
   | PACKET_FULL_PED \<Rightarrow> ''FullPedStruct_t''
   | PACKET_ENC_WV_PEDSUB \<Rightarrow> ''EncodedPedSubbedChannelPacketHeader_t''
   | PACKET_ENC_SURF \<Rightarrow> ''EncodedSurfPacketHeader_t''
   | PACKET_ENC_SURF_PEDSUB \<Rightarrow> ''EncodedPedSubbedSurfPacketHeader_t''
   | PACKET_GPS_ADU5_PAT \<Rightarrow> ''GpsAdu5PatStruct_t''
   | PACKET_GPS_ADU5_SAT \<Rightarrow> ''GpsAdu5SatStruct_t''
   | PACKET_GPS_ADU5_VTG \<Rightarrow> ''GpsAdu5VtgStruct_t''
   | PACKET_GPS_G12_POS \<Rightarrow> ''GpsG12PosStruct_t''
   | PACKET_GPS_G12_SAT \<Rightarrow> ''GpsG12SatStruct_t''
   | PACKET_HKD \<Rightarrow> ''HkDataStruct_t''
   | PACKET_HKD_SS \<Rightarrow> ''SSHkDataStruct_t''
   | PACKET_CMD_ECHO \<Rightarrow> ''CommandEcho_t''
   | PACKET_MONITOR \<Rightarrow> ''MonitorStruct_t''
   | PACKET_WAKEUP_LOS \<Rightarrow> ''LosWakeUpPacket''
   | PACKET_WAKEUP_HIGHRATE \<Rightarrow> ''TdrssWakeUpPacket''
   | PACKET_WAKEUP_COMM1 \<Rightarrow> ''Comm1WakeUpPacket''
   | PACKET_WAKEUP_COMM2 \<Rightarrow> ''Comm2WakeUpPacket''
   | PACKET_SLOW1 \<Rightarrow> ''SlowRateType1_t''
   | PACKET_SLOW2 \<Rightarrow> ''SlowRateType1_t''
   | PACKET_ZIPPED_PACKET \<Rightarrow> ''ZippedPacket_t''
   | PACKET_ZIPPED_FILE \<Rightarrow> ''ZippedFile_t''
   | PACKET_RUN_START \<Rightarrow> ''RunStart_t''
   | PACKET_OTHER_MONITOR \<Rightarrow> ''OtherMonitorStruct_t''
   | PACKET_GPSD_START \<Rightarrow> ''GpsdStartStruct_t''
   | PACKET_LOGWATCHD_START \<Rightarrow> ''LogWatchdStart_t''
   | PACKET_ACQD_START \<Rightarrow> ''AcqdStartStruct_t''
   | PACKET_GPU_AVE_POW_SPEC \<Rightarrow> ''GpuPhiSectorPowerSpectrumStruct_t''
   | PACKET_GPS_GGA \<Rightarrow> ''GpsGgaStruct_t''
   | PACKET_AVG_SURF_HK \<Rightarrow> ''AveragedSurfHkStruct_t''
   | PACKET_SUM_TURF_RATE \<Rightarrow> ''SummedTurfRateStruct_t''
   | PACKET_RTLSDR_POW_SPEC \<Rightarrow> ''RtlSdrPowerSpectraStruct_t''
   | PACKET_TUFF_STATUS \<Rightarrow> ''TuffNotchStatus_t''
   | PACKET_TUFF_RAW_CMD \<Rightarrow> ''TuffRawCmd_t''
   | _ \<Rightarrow> ''Unknown Packet Code''))"

section \<open>The generic header\<close>

text \<open>
  \<open>intBytes=(numBytes-sizeof(GenericHeader_t))/4\<close> is computed in the 64-bit unsigned
  \<open>size_t\<close> and stored in an \<open>unsigned int\<close>.
\<close>

definition intBytes :: "int \<Rightarrow> nat" where
  "intBytes numBytes = nat (u32 (((numBytes - 16) mod 2 ^ 64) div 4))"

definition fillGenericHeader :: "nat \<Rightarrow> int \<Rightarrow> int \<Rightarrow> mem \<Rightarrow> mem" where
  "fillGenericHeader thePtr code numBytes m =
     (let numBytes = u16 numBytes; n = intBytes numBytes; dataPtr = thePtr + 16;
          m = store32 m thePtr code;
          m = store16 m (thePtr + 8) numBytes;
          m = store8 m (thePtr + 10) 0xfe;
          m = store8 m (thePtr + 11) (case base_packet code of None \<Rightarrow> 0 | Some p \<Rightarrow> packet_verId p)
      in store32 m (thePtr + 12) (simpleIntCrc m dataPtr n))"

definition PKT_E_CHECKSUM :: int where "PKT_E_CHECKSUM = 0x1"
definition PKT_E_CODE :: int where "PKT_E_CODE = 0x2"
definition PKT_E_FEBYTE :: int where "PKT_E_FEBYTE = 0x4"
definition PKT_E_SIZE :: int where "PKT_E_SIZE = 0x8"

lemmas pkt_e_defs = PKT_E_CHECKSUM_def PKT_E_CODE_def PKT_E_FEBYTE_def PKT_E_SIZE_def

definition checkPacket :: "(string \<Rightarrow> int) \<Rightarrow> mem \<Rightarrow> nat \<Rightarrow> int" where
  "checkPacket sizeof m thePtr =
     (let retVal = 0; numBytes = load16u m (thePtr + 8);
          n = intBytes numBytes;
          checksum = (if n < 4000 then simpleIntCrc m (thePtr + 16) n else 0);
          retVal = (if checksum \<noteq> load32u m (thePtr + 12) then retVal + PKT_E_CHECKSUM else retVal);
          size = (case base_packet (load32u m thePtr) of None \<Rightarrow> None | Some p \<Rightarrow> packet_size sizeof p);
          retVal = (case size of None \<Rightarrow> retVal + PKT_E_CODE | Some _ \<Rightarrow> retVal);
          packetSize = (case size of None \<Rightarrow> 0 | Some s \<Rightarrow> s);
          retVal = (if packetSize \<noteq> 0 \<and> packetSize \<noteq> numBytes then retVal + PKT_E_SIZE else retVal)
      in if load8u m (thePtr + 10) \<noteq> 0xfe then retVal + PKT_E_FEBYTE else retVal)"

section \<open>The flight programs\<close>

datatype ProgramId_t =
    ID_ACQD
  | ID_ARCHIVED
  | ID_CALIBD
  | ID_CMDD
  | ID_EVENTD
  | ID_GPSD
  | ID_HKD
  | ID_LOSD
  | ID_PRIORITIZERD
  | ID_SIPD
  | ID_MONITORD
  | ID_PLAYBACKD
  | ID_LOGWATCHD
  | ID_NTUD
  | ID_OPENPORTD
  | ID_RTLD
  | ID_TUFFD
  | ID_NOT_AN_ID

definition getIdMask :: "ProgramId_t \<Rightarrow> int" where
  "getIdMask prog = (case prog of
     ID_ACQD \<Rightarrow> 0x001
   | ID_ARCHIVED \<Rightarrow> 0x002
   | ID_CALIBD \<Rightarrow> 0x004
   | ID_CMDD \<Rightarrow> 0x008
   | ID_EVENTD \<Rightarrow> 0x010
   | ID_GPSD \<Rightarrow> 0x020
   | ID_HKD \<Rightarrow> 0x040
   | ID_LOSD \<Rightarrow> 0x080
   | ID_PRIORITIZERD \<Rightarrow> 0x100
   | ID_SIPD \<Rightarrow> 0x200
   | ID_MONITORD \<Rightarrow> 0x400
   | ID_PLAYBACKD \<Rightarrow> 0x800
   | ID_LOGWATCHD \<Rightarrow> 0x1000
   | ID_NTUD \<Rightarrow> 0x2000
   | ID_OPENPORTD \<Rightarrow> 0x4000
   | ID_RTLD \<Rightarrow> 0x8000
   | ID_TUFFD \<Rightarrow> 0x10000
   | _ \<Rightarrow> 0)"

definition getProgName :: "ProgramId_t \<Rightarrow> string option" where
  "getProgName prog = (case prog of
     ID_ACQD \<Rightarrow> Some ''Acqd''
   | ID_ARCHIVED \<Rightarrow> Some ''Archived''
   | ID_CALIBD \<Rightarrow> Some ''Calibd''
   | ID_CMDD \<Rightarrow> Some ''Cmdd''
   | ID_EVENTD \<Rightarrow> Some ''Eventd''
   | ID_GPSD \<Rightarrow> Some ''GPSd''
   | ID_HKD \<Rightarrow> Some ''Hkd''
   | ID_LOSD \<Rightarrow> Some ''LOSd''
   | ID_PRIORITIZERD \<Rightarrow> Some ''Prioritizerd''
   | ID_SIPD \<Rightarrow> Some ''SIPd''
   | ID_MONITORD \<Rightarrow> Some ''Monitord''
   | ID_PLAYBACKD \<Rightarrow> Some ''Playbackd''
   | ID_LOGWATCHD \<Rightarrow> Some ''LogWatchd''
   | ID_NTUD \<Rightarrow> Some ''NTUd''
   | ID_OPENPORTD \<Rightarrow> Some ''Openportd''
   | ID_RTLD \<Rightarrow> Some ''RTLd''
   | ID_TUFFD \<Rightarrow> Some ''Tuffd''
   | _ \<Rightarrow> None)"

definition getPidFile :: "ProgramId_t \<Rightarrow> string option" where
  "getPidFile prog = (case prog of
     ID_ACQD \<Rightarrow> Some ''/tmp/anita/pid/acqd.pid''
   | ID_ARCHIVED \<Rightarrow> Some ''/tmp/anita/pid/archived.pid''
   | ID_CALIBD \<Rightarrow> Some ''/tmp/anita/pid/calibd.pid''
   | ID_CMDD \<Rightarrow> Some ''/tmp/anita/pid/cmdd.pid''
   | ID_EVENTD \<Rightarrow> Some ''/tmp/anita/pid/eventd.pid''
   | ID_GPSD \<Rightarrow> Some ''/tmp/anita/pid/gpsd.pid''
   | ID_HKD \<Rightarrow> Some ''/tmp/anita/pid/hkd.pid''
   | ID_LOSD \<Rightarrow> Some ''/tmp/anita/pid/losd.pid''
   | ID_PRIORITIZERD \<Rightarrow> Some ''/tmp/anita/pid/prioritizerd.pid''
   | ID_SIPD \<Rightarrow> Some ''/tmp/anita/pid/sipd.pid''
   | ID_MONITORD \<Rightarrow> Some ''/tmp/anita/pid/monitord.pid''
   | ID_PLAYBACKD \<Rightarrow> Some ''/tmp/anita/pid/playbackd.pid''
   | ID_LOGWATCHD \<Rightarrow> Some ''/tmp/anita/pid/logwatchd.pid''
   | ID_NTUD \<Rightarrow> Some ''/tmp/anita/pid/ntud.pid''
   | ID_OPENPORTD \<Rightarrow> Some ''/tmp/anita/pid/openportd.pid''
   | ID_RTLD \<Rightarrow> Some ''/tmp/anita/pid/rtld.pid''
   | ID_TUFFD \<Rightarrow> Some ''/tmp/anita/pid/tuffd.pid''
   | _ \<Rightarrow> None)"

definition getCommandName :: "ProgramId_t \<Rightarrow> string" where
  "getCommandName ident = (case ident of
     ID_ACQD \<Rightarrow> ''Acqd''
   | ID_ARCHIVED \<Rightarrow> ''Archived''
   | ID_CALIBD \<Rightarrow> ''Calibd''
   | ID_CMDD \<Rightarrow> ''Cmdd''
   | ID_EVENTD \<Rightarrow> ''Eventd''
   | ID_GPSD \<Rightarrow> ''GPSd''
   | ID_HKD \<Rightarrow> ''Hkd''
   | ID_LOSD \<Rightarrow> ''LOSd''
   | ID_PRIORITIZERD \<Rightarrow> ''Prioritizerd''
   | ID_SIPD \<Rightarrow> ''SIPd''
   | ID_MONITORD \<Rightarrow> ''Monitord''
   | ID_PLAYBACKD \<Rightarrow> ''Playbackd''
   | ID_NTUD \<Rightarrow> ''NTUd''
   | ID_OPENPORTD \<Rightarrow> ''Openportd''
   | ID_RTLD \<Rightarrow> ''RTLd''
   | ID_TUFFD \<Rightarrow> ''Tuffd''
   | _ \<Rightarrow> ''Badd'')"

section \<open>What a filled header checks to\<close>

lemma load_uints_cong:
  assumes "same_outside m m' b c" "a + 4 * n \<le> b \<or> c \<le> a"
  shows "load_uints m' a n = load_uints m a n"
  using assms by (auto simp: load_uints_def intro!: load32u_cong [OF assms(1)])

lemma simpleIntCrc_cong:
  "same_outside m m' b c \<Longrightarrow> a + 4 * n \<le> b \<or> c \<le> a \<Longrightarrow> simpleIntCrc m' a n = simpleIntCrc m a n"
  by (simp add: simpleIntCrc_words load_uints_cong)

lemma intBytes_eq: "16 \<le> k \<Longrightarrow> k < 65536 \<Longrightarrow> intBytes k = nat ((k - 16) div 4)"
  unfolding intBytes_def by (subst u32_id) (auto simp: is_u32_def)

lemma is_u32_crc: "u32 (simpleIntCrc m p n) = simpleIntCrc m p n"
  by (simp add: simpleIntCrc_def u32_def)

lemma base_packet_u32: "base_packet (u32 code) = base_packet code"
proof -
  have "u32 code AND 0xffff = code AND 0xffff"
  proof -
    have low: "x AND 0xffff = take_bit 16 x" for x :: int
      by (simp add: take_bit_eq_mask mask_eq_exp_minus_1)
    show ?thesis
      unfolding low u32_def by simp
  qed
  then show ?thesis by (simp add: base_packet_def)
qed

lemma fillGenericHeader_outside: "same_outside m (fillGenericHeader p code numBytes m) p (p + 16)"
  by (simp add: fillGenericHeader_def Let_def same_outside_def store32_def store16_def store8_def)

lemma fillGenericHeader_fields:
  "load32u (fillGenericHeader p code numBytes m) p = u32 code"
  "load32u (fillGenericHeader p code numBytes m) (p + 4) = load32u m (p + 4)"
  "load16u (fillGenericHeader p code numBytes m) (p + 8) = u16 numBytes"
  "load8u (fillGenericHeader p code numBytes m) (p + 10) = 0xfe"
  "load8u (fillGenericHeader p code numBytes m) (p + 11) =
     (case base_packet code of None \<Rightarrow> 0 | Some q \<Rightarrow> u8 (packet_verId q))"
  "load32u (fillGenericHeader p code numBytes m) (p + 12) =
     simpleIntCrc m (p + 16) (intBytes (u16 numBytes))"
proof -
  have crc: "simpleIntCrc (store8 (store8 (store16 (store32 m p code) (p + 8) v) (p + 10) 0xfe) (p + 11) w)
      (p + 16) k = simpleIntCrc m (p + 16) k" for k v w
    by (rule simpleIntCrc_cong [of _ _ p "p + 16"])
      (simp_all add: same_outside_def store32_def store16_def store8_def)
  show "load32u (fillGenericHeader p code numBytes m) p = u32 code"
    "load32u (fillGenericHeader p code numBytes m) (p + 4) = load32u m (p + 4)"
    "load16u (fillGenericHeader p code numBytes m) (p + 8) = u16 numBytes"
    "load8u (fillGenericHeader p code numBytes m) (p + 10) = 0xfe"
    by (simp_all add: fillGenericHeader_def Let_def mem_simps u8_id is_u8_def u16_id)
  show "load8u (fillGenericHeader p code numBytes m) (p + 11) =
      (case base_packet code of None \<Rightarrow> 0 | Some q \<Rightarrow> u8 (packet_verId q))"
    by (simp add: fillGenericHeader_def Let_def mem_simps u8_id is_u8_def split: option.split)
  show "load32u (fillGenericHeader p code numBytes m) (p + 12) =
      simpleIntCrc m (p + 16) (intBytes (u16 numBytes))"
    by (simp add: fillGenericHeader_def Let_def crc is_u32_crc)
qed

lemma checkPacket_filled:
  assumes "16 \<le> numBytes" "numBytes < 65536"
  shows "checkPacket sizeof (fillGenericHeader p code numBytes m) p =
    (if numBytes < 16016 \<or> simpleIntCrc m (p + 16) (nat ((numBytes - 16) div 4)) = 0
     then 0 else PKT_E_CHECKSUM) +
    (case Option.bind (base_packet code) (packet_size sizeof) of None \<Rightarrow> PKT_E_CODE
     | Some s \<Rightarrow> if s \<noteq> 0 \<and> s \<noteq> numBytes then PKT_E_SIZE else 0)"
proof -
  let ?m = "fillGenericHeader p code numBytes m"
  have n: "u16 numBytes = numBytes" "intBytes numBytes = nat ((numBytes - 16) div 4)"
    using assms by (simp_all add: u16_id is_u16_def intBytes_eq)
  have crc: "simpleIntCrc ?m (p + 16) k = simpleIntCrc m (p + 16) k" for k
    by (rule simpleIntCrc_cong [OF fillGenericHeader_outside]) simp
  have small: "nat ((numBytes - 16) div 4) < 4000 \<longleftrightarrow> numBytes < 16016"
    by (auto simp: nat_less_iff)
  show ?thesis
    unfolding checkPacket_def Let_def fillGenericHeader_fields n crc small base_packet_u32
    by (auto simp: pkt_e_defs split: option.splits)
qed

section \<open>Properties\<close>

text \<open>
  A packet whose generic header was filled passes \<open>checkPacket\<close>: for every code that
  \<open>checkPacket\<close> knows and every length below the 4000 words that it is ready to add up, when
  the length is the size of the packet's structure or the code has no fixed size.
\<close>

theorem packet_check_accepts:
  assumes "16 \<le> numBytes" "numBytes < 16016" "base_packet code = Some p"
    and "packet_size sizeof p = Some s" "s = 0 \<or> s = numBytes"
  shows "checkPacket sizeof (fillGenericHeader a code numBytes m) a = 0"
  using assms by (subst checkPacket_filled) auto

theorem packet_check_accepts_witness:
  "checkPacket (\<lambda>s. 100) (fillGenericHeader 8 0x100 100 (\<lambda>_. 7)) 8 = 0"
  by (rule packet_check_accepts [where p = PACKET_HD and s = 100])
    (simp_all add: base_packet_def all_packets_def packet_size_def)

lemma odd_packet_flags:
  "odd (checkPacket sizeof m a) \<longleftrightarrow>
    (if intBytes (load16u m (a + 8)) < 4000 then simpleIntCrc m (a + 16) (intBytes (load16u m (a + 8))) else 0)
      \<noteq> load32u m (a + 12)"
  by (simp add: checkPacket_def Let_def pkt_e_defs split: option.split)

text \<open>
  Changing one 32-bit word behind the header of a filled packet of less than 4000 words sets
  the checksum flag of \<open>checkPacket\<close>.
\<close>

theorem packet_check_corrupt:
  assumes "16 \<le> numBytes" "numBytes < 16016" "i < nat ((numBytes - 16) div 4)"
    and "u32 v \<noteq> load32u m (a + 16 + 4 * i)"
  shows "odd (checkPacket sizeof (store32 (fillGenericHeader a code numBytes m) (a + 16 + 4 * i) v) a)"
proof -
  let ?m1 = "fillGenericHeader a code numBytes m" and ?n = "nat ((numBytes - 16) div 4)"
  let ?m2 = "store32 ?m1 (a + 16 + 4 * i) v"
  have n: "u16 numBytes = numBytes" "intBytes numBytes = ?n" "?n < 4000"
    using assms(1,2) by (simp_all add: u16_id is_u16_def intBytes_eq nat_less_iff)
  have m1: "simpleIntCrc ?m1 (a + 16) k = simpleIntCrc m (a + 16) k" for k
    by (rule simpleIntCrc_cong [OF fillGenericHeader_outside]) simp
  have "load32u ?m1 (a + 16 + 4 * i) = load32u m (a + 16 + 4 * i)"
    by (rule load32u_cong [OF fillGenericHeader_outside]) simp
  then have "simpleIntCrc ?m2 (a + 16) ?n \<noteq> simpleIntCrc ?m1 (a + 16) ?n"
    unfolding simpleIntCrc_words load_uints_store [OF assms(3)]
    by (intro intCrc.detects_one_word)
      (use assms(3,4) is_u32_load32u is_u32_u32 in \<open>auto simp: load_uints_def is_u32_def\<close>)
  moreover have "load32u ?m2 (a + 12) = simpleIntCrc m (a + 16) ?n" "load16u ?m2 (a + 8) = numBytes"
    by (simp_all add: mem_simps fillGenericHeader_fields n)
  ultimately show ?thesis
    by (simp add: odd_packet_flags n m1)
qed

theorem packet_check_corrupt_witness:
  "odd (checkPacket (\<lambda>s. 100) (store32 (fillGenericHeader 8 0x100 100 (\<lambda>_. 0)) 32 5) 8)"
  using packet_check_corrupt [of 100 2 5 "\<lambda>_. 0" 8] by (simp add: load32u_def load16u_def u32_def)

text \<open>
  From 4000 words on \<open>checkPacket\<close> does not add up the words, and reports a checksum error
  for a packet that is intact, unless its checksum is zero.
\<close>

theorem packet_check_large:
  assumes "16016 \<le> numBytes" "numBytes < 65536"
  shows "odd (checkPacket sizeof (fillGenericHeader a code numBytes m) a) \<longleftrightarrow>
    simpleIntCrc m (a + 16) (nat ((numBytes - 16) div 4)) \<noteq> 0"
proof -
  have "u16 numBytes = numBytes" "intBytes numBytes = nat ((numBytes - 16) div 4)"
    using assms by (simp_all add: u16_id is_u16_def intBytes_eq)
  moreover have "\<not> nat ((numBytes - 16) div 4) < 4000"
    using assms(1) by (auto simp: nat_less_iff)
  ultimately show ?thesis
    by (auto simp: odd_packet_flags fillGenericHeader_fields)
qed

theorem packet_check_large_witness:
  "odd (checkPacket (\<lambda>s. 0) (fillGenericHeader 0 0x124 16016 (store32 (\<lambda>_. 0) 16 1)) 0)"
proof -
  have "load_uints (\<lambda>_. 0) 16 4000 = replicate 4000 0"
    by (simp add: load_uints_def load32u_def load16u_def map_replicate_const)
  then have "load_uints (store32 (\<lambda>_. 0) 16 1) 16 4000 = (replicate 4000 0)[0 := 1]"
    using load_uints_store [of 0 4000 "\<lambda>_. 0" 16 1] by (simp add: u32_def)
  moreover have "0 < n \<Longrightarrow> sum_list ((replicate n 0)[0 := (1 :: int)]) = 1" for n
    by (cases n) (simp_all add: sum_list_replicate)
  ultimately have "simpleIntCrc (store32 (\<lambda>_. 0) 16 1) 16 4000 = 2 ^ 32 - 1"
    by (simp add: simpleIntCrc_words crc_of_def take_bit_eq_mod del: list_update.simps replicate.simps)
  then show ?thesis
    using packet_check_large [where numBytes = 16016 and a = 0 and m = "store32 (\<lambda>_. 0) 16 1" and code = "0x124" and sizeof = "\<lambda>s. 0"]
    by simp
qed

lemma and_0xffff: "x AND 0xffff = x mod 65536" for x :: int
  using take_bit_eq_mask [of 16 x] by (simp add: mask_eq_exp_minus_1 take_bit_eq_mod)

text \<open>
  Every packet code, with any auxiliary code in its upper half, is recognised as its own
  packet.
\<close>

theorem packet_code_recognised: "base_packet (packet_code p + 65536 * aux) = Some p"
proof -
  have "(packet_code p + 65536 * aux) AND 0xffff = packet_code p"
    by (cases p) (simp_all add: and_0xffff)
  then show ?thesis
    by (cases p) (simp_all add: base_packet_def all_packets_def)
qed

text \<open>The masks of two flight programs have no bit in common, and each program has a bit.\<close>

theorem program_masks_disjoint:
  "getIdMask p AND getIdMask q = (if p = q then getIdMask p else 0) \<and> (getIdMask p = 0 \<longleftrightarrow> p = ID_NOT_AN_ID)"
  by (cases p; cases q; simp add: getIdMask_def)

end
