(* ===== verification/Channel_Codec.thy ===== *)
theory Channel_Codec
  imports BinFib_Codec Packets
begin

text \<open>
  The channel layer of \<open>compressLib.c\<close>: the encoded channel is a 12-byte
  \<open>EncodedSurfChannelHeader_t\<close> (raw header at 0, \<open>encType\<close> at 4, \<open>numBytes\<close> at 8,
  \<open>crc\<close> at 10) followed by the encoded waveform. The encoding type selects the waveform
  codec; the decoder verifies the checksum first and recomputes the statistics of the channel
  last. \<open>encodeChannel\<close>, \<open>decodeChannel\<close> are the versions for raw channels.
\<close>

section \<open>The switches over the encoding type\<close>

definition enc_wave :: "ChannelEncodingType_t \<Rightarrow> nat \<Rightarrow> SurfChannelPedSubbed_t \<Rightarrow> mem \<Rightarrow>
    (mem \<times> nat \<times> ChannelEncodingType_t) option" where
  "enc_wave encType buffer ch m =
     (if encType = ENCODE_NONE then with_type encType (Some (encodePSWaveNone buffer ch m))
      else if encType = ENCODE_LOSSLESS_12BIT then with_type encType (Some (encodePSWave12bitBinary buffer ch m))
      else if encType = ENCODE_LOSSLESS_BINARY then encodePSWaveLosslessBinary buffer ch m
      else if encType = ENCODE_LOSSLESS_FIBONACCI then
        with_type encType (encodePSWaveLosslessFibonacci buffer ch m)
      else if encType = ENCODE_LOSSLESS_BINFIB_COMBO then encodePSWaveLosslessBinFibCombo buffer ch m
      else if encType = ENCODE_LOSSY_MULAW \<or> encType = ENCODE_LOSSY_MULAW_8BIT then
        encodePSWaveLossyMulawOptimally buffer ch 8 m
      else if encType = ENCODE_LOSSY_MULAW_7BIT then encodePSWaveLossyMulawOptimally buffer ch 7 m
      else if encType = ENCODE_LOSSY_MULAW_6BIT then encodePSWaveLossyMulawOptimally buffer ch 6 m
      else if encType = ENCODE_LOSSY_MULAW_5BIT then encodePSWaveLossyMulawOptimally buffer ch 5 m
      else if encType = ENCODE_LOSSY_MULAW_4BIT then encodePSWaveLossyMulawOptimally buffer ch 4 m
      else if encType = ENCODE_LOSSY_MULAW_3BIT then encodePSWaveLossyMulawOptimally buffer ch 3 m
      else with_type ENCODE_NONE (Some (encodePSWaveNone buffer ch m)))"

definition binary_types :: "ChannelEncodingType_t set" where
  "binary_types = {ENCODE_LOSSLESS_11BIT, ENCODE_LOSSLESS_10BIT, ENCODE_LOSSLESS_9BIT,
     ENCODE_LOSSLESS_8BIT, ENCODE_LOSSLESS_7BIT, ENCODE_LOSSLESS_6BIT, ENCODE_LOSSLESS_5BIT,
     ENCODE_LOSSLESS_4BIT, ENCODE_LOSSLESS_3BIT, ENCODE_LOSSLESS_2BIT, ENCODE_LOSSLESS_1BIT}"

definition binfib_types :: "ChannelEncodingType_t set" where
  "binfib_types = {ENCODE_LOSSLESS_BINFIB_COMBO, ENCODE_LOSSLESS_BINFIB_10BIT,
     ENCODE_LOSSLESS_BINFIB_9BIT, ENCODE_LOSSLESS_BINFIB_8BIT, ENCODE_LOSSLESS_BINFIB_7BIT,
     ENCODE_LOSSLESS_BINFIB_6BIT, ENCODE_LOSSLESS_BINFIB_5BIT, ENCODE_LOSSLESS_BINFIB_4BIT,
     ENCODE_LOSSLESS_BINFIB_3BIT, ENCODE_LOSSLESS_BINFIB_2BIT, ENCODE_LOSSLESS_BINFIB_1BIT}"

definition mulaw_types :: "ChannelEncodingType_t set" where
  "mulaw_types = {ENCODE_LOSSY_MULAW_11_8, ENCODE_LOSSY_MULAW_11_7, ENCODE_LOSSY_MULAW_11_6,
     ENCODE_LOSSY_MULAW_11_5, ENCODE_LOSSY_MULAW_11_4, ENCODE_LOSSY_MULAW_11_3,
     ENCODE_LOSSY_MULAW_10_8, ENCODE_LOSSY_MULAW_10_7, ENCODE_LOSSY_MULAW_10_6,
     ENCODE_LOSSY_MULAW_10_5, ENCODE_LOSSY_MULAW_10_4, ENCODE_LOSSY_MULAW_10_3,
     ENCODE_LOSSY_MULAW_9_7, ENCODE_LOSSY_MULAW_9_6, ENCODE_LOSSY_MULAW_9_5,
     ENCODE_LOSSY_MULAW_9_4, ENCODE_LOSSY_MULAW_9_3, ENCODE_LOSSY_MULAW_8_6,
     ENCODE_LOSSY_MULAW_8_5, ENCODE_LOSSY_MULAW_8_4, ENCODE_LOSSY_MULAW_8_3,
     ENCODE_LOSSY_MULAW_7_5, ENCODE_LOSSY_MULAW_7_4, ENCODE_LOSSY_MULAW_7_3,
     ENCODE_LOSSY_MULAW_6_4, ENCODE_LOSSY_MULAW_6_3}"

definition dec_wave :: "mem \<Rightarrow> nat \<Rightarrow> int \<Rightarrow> SurfChannelPedSubbed_t \<Rightarrow> ChannelEncodingType_t \<Rightarrow>
    (CompressErrorCode_t \<times> SurfChannelPedSubbed_t) option" where
  "dec_wave m input numBytes ch encType =
     (if encType = ENCODE_NONE then Some (decodePSWaveNone m input numBytes ch)
      else if encType = ENCODE_LOSSLESS_12BIT then Some (decodePSWave12bitBinary m input numBytes ch)
      else if encType \<in> binary_types then decodePSWaveLosslessBinary m input numBytes ch encType
      else if encType = ENCODE_LOSSLESS_FIBONACCI then decodePSWaveLosslessFibonacci m input numBytes ch
      else if encType \<in> binfib_types then decodePSWaveLosslessBinFibCombo m input numBytes ch encType
      else if encType \<in> mulaw_types then decodePSWaveLossyMuLaw m input numBytes ch encType
      else Some (COMPRESS_E_BAD_CODE, snd (decodePSWaveNone m input numBytes ch)))"

section \<open>The statistics of a channel\<close>

text \<open>
  \<open>fillMinMaxMeanRMS\<close>. The samples are those outside the hit bus window, in ring order.
  The \<open>float\<close> sums are computed in the reals.
\<close>

definition sample_ring :: "RawSurfChannelHeader_t \<Rightarrow> nat list" where
  "sample_ring h =
     (let wrappedHitbus = chipIdFlag h AND 8 \<noteq> 0;
          firstSamp = (if wrappedHitbus then firstHitbus h + 1 else lastHitbus h + 1);
          lastSamp = (if wrappedHitbus then lastHitbus h else int MAX_NUMBER_SAMPLES + firstHitbus h)
      in map (\<lambda>samp. if samp \<ge> MAX_NUMBER_SAMPLES then samp - MAX_NUMBER_SAMPLES else samp)
           [nat firstSamp..<nat lastSamp])"

record stats =
  st_mean :: real
  st_meanSq :: real
  st_nsamps :: real
  st_xMax :: int
  st_xMin :: int

definition stats_step :: "int list \<Rightarrow> nat \<Rightarrow> stats \<Rightarrow> stats" where
  "stats_step dat index s =
     (let x = dat ! index in
      \<lparr>st_mean = st_mean s + real_of_int x, st_meanSq = st_meanSq s + real_of_int (x * x),
       st_nsamps = st_nsamps s + 1,
       st_xMax = (if x > st_xMax s then x else st_xMax s),
       st_xMin = (if x < st_xMin s then x else st_xMin s)\<rparr>)"

definition fillMinMaxMeanRMS :: "SurfChannelPedSubbed_t \<Rightarrow> SurfChannelPedSubbed_t" where
  "fillMinMaxMeanRMS ch =
     (let s = fold (stats_step (ps_data ch)) (sample_ring (ps_header ch))
                \<lparr>st_mean = 0, st_meanSq = 0, st_nsamps = 0, st_xMax = -4095, st_xMin = 4095\<rparr>;
          ch = ch\<lparr>xMax := st_xMax s, xMin := st_xMin s\<rparr>
      in if st_nsamps s > 0 then
           let mean = st_mean s / st_nsamps s; meanSq = st_meanSq s / st_nsamps s;
               ch = ch\<lparr>ps_mean := mean\<rparr>
           in if meanSq > mean * mean then ch\<lparr>ps_rms := sqrt (meanSq - mean * mean)\<rparr> else ch
         else ch)"

section \<open>The header and the channel\<close>

definition store_rawHdr :: "mem \<Rightarrow> nat \<Rightarrow> RawSurfChannelHeader_t \<Rightarrow> mem" where
  "store_rawHdr m a h =
     store8 (store8 (store8 (store8 m a (chanId h)) (a + 1) (chipIdFlag h)) (a + 2) (firstHitbus h))
       (a + 3) (lastHitbus h)"

definition load_rawHdr :: "mem \<Rightarrow> nat \<Rightarrow> RawSurfChannelHeader_t" where
  "load_rawHdr m a = \<lparr>chanId = load8u m a, chipIdFlag = load8u m (a + 1),
     firstHitbus = load8u m (a + 2), lastHitbus = load8u m (a + 3)\<rparr>"

text \<open>\<open>numBytes\<close> and \<open>crc\<close>, which both encoders fill when the waveform is written.\<close>

definition finish_header :: "nat \<Rightarrow> nat \<Rightarrow> ChannelEncodingType_t \<Rightarrow> mem \<Rightarrow> mem" where
  "finish_header buffer encSize encType m =
     (let m = store32 m (buffer + 4) (encType_code encType);
          m = store16 m (buffer + 8) (int encSize)
      in store16 m (buffer + 10) (simpleCrcShort m (buffer + 12) (encSize div 2)))"

definition encodePSChannel ::
    "ChannelEncodingType_t \<Rightarrow> nat \<Rightarrow> SurfChannelPedSubbed_t \<Rightarrow> mem \<Rightarrow> (mem \<times> nat) option" where
  "encodePSChannel encType buffer ch m =
     (let count = 12;
          m = store32 (store_rawHdr m buffer (ps_header ch)) (buffer + 4) (encType_code encType)
      in case enc_wave encType (buffer + count) ch m of
           None \<Rightarrow> None
         | Some (m, encSize, encType) \<Rightarrow> Some (finish_header buffer encSize encType m, count + encSize))"

definition header_numBytes :: "mem \<Rightarrow> nat \<Rightarrow> nat" where
  "header_numBytes m hdr = nat (load16u m (hdr + 8))"

definition header_encType :: "mem \<Rightarrow> nat \<Rightarrow> ChannelEncodingType_t" where
  "header_encType m hdr = encType_of_code (load32s m (hdr + 4))"

definition decodePSChannel :: "mem \<Rightarrow> nat \<Rightarrow> nat \<Rightarrow> SurfChannelPedSubbed_t \<Rightarrow>
    (CompressErrorCode_t \<times> SurfChannelPedSubbed_t) option" where
  "decodePSChannel m encChanHdr input ch =
     (let numBytes = header_numBytes m encChanHdr;
          newCrc = simpleCrcShort m input (numBytes div 2)
      in if load16u m (encChanHdr + 10) \<noteq> newCrc then Some (COMPRESS_E_BAD_CRC, ch)
         else let ch = ch\<lparr>ps_header := load_rawHdr m encChanHdr\<rparr> in
           case dec_wave m input (int numBytes) ch (header_encType m encChanHdr) of
             None \<Rightarrow> None
           | Some (retVal, ch) \<Rightarrow>
               Some (retVal, if retVal = COMPRESS_E_OK then fillMinMaxMeanRMS ch else ch))"

section \<open>Raw channels\<close>

definition encodeWaveNone :: "nat \<Rightarrow> SurfChannelFull_t \<Rightarrow> mem \<Rightarrow> mem \<times> nat" where
  "encodeWaveNone buffer ch m = (store_shorts m buffer (full_data ch), MAX_NUMBER_SAMPLES * 2)"

definition decodeWaveNone ::
    "mem \<Rightarrow> nat \<Rightarrow> int \<Rightarrow> SurfChannelFull_t \<Rightarrow> CompressErrorCode_t \<times> SurfChannelFull_t" where
  "decodeWaveNone m input numBytes ch =
     (let encSize = int MAX_NUMBER_SAMPLES * 2 in
      if numBytes \<noteq> encSize then (COMPRESS_E_BADSIZE, ch)
      else (COMPRESS_E_OK, ch\<lparr>full_data := load_ushorts m input MAX_NUMBER_SAMPLES\<rparr>))"

definition encodeChannel ::
    "ChannelEncodingType_t \<Rightarrow> nat \<Rightarrow> SurfChannelFull_t \<Rightarrow> mem \<Rightarrow> (mem \<times> nat) option" where
  "encodeChannel encType buffer ch m =
     (let count = 12;
          m = store32 (store_rawHdr m buffer (full_header ch)) (buffer + 4) (encType_code encType);
          encType = (if encType = ENCODE_NONE then encType else ENCODE_NONE);
          (m, encSize) = encodeWaveNone (buffer + count) ch m
      in Some (finish_header buffer encSize encType m, count + encSize))"

definition decodeChannel :: "mem \<Rightarrow> nat \<Rightarrow> nat \<Rightarrow> SurfChannelFull_t \<Rightarrow>
    (CompressErrorCode_t \<times> SurfChannelFull_t) option" where
  "decodeChannel m encChanHdr input ch =
     (let numBytes = header_numBytes m encChanHdr;
          newCrc = simpleCrcShort m input (numBytes div 2)
      in if load16u m (encChanHdr + 10) \<noteq> newCrc then Some (COMPRESS_E_BAD_CRC, ch)
         else let ch = ch\<lparr>full_header := load_rawHdr m encChanHdr\<rparr>;
                  (retVal, ch) = decodeWaveNone m input (int numBytes) ch
              in if header_encType m encChanHdr = ENCODE_NONE then Some (retVal, ch)
                 else Some (COMPRESS_E_BAD_CODE, ch))"

section \<open>The optimal mu-law codec\<close>

definition valid_mulaw :: "SurfChannelPedSubbed_t \<Rightarrow> bool" where
  "valid_mulaw ch \<longleftrightarrow> valid_binary ch \<and> xMax ch - xMin ch \<le> 1024 \<and>
     is_s8 (bin_mean (xMin ch) (xMax ch))"

definition mulaw_bits :: "SurfChannelPedSubbed_t \<Rightarrow> nat" where
  "mulaw_bits ch = rangeBits (xMax ch - xMin ch) 1 + 1"

definition result_mulaw :: "nat \<Rightarrow> SurfChannelPedSubbed_t \<Rightarrow> int list" where
  "result_mulaw k ch =
     (if mulaw_bits ch \<le> k then result_binary ch
      else map (mulaw_quant (bin_mean (xMin ch) (xMax ch)) (mulawInputBits (mulaw_bits ch) k) k) (ps_data ch))"

lemma valid_mulaw_sample:
  assumes v: "valid_mulaw ch" and k: "3 \<le> k" "k \<le> 8" and x: "x \<in> set (ps_data ch)"
  shows "mulaw_valid (bin_mean (xMin ch) (xMax ch)) (mulawInputBits (mulaw_bits ch) k) k x"
proof -
  define r d where "r = xMax ch - xMin ch" and "d = x - bin_mean (xMin ch) (xMax ch)"
  define n where "n = rangeBits r 1"
  have r: "1 \<le> r" "r \<le> 1024" and x: "xMin ch \<le> x" "x \<le> xMax ch"
    using v x by (auto simp: valid_mulaw_def valid_binary_def r_def)
  have n: "r \<le> 2 ^ n" "1 \<le> n" "n \<le> 10"
    using rangeBits_bound [of r 1] rangeBits_least [of r 10 1] r by (simp_all add: n_def)
  have bits: "mulaw_bits ch = n + 1"
    by (simp add: mulaw_bits_def n_def r_def)
  note pair = mulawInputBits_pair [OF k, of "n + 1"]
  have "(2::int) ^ n = 2 * 2 ^ (n - 1)"
    using n(2) by (simp flip: power_Suc)
  then have "\<bar>d\<bar> \<le> 2 ^ (n - 1)"
    using n(1) x r unfolding d_def bin_mean_def r_def by linarith
  also have "(2::int) ^ (n - 1) \<le> 2 ^ (mulawInputBits (n + 1) k - 2)"
    using pair(2) n by (intro power_increasing) auto
  finally show ?thesis
    using pair(1) n(3) v by (simp add: mulaw_valid_def bits valid_mulaw_def flip: d_def)
qed

lemma encType_in_mulaw_types: "getEncodingTypeFromInputAndMuLawBits b k \<in> mulaw_types"
  by (simp add: getEncodingTypeFromInputAndMuLawBits_def mulaw_types_def)

interpretation optimal_codec: wave_codec
  "\<lambda>buffer ch m. encodePSWaveLossyMulawOptimally buffer ch k m"
  "\<lambda>m input n ch t. if t \<in> mulaw_types then decodePSWaveLossyMuLaw m input n ch t
    else decodePSWaveLosslessBinary m input n ch t"
  "\<lambda>ch. 3 \<le> k \<and> k \<le> 8 \<and> valid_mulaw ch" "result_mulaw k" 520 for k :: nat
proof unfold_locales
  fix ch m buffer
  assume v: "3 \<le> k \<and> k \<le> 8 \<and> valid_mulaw ch" and z: "zeroed m buffer (buffer + 520)"
  let ?dec = "\<lambda>m input n ch t. if t \<in> mulaw_types then decodePSWaveLossyMuLaw m input n ch t
    else decodePSWaveLosslessBinary m input n ch t"
  have range: "s16 (xMax ch - xMin ch) = xMax ch - xMin ch" "1 \<le> xMax ch - xMin ch" "xMax ch - xMin ch \<le> 1024"
    using v by (auto simp: valid_mulaw_def valid_binary_def is_s16_def intro!: s16_id)
  have bits: "mulaw_bits ch \<le> 11"
    using rangeBits_least [of "xMax ch - xMin ch" 10 1] range by (simp add: mulaw_bits_def)
  show "\<exists>m' n encType. encodePSWaveLossyMulawOptimally buffer ch k m = Some (m', n, encType) \<and> n \<le> 520 \<and>
      same_outside m m' buffer (buffer + n) \<and> decodes_to ?dec m' buffer n encType (result_mulaw k ch)"
  proof (cases "mulaw_bits ch \<le> k")
    case True
    then have enc: "encodePSWaveLossyMulawOptimally buffer ch k m = encodePSWaveLosslessBinary buffer ch m"
      by (simp add: encodePSWaveLossyMulawOptimally_def Let_def range mulaw_bits_def)
    have "encodePSWaveLosslessBinary buffer ch m = Some (m', n, t) \<Longrightarrow> t \<notin> mulaw_types" for m' n t
      by (auto simp: encodePSWaveLosslessBinary_def Let_def mulaw_types_def getBinaryEncType_def
          split: option.splits if_splits)
    with True binary_codec.encodes_in [of ch m buffer 520 ?dec] v z show ?thesis
      by (fastforce simp: enc result_mulaw_def valid_mulaw_def)
  next
    case False
    let ?b = "mulawInputBits (mulaw_bits ch) k" and ?mean = "bin_mean (xMin ch) (xMax ch)"
    let ?t = "getEncodingTypeFromInputAndMuLawBits ?b k"
    have pair: "(?b, k) \<in> set mulaw_pairs"
      using mulawInputBits_pair(1) [OF _ _ bits] v by simp
    have t: "?t \<in> mulaw_types"
      by (rule encType_in_mulaw_types)
    have mean: "?mean = xMin ch + c_div (s16 (xMax ch - xMin ch)) 2"
      using range by (simp add: bin_mean_def c_div_nonneg)
    obtain m' n where "encodePSWaveLossyMuLaw buffer ch ?t m = Some (m', n)"
      "decodes_to decodePSWaveLossyMuLaw m' buffer n ?t (map (mulaw_quant ?mean ?b k) (ps_data ch))"
      "same_outside m m' buffer (buffer + n)" "n = 1 + (260 * k + 7) div 8"
      by (rule decode_encode_mulaw [OF mulaw_bits_of_encType [OF pair] _ _ mean z])
        (use v valid_mulaw_sample in \<open>auto simp: valid_mulaw_def valid_binary_def\<close>)
    moreover have "(260 * k + 7) div 8 \<le> (260 * 8 + 7) div 8"
      using v by (intro div_le_mono) simp
    ultimately show ?thesis
      using False t by (simp add: encodePSWaveLossyMulawOptimally_def Let_def range mulaw_bits_def
          result_mulaw_def decodes_to_def)
  qed
qed

section \<open>Every encoding type at once\<close>

definition mulaw_request :: "ChannelEncodingType_t \<Rightarrow> nat" where
  \<comment> \<open>the number of bits that a mu-law type asks for, 0 for another type\<close>
  "mulaw_request t =
     (if t = ENCODE_LOSSY_MULAW \<or> t = ENCODE_LOSSY_MULAW_8BIT then 8
      else if t = ENCODE_LOSSY_MULAW_7BIT then 7 else if t = ENCODE_LOSSY_MULAW_6BIT then 6
      else if t = ENCODE_LOSSY_MULAW_5BIT then 5 else if t = ENCODE_LOSSY_MULAW_4BIT then 4
      else if t = ENCODE_LOSSY_MULAW_3BIT then 3 else 0)"

definition wave_valid :: "ChannelEncodingType_t \<Rightarrow> SurfChannelPedSubbed_t \<Rightarrow> bool" where
  "wave_valid t ch =
     (if t = ENCODE_LOSSLESS_12BIT then valid_12bit ch
      else if t = ENCODE_LOSSLESS_BINARY then valid_binary ch
      else if t = ENCODE_LOSSLESS_FIBONACCI then valid_fibonacci ch
      else if t = ENCODE_LOSSLESS_BINFIB_COMBO then False
      else if mulaw_request t \<noteq> 0 then valid_mulaw ch else valid_none ch)"

definition wave_result :: "ChannelEncodingType_t \<Rightarrow> SurfChannelPedSubbed_t \<Rightarrow> int list" where
  "wave_result t ch =
     (if t = ENCODE_LOSSLESS_BINARY then result_binary ch
      else if mulaw_request t \<noteq> 0 then result_mulaw (mulaw_request t) ch else ps_data ch)"

lemma enc_wave_mulaw:
  "mulaw_request t \<noteq> 0 \<Longrightarrow> enc_wave t = (\<lambda>buffer ch m. encodePSWaveLossyMulawOptimally buffer ch (mulaw_request t) m)"
  by (intro ext) (auto simp: mulaw_request_def enc_wave_def split: if_splits)

lemma mulaw_request_range: "mulaw_request t \<noteq> 0 \<Longrightarrow> 3 \<le> mulaw_request t \<and> mulaw_request t \<le> 8"
  by (auto simp: mulaw_request_def split: if_splits)

lemma getBinaryEncType_range: "1 \<le> b \<Longrightarrow> b \<le> 11 \<Longrightarrow> getBinaryEncType (int b) \<in> binary_types"
proof -
  assume "1 \<le> b" "b \<le> 11"
  then have "b = 1 \<or> b = 2 \<or> b = 3 \<or> b = 4 \<or> b = 5 \<or> b = 6 \<or> b = 7 \<or> b = 8 \<or> b = 9 \<or> b = 10 \<or> b = 11"
    by presburger
  then show ?thesis
    by (elim disjE) (simp_all add: getBinaryEncType_def binary_types_def)
qed

lemma binary_encType:
  assumes "valid_binary ch" "encodePSWaveLosslessBinary buffer ch m = Some (m', n, t)"
  shows "t \<in> binary_types"
proof -
  let ?r = "nat (xMax ch - xMin ch + 1)"
  have "2 \<le> ?r" "?r \<le> 2 ^ 11"
    using assms(1) by (auto simp: valid_binary_def)
  then have "1 \<le> ceillog2 ?r" "ceillog2 ?r \<le> 11"
    by (simp_all add: ceillog2_ge_iff ceillog2_le_iff)
  moreover have "log_bitSize (xMax ch - xMin ch) = Some (ceillog2 ?r)"
    using assms(1) by (intro log_bitSize_ceillog2) (simp add: valid_binary_def)
  ultimately show ?thesis
    using assms(2) getBinaryEncType_range
    by (auto simp: encodePSWaveLosslessBinary_def Let_def split: option.splits)
qed

lemma dec_wave_binary: "t \<in> binary_types \<Longrightarrow> dec_wave m i n c t = decodePSWaveLosslessBinary m i n c t"
  by (auto simp: dec_wave_def binary_types_def)

lemma dec_wave_mulaw: "t \<in> mulaw_types \<Longrightarrow> dec_wave m i n c t = decodePSWaveLossyMuLaw m i n c t"
  by (auto simp: dec_wave_def binary_types_def binfib_types_def mulaw_types_def)

lemma with_type_Some: "with_type t r = Some (m', n, t') \<Longrightarrow> t' = t"
  by (auto simp: with_type_def)

lemma dec_wave_single:
  "dec_wave m i n c ENCODE_NONE = Some (decodePSWaveNone m i n c)"
  "dec_wave m i n c ENCODE_LOSSLESS_12BIT = Some (decodePSWave12bitBinary m i n c)"
  "dec_wave m i n c ENCODE_LOSSLESS_FIBONACCI = decodePSWaveLosslessFibonacci m i n c"
  by (simp_all add: dec_wave_def binary_types_def)

lemma optimal_encType:
  assumes "encodePSWaveLossyMulawOptimally buffer ch k m = Some (m', n, t)" "3 \<le> k" "k \<le> 8" "valid_mulaw ch"
  shows "t \<in> binary_types \<or> t \<in> mulaw_types"
proof (cases "rangeBits (s16 (xMax ch - xMin ch)) 1 + 1 \<le> k")
  case True
  with assms binary_encType show ?thesis
    by (auto simp: encodePSWaveLossyMulawOptimally_def Let_def valid_mulaw_def)
next
  case False
  then have "\<exists>b. t = getEncodingTypeFromInputAndMuLawBits b k"
    using assms(1) by (auto simp: encodePSWaveLossyMulawOptimally_def Let_def split: option.splits)
  then show ?thesis
    using encType_in_mulaw_types by blast
qed

lemma binary_not_mulaw: "t \<in> binary_types \<Longrightarrow> t \<notin> mulaw_types"
  by (auto simp: binary_types_def mulaw_types_def)

interpretation channel_wave: wave_codec "enc_wave t" dec_wave "wave_valid t" "wave_result t" 521
  for t :: ChannelEncodingType_t
proof unfold_locales
  fix ch m buffer
  assume v: "wave_valid t ch" and z: "zeroed m buffer (buffer + 521)"
  consider "t = ENCODE_LOSSLESS_12BIT" | "t = ENCODE_LOSSLESS_BINARY" | "t = ENCODE_LOSSLESS_FIBONACCI"
    | "mulaw_request t \<noteq> 0"
    | "t \<notin> {ENCODE_LOSSLESS_12BIT, ENCODE_LOSSLESS_BINARY, ENCODE_LOSSLESS_FIBONACCI, ENCODE_LOSSLESS_BINFIB_COMBO}"
      "mulaw_request t = 0"
    using v by (auto simp: wave_valid_def split: if_splits)
  then show "\<exists>m' n encType. enc_wave t buffer ch m = Some (m', n, encType) \<and> n \<le> 521 \<and>
      same_outside m m' buffer (buffer + n) \<and> decodes_to dec_wave m' buffer n encType (wave_result t ch)"
  proof cases
    case 1
    have "\<forall>m i k c. dec_wave m i k c t' = Some (decodePSWave12bitBinary m i k c)"
      if "with_type ENCODE_LOSSLESS_12BIT r = Some (m', n, t')" for r m' n t'
      using with_type_Some [OF that] by (simp add: dec_wave_single)
    with twelve_codec.encodes_in [OF _ z, of ch dec_wave] v 1 show ?thesis
      by (simp add: enc_wave_def wave_valid_def wave_result_def mulaw_request_def)
  next
    case 2
    then show ?thesis
      using binary_codec.encodes_in [OF _ z, of ch dec_wave] v binary_encType [of ch buffer m]
      by (simp add: enc_wave_def wave_valid_def wave_result_def mulaw_request_def dec_wave_binary)
  next
    case 3
    have "\<forall>m i k c. dec_wave m i k c t' = decodePSWaveLosslessFibonacci m i k c"
      if "with_type ENCODE_LOSSLESS_FIBONACCI r = Some (m', n, t')" for r m' n t'
      using with_type_Some [OF that] by (simp add: dec_wave_single)
    with fib_codec.encodes_in [OF _ z, of ch dec_wave] v 3 show ?thesis
      by (simp add: enc_wave_def wave_valid_def wave_result_def mulaw_request_def)
  next
    case 4
    let ?k = "mulaw_request t"
    have v': "3 \<le> ?k \<and> ?k \<le> 8 \<and> valid_mulaw ch"
      using v mulaw_request_range [OF 4] 4 by (auto simp: wave_valid_def mulaw_request_def split: if_splits)
    have r: "wave_result t ch = result_mulaw ?k ch"
      using 4 by (auto simp: wave_result_def mulaw_request_def)
    have "\<forall>m i k c. dec_wave m i k c t' =
        (if t' \<in> mulaw_types then decodePSWaveLossyMuLaw m i k c t' else decodePSWaveLosslessBinary m i k c t')"
      if "encodePSWaveLossyMulawOptimally buffer ch ?k m = Some (m', n, t')" for m' n t'
      using optimal_encType [OF that] v' binary_not_mulaw by (auto simp: dec_wave_mulaw dec_wave_binary)
    with optimal_codec.encodes_in [of ?k, OF v' z] show ?thesis
      unfolding enc_wave_mulaw [OF 4] r by simp
  next
    case 5
    then have "enc_wave t buffer ch m = with_type ENCODE_NONE (Some (encodePSWaveNone buffer ch m))"
      "wave_valid t ch = valid_none ch" "wave_result t ch = ps_data ch"
      by (auto simp: enc_wave_def wave_valid_def wave_result_def mulaw_request_def with_type_def split: if_splits)
    moreover have "\<forall>m i k c. dec_wave m i k c t' = Some (decodePSWaveNone m i k c)"
      if "with_type ENCODE_NONE r = Some (m', n, t')" for r m' n t'
      using with_type_Some [OF that] by (simp add: dec_wave_single)
    ultimately show ?thesis
      using none_codec.encodes_in [OF _ z, of ch dec_wave] v by simp
  qed
qed

section \<open>What the statistics are\<close>

definition ring_samples :: "SurfChannelPedSubbed_t \<Rightarrow> int list" where
  "ring_samples ch = map ((!) (ps_data ch)) (sample_ring (ps_header ch))"

lemma fold_stats:
  "fold (stats_step dat) is s =
    \<lparr>st_mean = st_mean s + (\<Sum>i\<leftarrow>is. real_of_int (dat ! i)),
     st_meanSq = st_meanSq s + (\<Sum>i\<leftarrow>is. real_of_int (dat ! i * dat ! i)),
     st_nsamps = st_nsamps s + real (length is),
     st_xMax = fold max (map ((!) dat) is) (st_xMax s),
     st_xMin = fold min (map ((!) dat) is) (st_xMin s)\<rparr>"
  by (induction "is" arbitrary: s) (simp_all add: stats_step_def Let_def max_def min_def)

text \<open>The variance as mean of the squared deviations.\<close>

lemma variance_sum:
  fixes xs :: "real list"
  assumes "xs \<noteq> []"
  defines "n \<equiv> real (length xs)" and "\<mu> \<equiv> sum_list xs / real (length xs)"
  shows "(\<Sum>x\<leftarrow>xs. x * x) / n - \<mu> * \<mu> = (\<Sum>x\<leftarrow>xs. (x - \<mu>)\<^sup>2) / n"
proof -
  have "(\<Sum>x\<leftarrow>xs. (x - c)\<^sup>2) = (\<Sum>x\<leftarrow>xs. x * x) - 2 * c * sum_list xs + real (length xs) * c * c" for c
    by (induction xs) (simp_all add: power2_eq_square algebra_simps)
  from this [of \<mu>] have "(\<Sum>x\<leftarrow>xs. (x - \<mu>)\<^sup>2) = (\<Sum>x\<leftarrow>xs. x * x) - n * (\<mu> * \<mu>)"
    using assms(1) by (simp add: n_def \<mu>_def)
  moreover have "0 < n"
    using assms(1) by (simp add: n_def)
  ultimately show ?thesis
    by (simp add: field_simps)
qed

lemma sum_squares_zero: "(\<Sum>x\<leftarrow>xs. (x - c)\<^sup>2) = 0 \<longleftrightarrow> (\<forall>x\<in>set xs. x = c)" for c :: real
proof (induction xs)
  case (Cons x xs)
  have "0 \<le> (\<Sum>x\<leftarrow>xs. (x - c)\<^sup>2)"
    by (rule sum_list_nonneg) auto
  then show ?case
    using Cons by (auto simp: add_nonneg_eq_0_iff)
qed simp



text \<open>
  A channel encoded with one of the mu-law types: when its range needs more bits than the
  type asks for, every sample comes back too large, by at least one and at most
  \<open>mulaw_err\<close> of the bit sizes that were chosen.
\<close>

theorem mulaw_channel_error:
  assumes "k = mulaw_request t" "k \<noteq> 0" "wave_valid t ch" "k < mulaw_bits ch" "i < MAX_NUMBER_SAMPLES"
  shows "ps_data ch ! i < wave_result t ch ! i \<and>
    wave_result t ch ! i \<le> ps_data ch ! i + mulaw_err (mulawInputBits (mulaw_bits ch) k) k"
proof -
  have k: "3 \<le> k" "k \<le> 8" and v: "valid_mulaw ch" and r: "wave_result t ch = result_mulaw k ch"
    using mulaw_request_range [of t] assms(1-3)
    by (auto simp: wave_valid_def wave_result_def mulaw_request_def split: if_splits)
  have "length (ps_data ch) = 260"
    using v by (simp add: valid_mulaw_def valid_binary_def)
  with assms(5) have "ps_data ch ! i \<in> set (ps_data ch)" "i < length (ps_data ch)"
    by simp_all
  with mulaw_quant_bounds [OF valid_mulaw_sample [OF v k this(1)]] assms(4) show ?thesis
    by (simp add: r result_mulaw_def)
qed

theorem mulaw_channel_error_witness:
  "let ch = (example_channel (replicate 130 100 @ replicate 130 (-100)))\<lparr>xMax := 100, xMin := -100\<rparr>
   in 100 < wave_result ENCODE_LOSSY_MULAW_5BIT ch ! 7"
proof -
  let ?ch = "(example_channel (replicate 130 100 @ replicate 130 (-100)))\<lparr>xMax := 100, xMin := -100\<rparr>"
  have "5 = mulaw_request ENCODE_LOSSY_MULAW_5BIT"
    by (simp add: mulaw_request_def)
  moreover have "wave_valid ENCODE_LOSSY_MULAW_5BIT ?ch"
    by (simp add: wave_valid_def mulaw_request_def valid_mulaw_def valid_binary_def example_channel_def
        is_s16_def is_s8_def bin_mean_def)
  moreover have "5 < mulaw_bits ?ch"
    by (simp add: mulaw_bits_def example_channel_def rangeBits.simps)
  ultimately show ?thesis
    using mulaw_channel_error [of 5 ENCODE_LOSSY_MULAW_5BIT ?ch 7]
    by (simp add: example_channel_def nth_append)
qed

end
