(* ===== verification/Channel_Interface.thy ===== *)
theory Channel_Interface
  imports Packets Compress_Types
begin

text \<open>
  The interface between the event loops of \<open>compressLib.c\<close> and the channel codecs: an
  encoded channel is a 12-byte header followed by as many bytes as the header says. The loops over
  the channels of a SURF and over the SURFs of an event, which \<open>packEvent\<close>,
  \<open>packPedSubbedEvent\<close> and \<open>unpackToPedSubbedEventWithStats\<close> share, are written over the
  channel codec they call; the locale \<open>channel_codec\<close> is what they rely on, and its client
  lemma is the round trip of a whole event.
\<close>

section \<open>The loops\<close>

text \<open>\<open>NUM_DIGITZED_CHANNELS*MAX_NUMBER_SAMPLES*4\<close>\<close>

abbreviation (input) MAX_WAVE_BUFFER :: nat where "MAX_WAVE_BUFFER \<equiv> 112320"

text \<open>The channels of a SURF: \<open>cnt\<close> is the number of bytes written so far.\<close>

primrec pack_chans :: "('e \<Rightarrow> nat \<Rightarrow> 'c \<Rightarrow> mem \<Rightarrow> (mem \<times> nat) option) \<Rightarrow> nat \<Rightarrow> ('e \<times> 'c) list \<Rightarrow>
    nat \<Rightarrow> mem \<Rightarrow> (CompressErrorCode_t \<times> mem \<times> nat) option" where
  "pack_chans enc out [] cnt m = Some (COMPRESS_E_OK, m, cnt)"
| "pack_chans enc out (ec # ecs) cnt m =
     (case enc (fst ec) (out + cnt) (snd ec) m of
        None \<Rightarrow> None
      | Some (m, n) \<Rightarrow>
          let cnt = cnt + n in
          if cnt > MAX_WAVE_BUFFER then Some (COMPRESS_E_TOO_BIG, m, cnt)
          else pack_chans enc out ecs cnt m)"

text \<open>
  The SURFs of an event: \<open>wr\<close> writes what the loop puts in the packet header before the
  channels, \<open>hdrSize\<close> is the size of that header.
\<close>

primrec pack_surfs :: "('e \<Rightarrow> nat \<Rightarrow> 'c \<Rightarrow> mem \<Rightarrow> (mem \<times> nat) option) \<Rightarrow> (nat \<Rightarrow> mem \<Rightarrow> mem) \<Rightarrow> nat \<Rightarrow> int \<Rightarrow>
    nat \<Rightarrow> ('e \<times> 'c) list list \<Rightarrow> nat \<Rightarrow> mem \<Rightarrow> (CompressErrorCode_t \<times> mem \<times> nat) option" where
  "pack_surfs enc wr hdrSize code out [] cnt m = Some (COMPRESS_E_OK, m, cnt)"
| "pack_surfs enc wr hdrSize code out (s # ss) cnt m =
     (let surfStart = cnt; m = wr (out + cnt) m in
      case pack_chans enc out s (cnt + hdrSize) m of
        None \<Rightarrow> None
      | Some (r, m, cnt) \<Rightarrow>
          if r \<noteq> COMPRESS_E_OK then Some (r, m, cnt)
          else pack_surfs enc wr hdrSize code out ss cnt
                 (fillGenericHeader (out + surfStart) code (int (cnt - surfStart)) m))"

text \<open>
  Reading the channels of a SURF back into the channels \<open>ds\<close>. \<open>nbytes\<close> is
  \<open>chanHdPtr->numBytes\<close>, \<open>info\<close> what the caller keeps of a channel header that decoded.
  On an error the channels not reached keep their value.
\<close>

primrec unpack_chans :: "(mem \<Rightarrow> nat \<Rightarrow> nat \<Rightarrow> 'c \<Rightarrow> (CompressErrorCode_t \<times> 'c) option) \<Rightarrow> (mem \<Rightarrow> nat \<Rightarrow> nat) \<Rightarrow>
    (mem \<Rightarrow> nat \<Rightarrow> 'i) \<Rightarrow> mem \<Rightarrow> nat \<Rightarrow> int \<Rightarrow> 'c list \<Rightarrow> nat \<Rightarrow>
    (CompressErrorCode_t \<times> 'c list \<times> 'i list \<times> nat) option" where
  "unpack_chans dec nbytes info m input numBytes [] cnt = Some (COMPRESS_E_OK, [], [], cnt)"
| "unpack_chans dec nbytes info m input numBytes (d # ds) cnt =
     (let chanHd = input + cnt; cnt = cnt + 12 in
      case dec m chanHd (input + cnt) d of
        None \<Rightarrow> None
      | Some (retVal, d) \<Rightarrow>
          if retVal \<noteq> COMPRESS_E_OK then Some (retVal, d # ds, [], cnt)
          else let cnt = cnt + nbytes m chanHd; i = info m chanHd in
            if int cnt > numBytes then Some (COMPRESS_E_BADSIZE, d # ds, [i], cnt)
            else map_option (\<lambda>(r, ds, is, cnt). (r, d # ds, i # is, cnt))
                   (unpack_chans dec nbytes info m input numBytes ds cnt))"

text \<open>The SURFs: \<open>rd\<close> reads the fields that the loop copies from each packet header.\<close>

primrec unpack_surfs :: "(mem \<Rightarrow> nat \<Rightarrow> nat \<Rightarrow> 'c \<Rightarrow> (CompressErrorCode_t \<times> 'c) option) \<Rightarrow> (mem \<Rightarrow> nat \<Rightarrow> nat) \<Rightarrow>
    (mem \<Rightarrow> nat \<Rightarrow> 'i) \<Rightarrow> (mem \<Rightarrow> nat \<Rightarrow> 'h) \<Rightarrow> nat \<Rightarrow> mem \<Rightarrow> nat \<Rightarrow> int \<Rightarrow> 'c list list \<Rightarrow> 'h \<Rightarrow> nat \<Rightarrow>
    (CompressErrorCode_t \<times> 'c list list \<times> 'h \<times> 'i list \<times> nat) option" where
  "unpack_surfs dec nbytes info rd hdrSize m input numBytes [] h cnt = Some (COMPRESS_E_OK, [], h, [], cnt)"
| "unpack_surfs dec nbytes info rd hdrSize m input numBytes (d # ds) h cnt =
     (let h = rd m (input + cnt) in
      case unpack_chans dec nbytes info m input numBytes d (cnt + hdrSize) of
        None \<Rightarrow> None
      | Some (r, d, is, cnt) \<Rightarrow>
          if r \<noteq> COMPRESS_E_OK then Some (r, d # ds, h, is, cnt)
          else map_option (\<lambda>(r, ds, h, js, cnt). (r, d # ds, h, is @ js, cnt))
                 (unpack_surfs dec nbytes info rd hdrSize m input numBytes ds h cnt))"

section \<open>The interface\<close>

locale channel_codec =
  fixes enc :: "'e \<Rightarrow> nat \<Rightarrow> 'c \<Rightarrow> mem \<Rightarrow> (mem \<times> nat) option"
    and dec :: "mem \<Rightarrow> nat \<Rightarrow> nat \<Rightarrow> 'c \<Rightarrow> (CompressErrorCode_t \<times> 'c) option"
    and nbytes :: "mem \<Rightarrow> nat \<Rightarrow> nat"
    and valid :: "'e \<Rightarrow> 'c \<Rightarrow> bool"
    and ready :: "'c \<Rightarrow> bool"
    and result :: "'e \<Rightarrow> 'c \<Rightarrow> 'c \<Rightarrow> 'c"
    and bound :: nat
  assumes law: "valid e ch \<Longrightarrow> zeroed m a (a + bound) \<Longrightarrow>
    \<exists>m' n. enc e a ch m = Some (m', n) \<and> 12 \<le> n \<and> n \<le> bound \<and> same_outside m m' a (a + n) \<and>
      (\<forall>m'' dst. same_inside m' m'' a (a + n) \<longrightarrow> nbytes m'' a = n - 12 \<and>
         (ready dst \<longrightarrow> dec m'' a (a + 12) dst = Some (COMPRESS_E_OK, result e ch dst)))"
begin

definition results :: "('e \<times> 'c) list \<Rightarrow> 'c list \<Rightarrow> 'c list" where
  "results ecs ds = map2 (\<lambda>ec d. result (fst ec) (snd ec) d) ecs ds"

text \<open>What a packed group of channels, from \<open>a\<close> on, unpacks to.\<close>

definition holds_chans :: "mem \<Rightarrow> nat \<Rightarrow> nat \<Rightarrow> ('e \<times> 'c) list \<Rightarrow> bool" where
  "holds_chans m a n ecs \<longleftrightarrow>
     (\<forall>m' input cnt numBytes ds (info :: mem \<Rightarrow> nat \<Rightarrow> ChannelEncodingType_t \<times> nat).
        same_inside m m' a (a + n) \<and> input + cnt = a \<and>
        int (cnt + n) \<le> numBytes \<and> length ds = length ecs \<and> (\<forall>d\<in>set ds. ready d) \<longrightarrow>
        (\<exists>is. length is = length ecs \<and> unpack_chans dec nbytes info m' input numBytes ds cnt =
          Some (COMPRESS_E_OK, results ecs ds, is, cnt + n)))"

lemma holds_chansD:
  assumes "holds_chans m a n ecs" "same_inside m m' a (a + n)" "input + cnt = a" "int (cnt + n) \<le> numBytes"
    and "length ds = length ecs" "\<forall>d\<in>set ds. ready d"
  obtains "is" where "length is = length ecs"
    "unpack_chans dec nbytes (info :: mem \<Rightarrow> nat \<Rightarrow> ChannelEncodingType_t \<times> nat) m' input numBytes ds cnt =
      Some (COMPRESS_E_OK, results ecs ds, is, cnt + n)"
  using assms unfolding holds_chans_def by blast

lemma holds_chans_inside:
  "holds_chans m a n ecs \<Longrightarrow> same_inside m m' a (a + n) \<Longrightarrow> holds_chans m' a n ecs"
  unfolding holds_chans_def using same_inside_trans by blast

lemma holds_chans_Cons:
  assumes one: "\<And>m'' dst. same_inside m m'' a (a + n) \<Longrightarrow> nbytes m'' a = n - 12 \<and>
      (ready dst \<longrightarrow> dec m'' a (a + 12) dst = Some (COMPRESS_E_OK, result (fst ec) (snd ec) dst))"
    and n: "12 \<le> n" and rest: "holds_chans m (a + n) k ecs"
  shows "holds_chans m a (n + k) (ec # ecs)"
  unfolding holds_chans_def
proof (intro allI impI)
  fix m' input cnt numBytes ds and info :: "mem \<Rightarrow> nat \<Rightarrow> ChannelEncodingType_t \<times> nat"
  assume *: "same_inside m m' a (a + (n + k)) \<and> input + cnt = a \<and> int (cnt + (n + k)) \<le> numBytes \<and>
    length ds = length (ec # ecs) \<and> (\<forall>d\<in>set ds. ready d)"
  then obtain d ds' where ds: "ds = d # ds'" "ready d"
    by (cases ds) auto
  have "same_inside m m' a (a + n)" and rin: "same_inside m m' (a + n) (a + n + k)"
    using * by (auto elim!: same_inside_mono)
  with one [of m' d] ds have "nbytes m' a = n - 12"
    "dec m' a (a + 12) d = Some (COMPRESS_E_OK, result (fst ec) (snd ec) d)"
    by auto
  moreover obtain "is" where "length is = length ecs"
    "unpack_chans dec nbytes info m' input numBytes ds' (cnt + n) = Some (COMPRESS_E_OK, results ecs ds', is, cnt + n + k)"
    by (rule holds_chansD [OF rest rin, of input "cnt + n" numBytes ds' info]) (use * ds in auto)
  ultimately show "\<exists>is. length is = length (ec # ecs) \<and> unpack_chans dec nbytes info m' input numBytes ds cnt =
      Some (COMPRESS_E_OK, results (ec # ecs) ds, is, cnt + (n + k))"
    using * n by (intro exI [of _ "info m' a # is"]) (auto simp: ds(1) Let_def results_def add.assoc)
qed

lemma holds_chans_Nil: "holds_chans m a 0 []"
  by (simp add: holds_chans_def results_def)

lemma pack_chans_ok:
  assumes "\<forall>ec\<in>set ecs. valid (fst ec) (snd ec)" "zeroed m (out + cnt) (out + cnt + length ecs * bound)"
    and "cnt + length ecs * bound \<le> MAX_WAVE_BUFFER"
  shows "\<exists>m' n. pack_chans enc out ecs cnt m = Some (COMPRESS_E_OK, m', cnt + n) \<and>
    n \<le> length ecs * bound \<and> same_outside m m' (out + cnt) (out + cnt + n) \<and>
    holds_chans m' (out + cnt) n ecs"
  using assms
proof (induction ecs arbitrary: cnt m)
  case Nil
  show ?case
    by (simp add: holds_chans_Nil)
next
  case (Cons ec ecs)
  let ?a = "out + cnt"
  have "zeroed m ?a (?a + bound)"
    by (rule zeroed_mono [OF Cons.prems(2)]) auto
  then obtain m1 n1 where 1: "enc (fst ec) ?a (snd ec) m = Some (m1, n1)" "12 \<le> n1" "n1 \<le> bound"
    "same_outside m m1 ?a (?a + n1)"
    "\<And>m'' dst. same_inside m1 m'' ?a (?a + n1) \<Longrightarrow> nbytes m'' ?a = n1 - 12 \<and>
      (ready dst \<longrightarrow> dec m'' ?a (?a + 12) dst = Some (COMPRESS_E_OK, result (fst ec) (snd ec) dst))"
    using law [of "fst ec" "snd ec" m ?a] Cons.prems(1) by auto
  have z1: "zeroed m1 (out + (cnt + n1)) (out + (cnt + n1) + length ecs * bound)"
    by (rule zeroed_outside [OF zeroed_mono [OF Cons.prems(2)] 1(4)]) (use 1(3) in auto)
  have c1: "cnt + n1 + length ecs * bound \<le> MAX_WAVE_BUFFER"
    using Cons.prems(3) 1(3) by simp
  obtain m2 n2 where 2: "pack_chans enc out ecs (cnt + n1) m1 = Some (COMPRESS_E_OK, m2, cnt + n1 + n2)"
    "n2 \<le> length ecs * bound" "same_outside m1 m2 (?a + n1) (?a + n1 + n2)"
    "holds_chans m2 (?a + n1) n2 ecs"
    using Cons.IH [OF _ z1 c1] Cons.prems(1) by (auto simp: add.assoc)
  have m12: "same_inside m1 m2 ?a (?a + n1)"
    by (rule same_outside_inside [OF 2(3)]) simp
  have "holds_chans m2 ?a (n1 + n2) (ec # ecs)"
    by (rule holds_chans_Cons [OF _ 1(2) 2(4)]) (use 1(5) same_inside_trans [OF m12] in blast)
  moreover have "same_outside m m2 ?a (?a + (n1 + n2))"
    using 1(4) 2(3) by (auto simp: same_outside_def)
  ultimately show ?case
    using 1(1,3) 2(1,2) Cons.prems(3) by (intro exI [of _ m2] exI [of _ "n1 + n2"]) (auto simp: add.assoc)
qed

end

section \<open>Events\<close>

text \<open>
  The header that the loop over the SURFs writes behind the generic one, and reads back.
\<close>

locale event_codec = channel_codec enc dec nbytes valid ready result bound
  for enc :: "'e \<Rightarrow> nat \<Rightarrow> 'c \<Rightarrow> mem \<Rightarrow> (mem \<times> nat) option"
    and dec :: "mem \<Rightarrow> nat \<Rightarrow> nat \<Rightarrow> 'c \<Rightarrow> (CompressErrorCode_t \<times> 'c) option"
    and nbytes :: "mem \<Rightarrow> nat \<Rightarrow> nat" and valid :: "'e \<Rightarrow> 'c \<Rightarrow> bool" and ready :: "'c \<Rightarrow> bool"
    and result :: "'e \<Rightarrow> 'c \<Rightarrow> 'c \<Rightarrow> 'c" and bound :: nat +
  fixes wr :: "nat \<Rightarrow> mem \<Rightarrow> mem" and rd :: "mem \<Rightarrow> nat \<Rightarrow> 'h" and hdrSize :: nat and fields :: 'h
  assumes hdrSize: "16 \<le> hdrSize"
    and wr_outside: "same_outside m (wr a m) (a + 16) (a + hdrSize)"
    and rd_wr: "same_inside (wr a m) m'' (a + 16) (a + hdrSize) \<Longrightarrow> rd m'' a = fields"
begin

definition surfs_bound :: "('e \<times> 'c) list list \<Rightarrow> nat" where
  "surfs_bound ss = (\<Sum>s\<leftarrow>ss. hdrSize + length s * bound)"

definition holds_surfs :: "mem \<Rightarrow> nat \<Rightarrow> nat \<Rightarrow> ('e \<times> 'c) list list \<Rightarrow> bool" where
  "holds_surfs m a n ss \<longleftrightarrow>
     (\<forall>m' input cnt numBytes dss h (info :: mem \<Rightarrow> nat \<Rightarrow> ChannelEncodingType_t \<times> nat).
        same_inside m m' a (a + n) \<and> input + cnt = a \<and> int (cnt + n) \<le> numBytes \<and>
        map length dss = map length ss \<and> (\<forall>ds\<in>set dss. \<forall>d\<in>set ds. ready d) \<longrightarrow>
        (\<exists>is. length is = sum_list (map length ss) \<and>
          unpack_surfs dec nbytes info rd hdrSize m' input numBytes dss h cnt =
          Some (COMPRESS_E_OK, map2 results ss dss, if ss = [] then h else fields, is, cnt + n)))"

lemma holds_surfsD:
  assumes "holds_surfs m a n ss" "same_inside m m' a (a + n)" "input + cnt = a" "int (cnt + n) \<le> numBytes"
    and "map length dss = map length ss" "\<forall>ds\<in>set dss. \<forall>d\<in>set ds. ready d"
  obtains "is" where "length is = sum_list (map length ss)"
    "unpack_surfs dec nbytes (info :: mem \<Rightarrow> nat \<Rightarrow> ChannelEncodingType_t \<times> nat) rd hdrSize m' input numBytes dss h cnt =
      Some (COMPRESS_E_OK, map2 results ss dss, if ss = [] then h else fields, is, cnt + n)"
  using assms unfolding holds_surfs_def by blast

lemma holds_surfs_Cons:
  assumes hdr: "\<And>m''. same_inside m m'' a (a + hdrSize) \<Longrightarrow> rd m'' a = fields"
    and chans: "holds_chans m (a + hdrSize) n s" and rest: "holds_surfs m (a + hdrSize + n) k ss"
  shows "holds_surfs m a (hdrSize + n + k) (s # ss)"
  unfolding holds_surfs_def
proof (intro allI impI)
  fix m' input cnt numBytes dss h and info :: "mem \<Rightarrow> nat \<Rightarrow> ChannelEncodingType_t \<times> nat"
  assume *: "same_inside m m' a (a + (hdrSize + n + k)) \<and> input + cnt = a \<and>
    int (cnt + (hdrSize + n + k)) \<le> numBytes \<and> map length dss = map length (s # ss) \<and>
    (\<forall>ds\<in>set dss. \<forall>d\<in>set ds. ready d)"
  then obtain d dss' where dss: "dss = d # dss'" "length d = length s" "map length dss' = map length ss"
    by (cases dss) auto
  have sin: "same_inside m m' a (a + hdrSize)" "same_inside m m' (a + hdrSize) (a + hdrSize + n)"
    "same_inside m m' (a + hdrSize + n) (a + hdrSize + n + k)"
    using * by (auto elim!: same_inside_mono)
  obtain is1 where is1: "length is1 = length s"
    "unpack_chans dec nbytes info m' input numBytes d (cnt + hdrSize) =
      Some (COMPRESS_E_OK, results s d, is1, cnt + hdrSize + n)"
    by (rule holds_chansD [OF chans sin(2), of input "cnt + hdrSize" numBytes d info]) (use * dss in auto)
  obtain is2 where is2: "length is2 = sum_list (map length ss)"
    "unpack_surfs dec nbytes info rd hdrSize m' input numBytes dss' fields (cnt + hdrSize + n) =
      Some (COMPRESS_E_OK, map2 results ss dss', if ss = [] then fields else fields, is2, cnt + hdrSize + n + k)"
    by (rule holds_surfsD [OF rest sin(3), of input "cnt + hdrSize + n" numBytes dss' info fields])
      (use * dss in auto)
  show "\<exists>is. length is = sum_list (map length (s # ss)) \<and>
      unpack_surfs dec nbytes info rd hdrSize m' input numBytes dss h cnt =
      Some (COMPRESS_E_OK, map2 results (s # ss) dss, if s # ss = [] then h else fields, is,
        cnt + (hdrSize + n + k))"
    using is1 is2 hdr [OF sin(1)] *
    by (intro exI [of _ "is1 @ is2"]) (auto simp: dss(1) Let_def add.assoc)
qed

lemma holds_surfs_Nil: "holds_surfs m a 0 []"
  by (simp add: holds_surfs_def)

lemma pack_surfs_ok:
  assumes "\<forall>s\<in>set ss. \<forall>ec\<in>set s. valid (fst ec) (snd ec)" "zeroed m (out + cnt) (out + cnt + surfs_bound ss)"
    and "cnt + surfs_bound ss \<le> MAX_WAVE_BUFFER"
  shows "\<exists>m' n. pack_surfs enc wr hdrSize code out ss cnt m = Some (COMPRESS_E_OK, m', cnt + n) \<and>
    n \<le> surfs_bound ss \<and> same_outside m m' (out + cnt) (out + cnt + n) \<and> holds_surfs m' (out + cnt) n ss \<and>
    (ss \<noteq> [] \<longrightarrow> load32u m' (out + cnt) = u32 code \<and> hdrSize \<le> n)"
  using assms
proof (induction ss arbitrary: cnt m)
  case Nil
  show ?case
    by (simp add: holds_surfs_Nil)
next
  case (Cons s ss)
  let ?a = "out + cnt" and ?k = "length s * bound"
  have B: "surfs_bound (s # ss) = hdrSize + ?k + surfs_bound ss"
    by (simp add: surfs_bound_def)
  let ?m1 = "wr ?a m"
  have z1: "zeroed ?m1 (out + (cnt + hdrSize)) (out + (cnt + hdrSize) + ?k)"
    by (rule zeroed_outside [OF zeroed_mono [OF Cons.prems(2)] wr_outside]) (use B in auto)
  obtain m2 n1 where 2: "pack_chans enc out s (cnt + hdrSize) ?m1 = Some (COMPRESS_E_OK, m2, cnt + hdrSize + n1)"
    "n1 \<le> ?k" "same_outside ?m1 m2 (?a + hdrSize) (?a + hdrSize + n1)" "holds_chans m2 (?a + hdrSize) n1 s"
    using pack_chans_ok [OF _ z1] Cons.prems(1,3) B by (auto simp: add.assoc)
  let ?m3 = "fillGenericHeader ?a code (int (cnt + hdrSize + n1 - cnt)) m2"
  note f3 = fillGenericHeader_outside [of m2 ?a code "int (cnt + hdrSize + n1 - cnt)"]
  have m3: "same_outside m ?m3 ?a (?a + hdrSize + n1)"
    using wr_outside [of m ?a] 2(3) f3 hdrSize by (auto simp: same_outside_def)
  have z3: "zeroed ?m3 (out + (cnt + hdrSize + n1)) (out + (cnt + hdrSize + n1) + surfs_bound ss)"
    by (rule zeroed_outside [OF zeroed_mono [OF Cons.prems(2)] m3]) (use B 2(2) in auto)
  obtain m4 n2 where 4: "pack_surfs enc wr hdrSize code out ss (cnt + hdrSize + n1) ?m3 =
      Some (COMPRESS_E_OK, m4, cnt + hdrSize + n1 + n2)" "n2 \<le> surfs_bound ss"
    "same_outside ?m3 m4 (?a + hdrSize + n1) (?a + hdrSize + n1 + n2)"
    "holds_surfs m4 (?a + hdrSize + n1) n2 ss"
    using Cons.IH [OF _ z3] Cons.prems(1,3) B 2(2) by (auto simp: add.assoc)
  have i23: "same_inside m2 ?m3 (?a + 16) (?a + hdrSize + n1)" and i34: "same_inside ?m3 m4 ?a (?a + hdrSize + n1)"
    and i12: "same_inside ?m1 m2 (?a + 16) (?a + hdrSize)"
    by (rule same_outside_inside [OF f3] same_outside_inside [OF 4(3)] same_outside_inside [OF 2(3)]; simp)+
  have "holds_chans m4 (?a + hdrSize) n1 s"
    by (rule holds_chans_inside [OF 2(4) same_inside_trans [OF same_inside_mono [OF i23] same_inside_mono [OF i34]]])
      (use hdrSize in simp_all)
  moreover have "rd m'' ?a = fields" if "same_inside m4 m'' ?a (?a + hdrSize)" for m''
  proof (rule rd_wr)
    have "same_inside m2 ?m3 (?a + 16) (?a + hdrSize)" "same_inside ?m3 m4 (?a + 16) (?a + hdrSize)"
      "same_inside m4 m'' (?a + 16) (?a + hdrSize)"
      using i23 i34 that by (auto elim!: same_inside_mono)
    with i12 show "same_inside ?m1 m'' (?a + 16) (?a + hdrSize)"
      by (metis same_inside_trans)
  qed
  ultimately have "holds_surfs m4 ?a (hdrSize + n1 + n2) (s # ss)"
    by (intro holds_surfs_Cons 4(4))
  moreover have "same_outside m m4 ?a (?a + (hdrSize + n1 + n2))"
    using m3 4(3) by (auto simp: same_outside_def)
  moreover have "load32u m4 ?a = u32 code"
    using load32u_inside [OF i34, of ?a] hdrSize fillGenericHeader_fields(1) [of ?a code _ m2] by simp
  ultimately show ?case
    using 2(1,2) 4(1,2) B
    by (intro exI [of _ m4] exI [of _ "hdrSize + n1 + n2"]) (auto simp: Let_def add.assoc)
qed

end

end
