(* ===== verification/Channel_Packets.thy ===== *)
theory Channel_Packets
  imports Channel_Codec Channel_Interface
begin

text \<open>
  The channel codecs meet the interface that the event loops rely on: what
  \<open>encodePSChannel\<close> and \<open>encodeChannel\<close> write is read back by \<open>decodePSChannel\<close> and
  \<open>decodeChannel\<close> from the header fields and the bytes alone.
\<close>

section \<open>The header\<close>

definition known_type :: "ChannelEncodingType_t \<Rightarrow> bool" where
  "known_type t \<longleftrightarrow> (\<forall>v. t \<noteq> ENCODE_OTHER v)"

lemma encType_code_range: "known_type t \<Longrightarrow> 0 \<le> encType_code t \<and> encType_code t < 2000"
  by (cases t) (simp_all add: encType_code_def known_type_def)

lemma encType_of_code_s32:
  assumes "known_type t"
  shows "encType_of_code (s32 (u32 (encType_code t))) = t"
proof -
  have "s32 (u32 (encType_code t)) = encType_code t"
    using encType_code_range [OF assms]
    by (simp add: u32_id is_u32_def s32_def signed_take_bit_int_eq_self)
  then show ?thesis
    using encType_of_code_code [of t] assms by (auto simp: known_type_def)
qed

lemma simpleCrcShort_inside:
  "same_inside m m' a b \<Longrightarrow> a \<le> p \<Longrightarrow> p + 2 * n \<le> b \<Longrightarrow> simpleCrcShort m' p n = simpleCrcShort m p n"
  unfolding simpleCrcShort_words
  by (intro arg_cong [of _ _ "crc_of _ _"] load_ushorts_inside [of _ _ _ b]) (auto elim: same_inside_mono)

lemma simpleCrcShort_range: "u16 (simpleCrcShort m p n) = simpleCrcShort m p n"
  by (simp add: simpleCrcShort_def u16_def)

lemma load_rawHdr_store: "wf_header h \<Longrightarrow> load_rawHdr (store_rawHdr m a h) a = h"
  by (simp add: load_rawHdr_def store_rawHdr_def mem_simps u8_id wf_header_def)

lemma load_rawHdr_inside: "same_inside m m' a b \<Longrightarrow> a + 4 \<le> b \<Longrightarrow> load_rawHdr m' a = load_rawHdr m a"
  by (simp add: load_rawHdr_def load8u_inside [of m m' a b])

lemma store_rawHdr_outside: "same_outside m (store_rawHdr m a h) a (a + 4)"
  by (simp add: same_outside_def store_rawHdr_def store8_def)

lemma finish_header_outside: "same_outside m (finish_header a n t m) (a + 4) (a + 12)"
  by (simp add: same_outside_def finish_header_def store32_def store16_def Let_def)

text \<open>The memory when the header is begun, when the waveform is written, and in the end.\<close>

definition written_channel :: "mem \<Rightarrow> mem \<Rightarrow> mem \<Rightarrow> nat \<Rightarrow> nat \<Rightarrow> RawSurfChannelHeader_t \<Rightarrow> int \<Rightarrow>
    ChannelEncodingType_t \<Rightarrow> bool" where
  "written_channel m m1 m2 buffer n h c t \<longleftrightarrow>
     same_outside (store32 (store_rawHdr m buffer h) (buffer + 4) c) m1 (buffer + 12) (buffer + 12 + n) \<and>
     same_inside (finish_header buffer n t m1) m2 buffer (buffer + 12 + n) \<and>
     wf_header h \<and> n < 65536 \<and> known_type t"

lemma written_whole:
  assumes "same_outside (store32 (store_rawHdr m buffer h) (buffer + 4) c) m1 (buffer + 12) (buffer + 12 + n)"
  shows "same_outside m (finish_header buffer n t m1) buffer (buffer + 12 + n)"
  using assms finish_header_outside [of m1 buffer n t] store_rawHdr_outside [of m buffer h]
    same_outside_store32 [of "store_rawHdr m buffer h" "buffer + 4" c]
  by (simp add: same_outside_def)

lemma written_fields:
  assumes "written_channel m m1 m2 buffer n h c t"
  shows "load_rawHdr m2 buffer = h" "header_encType m2 buffer = t" "header_numBytes m2 buffer = n"
    "load16u m2 (buffer + 10) = simpleCrcShort m2 (buffer + 12) (n div 2)"
    "same_inside m1 m2 (buffer + 12) (buffer + 12 + n)"
proof -
  let ?m0 = "store32 (store_rawHdr m buffer h) (buffer + 4) c"
  have wave: "same_outside ?m0 m1 (buffer + 12) (buffer + 12 + n)"
    and final: "same_inside (finish_header buffer n t m1) m2 buffer (buffer + 12 + n)"
    and wf: "wf_header h" "n < 65536" "known_type t"
    using assms by (simp_all add: written_channel_def)
  show body: "same_inside m1 m2 (buffer + 12) (buffer + 12 + n)"
    using final finish_header_outside [of m1 buffer n t] by (simp add: same_outside_def same_inside_def)
  have "same_inside ?m0 m1 buffer (buffer + 4)" "same_inside (store_rawHdr m buffer h) ?m0 buffer (buffer + 4)"
    "same_inside m1 (finish_header buffer n t m1) buffer (buffer + 4)"
    by (rule same_outside_inside [OF wave] same_outside_inside [OF finish_header_outside]
        same_outside_inside [OF same_outside_store32]; simp)+
  then show "load_rawHdr m2 buffer = h"
    using load_rawHdr_inside [OF final] load_rawHdr_inside [of _ _ buffer "buffer + 4"] wf(1)
    by (simp add: load_rawHdr_store)
  show "header_encType m2 buffer = t"
    using load32u_inside [OF final, of "buffer + 4"] encType_of_code_s32 [OF wf(3)]
    by (simp add: header_encType_def load32s_def finish_header_def Let_def mem_simps)
  show "header_numBytes m2 buffer = n"
    using load16u_inside [OF final, of "buffer + 8"] wf(2)
    by (simp add: header_numBytes_def finish_header_def Let_def mem_simps u16_id is_u16_def)
  have half: "buffer + 12 + 2 * (n div 2) \<le> buffer + 12 + n"
    by simp
  have "same_inside (store16 (store32 m1 (buffer + 4) (encType_code t)) (buffer + 8) (int n)) m1
      (buffer + 12) (buffer + 12 + n)"
    by (simp add: same_inside_def store32_def store16_def)
  note crc1 = simpleCrcShort_inside [OF this order_refl half]
  have "load16u m2 (buffer + 10) = simpleCrcShort m1 (buffer + 12) (n div 2)"
    using load16u_inside [OF final, of "buffer + 10"]
    by (simp add: finish_header_def Let_def simpleCrcShort_range crc1)
  with simpleCrcShort_inside [OF body order_refl half]
  show "load16u m2 (buffer + 10) = simpleCrcShort m2 (buffer + 12) (n div 2)"
    by simp
qed

section \<open>The encoding types that an encoder reports\<close>

lemma getEncType_known:
  "known_type (getBinaryEncType b)" "known_type (getBinFibEncType b)"
  "known_type (getEncodingTypeFromInputAndMuLawBits i k)"
  by (simp_all add: known_type_def getBinaryEncType_def getBinFibEncType_def
      getEncodingTypeFromInputAndMuLawBits_def)

lemma binary_known: "encodePSWaveLosslessBinary a ch m = Some (m', n, t) \<Longrightarrow> known_type t"
  by (auto simp: encodePSWaveLosslessBinary_def Let_def getEncType_known split: option.splits)

lemma combo_known: "encodePSWaveLosslessBinFibCombo a ch m = Some (m', n, t) \<Longrightarrow> known_type t"
  by (auto simp: encodePSWaveLosslessBinFibCombo_def Let_def getEncType_known bind_eq_Some_conv case_prod_beta)

lemma optimal_known: "encodePSWaveLossyMulawOptimally a ch k m = Some (m', n, t) \<Longrightarrow> known_type t"
  by (auto simp: encodePSWaveLossyMulawOptimally_def Let_def getEncType_known binary_known
      split: option.splits if_splits)

lemma enc_wave_known: "enc_wave t0 a ch m = Some (m', n, t) \<Longrightarrow> known_type t"
  unfolding enc_wave_def
  by (auto dest: with_type_Some binary_known combo_known optimal_known simp: known_type_def split: if_splits)

section \<open>The channels meet the interface\<close>

definition ps_chan_valid :: "ChannelEncodingType_t \<Rightarrow> SurfChannelPedSubbed_t \<Rightarrow> bool" where
  "ps_chan_valid t ch \<longleftrightarrow> wf_header (ps_header ch) \<and> wave_valid t ch"

definition ps_chan_ready :: "SurfChannelPedSubbed_t \<Rightarrow> bool" where
  "ps_chan_ready ch \<longleftrightarrow> length (ps_data ch) = MAX_NUMBER_SAMPLES"

definition ps_chan_result ::
    "ChannelEncodingType_t \<Rightarrow> SurfChannelPedSubbed_t \<Rightarrow> SurfChannelPedSubbed_t \<Rightarrow> SurfChannelPedSubbed_t" where
  "ps_chan_result t ch dst = fillMinMaxMeanRMS (dst\<lparr>ps_header := ps_header ch, ps_data := wave_result t ch\<rparr>)"

interpretation ps_channel: channel_codec encodePSChannel decodePSChannel header_numBytes
  ps_chan_valid ps_chan_ready ps_chan_result 533
proof unfold_locales
  fix e ch m a
  assume v: "ps_chan_valid e ch" and z: "zeroed m a (a + 533)"
  let ?m0 = "store32 (store_rawHdr m a (ps_header ch)) (a + 4) (encType_code e)"
  have "zeroed ?m0 (a + 12) (a + 12 + 521)"
    using z by (simp add: zeroed_def store_rawHdr_def store8_def store32_def store16_def)
  then obtain m1 n t where w: "enc_wave e (a + 12) ch ?m0 = Some (m1, n, t)" "n \<le> 521"
    "same_outside ?m0 m1 (a + 12) (a + 12 + n)" "decodes_to dec_wave m1 (a + 12) n t (wave_result e ch)"
    using channel_wave.encodes [of e ch ?m0 "a + 12"] v by (auto simp: ps_chan_valid_def)
  let ?m' = "finish_header a n t m1"
  have wc: "written_channel m m1 m'' a n (ps_header ch) (encType_code e) t"
    if "same_inside ?m' m'' a (a + 12 + n)" for m''
    using w(3) that v w(2) enc_wave_known [OF w(1)] by (auto simp: written_channel_def ps_chan_valid_def)
  have "header_numBytes m'' a = 12 + n - 12 \<and>
      (ps_chan_ready dst \<longrightarrow> decodePSChannel m'' a (a + 12) dst = Some (COMPRESS_E_OK, ps_chan_result e ch dst))"
    if s: "same_inside ?m' m'' a (a + (12 + n))" for m'' dst
  proof -
    have wc': "written_channel m m1 m'' a n (ps_header ch) (encType_code e) t"
      using wc s by (simp add: add.assoc)
    note f = written_fields [OF wc']
    have "ps_chan_ready dst \<Longrightarrow> dec_wave m'' (a + 12) (int n) (dst\<lparr>ps_header := ps_header ch\<rparr>) t =
        Some (COMPRESS_E_OK, dst\<lparr>ps_header := ps_header ch, ps_data := wave_result e ch\<rparr>)"
      using w(4) f(5) by (simp add: decodes_to_def ps_chan_ready_def)
    with f show ?thesis
      by (simp add: decodePSChannel_def ps_chan_result_def)
  qed
  moreover have "same_outside m ?m' a (a + (12 + n))"
    using written_whole [OF w(3)] by (simp add: add.assoc)
  ultimately show "\<exists>m' n. encodePSChannel e a ch m = Some (m', n) \<and> 12 \<le> n \<and> n \<le> 533 \<and>
      same_outside m m' a (a + n) \<and>
      (\<forall>m'' dst. same_inside m' m'' a (a + n) \<longrightarrow> header_numBytes m'' a = n - 12 \<and>
         (ps_chan_ready dst \<longrightarrow> decodePSChannel m'' a (a + 12) dst = Some (COMPRESS_E_OK, ps_chan_result e ch dst)))"
    using w(1,2) by (intro exI [of _ ?m'] exI [of _ "12 + n"]) (simp add: encodePSChannel_def Let_def)
qed

definition raw_chan_valid :: "ChannelEncodingType_t \<Rightarrow> SurfChannelFull_t \<Rightarrow> bool" where
  "raw_chan_valid t ch \<longleftrightarrow> wf_header (full_header ch) \<and> length (full_data ch) = MAX_NUMBER_SAMPLES \<and>
     (\<forall>x\<in>set (full_data ch). is_u16 x)"

interpretation raw_channel: channel_codec encodeChannel decodeChannel header_numBytes
  raw_chan_valid "\<lambda>dst. True" "\<lambda>e ch dst. ch" 532
proof unfold_locales
  fix e ch m a
  assume v: "raw_chan_valid e ch"
  let ?m0 = "store32 (store_rawHdr m a (full_header ch)) (a + 4) (encType_code e)"
  let ?m1 = "store_shorts ?m0 (a + 12) (full_data ch)"
  let ?m' = "finish_header a 520 ENCODE_NONE ?m1"
  have w: "same_outside ?m0 ?m1 (a + 12) (a + 12 + 520)"
    using store_shorts_outside [of ?m0 "a + 12" "full_data ch"] v by (simp add: raw_chan_valid_def)
  have sum: "a + 12 + 520 = a + 532"
    by simp
  have "header_numBytes m'' a = 532 - 12 \<and> decodeChannel m'' a (a + 12) dst = Some (COMPRESS_E_OK, ch)"
    if s: "same_inside ?m' m'' a (a + 532)" for m'' dst
  proof -
    have "written_channel m ?m1 m'' a 520 (full_header ch) (encType_code e) ENCODE_NONE"
      using w s v unfolding written_channel_def sum by (simp add: raw_chan_valid_def known_type_def)
    note f = written_fields [OF this]
    have "load_ushorts m'' (a + 12) 260 = load_ushorts ?m1 (a + 12) 260"
      using f(5) by (rule load_ushorts_inside) simp
    also have "\<dots> = full_data ch"
      using load_store_ushorts [of "full_data ch" ?m0 "a + 12"] v by (simp add: raw_chan_valid_def)
    finally show ?thesis
      using f by (simp add: decodeChannel_def decodeWaveNone_def Let_def)
  qed
  moreover have "same_outside m ?m' a (a + 532)"
    using written_whole [OF w] unfolding sum .
  moreover have "encodeChannel e a ch m = Some (?m', 532)"
    by (simp add: encodeChannel_def encodeWaveNone_def Let_def)
  ultimately show "\<exists>m' n. encodeChannel e a ch m = Some (m', n) \<and> 12 \<le> n \<and> n \<le> 532 \<and>
      same_outside m m' a (a + n) \<and> (\<forall>m'' dst. same_inside m' m'' a (a + n) \<longrightarrow>
        header_numBytes m'' a = n - 12 \<and> (True \<longrightarrow> decodeChannel m'' a (a + 12) dst = Some (COMPRESS_E_OK, ch)))"
    by (intro exI [of _ ?m'] exI [of _ 532]) simp
qed

section \<open>Corrupted channels\<close>

lemma load_ushorts_store:
  assumes "i < n"
  shows "load_ushorts (store16 m (p + 2 * i) v) p n = (load_ushorts m p n)[i := u16 v]"
proof (rule nth_equalityI)
  fix j assume "j < length (load_ushorts (store16 m (p + 2 * i) v) p n)"
  then have "j < n" by (simp add: load_ushorts_def)
  moreover have "load16u (store16 m (p + 2 * i) v) (p + 2 * j) = load16u m (p + 2 * j)" if "j \<noteq> i"
    using that by (intro load_store_other(5)) linarith
  ultimately show "load_ushorts (store16 m (p + 2 * i) v) p n ! j = (load_ushorts m p n)[i := u16 v] ! j"
    by (cases "j = i") (simp_all add: load_ushorts_def nth_list_update)
qed (simp add: load_ushorts_def)

lemma is_u16_load16u: "is_u16 (load16u m a)"
  by (metis is_u16_u16 take_bit_load16u u16_def)

lemma u16_Suc: "is_u16 x \<Longrightarrow> u16 (x + 1) \<noteq> x"
  by (cases "x = 65535") (auto simp: is_u16_def u16_def take_bit_eq_mod)

text \<open>
  A channel that decodes is rejected with \<open>COMPRESS_E_BAD_CRC\<close>, and the destination left alone,
  after any change of one 16-bit word of its data.
\<close>

lemma decodePSChannel_detects:
  assumes ok: "load16u m (a + 10) = simpleCrcShort m (a + 12) (header_numBytes m a div 2)"
    and i: "i < header_numBytes m a div 2" and v: "u16 v \<noteq> load16u m (a + 12 + 2 * i)"
  shows "decodePSChannel (store16 m (a + 12 + 2 * i) v) a (a + 12) dst = Some (COMPRESS_E_BAD_CRC, dst)"
proof -
  let ?m = "store16 m (a + 12 + 2 * i) v" and ?n = "header_numBytes m a div 2"
  have same: "header_numBytes ?m a = header_numBytes m a" "load16u ?m (a + 10) = load16u m (a + 10)"
    by (simp_all add: header_numBytes_def mem_simps)
  have "simpleCrcShort ?m (a + 12) ?n \<noteq> simpleCrcShort m (a + 12) ?n"
    unfolding simpleCrcShort_words load_ushorts_store [OF i]
    by (rule shortCrc.detects_one_word)
      (use i v is_u16_load16u [of m "a + 12 + 2 * i"] is_u16_u16 [of v] in
        \<open>auto simp: load_ushorts_def is_u16_def\<close>)
  then show ?thesis
    by (simp add: decodePSChannel_def same ok)
qed

section \<open>Properties\<close>

text \<open>
  C23. A channel encoded with any of the encoding types that \<open>wave_valid\<close> covers is decoded from
  its header: the raw header and the waveform come back (\<open>wave_result\<close>: exactly, or within
  the loss of the type), the statistics are those of the decoded waveform, and the encoder wrote
  nothing outside the bytes it counts, at most 533.
\<close>

theorem channel_roundtrip:
  assumes "wf_header (ps_header ch)" "wave_valid t ch" "zeroed m a (a + 533)"
    and "length (ps_data dst) = MAX_NUMBER_SAMPLES"
  shows "\<exists>m' n. encodePSChannel t a ch m = Some (m', n) \<and> n \<le> 533 \<and> same_outside m m' a (a + n) \<and>
    header_numBytes m' a = n - 12 \<and>
    decodePSChannel m' a (a + 12) dst = Some (COMPRESS_E_OK,
      fillMinMaxMeanRMS (dst\<lparr>ps_header := ps_header ch, ps_data := wave_result t ch\<rparr>))"
proof -
  obtain m' n where "encodePSChannel t a ch m = Some (m', n)" "n \<le> 533" "same_outside m m' a (a + n)"
    "\<forall>m'' dst. same_inside m' m'' a (a + n) \<longrightarrow> header_numBytes m'' a = n - 12 \<and> (ps_chan_ready dst \<longrightarrow>
      decodePSChannel m'' a (a + 12) dst = Some (COMPRESS_E_OK, ps_chan_result t ch dst))"
    using ps_channel.law [of t ch m a] assms(1-3) by (auto simp: ps_chan_valid_def)
  with assms(4) same_inside_refl [of m' a "a + n"] show ?thesis
    unfolding ps_chan_ready_def ps_chan_result_def by blast
qed

theorem channel_roundtrip_witness:
  "\<exists>m' n. encodePSChannel ENCODE_LOSSLESS_FIBONACCI 24 (example_channel (replicate 260 7)) (\<lambda>_. 0) = Some (m', n) \<and>
    decodePSChannel m' 24 36 (example_channel (replicate 260 0)) = Some (COMPRESS_E_OK,
      fillMinMaxMeanRMS ((example_channel (replicate 260 0))\<lparr>ps_header := ps_header (example_channel []),
        ps_data := replicate 260 7\<rparr>))"
proof -
  have "wave_valid ENCODE_LOSSLESS_FIBONACCI (example_channel (replicate 260 7))"
    by (simp add: wave_valid_def valid_fibonacci_def example_channel_def clamp_mean_def c_trunc_def valid_fib_def
        is_s8_def)
  moreover have "wave_result ENCODE_LOSSLESS_FIBONACCI (example_channel (replicate 260 7)) = replicate 260 7"
    by (simp add: wave_result_def mulaw_request_def example_channel_def)
  ultimately show ?thesis
    using channel_roundtrip [of "example_channel (replicate 260 7)" ENCODE_LOSSLESS_FIBONACCI "\<lambda>_. 0" 24
        "example_channel (replicate 260 0)"]
    by (fastforce simp: example_channel_def zeroed_def wf_header_def is_u8_def)
qed

text \<open>
  C31. \<open>decodePSChannel\<close> rejects an encoded channel in which one 16-bit word of the data was
  changed, with \<open>COMPRESS_E_BAD_CRC\<close> and without touching the destination.
\<close>

theorem channel_corruption_detected:
  assumes "wf_header (ps_header ch)" "wave_valid t ch" "zeroed m a (a + 533)"
    and "encodePSChannel t a ch m = Some (m', n)" "i < (n - 12) div 2" "u16 v \<noteq> load16u m' (a + 12 + 2 * i)"
  shows "decodePSChannel (store16 m' (a + 12 + 2 * i) v) a (a + 12) dst = Some (COMPRESS_E_BAD_CRC, dst)"
proof -
  have size: "header_numBytes m' a = n - 12"
    and dec: "\<And>dst. ps_chan_ready dst \<Longrightarrow> decodePSChannel m' a (a + 12) dst = Some (COMPRESS_E_OK, ps_chan_result t ch dst)"
    using ps_channel.law [of t ch m a] assms(1-4) by (auto simp: ps_chan_valid_def)
  have "load16u m' (a + 10) = simpleCrcShort m' (a + 12) (header_numBytes m' a div 2)"
    using dec [of "example_channel (replicate 260 0)"]
    by (auto simp: ps_chan_ready_def example_channel_def decodePSChannel_def Let_def split: if_splits)
  then show ?thesis
    using decodePSChannel_detects [of m' a i v] assms(5,6) size by simp
qed

theorem channel_corruption_detected_witness:
  "let ch = example_channel (replicate 260 7); m' = fst (the (encodePSChannel ENCODE_NONE 0 ch (\<lambda>_. 0)))
   in decodePSChannel (store16 m' 22 (load16u m' 22 + 1)) 0 12 ch = Some (COMPRESS_E_BAD_CRC, ch)"
proof -
  let ?ch = "example_channel (replicate 260 7)"
  obtain m' where m': "encodePSChannel ENCODE_NONE 0 ?ch (\<lambda>_. 0) = Some (m', 532)"
    by (simp add: encodePSChannel_def enc_wave_def with_type_def encodePSWaveNone_def Let_def)
  have "wf_header (ps_header ?ch)" "wave_valid ENCODE_NONE ?ch" "zeroed (\<lambda>_. 0) 0 (0 + 533)"
    by (simp_all add: example_channel_def wf_header_def is_u8_def wave_valid_def mulaw_request_def valid_none_def
        is_s16_def zeroed_def)
  moreover have "u16 (load16u m' 22 + 1) \<noteq> load16u m' 22"
    by (rule u16_Suc [OF is_u16_load16u])
  ultimately show ?thesis
    using channel_corruption_detected [OF _ _ _ m', of 5 "load16u m' 22 + 1" ?ch] by (simp add: m')
qed

end
