(* ===== verification/Event_Types.thy ===== *)
theory Event_Types
  imports Packets Compress_Types
begin

text \<open>
  The event bodies of \<open>anitaStructures.h\<close>: \<open>AnitaEventBody_t\<close> (raw) and
  \<open>PedSubbedEventBody_t\<close> (pedestals subtracted), 108 channels each, and the generic header as a
  field of a structure. The bytes that the compiler gives to a structure are the parameter
  \<open>img\<close> of the operations that compute a checksum over them.
\<close>

section \<open>The generic header of a structure\<close>

record GenericHeader_t =
  gh_code :: int
  gh_packetNumber :: int
  gh_numBytes :: int
  gh_feByte :: int
  gh_verId :: int
  gh_checksum :: int

text \<open>\<open>fillGenericHeader\<close> applied to a structure whose bytes are \<open>m\<close> from address 0 on.\<close>

definition fill_gHdr :: "mem \<Rightarrow> int \<Rightarrow> int \<Rightarrow> GenericHeader_t \<Rightarrow> GenericHeader_t" where
  "fill_gHdr m code numBytes h =
     (let numBytes = u16 numBytes in
      h\<lparr>gh_code := u32 code, gh_numBytes := numBytes, gh_feByte := 0xfe,
        gh_verId := (case base_packet code of None \<Rightarrow> 0 | Some p \<Rightarrow> u8 (packet_verId p)),
        gh_checksum := simpleIntCrc m 16 (intBytes numBytes)\<rparr>)"

definition load_gHdr :: "mem \<Rightarrow> nat \<Rightarrow> GenericHeader_t" where
  "load_gHdr m a = \<lparr>gh_code = load32u m a, gh_packetNumber = load32u m (a + 4), gh_numBytes = load16u m (a + 8),
     gh_feByte = load8u m (a + 10), gh_verId = load8u m (a + 11), gh_checksum = load32u m (a + 12)\<rparr>"

text \<open>The record version is the byte version, read through the fields.\<close>

lemma load_fill_gHdr: "load_gHdr (fillGenericHeader 0 code numBytes m) 0 = fill_gHdr m code numBytes (load_gHdr m 0)"
  using fillGenericHeader_fields [of 0 code numBytes m]
  by (simp add: load_gHdr_def fill_gHdr_def Let_def cong: option.case_cong)

section \<open>The bodies\<close>

record AnitaEventBody_t =
  ev_gHdr :: GenericHeader_t
  ev_eventNumber :: int
  ev_surfEventId :: "int list"
  ev_channel :: "SurfChannelFull_t list"

record PedSubbedEventBody_t =
  pb_gHdr :: GenericHeader_t
  pb_eventNumber :: int
  pb_surfEventId :: "int list"
  pb_whichPeds :: int
  pb_channel :: "SurfChannelPedSubbed_t list"

definition wf_raw_channel :: "SurfChannelFull_t \<Rightarrow> bool" where
  "wf_raw_channel ch \<longleftrightarrow> wf_header (full_header ch) \<and> length (full_data ch) = MAX_NUMBER_SAMPLES \<and>
     (\<forall>x\<in>set (full_data ch). is_u16 x)"

definition wf_event :: "AnitaEventBody_t \<Rightarrow> bool" where
  "wf_event ev \<longleftrightarrow> is_u32 (ev_eventNumber ev) \<and> length (ev_channel ev) = NUM_DIGITZED_CHANNELS \<and>
     (\<forall>ch\<in>set (ev_channel ev). wf_raw_channel ch)"

definition wf_ped_event :: "PedSubbedEventBody_t \<Rightarrow> bool" where
  "wf_ped_event pb \<longleftrightarrow> is_u32 (pb_eventNumber pb) \<and> is_u32 (pb_whichPeds pb) \<and>
     length (pb_channel pb) = NUM_DIGITZED_CHANNELS \<and> (\<forall>ch\<in>set (pb_channel pb). wf_channel ch)"

text \<open>The channels of an event, SURF by SURF, as the index \<open>GetChanIndex(surf,chan)\<close> has them.\<close>

definition by_surf :: "'a list \<Rightarrow> 'a list list" where
  "by_surf xs = map (\<lambda>surf. map (\<lambda>chan. xs ! GetChanIndex surf chan) [0..<CHANNELS_PER_SURF]) [0..<ACTIVE_SURFS]"

lemma by_surf_lengths [simp]: "map length (by_surf xs) = replicate 12 9"
  by (simp add: by_surf_def map_replicate_const o_def)

lemma concat_by_surf:
  assumes "length xs = NUM_DIGITZED_CHANNELS"
  shows "concat (by_surf xs) = xs"
proof -
  have "concat (map (\<lambda>surf. map (\<lambda>chan. xs ! (chan + 9 * surf)) [0..<9]) [0..<n]) = take (9 * n) xs"
    if "9 * n \<le> length xs" for n
    using that
  proof (induction n)
    case (Suc n)
    have "map (\<lambda>chan. xs ! (chan + 9 * n)) [0..<9] = take 9 (drop (9 * n) xs)"
      using Suc.prems by (intro nth_equalityI) (auto simp: add.commute)
    moreover have "take (9 * Suc n) xs = take (9 * n) xs @ take 9 (drop (9 * n) xs)"
      using take_add [of "9 * n" 9 xs] by (simp add: add.commute)
    ultimately show ?case
      using Suc by simp
  qed simp
  from this [of 12] assms show ?thesis
    by (simp add: by_surf_def GetChanIndex_def)
qed

lemma set_by_surf: "length xs = NUM_DIGITZED_CHANNELS \<Longrightarrow> s \<in> set (by_surf xs) \<Longrightarrow> x \<in> set s \<Longrightarrow> x \<in> set xs"
  using concat_by_surf [of xs] by (metis (no_types) UN_I set_concat)

lemma by_surf_zip:
  assumes "length xs = NUM_DIGITZED_CHANNELS" "length ys = NUM_DIGITZED_CHANNELS"
  shows "by_surf (zip xs ys) = map2 zip (by_surf xs) (by_surf ys)"
  using assms
  by (intro nth_equalityI) (auto simp: by_surf_def GetChanIndex_def intro!: nth_equalityI)

lemma concat_map2_zip:
  "map length xss = map length yss \<Longrightarrow>
    concat (map2 (\<lambda>xs ys. map2 f xs ys) xss yss) = map2 f (concat xss) (concat yss)"
proof (induction xss arbitrary: yss)
  case (Cons xs xss)
  then obtain ys yss' where "yss = ys # yss'" "length xs = length ys" "map length xss = map length yss'"
    by (cases yss) auto
  with Cons.IH show ?case by simp
qed simp

end
