(* ===== verification/Event_Pack.thy ===== *)
theory Event_Pack
  imports Channel_Packets Event_Types
begin

text \<open>
  The event layer of \<open>compressLib.c\<close>. A packed event is a 24-byte \<open>EncodedEventWrapper_t\<close>
  (generic header, \<open>eventNumber\<close> at 16, \<open>numBytes\<close> at 20) and, for each of the 12 SURFs, a packet:
  a generic header, \<open>eventNumber\<close> at 16 (and \<open>whichPeds\<close> at 20 for a pedestal subtracted event)
  and 9 encoded channels. A packer returns its error code, the memory and \<open>*numBytes\<close>, which it
  sets on success only.
\<close>

record EncodeControlStruct_t =
  pedUnixTime :: int
  encTypes :: "ChannelEncodingType_t list list"

section \<open>Packing\<close>

definition event_pairs :: "EncodeControlStruct_t \<Rightarrow> 'c list \<Rightarrow> (ChannelEncodingType_t \<times> 'c) list list" where
  \<comment> \<open>what the two loops hand to the channel encoder: \<open>encTypes[surf][chan]\<close> and \<open>channel[GetChanIndex(surf,chan)]\<close>\<close>
  "event_pairs cntl chans =
     map (\<lambda>surf. map (\<lambda>chan. (encTypes cntl ! surf ! chan, chans ! GetChanIndex surf chan))
       [0..<CHANNELS_PER_SURF]) [0..<ACTIVE_SURFS]"

definition finish_wrapper :: "PacketCode_t \<Rightarrow> nat \<Rightarrow> (CompressErrorCode_t \<times> mem \<times> nat) \<Rightarrow>
    CompressErrorCode_t \<times> mem \<times> nat option" where
  "finish_wrapper code out r =
     (case r of (retVal, m, cnt) \<Rightarrow>
        if retVal \<noteq> COMPRESS_E_OK then (retVal, m, None)
        else (COMPRESS_E_OK, fillGenericHeader out (packet_code code) (int cnt) (store32 m (out + 20) (int cnt - 24)),
              Some cnt))"

definition packEvent :: "AnitaEventBody_t \<Rightarrow> EncodeControlStruct_t \<Rightarrow> nat \<Rightarrow> mem \<Rightarrow>
    (CompressErrorCode_t \<times> mem \<times> nat option) option" where
  "packEvent bd cntl out m =
     (let m = store32 m (out + 16) (ev_eventNumber bd); cnt = 24 in
      map_option (finish_wrapper PACKET_ENC_EVENT_WRAPPER out)
        (pack_surfs encodeChannel (\<lambda>a m. store32 m (a + 16) (ev_eventNumber bd)) 20
           (packet_code PACKET_ENC_SURF) out (event_pairs cntl (ev_channel bd)) cnt m))"

definition write_surf_header :: "int \<Rightarrow> int \<Rightarrow> nat \<Rightarrow> mem \<Rightarrow> mem" where
  "write_surf_header eventNumber whichPeds a m = store32 (store32 m (a + 20) whichPeds) (a + 16) eventNumber"

definition packPedSubbedEvent :: "PedSubbedEventBody_t \<Rightarrow> EncodeControlStruct_t \<Rightarrow> nat \<Rightarrow> mem \<Rightarrow>
    (CompressErrorCode_t \<times> mem \<times> nat option) option" where
  "packPedSubbedEvent bd cntl out m =
     (let m = store32 m (out + 16) (pb_eventNumber bd); cnt = 24 in
      map_option (finish_wrapper PACKET_ENC_PEDSUB_EVENT_WRAPPER out)
        (pack_surfs encodePSChannel (write_surf_header (pb_eventNumber bd) (pb_whichPeds bd)) 24
           (packet_code PACKET_ENC_SURF_PEDSUB) out (event_pairs cntl (pb_channel bd)) cnt m))"

section \<open>Unpacking\<close>

definition read_surf_header :: "mem \<Rightarrow> nat \<Rightarrow> int \<times> int" where
  \<comment> \<open>\<open>whichPeds\<close> and \<open>eventNumber\<close>\<close>
  "read_surf_header m a = (load32u m (a + 20), load32u m (a + 16))"

definition channel_info :: "mem \<Rightarrow> nat \<Rightarrow> ChannelEncodingType_t \<times> nat" where
  "channel_info m a = (header_encType m a, header_numBytes m a)"

text \<open>The statistics arguments: \<open>cntlPtr->encTypes\<close> and \<open>sizeArray\<close>, for the channels reached.\<close>

definition put_encTypes :: "(ChannelEncodingType_t \<times> nat) list \<Rightarrow> EncodeControlStruct_t \<Rightarrow> EncodeControlStruct_t" where
  "put_encTypes infos cntl = cntl\<lparr>encTypes :=
     map (\<lambda>surf. map (\<lambda>chan. let i = GetChanIndex surf chan in
         if i < length infos then fst (infos ! i) else encTypes cntl ! surf ! chan)
       [0..<CHANNELS_PER_SURF]) [0..<ACTIVE_SURFS]\<rparr>"

definition put_sizes :: "(ChannelEncodingType_t \<times> nat) list \<Rightarrow> int list \<Rightarrow> int list" where
  "put_sizes infos sizeArray =
     map (\<lambda>i. if i < length infos then int (snd (infos ! i)) else sizeArray ! i) [0..<length sizeArray]"

text \<open>
  \<open>numBytes>sizeof(EncodedEventWrapper_t)\<close> compares in the unsigned \<open>size_t\<close>: a negative
  count is larger.
\<close>

function unpackToPedSubbedEventWithStats :: "(PedSubbedEventBody_t \<Rightarrow> mem) \<Rightarrow> PedSubbedEventBody_t \<Rightarrow> mem \<Rightarrow> nat \<Rightarrow> int \<Rightarrow>
    EncodeControlStruct_t option \<Rightarrow> int list option \<Rightarrow>
    (CompressErrorCode_t \<times> PedSubbedEventBody_t \<times> EncodeControlStruct_t option \<times> int list option) option" where
  "unpackToPedSubbedEventWithStats img bd m input numBytes cntl sizeArray =
     (if load32u m input = packet_code PACKET_ENC_PEDSUB_EVENT_WRAPPER \<and> u32 numBytes > 24
      then unpackToPedSubbedEventWithStats img bd m (input + 24) (s32 (numBytes - 24)) cntl sizeArray
      else case unpack_surfs decodePSChannel header_numBytes channel_info read_surf_header 24 m input numBytes
             (by_surf (pb_channel bd)) (pb_whichPeds bd, pb_eventNumber bd) 0 of
          None \<Rightarrow> None
        | Some (retVal, chans, (whichPeds, eventNumber), infos, cnt) \<Rightarrow>
            let bd = bd\<lparr>pb_whichPeds := whichPeds, pb_eventNumber := eventNumber, pb_channel := concat chans\<rparr>;
                cntl = map_option (put_encTypes infos) cntl;
                sizeArray = map_option (put_sizes infos) sizeArray
            in if retVal \<noteq> COMPRESS_E_OK then Some (retVal, bd, cntl, sizeArray)
               else Some (COMPRESS_E_OK,
                 bd\<lparr>pb_gHdr := fill_gHdr (img bd) (packet_code PACKET_PED_SUBBED_EVENT) (int cnt) (pb_gHdr bd)\<rparr>,
                 cntl, sizeArray))"
  by pat_completeness auto

lemma u32_s32 [simp]: "u32 (s32 x) = u32 x"
  by (simp add: u32_def s32_def take_bit_signed_take_bit)

lemma u32_sub: "u32 x > 24 \<Longrightarrow> u32 (x - 24) = u32 x - 24"
proof -
  assume "u32 x > 24"
  then have "0 \<le> u32 x - 24" "u32 x - 24 < 2 ^ 32"
    using is_u32_u32 [of x] by (auto simp: is_u32_def)
  then have "(u32 x - 24) mod 2 ^ 32 = u32 x - 24"
    by simp
  then show ?thesis
    by (simp add: u32_def take_bit_eq_mod mod_diff_left_eq)
qed

termination unpackToPedSubbedEventWithStats
  by (relation "measure (\<lambda>(img, bd, m, input, numBytes, cntl, sizeArray). nat (u32 numBytes))")
    (auto simp: u32_sub)

declare unpackToPedSubbedEventWithStats.simps [simp del]

definition unpackToPedSubbedEvent :: "(PedSubbedEventBody_t \<Rightarrow> mem) \<Rightarrow> PedSubbedEventBody_t \<Rightarrow> mem \<Rightarrow> nat \<Rightarrow> int \<Rightarrow>
    (CompressErrorCode_t \<times> PedSubbedEventBody_t) option" where
  "unpackToPedSubbedEvent img bd m input numBytes =
     map_option (\<lambda>(retVal, bd, cntl, sizeArray). (retVal, bd))
       (unpackToPedSubbedEventWithStats img bd m input numBytes None None)"

text \<open>
  One SURF packet. The channel is the one that the raw header names; a number that is no channel of
  the event is out of bounds.
\<close>

primrec unpack_named :: "mem \<Rightarrow> nat \<Rightarrow> int \<Rightarrow> nat list \<Rightarrow> SurfChannelPedSubbed_t list \<Rightarrow> nat \<Rightarrow>
    (CompressErrorCode_t \<times> SurfChannelPedSubbed_t list \<times> nat) option" where
  "unpack_named m input numBytes [] channel cnt = Some (COMPRESS_E_OK, channel, cnt)"
| "unpack_named m input numBytes (chan # chans) channel cnt =
     (let chanHd = input + cnt; cnt = cnt + 12; chanIndex = nat (chanId (load_rawHdr m chanHd)) in
      if chanIndex mod ACTIVE_SURFS \<noteq> chan then Some (COMPRESS_E_UNPACK, channel, cnt)
      else if length channel \<le> chanIndex then None
      else case decodePSChannel m chanHd (input + cnt) (channel ! chanIndex) of
        None \<Rightarrow> None
      | Some (retVal, ch) \<Rightarrow>
          let channel = channel[chanIndex := ch] in
          if retVal \<noteq> COMPRESS_E_OK then Some (retVal, channel, cnt)
          else let cnt = cnt + header_numBytes m chanHd in
            if int cnt > numBytes then Some (COMPRESS_E_BADSIZE, channel, cnt)
            else unpack_named m input numBytes chans channel cnt)"

definition unpackOneSurfToPedSubbedEvent :: "(PedSubbedEventBody_t \<Rightarrow> mem) \<Rightarrow> PedSubbedEventBody_t \<Rightarrow> mem \<Rightarrow> nat \<Rightarrow> int \<Rightarrow>
    (CompressErrorCode_t \<times> PedSubbedEventBody_t) option" where
  "unpackOneSurfToPedSubbedEvent img bd m input numBytes =
     (let bd = bd\<lparr>pb_whichPeds := load32u m (input + 20), pb_eventNumber := load32u m (input + 16)\<rparr> in
      case unpack_named m input numBytes [0..<CHANNELS_PER_SURF] (pb_channel bd) 24 of
        None \<Rightarrow> None
      | Some (retVal, channel, cnt) \<Rightarrow>
          let bd = bd\<lparr>pb_channel := channel\<rparr> in
          if retVal \<noteq> COMPRESS_E_OK then Some (retVal, bd)
          else Some (COMPRESS_E_OK,
            bd\<lparr>pb_gHdr := fill_gHdr (img bd) (packet_code PACKET_PED_SUBBED_EVENT) (int cnt) (pb_gHdr bd)\<rparr>))"

definition unpackOneWaveToPedSubbedEvent :: "PedSubbedEventBody_t \<Rightarrow> mem \<Rightarrow> nat \<Rightarrow> int \<Rightarrow>
    (CompressErrorCode_t \<times> PedSubbedEventBody_t) option" where
  "unpackOneWaveToPedSubbedEvent bd m input numBytes =
     (let bd = bd\<lparr>pb_whichPeds := load32u m (input + 20), pb_eventNumber := load32u m (input + 16)\<rparr>;
          cnt = 24; chanHd = input + cnt; cnt = cnt + 12; chanIndex = nat (chanId (load_rawHdr m chanHd)) in
      if length (pb_channel bd) \<le> chanIndex then None
      else case decodePSChannel m chanHd (input + cnt) (pb_channel bd ! chanIndex) of
        None \<Rightarrow> None
      | Some (retVal, ch) \<Rightarrow>
          let bd = bd\<lparr>pb_channel := (pb_channel bd)[chanIndex := ch]\<rparr> in
          if retVal \<noteq> COMPRESS_E_OK then Some (retVal, bd)
          else let cnt = cnt + header_numBytes m chanHd in
            if int cnt > numBytes then Some (COMPRESS_E_BADSIZE, bd) else Some (COMPRESS_E_OK, bd))"

section \<open>The event codec\<close>

interpretation ps_event: event_codec encodePSChannel decodePSChannel header_numBytes ps_chan_valid ps_chan_ready
    ps_chan_result 533 "write_surf_header eventNumber whichPeds" read_surf_header 24 "(u32 whichPeds, u32 eventNumber)"
  for eventNumber whichPeds :: int
proof unfold_locales
  fix m m'' :: mem and a :: nat
  show "same_outside m (write_surf_header eventNumber whichPeds a m) (a + 16) (a + 24)"
    by (simp add: same_outside_def write_surf_header_def store32_def store16_def)
  assume *: "same_inside (write_surf_header eventNumber whichPeds a m) m'' (a + 16) (a + 24)"
  show "read_surf_header m'' a = (u32 whichPeds, u32 eventNumber)"
    using load32u_inside [OF *, of "a + 20"] load32u_inside [OF *, of "a + 16"]
    by (simp add: read_surf_header_def write_surf_header_def mem_simps)
qed simp_all

text \<open>The channels that come back.\<close>

definition event_results :: "EncodeControlStruct_t \<Rightarrow> SurfChannelPedSubbed_t list \<Rightarrow> SurfChannelPedSubbed_t list \<Rightarrow>
    SurfChannelPedSubbed_t list" where
  "event_results cntl chans dst =
     map (\<lambda>i. ps_chan_result (encTypes cntl ! (i div 9) ! (i mod 9)) (chans ! i) (dst ! i)) [0..<NUM_DIGITZED_CHANNELS]"

lemma event_pairs_results:
  assumes "length dst = NUM_DIGITZED_CHANNELS"
  shows "concat (map2 ps_channel.results (event_pairs cntl chans) (by_surf dst)) = event_results cntl chans dst"
proof -
  have "map2 ps_channel.results (event_pairs cntl chans) (by_surf dst) = by_surf (event_results cntl chans dst)"
    by (intro nth_equalityI)
      (auto simp: event_pairs_def by_surf_def ps_channel.results_def GetChanIndex_def event_results_def
        intro!: nth_equalityI)
  then show ?thesis
    by (simp add: concat_by_surf event_results_def)
qed

lemma event_pairs_lengths [simp]: "map length (event_pairs cntl chans) = replicate 12 9"
  by (simp add: event_pairs_def map_replicate_const o_def)

lemma event_pairs_valid:
  assumes "\<forall>i < NUM_DIGITZED_CHANNELS. V (encTypes cntl ! (i div 9) ! (i mod 9)) (chans ! i)"
  shows "\<forall>s\<in>set (event_pairs cntl chans). \<forall>ec\<in>set s. V (fst ec) (snd ec)"
proof (intro ballI)
  fix s ec assume "s \<in> set (event_pairs cntl chans)" "ec \<in> set s"
  then obtain surf chan where *: "surf < 12" "chan < 9"
    "ec = (encTypes cntl ! surf ! chan, chans ! GetChanIndex surf chan)"
    by (auto simp: event_pairs_def)
  with assms [rule_format, of "chan + 9 * surf"] show "V (fst ec) (snd ec)"
    by (simp add: GetChanIndex_def)
qed

lemma event_pairs_bound: "ps_event.surfs_bound (event_pairs cntl chans) = 57852"
proof -
  have "ps_event.surfs_bound ss = sum_list (map (\<lambda>k. 24 + k * 533) (map length ss))"
    for ss :: "(ChannelEncodingType_t \<times> SurfChannelPedSubbed_t) list list"
    by (simp add: ps_event.surfs_bound_def o_def)
  from this [of "event_pairs cntl chans"] show ?thesis
    unfolding event_pairs_lengths by (simp add: sum_list_replicate)
qed

lemma finish_wrapper_facts:
  shows "same_outside m (fillGenericHeader out code k (store32 m (out + 20) v)) out (out + 24)"
    and "load32u (fillGenericHeader out code k (store32 m (out + 20) v)) out = u32 code"
  using fillGenericHeader_outside [of "store32 m (out + 20) v" out code k] same_outside_store32 [of m "out + 20" v]
    fillGenericHeader_fields(1) [of out code k "store32 m (out + 20) v"]
  by (auto simp: same_outside_def)

section \<open>The round trip of an event\<close>

lemma event_pack_unpack:
  assumes valid: "\<forall>i < NUM_DIGITZED_CHANNELS. ps_chan_valid (encTypes cntl ! (i div 9) ! (i mod 9)) (pb_channel bd ! i)"
    and nums: "is_u32 (pb_eventNumber bd)" "is_u32 (pb_whichPeds bd)"
    and z: "zeroed m out (out + 57876)"
    and dst: "length (pb_channel dst) = NUM_DIGITZED_CHANNELS" "\<forall>ch\<in>set (pb_channel dst). ps_chan_ready ch"
  shows "\<exists>m' n. packPedSubbedEvent bd cntl out m = Some (COMPRESS_E_OK, m', Some n) \<and> 24 \<le> n \<and> n \<le> 57876 \<and>
    same_outside m m' out (out + n) \<and>
    unpackToPedSubbedEvent img dst m' out (int n) =
      (let bd' = dst\<lparr>pb_whichPeds := pb_whichPeds bd, pb_eventNumber := pb_eventNumber bd,
                     pb_channel := event_results cntl (pb_channel bd) (pb_channel dst)\<rparr>
       in Some (COMPRESS_E_OK,
            bd'\<lparr>pb_gHdr := fill_gHdr (img bd') (packet_code PACKET_PED_SUBBED_EVENT) (int n - 24) (pb_gHdr bd')\<rparr>))"
proof -
  define ss where "ss = event_pairs cntl (pb_channel bd)"
  define m0 where "m0 = store32 m (out + 16) (pb_eventNumber bd)"
  let ?code = "packet_code PACKET_ENC_SURF_PEDSUB"
  have ss: "ss \<noteq> []" "map length ss = replicate 12 9"
    unfolding ss_def event_pairs_lengths by (simp_all add: event_pairs_def)
  have m0: "same_outside m m0 out (out + 24)"
    using same_outside_store32 [of m "out + 16" "pb_eventNumber bd"] by (auto simp: same_outside_def m0_def)
  have z0: "zeroed m0 (out + 24) (out + 24 + ps_event.surfs_bound ss)"
    using z m0 by (simp add: zeroed_def same_outside_def ss_def event_pairs_bound)
  obtain m1 n1 where 1: "pack_surfs encodePSChannel (write_surf_header (pb_eventNumber bd) (pb_whichPeds bd)) 24
      ?code out ss 24 m0 = Some (COMPRESS_E_OK, m1, 24 + n1)" "n1 \<le> 57852"
    "same_outside m0 m1 (out + 24) (out + 24 + n1)"
    "ps_event.holds_surfs (pb_whichPeds bd) (pb_eventNumber bd) m1 (out + 24) n1 ss"
    "load32u m1 (out + 24) = u32 ?code" "24 \<le> n1"
    using ps_event.pack_surfs_ok [OF _ z0, of "pb_eventNumber bd" "pb_whichPeds bd" ?code]
      event_pairs_valid [of ps_chan_valid cntl "pb_channel bd"] valid ss(1) event_pairs_bound
    by (auto simp: ss_def)
  let ?m' = "fillGenericHeader out (packet_code PACKET_ENC_PEDSUB_EVENT_WRAPPER) (int (24 + n1))
    (store32 m1 (out + 20) (int (24 + n1) - 24))"
  have pack: "packPedSubbedEvent bd cntl out m = Some (COMPRESS_E_OK, ?m', Some (24 + n1))"
    using 1(1) by (simp add: packPedSubbedEvent_def Let_def finish_wrapper_def ss_def m0_def)
  note wrap = finish_wrapper_facts [where m = m1 and out = out and code = "packet_code PACKET_ENC_PEDSUB_EVENT_WRAPPER"
      and k = "int (24 + n1)" and v = "int (24 + n1) - 24"]
  have out: "same_outside m ?m' out (out + (24 + n1))"
    using m0 1(3) wrap(1) by (auto simp: same_outside_def)
  have inside: "same_inside m1 ?m' (out + 24) (out + 24 + n1)"
    by (rule same_outside_inside [OF wrap(1)]) simp
  have code: "load32u ?m' (out + 24) = u32 ?code"
    using load32u_inside [OF inside, of "out + 24"] 1(5,6) by simp
  have num: "u32 (int (24 + n1)) = int (24 + n1)" "s32 (int (24 + n1) - 24) = int n1"
    using 1(2) by (simp_all add: u32_id is_u32_def s32_def signed_take_bit_int_eq_self)
  have dss: "map length (by_surf (pb_channel dst)) = map length ss"
    "\<forall>ds\<in>set (by_surf (pb_channel dst)). \<forall>d\<in>set ds. ps_chan_ready d"
    using ss(2) dst set_by_surf [OF dst(1)] by (simp, blast)
  obtain "is" where un: "unpack_surfs decodePSChannel header_numBytes channel_info read_surf_header 24 ?m' (out + 24)
      (int n1) (by_surf (pb_channel dst)) (pb_whichPeds dst, pb_eventNumber dst) 0 =
    Some (COMPRESS_E_OK, map2 ps_channel.results ss (by_surf (pb_channel dst)),
      (pb_whichPeds bd, pb_eventNumber bd), is, n1)"
    by (rule ps_event.holds_surfsD [OF 1(4) inside, of "out + 24" 0 "int n1" "by_surf (pb_channel dst)" channel_info
        "(pb_whichPeds dst, pb_eventNumber dst)"]) (use dss ss(1) nums in \<open>simp_all add: u32_id\<close>)
  have "unpackToPedSubbedEvent img dst ?m' out (int (24 + n1)) =
      map_option (\<lambda>(retVal, bd, cntl, sizeArray). (retVal, bd))
        (unpackToPedSubbedEventWithStats img dst ?m' (out + 24) (int n1) None None)"
    unfolding unpackToPedSubbedEvent_def
    by (subst unpackToPedSubbedEventWithStats.simps) (use wrap(2) num 1(6) in \<open>simp add: u32_id is_u32_def\<close>)
  also have "\<dots> = (let bd' = dst\<lparr>pb_whichPeds := pb_whichPeds bd, pb_eventNumber := pb_eventNumber bd,
                     pb_channel := event_results cntl (pb_channel bd) (pb_channel dst)\<rparr>
       in Some (COMPRESS_E_OK,
            bd'\<lparr>pb_gHdr := fill_gHdr (img bd') (packet_code PACKET_PED_SUBBED_EVENT) (int (24 + n1) - 24) (pb_gHdr bd')\<rparr>))"
    by (subst unpackToPedSubbedEventWithStats.simps)
      (use un code event_pairs_results [OF dst(1), of cntl "pb_channel bd"] in
        \<open>simp add: Let_def u32_id is_u32_def ss_def\<close>)
  finally show ?thesis
    using pack out 1(2) by (intro exI [of _ ?m'] exI [of _ "24 + n1"]) simp
qed

section \<open>Properties\<close>

text \<open>
  C22. Packing a pedestal subtracted event and unpacking it: when every channel is valid for its
  encoding type, \<open>packPedSubbedEvent\<close> succeeds with at most 57876 bytes and changes nothing
  outside them, and \<open>unpackToPedSubbedEvent\<close> finds the wrapper, and returns the event number,
  the pedestal run and all 108 channels (each as its channel codec returns it), with a generic
  header that counts the encoded bytes.
\<close>

theorem event_roundtrip:
  assumes "\<forall>i < NUM_DIGITZED_CHANNELS. ps_chan_valid (encTypes cntl ! (i div 9) ! (i mod 9)) (pb_channel bd ! i)"
    and "is_u32 (pb_eventNumber bd)" "is_u32 (pb_whichPeds bd)" "zeroed m out (out + 57876)"
    and "length (pb_channel dst) = NUM_DIGITZED_CHANNELS" "\<forall>ch\<in>set (pb_channel dst). length (ps_data ch) = MAX_NUMBER_SAMPLES"
  shows "\<exists>m' n. packPedSubbedEvent bd cntl out m = Some (COMPRESS_E_OK, m', Some n) \<and> n \<le> 57876 \<and>
    same_outside m m' out (out + n) \<and>
    unpackToPedSubbedEvent img dst m' out (int n) =
      (let bd' = dst\<lparr>pb_whichPeds := pb_whichPeds bd, pb_eventNumber := pb_eventNumber bd,
                     pb_channel := event_results cntl (pb_channel bd) (pb_channel dst)\<rparr>
       in Some (COMPRESS_E_OK,
            bd'\<lparr>pb_gHdr := fill_gHdr (img bd') (packet_code PACKET_PED_SUBBED_EVENT) (int n - 24) (pb_gHdr bd')\<rparr>))"
  using event_pack_unpack [OF assms(1-5), of img] assms(6) by (simp add: ps_chan_ready_def) blast

definition example_event :: "PedSubbedEventBody_t" where
  "example_event = \<lparr>pb_gHdr = \<lparr>gh_code = 0, gh_packetNumber = 0, gh_numBytes = 0, gh_feByte = 0, gh_verId = 0, gh_checksum = 0\<rparr>,
     pb_eventNumber = 12345, pb_surfEventId = replicate 12 0, pb_whichPeds = 77,
     pb_channel = replicate 108 (example_channel (replicate 260 (-3)))\<rparr>"

lemma example_event_valid:
  "ps_chan_valid (replicate 12 (replicate 9 ENCODE_LOSSLESS_FIBONACCI) ! (i div 9) ! (i mod 9)) (pb_channel example_event ! i)"
  if "i < 108"
proof -
  have "i div 9 < 12" "i mod 9 < 9"
    using that by (simp_all add: less_mult_imp_div_less)
  then show ?thesis
    using that by (simp add: ps_chan_valid_def example_event_def example_channel_def wf_header_def is_u8_def wave_valid_def
        valid_fibonacci_def clamp_mean_def c_trunc_def valid_fib_def is_s8_def)
qed

theorem event_roundtrip_witness:
  "let cntl = \<lparr>pedUnixTime = 0, encTypes = replicate 12 (replicate 9 ENCODE_LOSSLESS_FIBONACCI)\<rparr> in
   \<exists>m' n dst. packPedSubbedEvent example_event cntl 8 (\<lambda>_. 0) = Some (COMPRESS_E_OK, m', Some n) \<and>
     unpackToPedSubbedEvent (\<lambda>_ _. 0) (example_event\<lparr>pb_eventNumber := 1\<rparr>) m' 8 (int n) = Some (COMPRESS_E_OK, dst) \<and>
     pb_eventNumber dst = 12345"
proof -
  let ?cntl = "\<lparr>pedUnixTime = 0, encTypes = replicate 12 (replicate 9 ENCODE_LOSSLESS_FIBONACCI)\<rparr>"
  have "\<exists>m' n. packPedSubbedEvent example_event ?cntl 8 (\<lambda>_. 0) = Some (COMPRESS_E_OK, m', Some n) \<and> n \<le> 57876 \<and>
      same_outside (\<lambda>_. 0) m' 8 (8 + n) \<and>
      unpackToPedSubbedEvent (\<lambda>_ _. 0) (example_event\<lparr>pb_eventNumber := 1\<rparr>) m' 8 (int n) =
      (let bd' = (example_event\<lparr>pb_eventNumber := 1\<rparr>)\<lparr>pb_whichPeds := pb_whichPeds example_event,
          pb_eventNumber := pb_eventNumber example_event,
          pb_channel := event_results ?cntl (pb_channel example_event) (pb_channel (example_event\<lparr>pb_eventNumber := 1\<rparr>))\<rparr>
       in Some (COMPRESS_E_OK,
            bd'\<lparr>pb_gHdr := fill_gHdr (\<lambda>_. 0) (packet_code PACKET_PED_SUBBED_EVENT) (int n - 24) (pb_gHdr bd')\<rparr>))"
    by (rule event_roundtrip)
      (use example_event_valid in \<open>simp_all add: is_u32_def zeroed_def example_event_def example_channel_def\<close>)
  then show ?thesis
    by (auto simp: Let_def example_event_def)
qed

text \<open>
  \<open>unpackOneSurfToPedSubbedEvent\<close> compares the channel number modulo the number of SURFs
  with the loop counter: the packet of a SURF whose number is no multiple of 4 is rejected at its
  first channel.
\<close>

theorem one_surf_rejected:
  assumes "chanId (load_rawHdr m (input + 24)) = 9 * int surf" "surf mod 4 \<noteq> 0"
  shows "unpackOneSurfToPedSubbedEvent img bd m input numBytes =
    Some (COMPRESS_E_UNPACK, bd\<lparr>pb_whichPeds := load32u m (input + 20), pb_eventNumber := load32u m (input + 16)\<rparr>)"
proof -
  have "nat (9 * int surf) mod 12 = 3 * (3 * surf mod 4)"
    using mult_mod_right [of 3 "3 * surf" 4] by (simp add: nat_mult_distrib)
  moreover have "3 * surf mod 4 \<noteq> 0"
    using assms(2) by presburger
  ultimately have "nat (chanId (load_rawHdr m (input + 24))) mod 12 \<noteq> 0"
    by (simp add: assms(1))
  then show ?thesis
    by (simp add: unpackOneSurfToPedSubbedEvent_def Let_def upt_rec)
qed

theorem one_surf_rejected_witness:
  "unpackOneSurfToPedSubbedEvent (\<lambda>_ _. 0) example_event (\<lambda>a. if a = 24 then 9 else 0) 0 5000 =
    Some (COMPRESS_E_UNPACK, example_event\<lparr>pb_whichPeds := 0, pb_eventNumber := 0\<rparr>)"
  using one_surf_rejected [of "\<lambda>a. if a = 24 then 9 else 0" 0 1 "\<lambda>_ _. 0" example_event 5000]
  by (simp add: load_rawHdr_def load8u_def load32u_def load16u_def)

end
