(* ===== verification/C_Text.thy ===== *)
theory C_Text
  imports Flight_Prelude
begin

text \<open>
  The text functions of the C library that the programs use: character classes, \<open>strtol\<close>,
  \<open>strtod\<close>, the conversions \<open>%i\<close>, \<open>%u\<close>, \<open>%#x\<close> and \<open>%g\<close> of \<open>printf\<close>, \<open>fgets\<close> and the search for a
  character. A C string is the list of its characters without the terminator. The lemmas say
  that a printed number is read back.
\<close>

section \<open>Characters\<close>

definition NUL :: char where "NUL = CHR 0x00"
definition NEWLINE :: char where "NEWLINE = CHR 0x0A"
definition BACKSLASH :: char where "BACKSLASH = CHR 0x5C"

definition c_isspace :: "char \<Rightarrow> bool" where
  "c_isspace c \<longleftrightarrow> (of_char c :: nat) = 32 \<or> 9 \<le> (of_char c :: nat) \<and> (of_char c :: nat) \<le> 13"

definition is_digit :: "char \<Rightarrow> bool" where
  "is_digit c \<longleftrightarrow> 48 \<le> (of_char c :: nat) \<and> (of_char c :: nat) \<le> 57"

definition c_tolower :: "char \<Rightarrow> char" where
  "c_tolower c = (if 65 \<le> (of_char c :: nat) \<and> (of_char c :: nat) \<le> 90 then char_of (of_char c + 32 :: nat) else c)"

text \<open>The value of a character as a digit; 99 is no digit in any base that is used.\<close>

definition digit_of :: "char \<Rightarrow> nat" where
  "digit_of c =
     (if is_digit c then of_char c - 48
      else if 97 \<le> (of_char (c_tolower c) :: nat) \<and> (of_char (c_tolower c) :: nat) \<le> 102 then of_char (c_tolower c) - 87
      else 99)"

definition c_isxdigit :: "char \<Rightarrow> bool" where
  "c_isxdigit c \<longleftrightarrow> digit_of c < 16"

definition digit_char :: "nat \<Rightarrow> char" where
  "digit_char d = ''0123456789abcdef'' ! d"

section \<open>Strings\<close>

definition c_string :: "string \<Rightarrow> string" where
  "c_string s = takeWhile (\<lambda>c. c \<noteq> NUL) s"

text \<open>\<open>strchr\<close>: the text in front of the first \<open>c\<close> and the text behind it.\<close>

fun c_strchr :: "char \<Rightarrow> string \<Rightarrow> (string \<times> string) option" where
  "c_strchr c [] = None"
| "c_strchr c (x # s) = (if x = c then Some ([], s) else map_option (\<lambda>(a, b). (x # a, b)) (c_strchr c s))"

text \<open>The text without the white space at both ends.\<close>

definition c_trim :: "string \<Rightarrow> string" where
  "c_trim s = rev (dropWhile c_isspace (rev (dropWhile c_isspace s)))"

text \<open>\<open>fgets\<close> into a buffer of \<open>n\<close> bytes: the characters stored and the rest of the file.\<close>

definition c_fgets :: "nat \<Rightarrow> string \<Rightarrow> (string \<times> string) option" where
  "c_fgets n s =
     (if s = [] then None
      else let k = min (n - 1) (Suc (length (takeWhile (\<lambda>c. c \<noteq> NEWLINE) s))) in Some (take k s, drop k s))"

text \<open>\<open>snprintf\<close> of a string into \<open>n > 0\<close> bytes.\<close>

definition c_snprintf :: "nat \<Rightarrow> string \<Rightarrow> string" where
  "c_snprintf n s = take (n - 1) s"

section \<open>Numbers\<close>

fun show_base :: "nat \<Rightarrow> nat \<Rightarrow> string" where
  "show_base b n = (if b < 2 \<or> n < b then [digit_char n] else show_base b (n div b) @ [digit_char (n mod b)])"

declare show_base.simps [simp del]

definition show_uint :: "nat \<Rightarrow> string" where
  "show_uint n = show_base 10 n"

definition show_int :: "int \<Rightarrow> string" where
  "show_int i = (if i < 0 then CHR ''-'' # show_uint (nat (- i)) else show_uint (nat i))"

definition show_hex :: "int \<Rightarrow> string" where
  "show_hex i = (if i = 0 then ''0'' else ''0x'' @ show_base 16 (nat i))"

definition base_value :: "nat \<Rightarrow> string \<Rightarrow> nat" where
  "base_value b ds = fold (\<lambda>c v. b * v + digit_of c) ds 0"

definition digits_value :: "string \<Rightarrow> nat" where
  "digits_value ds = base_value 10 ds"

text \<open>
  The part that \<open>strtol\<close> and \<open>strtoul\<close> share: sign, base, digits and the text behind them. Without
  a digit nothing is consumed.
\<close>

definition scan_sign :: "string \<Rightarrow> bool \<times> string" where
  "scan_sign s = (case s of [] \<Rightarrow> (False, [])
     | c # r \<Rightarrow> if c = CHR ''-'' then (True, r) else if c = CHR ''+'' then (False, r) else (False, s))"

definition scan_base :: "nat \<Rightarrow> string \<Rightarrow> nat \<times> string" where
  "scan_base base s =
     (case s of
        z # x # d # r \<Rightarrow>
          if (base = 0 \<or> base = 16) \<and> z = CHR ''0'' \<and> c_tolower x = CHR ''x'' \<and> c_isxdigit d then (16, d # r)
          else (if base = 0 then if z = CHR ''0'' then 8 else 10 else base, s)
      | _ \<Rightarrow> (if base = 0 then if take 1 s = ''0'' then 8 else 10 else base, s))"

definition scan_number :: "nat \<Rightarrow> string \<Rightarrow> (bool \<times> nat \<times> string) option" where
  "scan_number base s =
     (let (neg, s1) = scan_sign (dropWhile c_isspace s); (b, s2) = scan_base base s1;
          ds = takeWhile (\<lambda>c. digit_of c < b) s2
      in if ds = [] then None else Some (neg, base_value b ds, drop (length ds) s2))"

definition c_strtol :: "nat \<Rightarrow> string \<Rightarrow> int \<times> string" where
  "c_strtol base s =
     (case scan_number base s of None \<Rightarrow> (0, s)
      | Some (neg, v, r) \<Rightarrow> (max (- (2 ^ 63)) (min (2 ^ 63 - 1) (if neg then - int v else int v)), r))"

definition c_strtoul :: "nat \<Rightarrow> string \<Rightarrow> int \<times> string" where
  "c_strtoul base s =
     (case scan_number base s of None \<Rightarrow> (0, s)
      | Some (neg, v, r) \<Rightarrow> (if 2 ^ 64 \<le> v then 2 ^ 64 - 1 else if neg then (- int v) mod 2 ^ 64 else int v, r))"

text \<open>
  \<open>strtod\<close> of a decimal number. The hexadecimal form, infinities and NaNs are left out: the
  validation of a value refuses their letters.
\<close>

definition ten_to :: "int \<Rightarrow> real" where
  "ten_to e = (if 0 \<le> e then 10 ^ nat e else 1 / 10 ^ nat (- e))"

definition scan_exponent :: "string \<Rightarrow> int \<times> string" where
  "scan_exponent s =
     (case s of [] \<Rightarrow> (0, [])
      | c # r \<Rightarrow>
        if c_tolower c = CHR ''e'' then
          let (neg, r1) = scan_sign r; ds = takeWhile is_digit r1 in
          if ds = [] then (0, s)
          else (if neg then - int (digits_value ds) else int (digits_value ds), drop (length ds) r1)
        else (0, s))"

definition c_strtod :: "string \<Rightarrow> real \<times> string" where
  "c_strtod s =
     (let (neg, s1) = scan_sign (dropWhile c_isspace s);
          ip = takeWhile is_digit s1; r1 = drop (length ip) s1;
          fp = (case r1 of c # r \<Rightarrow> if c = CHR ''.'' then takeWhile is_digit r else [] | [] \<Rightarrow> []);
          r2 = (case r1 of c # r \<Rightarrow> if c = CHR ''.'' then drop (length fp) r else r1 | [] \<Rightarrow> []);
          (e, r3) = scan_exponent r2;
          v = real (digits_value (ip @ fp)) * ten_to (e - int (length fp))
      in if ip = [] \<and> fp = [] then (0, s) else (if neg then - v else v, r3))"

text \<open>
  \<open>printf("%g")\<close>: six significant digits, ties to even, trailing zeros dropped, the exponent form
  outside \<open>10^-4 .. 10^6\<close>. The decimal exponent of a \<open>float\<close> lies between -45 and 38.
\<close>

definition dec_exp :: "real \<Rightarrow> int" where
  "dec_exp a = last (filter (\<lambda>e. ten_to e \<le> a) [-45..39])"

definition round_even :: "real \<Rightarrow> int" where
  "round_even x = (let f = \<lfloor>x\<rfloor>; d = x - of_int f in
     if d < 1 / 2 then f else if 1 / 2 < d then f + 1 else if even f then f else f + 1)"

definition strip_zeros :: "string \<Rightarrow> string" where
  "strip_zeros s = rev (dropWhile (\<lambda>c. c = CHR ''0'') (rev s))"

definition with_fraction :: "string \<Rightarrow> string \<Rightarrow> string" where
  "with_fraction ip fp = (let f = strip_zeros fp in if f = [] then ip else ip @ CHR ''.'' # f)"

definition sci_parts :: "real \<Rightarrow> int \<times> string" where
  "sci_parts a =
     (let e = dec_exp a; m = round_even (a * ten_to (5 - e)) in
      if 10 ^ 6 \<le> m then (e + 1, show_uint (nat (m div 10))) else (e, show_uint (nat m)))"

definition show_float :: "real \<Rightarrow> string" where
  "show_float x =
     (if x = 0 then ''0''
      else let (e, ds) = sci_parts \<bar>x\<bar> in
        (if x < 0 then ''-'' else []) @
        (if -4 \<le> e \<and> e < 0 then with_fraction ''0'' (replicate (nat (- e - 1)) CHR ''0'' @ ds)
         else if 0 \<le> e \<and> e < 6 then with_fraction (take (nat (e + 1)) ds) (drop (nat (e + 1)) ds)
         else with_fraction (take 1 ds) (drop 1 ds) @
              CHR ''e'' # (if e < 0 then CHR ''-'' else CHR ''+'') #
              (if \<bar>e\<bar> < 10 then CHR ''0'' # show_uint (nat \<bar>e\<bar>) else show_uint (nat \<bar>e\<bar>))))"

section \<open>Facts about characters\<close>

lemma of_char_digit_char: "d < 16 \<Longrightarrow> (of_char (digit_char d) :: nat) = (if d < 10 then 48 + d else 87 + d)"
proof -
  have "\<forall>d\<in>set [0..<16]. (of_char (''0123456789abcdef'' ! d) :: nat) = (if d < 10 then 48 + d else 87 + d)"
    by (simp add: upt_rec)
  then show "d < 16 \<Longrightarrow> ?thesis"
    by (simp add: digit_char_def)
qed

lemma digit_char_props:
  assumes "d < 16"
  shows "digit_of (digit_char d) = d" "d < 10 \<Longrightarrow> is_digit (digit_char d)"
    and "\<not> c_isspace (digit_char d)" "digit_char d \<noteq> CHR ''-''" "digit_char d \<noteq> CHR ''+''"
proof -
  have n: "(of_char (digit_char d) :: nat) = (if d < 10 then 48 + d else 87 + d)"
    using assms by (rule of_char_digit_char)
  then have low: "10 \<le> d \<Longrightarrow> c_tolower (digit_char d) = digit_char d"
    using assms by (auto simp: c_tolower_def)
  show "digit_of (digit_char d) = d"
    using n low assms by (cases "d < 10") (auto simp: digit_of_def is_digit_def)
  show "d < 10 \<Longrightarrow> is_digit (digit_char d)" "\<not> c_isspace (digit_char d)"
    using n assms by (auto simp: is_digit_def c_isspace_def split: if_splits)
  show "digit_char d \<noteq> CHR ''-''" "digit_char d \<noteq> CHR ''+''"
    using n assms by (auto split: if_splits)
qed

lemma is_digit_digit_of: "is_digit c \<longleftrightarrow> digit_of c < 10"
  by (auto simp: digit_of_def is_digit_def)

lemma is_digit_not:
  "is_digit c \<Longrightarrow> \<not> c_isspace c" "is_digit c \<Longrightarrow> c \<noteq> CHR ''-''" "is_digit c \<Longrightarrow> c \<noteq> CHR ''+''"
  "is_digit c \<Longrightarrow> c_isxdigit c" "is_digit c \<Longrightarrow> c_tolower c = c"
  by (auto simp: is_digit_def c_isspace_def c_isxdigit_def digit_of_def c_tolower_def)

section \<open>Printed numbers\<close>

lemma base_value_append: "base_value b (ds @ [c]) = b * base_value b ds + digit_of c"
  by (simp add: base_value_def)

lemma show_base_nonempty [simp]: "show_base b n \<noteq> []"
  by (subst show_base.simps) simp

lemma show_base_digits: "2 \<le> b \<Longrightarrow> c \<in> set (show_base b n) \<Longrightarrow> \<exists>d<b. c = digit_char d"
proof (induction b n rule: show_base.induct)
  case (1 b n)
  then have "n mod b < b"
    by (intro mod_less_divisor) linarith
  then have "\<exists>d<b. digit_char (n mod b) = digit_char d"
    by blast
  with 1 show ?case
    by (subst (asm) (2) show_base.simps) (auto split: if_splits)
qed

lemma base_value_show: "2 \<le> b \<Longrightarrow> b \<le> 16 \<Longrightarrow> base_value b (show_base b n) = n"
proof (induction b n rule: show_base.induct)
  case (1 b n)
  show ?case
  proof (cases "n < b")
    case True
    then show ?thesis
      using 1(2,3) by (subst show_base.simps) (simp add: base_value_def digit_char_props)
  next
    case False
    moreover have "n mod b < 16"
      using 1(2,3) by (meson less_le_trans mod_less_divisor order_less_le_trans pos2)
    ultimately show ?thesis
      using 1 by (subst show_base.simps) (simp add: base_value_append digit_char_props)
  qed
qed

lemma show_base_0: "show_base b 0 = ''0''"
  by (subst show_base.simps) (auto simp: digit_char_def)

lemma show_base_head:
  "2 \<le> b \<Longrightarrow> b \<le> 16 \<Longrightarrow> 0 < n \<Longrightarrow> \<exists>d r. show_base b n = digit_char d # r \<and> 0 < d \<and> d < b"
proof (induction b n rule: show_base.induct)
  case (1 b n)
  show ?case
  proof (cases "n < b")
    case True
    then show ?thesis
      using 1(4) by (subst show_base.simps) auto
  next
    case False
    then have "0 < n div b"
      using 1(2) by (simp add: div_greater_zero_iff)
    with False 1 show ?thesis
      by (subst show_base.simps) fastforce
  qed
qed

lemma show_uint_digits: "set (show_uint n) \<subseteq> {c. is_digit c} \<and> show_uint n \<noteq> []"
proof -
  have "is_digit c" if "c \<in> set (show_base 10 n)" for c
    using show_base_digits [OF _ that] digit_char_props(2) by fastforce
  then show ?thesis
    by (auto simp: show_uint_def)
qed

lemma digits_value_append: "digits_value (ds @ [c]) = 10 * digits_value ds + digit_of c"
  by (simp add: digits_value_def base_value_append)

lemma digits_value_show: "digits_value (show_uint n) = n"
  by (simp add: digits_value_def show_uint_def base_value_show)

text \<open>A text at which the reading of a number ends.\<close>

definition number_end :: "string \<Rightarrow> bool" where
  "number_end r \<longleftrightarrow> (case r of [] \<Rightarrow> True | c # _ \<Rightarrow> digit_of c = 99 \<and> c_tolower c \<noteq> CHR ''x'')"

lemma number_end_simps [simp]: "number_end []" "number_end (CHR '','' # r)"
  by (simp_all add: number_end_def digit_of_def is_digit_def c_tolower_def)

lemma takeWhile_digits:
  "2 \<le> b \<Longrightarrow> b \<le> 16 \<Longrightarrow> number_end r \<Longrightarrow> takeWhile (\<lambda>c. digit_of c < b) (show_base b n @ r) = show_base b n"
proof -
  assume b: "2 \<le> b" "b \<le> 16" and r: "number_end r"
  have "takeWhile (\<lambda>c. digit_of c < b) (show_base b n @ r) = show_base b n @ takeWhile (\<lambda>c. digit_of c < b) r"
    using b show_base_digits [OF b(1)] by (intro takeWhile_append2) (force simp: digit_char_props)
  also have "takeWhile (\<lambda>c. digit_of c < b) r = []"
    using b r by (auto simp: number_end_def split: list.splits)
  finally show ?thesis by simp
qed

lemma scan_sign_digit: "d < 16 \<Longrightarrow> scan_sign (digit_char d # s) = (False, digit_char d # s)"
  by (simp add: scan_sign_def digit_char_props)

lemma scan_base_digits:
  assumes "number_end r" "base = 0 \<or> base = 10"
  shows "scan_base base (show_uint n @ r) = (if base = 0 \<and> n = 0 then 8 else 10, show_uint n @ r)"
proof (cases "n = 0")
  case True
  then have "show_uint n = ''0''"
    by (simp add: show_uint_def show_base_0)
  then show ?thesis
    using assms True by (auto simp: scan_base_def number_end_def split: list.splits)
next
  case False
  then obtain d s where d: "show_base 10 n = digit_char d # s" "0 < d" "d < 10"
    using show_base_head [of 10 n] by auto
  have "digit_char d \<noteq> CHR ''0''"
    using d(2,3) of_char_digit_char [of d] by auto
  then show ?thesis
    using assms(2) False d(1) by (auto simp: scan_base_def show_uint_def split: list.splits)
qed

lemma scan_number_uint:
  assumes "number_end r" "base = 0 \<or> base = 10"
  shows "scan_number base (show_uint n @ r) = Some (False, n, r)"
    and "scan_number base (CHR ''-'' # show_uint n @ r) = Some (True, n, r)"
proof -
  let ?s = "show_uint n @ r"
  obtain d s where d: "show_base 10 n = digit_char d # s" "d < 10"
    using show_base_digits [of 10 _ n] by (cases "show_base 10 n") auto
  then have ws: "dropWhile c_isspace ?s = ?s" "scan_sign ?s = (False, ?s)"
    by (simp_all add: show_uint_def digit_char_props scan_sign_digit)
  have minus: "dropWhile c_isspace (CHR ''-'' # ?s) = CHR ''-'' # ?s" "scan_sign (CHR ''-'' # ?s) = (True, ?s)"
    by (simp_all add: c_isspace_def scan_sign_def)
  define b :: nat where "b = (if base = 0 \<and> n = 0 then 8 else 10)"
  have b: "scan_base base ?s = (b, ?s)"
    using scan_base_digits [OF assms, of n] by (simp add: b_def)
  have "show_uint n = show_base b n"
    by (simp add: b_def show_uint_def show_base_0)
  then have tw: "takeWhile (\<lambda>c. digit_of c < b) ?s = show_base b n" "?s = show_base b n @ r"
    using takeWhile_digits [of b r] assms(1) by (simp_all add: b_def)
  have "base_value b (show_base b n) = n" "show_base b n \<noteq> []"
    using base_value_show [of b n] by (simp_all add: b_def)
  with tw b ws minus show "scan_number base ?s = Some (False, n, r)"
    "scan_number base (CHR ''-'' # ?s) = Some (True, n, r)"
    by (simp_all add: scan_number_def)
qed

lemma strtol_show_int:
  assumes "number_end r" "base = 0 \<or> base = 10" "- (2 ^ 63) \<le> i" "i < 2 ^ 63"
  shows "c_strtol base (show_int i @ r) = (i, r)"
  using assms(3,4) scan_number_uint [OF assms(1,2), of "nat i"] scan_number_uint [OF assms(1,2), of "nat (- i)"]
  by (simp add: c_strtol_def show_int_def)

lemma scan_number_hex:
  assumes "number_end r" "0 \<le> i"
  shows "scan_number 0 (show_hex i @ r) = Some (False, nat i, r)"
proof (cases "i = 0")
  case True
  then show ?thesis
    using scan_number_uint(1) [OF assms(1), of 0 0]
    by (simp add: show_hex_def show_uint_def show_base_0)
next
  case False
  let ?s = "show_base 16 (nat i)"
  obtain d s where d: "?s = digit_char d # s" "d < 16"
    using False show_base_head [of 16 "nat i"] assms(2) by auto
  have "dropWhile c_isspace (''0x'' @ ?s @ r) = ''0x'' @ ?s @ r" "scan_sign (''0x'' @ ?s @ r) = (False, ''0x'' @ ?s @ r)"
    by (simp_all add: c_isspace_def scan_sign_def)
  moreover have "scan_base 0 (''0x'' @ ?s @ r) = (16, ?s @ r)"
    using d by (simp add: scan_base_def c_isxdigit_def digit_char_props c_tolower_def)
  moreover have "takeWhile (\<lambda>c. digit_of c < 16) (?s @ r) = ?s" "base_value 16 ?s = nat i"
    using takeWhile_digits [of 16 r] base_value_show [of 16] assms(1) by simp_all
  ultimately show ?thesis
    using False d by (simp add: scan_number_def show_hex_def)
qed

lemma strtol_show_hex:
  assumes "number_end r" "0 \<le> i" "i < 2 ^ 63"
  shows "c_strtol 0 (show_hex i @ r) = (i, r)" "c_strtoul 0 (show_hex i @ r) = (i, r)"
  using assms scan_number_hex [OF assms(1,2)] by (simp_all add: c_strtol_def c_strtoul_def)

lemma show_int_nat: "0 \<le> a \<Longrightarrow> show_int a = show_uint (nat a)"
  by (simp add: show_int_def)

lemma show_int_inj: "0 \<le> a \<Longrightarrow> 0 \<le> b \<Longrightarrow> show_int a = show_int b \<Longrightarrow> a = b"
  by (metis digits_value_show eq_nat_nat_iff show_int_nat)

end
