(* ===== verification/Pedestals.thy ===== *)
theory Pedestals
  imports Event_Types C_Text
begin

text \<open>
  The pedestal library \<open>src/common/pedestalLib/pedestalLib.c\<close>: subtraction of the pedestals from
  a raw event, their addition, the calculation of new pedestals from events, and the state that
  decides when a pedestal file is loaded. The \<open>float\<close> values are reals. A four dimensional
  array \<open>[surf][chip][chan][samp]\<close> is a function of its indices.
\<close>

type_synonym ped_array = "nat \<Rightarrow> nat \<Rightarrow> nat \<Rightarrow> nat \<Rightarrow> int"

record PedestalStruct_t =
  pd_unixTime :: int
  pd_nsamples :: int
  pd_thePeds :: ped_array
  pd_pedsRMS :: ped_array

abbreviation (input) SURF_BITMASK :: int where "SURF_BITMASK \<equiv> 0x0ffc"
abbreviation (input) HITBUS_MASK :: int where "HITBUS_MASK \<equiv> 0x1000"
abbreviation (input) PED_DEFAULT_VALUE :: int where "PED_DEFAULT_VALUE \<equiv> 650"

section \<open>Subtraction\<close>

text \<open>What the loop over the samples of a channel keeps; \<open>mean\<close>, \<open>meanSq\<close> are \<open>int\<close> sums.\<close>

record sub_state =
  sb_data :: "int list"
  sb_xMax :: int
  sb_xMin :: int
  sb_mean :: int
  sb_meanSq :: int
  sb_nsamps :: nat

definition hitbus :: "int \<Rightarrow> bool" where
  "hitbus word \<longleftrightarrow> word AND HITBUS_MASK \<noteq> 0"

definition sub_value :: "int \<Rightarrow> int \<Rightarrow> int" where
  "sub_value word ped = s16 (s16 (drop_bit 1 (word AND SURF_BITMASK)) - ped)"

definition sub_step :: "int list \<Rightarrow> (nat \<Rightarrow> int) \<Rightarrow> nat \<Rightarrow> sub_state \<Rightarrow> sub_state" where
  "sub_step raw ped samp s =
     (if hitbus (raw ! samp) then s\<lparr>sb_data := (sb_data s)[samp := 0]\<rparr>
      else let dataVal = sub_value (raw ! samp) (ped samp) in
        \<lparr>sb_data = (sb_data s)[samp := dataVal],
         sb_xMax = (if dataVal > sb_xMax s then dataVal else sb_xMax s),
         sb_xMin = (if dataVal < sb_xMin s then dataVal else sb_xMin s),
         sb_mean = s32 (sb_mean s + dataVal), sb_meanSq = s32 (sb_meanSq s + dataVal * dataVal),
         sb_nsamps = sb_nsamps s + 1\<rparr>)"

definition sub_channel :: "(nat \<Rightarrow> int) \<Rightarrow> SurfChannelFull_t \<Rightarrow> SurfChannelPedSubbed_t \<Rightarrow> SurfChannelPedSubbed_t" where
  "sub_channel ped raw ch =
     (let s = fold (sub_step (full_data raw) ped) [0..<MAX_NUMBER_SAMPLES]
                \<lparr>sb_data = ps_data ch, sb_xMax = -4095, sb_xMin = 4095, sb_mean = 0, sb_meanSq = 0, sb_nsamps = 0\<rparr>;
          ch = \<lparr>ps_header = full_header raw, xMax = sb_xMax s, xMin = sb_xMin s, ps_mean = 0, ps_rms = 0,
                ps_data = sb_data s\<rparr>
      in if sb_nsamps s \<noteq> 0 then
           let fmean = real_of_int (sb_mean s) / real (sb_nsamps s);
               fmeanSq = real_of_int (sb_meanSq s) / real (sb_nsamps s);
               ch = ch\<lparr>ps_mean := fmean\<rparr>
           in if fmeanSq > fmean * fmean then ch\<lparr>ps_rms := sqrt (fmeanSq - fmean * fmean)\<rparr> else ch
         else ch)"

text \<open>\<open>currentPeds.thePeds[surf][chip][chan]\<close> for the channel number \<open>i\<close> and its header.\<close>

definition chip_of :: "RawSurfChannelHeader_t \<Rightarrow> nat" where
  "chip_of h = nat (chipIdFlag h AND 0x3)"

definition channel_peds :: "PedestalStruct_t \<Rightarrow> RawSurfChannelHeader_t \<Rightarrow> nat \<Rightarrow> nat \<Rightarrow> int" where
  "channel_peds peds h i = pd_thePeds peds (i div CHANNELS_PER_SURF) (chip_of h) (i mod CHANNELS_PER_SURF)"

definition doPedSubtraction :: "(string \<Rightarrow> int) \<Rightarrow> (PedSubbedEventBody_t \<Rightarrow> mem) \<Rightarrow> PedestalStruct_t \<Rightarrow> AnitaEventBody_t \<Rightarrow>
    PedSubbedEventBody_t \<Rightarrow> PedSubbedEventBody_t" where
  "doPedSubtraction sizeof img peds rawBd pedSubBd =
     (let pedSubBd = pedSubBd\<lparr>pb_whichPeds := pd_unixTime peds, pb_eventNumber := ev_eventNumber rawBd,
            pb_surfEventId := ev_surfEventId rawBd,
            pb_channel := map (\<lambda>i. let raw = ev_channel rawBd ! i in
                sub_channel (channel_peds peds (full_header raw) i) raw (pb_channel pedSubBd ! i))
              [0..<NUM_DIGITZED_CHANNELS]\<rparr>
      in pedSubBd\<lparr>pb_gHdr := fill_gHdr (img pedSubBd) (packet_code PACKET_PED_SUBBED_EVENT)
           (sizeof ''PedSubbedEventBody_t'') (pb_gHdr pedSubBd)\<rparr>)"

section \<open>Addition\<close>

definition add_value :: "int \<Rightarrow> int \<Rightarrow> int" where
  "add_value x ped = u16 (push_bit 1 (u16 (s16 x + s16 ped)))"

definition add_channel :: "(nat \<Rightarrow> int) \<Rightarrow> SurfChannelPedSubbed_t \<Rightarrow> SurfChannelFull_t \<Rightarrow> SurfChannelFull_t" where
  "add_channel ped ch raw =
     raw\<lparr>full_header := ps_header ch,
         full_data := fold (\<lambda>samp dat. dat[samp := add_value (ps_data ch ! samp) (ped samp)])
           [0..<MAX_NUMBER_SAMPLES] (full_data raw)\<rparr>"

definition doPedAddition :: "PedestalStruct_t \<Rightarrow> PedSubbedEventBody_t \<Rightarrow> AnitaEventBody_t \<Rightarrow> AnitaEventBody_t" where
  "doPedAddition peds pedSubBd rawBd =
     rawBd\<lparr>ev_channel := map (\<lambda>i. let ch = pb_channel pedSubBd ! i in
         add_channel (channel_peds peds (ps_header ch) i) ch (ev_channel rawBd ! i)) [0..<NUM_DIGITZED_CHANNELS]\<rparr>"

section \<open>What subtraction computes\<close>

lemma s32_add [simp]: "s32 (s32 a + b) = s32 (a + b)"
proof -
  have "take_bit (Suc 31) (signed_take_bit 31 a) = take_bit (Suc 31) a"
    by (rule take_bit_signed_take_bit) simp
  then have "take_bit (Suc 31) (signed_take_bit 31 a + b) = take_bit (Suc 31) (a + b)"
    by (metis take_bit_add)
  then show ?thesis
    unfolding s32_def signed_take_bit_eq_iff_take_bit_eq .
qed

definition good_samples :: "int list \<Rightarrow> nat list \<Rightarrow> nat list" where
  "good_samples raw is = filter (\<lambda>samp. \<not> hitbus (raw ! samp)) is"

definition sub_samples :: "int list \<Rightarrow> (nat \<Rightarrow> int) \<Rightarrow> nat list \<Rightarrow> int list" where
  "sub_samples raw ped is = map (\<lambda>samp. sub_value (raw ! samp) (ped samp)) (good_samples raw is)"

definition sub_all :: "int list \<Rightarrow> (nat \<Rightarrow> int) \<Rightarrow> nat \<Rightarrow> int" where
  "sub_all raw ped samp = (if hitbus (raw ! samp) then 0 else sub_value (raw ! samp) (ped samp))"

lemma sub_samples_simps [simp]:
  "good_samples raw [] = []" "sub_samples raw ped [] = []"
  "good_samples raw (i # is) = (if hitbus (raw ! i) then good_samples raw is else i # good_samples raw is)"
  "sub_samples raw ped (i # is) = (if hitbus (raw ! i) then sub_samples raw ped is
     else sub_value (raw ! i) (ped i) # sub_samples raw ped is)"
  "sub_samples raw ped is = [] \<longleftrightarrow> good_samples raw is = []"
  "length (sub_samples raw ped is) = length (good_samples raw is)"
  "good_samples raw is = [] \<Longrightarrow> sub_samples raw ped is = []"
  by (simp_all add: good_samples_def sub_samples_def)

lemma sub_step_cases:
  "hitbus (raw ! i) \<Longrightarrow> sub_step raw ped i s = s\<lparr>sb_data := (sb_data s)[i := sub_all raw ped i]\<rparr>"
  "\<not> hitbus (raw ! i) \<Longrightarrow> sub_step raw ped i s =
    \<lparr>sb_data = (sb_data s)[i := sub_all raw ped i],
     sb_xMax = max (sub_value (raw ! i) (ped i)) (sb_xMax s), sb_xMin = min (sub_value (raw ! i) (ped i)) (sb_xMin s),
     sb_mean = s32 (sb_mean s + sub_value (raw ! i) (ped i)),
     sb_meanSq = s32 (sb_meanSq s + sub_value (raw ! i) (ped i) * sub_value (raw ! i) (ped i)),
     sb_nsamps = sb_nsamps s + 1\<rparr>"
  by (simp_all add: sub_step_def sub_all_def Let_def max_def min_def)

lemma fold_sub_step:
  "fold (sub_step raw ped) is s =
    \<lparr>sb_data = fold (\<lambda>samp dat. dat[samp := sub_all raw ped samp]) is (sb_data s),
     sb_xMax = fold max (sub_samples raw ped is) (sb_xMax s),
     sb_xMin = fold min (sub_samples raw ped is) (sb_xMin s),
     sb_mean = (if good_samples raw is = [] then sb_mean s else s32 (sb_mean s + (\<Sum>x\<leftarrow>sub_samples raw ped is. x))),
     sb_meanSq = (if good_samples raw is = [] then sb_meanSq s
                  else s32 (sb_meanSq s + (\<Sum>x\<leftarrow>sub_samples raw ped is. x * x))),
     sb_nsamps = sb_nsamps s + length (good_samples raw is)\<rparr>"
proof (induction "is" arbitrary: s)
  case (Cons i "is")
  show ?case
    by (cases "hitbus (raw ! i)")
      (simp_all add: Cons sub_step_cases add.assoc)
qed simp

text \<open>Writing every element of an array in turn.\<close>

lemma fold_list_update:
  "n \<le> length xs \<Longrightarrow> fold (\<lambda>i xs. xs[i := f i]) [0..<n] xs = map f [0..<n] @ drop n xs"
proof (induction n)
  case (Suc n)
  have "drop n xs = xs ! n # drop (Suc n) xs"
    using Suc.prems by (simp add: Cons_nth_drop_Suc)
  with Suc show ?case
    by (simp add: list_update_append)
qed simp

lemma fold_list_update_all: "length xs = n \<Longrightarrow> fold (\<lambda>i xs. xs[i := f i]) [0..<n] xs = map f [0..<n]"
  by (simp add: fold_list_update)

definition chan_samples :: "(nat \<Rightarrow> int) \<Rightarrow> SurfChannelFull_t \<Rightarrow> int list" where
  \<comment> \<open>the subtracted samples without hit bus\<close>
  "chan_samples ped raw = sub_samples (full_data raw) ped [0..<MAX_NUMBER_SAMPLES]"

lemma sub_channel_fields:
  assumes "length (ps_data ch) = MAX_NUMBER_SAMPLES"
  shows "ps_header (sub_channel ped raw ch) = full_header raw"
    and "ps_data (sub_channel ped raw ch) = map (sub_all (full_data raw) ped) [0..<MAX_NUMBER_SAMPLES]"
    and "xMax (sub_channel ped raw ch) = Max (insert (-4095) (set (chan_samples ped raw)))"
    and "xMin (sub_channel ped raw ch) = Min (insert 4095 (set (chan_samples ped raw)))"
    and "ps_mean (sub_channel ped raw ch) = (if chan_samples ped raw = [] then 0
      else real_of_int (s32 (\<Sum>x\<leftarrow>chan_samples ped raw. x)) / real (length (chan_samples ped raw)))"
  using Max.set_eq_fold [of "-4095" "chan_samples ped raw"] Min.set_eq_fold [of 4095 "chan_samples ped raw"] assms
  by (simp_all add: sub_channel_def fold_sub_step Let_def fold_list_update_all chan_samples_def)

lemma length_sub_channel [simp]:
  "length (ps_data ch) = MAX_NUMBER_SAMPLES \<Longrightarrow> length (ps_data (sub_channel ped raw ch)) = MAX_NUMBER_SAMPLES"
  by (simp add: sub_channel_fields)

section \<open>Adding what was subtracted\<close>

lemma and_surf_bitmask:
  fixes w :: int
  shows "0 \<le> w AND SURF_BITMASK" "w AND SURF_BITMASK \<le> 4092"
    "push_bit 1 (drop_bit 1 (w AND SURF_BITMASK)) = w AND SURF_BITMASK"
proof -
  have mask: "(0x0ffc :: int) = push_bit 2 (mask 10)"
    by (simp add: mask_eq_exp_minus_1 push_bit_eq_mult)
  have bits: "bit (0x0ffc :: int) k \<longleftrightarrow> 2 \<le> k \<and> k < 12" for k
    by (subst mask) (auto simp: bit_push_bit_iff bit_mask_iff)
  show "0 \<le> w AND SURF_BITMASK"
    by (simp add: AND_lower)
  show "w AND SURF_BITMASK \<le> 4092"
    by (rule order_trans [OF AND_upper2]) simp_all
  show "push_bit 1 (drop_bit 1 (w AND SURF_BITMASK)) = w AND SURF_BITMASK"
    by (rule bit_eqI) (simp only: bit_push_bit_iff bit_drop_bit_eq bit_and_iff bits o_apply, auto)
qed

lemma drop_surf_bitmask:
  "0 \<le> drop_bit 1 (w AND SURF_BITMASK)" "drop_bit 1 (w AND SURF_BITMASK) \<le> 2046" for w :: int
proof -
  have "0 \<le> (w AND SURF_BITMASK) div 2" "(w AND SURF_BITMASK) div 2 \<le> 2046"
    using and_surf_bitmask(1,2) [of w] by linarith+
  then show "0 \<le> drop_bit 1 (w AND SURF_BITMASK)" "drop_bit 1 (w AND SURF_BITMASK) \<le> 2046"
    by (simp_all add: drop_bit_eq_div)
qed

lemma u16_s16_add [simp]: "u16 (s16 a + b) = u16 (a + b)" "u16 (a + s16 b) = u16 (a + b)"
proof -
  have *: "u16 (s16 a + b) = u16 (a + b)" for a b
    using u16_s16 [of a] unfolding u16_def by (metis take_bit_add)
  show "u16 (s16 a + b) = u16 (a + b)" "u16 (a + s16 b) = u16 (a + b)"
    using * [of a b] * [of b a] by (simp_all add: add.commute)
qed

lemma add_sub_value: "add_value (sub_value word ped) ped = word AND SURF_BITMASK"
proof -
  let ?r = "drop_bit 1 (word AND SURF_BITMASK)"
  have "u16 (s16 (sub_value word ped) + s16 ped) = u16 ?r"
    by (simp add: sub_value_def)
  also have "\<dots> = ?r"
    using drop_surf_bitmask [of word] by (intro u16_id) (simp add: is_u16_def)
  finally have "add_value (sub_value word ped) ped = u16 (word AND SURF_BITMASK)"
    by (simp only: add_value_def and_surf_bitmask)
  also have "\<dots> = word AND SURF_BITMASK"
    using and_surf_bitmask(1,2) [of word] by (intro u16_id) (simp add: is_u16_def)
  finally show ?thesis .
qed

lemma add_sub_channel:
  assumes "length (ps_data ch) = MAX_NUMBER_SAMPLES" "length (full_data raw') = MAX_NUMBER_SAMPLES"
  shows "add_channel ped (sub_channel ped raw ch) raw' =
    \<lparr>full_header = full_header raw,
     full_data = map (\<lambda>samp. let word = full_data raw ! samp in
       if hitbus word then add_value 0 (ped samp) else word AND SURF_BITMASK) [0..<MAX_NUMBER_SAMPLES]\<rparr>"
  using assms
  by (simp add: add_channel_def sub_channel_fields fold_list_update_all sub_all_def add_sub_value Let_def)

lemma add_value_0: "add_value 0 ped = u16 (2 * ped)"
proof -
  have "u16 (push_bit 1 (u16 (s16 ped))) = u16 (2 * ped)"
    unfolding u16_s16 by (simp add: u16_def push_bit_eq_mult take_bit_eq_mod mod_simps) (simp add: mult.commute)
  then show ?thesis
    by (simp add: add_value_def s16_def)
qed

section \<open>Loading pedestals\<close>

text \<open>
  What the library finds outside: the pedestal files (\<open>None\<close> when \<open>fillUsefulPedStruct\<close> cannot
  fill the structure) and the target of the link \<open>CURRENT_PEDESTALS\<close>.
\<close>

record ped_world =
  ped_file :: "string \<Rightarrow> PedestalStruct_t option"
  ped_link :: "string \<Rightarrow> string option"

text \<open>
  The library's state: \<open>currentPeds\<close> and the function-static flags of \<open>loadThesePeds\<close>,
  \<open>loadCurrentPeds\<close>, \<open>subtractCurrentPeds\<close> and \<open>subtractPedsFromBufferedFile\<close>, with the error
  counter of \<open>checkCurrentPedLink\<close>.
\<close>

record ped_lib =
  currentPeds :: PedestalStruct_t
  theseLoaded :: bool
  currentLoaded :: bool
  subtractLoaded :: bool
  fileLoaded :: bool
  linkErrors :: nat

definition default_peds :: PedestalStruct_t where
  "default_peds = \<lparr>pd_unixTime = PED_DEFAULT_VALUE, pd_nsamples = 0,
     pd_thePeds = (\<lambda>_ _ _ _. PED_DEFAULT_VALUE), pd_pedsRMS = (\<lambda>_ _ _ _. 0)\<rparr>"

definition zero_peds :: PedestalStruct_t where
  "zero_peds = \<lparr>pd_unixTime = 0, pd_nsamples = 0, pd_thePeds = (\<lambda>_ _ _ _. 0), pd_pedsRMS = (\<lambda>_ _ _ _. 0)\<rparr>"

definition ped_lib_init :: ped_lib where
  "ped_lib_init = \<lparr>currentPeds = zero_peds, theseLoaded = False, currentLoaded = False, subtractLoaded = False,
     fileLoaded = False, linkErrors = 0\<rparr>"

definition loadPedsFromFile :: "ped_world \<Rightarrow> string \<Rightarrow> ped_lib \<Rightarrow> int \<times> ped_lib" where
  "loadPedsFromFile w filename s =
     (case ped_file w filename of
        None \<Rightarrow> (-1, s\<lparr>currentPeds := default_peds\<rparr>)
      | Some p \<Rightarrow> (0, s\<lparr>currentPeds := p\<rparr>))"

definition ped_filename :: "int \<Rightarrow> string" where
  "ped_filename whichPeds = ''/mnt/data/anita/pedestal/peds_'' @ show_uint (nat whichPeds) @ ''.dat''"

definition current_link :: string where
  "current_link = ''/mnt/data/anita/pedestal/current''"

definition loadThesePeds :: "ped_world \<Rightarrow> int \<Rightarrow> ped_lib \<Rightarrow> int \<times> ped_lib" where
  "loadThesePeds w whichPeds s =
     (let s = (if theseLoaded s \<and> pd_unixTime (currentPeds s) \<noteq> whichPeds then s\<lparr>theseLoaded := False\<rparr> else s) in
      if theseLoaded s then (0, s)
      else let (retVal, s) = loadPedsFromFile w (ped_filename whichPeds) s
           in (retVal, if retVal = 0 then s\<lparr>theseLoaded := True\<rparr> else s))"

text \<open>
  \<open>sscanf(justFile,"peds_%u.dat",&pedUnixTime)\<close>: without digits behind the prefix the variable
  keeps its indeterminate value (\<open>None\<close>). Signs and blanks before the digits are not modelled.
\<close>

definition scan_pedname :: "string \<Rightarrow> int option" where
  "scan_pedname s =
     (let ds = takeWhile is_digit (drop 5 s) in
      if take 5 s = ''peds_'' \<and> ds \<noteq> [] then Some (u32 (int (digits_value ds))) else None)"

definition base_name :: "string \<Rightarrow> string" where
  "base_name path = rev (takeWhile (\<lambda>c. c \<noteq> CHR ''/'') (rev path))"

text \<open>After a hundred errors a failing \<open>readlink\<close> falls through to \<open>pedname[-1]\<close>.\<close>

definition checkCurrentPedLink :: "ped_world \<Rightarrow> ped_lib \<Rightarrow> (bool \<times> ped_lib) option" where
  "checkCurrentPedLink w s =
     (case ped_link w current_link of
        None \<Rightarrow> if linkErrors s < 100 then Some (False, s\<lparr>linkErrors := linkErrors s + 1\<rparr>) else None
      | Some pedname \<Rightarrow> map_option (\<lambda>pedUnixTime. (pedUnixTime = pd_unixTime (currentPeds s), s))
          (scan_pedname (base_name pedname)))"

definition loadCurrentPeds :: "ped_world \<Rightarrow> ped_lib \<Rightarrow> (int \<times> ped_lib) option" where
  "loadCurrentPeds w s =
     map_option (\<lambda>(fresh, s).
         let s = s\<lparr>currentLoaded := fresh\<rparr> in
         if currentLoaded s then (0, s)
         else let (retVal, s) = loadPedsFromFile w current_link s
              in (retVal, if retVal = 0 then s\<lparr>currentLoaded := True\<rparr> else s))
       (if currentLoaded s then checkCurrentPedLink w s else Some (False, s))"

text \<open>The subtraction entry points: each loads pedestals and subtracts \<open>currentPeds\<close>.\<close>

definition prepareCurrentPeds :: "ped_world \<Rightarrow> ped_lib \<Rightarrow> ped_lib option" where
  \<comment> \<open>\<open>subtractCurrentPeds\<close> before \<open>doPedSubtraction\<close>\<close>
  "prepareCurrentPeds w s =
     (case (if subtractLoaded s then checkCurrentPedLink w s else Some (False, s)) of
        None \<Rightarrow> None
      | Some (fresh, s) \<Rightarrow>
          if fresh then Some s
          else map_option (\<lambda>(retVal, s). s\<lparr>subtractLoaded := True\<rparr>) (loadCurrentPeds w (s\<lparr>subtractLoaded := False\<rparr>)))"

definition prepareBufferedPeds :: "ped_world \<Rightarrow> string \<Rightarrow> bool \<Rightarrow> ped_lib \<Rightarrow> ped_lib" where
  \<comment> \<open>\<open>subtractPedsFromBufferedFile\<close> before \<open>doPedSubtraction\<close>\<close>
  "prepareBufferedPeds w filename forceReload s =
     (if \<not> fileLoaded s \<or> forceReload then (snd (loadPedsFromFile w filename s))\<lparr>fileLoaded := True\<rparr> else s)"

type_synonym subtraction = "(string \<Rightarrow> int) \<Rightarrow> (PedSubbedEventBody_t \<Rightarrow> mem) \<Rightarrow> AnitaEventBody_t \<Rightarrow> PedSubbedEventBody_t \<Rightarrow>
  PedSubbedEventBody_t"

definition subtractCurrentPeds :: "ped_world \<Rightarrow> ped_lib \<Rightarrow> (subtraction \<times> ped_lib) option" where
  "subtractCurrentPeds w s =
     map_option (\<lambda>s. (\<lambda>sizeof img. doPedSubtraction sizeof img (currentPeds s), s)) (prepareCurrentPeds w s)"

definition subtractThesePeds :: "ped_world \<Rightarrow> int \<Rightarrow> ped_lib \<Rightarrow> subtraction \<times> ped_lib" where
  "subtractThesePeds w whichPeds s =
     (let s = snd (loadThesePeds w whichPeds s) in (\<lambda>sizeof img. doPedSubtraction sizeof img (currentPeds s), s))"

definition subtractPedsFromFile :: "ped_world \<Rightarrow> string \<Rightarrow> ped_lib \<Rightarrow> subtraction \<times> ped_lib" where
  "subtractPedsFromFile w filename s =
     (let s = snd (loadPedsFromFile w filename s) in (\<lambda>sizeof img. doPedSubtraction sizeof img (currentPeds s), s))"

definition subtractPedsFromBufferedFile :: "ped_world \<Rightarrow> string \<Rightarrow> bool \<Rightarrow> ped_lib \<Rightarrow> subtraction \<times> ped_lib" where
  "subtractPedsFromBufferedFile w filename forceReload s =
     (let s = prepareBufferedPeds w filename forceReload s
      in (\<lambda>sizeof img. doPedSubtraction sizeof img (currentPeds s), s))"

definition addPeds :: "ped_world \<Rightarrow> PedSubbedEventBody_t \<Rightarrow> AnitaEventBody_t \<Rightarrow> ped_lib \<Rightarrow> AnitaEventBody_t \<times> ped_lib" where
  "addPeds w pedSubBd rawBd s =
     (let s = snd (loadThesePeds w (pb_whichPeds pedSubBd) s) in (doPedAddition (currentPeds s) pedSubBd rawBd, s))"

definition addThesePeds :: "ped_world \<Rightarrow> PedSubbedEventBody_t \<Rightarrow> AnitaEventBody_t \<Rightarrow> int \<Rightarrow> ped_lib \<Rightarrow>
    AnitaEventBody_t \<times> ped_lib" where
  "addThesePeds w pedSubBd rawBd whichPeds s =
     (let s = snd (loadThesePeds w whichPeds s) in (doPedAddition (currentPeds s) pedSubBd rawBd, s))"

definition addPedsFromFile :: "ped_world \<Rightarrow> PedSubbedEventBody_t \<Rightarrow> AnitaEventBody_t \<Rightarrow> string \<Rightarrow> ped_lib \<Rightarrow>
    AnitaEventBody_t \<times> ped_lib" where
  "addPedsFromFile w pedSubBd rawBd filename s =
     (let s = snd (loadPedsFromFile w filename s) in (doPedAddition (currentPeds s) pedSubBd rawBd, s))"

section \<open>The states of the library\<close>

text \<open>
  One call of the library, in a world that satisfies \<open>ok\<close> (files come and go between calls).
\<close>

inductive ped_step :: "(ped_world \<Rightarrow> bool) \<Rightarrow> ped_lib \<Rightarrow> ped_lib \<Rightarrow> bool" for ok where
  these: "ok w \<Longrightarrow> ped_step ok s (snd (loadThesePeds w whichPeds s))"
| current: "ok w \<Longrightarrow> loadCurrentPeds w s = Some (r, s') \<Longrightarrow> ped_step ok s s'"
| from_file: "ok w \<Longrightarrow> ped_step ok s (snd (loadPedsFromFile w filename s))"
| subtract_current: "ok w \<Longrightarrow> subtractCurrentPeds w s = Some (f, s') \<Longrightarrow> ped_step ok s s'"
| subtract_buffered: "ok w \<Longrightarrow> ped_step ok s (snd (subtractPedsFromBufferedFile w filename force s))"

inductive_cases ped_step_cases: "ped_step ok s s'"

definition ped_reachable :: "(ped_world \<Rightarrow> bool) \<Rightarrow> ped_lib \<Rightarrow> bool" where
  "ped_reachable ok s \<longleftrightarrow> (ped_step ok)\<^sup>*\<^sup>* ped_lib_init s"

text \<open>
  The pedestal files are what \<open>writePedestalsWithTime\<close> made them: a file is named by its time, and two
  files with the same time have the same contents (\<open>run t\<close>).
\<close>

definition coherent :: "(int \<Rightarrow> PedestalStruct_t) \<Rightarrow> ped_world \<Rightarrow> bool" where
  "coherent run w \<longleftrightarrow> (\<forall>f p. ped_file w f = Some p \<longrightarrow> p = run (pd_unixTime p)) \<and>
     (\<forall>t p. ped_file w (ped_filename t) = Some p \<longrightarrow> pd_unixTime p = t)"

text \<open>A state in which something was loaded has the default pedestals or those of a run.\<close>

definition known_peds :: "(int \<Rightarrow> PedestalStruct_t) \<Rightarrow> PedestalStruct_t \<Rightarrow> bool" where
  "known_peds run p \<longleftrightarrow> p = default_peds \<or> p = run (pd_unixTime p)"

definition any_loaded :: "ped_lib \<Rightarrow> bool" where
  "any_loaded s \<longleftrightarrow> theseLoaded s \<or> currentLoaded s \<or> subtractLoaded s \<or> fileLoaded s"

definition ped_inv :: "(int \<Rightarrow> PedestalStruct_t) \<Rightarrow> ped_lib \<Rightarrow> bool" where
  "ped_inv run s \<longleftrightarrow> (any_loaded s \<longrightarrow> known_peds run (currentPeds s))"

lemma loadThesePeds_cases:
  "loadThesePeds w t s =
    (if theseLoaded s \<and> pd_unixTime (currentPeds s) = t then (0, s)
     else case ped_file w (ped_filename t) of
       None \<Rightarrow> (-1, s\<lparr>theseLoaded := False, currentPeds := default_peds\<rparr>)
     | Some p \<Rightarrow> (0, s\<lparr>theseLoaded := True, currentPeds := p\<rparr>))"
  by (cases s) (auto simp: loadThesePeds_def loadPedsFromFile_def Let_def split: option.splits)

lemma coherent_known: "coherent run w \<Longrightarrow> ped_file w f = Some p \<Longrightarrow> known_peds run p"
  by (auto simp: coherent_def known_peds_def)

lemma loadPedsFromFile_known:
  "coherent run w \<Longrightarrow> known_peds run (currentPeds (snd (loadPedsFromFile w f s)))"
  using coherent_known [of run w f] by (auto simp: loadPedsFromFile_def known_peds_def split: option.split)

lemma loadThesePeds_inv: "coherent run w \<Longrightarrow> ped_inv run s \<Longrightarrow> ped_inv run (snd (loadThesePeds w t s))"
  using coherent_known [of run w "ped_filename t"]
  by (auto simp: loadThesePeds_cases ped_inv_def known_peds_def split: option.split)

lemma checkCurrentPedLink_same:
  "checkCurrentPedLink w s = Some (b, s') \<Longrightarrow> currentPeds s' = currentPeds s \<and> any_loaded s' = any_loaded s"
  by (auto simp: checkCurrentPedLink_def any_loaded_def split: option.splits if_splits)

text \<open>\<open>loadCurrentPeds\<close> keeps the pedestals when its flag is set, and loads them otherwise.\<close>

lemma loadCurrentPeds_known:
  assumes "loadCurrentPeds w s = Some (r, s')" "coherent run w" "ped_inv run s"
  shows "known_peds run (currentPeds s')"
proof (cases "currentLoaded s")
  case True
  then obtain b s1 where chk: "checkCurrentPedLink w s = Some (b, s1)"
    using assms(1) by (auto simp: loadCurrentPeds_def split: if_splits)
  show ?thesis
  proof (cases b)
    case True
    with assms chk \<open>currentLoaded s\<close> checkCurrentPedLink_same [OF chk] show ?thesis
      by (auto simp: loadCurrentPeds_def Let_def ped_inv_def any_loaded_def)
  next
    case False
    with assms(1) chk \<open>currentLoaded s\<close> loadPedsFromFile_known [OF assms(2), of current_link "s1\<lparr>currentLoaded := False\<rparr>"]
    show ?thesis
      by (auto simp: loadCurrentPeds_def Let_def split: prod.splits if_splits)
  qed
next
  case False
  with assms(1) loadPedsFromFile_known [OF assms(2), of current_link "s\<lparr>currentLoaded := False\<rparr>"] show ?thesis
    by (auto simp: loadCurrentPeds_def Let_def split: prod.splits if_splits)
qed

lemma prepareCurrentPeds_known:
  assumes "prepareCurrentPeds w s = Some s'" "coherent run w" "ped_inv run s"
  shows "known_peds run (currentPeds s')"
proof -
  obtain b s1 where s1: "(if subtractLoaded s then checkCurrentPedLink w s else Some (False, s)) = Some (b, s1)"
    using assms(1) by (auto simp: prepareCurrentPeds_def split: option.splits)
  have same: "currentPeds s1 = currentPeds s" "any_loaded s1 = any_loaded s" "b \<Longrightarrow> any_loaded s"
    using s1 checkCurrentPedLink_same by (auto split: if_splits simp: any_loaded_def)
  have inv: "ped_inv run (s1\<lparr>subtractLoaded := False\<rparr>)"
    using assms(3) same by (auto simp: ped_inv_def any_loaded_def)
  show ?thesis
  proof (cases b)
    case True
    then show ?thesis
      using assms(1,3) s1 same by (simp add: prepareCurrentPeds_def ped_inv_def)
  next
    case False
    then obtain r s2 where "loadCurrentPeds w (s1\<lparr>subtractLoaded := False\<rparr>) = Some (r, s2)" "s' = s2\<lparr>subtractLoaded := True\<rparr>"
      using assms(1) s1 by (auto simp: prepareCurrentPeds_def)
    with loadCurrentPeds_known [OF _ assms(2) inv] show ?thesis
      by auto
  qed
qed

lemma ped_step_inv:
  assumes "ped_step ok s s'" "\<And>w. ok w \<Longrightarrow> coherent run w" "ped_inv run s"
  shows "ped_inv run s'"
  using assms(1)
proof (rule ped_step_cases)
  fix w t assume "s' = snd (loadThesePeds w t s)" "ok w"
  then show ?thesis
    using assms loadThesePeds_inv by blast
next
  fix w r assume "ok w" "loadCurrentPeds w s = Some (r, s')"
  then show ?thesis
    using assms loadCurrentPeds_known by (auto simp: ped_inv_def)
next
  fix w f assume "s' = snd (loadPedsFromFile w f s)" "ok w"
  then show ?thesis
    using assms loadPedsFromFile_known by (auto simp: ped_inv_def)
next
  fix w f assume "ok w" "subtractCurrentPeds w s = Some (f, s')"
  then show ?thesis
    using assms prepareCurrentPeds_known by (auto simp: ped_inv_def subtractCurrentPeds_def)
next
  fix w f force assume *: "s' = snd (subtractPedsFromBufferedFile w f force s)" "ok w"
  have "known_peds run (currentPeds (snd (loadPedsFromFile w f s)))"
    using assms(2) * loadPedsFromFile_known by blast
  with * assms(3) show ?thesis
    by (auto simp: ped_inv_def subtractPedsFromBufferedFile_def prepareBufferedPeds_def any_loaded_def)
qed

lemma ped_reachable_inv:
  assumes "ped_reachable ok s" "\<And>w. ok w \<Longrightarrow> coherent run w"
  shows "ped_inv run s"
  using assms(1) unfolding ped_reachable_def
proof (induction rule: rtranclp_induct)
  case base
  show ?case
    by (simp add: ped_inv_def any_loaded_def ped_lib_init_def)
next
  case (step s1 s2)
  then show ?case
    using ped_step_inv assms(2) by blast
qed

section \<open>File names\<close>

lemma base_name_append: "CHR ''/'' \<notin> set f \<Longrightarrow> base_name (d @ ''/'' @ f) = f"
  by (auto simp: base_name_def takeWhile_append)

lemma ped_filename_inj:
  assumes "ped_filename t = ped_filename u" "0 \<le> t" "0 \<le> u"
  shows "t = u"
proof -
  have "show_uint (nat t) = show_uint (nat u)"
    using assms(1) by (simp add: ped_filename_def)
  then have "nat t = nat u"
    using digits_value_show by metis
  with assms(2,3) show ?thesis by simp
qed

lemma scan_ped_filename:
  assumes "is_u32 t"
  shows "scan_pedname (base_name (ped_filename t)) = Some t"
proof -
  let ?ds = "show_uint (nat t)"
  have ds: "\<forall>c\<in>set ?ds. is_digit c" "?ds \<noteq> []"
    using show_uint_digits [of "nat t"] by auto
  have dot: "\<not> is_digit CHR ''.''" "\<not> is_digit CHR ''/''"
    by (simp_all add: is_digit_def)
  have "base_name (''/mnt/data/anita/pedestal'' @ ''/'' @ (''peds_'' @ ?ds @ ''.dat'')) = ''peds_'' @ ?ds @ ''.dat''"
    by (rule base_name_append) (use ds(1) dot(2) in auto)
  moreover have "takeWhile is_digit (?ds @ ''.dat'') = ?ds"
    using ds(1) dot(1) by (simp add: takeWhile_append)
  moreover have "u32 (int (digits_value ?ds)) = t"
    using assms by (simp add: digits_value_show u32_id is_u32_def)
  ultimately show ?thesis
    using ds(2) by (simp add: scan_pedname_def ped_filename_def)
qed

section \<open>Ranges\<close>

lemma sub_value_range:
  assumes "0 \<le> ped" "ped \<le> 2048"
  shows "sub_value word ped = drop_bit 1 (word AND SURF_BITMASK) - ped"
    and "-2048 \<le> sub_value word ped" "sub_value word ped \<le> 2046"
proof -
  define r where "r = drop_bit 1 (word AND SURF_BITMASK)"
  have r: "0 \<le> r" "r \<le> 2046"
    unfolding r_def by (rule drop_surf_bitmask)+
  then have "s16 r = r" "s16 (r - ped) = r - ped"
    using assms by (auto intro!: s16_id simp: is_s16_def)
  then have eq: "sub_value word ped = r - ped"
    by (simp only: sub_value_def flip: r_def)
  then show "sub_value word ped = drop_bit 1 (word AND SURF_BITMASK) - ped"
    unfolding r_def .
  show "-2048 \<le> sub_value word ped" "sub_value word ped \<le> 2046"
    unfolding eq using r assms by linarith+
qed

lemma sub_all_range:
  "0 \<le> ped samp \<Longrightarrow> ped samp \<le> 2048 \<Longrightarrow> -2048 \<le> sub_all raw ped samp \<and> sub_all raw ped samp \<le> 2046"
  using sub_value_range(2,3) [of "ped samp" "raw ! samp"] by (simp add: sub_all_def)

text \<open>Pedestals under which the subtracted samples fit 12 bits.\<close>

definition peds_in_range :: "PedestalStruct_t \<Rightarrow> bool" where
  "peds_in_range peds \<longleftrightarrow> (\<forall>surf<ACTIVE_SURFS. \<forall>chip<4. \<forall>chan<CHANNELS_PER_SURF. \<forall>samp<MAX_NUMBER_SAMPLES.
     0 \<le> pd_thePeds peds surf chip chan samp \<and> pd_thePeds peds surf chip chan samp \<le> 2048)"

lemma chip_of_bound: "chip_of h < 4"
proof -
  have "chipIdFlag h AND 3 \<le> 3"
    by (rule AND_upper2) simp
  then show ?thesis
    by (simp add: chip_of_def nat_less_iff)
qed

lemma peds_in_rangeD:
  assumes "peds_in_range peds" "i < NUM_DIGITZED_CHANNELS" "samp < MAX_NUMBER_SAMPLES"
  shows "0 \<le> channel_peds peds h i samp \<and> channel_peds peds h i samp \<le> 2048"
proof -
  have "i div 9 < 12" "i mod 9 < 9"
    using assms(2) by simp_all
  then show ?thesis
    using assms(1,3) chip_of_bound [of h] unfolding peds_in_range_def channel_peds_def by blast
qed

section \<open>Properties\<close>

lemma added_subtracted_at:
  assumes "length (pb_channel dst) = NUM_DIGITZED_CHANNELS" "\<forall>ch\<in>set (pb_channel dst). length (ps_data ch) = MAX_NUMBER_SAMPLES"
    and "length (ev_channel out) = NUM_DIGITZED_CHANNELS" "\<forall>ch\<in>set (ev_channel out). length (full_data ch) = MAX_NUMBER_SAMPLES"
    and "i < NUM_DIGITZED_CHANNELS" "samp < MAX_NUMBER_SAMPLES"
    and "ch = ev_channel (doPedAddition peds (doPedSubtraction sizeof img peds raw dst) out) ! i"
    and "word = full_data (ev_channel raw ! i) ! samp"
    and "ped = channel_peds peds (full_header (ev_channel raw ! i)) i samp"
  shows "full_header ch = full_header (ev_channel raw ! i) \<and>
    full_data ch ! samp = (if hitbus word then u16 (2 * ped) else word AND SURF_BITMASK)"
proof -
  let ?p = "channel_peds peds (full_header (ev_channel raw ! i)) i"
  have "ch = add_channel ?p (sub_channel ?p (ev_channel raw ! i) (pb_channel dst ! i)) (ev_channel out ! i)"
    using assms(1,2,5,7) by (simp add: doPedAddition_def doPedSubtraction_def Let_def sub_channel_fields)
  then have "ch = \<lparr>full_header = full_header (ev_channel raw ! i),
     full_data = map (\<lambda>samp. let word = full_data (ev_channel raw ! i) ! samp in
       if hitbus word then add_value 0 (?p samp) else word AND SURF_BITMASK) [0..<MAX_NUMBER_SAMPLES]\<rparr>"
    using assms(1-5) by (simp add: add_sub_channel)
  then show ?thesis
    using assms(6,8,9) by (simp add: add_value_0 Let_def)
qed

lemma added_subtracted:
  assumes "length (pb_channel dst) = NUM_DIGITZED_CHANNELS" "\<forall>ch\<in>set (pb_channel dst). length (ps_data ch) = MAX_NUMBER_SAMPLES"
    and "length (ev_channel out) = NUM_DIGITZED_CHANNELS" "\<forall>ch\<in>set (ev_channel out). length (full_data ch) = MAX_NUMBER_SAMPLES"
    and "i < NUM_DIGITZED_CHANNELS" "samp < MAX_NUMBER_SAMPLES"
  shows "full_header (ev_channel (doPedAddition peds (doPedSubtraction sizeof img peds raw dst) out) ! i) =
      full_header (ev_channel raw ! i) \<and>
    full_data (ev_channel (doPedAddition peds (doPedSubtraction sizeof img peds raw dst) out) ! i) ! samp =
      (if hitbus (full_data (ev_channel raw ! i) ! samp)
       then u16 (2 * channel_peds peds (full_header (ev_channel raw ! i)) i samp)
       else full_data (ev_channel raw ! i) ! samp AND SURF_BITMASK)"
  by (rule added_subtracted_at [OF assms refl refl refl])

text \<open>
  C33. Adding the pedestals that were subtracted: for every pedestal table, a sample without hit
  bus comes back without its two lowest and its four highest bits, a sample with hit bus comes back
  as twice the pedestal, and the channel headers come back.
\<close>

theorem pedestal_roundtrip:
  assumes "length (pb_channel dst) = NUM_DIGITZED_CHANNELS" "\<forall>ch\<in>set (pb_channel dst). length (ps_data ch) = MAX_NUMBER_SAMPLES"
    and "length (ev_channel out) = NUM_DIGITZED_CHANNELS" "\<forall>ch\<in>set (ev_channel out). length (full_data ch) = MAX_NUMBER_SAMPLES"
    and "i < NUM_DIGITZED_CHANNELS" "samp < MAX_NUMBER_SAMPLES"
    and "ch = ev_channel (doPedAddition peds (doPedSubtraction sizeof img peds raw dst) out) ! i"
    and "word = full_data (ev_channel raw ! i) ! samp"
    and "ped = channel_peds peds (full_header (ev_channel raw ! i)) i samp"
  shows "full_header ch = full_header (ev_channel raw ! i) \<and>
    full_data ch ! samp = (if hitbus word then u16 (2 * ped) else word AND SURF_BITMASK)"
  by (rule added_subtracted_at [OF assms])

definition example_raw :: "AnitaEventBody_t" where
  "example_raw = \<lparr>ev_gHdr = \<lparr>gh_code = 0, gh_packetNumber = 0, gh_numBytes = 0, gh_feByte = 0, gh_verId = 0, gh_checksum = 0\<rparr>,
     ev_eventNumber = 7, ev_surfEventId = replicate 12 0,
     ev_channel = replicate 108 \<lparr>full_header = \<lparr>chanId = 0, chipIdFlag = 1, firstHitbus = 10, lastHitbus = 20\<rparr>,
       full_data = replicate 260 0x0abc\<rparr>\<rparr>"

definition example_sub :: "PedSubbedEventBody_t" where
  "example_sub = \<lparr>pb_gHdr = \<lparr>gh_code = 0, gh_packetNumber = 0, gh_numBytes = 0, gh_feByte = 0, gh_verId = 0, gh_checksum = 0\<rparr>,
     pb_eventNumber = 0, pb_surfEventId = replicate 12 0, pb_whichPeds = 0,
     pb_channel = replicate 108 \<lparr>ps_header = \<lparr>chanId = 0, chipIdFlag = 0, firstHitbus = 0, lastHitbus = 0\<rparr>,
       xMax = 0, xMin = 0, ps_mean = 0, ps_rms = 0, ps_data = replicate 260 0\<rparr>\<rparr>"

theorem pedestal_roundtrip_witness:
  "full_data (ev_channel (doPedAddition default_peds
      (doPedSubtraction (\<lambda>_. 57960) (\<lambda>_ _. 0) default_peds example_raw example_sub) example_raw) ! 42) ! 7 = 0x0abc"
proof -
  let ?out = "doPedAddition default_peds (doPedSubtraction (\<lambda>_. 57960) (\<lambda>_ _. 0) default_peds example_raw example_sub) example_raw"
  have word: "0x0abc = full_data (ev_channel example_raw ! 42) ! 7"
    by (simp add: example_raw_def)
  have lens: "length (pb_channel example_sub) = 108" "\<forall>ch\<in>set (pb_channel example_sub). length (ps_data ch) = 260"
    "length (ev_channel example_raw) = 108" "\<forall>ch\<in>set (ev_channel example_raw). length (full_data ch) = 260"
    by (simp_all add: example_sub_def example_raw_def)
  have "full_data (ev_channel ?out ! 42) ! 7 = (if hitbus 0x0abc then
      u16 (2 * channel_peds default_peds (full_header (ev_channel example_raw ! 42)) 42 7) else 0x0abc AND SURF_BITMASK)"
    by (rule conjunct2 [OF pedestal_roundtrip [OF lens _ _ refl word refl]]) simp_all
  then show ?thesis
    by (simp add: hitbus_def)
qed

text \<open>
  What \<open>doPedSubtraction\<close> puts in a channel: the extrema are those of the samples without hit
  bus (no further than 4095 from zero), the mean is theirs, and with pedestals up to 2048 every
  sample fits the 12-bit code.
\<close>

theorem subtracted_channel:
  assumes "length (ps_data ch) = MAX_NUMBER_SAMPLES" "\<forall>samp<MAX_NUMBER_SAMPLES. 0 \<le> ped samp \<and> ped samp \<le> 2048"
    and "xs = chan_samples ped raw"
  shows "xMax (sub_channel ped raw ch) = Max (insert (-4095) (set xs)) \<and>
    xMin (sub_channel ped raw ch) = Min (insert 4095 (set xs)) \<and>
    ps_mean (sub_channel ped raw ch) = (if xs = [] then 0 else (\<Sum>x\<leftarrow>xs. real_of_int x) / real (length xs)) \<and>
    (\<forall>x\<in>set (ps_data (sub_channel ped raw ch)). -2048 \<le> x \<and> x < 2048)"
proof -
  have xs: "x \<in> set xs \<Longrightarrow> -2048 \<le> x \<and> x \<le> 2046" for x
    using assms(2,3) sub_value_range(2,3) by (auto simp: chan_samples_def sub_samples_def good_samples_def)
  have len: "length xs \<le> 260"
    using length_filter_le [of _ "[0..<260]"] by (simp add: assms(3) chan_samples_def good_samples_def)
  have "\<bar>\<Sum>x\<leftarrow>xs. x\<bar> \<le> 2048 * int (length xs)"
    using xs by (induction xs) (auto, smt (verit))
  with len have "s32 (\<Sum>x\<leftarrow>xs. x) = (\<Sum>x\<leftarrow>xs. x)"
    by (simp add: s32_def signed_take_bit_int_eq_self)
  moreover have "real_of_int (\<Sum>x\<leftarrow>xs. x) = (\<Sum>x\<leftarrow>xs. real_of_int x)"
    by (induction xs) simp_all
  moreover have "-2048 \<le> x \<and> x < 2048" if "x \<in> set (ps_data (sub_channel ped raw ch))" for x
    using that assms(1,2) sub_all_range [of ped _ "full_data raw"] by (fastforce simp: sub_channel_fields)
  ultimately show ?thesis
    using assms(1,3) by (simp add: sub_channel_fields)
qed

theorem subtracted_channel_witness:
  "xMax (sub_channel (\<lambda>_. 650) (ev_channel example_raw ! 0) (pb_channel example_sub ! 0)) = 724"
proof -
  have raw: "full_data (ev_channel example_raw ! 0) = replicate 260 0x0abc"
    by (simp add: example_raw_def)
  have "\<not> hitbus 0x0abc" "sub_value 0x0abc 650 = 724"
    using sub_value_range(1) [of 650 "0x0abc"] by (simp_all add: hitbus_def drop_bit_eq_div)
  then have "chan_samples (\<lambda>_. 650) (ev_channel example_raw ! 0) = map (\<lambda>_. 724) [0..<260]"
    unfolding chan_samples_def sub_samples_def good_samples_def raw
    by (subst filter_True) (auto intro!: map_cong)
  then show ?thesis
    using subtracted_channel [of "pb_channel example_sub ! 0" "\<lambda>_. 650" "map (\<lambda>_. 724) [0..<260]" "ev_channel example_raw ! 0"]
    by (simp add: example_sub_def)
qed

text \<open>
  The name that a pedestal file gets from its time is read back to this time where the link to
  the current pedestals is checked.
\<close>

theorem pedestal_filename_roundtrip: "is_u32 t \<Longrightarrow> scan_pedname (base_name (ped_filename t)) = Some t"
  by (rule scan_ped_filename)

theorem pedestal_filename_roundtrip_witness:
  "scan_pedname (base_name (ped_filename 1480000000)) = Some 1480000000"
  by (rule pedestal_filename_roundtrip) (simp add: is_u32_def)

lemma loadThesePeds_reachable_cases:
  assumes "ped_reachable ok s" "\<And>w. ok w \<Longrightarrow> coherent run w" "ok w" "whichPeds \<noteq> PED_DEFAULT_VALUE"
  shows "fst (loadThesePeds w whichPeds s) = 0 \<and> currentPeds (snd (loadThesePeds w whichPeds s)) = run whichPeds \<or>
    fst (loadThesePeds w whichPeds s) = -1 \<and> currentPeds (snd (loadThesePeds w whichPeds s)) = default_peds"
proof -
  have inv: "ped_inv run s"
    by (rule ped_reachable_inv [OF assms(1,2)])
  have coh: "coherent run w"
    using assms(2,3) by blast
  have def: "pd_unixTime default_peds = PED_DEFAULT_VALUE"
    by (simp add: default_peds_def)
  have cached: "currentPeds s = run whichPeds" if "theseLoaded s" "pd_unixTime (currentPeds s) = whichPeds"
    using inv that assms(4) def by (auto simp: ped_inv_def any_loaded_def known_peds_def)
  show ?thesis
  proof (cases "ped_file w (ped_filename whichPeds)")
    case None
    then show ?thesis
      using cached by (auto simp: loadThesePeds_cases)
  next
    case (Some p)
    then have "p = run whichPeds"
      using coh by (auto simp: coherent_def)
    with Some cached show ?thesis
      by (auto simp: loadThesePeds_cases)
  qed
qed

lemma loadThesePeds_reachable:
  assumes "ped_reachable ok s" "\<And>w. ok w \<Longrightarrow> coherent run w" "ok w" "whichPeds \<noteq> PED_DEFAULT_VALUE"
    and "ped_file w (ped_filename whichPeds) \<noteq> None"
  shows "currentPeds (snd (loadThesePeds w whichPeds s)) = run whichPeds"
proof -
  have "fst (loadThesePeds w whichPeds s) = 0"
    using assms(5) by (auto simp: loadThesePeds_cases)
  with loadThesePeds_reachable_cases [OF assms(1-4)] show ?thesis
    by auto
qed

text \<open>
  C32. The cached pedestals are never stale: in every state that calls of the library can reach, with
  files that are named by their time and do not change their contents, \<open>loadThesePeds\<close> either
  returns 0 and leaves the requested pedestals, or returns -1 and leaves the default ones. (650 is
  the time of the default pedestals.)
\<close>

theorem load_these_correct:
  assumes "ped_reachable ok s" "\<And>w. ok w \<Longrightarrow> coherent run w" "ok w" "whichPeds \<noteq> PED_DEFAULT_VALUE"
  shows "fst (loadThesePeds w whichPeds s) = 0 \<and> currentPeds (snd (loadThesePeds w whichPeds s)) = run whichPeds \<or>
    fst (loadThesePeds w whichPeds s) = -1 \<and> currentPeds (snd (loadThesePeds w whichPeds s)) = default_peds"
  by (rule loadThesePeds_reachable_cases [OF assms])

theorem load_these_correct_witness:
  "let p = zero_peds\<lparr>pd_unixTime := 5\<rparr>;
       w = \<lparr>ped_file = (\<lambda>f. if f = ped_filename 5 then Some p else None), ped_link = (\<lambda>_. None)\<rparr>
   in currentPeds (snd (loadThesePeds w 5 ped_lib_init)) = p \<or>
      currentPeds (snd (loadThesePeds w 5 ped_lib_init)) = default_peds"
proof -
  let ?p = "zero_peds\<lparr>pd_unixTime := 5\<rparr>"
  let ?w = "\<lparr>ped_file = (\<lambda>f. if f = ped_filename 5 then Some ?p else None), ped_link = (\<lambda>_. None)\<rparr>"
  have "ped_reachable (\<lambda>w. w = ?w) ped_lib_init"
    by (simp add: ped_reachable_def)
  moreover have "t = 5" if "ped_filename t = ped_filename 5" for t
  proof -
    have "nat t = 5"
      using that digits_value_show [of "nat t"] digits_value_show [of 5] by (simp add: ped_filename_def)
    then show ?thesis by simp
  qed
  then have "coherent (\<lambda>_. ?p) ?w"
    by (auto simp: coherent_def)
  ultimately show ?thesis
    using load_these_correct [of "\<lambda>w. w = ?w" ped_lib_init "\<lambda>_. ?p" ?w 5] by (auto simp: Let_def)
qed

end
