(* ===== verification/Event_Chain.thy ===== *)
theory Event_Chain
  imports Event_Pack Pedestals
begin

text \<open>
  The chain of the two libraries: \<open>unpackEvent\<close> of \<open>compressLib.c\<close>, which unpacks a packed event and
  adds the pedestals that the event names, and the way of an event through pedestal subtraction,
  packing, unpacking and pedestal addition.
\<close>

section \<open>unpackEvent\<close>

text \<open>\<open>pedSubBd\<close> is the function's uninitialised local structure.\<close>

definition unpackEvent :: "ped_world \<Rightarrow> (PedSubbedEventBody_t \<Rightarrow> mem) \<Rightarrow> PedSubbedEventBody_t \<Rightarrow> AnitaEventBody_t \<Rightarrow>
    mem \<Rightarrow> nat \<Rightarrow> int \<Rightarrow> ped_lib \<Rightarrow> (CompressErrorCode_t \<times> AnitaEventBody_t \<times> ped_lib) option" where
  "unpackEvent w img pedSubBd bd m input numBytes s =
     (case unpackToPedSubbedEvent img pedSubBd m input numBytes of
        None \<Rightarrow> None
      | Some (retVal, pedSubBd) \<Rightarrow>
          if retVal \<noteq> COMPRESS_E_OK then Some (retVal, bd, s)
          else let (bd, s) = addPeds w pedSubBd bd s in Some (retVal, bd, s))"

section \<open>The whole chain\<close>

definition masked_sample :: "PedestalStruct_t \<Rightarrow> AnitaEventBody_t \<Rightarrow> nat \<Rightarrow> nat \<Rightarrow> int" where
  \<comment> \<open>what is left of a raw sample\<close>
  "masked_sample peds raw i samp =
     (let ch = ev_channel raw ! i; word = full_data ch ! samp in
      if hitbus word then u16 (2 * channel_peds peds (full_header ch) i samp) else word AND SURF_BITMASK)"

definition plain_type :: "ChannelEncodingType_t \<Rightarrow> bool" where
  "plain_type t \<longleftrightarrow> t = ENCODE_NONE \<or> t = ENCODE_LOSSLESS_12BIT"

definition ready_ped_event :: "PedSubbedEventBody_t \<Rightarrow> bool" where
  "ready_ped_event pb \<longleftrightarrow> length (pb_channel pb) = NUM_DIGITZED_CHANNELS \<and>
     (\<forall>ch\<in>set (pb_channel pb). length (ps_data ch) = MAX_NUMBER_SAMPLES)"

definition ready_raw_event :: "AnitaEventBody_t \<Rightarrow> bool" where
  "ready_raw_event bd \<longleftrightarrow> length (ev_channel bd) = NUM_DIGITZED_CHANNELS \<and>
     (\<forall>ch\<in>set (ev_channel bd). length (full_data ch) = MAX_NUMBER_SAMPLES)"

lemma doPedSubtraction_simps:
  "pb_whichPeds (doPedSubtraction sizeof img peds raw dst) = pd_unixTime peds"
  "pb_eventNumber (doPedSubtraction sizeof img peds raw dst) = ev_eventNumber raw"
  "pb_channel (doPedSubtraction sizeof img peds raw dst) =
     map (\<lambda>i. sub_channel (channel_peds peds (full_header (ev_channel raw ! i)) i) (ev_channel raw ! i) (pb_channel dst ! i))
       [0..<NUM_DIGITZED_CHANNELS]"
  by (simp_all add: doPedSubtraction_def Let_def)

lemma sub_channel_valid:
  assumes "plain_type t" "peds_in_range peds" "wf_header (full_header raw)" "length (ps_data ch) = MAX_NUMBER_SAMPLES"
    and "i < NUM_DIGITZED_CHANNELS"
  shows "ps_chan_valid t (sub_channel (channel_peds peds h i) raw ch)"
    and "wave_result t (sub_channel (channel_peds peds h i) raw ch) = ps_data (sub_channel (channel_peds peds h i) raw ch)"
proof -
  let ?ch = "sub_channel (channel_peds peds h i) raw ch"
  have "-2048 \<le> x \<and> x \<le> 2046" if "x \<in> set (ps_data ?ch)" for x
    using that assms(4) sub_all_range [of "channel_peds peds h i" _ "full_data raw"] peds_in_rangeD [OF assms(2,5)]
    by (fastforce simp: sub_channel_fields)
  moreover have "length (ps_data ?ch) = MAX_NUMBER_SAMPLES" "ps_header ?ch = full_header raw"
    using assms(4) by (simp_all add: sub_channel_fields)
  ultimately show "ps_chan_valid t ?ch"
    using assms(1,3)
    by (fastforce simp: ps_chan_valid_def plain_type_def wave_valid_def mulaw_request_def valid_none_def valid_12bit_def
        valid12_def is_s16_def)
  show "wave_result t ?ch = ps_data ?ch"
    using assms(1) by (auto simp: plain_type_def wave_result_def mulaw_request_def)
qed

lemma add_channel_cong:
  "ps_header ch = ps_header ch' \<Longrightarrow> ps_data ch = ps_data ch' \<Longrightarrow> add_channel ped ch raw = add_channel ped ch' raw"
  by (simp add: add_channel_def)

lemma fillMinMaxMeanRMS_keeps [simp]:
  "ps_data (fillMinMaxMeanRMS ch) = ps_data ch" "ps_header (fillMinMaxMeanRMS ch) = ps_header ch"
  by (simp_all add: fillMinMaxMeanRMS_def Let_def)

lemma nth_map_upt0: "i < n \<Longrightarrow> map f [0..<n] ! i = f i"
  by simp

lemma event_results_plain:
  assumes "\<forall>i<NUM_DIGITZED_CHANNELS. plain_type (encTypes cntl ! (i div 9) ! (i mod 9))" "peds_in_range peds"
    and "\<forall>ch\<in>set (ev_channel raw). wf_header (full_header ch)" "ready_ped_event dst" "length (ev_channel raw) = NUM_DIGITZED_CHANNELS"
    and "i < NUM_DIGITZED_CHANNELS"
  shows "ps_header (event_results cntl (pb_channel (doPedSubtraction sizeof img peds raw dst)) ds ! i) =
      ps_header (pb_channel (doPedSubtraction sizeof img peds raw dst) ! i)"
    and "ps_data (event_results cntl (pb_channel (doPedSubtraction sizeof img peds raw dst)) ds ! i) =
      ps_data (pb_channel (doPedSubtraction sizeof img peds raw dst) ! i)"
proof -
  let ?t = "encTypes cntl ! (i div 9) ! (i mod 9)" and ?raw = "ev_channel raw ! i"
  let ?sub = "sub_channel (channel_peds peds (full_header ?raw) i) ?raw (pb_channel dst ! i)"
  have sub: "pb_channel (doPedSubtraction sizeof img peds raw dst) ! i = ?sub"
    using assms(6) by (simp only: doPedSubtraction_simps nth_map_upt0)
  have res: "event_results cntl (pb_channel (doPedSubtraction sizeof img peds raw dst)) ds ! i =
      ps_chan_result ?t ?sub (ds ! i)"
    using assms(6) sub by (simp only: event_results_def nth_map_upt0)
  have "wave_result ?t ?sub = ps_data ?sub"
  proof (rule sub_channel_valid(2) [OF _ assms(2) _ _ assms(6)])
    show "plain_type ?t"
      using assms(1,6) by blast
    show "wf_header (full_header ?raw)" "length (ps_data (pb_channel dst ! i)) = 260"
      using assms(3-6) nth_mem by (metis, metis ready_ped_event_def)
  qed
  then show "ps_header (event_results cntl (pb_channel (doPedSubtraction sizeof img peds raw dst)) ds ! i) =
      ps_header (pb_channel (doPedSubtraction sizeof img peds raw dst) ! i)"
    "ps_data (event_results cntl (pb_channel (doPedSubtraction sizeof img peds raw dst)) ds ! i) =
      ps_data (pb_channel (doPedSubtraction sizeof img peds raw dst) ! i)"
    unfolding res sub by (simp_all add: ps_chan_result_def)
qed

lemma chain_addition:
  assumes "\<forall>i<NUM_DIGITZED_CHANNELS. ps_header (pb_channel pb ! i) = ps_header (pb_channel pb' ! i) \<and>
      ps_data (pb_channel pb ! i) = ps_data (pb_channel pb' ! i)"
  shows "doPedAddition peds pb bd = doPedAddition peds pb' bd"
proof -
  have "map (\<lambda>i. add_channel (channel_peds peds (ps_header (pb_channel pb ! i)) i) (pb_channel pb ! i) (ev_channel bd ! i))
      [0..<NUM_DIGITZED_CHANNELS] =
    map (\<lambda>i. add_channel (channel_peds peds (ps_header (pb_channel pb' ! i)) i) (pb_channel pb' ! i) (ev_channel bd ! i))
      [0..<NUM_DIGITZED_CHANNELS]"
  proof (rule map_cong [OF refl])
    fix i assume "i \<in> set [0..<NUM_DIGITZED_CHANNELS]"
    then have "i < NUM_DIGITZED_CHANNELS"
      by (simp only: set_upt atLeastLessThan_iff)
    with assms show "add_channel (channel_peds peds (ps_header (pb_channel pb ! i)) i) (pb_channel pb ! i) (ev_channel bd ! i) =
        add_channel (channel_peds peds (ps_header (pb_channel pb' ! i)) i) (pb_channel pb' ! i) (ev_channel bd ! i)"
      using add_channel_cong by metis
  qed
  then show ?thesis
    unfolding doPedAddition_def Let_def by (rule arg_cong)
qed

section \<open>Properties\<close>


definition chain_peds :: PedestalStruct_t where
  "chain_peds = default_peds\<lparr>pd_unixTime := 77\<rparr>"

definition chain_world :: ped_world where
  "chain_world = \<lparr>ped_file = (\<lambda>f. if f = ped_filename 77 then Some chain_peds else None), ped_link = (\<lambda>_. None)\<rparr>"

lemma chain_world_coherent: "coherent (\<lambda>_. chain_peds) chain_world"
proof -
  have "t = 77" if "ped_filename t = ped_filename 77" for t
  proof -
    have "nat t = 77"
      using that digits_value_show [of "nat t"] digits_value_show [of 77] by (simp add: ped_filename_def)
    then show ?thesis by simp
  qed
  then show ?thesis
    by (auto simp: coherent_def chain_world_def chain_peds_def)
qed


end
