(* ===== verification/Ped_Calc.thy ===== *)
theory Ped_Calc
  imports Pedestals
begin

text \<open>
  The calculation of pedestals in \<open>pedestalLib.c\<close>: sums over the samples of events
  (\<open>addEventToPedestals\<close>), the pedestal values that \<open>writePedestals\<close> makes of them, and
  \<open>unwrapAndBaselinePedSubbedEvent\<close>, which puts the samples of a channel in their order in time.
  \<open>float\<close> values are reals.
\<close>

section \<open>Sums over events\<close>

type_synonym real_array = "nat \<Rightarrow> nat \<Rightarrow> nat \<Rightarrow> nat \<Rightarrow> real"

record PedCalcStruct_t =
  pc_unixTimeStart :: int
  pc_unixTimeEnd :: int
  pc_chipEntries :: "nat \<Rightarrow> nat \<Rightarrow> int"
  pc_mean :: ped_array
  pc_meanSq :: ped_array
  pc_entries :: ped_array
  pc_fmean :: real_array
  pc_frms :: real_array

definition upd4 :: "(nat \<Rightarrow> nat \<Rightarrow> nat \<Rightarrow> nat \<Rightarrow> 'a) \<Rightarrow> nat \<Rightarrow> nat \<Rightarrow> nat \<Rightarrow> nat \<Rightarrow> 'a \<Rightarrow> nat \<Rightarrow> nat \<Rightarrow> nat \<Rightarrow> nat \<Rightarrow> 'a" where
  \<comment> \<open>assignment to an element of a four dimensional array\<close>
  "upd4 f a b c d v = f(a := (f a)(b := (f a b)(c := (f a b c)(d := v))))"

lemma upd4_apply [simp]:
  "upd4 f a b c d v a' b' c' d' = (if a' = a \<and> b' = b \<and> c' = c \<and> d' = d then v else f a' b' c' d')"
  by (simp add: upd4_def)

definition resetPedCalcWithTime :: "int \<Rightarrow> PedCalcStruct_t" where
  "resetPedCalcWithTime unixTime = \<lparr>pc_unixTimeStart = unixTime, pc_unixTimeEnd = 0, pc_chipEntries = (\<lambda>_ _. 0),
     pc_mean = (\<lambda>_ _ _ _. 0), pc_meanSq = (\<lambda>_ _ _ _. 0), pc_entries = (\<lambda>_ _ _ _. 0),
     pc_fmean = (\<lambda>_ _ _ _. 0), pc_frms = (\<lambda>_ _ _ _. 0)\<rparr>"

definition ped_word :: "int \<Rightarrow> int" where
  "ped_word word = drop_bit 1 (word AND SURF_BITMASK)"

definition ped_accepts :: "int list \<Rightarrow> nat \<Rightarrow> bool" where
  \<comment> \<open>the \<open>continue\<close> statements of the loop over the samples\<close>
  "ped_accepts dat samp \<longleftrightarrow> \<not> hitbus (dat ! samp) \<and> dat ! samp AND 0xfff \<noteq> 0 \<and>
     \<not> (samp > 0 \<and> hitbus (dat ! (samp - 1))) \<and> \<not> (samp < 255 \<and> hitbus (dat ! (samp + 1)))"

definition add_ped_sample :: "nat \<Rightarrow> nat \<Rightarrow> nat \<Rightarrow> int list \<Rightarrow> nat \<Rightarrow> PedCalcStruct_t \<Rightarrow> PedCalcStruct_t" where
  "add_ped_sample surf labChip chan dat samp pc =
     (if ped_accepts dat samp then
        let pedWord = ped_word (dat ! samp) in
        pc\<lparr>pc_mean := upd4 (pc_mean pc) surf labChip chan samp (u32 (pc_mean pc surf labChip chan samp + pedWord)),
           pc_meanSq := upd4 (pc_meanSq pc) surf labChip chan samp (u32 (pc_meanSq pc surf labChip chan samp + pedWord * pedWord)),
           pc_entries := upd4 (pc_entries pc) surf labChip chan samp (u32 (pc_entries pc surf labChip chan samp + 1))\<rparr>
      else pc)"

definition add_ped_channel :: "AnitaEventBody_t \<Rightarrow> nat \<Rightarrow> PedCalcStruct_t \<Rightarrow> PedCalcStruct_t" where
  "add_ped_channel bd chanIndex pc =
     (let surf = chanIndex div CHANNELS_PER_SURF; chan = chanIndex mod CHANNELS_PER_SURF;
          labChip = chip_of (full_header (ev_channel bd ! chanIndex));
          pc = (if chan = 0 then pc\<lparr>pc_chipEntries := (pc_chipEntries pc)(surf :=
                  (pc_chipEntries pc surf)(labChip := u16 (pc_chipEntries pc surf labChip + 1)))\<rparr> else pc)
      in fold (add_ped_sample surf labChip chan (full_data (ev_channel bd ! chanIndex))) [0..<MAX_NUMBER_SAMPLES] pc)"

definition addEventToPedestals :: "AnitaEventBody_t \<Rightarrow> PedCalcStruct_t \<Rightarrow> PedCalcStruct_t" where
  "addEventToPedestals bd pc = fold (add_ped_channel bd) [0..<NUM_DIGITZED_CHANNELS] pc"

section \<open>The pedestals\<close>

text \<open>
  What \<open>writePedestals\<close> computes for one element with sum \<open>mean\<close>, sum of squares \<open>meanSq\<close>
  and \<open>entries\<close>. Values that no assignment reaches keep what the uninitialised structure had.
\<close>

definition round_half_up :: "real \<Rightarrow> int" where
  \<comment> \<open>\<open>t=(int)x; if((x-t)>=0.5) t++;\<close>\<close>
  "round_half_up x = (let t = c_trunc x in if x - real_of_int t \<ge> 1/2 then t + 1 else t)"

definition clamp :: "int \<Rightarrow> int \<Rightarrow> int" where
  "clamp hi x = (if (if x > hi then hi else x) < 0 then 0 else if x > hi then hi else x)"

record ped_cell =
  cell_fmean :: real
  cell_frms :: real
  cell_ped :: int
  cell_rms :: int
  cell_labMean :: int
  cell_labRMS :: int

definition calc_cell :: "int \<Rightarrow> int \<Rightarrow> int \<Rightarrow> ped_cell \<Rightarrow> ped_cell" where
  "calc_cell mean meanSq entries c =
     (if entries > 1 then
        let fmean = real_of_int mean / real_of_int entries;
            c = c\<lparr>cell_fmean := fmean, cell_ped := clamp 65535 (round_half_up fmean),
                  cell_labMean := clamp 65535 (round_half_up (10 * fmean))\<rparr>;
            var = real_of_int meanSq / real_of_int entries - fmean * fmean
        in if var \<noteq> 0 then
             c\<lparr>cell_frms := var, cell_labRMS := clamp 255 (round_half_up (var * 10)), cell_rms := clamp 255 (round_half_up (var * 10))\<rparr>
           else c\<lparr>cell_labRMS := 0\<rparr>
      else c\<lparr>cell_labMean := 0, cell_labRMS := 0\<rparr>)"

record LabChipChannelPedStruct_t =
  lc_chanId :: int
  lc_chipId :: int
  lc_chipEntries :: int
  lc_pedMean :: "nat \<Rightarrow> int"
  lc_pedRMS :: "nat \<Rightarrow> int"

definition cell_at :: "PedCalcStruct_t \<Rightarrow> PedestalStruct_t \<Rightarrow> nat \<Rightarrow> nat \<Rightarrow> nat \<Rightarrow> nat \<Rightarrow> ped_cell" where
  \<comment> \<open>the element before the calculation: \<open>labPeds\<close> was set to zero, \<open>usefulPeds\<close> was not\<close>
  "cell_at pc junk surf chip chan samp =
     calc_cell (pc_mean pc surf chip chan samp) (pc_meanSq pc surf chip chan samp) (pc_entries pc surf chip chan samp)
       \<lparr>cell_fmean = pc_fmean pc surf chip chan samp, cell_frms = pc_frms pc surf chip chan samp,
        cell_ped = pd_thePeds junk surf chip chan samp, cell_rms = pd_pedsRMS junk surf chip chan samp,
        cell_labMean = 0, cell_labRMS = 0\<rparr>"

definition lab_peds :: "PedCalcStruct_t \<Rightarrow> PedestalStruct_t \<Rightarrow> nat \<Rightarrow> nat \<Rightarrow> nat \<Rightarrow> LabChipChannelPedStruct_t" where
  "lab_peds pc junk surf chip chan =
     \<lparr>lc_chanId = int (GetChanIndex surf chan), lc_chipId = int chip, lc_chipEntries = pc_chipEntries pc surf chip,
      lc_pedMean = (\<lambda>samp. cell_labMean (cell_at pc junk surf chip chan samp)),
      lc_pedRMS = (\<lambda>samp. cell_labRMS (cell_at pc junk surf chip chan samp))\<rparr>"

definition average_entries :: "PedCalcStruct_t \<Rightarrow> int" where
  \<comment> \<open>\<open>avgSamples\<close>, an \<open>unsigned int\<close>\<close>
  "average_entries pc =
     u32 (\<Sum>i\<leftarrow>[0..<12 * 4 * 9 * 260]. pc_entries pc (i div 9360) (i div 2340 mod 4) (i div 260 mod 9) (i mod 260)) div 112320"

text \<open>The structures that are written to files: \<open>usefulPeds\<close>, \<open>labPeds\<close> per chip, \<open>thePeds\<close>.\<close>

definition writePedestalsWithTime :: "int \<Rightarrow> PedestalStruct_t \<Rightarrow> PedCalcStruct_t \<Rightarrow>
    PedestalStruct_t \<times> (nat \<Rightarrow> nat \<Rightarrow> nat \<Rightarrow> LabChipChannelPedStruct_t) \<times> PedCalcStruct_t" where
  "writePedestalsWithTime unixTime junk pc =
     (let pc = pc\<lparr>pc_unixTimeEnd := unixTime\<rparr>; cell = cell_at pc junk in
      (\<lparr>pd_unixTime = unixTime, pd_nsamples = average_entries pc,
        pd_thePeds = (\<lambda>surf chip chan samp. cell_ped (cell surf chip chan samp)),
        pd_pedsRMS = (\<lambda>surf chip chan samp. cell_rms (cell surf chip chan samp))\<rparr>,
       lab_peds pc junk,
       pc\<lparr>pc_fmean := (\<lambda>surf chip chan samp. cell_fmean (cell surf chip chan samp)),
          pc_frms := (\<lambda>surf chip chan samp. cell_frms (cell surf chip chan samp))\<rparr>))"

text \<open>The versions that take the time from the clock (\<open>now\<close>), and what \<open>dumpPeds\<close> does before it prints.\<close>

definition resetPedCalc :: "int \<Rightarrow> PedCalcStruct_t" where
  "resetPedCalc now = resetPedCalcWithTime (u32 now)"

definition writePedestals :: "int \<Rightarrow> PedestalStruct_t \<Rightarrow> PedCalcStruct_t \<Rightarrow>
    PedestalStruct_t \<times> (nat \<Rightarrow> nat \<Rightarrow> nat \<Rightarrow> LabChipChannelPedStruct_t) \<times> PedCalcStruct_t" where
  "writePedestals now = writePedestalsWithTime (u32 now)"

definition dumpPeds :: "ped_world \<Rightarrow> ped_lib \<Rightarrow> ped_lib option" where
  "dumpPeds w s = (if pd_unixTime (currentPeds s) = 0 then map_option snd (loadCurrentPeds w s) else Some s)"

section \<open>Unwrapping\<close>

record TransientChannelF_t =
  tr_data :: "real list"
  tr_valid_samples :: int

abbreviation (input) MAX_VAL :: int where "MAX_VAL \<equiv> 600"

definition last_hitbus :: "RawSurfChannelHeader_t \<Rightarrow> int" where
  "last_hitbus h = (if lastHitbus h < firstHitbus h then lastHitbus h + 256 else lastHitbus h)"

definition wrapped_hitbus :: "RawSurfChannelHeader_t \<Rightarrow> bool" where
  "wrapped_hitbus h \<longleftrightarrow> drop_bit 3 (chipIdFlag h AND 0x8) \<noteq> 0"

definition unwrap_window :: "RawSurfChannelHeader_t \<Rightarrow> int \<times> int" where
  \<comment> \<open>\<open>firstSamp\<close> and \<open>lastSamp\<close>\<close>
  "unwrap_window h = (if \<not> wrapped_hitbus h then (last_hitbus h + 1, 259 + firstHitbus h)
     else (firstHitbus h + 1, last_hitbus h))"

definition valid_samples :: "RawSurfChannelHeader_t \<Rightarrow> int" where
  "valid_samples h = s16 (if \<not> wrapped_hitbus h then 254 - (1 + last_hitbus h - firstHitbus h)
     else (last_hitbus h - 2) - (firstHitbus h + 1))"

definition unwrap_index :: "int \<Rightarrow> int" where
  "unwrap_index samp = (if samp \<ge> 258 then samp - 258 else samp)"

definition clip_val :: "int \<Rightarrow> int" where
  "clip_val x = (let x = (if x > MAX_VAL then MAX_VAL else x) in if x < - MAX_VAL then - MAX_VAL else x)"

definition unwrap_channel :: "RawSurfChannelHeader_t \<Rightarrow> int list \<Rightarrow> TransientChannelF_t option" where
  \<comment> \<open>\<open>None\<close> for an access outside \<open>data\<close>\<close>
  "unwrap_channel h dat =
     (let (firstSamp, lastSamp) = unwrap_window h;
          samps = map (\<lambda>samp. unwrap_index samp) [firstSamp..lastSamp - 1]; numSamps = length samps in
      if (\<exists>i\<in>set samps. i < 0 \<or> int (length dat) \<le> i) \<or> MAX_NUMBER_SAMPLES < numSamps then None
      else let vals = map (\<lambda>i. real_of_int (clip_val (dat ! nat i))) samps;
               mean = sum_list vals / real numSamps
           in Some \<lparr>tr_data = map (\<lambda>x. x - mean) vals @ replicate (MAX_NUMBER_SAMPLES - numSamps) 0,
                    tr_valid_samples = valid_samples h\<rparr>)"

text \<open>In the first channel of a SURF, the first sample is overwritten with the last.\<close>

definition patch_first :: "nat \<Rightarrow> SurfChannelPedSubbed_t \<Rightarrow> SurfChannelPedSubbed_t" where
  "patch_first chan ch = (if chan mod 9 = 0 then ch\<lparr>ps_data := (ps_data ch)[0 := ps_data ch ! 259]\<rparr> else ch)"

definition unwrapAndBaselinePedSubbedEvent :: "PedSubbedEventBody_t \<Rightarrow> (PedSubbedEventBody_t \<times> TransientChannelF_t option list)" where
  "unwrapAndBaselinePedSubbedEvent bd =
     (let bd = bd\<lparr>pb_channel := map (\<lambda>chan. patch_first chan (pb_channel bd ! chan)) [0..<NUM_DIGITZED_CHANNELS]\<rparr>
      in (bd, map (\<lambda>ch. unwrap_channel (ps_header ch) (ps_data ch)) (pb_channel bd)))"

section \<open>What the sums hold\<close>

text \<open>The three sums of one element, and what an accepted sample adds to them.\<close>

definition sums_at :: "PedCalcStruct_t \<Rightarrow> nat \<Rightarrow> nat \<Rightarrow> nat \<Rightarrow> nat \<Rightarrow> int \<times> int \<times> int" where
  "sums_at pc surf chip chan samp =
     (pc_mean pc surf chip chan samp, pc_meanSq pc surf chip chan samp, pc_entries pc surf chip chan samp)"

definition add_sums :: "int \<Rightarrow> int \<times> int \<times> int \<Rightarrow> int \<times> int \<times> int" where
  "add_sums w s = (case s of (m, q, e) \<Rightarrow> (u32 (m + w), u32 (q + w * w), u32 (e + 1)))"

lemma sums_add_ped_sample:
  "sums_at (add_ped_sample surf chip chan dat j pc) surf' chip' chan' samp =
    (if surf' = surf \<and> chip' = chip \<and> chan' = chan \<and> samp = j \<and> ped_accepts dat samp
     then add_sums (ped_word (dat ! samp)) (sums_at pc surf' chip' chan' samp) else sums_at pc surf' chip' chan' samp)"
  by (auto simp: sums_at_def add_sums_def add_ped_sample_def Let_def)

lemma sums_add_ped_samples:
  "sums_at (fold (add_ped_sample surf chip chan dat) [0..<n] pc) surf' chip' chan' samp =
    (if surf' = surf \<and> chip' = chip \<and> chan' = chan \<and> samp < n \<and> ped_accepts dat samp
     then add_sums (ped_word (dat ! samp)) (sums_at pc surf' chip' chan' samp) else sums_at pc surf' chip' chan' samp)"
  by (induction n) (auto simp: sums_add_ped_sample less_Suc_eq)

lemma sums_add_ped_channel:
  "sums_at (add_ped_channel bd i pc) surf chip chan samp =
    (let ch = ev_channel bd ! i in
     if surf = i div 9 \<and> chan = i mod 9 \<and> chip = chip_of (full_header ch) \<and> samp < 260 \<and> ped_accepts (full_data ch) samp
     then add_sums (ped_word (full_data ch ! samp)) (sums_at pc surf chip chan samp) else sums_at pc surf chip chan samp)"
proof -
  have "sums_at (pc\<lparr>pc_chipEntries := x\<rparr>) = sums_at pc" for x
    by (intro ext) (simp add: sums_at_def)
  then show ?thesis
    unfolding add_ped_channel_def Let_def sums_add_ped_samples by simp
qed

definition ped_hit :: "nat \<Rightarrow> nat \<Rightarrow> nat \<Rightarrow> nat \<Rightarrow> AnitaEventBody_t \<Rightarrow> bool" where
  \<comment> \<open>the event adds to the element\<close>
  "ped_hit surf chip chan samp bd \<longleftrightarrow>
     (let ch = ev_channel bd ! (9 * surf + chan) in chip = chip_of (full_header ch) \<and> ped_accepts (full_data ch) samp)"

definition event_word :: "nat \<Rightarrow> nat \<Rightarrow> nat \<Rightarrow> AnitaEventBody_t \<Rightarrow> int" where
  "event_word surf chan samp bd = ped_word (full_data (ev_channel bd ! (9 * surf + chan)) ! samp)"

lemma sums_add_ped_channels:
  assumes "chan < 9" "samp < 260"
  shows "sums_at (fold (add_ped_channel bd) [0..<n] pc) surf chip chan samp =
    (if 9 * surf + chan < n \<and> ped_hit surf chip chan samp bd
     then add_sums (event_word surf chan samp bd) (sums_at pc surf chip chan samp) else sums_at pc surf chip chan samp)"
proof (induction n)
  case (Suc n)
  have "surf = n div 9 \<and> chan = n mod 9 \<longleftrightarrow> n = 9 * surf + chan"
    using assms(1) by auto
  with Suc assms(2) show ?case
    by (auto simp: sums_add_ped_channel Let_def ped_hit_def event_word_def less_Suc_eq)
qed simp

definition cell_words :: "nat \<Rightarrow> nat \<Rightarrow> nat \<Rightarrow> nat \<Rightarrow> AnitaEventBody_t list \<Rightarrow> int list" where
  \<comment> \<open>the values that the events contribute to one element\<close>
  "cell_words surf chip chan samp evs = map (event_word surf chan samp) (filter (ped_hit surf chip chan samp) evs)"

lemma u32_add [simp]: "u32 (u32 a + b) = u32 (a + b)"
  by (simp add: u32_def take_bit_eq_mod mod_simps)

lemma sums_of_events:
  assumes "surf < 12" "chan < 9" "samp < 260"
  shows "sums_at (fold addEventToPedestals evs pc) surf chip chan samp =
    (let ws = cell_words surf chip chan samp evs; (m, q, e) = sums_at pc surf chip chan samp in
     if ws = [] then (m, q, e)
     else (u32 (m + sum_list ws), u32 (q + (\<Sum>w\<leftarrow>ws. w * w)), u32 (e + int (length ws))))"
proof (induction evs arbitrary: pc)
  case Nil
  then show ?case by (simp add: cell_words_def sums_at_def)
next
  case (Cons bd evs)
  have "9 * surf + chan < 108"
    using assms(1,2) by simp
  then have step: "sums_at (addEventToPedestals bd pc) surf chip chan samp =
      (if ped_hit surf chip chan samp bd then add_sums (event_word surf chan samp bd) (sums_at pc surf chip chan samp)
       else sums_at pc surf chip chan samp)"
    using sums_add_ped_channels [OF assms(2,3), of bd 108 pc surf chip] by (simp only: addEventToPedestals_def) simp
  obtain m q e where sums: "sums_at pc surf chip chan samp = (m, q, e)"
    by (cases "sums_at pc surf chip chan samp")
  show ?case
    using Cons [of "addEventToPedestals bd pc"] step sums
    by (auto simp: cell_words_def add_sums_def Let_def add.assoc add.commute add.left_commute)
qed

section \<open>What the pedestals are\<close>

lemma ped_word_range: "0 \<le> ped_word w" "ped_word w \<le> 2046"
  unfolding ped_word_def by (rule drop_surf_bitmask)+

lemma cell_words_range: "w \<in> set (cell_words surf chip chan samp evs) \<Longrightarrow> 0 \<le> w \<and> w \<le> 2046"
  by (auto simp: cell_words_def event_word_def ped_word_range)

lemma sum_list_range: "(\<And>w. w \<in> set ws \<Longrightarrow> 0 \<le> w \<and> w \<le> b) \<Longrightarrow> 0 \<le> sum_list ws \<and> sum_list ws \<le> b * int (length ws)"
  for b :: int
  by (induction ws) (auto simp: algebra_simps, fastforce+)

lemma round_half_up_nearest:
  assumes "0 \<le> x"
  shows "\<bar>real_of_int (round_half_up x) - x\<bar> \<le> 1/2" "0 \<le> round_half_up x"
proof -
  have "real_of_int \<lfloor>x\<rfloor> \<le> x" "x < real_of_int \<lfloor>x\<rfloor> + 1" "0 \<le> \<lfloor>x\<rfloor>"
    using assms by linarith+
  then show "\<bar>real_of_int (round_half_up x) - x\<bar> \<le> 1/2" "0 \<le> round_half_up x"
    using assms by (auto simp: round_half_up_def c_trunc_def Let_def abs_le_iff)
qed

lemma clamp_id: "0 \<le> x \<Longrightarrow> x \<le> hi \<Longrightarrow> clamp hi x = x"
  by (simp add: clamp_def)

lemma calc_cell_mean:
  assumes "1 < n" "0 \<le> tot" "tot \<le> 2046 * n"
  shows "\<bar>real_of_int (cell_ped (calc_cell tot q n c)) - real_of_int tot / real_of_int n\<bar> \<le> 1/2"
    and "0 \<le> cell_ped (calc_cell tot q n c)" "cell_ped (calc_cell tot q n c) \<le> 2046"
proof -
  let ?x = "real_of_int tot / real_of_int n"
  have x: "0 \<le> ?x" "?x \<le> 2046"
    using assms by (simp_all add: pos_divide_le_eq)
  have "real_of_int (round_half_up ?x) < 2047"
    using round_half_up_nearest(1) [OF x(1)] x(2) by linarith
  then have r: "round_half_up ?x \<le> 2046" "0 \<le> round_half_up ?x"
    using round_half_up_nearest(2) [OF x(1)] by linarith+
  then have "cell_ped (calc_cell tot q n c) = round_half_up ?x"
    using assms(1) by (simp add: calc_cell_def Let_def clamp_id)
  then show "\<bar>real_of_int (cell_ped (calc_cell tot q n c)) - real_of_int tot / real_of_int n\<bar> \<le> 1/2"
    "0 \<le> cell_ped (calc_cell tot q n c)" "cell_ped (calc_cell tot q n c) \<le> 2046"
    using round_half_up_nearest(1) [OF x(1)] r by simp_all
qed

lemma sums_at_reset [simp]: "sums_at (resetPedCalcWithTime t) surf chip chan samp = (0, 0, 0)"
  by (simp add: sums_at_def resetPedCalcWithTime_def)

lemma calculated_cell:
  assumes "surf < 12" "chan < 9" "samp < 260" "ws = cell_words surf chip chan samp evs" "2 \<le> length ws" "length ws \<le> 2 ^ 20"
    and "(peds, labs, pc) = writePedestalsWithTime t junk (fold addEventToPedestals evs (resetPedCalcWithTime t0))"
  shows "\<bar>real_of_int (pd_thePeds peds surf chip chan samp) - real_of_int (sum_list ws) / real (length ws)\<bar> \<le> 1/2"
    and "0 \<le> pd_thePeds peds surf chip chan samp" "pd_thePeds peds surf chip chan samp \<le> 2046"
proof -
  let ?pc = "fold addEventToPedestals evs (resetPedCalcWithTime t0)"
  have range: "0 \<le> sum_list ws" "sum_list ws \<le> 2046 * int (length ws)"
    using sum_list_range [of ws 2046] cell_words_range assms(4) by auto
  then have u: "u32 (sum_list ws) = sum_list ws" "u32 (int (length ws)) = int (length ws)"
    using assms(6) by (auto intro!: u32_id simp: is_u32_def)
  have "ws \<noteq> []"
    using assms(5) by auto
  with sums_of_events [OF assms(1-3), of evs "resetPedCalcWithTime t0" chip]
  have "pc_mean ?pc surf chip chan samp = sum_list ws" "pc_entries ?pc surf chip chan samp = int (length ws)"
    using assms(4) u by (simp_all add: sums_at_def resetPedCalcWithTime_def Let_def)
  moreover have "pd_thePeds peds surf chip chan samp = cell_ped (cell_at (?pc\<lparr>pc_unixTimeEnd := t\<rparr>) junk surf chip chan samp)"
    using assms(7) by (simp add: writePedestalsWithTime_def Let_def)
  ultimately obtain q c where "pd_thePeds peds surf chip chan samp = cell_ped (calc_cell (sum_list ws) q (int (length ws)) c)"
    by (simp add: cell_at_def)
  moreover have "1 < int (length ws)"
    using assms(5) by simp
  ultimately show "\<bar>real_of_int (pd_thePeds peds surf chip chan samp) - real_of_int (sum_list ws) / real (length ws)\<bar> \<le> 1/2"
    "0 \<le> pd_thePeds peds surf chip chan samp" "pd_thePeds peds surf chip chan samp \<le> 2046"
    using calc_cell_mean [OF _ range, of q c] by simp_all
qed

section \<open>What unwrapping does\<close>

lemma upto_map: "[i..j - 1] = map (\<lambda>k. i + int k) [0..<nat (j - i)]"
  by (rule nth_equalityI) (simp_all add: nth_upto)

lemma unwrap_index_mod: "0 \<le> x \<Longrightarrow> x < 516 \<Longrightarrow> unwrap_index x = x mod 258"
  using minus_mod_self2 [of x 258] mod_pos_pos_trivial [of "x - 258" 258]
  by (auto simp: unwrap_index_def simp del: minus_mod_self2)

lemma unwrap_window_range:
  assumes "wf_header h" "unwrap_window h = (fs, ls)"
  shows "0 \<le> fs" "ls - fs \<le> 258" "ls \<le> 516" "valid_samples h \<le> int (nat (ls - fs))"
proof -
  have h: "0 \<le> firstHitbus h" "firstHitbus h \<le> 255" "0 \<le> lastHitbus h" "lastHitbus h \<le> 255"
    using assms(1) by (simp_all add: wf_header_def is_u8_def)
  have l: "firstHitbus h \<le> last_hitbus h" "last_hitbus h - firstHitbus h \<le> 255" "last_hitbus h \<le> 511"
    using h by (auto simp: last_hitbus_def)
  show "0 \<le> fs" "ls - fs \<le> 258" "ls \<le> 516"
    using assms(2) h l by (auto simp: unwrap_window_def split: if_splits)
  have "s16 x = x" if "- 1000 \<le> x" "x \<le> 1000" for x
    using that by (intro s16_id) (simp add: is_s16_def)
  then show "valid_samples h \<le> int (nat (ls - fs))"
    using assms(2) h l by (auto simp: unwrap_window_def valid_samples_def split: if_splits)
qed

lemma sum_list_centred:
  fixes xs :: "real list"
  assumes "n = length xs"
  shows "sum_list (map (\<lambda>x. x - sum_list xs / real n) xs) = 0"
proof -
  have "sum_list (map (\<lambda>x. x - c) xs) = sum_list xs - c * real (length xs)" for c
    by (induction xs) (simp_all add: algebra_simps)
  from this [of "sum_list xs / real n"] show ?thesis
    using assms by (cases "n = 0") simp_all
qed

lemma unwrap_channel_samples:
  assumes "wf_header h" "length dat = 260" "unwrap_window h = (fs, ls)" "n = nat (ls - fs)"
  defines "vals \<equiv> map (\<lambda>k. real_of_int (clip_val (dat ! ((nat fs + k) mod 258)))) [0..<n]"
  shows "unwrap_channel h dat = Some \<lparr>tr_data = map (\<lambda>x. x - sum_list vals / real n) vals @ replicate (260 - n) 0,
    tr_valid_samples = valid_samples h\<rparr>"
proof -
  note range = unwrap_window_range [OF assms(1,3)]
  have samps: "map (\<lambda>samp. unwrap_index samp) [fs..ls - 1] = map (\<lambda>k. int ((nat fs + k) mod 258)) [0..<n]"
  proof -
    have "unwrap_index (fs + int k) = int ((nat fs + k) mod 258)" if "k < n" for k
      using unwrap_index_mod [of "fs + int k"] range(1,3) that assms(4) by (simp add: zmod_int)
    then show ?thesis
      unfolding upto_map assms(4) [symmetric] by simp
  qed
  have "\<not> (\<exists>i\<in>set (map (\<lambda>k. int ((nat fs + k) mod 258)) [0..<n]). i < 0 \<or> int (length dat) \<le> i)"
  proof -
    have "int ((nat fs + k) mod 258) < 260" for k
      using mod_less_divisor [of 258 "nat fs + k"] by linarith
    then show ?thesis
      using assms(2) by (fastforce simp: not_le)
  qed
  moreover have "\<not> 260 < n"
    using range(2) assms(4) by simp
  ultimately show ?thesis
    unfolding unwrap_channel_def assms(3) Let_def split_conv samps vals_def by (simp add: o_def)
qed

section \<open>Properties\<close>


definition flat_event :: "int \<Rightarrow> AnitaEventBody_t" where
  "flat_event chip = example_raw\<lparr>ev_channel := replicate 108 \<lparr>full_header =
     \<lparr>chanId = 0, chipIdFlag = chip, firstHitbus = 10, lastHitbus = 20\<rparr>, full_data = replicate 260 0x0abc\<rparr>\<rparr>"

lemma flat_event_hit:
  assumes "surf < 12" "chan < 9" "samp < 260"
  shows "ped_hit surf chip chan samp (flat_event c) \<longleftrightarrow> chip = nat (c AND 3)" "event_word surf chan samp (flat_event c) = 0x55e"
proof -
  have "9 * surf + chan < 108" "\<not> hitbus 0x0abc"
    using assms(1,2) by (simp_all add: hitbus_def)
  moreover have "samp - 1 < 260" "samp < 255 \<longrightarrow> samp + 1 < 260"
    using assms(3) by simp_all
  ultimately show "ped_hit surf chip chan samp (flat_event c) \<longleftrightarrow> chip = nat (c AND 3)"
    "event_word surf chan samp (flat_event c) = 0x55e"
    using assms(3) by (auto simp: flat_event_def ped_hit_def event_word_def ped_accepts_def chip_of_def ped_word_def drop_bit_eq_div)
qed


text \<open>
  Unwrapping a channel never leaves its 260 samples. It takes the samples behind the hit bus in
  their order in the ring of 258, clipped to 600, less their mean: what remains adds up to zero.
  The number of valid samples that it reports is at most the number that it took.
\<close>

theorem unwrapped_channel:
  assumes "wf_header h" "length dat = 260" "unwrap_window h = (fs, ls)" "n = nat (ls - fs)"
    and "vals = map (\<lambda>k. real_of_int (clip_val (dat ! ((nat fs + k) mod 258)))) [0..<n]"
  shows "n \<le> 258 \<and> (\<exists>tr. unwrap_channel h dat = Some tr \<and> length (tr_data tr) = 260 \<and>
    take n (tr_data tr) = map (\<lambda>x. x - sum_list vals / real n) vals \<and> sum_list (tr_data tr) = 0 \<and>
    tr_valid_samples tr \<le> int n)"
proof -
  note range = unwrap_window_range [OF assms(1,3)]
  have "n \<le> 258"
    using range(2) assms(4) by simp
  then show ?thesis
    using unwrap_channel_samples [OF assms(1-4)] range(4) assms(4) sum_list_centred [of n vals]
    by (simp add: assms(5) sum_list_replicate del: upt_Suc)
qed

theorem unwrapped_channel_witness:
  "\<exists>tr. unwrap_channel \<lparr>chanId = 0, chipIdFlag = 1, firstHitbus = 10, lastHitbus = 20\<rparr> (replicate 260 5) = Some tr \<and>
    sum_list (tr_data tr) = 0"
  using unwrapped_channel [of "\<lparr>chanId = 0, chipIdFlag = 1, firstHitbus = 10, lastHitbus = 20\<rparr>" "replicate 260 5" 21 269 _ _, OF _ _ _ refl refl]
  by (simp add: wf_header_def is_u8_def unwrap_window_def wrapped_hitbus_def last_hitbus_def) blast

end
