(* ===== verification/Code_Pack.thy ===== *)
theory Code_Pack
  imports Comp_Utils Bit_Stream Fibonacci "HOL-Library.Monad_Syntax"
begin

text \<open>
  The packing routines of \<open>src/common/compressLib/compUtils.c\<close>: numbers of a fixed width
  (\<open>bitpack\<close>) and words of a prefix code (\<open>codepack\<close>, \<open>codeunpack\<close>) in a stream of bits, and the packing
  of a whole waveform (\<open>packwave\<close>, \<open>unpackwave\<close>). The output is memory from \<open>out\<close> on; \<open>currentChar\<close> is
  the address of the byte that is being filled. \<open>None\<close> is a loop that does not end.
\<close>

section \<open>The loop that fills bytes\<close>

text \<open>The masks in a type of \<open>W\<close> bits: \<open>~(ones<<r)\<close> and its complement.\<close>

definition low_mask :: "nat \<Rightarrow> nat \<Rightarrow> nat" where
  "low_mask W r = nat (take_bit W (NOT (push_bit r (mask W :: int))))"

definition high_mask :: "nat \<Rightarrow> nat \<Rightarrow> nat" where
  "high_mask W r = nat (take_bit W (NOT (int (low_mask W r))))"

text \<open>
  \<open>while(nbits>0)\<close>: the index \<open>byte\<close> counts modulo \<open>B\<close>, and a new byte is cleared before it is filled.
\<close>

definition next_byte :: "nat \<Rightarrow> nat \<Rightarrow> nat \<Rightarrow> nat" where
  "next_byte B out a = out + Suc (a - out) mod B"

function pack_loop :: "nat \<Rightarrow> nat \<Rightarrow> nat \<Rightarrow> nat \<Rightarrow> nat \<Rightarrow> cursor \<Rightarrow> cursor" where
  "pack_loop W B out scratch n c =
     (if n = 0 then c
      else let room = 8 - currentBit c; a = currentChar c; a' = next_byte B out a in
        if room < n then
          let m = (cmem c)(a := cmem c a OR word_of_nat (push_bit (currentBit c) (scratch AND low_mask W room))) in
          pack_loop W B out (drop_bit room (scratch AND high_mask W room)) (n - room) \<lparr>cmem = m(a' := 0), currentChar = a', currentBit = 0\<rparr>
        else
          let m = (cmem c)(a := cmem c a OR word_of_nat (push_bit (currentBit c) scratch)); b = currentBit c + n in
          if b = 8 then \<lparr>cmem = m(a' := 0), currentChar = a', currentBit = 0\<rparr> else \<lparr>cmem = m, currentChar = a, currentBit = b\<rparr>)"
  by pat_completeness auto
termination
  by (relation "measure (\<lambda>(W, B, out, v, n, c). 2 * n + (if currentBit c < 8 then 0 else 1))") auto

declare pack_loop.simps [simp del]

definition pack_start :: "nat \<Rightarrow> mem \<Rightarrow> cursor" where
  "pack_start out m = \<lparr>cmem = m(out := 0), currentChar = out, currentBit = 0\<rparr>"

definition bytes_used :: "nat \<Rightarrow> cursor \<Rightarrow> nat" where
  "bytes_used out c = (if currentBit c = 0 then currentChar c - out else Suc (currentChar c - out))"

section \<open>The routines\<close>

definition bitpack :: "nat \<Rightarrow> int list \<Rightarrow> nat \<Rightarrow> mem \<Rightarrow> nat \<times> mem" where
  "bitpack nbits inp out m =
     (let mask1 = low_mask 16 nbits;
          c = fold (\<lambda>x. pack_loop 16 (2 ^ 16) out (nat x AND mask1) nbits) inp (pack_start out m)
      in (take_bit 16 (bytes_used out c), cmem c))"

text \<open>\<open>while(sbit<=in[i]) {sbit=sbit<<1; nbits++;}\<close>\<close>

partial_function (option) count_bits :: "nat \<Rightarrow> nat \<Rightarrow> nat \<Rightarrow> nat option" where
  [code]: "count_bits sbit nbits x =
     (if sbit \<le> x then count_bits (take_bit 32 (2 * sbit)) (take_bit 8 (Suc nbits)) x else Some nbits)"

fun pack_words :: "nat \<Rightarrow> nat list \<Rightarrow> cursor \<Rightarrow> cursor option" where
  "pack_words out [] c = Some c"
| "pack_words out (x # xs) c = do { n \<leftarrow> count_bits 1 0 x; pack_words out xs (pack_loop 32 (2 ^ 31) out x n c) }"

definition codepack :: "nat list \<Rightarrow> nat \<Rightarrow> mem \<Rightarrow> (nat \<times> mem) option" where
  "codepack inp out m = map_option (\<lambda>c. (bytes_used out c, cmem c)) (pack_words out inp (pack_start out m))"

text \<open>The words that are complete, and the one that is being read; \<open>inbit\<close> is always below 8.\<close>

function unpack_bits :: "mem \<Rightarrow> nat \<Rightarrow> nat \<Rightarrow> nat \<Rightarrow> nat \<Rightarrow> nat list \<Rightarrow> nat \<Rightarrow> nat \<Rightarrow> nat \<Rightarrow> nat list \<times> nat" where
  "unpack_bits mem inp m inbyte inbit out word outbit lastbit =
     (if inbyte < m then
        let curbit = drop_bit inbit (unat (mem (inp + inbyte))) AND 1;
            word = word OR push_bit outbit curbit;
            (inbyte, inbit) = (if 8 \<le> Suc inbit then (Suc inbyte, 0) else (inbyte, Suc inbit));
            outbit = Suc outbit;
            (out, word, outbit) = (if curbit = 1 \<and> lastbit = 1 \<or> outbit = 32 then (out @ [word], 0, 0) else (out, word, outbit))
        in unpack_bits mem inp m inbyte inbit out word outbit (if outbit \<noteq> 0 then curbit else 0)
      else (out, word))"
  by pat_completeness auto
termination
  by (relation "measure (\<lambda>(mem, inp, m, inbyte, inbit, _). 16 * (m - inbyte) + (8 - inbit))")
    (auto split: if_splits)

declare unpack_bits.simps [simp del]

definition codeunpack :: "nat \<Rightarrow> nat \<Rightarrow> mem \<Rightarrow> nat list \<times> nat" where
  "codeunpack m inp mem = unpack_bits mem inp m 0 0 [] 0 0 0"

text \<open>
  \<open>packwave\<close>: \<open>scratch\<close> is an array of the stack, with what is there when it is called; every round of
  the loop packs all of it.
\<close>

fun code_samples :: "nat \<Rightarrow> int list \<Rightarrow> nat \<Rightarrow> nat list \<Rightarrow> nat list \<Rightarrow> nat \<times> int \<times> mem \<Rightarrow> (nat \<times> int \<times> mem) option" where
  "code_samples nwords inp out [] scratch r = Some r"
| "code_samples nwords inp out (i # is) scratch (codebytes, median, m) =
     do {
       median \<leftarrow> findmedian nwords inp;
       let scratch = scratch[i := fibonacci (nat (bifurcate (s16 (inp ! i - median))))];
       (n, m) \<leftarrow> codepack (take nwords scratch) out m;
       code_samples nwords inp out is scratch (take_bit 16 n, median, m)
     }"

definition packwave :: "nat \<Rightarrow> nat \<Rightarrow> nat \<Rightarrow> nat \<Rightarrow> int list \<Rightarrow> nat \<Rightarrow> nat list \<Rightarrow> mem \<Rightarrow> (nat \<times> int list \<times> mem) option" where
  "packwave nwords width nstrip npack inp out scratch m =
     do {
       inp \<leftarrow> (if nstrip \<noteq> 0 then bitstrip nstrip nwords inp else Some inp);
       let (packbytes, m) = (if npack \<noteq> 0 then bitpack npack (take nwords inp) (out + 6) m else (0, m));
       inp \<leftarrow> (if npack \<noteq> 0 then bitstrip npack nwords inp else Some inp);
       (codebytes, median, m) \<leftarrow>
         (if width \<noteq> nstrip + npack then code_samples nwords inp (out + 6 + packbytes) [0..<nwords] scratch (0, 0, m) else Some (0, 0, m));
       let header = [drop_bit 8 packbytes, packbytes AND 255, drop_bit 8 codebytes, codebytes AND 255, drop_bit 8 (nat median), nat median AND 255];
       Some (take_bit 16 (packbytes + codebytes + 6), inp, fold (\<lambda>i m. m(out + i := word_of_nat (header ! i))) [0..<6] m)
     }"

text \<open>The number of words is known from the packed ones only, at most 65535 fit.\<close>

definition unpackwave :: "nat \<Rightarrow> nat \<Rightarrow> nat \<Rightarrow> mem \<Rightarrow> int list option" where
  "unpackwave nstrip npack inp m =
     (let byte_at = (\<lambda>i. unat (m (inp + i)));
          median = byte_at 4 * 256 + byte_at 5; codebytes = byte_at 2 * 256 + byte_at 3; packbytes = byte_at 0 * 256 + byte_at 2;
          scratch = fst (codeunpack codebytes (inp + 6 + packbytes) m)
      in if 65536 \<le> length scratch then None
         else Some (map (\<lambda>w. u16 (int median + push_bit (nstrip + npack) (unbifurcate (int (unfibonacci w))))) scratch))"

section \<open>Filling bytes\<close>

lemma low_mask_mask: "r \<le> W \<Longrightarrow> low_mask W r = mask r"
proof -
  assume "r \<le> W"
  then have "take_bit W (NOT (push_bit r (mask W :: int))) = mask r"
    by (intro bit_eqI) (auto simp: bit_simps)
  then show ?thesis
    by (simp add: low_mask_def nat_mask_eq)
qed

lemma high_mask_and: "r \<le> W \<Longrightarrow> v < 2 ^ W \<Longrightarrow> drop_bit r (v AND high_mask W r) = drop_bit r v"
proof -
  assume r: "r \<le> W" "v < 2 ^ W"
  then have "bit (high_mask W r) k \<longleftrightarrow> r \<le> k \<and> k < W" for k
    by (auto simp: high_mask_def low_mask_mask bit_simps nat_mask_eq)
  moreover have "bit v k \<Longrightarrow> k < W" for k
    using r(2) by (metis bit_take_bit_iff take_bit_nat_eq_self)
  ultimately show ?thesis
    by (intro bit_eqI) (auto simp: bit_simps)
qed

text \<open>The rest of the current byte is clear.\<close>

definition fresh_cursor :: "cursor \<Rightarrow> bool" where
  "fresh_cursor c \<longleftrightarrow> wf_cursor c \<and> (\<forall>p. cpos c \<le> p \<and> p < 8 * Suc (currentChar c) \<longrightarrow> \<not> mbit (cmem c) p)"

definition packed :: "bool list \<Rightarrow> cursor \<Rightarrow> cursor \<Rightarrow> bool" where
  "packed bs c c' \<longleftrightarrow> fresh_cursor c' \<and> cpos c' = cpos c + length bs \<and> (\<forall>p<cpos c. mbit (cmem c') p = mbit (cmem c) p)
     \<and> holds_stream (cmem c') (cpos c) bs"

lemma packed_append:
  assumes "packed bs c c1" "packed bs' c1 c2"
  shows "packed (bs @ bs') c c2"
proof -
  have "mbit (cmem c2) (cpos c + i) = bs ! i" if "i < length bs" for i
    using assms that by (simp add: packed_def holds_stream_def)
  then show ?thesis
    using assms unfolding packed_def holds_stream_append by (simp add: holds_stream_def)
qed

lemma packed_Nil: "fresh_cursor c \<Longrightarrow> packed [] c c"
  by (simp add: packed_def holds_stream_def)

lemma packed_code: "packed (code_bits (v, n)) c c' \<longleftrightarrow> fresh_cursor c' \<and> cpos c' = cpos c + n \<and> (\<forall>p<cpos c. mbit (cmem c') p = mbit (cmem c) p)
    \<and> (\<forall>i<n. mbit (cmem c') (cpos c + i) = bit v i)"
  by (auto simp: packed_def holds_stream_def code_bits_def)

lemma take_and: "v AND mask n = take_bit n (v :: nat)"
  by (simp add: take_bit_eq_mask)

lemma pack_loop_packed:
  assumes "fresh_cursor c" "n \<le> W" "v < 2 ^ n" "8 \<le> W" "out \<le> currentChar c" "cpos c + n < 8 * (out + B)"
  shows "packed (code_bits (v, n)) c (pack_loop W B out v n c)"
  using assms
proof (induction W B out v n c rule: pack_loop.induct)
  case (1 W B out v n c)
  let ?a = "currentChar c" and ?b = "currentBit c" and ?r = "8 - currentBit c"
  have b: "?b < 8" and clear: "\<And>p. cpos c \<le> p \<Longrightarrow> p < 8 * Suc ?a \<Longrightarrow> \<not> mbit (cmem c) p"
    using 1(2) by (auto simp: fresh_cursor_def wf_cursor_def)
  have nb: "next_byte B out ?a = Suc ?a" if "?r \<le> n"
  proof -
    have "Suc (?a - out) < B"
      using that 1(6,7) b by (simp add: cpos_def)
    then show ?thesis
      using 1(6) by (simp add: next_byte_def)
  qed
  have mbit_next: "mbit (m(Suc ?a := 0)) p = (if p div 8 = Suc ?a then False else mbit m p)" for m p
    by (simp add: mbit_def)
  have eq: "v AND mask n = v"
    using 1(4) by (simp add: take_and take_bit_nat_eq_self)
  consider "n = 0" | "?r < n" | "0 < n" "n \<le> ?r"
    by linarith
  then show ?case
  proof cases
    case 1
    then show ?thesis
      using "1.prems"(1) by (simp add: pack_loop.simps packed_code)
  next
    case 2
    define c1 where "c1 = \<lparr>cmem = ((cmem c)(?a := cmem c ?a OR word_of_nat (push_bit ?b (v AND mask ?r))))(Suc ?a := 0), currentChar = Suc ?a, currentBit = 0\<rparr>"
    have v: "v < 2 ^ W"
      using "1.prems"(2,3) by (meson less_le_trans one_le_numeral power_increasing)
    have high: "drop_bit ?r v AND drop_bit ?r (high_mask W ?r) = drop_bit ?r v"
      using high_mask_and [of ?r W v] v "1.prems"(4) by (simp only: drop_bit_and)
    have step: "pack_loop W B out v n c = pack_loop W B out (drop_bit ?r v) (n - ?r) c1"
      using 2 "1.prems"(4) by (simp add: pack_loop.simps [of W B out v n c] Let_def nb low_mask_mask high c1_def)
    have m1: "mbit (cmem c1) p = (if p div 8 = Suc ?a then False else mbit (cmem c) p \<or> (cpos c \<le> p \<and> p < cpos c + ?r \<and> bit v (p - cpos c)))" for p
      using mbit_or_byte [of ?b ?r "cmem c" ?a v p] b by (simp add: c1_def mbit_next cpos_def)
    have pos: "cpos c1 = cpos c + ?r" "currentChar c1 = Suc ?a"
      using b by (simp_all add: c1_def cpos_def)
    have fresh1: "fresh_cursor c1"
      using m1 by (auto simp: fresh_cursor_def wf_cursor_def c1_def cpos_def)
    have small: "drop_bit ?r v < 2 ^ (n - ?r)"
      using "1.prems"(3) 2 by (simp add: drop_bit_eq_div less_mult_imp_div_less power_add [symmetric])
    have IH: "packed (code_bits (drop_bit ?r v, n - ?r)) c1 (pack_loop W B out (drop_bit ?r v) (n - ?r) c1)"
      using "1.IH" [of ?r ?a "Suc ?a" "(cmem c)(?a := cmem c ?a OR word_of_nat (push_bit ?b (v AND low_mask W ?r)))"] 2 fresh1 small "1.prems" pos nb
      by (simp add: low_mask_mask high c1_def)
    have inside: "(8 * ?a + ?b + i) div 8 = ?a" "?b + i < 8" if "i < ?r" for i
      using that b by linarith+
    have first: "mbit (cmem c1) (cpos c + i) = bit v i" if "i < ?r" for i
      using inside [OF that] clear [of "cpos c + i"] m1 [of "cpos c + i"] by (simp add: cpos_def)
    have below: "p div 8 \<noteq> Suc ?a" if "p < cpos c" for p
      using that b by (auto simp: cpos_def)
    have before: "mbit (cmem c1) p = mbit (cmem c) p" if "p < cpos c" for p
      using that below [OF that] m1 [of p] by simp
    have "packed (code_bits (take_bit ?r v, ?r)) c c1"
      using fresh1 pos first before by (simp add: packed_code bit_take_bit_iff)
    moreover have "code_bits (take_bit ?r v, ?r) @ code_bits (drop_bit ?r v, n - ?r) = code_bits (v, n)"
      using 2 by (intro nth_equalityI) (auto simp: code_bits_def nth_append bit_simps)
    ultimately show ?thesis
      using packed_append [OF _ IH] unfolding step by metis
  next
    case 3
    define m1 where "m1 = (cmem c)(?a := cmem c ?a OR word_of_nat (push_bit ?b (v AND mask n)))"
    have bits: "mbit m1 p \<longleftrightarrow> mbit (cmem c) p \<or> (cpos c \<le> p \<and> p < cpos c + n \<and> bit v (p - cpos c))" for p
      using mbit_or_byte [of ?b n "cmem c" ?a v p] b 3 by (simp add: m1_def cpos_def)
    have first: "mbit m1 (cpos c + i) = bit v i" if "i < n" for i
      using that b 3 clear [of "cpos c + i"] bits [of "cpos c + i"] by (simp add: cpos_def)
    have before: "mbit m1 p = mbit (cmem c) p" if "p < cpos c" for p
      using that bits [of p] by auto
    have rest: "\<not> mbit m1 p" if "cpos c + n \<le> p" "p < 8 * Suc ?a" for p
      using that clear [of p] bits [of p] by auto
    have inside: "(cpos c + i) div 8 \<noteq> Suc ?a" if "i < n" for i
      using that 3 b by (auto simp: cpos_def)
    have below: "p div 8 \<noteq> Suc ?a" if "p < cpos c" for p
      using that b by (auto simp: cpos_def)
    show ?thesis
    proof (cases "?b + n = 8")
      case True
      then have "pack_loop W B out v n c = \<lparr>cmem = m1(Suc ?a := 0), currentChar = Suc ?a, currentBit = 0\<rparr>"
        using 3 nb eq by (simp add: pack_loop.simps [of W B out v n c] m1_def Let_def)
      then show ?thesis
        using True first before inside below by (auto simp: packed_code fresh_cursor_def wf_cursor_def cpos_def mbit_next)
    next
      case False
      then have "pack_loop W B out v n c = \<lparr>cmem = m1, currentChar = ?a, currentBit = ?b + n\<rparr>"
        using 3 eq by (simp add: pack_loop.simps [of W B out v n c] m1_def Let_def)
      then show ?thesis
        using False 3 first before rest b by (auto simp: packed_code fresh_cursor_def wf_cursor_def cpos_def)
    qed
  qed
qed

section \<open>Streams of fields\<close>

lemma pack_start_fresh: "fresh_cursor (pack_start out m)" "cpos (pack_start out m) = 8 * out"
proof -
  have "\<not> mbit (m(out := 0)) p" if "8 * out \<le> p" "p < 8 * Suc out" for p
  proof -
    have "p div 8 = out"
      using that by auto
    then show ?thesis
      by (simp add: mbit_def)
  qed
  then show "fresh_cursor (pack_start out m)"
    by (simp add: fresh_cursor_def pack_start_def wf_cursor_def cpos_def)
  show "cpos (pack_start out m) = 8 * out"
    by (simp add: pack_start_def cpos_def)
qed

definition pack_fields :: "nat \<Rightarrow> nat \<Rightarrow> nat \<Rightarrow> (nat \<times> nat) list \<Rightarrow> cursor \<Rightarrow> cursor" where
  "pack_fields W B out vns c = fold (\<lambda>(v, n). pack_loop W B out v n) vns c"

lemma pack_fields_packed:
  assumes "fresh_cursor c" "\<forall>(v, n)\<in>set vns. n \<le> W \<and> v < 2 ^ n" "8 \<le> W" "8 * out \<le> cpos c"
    and "cpos c + length (stream_bits vns) < 8 * (out + B)"
  shows "packed (stream_bits vns) c (pack_fields W B out vns c)"
  using assms
proof (induction vns arbitrary: c)
  case Nil
  then show ?case
    by (simp add: pack_fields_def packed_Nil)
next
  case (Cons vn vns)
  obtain v n where vn: "vn = (v, n)"
    by fastforce
  let ?c = "pack_loop W B out v n c"
  have "out \<le> currentChar c"
    using Cons.prems(1,4) by (auto simp: cpos_def fresh_cursor_def wf_cursor_def)
  then have 1: "packed (code_bits (v, n)) c ?c"
    using Cons.prems by (intro pack_loop_packed) (auto simp: vn)
  then have "packed (stream_bits vns) ?c (pack_fields W B out vns ?c)"
    using Cons.prems by (intro Cons.IH) (auto simp: packed_def vn)
  then show ?case
    using packed_append [OF 1] by (simp add: vn pack_fields_def)
qed

text \<open>The bytes of a packed stream are those of the number that its bits are.\<close>

lemma packed_bytes:
  assumes "packed bs (pack_start out m) c"
  shows "bytes_used out c = (length bs + 7) div 8"
    and "j < (length bs + 7) div 8 \<Longrightarrow> cmem c (out + j) = word_of_nat (drop_bit (8 * j) (horner_sum of_bool 2 bs))"
    and "i < out \<Longrightarrow> cmem c i = m i"
proof -
  have c: "currentBit c < 8" "8 * currentChar c + currentBit c = 8 * out + length bs"
    and clear: "\<And>p. 8 * out + length bs \<le> p \<Longrightarrow> p < 8 * Suc (currentChar c) \<Longrightarrow> \<not> mbit (cmem c) p"
    and old: "\<And>p. p < 8 * out \<Longrightarrow> mbit (cmem c) p = mbit (m(out := 0)) p" and bs: "\<And>i. i < length bs \<Longrightarrow> mbit (cmem c) (8 * out + i) = bs ! i"
    using assms pack_start_fresh(2) [of out m] by (auto simp: packed_def fresh_cursor_def wf_cursor_def holds_stream_def cpos_def pack_start_def)
  show "bytes_used out c = (length bs + 7) div 8"
    using c by (auto simp: bytes_used_def)
  show "cmem c (out + j) = word_of_nat (drop_bit (8 * j) (horner_sum of_bool 2 bs))" if j: "j < (length bs + 7) div 8"
  proof (rule bit_word_eqI)
    fix k
    assume k: "k < LENGTH(8)"
    have "mbit (cmem c) (8 * out + (8 * j + k)) \<longleftrightarrow> 8 * j + k < length bs \<and> bs ! (8 * j + k)"
    proof (cases "8 * j + k < length bs")
      case False
      have "8 * j < length bs"
        using j by presburger
      then have "out + j \<le> currentChar c"
        using c by linarith
      then show ?thesis
        using False clear [of "8 * out + (8 * j + k)"] k by auto
    qed (simp add: bs)
    moreover have "mbit (cmem c) (8 * out + (8 * j + k)) = bit (cmem c (out + j)) k"
      using mbit_byte [of k "cmem c" "out + j"] k by (simp add: algebra_simps)
    ultimately show "bit (cmem c (out + j)) k = bit (word_of_nat (drop_bit (8 * j) (horner_sum of_bool 2 bs)) :: byte) k"
      using k by (simp add: bit_word_of_nat_byte bit_drop_bit_eq bit_horner_sum_bit_iff)
  qed
  show "cmem c i = m i" if "i < out"
  proof (rule mem_eq_if_bits)
    show "mbit (cmem c) (8 * i + k) = mbit m (8 * i + k)" if "k < 8" for k
      using old [of "8 * i + k"] \<open>i < out\<close> that by (auto simp: mbit_def)
  qed
qed

lemma stream_bits_horner: "horner_sum of_bool 2 (stream_bits (map (\<lambda>v. (v, n)) vs)) = horner_sum (take_bit n) (2 ^ n) vs"
proof (induction vs)
  case (Cons v vs)
  have "horner_sum of_bool 2 (code_bits (v, n)) = take_bit n v"
    by (simp add: code_bits_def horner_sum_bit_eq_take_bit)
  then show ?case
    using Cons by (simp add: horner_sum_append)
qed (simp add: stream_bits_def)

lemma horner_sum_map: "horner_sum f b (map g xs) = horner_sum (\<lambda>x. f (g x)) b xs"
  by (induction xs) simp_all

lemma fold_pack: "fold (\<lambda>x. pack_loop W B out (f x) n) xs c = pack_fields W B out (map (\<lambda>x. (f x, n)) xs) c"
  by (simp add: pack_fields_def fold_map comp_def)

lemma bitpack_bytes:
  assumes "n \<le> 16" "length xs * n < 8 * 65535"
  shows "\<exists>m'. bitpack n xs out m = ((length xs * n + 7) div 8, m')
    \<and> (\<forall>j<(length xs * n + 7) div 8. m' (out + j) = word_of_nat (drop_bit (8 * j) (horner_sum (\<lambda>x. take_bit n (nat x)) (2 ^ n) xs)))
    \<and> (\<forall>i<out. m' i = m i)"
proof -
  let ?vns = "map (\<lambda>x. (nat x AND low_mask 16 n, n)) xs" and ?c = "pack_start out m"
  let ?c' = "pack_fields 16 (2 ^ 16) out ?vns ?c"
  have mask: "nat x AND low_mask 16 n = take_bit n (nat x)" for x
    using assms(1) by (simp add: low_mask_mask take_and)
  have len: "length (stream_bits ?vns) = length xs * n"
    by (simp add: length_stream_bits comp_def sum_list_triv)
  have "packed (stream_bits ?vns) ?c ?c'"
    using assms pack_start_fresh [of out m] len by (intro pack_fields_packed) (auto simp: mask)
  note bytes = packed_bytes [OF this]
  have "stream_bits ?vns = stream_bits (map (\<lambda>v. (v, n)) (map nat xs))"
    by (simp add: mask stream_bits_def comp_def code_bits_take_bit)
  then have "horner_sum of_bool 2 (stream_bits ?vns) = horner_sum (\<lambda>x. take_bit n (nat x)) (2 ^ n) xs"
    by (simp only: stream_bits_horner horner_sum_map)
  moreover have "(length xs * n + 7) div 8 < 2 ^ 16"
    using assms(2) by auto
  ultimately show ?thesis
    using bytes unfolding bitpack_def Let_def fold_pack len by (simp add: take_bit_nat_eq_self)
qed

section \<open>Counting the bits of a word\<close>

lemma count_bits_power:
  assumes "x < 2 ^ n" "n \<le> 31" "\<forall>j<n. 2 ^ j \<le> x" "k \<le> n"
  shows "count_bits (2 ^ k) k x = Some n"
  using assms(4)
proof (induction "n - k" arbitrary: k)
  case 0
  then show ?case
    using assms(1) by (subst count_bits.simps) simp
next
  case (Suc d)
  then have k: "k < n" "2 ^ k \<le> x" "(2 :: nat) * 2 ^ k < 2 ^ 32" "Suc k < 2 ^ 8"
    using assms(2,3) power_strict_increasing [of "Suc k" 32 "2 :: nat"] by auto
  then have "count_bits (2 ^ k) k x = count_bits (2 ^ Suc k) (Suc k) x"
    by (subst count_bits.simps) (simp add: take_bit_nat_eq_self)
  also have "\<dots> = Some n"
    using Suc.hyps(1) [of "Suc k"] Suc.hyps(2) k(1) by simp
  finally show ?case .
qed

lemma count_bits_length: "x < 2 ^ n \<Longrightarrow> n \<le> 31 \<Longrightarrow> 0 < n \<Longrightarrow> bit x (n - 1) \<Longrightarrow> count_bits 1 0 x = Some n"
proof -
  assume x: "x < 2 ^ n" "n \<le> 31" "0 < n" "bit x (n - 1)"
  have "2 ^ (n - 1) \<le> x"
    using x(4) by (metis bit_take_bit_iff less_irrefl not_le take_bit_nat_eq_self)
  then have "\<forall>j<n. 2 ^ j \<le> x"
    by (metis Suc_pred' le_trans less_Suc_eq_le one_le_numeral power_increasing x(3))
  then show ?thesis
    using count_bits_power [of x n 0] x by simp
qed

text \<open>The bit that is counted up reaches zero for words with the top bit, and stays below the word.\<close>

definition one_bit :: "nat \<Rightarrow> bool" where
  "one_bit s \<longleftrightarrow> s = 0 \<or> (\<exists>j\<le>31. s = 2 ^ j)"

lemma one_bit_next: "one_bit s \<Longrightarrow> one_bit (take_bit 32 (2 * s))"
proof (cases "s = 0 \<or> s = 2 ^ 31")
  case False
  assume "one_bit s"
  with False obtain j where j: "j < 31" "s = 2 ^ j"
    unfolding one_bit_def by (metis le_neq_implies_less)
  then have "2 * s < 2 ^ 32" "2 * s = 2 ^ Suc j"
    using power_strict_increasing [of "Suc j" 32 "2 :: nat"] by auto
  then show ?thesis
    using j(1) unfolding one_bit_def by (intro disjI2 exI [of _ "Suc j"]) (simp add: take_bit_nat_eq_self)
qed (auto simp: take_bit_eq_mod one_bit_def)

lemma count_bits_top:
  assumes "count_bits sbit k x = Some n"
  shows "one_bit sbit \<longrightarrow> x < 2 ^ 31"
proof (rule count_bits.raw_induct [of "\<lambda>s k x n. one_bit s \<longrightarrow> x < 2 ^ 31" "((sbit, k), x)" n, unfolded prod.case, OF _ assms])
  fix f :: "nat \<Rightarrow> nat \<Rightarrow> nat \<Rightarrow> nat option" and sbit k x n
  assume IH: "\<And>sbit k x n. f sbit k x = Some n \<Longrightarrow> one_bit sbit \<longrightarrow> x < 2 ^ 31"
    and step: "(if sbit \<le> x then f (take_bit 32 (2 * sbit)) (take_bit 8 (Suc k)) x else Some k) = Some n"
  show "one_bit sbit \<longrightarrow> x < 2 ^ 31"
  proof (cases "sbit \<le> x")
    case True
    then show ?thesis
      using IH step one_bit_next by metis
  next
    case False
    moreover have "sbit \<le> 2 ^ 31" if "one_bit sbit"
      using that power_increasing [of _ 31 "2 :: nat"] unfolding one_bit_def by auto
    ultimately show ?thesis
      by linarith
  qed
qed

lemma count_bits_loops: "2 ^ 31 \<le> x \<Longrightarrow> count_bits 1 0 x = None"
proof (rule ccontr)
  assume x: "2 ^ 31 \<le> x" "count_bits 1 0 x \<noteq> None"
  then obtain n where "count_bits 1 0 x = Some n"
    by auto
  moreover have "one_bit 1"
    unfolding one_bit_def by (intro disjI2 exI [of _ 0]) simp
  ultimately show False
    using count_bits_top x(1) by fastforce
qed

section \<open>Words of a prefix code\<close>

lemma pack_words_fields:
  assumes "\<forall>(v, n)\<in>set vns. count_bits 1 0 v = Some n"
  shows "pack_words out (map fst vns) c = Some (pack_fields 32 (2 ^ 31) out vns c)"
  using assms by (induction vns arbitrary: c) (auto simp: pack_fields_def)

lemma codepack_stream:
  assumes "\<forall>(v, n)\<in>set vns. code_word v n" "length (stream_bits vns) < 8 * 2 ^ 31"
  shows "\<exists>c. codepack (map fst vns) out m = Some (bytes_used out c, cmem c) \<and> packed (stream_bits vns) (pack_start out m) c"
proof -
  have "count_bits 1 0 v = Some n" "n \<le> 32" "v < 2 ^ n" if "(v, n) \<in> set vns" for v n
    using assms(1) that count_bits_length [of v n] by (auto simp: code_word_def)
  then have n: "\<forall>(v, n)\<in>set vns. count_bits 1 0 v = Some n" "\<forall>(v, n)\<in>set vns. n \<le> 32 \<and> v < 2 ^ n"
    by blast+
  have "packed (stream_bits vns) (pack_start out m) (pack_fields 32 (2 ^ 31) out vns (pack_start out m))"
    using assms(2) pack_start_fresh [of out m] by (intro pack_fields_packed [OF _ n(2)]) auto
  with pack_words_fields [OF n(1)] show ?thesis
    by (intro exI [of _ "pack_fields 32 (2 ^ 31) out vns (pack_start out m)"]) (simp add: codepack_def)
qed

section \<open>Reading them back\<close>

abbreviation unpack_at :: "mem \<Rightarrow> nat \<Rightarrow> nat \<Rightarrow> nat \<Rightarrow> nat list \<Rightarrow> nat \<Rightarrow> nat \<Rightarrow> nat \<Rightarrow> nat list \<times> nat" where
  "unpack_at mem inp m p \<equiv> unpack_bits mem inp m (p div 8) (p mod 8)"

lemma next_position: "(if 8 \<le> Suc (p mod 8) then (Suc (p div 8), 0) else (p div 8, Suc (p mod 8))) = (Suc p div 8, Suc p mod 8)"
  by (auto simp: mod_Suc div_Suc)

lemma unpack_step:
  assumes "p < 8 * m" "b = of_bool (mbit mem (8 * inp + p))"
  shows "unpack_at mem inp m p out word ob lb =
    (if b = 1 \<and> lb = 1 \<or> Suc ob = 32 then unpack_at mem inp m (Suc p) (out @ [word OR push_bit ob b]) 0 0 0
     else unpack_at mem inp m (Suc p) out (word OR push_bit ob b) (Suc ob) b)"
proof -
  have "(8 * inp + p) div 8 = inp + p div 8" "(8 * inp + p) mod 8 = p mod 8"
    by auto
  then have cur: "drop_bit (p mod 8) (unat (mem (inp + p div 8))) AND 1 = b"
    using assms(2) by (simp add: mbit_def and_one_eq mod_2_eq_odd bit_unsigned_iff flip: bit_iff_odd_drop_bit)
  have "p div 8 < m"
    using assms(1) by (simp add: less_mult_imp_div_less mult.commute)
  then show ?thesis
    unfolding unpack_bits.simps [of mem inp m "p div 8" "p mod 8" out word ob lb] Let_def cur next_position
    by (cases "b = 1 \<and> lb = 1 \<or> Suc ob = 32") (simp_all only: if_True if_False prod.case, simp_all)
qed

lemma or_push: "take_bit j c OR push_bit j (of_bool (bit c j)) = take_bit (Suc j) (c :: nat)"
  by (rule bit_eqI) (auto simp: bit_simps less_Suc_eq)

lemma unpack_word:
  assumes "code_word c n" "holds_stream mem (8 * inp + p) (code_bits (c, n))" "p + n \<le> 8 * m" "j < n"
  shows "unpack_at mem inp m (p + j) out (take_bit j c) j (of_bool (0 < j \<and> bit c (j - 1))) = unpack_at mem inp m (p + n) (out @ [c]) 0 0 0"
  using assms(4)
proof (induction "n - 1 - j" arbitrary: j)
  case 0
  then have j: "j = n - 1" "Suc j = n" "0 < j"
    using assms(1) by (auto simp: code_word_def)
  have "mbit mem (8 * inp + (p + j)) = bit c j"
    using assms(2) j(2) by (auto simp: holds_stream_def code_bits_def add.assoc)
  moreover have "bit c j" "bit c (j - 1)" "take_bit n c = c"
    using assms(1) j by (auto simp: code_word_def take_bit_nat_eq_self numeral_2_eq_2)
  ultimately show ?case
    using unpack_step [of "p + j" m 1 mem inp out "take_bit j c" j 1] assms(3) j or_push [of j c] by (simp add: add.assoc)
next
  case (Suc d)
  then have j: "Suc j < n" "Suc j < n - 1 \<or> Suc j = n - 1"
    by auto
  have b: "mbit mem (8 * inp + (p + j)) = bit c j"
    using assms(2) j(1) by (auto simp: holds_stream_def code_bits_def add.assoc)
  have "\<not> (bit c j \<and> 0 < j \<and> bit c (j - 1))"
    using assms(1) j by (cases j) (auto simp: code_word_def)
  moreover have "Suc j \<noteq> 32"
    using assms(1) j(1) by (auto simp: code_word_def)
  ultimately have "unpack_at mem inp m (p + j) out (take_bit j c) j (of_bool (0 < j \<and> bit c (j - 1)))
      = unpack_at mem inp m (p + Suc j) out (take_bit (Suc j) c) (Suc j) (of_bool (bit c j))"
    using unpack_step [of "p + j" m "of_bool (bit c j)" mem inp out "take_bit j c" j "of_bool (0 < j \<and> bit c (j - 1))"] assms(3) j(1) b or_push [of j c]
    by auto
  also have "\<dots> = unpack_at mem inp m (p + n) (out @ [c]) 0 0 0"
    using Suc.hyps(1) [of "Suc j"] Suc.hyps(2) j(1) by simp
  finally show ?case .
qed

lemma unpack_padding:
  assumes "\<forall>i. p \<le> i \<and> i < 8 * m \<longrightarrow> \<not> mbit mem (8 * inp + i)" "ob + (8 * m - p) < 32" "p \<le> 8 * m"
  shows "unpack_at mem inp m p out 0 ob 0 = (out, 0)"
  using assms
proof (induction "8 * m - p" arbitrary: p ob)
  case 0
  then have "p = 8 * m"
    by simp
  then show ?case
    by (simp add: unpack_bits.simps [of mem inp m m])
next
  case (Suc d)
  then have p: "p < 8 * m" "\<not> mbit mem (8 * inp + p)" "Suc ob \<noteq> 32"
    by auto
  then have "unpack_at mem inp m p out 0 ob 0 = unpack_at mem inp m (Suc p) out 0 (Suc ob) 0"
    using unpack_step [of p m 0 mem inp out 0 ob 0] by simp
  also have "\<dots> = (out, 0)"
    using Suc.prems p(1) Suc.hyps(2) by (intro Suc.hyps(1)) auto
  finally show ?case .
qed

lemma unpack_stream:
  assumes "\<forall>(v, n)\<in>set vns. code_word v n" "holds_stream mem (8 * inp + p) (stream_bits vns)" "p + length (stream_bits vns) \<le> 8 * m"
  shows "unpack_at mem inp m p out 0 0 0 = unpack_at mem inp m (p + length (stream_bits vns)) (out @ map fst vns) 0 0 0"
  using assms
proof (induction vns arbitrary: p out)
  case (Cons vn vns)
  obtain v n where vn: "vn = (v, n)"
    by fastforce
  have c: "code_word v n" "holds_stream mem (8 * inp + p) (code_bits (v, n))" "holds_stream mem (8 * inp + (p + n)) (stream_bits vns)"
    and n: "0 < n" "p + n + length (stream_bits vns) \<le> 8 * m"
    using Cons.prems by (auto simp: vn holds_stream_append add.assoc code_word_def)
  have "unpack_at mem inp m p out 0 0 0 = unpack_at mem inp m (p + n) (out @ [v]) 0 0 0"
    using unpack_word [OF c(1,2), of m 0 out] n by simp
  also have "\<dots> = unpack_at mem inp m (p + n + length (stream_bits vns)) ((out @ [v]) @ map fst vns) 0 0 0"
    using Cons.prems(1) c(3) n(2) by (intro Cons.IH) (auto simp: vn)
  finally show ?case
    by (simp add: vn add.assoc)
qed simp

lemma codeunpack_packed:
  assumes "\<forall>(v, n)\<in>set vns. code_word v n" "packed (stream_bits vns) (pack_start out m) c" "\<forall>i\<ge>out. mem i = cmem c i"
  shows "codeunpack (bytes_used out c) out mem = (map fst vns, 0)"
proof -
  let ?l = "length (stream_bits vns)" and ?m = "bytes_used out c"
  have m: "?m = (?l + 7) div 8"
    by (rule packed_bytes(1) [OF assms(2)])
  have same: "mbit mem (8 * out + i) = mbit (cmem c) (8 * out + i)" for i
    using assms(3) by (simp add: mbit_def)
  have c: "8 * out + ?l = 8 * currentChar c + currentBit c" "currentBit c < 8"
    and clear: "\<And>p. 8 * out + ?l \<le> p \<Longrightarrow> p < 8 * Suc (currentChar c) \<Longrightarrow> \<not> mbit (cmem c) p" and held: "holds_stream (cmem c) (8 * out) (stream_bits vns)"
    using assms(2) pack_start_fresh(2) [of out m] by (auto simp: packed_def fresh_cursor_def wf_cursor_def cpos_def)
  have l: "?l \<le> 8 * ?m" "8 * ?m < ?l + 8"
    using m by linarith+
  have "8 * out + 8 * ?m < 8 * currentChar c + 16"
    using l(2) c by linarith
  then have "out + ?m \<le> Suc (currentChar c)"
    by linarith
  then have "\<forall>i. ?l \<le> i \<and> i < 8 * ?m \<longrightarrow> \<not> mbit mem (8 * out + i)"
    using clear same by auto
  then have "unpack_at mem out ?m ?l (map fst vns) 0 0 0 = (map fst vns, 0)"
    using l by (intro unpack_padding) auto
  moreover have "holds_stream mem (8 * out) (stream_bits vns)"
    using held same by (simp add: holds_stream_def)
  ultimately show ?thesis
    using unpack_stream [OF assms(1), of mem out 0 ?m "[]"] l(1) by (simp add: codeunpack_def)
qed

lemma codepack_codeunpack:
  assumes "\<forall>y\<in>set ys. 0 < y \<and> y < 65536" "length ys < 2 ^ 28"
  shows "\<exists>n m'. codepack (map fibonacci ys) out m = Some (n, m') \<and> codeunpack n out m' = (map fibonacci ys, 0)
    \<and> n = (sum_list (map (\<lambda>y. snd (encodeFibonacci y)) ys) + 7) div 8 \<and> (\<forall>i<out. m' i = m i)"
proof -
  let ?vns = "map encodeFibonacci ys"
  have words: "\<forall>(v, n)\<in>set ?vns. code_word v n"
    using assms(1) encode_code_word by (auto simp: case_prod_beta)
  have "\<forall>n\<in>set (map snd ?vns). n \<le> 24"
    using words by (auto simp: code_word_def case_prod_beta)
  then have "sum_list (map snd ?vns) \<le> length ys * 24"
    using sum_list_mono2 [of "map snd ?vns" "replicate (length ys) 24"] by (auto simp: sum_list_replicate)
  then have "length (stream_bits ?vns) < 8 * 2 ^ 31"
    using assms(2) by (simp add: length_stream_bits)
  then obtain c where c: "codepack (map fst ?vns) out m = Some (bytes_used out c, cmem c)" "packed (stream_bits ?vns) (pack_start out m) c"
    using codepack_stream [OF words] by blast
  then show ?thesis
    using codeunpack_packed [OF words c(2), of "cmem c"] packed_bytes(1,3) [OF c(2)]
    by (intro exI [of _ "bytes_used out c"] exI [of _ "cmem c"]) (simp add: length_stream_bits comp_def fibonacci_def [abs_def])
qed

section \<open>Waveforms\<close>

lemma count_bits_ends: "x < 2 ^ 31 \<Longrightarrow> \<exists>n. count_bits 1 0 x = Some n"
proof -
  assume x: "x < (2 :: nat) ^ 31"
  define n where "n = (LEAST n. x < 2 ^ n)"
  have n: "x < 2 ^ n" "n \<le> 31"
    unfolding n_def using x by (rule LeastI, rule Least_le)
  have "2 ^ j \<le> x" if "j < n" for j
    using not_less_Least [of j "\<lambda>n. x < 2 ^ n"] that unfolding n_def by simp
  then show ?thesis
    using count_bits_power [of x n 0] n by auto
qed

lemma codepack_ends: "\<forall>x\<in>set xs. x < 2 ^ 31 \<Longrightarrow> \<exists>n m'. codepack xs out m = Some (n, m')"
proof -
  have "\<forall>x\<in>set xs. x < 2 ^ 31 \<Longrightarrow> \<exists>c'. pack_words out xs c = Some c'" for c
  proof (induction xs arbitrary: c)
    case (Cons x xs)
    then obtain n where "count_bits 1 0 x = Some n"
      using count_bits_ends by (meson list.set_intros(1))
    then show ?case
      using Cons by simp
  qed simp
  then show "\<forall>x\<in>set xs. x < 2 ^ 31 \<Longrightarrow> ?thesis"
    by (fastforce simp: codepack_def)
qed

definition sample_words :: "int \<Rightarrow> int list \<Rightarrow> nat list" where
  "sample_words median inp = map (\<lambda>x. fibonacci (nat (bifurcate (s16 (x - median))))) inp"

lemma sample_word_small: "fibonacci (nat (bifurcate (s16 (x - median)))) < 2 ^ 31" if "0 \<le> x" "x < 32768" "0 \<le> median" "median < 32768"
proof -
  have "0 < nat (bifurcate (s16 (x - median)))" "nat (bifurcate (s16 (x - median))) < 65536"
    using that bifurcate_pos [of "x - median"] by (auto simp: bifurcate_def cast_simps range_defs)
  then have "code_word (fibonacci (nat (bifurcate (s16 (x - median))))) (snd (encodeFibonacci (nat (bifurcate (s16 (x - median))))))"
    using encode_code_word by (simp add: fibonacci_def)
  then show ?thesis
    unfolding code_word_def using power_increasing [of _ 31 "2 :: nat"] by (auto intro: less_le_trans)
qed

text \<open>The rounds before the last only have to end; the last one packs the words of all samples.\<close>

lemma code_samples_last:
  assumes "findmedian (length inp) inp = Some median" "length inp \<le> length scratch" "\<forall>x\<in>set scratch. x < 2 ^ 31"
    and "\<forall>x\<in>set inp. 0 \<le> x \<and> x < 32768" "0 \<le> median" "median < 32768"
    and "i < length inp" "take i scratch = take i (sample_words median inp)"
  shows "\<exists>m1. code_samples (length inp) inp out [i..<length inp] scratch r
    = map_option (\<lambda>(n, m'). (take_bit 16 n, median, m')) (codepack (sample_words median inp) out m1)"
  using assms(2,3,7,8)
proof (induction "length inp - 1 - i" arbitrary: i scratch r)
  case 0
  obtain cb md m where r: "r = (cb, md, m)"
    by (cases r) auto
  have i: "Suc i = length inp"
    using 0 by simp
  let ?w = "fibonacci (nat (bifurcate (s16 (inp ! i - median))))"
  have "take (Suc i) (scratch[i := ?w]) = take (Suc i) (sample_words median inp)"
    using "0.prems" by (simp add: take_Suc_conv_app_nth sample_words_def)
  then have "take (length inp) (scratch[i := ?w]) = sample_words median inp"
    using i by (simp add: sample_words_def)
  moreover have "[i..<length inp] = [i]"
    using i by (simp add: upt_rec)
  ultimately show ?case
    using assms(1) by (intro exI [of _ m]) (auto simp: r Let_def split: option.splits bind_splits)
next
  case (Suc d)
  obtain cb md m where r: "r = (cb, md, m)"
    by (cases r) auto
  let ?w = "fibonacci (nat (bifurcate (s16 (inp ! i - median))))"
  have w: "?w < 2 ^ 31"
    using assms(4-6) Suc.prems(3) by (intro sample_word_small) auto
  have words: "\<forall>x\<in>set (scratch[i := ?w]). x < 2 ^ 31"
    using Suc.prems(2) w set_update_subset_insert [of scratch i ?w] by auto
  then obtain n m1 where 1: "codepack (take (length inp) (scratch[i := ?w])) out m = Some (n, m1)"
    using codepack_ends [of "take (length inp) (scratch[i := ?w])" out m] by (meson in_set_takeD)
  have i: "[i..<length inp] = i # [Suc i..<length inp]"
    using Suc.prems(3) by (rule upt_conv_Cons)
  have "take (Suc i) (scratch[i := ?w]) = take (Suc i) (sample_words median inp)"
    using Suc.prems by (simp add: take_Suc_conv_app_nth sample_words_def)
  moreover have "d = length inp - 1 - Suc i" "Suc i < length inp"
    using Suc.hyps(2) by auto
  ultimately obtain m2 where "code_samples (length inp) inp out [Suc i..<length inp] (scratch[i := ?w]) (take_bit 16 n, median, m1)
      = map_option (\<lambda>(n, m'). (take_bit 16 n, median, m')) (codepack (sample_words median inp) out m2)"
    using Suc.hyps(1) [of "Suc i" "scratch[i := ?w]" "(take_bit 16 n, median, m1)"] Suc.prems(1) words by auto
  then show ?case
    using assms(1) 1 by (auto simp: r i Let_def)
qed

text \<open>The words of the samples, as the code words of their bifurcated differences to the median.\<close>

lemma bifurcated_sample:
  assumes "0 \<le> x" "x < 32768" "0 \<le> median" "median < 32768"
  shows "unbifurcate (int (unfibonacci (fibonacci (nat (bifurcate (s16 (x - median))))))) = x - median"
    and "0 < nat (bifurcate (s16 (x - median)))" "nat (bifurcate (s16 (x - median))) < 65536"
proof -
  have s: "s16 (x - median) = x - median"
    using assms by (simp add: cast_simps range_defs)
  have b: "0 < bifurcate (x - median)" "bifurcate (x - median) < 65536"
    using assms bifurcate_pos [of "x - median"] by (auto simp: bifurcate_def cast_simps range_defs)
  then show "0 < nat (bifurcate (s16 (x - median)))" "nat (bifurcate (s16 (x - median))) < 65536"
    by (simp_all add: s)
  then show "unbifurcate (int (unfibonacci (fibonacci (nat (bifurcate (s16 (x - median))))))) = x - median"
    using unbifurcate_bifurcate_inv [of "x - median"] unfibonacci_fibonacci assms b by (simp add: fibonacci_def s)
qed

definition wave_bits :: "int \<Rightarrow> int list \<Rightarrow> nat" where
  "wave_bits median inp = sum_list (map (\<lambda>x. snd (encodeFibonacci (nat (bifurcate (s16 (x - median)))))) inp)"

lemma and_255: "n AND 255 = n mod (256 :: nat)"
  using take_and [of n 8] by (simp add: mask_eq_exp_minus_1 take_bit_eq_mod)

lemma packwave_unpackwave:
  assumes med: "findmedian (length inp) inp = Some median" and scratch: "length inp \<le> length scratch" "\<forall>x\<in>set scratch. x < 2 ^ 31"
    and inp: "\<forall>x\<in>set inp. 0 \<le> x \<and> x < 32768" and bits: "wave_bits median inp \<le> 255 * 8" and width: "width \<noteq> 0"
  shows "\<exists>n m'. packwave (length inp) width 0 0 inp out scratch m = Some (n, inp, m') \<and> n = (wave_bits median inp + 7) div 8 + 6 \<and> unpackwave 0 0 out m' = Some inp"
proof -
  have len: "0 < length inp"
    using med by (auto simp: findmedian_def split: if_splits)
  have "median \<in> set inp"
    using med len by (auto simp: findmedian_def us_qsort_sort split: if_splits intro: nth_mem [of _ "sort inp", simplified])
  then have md: "0 \<le> median" "median < 32768"
    using inp by auto
  let ?ys = "map (\<lambda>x. nat (bifurcate (s16 (x - median)))) inp"
  let ?vns = "map encodeFibonacci ?ys"
  have ys: "\<forall>y\<in>set ?ys. 0 < y \<and> y < 65536"
    using inp md bifurcated_sample by auto
  have words: "\<forall>(v, n)\<in>set ?vns. code_word v n"
    using ys encode_code_word by (auto simp: case_prod_beta)
  have fst: "map fst ?vns = sample_words median inp"
    by (simp add: sample_words_def fibonacci_def)
  have l: "length (stream_bits ?vns) = wave_bits median inp"
    by (simp add: length_stream_bits wave_bits_def comp_def)
  obtain m1 where m1: "code_samples (length inp) inp (out + 6) [0..<length inp] scratch (0, 0, m)
      = map_option (\<lambda>(n, m'). (take_bit 16 n, median, m')) (codepack (sample_words median inp) (out + 6) m1)"
    using code_samples_last [OF med scratch inp md len, of "out + 6" "(0, 0, m)"] by auto
  obtain c where c: "codepack (sample_words median inp) (out + 6) m1 = Some (bytes_used (out + 6) c, cmem c)"
    "packed (stream_bits ?vns) (pack_start (out + 6) m1) c"
    using codepack_stream [OF words, of "out + 6" m1] l bits fst by auto
  let ?n = "(wave_bits median inp + 7) div 8"
  have n: "bytes_used (out + 6) c = ?n" "?n \<le> 255"
    using packed_bytes(1) [OF c(2)] l bits by auto
  define m' where "m' = fold (\<lambda>i m. m(out + i := word_of_nat ([0, 0, drop_bit 8 ?n, ?n AND 255, drop_bit 8 (nat median), nat median AND 255] ! i))) [0..<6] (cmem c)"
  have six: "[0..<6] = [0, 1, 2, 3, 4, 5 :: nat]"
    by (simp add: upt_rec)
  have header: "m' (out + 0) = 0" "m' (out + 2) = 0" "m' (out + 3) = word_of_nat ?n" "m' (out + 4) = word_of_nat (drop_bit 8 (nat median))"
    "m' (out + 5) = word_of_nat (nat median AND 255)" "\<forall>i\<ge>out + 6. m' i = cmem c i"
    using n(2) by (auto simp: m'_def six drop_bit_eq_div and_255)
  have pack: "packwave (length inp) width 0 0 inp out scratch m = Some (?n + 6, inp, m')"
    using m1 c(1) n width by (simp add: packwave_def m'_def take_bit_nat_eq_self)
  have "codeunpack ?n (out + 6) m' = (sample_words median inp, 0)"
    using codeunpack_packed [OF words c(2), of m'] header(6) unfolding fst n(1) by simp
  moreover have "unat (m' (out + 3)) = ?n" "unat (m' (out + 4)) * 256 + unat (m' (out + 5)) = nat median"
    using n(2) md by (simp_all add: header unsigned_of_nat take_bit_eq_mod drop_bit_eq_div and_255)
  moreover have "length (sample_words median inp) < 65536"
  proof -
    have "sum_list (map (\<lambda>x. 1) inp) \<le> wave_bits median inp"
      unfolding wave_bits_def by (intro sum_list_mono) (simp add: encodeFibonacci_def Let_def)
    then show ?thesis
      using bits by (simp add: sum_list_triv sample_words_def)
  qed
  moreover have "map (\<lambda>w. u16 (median + unbifurcate (int (unfibonacci w)))) (sample_words median inp) = inp"
    using inp md bifurcated_sample(1) by (auto simp: sample_words_def cast_simps range_defs intro!: map_idI)
  ultimately have "unpackwave 0 0 out m' = Some inp"
    using header(1,2) md by (simp add: unpackwave_def Let_def)
  then show ?thesis
    using pack by blast
qed

lemma wave_bits_le:
  assumes "\<forall>x\<in>set inp. 0 \<le> x \<and> x < 32768" "0 \<le> median" "median < 32768"
  shows "wave_bits median inp \<le> 24 * length inp"
proof -
  have "snd (encodeFibonacci (nat (bifurcate (s16 (x - median))))) \<le> 24" if "x \<in> set inp" for x
    using encode_code_word bifurcated_sample(2,3) [of x median] assms that by (simp add: code_word_def)
  then have "wave_bits median inp \<le> sum_list (map (\<lambda>_. 24) inp)"
    unfolding wave_bits_def by (intro sum_list_mono) blast
  then show ?thesis
    by (simp add: sum_list_triv)
qed

section \<open>Properties\<close>

text \<open>
  C38. \<open>bitpack\<close> is equivalent to writing one number in base \<open>2^nbits\<close>: its output are the bytes, lowest
  first, of the number whose digits are the low \<open>nbits\<close> bits of the data, as many bytes as these need;
  memory in front of the output is unchanged.
\<close>

theorem bitpack_writes_number:
  assumes "nbits \<le> 16" "length inp * nbits < 8 * 65535"
  shows "\<exists>m'. bitpack nbits inp out m = ((length inp * nbits + 7) div 8, m')
    \<and> (\<forall>j<(length inp * nbits + 7) div 8. m' (out + j) = word_of_nat (drop_bit (8 * j) (horner_sum (\<lambda>x. take_bit nbits (nat x)) (2 ^ nbits) inp)))
    \<and> (\<forall>i<out. m' i = m i)"
  using assms by (rule bitpack_bytes)

lemma bitpack_writes_number_witness:
  "\<exists>m'. bitpack 5 [1, 2, 35] 1 (\<lambda>_. 7) = (2, m') \<and> m' 0 = 7 \<and> m' 1 = 65 \<and> m' 2 = 12"
proof -
  obtain m' where m': "bitpack 5 [1, 2, 35] 1 (\<lambda>_. 7) = (2, m')" "\<forall>i<1. m' i = 7"
    "\<forall>j<2. m' (1 + j) = word_of_nat (drop_bit (8 * j) (horner_sum (\<lambda>x. take_bit 5 (nat x)) (2 ^ 5) [1, 2, 35]))"
    using bitpack_writes_number [of 5 "[1, 2, 35]" 1 "\<lambda>_. 7"] by auto
  have "m' (1 + 0) = 65" "m' (1 + 1) = 12"
    using m'(3) by (simp_all add: take_bit_eq_mod drop_bit_eq_div)
  then show ?thesis
    using m'(1,2) by (intro exI [of _ m']) (simp add: numeral_2_eq_2)
qed

text \<open>
  C39. \<open>codepack\<close> ends on the Fibonacci code words of any positive 16-bit numbers, writes as many bytes
  as their bits need and nothing in front of its output, and \<open>codeunpack\<close> reads exactly these words back.
\<close>

theorem codepack_roundtrip:
  assumes "\<forall>y\<in>set ys. 0 < y \<and> y < 65536" "length ys < 2 ^ 28"
  shows "\<exists>n m'. codepack (map fibonacci ys) out m = Some (n, m') \<and> codeunpack n out m' = (map fibonacci ys, 0)
    \<and> n = (sum_list (map (\<lambda>y. snd (encodeFibonacci y)) ys) + 7) div 8 \<and> (\<forall>i<out. m' i = m i)"
  using assms by (rule codepack_codeunpack)

lemma codepack_roundtrip_witness:
  "\<exists>n m'. codepack (map fibonacci [1, 4, 65535]) 0 (\<lambda>_. 255) = Some (n, m') \<and> codeunpack n 0 m' = (map fibonacci [1, 4, 65535], 0)"
  using codepack_roundtrip [of "[1, 4, 65535]" 0 "\<lambda>_. 255"] by auto

text \<open>A word with its top bit set makes \<open>codepack\<close> count its bits for ever.\<close>

lemma codepack_top_bit: "2 ^ 31 \<le> x \<Longrightarrow> codepack (x # xs) out m = None"
  using count_bits_loops [of x] by (simp add: codepack_def)

text \<open>
  A waveform that \<open>packwave\<close> packs without stripping or packing bits is what \<open>unpackwave\<close> returns,
  when the code words take less than 256 bytes and no word that lies in the scratch array from before
  has its top bit set.
\<close>

lemma packwave_roundtrip:
  assumes "findmedian (length inp) inp = Some median" "length inp \<le> length scratch" "\<forall>x\<in>set scratch. x < 2 ^ 31"
    and "\<forall>x\<in>set inp. 0 \<le> x \<and> x < 32768" "wave_bits median inp \<le> 255 * 8" "width \<noteq> 0"
  shows "\<exists>n m'. packwave (length inp) width 0 0 inp out scratch m = Some (n, inp, m') \<and> n = (wave_bits median inp + 7) div 8 + 6 \<and> unpackwave 0 0 out m' = Some inp"
  using assms by (rule packwave_unpackwave)

lemma packwave_roundtrip_witness:
  "\<exists>n m'. packwave 3 12 0 0 [100, 103, 90] 0 [7, 8, 9] (\<lambda>_. 0) = Some (n, [100, 103, 90], m') \<and> unpackwave 0 0 0 m' = Some [100, 103, 90]"
proof -
  have med: "findmedian (length [100, 103, 90 :: int]) [100, 103, 90] = Some 100"
    by code_simp
  have bits: "wave_bits 100 [100, 103, 90] \<le> 255 * 8"
    using wave_bits_le [of "[100, 103, 90]" 100] by simp
  show ?thesis
    using packwave_roundtrip [OF med _ _ _ bits, of "[7, 8, 9]" 12 0 "\<lambda>_. 0"] by (auto simp: numeral_3_eq_3)
qed

end
