(* ===== verification/Sip_Reader.thy ===== *)
theory Sip_Reader
  imports Flight_Prelude
begin

text \<open>
  The reader of the SIP library \<open>src/common/sipcomLib/sipcom.c\<close>: the two threads \<open>read_comm\<close>
  take the bytes of a serial line apart into messages and put the science commands, which arrive
  one byte per message, together again. The library's callbacks appear as the list of the calls that
  the reader makes.
\<close>

section \<open>The state of the library\<close>

abbreviation (input) DLE :: byte where "DLE \<equiv> 0x10"
abbreviation (input) END_TEXT :: byte where "END_TEXT \<equiv> 0x03"
abbreviation (input) NCMD :: nat where "NCMD \<equiv> 255"
abbreviation (input) CMD_MAX_LEN :: nat where "CMD_MAX_LEN \<equiv> 32"
abbreviation (input) MESGBUFSIZE :: nat where "MESGBUFSIZE \<equiv> 32"

text \<open>
  The static variables: \<open>Cmdlen\<close> with the flag that it was initialised, the function pointers
  (whether each is set), the enabled SIPMUX lines and the sequence numbers of
  \<open>sipcom_slowrate_write\<close>.
\<close>

record sipcom =
  Cmdlen :: "int list"
  cmdlen_init :: bool
  Cmdf :: bool
  Slowrate_callback :: "bool list"
  Gps_callback :: bool
  Gpstime_callback :: bool
  Mks_press_alt_callback :: bool
  Sipmux_enable :: int
  c1_bufseq :: byte
  c2_bufseq :: byte

definition sipcom_start :: sipcom where
  "sipcom_start = \<lparr>Cmdlen = replicate NCMD 0, cmdlen_init = False, Cmdf = False, Slowrate_callback = [False, False],
     Gps_callback = False, Gpstime_callback = False, Mks_press_alt_callback = False, Sipmux_enable = 0,
     c1_bufseq = 0, c2_bufseq = 0\<rparr>"

text \<open>The identifier 255 is outside \<open>Cmdlen\<close>.\<close>

definition sipcom_set_cmd_length :: "byte \<Rightarrow> byte \<Rightarrow> sipcom \<Rightarrow> (int \<times> sipcom) option" where
  "sipcom_set_cmd_length ident len s =
     (let s = (if cmdlen_init s then s else s\<lparr>Cmdlen := replicate NCMD (-1), cmdlen_init := True\<rparr>) in
      if unat ident < NCMD then Some (0, s\<lparr>Cmdlen := (Cmdlen s)[unat ident := uint len]\<rparr>) else None)"

definition sipcom_set_slowrate_callback :: "int \<Rightarrow> bool \<Rightarrow> sipcom \<Rightarrow> int \<times> sipcom" where
  "sipcom_set_slowrate_callback comm f s =
     (if comm \<noteq> 0 \<and> comm \<noteq> 1 then (-1, s)
      else (0, s\<lparr>Slowrate_callback := (Slowrate_callback s)[nat comm := f]\<rparr>))"

definition sipcom_set_cmd_callback :: "bool \<Rightarrow> sipcom \<Rightarrow> sipcom" where
  "sipcom_set_cmd_callback f s = s\<lparr>Cmdf := f\<rparr>"

definition sipcom_set_gps_callback :: "bool \<Rightarrow> sipcom \<Rightarrow> sipcom" where
  "sipcom_set_gps_callback f s = s\<lparr>Gps_callback := f\<rparr>"

definition sipcom_set_gpstime_callback :: "bool \<Rightarrow> sipcom \<Rightarrow> sipcom" where
  "sipcom_set_gpstime_callback f s = s\<lparr>Gpstime_callback := f\<rparr>"

definition sipcom_set_mks_press_alt_callback :: "bool \<Rightarrow> sipcom \<Rightarrow> sipcom" where
  "sipcom_set_mks_press_alt_callback f s = s\<lparr>Mks_press_alt_callback := f\<rparr>"

section \<open>The reader\<close>

text \<open>
  The calls: a \<open>float\<close> argument is its four bytes as a number. The command callback gets the
  buffer \<open>cmd_so_far\<close>.
\<close>

datatype sip_call =
    Gps_call int int int
  | Gpstime_call int int int int
  | Mks_call int int int
  | Slowrate_call
  | Cmd_call "byte list"

text \<open>The two states of the automaton that \<open>read_comm\<close> uses.\<close>

datatype sip_fsm = WANT_DLE | WANT_ID

record reader =
  rd_state :: sip_fsm
  cmd_so_far :: "byte list"
  length_so_far :: nat
  mesgbuf :: "byte list"

text \<open>
  \<open>readn\<close> fills the buffer byte by byte; when the input ends it returns early and the rest of the
  buffer keeps what it had. The list is what the line still delivers before it ends.
\<close>

primrec readn :: "nat \<Rightarrow> nat \<Rightarrow> byte list \<Rightarrow> byte list \<Rightarrow> byte list \<times> byte list" where
  "readn 0 i buf inp = (buf, inp)"
| "readn (Suc n) i buf inp = (case inp of [] \<Rightarrow> (buf, []) | b # inp \<Rightarrow> readn n (Suc i) (buf[i := b]) inp)"

definition get_mesg :: "nat \<Rightarrow> byte list \<Rightarrow> byte list \<Rightarrow> bool \<times> byte list \<times> byte list" where
  \<comment> \<open>whether the last byte is ETX, the buffer and the rest of the input\<close>
  "get_mesg n buf inp = (let (buf, inp) = readn n 0 buf inp in (buf ! (n - 1) = END_TEXT, buf, inp))"

definition swapw :: "int \<Rightarrow> int" where
  "swapw v = u16 (push_bit 8 v) + drop_bit 8 v"

definition cmd_accum :: "sipcom \<Rightarrow> byte list \<Rightarrow> reader \<Rightarrow> (sip_call list \<times> reader) option" where
  "cmd_accum s buf r =
     (let sq = buf ! 1; cmdbyte = buf ! 2 in
      if uint sq \<noteq> int (length_so_far r) then Some ([], r\<lparr>length_so_far := 0\<rparr>)
      else if CMD_MAX_LEN \<le> length_so_far r then None
      else let r = r\<lparr>cmd_so_far := (cmd_so_far r)[length_so_far r := cmdbyte], length_so_far := length_so_far r + 1\<rparr>;
               ident = unat (cmd_so_far r ! 0); call = (if Cmdf s then [Cmd_call (cmd_so_far r)] else [])
           in if NCMD \<le> ident then None
              else if Cmdlen s ! ident = int (length_so_far r) then Some (call, r\<lparr>length_so_far := 0\<rparr>)
              else if Cmdlen s ! ident = -1 then Some (call, r\<lparr>length_so_far := 0\<rparr>)
              else Some ([], r))"

text \<open>
  One round of the loop of \<open>read_comm\<close> after \<open>ch\<close> was read. A message without ETX leaves the
  automaton in \<open>WANT_ID\<close> (\<open>continue\<close> skips the assignment at the end).
\<close>

definition gps_calls :: "sipcom \<Rightarrow> byte list \<Rightarrow> sip_call list" where
  "gps_calls s buf = (let m = (\<lambda>i. buf ! i) in
     if Gps_callback s then [Gps_call (load32u m 0) (load32u m 4) (load32u m 8)] else [])"

definition gpstime_calls :: "sipcom \<Rightarrow> byte list \<Rightarrow> sip_call list" where
  "gpstime_calls s buf = (let m = (\<lambda>i. buf ! i) in
     if Gpstime_callback s then [Gpstime_call (load32u m 0) (load16u m 4) (load32u m 6) (load32u m 10)] else [])"

definition mks_calls :: "sipcom \<Rightarrow> byte list \<Rightarrow> sip_call list" where
  "mks_calls s buf = (let m = (\<lambda>i. buf ! i) in
     if Mks_press_alt_callback s then [Mks_call (swapw (load16u m 0)) (swapw (load16u m 2)) (swapw (load16u m 4))] else [])"

definition slowrate_calls :: "sipcom \<Rightarrow> nat \<Rightarrow> sip_call list" where
  "slowrate_calls s comm = (if Slowrate_callback s ! comm then [Slowrate_call] else [])"

definition on_message :: "nat \<Rightarrow> (reader \<Rightarrow> (sip_call list \<times> reader) option) \<Rightarrow> byte list \<Rightarrow> reader \<Rightarrow>
    (sip_call list \<times> reader \<times> byte list) option" where
  \<comment> \<open>\<open>get_mesg\<close>, \<open>continue\<close> if it fails, otherwise the message's action and back to \<open>WANT_DLE\<close>\<close>
  "on_message n act inp r =
     (let (ok, buf, inp) = get_mesg n (mesgbuf r) inp; r = r\<lparr>mesgbuf := buf\<rparr> in
      if \<not> ok then Some ([], r, inp)
      else map_option (\<lambda>(calls, r). (calls, r\<lparr>rd_state := WANT_DLE\<rparr>, inp)) (act r))"

definition read_step :: "sipcom \<Rightarrow> nat \<Rightarrow> byte \<Rightarrow> byte list \<Rightarrow> reader \<Rightarrow> (sip_call list \<times> reader \<times> byte list) option" where
  "read_step s comm ch inp r =
     (case rd_state r of
        WANT_DLE \<Rightarrow> Some ([], if ch = DLE then r\<lparr>rd_state := WANT_ID\<rparr> else r, inp)
      | WANT_ID \<Rightarrow>
          if ch = 0x10 then on_message 15 (\<lambda>r. Some (gps_calls s (mesgbuf r), r)) inp r
          else if ch = 0x11 then on_message 15 (\<lambda>r. Some (gpstime_calls s (mesgbuf r), r)) inp r
          else if ch = 0x12 then on_message 7 (\<lambda>r. Some (mks_calls s (mesgbuf r), r)) inp r
          else if ch = 0x13 then on_message 1 (\<lambda>r. Some (slowrate_calls s comm, r)) inp r
          else if ch = 0x14 then on_message 4 (\<lambda>r. cmd_accum s (mesgbuf r) r) inp r
          else Some ([], r\<lparr>rd_state := WANT_DLE\<rparr>, inp))"

lemma length_readn: "readn n i buf inp = (buf', inp') \<Longrightarrow> length inp' \<le> length inp"
  by (induction n arbitrary: i buf inp) (fastforce split: list.splits)+

lemma length_on_message: "on_message n act inp r = Some (calls, r', inp') \<Longrightarrow> length inp' \<le> length inp"
  by (auto simp: on_message_def get_mesg_def Let_def dest: length_readn split: if_splits prod.splits)

lemma length_read_step: "read_step s comm ch inp r = Some (calls, r', inp') \<Longrightarrow> length inp' \<le> length inp"
  by (auto simp: read_step_def dest: length_on_message split: sip_fsm.splits if_splits)

text \<open>The loop, until the line ends; the calls in their order.\<close>

function read_comm :: "sipcom \<Rightarrow> nat \<Rightarrow> byte list \<Rightarrow> reader \<Rightarrow> (sip_call list \<times> reader) option" where
  "read_comm s comm [] r = Some ([], r)"
| "read_comm s comm (ch # inp) r =
     (case read_step s comm ch inp r of
        None \<Rightarrow> None
      | Some (calls, r, inp) \<Rightarrow> map_option (\<lambda>(calls', r). (calls @ calls', r)) (read_comm s comm inp r))"
  by pat_completeness auto

termination read_comm
  by (relation "measure (\<lambda>(s, comm, inp, r). length inp)") (auto dest: length_read_step)

definition reader_start :: "byte list \<Rightarrow> reader" where
  \<comment> \<open>\<open>cmd_so_far\<close> is an uninitialised local array\<close>
  "reader_start junk = \<lparr>rd_state = WANT_DLE, cmd_so_far = junk, length_so_far = 0, mesgbuf = replicate MESGBUFSIZE 0\<rparr>"

section \<open>Messages\<close>

text \<open>What the SIP sends: a message is \<open>DLE\<close>, an identifier, its contents and \<open>ETX\<close>.\<close>

datatype sip_frame =
    Gps_frame "byte list"
  | Gpstime_frame "byte list"
  | Mks_frame "byte list"
  | Request_frame
  | Command_frame byte byte

fun frame_id :: "sip_frame \<Rightarrow> byte" where
  "frame_id (Gps_frame p) = 0x10"
| "frame_id (Gpstime_frame p) = 0x11"
| "frame_id (Mks_frame p) = 0x12"
| "frame_id Request_frame = 0x13"
| "frame_id (Command_frame sq b) = 0x14"

fun frame_contents :: "sip_frame \<Rightarrow> byte list" where
  "frame_contents (Gps_frame p) = p"
| "frame_contents (Gpstime_frame p) = p"
| "frame_contents (Mks_frame p) = p"
| "frame_contents Request_frame = []"
| "frame_contents (Command_frame sq b) = [2, sq, b]"

definition frame_bytes :: "sip_frame \<Rightarrow> byte list" where
  "frame_bytes f = DLE # frame_id f # frame_contents f @ [END_TEXT]"

fun wf_frame :: "sip_frame \<Rightarrow> bool" where
  "wf_frame (Gps_frame p) \<longleftrightarrow> length p = 14"
| "wf_frame (Gpstime_frame p) \<longleftrightarrow> length p = 14"
| "wf_frame (Mks_frame p) \<longleftrightarrow> length p = 6"
| "wf_frame Request_frame \<longleftrightarrow> True"
| "wf_frame (Command_frame sq b) \<longleftrightarrow> True"

text \<open>The calls that a message makes on its own.\<close>

fun plain_calls :: "sipcom \<Rightarrow> nat \<Rightarrow> sip_frame \<Rightarrow> sip_call list" where
  "plain_calls s comm (Gps_frame p) = gps_calls s p"
| "plain_calls s comm (Gpstime_frame p) = gpstime_calls s p"
| "plain_calls s comm (Mks_frame p) = mks_calls s p"
| "plain_calls s comm Request_frame = slowrate_calls s comm"
| "plain_calls s comm (Command_frame sq b) = []"

fun is_command :: "sip_frame \<Rightarrow> bool" where
  "is_command (Command_frame sq b) = True"
| "is_command _ = False"

fun is_cmd_call :: "sip_call \<Rightarrow> bool" where
  "is_cmd_call (Cmd_call b) = True"
| "is_cmd_call _ = False"

text \<open>A line that carries messages, each with noise before it.\<close>

definition line_bytes :: "(byte list \<times> sip_frame) list \<Rightarrow> byte list" where
  "line_bytes nfs = concat (map (\<lambda>(noise, f). noise @ frame_bytes f) nfs)"

definition wf_line :: "(byte list \<times> sip_frame) list \<Rightarrow> bool" where
  "wf_line nfs \<longleftrightarrow> (\<forall>(noise, f)\<in>set nfs. DLE \<notin> set noise \<and> wf_frame f)"

lemma line_bytes_simps [simp]:
  "line_bytes [] = []" "line_bytes ((noise, f) # nfs) = noise @ frame_bytes f @ line_bytes nfs"
  "wf_line []" "wf_line ((noise, f) # nfs) \<longleftrightarrow> DLE \<notin> set noise \<and> wf_frame f \<and> wf_line nfs"
  by (simp_all add: line_bytes_def wf_line_def)

subsection \<open>Reading one message\<close>

lemma readn_take:
  "n \<le> length inp \<Longrightarrow> i + n \<le> length buf \<Longrightarrow>
    readn n i buf inp = (take i buf @ take n inp @ drop (i + n) buf, drop n inp)"
proof (induction n arbitrary: i buf inp)
  case (Suc n)
  then obtain b inp' where inp: "inp = b # inp'"
    by (cases inp) auto
  have "take (Suc i) (buf[i := b]) = take i buf @ [b]"
    using Suc.prems by (simp add: take_Suc_conv_app_nth)
  with Suc inp show ?case
    by simp
qed simp

lemma get_mesg_contents:
  assumes "length p + 1 \<le> length buf"
  shows "get_mesg (length p + 1) buf (p @ END_TEXT # inp) = (True, p @ END_TEXT # drop (length p + 1) buf, inp)"
  using assms by (simp add: get_mesg_def readn_take nth_append del: readn.simps)

text \<open>What a message does to the reader, with its contents in the message buffer.\<close>

definition frame_step :: "sipcom \<Rightarrow> nat \<Rightarrow> sip_frame \<Rightarrow> reader \<Rightarrow> (sip_call list \<times> reader) option" where
  "frame_step s comm f r =
     (let p = frame_contents f; r = r\<lparr>mesgbuf := p @ END_TEXT # drop (length p + 1) (mesgbuf r)\<rparr> in
      map_option (\<lambda>(calls, r). (calls, r\<lparr>rd_state := WANT_DLE\<rparr>))
        (if is_command f then cmd_accum s (mesgbuf r) r else Some (plain_calls s comm f, r)))"

lemma plain_calls_append:
  "length p = 14 \<Longrightarrow> gps_calls s (p @ q) = gps_calls s p"
  "length p = 14 \<Longrightarrow> gpstime_calls s (p @ q) = gpstime_calls s p"
  "length p = 6 \<Longrightarrow> mks_calls s (p @ q) = mks_calls s p"
  by (simp_all add: gps_calls_def gpstime_calls_def mks_calls_def load32u_def load16u_def Let_def nth_append)

lemma on_message_contents:
  assumes "length p + 1 \<le> length (mesgbuf r)"
  shows "on_message (length p + 1) act (p @ END_TEXT # inp) r =
    map_option (\<lambda>(calls, r). (calls, r\<lparr>rd_state := WANT_DLE\<rparr>, inp))
      (act (r\<lparr>mesgbuf := p @ END_TEXT # drop (length p + 1) (mesgbuf r)\<rparr>))"
  by (simp add: on_message_def get_mesg_contents [OF assms, simplified])

lemma read_step_frame:
  assumes "wf_frame f" "rd_state r = WANT_ID" "length (mesgbuf r) = MESGBUFSIZE"
  shows "read_step s comm (frame_id f) (frame_contents f @ END_TEXT # inp) r =
    map_option (\<lambda>(calls, r). (calls, r, inp)) (frame_step s comm f r)"
proof -
  have len: "length (frame_contents f) + 1 \<le> length (mesgbuf r)"
    using assms(1,3) by (cases f) simp_all
  have four: "Suc (Suc (Suc (Suc 0))) = 4"
    by simp
  from on_message_contents [OF len, of _ inp] show ?thesis
    using assms(1,2)
    by (cases f) (simp_all add: read_step_def frame_step_def Let_def plain_calls_append option.map_comp o_def split_def four)
qed

lemma read_comm_noise:
  assumes "rd_state r = WANT_DLE" "DLE \<notin> set noise"
  shows "read_comm s comm (noise @ inp) r = read_comm s comm inp r"
  using assms by (induction noise) (auto simp: read_step_def case_prod_beta option.map_id)

lemma length_mesgbuf_frame_step:
  assumes "wf_frame f" "length (mesgbuf r) = MESGBUFSIZE" "frame_step s comm f r = Some (calls, r')"
  shows "rd_state r' = WANT_DLE \<and> length (mesgbuf r') = MESGBUFSIZE"
proof -
  have "mesgbuf r'' = mesgbuf r0" if "cmd_accum s buf r0 = Some (c, r'')" for buf r0 c r''
    using that by (auto simp: cmd_accum_def Let_def split: if_splits)
  then show ?thesis
    using assms by (cases f) (fastforce simp: frame_step_def Let_def split: if_splits)+
qed

lemma cmd_accum_rd_state:
  "map_option (\<lambda>(calls, r). (calls, r\<lparr>rd_state := st'\<rparr>)) (cmd_accum s buf (r\<lparr>rd_state := st, mesgbuf := mb\<rparr>)) =
   map_option (\<lambda>(calls, r). (calls, r\<lparr>rd_state := st'\<rparr>)) (cmd_accum s buf (r\<lparr>mesgbuf := mb\<rparr>))"
  by (simp add: cmd_accum_def Let_def)

lemma read_comm_frame:
  assumes "rd_state r = WANT_DLE" "length (mesgbuf r) = MESGBUFSIZE" "DLE \<notin> set noise" "wf_frame f"
  shows "read_comm s comm (noise @ frame_bytes f @ inp) r =
    (case frame_step s comm f r of
       None \<Rightarrow> None
     | Some (calls, r) \<Rightarrow> map_option (\<lambda>(calls', r). (calls @ calls', r)) (read_comm s comm inp r))"
proof -
  let ?r = "r\<lparr>rd_state := WANT_ID\<rparr>"
  have step: "frame_step s comm f ?r = frame_step s comm f r"
    by (simp add: frame_step_def Let_def cmd_accum_rd_state)
  have "read_comm s comm (noise @ frame_bytes f @ inp) r = read_comm s comm (frame_id f # frame_contents f @ END_TEXT # inp) ?r"
    using assms(1,3) by (simp add: read_comm_noise frame_bytes_def read_step_def case_prod_beta option.map_id)
  then show ?thesis
    using read_step_frame [OF assms(4), of ?r s comm inp] assms(2) step
    by (simp split: option.splits)
qed

section \<open>Commands\<close>

text \<open>A command whose length was registered, or a single byte without a registered length.\<close>

definition registered :: "sipcom \<Rightarrow> byte list \<Rightarrow> bool" where
  "registered s c \<longleftrightarrow> c \<noteq> [] \<and> length c \<le> CMD_MAX_LEN \<and> unat (c ! 0) < NCMD \<and>
     (Cmdlen s ! unat (c ! 0) = int (length c) \<or> Cmdlen s ! unat (c ! 0) = -1 \<and> length c = 1)"

text \<open>The messages that carry a command, from its byte \<open>k\<close> on.\<close>

definition frames_from :: "nat \<Rightarrow> byte list \<Rightarrow> sip_frame list" where
  "frames_from k c = map (\<lambda>i. Command_frame (of_nat i) (c ! i)) [k..<length c]"

fun pending :: "nat \<Rightarrow> byte list list \<Rightarrow> sip_frame list" where
  "pending k [] = []"
| "pending k (c # cs) = frames_from k c @ concat (map (frames_from 0) cs)"

definition carries :: "byte list \<Rightarrow> sip_call \<Rightarrow> bool" where
  \<comment> \<open>the call gets a buffer that begins with the command\<close>
  "carries c call \<longleftrightarrow> (\<exists>buf. call = Cmd_call buf \<and> take (length c) buf = c)"

text \<open>The reader between messages, with \<open>k\<close> bytes of a command \<open>c\<close>.\<close>

definition has_bytes :: "reader \<Rightarrow> nat \<Rightarrow> byte list \<Rightarrow> bool" where
  "has_bytes r k c \<longleftrightarrow> rd_state r = WANT_DLE \<and> length (mesgbuf r) = MESGBUFSIZE \<and>
     length (cmd_so_far r) = CMD_MAX_LEN \<and> length_so_far r = k \<and> take k (cmd_so_far r) = take k c"

lemma has_bytes_cong: "has_bytes r 0 c \<Longrightarrow> has_bytes r 0 c'"
  by (simp add: has_bytes_def)

lemma uint_of_nat_byte: "k < 256 \<Longrightarrow> uint (of_nat k :: byte) = int k"
  by (simp add: unsigned_of_nat take_bit_nat_eq_self)

lemma frame_step_plain:
  assumes "\<not> is_command f" "has_bytes r k c" "wf_frame f"
  shows "\<exists>r'. frame_step s comm f r = Some (plain_calls s comm f, r') \<and> has_bytes r' k c"
  using assms length_mesgbuf_frame_step [of f r s comm]
  by (auto simp: frame_step_def has_bytes_def Let_def)

lemma frame_step_command:
  assumes "registered s c" "k < length c" "has_bytes r k c" "Cmdf s"
  shows "\<exists>r'. frame_step s comm (Command_frame (of_nat k) (c ! k)) r =
      Some (if Suc k = length c then [Cmd_call (cmd_so_far r')] else [], r') \<and>
    has_bytes r' (if Suc k = length c then 0 else Suc k) c \<and> take (Suc k) (cmd_so_far r') = take (Suc k) c"
proof -
  let ?b = "(cmd_so_far r)[k := c ! k]"
  let ?r = "r\<lparr>mesgbuf := [2, of_nat k, c ! k] @ END_TEXT # drop (Suc (Suc (Suc (Suc 0)))) (mesgbuf r), cmd_so_far := ?b,
    length_so_far := (if Suc k = length c then 0 else Suc k), rd_state := WANT_DLE\<rparr>"
  have k: "k < 32" "length (cmd_so_far r) = 32"
    using assms(1-3) by (simp_all add: registered_def has_bytes_def)
  have b: "take (Suc k) ?b = take (Suc k) c"
    using k assms(2,3) by (simp add: take_Suc_conv_app_nth has_bytes_def)
  have id0: "?b ! 0 = c ! 0"
    using arg_cong [OF b, of "\<lambda>xs. xs ! 0"] by simp
  have finished: "Cmdlen s ! unat (c ! 0) = int (Suc k) \<or> Cmdlen s ! unat (c ! 0) = -1 \<longleftrightarrow> Suc k = length c"
    using assms(1,2) by (auto simp: registered_def)
  have accum: "cmd_accum s buf q = Some (if Suc k = length c then [Cmd_call ?b] else [],
      q\<lparr>cmd_so_far := ?b, length_so_far := (if Suc k = length c then 0 else Suc k)\<rparr>)"
    if "buf ! 1 = of_nat k" "buf ! 2 = c ! k" "length_so_far q = k" "cmd_so_far q = cmd_so_far r" for buf q
  proof -
    have "uint (buf ! 1) = int k" "unat (c ! 0) < 255"
      using that(1) k(1) assms(1) by (simp_all add: uint_of_nat_byte registered_def)
    then show ?thesis
      using that(2-4) k(1) id0 assms(4) finished by (simp add: cmd_accum_def Let_def) blast
  qed
  have "frame_step s comm (Command_frame (of_nat k) (c ! k)) r =
      Some (if Suc k = length c then [Cmd_call ?b] else [], ?r)"
    using assms(3) by (simp add: frame_step_def Let_def accum has_bytes_def)
  then show ?thesis
    using b k(2) assms(3) by (intro exI [of _ ?r]) (simp add: has_bytes_def)
qed

subsection \<open>A line that carries commands\<close>

lemma frames_from_step: "k < length c \<Longrightarrow> frames_from k c = Command_frame (of_nat k) (c ! k) # frames_from (Suc k) c"
  by (simp add: frames_from_def upt_rec)

lemma frames_from_end [simp]: "frames_from (length c) c = []"
  by (simp add: frames_from_def)

lemma is_command_frames_from [simp]: "filter is_command (frames_from k c) = frames_from k c"
  by (simp add: frames_from_def filter_map o_def)

lemma plain_calls_no_command [simp]: "filter is_cmd_call (plain_calls s comm f) = []"
  by (cases f) (simp_all add: gps_calls_def gpstime_calls_def mks_calls_def slowrate_calls_def Let_def)

lemma plain_calls_all [simp]: "filter (\<lambda>c. \<not> is_cmd_call c) (plain_calls s comm f) = plain_calls s comm f"
  by (cases f) (simp_all add: gps_calls_def gpstime_calls_def mks_calls_def slowrate_calls_def Let_def)

lemma read_comm_line:
  assumes "wf_line nfs" "DLE \<notin> set tail" "Cmdf s" "\<forall>c\<in>set cs. registered s c"
    and "filter is_command (map snd nfs) = pending k cs"
    and "case cs of [] \<Rightarrow> has_bytes r 0 [] | c # _ \<Rightarrow> k < length c \<and> has_bytes r k c"
  shows "\<exists>calls r'. read_comm s comm (line_bytes nfs @ tail) r = Some (calls, r') \<and> has_bytes r' 0 [] \<and>
    list_all2 carries cs (filter is_cmd_call calls) \<and>
    filter (\<lambda>c. \<not> is_cmd_call c) calls = concat (map (plain_calls s comm) (map snd nfs))"
  using assms(1,4-6)
proof (induction nfs arbitrary: r k cs)
  case Nil
  then have "cs = []"
    by (cases cs) (auto simp: frames_from_def)
  with Nil show ?case
    using read_comm_noise [of r tail s comm "[]"] assms(2) by (auto simp: has_bytes_def)
next
  case (Cons nf nfs)
  obtain noise f where nf: "nf = (noise, f)"
    by (cases nf)
  have wf: "DLE \<notin> set noise" "wf_frame f" "wf_line nfs"
    using Cons.prems(1) nf by simp_all
  define c where "c = (case cs of [] \<Rightarrow> [] | c # _ \<Rightarrow> c)"
  define k' where "k' = (case cs of [] \<Rightarrow> 0 | _ \<Rightarrow> k)"
  have r: "has_bytes r k' c"
    using Cons.prems(4) by (auto simp: c_def k'_def split: list.splits)
  then have st: "rd_state r = WANT_DLE" "length (mesgbuf r) = 32"
    by (simp_all add: has_bytes_def)
  note read = read_comm_frame [OF st wf(1,2), of s comm "line_bytes nfs @ tail"]
  show ?case
  proof (cases "is_command f")
    case False
    obtain r' where r': "frame_step s comm f r = Some (plain_calls s comm f, r')" "has_bytes r' k' c"
      using frame_step_plain [OF False r wf(2), of s comm] by blast
    have "case cs of [] \<Rightarrow> has_bytes r' 0 [] | c # _ \<Rightarrow> k < length c \<and> has_bytes r' k c"
      using r'(2) Cons.prems(4) by (auto simp: c_def k'_def split: list.splits)
    moreover have "filter is_command (map snd nfs) = pending k cs"
      using Cons.prems(3) False nf by simp
    ultimately obtain calls r'' where "read_comm s comm (line_bytes nfs @ tail) r' = Some (calls, r'')"
      "has_bytes r'' 0 []" "list_all2 carries cs (filter is_cmd_call calls)"
      "filter (\<lambda>c. \<not> is_cmd_call c) calls = concat (map (plain_calls s comm) (map snd nfs))"
      using Cons.IH [OF wf(3) Cons.prems(2), of k r'] by blast
    then show ?thesis
      using read r' nf by simp
  next
    case True
    then obtain c' cs' where cs: "cs = c' # cs'" "k < length c'"
      using Cons.prems(3,4) nf by (cases cs) auto
    then have f: "f = Command_frame (of_nat k) (c' ! k)" and
      rest: "filter is_command (map snd nfs) = frames_from (Suc k) c' @ concat (map (frames_from 0) cs')"
      using Cons.prems(3) nf True by (simp_all add: frames_from_step)
    have reg: "registered s c'" "\<forall>c\<in>set cs'. registered s c"
      using Cons.prems(2) cs by simp_all
    have "has_bytes r k c'"
      using Cons.prems(4) cs by simp
    from frame_step_command [OF reg(1) cs(2) this assms(3), of comm] obtain r' where
      r': "frame_step s comm f r = Some (if Suc k = length c' then [Cmd_call (cmd_so_far r')] else [], r')"
      "has_bytes r' (if Suc k = length c' then 0 else Suc k) c'" "take (Suc k) (cmd_so_far r') = take (Suc k) c'"
      unfolding f by blast
    show ?thesis
    proof (cases "Suc k = length c'")
      case False
      then have "case cs of [] \<Rightarrow> has_bytes r' 0 [] | c # _ \<Rightarrow> Suc k < length c \<and> has_bytes r' (Suc k) c"
        using r'(2) cs by simp
      from Cons.IH [OF wf(3) Cons.prems(2) _ this] rest cs(1) show ?thesis
        using read r'(1) nf False f by auto
    next
      case last: True
      have "case cs' of [] \<Rightarrow> has_bytes r' 0 [] | c # _ \<Rightarrow> 0 < length c \<and> has_bytes r' 0 c"
        using r'(2) last reg(2) by (auto simp: registered_def intro: has_bytes_cong split: list.splits)
      moreover have "filter is_command (map snd nfs) = pending 0 cs'"
        using rest last by (cases cs') simp_all
      ultimately obtain calls r'' where "read_comm s comm (line_bytes nfs @ tail) r' = Some (calls, r'')"
        "has_bytes r'' 0 []" "list_all2 carries cs' (filter is_cmd_call calls)"
        "filter (\<lambda>c. \<not> is_cmd_call c) calls = concat (map (plain_calls s comm) (map snd nfs))"
        using Cons.IH [OF wf(3) reg(2), of 0 r'] by blast
      moreover have "carries c' (Cmd_call (cmd_so_far r'))"
        using r'(3) last by (simp add: carries_def)
      ultimately show ?thesis
        using read r'(1) nf last cs(1) f by simp
    qed
  qed
qed

subsection \<open>Commands out of sequence\<close>

lemma frame_step_out_of_sequence:
  assumes "uint sq \<noteq> int k" "has_bytes r k b"
  shows "\<exists>r'. frame_step s comm (Command_frame sq x) r = Some ([], r') \<and> has_bytes r' 0 []"
  using assms by (auto simp: frame_step_def cmd_accum_def has_bytes_def Let_def)

text \<open>
  The bytes \<open>j\<close> and following of a command that do not fit what the reader has: the first
  resets it, and none of the others begins a command.
\<close>

lemma read_comm_out_of_sequence:
  assumes "wf_line nfs" "length c \<le> 256" "filter is_command (map snd nfs) = frames_from j c" "has_bytes r k b"
    and "j = 0 \<and> 0 < k \<and> c \<noteq> [] \<or> 0 < j \<and> k = 0"
  shows "\<exists>calls r'. read_comm s comm (line_bytes nfs @ rest) r =
      map_option (\<lambda>(calls', r). (calls @ calls', r)) (read_comm s comm rest r') \<and>
    has_bytes r' 0 [] \<and> filter is_cmd_call calls = []"
  using assms
proof (induction nfs arbitrary: r k j b)
  case Nil
  then have "length c \<le> j"
    by (auto simp: frames_from_def)
  with Nil show ?case
    by (intro exI [of _ "[]"] exI [of _ r]) (auto simp: option.map_ident split_def intro: has_bytes_cong)
next
  case (Cons nf nfs)
  obtain noise f where nf: "nf = (noise, f)"
    by (cases nf)
  have wf: "DLE \<notin> set noise" "wf_frame f" "wf_line nfs"
    using Cons.prems(1) nf by simp_all
  have st: "rd_state r = WANT_DLE" "length (mesgbuf r) = 32"
    using Cons.prems(4) by (simp_all add: has_bytes_def)
  note read = read_comm_frame [OF st wf(1,2), of s comm "line_bytes nfs @ rest"]
  have join: ?case if first: "frame_step s comm f r = Some (calls1, r1)" "filter is_cmd_call calls1 = []"
    and later: "\<exists>calls r'. read_comm s comm (line_bytes nfs @ rest) r1 =
      map_option (\<lambda>(calls', r). (calls @ calls', r)) (read_comm s comm rest r') \<and>
      has_bytes r' 0 [] \<and> filter is_cmd_call calls = []" for calls1 r1
  proof -
    obtain calls r' where *: "read_comm s comm (line_bytes nfs @ rest) r1 =
      map_option (\<lambda>(calls', r). (calls @ calls', r)) (read_comm s comm rest r')"
      "has_bytes r' 0 []" "filter is_cmd_call calls = []"
      using later by blast
    then show ?thesis
      using read first nf
      by (intro exI [of _ "calls1 @ calls"] exI [of _ r']) (simp add: option.map_comp o_def split_def)
  qed
  show ?case
  proof (cases "is_command f")
    case False
    obtain r' where r': "frame_step s comm f r = Some (plain_calls s comm f, r')" "has_bytes r' k b"
      using frame_step_plain [OF False Cons.prems(4) wf(2), of s comm] by blast
    moreover have "filter is_command (map snd nfs) = frames_from j c"
      using Cons.prems(3) False nf by simp
    ultimately show ?thesis
      by (intro join [OF r'(1) plain_calls_no_command] Cons.IH [OF wf(3) Cons.prems(2) _ _ Cons.prems(5)])
  next
    case True
    then have j: "j < length c"
      using Cons.prems(3) nf by (auto simp: frames_from_def intro: ccontr)
    then have f: "f = Command_frame (of_nat j) (c ! j)" "filter is_command (map snd nfs) = frames_from (Suc j) c"
      using Cons.prems(3) nf True by (simp_all add: frames_from_step)
    have "uint (of_nat j :: byte) \<noteq> int k"
      using Cons.prems(2,5) j by (auto simp: uint_of_nat_byte)
    then obtain r' where r': "frame_step s comm f r = Some ([], r')" "has_bytes r' 0 []"
      using frame_step_out_of_sequence [OF _ Cons.prems(4), of "of_nat j"] f(1) by blast
    show ?thesis
      by (rule join [OF r'(1) _ Cons.IH [OF wf(3) Cons.prems(2) f(2) r'(2)]]) simp_all
  qed
qed

section \<open>Bounds\<close>

text \<open>
  With registered lengths up to the 32 bytes of \<open>cmd_so_far\<close>, and without the identifier 255, no
  input makes the reader leave its arrays.
\<close>

definition lengths_fit :: "sipcom \<Rightarrow> bool" where
  "lengths_fit s \<longleftrightarrow> (\<forall>i<NCMD. Cmdlen s ! i = -1 \<or> 1 \<le> Cmdlen s ! i \<and> Cmdlen s ! i \<le> 32)"

definition reader_inv :: "sipcom \<Rightarrow> reader \<Rightarrow> bool" where
  "reader_inv s r \<longleftrightarrow> length (mesgbuf r) = MESGBUFSIZE \<and> 255 \<notin> set (mesgbuf r) \<and> length (cmd_so_far r) = CMD_MAX_LEN \<and>
     (length_so_far r = 0 \<or> unat (cmd_so_far r ! 0) < NCMD \<and>
        int (length_so_far r) < Cmdlen s ! unat (cmd_so_far r ! 0))"

lemma reader_inv_simps [simp]:
  "reader_inv s (r\<lparr>rd_state := st\<rparr>) \<longleftrightarrow> reader_inv s r"
  by (simp add: reader_inv_def)

lemma unat_byte_255: "b \<noteq> 255 \<Longrightarrow> unat (b :: byte) < 255"
proof -
  assume "b \<noteq> 255"
  then have "unat b \<noteq> unat (255 :: byte)"
    by (metis word_unat_eq_iff)
  then show ?thesis
    using unsigned_less [of b, where 'a = nat] by simp
qed

lemma cmd_accum_inv:
  assumes "lengths_fit s" "reader_inv s r" "255 \<notin> set buf" "length buf = MESGBUFSIZE"
  shows "\<exists>calls r'. cmd_accum s buf r = Some (calls, r') \<and> reader_inv s r'"
proof -
  have len: "length_so_far r < 32"
    using assms(1,2) by (fastforce simp: lengths_fit_def reader_inv_def)
  let ?c = "(cmd_so_far r)[length_so_far r := buf ! 2]"
  have "buf ! 2 \<noteq> 255"
    using assms(3) nth_mem [of 2 buf] unfolding assms(4) by force
  then have "unat (buf ! 2) < 255"
    by (rule unat_byte_255)
  then have ident: "unat (?c ! 0) < 255"
    using assms(2) by (cases "length_so_far r = 0") (auto simp: reader_inv_def)
  have "Cmdlen s ! unat (?c ! 0) \<noteq> int (Suc (length_so_far r)) \<Longrightarrow> Cmdlen s ! unat (?c ! 0) \<noteq> -1 \<Longrightarrow>
      int (Suc (length_so_far r)) < Cmdlen s ! unat (?c ! 0)"
    using assms(1,2) ident by (cases "length_so_far r = 0") (fastforce simp: reader_inv_def lengths_fit_def)+
  with ident len assms(2) show ?thesis
    by (auto simp: cmd_accum_def Let_def reader_inv_def)
qed

lemma readn_inv:
  "255 \<notin> set inp \<Longrightarrow> 255 \<notin> set buf \<Longrightarrow> readn n i buf inp = (buf', inp') \<Longrightarrow>
    255 \<notin> set buf' \<and> 255 \<notin> set inp' \<and> length buf' = length buf"
proof (induction n arbitrary: i buf inp)
  case (Suc n)
  show ?case
  proof (cases inp)
    case (Cons b inp1)
    then have "255 \<notin> set inp1" "255 \<notin> set (buf[i := b])" "readn n (Suc i) (buf[i := b]) inp1 = (buf', inp')"
      using Suc.prems set_update_subset_insert [of buf i b] by auto
    from Suc.IH [OF this] show ?thesis by simp
  qed (use Suc.prems in simp)
qed simp

lemma on_message_inv:
  assumes "reader_inv s r" "255 \<notin> set inp"
    and "\<And>q. reader_inv s q \<Longrightarrow> \<exists>calls q'. act q = Some (calls, q') \<and> reader_inv s q'"
  shows "\<exists>calls r' inp'. on_message n act inp r = Some (calls, r', inp') \<and> reader_inv s r' \<and> 255 \<notin> set inp'"
proof -
  obtain buf inp' where rd: "readn n 0 (mesgbuf r) inp = (buf, inp')"
    by (cases "readn n 0 (mesgbuf r) inp")
  then have inv: "reader_inv s (r\<lparr>mesgbuf := buf\<rparr>)" "255 \<notin> set inp'"
    using readn_inv [OF assms(2) _ rd] assms(1) by (simp_all add: reader_inv_def)
  from assms(3) [OF inv(1)] show ?thesis
    using rd inv by (auto simp: on_message_def get_mesg_def Let_def)
qed

lemma read_step_inv:
  assumes "lengths_fit s" "reader_inv s r" "255 \<notin> set inp"
  shows "\<exists>calls r' inp'. read_step s comm ch inp r = Some (calls, r', inp') \<and> reader_inv s r' \<and> 255 \<notin> set inp'"
proof -
  have "\<exists>calls q'. cmd_accum s (mesgbuf q) q = Some (calls, q') \<and> reader_inv s q'" if "reader_inv s q" for q
    using cmd_accum_inv [OF assms(1) that] that by (simp add: reader_inv_def)
  then show ?thesis
    using assms(2,3)
    by (cases "rd_state r") (auto simp: read_step_def intro!: on_message_inv)
qed

lemma read_comm_inv:
  "lengths_fit s \<Longrightarrow> reader_inv s r \<Longrightarrow> 255 \<notin> set inp \<Longrightarrow>
    \<exists>calls r'. read_comm s comm inp r = Some (calls, r') \<and> reader_inv s r'"
proof (induction s comm inp r rule: read_comm.induct)
  case (2 s comm ch inp r)
  obtain calls r' inp' where step: "read_step s comm ch inp r = Some (calls, r', inp')" "reader_inv s r'" "255 \<notin> set inp'"
    using read_step_inv [OF 2(2,3), of inp comm ch] 2(4) by auto
  from 2(1) [OF step(1) refl refl 2(2) step(2,3)] step(1) show ?case
    by auto
qed simp

section \<open>Properties\<close>

text \<open>
  C24. The reader inverts the SIP's framing: a line that carries messages, with noise between them,
  makes exactly the calls that the messages ask for, and the science commands, which come in one byte
  per message and may be interleaved with any other messages, reach the command callback whole and
  in their order.
\<close>

theorem sip_line_decoded:
  assumes "wf_line nfs" "DLE \<notin> set tail" "Cmdf s" "\<forall>c\<in>set cmds. registered s c"
    and "filter is_command (map snd nfs) = concat (map (frames_from 0) cmds)" "has_bytes r 0 []"
  shows "\<exists>calls r'. read_comm s comm (line_bytes nfs @ tail) r = Some (calls, r') \<and> has_bytes r' 0 [] \<and>
    list_all2 carries cmds (filter is_cmd_call calls) \<and>
    filter (\<lambda>c. \<not> is_cmd_call c) calls = concat (map (plain_calls s comm) (map snd nfs))"
proof (rule read_comm_line [OF assms(1-4)])
  show "filter is_command (map snd nfs) = pending 0 cmds"
    using assms(5) by (cases cmds) simp_all
  show "case cmds of [] \<Rightarrow> has_bytes r 0 [] | c # _ \<Rightarrow> 0 < length c \<and> has_bytes r 0 c"
    using assms(4,6) by (auto simp: registered_def intro: has_bytes_cong split: list.splits)
qed

definition example_sip :: sipcom where
  "example_sip = sipcom_start\<lparr>Cmdlen := (replicate NCMD (-1))[5 := 2], cmdlen_init := True, Cmdf := True,
     Slowrate_callback := [True, True]\<rparr>"

lemma example_sip_registered: "registered example_sip [5, x]" "registered example_sip [9]"
  by (simp_all add: registered_def example_sip_def)

lemma reader_start_has_bytes: "length junk = CMD_MAX_LEN \<Longrightarrow> has_bytes (reader_start junk) 0 []"
  by (simp add: has_bytes_def reader_start_def)

theorem sip_line_decoded_witness:
  "let nfs = [([1, 2], Request_frame), ([], Command_frame 0 5), ([], Gps_frame (replicate 14 7)), ([3], Command_frame 1 0x10),
         ([], Command_frame 0 9)] in
   \<exists>calls r'. read_comm example_sip 0 (line_bytes nfs) (reader_start (replicate 32 0)) = Some (calls, r') \<and>
     list_all2 carries [[5, 0x10], [9]] (filter is_cmd_call calls) \<and> filter (\<lambda>c. \<not> is_cmd_call c) calls = [Slowrate_call]"
proof -
  let ?nfs = "[([1, 2], Request_frame), ([], Command_frame 0 5), ([], Gps_frame (replicate 14 7)), ([3], Command_frame 1 0x10),
         ([], Command_frame 0 9)] :: (byte list \<times> sip_frame) list"
  have "\<exists>calls r'. read_comm example_sip 0 (line_bytes ?nfs @ []) (reader_start (replicate 32 0)) = Some (calls, r') \<and>
      has_bytes r' 0 [] \<and> list_all2 carries [[5, 0x10], [9]] (filter is_cmd_call calls) \<and>
      filter (\<lambda>c. \<not> is_cmd_call c) calls = concat (map (plain_calls example_sip 0) (map snd ?nfs))"
    by (rule sip_line_decoded)
      (use example_sip_registered reader_start_has_bytes in
        \<open>simp_all add: wf_line_def frames_from_def upt_rec example_sip_def\<close>)
  moreover have "concat (map (plain_calls example_sip 0) (map snd ?nfs)) = [Slowrate_call]"
    by (simp add: gps_calls_def slowrate_calls_def example_sip_def sipcom_start_def)
  ultimately show ?thesis
    by (auto simp: Let_def)
qed

text \<open>
  C29. A command that arrives while the reader still holds bytes of an incomplete one is lost
  altogether: its first byte only resets the reader. The commands behind it arrive.
\<close>

theorem command_after_incomplete_lost:
  assumes "has_bytes r k b" "0 < k" "c \<noteq> []" "length c \<le> 256" "Cmdf s" "\<forall>c\<in>set cmds. registered s c"
    and "wf_line nfs" "filter is_command (map snd nfs) = frames_from 0 c"
    and "wf_line nfs'" "filter is_command (map snd nfs') = concat (map (frames_from 0) cmds)"
  shows "\<exists>calls r'. read_comm s comm (line_bytes nfs @ line_bytes nfs') r = Some (calls, r') \<and>
    list_all2 carries cmds (filter is_cmd_call calls)"
proof -
  obtain calls r1 where lost: "read_comm s comm (line_bytes nfs @ line_bytes nfs') r =
      map_option (\<lambda>(calls', r). (calls @ calls', r)) (read_comm s comm (line_bytes nfs') r1)"
    "has_bytes r1 0 []" "filter is_cmd_call calls = []"
    using read_comm_out_of_sequence [OF assms(7,4,8,1)] assms(2,3) by blast
  have "filter is_command (map snd nfs') = pending 0 cmds"
    using assms(10) by (cases cmds) simp_all
  moreover have "case cmds of [] \<Rightarrow> has_bytes r1 0 [] | c # _ \<Rightarrow> 0 < length c \<and> has_bytes r1 0 c"
    using assms(6) lost(2) by (auto simp: registered_def intro: has_bytes_cong split: list.splits)
  ultimately obtain calls' r' where "read_comm s comm (line_bytes nfs') r1 = Some (calls', r')"
    "list_all2 carries cmds (filter is_cmd_call calls')"
    using read_comm_line [OF assms(9) _ assms(5,6), of "[]" 0 r1 comm] by auto
  with lost show ?thesis
    by auto
qed

theorem command_after_incomplete_lost_witness:
  "let r = (reader_start (replicate 32 5))\<lparr>length_so_far := 1\<rparr>; nfs = [([], Command_frame 0 5), ([], Command_frame 1 7)];
       nfs' = [([], Command_frame 0 5), ([], Command_frame 1 8)] in
   \<exists>calls r'. read_comm example_sip 0 (line_bytes nfs @ line_bytes nfs') r = Some (calls, r') \<and>
     list_all2 carries [[5, 8]] (filter is_cmd_call calls)"
  unfolding Let_def
  by (rule command_after_incomplete_lost [where k = 1 and c = "[5, 7]" and b = "[5]"])
    (use example_sip_registered in
      \<open>simp_all add: has_bytes_def reader_start_def frames_from_def upt_rec example_sip_def numeral_eq_Suc\<close>)

text \<open>
  C28. Memory safety of the reader: when every registered length is at most 32, no sequence of bytes
  other than 255 makes the reader access an array out of bounds, and it always comes to the end of
  the input.
\<close>

theorem sip_reader_in_bounds:
  assumes "lengths_fit s" "reader_inv s r" "255 \<notin> set inp"
  shows "\<exists>calls r'. read_comm s comm inp r = Some (calls, r') \<and> reader_inv s r'"
  by (rule read_comm_inv [OF assms])

theorem sip_reader_in_bounds_witness:
  "\<exists>calls r'. read_comm example_sip 1 [0x10, 0x14, 2, 0] (reader_start (replicate 32 0)) = Some (calls, r')"
proof -
  have "lengths_fit example_sip"
    by (simp add: lengths_fit_def example_sip_def nth_list_update)
  then show ?thesis
    using sip_reader_in_bounds [of example_sip "reader_start (replicate 32 0)" "[0x10, 0x14, 2, 0]" 1]
    by (auto simp: reader_inv_def reader_start_def)
qed

end
