(* ===== verification/Sip_Writer.thy ===== *)
theory Sip_Writer
  imports Sip_Reader Checksum
begin

text \<open>
  What the SIP library sends: the slow rate frames and the requests of \<open>sipcom.c\<close>, the telemetry
  frame of \<open>telemwrap.c\<close>, the buffers that \<open>sipcom.c\<close> wraps it into, the rate limit of
  \<open>sipthrottle.c\<close> and the loop that writes a buffer to the high rate line under this limit.
\<close>

section \<open>Slow rate frames and requests\<close>

text \<open>
  The serial line: what \<open>serial_sipmux_begin\<close>, \<open>write\<close> and \<open>serial_sipmux_end\<close> return for
  one call.
\<close>

record serial_line =
  sipmux_begin :: int
  write_result :: int
  sipmux_end :: int

definition sipmux_on :: "sipcom \<Rightarrow> nat \<Rightarrow> bool" where
  "sipmux_on s comm \<longleftrightarrow> bit (Sipmux_enable s) comm"

definition framed_write :: "sipcom \<Rightarrow> serial_line \<Rightarrow> nat \<Rightarrow> byte list \<Rightarrow> int \<times> byte list" where
  \<comment> \<open>return value and the bytes handed to \<open>write\<close>\<close>
  "framed_write s line comm xferbuf =
     (if sipmux_on s comm \<and> sipmux_begin line \<noteq> 0 then (-5, [])
      else if write_result line \<noteq> int (length xferbuf) then (-4, xferbuf)
      else if sipmux_on s comm \<and> sipmux_end line \<noteq> 0 then (-5, xferbuf)
      else (0, xferbuf))"

definition do_request :: "sipcom \<Rightarrow> serial_line \<Rightarrow> byte \<Rightarrow> int \<times> byte list" where
  "do_request s line req = framed_write s line 1 [DLE, req, END_TEXT]"

definition sipcom_request_gps_pos :: "sipcom \<Rightarrow> serial_line \<Rightarrow> int \<times> byte list" where
  "sipcom_request_gps_pos s line = do_request s line 0x50"

definition sipcom_request_gps_time :: "sipcom \<Rightarrow> serial_line \<Rightarrow> int \<times> byte list" where
  "sipcom_request_gps_time s line = do_request s line 0x51"

definition sipcom_request_mks_pressure_altitude :: "sipcom \<Rightarrow> serial_line \<Rightarrow> int \<times> byte list" where
  "sipcom_request_mks_pressure_altitude s line = do_request s line 0x52"

text \<open>The caller's buffer is \<open>None\<close> for a null pointer; it has at least \<open>nbytes\<close> bytes.\<close>

definition sipcom_slowrate_write :: "sipcom \<Rightarrow> serial_line \<Rightarrow> int \<Rightarrow> byte list option \<Rightarrow> byte \<Rightarrow>
    int \<times> byte list \<times> sipcom" where
  "sipcom_slowrate_write s line comm buf nbytes =
     (if unat nbytes > 248 then (-1, [], s)
      else case buf of None \<Rightarrow> (-2, [], s)
      | Some buf \<Rightarrow>
          if comm \<noteq> 0 \<and> comm \<noteq> 1 then (-3, [], s)
          else let (ident, bufseq, s) =
                 (if comm = 0 then (0xc1, c1_bufseq s, s\<lparr>c1_bufseq := c1_bufseq s + 1\<rparr>)
                  else (0xc2, c2_bufseq s, s\<lparr>c2_bufseq := c2_bufseq s + 1\<rparr>));
                 xferbuf = [DLE, 0x53, nbytes + 3, ident, bufseq, nbytes] @ take (unat nbytes) buf @ [END_TEXT];
                 (ret, out) = framed_write s line (nat comm) xferbuf
               in (ret, out, s))"

section \<open>The telemetry frame\<close>

definition le_bytes :: "nat \<Rightarrow> int \<Rightarrow> byte list" where
  \<comment> \<open>\<open>memcpy\<close> of an \<open>n\<close> byte integer\<close>
  "le_bytes n v = map (\<lambda>i. word_of_int (drop_bit (8 * i) v)) [0..<n]"

text \<open>
  \<open>lsz\<close> is \<open>sizeof(unsigned long)\<close>. The caller's buffer holds at least \<open>nbytes\<close> bytes, \<open>xtype\<close>
  is one of the four transfer types.
\<close>

definition telemwrap :: "nat \<Rightarrow> byte list \<Rightarrow> int \<Rightarrow> nat \<Rightarrow> int \<Rightarrow> int list \<Rightarrow> byte list \<times> int list" where
  "telemwrap lsz databuf nbytes xtype datasource Buffer_count =
     (let odd_number_of_science_bytes = (nbytes mod 2 \<noteq> 0);
          idhdr = u16 (0xAE00 + datasource);
          buffer_cnt = Buffer_count ! xtype;
          Buffer_count = Buffer_count[xtype := take_bit (8 * lsz) (buffer_cnt + 1)];
          science = take (nat nbytes) databuf;
          idhdr = (if odd_number_of_science_bytes then idhdr OR 2 else idhdr);
          nbytes = (if odd_number_of_science_bytes then u16 (nbytes + 1) else nbytes);
          science = (if odd_number_of_science_bytes then science @ [0] else science);
          checksum = crc_short (\<lambda>i. science ! i) 0 (nat (nbytes div 2))
      in (le_bytes 2 0xF00D @ le_bytes 2 0xD0CC @ le_bytes 2 idhdr @ le_bytes lsz buffer_cnt @ le_bytes 2 nbytes @
          science @ le_bytes 2 checksum @ le_bytes 2 0xAEFF @ le_bytes 2 0xC0FE @ le_bytes 2 0xF1EA, Buffer_count))"

definition telemwrap_init :: "int \<Rightarrow> int" where
  "telemwrap_init datasource = (if datasource \<noteq> 0 \<and> datasource \<noteq> 1 then -1 else 0)"

section \<open>Wrapped buffers\<close>

text \<open>
  The function-static buffer of the wrapping functions: its size \<open>nbytes_plus\<close> as recorded, and
  the bytes that were really allocated (\<open>None\<close> for the null pointer).
\<close>

record wrap_static =
  nbytes_plus :: int
  wrapbuf :: "nat option"

definition wrap_start :: wrap_static where
  "wrap_start = \<lparr>nbytes_plus = 0, wrapbuf = None\<rparr>"

text \<open>\<open>realloc\<close> gives the memory or, when \<open>mem_ok\<close> is false, the null pointer.\<close>

definition grow :: "bool \<Rightarrow> int \<Rightarrow> wrap_static \<Rightarrow> bool \<times> wrap_static" where
  \<comment> \<open>whether the function goes on\<close>
  "grow mem_ok nbytes st =
     (if nbytes_plus st < nbytes + 128
      then let st = st\<lparr>nbytes_plus := nbytes + 128\<rparr> in
           if mem_ok then (True, st\<lparr>wrapbuf := Some (nat (nbytes + 128))\<rparr>) else (False, st\<lparr>wrapbuf := None\<rparr>)
      else (True, st))"

definition wrap_into :: "wrap_static \<Rightarrow> byte list \<Rightarrow> byte list option" where
  \<comment> \<open>writing through the null pointer or past the buffer has no result\<close>
  "wrap_into st out = (case wrapbuf st of None \<Rightarrow> None | Some n \<Rightarrow> if length out \<le> n then Some out else None)"

record wrap_result =
  wr_wrapbytes :: int
  wr_bytes :: "byte list option"

definition wrap_buffer :: "nat \<Rightarrow> nat \<Rightarrow> int \<Rightarrow> bool \<Rightarrow> byte list \<Rightarrow> int \<Rightarrow> wrap_static \<Rightarrow> int list \<Rightarrow>
    (wrap_result \<times> wrap_static \<times> int list) option" where
  \<comment> \<open>the common text of \<open>sipcom_wrap_buffer\<close> and \<open>openport_wrap_buffer\<close>; \<open>wrapbytes\<close> is a \<open>short\<close>\<close>
  "wrap_buffer lsz xtype datasource mem_ok buf nbytes st cnts =
     (if nbytes = 0 then Some (\<lparr>wr_wrapbytes = 0, wr_bytes = None\<rparr>, st, cnts)
      else let (ok, st) = grow mem_ok nbytes st in
        if \<not> ok then Some (\<lparr>wr_wrapbytes = -1, wr_bytes = None\<rparr>, st, cnts)
        else let (out, cnts) = telemwrap lsz buf nbytes xtype datasource cnts in
          map_option (\<lambda>out. (\<lparr>wr_wrapbytes = s16 (int (length out)), wr_bytes = Some out\<rparr>, st, cnts)) (wrap_into st out))"

definition sipcom_wrap_buffer :: "nat \<Rightarrow> bool \<Rightarrow> byte list \<Rightarrow> int \<Rightarrow> wrap_static \<Rightarrow> int list \<Rightarrow>
    (wrap_result \<times> wrap_static \<times> int list) option" where
  "sipcom_wrap_buffer lsz = wrap_buffer lsz 2 0"

definition openport_wrap_buffer :: "nat \<Rightarrow> bool \<Rightarrow> byte list \<Rightarrow> int \<Rightarrow> wrap_static \<Rightarrow> int list \<Rightarrow>
    (wrap_result \<times> wrap_static \<times> int list) option" where
  "openport_wrap_buffer lsz = wrap_buffer lsz 3 1"

section \<open>The rate limit\<close>

text \<open>\<open>unsigned long\<close> has 64 bits; \<open>gettimeofday\<close> gives seconds and microseconds.\<close>

abbreviation (input) s64 :: "int \<Rightarrow> int" where "s64 \<equiv> signed_take_bit 63"

record throttle =
  Curtime :: int
  Curcount :: int
  Bytes_per_sec_limit :: int
  Bytes_per_unit_limit :: int
  Startsec :: int
  Fracsec :: real

definition throttle_start :: throttle where
  "throttle_start = \<lparr>Curtime = 0, Curcount = 0, Bytes_per_sec_limit = 750, Bytes_per_unit_limit = 750,
     Startsec = 0, Fracsec = 1\<rparr>"

definition get_curtime :: "throttle \<Rightarrow> int \<times> int \<Rightarrow> int" where
  "get_curtime st t =
     (let usec = u64 ((fst t - Startsec st) * 1000000 + snd t)
      in u64 (c_trunc (real_of_int usec / (1000000 * Fracsec st))))"

definition sipthrottle_set_bytes_per_sec_limit :: "int \<Rightarrow> throttle \<Rightarrow> throttle" where
  "sipthrottle_set_bytes_per_sec_limit limit st = st\<lparr>Bytes_per_sec_limit := limit\<rparr>"

definition sipthrottle_set_frac_sec :: "real \<Rightarrow> throttle \<Rightarrow> throttle" where
  "sipthrottle_set_frac_sec fraction st =
     st\<lparr>Fracsec := fraction, Bytes_per_unit_limit := u64 (c_trunc (real_of_int (Bytes_per_sec_limit st) * fraction))\<rparr>"

definition sipthrottle_init :: "int \<Rightarrow> real \<Rightarrow> int \<times> int \<Rightarrow> int \<times> int \<Rightarrow> throttle \<Rightarrow> throttle" where
  \<comment> \<open>two readings of the clock, the second in \<open>get_curtime\<close>\<close>
  "sipthrottle_init limit fraction t t' st =
     (let st = sipthrottle_set_frac_sec fraction (sipthrottle_set_bytes_per_sec_limit limit st);
          st = st\<lparr>Startsec := fst t\<rparr>
      in st\<lparr>Curtime := get_curtime st t'\<rparr>)"

definition sipcom_highrate_set_throttle :: "int \<Rightarrow> throttle \<Rightarrow> throttle" where
  "sipcom_highrate_set_throttle rate st = sipthrottle_set_frac_sec 1 (sipthrottle_set_bytes_per_sec_limit rate st)"

text \<open>\<open>bytes_available<amountb\<close> compares in \<open>unsigned long\<close>.\<close>

definition sipthrottle :: "int \<times> int \<Rightarrow> int \<Rightarrow> throttle \<Rightarrow> int \<times> throttle" where
  "sipthrottle t amountb st =
     (let ntime = get_curtime st t;
          st = (if ntime \<noteq> Curtime st then st\<lparr>Curcount := 0, Curtime := ntime\<rparr> else st);
          bytes_available = s64 (Bytes_per_unit_limit st - Curcount st)
      in if u64 bytes_available < amountb
         then (s32 bytes_available, st\<lparr>Curcount := u64 (Curcount st + bytes_available)\<rparr>)
         else (s32 amountb, st\<lparr>Curcount := u64 (Curcount st + amountb)\<rparr>))"

section \<open>Writing to the high rate lines\<close>

text \<open>
  What \<open>write\<close> does: it takes all bytes, fails with \<open>EAGAIN\<close> or fails. (A count between is taken
  for all bytes by the code.)
\<close>

datatype write_outcome = Write_done | Write_again | Write_failed

primrec try_write :: "write_outcome list \<Rightarrow> (bool \<times> write_outcome list) option" where
  \<comment> \<open>whether it succeeded; without outcomes left it is still trying\<close>
  "try_write [] = None"
| "try_write (w # ws) = (case w of Write_done \<Rightarrow> Some (True, ws) | Write_again \<Rightarrow> try_write ws | Write_failed \<Rightarrow> Some (False, ws))"

text \<open>
  The loop: \<open>ts\<close> are the readings of the clock, one for every round. \<open>None\<close> says that the loop
  is still running when the readings end.
\<close>

primrec highrate_loop :: "(int \<times> int) list \<Rightarrow> write_outcome list \<Rightarrow> byte list \<Rightarrow> throttle \<Rightarrow>
    (int \<times> byte list list \<times> throttle) option" where
  \<comment> \<open>\<open>retval\<close>, the pieces written, the throttle\<close>
  "highrate_loop [] ws p st = None"
| "highrate_loop (t # ts) ws p st =
     (let (bytes_avail, st) = sipthrottle t (int (length p)) st in
      if bytes_avail = 0 then highrate_loop ts ws p st
      else if bytes_avail > 0 then
        (case try_write ws of
           None \<Rightarrow> None
         | Some (ok, ws) \<Rightarrow>
             if \<not> ok then Some (-1, [], st)
             else let piece = take (nat bytes_avail) p; p = drop (nat bytes_avail) p in
               if p = [] then Some (0, [piece], st)
               else map_option (\<lambda>(retval, out, st). (retval, piece # out, st)) (highrate_loop ts ws p st))
      else Some (-3, [], st))"

definition highrate_write_bytes :: "sipcom \<Rightarrow> serial_line \<Rightarrow> (int \<times> int) list \<Rightarrow> write_outcome list \<Rightarrow> byte list \<Rightarrow>
    throttle \<Rightarrow> (int \<times> byte list list \<times> throttle) option" where
  "highrate_write_bytes s line ts ws p st =
     (if sipmux_on s 2 \<and> sipmux_begin line \<noteq> 0 then Some (-5, [], st)
      else map_option (\<lambda>(retval, out, st). (if sipmux_on s 2 \<and> sipmux_end line \<noteq> 0 then -5 else retval, out, st))
        (highrate_loop ts ws p st))"

definition sipcom_highrate_write :: "nat \<Rightarrow> sipcom \<Rightarrow> serial_line \<Rightarrow> (int \<times> int) list \<Rightarrow> write_outcome list \<Rightarrow> bool \<Rightarrow>
    byte list \<Rightarrow> int \<Rightarrow> wrap_static \<Rightarrow> int list \<Rightarrow> throttle \<Rightarrow>
    (int \<times> byte list list \<times> wrap_static \<times> int list \<times> throttle) option" where
  "sipcom_highrate_write lsz s line ts ws mem_ok buf nbytes st cnts th =
     (if nbytes = 0 then Some (0, [], st, cnts, th)
      else let (ok, st) = grow mem_ok nbytes st in
        if \<not> ok then Some (-1, [], st, cnts, th)
        else let (out, cnts) = telemwrap lsz buf nbytes 0 1 cnts in
          case wrap_into st out of
            None \<Rightarrow> None
          | Some out \<Rightarrow> map_option (\<lambda>(retval, pieces, th). (retval, pieces, st, cnts, th))
              (highrate_write_bytes s line ts ws out th))"

definition very_highrate_write_bytes :: "sipcom \<Rightarrow> serial_line \<Rightarrow> byte list \<Rightarrow> int \<times> byte list" where
  "very_highrate_write_bytes s line p =
     (if sipmux_on s 3 \<and> sipmux_begin line \<noteq> 0 then (-5, [])
      else if write_result line = -1 then (-1, [])
      else if sipmux_on s 3 \<and> sipmux_end line \<noteq> 0 then (-5, p)
      else (0, p))"

definition sipcom_very_highrate_write :: "nat \<Rightarrow> sipcom \<Rightarrow> serial_line \<Rightarrow> bool \<Rightarrow> byte list \<Rightarrow> int \<Rightarrow> wrap_static \<Rightarrow>
    int list \<Rightarrow> (int \<times> byte list \<times> wrap_static \<times> int list) option" where
  "sipcom_very_highrate_write lsz s line mem_ok buf nbytes st cnts =
     (if nbytes = 0 then Some (0, [], st, cnts)
      else let (ok, st) = grow mem_ok nbytes st in
        if \<not> ok then Some (-1, [], st, cnts)
        else let (out, cnts) = telemwrap lsz buf nbytes 1 1 cnts in
          map_option (\<lambda>out. let (retval, sent) = very_highrate_write_bytes s line out in (retval, sent, st, cnts))
            (wrap_into st out))"

section \<open>The format of a telemetry frame\<close>

text \<open>
  The receiver that \<open>losLib/README\<close> describes (with the end word that \<open>highrate.h\<close> defines): it
  checks the header and end words, the length and the checksum, and drops the pad byte when bit 1
  of the identifier says so.
\<close>

record telem_buffer =
  tb_source :: int
  tb_count :: int
  tb_science :: "byte list"

definition unwrap :: "byte list \<Rightarrow> (telem_buffer \<times> byte list) option" where
  "unwrap bs =
     (let m = (\<lambda>i. bs ! i); nb = nat (load16u m 10); science = take nb (drop 12 bs) in
      if length bs < 12 \<or> length bs < 20 + nb then None
      else if load16u m 0 \<noteq> 0xF00D \<or> load16u m 2 \<noteq> 0xD0CC \<or> load16u m 4 AND 0xFFFC \<noteq> 0xAE00 \<or>
        load16u m (14 + nb) \<noteq> 0xAEFF \<or> load16u m (16 + nb) \<noteq> 0xC0FE \<or> load16u m (18 + nb) \<noteq> 0xF1EA then None
      else if load16u m (12 + nb) \<noteq> crc_short (\<lambda>i. science ! i) 0 (nb div 2) then None
      else Some (\<lparr>tb_source = load16u m 4 AND 1, tb_count = load32u m 6,
             tb_science = (if bit (load16u m 4) 1 then butlast science else science)\<rparr>, drop (20 + nb) bs))"

lemma le_bytes_simps [simp]:
  "le_bytes 2 v = [word_of_int v, word_of_int (drop_bit 8 v)]"
  "le_bytes 4 v = [word_of_int v, word_of_int (drop_bit 8 v), word_of_int (drop_bit 16 v), word_of_int (drop_bit 24 v)]"
  by (simp_all add: le_bytes_def upt_rec)

lemma length_le_bytes [simp]: "length (le_bytes n v) = n"
  by (simp add: le_bytes_def)

lemma load16u_le_bytes:
  assumes "length pre = k"
  shows "load16u (\<lambda>i. (pre @ le_bytes 2 v @ post) ! i) k = u16 v"
proof -
  have "(pre @ le_bytes 2 v @ post) ! k = word_of_int v" "(pre @ le_bytes 2 v @ post) ! (k + 1) = word_of_int (drop_bit 8 v)"
    using nth_append_length_plus [of pre "le_bytes 2 v @ post" 0] nth_append_length_plus [of pre "le_bytes 2 v @ post" 1]
    by (simp_all add: assms)
  then show ?thesis
    using load16u_store16 [of "\<lambda>_. 0" 0 v] by (simp only: load16u_def store16_def) simp
qed

lemma u32_halves: "u16 v + push_bit 16 (u16 (drop_bit 16 v)) = u32 v"
  using load32u_store32 [of "\<lambda>_. 0" 0 v] by (simp add: load32u_def store32_def load16u_store16_other del: load32u_store32)

lemma load32u_le_bytes:
  assumes "length pre = k"
  shows "load32u (\<lambda>i. (pre @ le_bytes 4 v @ post) ! i) k = u32 v"
proof -
  have "le_bytes 4 v = le_bytes 2 v @ le_bytes 2 (drop_bit 16 v)"
    by (simp add: drop_bit_drop_bit)
  moreover have "length (pre @ le_bytes 2 v) = k + 2"
    using assms by simp
  ultimately show ?thesis
    using load16u_le_bytes [OF assms, of v "le_bytes 2 (drop_bit 16 v) @ post"]
      load16u_le_bytes [of "pre @ le_bytes 2 v" "k + 2" "drop_bit 16 v" post]
    by (simp only: load32u_def append_assoc u32_halves)
qed

lemma crc_short_range: "0 \<le> crc_short m p n \<and> crc_short m p n < 2 ^ 16"
  using is_u16_u16 by (simp add: crc_short_def is_u16_def)

lemma crc_short_cong: "(\<And>i. i < 2 * n \<Longrightarrow> m (p + i) = m' (p + i)) \<Longrightarrow> crc_short m p n = crc_short m' p n"
proof -
  assume eq: "\<And>i. i < 2 * n \<Longrightarrow> m (p + i) = m' (p + i)"
  have "load16u m (p + 2 * i) = load16u m' (p + 2 * i)" if "i < n" for i
    using eq [of "2 * i"] eq [of "2 * i + 1"] that by (simp add: load16u_def)
  then have "fold (\<lambda>i sum. u16 (sum + load16u m (p + 2 * i))) [0..<n] 0 =
      fold (\<lambda>i sum. u16 (sum + load16u m' (p + 2 * i))) [0..<n] 0"
    by (intro fold_cong) auto
  then show ?thesis
    by (simp add: crc_short_def)
qed

text \<open>A frame built from its fields is read back.\<close>

lemma unwrap_frame:
  assumes "even nb" "nb < 2 ^ 16" "length science = nb" "0 \<le> source" "source < 4" "0 \<le> cnt" "cnt < 2 ^ 32"
    and "0 \<le> c" "c < 2 ^ 16"
  shows "unwrap (le_bytes 2 0xF00D @ le_bytes 2 0xD0CC @ le_bytes 2 (0xAE00 + source) @ le_bytes 4 cnt @ le_bytes 2 (int nb) @
      science @ le_bytes 2 c @ le_bytes 2 0xAEFF @ le_bytes 2 0xC0FE @
      le_bytes 2 0xF1EA @ rest) =
    (if c \<noteq> crc_short (\<lambda>i. science ! i) 0 (nb div 2) then None
     else Some (\<lparr>tb_source = source AND 1, tb_count = cnt,
       tb_science = (if bit source 1 then butlast science else science)\<rparr>, rest))"
    (is "unwrap ?bs = _")
proof -
  let ?m = "\<lambda>i. ?bs ! i"
  let ?h1 = "le_bytes 2 0xF00D @ le_bytes 2 0xD0CC @ le_bytes 2 (0xAE00 + source)"
  let ?h = "?h1 @ le_bytes 4 cnt @ le_bytes 2 (int nb) @ science"
  have words: "load16u ?m 0 = 0xF00D" "load16u ?m 2 = 0xD0CC" "load16u ?m 4 = 0xAE00 + source" "load16u ?m 10 = int nb"
    using load16u_le_bytes [of "[]" 0 "0xF00D"] load16u_le_bytes [of "le_bytes 2 0xF00D" 2 "0xD0CC"]
      load16u_le_bytes [of "le_bytes 2 0xF00D @ le_bytes 2 0xD0CC" 4 "0xAE00 + source"]
      load16u_le_bytes [of "?h1 @ le_bytes 4 cnt" 10 "int nb"] assms(2,4,5)
    by (simp_all add: u16_id is_u16_def)
  have cnt: "load32u ?m 6 = cnt"
    using load32u_le_bytes [of ?h1 6 cnt] assms(6,7) by (simp add: u32_id is_u32_def)
  have ends: "load16u ?m (12 + nb) = c" "load16u ?m (14 + nb) = 0xAEFF" "load16u ?m (16 + nb) = 0xC0FE"
    "load16u ?m (18 + nb) = 0xF1EA"
    using load16u_le_bytes [of ?h "12 + nb" c] load16u_le_bytes [of "?h @ le_bytes 2 c" "14 + nb" "0xAEFF"]
      load16u_le_bytes [of "?h @ le_bytes 2 c @ le_bytes 2 0xAEFF" "16 + nb" "0xC0FE"]
      load16u_le_bytes [of "?h @ le_bytes 2 c @ le_bytes 2 0xAEFF @ le_bytes 2 0xC0FE" "18 + nb" "0xF1EA"]
      assms(3,8,9)
    by (simp_all add: u16_id is_u16_def)
  have id_bits: "(0xAE00 + source) AND 0xFFFC = 0xAE00" "(0xAE00 + source) AND 1 = source AND 1"
    "bit (0xAE00 + source) 1 = bit source 1"
  proof -
    have "source = 0 \<or> source = 1 \<or> source = 2 \<or> source = 3"
      using assms(4,5) by linarith
    then show "(0xAE00 + source) AND 0xFFFC = 0xAE00" "(0xAE00 + source) AND 1 = source AND 1"
      "bit (0xAE00 + source) 1 = bit source 1"
      by auto
  qed
  let ?frame = "?h @ le_bytes 2 c @ le_bytes 2 0xAEFF @ le_bytes 2 0xC0FE @ le_bytes 2 0xF1EA"
  have frame: "?bs = ?frame @ rest" "length ?frame = 20 + nb"
    using assms(3) by simp_all
  have "drop (20 + nb) ?bs = rest" "length ?bs = 20 + nb + length rest"
    unfolding frame(1) frame(2) [symmetric] by simp_all
  moreover have "take nb (drop 12 ?bs) = science"
    using assms(3) by simp
  ultimately have sci: "take nb (drop 12 ?bs) = science" "drop (20 + nb) ?bs = rest" "length ?bs = 20 + nb + length rest"
    by blast+
  show ?thesis
    unfolding unwrap_def Let_def words cnt ends nat_int sci id_bits by simp
qed

text \<open>One wrong byte of the science data changes the checksum.\<close>

lemma crc_short_wrong_byte:
  assumes "even (length xs)" "j < length xs" "b \<noteq> xs ! j"
  shows "crc_short (\<lambda>i. (xs[j := b]) ! i) 0 (length xs div 2) \<noteq> crc_short (\<lambda>i. xs ! i) 0 (length xs div 2)"
proof -
  define n where "n = length xs div 2"
  define w where "w = load16u (\<lambda>i. (xs[j := b]) ! i) (2 * (j div 2))"
  let ?ws = "load_ushorts (\<lambda>i. xs ! i) 0 n"
  have len: "length xs = 2 * n"
    using assms(1) by (simp add: n_def)
  have j: "j div 2 < n"
    using assms(2) len by simp
  have neq: "uint b \<noteq> uint (xs ! j)"
    using assms(3) by (simp add: word_uint_eq_iff)
  have range: "0 \<le> load16u m a \<and> load16u m a < 2 ^ 16" for m a
    using is_u16_u16 [of "load16u m a"] take_bit_load16u [of m a] by (simp add: is_u16_def u16_def)
  have "w \<noteq> load16u (\<lambda>i. xs ! i) (2 * (j div 2))"
  proof (cases "even j")
    case True
    then have "2 * (j div 2) = j" by simp
    then show ?thesis
      using neq assms(2) by (simp add: w_def load16u_def)
  next
    case False
    then have "2 * (j div 2) = j - 1" "j - 1 \<noteq> j" "Suc (j - 1) = j"
      by (auto elim: oddE)
    then show ?thesis
      using neq assms(2) by (simp add: w_def load16u_def push_bit_eq_mult)
  qed
  then have "crc_of 16 (2 ^ 16) (?ws[j div 2 := w]) \<noteq> crc_of 16 (2 ^ 16) ?ws"
    using j range by (intro shortCrc.detects_one_word) (simp_all add: load_ushorts_def w_def)
  moreover have "load_ushorts (\<lambda>i. (xs[j := b]) ! i) 0 n = ?ws[j div 2 := w]"
  proof (rule nth_equalityI)
    fix i assume "i < length (load_ushorts (\<lambda>i. (xs[j := b]) ! i) 0 n)"
    then have i: "i < n"
      by (simp add: load_ushorts_def)
    show "load_ushorts (\<lambda>i. (xs[j := b]) ! i) 0 n ! i = (?ws[j div 2 := w]) ! i"
    proof (cases "i = j div 2")
      case True
      then show ?thesis
        using i by (simp add: load_ushorts_def w_def)
    next
      case False
      then have "j \<noteq> 2 * i" "j \<noteq> Suc (2 * i)"
        by auto
      then show ?thesis
        using i False by (simp add: load_ushorts_def load16u_def)
    qed
  qed (simp add: load_ushorts_def)
  ultimately show ?thesis
    by (simp add: crc_short_words n_def)
qed

lemma unwrap_telemwrap:
  assumes "length data = n" "n < 65535" "0 \<le> cnts ! xtype" "cnts ! xtype < 2 ^ 32" "datasource = 0 \<or> datasource = 1"
  defines "science \<equiv> (if even n then data else data @ [0])"
  defines "source \<equiv> (if even n then datasource else datasource + 2)"
  shows "fst (telemwrap 4 data (int n) xtype datasource cnts) =
    le_bytes 2 0xF00D @ le_bytes 2 0xD0CC @ le_bytes 2 (0xAE00 + source) @ le_bytes 4 (cnts ! xtype) @
    le_bytes 2 (int (length science)) @ science @ le_bytes 2 (crc_short (\<lambda>i. science ! i) 0 (length science div 2)) @
    le_bytes 2 0xAEFF @ le_bytes 2 0xC0FE @ le_bytes 2 0xF1EA"
    and "even (length science)" "length science < 2 ^ 16" "0 \<le> source" "source < 4" "source AND 1 = datasource"
    and "bit source 1 \<longleftrightarrow> odd n"
proof -
  have ids: "u16 (0xAE00 + datasource) = 0xAE00 + datasource" "(0xAE00 + datasource) OR 2 = 0xAE00 + (datasource + 2)"
    using assms(5) by (auto simp: u16_id is_u16_def)
  have "u16 (int n + 1) = int n + 1"
    using assms(2) by (simp add: u16_id is_u16_def)
  moreover have "int n mod 2 \<noteq> 0 \<longleftrightarrow> odd n"
    by presburger
  moreover have "nat (int n div 2) = n div 2" "nat ((int n + 1) div 2) = (n + 1) div 2"
    by (simp_all add: nat_div_distrib nat_add_distrib)
  ultimately show "fst (telemwrap 4 data (int n) xtype datasource cnts) =
    le_bytes 2 0xF00D @ le_bytes 2 0xD0CC @ le_bytes 2 (0xAE00 + source) @ le_bytes 4 (cnts ! xtype) @
    le_bytes 2 (int (length science)) @ science @ le_bytes 2 (crc_short (\<lambda>i. science ! i) 0 (length science div 2)) @
    le_bytes 2 0xAEFF @ le_bytes 2 0xC0FE @ le_bytes 2 0xF1EA"
    using assms(1) ids by (simp add: telemwrap_def Let_def science_def source_def add.commute del: le_bytes_simps)
  show "even (length science)" "length science < 2 ^ 16" "0 \<le> source" "source < 4" "source AND 1 = datasource"
    "bit source 1 \<longleftrightarrow> odd n"
    using assms(1,2,5) by (auto simp: science_def source_def)
qed

lemma length_telemwrap:
  assumes "n \<le> length data"
  shows "length (fst (telemwrap lsz data (int n) xtype datasource cnts)) = n + n mod 2 + 16 + lsz"
proof -
  have "int n mod 2 \<noteq> 0 \<longleftrightarrow> n mod 2 = 1"
    by presburger
  then show ?thesis
    using assms by (cases "n mod 2 = 1") (simp_all add: telemwrap_def Let_def)
qed

section \<open>The buffers are large enough\<close>

definition wrap_inv :: "wrap_static \<Rightarrow> bool" where
  "wrap_inv st \<longleftrightarrow> (case wrapbuf st of None \<Rightarrow> nbytes_plus st \<le> 0 | Some k \<Rightarrow> nbytes_plus st \<le> int k)"

text \<open>The states that calls reach while \<open>realloc\<close> finds memory.\<close>

inductive wrap_reachable :: "nat \<Rightarrow> nat \<Rightarrow> int \<Rightarrow> wrap_static \<Rightarrow> bool" for lsz xtype datasource where
  start: "wrap_reachable lsz xtype datasource wrap_start"
| call: "wrap_reachable lsz xtype datasource st \<Longrightarrow> 0 \<le> nbytes \<Longrightarrow>
    wrap_buffer lsz xtype datasource True buf nbytes st cnts = Some (r, st', cnts') \<Longrightarrow>
    wrap_reachable lsz xtype datasource st'"

lemma grow_inv:
  assumes "wrap_inv st" "0 \<le> nbytes" "grow True nbytes st = (ok, st')"
  shows "ok \<and> wrap_inv st' \<and> (\<exists>k. wrapbuf st' = Some k \<and> nbytes + 128 \<le> int k)"
  using assms by (auto simp: grow_def wrap_inv_def Let_def split: if_splits option.splits)

lemma wrap_reachable_inv: "wrap_reachable lsz xtype datasource st \<Longrightarrow> wrap_inv st"
proof (induction rule: wrap_reachable.induct)
  case start
  then show ?case by (simp add: wrap_inv_def wrap_start_def)
next
  case (call st nbytes buf cnts r st' cnts')
  from call.IH call.hyps(2,3) show ?case
    by (auto simp: wrap_buffer_def Let_def split: if_splits prod.splits dest: grow_inv)
qed

lemma wrap_buffer_fits:
  assumes "wrap_inv st" "n \<le> length buf" "lsz \<le> 8" "0 < n"
  shows "\<exists>st' cnts'. wrap_buffer lsz xtype datasource True buf (int n) st cnts =
    Some (\<lparr>wr_wrapbytes = s16 (int (n + n mod 2 + 16 + lsz)),
      wr_bytes = Some (fst (telemwrap lsz buf (int n) xtype datasource cnts))\<rparr>, st', cnts')"
proof -
  obtain st' k where st': "grow True (int n) st = (True, st')" "wrapbuf st' = Some k" "int n + 128 \<le> int k"
    using grow_inv [OF assms(1), of "int n"] by (cases "grow True (int n) st") auto
  obtain out cnts' where out: "telemwrap lsz buf (int n) xtype datasource cnts = (out, cnts')"
    by (cases "telemwrap lsz buf (int n) xtype datasource cnts")
  have "length out = n + n mod 2 + 16 + lsz"
    using length_telemwrap [OF assms(2), of lsz xtype datasource cnts] out by simp
  moreover have "n mod 2 \<le> 1"
    by simp
  ultimately show ?thesis
    using st' out assms(3,4) by (simp add: wrap_buffer_def wrap_into_def)
qed

section \<open>The rate\<close>

lemma get_curtime_cong: "Startsec st' = Startsec st \<Longrightarrow> Fracsec st' = Fracsec st \<Longrightarrow> get_curtime st' t = get_curtime st t"
  by (simp add: get_curtime_def)

definition throttle_ok :: "throttle \<Rightarrow> bool" where
  \<comment> \<open>the limit fits an \<open>int\<close> and was not lowered below what the time unit already used\<close>
  "throttle_ok st \<longleftrightarrow> 0 \<le> Curcount st \<and> Curcount st \<le> Bytes_per_unit_limit st \<and> Bytes_per_unit_limit st < 2 ^ 31"

definition room :: "throttle \<Rightarrow> int \<times> int \<Rightarrow> int" where
  "room st t = Bytes_per_unit_limit st - (if get_curtime st t = Curtime st then Curcount st else 0)"

lemma sipthrottle_grants:
  assumes "throttle_ok st" "0 \<le> amountb" "amountb < 2 ^ 31"
  shows "sipthrottle t amountb st =
    (min amountb (room st t),
     st\<lparr>Curtime := get_curtime st t, Curcount := Bytes_per_unit_limit st - room st t + min amountb (room st t)\<rparr>)"
proof -
  have range: "0 \<le> room st t" "room st t \<le> Bytes_per_unit_limit st" "Bytes_per_unit_limit st < 2 ^ 31"
    using assms(1) by (auto simp: room_def throttle_ok_def)
  have u: "u64 x = x" if "0 \<le> x" "x < 2 ^ 32" for x
    using that by (simp add: u64_def take_bit_int_eq_self)
  have s: "s64 (room st t) = room st t" "s32 (room st t) = room st t" "s32 amountb = amountb"
    using range assms(2,3) by (simp_all add: s32_def signed_take_bit_int_eq_self)
  define st' where "st' = (if get_curtime st t \<noteq> Curtime st then st\<lparr>Curcount := 0, Curtime := get_curtime st t\<rparr> else st)"
  have st': "Curcount st' = Bytes_per_unit_limit st - room st t" "Bytes_per_unit_limit st' = Bytes_per_unit_limit st"
    "Curtime st' = get_curtime st t"
    by (simp_all add: st'_def room_def)
  have eq: "st'\<lparr>Curcount := c\<rparr> = st\<lparr>Curtime := get_curtime st t, Curcount := c\<rparr>" for c
    by (simp add: st'_def)
  have "sipthrottle t amountb st = (if u64 (room st t) < amountb
      then (s32 (room st t), st'\<lparr>Curcount := u64 (Curcount st' + room st t)\<rparr>)
      else (s32 amountb, st'\<lparr>Curcount := u64 (Curcount st' + amountb)\<rparr>))"
    unfolding sipthrottle_def Let_def st'_def [symmetric] using s(1) st' by simp
  also have "\<dots> = (if room st t < amountb then (room st t, st'\<lparr>Curcount := Bytes_per_unit_limit st\<rparr>)
      else (amountb, st'\<lparr>Curcount := Bytes_per_unit_limit st - room st t + amountb\<rparr>))"
    using s range st'(1) assms(2) u [of "room st t"] u [of "Bytes_per_unit_limit st"]
      u [of "Bytes_per_unit_limit st - room st t + amountb"] by simp
  finally show ?thesis
    by (auto simp: eq min_def)
qed

lemma throttle_ok_step:
  assumes "throttle_ok st" "0 \<le> amountb" "amountb < 2 ^ 31" "sipthrottle t amountb st = (g, st')"
  shows "throttle_ok st' \<and> 0 \<le> g \<and> g \<le> amountb \<and> Bytes_per_unit_limit st' = Bytes_per_unit_limit st \<and>
    Startsec st' = Startsec st \<and> Fracsec st' = Fracsec st"
proof -
  have "0 \<le> room st t" "room st t \<le> Bytes_per_unit_limit st"
    using assms(1) by (auto simp: room_def throttle_ok_def)
  then show ?thesis
    using assms by (auto simp: sipthrottle_grants throttle_ok_def)
qed

text \<open>A run of requests: for each one the time unit and what was granted.\<close>

primrec throttle_run :: "((int \<times> int) \<times> int) list \<Rightarrow> throttle \<Rightarrow> (int \<times> int) list" where
  "throttle_run [] st = []"
| "throttle_run (r # rs) st =
     (let (g, st') = sipthrottle (fst r) (snd r) st in (get_curtime st (fst r), g) # throttle_run rs st')"

definition granted_in :: "int \<Rightarrow> (int \<times> int) list \<Rightarrow> int" where
  "granted_in u gs = (\<Sum>(u', g)\<leftarrow>gs. if u' = u then g else 0)"

lemma granted_in_simps [simp]:
  "granted_in u [] = 0" "granted_in u ((u', g) # gs) = (if u' = u then g else 0) + granted_in u gs"
  by (simp_all add: granted_in_def)

lemma throttle_run_limit:
  assumes "throttle_ok st" "\<forall>(t, a)\<in>set rs. 0 \<le> a \<and> a < 2 ^ 31"
    and "sorted (map (\<lambda>(t, a). get_curtime st t) rs)" "\<forall>(t, a)\<in>set rs. Curtime st \<le> get_curtime st t"
  shows "granted_in u (throttle_run rs st) \<le>
    (if u = Curtime st then Bytes_per_unit_limit st - Curcount st else if u < Curtime st then 0 else Bytes_per_unit_limit st)"
  using assms
proof (induction rs arbitrary: st)
  case Nil
  then show ?case by (simp add: throttle_ok_def)
next
  case (Cons r rs)
  obtain t a where r: "r = (t, a)"
    by (cases r)
  obtain g st' where g: "sipthrottle t a st = (g, st')"
    by (cases "sipthrottle t a st")
  have a: "0 \<le> a" "a < 2 ^ 31"
    using Cons.prems(2) r by auto
  note ok = throttle_ok_step [OF Cons.prems(1) a g]
  have cong: "get_curtime st' x = get_curtime st x" for x
    using ok by (simp add: get_curtime_def)
  have st': "Curtime st' = get_curtime st t" "g = min a (room st t)" "Curcount st' = Bytes_per_unit_limit st - room st t + g"
    using sipthrottle_grants [OF Cons.prems(1) a, of t] g by auto
  have "granted_in u (throttle_run rs st') \<le>
    (if u = Curtime st' then Bytes_per_unit_limit st' - Curcount st' else if u < Curtime st' then 0 else Bytes_per_unit_limit st')"
    using Cons.prems(2-4) ok by (intro Cons.IH) (auto simp: cong st'(1) r)
  moreover have "Curtime st \<le> Curtime st'"
    using Cons.prems(4) r st'(1) by simp
  moreover have "0 \<le> Curcount st" "Curcount st \<le> Bytes_per_unit_limit st"
    using Cons.prems(1) by (simp_all add: throttle_ok_def)
  ultimately show ?case
    using st' ok g r by (auto simp: room_def split: if_splits)
qed

section \<open>The loop ends\<close>

definition dones :: "write_outcome list \<Rightarrow> nat" where
  "dones ws = length (filter (\<lambda>w. w = Write_done) ws)"

lemma try_write_done:
  "Write_failed \<notin> set ws \<Longrightarrow> 0 < dones ws \<Longrightarrow>
    \<exists>ws'. try_write ws = Some (True, ws') \<and> Write_failed \<notin> set ws' \<and> dones ws = Suc (dones ws')"
proof (induction ws)
  case (Cons w ws)
  then show ?case
    by (cases w) (simp_all add: dones_def)
qed (simp add: dones_def)

lemma sipthrottle_full:
  assumes "throttle_ok st" "0 < Bytes_per_unit_limit st" "0 \<le> amountb" "amountb < 2 ^ 31" "room st t = 0"
  shows "sipthrottle t amountb st = (0, st)"
proof -
  have "get_curtime st t = Curtime st" "Curcount st = Bytes_per_unit_limit st"
    using assms(2,5) by (auto simp: room_def split: if_splits)
  then show ?thesis
    using assms by (simp add: sipthrottle_grants)
qed

lemma highrate_loop_waits:
  assumes "throttle_ok st" "0 < Bytes_per_unit_limit st" "int (length p) < 2 ^ 31" "\<forall>t\<in>set ts. room st t = 0"
  shows "highrate_loop (ts @ ts') ws p st = highrate_loop ts' ws p st"
proof -
  have full: "sipthrottle t (int (length p)) st = (0, st)" if "room st t = 0" for t
    by (rule sipthrottle_full [OF assms(1,2) _ assms(3) that]) simp
  show ?thesis
    using assms(4) by (induction ts) (simp_all add: full)
qed

lemma highrate_loop_piece:
  assumes "throttle_ok st" "p \<noteq> []" "int (length p) < 2 ^ 31" "0 < room st t" "Write_failed \<notin> set ws" "0 < dones ws"
  shows "\<exists>g st' ws'. 0 < g \<and> int g \<le> Bytes_per_unit_limit st \<and> g \<le> length p \<and> throttle_ok st' \<and>
    Bytes_per_unit_limit st' = Bytes_per_unit_limit st \<and> (\<forall>t. get_curtime st' t = get_curtime st t) \<and>
    Write_failed \<notin> set ws' \<and> dones ws = Suc (dones ws') \<and>
    (\<forall>ts. highrate_loop (t # ts) ws p st =
      (if drop g p = [] then Some (0, [take g p], st')
       else map_option (\<lambda>(retval, out, st). (retval, take g p # out, st)) (highrate_loop ts ws' (drop g p) st')))"
proof -
  obtain g st' where g: "sipthrottle t (int (length p)) st = (g, st')"
    by (cases "sipthrottle t (int (length p)) st")
  note ok = throttle_ok_step [OF assms(1) _ assms(3) g]
  have "g = min (int (length p)) (room st t)"
    using sipthrottle_grants [OF assms(1) _ assms(3), of t] g by simp
  then have pos: "0 < g" "g \<le> int (length p)" "g \<le> Bytes_per_unit_limit st"
    using assms(1,2,4) by (auto simp: room_def throttle_ok_def split: if_splits)
  obtain ws' where ws': "try_write ws = Some (True, ws')" "Write_failed \<notin> set ws'" "dones ws = Suc (dones ws')"
    using try_write_done [OF assms(5,6)] by blast
  show ?thesis
    by (rule exI [of _ "nat g"], rule exI [of _ st'], rule exI [of _ ws'])
      (use g ok pos ws' in \<open>simp add: get_curtime_def nat_le_iff\<close>)
qed

lemma highrate_loop_finishes:
  assumes "throttle_ok st" "0 < Bytes_per_unit_limit st" "p \<noteq> []" "int (length p) < 2 ^ 31"
    and "\<And>m u. \<exists>n\<ge>m. get_curtime st (c n) \<noteq> u" "Write_failed \<notin> set ws" "length p \<le> dones ws"
  shows "\<exists>N out st'. (\<forall>ts. highrate_loop (map c [0..<N] @ ts) ws p st = Some (0, out, st')) \<and> concat out = p \<and>
    (\<forall>piece\<in>set out. int (length piece) \<le> Bytes_per_unit_limit st)"
  using assms
proof (induction "length p" arbitrary: p st ws c rule: less_induct)
  case less
  obtain n0 where "get_curtime st (c n0) \<noteq> Curtime st"
    using less.prems(5) by blast
  then have "room st (c n0) \<noteq> 0"
    using less.prems(2) by (simp add: room_def)
  define n where "n = (LEAST n. room st (c n) \<noteq> 0)"
  have n: "room st (c n) \<noteq> 0" "\<And>j. j < n \<Longrightarrow> room st (c j) = 0"
    unfolding n_def using LeastI [of "\<lambda>n. room st (c n) \<noteq> 0", OF \<open>room st (c n0) \<noteq> 0\<close>] not_less_Least by blast+
  have "0 \<le> room st (c n)"
    using less.prems(1) by (auto simp: room_def throttle_ok_def)
  with n(1) have "0 < room st (c n)"
    by simp
  moreover have "0 < dones ws"
    using less.prems(3,7) by (cases p) simp_all
  ultimately obtain g st1 ws1 where g: "0 < g" "int g \<le> Bytes_per_unit_limit st" "g \<le> length p"
    and st1: "throttle_ok st1" "Bytes_per_unit_limit st1 = Bytes_per_unit_limit st" "\<forall>t. get_curtime st1 t = get_curtime st t"
    and ws1: "Write_failed \<notin> set ws1" "dones ws = Suc (dones ws1)"
    and loop: "\<forall>ts. highrate_loop (c n # ts) ws p st =
      (if drop g p = [] then Some (0, [take g p], st1)
       else map_option (\<lambda>(retval, out, st). (retval, take g p # out, st)) (highrate_loop ts ws1 (drop g p) st1))"
    using highrate_loop_piece [OF less.prems(1,3,4) _ less.prems(6), of "c n"] by blast
  have wait: "highrate_loop (map c [0..<n] @ ts) ws p st = highrate_loop ts ws p st" for ts
    by (rule highrate_loop_waits [OF less.prems(1,2,4)]) (auto simp: n(2))
  show ?case
  proof (cases "drop g p = []")
    case True
    then have p: "take g p = p"
      by simp
    have "\<forall>ts. highrate_loop (map c [0..<Suc n] @ ts) ws p st = Some (0, [p], st1)"
      using loop wait True p by simp
    then show ?thesis
      using g True by (intro exI [of _ "Suc n"] exI [of _ "[p]"] exI [of _ st1]) simp
  next
    case False
    let ?c = "\<lambda>i. c (Suc n + i)"
    have clock: "\<exists>j\<ge>m. get_curtime st1 (?c j) \<noteq> u" for m u
    proof -
      obtain j where "j \<ge> Suc n + m" "get_curtime st (c j) \<noteq> u"
        using less.prems(5) by blast
      moreover from this have "get_curtime st1 (c j) \<noteq> u"
        using st1(3) by metis
      ultimately show ?thesis
        by (intro exI [of _ "j - Suc n"]) simp
    qed
    have "\<exists>N out st'. (\<forall>ts. highrate_loop (map ?c [0..<N] @ ts) ws1 (drop g p) st1 = Some (0, out, st')) \<and>
        concat out = drop g p \<and> (\<forall>piece\<in>set out. int (length piece) \<le> Bytes_per_unit_limit st1)"
      by (rule less.hyps [OF _ st1(1) _ False _ clock ws1(1)]) (use g st1(2) ws1(2) less.prems(2-4,7) in auto)
    then obtain N out st' where rest: "\<forall>ts. highrate_loop (map ?c [0..<N] @ ts) ws1 (drop g p) st1 = Some (0, out, st')"
      "concat out = drop g p" "\<forall>piece\<in>set out. int (length piece) \<le> Bytes_per_unit_limit st1"
      by blast
    have "map c [0..<Suc n + N] = map c [0..<n] @ c n # map ?c [0..<N]"
    proof -
      have "map c [0..<Suc n + N] = map c [0..<Suc n] @ map c [Suc n..<Suc n + N]"
        using upt_add_eq_append [of 0 "Suc n" N] by (simp del: upt_Suc)
      moreover have "map c [Suc n..<Suc n + N] = map ?c [0..<N]"
        by (rule nth_equalityI) (simp_all del: upt_Suc)
      ultimately show ?thesis by simp
    qed
    then have "\<forall>ts. highrate_loop (map c [0..<Suc n + N] @ ts) ws p st = Some (0, take g p # out, st')"
      using loop wait False rest(1) by simp
    moreover have "concat (take g p # out) = p"
      using rest(2) by simp
    moreover have "\<forall>piece\<in>set (take g p # out). int (length piece) \<le> Bytes_per_unit_limit st"
      using rest(3) g st1(2) by simp
    ultimately show ?thesis
      by blast
  qed
qed

section \<open>Properties\<close>



text \<open>
  C30. The static buffers are large enough: after any calls for which memory was found, wrapping
  \<open>n\<close> bytes stays inside the buffer, and the reported length is right for fewer than 32740 bytes
  (it is a \<open>short\<close>).
\<close>

theorem wrapped_buffer_fits:
  assumes "wrap_reachable lsz xtype datasource st" "n \<le> length buf" "lsz \<le> 8" "0 < n"
  shows "\<exists>r st' cnts'. wrap_buffer lsz xtype datasource True buf (int n) st cnts = Some (r, st', cnts') \<and>
    wr_bytes r = Some (fst (telemwrap lsz buf (int n) xtype datasource cnts)) \<and>
    (n < 32740 \<longrightarrow> wr_wrapbytes r = int (length (fst (telemwrap lsz buf (int n) xtype datasource cnts))))"
proof -
  have "n mod 2 \<le> 1"
    by simp
  then have "s16 (int (n + n mod 2 + 16 + lsz)) = int (n + n mod 2 + 16 + lsz)" if "n < 32740"
    using that assms(3) by (intro s16_id) (simp add: is_s16_def)
  then show ?thesis
    using wrap_buffer_fits [OF wrap_reachable_inv [OF assms(1)] assms(2-4), of xtype datasource cnts]
      length_telemwrap [OF assms(2), of lsz xtype datasource cnts] by auto
qed

theorem wrapped_buffer_fits_witness:
  "\<exists>r st' cnts'. openport_wrap_buffer 8 True [5, 6, 7] 3 wrap_start [1, 1, 1, 1] = Some (r, st', cnts') \<and> wr_wrapbytes r = 28"
  using wrapped_buffer_fits [OF wrap_reachable.start, of 3 "[5, 6, 7]" 8 3 1 "[1, 1, 1, 1]"]
    length_telemwrap [of 3 "[5, 6, 7]" 8 3 1 "[1, 1, 1, 1]"]
  by (auto simp: openport_wrap_buffer_def)

text \<open>
  After \<open>realloc\<close> failed once, the next call with no more bytes writes through the null
  pointer: the size was recorded before the memory was asked for.
\<close>

theorem null_buffer_after_failure:
  assumes "nbytes_plus st < n + 128" "0 < k" "k \<le> n"
  shows "\<exists>r st' cnts'. wrap_buffer lsz xtype datasource False buf n st cnts = Some (r, st', cnts') \<and> wr_wrapbytes r = -1 \<and>
    wrap_buffer lsz xtype datasource True buf' k st' cnts'' = None"
  using assms by (simp add: wrap_buffer_def grow_def wrap_into_def Let_def split_def)

theorem null_buffer_after_failure_witness:
  "\<exists>r st' cnts'. wrap_buffer 4 2 0 False [1] 1 wrap_start [1, 1, 1, 1] = Some (r, st', cnts') \<and> wr_wrapbytes r = -1 \<and>
    wrap_buffer 4 2 0 True [1] 1 st' [1, 1, 1, 1] = None"
  by (rule null_buffer_after_failure) (simp_all add: wrap_start_def)

text \<open>
  C26. The throttle keeps the rate: for requests at times that do not run backwards, what is granted
  in one unit of time is at most the limit, and less by what was used before in the current unit.
\<close>

theorem throttle_keeps_rate:
  assumes "throttle_ok st" "\<forall>(t, a)\<in>set rs. 0 \<le> a \<and> a < 2 ^ 31"
    and "sorted (map (\<lambda>(t, a). get_curtime st t) rs)" "\<forall>(t, a)\<in>set rs. Curtime st \<le> get_curtime st t"
  shows "granted_in u (throttle_run rs st) \<le>
    (if u = Curtime st then Bytes_per_unit_limit st - Curcount st else if u < Curtime st then 0 else Bytes_per_unit_limit st)"
  by (rule throttle_run_limit [OF assms])

theorem throttle_keeps_rate_witness:
  "granted_in 0 (throttle_run [((0, 10), 500), ((0, 20), 500), ((0, 30), 1)] throttle_start) \<le> 750"
  using throttle_keeps_rate [of throttle_start "[((0, 10), 500), ((0, 20), 500), ((0, 30), 1)]" 0]
  by (simp add: throttle_start_def throttle_ok_def get_curtime_def u64_def c_trunc_def floor_eq_iff
      take_bit_int_eq_self)



text \<open>
  The frames of \<open>sipcom_slowrate_write\<close>: up to 248 bytes are sent behind a header with the
  line's identifier and a sequence number that every call takes from the line's counter, the failed
  ones included.
\<close>

lemma slowrate_frame:
  assumes "unat n \<le> 248" "comm = 0 \<or> comm = 1" "sipcom_slowrate_write s line comm (Some buf) n = (ret, out, s')"
  shows "(ret = 0 \<longrightarrow> out = [0x10, 0x53, n + 3, if comm = 0 then 0xc1 else 0xc2, if comm = 0 then c1_bufseq s else c2_bufseq s, n] @
      take (unat n) buf @ [0x03]) \<and>
    (c1_bufseq s', c2_bufseq s') = (if comm = 0 then (c1_bufseq s + 1, c2_bufseq s) else (c1_bufseq s, c2_bufseq s + 1))"
  using assms by (auto simp: sipcom_slowrate_write_def framed_write_def Let_def split: if_splits)

text \<open>
  When the limit was lowered below what the current unit already used, the comparison in
  \<open>unsigned long\<close> lets every request through.
\<close>

lemma throttle_lowered:
  assumes "get_curtime st t = Curtime st" "0 \<le> Bytes_per_unit_limit st" "Bytes_per_unit_limit st < Curcount st"
    and "Curcount st < 2 ^ 62" "0 \<le> amountb" "amountb < 2 ^ 31"
  shows "fst (sipthrottle t amountb st) = amountb"
proof -
  let ?d = "Bytes_per_unit_limit st - Curcount st"
  have "s64 ?d = ?d" "s32 amountb = amountb"
    using assms by (simp_all add: s32_def signed_take_bit_int_eq_self)
  moreover have "u64 ?d = ?d + 2 ^ 64"
  proof -
    have "(?d + 2 ^ 64) mod 2 ^ 64 = ?d + 2 ^ 64"
      using assms(2-4) by (intro mod_pos_pos_trivial) simp_all
    then show ?thesis
      by (simp only: u64_def take_bit_eq_mod mod_add_self2)
  qed
  ultimately show ?thesis
    using assms by (simp add: sipthrottle_def Let_def)
qed

end
