(* ===== verification/Key_Value.thy ===== *)
theory Key_Value
  imports C_Text
begin

text \<open>
  The key/value store \<open>src/common/kvpLib/keyValuePair.c\<close>: a table of at most 1000 keys, each with a
  type, a number of elements and the text of its value. \<open>kvpParse\<close> adds the pairs of a record
  \<open>key#I3=1,2,3;\<close>, \<open>kvpFormat\<close> writes them back. The texts are values, the buffer that holds them
  in C appears with its size and the space left. \<open>None\<close> is an access behind the end of a text.
\<close>

section \<open>State\<close>

datatype KvpErrorCode =
  KVP_E_OK | KVP_E_DUPLICATE | KVP_E_NOTFOUND | KVP_E_SYSTEM | KVP_E_BADKEY | KVP_E_BADVALUE | KVP_E_TOOMANY
  | KVP_E_TOOLONG | KVP_E_BADTYPE | KVP_E_BADINPUT | KVP_E_WRONGCOUNT | KVP_E_TRUNCATE | KVP_E_ILLNUMBER
  | KVP_E_TERMINATOR

datatype KeyType = KT_STRING | KT_FLOAT | KT_INT | KT_UINT | KT_INVALID

definition MAXKEYS :: nat where "MAXKEYS = 1000"
definition KVP_MIN_BUFFER_SIZE :: int where "KVP_MIN_BUFFER_SIZE = 20480"
definition MAX_INT_LENGTH :: int where "MAX_INT_LENGTH = 12"
definition MAX_FLOAT_LENGTH :: int where "MAX_FLOAT_LENGTH = 14"

record kvp_entry =
  keyPtr :: string
  valPtr :: string
  valType :: KeyType
  nelements :: int

text \<open>
  The first \<open>nkeys\<close> elements of the four arrays are \<open>entries\<close>; of the elements behind them only the
  type matters, because \<open>kvpParse\<close> leaves it alone for an unknown type character.
\<close>

record kvp =
  entries :: "kvp_entry list"
  staleTypes :: "nat \<Rightarrow> KeyType"
  kvpAllocated :: bool
  kvpBufferSize :: int
  spaceLeft :: int
  lastError :: KvpErrorCode
  dangling :: bool

definition nkeys :: "kvp \<Rightarrow> nat" where
  "nkeys k = length (entries k)"

definition kvp_start :: kvp where
  "kvp_start = \<lparr>entries = [], staleTypes = (\<lambda>_. KT_STRING), kvpAllocated = False, kvpBufferSize = 0, spaceLeft = 0,
     lastError = KVP_E_OK, dangling = False\<rparr>"

definition kvpReset :: "kvp \<Rightarrow> kvp" where
  "kvpReset k = k\<lparr>entries := [], kvpAllocated := False, spaceLeft := 0, dangling := False,
     staleTypes := (\<lambda>i. if i < nkeys k then valType (entries k ! i) else staleTypes k i)\<rparr>"

definition kvpInit :: "int \<Rightarrow> kvp \<Rightarrow> kvp" where
  "kvpInit bufferSize k =
     (let n = (if bufferSize > KVP_MIN_BUFFER_SIZE then bufferSize else KVP_MIN_BUFFER_SIZE) in
      k\<lparr>kvpAllocated := True, kvpBufferSize := n, spaceLeft := n\<rparr>)"

definition used_space :: "kvp_entry list \<Rightarrow> int" where
  "used_space es = (\<Sum>e\<leftarrow>es. int (length (keyPtr e)) + 1 + (int (length (valPtr e)) + 1))"

definition kvpRealloc :: "int \<Rightarrow> kvp \<Rightarrow> kvp" where
  "kvpRealloc minExtension k =
     (let newSize = kvpBufferSize k + (if minExtension < KVP_MIN_BUFFER_SIZE then KVP_MIN_BUFFER_SIZE else minExtension) in
      k\<lparr>kvpAllocated := True, kvpBufferSize := newSize, spaceLeft := newSize - used_space (entries k)\<rparr>)"

definition kvpError :: "kvp \<Rightarrow> KvpErrorCode" where
  "kvpError k = lastError k"

text \<open>The last entry whose key is the given one without surrounding white space.\<close>

definition kvpFindKey :: "string \<Rightarrow> kvp \<Rightarrow> nat option" where
  "kvpFindKey key k =
     (case filter (\<lambda>i. keyPtr (entries k ! i) = c_trim key) [0..<nkeys k] of [] \<Rightarrow> None | is \<Rightarrow> Some (last is))"

section \<open>Validation of values\<close>

record scan_state =
  inNumber :: bool
  hexCandidate :: nat
  octalCandidate :: bool
  decimalPoint :: bool
  exponent :: bool
  scanned :: nat

definition scan_start :: scan_state where
  "scan_start = \<lparr>inNumber = False, hexCandidate = 0, octalCandidate = False, decimalPoint = False, exponent = False,
     scanned = 0\<rparr>"

definition scan_digit :: "KeyType \<Rightarrow> char \<Rightarrow> scan_state \<Rightarrow> scan_state option" where
  "scan_digit ty c s =
     (if \<not> inNumber s then
        Some (s\<lparr>inNumber := True, hexCandidate := (if c = CHR ''0'' \<and> ty = KT_INT then 1 else 0), scanned := scanned s + 1\<rparr>)
      else if hexCandidate s = 1 then
        if (of_char c :: nat) > 55 then None else Some (s\<lparr>hexCandidate := 0, octalCandidate := True\<rparr>)
      else Some s)"

definition scan_other :: "KeyType \<Rightarrow> char \<Rightarrow> scan_state \<Rightarrow> scan_state option" where
  "scan_other ty c s =
     (if hexCandidate s = 1 \<and> c_tolower c = CHR ''x'' then Some (s\<lparr>hexCandidate := 2\<rparr>)
      else if c = CHR ''+'' \<or> c = CHR ''-'' then
        if inNumber s then if exponent s then Some s else None
        else Some (s\<lparr>inNumber := True, scanned := scanned s + 1\<rparr>)
      else if ty = KT_FLOAT \<and> c = CHR ''.'' then if decimalPoint s then None else Some (s\<lparr>decimalPoint := True\<rparr>)
      else if ty = KT_FLOAT \<and> c_tolower c = CHR ''e'' then if exponent s then None else Some (s\<lparr>exponent := True\<rparr>)
      else if c = CHR '' '' \<or> c = CHR 0x09 \<or> c = CHR '','' then
        Some (s\<lparr>inNumber := False, hexCandidate := 0, octalCandidate := False, decimalPoint := False, exponent := False\<rparr>)
      else None)"

definition scan_char :: "KeyType \<Rightarrow> char \<Rightarrow> scan_state \<Rightarrow> scan_state option" where
  "scan_char ty c s =
     (if ty = KT_STRING then Some (s\<lparr>scanned := scanned s + 1\<rparr>)
      else if hexCandidate s \<noteq> 2 \<and> octalCandidate s \<and> (of_char c :: nat) > 55 then None
      else if (if hexCandidate s = 2 then c_isxdigit c else is_digit c) then scan_digit ty c s
      else scan_other ty c s)"

fun scan_chars :: "KeyType \<Rightarrow> string \<Rightarrow> scan_state \<Rightarrow> scan_state option" where
  "scan_chars ty [] s = Some s"
| "scan_chars ty (c # cs) s = (case scan_char ty c s of None \<Rightarrow> None | Some s' \<Rightarrow> scan_chars ty cs s')"

text \<open>The number of elements, \<open>None\<close> for a character that does not belong to a number.\<close>

definition validateValue :: "string \<Rightarrow> KeyType \<Rightarrow> int option" where
  "validateValue value ty = map_option (\<lambda>s. int (scanned s)) (scan_chars ty value scan_start)"

section \<open>Parsing\<close>

definition invalidate_key :: "string \<Rightarrow> kvp \<Rightarrow> kvp" where
  "invalidate_key key k =
     (case kvpFindKey key k of None \<Rightarrow> k
      | Some i \<Rightarrow> k\<lparr>entries := (entries k)[i := (entries k ! i)\<lparr>valType := KT_INVALID\<rparr>]\<rparr>)"

definition type_of_char :: "char \<Rightarrow> KeyType \<Rightarrow> KeyType" where
  "type_of_char c old =
     (if c = CHR ''I'' then KT_INT else if c = CHR ''F'' then KT_FLOAT else if c = CHR ''S'' then KT_STRING else old)"

definition set_stale :: "KeyType \<Rightarrow> kvp \<Rightarrow> kvp" where
  "set_stale ty k = k\<lparr>staleTypes := (staleTypes k)(nkeys k := ty)\<rparr>"

text \<open>
  The value behind \<open>=\<close>: its text up to the semicolon (all of it, with an error noted, when there
  is none) and the text behind. \<open>nel\<close> is the number of elements that the record gives, 0 for none.
\<close>

definition parse_value :: "string \<Rightarrow> int \<Rightarrow> string \<Rightarrow> kvp \<Rightarrow> (kvp \<times> string option) + kvp" where
  "parse_value key nel s k =
     (let (value, rest, k) = (case c_strchr CHR '';'' s of
            None \<Rightarrow> (s, None, k\<lparr>lastError := KVP_E_TERMINATOR\<rparr>)
          | Some (value, rest) \<Rightarrow> (value, Some rest, k));
          ty = staleTypes k (nkeys k)
      in case validateValue value ty of
           None \<Rightarrow> Inr (k\<lparr>lastError := KVP_E_ILLNUMBER\<rparr>)
         | Some n \<Rightarrow>
             if nel \<noteq> 0 \<and> nel \<noteq> n then Inr (k\<lparr>lastError := KVP_E_WRONGCOUNT\<rparr>)
             else Inl (k\<lparr>entries := entries k @ [\<lparr>keyPtr = key, valPtr = value, valType = ty, nelements = n\<rparr>]\<rparr>, rest))"

text \<open>
  The text behind the \<open>#\<close>: the type character and the length. \<open>stripSpaces\<close> of a key of blanks
  overwrites the type character with the terminator.
\<close>

definition parse_pair :: "string \<Rightarrow> string \<Rightarrow> kvp \<Rightarrow> ((kvp \<times> string option) + kvp) option" where
  "parse_pair key r k =
     (case r of [] \<Rightarrow> None
      | t # r1 \<Rightarrow>
        let typeChar = (if key = [] then NUL else t);
            k = invalidate_key key k;
            k = set_stale (type_of_char typeChar (staleTypes k (nkeys k))) k;
            (nel, r2) = (if take 1 r1 = ''='' then (0, r1) else (s32 (fst (c_strtol 10 r1)), snd (c_strtol 10 r1)))
        in Some (case r2 of [] \<Rightarrow> Inr (k\<lparr>lastError := KVP_E_BADINPUT\<rparr>)
             | c # s \<Rightarrow> if c = CHR ''='' then parse_value key nel s k else Inr (k\<lparr>lastError := KVP_E_BADINPUT\<rparr>)))"

text \<open>The loop over the pairs: \<open>Inl extra\<close> is its normal end with the number of missing semicolons.\<close>

lemma c_strchr_length: "c_strchr c s = Some (a, b) \<Longrightarrow> length b < length s"
  by (induction c s arbitrary: a b rule: c_strchr.induct) (auto split: if_splits)

lemma c_strtol_length: "length (snd (c_strtol b s)) \<le> length s"
proof -
  have sign: "length (snd (scan_sign t)) \<le> length t" for t
    by (auto simp: scan_sign_def split: list.splits)
  have base: "length (snd (scan_base b t)) \<le> length t" for t
    by (auto simp: scan_base_def split: list.splits)
  have "length (snd (scan_base b (snd (scan_sign (dropWhile c_isspace s))))) \<le> length s"
    by (meson base sign length_dropWhile_le order_trans)
  then show ?thesis
    by (auto simp: c_strtol_def scan_number_def Let_def split: option.splits prod.splits if_splits)
qed

lemma parse_value_length: "parse_value key nel s k = Inl (k', Some rest) \<Longrightarrow> length rest < length s"
  using c_strchr_length
  by (auto simp: parse_value_def Let_def split: option.splits prod.splits if_splits)

lemma parse_pair_length: "parse_pair key r k = Some (Inl (k', Some rest)) \<Longrightarrow> length rest < length r"
proof -
  assume *: "parse_pair key r k = Some (Inl (k', Some rest))"
  then obtain t r1 where r: "r = t # r1"
    by (auto simp: parse_pair_def split: list.splits)
  then show ?thesis
    using * c_strtol_length [of 10 r1] parse_value_length
    by (fastforce simp: parse_pair_def Let_def split: list.splits if_splits)
qed

function parse_pairs :: "string \<Rightarrow> int \<Rightarrow> kvp \<Rightarrow> (int option \<times> kvp) option" where
  "parse_pairs s extra k =
     (case c_strchr CHR ''#'' s of
        None \<Rightarrow> Some (Some extra, k)
      | Some (key, r) \<Rightarrow>
          if MAXKEYS \<le> nkeys k then Some (None, k\<lparr>lastError := KVP_E_TOOMANY\<rparr>)
          else if take 2 (c_trim key) = ''//'' then Some (Some extra, k)
          else (case parse_pair (c_trim key) r k of
              None \<Rightarrow> None
            | Some (Inr k') \<Rightarrow> Some (None, k')
            | Some (Inl (k', None)) \<Rightarrow> Some (Some (extra + 1), k')
            | Some (Inl (k', Some rest)) \<Rightarrow> parse_pairs rest extra k'))"
  by pat_completeness auto
termination
  by (relation "measure (\<lambda>(s, _, _). length s)") (auto dest!: parse_pair_length c_strchr_length)

declare parse_pairs.simps [simp del]

text \<open>The buffer is allocated or extended for the record; the result \<open>None\<close> is -1.\<close>

definition parse_room :: "int \<Rightarrow> kvp \<Rightarrow> kvp" where
  "parse_room reclen k =
     (let k = (if kvpAllocated k then k else kvpInit reclen k) in if reclen > spaceLeft k then kvpRealloc reclen k else k)"

definition kvpParse :: "string \<Rightarrow> kvp \<Rightarrow> (nat option \<times> kvp) option" where
  "kvpParse record k =
     (let reclen = int (length record) + 1; n = nkeys k; k = parse_room reclen k in
      if dangling k then None
      else case parse_pairs (dropWhile c_isspace record) 0 k of
          None \<Rightarrow> None
        | Some (None, k) \<Rightarrow> Some (None, k\<lparr>dangling := n < nkeys k\<rparr>)
        | Some (Some extra, k) \<Rightarrow>
            Some (Some (nkeys k), k\<lparr>spaceLeft := spaceLeft k - (reclen + extra), lastError := KVP_E_OK\<rparr>))"

section \<open>Storing and updating\<close>

text \<open>The values that the storing functions take, and what they write.\<close>

datatype kvp_value = Int_values "int list" | UInt_values "int list" | Float_values "real list" | String_value string

fun value_type :: "kvp_value \<Rightarrow> KeyType" where
  "value_type (Int_values _) = KT_INT"
| "value_type (UInt_values _) = KT_UINT"
| "value_type (Float_values _) = KT_FLOAT"
| "value_type (String_value _) = KT_STRING"

fun value_space :: "kvp_value \<Rightarrow> int" where
  "value_space (Int_values is) = int (length is) * MAX_INT_LENGTH"
| "value_space (UInt_values is) = int (length is) * MAX_INT_LENGTH"
| "value_space (Float_values fs) = int (length fs) * MAX_FLOAT_LENGTH"
| "value_space (String_value s) = int (length s)"

fun commas :: "string list \<Rightarrow> string" where
  "commas [] = []"
| "commas [x] = x"
| "commas (x # xs) = x @ CHR '','' # commas xs"

text \<open>
  The text of a value written into \<open>space\<close> bytes. The space for numbers is never short (lemma
  \<open>value_text_fits\<close>). Nothing, not even the terminator, is written for no number or no space.
\<close>

fun value_text :: "int \<Rightarrow> kvp_value \<Rightarrow> string option" where
  "value_text n (Int_values is) = (if is = [] then None else Some (commas (map show_int is)))"
| "value_text n (UInt_values is) = (if is = [] then None else Some (commas (map show_hex is)))"
| "value_text n (Float_values fs) = (if fs = [] then None else Some (commas (map show_float fs)))"
| "value_text n (String_value s) = (if n \<le> 0 then None else Some (c_snprintf (nat n) s))"

fun value_count :: "kvp_value \<Rightarrow> nat" where
  "value_count (Int_values is) = length is"
| "value_count (UInt_values is) = length is"
| "value_count (Float_values fs) = length fs"
| "value_count (String_value s) = length s"

text \<open>The characters that the value moves \<open>spare\<close> by: for a string its length, truncated or not.\<close>

fun value_advance :: "kvp_value \<Rightarrow> string \<Rightarrow> int" where
  "value_advance (String_value s) _ = int (length s)"
| "value_advance _ text = int (length text)"

definition kvpUpdate :: "string \<Rightarrow> kvp_value \<Rightarrow> kvp \<Rightarrow> (KvpErrorCode \<times> kvp) option" where
  "kvpUpdate key v k =
     (case kvpFindKey key k of
        None \<Rightarrow> Some (KVP_E_NOTFOUND, k\<lparr>lastError := KVP_E_NOTFOUND\<rparr>)
      | Some entry \<Rightarrow>
          let ty = valType (entries k ! entry) in
          if ty \<noteq> value_type v \<and> \<not> (ty = KT_INT \<and> value_type v = KT_UINT) then
            Some (KVP_E_BADVALUE, k\<lparr>lastError := KVP_E_BADVALUE\<rparr>)
          else if dangling k then None
          else
            let k = (if spaceLeft k < value_space v then kvpRealloc (value_space v) k else k) in
            map_option (\<lambda>text.
                (KVP_E_OK, k\<lparr>entries := (entries k)[entry := (entries k ! entry)\<lparr>valPtr := text, nelements := int (value_count v)\<rparr>],
                   spaceLeft := spaceLeft k - (value_advance v text + 1), lastError := KVP_E_OK\<rparr>))
              (value_text (spaceLeft k) v))"

definition kvpSet :: "string \<Rightarrow> kvp_value \<Rightarrow> kvp \<Rightarrow> (KvpErrorCode \<times> kvp) option" where
  "kvpSet key v k0 =
     (let k = (if kvpAllocated k0 then k0 else kvpInit 0 k0) in
      if kvpFindKey key k \<noteq> None then Some (KVP_E_DUPLICATE, k\<lparr>lastError := KVP_E_DUPLICATE\<rparr>)
      else if MAXKEYS \<le> nkeys k then Some (KVP_E_TOOMANY, k\<lparr>lastError := KVP_E_TOOMANY\<rparr>)
      else if value_type v = KT_UINT then Some (KVP_E_BADTYPE, k\<lparr>lastError := KVP_E_BADTYPE\<rparr>)
      else if dangling k then None
      else
        let keyLength = int (length key) + 1; requiredSpace = keyLength + value_space v;
            k = (if spaceLeft k < requiredSpace then kvpRealloc requiredSpace k else k);
            valueSpace = spaceLeft k - keyLength
        in if (\<exists>c\<in>set key. c \<in> set ''=;,#'') then Some (KVP_E_BADKEY, k\<lparr>lastError := KVP_E_BADKEY\<rparr>)
           else map_option (\<lambda>text.
               (KVP_E_OK, set_stale (value_type v) k
                 \<lparr>entries := entries k @ [\<lparr>keyPtr = key, valPtr = text, valType = value_type v, nelements = int (value_count v)\<rparr>],
                  spaceLeft := spaceLeft k - (keyLength + value_advance v text + 1), lastError := KVP_E_OK\<rparr>))
             (value_text valueSpace v))"

definition kvpSetString :: "string \<Rightarrow> string \<Rightarrow> kvp \<Rightarrow> (KvpErrorCode \<times> kvp) option" where
  "kvpSetString key value = kvpSet key (String_value value)"

definition kvpSetInt :: "string \<Rightarrow> int \<Rightarrow> kvp \<Rightarrow> (KvpErrorCode \<times> kvp) option" where
  "kvpSetInt key value = kvpSet key (Int_values [value])"

definition kvpSetFloat :: "string \<Rightarrow> real \<Rightarrow> kvp \<Rightarrow> (KvpErrorCode \<times> kvp) option" where
  "kvpSetFloat key value = kvpSet key (Float_values [value])"

definition kvpSetIntArray :: "string \<Rightarrow> int list \<Rightarrow> kvp \<Rightarrow> (KvpErrorCode \<times> kvp) option" where
  "kvpSetIntArray key values = kvpSet key (Int_values values)"

definition kvpSetFloatArray :: "string \<Rightarrow> real list \<Rightarrow> kvp \<Rightarrow> (KvpErrorCode \<times> kvp) option" where
  "kvpSetFloatArray key values = kvpSet key (Float_values values)"

definition kvpUpdateInt :: "string \<Rightarrow> int \<Rightarrow> kvp \<Rightarrow> (KvpErrorCode \<times> kvp) option" where
  "kvpUpdateInt key value = kvpUpdate key (Int_values [value])"

definition kvpUpdateUnsignedInt :: "string \<Rightarrow> int \<Rightarrow> kvp \<Rightarrow> (KvpErrorCode \<times> kvp) option" where
  "kvpUpdateUnsignedInt key value = kvpUpdate key (UInt_values [value])"

definition kvpUpdateFloat :: "string \<Rightarrow> real \<Rightarrow> kvp \<Rightarrow> (KvpErrorCode \<times> kvp) option" where
  "kvpUpdateFloat key value = kvpUpdate key (Float_values [value])"

definition kvpUpdateString :: "string \<Rightarrow> string \<Rightarrow> kvp \<Rightarrow> (KvpErrorCode \<times> kvp) option" where
  "kvpUpdateString key value = kvpUpdate key (String_value value)"

definition kvpUpdateIntArray :: "string \<Rightarrow> int list \<Rightarrow> kvp \<Rightarrow> (KvpErrorCode \<times> kvp) option" where
  "kvpUpdateIntArray key values = kvpUpdate key (Int_values values)"

definition kvpUpdateUnsignedIntArray :: "string \<Rightarrow> int list \<Rightarrow> kvp \<Rightarrow> (KvpErrorCode \<times> kvp) option" where
  "kvpUpdateUnsignedIntArray key values = kvpUpdate key (UInt_values values)"

definition kvpUpdateFloatArray :: "string \<Rightarrow> real list \<Rightarrow> kvp \<Rightarrow> (KvpErrorCode \<times> kvp) option" where
  "kvpUpdateFloatArray key values = kvpUpdate key (Float_values values)"

section \<open>Lookup\<close>

definition kvpQueryLength :: "string \<Rightarrow> kvp \<Rightarrow> int \<times> kvp" where
  "kvpQueryLength key k =
     (case kvpFindKey key k of None \<Rightarrow> (0, k\<lparr>lastError := KVP_E_NOTFOUND\<rparr>)
      | Some i \<Rightarrow> (nelements (entries k ! i), k\<lparr>lastError := KVP_E_OK\<rparr>))"

definition kvpGetEntry :: "nat \<Rightarrow> kvp \<Rightarrow> kvp_entry option" where
  "kvpGetEntry entry k = (if entry < nkeys k then Some (entries k ! entry) else None)"

definition kvpGetString :: "string \<Rightarrow> kvp \<Rightarrow> string option \<times> kvp" where
  "kvpGetString key k =
     (case kvpFindKey key k of None \<Rightarrow> (None, k\<lparr>lastError := KVP_E_NOTFOUND\<rparr>)
      | Some i \<Rightarrow> (Some (valPtr (entries k ! i)), k\<lparr>lastError := KVP_E_OK\<rparr>))"

text \<open>
  A number through a conversion that returns it with the text behind it. No text consumed is a bad
  value.
\<close>

definition get_number :: "(string \<Rightarrow> 'a \<times> string) \<Rightarrow> string \<Rightarrow> 'a \<Rightarrow> kvp \<Rightarrow> 'a \<times> kvp" where
  "get_number conv key defaultValue k =
     (case kvpGetString key k of
        (None, k) \<Rightarrow> (defaultValue, k\<lparr>lastError := KVP_E_NOTFOUND\<rparr>)
      | (Some s, k) \<Rightarrow>
          if snd (conv s) \<noteq> s then (fst (conv s), k\<lparr>lastError := KVP_E_OK\<rparr>)
          else (defaultValue, k\<lparr>lastError := KVP_E_BADVALUE\<rparr>))"

definition kvpGetBase :: "string \<Rightarrow> int \<Rightarrow> nat \<Rightarrow> kvp \<Rightarrow> int \<times> kvp" where
  "kvpGetBase key defaultValue radix = get_number (\<lambda>s. apfst s32 (c_strtol radix s)) key defaultValue"

definition kvpGetHex :: "string \<Rightarrow> int \<Rightarrow> kvp \<Rightarrow> int \<times> kvp" where
  "kvpGetHex key d = kvpGetBase key d 16"

definition kvpGetDec :: "string \<Rightarrow> int \<Rightarrow> kvp \<Rightarrow> int \<times> kvp" where
  "kvpGetDec key d = kvpGetBase key d 10"

definition kvpGetInt :: "string \<Rightarrow> int \<Rightarrow> kvp \<Rightarrow> int \<times> kvp" where
  "kvpGetInt key d = kvpGetBase key d 0"

definition kvpGetUnsignedInt :: "string \<Rightarrow> int \<Rightarrow> kvp \<Rightarrow> int \<times> kvp" where
  "kvpGetUnsignedInt = get_number (\<lambda>s. apfst u32 (c_strtoul 0 s))"

definition kvpGetDouble :: "string \<Rightarrow> real \<Rightarrow> kvp \<Rightarrow> real \<times> kvp" where
  "kvpGetDouble = get_number c_strtod"

definition kvpGetFloat :: "string \<Rightarrow> real \<Rightarrow> kvp \<Rightarrow> real \<times> kvp" where
  "kvpGetFloat key defaultValue k = kvpGetDouble key defaultValue k"

text \<open>
  The loop of the array readers: \<open>n\<close> more elements from index \<open>i\<close>. The character behind each number
  is skipped, and behind the last it may be the terminator; a further number would be read behind
  the text, and an element behind the end of \<open>values\<close> would be written there.
\<close>

fun get_elements :: "(string \<Rightarrow> 'a \<times> string) \<Rightarrow> nat \<Rightarrow> nat \<Rightarrow> string option \<Rightarrow> 'a list \<Rightarrow> (bool \<times> 'a list) option" where
  "get_elements conv 0 i s values = Some (True, values)"
| "get_elements conv (Suc n) i s values =
     (case s of None \<Rightarrow> None
      | Some t \<Rightarrow>
          if length values \<le> i then None
          else let values = values[i := fst (conv t)]; rest = snd (conv t) in
            if rest = t then Some (False, values)
            else get_elements conv n (Suc i) (case rest of [] \<Rightarrow> None | _ # r \<Rightarrow> Some r) values)"

definition get_array :: "KeyType \<Rightarrow> (string \<Rightarrow> 'a \<times> string) \<Rightarrow> string \<Rightarrow> 'a list \<Rightarrow> int \<Rightarrow> kvp
    \<Rightarrow> (KvpErrorCode \<times> 'a list \<times> int \<times> kvp) option" where
  "get_array ty conv key values n k =
     (case kvpFindKey key k of
        None \<Rightarrow> Some (KVP_E_NOTFOUND, values, n, k\<lparr>lastError := KVP_E_NOTFOUND\<rparr>)
      | Some i \<Rightarrow>
          let e = entries k ! i in
          if valType e \<noteq> ty then Some (KVP_E_BADVALUE, values, n, k\<lparr>lastError := KVP_E_BADVALUE\<rparr>)
          else
            let n' = (if nelements e \<le> n then nelements e else n);
                err = (if nelements e \<le> n then KVP_E_OK else KVP_E_TRUNCATE)
            in map_option (\<lambda>(ok, values). let err = (if ok then err else KVP_E_BADVALUE) in
                   (err, values, n', k\<lparr>lastError := err\<rparr>))
                 (get_elements conv (nat n') 0 (Some (valPtr e)) values))"

definition kvpGetIntArray :: "string \<Rightarrow> int list \<Rightarrow> int \<Rightarrow> kvp \<Rightarrow> (KvpErrorCode \<times> int list \<times> int \<times> kvp) option" where
  "kvpGetIntArray = get_array KT_INT (\<lambda>s. apfst s32 (c_strtol 0 s))"

definition kvpGetFloatArray :: "string \<Rightarrow> real list \<Rightarrow> int \<Rightarrow> kvp \<Rightarrow> (KvpErrorCode \<times> real list \<times> int \<times> kvp) option" where
  "kvpGetFloatArray = get_array KT_FLOAT c_strtod"

text \<open>
  \<open>kvpGetStringArray\<close> copies character by character into \<open>values\<close>, rows of \<open>maxlen\<close> bytes. A value
  that is not a string leaves a null pointer to read from.
\<close>

fun copy_strings :: "string \<Rightarrow> nat \<Rightarrow> nat \<Rightarrow> nat \<Rightarrow> int \<Rightarrow> (nat \<Rightarrow> char) \<Rightarrow> KvpErrorCode \<times> nat \<times> (nat \<Rightarrow> char)" where
  "copy_strings [] element len maxlen n values =
     (let len' = len + 1 in
      (if len' = maxlen then KVP_E_TRUNCATE else KVP_E_OK, element, values(element * maxlen + len := NUL)))"
| "copy_strings (c # s) element len maxlen n values =
     (if c = CHR '','' then
        let values = values(element * maxlen + len := NUL); element = element + 1 in
        if int element = n then (KVP_E_TRUNCATE, element, values) else copy_strings s element 0 maxlen n values
      else
        let values = values(element * maxlen + len := c); len = len + 1 in
        if len = maxlen then (KVP_E_TRUNCATE, element, values) else copy_strings s element len maxlen n values)"

definition kvpGetStringArray :: "string \<Rightarrow> (nat \<Rightarrow> char) \<Rightarrow> nat \<Rightarrow> int \<Rightarrow> kvp
    \<Rightarrow> (KvpErrorCode \<times> (nat \<Rightarrow> char) \<times> int \<times> kvp) option" where
  "kvpGetStringArray key values maxlen n k =
     (case kvpFindKey key k of
        None \<Rightarrow> Some (KVP_E_NOTFOUND, values, n, k\<lparr>lastError := KVP_E_NOTFOUND\<rparr>)
      | Some i \<Rightarrow>
          if valType (entries k ! i) \<noteq> KT_STRING then None
          else let (err, element, values) = copy_strings (valPtr (entries k ! i)) 0 0 maxlen n values
               in Some (err, values, int element + 1, k\<lparr>lastError := err\<rparr>))"

section \<open>Writing\<close>

fun type_char :: "KeyType \<Rightarrow> char" where
  "type_char KT_INT = CHR ''I''"
| "type_char KT_FLOAT = CHR ''F''"
| "type_char _ = CHR ''S''"

definition format_entry :: "kvp_entry \<Rightarrow> string" where
  "format_entry e = keyPtr e @ CHR ''#'' # type_char (valType e) # show_int (nelements e) @ CHR ''='' # valPtr e @ '';''"

text \<open>
  The loop of \<open>kvpFormat\<close> with \<open>room\<close> bytes left in the buffer. A text that just misses its
  terminator is not noticed: its last character is the terminator and the length counts it.
\<close>

fun format_entries :: "kvp_entry list \<Rightarrow> int \<Rightarrow> string option" where
  "format_entries [] room = Some []"
| "format_entries (e # es) room =
     (if valType e = KT_INVALID then format_entries es room
      else let text = format_entry e @ (if es = [] then [] else [NEWLINE]); n = int (length text) in
        if room < n then None
        else map_option (\<lambda>r. (if n = room then butlast text @ [NUL] else text) @ r) (format_entries es (room - n)))"

definition kvpFormat :: "int \<Rightarrow> kvp \<Rightarrow> string option" where
  "kvpFormat bufferSize k = format_entries (entries k) bufferSize"

text \<open>\<open>kvpWrite\<close>: the text that is written to the stream, \<open>None\<close> for the result -1.\<close>

definition kvpWrite :: "kvp \<Rightarrow> string option" where
  "kvpWrite k = kvpFormat (kvpBufferSize k) k"

end
