(* ===== verification/Key_Value_Scan.thy ===== *)
theory Key_Value_Scan
  imports Key_Value
begin

text \<open>
  The validation of values in the key/value store accepts every value that the store prints, with
  one element for each number.
\<close>

section \<open>The scanner on printed values\<close>

lemma scan_chars_append:
  "scan_chars ty (a @ b) s = (case scan_chars ty a s of None \<Rightarrow> None | Some s' \<Rightarrow> scan_chars ty b s')"
  by (induction a arbitrary: s) (auto split: option.splits)

definition fresh_scan :: "scan_state \<Rightarrow> bool" where
  "fresh_scan s \<longleftrightarrow> \<not> inNumber s \<and> hexCandidate s = 0 \<and> \<not> octalCandidate s \<and> \<not> decimalPoint s \<and> \<not> exponent s"

definition plain_number :: "scan_state \<Rightarrow> bool" where
  "plain_number s \<longleftrightarrow> inNumber s \<and> hexCandidate s = 0 \<and> \<not> octalCandidate s"

lemma fresh_start [simp]: "fresh_scan scan_start"
  by (simp add: fresh_scan_def scan_start_def)

lemma scan_comma:
  "ty \<noteq> KT_STRING \<Longrightarrow> \<exists>s'. scan_char ty CHR '','' s = Some s' \<and> fresh_scan s' \<and> scanned s' = scanned s"
  by (auto simp: scan_char_def scan_other_def fresh_scan_def c_tolower_def c_isxdigit_def digit_of_def is_digit_def)

lemma scan_digits:
  "\<forall>c\<in>set ds. is_digit c \<Longrightarrow> ty \<noteq> KT_STRING \<Longrightarrow> plain_number s \<Longrightarrow> scan_chars ty ds s = Some s"
  by (induction ds) (auto simp: scan_char_def scan_digit_def plain_number_def)

lemma scan_xdigits:
  "\<forall>c\<in>set ds. c_isxdigit c \<Longrightarrow> ty \<noteq> KT_STRING \<Longrightarrow> inNumber s \<Longrightarrow> hexCandidate s = 2 \<Longrightarrow> scan_chars ty ds s = Some s"
  by (induction ds) (auto simp: scan_char_def scan_digit_def)

lemma digit_char_not_0: "0 < d \<Longrightarrow> d < 16 \<Longrightarrow> digit_char d \<noteq> CHR ''0''"
  using of_char_digit_char [of d] by (auto split: if_splits)

lemma show_uint_cases:
  obtains "show_uint n = ''0''" "n = 0"
  | d ds where "show_uint n = digit_char d # ds" "0 < d" "d < 10" "\<forall>c\<in>set ds. is_digit c"
proof (cases "n = 0")
  case True
  then show ?thesis
    using that(1) by (simp add: show_uint_def show_base_0)
next
  case False
  then obtain d ds where d: "show_base 10 n = digit_char d # ds" "0 < d" "d < 10"
    using show_base_head [of 10 n] by auto
  then have "\<forall>c\<in>set ds. is_digit c"
    using show_uint_digits [of n] by (auto simp: show_uint_def)
  with d that(2) show ?thesis
    by (auto simp: show_uint_def)
qed

lemma scan_show_uint:
  assumes "fresh_scan s" "ty \<noteq> KT_STRING"
  shows "\<exists>s'. scan_chars ty (show_uint n) s = Some s' \<and> scanned s' = scanned s + 1"
proof (cases n rule: show_uint_cases)
  case 1
  then show ?thesis
    using assms by (auto simp: scan_char_def scan_digit_def is_digit_def fresh_scan_def)
next
  case (2 d ds)
  let ?s = "s\<lparr>inNumber := True, hexCandidate := 0, scanned := scanned s + 1\<rparr>"
  have "scan_char ty (digit_char d) s = Some ?s"
    using assms 2 by (auto simp: scan_char_def scan_digit_def fresh_scan_def digit_char_props digit_char_not_0)
  moreover have "scan_chars ty ds ?s = Some ?s"
    using assms 2(4) by (intro scan_digits) (auto simp: plain_number_def fresh_scan_def)
  ultimately show ?thesis
    using 2 by simp
qed

lemma scan_show_int:
  assumes "fresh_scan s" "ty \<noteq> KT_STRING"
  shows "\<exists>s'. scan_chars ty (show_int i) s = Some s' \<and> scanned s' = scanned s + 1"
proof (cases "i < 0")
  case False
  then show ?thesis
    using scan_show_uint [OF assms] by (simp add: show_int_def)
next
  case True
  let ?s = "s\<lparr>inNumber := True, scanned := scanned s + 1\<rparr>"
  have "scan_char ty CHR ''-'' s = Some ?s"
    using assms by (simp add: scan_char_def scan_other_def fresh_scan_def is_digit_def c_tolower_def)
  moreover have "scan_chars ty (show_uint (nat (- i))) ?s = Some ?s"
    using assms show_uint_digits [of "nat (- i)"]
    by (intro scan_digits) (auto simp: plain_number_def fresh_scan_def)
  ultimately show ?thesis
    using True by (simp add: show_int_def)
qed

lemma scan_show_hex:
  assumes "fresh_scan s" "0 \<le> i"
  shows "\<exists>s'. scan_chars KT_INT (show_hex i) s = Some s' \<and> scanned s' = scanned s + 1"
proof (cases "i = 0")
  case True
  then show ?thesis
    using scan_show_uint [OF assms(1), of KT_INT 0] by (simp add: show_hex_def show_uint_def show_base_0)
next
  case False
  let ?s = "s\<lparr>inNumber := True, hexCandidate := 2, scanned := scanned s + 1\<rparr>"
  have "scan_chars KT_INT ''0x'' s = Some ?s"
    using assms by (simp add: scan_char_def scan_digit_def scan_other_def fresh_scan_def is_digit_def c_tolower_def)
  moreover have "scan_chars KT_INT (show_base 16 (nat i)) ?s = Some ?s"
    using show_base_digits [of 16 _ "nat i"]
    by (intro scan_xdigits) (force simp: c_isxdigit_def digit_char_props)+
  ultimately show ?thesis
    using False scan_chars_append [of KT_INT "''0x''" "show_base 16 (nat i)" s] by (simp add: show_hex_def)
qed

lemma commas_Cons: "xs \<noteq> [] \<Longrightarrow> commas (x # xs) = x @ CHR '','' # commas xs"
  by (cases xs) auto

lemma scan_commas:
  assumes "ty \<noteq> KT_STRING" "xs \<noteq> []" "fresh_scan s"
    and "\<And>s x. fresh_scan s \<Longrightarrow> x \<in> set xs \<Longrightarrow> \<exists>s'. scan_chars ty (p x) s = Some s' \<and> scanned s' = scanned s + 1"
  shows "\<exists>s'. scan_chars ty (commas (map p xs)) s = Some s' \<and> scanned s' = scanned s + length xs"
  using assms(2-4)
proof (induction xs arbitrary: s rule: list_nonempty_induct)
  case (single x)
  then show ?case by auto
next
  case (cons x xs)
  obtain s1 where s1: "scan_chars ty (p x) s = Some s1" "scanned s1 = scanned s + 1"
    using cons.prems by force
  obtain s2 where s2: "scan_char ty CHR '','' s1 = Some s2" "fresh_scan s2" "scanned s2 = scanned s1"
    using scan_comma [OF assms(1)] by blast
  obtain s3 where s3: "scan_chars ty (commas (map p xs)) s2 = Some s3" "scanned s3 = scanned s2 + length xs"
    using cons.IH [OF s2(2)] cons.prems by auto
  have "commas (map p (x # xs)) = p x @ CHR '','' # commas (map p xs)"
    using cons.hyps by (simp add: commas_Cons)
  with s1 s2 s3 show ?case
    by (simp add: scan_chars_append)
qed

text \<open>A printed \<open>float\<close>: digits, a point with digits, an exponent.\<close>

lemma set_strip_zeros: "set (strip_zeros s) \<subseteq> set s"
  by (auto simp: strip_zeros_def dest: set_dropWhileD)

lemma scan_first_digits:
  assumes "fresh_scan s" "ds \<noteq> []" "\<forall>c\<in>set ds. is_digit c"
  shows "\<exists>s'. scan_chars KT_FLOAT ds s = Some s' \<and> plain_number s' \<and> \<not> decimalPoint s' \<and> \<not> exponent s'
    \<and> scanned s' = scanned s + 1"
proof -
  obtain c cs where ds: "ds = c # cs"
    using assms(2) by (cases ds) auto
  let ?s = "s\<lparr>inNumber := True, hexCandidate := 0, scanned := scanned s + 1\<rparr>"
  have "scan_char KT_FLOAT c s = Some ?s"
    using assms ds by (auto simp: scan_char_def scan_digit_def fresh_scan_def)
  moreover have "scan_chars KT_FLOAT cs ?s = Some ?s"
    using assms ds by (intro scan_digits) (auto simp: plain_number_def fresh_scan_def)
  ultimately show ?thesis
    using assms ds by (auto simp: plain_number_def fresh_scan_def)
qed

lemma scan_with_fraction:
  assumes "fresh_scan s" "ip \<noteq> []" "\<forall>c\<in>set ip. is_digit c" "\<forall>c\<in>set fp. is_digit c"
  shows "\<exists>s'. scan_chars KT_FLOAT (with_fraction ip fp) s = Some s' \<and> plain_number s' \<and> \<not> exponent s'
    \<and> scanned s' = scanned s + 1"
proof -
  let ?f = "strip_zeros fp"
  obtain s1 where s1: "scan_chars KT_FLOAT ip s = Some s1" "plain_number s1" "\<not> decimalPoint s1" "\<not> exponent s1"
      "scanned s1 = scanned s + 1"
    using scan_first_digits [OF assms(1-3)] by blast
  have "scan_char KT_FLOAT CHR ''.'' s1 = Some (s1\<lparr>decimalPoint := True\<rparr>)"
    using s1 by (simp add: scan_char_def scan_other_def plain_number_def is_digit_def c_tolower_def)
  moreover have "scan_chars KT_FLOAT ?f (s1\<lparr>decimalPoint := True\<rparr>) = Some (s1\<lparr>decimalPoint := True\<rparr>)"
    using assms(4) set_strip_zeros [of fp] s1 by (intro scan_digits) (auto simp: plain_number_def)
  ultimately show ?thesis
    using s1 by (auto simp: with_fraction_def Let_def scan_chars_append plain_number_def)
qed

lemma scan_exponent_text:
  assumes "plain_number s" "\<not> exponent s" "\<forall>c\<in>set ds. is_digit c" "sg = CHR ''-'' \<or> sg = CHR ''+''"
  shows "\<exists>s'. scan_chars KT_FLOAT (CHR ''e'' # sg # ds) s = Some s' \<and> scanned s' = scanned s"
proof -
  let ?s = "s\<lparr>exponent := True\<rparr>"
  have "scan_char KT_FLOAT CHR ''e'' s = Some ?s" "scan_char KT_FLOAT sg ?s = Some ?s"
    using assms by (auto simp: scan_char_def scan_other_def plain_number_def is_digit_def c_tolower_def)
  moreover have "scan_chars KT_FLOAT ds ?s = Some ?s"
    using assms by (intro scan_digits) (auto simp: plain_number_def)
  ultimately show ?thesis by simp
qed

lemma sci_parts_digits: "sci_parts a = (e, ds) \<Longrightarrow> ds \<noteq> [] \<and> (\<forall>c\<in>set ds. is_digit c)"
  using show_uint_digits by (auto simp: sci_parts_def Let_def split: if_splits)

text \<open>The text of a non-negative number that is not zero.\<close>

definition show_abs :: "int \<times> string \<Rightarrow> string" where
  "show_abs p = (case p of (e, ds) \<Rightarrow>
      if -4 \<le> e \<and> e < 0 then with_fraction ''0'' (replicate (nat (- e - 1)) CHR ''0'' @ ds)
      else if 0 \<le> e \<and> e < 6 then with_fraction (take (nat (e + 1)) ds) (drop (nat (e + 1)) ds)
      else with_fraction (take 1 ds) (drop 1 ds) @
           CHR ''e'' # (if e < 0 then CHR ''-'' else CHR ''+'') #
           (if \<bar>e\<bar> < 10 then CHR ''0'' # show_uint (nat \<bar>e\<bar>) else show_uint (nat \<bar>e\<bar>)))"

lemma show_float_abs:
  "show_float x = (if x = 0 then ''0'' else if x < 0 then CHR ''-'' # show_abs (sci_parts \<bar>x\<bar>) else show_abs (sci_parts \<bar>x\<bar>))"
  by (simp add: show_float_def show_abs_def split: prod.splits)

lemma is_digit_0: "is_digit CHR ''0''"
  by (simp add: is_digit_def)

lemma digits_take_drop:
  "\<forall>c\<in>set ds. is_digit c \<Longrightarrow> \<forall>c\<in>set (take n ds). is_digit c"
  "\<forall>c\<in>set ds. is_digit c \<Longrightarrow> \<forall>c\<in>set (drop n ds). is_digit c"
  by (auto dest: in_set_takeD in_set_dropD)

lemma show_abs_parts:
  assumes "ds \<noteq> []" "\<forall>c\<in>set ds. is_digit c"
  obtains ip fp es sg where "show_abs (e, ds) = with_fraction ip fp @ (if es = [] then [] else CHR ''e'' # sg # es)"
    "ip \<noteq> []" "\<forall>c\<in>set ip. is_digit c" "\<forall>c\<in>set fp. is_digit c" "\<forall>c\<in>set es. is_digit c" "sg = CHR ''-'' \<or> sg = CHR ''+''"
proof -
  note sub = digits_take_drop [OF assms(2)]
  consider (small) "-4 \<le> e" "e < 0" | (fixed) "0 \<le> e" "e < 6" | (sci) "e < -4 \<or> 6 \<le> e"
    by linarith
  then show thesis
  proof cases
    case small
    define r where "r = replicate (nat (- e - 1)) CHR ''0''"
    have r: "\<forall>c\<in>set (r @ ds). is_digit c"
      using assms(2) is_digit_0 by (auto simp: r_def)
    have "show_abs (e, ds) = with_fraction ''0'' (r @ ds)"
      using small by (simp add: show_abs_def r_def)
    then show thesis
      using r is_digit_0 by (intro that [of "''0''" "r @ ds" "[]" "CHR ''+''"]) simp_all
  next
    case fixed
    then show thesis
      using assms(1) sub by (intro that [of "take (nat (e + 1)) ds" "drop (nat (e + 1)) ds" "[]" "CHR ''+''"]) (simp_all add: show_abs_def)
  next
    case sci
    define es where "es = (if \<bar>e\<bar> < 10 then CHR ''0'' # show_uint (nat \<bar>e\<bar>) else show_uint (nat \<bar>e\<bar>))"
    define sg where "sg = (if e < 0 then CHR ''-'' else CHR ''+'')"
    have es: "\<forall>c\<in>set es. is_digit c" "sg = CHR ''-'' \<or> sg = CHR ''+''" "es \<noteq> []"
      using is_digit_0 show_uint_digits by (auto simp: es_def sg_def)
    have "show_abs (e, ds) = with_fraction (take 1 ds) (drop 1 ds) @ CHR ''e'' # sg # es"
      using sci by (auto simp: show_abs_def es_def sg_def)
    then show thesis
      using assms(1) es sub [of 1] by (intro that [of "take 1 ds" "drop 1 ds" es sg]) simp_all
  qed
qed

lemma scan_show_abs:
  assumes "fresh_scan s" "ds \<noteq> []" "\<forall>c\<in>set ds. is_digit c"
  shows "\<exists>s'. scan_chars KT_FLOAT (show_abs (e, ds)) s = Some s' \<and> scanned s' = scanned s + 1"
proof -
  obtain ip fp es sg where
      t: "show_abs (e, ds) = with_fraction ip fp @ (if es = [] then [] else CHR ''e'' # sg # es)"
    and p: "ip \<noteq> []" "\<forall>c\<in>set ip. is_digit c" "\<forall>c\<in>set fp. is_digit c"
    and es: "\<forall>c\<in>set es. is_digit c" "sg = CHR ''-'' \<or> sg = CHR ''+''"
    using show_abs_parts [OF assms(2,3)] by blast
  obtain s1 where s1: "scan_chars KT_FLOAT (with_fraction ip fp) s = Some s1" "plain_number s1"
      "\<not> exponent s1" "scanned s1 = scanned s + 1"
    using scan_with_fraction [OF assms(1) p] by blast
  show ?thesis
    unfolding t using s1 scan_exponent_text [OF s1(2,3) es] by (auto simp: scan_chars_append simp del: scan_chars.simps(2))
qed

text \<open>A minus sign opens the number, so that its digits are not counted again.\<close>

lemma scan_minus:
  assumes "fresh_scan s" "scan_chars KT_FLOAT (c # t) s = Some s'" "is_digit c"
  shows "scan_chars KT_FLOAT (CHR ''-'' # c # t) s = Some s'"
  using assms
  by (cases s) (simp add: scan_char_def scan_other_def scan_digit_def fresh_scan_def is_digit_def c_tolower_def)

lemma show_abs_head:
  assumes "ds \<noteq> []" "\<forall>c\<in>set ds. is_digit c"
  obtains c t where "show_abs (e, ds) = c # t" "is_digit c"
proof -
  obtain ip fp r where p: "show_abs (e, ds) = with_fraction ip fp @ r" "ip \<noteq> []" "\<forall>c\<in>set ip. is_digit c"
    using show_abs_parts [OF assms] by metis
  then obtain c t where "ip = c # t" "is_digit c"
    by (cases ip) auto
  with p(1) that show thesis
    by (auto simp: with_fraction_def Let_def split: if_splits)
qed

lemma scan_show_float:
  assumes "fresh_scan s"
  shows "\<exists>s'. scan_chars KT_FLOAT (show_float x) s = Some s' \<and> scanned s' = scanned s + 1"
proof -
  obtain e ds where p: "sci_parts \<bar>x\<bar> = (e, ds)"
    by (cases "sci_parts \<bar>x\<bar>")
  note ds = sci_parts_digits [OF p]
  obtain c t where ct: "show_abs (e, ds) = c # t" "is_digit c"
    using show_abs_head ds by blast
  obtain s' where s': "scan_chars KT_FLOAT (c # t) s = Some s'" "scanned s' = scanned s + 1"
    using scan_show_abs [OF assms] ds ct(1) by metis
  moreover have "scan_chars KT_FLOAT (CHR ''-'' # c # t) s = Some s'"
    using scan_minus [OF assms s'(1) ct(2)] .
  moreover have "\<exists>s'. scan_chars KT_FLOAT ''0'' s = Some s' \<and> scanned s' = scanned s + 1"
    using scan_first_digits [OF assms, of "''0''"] by (fastforce simp: is_digit_def)
  ultimately show ?thesis
    using p ct(1) by (auto simp: show_float_abs simp del: scan_chars.simps)
qed

text \<open>The text that the storing functions write is valid, with one element for each number.\<close>

definition stored_type :: "kvp_value \<Rightarrow> KeyType" where
  "stored_type v = (case v of UInt_values _ \<Rightarrow> KT_INT | _ \<Rightarrow> value_type v)"

fun value_ok :: "kvp_value \<Rightarrow> bool" where
  "value_ok (Int_values is) = (\<forall>i\<in>set is. - (2 ^ 31) \<le> i \<and> i < 2 ^ 31)"
| "value_ok (UInt_values is) = (\<forall>i\<in>set is. is_u32 i)"
| "value_ok _ = True"

lemma scan_string: "scan_chars KT_STRING cs s = Some (s\<lparr>scanned := scanned s + length cs\<rparr>)"
  by (induction cs arbitrary: s) (auto simp: scan_char_def)

lemma validate_commas:
  assumes "ty \<noteq> KT_STRING" "xs \<noteq> []"
    and "\<And>s x. fresh_scan s \<Longrightarrow> x \<in> set xs \<Longrightarrow> \<exists>s'. scan_chars ty (p x) s = Some s' \<and> scanned s' = scanned s + 1"
  shows "validateValue (commas (map p xs)) ty = Some (int (length xs))"
  using scan_commas [OF assms(1,2) fresh_start assms(3)] by (auto simp: validateValue_def scan_start_def)

lemma validate_value_text:
  assumes "value_ok v" "value_text n v = Some t" "case v of String_value s \<Rightarrow> int (length s) < n | _ \<Rightarrow> True"
  shows "validateValue t (stored_type v) = Some (int (value_count v))"
proof (cases v)
  case (Int_values "is")
  then show ?thesis
    using assms validate_commas [of KT_INT "is" show_int] scan_show_int [of _ KT_INT]
    by (auto simp: stored_type_def split: if_splits)
next
  case (UInt_values "is")
  then show ?thesis
    using assms validate_commas [of KT_INT "is" show_hex] scan_show_hex
    by (auto simp: stored_type_def is_u32_def split: if_splits)
next
  case (Float_values fs)
  then show ?thesis
    using assms validate_commas [of KT_FLOAT fs show_float] scan_show_float
    by (auto simp: stored_type_def split: if_splits)
next
  case (String_value s)
  then have "t = s"
    using assms by (auto simp: c_snprintf_def split: if_splits)
  then show ?thesis
    using String_value by (simp add: validateValue_def stored_type_def scan_string scan_start_def)
qed

end
