(* ===== verification/Key_Value_Facts.thy ===== *)
theory Key_Value_Facts
  imports Key_Value_Scan
begin

text \<open>
  What the key/value store promises: parsing any record and updating a key keep the table
  invariant, an update changes one key and its value is read back, and the text that \<open>kvpFormat\<close>
  writes parses to the same table.
\<close>

section \<open>The table invariant\<close>

text \<open>
  An entry with a type is what the parser takes apart; of the entries with one key only the last
  may have a type.
\<close>

definition entry_ok :: "kvp_entry \<Rightarrow> bool" where
  "entry_ok e \<longleftrightarrow> c_trim (keyPtr e) = keyPtr e \<and> CHR ''#'' \<notin> set (keyPtr e) \<and> take 2 (keyPtr e) \<noteq> ''//''
     \<and> CHR '';'' \<notin> set (valPtr e) \<and> validateValue (valPtr e) (valType e) = Some (nelements e)"

definition table_inv :: "kvp \<Rightarrow> bool" where
  "table_inv k \<longleftrightarrow> sorted_wrt (\<lambda>a b. keyPtr a = keyPtr b \<longrightarrow> valType a = KT_INVALID) (entries k)
     \<and> (\<forall>e\<in>set (entries k). valType e \<noteq> KT_INVALID \<longrightarrow> entry_ok e)
     \<and> (\<forall>e\<in>set (entries k). valType e \<noteq> KT_UINT) \<and> (\<forall>i. staleTypes k i \<noteq> KT_UINT)"

lemma filter_upt_last:
  "(case filter P [0..<n] of [] \<Rightarrow> None | is \<Rightarrow> Some (last is)) = Some i \<longleftrightarrow> i < n \<and> P i \<and> (\<forall>j. i < j \<and> j < n \<longrightarrow> \<not> P j)"
  "(case filter P [0..<n] of [] \<Rightarrow> None | is \<Rightarrow> Some (last is)) = None \<longleftrightarrow> (\<forall>j<n. \<not> P j)"
proof (induction n)
  case (Suc n)
  {
    case 1
    show ?case
      using Suc(1) by (cases "P n") (auto simp: less_Suc_eq split: list.splits)
  next
    case 2
    show ?case
      using Suc(2) by (cases "P n") (auto simp: less_Suc_eq split: list.splits)
  }
qed auto

lemma find_key_Some:
  "kvpFindKey key k = Some i \<longleftrightarrow> i < nkeys k \<and> keyPtr (entries k ! i) = c_trim key
     \<and> (\<forall>j. i < j \<and> j < nkeys k \<longrightarrow> keyPtr (entries k ! j) \<noteq> c_trim key)"
  and find_key_None: "kvpFindKey key k = None \<longleftrightarrow> (\<forall>j<nkeys k. keyPtr (entries k ! j) \<noteq> c_trim key)"
  unfolding kvpFindKey_def by (simp_all only: filter_upt_last)

lemma find_key_cong: "map keyPtr (entries k) = map keyPtr (entries k') \<Longrightarrow> kvpFindKey key k = kvpFindKey key k'"
proof -
  assume *: "map keyPtr (entries k) = map keyPtr (entries k')"
  then have n: "nkeys k = nkeys k'"
    by (metis length_map nkeys_def)
  have "keyPtr (entries k ! i) = keyPtr (entries k' ! i)" if "i < nkeys k" for i
    using * n that by (metis nkeys_def nth_map)
  then have "filter (\<lambda>i. keyPtr (entries k ! i) = c_trim key) [0..<nkeys k]
      = filter (\<lambda>i. keyPtr (entries k' ! i) = c_trim key) [0..<nkeys k']"
    using n by (intro filter_cong) auto
  then show ?thesis
    by (simp add: kvpFindKey_def)
qed

lemma map_keys_update [simp]:
  "keyPtr e = keyPtr (es ! i) \<Longrightarrow> map keyPtr (es[i := e]) = map keyPtr es"
  by (metis list_update_beyond list_update_id map_update not_le nth_map)

lemma sorted_wrt_update:
  assumes "sorted_wrt (\<lambda>a b. keyPtr a = keyPtr b \<longrightarrow> valType a = KT_INVALID) es" "i < length es"
    and "keyPtr e = keyPtr (es ! i)" "valType e = valType (es ! i) \<or> valType e = KT_INVALID"
  shows "sorted_wrt (\<lambda>a b. keyPtr a = keyPtr b \<longrightarrow> valType a = KT_INVALID) (es[i := e])"
  using assms unfolding sorted_wrt_iff_nth_less by (auto simp: nth_list_update)

lemma invalidate_key_facts:
  assumes "table_inv k"
  shows "table_inv (invalidate_key key k)" "nkeys (invalidate_key key k) = nkeys k"
    and "\<forall>e\<in>set (entries (invalidate_key key k)). keyPtr e = c_trim key \<longrightarrow> valType e = KT_INVALID"
    and "staleTypes (invalidate_key key k) = staleTypes k"
    and "map keyPtr (entries (invalidate_key key k)) = map keyPtr (entries k)"
proof -
  show "table_inv (invalidate_key key k)"
    using assms
    by (auto simp: table_inv_def invalidate_key_def find_key_Some nkeys_def intro!: sorted_wrt_update
        dest!: set_update_subset_insert [THEN subsetD] split: option.splits)
  show "nkeys (invalidate_key key k) = nkeys k" "staleTypes (invalidate_key key k) = staleTypes k"
    "map keyPtr (entries (invalidate_key key k)) = map keyPtr (entries k)"
    by (auto simp: invalidate_key_def nkeys_def split: option.splits)
  show "\<forall>e\<in>set (entries (invalidate_key key k)). keyPtr e = c_trim key \<longrightarrow> valType e = KT_INVALID"
  proof (cases "kvpFindKey key k")
    case None
    then have "\<forall>j<nkeys k. keyPtr (entries k ! j) \<noteq> c_trim key"
      by (simp only: find_key_None)
    then show ?thesis
      using None by (auto simp: invalidate_key_def nkeys_def in_set_conv_nth)
  next
    case (Some i)
    note i = Some [unfolded find_key_Some nkeys_def]
    have "valType (entries k ! j) = KT_INVALID" if "j < length (entries k)" "j \<noteq> i" "keyPtr (entries k ! j) = c_trim key" for j
    proof -
      have "j < i"
        using i that by (meson linorder_neqE_nat)
      then show ?thesis
        using assms i that unfolding table_inv_def sorted_wrt_iff_nth_less by auto
    qed
    then show ?thesis
      using Some i by (auto simp: invalidate_key_def in_set_conv_nth nth_list_update)
  qed
qed

lemma table_inv_append:
  assumes "table_inv k" "\<forall>x\<in>set (entries k). keyPtr x = keyPtr e \<longrightarrow> valType x = KT_INVALID"
    and "valType e \<noteq> KT_INVALID \<longrightarrow> entry_ok e" "valType e \<noteq> KT_UINT"
  shows "table_inv (k\<lparr>entries := entries k @ [e]\<rparr>)"
  using assms by (auto simp: table_inv_def sorted_wrt_append)

lemma table_inv_fields [simp]:
  "table_inv (k\<lparr>lastError := x\<rparr>) = table_inv k" "table_inv (k\<lparr>spaceLeft := n\<rparr>) = table_inv k"
  "table_inv (k\<lparr>dangling := b\<rparr>) = table_inv k"
  by (simp_all add: table_inv_def)

lemma table_inv_space [simp]:
  "table_inv (kvpRealloc n k) = table_inv k" "table_inv (kvpInit n k) = table_inv k"
  "table_inv (parse_room n k) = table_inv k"
  by (simp_all add: table_inv_def kvpRealloc_def kvpInit_def parse_room_def Let_def)

lemma table_inv_start: "table_inv kvp_start"
  by (simp add: table_inv_def kvp_start_def)

lemma table_inv_reset: "table_inv k \<Longrightarrow> table_inv (kvpReset k)"
  by (auto simp: table_inv_def kvpReset_def nkeys_def)

lemma table_inv_stale: "table_inv k \<Longrightarrow> ty \<noteq> KT_UINT \<Longrightarrow> table_inv (set_stale ty k)"
  by (auto simp: table_inv_def set_stale_def)

section \<open>Parsing keeps the invariant\<close>

lemma c_strchr_Some: "c_strchr c s = Some (a, b) \<Longrightarrow> s = a @ c # b \<and> c \<notin> set a"
  by (induction c s arbitrary: a b rule: c_strchr.induct) (auto split: if_splits)

lemma c_strchr_None: "c_strchr c s = None \<longleftrightarrow> c \<notin> set s"
  by (induction c s rule: c_strchr.induct) (auto split: option.splits)

lemma c_strchr_append: "c \<notin> set a \<Longrightarrow> c_strchr c (a @ c # b) = Some (a, b)"
  by (induction a) auto

lemma set_c_trim: "set (c_trim s) \<subseteq> set s"
  by (auto simp: c_trim_def dest!: set_dropWhileD)

lemma dropWhile_idem_rev: "dropWhile P (rev (dropWhile P (rev (dropWhile P s)))) = rev (dropWhile P (rev (dropWhile P s)))"
proof (cases "dropWhile P (rev (dropWhile P s)) = []")
  case False
  let ?d = "dropWhile P s"
  have "?d \<noteq> []"
    using False by (metis dropWhile.simps(1) rev.simps(1))
  then have "\<not> P (hd ?d)"
    by (simp add: hd_dropWhile)
  moreover have "hd (rev (dropWhile P (rev ?d))) = hd ?d"
  proof -
    obtain xs where "rev ?d = xs @ dropWhile P (rev ?d)"
      by (metis takeWhile_dropWhile_id)
    then have "?d = rev (dropWhile P (rev ?d)) @ rev xs"
      by (metis rev_append rev_rev_ident)
    then show ?thesis
      using False by (metis hd_append2 rev_is_Nil_conv)
  qed
  ultimately show ?thesis
    using False by (cases "rev (dropWhile P (rev ?d))") auto
next
  case True
  then have "rev (dropWhile P (rev (dropWhile P s))) = []"
    by (simp only: rev.simps)
  then show ?thesis
    by (simp only: dropWhile.simps)
qed

lemma c_trim_trim [simp]: "c_trim (c_trim s) = c_trim s"
  using dropWhile_idem_rev [of c_isspace s] by (simp add: c_trim_def)

lemma parse_value_inv:
  assumes "table_inv k" "\<forall>x\<in>set (entries k). keyPtr x = key \<longrightarrow> valType x = KT_INVALID"
    and "c_trim key = key" "CHR ''#'' \<notin> set key" "take 2 key \<noteq> ''//''"
  shows "(case parse_value key nel s k of Inl (k', _) \<Rightarrow> table_inv k' | Inr k' \<Rightarrow> table_inv k')"
proof -
  define p where "p = (case c_strchr CHR '';'' s of
      None \<Rightarrow> (s, None, k\<lparr>lastError := KVP_E_TERMINATOR\<rparr>) | Some (value, rest) \<Rightarrow> (value, Some rest, k))"
  obtain v r k1 where p: "p = (v, r, k1)"
    by (cases p)
  have v: "CHR '';'' \<notin> set v" and k1: "table_inv k1" "entries k1 = entries k" "staleTypes k1 = staleTypes k"
    using p assms(1) by (auto simp: p_def c_strchr_None dest: c_strchr_Some split: option.splits)
  let ?ty = "staleTypes k1 (nkeys k1)"
  have "?ty \<noteq> KT_UINT"
    using k1(1) by (simp add: table_inv_def)
  then have "table_inv (k1\<lparr>entries := entries k1 @ [\<lparr>keyPtr = key, valPtr = v, valType = ?ty, nelements = n\<rparr>]\<rparr>)"
    if "validateValue v ?ty = Some n" for n
    using k1 v that assms(2-5) by (intro table_inv_append) (auto simp: entry_ok_def)
  then show ?thesis
    using p k1(1) by (auto simp: parse_value_def Let_def simp flip: p_def split: option.splits)
qed

lemma parse_pair_inv:
  assumes "table_inv k" "c_trim key = key" "CHR ''#'' \<notin> set key" "take 2 key \<noteq> ''//''" "parse_pair key r k = Some x"
  shows "case x of Inl (k', _) \<Rightarrow> table_inv k' | Inr k' \<Rightarrow> table_inv k'"
proof -
  obtain t r1 where r: "r = t # r1"
    using assms(5) by (auto simp: parse_pair_def split: list.splits)
  define k1 where "k1 = invalidate_key key k"
  define k2 where "k2 = set_stale (type_of_char (if key = [] then NUL else t) (staleTypes k1 (nkeys k1))) k1"
  note inv = invalidate_key_facts [OF assms(1), of key, folded k1_def]
  have "type_of_char c ty \<noteq> KT_UINT" if "ty \<noteq> KT_UINT" for c ty
    using that by (simp add: type_of_char_def)
  then have k2: "table_inv k2" "entries k2 = entries k1"
    using inv(1) by (auto simp: k2_def set_stale_def table_inv_def)
  have pv: "case parse_value key nel s k2 of Inl (k', _) \<Rightarrow> table_inv k' | Inr k' \<Rightarrow> table_inv k'" for nel s
    using k2 inv(3) assms(2-4) by (intro parse_value_inv) auto
  show ?thesis
    using assms(5) k2(1) pv by (auto simp: parse_pair_def r Let_def simp flip: k1_def k2_def split: list.splits if_splits)
qed

text \<open>One round of the loop over the pairs, and the induction over its rounds.\<close>

lemma parse_pairs_cases:
  assumes "parse_pairs s extra k = Some (x, k')"
  obtains (finished) "x = Some extra" "k' = k"
  | (full) "x = None" "k' = k\<lparr>lastError := KVP_E_TOOMANY\<rparr>"
  | (bad) key r where "c_strchr CHR ''#'' s = Some (key, r)" "take 2 (c_trim key) \<noteq> ''//''"
      "parse_pair (c_trim key) r k = Some (Inr k')" "x = None"
  | (final) key r where "c_strchr CHR ''#'' s = Some (key, r)" "take 2 (c_trim key) \<noteq> ''//''"
      "parse_pair (c_trim key) r k = Some (Inl (k', None))" "x = Some (extra + 1)"
  | (more) key r k1 rest where "c_strchr CHR ''#'' s = Some (key, r)" "take 2 (c_trim key) \<noteq> ''//''"
      "parse_pair (c_trim key) r k = Some (Inl (k1, Some rest))" "parse_pairs rest extra k1 = Some (x, k')" "length rest < length s"
proof (cases "c_strchr CHR ''#'' s")
  case None
  then show thesis
    using assms finished by (simp add: parse_pairs.simps)
next
  case (Some p)
  obtain key r where p: "c_strchr CHR ''#'' s = Some (key, r)"
    using Some by (cases p) auto
  show thesis
  proof (cases "MAXKEYS \<le> nkeys k \<or> take 2 (c_trim key) = ''//''")
    case True
    then show thesis
      using assms p finished full by (subst (asm) parse_pairs.simps) (auto split: if_splits)
  next
    case False
    then have slash: "take 2 (c_trim key) \<noteq> ''//''"
      by simp
    have eq: "(case parse_pair (c_trim key) r k of None \<Rightarrow> None | Some (Inr k') \<Rightarrow> Some (None, k')
        | Some (Inl (k', None)) \<Rightarrow> Some (Some (extra + 1), k')
        | Some (Inl (k', Some rest)) \<Rightarrow> parse_pairs rest extra k') = Some (x, k')"
      using assms p False by (subst (asm) parse_pairs.simps) simp
    then obtain y where y: "parse_pair (c_trim key) r k = Some y"
      by (cases "parse_pair (c_trim key) r k") auto
    show thesis
    proof (cases y)
      case (Inr k1)
      then show thesis
        using eq y bad [OF p slash] by simp
    next
      case (Inl q)
      obtain k1 rest where q: "q = (k1, rest)"
        by (cases q)
      show thesis
      proof (cases rest)
        case None
        then show thesis
          using eq y Inl q final [OF p slash] by simp
      next
        case (Some t)
        then have "length t < length s"
          using y Inl q parse_pair_length c_strchr_length [OF p] by fastforce
        then show thesis
          using eq y Inl q Some more [OF p slash] by simp
      qed
    qed
  qed
qed

lemma parse_pairs_inv:
  "table_inv k \<Longrightarrow> parse_pairs s extra k = Some (x, k') \<Longrightarrow> table_inv k'"
proof (induction "length s" arbitrary: s k rule: less_induct)
  case less
  have step: "case y of Inl (k', _) \<Rightarrow> table_inv k' | Inr k' \<Rightarrow> table_inv k'"
    if "c_strchr CHR ''#'' s = Some (key, r)" "take 2 (c_trim key) \<noteq> ''//''" "parse_pair (c_trim key) r k = Some y" for key r y
  proof -
    have "CHR ''#'' \<notin> set (c_trim key)"
      using that(1) set_c_trim by (fastforce dest: c_strchr_Some)
    then show ?thesis
      using parse_pair_inv [OF less.prems(1) _ _ that(2,3)] by simp
  qed
  from less.prems(2) show ?case
    by (cases rule: parse_pairs_cases) (use less step in \<open>fastforce+\<close>)
qed

lemma kvpParse_inv: "table_inv k \<Longrightarrow> kvpParse record k = Some (n, k') \<Longrightarrow> table_inv k'"
  using parse_pairs_inv [of "parse_room (int (length record) + 1) k" "dropWhile c_isspace record" 0]
  by (auto simp: kvpParse_def Let_def split: option.splits if_splits)

section \<open>Updates keep the invariant\<close>

lemma scan_no_special: "ty \<noteq> KT_STRING \<Longrightarrow> scan_chars ty cs s = Some s' \<Longrightarrow> c \<in> {CHR '';'', NEWLINE, NUL} \<Longrightarrow> c \<notin> set cs"
proof (induction cs arbitrary: s)
  case (Cons d cs)
  then obtain s1 where "scan_char ty d s = Some s1" "scan_chars ty cs s1 = Some s'"
    by (auto split: option.splits)
  moreover have "scan_char ty CHR '';'' s = None" "scan_char ty NEWLINE s = None" "scan_char ty NUL s = None"
    using Cons.prems(1)
    by (simp_all add: scan_char_def scan_other_def is_digit_def c_isxdigit_def digit_of_def c_tolower_def NEWLINE_def NUL_def)
  ultimately show ?case
    using Cons by auto
qed simp

definition update_fits :: "kvp_value \<Rightarrow> kvp \<Rightarrow> bool" where
  "update_fits v k = (case v of String_value s \<Rightarrow> CHR '';'' \<notin> set s \<and> int (length s) < spaceLeft k | _ \<Rightarrow> True)"

lemma kvpUpdate_cases:
  assumes "kvpUpdate key v k = Some (KVP_E_OK, k')"
  obtains i k1 t where "kvpFindKey key k = Some i" "k1 = (if spaceLeft k < value_space v then kvpRealloc (value_space v) k else k)"
    "value_text (spaceLeft k1) v = Some t"
    "k' = k1\<lparr>entries := (entries k)[i := (entries k ! i)\<lparr>valPtr := t, nelements := int (value_count v)\<rparr>],
       spaceLeft := spaceLeft k1 - (value_advance v t + 1), lastError := KVP_E_OK\<rparr>"
    "stored_type v = valType (entries k ! i) \<or> valType (entries k ! i) = KT_UINT" "i < nkeys k" "\<not> dangling k"
proof -
  obtain i where i: "kvpFindKey key k = Some i"
    using assms by (auto simp: kvpUpdate_def split: option.splits)
  define k1 where "k1 = (if spaceLeft k < value_space v then kvpRealloc (value_space v) k else k)"
  have e: "entries k1 = entries k"
    by (simp add: k1_def kvpRealloc_def Let_def)
  obtain t where t: "value_text (spaceLeft k1) v = Some t"
    using assms i by (auto simp: kvpUpdate_def Let_def simp flip: k1_def split: if_splits)
  show thesis
    using assms i e t find_key_Some [of key k i]
    by (intro that [OF i k1_def t])
      (auto simp: kvpUpdate_def Let_def stored_type_def simp flip: k1_def split: if_splits kvp_value.splits)
qed

lemma update_entry_ok:
  assumes "entry_ok e" "value_ok v" "value_text n v = Some t" "stored_type v = valType e"
    and "case v of String_value s \<Rightarrow> CHR '';'' \<notin> set s \<and> int (length s) < n | _ \<Rightarrow> True"
  shows "entry_ok (e\<lparr>valPtr := t, nelements := int (value_count v)\<rparr>)"
proof -
  have "case v of String_value s \<Rightarrow> int (length s) < n | _ \<Rightarrow> True"
    using assms(5) by (auto split: kvp_value.splits)
  from validate_value_text [OF assms(2,3) this] have val: "validateValue t (valType e) = Some (int (value_count v))"
    by (simp add: assms(4))
  have "CHR '';'' \<notin> set t"
  proof (cases v)
    case (String_value s)
    then show ?thesis
      using assms(3,5) by (auto simp: c_snprintf_def split: if_splits dest: in_set_takeD)
  qed (use val assms(4) scan_no_special [where c = "CHR '';''"] in \<open>auto simp: validateValue_def stored_type_def\<close>)
  then show ?thesis
    using assms(1) val by (simp add: entry_ok_def)
qed

lemma value_text_space:
  assumes "value_text n v = Some t" "\<not> (\<exists>s. v = String_value s)"
  shows "value_text m v = Some t"
  using assms by (cases v) auto

lemma kvpUpdate_inv:
  assumes "table_inv k" "kvpUpdate key v k = Some (KVP_E_OK, k')" "value_ok v" "update_fits v k"
  shows "table_inv k'"
proof -
  obtain i k1 t where i: "kvpFindKey key k = Some i" "i < nkeys k"
    and k1: "k1 = (if spaceLeft k < value_space v then kvpRealloc (value_space v) k else k)"
    and t: "value_text (spaceLeft k1) v = Some t"
    and k': "k' = k1\<lparr>entries := (entries k)[i := (entries k ! i)\<lparr>valPtr := t, nelements := int (value_count v)\<rparr>],
       spaceLeft := spaceLeft k1 - (value_advance v t + 1), lastError := KVP_E_OK\<rparr>"
    and ty: "stored_type v = valType (entries k ! i) \<or> valType (entries k ! i) = KT_UINT"
    using kvpUpdate_cases [OF assms(2)] by metis
  let ?e = "entries k ! i"
  have mem: "?e \<in> set (entries k)"
    using i(2) by (simp add: nkeys_def)
  then have ty: "stored_type v = valType ?e"
    using ty assms(1) by (auto simp: table_inv_def)
  have room: "case v of String_value s \<Rightarrow> CHR '';'' \<notin> set s \<and> int (length s) < spaceLeft k1 | _ \<Rightarrow> True"
    using assms(4) k1 by (auto simp: update_fits_def split: kvp_value.splits)
  have "entry_ok ?e"
    using assms(1) mem ty by (auto simp: table_inv_def stored_type_def split: kvp_value.splits)
  then have new: "entry_ok (?e\<lparr>valPtr := t, nelements := int (value_count v)\<rparr>)"
    using update_entry_ok [OF _ assms(3) t ty room] by blast
  have "staleTypes k1 = staleTypes k"
    by (simp add: k1 kvpRealloc_def Let_def)
  then show ?thesis
    using assms(1) new mem i(2)
    by (auto simp: table_inv_def k' nkeys_def intro!: sorted_wrt_update dest!: set_update_subset_insert [THEN subsetD])
qed

section \<open>Lookup after an update\<close>

definition lookup_key :: "string \<Rightarrow> kvp \<Rightarrow> kvp_entry option" where
  "lookup_key key k = map_option (\<lambda>i. entries k ! i) (kvpFindKey key k)"

lemma lookup_update:
  assumes "kvpUpdate key v k = Some (KVP_E_OK, k')"
  obtains e t where "lookup_key key k = Some e" "value_text (spaceLeft (if spaceLeft k < value_space v then kvpRealloc (value_space v) k else k)) v = Some t"
    "\<And>key'. lookup_key key' k' =
       (if c_trim key' = c_trim key then Some (e\<lparr>valPtr := t, nelements := int (value_count v)\<rparr>) else lookup_key key' k)"
proof -
  obtain i k1 t where i: "kvpFindKey key k = Some i" "i < nkeys k"
    and k1: "k1 = (if spaceLeft k < value_space v then kvpRealloc (value_space v) k else k)"
    and t: "value_text (spaceLeft k1) v = Some t"
    and k': "k' = k1\<lparr>entries := (entries k)[i := (entries k ! i)\<lparr>valPtr := t, nelements := int (value_count v)\<rparr>],
       spaceLeft := spaceLeft k1 - (value_advance v t + 1), lastError := KVP_E_OK\<rparr>"
    using kvpUpdate_cases [OF assms] by metis
  have same: "kvpFindKey key' k' = kvpFindKey key' k" for key'
    by (rule find_key_cong) (simp add: k')
  have ek: "entries k' = (entries k)[i := (entries k ! i)\<lparr>valPtr := t, nelements := int (value_count v)\<rparr>]"
    by (simp add: k')
  have "lookup_key key' k' = (if c_trim key' = c_trim key
      then Some ((entries k ! i)\<lparr>valPtr := t, nelements := int (value_count v)\<rparr>) else lookup_key key' k)" for key'
  proof (cases "c_trim key' = c_trim key")
    case True
    then have "kvpFindKey key' k = Some i"
      using i by (simp add: kvpFindKey_def)
    then show ?thesis
      using True i(2) by (simp add: lookup_key_def same ek nkeys_def)
  next
    case False
    then have "kvpFindKey key' k \<noteq> Some i"
      using i(1) by (auto simp: find_key_Some)
    then show ?thesis
      using False by (cases "kvpFindKey key' k") (auto simp: lookup_key_def same ek)
  qed
  then show thesis
    using that i t by (auto simp: k1 lookup_key_def)
qed

lemma get_string_lookup: "fst (kvpGetString key k) = map_option valPtr (lookup_key key k)"
  by (simp add: kvpGetString_def lookup_key_def split: option.splits)

lemma get_number_lookup:
  assumes "lookup_key key k = Some e" "snd (conv (valPtr e)) \<noteq> valPtr e"
  shows "fst (get_number conv key d k) = fst (conv (valPtr e))"
  using assms by (auto simp: get_number_def kvpGetString_def lookup_key_def)

lemma s32_id: "- (2 ^ 31) \<le> i \<Longrightarrow> i < 2 ^ 31 \<Longrightarrow> s32 i = i"
  by (simp add: s32_def signed_take_bit_int_eq_self)

lemma get_int_text: "- (2 ^ 31) \<le> i \<Longrightarrow> i < 2 ^ 31 \<Longrightarrow> apfst s32 (c_strtol 0 (show_int i @ r)) = (i, r)" if "number_end r"
  using strtol_show_int [OF that, of 0 i] by (simp add: s32_id)

lemma show_int_nonempty [simp]: "show_int i \<noteq> []"
  using show_uint_digits by (simp add: show_int_def)

lemma lookup_update_number:
  assumes "kvpUpdate key v k = Some (KVP_E_OK, k')" "\<not> (\<exists>s. v = String_value s)"
  shows "\<exists>e t. lookup_key key k = Some e \<and> value_text 0 v = Some t
    \<and> lookup_key key k' = Some (e\<lparr>valPtr := t, nelements := int (value_count v)\<rparr>)"
proof (rule lookup_update [OF assms(1)])
  fix e t
  let ?n = "spaceLeft (if spaceLeft k < value_space v then kvpRealloc (value_space v) k else k)"
  assume *: "lookup_key key k = Some e" "value_text ?n v = Some t"
    "\<And>key'. lookup_key key' k' =
       (if c_trim key' = c_trim key then Some (e\<lparr>valPtr := t, nelements := int (value_count v)\<rparr>) else lookup_key key' k)"
  have "lookup_key key k' = Some (e\<lparr>valPtr := t, nelements := int (value_count v)\<rparr>)"
    using *(3) [of key] by simp
  then show ?thesis
    using *(1) value_text_space [OF *(2) assms(2), of 0] by blast
qed

lemma get_int_update:
  assumes "kvpUpdateInt key i k = Some (KVP_E_OK, k')" "- (2 ^ 31) \<le> i" "i < 2 ^ 31"
  shows "fst (kvpGetInt key d k') = i"
proof -
  define conv where "conv = (\<lambda>s. apfst s32 (c_strtol 0 s))"
  obtain e where "lookup_key key k' = Some (e\<lparr>valPtr := show_int i, nelements := 1\<rparr>)"
    using lookup_update_number [OF assms(1) [unfolded kvpUpdateInt_def]] by auto
  moreover have "conv (show_int i) = (i, [])"
    using get_int_text [of "[]" i] assms(2,3) by (simp add: conv_def)
  ultimately have "fst (get_number conv key d k') = i"
    by (subst get_number_lookup) (auto dest: sym)
  then show ?thesis
    by (simp add: kvpGetInt_def kvpGetBase_def conv_def)
qed

text \<open>The loop of the array readers on a list of printed numbers.\<close>

lemma get_elements_commas:
  assumes "\<And>x r. x \<in> set xs \<Longrightarrow> number_end r \<Longrightarrow> conv (p x @ r) = (x, r)" "\<And>x. x \<in> set xs \<Longrightarrow> p x \<noteq> []"
    and "xs \<noteq> []" "i + length xs \<le> length vs"
  shows "get_elements conv (length xs) i (Some (commas (map p xs))) vs
    = Some (True, take i vs @ xs @ drop (i + length xs) vs)"
  using assms(3,1,2,4)
proof (induction xs arbitrary: i vs rule: list_nonempty_induct)
  case (single x)
  then have "conv (p x) = (x, [])"
    using single(1) [of x "[]"] by simp
  then show ?case
    using single by (simp add: upd_conv_take_nth_drop)
next
  case (cons x xs)
  have "conv (commas (map p (x # xs))) = (x, CHR '','' # commas (map p xs))"
    using cons.prems(1) [of x "CHR '','' # commas (map p xs)"] cons.hyps by (simp add: commas_Cons)
  moreover have "commas (map p (x # xs)) \<noteq> CHR '','' # commas (map p xs)"
    using cons.prems(2) [of x] cons.hyps by (simp add: commas_Cons)
  moreover have "get_elements conv (length xs) (Suc i) (Some (commas (map p xs))) (vs[i := x])
      = Some (True, take (Suc i) (vs[i := x]) @ xs @ drop (Suc i + length xs) (vs[i := x]))"
    using cons.prems by (intro cons.IH) auto
  ultimately show ?case
    using cons.prems(3) by (simp add: take_Suc_conv_app_nth)
qed

lemma get_int_array_lookup:
  assumes "lookup_key key k = Some e" "valType e = KT_INT" "valPtr e = commas (map show_int js)" "nelements e = int (length js)"
    and "js \<noteq> []" "\<forall>i\<in>set js. - (2 ^ 31) \<le> i \<and> i < 2 ^ 31" "length js \<le> length values" "int (length js) \<le> n"
  shows "\<exists>k2. kvpGetIntArray key values n k = Some (KVP_E_OK, js @ drop (length js) values, int (length js), k2)"
proof -
  have "get_elements (\<lambda>s. apfst s32 (c_strtol 0 s)) (length js) 0 (Some (commas (map show_int js))) values
      = Some (True, take 0 values @ js @ drop (0 + length js) values)"
    by (rule get_elements_commas) (use assms(5-7) get_int_text in auto)
  then show ?thesis
    using assms by (auto simp: kvpGetIntArray_def get_array_def lookup_key_def Let_def)
qed

lemma get_int_array_update:
  assumes "kvpUpdateIntArray key js k = Some (KVP_E_OK, k')" "\<forall>i\<in>set js. - (2 ^ 31) \<le> i \<and> i < 2 ^ 31"
    and "\<And>e. lookup_key key k = Some e \<Longrightarrow> valType e = KT_INT" "length js \<le> length values" "int (length js) \<le> n"
  shows "\<exists>k2. kvpGetIntArray key values n k' = Some (KVP_E_OK, js @ drop (length js) values, int (length js), k2)"
proof -
  obtain e t where e: "lookup_key key k = Some e" and t: "value_text 0 (Int_values js) = Some t"
    and l: "lookup_key key k' = Some (e\<lparr>valPtr := t, nelements := int (length js)\<rparr>)"
    using lookup_update_number [OF assms(1) [unfolded kvpUpdateIntArray_def]] by auto
  show ?thesis
    by (rule get_int_array_lookup [OF l]) (use t assms(2-5) e in \<open>auto split: if_splits\<close>)
qed

section \<open>Writing and parsing\<close>

definition add_entry :: "kvp_entry \<Rightarrow> kvp \<Rightarrow> kvp" where
  "add_entry e k = (set_stale (valType e) k)\<lparr>entries := entries k @ [e]\<rparr>"

definition writable :: "kvp_entry \<Rightarrow> bool" where
  "writable e \<longleftrightarrow> entry_ok e \<and> keyPtr e \<noteq> [] \<and> valType e \<in> {KT_INT, KT_FLOAT, KT_STRING} \<and> nelements e < 2 ^ 31"

lemma c_trim_space: "\<forall>c\<in>set ws. c_isspace c \<Longrightarrow> c_trim (ws @ s) = c_trim s"
  by (simp add: c_trim_def)

lemma invalidate_new: "key \<notin> keyPtr ` set (entries k) \<Longrightarrow> c_trim key = key \<Longrightarrow> invalidate_key key k = k"
proof -
  assume "key \<notin> keyPtr ` set (entries k)" "c_trim key = key"
  then have "kvpFindKey key k = None"
    by (auto simp: find_key_None nkeys_def)
  then show ?thesis
    by (simp add: invalidate_key_def)
qed

lemma parse_written_entry:
  assumes "writable e" "nkeys k < MAXKEYS" "keyPtr e \<notin> keyPtr ` set (entries k)" "\<forall>c\<in>set ws. c_isspace c"
  shows "parse_pairs (ws @ format_entry e @ r) extra k = parse_pairs r extra (add_entry e k)"
proof -
  let ?key = "keyPtr e" and ?v = "valPtr e"
  let ?rest = "type_char (valType e) # show_int (nelements e) @ CHR ''='' # ?v @ CHR '';'' # r"
  have e: "c_trim ?key = ?key" "CHR ''#'' \<notin> set ?key" "take 2 ?key \<noteq> ''//''" "?key \<noteq> []" "CHR '';'' \<notin> set ?v"
    "validateValue ?v (valType e) = Some (nelements e)"
    using assms(1) by (simp_all add: writable_def entry_ok_def)
  have "CHR ''#'' \<notin> set ws"
    using assms(4) by (auto simp: c_isspace_def)
  then have split: "c_strchr CHR ''#'' (ws @ format_entry e @ r) = Some (ws @ ?key, ?rest)"
    using e(2) c_strchr_append [of _ "ws @ ?key" ?rest] by (simp add: format_entry_def)
  have key: "c_trim (ws @ ?key) = ?key"
    using c_trim_space [OF assms(4)] e(1) by simp
  define k1 where "k1 = set_stale (valType e) k"
  have ty: "type_of_char (type_char (valType e)) old = valType e" for old
    using assms(1) by (auto simp: writable_def type_of_char_def)
  have "number_end (CHR ''='' # s)" for s
    by (simp add: number_end_def digit_of_def is_digit_def c_tolower_def)
  moreover have n: "0 \<le> nelements e" "nelements e < 2 ^ 31"
    using e(6) assms(1) by (auto simp: validateValue_def writable_def)
  ultimately have num: "c_strtol 10 (show_int (nelements e) @ CHR ''='' # ?v @ CHR '';'' # r) = (nelements e, CHR ''='' # ?v @ CHR '';'' # r)"
    by (intro strtol_show_int) auto
  have first: "take 1 (show_int (nelements e) @ s) \<noteq> ''=''" for s
    using n(1) show_uint_digits [of "nat (nelements e)"]
    by (cases "show_uint (nat (nelements e))") (auto simp: show_int_def is_digit_def)
  have stale: "staleTypes k1 (nkeys k1) = valType e"
    by (simp add: k1_def set_stale_def nkeys_def)
  have pv: "parse_value ?key (nelements e) (?v @ CHR '';'' # r) k1 = Inl (add_entry e k, Some r)"
    using e(5,6) stale c_strchr_append [of "CHR '';''" ?v r]
    by (simp add: parse_value_def add_entry_def k1_def set_stale_def nkeys_def Let_def)
  have "parse_pair ?key ?rest k = Some (Inl (add_entry e k, Some r))"
    using e(1,4) num first invalidate_new [OF assms(3) e(1)] n ty pv
    by (simp add: parse_pair_def s32_id flip: k1_def)
  then show ?thesis
    using split key e(3) assms(2) by (subst parse_pairs.simps) simp
qed

text \<open>The text of \<open>kvpFormat\<close> in a buffer that is large enough.\<close>

fun formatted :: "kvp_entry list \<Rightarrow> string" where
  "formatted [] = []"
| "formatted (e # es) =
     (if valType e = KT_INVALID then formatted es else format_entry e @ (if es = [] then [] else [NEWLINE]) @ formatted es)"

lemma format_entries_room: "int (length (formatted es)) < room \<Longrightarrow> format_entries es room = Some (formatted es)"
proof (induction es arbitrary: room)
  case (Cons e es)
  then show ?case
    by (cases "valType e = KT_INVALID") (simp_all add: Let_def)
qed simp

lemma add_entry_simps [simp]:
  "nkeys (add_entry e k) = Suc (nkeys k)" "entries (add_entry e k) = entries k @ [e]"
  "spaceLeft (add_entry e k) = spaceLeft k" "dangling (add_entry e k) = dangling k"
  "kvpAllocated (add_entry e k) = kvpAllocated k" "kvpBufferSize (add_entry e k) = kvpBufferSize k"
  by (simp_all add: add_entry_def set_stale_def nkeys_def)

lemma parse_spaces: "\<forall>c\<in>set ws. c_isspace c \<Longrightarrow> parse_pairs ws extra k = Some (Some extra, k)"
proof -
  assume "\<forall>c\<in>set ws. c_isspace c"
  then have "CHR ''#'' \<notin> set ws"
    by (auto simp: c_isspace_def)
  then show ?thesis
    by (subst parse_pairs.simps) (simp add: c_strchr_None [THEN iffD2])
qed

definition live_of :: "kvp_entry list \<Rightarrow> kvp_entry list" where
  "live_of es = filter (\<lambda>e. valType e \<noteq> KT_INVALID) es"

lemma parse_formatted:
  assumes "\<forall>e\<in>set (live_of es). writable e" "distinct (map keyPtr (live_of es))" "nkeys k + length (live_of es) \<le> MAXKEYS"
    and "keyPtr ` set (live_of es) \<inter> keyPtr ` set (entries k) = {}" "\<forall>c\<in>set ws. c_isspace c"
  shows "parse_pairs (ws @ formatted es) extra k = Some (Some extra, fold add_entry (live_of es) k)"
  using assms
proof (induction es arbitrary: k ws)
  case Nil
  then show ?case
    by (simp add: parse_spaces live_of_def)
next
  case (Cons e es)
  show ?case
  proof (cases "valType e = KT_INVALID")
    case True
    then show ?thesis
      using Cons by (simp add: live_of_def)
  next
    case False
    define ws' where "ws' = (if es = [] then [] else [NEWLINE])"
    have ws': "\<forall>c\<in>set ws'. c_isspace c"
      by (simp add: ws'_def NEWLINE_def c_isspace_def)
    have live: "live_of (e # es) = e # live_of es"
      using False by (simp add: live_of_def)
    have e: "writable e" "nkeys k < MAXKEYS" "keyPtr e \<notin> keyPtr ` set (entries k)"
      using Cons.prems live by auto
    have "parse_pairs (ws @ formatted (e # es)) extra k = parse_pairs (ws @ format_entry e @ ws' @ formatted es) extra k"
      using False by (simp add: ws'_def)
    also have "\<dots> = parse_pairs (ws' @ formatted es) extra (add_entry e k)"
      by (rule parse_written_entry [OF e Cons.prems(5)])
    also have "\<dots> = Some (Some extra, fold add_entry (live_of es) (add_entry e k))"
      using Cons.prems live ws' by (intro Cons.IH) auto
    finally show ?thesis
      by (simp add: live)
  qed
qed

lemma fold_add_entry:
  "entries (fold add_entry es k) = entries k @ es" "nkeys (fold add_entry es k) = nkeys k + length es"
  "spaceLeft (fold add_entry es k) = spaceLeft k" "dangling (fold add_entry es k) = dangling k"
  "kvpAllocated (fold add_entry es k) = kvpAllocated k" "kvpBufferSize (fold add_entry es k) = kvpBufferSize k"
  by (induction es arbitrary: k) (simp_all add: nkeys_def)

lemma table_inv_distinct: "table_inv k \<Longrightarrow> distinct (map keyPtr (live_of (entries k)))"
proof -
  assume "table_inv k"
  then have "sorted_wrt (\<lambda>a b. keyPtr a = keyPtr b \<longrightarrow> valType a = KT_INVALID) (live_of (entries k))"
    by (simp add: table_inv_def live_of_def sorted_wrt_filter)
  moreover have "\<forall>e\<in>set (live_of (entries k)). valType e \<noteq> KT_INVALID"
    by (simp add: live_of_def)
  moreover have "distinct (map keyPtr es)" if "sorted_wrt (\<lambda>a b. keyPtr a = keyPtr b \<longrightarrow> valType a = KT_INVALID) es"
      "\<forall>e\<in>set es. valType e \<noteq> KT_INVALID" for es
    using that by (induction es) auto
  ultimately show ?thesis
    by blast
qed

lemma parse_pairs_space:
  assumes "\<forall>c\<in>set ws. c_isspace c"
  shows "parse_pairs (ws @ s) extra k = parse_pairs s extra k"
proof -
  have "CHR ''#'' \<notin> set ws"
    using assms by (auto simp: c_isspace_def)
  then have "c_strchr CHR ''#'' (ws @ s) = map_option (apfst ((@) ws)) (c_strchr CHR ''#'' s)"
    by (induction ws) (auto simp: option.map_comp comp_def apfst_def map_prod_def split_def option.map_ident)
  then show ?thesis
    using c_trim_space [OF assms] by (subst (1 2) parse_pairs.simps) (auto split: option.splits)
qed

lemma parse_pairs_drop_space: "parse_pairs (dropWhile c_isspace s) extra k = parse_pairs s extra k"
proof -
  have "\<forall>c\<in>set (takeWhile c_isspace s). c_isspace c"
    by (auto dest: set_takeWhileD)
  from parse_pairs_space [OF this, of "dropWhile c_isspace s"] show ?thesis
    by simp
qed

text \<open>
  A table that is written, reset and parsed again: the entries with a type come back in order.
\<close>

lemma kvpParse_ok:
  assumes "parse_pairs s 0 (parse_room (int (length s) + 1) k) = Some (Some 0, k')" "\<not> dangling k"
  shows "kvpParse s k = Some (Some (nkeys k'), k'\<lparr>spaceLeft := spaceLeft k' - (int (length s) + 1), lastError := KVP_E_OK\<rparr>)"
proof -
  have "\<not> dangling (parse_room (int (length s) + 1) k)"
    using assms(2) by (simp add: parse_room_def kvpInit_def kvpRealloc_def Let_def)
  then show ?thesis
    using assms(1) by (simp add: kvpParse_def parse_pairs_drop_space Let_def)
qed

lemma parse_room_entries [simp]:
  "entries (parse_room n k) = entries k" "nkeys (parse_room n k) = nkeys k" "dangling (parse_room n k) = dangling k"
  by (simp_all add: parse_room_def kvpInit_def kvpRealloc_def nkeys_def Let_def)

lemma reset_entries [simp]: "entries (kvpReset k) = []" "nkeys (kvpReset k) = 0" "\<not> dangling (kvpReset k)"
  by (simp_all add: kvpReset_def nkeys_def)

lemma format_parse:
  assumes "table_inv k" "\<forall>e\<in>set (live_of (entries k)). writable e" "nkeys k \<le> MAXKEYS"
    and "int (length (formatted (entries k))) < kvpBufferSize k"
  shows "\<exists>t k'. kvpWrite k = Some t \<and> kvpParse t (kvpReset k0) = Some (Some (length (live_of (entries k))), k')
    \<and> entries k' = live_of (entries k)"
proof -
  let ?es = "entries k" and ?t = "formatted (entries k)"
  define k1 where "k1 = parse_room (int (length ?t) + 1) (kvpReset k0)"
  have len: "length (live_of ?es) \<le> MAXKEYS"
    using assms(3) by (metis length_filter_le le_trans live_of_def nkeys_def)
  have "parse_pairs ([] @ ?t) 0 k1 = Some (Some 0, fold add_entry (live_of ?es) k1)"
    using assms(2) table_inv_distinct [OF assms(1)] len by (intro parse_formatted) (simp_all add: k1_def)
  then have "kvpParse ?t (kvpReset k0) = Some (Some (nkeys (fold add_entry (live_of ?es) k1)), (fold add_entry (live_of ?es) k1)
      \<lparr>spaceLeft := spaceLeft (fold add_entry (live_of ?es) k1) - (int (length ?t) + 1), lastError := KVP_E_OK\<rparr>)"
    by (intro kvpParse_ok) (simp_all add: k1_def)
  moreover have "kvpWrite k = Some ?t"
    using assms(4) by (simp add: kvpWrite_def kvpFormat_def format_entries_room)
  ultimately show ?thesis
    by (simp add: fold_add_entry k1_def)
qed

end
