(* ===== verification/Key_Value_Store.thy ===== *)
theory Key_Value_Store
  imports Key_Value_Facts
begin

text \<open>
  The calls of the key/value store together: every sequence of calls keeps the table well typed, a
  written table is read back, an updated value is returned by the next look-up.
\<close>

section \<open>Reachable stores\<close>

text \<open>
  The values that are stored in full: a string must leave room for its terminator, which
  \<open>kvpSetString\<close> and \<open>kvpUpdateString\<close> do not reserve, and may not contain the separator.
\<close>

definition set_fits :: "string \<Rightarrow> kvp_value \<Rightarrow> kvp \<Rightarrow> bool" where
  "set_fits key v k \<longleftrightarrow> c_trim key = key \<and> take 2 key \<noteq> ''//'' \<and> value_ok v
     \<and> (case v of String_value s \<Rightarrow> CHR '';'' \<notin> set s \<and> kvpAllocated k \<and> int (length key) + 1 + int (length s) < spaceLeft k | _ \<Rightarrow> True)"

inductive kvp_reach :: "kvp \<Rightarrow> bool" where
  start: "kvp_reach kvp_start"
| reset: "kvp_reach k \<Longrightarrow> kvp_reach (kvpReset k)"
| parse: "kvp_reach k \<Longrightarrow> kvpParse record k = Some (n, k') \<Longrightarrow> kvp_reach k'"
| set: "kvp_reach k \<Longrightarrow> set_fits key v k \<Longrightarrow> kvpSet key v k = Some (e, k') \<Longrightarrow> kvp_reach k'"
| update: "kvp_reach k \<Longrightarrow> value_ok v \<Longrightarrow> update_fits v k \<Longrightarrow> kvpUpdate key v k = Some (e, k') \<Longrightarrow> kvp_reach k'"

lemma table_inv_cong: "entries k' = entries k \<Longrightarrow> staleTypes k' = staleTypes k \<Longrightarrow> table_inv k' = table_inv k"
  by (simp add: table_inv_def)

lemma kvpRealloc_table [simp]: "entries (kvpRealloc n k) = entries k" "staleTypes (kvpRealloc n k) = staleTypes k"
  "entries (kvpInit n k) = entries k" "staleTypes (kvpInit n k) = staleTypes k"
  by (simp_all add: kvpRealloc_def kvpInit_def Let_def)

lemma kvpReset_inv: "table_inv k \<Longrightarrow> table_inv (kvpReset k)"
  by (auto simp: table_inv_def kvpReset_def nkeys_def)

lemma kvpUpdate_error: "kvpUpdate key v k = Some (e, k') \<Longrightarrow> e \<noteq> KVP_E_OK \<Longrightarrow> entries k' = entries k \<and> staleTypes k' = staleTypes k"
  by (auto simp: kvpUpdate_def Let_def split: option.splits if_splits)

lemma kvpSet_cases:
  assumes "kvpSet key v k = Some (e, k')"
  obtains "entries k' = entries k" "staleTypes k' = staleTypes k"
  | t n where "kvpFindKey key k = None" "value_type v \<noteq> KT_UINT" "\<not> (\<exists>c\<in>set key. c \<in> set ''=;,#'')" "value_text n v = Some t"
      "entries k' = entries k @ [\<lparr>keyPtr = key, valPtr = t, valType = value_type v, nelements = int (value_count v)\<rparr>]"
      "staleTypes k' = staleTypes (set_stale (value_type v) k)"
      "kvpAllocated k \<longrightarrow> int (length key) + 1 + value_space v \<le> spaceLeft k \<longrightarrow> n = spaceLeft k - (int (length key) + 1)"
proof -
  define k1 where "k1 = (if kvpAllocated k then k else kvpInit 0 k)"
  define need where "need = int (length key) + 1 + value_space v"
  define k2 where "k2 = (if spaceLeft k1 < need then kvpRealloc need k1 else k1)"
  have same: "entries k1 = entries k" "staleTypes k1 = staleTypes k" "entries k2 = entries k" "staleTypes k2 = staleTypes k"
    by (simp_all add: k1_def k2_def)
  have find: "kvpFindKey key k1 = kvpFindKey key k"
    by (rule find_key_cong) (simp add: same)
  note s = assms [unfolded kvpSet_def Let_def, folded k1_def need_def, folded k2_def]
  show thesis
  proof (cases "kvpFindKey key k1 \<noteq> None \<or> MAXKEYS \<le> nkeys k1 \<or> value_type v = KT_UINT \<or> (\<exists>c\<in>set key. c \<in> set ''=;,#'')")
    case True
    then have "entries k' = entries k \<and> staleTypes k' = staleTypes k"
      using s same by (auto split: if_splits)
    then show thesis
      using that(1) by blast
  next
    case False
    then obtain t where t: "value_text (spaceLeft k2 - (int (length key) + 1)) v = Some t" and
      k': "k' = set_stale (value_type v) k2
                 \<lparr>entries := entries k2 @ [\<lparr>keyPtr = key, valPtr = t, valType = value_type v, nelements = int (value_count v)\<rparr>],
                  spaceLeft := spaceLeft k2 - (int (length key) + 1 + value_advance v t + 1), lastError := KVP_E_OK\<rparr>"
      using s by (auto split: if_splits)
    have "staleTypes k' = staleTypes (set_stale (value_type v) k)"
      by (simp add: k' set_stale_def same nkeys_def)
    then show thesis
      using False find same t by (intro that(2) [OF _ _ _ t]) (auto simp: k' k2_def k1_def need_def)
  qed
qed

lemma kvpSet_inv:
  assumes "table_inv k" "kvpSet key v k = Some (e, k')" "set_fits key v k"
  shows "table_inv k'"
  using assms(2)
proof (cases rule: kvpSet_cases)
  case 1
  then show ?thesis
    using assms(1) table_inv_cong by blast
next
  case (2 t n)
  let ?e = "\<lparr>keyPtr = key, valPtr = t, valType = value_type v, nelements = int (value_count v)\<rparr>"
  have ty: "stored_type v = value_type v"
    using 2(2) by (cases v) (simp_all add: stored_type_def)
  have room: "case v of String_value s \<Rightarrow> int (length s) < n | _ \<Rightarrow> True"
    using assms(3) 2(7) by (auto simp: set_fits_def split: kvp_value.splits)
  have fits: "value_ok v" "c_trim key = key" "take 2 key \<noteq> ''//''" "\<forall>s. v = String_value s \<longrightarrow> CHR '';'' \<notin> set s"
    using assms(3) by (auto simp: set_fits_def)
  have valid: "validateValue t (value_type v) = Some (int (value_count v))"
    using validate_value_text [OF fits(1) 2(4) room] ty by simp
  have "CHR '';'' \<notin> set t"
  proof (cases "value_type v = KT_STRING")
    case True
    then obtain s where "v = String_value s"
      by (cases v) auto
    then show ?thesis
      using fits(4) 2(4) by (auto simp: c_snprintf_def dest: in_set_takeD split: if_splits)
  next
    case False
    have "scan_chars (value_type v) t scan_start \<noteq> None"
      using valid by (auto simp: validateValue_def split: option.splits)
    then show ?thesis
      using scan_no_special [OF False] by auto
  qed
  then have "entry_ok ?e"
    using valid fits 2(3) by (auto simp: entry_ok_def)
  moreover have "\<forall>x\<in>set (entries k). keyPtr x \<noteq> key"
    using 2(1) fits(2) by (auto simp: find_key_None nkeys_def all_set_conv_all_nth)
  moreover have "\<forall>i. staleTypes k' i \<noteq> KT_UINT"
    using assms(1) 2(2) by (auto simp: 2(6) set_stale_def table_inv_def)
  ultimately show ?thesis
    using assms(1) 2(2) by (auto simp: table_inv_def 2(5) sorted_wrt_append)
qed

lemma kvp_reach_inv: "kvp_reach k \<Longrightarrow> table_inv k"
proof (induction rule: kvp_reach.induct)
  case start
  then show ?case
    by (simp add: table_inv_def kvp_start_def)
next
  case (update k v key e k')
  then show ?case
    using kvpUpdate_inv [OF update.IH] kvpUpdate_error table_inv_cong by (cases "e = KVP_E_OK") blast+
qed (use kvpReset_inv kvpParse_inv kvpSet_inv in blast)+

lemma live_entry_found:
  assumes "table_inv k" "e \<in> set (entries k)" "valType e \<noteq> KT_INVALID"
  shows "lookup_key (keyPtr e) k = Some e"
proof -
  obtain i where i: "i < length (entries k)" "entries k ! i = e"
    using assms(2) by (auto simp: in_set_conv_nth)
  have "c_trim (keyPtr e) = keyPtr e"
    using assms by (auto simp: table_inv_def entry_ok_def)
  moreover have "keyPtr (entries k ! j) \<noteq> keyPtr e" if "i < j" "j < nkeys k" for j
    using assms(1,3) i that by (auto simp: table_inv_def nkeys_def sorted_wrt_iff_nth_less)
  ultimately have "kvpFindKey (keyPtr e) k = Some i"
    using i by (simp add: find_key_Some nkeys_def)
  then show ?thesis
    using i(2) by (simp add: lookup_key_def)
qed

section \<open>Properties\<close>


definition example_record :: string where
  "example_record = ''rate#I2=1,-20;name#S3=abc;''"

definition example_store :: kvp where
  "example_store = (case kvpParse example_record kvp_start of Some (_, k) \<Rightarrow> k | None \<Rightarrow> kvp_start)"

lemma example_store_entries:
  "entries example_store = [\<lparr>keyPtr = ''rate'', valPtr = ''1,-20'', valType = KT_INT, nelements = 2\<rparr>,
     \<lparr>keyPtr = ''name'', valPtr = ''abc'', valType = KT_STRING, nelements = 3\<rparr>]"
  "nkeys example_store = 2" "kvpBufferSize example_store = 20480"
  by code_simp+

lemma example_reach: "kvp_reach example_store"
proof -
  have "kvpParse example_record kvp_start = Some (Some 2, example_store)"
  proof -
    have "map_option fst (kvpParse example_record kvp_start) = Some (Some 2)"
      by code_simp
    then show ?thesis
      by (auto simp: example_store_def)
  qed
  then show ?thesis
    using kvp_reach.start kvp_reach.parse by blast
qed


text \<open>
  C21. What \<open>kvpWrite\<close> writes from a reachable store whose text fits the buffer, read with \<open>kvpParse\<close>
  into an emptied store, gives the entries that are not invalidated, in their order.
\<close>

theorem store_roundtrip:
  assumes "kvp_reach k" "\<forall>e\<in>set (live_of (entries k)). keyPtr e \<noteq> [] \<and> nelements e < 2 ^ 31" "nkeys k \<le> MAXKEYS"
    and "int (length (formatted (entries k))) < kvpBufferSize k"
  shows "\<exists>t k'. kvpWrite k = Some t \<and> kvpParse t (kvpReset k) = Some (Some (length (live_of (entries k))), k')
    \<and> entries k' = live_of (entries k)"
proof (rule format_parse [OF kvp_reach_inv [OF assms(1)] _ assms(3,4)])
  show "\<forall>e\<in>set (live_of (entries k)). writable e"
  proof
    fix e
    assume e: "e \<in> set (live_of (entries k))"
    then have "e \<in> set (entries k)" "valType e \<noteq> KT_INVALID"
      by (auto simp: live_of_def)
    then have "entry_ok e" "valType e \<noteq> KT_UINT"
      using kvp_reach_inv [OF assms(1)] by (auto simp: table_inv_def)
    then show "writable e"
      using assms(2) e \<open>valType e \<noteq> KT_INVALID\<close> by (cases "valType e") (auto simp: writable_def)
  qed
qed

lemma store_roundtrip_witness:
  "\<exists>t k'. kvpWrite example_store = Some t \<and> kvpParse t (kvpReset example_store) = Some (Some 2, k')
     \<and> entries k' = entries example_store"
proof -
  have "length (formatted (entries example_store)) < 100"
    by code_simp
  then show ?thesis
    using store_roundtrip [OF example_reach] by (simp add: example_store_entries live_of_def MAXKEYS_def numeral_2_eq_2)
qed

text \<open>
  After a successful \<open>kvpUpdateIntArray\<close> the values are what \<open>kvpGetIntArray\<close> returns for the key, in
  an array and with a limit that are large enough, and no other key has changed.
\<close>

theorem updated_array_read:
  assumes "kvpUpdateIntArray key js k = Some (KVP_E_OK, k')" "\<forall>i\<in>set js. - (2 ^ 31) \<le> i \<and> i < 2 ^ 31"
    and "length js \<le> length values" "int (length js) \<le> n"
  shows "(\<exists>k2. kvpGetIntArray key values n k' = Some (KVP_E_OK, js @ drop (length js) values, int (length js), k2))
    \<and> (\<forall>key'. c_trim key' \<noteq> c_trim key \<longrightarrow> lookup_key key' k' = lookup_key key' k)"
proof
  have "valType e = KT_INT" if "lookup_key key k = Some e" for e
    using assms(1) that by (auto simp: kvpUpdateIntArray_def kvpUpdate_def lookup_key_def Let_def split: option.splits if_splits)
  then show "\<exists>k2. kvpGetIntArray key values n k' = Some (KVP_E_OK, js @ drop (length js) values, int (length js), k2)"
    using assms by (intro get_int_array_update)
  show "\<forall>key'. c_trim key' \<noteq> c_trim key \<longrightarrow> lookup_key key' k' = lookup_key key' k"
    by (rule lookup_update [OF assms(1) [unfolded kvpUpdateIntArray_def]]) simp
qed

lemma updated_array_read_witness:
  "\<exists>k' k2. kvpUpdateIntArray ''rate'' [3, -4, 5] example_store = Some (KVP_E_OK, k')
     \<and> kvpGetIntArray ''rate'' [0, 0, 0, 9] 4 k' = Some (KVP_E_OK, [3, -4, 5, 9], 3, k2)"
proof -
  have "map_option fst (kvpUpdateIntArray ''rate'' [3, -4, 5] example_store) = Some KVP_E_OK"
    by code_simp
  then obtain k' where k': "kvpUpdateIntArray ''rate'' [3, -4, 5] example_store = Some (KVP_E_OK, k')"
    by auto
  then show ?thesis
    using updated_array_read [OF k', of "[0, 0, 0, 9]" 4] by auto
qed

end
