(* ===== verification/Config_File.thy ===== *)
theory Config_File
  imports Key_Value_Facts
begin

text \<open>
  The configuration library \<open>src/common/configLib\<close>: sections \<open><name> ... </name>\<close> of a text file
  are read into the key/value store, a setting is changed by rewriting the whole file section by
  section and replacing it. The file system is a map from path names to contents; the paths that
  can be opened, the environment and the clock are parameters. \<open>None\<close> is an access outside an array.
\<close>

section \<open>State and environment\<close>

datatype ConfigErrorCode =
  CONFIG_E_OK | CONFIG_E_NOFILE | CONFIG_E_NESTING | CONFIG_E_EOF | CONFIG_E_SYSTEM | CONFIG_E_KVP | CONFIG_E_SECTION
  | CONFIG_E_UNNAMED

definition BLOCKNAME_MAX :: nat where "BLOCKNAME_MAX = 64"
definition MAX_BLOCKS :: nat where "MAX_BLOCKS = 32"
definition RECLEN_MAX :: nat where "RECLEN_MAX = 4096"

text \<open>
  \<open>strayByte\<close> is the byte in front of the line buffer of \<open>readBlock\<close>, which looks at it after an
  empty line.
\<close>

record config_env =
  configDir :: "string option"
  homeDir :: string
  canRead :: "string \<Rightarrow> bool"
  canWrite :: "string \<Rightarrow> bool"
  strayByte :: char

type_synonym file_system = "string \<Rightarrow> string option"

record config_state =
  files :: file_system
  store :: kvp
  inBlock :: bool

section \<open>Reading\<close>

lemma c_fgets_length: "c_fgets RECLEN_MAX s = Some (line, rest) \<Longrightarrow> length rest < length s"
  by (auto simp: c_fgets_def RECLEN_MAX_def split: if_splits)

text \<open>
  \<open>getTag\<close>: the name of the next section. A tag without its closing bracket, or with a name of 64
  characters, is copied past the array.
\<close>

function getTag :: "string \<Rightarrow> bool \<Rightarrow> (ConfigErrorCode \<times> string \<times> string \<times> bool) option" where
  "getTag s ib =
     (case c_fgets RECLEN_MAX s of
        None \<Rightarrow> Some (CONFIG_E_EOF, [], [], ib)
      | Some (line, rest) \<Rightarrow>
          let buffer = c_string line in
          if take 1 buffer = ''<'' then
            if take 1 (drop 1 buffer) \<noteq> ''/'' then
              (case c_strchr CHR ''>'' (drop 1 buffer) of
                 None \<Rightarrow> None
               | Some (name, _) \<Rightarrow> if BLOCKNAME_MAX \<le> length name then None else Some (CONFIG_E_OK, name, rest, True))
            else getTag rest False
          else if \<not> ib \<and> take 2 buffer \<noteq> ''//'' \<and> take 1 buffer \<noteq> [NEWLINE] then Some (CONFIG_E_UNNAMED, [], rest, ib)
          else getTag rest ib)"
  by pat_completeness auto
termination
  by (relation "measure (\<lambda>(s, _). length s)") (auto dest: c_fgets_length)

declare getTag.simps [simp del]

lemma getTag_length: "getTag s ib = Some (CONFIG_E_OK, name, rest, ib') \<Longrightarrow> length rest < length s"
proof (induction s ib rule: getTag.induct)
  case (1 s ib)
  show ?case
  proof (cases "c_fgets RECLEN_MAX s")
    case None
    then show ?thesis
      using 1(3) by (simp add: getTag.simps)
  next
    case (Some p)
    obtain line r where p: "p = (line, r)"
      by (cases p)
    have len: "length r < length s"
      using c_fgets_length Some p by blast
    show ?thesis
      using 1(3) Some p len 1(1,2) [OF Some p [symmetric] refl]
      by (subst (asm) getTag.simps) (fastforce simp: Let_def split: if_splits option.splits)
  qed
qed

definition checkTag :: "string list \<Rightarrow> string \<Rightarrow> bool" where
  "checkTag blockNames tag \<longleftrightarrow> tag \<in> set blockNames"

text \<open>
  \<open>readBlock\<close>: \<open>pre\<close> is what continued lines left in the buffer. The buffer is always given to
  \<open>fgets\<close> with its full size, so that continued lines can overrun it.
\<close>

function readBlock :: "char \<Rightarrow> string \<Rightarrow> string \<Rightarrow> kvp \<Rightarrow> (ConfigErrorCode \<times> string \<times> bool \<times> kvp) option" where
  "readBlock stray s pre k =
     (case c_fgets RECLEN_MAX s of
        None \<Rightarrow> Some (CONFIG_E_EOF, [], True, k)
      | Some (raw, rest) \<Rightarrow>
          let line = c_string raw in
          if RECLEN_MAX < length pre + length raw + 1 then None
          else if take 1 line = ''<'' then
            if take 1 (drop 1 line) = ''/'' then Some (CONFIG_E_OK, rest, False, k) else Some (CONFIG_E_NESTING, rest, True, k)
          else if line = [] \<or> take 2 line = ''//'' then readBlock stray rest pre k
          else
            let buffer = pre @ line; buffer = (if last buffer = NEWLINE then butlast buffer else buffer);
                e = (if buffer = [] then stray else last buffer) in
            if e = BACKSLASH then if buffer = [] then None else readBlock stray rest (butlast buffer) k
            else (case kvpParse buffer k of
                None \<Rightarrow> None
              | Some (None, k) \<Rightarrow> Some (CONFIG_E_KVP, rest, True, k)
              | Some (Some _, k) \<Rightarrow> readBlock stray rest [] k))"
  by pat_completeness auto
termination
  by (relation "measure (\<lambda>(_, s, _, _). length s)") (auto dest: c_fgets_length)

declare readBlock.simps [simp del]

lemma readBlock_length: "readBlock stray s pre k = Some (status, rest, ib, k') \<Longrightarrow> length rest \<le> length s"
proof (induction stray s pre k rule: readBlock.induct)
  case (1 stray s pre k)
  show ?case
  proof (cases "c_fgets RECLEN_MAX s")
    case None
    then show ?thesis
      using 1(4) by (simp add: readBlock.simps)
  next
    case (Some p)
    obtain raw r where p: "p = (raw, r)"
      by (cases p)
    note len = c_fgets_length [OF Some [unfolded p]]
    note IH = 1(1-3) [OF Some p [symmetric] refl]
    show ?thesis
      using 1(4) Some p len
      by (subst (asm) readBlock.simps)
        (auto simp: Let_def dest!: IH [rotated -1] split: if_splits option.splits intro: less_imp_le)
  qed
qed

text \<open>The names in a list separated by commas; a name or a number of names that is too long overruns the array.\<close>

fun split_commas :: "string \<Rightarrow> string list" where
  "split_commas [] = [[]]"
| "split_commas (c # s) = (if c = CHR '','' then [] # split_commas s
     else case split_commas s of [] \<Rightarrow> [[c]] | x # xs \<Rightarrow> (c # x) # xs)"

definition parseBlockList :: "string \<Rightarrow> string list option" where
  "parseBlockList blockList =
     (let names = split_commas blockList in
      if MAX_BLOCKS < length names \<or> (\<exists>n\<in>set names. BLOCKNAME_MAX \<le> length n) then None else Some names)"

text \<open>The search for a section of the list.\<close>

function find_block :: "string list \<Rightarrow> string \<Rightarrow> bool \<Rightarrow> (ConfigErrorCode \<times> string \<times> bool) option" where
  "find_block names s ib =
     (case getTag s ib of
        None \<Rightarrow> None
      | Some (status, tag, rest, ib') \<Rightarrow>
          if status = CONFIG_E_OK then if checkTag names tag then Some (CONFIG_E_OK, rest, ib') else find_block names rest ib'
          else if status = CONFIG_E_EOF then Some (CONFIG_E_SECTION, rest, ib')
          else Some (status, rest, ib'))"
  by pat_completeness auto
termination
  by (relation "measure (\<lambda>(_, s, _). length s)") (auto dest: getTag_length)

declare find_block.simps [simp del]

text \<open>The loop of \<open>configLoad\<close> with \<open>n + 1\<close> sections to read.\<close>

fun load_blocks :: "char \<Rightarrow> string list \<Rightarrow> nat \<Rightarrow> string \<Rightarrow> kvp \<Rightarrow> (ConfigErrorCode \<times> bool \<times> kvp) option" where
  "load_blocks stray names n s k =
     (case find_block names s False of
        None \<Rightarrow> None
      | Some (status, rest, ib) \<Rightarrow>
          if status \<noteq> CONFIG_E_OK then Some (status, ib, k)
          else (case readBlock stray rest [] k of
              None \<Rightarrow> None
            | Some (status, rest, ib, k) \<Rightarrow>
                (case n of 0 \<Rightarrow> Some (status, ib, k)
                 | Suc m \<Rightarrow> if status = CONFIG_E_OK then load_blocks stray names m rest k else Some (status, ib, k))))"

declare load_blocks.simps [simp del]

definition configFileSpec :: "config_env \<Rightarrow> string \<Rightarrow> string" where
  "configFileSpec env fileName =
     (case configDir env of None \<Rightarrow> ''/home/anita/flightSoft/config'' | Some d \<Rightarrow> d) @ ''/'' @ fileName"

text \<open>\<open>fopen\<close> for reading.\<close>

definition open_read :: "config_env \<Rightarrow> string \<Rightarrow> file_system \<Rightarrow> ConfigErrorCode + string" where
  "open_read env path fs =
     (case fs path of None \<Rightarrow> Inl CONFIG_E_NOFILE | Some s \<Rightarrow> if canRead env path then Inr s else Inl CONFIG_E_SYSTEM)"

definition configLoadFullPath :: "config_env \<Rightarrow> string \<Rightarrow> string \<Rightarrow> config_state \<Rightarrow> (ConfigErrorCode \<times> config_state) option" where
  "configLoadFullPath env fileSpec blockList st =
     (case parseBlockList blockList of None \<Rightarrow> None
      | Some names \<Rightarrow>
          (case open_read env fileSpec (files st) of
             Inl e \<Rightarrow> Some (e, st)
           | Inr s \<Rightarrow> map_option (\<lambda>(status, ib, k). (status, st\<lparr>store := k, inBlock := ib\<rparr>))
                 (load_blocks (strayByte env) names (length names - 1) s (store st))))"

definition configLoad :: "config_env \<Rightarrow> string \<Rightarrow> string \<Rightarrow> config_state \<Rightarrow> (ConfigErrorCode \<times> config_state) option" where
  "configLoad env fileName blockList st = configLoadFullPath env (configFileSpec env fileName) blockList st"

text \<open>\<open>readBlocks\<close>: the names of all sections; \<open>inBlock\<close> keeps the value of the last load.\<close>

function read_names :: "string \<Rightarrow> bool \<Rightarrow> (ConfigErrorCode \<times> string list \<times> bool) option" where
  "read_names s ib =
     (case getTag s ib of
        None \<Rightarrow> None
      | Some (status, tag, rest, ib') \<Rightarrow>
          if status = CONFIG_E_OK then map_option (\<lambda>(st, names, ib''). (st, tag # names, ib'')) (read_names rest ib')
          else Some (status, [], ib'))"
  by pat_completeness auto
termination
  by (relation "measure (\<lambda>(s, _). length s)") (auto dest: getTag_length)

declare read_names.simps [simp del]

definition readBlocks :: "config_env \<Rightarrow> string \<Rightarrow> config_state \<Rightarrow> (ConfigErrorCode \<times> string list \<times> config_state) option" where
  "readBlocks env fileName st =
     (case open_read env (configFileSpec env fileName) (files st) of
        Inl e \<Rightarrow> Some (e, [], st)
      | Inr s \<Rightarrow>
          (case read_names s (inBlock st) of None \<Rightarrow> None
           | Some (status, names, ib) \<Rightarrow> if MAX_BLOCKS < length names then None else Some (status, names, st\<lparr>inBlock := ib\<rparr>)))"

text \<open>\<open>configValidate\<close> reads every section into an empty store. It returns without closing the file.\<close>

function validate_blocks :: "char \<Rightarrow> string \<Rightarrow> bool \<Rightarrow> kvp \<Rightarrow> (ConfigErrorCode \<times> bool \<times> kvp) option" where
  "validate_blocks stray s ib k =
     (case getTag s ib of
        None \<Rightarrow> None
      | Some (status, tag, rest, ib) \<Rightarrow>
          if status = CONFIG_E_EOF then Some (CONFIG_E_OK, ib, k)
          else if status \<noteq> CONFIG_E_OK then Some (status, ib, k)
          else (case readBlock stray rest [] k of None \<Rightarrow> None
            | Some (status, rest', ib, k) \<Rightarrow>
                if status = CONFIG_E_OK then validate_blocks stray rest' ib (kvpReset k) else Some (status, ib, kvpReset k)))"
  by pat_completeness auto
termination
  by (relation "measure (\<lambda>(_, s, _, _). length s)")
    (auto dest!: getTag_length readBlock_length intro: le_less_trans)

declare validate_blocks.simps [simp del]

definition configValidate :: "config_env \<Rightarrow> string \<Rightarrow> config_state \<Rightarrow> (ConfigErrorCode \<times> config_state) option" where
  "configValidate env fileName st =
     (case open_read env (configFileSpec env fileName) (files st) of
        Inl e \<Rightarrow> Some (e, st)
      | Inr s \<Rightarrow> map_option (\<lambda>(status, ib, k). (status, st\<lparr>store := k, inBlock := ib\<rparr>))
            (validate_blocks (strayByte env) s (inBlock st) (kvpReset (store st))))"

section \<open>Files\<close>

text \<open>
  The directory that the writers take. Unlike \<open>configFileSpec\<close> they go to the working directory or
  to the home directory when the environment variable is not set.
\<close>

definition configPath :: "config_env \<Rightarrow> string \<Rightarrow> file_system \<Rightarrow> string" where
  "configPath env fileName fs =
     (case configDir env of Some d \<Rightarrow> d | None \<Rightarrow> if fs fileName \<noteq> None then ''./'' else homeDir env)"

definition copyFile2 :: "config_env \<Rightarrow> string \<Rightarrow> string \<Rightarrow> file_system \<Rightarrow> file_system" where
  "copyFile2 env theFile newFile fs =
     (case open_read env theFile fs of Inl _ \<Rightarrow> fs
      | Inr s \<Rightarrow> if canWrite env newFile then fs(newFile \<mapsto> s) else fs)"

definition rename_file :: "config_env \<Rightarrow> string \<Rightarrow> string \<Rightarrow> file_system \<Rightarrow> file_system" where
  "rename_file env old new fs =
     (case fs old of None \<Rightarrow> fs | Some s \<Rightarrow> if canWrite env new then (fs(old := None))(new \<mapsto> s) else fs)"

definition unlink_file :: "string \<Rightarrow> file_system \<Rightarrow> file_system" where
  "unlink_file path fs = fs(path := None)"

section \<open>Writing\<close>

text \<open>
  The text of a section. The tags are written through a small array: the opening tag of the first
  section is cut after 65 characters, the others after 65 and 66.
\<close>

definition store_open :: "string \<Rightarrow> string" where
  "store_open blockName = c_snprintf (BLOCKNAME_MAX + 2) (''<'' @ blockName @ ''>'' @ [NEWLINE])"

definition append_open :: "string \<Rightarrow> string" where
  "append_open blockName = c_snprintf (BLOCKNAME_MAX + 2) ([NEWLINE, NEWLINE] @ ''<'' @ blockName @ ''>'' @ [NEWLINE])"

definition block_close :: "string \<Rightarrow> string" where
  "block_close blockName = c_snprintf (BLOCKNAME_MAX + 3) ([NEWLINE] @ ''</'' @ blockName @ ''>'' @ [NEWLINE])"

text \<open>What both writers do with the text \<open>before\<close> the section: a failing \<open>kvpWrite\<close> leaves the opening tag.\<close>

definition write_block :: "string \<Rightarrow> string \<Rightarrow> string \<Rightarrow> string \<Rightarrow> config_state \<Rightarrow> ConfigErrorCode \<times> config_state" where
  "write_block path before tag blockName st =
     (case kvpWrite (store st) of
        None \<Rightarrow> (CONFIG_E_KVP, st\<lparr>files := (files st)(path \<mapsto> before @ tag)\<rparr>)
      | Some t \<Rightarrow> (CONFIG_E_OK, st\<lparr>files := (files st)(path \<mapsto> before @ tag @ t @ block_close blockName)\<rparr>))"

definition configStore :: "config_env \<Rightarrow> string \<Rightarrow> string \<Rightarrow> config_state \<Rightarrow> ConfigErrorCode \<times> config_state" where
  "configStore env fileName blockName st =
     (let fileSpec = configPath env fileName (files st) @ ''/'' @ fileName in
      if canWrite env fileSpec then write_block fileSpec [] (store_open blockName) blockName st else (CONFIG_E_SYSTEM, st))"

definition configAppend :: "config_env \<Rightarrow> string \<Rightarrow> string \<Rightarrow> config_state \<Rightarrow> ConfigErrorCode \<times> config_state" where
  "configAppend env fileName blockName st =
     (let fileSpec = configPath env fileName (files st) @ ''/'' @ fileName;
          before = (case files st fileSpec of None \<Rightarrow> [] | Some s \<Rightarrow> s)
      in if canWrite env fileSpec then write_block fileSpec before (append_open blockName) blockName st else (CONFIG_E_SYSTEM, st))"

text \<open>\<open>configReplace\<close>; \<open>rawTime\<close> is the clock, \<open>None\<close> for a null pointer: then nothing is archived.\<close>

definition configReplace :: "config_env \<Rightarrow> string \<Rightarrow> string \<Rightarrow> int option \<Rightarrow> config_state \<Rightarrow> ConfigErrorCode \<times> config_state" where
  "configReplace env oldFileName newFileName rawTime st =
     (let fs = files st; d = configPath env oldFileName fs;
          old = d @ ''/'' @ oldFileName; previous = d @ ''/previous/'' @ oldFileName; new = d @ ''/'' @ newFileName
      in if fs new = None then (CONFIG_E_NOFILE, st)
         else if fs old = None then (CONFIG_E_NOFILE, st)
         else (CONFIG_E_OK, st\<lparr>files :=
           (case rawTime of
              Some t \<Rightarrow> rename_file env new old (rename_file env old (d @ ''/archive/'' @ oldFileName @ ''.'' @ show_int t)
                  (copyFile2 env old previous fs))
            | None \<Rightarrow> unlink_file new (copyFile2 env new old fs))\<rparr>))"

text \<open>
  \<open>configSwitch\<close> to one of the default files and \<open>configSwitchToLast\<close>, which exchanges the
  current and the previous file. \<open>whichConfig\<close> is a \<open>char\<close>: 128 and more count as negative.
\<close>

definition configSwitch :: "config_env \<Rightarrow> string \<Rightarrow> int \<Rightarrow> int \<Rightarrow> config_state \<Rightarrow> ConfigErrorCode \<times> config_state" where
  "configSwitch env configFile whichConfig rawTime st =
     (let fs = files st; d = configPath env configFile fs; w = s8 whichConfig;
          old = d @ ''/'' @ configFile; prev = d @ ''/previous/'' @ configFile;
          archive = d @ ''/archive/'' @ configFile @ ''.'' @ show_int rawTime;
          new = d @ ''/defaults/'' @ configFile @ (if w > 0 then ''.'' @ show_int w else [])
      in if fs new = None then (CONFIG_E_NOFILE, st)
         else if fs old = None then (CONFIG_E_NOFILE, st)
         else (CONFIG_E_OK, st\<lparr>files := copyFile2 env new old (rename_file env old archive (copyFile2 env old prev fs))\<rparr>))"

definition configSwitchToLast :: "config_env \<Rightarrow> string \<Rightarrow> int \<Rightarrow> config_state \<Rightarrow> ConfigErrorCode \<times> config_state" where
  "configSwitchToLast env configFile rawTime st =
     (let fs = files st; d = configPath env configFile fs;
          old = d @ ''/'' @ configFile; prev = d @ ''/previous/'' @ configFile;
          archive = d @ ''/archive/'' @ configFile @ ''.'' @ show_int rawTime; new = d @ ''/'' @ configFile @ ''.temp''
      in if fs prev = None then (CONFIG_E_NOFILE, st)
         else if fs old = None then (CONFIG_E_NOFILE, st)
         else (CONFIG_E_OK, st\<lparr>files := unlink_file new (copyFile2 env new old (copyFile2 env old archive
             (copyFile2 env old prev (copyFile2 env prev new fs))))\<rparr>))"

section \<open>Changing a setting\<close>

text \<open>
  The loop of the \<open>configModify\<close> functions over the sections: each that can be loaded is written
  to the new file, the first one with \<open>configStore\<close>; the wanted one is updated, errors are only
  printed.
\<close>

definition modify_step :: "config_env \<Rightarrow> string \<Rightarrow> string \<Rightarrow> string \<Rightarrow> kvp_value \<Rightarrow> nat \<Rightarrow> string \<Rightarrow> config_state \<Rightarrow> config_state option" where
  "modify_step env fileName blockName key v blockNum block st =
     (case configLoad env fileName block (st\<lparr>store := kvpReset (store st)\<rparr>) of
        None \<Rightarrow> None
      | Some (status, st) \<Rightarrow>
          if status \<noteq> CONFIG_E_OK then Some st
          else
            (case (if blockName = block then map_option snd (kvpUpdate key v (store st)) else Some (store st)) of
               None \<Rightarrow> None
             | Some k \<Rightarrow> Some (snd ((if blockNum = 0 then configStore else configAppend) env (fileName @ ''.new'') block (st\<lparr>store := k\<rparr>)))))"

fun modify_loop :: "config_env \<Rightarrow> string \<Rightarrow> string \<Rightarrow> string \<Rightarrow> kvp_value \<Rightarrow> nat \<Rightarrow> string list \<Rightarrow> config_state \<Rightarrow> config_state option" where
  "modify_loop env fileName blockName key v n [] st = Some st"
| "modify_loop env fileName blockName key v n (b # bs) st =
     (case modify_step env fileName blockName key v n b st of None \<Rightarrow> None
      | Some st \<Rightarrow> modify_loop env fileName blockName key v (Suc n) bs st)"

definition config_modify :: "config_env \<Rightarrow> string \<Rightarrow> string \<Rightarrow> string \<Rightarrow> kvp_value \<Rightarrow> int option \<Rightarrow> config_state
    \<Rightarrow> (ConfigErrorCode \<times> config_state) option" where
  "config_modify env fileName blockName key v rawTime st =
     (case readBlocks env fileName (st\<lparr>store := kvpReset (store st)\<rparr>) of
        None \<Rightarrow> None
      | Some (_, blocks, st) \<Rightarrow>
          map_option (configReplace env fileName (fileName @ ''.new'') rawTime)
            (modify_loop env fileName blockName key v 0 blocks st))"

definition configModifyInt where
  "configModifyInt env fileName blockName key value = config_modify env fileName blockName key (Int_values [value])"

definition configModifyIntArray where
  "configModifyIntArray env fileName blockName key vs = config_modify env fileName blockName key (Int_values vs)"

definition configModifyUnsignedIntArray where
  "configModifyUnsignedIntArray env fileName blockName key vs = config_modify env fileName blockName key (UInt_values vs)"

definition configModifyFloatArray where
  "configModifyFloatArray env fileName blockName key vs = config_modify env fileName blockName key (Float_values vs)"

definition configModifyUnsignedInt where
  "configModifyUnsignedInt env fileName blockName key value = config_modify env fileName blockName key (UInt_values [u32 value])"

definition configModifyFloat where
  "configModifyFloat env fileName blockName key value = config_modify env fileName blockName key (Float_values [value])"

definition configModifyString where
  "configModifyString env fileName blockName key value = config_modify env fileName blockName key (String_value value)"

end
