(* ===== verification/Config_Text.thy ===== *)
theory Config_Text
  imports Config_File
begin

text \<open>
  The text that the configuration library writes, and how it is read: \<open>file_text\<close> is the file with
  the given sections, and loading a section of it gives its entries.
\<close>

section \<open>Lines\<close>

definition line_ok :: "string \<Rightarrow> bool" where
  "line_ok l \<longleftrightarrow> NEWLINE \<notin> set l \<and> NUL \<notin> set l \<and> length l < RECLEN_MAX - 1"

lemma takeWhile_line: "NEWLINE \<notin> set l \<Longrightarrow> takeWhile (\<lambda>c. c \<noteq> NEWLINE) (l @ NEWLINE # r) = l"
  by (induction l) auto

lemma fgets_line: "line_ok l \<Longrightarrow> c_fgets RECLEN_MAX (l @ NEWLINE # r) = Some (l @ [NEWLINE], r)"
  by (simp add: c_fgets_def line_ok_def takeWhile_line RECLEN_MAX_def)

lemma c_string_line: "line_ok l \<Longrightarrow> c_string (l @ [NEWLINE]) = l @ [NEWLINE]"
  unfolding c_string_def by (intro takeWhile_eq_all_conv [THEN iffD2]) (auto simp: line_ok_def NEWLINE_def NUL_def)

lemma line_ok_nil [simp]: "line_ok []"
  by (simp add: line_ok_def RECLEN_MAX_def)

lemma take_line: "l \<noteq> [] \<Longrightarrow> take 1 (l @ x) = take 1 l"
  by (cases l) auto

lemma newline_chars [simp]:
  "NEWLINE \<noteq> CHR ''<''" "NEWLINE \<noteq> CHR ''/''" "NEWLINE \<noteq> BACKSLASH" "NEWLINE \<noteq> CHR ''>''" "NEWLINE \<noteq> NUL"
  "CHR ''<'' \<noteq> NEWLINE" "CHR '';'' \<noteq> BACKSLASH" "CHR '';'' \<noteq> NEWLINE"
  by (simp_all add: NEWLINE_def BACKSLASH_def NUL_def)

section \<open>Sections\<close>

text \<open>The name of a section that survives the tags, and the entries that survive their lines.\<close>

definition good_name :: "string \<Rightarrow> bool" where
  "good_name b \<longleftrightarrow> length b \<le> 60 \<and> take 1 b \<noteq> ''/'' \<and> (\<forall>c\<in>set b. c \<noteq> CHR ''>'' \<and> c \<noteq> CHR '','' \<and> c \<noteq> NEWLINE \<and> c \<noteq> NUL)"

definition clean_entry :: "kvp_entry \<Rightarrow> bool" where
  "clean_entry e \<longleftrightarrow> writable e \<and> take 1 (keyPtr e) \<noteq> ''<'' \<and> line_ok (format_entry e)"

definition clean_table :: "kvp_entry list \<Rightarrow> bool" where
  "clean_table es \<longleftrightarrow> (\<forall>e\<in>set (live_of es). clean_entry e) \<and> distinct (map keyPtr (live_of es)) \<and> length es \<le> MAXKEYS
     \<and> int (length (formatted es)) < KVP_MIN_BUFFER_SIZE"

definition section_text :: "string \<times> kvp_entry list \<Rightarrow> string" where
  "section_text s = (case s of (b, es) \<Rightarrow>
     ''<'' @ b @ ''>'' @ [NEWLINE] @ formatted es @ [NEWLINE] @ ''</'' @ b @ ''>'' @ [NEWLINE])"

fun file_text :: "(string \<times> kvp_entry list) list \<Rightarrow> string" where
  "file_text [] = []"
| "file_text (s # ss) = section_text s @ concat (map (\<lambda>s. [NEWLINE, NEWLINE] @ section_text s) ss)"

lemma snprintf_fits: "length s < n \<Longrightarrow> c_snprintf n s = s"
  by (simp add: c_snprintf_def)

lemma tags:
  assumes "good_name b"
  shows "store_open b = ''<'' @ b @ ''>'' @ [NEWLINE]" "append_open b = [NEWLINE, NEWLINE] @ ''<'' @ b @ ''>'' @ [NEWLINE]"
    "block_close b = [NEWLINE] @ ''</'' @ b @ ''>'' @ [NEWLINE]"
proof -
  have "length b \<le> 60"
    using assms by (simp add: good_name_def)
  then show "store_open b = ''<'' @ b @ ''>'' @ [NEWLINE]" "append_open b = [NEWLINE, NEWLINE] @ ''<'' @ b @ ''>'' @ [NEWLINE]"
    "block_close b = [NEWLINE] @ ''</'' @ b @ ''>'' @ [NEWLINE]"
    unfolding store_open_def append_open_def block_close_def by (simp_all add: snprintf_fits BLOCKNAME_MAX_def)
qed

section \<open>Reading the tags\<close>

lemma getTag_line:
  assumes "line_ok l" "take 1 l \<noteq> ''<''"
  shows "getTag (l @ NEWLINE # r) True = getTag r True"
proof -
  have "take 1 (l @ [NEWLINE]) \<noteq> ''<''"
    using assms(2) by (cases l) auto
  then show ?thesis
    using fgets_line [OF assms(1)] c_string_line [OF assms(1)] by (subst getTag.simps) simp
qed

lemma getTag_blank: "getTag (NEWLINE # r) ib = getTag r ib"
  using fgets_line [of "[]" r] c_string_line [of "[]"] by (subst getTag.simps) simp

lemma good_name_line: "good_name b \<Longrightarrow> line_ok (''<'' @ b @ ''>'')" "good_name b \<Longrightarrow> line_ok (''</'' @ b @ ''>'')"
  by (auto simp: good_name_def line_ok_def RECLEN_MAX_def NEWLINE_def NUL_def)

lemma getTag_close: "good_name b \<Longrightarrow> getTag (''</'' @ b @ ''>'' @ NEWLINE # r) ib = getTag r False"
proof -
  assume b: "good_name b"
  have "c_fgets RECLEN_MAX (''</'' @ b @ ''>'' @ NEWLINE # r) = Some (''</'' @ b @ ''>'' @ [NEWLINE], r)"
    using fgets_line [OF good_name_line(2) [OF b]] by simp
  moreover have "c_string (''</'' @ b @ ''>'' @ [NEWLINE]) = ''</'' @ b @ ''>'' @ [NEWLINE]"
    using c_string_line [OF good_name_line(2) [OF b]] by simp
  ultimately show ?thesis
    by (subst getTag.simps) simp
qed

lemma getTag_open: "good_name b \<Longrightarrow> getTag (''<'' @ b @ ''>'' @ NEWLINE # r) ib = Some (CONFIG_E_OK, b, r, True)"
proof -
  assume b: "good_name b"
  have "c_fgets RECLEN_MAX (''<'' @ b @ ''>'' @ NEWLINE # r) = Some (''<'' @ b @ ''>'' @ [NEWLINE], r)"
    using fgets_line [OF good_name_line(1) [OF b]] by simp
  moreover have "c_string (''<'' @ b @ ''>'' @ [NEWLINE]) = ''<'' @ b @ ''>'' @ [NEWLINE]"
    using c_string_line [OF good_name_line(1) [OF b]] by simp
  moreover have "take 1 (b @ ''>'' @ [NEWLINE]) \<noteq> ''/''"
    using b by (cases b) (auto simp: good_name_def)
  moreover have "c_strchr CHR ''>'' (b @ ''>'' @ [NEWLINE]) = Some (b, [NEWLINE])"
    using b c_strchr_append [of "CHR ''>''" b "[NEWLINE]"] by (auto simp: good_name_def)
  moreover have "length b < BLOCKNAME_MAX"
    using b by (simp add: good_name_def BLOCKNAME_MAX_def)
  ultimately show ?thesis
    by (subst getTag.simps) simp
qed

lemma clean_line: "clean_entry e \<Longrightarrow> take 1 (format_entry e) \<noteq> ''<''"
  by (cases "keyPtr e") (auto simp: clean_entry_def writable_def format_entry_def)

lemma getTag_body:
  assumes "\<forall>e\<in>set (live_of es). clean_entry e" "good_name b"
  shows "getTag (formatted es @ [NEWLINE] @ ''</'' @ b @ ''>'' @ NEWLINE # r) True = getTag r False"
  using assms(1)
proof (induction es)
  case Nil
  show ?case
    using getTag_close [OF assms(2)] getTag_blank by simp
next
  case (Cons e es)
  show ?case
  proof (cases "valType e = KT_INVALID")
    case True
    then show ?thesis
      using Cons by (simp add: live_of_def)
  next
    case False
    then have e: "clean_entry e"
      using Cons.prems by (simp add: live_of_def)
    then have skip: "getTag (format_entry e @ NEWLINE # s) True = getTag s True" for s
      using getTag_line clean_line by (simp add: clean_entry_def)
    show ?thesis
    proof (cases "es = []")
      case True
      then show ?thesis
        using False skip getTag_close [OF assms(2)] by simp
    next
      case es: False
      then show ?thesis
        using False skip Cons by (simp add: live_of_def)
    qed
  qed
qed

lemma find_block_cong: "getTag s ib = getTag s' ib' \<Longrightarrow> find_block names s ib = find_block names s' ib'"
  by (subst (1 2) find_block.simps) simp

lemma read_names_cong: "getTag s ib = getTag s' ib' \<Longrightarrow> read_names s ib = read_names s' ib'"
  by (subst (1 2) read_names.simps) simp

definition sections_ok :: "(string \<times> kvp_entry list) list \<Rightarrow> bool" where
  "sections_ok ss \<longleftrightarrow> (\<forall>(b, es)\<in>set ss. good_name b \<and> clean_table es)"

text \<open>A file in which every section may follow two blank lines.\<close>

definition rest_text :: "(string \<times> kvp_entry list) list \<Rightarrow> string" where
  "rest_text ss = concat (map (\<lambda>s. [NEWLINE, NEWLINE] @ section_text s) ss)"

lemma file_text_rest: "getTag (file_text ss) ib = getTag (rest_text ss) ib"
  by (cases ss) (simp_all add: rest_text_def getTag_blank)

lemma getTag_eof: "getTag [] ib = Some (CONFIG_E_EOF, [], [], ib)"
  by (subst getTag.simps) (simp add: c_fgets_def)

lemma read_names_rest: "sections_ok ss \<Longrightarrow> \<exists>ib'. read_names (rest_text ss) ib = Some (CONFIG_E_EOF, map fst ss, ib')"
proof (induction ss arbitrary: ib)
  case Nil
  then show ?case
    by (subst read_names.simps) (simp add: rest_text_def getTag_eof)
next
  case (Cons s ss)
  obtain b es where s: "s = (b, es)"
    by (cases s)
  have ok: "good_name b" "\<forall>e\<in>set (live_of es). clean_entry e" "sections_ok ss"
    using Cons.prems s by (auto simp: sections_ok_def clean_table_def)
  let ?body = "formatted es @ [NEWLINE] @ ''</'' @ b @ ''>'' @ NEWLINE # rest_text ss"
  have "getTag (rest_text (s # ss)) ib = Some (CONFIG_E_OK, b, ?body, True)"
    using getTag_open [OF ok(1)] by (simp add: rest_text_def s section_text_def getTag_blank)
  moreover have "read_names ?body True = read_names (rest_text ss) False"
    by (rule read_names_cong [OF getTag_body [OF ok(2,1)]])
  moreover obtain ib' where "read_names (rest_text ss) False = Some (CONFIG_E_EOF, map fst ss, ib')"
    using Cons.IH [OF ok(3)] by blast
  ultimately show ?case
    by (subst read_names.simps) (simp add: s)
qed

lemma read_names_file: "sections_ok ss \<Longrightarrow> \<exists>ib'. read_names (file_text ss) ib = Some (CONFIG_E_EOF, map fst ss, ib')"
  using read_names_rest read_names_cong [OF file_text_rest] by metis

lemma find_block_rest:
  assumes "sections_ok ss" "(b, es) \<in> set ss" "distinct (map fst ss)"
  shows "\<exists>r. find_block [b] (rest_text ss) ib = Some (CONFIG_E_OK, formatted es @ [NEWLINE] @ ''</'' @ b @ ''>'' @ NEWLINE # r, True)"
  using assms
proof (induction ss arbitrary: ib)
  case (Cons s ss)
  obtain c ds where s: "s = (c, ds)"
    by (cases s)
  have ok: "good_name c" "\<forall>e\<in>set (live_of ds). clean_entry e" "sections_ok ss"
    using Cons.prems s by (auto simp: sections_ok_def clean_table_def)
  let ?body = "formatted ds @ [NEWLINE] @ ''</'' @ c @ ''>'' @ NEWLINE # rest_text ss"
  have tag: "getTag (rest_text (s # ss)) ib = Some (CONFIG_E_OK, c, ?body, True)"
    using getTag_open [OF ok(1)] by (simp add: rest_text_def s section_text_def getTag_blank)
  show ?case
  proof (cases "c = b")
    case True
    then have "ds = es"
      using Cons.prems(2,3) s by (auto simp: rev_image_eqI)
    then show ?thesis
      using tag True by (intro exI [of _ "rest_text ss"], subst find_block.simps) (simp add: checkTag_def)
  next
    case False
    then have "find_block [b] (rest_text (s # ss)) ib = find_block [b] ?body True"
      using tag by (subst find_block.simps) (simp add: checkTag_def)
    also have "\<dots> = find_block [b] (rest_text ss) False"
      by (rule find_block_cong [OF getTag_body [OF ok(2,1)]])
    finally show ?thesis
      using Cons.IH [OF ok(3)] Cons.prems False s by auto
  qed
qed simp

lemma find_block_file:
  assumes "sections_ok ss" "(b, es) \<in> set ss" "distinct (map fst ss)"
  shows "\<exists>r. find_block [b] (file_text ss) ib = Some (CONFIG_E_OK, formatted es @ [NEWLINE] @ ''</'' @ b @ ''>'' @ NEWLINE # r, True)"
  using find_block_rest [OF assms] find_block_cong [OF file_text_rest] by metis

section \<open>Reading a section\<close>

text \<open>What parsing leaves alone, and the state of the buffer between the lines.\<close>

definition room_inv :: "kvp \<Rightarrow> bool" where
  "room_inv k \<longleftrightarrow> \<not> dangling k \<and> (kvpAllocated k \<longrightarrow> KVP_MIN_BUFFER_SIZE \<le> kvpBufferSize k) \<and> (entries k \<noteq> [] \<longrightarrow> kvpAllocated k)"

lemma parse_room_size: "room_inv k \<Longrightarrow> kvpAllocated (parse_room n k) \<and> KVP_MIN_BUFFER_SIZE \<le> kvpBufferSize (parse_room n k)"
  by (auto simp: room_inv_def parse_room_def kvpInit_def kvpRealloc_def KVP_MIN_BUFFER_SIZE_def Let_def)

lemma room_inv_reset [simp]: "room_inv (kvpReset k)"
  by (simp add: room_inv_def kvpReset_def)

lemma kvpParse_entry:
  assumes "clean_entry e" "nkeys k < MAXKEYS" "keyPtr e \<notin> keyPtr ` set (entries k)" "room_inv k"
  shows "\<exists>n k'. kvpParse (format_entry e) k = Some (Some n, k') \<and> entries k' = entries k @ [e] \<and> room_inv k'"
proof -
  let ?k = "parse_room (int (length (format_entry e)) + 1) k"
  have "parse_pairs ([] @ format_entry e @ []) 0 ?k = parse_pairs [] 0 (add_entry e ?k)"
    using assms by (intro parse_written_entry) (simp_all add: clean_entry_def)
  also have "\<dots> = Some (Some 0, add_entry e ?k)"
    by (rule parse_spaces) simp
  finally have "kvpParse (format_entry e) k = Some (Some (nkeys (add_entry e ?k)), (add_entry e ?k)
      \<lparr>spaceLeft := spaceLeft (add_entry e ?k) - (int (length (format_entry e)) + 1), lastError := KVP_E_OK\<rparr>)"
    using assms(4) by (intro kvpParse_ok) (simp_all add: room_inv_def)
  then show ?thesis
    using parse_room_size [OF assms(4)] assms(4) by (auto simp: room_inv_def)
qed

lemma kvpParse_empty:
  assumes "room_inv k"
  shows "\<exists>n k'. kvpParse [] k = Some (Some n, k') \<and> entries k' = entries k \<and> room_inv k'"
proof -
  let ?k = "parse_room (int (length ([] :: string)) + 1) k"
  have "parse_pairs [] 0 ?k = Some (Some 0, ?k)"
    by (rule parse_spaces) simp
  from kvpParse_ok [OF this] assms show ?thesis
    using parse_room_size [OF assms, of "int (length ([] :: string)) + 1"] by (auto simp: room_inv_def)
qed

lemma readBlock_line:
  assumes "line_ok l" "take 1 l \<noteq> ''<''" "take 2 l \<noteq> ''//''" "l = [] \<Longrightarrow> stray \<noteq> BACKSLASH" "l \<noteq> [] \<Longrightarrow> last l \<noteq> BACKSLASH"
    and "kvpParse l k = Some (Some n, k')"
  shows "readBlock stray (l @ NEWLINE # r) [] k = readBlock stray r [] k'"
proof -
  have "take 1 (l @ [NEWLINE]) \<noteq> ''<''" "take 2 (l @ [NEWLINE]) \<noteq> ''//''"
    using assms(2,3) by (cases l; cases "tl l"; auto simp: numeral_2_eq_2)+
  moreover have "\<not> RECLEN_MAX < length ([] :: string) + length (l @ [NEWLINE]) + 1"
    using assms(1) by (simp add: line_ok_def RECLEN_MAX_def)
  ultimately show ?thesis
    using fgets_line [OF assms(1)] c_string_line [OF assms(1)] assms(4-6)
    by (subst readBlock.simps) (auto simp: Let_def)
qed

lemma readBlock_close:
  assumes "good_name b"
  shows "readBlock stray (''</'' @ b @ ''>'' @ NEWLINE # r) [] k = Some (CONFIG_E_OK, r, False, k)"
proof -
  have "c_fgets RECLEN_MAX (''</'' @ b @ ''>'' @ NEWLINE # r) = Some (''</'' @ b @ ''>'' @ [NEWLINE], r)"
    using fgets_line [OF good_name_line(2) [OF assms]] by simp
  moreover have "c_string (''</'' @ b @ ''>'' @ [NEWLINE]) = ''</'' @ b @ ''>'' @ [NEWLINE]"
    using c_string_line [OF good_name_line(2) [OF assms]] by simp
  moreover have "\<not> RECLEN_MAX < length ([] :: string) + length (''</'' @ b @ ''>'' @ [NEWLINE]) + 1"
    using assms by (simp add: good_name_def RECLEN_MAX_def)
  ultimately show ?thesis
    by (subst readBlock.simps) simp
qed

lemma clean_entry_line:
  assumes "clean_entry e"
  shows "line_ok (format_entry e)" "take 1 (format_entry e) \<noteq> ''<''" "take 2 (format_entry e) \<noteq> ''//''"
    "format_entry e \<noteq> []" "last (format_entry e) \<noteq> BACKSLASH"
proof -
  show "line_ok (format_entry e)" "take 1 (format_entry e) \<noteq> ''<''"
    using assms clean_line by (auto simp: clean_entry_def)
  show "format_entry e \<noteq> []" "last (format_entry e) \<noteq> BACKSLASH"
    by (simp_all add: format_entry_def)
  have "keyPtr e \<noteq> []" "take 2 (keyPtr e) \<noteq> ''//''"
    using assms by (auto simp: clean_entry_def writable_def entry_ok_def)
  then show "take 2 (format_entry e) \<noteq> ''//''"
    by (cases "keyPtr e"; cases "tl (keyPtr e)") (auto simp: format_entry_def numeral_2_eq_2)
qed

lemma readBlock_body:
  assumes "\<forall>e\<in>set (live_of es). clean_entry e" "distinct (map keyPtr (live_of es))" "nkeys k + length (live_of es) \<le> MAXKEYS"
    and "keyPtr ` set (live_of es) \<inter> keyPtr ` set (entries k) = {}" "good_name b" "stray \<noteq> BACKSLASH" "room_inv k"
  shows "\<exists>k'. readBlock stray (formatted es @ [NEWLINE] @ ''</'' @ b @ ''>'' @ NEWLINE # r) [] k = Some (CONFIG_E_OK, r, False, k')
    \<and> entries k' = entries k @ live_of es \<and> room_inv k'"
  using assms(1-4,7)
proof (induction es arbitrary: k)
  case Nil
  obtain n k' where k': "kvpParse [] k = Some (Some n, k')" "entries k' = entries k" "room_inv k'"
    using kvpParse_empty [OF Nil(5)] by blast
  have "readBlock stray ([] @ NEWLINE # ''</'' @ b @ ''>'' @ NEWLINE # r) [] k = readBlock stray (''</'' @ b @ ''>'' @ NEWLINE # r) [] k'"
    using assms(6) k'(1) by (intro readBlock_line) auto
  then show ?case
    using readBlock_close [OF assms(5)] k' by (simp add: live_of_def)
next
  case (Cons e es)
  show ?case
  proof (cases "valType e = KT_INVALID")
    case True
    then show ?thesis
      using Cons by (simp add: live_of_def)
  next
    case False
    then have live: "live_of (e # es) = e # live_of es"
      by (simp add: live_of_def)
    have e: "clean_entry e" "nkeys k < MAXKEYS" "keyPtr e \<notin> keyPtr ` set (entries k)"
      using Cons.prems live by auto
    obtain n k1 where k1: "kvpParse (format_entry e) k = Some (Some n, k1)" "entries k1 = entries k @ [e]" "room_inv k1"
      using kvpParse_entry [OF e Cons.prems(5)] by blast
    have line: "readBlock stray (format_entry e @ NEWLINE # s) [] k = readBlock stray s [] k1" for s
      using clean_entry_line [OF e(1)] k1(1) by (intro readBlock_line) auto
    show ?thesis
    proof (cases "es = []")
      case True
      then show ?thesis
        using False line readBlock_close [OF assms(5)] k1 by (simp add: live_of_def)
    next
      case es: False
      have "nkeys k1 + length (live_of es) \<le> MAXKEYS" "keyPtr ` set (live_of es) \<inter> keyPtr ` set (entries k1) = {}"
        using Cons.prems live k1(2) by (auto simp: nkeys_def)
      then show ?thesis
        using Cons.IH [OF _ _ _ _ k1(3)] Cons.prems live False es line k1 by auto
    qed
  qed
qed

text \<open>Loading a section of a file that the library has written.\<close>

lemma split_commas_single: "CHR '','' \<notin> set s \<Longrightarrow> split_commas s = [s]"
  by (induction s) auto

lemma parseBlockList_name: "good_name b \<Longrightarrow> parseBlockList b = Some [b]"
proof -
  assume b: "good_name b"
  then have "split_commas b = [b]"
    by (intro split_commas_single) (auto simp: good_name_def)
  then show ?thesis
    using b by (simp add: parseBlockList_def good_name_def MAX_BLOCKS_def BLOCKNAME_MAX_def)
qed

lemma load_file_text:
  assumes "sections_ok ss" "(b, es) \<in> set ss" "distinct (map fst ss)" "stray \<noteq> BACKSLASH" "entries k = []" "room_inv k"
  shows "\<exists>ib k'. load_blocks stray [b] 0 (file_text ss) k = Some (CONFIG_E_OK, ib, k') \<and> entries k' = live_of es \<and> room_inv k'"
proof -
  obtain r where r: "find_block [b] (file_text ss) False
      = Some (CONFIG_E_OK, formatted es @ [NEWLINE] @ ''</'' @ b @ ''>'' @ NEWLINE # r, True)"
    using find_block_file [OF assms(1-3)] by blast
  have ok: "good_name b" "clean_table es"
    using assms(1,2) by (auto simp: sections_ok_def)
  have "length (live_of es) \<le> MAXKEYS"
    using ok(2) by (metis clean_table_def length_filter_le le_trans live_of_def)
  then obtain k' where "readBlock stray (formatted es @ [NEWLINE] @ ''</'' @ b @ ''>'' @ NEWLINE # r) [] k
      = Some (CONFIG_E_OK, r, False, k')" "entries k' = entries k @ live_of es" "room_inv k'"
    using readBlock_body [of es k b stray r] ok assms(4-6) by (auto simp: clean_table_def nkeys_def)
  then show ?thesis
    using r assms(5) by (intro exI [of _ False] exI [of _ k'], subst load_blocks.simps) simp
qed

end
