(* ===== verification/Config_Modify.thy ===== *)
theory Config_Modify
  imports Config_Text
begin

text \<open>
  Changing a setting: \<open>configModify\<close> rewrites a file whose sections can be loaded into the text of
  the same sections with one value changed, and the programs that load the file afterwards see
  the new value and no other change.
\<close>

section \<open>What a load keeps\<close>

lemma parse_value_fields:
  "parse_value key nel s k = Inl (k', r) \<Longrightarrow> kvpAllocated k' = kvpAllocated k \<and> kvpBufferSize k' = kvpBufferSize k \<and> dangling k' = dangling k"
  by (auto simp: parse_value_def Let_def split: option.splits if_splits)

lemma invalidate_key_fields [simp]:
  "kvpAllocated (invalidate_key key k) = kvpAllocated k" "kvpBufferSize (invalidate_key key k) = kvpBufferSize k"
  "dangling (invalidate_key key k) = dangling k"
  "kvpAllocated (set_stale ty k) = kvpAllocated k" "kvpBufferSize (set_stale ty k) = kvpBufferSize k"
  "dangling (set_stale ty k) = dangling k"
  by (simp_all add: invalidate_key_def set_stale_def split: option.splits)

lemma parse_pair_fields:
  "parse_pair key s k = Some (Inl (k', r)) \<Longrightarrow> kvpAllocated k' = kvpAllocated k \<and> kvpBufferSize k' = kvpBufferSize k \<and> dangling k' = dangling k"
  by (auto simp: parse_pair_def Let_def dest!: parse_value_fields split: list.splits if_splits)

lemma parse_pairs_fields:
  "parse_pairs s extra k = Some (Some n, k') \<Longrightarrow> kvpAllocated k' = kvpAllocated k \<and> kvpBufferSize k' = kvpBufferSize k \<and> dangling k' = dangling k"
proof (induction "length s" arbitrary: s k rule: less_induct)
  case less
  from less.prems show ?case
    by (cases rule: parse_pairs_cases) (use less.hyps parse_pair_fields in \<open>fastforce+\<close>)
qed

lemma kvpParse_room: "room_inv k \<Longrightarrow> kvpParse s k = Some (Some n, k') \<Longrightarrow> room_inv k'"
  using parse_room_size [of k "int (length s) + 1"]
  by (auto simp: kvpParse_def Let_def room_inv_def dest!: parse_pairs_fields split: option.splits if_splits)

lemma readBlock_room: "readBlock stray s pre k = Some (CONFIG_E_OK, r, ib, k') \<Longrightarrow> room_inv k \<Longrightarrow> room_inv k'"
proof (induction stray s pre k rule: readBlock.induct)
  case (1 stray s pre k)
  show ?case
  proof (cases "c_fgets RECLEN_MAX s")
    case None
    then show ?thesis
      using 1(4) by (simp add: readBlock.simps)
  next
    case (Some p)
    obtain raw r where p: "p = (raw, r)"
      by (cases p)
    note IH = 1(1-3) [OF Some p [symmetric] refl]
    show ?thesis
      using 1(4,5) Some p kvpParse_room
      by (subst (asm) readBlock.simps)
        (auto simp: Let_def dest!: IH [rotated -2] split: if_splits option.splits)
  qed
qed

section \<open>One value of a table\<close>

text \<open>The effect of \<open>kvpUpdate\<close> on the entries, for a value that is not a string and not an empty array.\<close>

definition number_value :: "kvp_value \<Rightarrow> bool" where
  "number_value v \<longleftrightarrow> value_text 0 v \<noteq> None"

definition find_entry :: "string \<Rightarrow> kvp_entry list \<Rightarrow> nat option" where
  "find_entry key es = kvpFindKey key (kvp_start\<lparr>entries := es\<rparr>)"

definition type_accepts :: "KeyType \<Rightarrow> kvp_value \<Rightarrow> bool" where
  "type_accepts ty v \<longleftrightarrow> ty = value_type v \<or> ty = KT_INT \<and> value_type v = KT_UINT"

definition update_entries :: "string \<Rightarrow> kvp_value \<Rightarrow> kvp_entry list \<Rightarrow> kvp_entry list" where
  "update_entries key v es =
     (case find_entry key es of None \<Rightarrow> es
      | Some i \<Rightarrow> if type_accepts (valType (es ! i)) v
          then es[i := (es ! i)\<lparr>valPtr := the (value_text 0 v), nelements := int (value_count v)\<rparr>] else es)"

lemma find_entry_kvp: "kvpFindKey key k = find_entry key (entries k)"
  unfolding find_entry_def by (rule find_key_cong) simp

lemma number_value_text: "number_value v \<Longrightarrow> value_text n v = Some (the (value_text 0 v))"
  by (cases v) (auto simp: number_value_def)

lemma kvpUpdate_number:
  assumes "number_value v" "room_inv k"
  shows "\<exists>err k'. kvpUpdate key v k = Some (err, k') \<and> entries k' = update_entries key v (entries k) \<and> room_inv k'"
proof (cases "find_entry key (entries k)")
  case None
  then show ?thesis
    using assms(2) by (simp add: kvpUpdate_def update_entries_def find_entry_kvp room_inv_def)
next
  case (Some i)
  define k1 where "k1 = (if spaceLeft k < value_space v then kvpRealloc (value_space v) k else k)"
  have k1: "entries k1 = entries k" "\<not> dangling k1"
    using assms(2) by (auto simp: k1_def kvpRealloc_def room_inv_def Let_def)
  have "i < length (entries k)"
    using Some find_key_Some [of key k i] by (simp add: find_entry_kvp nkeys_def)
  then have "room_inv (k1\<lparr>entries := es, spaceLeft := n, lastError := e\<rparr>)" for es n e
    using assms(2) by (auto simp: k1_def kvpRealloc_def room_inv_def Let_def KVP_MIN_BUFFER_SIZE_def)
  then show ?thesis
    using Some assms number_value_text [OF assms(1), of "spaceLeft k1"] k1
    by (auto simp: kvpUpdate_def update_entries_def find_entry_kvp type_accepts_def room_inv_def Let_def simp flip: k1_def)
qed

lemma kvpWrite_clean:
  assumes "clean_table (entries k)" "room_inv k"
  shows "kvpWrite k = Some (formatted (entries k))"
proof (cases "entries k = []")
  case True
  then show ?thesis
    by (simp add: kvpWrite_def kvpFormat_def)
next
  case False
  then have "KVP_MIN_BUFFER_SIZE \<le> kvpBufferSize k"
    using assms(2) by (simp add: room_inv_def)
  then show ?thesis
    using assms(1) by (simp add: kvpWrite_def kvpFormat_def format_entries_room clean_table_def)
qed

section \<open>The meaning of a file\<close>

text \<open>
  The sections of a file, in the order of \<open>readBlocks\<close>, with the entries that a load of the section
  into an empty store gives.
\<close>

definition file_means :: "char \<Rightarrow> string \<Rightarrow> (string \<times> kvp_entry list) list \<Rightarrow> bool" where
  "file_means stray s ss \<longleftrightarrow> distinct (map fst ss)
     \<and> (\<forall>ib. \<exists>status ib'. read_names s ib = Some (status, map fst ss, ib'))
     \<and> (\<forall>(b, es)\<in>set ss. good_name b
          \<and> (\<forall>k. \<exists>ib k'. load_blocks stray [b] 0 s (kvpReset k) = Some (CONFIG_E_OK, ib, k') \<and> entries k' = es))"

lemma file_text_means:
  assumes "sections_ok ss" "distinct (map fst ss)" "stray \<noteq> BACKSLASH"
  shows "file_means stray (file_text ss) (map (apsnd live_of) ss)"
proof -
  have names: "map fst (map (apsnd live_of) ss) = map fst ss"
    by (simp add: comp_def)
  have "\<exists>ib k'. load_blocks stray [b] 0 (file_text ss) (kvpReset k) = Some (CONFIG_E_OK, ib, k') \<and> entries k' = live_of es"
    if "(b, es) \<in> set ss" for b es k
    using load_file_text [OF assms(1) that assms(2,3), of "kvpReset k"] by auto
  moreover have "good_name b" if "(b, es) \<in> set ss" for b es
    using assms(1) that by (auto simp: sections_ok_def)
  moreover have "\<exists>status ib'. read_names (file_text ss) ib = Some (status, map fst ss, ib')" for ib
    using read_names_file [OF assms(1)] by blast
  ultimately show ?thesis
    using assms(2) unfolding file_means_def names by auto
qed

definition update_section :: "string \<Rightarrow> string \<Rightarrow> kvp_value \<Rightarrow> (string \<times> kvp_entry list) list \<Rightarrow> (string \<times> kvp_entry list) list" where
  "update_section block key v ss = map (\<lambda>(b, es). (b, if b = block then update_entries key v es else es)) ss"

lemma update_section_names [simp]: "map fst (update_section block key v ss) = map fst ss"
  by (simp add: update_section_def comp_def split_def)

section \<open>The loop over the sections\<close>

definition path_in :: "string \<Rightarrow> string \<Rightarrow> string" where
  "path_in d f = d @ ''/'' @ f"

lemma file_text_snoc: "ss \<noteq> [] \<Longrightarrow> file_text (ss @ [s]) = file_text ss @ [NEWLINE, NEWLINE] @ section_text s"
  by (cases ss) auto

lemma write_block_text:
  assumes "good_name b" "clean_table (entries (store st))" "room_inv (store st)"
  shows "write_block path before (pre @ ''<'' @ b @ ''>'' @ [NEWLINE]) b st
    = (CONFIG_E_OK, st\<lparr>files := (files st)(path \<mapsto> before @ pre @ section_text (b, entries (store st)))\<rparr>)"
  using kvpWrite_clean [OF assms(2,3)] tags(3) [OF assms(1)] by (simp add: write_block_def section_text_def)

lemma modify_step_text:
  assumes env: "configDir env = Some d" "canRead env (path_in d f)" "canWrite env (path_in d (f @ ''.new''))"
    and st: "files st (path_in d f) = Some s" "file_means (strayByte env) s ss" "(b, es) \<in> set ss"
    and v: "number_value v" and es': "es' = (if block = b then update_entries key v es else es)" "clean_table es'"
    and n: "n = 0 \<longrightarrow> pre = []" "n \<noteq> 0 \<longrightarrow> files st (path_in d (f @ ''.new'')) = Some before \<and> pre = before @ [NEWLINE, NEWLINE]"
  shows "\<exists>st'. modify_step env f block key v n b st = Some st'
    \<and> files st' = (files st)(path_in d (f @ ''.new'') \<mapsto> pre @ section_text (b, es'))"
proof -
  have b: "good_name b"
    using st(2,3) by (auto simp: file_means_def)
  obtain ib k where k: "load_blocks (strayByte env) [b] 0 s (kvpReset (store st)) = Some (CONFIG_E_OK, ib, k)" "entries k = es"
    using st(2,3) unfolding file_means_def by blast
  let ?st = "st\<lparr>store := k, inBlock := ib\<rparr>"
  have load: "configLoad env f b (st\<lparr>store := kvpReset (store st)\<rparr>) = Some (CONFIG_E_OK, ?st)"
    using env(1,2) st(1) k(1) parseBlockList_name [OF b]
    by (simp add: configLoad_def configLoadFullPath_def configFileSpec_def open_read_def path_in_def)
  have room: "room_inv k"
    using k(1) by (subst (asm) load_blocks.simps) (auto dest!: readBlock_room [OF _ room_inv_reset] split: option.splits if_splits)
  obtain err k1 where k1: "(if block = b then map_option snd (kvpUpdate key v k) else Some k) = Some k1"
      "entries k1 = es'" "room_inv k1"
    using kvpUpdate_number [OF v room, of key] room k(2) es'(1) by (cases "block = b") auto
  let ?new = "path_in d (f @ ''.new'')"
  define w where "w = (if n = 0 then configStore else configAppend)"
  have "snd (w env (f @ ''.new'') b (?st\<lparr>store := k1\<rparr>))
      = (?st\<lparr>store := k1\<rparr>)\<lparr>files := (files st)(?new \<mapsto> pre @ section_text (b, es'))\<rparr>"
  proof (cases "n = 0")
    case True
    then show ?thesis
      using write_block_text [OF b, of "?st\<lparr>store := k1\<rparr>" ?new "[]" "[]"] es'(2) k1(2,3) env n(1)
      by (simp add: w_def configStore_def configPath_def path_in_def tags(1) [OF b])
  next
    case False
    then show ?thesis
      using write_block_text [OF b, of "?st\<lparr>store := k1\<rparr>" ?new before "[NEWLINE, NEWLINE]"] es'(2) k1(2,3) env n(2)
      by (simp add: w_def configAppend_def configPath_def path_in_def tags(2) [OF b])
  qed
  moreover have "modify_step env f block key v n b st = Some (snd (w env (f @ ''.new'') b (?st\<lparr>store := k1\<rparr>)))"
  proof -
    have "(if block = b then map_option snd (kvpUpdate key v (store ?st)) else Some (store ?st)) = Some k1"
      using k1(1) by (cases "block = b") simp_all
    then show ?thesis
      by (simp only: modify_step_def load option.case prod.case w_def simp_thms if_False)
  qed
  ultimately show ?thesis
    by simp
qed

lemma path_new: "path_in d (f @ ''.new'') \<noteq> path_in d f"
  by (simp add: path_in_def)

lemma modify_loop_text:
  assumes env: "configDir env = Some d" "canRead env (path_in d f)" "canWrite env (path_in d (f @ ''.new''))"
    and st: "files st (path_in d f) = Some s" "file_means (strayByte env) s ss" "set todo \<subseteq> set ss"
    and v: "number_value v" "sections_ok (update_section block key v ss)"
    and "prior \<noteq> [] \<longrightarrow> files st (path_in d (f @ ''.new'')) = Some (file_text prior)" "prior \<noteq> [] \<or> todo \<noteq> []"
  shows "\<exists>st'. modify_loop env f block key v (length prior) (map fst todo) st = Some st'
    \<and> files st' = (files st)(path_in d (f @ ''.new'') \<mapsto> file_text (prior @ update_section block key v todo))"
  using st(1,3) assms(9,10)
proof (induction todo arbitrary: prior st)
  case Nil
  then show ?case
    by (auto simp: update_section_def)
next
  case (Cons sec todo)
  obtain b es where sec: "sec = (b, es)"
    by (cases sec)
  let ?new = "path_in d (f @ ''.new'')"
  define es' where "es' = (if block = b then update_entries key v es else es)"
  define pre where "pre = (if prior = [] then [] else file_text prior @ [NEWLINE, NEWLINE])"
  have "(b, es') \<in> set (update_section block key v ss)"
    using Cons.prems(2) sec by (force simp: update_section_def es'_def)
  then have clean: "clean_table es'"
    using v(2) by (auto simp: sections_ok_def)
  obtain st1 where st1: "modify_step env f block key v (length prior) b st = Some st1"
      "files st1 = (files st)(?new \<mapsto> pre @ section_text (b, es'))"
    using modify_step_text [OF env Cons.prems(1) st(2) _ v(1) es'_def clean, of "length prior" pre "file_text prior"]
      Cons.prems(2,3) sec by (auto simp: pre_def)
  have joined: "pre @ section_text (b, es') = file_text (prior @ [(b, es')])"
    by (cases "prior = []") (simp_all add: pre_def file_text_snoc)
  have "\<exists>st'. modify_loop env f block key v (length (prior @ [(b, es')])) (map fst todo) st1 = Some st'
      \<and> files st' = (files st1)(?new \<mapsto> file_text ((prior @ [(b, es')]) @ update_section block key v todo))"
    using st1(2) joined Cons.prems path_new path_new [symmetric] by (intro Cons.IH) auto
  then show ?case
    using st1 sec by (auto simp: update_section_def es'_def)
qed

text \<open>
  The whole change: the file is the written text of the sections, only the file itself, the new
  file and the two copies are touched.
\<close>

definition config_paths :: "string \<Rightarrow> string \<Rightarrow> int option \<Rightarrow> string set" where
  "config_paths d f rawTime = {path_in d f, path_in d (f @ ''.new''), d @ ''/previous/'' @ f}
     \<union> (case rawTime of None \<Rightarrow> {} | Some t \<Rightarrow> {d @ ''/archive/'' @ f @ ''.'' @ show_int t})"

definition config_writable :: "config_env \<Rightarrow> string \<Rightarrow> string \<Rightarrow> bool" where
  "config_writable env d f \<longleftrightarrow> configDir env = Some d \<and> strayByte env \<noteq> BACKSLASH
     \<and> (\<forall>p\<in>{path_in d f, path_in d (f @ ''.new'')}. canRead env p \<and> canWrite env p)"

lemma replace_text:
  assumes "configDir env = Some d" "canRead env (path_in d (f @ ''.new''))" "canWrite env (path_in d f)"
    and "files st (path_in d (f @ ''.new'')) = Some t" "files st (path_in d f) = Some s"
  shows "\<exists>st'. configReplace env f (f @ ''.new'') rawTime st = (CONFIG_E_OK, st') \<and> files st' (path_in d f) = Some t
    \<and> (\<forall>p. p \<notin> config_paths d f rawTime \<longrightarrow> files st' p = files st p)"
proof -
  have len: "length (d @ ''/previous/'' @ f) \<noteq> length (path_in d f)" "length (d @ ''/previous/'' @ f) \<noteq> length (path_in d (f @ ''.new''))"
    "length (d @ ''/archive/'' @ f @ ''.'' @ show_int u) \<noteq> length (path_in d (f @ ''.new''))" for u
    by (simp_all add: path_in_def)
  then have neq: "d @ ''/previous/'' @ f \<noteq> path_in d f" "d @ ''/previous/'' @ f \<noteq> path_in d (f @ ''.new'')"
    "d @ ''/archive/'' @ f @ ''.'' @ show_int u \<noteq> path_in d (f @ ''.new'')" for u
    by metis+
  note neq = neq neq [symmetric] path_new path_new [symmetric]
  show ?thesis
  proof (cases rawTime)
    case None
    then show ?thesis
      using assms neq
      by (simp add: configReplace_def configPath_def copyFile2_def unlink_file_def open_read_def config_paths_def path_in_def Let_def)
  next
    case (Some u)
    let ?old = "path_in d f" and ?new = "path_in d (f @ ''.new'')"
    let ?arch = "d @ ''/archive/'' @ f @ ''.'' @ show_int u" and ?prev = "d @ ''/previous/'' @ f"
    define fs1 where "fs1 = copyFile2 env ?old ?prev (files st)"
    define fs2 where "fs2 = rename_file env ?old ?arch fs1"
    have "fs1 ?new = Some t" "\<forall>p. p \<notin> config_paths d f rawTime \<longrightarrow> fs1 p = files st p"
      using assms neq by (auto simp: fs1_def copyFile2_def config_paths_def split: sum.splits)
    then have "fs2 ?new = Some t" "\<forall>p. p \<notin> config_paths d f rawTime \<longrightarrow> fs2 p = files st p"
      using neq Some by (auto simp: fs2_def rename_file_def config_paths_def split: option.splits)
    moreover have "configReplace env f (f @ ''.new'') rawTime st = (CONFIG_E_OK, st\<lparr>files := rename_file env ?new ?old fs2\<rparr>)"
      using assms Some by (simp add: configReplace_def configPath_def path_in_def fs2_def fs1_def Let_def)
    ultimately show ?thesis
      using assms(3) neq by (auto simp: rename_file_def config_paths_def)
  qed
qed

lemma config_modify_text:
  assumes "config_writable env d f" "files st (path_in d f) = Some s" "file_means (strayByte env) s ss" "ss \<noteq> []"
    and "length ss \<le> MAX_BLOCKS" "number_value v" "sections_ok (update_section block key v ss)"
  shows "\<exists>st'. config_modify env f block key v rawTime st = Some (CONFIG_E_OK, st')
    \<and> files st' (path_in d f) = Some (file_text (update_section block key v ss))
    \<and> (\<forall>p. p \<notin> config_paths d f rawTime \<longrightarrow> files st' p = files st p)"
proof -
  have env: "configDir env = Some d" "canRead env (path_in d f)" "canWrite env (path_in d (f @ ''.new''))"
    "canRead env (path_in d (f @ ''.new''))" "canWrite env (path_in d f)"
    using assms(1) by (simp_all add: config_writable_def)
  obtain status ib where names: "read_names s (inBlock st) = Some (status, map fst ss, ib)"
    using assms(3) unfolding file_means_def by blast
  let ?st = "st\<lparr>store := kvpReset (store st), inBlock := ib\<rparr>"
  have blocks: "readBlocks env f (st\<lparr>store := kvpReset (store st)\<rparr>) = Some (status, map fst ss, ?st)"
    using env assms(2,5) names by (simp add: readBlocks_def configFileSpec_def open_read_def path_in_def)
  obtain st1 where st1: "modify_loop env f block key v 0 (map fst ss) ?st = Some st1"
      "files st1 = (files st)(path_in d (f @ ''.new'') \<mapsto> file_text (update_section block key v ss))"
    using modify_loop_text [OF env(1-3), of ?st s ss ss v block key "[]"] assms by auto
  have old: "files st1 (path_in d f) = Some s"
    using st1(2) assms(2) path_new [of d f] by simp
  have "\<exists>st'. configReplace env f (f @ ''.new'') rawTime st1 = (CONFIG_E_OK, st')
      \<and> files st' (path_in d f) = Some (file_text (update_section block key v ss))
      \<and> (\<forall>p. p \<notin> config_paths d f rawTime \<longrightarrow> files st' p = files st1 p)"
    using env st1(2) old by (intro replace_text) auto
  then show ?thesis
    using blocks st1 by (auto simp: config_modify_def config_paths_def)
qed

end
