(* ===== verification/Key_Value_Space.thy ===== *)
theory Key_Value_Space
  imports Key_Value_Scan
begin

text \<open>
  The length of what the key/value store prints: the space that it asks for numbers in the buffer
  is enough, so no number is truncated.
\<close>

section \<open>The length of printed values\<close>

lemma length_show_base: "2 \<le> b \<Longrightarrow> n < b ^ k \<Longrightarrow> 0 < k \<Longrightarrow> length (show_base b n) \<le> k"
proof (induction b n arbitrary: k rule: show_base.induct)
  case (1 b n)
  show ?case
  proof (cases "n < b")
    case True
    then show ?thesis
      using 1(4) by (subst show_base.simps) simp
  next
    case False
    then have "1 < k"
      using 1(3,4) by (cases "k = 1") auto
    then obtain m where k: "k = Suc m" "0 < m"
      by (cases k) auto
    then have "n div b < b ^ m"
      using 1(2,3) by (simp add: less_mult_imp_div_less mult.commute)
    then have "length (show_base b (n div b)) \<le> m"
      using 1(1) 1(2) False k(2) by simp
    then show ?thesis
      using 1(2) False k by (subst show_base.simps) simp
  qed
qed

lemma length_show_uint: "n < 10 ^ k \<Longrightarrow> 0 < k \<Longrightarrow> length (show_uint n) \<le> k"
  by (simp add: show_uint_def length_show_base)

lemma length_show_int: "- (2 ^ 31) \<le> i \<Longrightarrow> i < 2 ^ 31 \<Longrightarrow> length (show_int i) \<le> 11"
  using length_show_uint [of "nat i" 10] length_show_uint [of "nat (- i)" 10] by (auto simp: show_int_def nat_less_iff)

lemma length_show_hex: "is_u32 i \<Longrightarrow> length (show_hex i) \<le> 11"
  using length_show_base [of 16 "nat i" 8] by (auto simp: show_hex_def is_u32_def nat_less_iff)

text \<open>The decimal exponent of a number in the range of a \<open>float\<close>.\<close>

lemma ten_to_powi: "ten_to e = 10 powi e"
  by (simp add: ten_to_def power_int_def field_simps)

lemma le_last: "sorted xs \<Longrightarrow> x \<in> set xs \<Longrightarrow> x \<le> last xs"
  by (induction xs rule: rev_induct) (auto simp: sorted_append)

lemma dec_exp_bounds:
  assumes "ten_to (- 45) \<le> a" "a < ten_to 40"
  shows "ten_to (dec_exp a) \<le> a" "a < ten_to (dec_exp a + 1)" "-45 \<le> dec_exp a" "dec_exp a \<le> 39"
proof -
  define es :: "int list" where "es = [-45..39]"
  have es: "set es = {-45..39}" "sorted es"
    by (simp_all only: es_def set_upto sorted_upto)
  let ?xs = "filter (\<lambda>e. ten_to e \<le> a) es"
  have d: "dec_exp a = last ?xs"
    by (simp only: dec_exp_def es_def)
  have "-45 \<in> set ?xs"
    using assms(1) es(1) by simp
  then have "?xs \<noteq> []"
    by (metis empty_iff list.set(1))
  then have l: "dec_exp a \<in> set ?xs"
    unfolding d by (rule last_in_set)
  then show *: "ten_to (dec_exp a) \<le> a" "-45 \<le> dec_exp a" "dec_exp a \<le> 39"
    using es(1) by auto
  show "a < ten_to (dec_exp a + 1)"
  proof (cases "dec_exp a = 39")
    case True
    then show ?thesis
      using assms(2) by simp
  next
    case False
    show ?thesis
    proof (rule ccontr)
      assume "\<not> ?thesis"
      then have "dec_exp a + 1 \<in> set ?xs"
        using False * es(1) by auto
      moreover have "sorted ?xs"
        using es(2) by (rule sorted_wrt_filter)
      ultimately have "dec_exp a + 1 \<le> last ?xs"
        using le_last by blast
      then show False
        using d by simp
    qed
  qed
qed

lemma round_even_bounds: "of_int n \<le> x \<Longrightarrow> n \<le> round_even x" "x \<le> of_int n \<Longrightarrow> round_even x \<le> n"
  by (auto simp: round_even_def Let_def le_floor_iff floor_le_iff split: if_splits) linarith+

lemma sci_parts_length:
  assumes "ten_to (- 45) \<le> a" "a < ten_to 40" "sci_parts a = (e, ds)"
  shows "length ds \<le> 6" "-45 \<le> e" "e \<le> 40"
proof -
  let ?e = "dec_exp a" and ?m = "round_even (a * ten_to (5 - dec_exp a))"
  note b = dec_exp_bounds [OF assms(1,2)]
  have "a * ten_to (5 - ?e) \<le> ten_to (?e + 1) * ten_to (5 - ?e)"
    using b(2) by (simp add: ten_to_powi)
  also have "\<dots> = 10 ^ 6"
    by (simp add: ten_to_powi flip: power_int_add)
  finally have m: "?m \<le> 10 ^ 6"
    using round_even_bounds(2) [of _ "10 ^ 6"] by simp
  show "length ds \<le> 6" "-45 \<le> e" "e \<le> 40"
    using assms(3) m b(3,4) by (auto simp: sci_parts_def Let_def split: if_splits intro!: length_show_uint)
qed

lemma length_with_fraction: "length (with_fraction ip fp) \<le> length ip + length fp + 1"
proof -
  have "length (strip_zeros fp) \<le> length fp"
    using length_dropWhile_le [of _ "rev fp"] by (simp add: strip_zeros_def)
  then show ?thesis
    by (auto simp: with_fraction_def Let_def)
qed

lemma length_show_abs:
  assumes "length ds \<le> 6" "-45 \<le> e" "e \<le> 40"
  shows "length (show_abs (e, ds)) \<le> 11"
proof -
  have ex: "length (show_uint (nat \<bar>e\<bar>)) \<le> (if \<bar>e\<bar> < 10 then 1 else 2)"
    using assms length_show_uint [of "nat \<bar>e\<bar>" 1] length_show_uint [of "nat \<bar>e\<bar>" 2] by auto
  have wf: "length (with_fraction (take n ds) (drop n ds)) \<le> 7" for n
    using length_with_fraction [of "take n ds" "drop n ds"] assms(1) by simp
  have small: "length (with_fraction ''0'' (replicate (nat (- e - 1)) CHR ''0'' @ ds)) \<le> 11" if "-4 \<le> e"
    using length_with_fraction [of "''0''" "replicate (nat (- e - 1)) CHR ''0'' @ ds"] assms(1) that by simp
  show ?thesis
    using ex wf [of "nat (e + 1)"] wf [of 1] small by (auto simp: show_abs_def split: if_splits)
qed

definition is_float :: "real \<Rightarrow> bool" where
  "is_float x \<longleftrightarrow> x = 0 \<or> ten_to (- 45) \<le> \<bar>x\<bar> \<and> \<bar>x\<bar> < ten_to 40"

lemma length_show_float: "is_float x \<Longrightarrow> length (show_float x) \<le> 13"
  using sci_parts_length length_show_abs by (cases "sci_parts \<bar>x\<bar>") (fastforce simp: show_float_abs is_float_def)

lemma length_commas: "xs \<noteq> [] \<Longrightarrow> \<forall>x\<in>set xs. length (p x) \<le> n \<Longrightarrow> length (commas (map p xs)) + 1 \<le> length xs * (n + 1)"
  by (induction xs rule: list_nonempty_induct) (auto simp: commas_Cons)

text \<open>The space that the store asks for numbers is enough, the terminator included.\<close>

fun float_ok :: "kvp_value \<Rightarrow> bool" where
  "float_ok (Float_values fs) = (\<forall>x\<in>set fs. is_float x)"
| "float_ok _ = True"

lemma value_text_fits:
  assumes "value_ok v" "float_ok v" "value_text n v = Some t" "\<not> (\<exists>s. v = String_value s)"
  shows "int (length t) + 1 \<le> value_space v" "length t + 1 \<le> 14 * value_count v"
proof -
  have len: "\<exists>m\<le>13. length t + 1 \<le> value_count v * (m + 1) \<and> value_space v = int (value_count v * (m + 1))"
  proof (cases v)
    case (Int_values js)
    then show ?thesis
      using assms length_commas [of js show_int 11] length_show_int
      by (intro exI [of _ 11]) (auto simp: MAX_INT_LENGTH_def split: if_splits)
  next
    case (UInt_values js)
    then have "\<forall>i\<in>set js. length (show_hex i) \<le> 11"
      using assms(1) length_show_hex by auto
    then show ?thesis
      using assms UInt_values length_commas [of js show_hex 11]
      by (intro exI [of _ 11]) (auto simp: MAX_INT_LENGTH_def split: if_splits)
  next
    case (Float_values fs)
    then have "\<forall>x\<in>set fs. length (show_float x) \<le> 13"
      using assms(2) length_show_float by auto
    then show ?thesis
      using assms Float_values length_commas [of fs show_float 13]
      by (intro exI [of _ 13]) (auto simp: MAX_FLOAT_LENGTH_def split: if_splits)
  qed (use assms(4) in auto)
  then obtain m where m: "m \<le> 13" "length t + 1 \<le> value_count v * (m + 1)" "value_space v = int (value_count v * (m + 1))"
    by blast
  then show "int (length t) + 1 \<le> value_space v"
    by linarith
  have "value_count v * (m + 1) \<le> value_count v * 14"
    using m(1) by (intro mult_le_mono2) simp
  then show "length t + 1 \<le> 14 * value_count v"
    using m(2) by linarith
qed

end
