(* ===== verification/Config_Settings.thy ===== *)
theory Config_Settings
  imports Config_Modify Key_Value_Space
begin

text \<open>
  The configuration files as a store of settings: a setting is named by file, section and key, and
  its text is what a program gets that loads the section. The interface \<open>setting_store\<close> says what
  a client that changes settings relies on; the configuration library provides it as long as the
  files have room, which changes of numbers keep.
\<close>

section \<open>Lookup in a table\<close>

fun lookup_last :: "string \<Rightarrow> kvp_entry list \<Rightarrow> kvp_entry option" where
  "lookup_last key [] = None"
| "lookup_last key (e # es) = (case lookup_last key es of Some x \<Rightarrow> Some x | None \<Rightarrow> if keyPtr e = key then Some e else None)"

lemma lookup_last_append:
  "lookup_last key (a @ b) = (case lookup_last key b of Some x \<Rightarrow> Some x | None \<Rightarrow> lookup_last key a)"
  by (induction a) (auto split: option.splits)

lemma lookup_last_None: "lookup_last key es = None \<longleftrightarrow> (\<forall>e\<in>set es. keyPtr e \<noteq> key)"
  by (induction es) (auto split: option.splits)

lemma lookup_last_in: "lookup_last key es = Some e \<Longrightarrow> e \<in> set es \<and> keyPtr e = key"
  by (induction es) (auto split: option.splits if_splits)

lemma split_at: "i < length es \<Longrightarrow> es = take i es @ es ! i # drop (Suc i) es"
  by (rule id_take_nth_drop)

lemma find_entry_Some:
  "find_entry key es = Some i \<longleftrightarrow> i < length es \<and> keyPtr (es ! i) = c_trim key
     \<and> (\<forall>j. i < j \<and> j < length es \<longrightarrow> keyPtr (es ! j) \<noteq> c_trim key)"
  unfolding find_entry_def find_key_Some by (simp add: nkeys_def)

lemma find_entry_None: "find_entry key es = None \<longleftrightarrow> (\<forall>e\<in>set es. keyPtr e \<noteq> c_trim key)"
  unfolding find_entry_def find_key_None by (simp add: nkeys_def all_set_conv_all_nth)

lemma find_entry_split:
  assumes "find_entry key es = Some i"
  shows "es = take i es @ es ! i # drop (Suc i) es" "keyPtr (es ! i) = c_trim key" "\<forall>e\<in>set (drop (Suc i) es). keyPtr e \<noteq> c_trim key"
proof -
  note i = assms [unfolded find_entry_Some]
  show "es = take i es @ es ! i # drop (Suc i) es" "keyPtr (es ! i) = c_trim key"
    using i split_at by auto
  show "\<forall>e\<in>set (drop (Suc i) es). keyPtr e \<noteq> c_trim key"
    using i by (auto simp: all_set_conv_all_nth)
qed

lemma lookup_last_find: "lookup_last (c_trim key) es = map_option (\<lambda>i. es ! i) (find_entry key es)"
proof (cases "find_entry key es")
  case None
  then show ?thesis
    by (simp add: find_entry_None lookup_last_None [THEN iffD2])
next
  case (Some i)
  note sp = find_entry_split [OF Some]
  have "lookup_last (c_trim key) (take i es @ es ! i # drop (Suc i) es) = Some (es ! i)"
    using sp(2) lookup_last_None [THEN iffD2, OF sp(3)] by (simp add: lookup_last_append)
  then show ?thesis
    using Some sp(1) by simp
qed

text \<open>The last entry of every key has a type: so it is after a load without errors.\<close>

definition last_live :: "kvp_entry list \<Rightarrow> bool" where
  "last_live es \<longleftrightarrow> (\<forall>e\<in>set es. \<forall>x. lookup_last (keyPtr e) es = Some x \<longrightarrow> valType x \<noteq> KT_INVALID)"

lemma lookup_filter:
  "(\<forall>x. lookup_last key es = Some x \<longrightarrow> P x) \<Longrightarrow> lookup_last key (filter P es) = lookup_last key es"
proof (induction es)
  case (Cons e es)
  show ?case
  proof (cases "lookup_last key es")
    case None
    then have "lookup_last key (filter P es) = None"
      by (auto simp: lookup_last_None)
    then show ?thesis
      using Cons.prems None by auto
  qed (use Cons in auto)
qed simp

lemma lookup_last_live: "last_live es \<Longrightarrow> lookup_last key (live_of es) = lookup_last key es"
  unfolding live_of_def by (rule lookup_filter) (metis last_live_def lookup_last_in)

lemma lookup_last_update:
  assumes "c_trim key = key"
  shows "lookup_last k (update_entries key v es) =
    (case lookup_last key es of
       Some e \<Rightarrow> if k = key \<and> type_accepts (valType e) v
         then Some (e\<lparr>valPtr := the (value_text 0 v), nelements := int (value_count v)\<rparr>) else lookup_last k es
     | None \<Rightarrow> lookup_last k es)"
proof (cases "find_entry key es")
  case None
  then show ?thesis
    using lookup_last_find [of key es] assms by (simp add: update_entries_def)
next
  case (Some i)
  note sp = find_entry_split [OF Some, unfolded assms]
  let ?e = "(es ! i)\<lparr>valPtr := the (value_text 0 v), nelements := int (value_count v)\<rparr>"
  have look: "lookup_last key es = Some (es ! i)"
    using lookup_last_find [of key es] Some assms by simp
  show ?thesis
  proof (cases "type_accepts (valType (es ! i)) v")
    case False
    then show ?thesis
      using Some look by (simp add: update_entries_def)
  next
    case True
    have upd: "update_entries key v es = take i es @ ?e # drop (Suc i) es"
    proof -
      have "i < length es"
        using Some by (simp add: find_entry_Some)
      then show ?thesis
        using Some True by (simp add: update_entries_def upd_conv_take_nth_drop)
    qed
    have "lookup_last k es = lookup_last k (take i es @ es ! i # drop (Suc i) es)"
      using sp(1) by simp
    then show ?thesis
      using upd look True sp(2) lookup_last_None [THEN iffD2, OF sp(3)] by (auto simp: lookup_last_append split: option.splits)
  qed
qed

section \<open>Tables with room\<close>

text \<open>
  The space that the line of an entry takes at most while the numbers in it change: 14 characters
  for each number.
\<close>

definition entry_space :: "kvp_entry \<Rightarrow> nat" where
  "entry_space e = length (keyPtr e) + 16 +
     (if valType e = KT_STRING then length (valPtr e) else max (length (valPtr e)) (14 * nat (nelements e)))"

definition roomy_entry :: "kvp_entry \<Rightarrow> bool" where
  "roomy_entry e \<longleftrightarrow> writable e \<and> take 1 (keyPtr e) \<noteq> ''<'' \<and> entry_space e < RECLEN_MAX - 1
     \<and> (\<forall>c\<in>set (keyPtr e @ valPtr e). c \<noteq> NEWLINE \<and> c \<noteq> NUL)"

definition roomy :: "kvp_entry list \<Rightarrow> bool" where
  "roomy es \<longleftrightarrow> (\<forall>e\<in>set (live_of es). roomy_entry e) \<and> distinct (map keyPtr (live_of es)) \<and> last_live es
     \<and> length es \<le> MAXKEYS \<and> (\<Sum>e\<leftarrow>live_of es. entry_space e) < 20480"

lemma writable_count: "writable e \<Longrightarrow> 0 \<le> nelements e \<and> nelements e < 2 ^ 31"
  by (auto simp: writable_def entry_ok_def validateValue_def)

lemma format_entry_length: "writable e \<Longrightarrow> length (format_entry e) + 1 \<le> entry_space e"
  using length_show_int [of "nelements e"] writable_count [of e] by (auto simp: format_entry_def entry_space_def)

lemma digit_not_special: "is_digit c \<Longrightarrow> c \<noteq> NEWLINE \<and> c \<noteq> NUL"
  by (auto simp: is_digit_def NEWLINE_def NUL_def)

lemma show_int_chars: "c \<in> set (show_int i) \<Longrightarrow> c \<noteq> NEWLINE \<and> c \<noteq> NUL"
  using show_uint_digits digit_not_special by (fastforce simp: show_int_def NEWLINE_def NUL_def split: if_splits)

lemma roomy_clean_entry: "roomy_entry e \<Longrightarrow> clean_entry e"
proof -
  assume r: "roomy_entry e"
  then have w: "writable e"
    by (simp add: roomy_entry_def)
  have "length (format_entry e) < RECLEN_MAX - 1"
    using format_entry_length [OF w] r by (simp add: roomy_entry_def)
  moreover have "c \<noteq> NEWLINE \<and> c \<noteq> NUL" if "c \<in> set (format_entry e)" for c
  proof -
    have "type_char (valType e) \<noteq> NEWLINE" "type_char (valType e) \<noteq> NUL"
      by (cases "valType e"; simp add: NEWLINE_def NUL_def)+
    then show ?thesis
      using that r show_int_chars by (auto simp: format_entry_def roomy_entry_def NEWLINE_def NUL_def)
  qed
  ultimately show ?thesis
    using r by (auto simp: clean_entry_def roomy_entry_def line_ok_def)
qed

lemma formatted_length: "\<forall>e\<in>set (live_of es). writable e \<Longrightarrow> length (formatted es) \<le> (\<Sum>e\<leftarrow>live_of es. entry_space e)"
proof (induction es)
  case (Cons e es)
  then show ?case
    using format_entry_length [of e] by (cases "valType e = KT_INVALID") (auto simp: live_of_def)
qed (simp add: live_of_def)

lemma roomy_clean: "roomy es \<Longrightarrow> clean_table es"
proof -
  assume r: "roomy es"
  then have "\<forall>e\<in>set (live_of es). writable e"
    by (simp add: roomy_def roomy_entry_def)
  from formatted_length [OF this] r have "int (length (formatted es)) < KVP_MIN_BUFFER_SIZE"
    by (simp add: roomy_def KVP_MIN_BUFFER_SIZE_def)
  then show ?thesis
    using r roomy_clean_entry by (auto simp: clean_table_def roomy_def)
qed

text \<open>A number that keeps the number of elements fits again.\<close>

definition entry_accepts :: "kvp_entry \<Rightarrow> kvp_value \<Rightarrow> bool" where
  "entry_accepts e v \<longleftrightarrow> type_accepts (valType e) v \<and> int (value_count v) = nelements e \<and> number_value v
     \<and> \<not> (\<exists>s. v = String_value s) \<and> value_ok v \<and> float_ok v"

abbreviation put_value :: "kvp_value \<Rightarrow> kvp_entry \<Rightarrow> kvp_entry" where
  "put_value v e \<equiv> e\<lparr>valPtr := the (value_text 0 v), nelements := int (value_count v)\<rparr>"

lemma accepted_type:
  assumes "type_accepts ty v" "ty \<noteq> KT_UINT" "\<not> (\<exists>s. v = String_value s)"
  shows "stored_type v = ty" "ty \<noteq> KT_STRING" "ty \<noteq> KT_INVALID"
  using assms by (cases v; auto simp: type_accepts_def stored_type_def)+

lemma roomy_put:
  assumes "roomy_entry e" "entry_accepts e v"
  shows "roomy_entry (put_value v e)" "entry_space (put_value v e) \<le> entry_space e"
proof -
  define t where "t = the (value_text 0 v)"
  define e' where "e' = put_value v e"
  have w: "writable e"
    using assms(1) by (simp add: roomy_entry_def)
  then have uint: "valType e \<noteq> KT_UINT" "entry_ok e"
    by (auto simp: writable_def)
  have v: "type_accepts (valType e) v" "int (value_count v) = nelements e" "number_value v" "\<not> (\<exists>s. v = String_value s)"
    "value_ok v" "float_ok v"
    using assms(2) unfolding entry_accepts_def by blast+
  note ty = accepted_type [OF v(1) uint(1) v(4)]
  have t: "value_text n v = Some t" for n
    unfolding t_def by (rule number_value_text [OF v(3)])
  have "case v of String_value s \<Rightarrow> CHR '';'' \<notin> set s \<and> int (length s) < 0 | _ \<Rightarrow> True"
    using v(4) by (cases v) simp_all
  from update_entry_ok [OF uint(2) v(5) t ty(1) this] have new: "entry_ok e'"
    by (simp add: e'_def t_def)
  have w': "writable e'"
    using w new v(2) by (simp add: writable_def e'_def)
  have "length t \<le> 14 * nat (nelements e)"
    using value_text_fits(2) [OF v(5,6) t v(4)] v(2) by linarith
  then have sp: "entry_space e' \<le> entry_space e"
    using ty(2) v(2) by (simp add: entry_space_def e'_def t_def)
  have "scan_chars (valType e) t scan_start \<noteq> None"
    using new by (auto simp: entry_ok_def validateValue_def e'_def t_def)
  then have "NEWLINE \<notin> set t" "NUL \<notin> set t"
    using scan_no_special [OF ty(2)] by auto
  then have "\<forall>c\<in>set (keyPtr e' @ valPtr e'). c \<noteq> NEWLINE \<and> c \<noteq> NUL"
    using assms(1) by (auto simp: roomy_entry_def e'_def t_def)
  moreover have "keyPtr e' = keyPtr e" "entry_space e' < RECLEN_MAX - 1"
    using assms(1) sp by (simp_all add: e'_def roomy_entry_def)
  ultimately have "roomy_entry e'"
    using assms(1) w' by (simp add: roomy_entry_def)
  then show "roomy_entry (put_value v e)" "entry_space (put_value v e) \<le> entry_space e"
    using sp by (simp_all only: e'_def)
qed

lemma update_entries_split:
  assumes "c_trim key = key" "lookup_last key es = Some e" "type_accepts (valType e) v"
  obtains a b where "es = a @ e # b" "update_entries key v es = a @ put_value v e # b" "\<forall>x\<in>set b. keyPtr x \<noteq> key" "keyPtr e = key"
proof -
  obtain i where i: "find_entry key es = Some i" "es ! i = e"
    using lookup_last_find [of key es] assms(1,2) by (cases "find_entry key es") auto
  note sp = find_entry_split [OF i(1), unfolded assms(1) i(2)]
  have "i < length es"
    using i(1) by (simp add: find_entry_Some)
  then have "update_entries key v es = take i es @ put_value v e # drop (Suc i) es"
    using i assms(3) by (simp add: update_entries_def upd_conv_take_nth_drop)
  then show thesis
    using that sp by blast
qed

lemma last_live_update:
  assumes "last_live es" "c_trim key = key"
  shows "last_live (update_entries key v es)"
proof -
  have "lookup_last k (update_entries key v es) = Some x \<Longrightarrow> lookup_last k es \<noteq> None \<and> valType x = valType (the (lookup_last k es))" for k x
    unfolding lookup_last_update [OF assms(2)] by (auto split: option.splits if_splits)
  then show ?thesis
    using assms(1) lookup_last_in unfolding last_live_def by (metis option.collapse)
qed

lemma roomy_update:
  assumes "roomy es" "c_trim key = key" "lookup_last key es = Some e" "entry_accepts e v"
  shows "roomy (update_entries key v es)"
proof -
  have ty: "type_accepts (valType e) v"
    using assms(4) by (simp add: entry_accepts_def)
  obtain a b where ab: "es = a @ e # b" "update_entries key v es = a @ put_value v e # b"
    using update_entries_split [OF assms(2,3) ty] by metis
  have live: "valType e \<noteq> KT_INVALID"
    using ty by (cases v) (auto simp: type_accepts_def)
  have l: "live_of es = live_of a @ e # live_of b" "live_of (update_entries key v es) = live_of a @ put_value v e # live_of b"
    unfolding ab(2) using live by (simp_all add: ab(1) live_of_def)
  then have "roomy_entry e"
    using assms(1) by (simp add: roomy_def)
  note new = roomy_put [OF this assms(4)]
  have "length (update_entries key v es) = length es"
    unfolding ab(2) by (simp add: ab(1))
  moreover have "last_live (update_entries key v es)"
    using assms(1,2) by (intro last_live_update) (simp_all add: roomy_def)
  ultimately show ?thesis
    using assms(1) new by (simp add: roomy_def l)
qed

lemma roomy_live: "roomy es \<Longrightarrow> roomy (live_of es)"
proof -
  assume r: "roomy es"
  have "live_of (live_of es) = live_of es"
    by (simp add: live_of_def)
  moreover have "last_live (live_of es)"
    by (auto simp: last_live_def live_of_def dest: lookup_last_in)
  moreover have "length (live_of es) \<le> length es"
    by (simp add: live_of_def)
  ultimately show ?thesis
    using r by (auto simp: roomy_def)
qed

section \<open>The interface\<close>

text \<open>
  What a client that changes settings relies on: \<open>put\<close> succeeds for a value that the setting accepts,
  the setting then shows the value, every other setting keeps its value, and what a setting
  accepts does not depend on its value.
\<close>

locale setting_store =
  fixes good :: "'st \<Rightarrow> bool"
    and valid :: "'s \<Rightarrow> bool"
    and get :: "'s \<Rightarrow> 'st \<Rightarrow> 'e option"
    and put :: "'s \<Rightarrow> 'v \<Rightarrow> 'st \<Rightarrow> 'st option"
    and accepts :: "'e \<Rightarrow> 'v \<Rightarrow> bool"
    and shown :: "'v \<Rightarrow> 'e \<Rightarrow> 'e"
  assumes put_get: "good st \<Longrightarrow> valid s \<Longrightarrow> get s st = Some e \<Longrightarrow> accepts e v \<Longrightarrow>
      \<exists>st'. put s v st = Some st' \<and> good st' \<and> get s st' = Some (shown v e)
        \<and> (\<forall>s' e'. valid s' \<and> s' \<noteq> s \<and> get s' st = Some e' \<longrightarrow> get s' st' = Some e')"
    and accepts_shown: "accepts e v \<Longrightarrow> accepts (shown v e) w = accepts e w"

fun put_all :: "('s \<Rightarrow> 'v \<Rightarrow> 'st \<Rightarrow> 'st option) \<Rightarrow> ('s \<times> 'v) list \<Rightarrow> 'st \<Rightarrow> 'st option" where
  "put_all put [] st = Some st"
| "put_all put ((s, v) # cs) st = (case put s v st of None \<Rightarrow> None | Some st \<Rightarrow> put_all put cs st)"

fun after_changes :: "('v \<Rightarrow> 'e \<Rightarrow> 'e) \<Rightarrow> ('s \<times> 'v) list \<Rightarrow> 's \<Rightarrow> 'e \<Rightarrow> 'e" where
  "after_changes shown [] s e = e"
| "after_changes shown ((s', v) # cs) s e = after_changes shown cs s (if s' = s then shown v e else e)"

context setting_store begin

definition accepted :: "'s \<times> 'v \<Rightarrow> 'st \<Rightarrow> bool" where
  "accepted c st \<longleftrightarrow> valid (fst c) \<and> (\<exists>e. get (fst c) st = Some e \<and> accepts e (snd c))"

lemma put_accepted:
  assumes "good st" "accepted (s, v) st"
  shows "\<exists>st'. put s v st = Some st' \<and> good st' \<and> (\<forall>c. accepted c st \<longrightarrow> accepted c st')
    \<and> (\<forall>s' e. valid s' \<and> get s' st = Some e \<longrightarrow> get s' st' = Some (if s = s' then shown v e else e))"
proof -
  obtain e where e: "valid s" "get s st = Some e" "accepts e v"
    using assms(2) by (auto simp: accepted_def)
  obtain st' where st': "put s v st = Some st'" "good st'" "get s st' = Some (shown v e)"
      "\<And>s' e'. valid s' \<Longrightarrow> s' \<noteq> s \<Longrightarrow> get s' st = Some e' \<Longrightarrow> get s' st' = Some e'"
    using put_get [OF assms(1) e] by blast
  have "accepted c st'" if "accepted c st" for c
    using that st'(3,4) e(2,3) accepts_shown by (cases "fst c = s") (auto simp: accepted_def)
  moreover have "get s' st' = Some (if s = s' then shown v a else a)" if "valid s'" "get s' st = Some a" for s' a
    using that st'(3,4) e(2) by auto
  ultimately show ?thesis
    using st'(1,2) by blast
qed

lemma put_all_shown:
  assumes "good st" "\<forall>c\<in>set cs. accepted c st"
  shows "\<exists>st'. put_all put cs st = Some st' \<and> good st'
    \<and> (\<forall>s e. valid s \<and> get s st = Some e \<longrightarrow> get s st' = Some (after_changes shown cs s e))"
  using assms
proof (induction cs arbitrary: st)
  case (Cons c cs)
  obtain s v where c: "c = (s, v)"
    by (cases c)
  obtain st1 where st1: "put s v st = Some st1" "good st1" "\<And>c. accepted c st \<Longrightarrow> accepted c st1"
      "\<And>s' e. valid s' \<Longrightarrow> get s' st = Some e \<Longrightarrow> get s' st1 = Some (if s = s' then shown v e else e)"
    using put_accepted [of st s v] Cons.prems c by auto
  obtain st' where "put_all put cs st1 = Some st'" "good st'"
      "\<And>s e. valid s \<Longrightarrow> get s st1 = Some e \<Longrightarrow> get s st' = Some (after_changes shown cs s e)"
    using Cons.IH [OF st1(2)] Cons.prems(2) st1(3) by fastforce
  then show ?case
    using st1 c by auto
qed simp

end

section \<open>The configuration library as a store of settings\<close>

text \<open>A setting as a program gets it: the section is loaded into an empty store and the key is looked up.\<close>

type_synonym setting = "string \<times> string \<times> string"

definition read_setting :: "config_env \<Rightarrow> setting \<Rightarrow> config_state \<Rightarrow> kvp_entry option" where
  "read_setting env s st =
     (case s of (f, block, key) \<Rightarrow>
       (case configLoad env f block (st\<lparr>store := kvpReset (store st)\<rparr>) of
          Some (CONFIG_E_OK, st) \<Rightarrow> map_option (\<lambda>i. entries (store st) ! i) (kvpFindKey key (store st))
        | _ \<Rightarrow> None))"

definition put_setting :: "config_env \<Rightarrow> int option \<Rightarrow> setting \<Rightarrow> kvp_value \<Rightarrow> config_state \<Rightarrow> config_state option" where
  "put_setting env rawTime s v st =
     (case s of (f, block, key) \<Rightarrow>
       (case config_modify env f block key v rawTime st of Some (CONFIG_E_OK, st') \<Rightarrow> Some st' | _ \<Rightarrow> None))"

definition setting_ok :: "string set \<Rightarrow> setting \<Rightarrow> bool" where
  "setting_ok F s \<longleftrightarrow> (case s of (f, block, key) \<Rightarrow> f \<in> F \<and> good_name block \<and> c_trim key = key)"

definition config_file_ok :: "config_env \<Rightarrow> string \<Rightarrow> bool" where
  "config_file_ok env s \<longleftrightarrow> (\<exists>ss. file_means (strayByte env) s ss \<and> ss \<noteq> [] \<and> length ss \<le> MAX_BLOCKS \<and> (\<forall>(b, es)\<in>set ss. roomy es))"

definition config_inv :: "config_env \<Rightarrow> string \<Rightarrow> string set \<Rightarrow> config_state \<Rightarrow> bool" where
  "config_inv env d F st \<longleftrightarrow> (\<forall>f\<in>F. CHR ''/'' \<notin> set f \<and> f @ ''.new'' \<notin> F \<and> config_writable env d f
     \<and> (\<exists>s. files st (path_in d f) = Some s \<and> config_file_ok env s))"

lemma find_block_name:
  "find_block [b] s ib = Some (CONFIG_E_OK, r, ib') \<Longrightarrow> read_names s ib = Some (status, names, ib'') \<Longrightarrow> b \<in> set names"
proof (induction "[b]" s ib arbitrary: names status ib'' rule: find_block.induct)
  case (1 s ib)
  note find = 1(2)
  obtain stat tag rest ib1 where g: "getTag s ib = Some (stat, tag, rest, ib1)"
    using 1(2) by (subst (asm) find_block.simps) (cases "getTag s ib"; auto)
  then have stat: "stat = CONFIG_E_OK"
    using 1(2) by (subst (asm) find_block.simps) (simp split: if_splits)
  then obtain ns st' ib2 where ns: "read_names rest ib1 = Some (st', ns, ib2)" "names = tag # ns"
    using 1(3) g by (subst (asm) read_names.simps) auto
  show ?case
  proof (cases "tag = b")
    case False
    then have "find_block [b] rest ib1 = Some (CONFIG_E_OK, r, ib')"
      using find g stat by (subst (asm) find_block.simps) (simp add: checkTag_def)
    then show ?thesis
      using 1(1) [OF g refl refl refl] stat False ns by (simp add: checkTag_def)
  qed (simp add: ns)
qed

lemma read_setting_means:
  assumes "config_writable env d f" "files st (path_in d f) = Some s" "file_means (strayByte env) s ss" "good_name b"
  shows "read_setting env (f, b, key) st = (case map_of ss b of None \<Rightarrow> None | Some es \<Rightarrow> lookup_last (c_trim key) es)"
proof -
  have env: "configDir env = Some d" "canRead env (path_in d f)"
    using assms(1) by (simp_all add: config_writable_def)
  let ?st = "st\<lparr>store := kvpReset (store st)\<rparr>"
  have load: "configLoad env f b ?st = map_option (\<lambda>(status, ib, k). (status, ?st\<lparr>store := k, inBlock := ib\<rparr>))
      (load_blocks (strayByte env) [b] 0 s (kvpReset (store st)))"
    using env assms(2) parseBlockList_name [OF assms(4)]
    by (simp add: configLoad_def configLoadFullPath_def configFileSpec_def open_read_def path_in_def)
  show ?thesis
  proof (cases "map_of ss b")
    case (Some es)
    from map_of_SomeD [OF this]
    obtain ib k where "load_blocks (strayByte env) [b] 0 s (kvpReset (store st)) = Some (CONFIG_E_OK, ib, k)" "entries k = es"
      using assms(3) unfolding file_means_def by blast
    then show ?thesis
      using load Some lookup_last_find [of key es] by (simp add: read_setting_def find_entry_kvp)
  next
    case None
    obtain status ib where names: "read_names s False = Some (status, map fst ss, ib)"
      using assms(3) unfolding file_means_def by blast
    have "b \<notin> set (map fst ss)"
      using None by (simp add: map_of_eq_None_iff)
    then have "find_block [b] s False \<noteq> Some (CONFIG_E_OK, r, ib')" for r ib'
      using find_block_name names by blast
    then have "load_blocks (strayByte env) [b] 0 s (kvpReset (store st)) \<noteq> Some (CONFIG_E_OK, ib', k)" for ib' k
      by (subst load_blocks.simps) (auto split: option.splits)
    then have none: "configLoad env f b ?st \<noteq> Some (CONFIG_E_OK, st')" for st'
      unfolding load by auto
    show ?thesis
    proof (cases "configLoad env f b ?st")
      case (Some p)
      then obtain e st' where p: "p = (e, st')" "e \<noteq> CONFIG_E_OK"
        using none by (cases p) auto
      then show ?thesis
        using Some None by (cases e) (simp_all add: read_setting_def)
    qed (simp add: read_setting_def None)
  qed
qed

lemma map_of_update_section:
  "map_of (update_section block key v ss) b = map_option (\<lambda>es. if b = block then update_entries key v es else es) (map_of ss b)"
  by (induction ss) (auto simp: update_section_def)

lemma map_of_live: "map_of (map (apsnd live_of) ss) b = map_option live_of (map_of ss b)"
  by (induction ss) auto

lemma update_section_roomy:
  assumes "\<forall>(b, es)\<in>set ss. good_name b \<and> roomy es" "distinct (map fst ss)" "map_of ss block = Some es"
    and "c_trim key = key" "lookup_last key es = Some e" "entry_accepts e v"
  shows "\<forall>(b, es)\<in>set (update_section block key v ss). good_name b \<and> roomy es"
proof -
  have "good_name b \<and> roomy (if b = block then update_entries key v es' else es')" if b: "(b, es') \<in> set ss" for b es'
  proof (cases "b = block")
    case True
    then have "es' = es"
      using map_of_is_SomeI [OF assms(2) b] assms(3) by simp
    then show ?thesis
      using roomy_update [OF _ assms(4-6)] assms(1) b True by auto
  qed (use assms(1) b in auto)
  then show ?thesis
    by (auto simp: update_section_def)
qed

lemma config_inv_file:
  assumes "config_inv env d F st" "f \<in> F"
  obtains t ss where "config_writable env d f" "files st (path_in d f) = Some t" "file_means (strayByte env) t ss" "ss \<noteq> []"
    "length ss \<le> MAX_BLOCKS" "distinct (map fst ss)" "\<forall>(b, es)\<in>set ss. good_name b \<and> roomy es"
proof -
  obtain t ss where *: "config_writable env d f" "files st (path_in d f) = Some t" "file_means (strayByte env) t ss" "ss \<noteq> []"
    "length ss \<le> MAX_BLOCKS" "\<forall>(b, es)\<in>set ss. roomy es"
    using assms unfolding config_inv_def config_file_ok_def by meson
  moreover have "distinct (map fst ss)" "\<forall>(b, es)\<in>set ss. good_name b \<and> roomy es"
    using *(3,6) by (auto simp: file_means_def)
  ultimately show thesis
    using that by blast
qed

lemma other_path:
  assumes "CHR ''/'' \<notin> set g" "g \<noteq> f" "g \<noteq> f @ ''.new''"
  shows "path_in d g \<notin> config_paths d f rawTime"
proof -
  have "d @ ''/'' @ g \<noteq> d @ ''/previous/'' @ f" "d @ ''/'' @ g \<noteq> d @ ''/archive/'' @ f @ ''.'' @ show_int u" for u
    using assms(1) by auto
  then show ?thesis
    using assms(2,3) by (auto simp: config_paths_def path_in_def split: option.splits)
qed

text \<open>
  The file after a call of \<open>configModify\<close>: its sections are those of the written text, the other
  files of the configuration are untouched.
\<close>

lemma config_rewrite:
  assumes inv: "config_inv env d F st" and f: "f \<in> F" "files st (path_in d f) = Some t" "file_means (strayByte env) t ss" "ss \<noteq> []"
    "length ss \<le> MAX_BLOCKS" and v: "number_value v" and roomy: "\<forall>(b, es)\<in>set (update_section block key v ss). good_name b \<and> roomy es"
  shows "\<exists>st'. put_setting env rawTime (f, block, key) v st = Some st' \<and> config_inv env d F st'
    \<and> (\<forall>g b k. setting_ok F (g, b, k) \<longrightarrow> read_setting env (g, b, k) st' =
         (if g = f then case map_of (update_section block key v ss) b of None \<Rightarrow> None | Some es \<Rightarrow> lookup_last k es
          else read_setting env (g, b, k) st))"
proof -
  have fw: "config_writable env d f"
    using inv f(1) by (simp add: config_inv_def)
  let ?us = "update_section block key v ss"
  have sections: "sections_ok ?us"
    using roomy roomy_clean by (auto simp: sections_ok_def)
  obtain st' where st': "config_modify env f block key v rawTime st = Some (CONFIG_E_OK, st')"
      "files st' (path_in d f) = Some (file_text ?us)" "\<And>p. p \<notin> config_paths d f rawTime \<Longrightarrow> files st' p = files st p"
    using config_modify_text [OF fw f(2-5) v sections] by blast
  have means: "file_means (strayByte env) (file_text ?us) (map (apsnd live_of) ?us)"
    using sections fw f(3) by (intro file_text_means) (simp_all add: config_writable_def file_means_def)
  have "config_file_ok env (file_text ?us)"
    unfolding config_file_ok_def using means f(4,5) roomy roomy_live
    by (intro exI [of _ "map (apsnd live_of) ?us"]) (auto simp: update_section_def)
  moreover have same: "files st' (path_in d g) = files st (path_in d g)" if "g \<in> F" "g \<noteq> f" for g
    using inv that f(1) by (intro st'(3) other_path) (auto simp: config_inv_def)
  ultimately have "config_inv env d F st'"
    using inv st'(2) unfolding config_inv_def by metis
  moreover have "read_setting env (f, b, k) st' = (case map_of ?us b of None \<Rightarrow> None | Some es \<Rightarrow> lookup_last k es)"
    if "good_name b" "c_trim k = k" for b k
  proof -
    have "last_live es" if "map_of ?us b = Some es" for es
      using map_of_SomeD [OF that] roomy by (auto simp: roomy_def)
    then show ?thesis
      unfolding read_setting_means [OF fw st'(2) means that(1)] using that(2) lookup_last_live
      by (auto simp: map_of_live split: option.splits)
  qed
  moreover have "read_setting env (g, b, k) st' = read_setting env (g, b, k) st" if "g \<in> F" "g \<noteq> f" "good_name b" for g b k
  proof -
    note g = that
    obtain u us where "config_writable env d g" "files st (path_in d g) = Some u" "file_means (strayByte env) u us"
      using config_inv_file [OF inv g(1)] by metis
    then show ?thesis
      using same [OF g(1,2)] read_setting_means [of env d g _ u us b k] g(3) by simp
  qed
  ultimately show ?thesis
    using st'(1) by (intro exI [of _ st']) (auto simp: put_setting_def setting_ok_def)
qed

lemma config_put:
  assumes inv: "config_inv env d F st" and s: "setting_ok F s" and e: "read_setting env s st = Some e" "entry_accepts e v"
  shows "\<exists>st'. put_setting env rawTime s v st = Some st' \<and> config_inv env d F st' \<and> read_setting env s st' = Some (put_value v e)
    \<and> (\<forall>s' e'. setting_ok F s' \<and> s' \<noteq> s \<and> read_setting env s' st = Some e' \<longrightarrow> read_setting env s' st' = Some e')"
proof -
  obtain f block key where s_def: "s = (f, block, key)"
    by (metis surj_pair)
  have f: "f \<in> F" "good_name block" "c_trim key = key"
    using s by (auto simp: s_def setting_ok_def)
  obtain t ss where fw: "config_writable env d f" and t: "files st (path_in d f) = Some t" and
    ss: "file_means (strayByte env) t ss" "ss \<noteq> []" "length ss \<le> MAX_BLOCKS" "distinct (map fst ss)" "\<forall>(b, es)\<in>set ss. good_name b \<and> roomy es"
    using config_inv_file [OF inv f(1)] by metis
  note old = read_setting_means [OF fw t ss(1)]
  obtain es where es: "map_of ss block = Some es" "lookup_last key es = Some e"
    using old [OF f(2), of key] e(1) by (auto simp: s_def f(3) split: option.splits)
  have v: "number_value v" "type_accepts (valType e) v"
    using e(2) by (simp_all add: entry_accepts_def)
  obtain st' where st': "put_setting env rawTime (f, block, key) v st = Some st'" "config_inv env d F st'"
    "\<And>g b k. setting_ok F (g, b, k) \<Longrightarrow> read_setting env (g, b, k) st' =
         (if g = f then case map_of (update_section block key v ss) b of None \<Rightarrow> None | Some es \<Rightarrow> lookup_last k es
          else read_setting env (g, b, k) st)"
    using config_rewrite [OF inv f(1) t ss(1-3) v(1) update_section_roomy [OF ss(5,4) es(1) f(3) es(2) e(2)]] by blast
  have "read_setting env (g, b, k) st' = (if (g, b, k) = s then Some (put_value v e) else read_setting env (g, b, k) st)"
    if "setting_ok F (g, b, k)" for g b k
  proof -
    have k: "good_name b" "c_trim k = k"
      using that by (auto simp: setting_ok_def)
    show ?thesis
      using st'(3) [OF that] old [OF k(1), of k] k(2) es v(2) lookup_last_update [OF f(3), of k v es]
      by (cases "g = f"; cases "b = block") (auto simp: s_def map_of_update_section split: option.splits)
  qed
  then show ?thesis
    using st'(1,2) s by (auto simp: s_def)
qed

text \<open>A change that \<open>kvpUpdate\<close> rejects rewrites the file without a change.\<close>

lemma config_put_rejected:
  assumes inv: "config_inv env d F st" and s: "setting_ok F s" and v: "number_value v"
    and e: "\<And>e. read_setting env s st = Some e \<Longrightarrow> \<not> type_accepts (valType e) v"
  shows "\<exists>st'. put_setting env rawTime s v st = Some st' \<and> config_inv env d F st'
    \<and> (\<forall>s'. setting_ok F s' \<longrightarrow> read_setting env s' st' = read_setting env s' st)"
proof -
  obtain f block key where s_def: "s = (f, block, key)"
    by (metis surj_pair)
  have f: "f \<in> F" "good_name block" "c_trim key = key"
    using s by (auto simp: s_def setting_ok_def)
  obtain t ss where fw: "config_writable env d f" and t: "files st (path_in d f) = Some t" and
    ss: "file_means (strayByte env) t ss" "ss \<noteq> []" "length ss \<le> MAX_BLOCKS" "distinct (map fst ss)" "\<forall>(b, es)\<in>set ss. good_name b \<and> roomy es"
    using config_inv_file [OF inv f(1)] by metis
  note old = read_setting_means [OF fw t ss(1)]
  have "update_entries key v es = es" if "map_of ss block = Some es" for es
    using old [OF f(2), of key] e that lookup_last_find [of key es]
    by (auto simp: s_def f(3) update_entries_def split: option.splits)
  then have "update_section block key v ss = ss"
    using map_of_is_SomeI [OF ss(4)] by (force simp: update_section_def intro!: map_idI)
  then obtain st' where st': "put_setting env rawTime (f, block, key) v st = Some st'" "config_inv env d F st'"
    "\<And>g b k. setting_ok F (g, b, k) \<Longrightarrow> read_setting env (g, b, k) st' =
         (if g = f then case map_of ss b of None \<Rightarrow> None | Some es \<Rightarrow> lookup_last k es else read_setting env (g, b, k) st)"
    using config_rewrite [OF inv f(1) t ss(1-3) v, of block key rawTime] ss(5) by auto
  have "read_setting env (g, b, k) st' = read_setting env (g, b, k) st" if "setting_ok F (g, b, k)" for g b k
    using st'(3) [OF that] old [of b k] that by (cases "g = f") (auto simp: setting_ok_def split: option.splits)
  then show ?thesis
    using st'(1,2) by (auto simp: s_def)
qed

lemma entry_accepts_put: "entry_accepts e v \<Longrightarrow> entry_accepts (put_value v e) w = entry_accepts e w"
  unfolding entry_accepts_def by simp

interpretation config: setting_store "config_inv env d F" "setting_ok F" "read_setting env" "put_setting env rawTime"
    entry_accepts put_value for env d F rawTime
  by unfold_locales (use config_put entry_accepts_put in blast)+

text \<open>A setting is what the files say: a load, which changes only the store, keeps it.\<close>

lemma configLoad_files: "configLoad env f b st = Some (e, st') \<Longrightarrow> files st' = files st"
  by (auto simp: configLoad_def configLoadFullPath_def split: option.splits sum.splits if_splits prod.splits)

lemma config_same_files:
  assumes "config_inv env d F st" "files st' = files st"
  shows "config_inv env d F st'" "setting_ok F s \<Longrightarrow> read_setting env s st' = read_setting env s st"
proof -
  show "config_inv env d F st'"
    using assms by (simp add: config_inv_def)
  assume s: "setting_ok F s"
  obtain f b k where fbk: "s = (f, b, k)"
    by (metis surj_pair)
  then have f: "f \<in> F" "good_name b"
    using s by (simp_all add: setting_ok_def)
  obtain t ss where t: "config_writable env d f" "files st (path_in d f) = Some t" "file_means (strayByte env) t ss"
    using config_inv_file [OF assms(1) f(1)] by metis
  show "read_setting env s st' = read_setting env s st"
    using read_setting_means [OF t(1) _ t(3) f(2), of _ k] t(2) assms(2) by (simp add: fbk)
qed

lemma read_setting_load:
  assumes "read_setting env (f, b, k) st = Some e"
  obtains st' where "configLoad env f b (st\<lparr>store := kvpReset (store st)\<rparr>) = Some (CONFIG_E_OK, st')" "lookup_key k (store st') = Some e"
    "files st' = files st"
proof -
  obtain c st' where st': "configLoad env f b (st\<lparr>store := kvpReset (store st)\<rparr>) = Some (c, st')"
    using assms by (auto simp: read_setting_def split: option.splits)
  then have "c = CONFIG_E_OK" "lookup_key k (store st') = Some e"
    using assms by (auto simp: read_setting_def lookup_key_def split: ConfigErrorCode.splits)
  then show thesis
    using that st' configLoad_files [OF st'] by simp
qed

section \<open>Properties\<close>

definition example_env :: config_env where
  "example_env = \<lparr>configDir = Some ''/config'', homeDir = ''/home'', canRead = (\<lambda>_. True), canWrite = (\<lambda>_. True), strayByte = CHR ''x''\<rparr>"

definition example_sections :: "(string \<times> kvp_entry list) list" where
  "example_sections =
     [(''losd'', [\<lparr>keyPtr = ''sendData'', valPtr = ''1'', valType = KT_INT, nelements = 1\<rparr>,
                   \<lparr>keyPtr = ''bandwidths'', valPtr = ''20,30'', valType = KT_INT, nelements = 2\<rparr>]),
      (''output'', [\<lparr>keyPtr = ''name'', valPtr = ''los'', valType = KT_STRING, nelements = 3\<rparr>])]"

text \<open>A configuration of one file with given sections, all of whose entries are in use.\<close>

definition one_file :: "string \<Rightarrow> (string \<times> kvp_entry list) list \<Rightarrow> config_state" where
  "one_file f ss = \<lparr>files = [''/config/'' @ f \<mapsto> file_text ss], store = kvp_start, inBlock = False\<rparr>"

definition sections_fit :: "(string \<times> kvp_entry list) list \<Rightarrow> bool" where
  "sections_fit ss \<longleftrightarrow> ss \<noteq> [] \<and> length ss \<le> MAX_BLOCKS \<and> distinct (map fst ss) \<and> (\<forall>(b, es)\<in>set ss. good_name b
     \<and> (\<forall>e\<in>set es. roomy_entry e \<and> valType e \<noteq> KT_INVALID) \<and> distinct (map keyPtr es) \<and> length es \<le> MAXKEYS
     \<and> (\<Sum>e\<leftarrow>es. entry_space e) < 20480)"

lemma sections_fit_roomy:
  assumes "sections_fit ss" "(b, es) \<in> set ss"
  shows "live_of es = es" "good_name b \<and> roomy es"
proof -
  show live: "live_of es = es"
    using assms by (force simp: sections_fit_def live_of_def intro!: filter_True)
  have "last_live es"
    using assms by (fastforce simp: sections_fit_def last_live_def dest: lookup_last_in)
  then show "good_name b \<and> roomy es"
    using assms live by (fastforce simp: sections_fit_def roomy_def)
qed

lemma one_file_facts:
  assumes "sections_fit ss" "CHR ''/'' \<notin> set f"
  shows "config_inv example_env ''/config'' {f} (one_file f ss)"
    "good_name b \<Longrightarrow> read_setting example_env (f, b, key) (one_file f ss)
      = (case map_of ss b of None \<Rightarrow> None | Some es \<Rightarrow> lookup_last (c_trim key) es)"
proof -
  have roomy: "\<forall>(b, es)\<in>set ss. good_name b \<and> roomy es" and live: "map (apsnd live_of) ss = ss"
    using sections_fit_roomy [OF assms(1)] by (auto intro!: map_idI)
  have ok: "sections_ok ss" "distinct (map fst ss)"
    using roomy roomy_clean assms(1) by (auto simp: sections_ok_def sections_fit_def)
  from file_text_means [OF ok, of "CHR ''x''"] have means: "file_means CHR ''x'' (file_text ss) ss"
    by (simp add: live BACKSLASH_def)
  have writable: "config_writable example_env ''/config'' f"
    by (simp add: config_writable_def example_env_def BACKSLASH_def)
  have "config_file_ok example_env (file_text ss)"
    using means roomy assms(1) unfolding config_file_ok_def sections_fit_def by (intro exI [of _ ss]) (auto simp: example_env_def)
  then show "config_inv example_env ''/config'' {f} (one_file f ss)"
    using assms(2) writable by (simp add: config_inv_def one_file_def path_in_def)
  show "good_name b \<Longrightarrow> read_setting example_env (f, b, key) (one_file f ss)
      = (case map_of ss b of None \<Rightarrow> None | Some es \<Rightarrow> lookup_last (c_trim key) es)"
    by (rule read_setting_means [OF writable]) (use means in \<open>simp_all add: one_file_def path_in_def example_env_def\<close>)
qed

lemma example_fit: "sections_fit example_sections"
  by code_simp

lemma example_file_name: "CHR ''/'' \<notin> set ''LOSd.config''"
  by simp

definition example_config :: config_state where
  "example_config = one_file ''LOSd.config'' example_sections"

lemmas example_inv = one_file_facts(1) [OF example_fit example_file_name, folded example_config_def]
lemmas example_reads = one_file_facts(2) [OF example_fit example_file_name, folded example_config_def]

text \<open>
  C2. A sequence of \<open>configModify\<close> calls with numbers, on configuration files whose sections load and
  have room, succeeds as a whole: a program that loads a section afterwards gets for each setting
  the last value written, with the type and number of elements unchanged, and all other settings
  of all files as before; the files have room again.
\<close>

theorem settings_changed:
  assumes "config_inv env d F st" "\<forall>(s, v)\<in>set cs. setting_ok F s \<and> (\<exists>e. read_setting env s st = Some e \<and> entry_accepts e v)"
  shows "\<exists>st'. put_all (put_setting env rawTime) cs st = Some st' \<and> config_inv env d F st'
    \<and> (\<forall>s e. setting_ok F s \<and> read_setting env s st = Some e \<longrightarrow> read_setting env s st' = Some (after_changes put_value cs s e))"
  using assms by (intro config.put_all_shown) (auto simp: config.accepted_def)

lemma settings_changed_witness:
  "\<exists>st'. put_all (put_setting example_env (Some 99)) [((''LOSd.config'', ''losd'', ''bandwidths''), Int_values [40, 50]),
        ((''LOSd.config'', ''losd'', ''sendData''), Int_values [0]), ((''LOSd.config'', ''losd'', ''bandwidths''), Int_values [60, -7])]
      example_config = Some st'
    \<and> read_setting example_env (''LOSd.config'', ''losd'', ''bandwidths'') st' =
        Some \<lparr>keyPtr = ''bandwidths'', valPtr = ''60,-7'', valType = KT_INT, nelements = 2\<rparr>
    \<and> read_setting example_env (''LOSd.config'', ''losd'', ''sendData'') st' =
        Some \<lparr>keyPtr = ''sendData'', valPtr = ''0'', valType = KT_INT, nelements = 1\<rparr>
    \<and> read_setting example_env (''LOSd.config'', ''output'', ''name'') st' =
        Some \<lparr>keyPtr = ''name'', valPtr = ''los'', valType = KT_STRING, nelements = 3\<rparr>"
proof -
  let ?s = "(''LOSd.config'', ''losd'', ''sendData'')" and ?b = "(''LOSd.config'', ''losd'', ''bandwidths'')"
    and ?n = "(''LOSd.config'', ''output'', ''name'')"
  have good: "good_name ''losd''" "good_name ''output''"
    by code_simp+
  have trim: "c_trim ''sendData'' = ''sendData''" "c_trim ''bandwidths'' = ''bandwidths''" "c_trim ''name'' = ''name''"
    by code_simp+
  have reads: "read_setting example_env ?s example_config = Some \<lparr>keyPtr = ''sendData'', valPtr = ''1'', valType = KT_INT, nelements = 1\<rparr>"
    "read_setting example_env ?b example_config = Some \<lparr>keyPtr = ''bandwidths'', valPtr = ''20,30'', valType = KT_INT, nelements = 2\<rparr>"
    "read_setting example_env ?n example_config = Some \<lparr>keyPtr = ''name'', valPtr = ''los'', valType = KT_STRING, nelements = 3\<rparr>"
    by (simp_all add: example_reads good trim example_sections_def)
  have ok: "setting_ok {''LOSd.config''} ?s" "setting_ok {''LOSd.config''} ?b" "setting_ok {''LOSd.config''} ?n"
    by (simp_all add: setting_ok_def good trim)
  have texts: "commas (map show_int [60, -7]) = ''60,-7''" "commas (map show_int [0]) = ''0''"
    by code_simp+
  have accepts: "entry_accepts \<lparr>keyPtr = k, valPtr = t, valType = KT_INT, nelements = n\<rparr> (Int_values is)
      \<longleftrightarrow> int (length is) = n \<and> is \<noteq> [] \<and> (\<forall>i\<in>set is. - (2 ^ 31) \<le> i \<and> i < 2 ^ 31)" for k t n "is"
    by (auto simp: entry_accepts_def type_accepts_def number_value_def)
  let ?cs = "[(?b, Int_values [40, 50]), (?s, Int_values [0]), (?b, Int_values [60, -7])]"
  have all: "\<forall>(s, v)\<in>set ?cs. setting_ok {''LOSd.config''} s \<and> (\<exists>e. read_setting example_env s example_config = Some e \<and> entry_accepts e v)"
    using ok reads by (simp add: accepts)
  obtain st' where st': "put_all (put_setting example_env (Some 99)) ?cs example_config = Some st'"
      "\<And>s e. setting_ok {''LOSd.config''} s \<Longrightarrow> read_setting example_env s example_config = Some e
        \<Longrightarrow> read_setting example_env s st' = Some (after_changes put_value ?cs s e)"
    using settings_changed [OF example_inv all] by blast
  show ?thesis
    using st'(1) st'(2) [OF ok(1) reads(1)] st'(2) [OF ok(2) reads(2)] st'(2) [OF ok(3) reads(3)] texts
    by (intro exI [of _ st']) simp
qed

text \<open>
  A change of a setting that does not exist, or whose type is another one, is only reported on the
  log: \<open>configModify\<close> returns success, and every setting of every file reads as before.
\<close>

theorem rejected_change_succeeds:
  assumes "config_inv env d F st" "setting_ok F s" "number_value v"
    and "\<forall>e. read_setting env s st = Some e \<longrightarrow> \<not> type_accepts (valType e) v"
  shows "\<exists>st'. put_setting env rawTime s v st = Some st' \<and> config_inv env d F st'
    \<and> (\<forall>s'. setting_ok F s' \<longrightarrow> read_setting env s' st' = read_setting env s' st)"
  using config_put_rejected [OF assms(1-3)] assms(4) by blast

lemma rejected_change_succeeds_witness:
  "\<exists>st'. put_setting example_env None (''LOSd.config'', ''losd'', ''bandwidth'') (Int_values [1]) example_config = Some st'
    \<and> read_setting example_env (''LOSd.config'', ''losd'', ''bandwidth'') st' = None"
proof -
  let ?s = "(''LOSd.config'', ''losd'', ''bandwidth'')"
  have s: "good_name ''losd''" "c_trim ''bandwidth'' = ''bandwidth''"
    by code_simp+
  then have none: "read_setting example_env ?s example_config = None"
    by (simp add: example_reads example_sections_def)
  have "setting_ok {''LOSd.config''} ?s" "number_value (Int_values [1])"
    by (simp_all add: s setting_ok_def number_value_def)
  then show ?thesis
    using rejected_change_succeeds [OF example_inv, of ?s "Int_values [1]" None] none by fastforce
qed

end
