(* ===== verification/Cmdd_World.thy ===== *)
theory Cmdd_World
  imports Config_Settings Packets "HOL-Library.Monad_Syntax" "HOL-Library.While_Combinator"
begin

text \<open>
  The command daemon \<open>src/programs/Cmdd/Cmdd.c\<close>: its state and what it does to the world. A call
  outside the configuration files is an \<open>action\<close>, appended to the list of actions so far; its result
  (of \<open>system\<close>, \<open>kill\<close>, \<open>fopen\<close> of a pid file) is a parameter that may depend on all actions. So is
  the clock. \<open>None\<close> is an access outside an array.
\<close>

section \<open>State\<close>

datatype payload =
  Log_request int int int int string
| Play_request int int
| Run_start int int int
| Tuff_raw int int int int
| Cmd_echo int int int int "int list"

datatype action =
  Read_pid string
| Probe string
| Kill int int
| Shell string
| Sleep int
| Write_file string payload
| Write_number string int
| Make_link string string
| Remove_file string
| Make_directories string
| Move_if_directory string string
| Symlink string string
| Close_writer
| Prepare_writer int
| Hk_write payload int

text \<open>
  The global arrays by their names, \<open>present\<close> the files that \<open>fopen\<close> finds where command echoes
  are written; \<open>lastRunNumber\<close> and \<open>lastEventNumber\<close> stand for the two files with these numbers.
\<close>

record cmdd =
  conf :: config_state
  ticks :: nat
  acts :: "action list"
  ints :: "string \<Rightarrow> int list"
  floats :: "string \<Rightarrow> real list"
  usbName :: string
  ntuName :: string
  hkDiskBitMask :: int
  eventDiskBitMask :: int
  numCmdsInConfig :: int
  numSources :: int
  requestCounter :: int
  rawtuff_counter :: int
  present :: "string list"
  lastRunNumber :: int
  lastEventNumber :: int

text \<open>\<open>junk\<close> is the value of an uninitialised \<open>rawtime\<close>.\<close>

record cmdd_system =
  env :: config_env
  clock :: "nat \<Rightarrow> int"
  outcome :: "action list \<Rightarrow> int"
  junk :: int

definition act :: "cmdd_system \<Rightarrow> action \<Rightarrow> cmdd \<Rightarrow> int \<times> cmdd" where
  "act sys a w = (outcome sys (acts w @ [a]), w\<lparr>acts := acts w @ [a]\<rparr>)"

definition do_act :: "cmdd_system \<Rightarrow> action \<Rightarrow> cmdd \<Rightarrow> cmdd" where
  "do_act sys a w = snd (act sys a w)"

definition time_now :: "cmdd_system \<Rightarrow> cmdd \<Rightarrow> int \<times> cmdd" where
  "time_now sys w = (clock sys (ticks w), w\<lparr>ticks := Suc (ticks w)\<rparr>)"

text \<open>A file is written when it can be opened: a negative outcome means that it cannot.\<close>

definition write_file :: "cmdd_system \<Rightarrow> string \<Rightarrow> payload \<Rightarrow> cmdd \<Rightarrow> cmdd" where
  "write_file sys path p w =
     (let (r, w) = act sys (Write_file path p) w in if r < 0 then w else w\<lparr>present := path # present w\<rparr>)"

section \<open>Signals\<close>

definition SIGKILL :: int where "SIGKILL = 9"
definition SIGUSR1 :: int where "SIGUSR1 = 10"
definition SIGUSR2 :: int where "SIGUSR2 = 12"

text \<open>
  \<open>sendSignal\<close> of \<open>utilLib\<close>. It has no case for Cmdd itself: the name of the pid file is then an
  uninitialised array. A pid file that cannot be opened has a negative outcome.
\<close>

definition sendSignal :: "cmdd_system \<Rightarrow> ProgramId_t \<Rightarrow> int \<Rightarrow> cmdd \<Rightarrow> (int \<times> cmdd) option" where
  "sendSignal sys prog theSignal w =
     (if prog = ID_CMDD then None
      else
        case getPidFile prog of None \<Rightarrow> None
        | Some fileName \<Rightarrow>
            let (pid, w) = act sys (Read_pid fileName) w in
            if pid < 0 then Some (-1, w) else Some (act sys (Kill pid theSignal) w))"

section \<open>Settings\<close>

text \<open>
  \<open>configModify\<close> with \<open>&rawtime\<close>, which returns the time, and with \<open>NULL\<close>. The error code is ignored
  by every caller.
\<close>

definition modify :: "cmdd_system \<Rightarrow> setting \<Rightarrow> kvp_value \<Rightarrow> cmdd \<Rightarrow> (int \<times> cmdd) option" where
  "modify sys s v w =
     (case s of (f, block, key) \<Rightarrow>
        let (t, w) = time_now sys w in
        map_option (\<lambda>(_, c). (t, w\<lparr>conf := c\<rparr>)) (config_modify (env sys) f block key v (Some t) (conf w)))"

definition modify_null :: "cmdd_system \<Rightarrow> setting \<Rightarrow> kvp_value \<Rightarrow> cmdd \<Rightarrow> cmdd option" where
  "modify_null sys s v w =
     (case s of (f, block, key) \<Rightarrow>
        map_option (\<lambda>(_, c). w\<lparr>conf := c\<rparr>) (config_modify (env sys) f block key v None (conf w)))"

definition kvp_reset :: "cmdd \<Rightarrow> cmdd" where
  "kvp_reset w = w\<lparr>conf := (conf w)\<lparr>store := kvpReset (store (conf w))\<rparr>\<rparr>"

definition load_section :: "cmdd_system \<Rightarrow> string \<Rightarrow> string \<Rightarrow> cmdd \<Rightarrow> (ConfigErrorCode \<times> cmdd) option" where
  "load_section sys f block w = map_option (\<lambda>(e, c). (e, w\<lparr>conf := c\<rparr>)) (configLoad (env sys) f block (conf w))"

text \<open>The numbers of the error codes, which \<open>readConfig\<close> and \<open>readAcqdConfig\<close> combine.\<close>

fun config_code :: "ConfigErrorCode \<Rightarrow> int" where
  "config_code CONFIG_E_OK = 0"
| "config_code CONFIG_E_NOFILE = 0x100"
| "config_code CONFIG_E_NESTING = 0x101"
| "config_code CONFIG_E_EOF = 0x102"
| "config_code CONFIG_E_SYSTEM = 0x103"
| "config_code CONFIG_E_KVP = 0x104"
| "config_code CONFIG_E_SECTION = 0x105"
| "config_code CONFIG_E_UNNAMED = 0x106"

text \<open>
  \<open>kvpGetIntArray\<close> and \<open>kvpGetFloatArray\<close> into a global array with the limit \<open>n\<close>: the callers only
  print an error. With a limit beyond the array a long entry is written outside.
\<close>

definition get_ints :: "string \<Rightarrow> string \<Rightarrow> int \<Rightarrow> cmdd \<Rightarrow> cmdd option" where
  "get_ints key name n w =
     (case kvpGetIntArray key (ints w name) n (store (conf w)) of None \<Rightarrow> None
      | Some (_, vs, _, k) \<Rightarrow> Some (w\<lparr>ints := (ints w)(name := vs), conf := (conf w)\<lparr>store := k\<rparr>\<rparr>))"

definition get_floats :: "string \<Rightarrow> string \<Rightarrow> int \<Rightarrow> cmdd \<Rightarrow> cmdd option" where
  "get_floats key name n w =
     (case kvpGetFloatArray key (floats w name) n (store (conf w)) of None \<Rightarrow> None
      | Some (_, vs, _, k) \<Rightarrow> Some (w\<lparr>floats := (floats w)(name := vs), conf := (conf w)\<lparr>store := k\<rparr>\<rparr>))"

fun get_all :: "('a \<Rightarrow> cmdd \<Rightarrow> cmdd option) \<Rightarrow> 'a list \<Rightarrow> cmdd \<Rightarrow> cmdd option" where
  "get_all get [] w = Some w"
| "get_all get (x # xs) w = do { w \<leftarrow> get x w; get_all get xs w }"

definition get_int :: "string \<Rightarrow> int \<Rightarrow> cmdd \<Rightarrow> int \<times> cmdd" where
  "get_int key d w = (let (i, k) = kvpGetInt key d (store (conf w)) in (i, w\<lparr>conf := (conf w)\<lparr>store := k\<rparr>\<rparr>))"

definition set_int :: "string \<Rightarrow> int \<Rightarrow> int \<Rightarrow> cmdd \<Rightarrow> cmdd option" where
  "set_int name i v w =
     (if 0 \<le> i \<and> i < int (length (ints w name)) then Some (w\<lparr>ints := (ints w)(name := (ints w name)[nat i := v])\<rparr>) else None)"

definition set_float :: "string \<Rightarrow> int \<Rightarrow> real \<Rightarrow> cmdd \<Rightarrow> cmdd option" where
  "set_float name i v w =
     (if 0 \<le> i \<and> i < int (length (floats w name)) then Some (w\<lparr>floats := (floats w)(name := (floats w name)[nat i := v])\<rparr>) else None)"

section \<open>Commands\<close>

definition MAX_CMD_LENGTH :: nat where "MAX_CMD_LENGTH = 20"

text \<open>A command: the bytes \<open>cmd\<close> have length 20.\<close>

record command =
  numCmdBytes :: int
  cmd :: "int list"
  fromSipd :: int

definition word_at :: "int list \<Rightarrow> nat \<Rightarrow> int" where
  "word_at c i = c ! i + 256 * c ! Suc i"

definition mask_at :: "int list \<Rightarrow> nat \<Rightarrow> int" where
  "mask_at c i = c ! i + 256 * c ! Suc i + 65536 * c ! (i + 2)"

definition long_at :: "int list \<Rightarrow> nat \<Rightarrow> int" where
  "long_at c i = c ! i + 256 * c ! Suc i + 65536 * c ! (i + 2) + 16777216 * c ! (i + 3)"

end
