(* ===== verification/Cmdd_Programs.thy ===== *)
theory Cmdd_Programs
  imports Cmdd_World
begin

text \<open>
  Killing, starting and respawning programs, new run directories, requests to the log watcher, and
  the switching of whole configuration files (\<open>Cmdd.c\<close>). A mask selects programs by \<open>getIdMask\<close>.
\<close>

unbundle bit_operations_syntax

section \<open>Programs by mask\<close>

definition all_programs :: "ProgramId_t list" where
  "all_programs = [ID_ACQD, ID_ARCHIVED, ID_CALIBD, ID_CMDD, ID_EVENTD, ID_GPSD, ID_HKD, ID_LOSD, ID_PRIORITIZERD, ID_SIPD,
     ID_MONITORD, ID_PLAYBACKD, ID_LOGWATCHD, ID_NTUD, ID_OPENPORTD, ID_RTLD, ID_TUFFD]"

fun for_programs :: "(ProgramId_t \<Rightarrow> 'a \<Rightarrow> 'a option) \<Rightarrow> int \<Rightarrow> ProgramId_t list \<Rightarrow> 'a \<Rightarrow> 'a option" where
  "for_programs f progMask [] s = Some s"
| "for_programs f progMask (p # ps) s =
     (if progMask AND getIdMask p \<noteq> 0 then (case f p s of None \<Rightarrow> None | Some s \<Rightarrow> for_programs f progMask ps s)
      else for_programs f progMask ps s)"

definition prog_name :: "ProgramId_t \<Rightarrow> string" where
  "prog_name p = (case getProgName p of Some n \<Rightarrow> n | None \<Rightarrow> [])"

definition pid_file :: "ProgramId_t \<Rightarrow> string" where
  "pid_file p = (case getPidFile p of Some n \<Rightarrow> n | None \<Rightarrow> [])"

text \<open>The result of a function that counts errors.\<close>

definition unless_errors :: "int \<Rightarrow> int \<times> cmdd \<Rightarrow> int \<times> cmdd" where
  "unless_errors rawtime s = (case s of (errorCount, w) \<Rightarrow> (if errorCount \<noteq> 0 then 0 else rawtime, w))"

definition kill_program :: "cmdd_system \<Rightarrow> ProgramId_t \<Rightarrow> int \<times> cmdd \<Rightarrow> (int \<times> cmdd) option" where
  "kill_program sys prog s = (case s of (errorCount, w) \<Rightarrow>
     (let (r, w) = act sys (Shell (''daemon --stop -n '' @ prog_name prog)) w in
      if r = 0 then Some (errorCount, w)
      else do {
        (r, w) \<leftarrow> sendSignal sys prog SIGUSR2 w;
        Some (errorCount + 1,
          if r = 0 then w else do_act sys (Shell (''killall -9 '' @ prog_name prog)) (do_act sys (Sleep 1) w))
      }))"

definition killPrograms :: "cmdd_system \<Rightarrow> int \<Rightarrow> cmdd \<Rightarrow> (int \<times> cmdd) option" where
  "killPrograms sys progMask w =
     (let (rawtime, w) = time_now sys w;
          w = (if progMask AND getIdMask ID_OPENPORTD \<noteq> 0 then
                 let (pid, w) = act sys (Read_pid ''/tmp/openportCopyPid'') w in if pid < 0 then w else do_act sys (Kill pid 9) w
               else w)
      in map_option (unless_errors rawtime) (for_programs (kill_program sys) progMask all_programs (0, w)))"

text \<open>The signal of \<open>reallyKillPrograms\<close> is \<open>-9\<close>, and it has removed the pid file before.\<close>

definition really_kill_program :: "cmdd_system \<Rightarrow> ProgramId_t \<Rightarrow> cmdd \<Rightarrow> cmdd option" where
  "really_kill_program sys prog w =
     do {
       (r, w) \<leftarrow> sendSignal sys prog (- 9) (do_act sys (Remove_file (pid_file prog)) w);
       Some (if r = 0 then w else do_act sys (Shell (''killall -9 '' @ prog_name prog)) w)
     }"

definition reallyKillPrograms :: "cmdd_system \<Rightarrow> int \<Rightarrow> cmdd \<Rightarrow> (int \<times> cmdd) option" where
  "reallyKillPrograms sys progMask w =
     (let (rawtime, w) = time_now sys w in
      map_option (Pair rawtime) (for_programs (really_kill_program sys) progMask all_programs w))"

definition display :: string where
  "display = '' --env='' @ [CHR 0x22] @ ''DISPLAY=:0'' @ [CHR 0x22]"

definition daemon_command :: "ProgramId_t \<Rightarrow> string" where
  "daemon_command prog =
     (let n = prog_name prog in
      if prog = ID_PRIORITIZERD then ''daemon -r '' @ n @ '' -n '' @ n @ display
      else if prog = ID_ACQD \<or> prog = ID_ARCHIVED then ''daemon -r '' @ n @ '' -n '' @ n @ '' ''
      else if prog = ID_SIPD then ''nice daemon -r '' @ n @ '' -n '' @ n @ '' ''
      else ''nice -n 20 daemon -r '' @ n @ '' -n '' @ n @ '' '')"

text \<open>\<open>needExtra\<close> stays set for the programs behind Prioritizerd.\<close>

definition start_program :: "cmdd_system \<Rightarrow> ProgramId_t \<Rightarrow> int \<times> bool \<times> cmdd \<Rightarrow> (int \<times> bool \<times> cmdd) option" where
  "start_program sys prog s = (case s of (errorCount, needExtra, w) \<Rightarrow>
     (let needExtra = (needExtra \<or> prog = ID_PRIORITIZERD);
          w = (if needExtra then do_act sys (Sleep 1) (do_act sys (Shell (''daemon -r X -n X'' @ display)) w) else w);
          (r, w) = act sys (Shell (daemon_command prog)) w
      in Some (if r \<noteq> 0 then errorCount + 1 else errorCount, needExtra, w)))"

definition startPrograms :: "cmdd_system \<Rightarrow> int \<Rightarrow> cmdd \<Rightarrow> (int \<times> cmdd) option" where
  "startPrograms sys progMask w =
     (let (rawtime, w) = time_now sys w in
      map_option (\<lambda>(errorCount, _, w). unless_errors rawtime (errorCount, w))
        (for_programs (start_program sys) progMask all_programs (0, False, w)))"

definition respawn_program :: "cmdd_system \<Rightarrow> ProgramId_t \<Rightarrow> int \<times> cmdd \<Rightarrow> (int \<times> cmdd) option" where
  "respawn_program sys prog s = (case s of (errorCount, w) \<Rightarrow>
     (let (pid, w) = act sys (Read_pid (pid_file prog)) w in
      if pid < 0 then map_option (\<lambda>(_, w). (errorCount + 1, w)) (startPrograms sys (getIdMask prog) w)
      else Some (errorCount, do_act sys (Kill pid SIGUSR2) w)))"

definition respawnPrograms :: "cmdd_system \<Rightarrow> int \<Rightarrow> cmdd \<Rightarrow> (int \<times> cmdd) option" where
  "respawnPrograms sys progMask w =
     (let (rawtime, w) = time_now sys w in
      map_option (unless_errors rawtime) (for_programs (respawn_program sys) progMask all_programs (0, w)))"

section \<open>The programs that take data\<close>

definition killed_programs :: "ProgramId_t list" where
  "killed_programs = [ID_MONITORD, ID_HKD, ID_GPSD, ID_ARCHIVED, ID_CALIBD, ID_PRIORITIZERD, ID_EVENTD, ID_ACQD, ID_PLAYBACKD,
     ID_LOGWATCHD, ID_OPENPORTD, ID_NTUD]"

definition started_programs :: "ProgramId_t list" where
  "started_programs = [ID_HKD, ID_GPSD, ID_ARCHIVED, ID_CALIBD, ID_MONITORD, ID_PRIORITIZERD, ID_EVENTD, ID_PLAYBACKD,
     ID_LOGWATCHD, ID_NTUD, ID_ACQD, ID_OPENPORTD]"

fun kill_each :: "cmdd_system \<Rightarrow> bool \<Rightarrow> ProgramId_t list \<Rightarrow> cmdd \<Rightarrow> cmdd option" where
  "kill_each sys start [] w = Some w"
| "kill_each sys start (p # ps) w =
     do {
       (_, w) \<leftarrow> killPrograms sys (getIdMask p) w;
       kill_each sys False ps (if start then do_act sys (Sleep 1) w else w)
     }"

text \<open>
  The loop that waits for a pid file to go away; the state is \<open>fileExists\<close>, \<open>sleepCount\<close> and the
  world. After 20 seconds in all the programs that are left are killed, after 30 the loop ends.
\<close>

definition wait_step :: "cmdd_system \<Rightarrow> ProgramId_t \<Rightarrow> bool \<times> nat \<times> cmdd option \<Rightarrow> bool \<times> nat \<times> cmdd option" where
  "wait_step sys prog s =
     (case s of
        (_, n, None) \<Rightarrow> (False, n, None)
      | (_, n, Some w) \<Rightarrow>
          let (r, w) = act sys (Probe (pid_file prog)) w in
          if r = 0 then (False, n, Some w)
          else
            let w = do_act sys (Sleep 1) w in
            if 20 < Suc n then
              (True, Suc n, map_option (\<lambda>(_, w). do_act sys (Remove_file (pid_file prog)) (do_act sys (Sleep 1) w))
                 (reallyKillPrograms sys (getIdMask prog) w))
            else (True, Suc n, Some w))"

definition wait_gone :: "cmdd_system \<Rightarrow> ProgramId_t \<Rightarrow> nat \<Rightarrow> cmdd \<Rightarrow> (nat \<times> cmdd) option" where
  "wait_gone sys prog n w =
     do {
       (_, n, s) \<leftarrow> while_option (\<lambda>(fileExists, n, _). fileExists \<and> n < 30) (wait_step sys prog) (wait_step sys prog (False, n, Some w));
       w \<leftarrow> s;
       Some (n, w)
     }"

fun wait_all :: "cmdd_system \<Rightarrow> ProgramId_t list \<Rightarrow> nat \<Rightarrow> cmdd \<Rightarrow> cmdd option" where
  "wait_all sys [] n w = Some w"
| "wait_all sys (p # ps) n w = do { (n, w) \<leftarrow> wait_gone sys p n w; wait_all sys ps n w }"

definition killDataPrograms :: "cmdd_system \<Rightarrow> cmdd \<Rightarrow> cmdd option" where
  "killDataPrograms sys w =
     do {
       w \<leftarrow> kill_each sys True killed_programs w;
       w \<leftarrow> wait_all sys killed_programs 0 (do_act sys (Sleep 5) w);
       Some (do_act sys (Sleep 2) (do_act sys (Shell ''killall sleep'') (do_act sys (Shell ''killall -9 rsync'') w)))
     }"

fun start_each :: "cmdd_system \<Rightarrow> ProgramId_t list \<Rightarrow> cmdd \<Rightarrow> cmdd option" where
  "start_each sys [] w = Some w"
| "start_each sys (p # ps) w = do { (_, w) \<leftarrow> startPrograms sys (getIdMask p) w; start_each sys ps w }"

definition startDataPrograms :: "cmdd_system \<Rightarrow> cmdd \<Rightarrow> cmdd option" where
  "startDataPrograms sys w = start_each sys started_programs w"

section \<open>The data programs are always killed\<close>

lemma sendSignal_some: "prog \<noteq> ID_CMDD \<Longrightarrow> prog \<noteq> ID_NOT_AN_ID \<Longrightarrow> \<exists>r. sendSignal sys prog sig w = Some r"
  by (cases prog) (auto simp: sendSignal_def getPidFile_def Let_def split: prod.splits)

lemma for_programs_some:
  "(\<And>p s. p \<in> set ps \<Longrightarrow> progMask AND getIdMask p \<noteq> 0 \<Longrightarrow> \<exists>r. f p s = Some r) \<Longrightarrow> \<exists>r. for_programs f progMask ps s = Some r"
proof (induction ps arbitrary: s)
  case (Cons p ps)
  show ?case
  proof (cases "progMask AND getIdMask p = 0")
    case False
    then obtain r where "f p s = Some r"
      using Cons.prems by (metis list.set_intros(1))
    then show ?thesis
      using Cons.IH [of r] Cons.prems False by simp
  next
    case True
    then show ?thesis
      using Cons.IH [of s] Cons.prems by simp
  qed
qed simp

definition data_program :: "ProgramId_t \<Rightarrow> bool" where
  "data_program p \<longleftrightarrow> p \<noteq> ID_CMDD \<and> p \<noteq> ID_NOT_AN_ID"

lemma selected_program:
  assumes "data_program p" "getIdMask p AND getIdMask q \<noteq> 0"
  shows "q \<noteq> ID_CMDD" "q \<noteq> ID_NOT_AN_ID"
  using assms program_masks_disjoint [of p q] by (auto simp: data_program_def split: if_splits)

lemma killPrograms_some:
  assumes "data_program p"
  shows "\<exists>r. killPrograms sys (getIdMask p) w = Some r"
proof -
  have "\<exists>r. kill_program sys q s = Some r" if "getIdMask p AND getIdMask q \<noteq> 0" for q s
  proof -
    note q = selected_program [OF assms that]
    obtain n w where s: "s = (n, w)"
      by (cases s)
    obtain r w1 where act: "act sys (Shell (''daemon --stop -n '' @ prog_name q)) w = (r, w1)"
      by fastforce
    obtain x where "sendSignal sys q SIGUSR2 w1 = Some x"
      using sendSignal_some [OF q] by blast
    then show ?thesis
      using act by (cases x) (simp add: kill_program_def s)
  qed
  then have "for_programs (kill_program sys) (getIdMask p) all_programs s \<noteq> None" for s
    using for_programs_some [of all_programs "getIdMask p" "kill_program sys" s] by auto
  then have "killPrograms sys (getIdMask p) w \<noteq> None"
    by (simp add: killPrograms_def Let_def split_beta)
  then show ?thesis
    by auto
qed

lemma reallyKillPrograms_some:
  assumes "data_program p"
  shows "\<exists>r. reallyKillPrograms sys (getIdMask p) w = Some r"
proof -
  have "\<exists>r. really_kill_program sys q s = Some r" if "getIdMask p AND getIdMask q \<noteq> 0" for q s
  proof -
    note q = selected_program [OF assms that]
    obtain x where "sendSignal sys q (- 9) (do_act sys (Remove_file (pid_file q)) s) = Some x"
      using sendSignal_some [OF q] by blast
    then show ?thesis
      by (cases x) (simp add: really_kill_program_def)
  qed
  then have "for_programs (really_kill_program sys) (getIdMask p) all_programs s \<noteq> None" for s
    using for_programs_some [of all_programs "getIdMask p" "really_kill_program sys" s] by auto
  then have "reallyKillPrograms sys (getIdMask p) w \<noteq> None"
    by (simp add: reallyKillPrograms_def Let_def split_beta)
  then show ?thesis
    by auto
qed

lemma wait_step_cases:
  assumes "data_program p"
  obtains n' w' where "wait_step sys p (e, n, Some w) = (False, n, Some w')"
  | n' w' where "wait_step sys p (e, n, Some w) = (True, Suc n, Some w')"
proof -
  obtain r w1 where act: "act sys (Probe (pid_file p)) w = (r, w1)"
    by fastforce
  let ?gone = "\<lambda>w. do_act sys (Remove_file (pid_file p)) (do_act sys (Sleep 1) w)"
  obtain x w2 where "reallyKillPrograms sys (getIdMask p) (do_act sys (Sleep 1) w1) = Some (x, w2)"
    using reallyKillPrograms_some [OF assms] by (metis surj_pair)
  then have step: "wait_step sys p (e, n, Some w) = (if r = 0 then (False, n, Some w1) else (True, Suc n,
      Some (if 20 < Suc n then ?gone w2 else do_act sys (Sleep 1) w1)))"
    using act by (simp add: wait_step_def)
  show thesis
  proof (cases "r = 0")
    case True
    show ?thesis
      by (rule that(1)) (simp only: step True if_True simp_thms)
  next
    case False
    show ?thesis
      by (rule that(2)) (simp only: step False if_False)
  qed
qed

lemma wait_gone_some:
  assumes "data_program p"
  shows "\<exists>r. wait_gone sys p n w = Some r"
proof -
  define b :: "bool \<times> nat \<times> cmdd option \<Rightarrow> bool" where "b = (\<lambda>(e, n, _). e \<and> n < 30)"
  define P :: "bool \<times> nat \<times> cmdd option \<Rightarrow> bool" where "P = (\<lambda>(_, _, w). w \<noteq> None)"
  define f :: "bool \<times> nat \<times> cmdd option \<Rightarrow> nat" where "f = (\<lambda>(e, n, _). if e then Suc (30 - n) else 0)"
  have keep: "P (wait_step sys p s)" if "P s" for s
  proof -
    obtain e m v where "s = (e, m, Some v)"
      using \<open>P s\<close> by (auto simp: P_def)
    then show ?thesis
      by (cases rule: wait_step_cases [OF assms, of sys e m v]) (auto simp: P_def)
  qed
  have less: "P (wait_step sys p s) \<and> f (wait_step sys p s) < f s" if "P s" "b s" for s
  proof -
    note s = that
    obtain m v where "s = (True, m, Some v)" "m < 30"
      using s by (auto simp: P_def b_def)
    then have "f (wait_step sys p s) < f s"
      by (cases rule: wait_step_cases [OF assms, of sys True m v]) (auto simp: f_def)
    then show ?thesis
      using keep [OF s(1)] by simp
  qed
  have start: "P (wait_step sys p (False, n, Some w))"
    using keep [of "(False, n, Some w)"] by (simp add: P_def)
  obtain t where t: "while_option b (wait_step sys p) (wait_step sys p (False, n, Some w)) = Some t"
    using measure_while_option_Some [where P = P and b = b and c = "wait_step sys p" and f = f] less start by blast
  have "P t"
    by (rule while_option_rule [where P = P, OF _ t start]) (use keep in blast)
  then show ?thesis
    using t by (auto simp: wait_gone_def b_def P_def)
qed

lemma kill_each_some: "\<forall>p\<in>set ps. data_program p \<Longrightarrow> \<exists>r. kill_each sys start ps w = Some r"
proof (induction ps arbitrary: start w)
  case (Cons p ps)
  then obtain x w' where "killPrograms sys (getIdMask p) w = Some (x, w')"
    using killPrograms_some [of p sys w] by (metis list.set_intros(1) surj_pair)
  then show ?case
    using Cons by simp
qed simp

lemma wait_all_some: "\<forall>p\<in>set ps. data_program p \<Longrightarrow> \<exists>r. wait_all sys ps n w = Some r"
proof (induction ps arbitrary: n w)
  case (Cons p ps)
  then obtain m w' where "wait_gone sys p n w = Some (m, w')"
    using wait_gone_some [of p sys n w] by (metis list.set_intros(1) surj_pair)
  then show ?case
    using Cons by simp
qed simp

lemma killDataPrograms_some: "\<exists>w'. killDataPrograms sys w = Some w'"
proof -
  have data: "\<forall>p\<in>set killed_programs. data_program p"
    by (simp add: killed_programs_def data_program_def)
  obtain w1 where "kill_each sys True killed_programs w = Some w1"
    using kill_each_some [OF data] by blast
  moreover obtain w2 where "wait_all sys killed_programs 0 (do_act sys (Sleep 5) w1) = Some w2"
    using wait_all_some [OF data] by blast
  ultimately show ?thesis
    by (simp add: killDataPrograms_def)
qed

text \<open>
  C19. \<open>killDataPrograms\<close> returns whatever the programs and their pid files do, also when a pid file
  never goes away: its loop ends after 30 waits.
\<close>

theorem data_programs_killed: "\<exists>w'. killDataPrograms sys w = Some w'"
  by (rule killDataPrograms_some)

end
