(* ===== verification/Cmdd_Files.thy ===== *)
theory Cmdd_Files
  imports Cmdd_Programs
begin

text \<open>
  The files that the command daemon writes: requests to the log watcher, the directories of a new
  run, the echoes of commands, and whole configuration files that are switched or saved (\<open>Cmdd.c\<close>).
\<close>

section \<open>Requests\<close>

definition LOGWATCH_DIR :: string where "LOGWATCH_DIR = ''/tmp/anita/logwatchd''"
definition LOGWATCH_LINK_DIR :: string where "LOGWATCH_LINK_DIR = ''/tmp/anita/logwatchd/link''"

text \<open>The number of the request: \<open>LOG_REQUEST_JOURNALCTL\<close> is 1, \<open>LOG_REQUEST_FILE\<close> 32.\<close>

definition put_request :: "cmdd_system \<Rightarrow> payload \<Rightarrow> cmdd \<Rightarrow> int \<times> cmdd" where
  "put_request sys p w =
     (let (rawtime, w) = time_now sys w;
          outName = LOGWATCH_DIR @ ''/request_'' @ show_int (requestCounter w) @ ''.dat'';
          w = write_file sys outName p (w\<lparr>requestCounter := s32 (requestCounter w + 1)\<rparr>)
      in (rawtime, do_act sys (Make_link outName LOGWATCH_LINK_DIR) w))"

definition requestJournalCtl :: "cmdd_system \<Rightarrow> int \<Rightarrow> int \<Rightarrow> int \<Rightarrow> cmdd \<Rightarrow> int \<times> cmdd" where
  "requestJournalCtl sys jcOpt cmdArg numLines w = put_request sys (Log_request (u32 numLines) 1 jcOpt cmdArg []) w"

definition requestFile :: "cmdd_system \<Rightarrow> string \<Rightarrow> int \<Rightarrow> cmdd \<Rightarrow> int \<times> cmdd" where
  "requestFile sys filename numLines w = put_request sys (Log_request (u32 numLines) 32 (junk sys) (junk sys) (take 179 filename)) w"

definition JOURNALCTL_OPT_COMM :: int where "JOURNALCTL_OPT_COMM = 0"
definition JOURNALCTL_NO_OPT :: int where "JOURNALCTL_NO_OPT = 3"

text \<open>The files that \<open>logRequestCommand\<close> asks for. \<open>ID_ACQD\<close> is 100.\<close>

definition log_files :: "(int \<times> string) list" where
  "log_files =
     [(3, ''/var/log/security''), (4, ''/var/log/ntu''), (5, ''/var/log/boot''), (6, ''/proc/cpuinfo''), (7, ''/proc/devices''),
      (8, ''/proc/diskstats''), (9, ''/proc/filesystems''), (10, ''/proc/interrupts''), (11, ''/proc/iomem''), (12, ''/proc/ioports''),
      (13, ''/proc/loadavg''), (14, ''/proc/meminfo''), (15, ''/proc/misc''), (16, ''/proc/modules''), (17, ''/proc/mounts''),
      (18, ''/proc/mtrr''), (19, ''/proc/partitions''), (20, ''/proc/sched_debug''), (21, ''/proc/sched_stat''), (22, ''/proc/stat''),
      (23, ''/proc/swaps''), (24, ''/proc/timer_list''), (26, ''/proc/uptime''), (27, ''/proc/version''), (28, ''/proc/vmcore''),
      (29, ''/proc/vmstat''), (30, ''/proc/zoneinfo'')]"

definition logRequestCommand :: "cmdd_system \<Rightarrow> int \<Rightarrow> int \<Rightarrow> cmdd \<Rightarrow> int \<times> cmdd" where
  "logRequestCommand sys logNum numLines w =
     (if logNum = 1 then requestJournalCtl sys JOURNALCTL_NO_OPT 0 numLines w
      else if logNum = 2 then requestJournalCtl sys JOURNALCTL_OPT_COMM 100 numLines w
      else (case map_of log_files logNum of Some f \<Rightarrow> requestFile sys f numLines w | None \<Rightarrow> (0, w)))"

section \<open>Run directories\<close>

definition LAST_RUN_NUMBER_FILE :: string where "LAST_RUN_NUMBER_FILE = ''/mnt/data/numbers/lastRunNumber''"
definition RUN_START_FILE :: string where "RUN_START_FILE = ''/tmp/anita/latestRunStart.dat''"

text \<open>\<open>diskBitMasks\<close> and \<open>diskNames\<close>.\<close>

definition HELIUM1_DISK_MASK :: int where "HELIUM1_DISK_MASK = 0x1"
definition HELIUM2_DISK_MASK :: int where "HELIUM2_DISK_MASK = 0x2"
definition USB_DISK_MASK :: int where "USB_DISK_MASK = 0x4"
definition NTU_DISK_MASK :: int where "NTU_DISK_MASK = 0x8"
definition PMC_DISK_MASK :: int where "PMC_DISK_MASK = 0x10"

definition disks :: "(int \<times> string) list" where
  "disks = [(HELIUM1_DISK_MASK, ''/mnt/helium1''), (HELIUM2_DISK_MASK, ''/mnt/helium2''), (USB_DISK_MASK, ''/mnt/usbint''),
     (PMC_DISK_MASK, ''/mnt/pmcdata''), (NTU_DISK_MASK, ''/tmp/ntu'')]"

text \<open>\<open>firstTime\<close> is never cleared, so the number is read from the file at every call.\<close>

definition getNewRunNumber :: "cmdd_system \<Rightarrow> cmdd \<Rightarrow> int \<times> cmdd" where
  "getNewRunNumber sys w =
     (let runNumber = lastRunNumber w + 1; (r, w) = act sys (Write_number LAST_RUN_NUMBER_FILE runNumber) w
      in (runNumber, if r < 0 then w else w\<lparr>lastRunNumber := runNumber\<rparr>))"

definition make_run_dir :: "cmdd_system \<Rightarrow> int \<Rightarrow> int \<times> string \<Rightarrow> cmdd \<Rightarrow> cmdd" where
  "make_run_dir sys runNum d w = (case d of (diskBit, name) \<Rightarrow>
     if hkDiskBitMask w AND diskBit = 0 \<and> eventDiskBitMask w AND diskBit = 0 then w
     else
       let newRunDir = name @ ''/run'' @ show_int runNum; current = name @ ''/current'' in
       do_act sys (Symlink newRunDir current)
         (do_act sys (Move_if_directory current (name @ ''/run'' @ show_int (runNum - 1) @ ''.current''))
           (do_act sys (Remove_file current) (do_act sys (Make_directories newRunDir) w))))"

definition telem_dirs :: "(string \<times> string) list" where
  "telem_dirs = [(''/tmp/anita/telem/house/cmdlosd'', ''/tmp/anita/telem/house/cmdlosd/link''),
     (''/tmp/anita/telem/house/cmdsipd'', ''/tmp/anita/telem/house/cmdsipd/link''),
     (''/tmp/anita/telem/house/cmdopenportd'', ''/tmp/anita/telem/house/cmdopenportd/link'')]"

definition makeNewRunDirs :: "cmdd_system \<Rightarrow> cmdd \<Rightarrow> cmdd" where
  "makeNewRunDirs sys w =
     (let (runNum, w) = getNewRunNumber sys w; (now, w) = time_now sys w;
          runStart = Run_start (u32 now) (u32 ((u32 (lastEventNumber w) div 100 + 1) * 100)) (u32 runNum);
          w = fold (make_run_dir sys runNum) disks w;
          w = do_act sys (Shell ''rm -rf /tmp/anita/acqd /tmp/anita/eventd /tmp/anita/gpsd /tmp/anita/prioritizerd /tmp/anita/calibd /tmp/buffer/*'') w;
          w = do_act sys (Shell ''/home/anita/flightSoft/bin/createConfigAndLog.sh'') w;
          w = write_file sys RUN_START_FILE runStart w;
          put = (\<lambda>(dir, link) w. let filename = dir @ ''/run_'' @ show_uint (nat (u32 runNum)) @ ''.dat'' in
             do_act sys (Make_link filename link) (write_file sys filename runStart w))
      in fold put telem_dirs w)"

definition clearRamdisk :: "cmdd_system \<Rightarrow> cmdd \<Rightarrow> cmdd option" where
  "clearRamdisk sys w =
     (let progMask = getIdMask ID_SIPD OR getIdMask ID_LOSD in
      do {
        w \<leftarrow> killDataPrograms sys w;
        (_, w) \<leftarrow> killPrograms sys progMask w;
        (_, w) \<leftarrow> startPrograms sys progMask
          (fold (\<lambda>d. do_act sys (Make_directories d))
            [''/tmp/anita/telem/house/cmdlosd/link'', ''/tmp/anita/telem/house/cmdsipd/link'', ''/tmp/anita/cmdd/link'',
             ''/tmp/anita/telem/request/link'', ''/tmp/anita/playbackd/link'', ''/tmp/anita/logwatchd/link'']
            (do_act sys (Shell ''rm -rf /tmp/anita /tmp/buffer /tmp/ntu'')
              (do_act sys (Sleep 2) (do_act sys (Shell ''daemon --stop -n X'') w))));
        startDataPrograms sys (makeNewRunDirs sys w)
      })"

section \<open>Whole configuration files\<close>

definition send_config_file :: "cmdd_system \<Rightarrow> ProgramId_t \<Rightarrow> int \<times> cmdd \<Rightarrow> (int \<times> cmdd) option" where
  "send_config_file sys prog s = Some (requestFile sys (configFileSpec (env sys) (prog_name prog @ ''.config'')) 0 (snd s))"

definition sendConfig :: "cmdd_system \<Rightarrow> int \<Rightarrow> cmdd \<Rightarrow> (int \<times> cmdd) option" where
  "sendConfig sys progMask w =
     (let (_, w) = requestFile sys (configFileSpec (env sys) ''anitaSoft.config'') 0 w in
      for_programs (send_config_file sys) progMask all_programs (0, w))"

text \<open>The state of the loops is \<open>errorCount\<close>, \<open>rawtime\<close> and the world.\<close>

definition switch_program :: "cmdd_system \<Rightarrow> (string \<Rightarrow> int \<Rightarrow> config_state \<Rightarrow> ConfigErrorCode \<times> config_state) \<Rightarrow> ProgramId_t
    \<Rightarrow> int \<times> int \<times> cmdd \<Rightarrow> (int \<times> int \<times> cmdd) option" where
  "switch_program sys switch prog s = (case s of (errorCount, _, w) \<Rightarrow>
     (let (rawtime, w) = time_now sys w; (e, c) = switch (prog_name prog @ ''.config'') rawtime (conf w); w = w\<lparr>conf := c\<rparr> in
      if e \<noteq> CONFIG_E_OK then Some (errorCount + 1, rawtime, w)
      else do {
        (r, w) \<leftarrow> sendSignal sys prog SIGUSR1 w;
        Some (if r \<noteq> 0 then errorCount + 1 else errorCount, rawtime, w)
      }))"

definition switchConfig :: "cmdd_system \<Rightarrow> int \<Rightarrow> int \<Rightarrow> cmdd \<Rightarrow> (int \<times> cmdd) option" where
  "switchConfig sys progMask configId w =
     map_option (\<lambda>(errorCount, rawtime, w). unless_errors rawtime (errorCount, w))
       (for_programs (switch_program sys (\<lambda>f. configSwitch (env sys) f configId)) progMask all_programs (0, junk sys, w))"

definition defaultConfig :: "cmdd_system \<Rightarrow> int \<Rightarrow> cmdd \<Rightarrow> (int \<times> cmdd) option" where
  "defaultConfig sys progMask w = switchConfig sys progMask 0 w"

text \<open>\<open>lastConfig\<close> returns 0, which counts as an error, in any case.\<close>

definition lastConfig :: "cmdd_system \<Rightarrow> int \<Rightarrow> cmdd \<Rightarrow> (int \<times> cmdd) option" where
  "lastConfig sys progMask w =
     map_option (\<lambda>(_, _, w). (0, w))
       (for_programs (switch_program sys (configSwitchToLast (env sys))) progMask all_programs (0, junk sys, w))"

text \<open>\<open>copyFileToFile\<close> of \<open>utilLib\<close>: a file that cannot be read gives an empty copy.\<close>

definition copyFileToFile :: "config_env \<Rightarrow> string \<Rightarrow> string \<Rightarrow> file_system \<Rightarrow> file_system" where
  "copyFileToFile e theFile newFile fs =
     (if canWrite e newFile then fs(newFile \<mapsto> (case open_read e theFile fs of Inl _ \<Rightarrow> [] | Inr s \<Rightarrow> s)) else fs)"

definition save_program :: "cmdd_system \<Rightarrow> int \<Rightarrow> ProgramId_t \<Rightarrow> cmdd \<Rightarrow> cmdd option" where
  "save_program sys configId prog w =
     Some (w\<lparr>conf := (conf w)\<lparr>files := copyFileToFile (env sys) (''/home/anita/flightSoft/config/'' @ prog_name prog @ ''.config'')
        (''/home/anita/flightSoft/config/defaults/'' @ prog_name prog @ ''.config.'' @ show_int configId) (files (conf w))\<rparr>\<rparr>)"

definition saveConfig :: "cmdd_system \<Rightarrow> int \<Rightarrow> int \<Rightarrow> cmdd \<Rightarrow> (int \<times> cmdd) option" where
  "saveConfig sys progMask configId w =
     (let (rawtime, w) = time_now sys w in
      map_option (Pair rawtime) (for_programs (save_program sys configId) progMask all_programs w))"

section \<open>Echoes\<close>

definition echo_name :: "string \<Rightarrow> int \<Rightarrow> string" where
  "echo_name mainDir unixTime = mainDir @ ''/cmd_'' @ show_int (s32 unixTime) @ ''.dat''"

definition tagged_name :: "string \<Rightarrow> int \<Rightarrow> int \<Rightarrow> string" where
  "tagged_name mainDir unixTime fileTag = mainDir @ ''/cmd_'' @ show_int (s32 unixTime) @ ''_'' @ show_int fileTag @ ''.dat''"

text \<open>The loop that looks for a name that is not in use.\<close>

definition fresh_name :: "string \<Rightarrow> int \<Rightarrow> string list \<Rightarrow> string option" where
  "fresh_name mainDir unixTime used =
     map_option fst (while_option (\<lambda>(filename, _). filename \<in> set used)
       (\<lambda>(_, fileTag). (tagged_name mainDir unixTime fileTag, fileTag + 1)) (echo_name mainDir unixTime, 1))"

definition actuallyWriteCommandEcho :: "cmdd_system \<Rightarrow> int \<Rightarrow> payload \<Rightarrow> string \<times> string \<Rightarrow> cmdd \<Rightarrow> cmdd option" where
  "actuallyWriteCommandEcho sys unixTime echo dirs w =
     do {
       filename \<leftarrow> fresh_name (fst dirs) unixTime (present w);
       Some (do_act sys (Make_link filename (snd dirs)) (write_file sys filename echo w))
     }"

definition PACKET_CMD_ECHO :: int where "PACKET_CMD_ECHO = 0x400"
definition CMD_FROM_PAYLOAD :: int where "CMD_FROM_PAYLOAD = 0x80000"

definition writeCommandEcho :: "cmdd_system \<Rightarrow> command \<Rightarrow> int \<Rightarrow> cmdd \<Rightarrow> cmdd option" where
  "writeCommandEcho sys c unixTime w =
     (if int MAX_CMD_LENGTH < numCmdBytes c then None
      else
        let code = (if fromSipd c = 0 then PACKET_CMD_ECHO OR CMD_FROM_PAYLOAD else PACKET_CMD_ECHO);
            (t, w) = (if unixTime \<noteq> 0 then (unixTime, w) else time_now sys w);
            echo = Cmd_echo code (u32 t) (if unixTime \<noteq> 0 then 1 else 0) (numCmdBytes c) (take (max 1 (nat (numCmdBytes c))) (cmd c))
        in map_option (do_act sys (Hk_write echo (u32 t))) (get_all (actuallyWriteCommandEcho sys (u32 t) echo) telem_dirs w))"

section \<open>Every echo goes to a new file\<close>

lemma fresh_steps:
  "((\<lambda>(_, fileTag). (tagged_name d t fileTag, fileTag + 1)) ^^ k) (echo_name d t, 1)
    = (if k = 0 then echo_name d t else tagged_name d t (int k), int k + 1)"
  by (induction k) (auto simp: add.commute)

lemma fresh_name_some: "\<exists>f. fresh_name d t used = Some f \<and> f \<notin> set used"
proof -
  have "inj_on (\<lambda>k. tagged_name d t (int k)) UNIV"
  proof (rule inj_onI)
    fix j k :: nat
    assume "tagged_name d t (int j) = tagged_name d t (int k)"
    then have "show_int (int j) = show_int (int k)"
      by (simp add: tagged_name_def)
    then show "j = k"
      using show_int_inj [of "int j" "int k"] by simp
  qed
  then have "infinite ((\<lambda>k. tagged_name d t (int k)) ` UNIV)"
    by (simp add: finite_image_iff)
  then have "\<not> (\<lambda>k. tagged_name d t (int k)) ` UNIV \<subseteq> insert (tagged_name d t (int 0)) (set used)"
    using finite_subset by blast
  then obtain k where *: "tagged_name d t (int k) \<notin> insert (tagged_name d t (int 0)) (set used)"
    by blast
  then have k: "tagged_name d t (int k) \<notin> set used" "k \<noteq> 0"
    by (auto intro: ccontr)
  let ?b = "\<lambda>(filename, _ :: int). filename \<in> set used"
  let ?c = "\<lambda>(_ :: string, fileTag). (tagged_name d t fileTag, fileTag + 1)"
  have "\<not> ?b ((?c ^^ k) (echo_name d t, 1))"
    using k by (simp add: fresh_steps)
  then have ex: "(\<exists>k. \<not> ?b ((?c ^^ k) (echo_name d t, 1))) = True"
    by (intro eqTrueI exI)
  obtain x where x: "while_option ?b ?c (echo_name d t, 1) = Some x"
    unfolding while_option_def ex by (simp only: if_True option.inject)
  then have "\<not> ?b x"
    by (rule while_option_stop)
  then show ?thesis
    using x by (cases x) (auto simp: fresh_name_def)
qed

lemma echo_step:
  "\<exists>f w'. actuallyWriteCommandEcho sys t e dirs w = Some w' \<and> f \<notin> set (present w)
    \<and> acts w' = acts w @ [Write_file f e, Make_link f (snd dirs)] \<and> set (present w) \<subseteq> set (present w') \<and> conf w' = conf w \<and> ints w' = ints w"
proof -
  obtain f where "fresh_name (fst dirs) t (present w) = Some f" "f \<notin> set (present w)"
    using fresh_name_some by blast
  then show ?thesis
    by (auto simp: actuallyWriteCommandEcho_def write_file_def do_act_def act_def)
qed

definition echo_of :: "command \<Rightarrow> int \<Rightarrow> int \<Rightarrow> payload" where
  "echo_of c t good =
     Cmd_echo (if fromSipd c = 0 then 0x80400 else 0x400) (u32 t) good (numCmdBytes c) (take (max 1 (nat (numCmdBytes c))) (cmd c))"

lemma echo_written:
  assumes "numCmdBytes c \<le> 20"
  shows "\<exists>f1 f2 f3 w' t. writeCommandEcho sys c unixTime w = Some w' \<and> {f1, f2, f3} \<inter> set (present w) = {}
    \<and> t = (if unixTime = 0 then clock sys (ticks w) else unixTime) \<and> conf w' = conf w \<and> ints w' = ints w
    \<and> acts w' = acts w @ (let e = echo_of c t (if unixTime = 0 then 0 else 1) in
       [Write_file f1 e, Make_link f1 ''/tmp/anita/telem/house/cmdlosd/link'', Write_file f2 e, Make_link f2 ''/tmp/anita/telem/house/cmdsipd/link'',
        Write_file f3 e, Make_link f3 ''/tmp/anita/telem/house/cmdopenportd/link'', Hk_write e (u32 t)])"
proof -
  define t where "t = (if unixTime = 0 then clock sys (ticks w) else unixTime)"
  define w0 where "w0 = (if unixTime = 0 then w\<lparr>ticks := Suc (ticks w)\<rparr> else w)"
  define e where "e = echo_of c t (if unixTime = 0 then 0 else 1)"
  have w0: "acts w0 = acts w" "present w0 = present w" "conf w0 = conf w" "ints w0 = ints w"
    by (simp_all add: w0_def)
  let ?step = "actuallyWriteCommandEcho sys (u32 t) e"
  obtain f1 w1 where 1: "?step (telem_dirs ! 0) w0 = Some w1" "f1 \<notin> set (present w0)"
    "acts w1 = acts w0 @ [Write_file f1 e, Make_link f1 (snd (telem_dirs ! 0))]" "set (present w0) \<subseteq> set (present w1)" "conf w1 = conf w0" "ints w1 = ints w0"
    using echo_step [of sys "u32 t" e "telem_dirs ! 0" w0] by blast
  obtain f2 w2 where 2: "?step (telem_dirs ! 1) w1 = Some w2" "f2 \<notin> set (present w1)"
    "acts w2 = acts w1 @ [Write_file f2 e, Make_link f2 (snd (telem_dirs ! 1))]" "set (present w1) \<subseteq> set (present w2)" "conf w2 = conf w1" "ints w2 = ints w1"
    using echo_step [of sys "u32 t" e "telem_dirs ! 1" w1] by blast
  obtain f3 w3 where 3: "?step (telem_dirs ! 2) w2 = Some w3" "f3 \<notin> set (present w2)"
    "acts w3 = acts w2 @ [Write_file f3 e, Make_link f3 (snd (telem_dirs ! 2))]" "conf w3 = conf w2" "ints w3 = ints w2"
    using echo_step [of sys "u32 t" e "telem_dirs ! 2" w2] by blast
  have dirs: "telem_dirs = [telem_dirs ! 0, telem_dirs ! 1, telem_dirs ! 2]"
    by (simp add: telem_dirs_def)
  have "get_all ?step telem_dirs w0 = Some w3"
    by (subst dirs) (simp only: get_all.simps 1(1) 2(1) 3(1) Option.bind.simps)
  moreover have "writeCommandEcho sys c unixTime w = map_option (do_act sys (Hk_write e (u32 t))) (get_all ?step telem_dirs w0)"
    using assms by (simp add: writeCommandEcho_def Let_def MAX_CMD_LENGTH_def e_def echo_of_def t_def w0_def time_now_def
        PACKET_CMD_ECHO_def CMD_FROM_PAYLOAD_def)
  ultimately have "writeCommandEcho sys c unixTime w = Some (do_act sys (Hk_write e (u32 t)) w3)"
    by simp
  moreover have "{f1, f2, f3} \<inter> set (present w) = {}"
    using 1(2,4) 2(2,4) 3(2) w0(2) by auto
  moreover have "acts (do_act sys (Hk_write e (u32 t)) w3) = acts w @
       [Write_file f1 e, Make_link f1 ''/tmp/anita/telem/house/cmdlosd/link'', Write_file f2 e, Make_link f2 ''/tmp/anita/telem/house/cmdsipd/link'',
        Write_file f3 e, Make_link f3 ''/tmp/anita/telem/house/cmdopenportd/link'', Hk_write e (u32 t)]"
    using 1(3) 2(3) 3(3) w0(1) by (simp add: do_act_def act_def telem_dirs_def)
  moreover have "conf (do_act sys (Hk_write e (u32 t)) w3) = conf w" "ints (do_act sys (Hk_write e (u32 t)) w3) = ints w"
    using 1(5,6) 2(5,6) 3(4,5) w0(3,4) by (simp_all add: do_act_def act_def)
  ultimately show ?thesis
    unfolding t_def [symmetric] e_def Let_def by blast
qed

end
