(* ===== verification/Cmdd_Codes.thy ===== *)
theory Cmdd_Codes
  imports Main
begin

text \<open>The codes of the commands, of \<open>src/common/includes/anitaCommand.h\<close>.\<close>

text \<open>\<open>CommandCode_t\<close>\<close>

abbreviation (input) CMD_TAIL_VAR_LOG_MESSAGES :: int where "CMD_TAIL_VAR_LOG_MESSAGES \<equiv> 1"
abbreviation (input) CMD_TAIL_VAR_LOG_ANITA :: int where "CMD_TAIL_VAR_LOG_ANITA \<equiv> 2"
abbreviation (input) CMD_START_NEW_RUN :: int where "CMD_START_NEW_RUN \<equiv> 3"
abbreviation (input) CMD_MAKE_NEW_RUN_DIRS :: int where "CMD_MAKE_NEW_RUN_DIRS \<equiv> 4"
abbreviation (input) LOG_REQUEST_COMMAND :: int where "LOG_REQUEST_COMMAND \<equiv> 10"
abbreviation (input) JOURNALCTL_REQUEST_COMMAND :: int where "JOURNALCTL_REQUEST_COMMAND \<equiv> 11"
abbreviation (input) RTLD_COMMAND :: int where "RTLD_COMMAND \<equiv> 28"
abbreviation (input) CMD_REALLY_KILL_PROGS :: int where "CMD_REALLY_KILL_PROGS \<equiv> 127"
abbreviation (input) CMD_SIPD_REBOOT :: int where "CMD_SIPD_REBOOT \<equiv> 128"
abbreviation (input) CMD_SHUTDOWN_HALT :: int where "CMD_SHUTDOWN_HALT \<equiv> 129"
abbreviation (input) CMD_REBOOT :: int where "CMD_REBOOT \<equiv> 130"
abbreviation (input) CMD_KILL_PROGS :: int where "CMD_KILL_PROGS \<equiv> 131"
abbreviation (input) CMD_RESPAWN_PROGS :: int where "CMD_RESPAWN_PROGS \<equiv> 132"
abbreviation (input) CMD_START_PROGS :: int where "CMD_START_PROGS \<equiv> 133"
abbreviation (input) CMD_MOUNT_ARGH :: int where "CMD_MOUNT_ARGH \<equiv> 134"
abbreviation (input) CMD_DISABLE_DISK :: int where "CMD_DISABLE_DISK \<equiv> 135"
abbreviation (input) CMD_MOUNT_NEXT_USB :: int where "CMD_MOUNT_NEXT_USB \<equiv> 136"
abbreviation (input) CMD_MOUNT_NEXT_NTU :: int where "CMD_MOUNT_NEXT_NTU \<equiv> 137"
abbreviation (input) CMD_EVENT_DISKTYPE :: int where "CMD_EVENT_DISKTYPE \<equiv> 138"
abbreviation (input) CMD_HK_DISKTYPE :: int where "CMD_HK_DISKTYPE \<equiv> 139"
abbreviation (input) ARCHIVE_STORAGE_TYPE :: int where "ARCHIVE_STORAGE_TYPE \<equiv> 140"
abbreviation (input) ARCHIVE_PRI_DISK :: int where "ARCHIVE_PRI_DISK \<equiv> 141"
abbreviation (input) ARCHIVE_PRI_ENC_TYPE :: int where "ARCHIVE_PRI_ENC_TYPE \<equiv> 142"
abbreviation (input) ARCHIVE_DECIMATE_PRI :: int where "ARCHIVE_DECIMATE_PRI \<equiv> 144"
abbreviation (input) ARCHIVE_GLOBAL_DECIMATE :: int where "ARCHIVE_GLOBAL_DECIMATE \<equiv> 145"
abbreviation (input) TELEM_TYPE :: int where "TELEM_TYPE \<equiv> 146"
abbreviation (input) TELEM_PRI_ENC_TYPE :: int where "TELEM_PRI_ENC_TYPE \<equiv> 147"
abbreviation (input) ARCHIVE_PPS_PRIORITIES :: int where "ARCHIVE_PPS_PRIORITIES \<equiv> 148"
abbreviation (input) ARCHIVE_PPS_DECIMATE :: int where "ARCHIVE_PPS_DECIMATE \<equiv> 149"
abbreviation (input) CMD_TURN_TUFFS_ON :: int where "CMD_TURN_TUFFS_ON \<equiv> 150"
abbreviation (input) CMD_TURN_TUFFS_OFF :: int where "CMD_TURN_TUFFS_OFF \<equiv> 151"
abbreviation (input) CMD_TURN_AMPAS_ON :: int where "CMD_TURN_AMPAS_ON \<equiv> 152"
abbreviation (input) CMD_TURN_AMPAS_OFF :: int where "CMD_TURN_AMPAS_OFF \<equiv> 153"
abbreviation (input) CMD_TURN_NTU_AMPAS_ON :: int where "CMD_TURN_NTU_AMPAS_ON \<equiv> 154"
abbreviation (input) CMD_TURN_NTU_AMPAS_OFF :: int where "CMD_TURN_NTU_AMPAS_OFF \<equiv> 155"
abbreviation (input) CMD_TURN_SHORT_BOARDS_ON :: int where "CMD_TURN_SHORT_BOARDS_ON \<equiv> 156"
abbreviation (input) CMD_TURN_SHORT_BOARDS_OFF :: int where "CMD_TURN_SHORT_BOARDS_OFF \<equiv> 157"
abbreviation (input) CMD_TURN_NTU_SSD_5V_ON :: int where "CMD_TURN_NTU_SSD_5V_ON \<equiv> 158"
abbreviation (input) CMD_TURN_NTU_SSD_5V_OFF :: int where "CMD_TURN_NTU_SSD_5V_OFF \<equiv> 159"
abbreviation (input) CMD_TURN_NTU_SSD_12V_ON :: int where "CMD_TURN_NTU_SSD_12V_ON \<equiv> 160"
abbreviation (input) CMD_TURN_NTU_SSD_12V_OFF :: int where "CMD_TURN_NTU_SSD_12V_OFF \<equiv> 161"
abbreviation (input) CMD_TURN_ALL_ON :: int where "CMD_TURN_ALL_ON \<equiv> 162"
abbreviation (input) CMD_TURN_ALL_OFF :: int where "CMD_TURN_ALL_OFF \<equiv> 163"
abbreviation (input) SET_CALIB_WRITE_PERIOD :: int where "SET_CALIB_WRITE_PERIOD \<equiv> 176"
abbreviation (input) SET_ADU5_PAT_PERIOD :: int where "SET_ADU5_PAT_PERIOD \<equiv> 180"
abbreviation (input) SET_ADU5_SAT_PERIOD :: int where "SET_ADU5_SAT_PERIOD \<equiv> 181"
abbreviation (input) SET_G12_PPS_PERIOD :: int where "SET_G12_PPS_PERIOD \<equiv> 182"
abbreviation (input) SET_G12_PPS_OFFSET :: int where "SET_G12_PPS_OFFSET \<equiv> 183"
abbreviation (input) SET_ADU5_CALIBRATION_12 :: int where "SET_ADU5_CALIBRATION_12 \<equiv> 184"
abbreviation (input) SET_ADU5_CALIBRATION_13 :: int where "SET_ADU5_CALIBRATION_13 \<equiv> 185"
abbreviation (input) SET_ADU5_CALIBRATION_14 :: int where "SET_ADU5_CALIBRATION_14 \<equiv> 186"
abbreviation (input) SET_ADU5_VTG_PERIOD :: int where "SET_ADU5_VTG_PERIOD \<equiv> 187"
abbreviation (input) SET_G12_POS_PERIOD :: int where "SET_G12_POS_PERIOD \<equiv> 188"
abbreviation (input) GPSD_EXTRA_COMMAND :: int where "GPSD_EXTRA_COMMAND \<equiv> 189"
abbreviation (input) SET_HK_PERIOD :: int where "SET_HK_PERIOD \<equiv> 190"
abbreviation (input) SET_HK_CAL_PERIOD :: int where "SET_HK_CAL_PERIOD \<equiv> 191"
abbreviation (input) SET_HK_TELEM_EVERY :: int where "SET_HK_TELEM_EVERY \<equiv> 192"
abbreviation (input) SIPD_CONTROL_COMMAND :: int where "SIPD_CONTROL_COMMAND \<equiv> 195"
abbreviation (input) LOSD_CONTROL_COMMAND :: int where "LOSD_CONTROL_COMMAND \<equiv> 196"
abbreviation (input) CALIBD_EXTRA_COMMAND :: int where "CALIBD_EXTRA_COMMAND \<equiv> 197"
abbreviation (input) CLEAN_DIRS :: int where "CLEAN_DIRS \<equiv> 200"
abbreviation (input) CLEAR_RAMDISK :: int where "CLEAR_RAMDISK \<equiv> 201"
abbreviation (input) SEND_CONFIG :: int where "SEND_CONFIG \<equiv> 210"
abbreviation (input) DEFAULT_CONFIG :: int where "DEFAULT_CONFIG \<equiv> 211"
abbreviation (input) SWITCH_CONFIG :: int where "SWITCH_CONFIG \<equiv> 212"
abbreviation (input) LAST_CONFIG :: int where "LAST_CONFIG \<equiv> 213"
abbreviation (input) SAVE_CONFIG :: int where "SAVE_CONFIG \<equiv> 214"
abbreviation (input) MONITORD_RAMDISK_KILL_ACQD :: int where "MONITORD_RAMDISK_KILL_ACQD \<equiv> 220"
abbreviation (input) MONITORD_RAMDISK_DUMP_DATA :: int where "MONITORD_RAMDISK_DUMP_DATA \<equiv> 221"
abbreviation (input) MONITORD_MAX_ACQD_WAIT :: int where "MONITORD_MAX_ACQD_WAIT \<equiv> 222"
abbreviation (input) MONITORD_PERIOD :: int where "MONITORD_PERIOD \<equiv> 223"
abbreviation (input) MONITORD_USB_THRESH :: int where "MONITORD_USB_THRESH \<equiv> 224"
abbreviation (input) MONITORD_NTU_THRESH :: int where "MONITORD_NTU_THRESH \<equiv> 225"
abbreviation (input) MONITORD_MAX_QUEUE :: int where "MONITORD_MAX_QUEUE \<equiv> 226"
abbreviation (input) MONITORD_INODES_KILL_ACQD :: int where "MONITORD_INODES_KILL_ACQD \<equiv> 227"
abbreviation (input) MONITORD_INODES_DUMP_DATA :: int where "MONITORD_INODES_DUMP_DATA \<equiv> 228"
abbreviation (input) ACQD_ADU5_TRIG_FLAG :: int where "ACQD_ADU5_TRIG_FLAG \<equiv> 230"
abbreviation (input) ACQD_G12_TRIG_FLAG :: int where "ACQD_G12_TRIG_FLAG \<equiv> 231"
abbreviation (input) ACQD_SOFT_TRIG_FLAG :: int where "ACQD_SOFT_TRIG_FLAG \<equiv> 232"
abbreviation (input) ACQD_SOFT_TRIG_PERIOD :: int where "ACQD_SOFT_TRIG_PERIOD \<equiv> 233"
abbreviation (input) ACQD_PEDESTAL_RUN :: int where "ACQD_PEDESTAL_RUN \<equiv> 236"
abbreviation (input) ACQD_THRESHOLD_SCAN :: int where "ACQD_THRESHOLD_SCAN \<equiv> 237"
abbreviation (input) ACQD_EXTRA_COMMAND :: int where "ACQD_EXTRA_COMMAND \<equiv> 240"
abbreviation (input) ACQD_REPROGRAM_TURF :: int where "ACQD_REPROGRAM_TURF \<equiv> 241"
abbreviation (input) ACQD_SURFHK_TELEM_EVERY :: int where "ACQD_SURFHK_TELEM_EVERY \<equiv> 243"
abbreviation (input) ACQD_TURFHK_TELEM_EVERY :: int where "ACQD_TURFHK_TELEM_EVERY \<equiv> 244"
abbreviation (input) ACQD_NUM_EVENTS_PEDESTAL :: int where "ACQD_NUM_EVENTS_PEDESTAL \<equiv> 245"
abbreviation (input) ACQD_THRESH_SCAN_STEP_SIZE :: int where "ACQD_THRESH_SCAN_STEP_SIZE \<equiv> 246"
abbreviation (input) ACQD_THRESH_SCAN_POINTS_PER_STEP :: int where "ACQD_THRESH_SCAN_POINTS_PER_STEP \<equiv> 247"
abbreviation (input) ACQD_RATE_COMMAND :: int where "ACQD_RATE_COMMAND \<equiv> 250"
abbreviation (input) EVENTD_MATCH_GPS :: int where "EVENTD_MATCH_GPS \<equiv> 251"
abbreviation (input) GPS_PHI_MASK_COMMAND :: int where "GPS_PHI_MASK_COMMAND \<equiv> 252"
abbreviation (input) PRIORITIZERD_COMMAND :: int where "PRIORITIZERD_COMMAND \<equiv> 253"
abbreviation (input) PLAYBACKD_COMMAND :: int where "PLAYBACKD_COMMAND \<equiv> 254"
abbreviation (input) TUFFD_COMMAND :: int where "TUFFD_COMMAND \<equiv> 255"

text \<open>\<open>AcqdRateCommandCode_t\<close>\<close>

abbreviation (input) ACQD_RATE_ENABLE_CHAN_SERVO :: int where "ACQD_RATE_ENABLE_CHAN_SERVO \<equiv> 1"
abbreviation (input) ACQD_RATE_SET_PID_GOALS :: int where "ACQD_RATE_SET_PID_GOALS \<equiv> 2"
abbreviation (input) ACQD_RATE_SET_L2_TRIG_MASK :: int where "ACQD_RATE_SET_L2_TRIG_MASK \<equiv> 3"
abbreviation (input) ACQD_RATE_SET_PHI_MASK :: int where "ACQD_RATE_SET_PHI_MASK \<equiv> 4"
abbreviation (input) ACQD_RATE_SET_SURF_BAND_TRIG_MASK :: int where "ACQD_RATE_SET_SURF_BAND_TRIG_MASK \<equiv> 5"
abbreviation (input) ACQD_RATE_SET_CHAN_PID_GOAL_SCALE :: int where "ACQD_RATE_SET_CHAN_PID_GOAL_SCALE \<equiv> 6"
abbreviation (input) ACQD_RATE_SET_RATE_SERVO :: int where "ACQD_RATE_SET_RATE_SERVO \<equiv> 7"
abbreviation (input) ACQD_RATE_ENABLE_DYNAMIC_PHI_MASK :: int where "ACQD_RATE_ENABLE_DYNAMIC_PHI_MASK \<equiv> 8"
abbreviation (input) ACQD_RATE_ENABLE_DYNAMIC_L2_MASK :: int where "ACQD_RATE_ENABLE_DYNAMIC_L2_MASK \<equiv> 9"
abbreviation (input) ACQD_RATE_SET_DYNAMIC_PHI_MASK_OVER :: int where "ACQD_RATE_SET_DYNAMIC_PHI_MASK_OVER \<equiv> 10"
abbreviation (input) ACQD_RATE_SET_DYNAMIC_PHI_MASK_UNDER :: int where "ACQD_RATE_SET_DYNAMIC_PHI_MASK_UNDER \<equiv> 11"
abbreviation (input) ACQD_RATE_SET_DYNAMIC_L2_MASK_OVER :: int where "ACQD_RATE_SET_DYNAMIC_L2_MASK_OVER \<equiv> 12"
abbreviation (input) ACQD_RATE_SET_DYNAMIC_L2_MASK_UNDER :: int where "ACQD_RATE_SET_DYNAMIC_L2_MASK_UNDER \<equiv> 13"
abbreviation (input) ACQD_RATE_SET_GLOBAL_THRESHOLD :: int where "ACQD_RATE_SET_GLOBAL_THRESHOLD \<equiv> 14"
abbreviation (input) ACQD_RATE_SET_GPS_PHI_MASK :: int where "ACQD_RATE_SET_GPS_PHI_MASK \<equiv> 15"
abbreviation (input) ACQD_SET_NADIR_PID_GOALS :: int where "ACQD_SET_NADIR_PID_GOALS \<equiv> 16"
abbreviation (input) ACQD_SET_PID_PGAIN :: int where "ACQD_SET_PID_PGAIN \<equiv> 17"
abbreviation (input) ACQD_SET_PID_IGAIN :: int where "ACQD_SET_PID_IGAIN \<equiv> 18"
abbreviation (input) ACQD_SET_PID_DGAIN :: int where "ACQD_SET_PID_DGAIN \<equiv> 19"
abbreviation (input) ACQD_SET_PID_IMAX :: int where "ACQD_SET_PID_IMAX \<equiv> 20"
abbreviation (input) ACQD_SET_PID_IMIN :: int where "ACQD_SET_PID_IMIN \<equiv> 21"
abbreviation (input) ACQD_SET_PID_AVERAGE :: int where "ACQD_SET_PID_AVERAGE \<equiv> 22"
abbreviation (input) ACQD_RATE_SET_DYNAMIC_L2_MASK_OVER_WINDOW :: int where "ACQD_RATE_SET_DYNAMIC_L2_MASK_OVER_WINDOW \<equiv> 25"
abbreviation (input) ACQD_RATE_SET_DYNAMIC_L2_MASK_UNDER_WINDOW :: int where "ACQD_RATE_SET_DYNAMIC_L2_MASK_UNDER_WINDOW \<equiv> 26"

text \<open>\<open>AcqdExtraCommand_t\<close>\<close>

abbreviation (input) ACQD_DISABLE_SURF :: int where "ACQD_DISABLE_SURF \<equiv> 127"
abbreviation (input) ACQD_SET_TURF_RATE_AVERAGE :: int where "ACQD_SET_TURF_RATE_AVERAGE \<equiv> 128"
abbreviation (input) ACQD_SET_PHOTO_SHUTTER_MASK :: int where "ACQD_SET_PHOTO_SHUTTER_MASK \<equiv> 140"
abbreviation (input) ACQD_SET_PPS_SOURCE :: int where "ACQD_SET_PPS_SOURCE \<equiv> 141"
abbreviation (input) ACQD_SET_REF_CLOCK_SOURCE :: int where "ACQD_SET_REF_CLOCK_SOURCE \<equiv> 142"

text \<open>\<open>PrioritizerdCommandCode_t\<close>\<close>

abbreviation (input) PRI_PANIC_QUEUE_LENGTH :: int where "PRI_PANIC_QUEUE_LENGTH \<equiv> 1"
abbreviation (input) PRI_PARAMS_LOW_BIN_EDGE :: int where "PRI_PARAMS_LOW_BIN_EDGE \<equiv> 2"
abbreviation (input) PRI_PARAMS_HIGH_BIN_EDGE :: int where "PRI_PARAMS_HIGH_BIN_EDGE \<equiv> 3"
abbreviation (input) PRI_SLOPE_IMAGE_HILBERT :: int where "PRI_SLOPE_IMAGE_HILBERT \<equiv> 4"
abbreviation (input) PRI_INTERCEPT_IMAGE_HILBERT :: int where "PRI_INTERCEPT_IMAGE_HILBERT \<equiv> 5"
abbreviation (input) PRI_BIN_TO_BIN_THRESH :: int where "PRI_BIN_TO_BIN_THRESH \<equiv> 6"
abbreviation (input) PRI_ABS_MAG_THRESH :: int where "PRI_ABS_MAG_THRESH \<equiv> 7"
abbreviation (input) PRI_THETA_ANGLE_DEMOTION_LOW :: int where "PRI_THETA_ANGLE_DEMOTION_LOW \<equiv> 8"
abbreviation (input) PRI_THETA_ANGLE_DEMOTION_HIGH :: int where "PRI_THETA_ANGLE_DEMOTION_HIGH \<equiv> 9"
abbreviation (input) PRI_THETA_ANGLE_DEMOTION_PRIORITY :: int where "PRI_THETA_ANGLE_DEMOTION_PRIORITY \<equiv> 10"
abbreviation (input) PRI_POWER_SPECTRUM_PERIOD :: int where "PRI_POWER_SPECTRUM_PERIOD \<equiv> 11"
abbreviation (input) PRI_ANT_PHI_POS :: int where "PRI_ANT_PHI_POS \<equiv> 12"
abbreviation (input) PRI_ANT_R_POS :: int where "PRI_ANT_R_POS \<equiv> 13"
abbreviation (input) PRI_ANT_Z_POS :: int where "PRI_ANT_Z_POS \<equiv> 14"
abbreviation (input) PRI_POS_SATUATION :: int where "PRI_POS_SATUATION \<equiv> 15"
abbreviation (input) PRI_NEG_SATUATION :: int where "PRI_NEG_SATUATION \<equiv> 16"
abbreviation (input) PRI_ASYM_SATURATION :: int where "PRI_ASYM_SATURATION \<equiv> 17"
abbreviation (input) PRI_SLEEP_TIME_KILL_X :: int where "PRI_SLEEP_TIME_KILL_X \<equiv> 18"
abbreviation (input) PRI_DISABLE_GPU :: int where "PRI_DISABLE_GPU \<equiv> 19"
abbreviation (input) PRI_CALIB_VERSION :: int where "PRI_CALIB_VERSION \<equiv> 20"
abbreviation (input) PRI_INVERT_TOP_RING_SOFTWARE :: int where "PRI_INVERT_TOP_RING_SOFTWARE \<equiv> 21"
abbreviation (input) PRI_DEBUG_MODE :: int where "PRI_DEBUG_MODE \<equiv> 22"
abbreviation (input) PRI_SKIP_BLAST_RATIO_HPOL :: int where "PRI_SKIP_BLAST_RATIO_HPOL \<equiv> 23"
abbreviation (input) PRI_SKIP_BLAST_RATIO_VPOL :: int where "PRI_SKIP_BLAST_RATIO_VPOL \<equiv> 24"
abbreviation (input) PRI_BLAST_RATIO_MAX :: int where "PRI_BLAST_RATIO_MAX \<equiv> 25"
abbreviation (input) PRI_BLAST_RATIO_MIN :: int where "PRI_BLAST_RATIO_MIN \<equiv> 26"
abbreviation (input) PRI_BLAST_GRADIENT :: int where "PRI_BLAST_GRADIENT \<equiv> 27"
abbreviation (input) PRI_STATIC_NOTCH_LOW_EDGE :: int where "PRI_STATIC_NOTCH_LOW_EDGE \<equiv> 28"
abbreviation (input) PRI_STATIC_NOTCH_HIGH_EDGE :: int where "PRI_STATIC_NOTCH_HIGH_EDGE \<equiv> 29"
abbreviation (input) PRI_USE_LONG_DYNAMIC_FILTERING :: int where "PRI_USE_LONG_DYNAMIC_FILTERING \<equiv> 30"
abbreviation (input) PRI_START_DYNAMIC_FREQUENCY :: int where "PRI_START_DYNAMIC_FREQUENCY \<equiv> 31"
abbreviation (input) PRI_STOP_DYNAMIC_FREQUENCY :: int where "PRI_STOP_DYNAMIC_FREQUENCY \<equiv> 32"
abbreviation (input) PRI_CONSERVATIVE_START :: int where "PRI_CONSERVATIVE_START \<equiv> 33"
abbreviation (input) PRI_THRESH_DB :: int where "PRI_THRESH_DB \<equiv> 34"
abbreviation (input) PRI_DELTA_PHI_TRIG :: int where "PRI_DELTA_PHI_TRIG \<equiv> 35"

text \<open>\<open>RTLdCommandCode_t\<close>\<close>

abbreviation (input) RTL_SET_TELEM_EVERY :: int where "RTL_SET_TELEM_EVERY \<equiv> 1"
abbreviation (input) RTL_SET_START_FREQUENCY :: int where "RTL_SET_START_FREQUENCY \<equiv> 2"
abbreviation (input) RTL_SET_END_FREQUENCY :: int where "RTL_SET_END_FREQUENCY \<equiv> 3"
abbreviation (input) RTL_SET_GAIN :: int where "RTL_SET_GAIN \<equiv> 4"
abbreviation (input) RTL_SET_FREQUENCY_STEP :: int where "RTL_SET_FREQUENCY_STEP \<equiv> 5"
abbreviation (input) RTL_SET_GRACEFUL_TIMEOUT :: int where "RTL_SET_GRACEFUL_TIMEOUT \<equiv> 6"
abbreviation (input) RTL_SET_FAIL_TIMEOUT :: int where "RTL_SET_FAIL_TIMEOUT \<equiv> 7"
abbreviation (input) RTL_SET_MAX_FAIL :: int where "RTL_SET_MAX_FAIL \<equiv> 8"
abbreviation (input) RTL_SET_DISABLED :: int where "RTL_SET_DISABLED \<equiv> 9"

text \<open>\<open>TuffCommandCode_t\<close>\<close>

abbreviation (input) TUFF_SET_NOTCH :: int where "TUFF_SET_NOTCH \<equiv> 1"
abbreviation (input) TUFF_SEND_RAW :: int where "TUFF_SEND_RAW \<equiv> 2"
abbreviation (input) TUFF_SET_SLEEP_AMOUNT :: int where "TUFF_SET_SLEEP_AMOUNT \<equiv> 3"
abbreviation (input) TUFF_SET_READ_TEMPERATURE :: int where "TUFF_SET_READ_TEMPERATURE \<equiv> 4"
abbreviation (input) TUFF_SET_TELEM_EVERY :: int where "TUFF_SET_TELEM_EVERY \<equiv> 5"
abbreviation (input) TUFF_SET_TELEM_AFTER_CHANGE :: int where "TUFF_SET_TELEM_AFTER_CHANGE \<equiv> 6"
abbreviation (input) TUFF_ADJUST_ACCORDING_TO_HEADING :: int where "TUFF_ADJUST_ACCORDING_TO_HEADING \<equiv> 7"
abbreviation (input) TUFF_DEGREES_FROM_NORTH_TO_NOTCH :: int where "TUFF_DEGREES_FROM_NORTH_TO_NOTCH \<equiv> 8"
abbreviation (input) TUFF_SLOPE_THRESHOLD_TO_NOTCH_NEXT_SECTOR :: int where "TUFF_SLOPE_THRESHOLD_TO_NOTCH_NEXT_SECTOR \<equiv> 9"
abbreviation (input) TUFF_PHI_SECTOR_OFFSET_FROM_NORTH :: int where "TUFF_PHI_SECTOR_OFFSET_FROM_NORTH \<equiv> 10"
abbreviation (input) TUFF_MAX_HEADING_AGE :: int where "TUFF_MAX_HEADING_AGE \<equiv> 11"
abbreviation (input) TUFF_SET_CAPS_ON_STARTUP :: int where "TUFF_SET_CAPS_ON_STARTUP \<equiv> 12"
abbreviation (input) TUFF_SET_CAP_VALUE :: int where "TUFF_SET_CAP_VALUE \<equiv> 13"

text \<open>\<open>GpsPhiMaskCommandCode_t\<close>\<close>

abbreviation (input) GPS_PHI_MASK_ENABLE :: int where "GPS_PHI_MASK_ENABLE \<equiv> 1"
abbreviation (input) GPS_PHI_MASK_UPDATE_PERIOD :: int where "GPS_PHI_MASK_UPDATE_PERIOD \<equiv> 2"
abbreviation (input) GPS_PHI_MASK_SET_SOURCE_LATITUDE :: int where "GPS_PHI_MASK_SET_SOURCE_LATITUDE \<equiv> 3"
abbreviation (input) GPS_PHI_MASK_SET_SOURCE_LONGITUDE :: int where "GPS_PHI_MASK_SET_SOURCE_LONGITUDE \<equiv> 4"
abbreviation (input) GPS_PHI_MASK_SET_SOURCE_ALTITUDE :: int where "GPS_PHI_MASK_SET_SOURCE_ALTITUDE \<equiv> 5"
abbreviation (input) GPS_PHI_MASK_SET_SOURCE_HORIZON :: int where "GPS_PHI_MASK_SET_SOURCE_HORIZON \<equiv> 6"
abbreviation (input) GPS_PHI_MASK_SET_SOURCE_WIDTH :: int where "GPS_PHI_MASK_SET_SOURCE_WIDTH \<equiv> 7"

text \<open>\<open>PlaybackCommandCode_t\<close>\<close>

abbreviation (input) PLAY_GET_EVENT :: int where "PLAY_GET_EVENT \<equiv> 1"
abbreviation (input) PLAY_START_PRI :: int where "PLAY_START_PRI \<equiv> 2"
abbreviation (input) PLAY_STOP_PRI :: int where "PLAY_STOP_PRI \<equiv> 3"
abbreviation (input) PLAY_USE_DISK :: int where "PLAY_USE_DISK \<equiv> 4"
abbreviation (input) PLAY_START_EVENT :: int where "PLAY_START_EVENT \<equiv> 5"
abbreviation (input) PLAY_START_PLAY :: int where "PLAY_START_PLAY \<equiv> 6"
abbreviation (input) PLAY_STOP_PLAY :: int where "PLAY_STOP_PLAY \<equiv> 7"
abbreviation (input) PLAY_SLEEP_PERIOD :: int where "PLAY_SLEEP_PERIOD \<equiv> 8"
abbreviation (input) PLAY_MODE :: int where "PLAY_MODE \<equiv> 9"
abbreviation (input) PLAY_STARTING_RUN :: int where "PLAY_STARTING_RUN \<equiv> 10"

text \<open>\<open>SipdCommandCode_t\<close>\<close>

abbreviation (input) SIPD_SEND_WAVE :: int where "SIPD_SEND_WAVE \<equiv> 127"
abbreviation (input) SIPD_THROTTLE_RATE :: int where "SIPD_THROTTLE_RATE \<equiv> 128"
abbreviation (input) SIPD_PRIORITY_BANDWIDTH :: int where "SIPD_PRIORITY_BANDWIDTH \<equiv> 129"
abbreviation (input) SIPD_HEADERS_PER_EVENT :: int where "SIPD_HEADERS_PER_EVENT \<equiv> 130"
abbreviation (input) SIPD_HK_TELEM_ORDER :: int where "SIPD_HK_TELEM_ORDER \<equiv> 131"
abbreviation (input) SIPD_HK_TELEM_MAX_PACKETS :: int where "SIPD_HK_TELEM_MAX_PACKETS \<equiv> 132"

text \<open>\<open>LosdCommandCode_t\<close>\<close>

abbreviation (input) LOSD_SEND_DATA :: int where "LOSD_SEND_DATA \<equiv> 1"
abbreviation (input) LOSD_PRIORITY_BANDWIDTH :: int where "LOSD_PRIORITY_BANDWIDTH \<equiv> 2"
abbreviation (input) LOSD_HK_BANDWIDTH :: int where "LOSD_HK_BANDWIDTH \<equiv> 3"
abbreviation (input) LOSD_MIN_WAIT_TIME_B :: int where "LOSD_MIN_WAIT_TIME_B \<equiv> 4"
abbreviation (input) LOSD_MIN_WAIT_TIME_M :: int where "LOSD_MIN_WAIT_TIME_M \<equiv> 5"

text \<open>\<open>LogRequestCommand_t\<close>\<close>

abbreviation (input) LOG_REQUEST_JOURNALCTL :: int where "LOG_REQUEST_JOURNALCTL \<equiv> 1"
abbreviation (input) LOG_REQUEST_ANITA :: int where "LOG_REQUEST_ANITA \<equiv> 2"
abbreviation (input) LOG_REQUEST_SECURITY :: int where "LOG_REQUEST_SECURITY \<equiv> 3"
abbreviation (input) LOG_REQUEST_NTU :: int where "LOG_REQUEST_NTU \<equiv> 4"
abbreviation (input) LOG_REQUEST_BOOT :: int where "LOG_REQUEST_BOOT \<equiv> 5"
abbreviation (input) LOG_REQUEST_PROC_CPUINFO :: int where "LOG_REQUEST_PROC_CPUINFO \<equiv> 6"
abbreviation (input) LOG_REQUEST_PROC_DEVICES :: int where "LOG_REQUEST_PROC_DEVICES \<equiv> 7"
abbreviation (input) LOG_REQUEST_PROC_DISKSTATS :: int where "LOG_REQUEST_PROC_DISKSTATS \<equiv> 8"
abbreviation (input) LOG_REQUEST_PROC_FILESYSTEMS :: int where "LOG_REQUEST_PROC_FILESYSTEMS \<equiv> 9"
abbreviation (input) LOG_REQUEST_PROC_INTERRUPTS :: int where "LOG_REQUEST_PROC_INTERRUPTS \<equiv> 10"
abbreviation (input) LOG_REQUEST_PROC_IOMEM :: int where "LOG_REQUEST_PROC_IOMEM \<equiv> 11"
abbreviation (input) LOG_REQUEST_PROC_IOPORTS :: int where "LOG_REQUEST_PROC_IOPORTS \<equiv> 12"
abbreviation (input) LOG_REQUEST_PROC_LOADAVG :: int where "LOG_REQUEST_PROC_LOADAVG \<equiv> 13"
abbreviation (input) LOG_REQUEST_PROC_MEMINFO :: int where "LOG_REQUEST_PROC_MEMINFO \<equiv> 14"
abbreviation (input) LOG_REQUEST_PROC_MISC :: int where "LOG_REQUEST_PROC_MISC \<equiv> 15"
abbreviation (input) LOG_REQUEST_PROC_MODULES :: int where "LOG_REQUEST_PROC_MODULES \<equiv> 16"
abbreviation (input) LOG_REQUEST_PROC_MOUNTS :: int where "LOG_REQUEST_PROC_MOUNTS \<equiv> 17"
abbreviation (input) LOG_REQUEST_PROC_MTRR :: int where "LOG_REQUEST_PROC_MTRR \<equiv> 18"
abbreviation (input) LOG_REQUEST_PROC_PARTITIONS :: int where "LOG_REQUEST_PROC_PARTITIONS \<equiv> 19"
abbreviation (input) LOG_REQUEST_PROC_SCHEDDEBUG :: int where "LOG_REQUEST_PROC_SCHEDDEBUG \<equiv> 20"
abbreviation (input) LOG_REQUEST_PROC_SCHEDSTAT :: int where "LOG_REQUEST_PROC_SCHEDSTAT \<equiv> 21"
abbreviation (input) LOG_REQUEST_PROC_STAT :: int where "LOG_REQUEST_PROC_STAT \<equiv> 22"
abbreviation (input) LOG_REQUEST_PROC_SWAPS :: int where "LOG_REQUEST_PROC_SWAPS \<equiv> 23"
abbreviation (input) LOG_REQUEST_PROC_TIMERLIST :: int where "LOG_REQUEST_PROC_TIMERLIST \<equiv> 24"
abbreviation (input) LOG_REQUEST_PROC_TIMERSTATS :: int where "LOG_REQUEST_PROC_TIMERSTATS \<equiv> 25"
abbreviation (input) LOG_REQUEST_PROC_UPTIME :: int where "LOG_REQUEST_PROC_UPTIME \<equiv> 26"
abbreviation (input) LOG_REQUEST_PROC_VERSION :: int where "LOG_REQUEST_PROC_VERSION \<equiv> 27"
abbreviation (input) LOG_REQUEST_PROC_VMCORE :: int where "LOG_REQUEST_PROC_VMCORE \<equiv> 28"
abbreviation (input) LOG_REQUEST_PROC_VMSTAT :: int where "LOG_REQUEST_PROC_VMSTAT \<equiv> 29"
abbreviation (input) LOG_REQUEST_PROC_ZONEINFO :: int where "LOG_REQUEST_PROC_ZONEINFO \<equiv> 30"
abbreviation (input) LOG_REQUEST_NTU_STATUS :: int where "LOG_REQUEST_NTU_STATUS \<equiv> 31"
abbreviation (input) LOG_REQUEST_FILE :: int where "LOG_REQUEST_FILE \<equiv> 32"

text \<open>\<open>JournalctlOptionCommand_t\<close>\<close>

abbreviation (input) JOURNALCTL_OPT_PRIORITY :: int where "JOURNALCTL_OPT_PRIORITY \<equiv> 1"
abbreviation (input) JOURNALCTL_OPT_SYSLOG_FACILITY :: int where "JOURNALCTL_OPT_SYSLOG_FACILITY \<equiv> 2"

text \<open>\<open>GpsExtraCommand_t\<close>\<close>

abbreviation (input) GPS_SET_GGA_PERIOD :: int where "GPS_SET_GGA_PERIOD \<equiv> 130"
abbreviation (input) GPS_SET_PAT_TELEM_EVERY :: int where "GPS_SET_PAT_TELEM_EVERY \<equiv> 131"
abbreviation (input) GPS_SET_VTG_TELEM_EVERY :: int where "GPS_SET_VTG_TELEM_EVERY \<equiv> 132"
abbreviation (input) GPS_SET_SAT_TELEM_EVERY :: int where "GPS_SET_SAT_TELEM_EVERY \<equiv> 133"
abbreviation (input) GPS_SET_GGA_TELEM_EVERY :: int where "GPS_SET_GGA_TELEM_EVERY \<equiv> 134"
abbreviation (input) GPS_SET_POS_TELEM_EVERY :: int where "GPS_SET_POS_TELEM_EVERY \<equiv> 135"
abbreviation (input) GPS_SET_INI_RESET_FLAG :: int where "GPS_SET_INI_RESET_FLAG \<equiv> 136"
abbreviation (input) GPS_SET_ELEVATION_MASK :: int where "GPS_SET_ELEVATION_MASK \<equiv> 137"
abbreviation (input) GPS_SET_CYC_PHASE_ERROR :: int where "GPS_SET_CYC_PHASE_ERROR \<equiv> 138"
abbreviation (input) GPS_SET_MXB_BASELINE_ERROR :: int where "GPS_SET_MXB_BASELINE_ERROR \<equiv> 139"
abbreviation (input) GPS_SET_MXM_PHASE_ERROR :: int where "GPS_SET_MXM_PHASE_ERROR \<equiv> 140"

text \<open>\<open>CalibdExtraCommand_t\<close>\<close>

abbreviation (input) CALIBD_READOUT_PERIOD :: int where "CALIBD_READOUT_PERIOD \<equiv> 0"
abbreviation (input) CALIBD_TELEM_EVERY :: int where "CALIBD_TELEM_EVERY \<equiv> 1"
abbreviation (input) CALIBD_TELEM_AVERAGE :: int where "CALIBD_TELEM_AVERAGE \<equiv> 2"
abbreviation (input) CALIBD_ADC_AVERAGE :: int where "CALIBD_ADC_AVERAGE \<equiv> 3"
abbreviation (input) CALIBD_CALIBRATION_PERIOD :: int where "CALIBD_CALIBRATION_PERIOD \<equiv> 4"

end
