(* ===== verification/Cmdd_Tables.thy ===== *)
theory Cmdd_Tables
  imports Cmdd_Files Cmdd_Codes
begin

text \<open>
  The commands that change settings to values they carry and then tell a program (\<open>Cmdd.c\<close>): each is
  translated to its \<open>reply\<close>, the settings in the order of the \<open>configModify\<close> calls and the notice
  behind them, or the immediate return value. \<open>c\<close> are the bytes of the command.
\<close>

section \<open>Replies\<close>

text \<open>
  \<open>Checked\<close> is a \<open>SIGUSR1\<close> whose failure makes the command return 0, \<open>Unchecked\<close> one whose result is
  ignored. The flag of a change says whether the call fills \<open>rawtime\<close>.
\<close>

datatype notice = Checked ProgramId_t | Unchecked ProgramId_t | Respawn int | No_notice

type_synonym change = "setting \<times> kvp_value \<times> bool"

datatype reply = Set_all "change list" notice | Answer int

fun apply_changes :: "cmdd_system \<Rightarrow> change list \<Rightarrow> int \<Rightarrow> cmdd \<Rightarrow> (int \<times> cmdd) option" where
  "apply_changes sys [] rawtime w = Some (rawtime, w)"
| "apply_changes sys ((s, v, stamped) # cs) rawtime w =
     (if stamped then do { (rawtime, w) \<leftarrow> modify sys s v w; apply_changes sys cs rawtime w }
      else do { w \<leftarrow> modify_null sys s v w; apply_changes sys cs rawtime w })"

definition give_notice :: "cmdd_system \<Rightarrow> notice \<Rightarrow> int \<Rightarrow> cmdd \<Rightarrow> (int \<times> cmdd) option" where
  "give_notice sys n rawtime w =
     (case n of
        Checked p \<Rightarrow> do { (r, w) \<leftarrow> sendSignal sys p SIGUSR1 w; Some (if r \<noteq> 0 then 0 else rawtime, w) }
      | Unchecked p \<Rightarrow> do { (_, w) \<leftarrow> sendSignal sys p SIGUSR1 w; Some (rawtime, w) }
      | Respawn progMask \<Rightarrow> do { (_, w) \<leftarrow> respawnPrograms sys progMask w; Some (rawtime, w) }
      | No_notice \<Rightarrow> Some (rawtime, w))"

definition give_reply :: "cmdd_system \<Rightarrow> reply \<Rightarrow> cmdd \<Rightarrow> (int \<times> cmdd) option" where
  "give_reply sys r w =
     (case r of
        Set_all cs n \<Rightarrow> do { (rawtime, w) \<leftarrow> apply_changes sys cs (junk sys) w; give_notice sys n rawtime w }
      | Answer i \<Rightarrow> Some (i, w))"

definition int_to :: "string \<Rightarrow> string \<Rightarrow> string \<Rightarrow> int \<Rightarrow> change" where
  "int_to f block key v = ((f, block, key), Int_values [v], True)"

definition uint_to :: "string \<Rightarrow> string \<Rightarrow> string \<Rightarrow> int \<Rightarrow> change" where
  "uint_to f block key v = ((f, block, key), UInt_values [u32 v], True)"

definition float_to :: "string \<Rightarrow> string \<Rightarrow> string \<Rightarrow> real \<Rightarrow> change" where
  "float_to f block key v = ((f, block, key), Float_values [v], True)"

definition set_int_to :: "string \<Rightarrow> string \<Rightarrow> string \<Rightarrow> int \<Rightarrow> ProgramId_t \<Rightarrow> reply" where
  "set_int_to f block key v p = Set_all [int_to f block key v] (Checked p)"

section \<open>Direct commands\<close>

definition relays :: "string list \<Rightarrow> int \<Rightarrow> reply" where
  "relays keys v = Set_all (map (\<lambda>key. int_to ''Calibd.config'' ''relays'' key v) keys) (Checked ID_CALIBD)"

definition all_relays :: "string list" where
  "all_relays = [''stateTuff1'', ''stateTuff2'', ''stateBZAmpa1'', ''stateBZAmpa2'', ''stateNTUAmpa'', ''stateSB'', ''stateNTUSSD5V'',
     ''stateNTUSSD12V'']"

definition calib_command :: "int list \<Rightarrow> reply option" where
  "calib_command c =
     (let code = c ! 0 in
      if code = CMD_TURN_TUFFS_ON then Some (relays [''stateTuff1'', ''stateTuff2''] 1)
      else if code = CMD_TURN_TUFFS_OFF then Some (relays [''stateTuff1'', ''stateTuff2''] 0)
      else if code = CMD_TURN_AMPAS_ON then Some (relays [''stateBZAmpa1'', ''stateBZAmpa2'', ''stateNTUAmpa''] 1)
      else if code = CMD_TURN_AMPAS_OFF then Some (relays [''stateBZAmpa1'', ''stateBZAmpa2'', ''stateNTUAmpa''] 0)
      else if code = CMD_TURN_NTU_AMPAS_ON then Some (relays [''stateNTUAmpa''] 1)
      else if code = CMD_TURN_NTU_AMPAS_OFF then Some (relays [''stateNTUAmpa''] 0)
      else if code = CMD_TURN_SHORT_BOARDS_ON then Some (relays [''stateSB''] 1)
      else if code = CMD_TURN_SHORT_BOARDS_OFF then Some (relays [''stateSB''] 0)
      else if code = CMD_TURN_NTU_SSD_5V_ON then Some (relays [''stateNTUSSD5V''] 1)
      else if code = CMD_TURN_NTU_SSD_5V_OFF then Some (relays [''stateNTUSSD5V''] 0)
      else if code = CMD_TURN_NTU_SSD_12V_ON then Some (relays [''stateNTUSSD12V''] 1)
      else if code = CMD_TURN_NTU_SSD_12V_OFF then Some (relays [''stateNTUSSD12V''] 0)
      else if code = CMD_TURN_ALL_ON then Some (relays all_relays 1)
      else if code = CMD_TURN_ALL_OFF then Some (relays all_relays 0)
      else if code = SET_CALIB_WRITE_PERIOD then Some (set_int_to ''Calibd.config'' ''calibd'' ''writePeriod'' (word_at c 1) ID_CALIBD)
      else None)"

text \<open>The calibration vectors of the two ADU5 receivers; for another receiver nothing is changed.\<close>

definition adu5_calibration :: "string \<Rightarrow> int list \<Rightarrow> reply" where
  "adu5_calibration key c =
     (let ivalue = c ! 1;
          blocks = (if ivalue = 1 then [''adu5a''] else if ivalue = 2 then [''adu5b''] else []);
          svalue = (\<lambda>i. real_of_int (s16 (word_at c i)) / 1000)
      in Set_all
        (map (\<lambda>b. float_to ''GPSd.config'' b (key @ ''_1'') (svalue 2)) blocks
         @ map (\<lambda>b. float_to ''GPSd.config'' b (key @ ''_2'') (svalue 4)) blocks
         @ map (\<lambda>b. float_to ''GPSd.config'' b (key @ ''_3'') (svalue 6)) blocks) (Checked ID_GPSD))"

definition gps_command :: "int list \<Rightarrow> reply option" where
  "gps_command c =
     (let code = c ! 0; ivalue = word_at c 1 in
      if code = SET_ADU5_PAT_PERIOD then
        Some (Set_all [float_to ''GPSd.config'' ''adu5a'' ''patPeriod'' (real_of_int ivalue / 10),
                 float_to ''GPSd.config'' ''adu5b'' ''patPeriod'' (real_of_int ivalue / 10)] (Checked ID_GPSD))
      else if code = SET_ADU5_SAT_PERIOD then
        Some (Set_all [int_to ''GPSd.config'' ''adu5a'' ''satPeriod'' ivalue, int_to ''GPSd.config'' ''adu5b'' ''satPeriod'' ivalue]
                (Checked ID_GPSD))
      else if code = SET_ADU5_VTG_PERIOD then
        Some (Set_all [float_to ''GPSd.config'' ''adu5a'' ''vtgPeriod'' (real_of_int ivalue),
                 float_to ''GPSd.config'' ''adu5b'' ''vtgPeriod'' (real_of_int ivalue)] (Checked ID_GPSD))
      else if code = SET_G12_PPS_PERIOD then
        Some (Set_all [float_to ''GPSd.config'' ''g12'' ''ppsPeriod'' (real_of_int ivalue / 1000)] (Checked ID_GPSD))
      else if code = SET_G12_POS_PERIOD then
        Some (Set_all [float_to ''GPSd.config'' ''g12'' ''posPeriod'' (real_of_int ivalue / 1000)] (Checked ID_GPSD))
      else if code = SET_G12_PPS_OFFSET then
        let fvalue = real_of_int ivalue + real_of_int (word_at c 3) / 10000 in
        Some (Set_all [float_to ''GPSd.config'' ''g12'' ''ppsOffset'' (if c ! 5 = 1 then - fvalue else fvalue)] (Checked ID_GPSD))
      else if code = SET_ADU5_CALIBRATION_12 then Some (adu5_calibration ''calibV12'' c)
      else if code = SET_ADU5_CALIBRATION_13 then Some (adu5_calibration ''calibV13'' c)
      else if code = SET_ADU5_CALIBRATION_14 then Some (adu5_calibration ''calibV14'' c)
      else None)"

definition hk_command :: "int list \<Rightarrow> reply option" where
  "hk_command c =
     (let code = c ! 0 in
      if code = SET_HK_PERIOD then Some (set_int_to ''Hkd.config'' ''hkd'' ''readoutPeriod'' (word_at c 1) ID_HKD)
      else if code = SET_HK_CAL_PERIOD then Some (set_int_to ''Hkd.config'' ''hkd'' ''calibrationPeriod'' (word_at c 1) ID_HKD)
      else if code = SET_HK_TELEM_EVERY then Some (set_int_to ''Hkd.config'' ''hkd'' ''telemEvery'' (c ! 1) ID_HKD)
      else None)"

definition acqd_command :: "int list \<Rightarrow> reply option" where
  "acqd_command c =
     (let code = c ! 0; set = (\<lambda>block key v. Some (set_int_to ''Acqd.config'' block key v ID_ACQD)) in
      if code = ACQD_ADU5_TRIG_FLAG then set ''trigger'' ''enablePPS1Trigger'' (c ! 1)
      else if code = ACQD_G12_TRIG_FLAG then set ''trigger'' ''enablePPS2Trigger'' (c ! 1)
      else if code = ACQD_SOFT_TRIG_FLAG then set ''trigger'' ''sendSoftTrigger'' (c ! 1)
      else if code = ACQD_SOFT_TRIG_PERIOD then set ''trigger'' ''softTrigPeriod'' (c ! 1)
      else if code = ACQD_REPROGRAM_TURF then set ''acqd'' ''reprogramTurf'' (c ! 1)
      else if code = ACQD_SURFHK_TELEM_EVERY then set ''acqd'' ''surfHkTelemEvery'' (c ! 1)
      else if code = ACQD_TURFHK_TELEM_EVERY then set ''acqd'' ''turfRateTelemEvery'' (c ! 1)
      else if code = ACQD_NUM_EVENTS_PEDESTAL then set ''pedestal'' ''numPedEvents'' (word_at c 1)
      else if code = ACQD_THRESH_SCAN_STEP_SIZE then set ''thresholdScan'' ''thresholdScanStepSize'' (c ! 1)
      else if code = ACQD_THRESH_SCAN_POINTS_PER_STEP then set ''thresholdScan'' ''thresholdScanPointsPerStep'' (c ! 1)
      else None)"

definition monitord_command :: "int list \<Rightarrow> reply option" where
  "monitord_command c =
     (let code = c ! 0;
          set = (\<lambda>key v. Some (Set_all [int_to ''Monitord.config'' ''monitord'' key v] (Unchecked ID_MONITORD))) in
      if code = MONITORD_RAMDISK_KILL_ACQD then set ''ramdiskKillAcqd'' (c ! 1)
      else if code = MONITORD_RAMDISK_DUMP_DATA then set ''ramdiskDumpData'' (c ! 1)
      else if code = MONITORD_MAX_ACQD_WAIT then set ''maxAcqdWaitPeriod'' (word_at c 1)
      else if code = MONITORD_PERIOD then set ''monitorPeriod'' (c ! 1)
      else if code = MONITORD_USB_THRESH then set ''usbSwitchMB'' (c ! 1)
      else if code = MONITORD_NTU_THRESH then if c ! 1 = 0 then set ''ntuSwitchMB'' (c ! 2) else Some (Answer (- 1))
      else if code = MONITORD_MAX_QUEUE then set ''maxEventQueueSize'' (word_at c 1)
      else if code = MONITORD_INODES_KILL_ACQD then set ''inodesKillAcqd'' (word_at c 1)
      else if code = MONITORD_INODES_DUMP_DATA then set ''inodesDumpData'' (word_at c 1)
      else None)"

definition pps_decimate :: "int list \<Rightarrow> reply" where
  "pps_decimate c =
     (let ivalue = c ! 1; ivalue2 = c ! 2; fvalue = real_of_int (word_at c 3) / 1000;
          source = (if ivalue2 = 1 then Some ''pps1'' else if ivalue2 = 2 then Some ''pps2'' else if ivalue2 = 3 then Some ''soft'' else None)
      in if ivalue < 1 \<or> 2 < ivalue then Answer (- 1)
         else (case source of
             None \<Rightarrow> Answer 0
           | Some k \<Rightarrow> Set_all [float_to ''Archived.config'' ''archived'' (k @ (if ivalue = 1 then ''FractionDelete'' else ''FractionTelem'')) fvalue]
               (Unchecked ID_ARCHIVED)))"

definition archived_command :: "int list \<Rightarrow> reply option" where
  "archived_command c =
     (let code = c ! 0; f = ''Archived.config''; block = ''archived'';
          pri = (\<lambda>i. if i < 0 \<or> 9 < i then - 1 else i) in
      if code = ARCHIVE_STORAGE_TYPE then Some (Set_all [int_to f block ''onboardStorageType'' (c ! 1)] (Respawn (getIdMask ID_ARCHIVED)))
      else if code = TELEM_TYPE then Some (Set_all [int_to f block ''telemType'' (c ! 1)] (Respawn (getIdMask ID_ARCHIVED)))
      else if code = ARCHIVE_PPS_PRIORITIES then
        Some (Set_all [((f, block, ''priorityPPS1''), Int_values [pri (c ! 1)], False), int_to f block ''priorityPPS2'' (pri (c ! 2)),
            int_to f block ''prioritySoft'' (pri (c ! 3))] (Unchecked ID_ARCHIVED))
      else if code = ARCHIVE_PPS_DECIMATE then Some (pps_decimate c)
      else None)"

definition eventd_command :: "int list \<Rightarrow> reply option" where
  "eventd_command c =
     (if c ! 0 = EVENTD_MATCH_GPS then
        if c ! 1 < 0 \<or> 1 < c ! 1 then Some (Answer (- 1))
        else Some (Set_all [int_to ''Eventd.config'' ''eventd'' ''tryToMatchGps'' (c ! 1)] (Unchecked ID_EVENTD))
      else None)"

section \<open>Extra commands\<close>

text \<open>The receiver that the first argument selects; G12 only where the command has it.\<close>

definition receiver :: "bool \<Rightarrow> int \<Rightarrow> string option" where
  "receiver with_g12 i =
     (if i = 1 then Some ''adu5a'' else if i = 2 then Some ''adu5b'' else if i = 3 \<and> with_g12 then Some ''g12'' else None)"

definition gps_receiver :: "bool \<Rightarrow> int \<Rightarrow> (string \<Rightarrow> change) \<Rightarrow> reply" where
  "gps_receiver with_g12 i ch =
     (case receiver with_g12 i of None \<Rightarrow> Answer 0 | Some block \<Rightarrow> Set_all [ch block] (Unchecked ID_GPSD))"

definition executeGpsdExtracommand :: "int \<Rightarrow> int list \<Rightarrow> reply" where
  "executeGpsdExtracommand command arg =
     (let ivalue = arg ! 0; ivalue2 = arg ! 1; f = ''GPSd.config'';
          ints = (\<lambda>with_g12 key. gps_receiver with_g12 ivalue (\<lambda>block. int_to f block key ivalue2));
          floats = (\<lambda>key x. gps_receiver False ivalue (\<lambda>block. float_to f block key x)) in
      if command = GPS_SET_GGA_PERIOD then ints True ''ggaPeriod''
      else if command = GPS_SET_PAT_TELEM_EVERY then ints False ''patTelemEvery''
      else if command = GPS_SET_VTG_TELEM_EVERY then ints False ''vtgTelemEvery''
      else if command = GPS_SET_SAT_TELEM_EVERY then ints True ''satTelemEvery''
      else if command = GPS_SET_GGA_TELEM_EVERY then ints True ''ggaTelemEvery''
      else if command = GPS_SET_POS_TELEM_EVERY then Set_all [int_to f ''g12'' ''posTelemEvery'' ivalue2] (Unchecked ID_GPSD)
      else if command = GPS_SET_INI_RESET_FLAG then ints True ''iniReset''
      else if command = GPS_SET_ELEVATION_MASK then ints True ''elevationMask''
      else if command = GPS_SET_CYC_PHASE_ERROR then floats ''cycPhaseErrorThreshold'' (real_of_int (2 * ivalue2) / 1000)
      else if command = GPS_SET_MXB_BASELINE_ERROR then floats ''mxbBaselineError'' (real_of_int ivalue2 / 1000)
      else if command = GPS_SET_MXM_PHASE_ERROR then floats ''mxmPhaseError'' (real_of_int ivalue2 / 1000)
      else Answer 0)"

definition executeCalibdExtraCommand :: "int \<Rightarrow> int list \<Rightarrow> reply" where
  "executeCalibdExtraCommand command arg =
     (let set = (\<lambda>key. Set_all [int_to ''Calibd.config'' ''calibd'' key (word_at arg 0)] (Unchecked ID_CALIBD)) in
      if command = CALIBD_READOUT_PERIOD then set ''readoutPeriod''
      else if command = CALIBD_TELEM_EVERY then set ''telemEvery''
      else if command = CALIBD_TELEM_AVERAGE then set ''telemAverage''
      else if command = CALIBD_ADC_AVERAGE then set ''adcAverage''
      else if command = CALIBD_CALIBRATION_PERIOD then set ''calibrationPeriod''
      else Answer 0)"

definition executeAcqdExtraCommand :: "int \<Rightarrow> int \<Rightarrow> reply" where
  "executeAcqdExtraCommand command arg =
     (if command = ACQD_SET_PHOTO_SHUTTER_MASK then set_int_to ''Acqd.config'' ''turfio'' ''photoShutterMask'' (arg AND 0x7) ID_ACQD
      else if command = ACQD_SET_PPS_SOURCE then set_int_to ''Acqd.config'' ''turfio'' ''ppsSource'' (arg AND 0x3) ID_ACQD
      else if command = ACQD_SET_REF_CLOCK_SOURCE then set_int_to ''Acqd.config'' ''turfio'' ''refClockSource'' (arg AND 0x1) ID_ACQD
      else if command = ACQD_SET_TURF_RATE_AVERAGE then set_int_to ''Acqd.config'' ''acqd'' ''turfRateAverage'' arg ID_ACQD
      else Answer (- 1))"

text \<open>The Playbackd commands but \<open>PLAY_GET_EVENT\<close>; the values are unsigned.\<close>

definition playback_setting :: "int \<Rightarrow> int \<Rightarrow> reply" where
  "playback_setting command uvalue1 =
     (let set = (\<lambda>key v. Set_all [int_to ''Playbackd.config'' ''playbackd'' key v] (Respawn (getIdMask ID_PLAYBACKD))) in
      if command = PLAY_START_PLAY then set ''sendData'' 1
      else if command = PLAY_STOP_PLAY then set ''sendData'' 0
      else if command = PLAY_START_PRI then if uvalue1 < 10 then set ''startPriority'' (s32 uvalue1) else Answer (- 1)
      else if command = PLAY_STOP_PRI then if uvalue1 < 10 then set ''stopPriority'' (s32 uvalue1) else Answer (- 1)
      else if command = PLAY_SLEEP_PERIOD then set ''msSleepPeriod'' (s32 uvalue1)
      else if command = PLAY_USE_DISK then
        if 2 < uvalue1 then Answer 0 else Set_all [int_to ''Playbackd.config'' ''playbackd'' ''useDisk'' (s32 uvalue1)] No_notice
      else if command = PLAY_MODE then set ''playBackMode'' (s32 uvalue1)
      else if command = PLAY_STARTING_RUN then set ''startingRun'' (s32 uvalue1)
      else Answer (- 1))"

end
