(* ===== verification/Cmdd_Arrays.thy ===== *)
theory Cmdd_Arrays
  imports Cmdd_Tables
begin

text \<open>
  The commands that change one element of an array in a configuration file (\<open>Cmdd.c\<close>): the section is
  loaded, the array read into a global array, the element set, and the whole array written back.
\<close>

section \<open>Reading the configuration\<close>

text \<open>A global array, with its key and the limit that the reading function passes.\<close>

datatype global_array = Ints string string int | Floats string string int

fun get_global :: "global_array \<Rightarrow> cmdd \<Rightarrow> cmdd option" where
  "get_global (Ints key name n) w = get_ints key name n w"
| "get_global (Floats key name n) w = get_floats key name n w"

abbreviation get_globals :: "global_array list \<Rightarrow> cmdd \<Rightarrow> cmdd option" where
  "get_globals \<equiv> get_all get_global"

definition read_section :: "cmdd_system \<Rightarrow> string \<Rightarrow> string \<Rightarrow> (cmdd \<Rightarrow> cmdd option) \<Rightarrow> cmdd \<Rightarrow> cmdd option" where
  "read_section sys f block gets w =
     do {
       (e, w) \<leftarrow> load_section sys f block (kvp_reset w);
       if e = CONFIG_E_OK then gets w else Some w
     }"

definition readArchivedConfig :: "cmdd_system \<Rightarrow> cmdd \<Rightarrow> cmdd option" where
  "readArchivedConfig sys =
     read_section sys ''Archived.config'' ''archived'' (get_globals
       [Ints ''priDiskEncodingType'' ''priDiskEncodingType'' 10, Ints ''priTelemClockEncodingType'' ''priTelemClockEncodingType'' 10,
        Ints ''priTelemEncodingType'' ''priTelemEncodingType'' 10, Floats ''priorityFractionGlobalDecimate'' ''priorityFractionGlobalDecimate'' 10,
        Floats ''priorityFractionDeleteHelium1'' ''priorityFractionDeleteHelium1'' 10,
        Floats ''priorityFractionDeleteHelium2'' ''priorityFractionDeleteHelium2'' 10,
        Floats ''priorityFractionDeleteUsb'' ''priorityFractionDeleteUsb'' 10, Floats ''priorityFractionDeleteNtu'' ''priorityFractionDeleteNtu'' 10,
        Floats ''priorityFractionDeletePmc'' ''priorityFractionDeletePmc'' 10, Ints ''priDiskEventMask'' ''priDiskEventMask'' 10,
        Ints ''alternateUsbs'' ''alternateUsbs'' 10])"

definition readLosdConfig :: "cmdd_system \<Rightarrow> cmdd \<Rightarrow> cmdd option" where
  "readLosdConfig sys = read_section sys ''LOSd.config'' ''bandwidth'' (get_globals [Ints ''priorityBandwidths'' ''losdBandwidths'' 10])"

definition readSipdConfig :: "cmdd_system \<Rightarrow> cmdd \<Rightarrow> cmdd option" where
  "readSipdConfig sys =
     read_section sys ''SIPd.config'' ''bandwidth'' (get_globals
       [Ints ''priorityBandwidths'' ''sipdBandwidths'' 10, Ints ''hkTelemOrder'' ''sipdHkTelemOrder'' 22, Ints ''hkTelemMaxCopy'' ''sipdHkTelemMaxCopy'' 22])"

definition readGpsdConfig :: "cmdd_system \<Rightarrow> cmdd \<Rightarrow> cmdd option" where
  "readGpsdConfig sys =
     read_section sys ''GPSd.config'' ''sourceList'' (\<lambda>w.
       let (n, w) = get_int ''numSources'' 0 w in
       get_globals
         [Floats ''sourceLats'' ''sourceLats'' 20, Floats ''sourceLongs'' ''sourceLongs'' 20, Floats ''sourceAlts'' ''sourceAlts'' 20,
          Floats ''sourceDistKm'' ''sourceDistKm'' 20, Ints ''sourcePhiWidth'' ''sourcePhiWidth'' 20] (w\<lparr>numSources := n\<rparr>))"

text \<open>The status of the first load is overwritten.\<close>

definition readPrioritizerdConfig :: "cmdd_system \<Rightarrow> cmdd \<Rightarrow> cmdd option" where
  "readPrioritizerdConfig sys w =
     do {
       (_, w) \<leftarrow> load_section sys ''Prioritizerd.config'' ''prioritizerd'' (kvp_reset w);
       (e, w) \<leftarrow> load_section sys ''Prioritizerd.config'' ''antennalocations'' w;
       if e = CONFIG_E_OK then
         get_globals
           [Floats ''phiArrayDeg'' ''phiArrayDeg'' 48, Floats ''rArray'' ''rArray'' 48, Floats ''zArray'' ''zArray'' 48,
            Floats ''priorityParamsLowBinEdge'' ''priorityParamsLowBinEdge'' 10, Floats ''priorityParamsHighBinEdge'' ''priorityParamsHighBinEdge'' 10,
            Ints ''skipBlastRatioHPol'' ''skipBlastRatioHPol'' 16, Ints ''skipBlastRatioVPol'' ''skipBlastRatioVPol'' 16,
            Floats ''staticNotchesLowEdgeMHz'' ''staticNotchesLowEdgeMHz'' 10, Floats ''staticNotchesHighEdgeMHz'' ''staticNotchesHighEdgeMHz'' 10] w
       else Some w
     }"

text \<open>The rows of \<open>pidGoalScaleFactors\<close> are arrays of their own, called by their keys.\<close>

definition scale_key :: "nat \<Rightarrow> string" where
  "scale_key surf = ''pidGoalScaleSurf'' @ show_uint (surf + 1)"

fun load_all :: "cmdd_system \<Rightarrow> string \<Rightarrow> string list \<Rightarrow> int \<Rightarrow> cmdd \<Rightarrow> (int \<times> cmdd) option" where
  "load_all sys f [] status w = Some (status, w)"
| "load_all sys f (b # bs) status w =
     do { (e, w) \<leftarrow> load_section sys f b w; load_all sys f bs (status + config_code e) w }"

definition get_scales :: "nat \<Rightarrow> cmdd \<Rightarrow> cmdd option" where
  "get_scales surf w =
     (let key = scale_key surf in get_floats key key 12 (w\<lparr>floats := (floats w)(key := replicate 12 0)\<rparr>))"

text \<open>\<open>BANDS_PER_ANT\<close> is 4, but the gains have three elements.\<close>

definition readAcqdConfig :: "cmdd_system \<Rightarrow> cmdd \<Rightarrow> cmdd option" where
  "readAcqdConfig sys w =
     do {
       (e, w) \<leftarrow> load_section sys ''anitaSoft.config'' ''global'' (kvp_reset w);
       (status, w) \<leftarrow> load_all sys ''Acqd.config'' [''output'', ''locations'', ''debug'', ''trigger'', ''thresholds'', ''acqd'', ''pedestal'']
                        (config_code e) w;
       if status = 0 then
         do {
           w \<leftarrow> get_globals
             [Floats ''dacPGain'' ''dacPGain'' 4, Floats ''dacIGain'' ''dacIGain'' 4, Floats ''dacDGain'' ''dacDGain'' 4,
              Ints ''dacIMin'' ''dacIMin'' 4, Ints ''dacIMax'' ''dacIMax'' 4, Ints ''surfTrigBandMasks'' ''surfTrigBandMasks'' 12,
              Ints ''dynamicL2ThresholdOverRate'' ''dynamicL2ThresholdOverRate'' 16,
              Ints ''dynamicL2ThresholdUnderRate'' ''dynamicL2ThresholdUnderRate'' 16] w;
           get_all get_scales [0..<12] w
         }
       else Some w
     }"

section \<open>Changing one element\<close>

definition write_ints :: "cmdd_system \<Rightarrow> setting \<Rightarrow> string \<Rightarrow> nat \<Rightarrow> cmdd \<Rightarrow> (int \<times> cmdd) option" where
  "write_ints sys s name n w =
     (if length (ints w name) < n then None else modify sys s (Int_values (take n (ints w name))) w)"

definition write_floats :: "cmdd_system \<Rightarrow> setting \<Rightarrow> string \<Rightarrow> nat \<Rightarrow> cmdd \<Rightarrow> (int \<times> cmdd) option" where
  "write_floats sys s name n w =
     (if length (floats w name) < n then None else modify sys s (Float_values (take n (floats w name))) w)"

text \<open>Set element \<open>i\<close> of the array \<open>name\<close>, write its first \<open>n\<close> elements to the setting, give notice.\<close>

definition change_int :: "cmdd_system \<Rightarrow> setting \<Rightarrow> string \<Rightarrow> nat \<Rightarrow> int \<Rightarrow> int \<Rightarrow> notice \<Rightarrow> cmdd \<Rightarrow> (int \<times> cmdd) option" where
  "change_int sys s name n i v no w =
     do { w \<leftarrow> set_int name i v w; (rawtime, w) \<leftarrow> write_ints sys s name n w; give_notice sys no rawtime w }"

definition change_float :: "cmdd_system \<Rightarrow> setting \<Rightarrow> string \<Rightarrow> nat \<Rightarrow> int \<Rightarrow> real \<Rightarrow> notice \<Rightarrow> cmdd \<Rightarrow> (int \<times> cmdd) option" where
  "change_float sys s name n i v no w =
     do { w \<leftarrow> set_float name i v w; (rawtime, w) \<leftarrow> write_floats sys s name n w; give_notice sys no rawtime w }"

definition archived :: "string \<Rightarrow> setting" where
  "archived key = (''Archived.config'', ''archived'', key)"

definition setPriDiskMask :: "cmdd_system \<Rightarrow> int \<Rightarrow> int \<Rightarrow> cmdd \<Rightarrow> (int \<times> cmdd) option" where
  "setPriDiskMask sys pri bitmask w =
     do {
       w \<leftarrow> readArchivedConfig sys w;
       change_int sys (archived ''priDiskEventMask'') ''priDiskEventMask'' 10 pri bitmask (Respawn (getIdMask ID_ARCHIVED)) w
     }"

definition setPriEncodingType :: "cmdd_system \<Rightarrow> int \<Rightarrow> int \<Rightarrow> cmdd \<Rightarrow> (int \<times> cmdd) option" where
  "setPriEncodingType sys pri encType w =
     do {
       w \<leftarrow> readArchivedConfig sys w;
       change_int sys (archived ''priDiskEncodingType'') ''priDiskEncodingType'' 10 pri encType (Unchecked ID_ARCHIVED) w
     }"

definition setArchiveGlobalDecimate :: "cmdd_system \<Rightarrow> int \<Rightarrow> real \<Rightarrow> cmdd \<Rightarrow> (int \<times> cmdd) option" where
  "setArchiveGlobalDecimate sys pri fraction w =
     do {
       w \<leftarrow> readArchivedConfig sys w;
       change_float sys (archived ''priorityFractionGlobalDecimate'') ''priorityFractionGlobalDecimate'' 10 pri fraction (Unchecked ID_ARCHIVED) w
     }"

text \<open>The array of each disk, in the order of \<open>diskBitMasks\<close>: the last two names are exchanged in the source.\<close>

definition decimate_arrays :: "(int \<times> string) list" where
  "decimate_arrays =
     [(HELIUM1_DISK_MASK, ''priorityFractionDeleteHelium1''), (HELIUM2_DISK_MASK, ''priorityFractionDeleteHelium2''),
      (USB_DISK_MASK, ''priorityFractionDeleteUsb''), (PMC_DISK_MASK, ''priorityFractionDeleteNtu''), (NTU_DISK_MASK, ''priorityFractionDeletePmc'')]"

fun decimate_disks :: "cmdd_system \<Rightarrow> int \<Rightarrow> int \<Rightarrow> real \<Rightarrow> (int \<times> string) list \<Rightarrow> int \<Rightarrow> cmdd \<Rightarrow> (int \<times> cmdd) option" where
  "decimate_disks sys diskMask pri fraction [] rawtime w = Some (rawtime, w)"
| "decimate_disks sys diskMask pri fraction ((diskBit, name) # ds) rawtime w =
     (if diskBit AND diskMask = 0 then decimate_disks sys diskMask pri fraction ds rawtime w
      else do {
        (rawtime, w) \<leftarrow> change_float sys (archived name) name 10 pri fraction No_notice w;
        decimate_disks sys diskMask pri fraction ds rawtime w
      })"

definition setArchiveDecimatePri :: "cmdd_system \<Rightarrow> int \<Rightarrow> int \<Rightarrow> real \<Rightarrow> cmdd \<Rightarrow> (int \<times> cmdd) option" where
  "setArchiveDecimatePri sys diskMask pri fraction w =
     do {
       w \<leftarrow> readArchivedConfig sys w;
       (rawtime, w) \<leftarrow> decimate_disks sys diskMask pri fraction decimate_arrays (junk sys) w;
       give_notice sys (Unchecked ID_ARCHIVED) rawtime w
     }"

definition setTelemPriEncodingType :: "cmdd_system \<Rightarrow> int \<Rightarrow> int \<Rightarrow> int \<Rightarrow> cmdd \<Rightarrow> (int \<times> cmdd) option" where
  "setTelemPriEncodingType sys pri encType encClockType w =
     do {
       w \<leftarrow> readArchivedConfig sys w;
       w \<leftarrow> set_int ''priTelemEncodingType'' pri encType w;
       w \<leftarrow> set_int ''priTelemClockEncodingType'' pri encClockType w;
       (_, w) \<leftarrow> write_ints sys (archived ''priTelemEncodingType'') ''priTelemEncodingType'' 10 w;
       (rawtime, w) \<leftarrow> write_ints sys (archived ''priTelemClockEncodingType'') ''priTelemClockEncodingType'' 10 w;
       give_notice sys (Unchecked ID_ARCHIVED) rawtime w
     }"

definition setLosdPriorityBandwidth :: "cmdd_system \<Rightarrow> int \<Rightarrow> int \<Rightarrow> cmdd \<Rightarrow> (int \<times> cmdd) option" where
  "setLosdPriorityBandwidth sys pri bw w =
     do {
       w \<leftarrow> readLosdConfig sys w;
       change_int sys (''LOSd.config'', ''bandwidth'', ''priorityBandwidths'') ''losdBandwidths'' 10 pri bw (Unchecked ID_LOSD) w
     }"

definition setSipdPriorityBandwidth :: "cmdd_system \<Rightarrow> int \<Rightarrow> int \<Rightarrow> cmdd \<Rightarrow> (int \<times> cmdd) option" where
  "setSipdPriorityBandwidth sys pri bw w =
     do {
       w \<leftarrow> readSipdConfig sys w;
       change_int sys (''SIPd.config'', ''bandwidth'', ''priorityBandwidths'') ''sipdBandwidths'' 10 pri bw (Unchecked ID_SIPD) w
     }"

definition setSipdHkTelemOrder :: "cmdd_system \<Rightarrow> int \<Rightarrow> int \<Rightarrow> cmdd \<Rightarrow> (int \<times> cmdd) option" where
  "setSipdHkTelemOrder sys hk order w =
     do {
       w \<leftarrow> readSipdConfig sys w;
       change_int sys (''SIPd.config'', ''bandwidth'', ''hkTelemOrder'') ''sipdHkTelemOrder'' 22 hk order (Unchecked ID_SIPD) w
     }"

definition setSipdHkTelemMaxPackets :: "cmdd_system \<Rightarrow> int \<Rightarrow> int \<Rightarrow> cmdd \<Rightarrow> (int \<times> cmdd) option" where
  "setSipdHkTelemMaxPackets sys hk numPackets w =
     do {
       w \<leftarrow> readSipdConfig sys w;
       change_int sys (''SIPd.config'', ''bandwidth'', ''hkTelemMaxCopy'') ''sipdHkTelemMaxCopy'' 22 hk numPackets (Unchecked ID_SIPD) w
     }"

definition setPidGoalScaleFactor :: "cmdd_system \<Rightarrow> int \<Rightarrow> int \<Rightarrow> real \<Rightarrow> cmdd \<Rightarrow> (int \<times> cmdd) option" where
  "setPidGoalScaleFactor sys surf dac scaleFactor w =
     do {
       w \<leftarrow> readAcqdConfig sys w;
       let key = scale_key (nat surf);
       change_float sys (''Acqd.config'', ''thresholds'', key) key 12 dac scaleFactor (Unchecked ID_ACQD) w
     }"

section \<open>Commands of LOSd and SIPd\<close>

definition executeLosdControlCommand :: "cmdd_system \<Rightarrow> int \<Rightarrow> int list \<Rightarrow> cmdd \<Rightarrow> (int \<times> cmdd) option" where
  "executeLosdControlCommand sys command args w =
     (let ivalue = args ! 0; ivalue2 = args ! 1 in
      if command = LOSD_PRIORITY_BANDWIDTH then
        if ivalue < 0 \<or> 9 < ivalue \<or> ivalue2 < 0 \<or> 100 < ivalue2 then Some (- 1, w)
        else setLosdPriorityBandwidth sys ivalue ivalue2 w
      else if command = LOSD_SEND_DATA then
        give_reply sys (if 1 < ivalue \<or> ivalue < 0 then Answer (- 1) else set_int_to ''LOSd.config'' ''losd'' ''sendData'' ivalue ID_LOSD) w
      else if command = LOSD_MIN_WAIT_TIME_B then
        give_reply sys (Set_all [float_to ''LOSd.config'' ''losd'' ''minTimeWait_b'' (real_of_int ivalue / 1000)] (Checked ID_LOSD)) w
      else if command = LOSD_MIN_WAIT_TIME_M then
        give_reply sys (Set_all [float_to ''LOSd.config'' ''losd'' ''minTimeWait_m'' (real_of_int ivalue / 1000000)] (Checked ID_LOSD)) w
      else Some (- 1, w))"

definition executeSipdControlCommand :: "cmdd_system \<Rightarrow> int \<Rightarrow> int list \<Rightarrow> cmdd \<Rightarrow> (int \<times> cmdd) option" where
  "executeSipdControlCommand sys command args w =
     (let ivalue = args ! 0; ivalue2 = args ! 1 in
      if command = SIPD_SEND_WAVE then
        give_reply sys (if ivalue < 0 \<or> 1 < ivalue then Answer (- 1) else set_int_to ''SIPd.config'' ''sipd'' ''sendWavePackets'' ivalue ID_SIPD) w
      else if command = SIPD_THROTTLE_RATE then
        give_reply sys (set_int_to ''SIPd.config'' ''sipd'' ''throttleRate'' (word_at args 0) ID_SIPD) w
      else if command = SIPD_HEADERS_PER_EVENT then
        give_reply sys (set_int_to ''SIPd.config'' ''bandwidth'' ''headersPerEvent'' ivalue ID_SIPD) w
      else if command = SIPD_PRIORITY_BANDWIDTH then
        if ivalue < 0 \<or> 9 < ivalue \<or> ivalue2 < 0 \<or> 100 < ivalue2 then Some (- 1, w) else setSipdPriorityBandwidth sys ivalue ivalue2 w
      else if command = SIPD_HK_TELEM_ORDER then
        if ivalue < 0 \<or> 20 < ivalue \<or> ivalue2 < 0 \<or> 20 < ivalue2 then Some (- 1, w) else setSipdHkTelemOrder sys ivalue ivalue2 w
      else if command = SIPD_HK_TELEM_MAX_PACKETS then
        if ivalue < 0 \<or> 20 < ivalue \<or> ivalue2 < 0 \<or> 20 < ivalue2 then Some (- 1, w) else setSipdHkTelemMaxPackets sys ivalue ivalue2 w
      else Some (- 1, w))"

end
