(* ===== verification/Cmdd_Disks.thy ===== *)
theory Cmdd_Disks
  imports Cmdd_Arrays
begin

text \<open>
  The configuration of Cmdd itself, and the commands that change which disks are written and which
  are mounted (\<open>Cmdd.c\<close>).
\<close>

section \<open>The configuration of Cmdd\<close>

definition clear_if :: "int \<Rightarrow> int \<Rightarrow> cmdd \<Rightarrow> cmdd" where
  "clear_if disabled diskBit w =
     (if disabled \<noteq> 0 then w\<lparr>hkDiskBitMask := hkDiskBitMask w AND NOT diskBit, eventDiskBitMask := eventDiskBitMask w AND NOT diskBit\<rparr> else w)"

definition disable_flag :: "string \<Rightarrow> int \<Rightarrow> cmdd \<Rightarrow> cmdd" where
  "disable_flag key diskBit w = (let (d, w) = get_int key 0 w in clear_if d diskBit w)"

text \<open>\<open>numCmdsInConfig\<close> is both the limit for \<open>cmdLengths\<close> and the number read.\<close>

definition read_lengths :: "cmdd \<Rightarrow> cmdd option" where
  "read_lengths w =
     (case kvpGetIntArray ''cmdLengths'' (ints w ''cmdLengths'') (numCmdsInConfig w) (store (conf w)) of None \<Rightarrow> None
      | Some (_, vs, n, k) \<Rightarrow>
          Some (w\<lparr>ints := (ints w)(''cmdLengths'' := vs), numCmdsInConfig := n, conf := (conf w)\<lparr>store := k\<rparr>\<rparr>))"

text \<open>The codes of the three loads are combined with \<open>&\<close>: an error shows only when all three have it.\<close>

definition readConfig :: "cmdd_system \<Rightarrow> cmdd \<Rightarrow> (int \<times> cmdd) option" where
  "readConfig sys w =
     do {
       (e1, w) \<leftarrow> load_section sys ''anitaSoft.config'' ''global'' (kvp_reset w);
       (e2, w) \<leftarrow> load_section sys ''Cmdd.config'' ''lengths'' w;
       (e3, w) \<leftarrow> load_section sys ''Cmdd.config'' ''output'' w;
       let status = config_code e1 AND config_code e2 AND config_code e3;
       if status \<noteq> 0 then Some (status, w)
       else
         let (s, k) = kvpGetString ''usbName'' (store (conf w));
             w = w\<lparr>conf := (conf w)\<lparr>store := k\<rparr>\<rparr>;
             w = (case s of None \<Rightarrow> w | Some s \<Rightarrow> w\<lparr>usbName := s\<rparr>);
             (hk, w) = get_int ''hkDiskBitMask'' 1 w; (ev, w) = get_int ''eventDiskBitMask'' 1 w;
             w = w\<lparr>hkDiskBitMask := hk, eventDiskBitMask := ev\<rparr>;
             w = disable_flag ''disableHelium1'' HELIUM1_DISK_MASK w; w = disable_flag ''disableHelium2'' HELIUM2_DISK_MASK w;
             w = disable_flag ''disableUsb'' USB_DISK_MASK w; w = disable_flag ''disableNtu'' NTU_DISK_MASK w
         in map_option (Pair status) (read_lengths w)
     }"

section \<open>Disks\<close>

text \<open>Disabling, enabling and setting mode.\<close>

definition mask_mode :: "int \<Rightarrow> int \<Rightarrow> int \<Rightarrow> int option" where
  "mask_mode modOrSet bitMask old =
     (if modOrSet = 0 then Some (old AND NOT bitMask) else if modOrSet = 1 then Some (old OR bitMask)
      else if modOrSet = 2 then Some bitMask else None)"

definition global_setting :: "string \<Rightarrow> setting" where
  "global_setting key = (''anitaSoft.config'', ''global'', key)"

definition setEventDiskBitMask :: "cmdd_system \<Rightarrow> int \<Rightarrow> int \<Rightarrow> cmdd \<Rightarrow> (int \<times> cmdd) option" where
  "setEventDiskBitMask sys modOrSet bitMask w =
     do {
       (_, w) \<leftarrow> readConfig sys w;
       (case mask_mode modOrSet bitMask (eventDiskBitMask w) of
          None \<Rightarrow> Some (0, w)
        | Some m \<Rightarrow>
            do {
              (rawtime, w) \<leftarrow> modify sys (global_setting ''eventDiskBitMask'') (UInt_values [u32 m]) (w\<lparr>eventDiskBitMask := m\<rparr>);
              give_notice sys (Respawn (getIdMask ID_ARCHIVED)) rawtime w
            })
     }"

fun respawn_each :: "cmdd_system \<Rightarrow> ProgramId_t list \<Rightarrow> cmdd \<Rightarrow> cmdd option" where
  "respawn_each sys [] w = Some w"
| "respawn_each sys (p # ps) w = do { (_, w) \<leftarrow> respawnPrograms sys (getIdMask p) w; respawn_each sys ps w }"

definition prepWriterStructs :: "cmdd_system \<Rightarrow> cmdd \<Rightarrow> cmdd" where
  "prepWriterStructs sys w = do_act sys (Prepare_writer (hkDiskBitMask w)) w"

definition setHkDiskBitMask :: "cmdd_system \<Rightarrow> int \<Rightarrow> int \<Rightarrow> cmdd \<Rightarrow> (int \<times> cmdd) option" where
  "setHkDiskBitMask sys modOrSet bitMask w =
     do {
       (_, w) \<leftarrow> readConfig sys w;
       (case mask_mode modOrSet bitMask (hkDiskBitMask w) of
          None \<Rightarrow> Some (0, w)
        | Some m \<Rightarrow>
            do {
              (rawtime, w) \<leftarrow> modify sys (global_setting ''hkDiskBitMask'') (UInt_values [u32 m]) (w\<lparr>hkDiskBitMask := m\<rparr>);
              w \<leftarrow> respawn_each sys [ID_HKD, ID_GPSD, ID_ACQD, ID_CALIBD, ID_MONITORD] (prepWriterStructs sys (do_act sys Close_writer w));
              Some (rawtime, w)
            })
     }"

text \<open>Killing the data programs, making new directories and starting them again.\<close>

definition new_run :: "cmdd_system \<Rightarrow> cmdd \<Rightarrow> (int \<times> cmdd) option" where
  "new_run sys w =
     do {
       w \<leftarrow> killDataPrograms sys w;
       let (rawtime, w) = time_now sys (makeNewRunDirs sys w);
       w \<leftarrow> startDataPrograms sys w;
       Some (rawtime, w)
     }"

definition disable_keys :: "(int \<times> string) list" where
  "disable_keys = [(HELIUM1_DISK_MASK, ''disableHelium1''), (HELIUM2_DISK_MASK, ''disableHelium2''), (USB_DISK_MASK, ''disableUsb''),
     (NTU_DISK_MASK, ''disableNtu'')]"

definition disableDisk :: "cmdd_system \<Rightarrow> int \<Rightarrow> int \<Rightarrow> cmdd \<Rightarrow> (int \<times> cmdd) option" where
  "disableDisk sys diskMask disFlag w =
     (if disFlag < 0 \<or> 1 < disFlag then Some (0, w)
      else do {
        (rawtime, w) \<leftarrow> (if disFlag = 1 then do { (_, w) \<leftarrow> setHkDiskBitMask sys 0 diskMask w; setEventDiskBitMask sys 0 diskMask w }
                         else Some (0, w));
        (rawtime, w) \<leftarrow> apply_changes sys
          (map (\<lambda>(_, key). (global_setting key, Int_values [disFlag], True)) (filter (\<lambda>(diskBit, _). diskMask AND diskBit \<noteq> 0) disable_keys)) rawtime w;
        w \<leftarrow> killDataPrograms sys w;
        w \<leftarrow> startDataPrograms sys (do_act sys (Sleep 2) (makeNewRunDirs sys (do_act sys (Sleep 2) w)));
        Some (rawtime, w)
      })"

text \<open>\<open>sscanf\<close> with \<open>%d\<close>.\<close>

definition scan_int :: "string \<Rightarrow> (int \<times> string) option" where
  "scan_int s = (let (v, rest) = c_strtol 10 s in if rest = s then None else Some (s32 v, rest))"

definition scan_disk :: "string \<Rightarrow> int \<Rightarrow> int" where
  "scan_disk s d = (if take 4 s = ''disk'' then case scan_int (drop 4 s) of None \<Rightarrow> d | Some (n, _) \<Rightarrow> n else d)"

definition remount :: "cmdd_system \<Rightarrow> string \<Rightarrow> string \<Rightarrow> string \<Rightarrow> nat \<Rightarrow> (cmdd \<Rightarrow> cmdd) \<Rightarrow> cmdd \<Rightarrow> (int \<times> cmdd) option" where
  "remount sys key name script seconds set_name w =
     do {
       w \<leftarrow> killDataPrograms sys w;
       (rawtime, w) \<leftarrow> modify sys (global_setting key) (String_value name) (set_name (do_act sys (Sleep (int seconds)) (do_act sys Close_writer w)));
       w \<leftarrow> startDataPrograms sys (prepWriterStructs sys (do_act sys (Sleep 2) (makeNewRunDirs sys (do_act sys (Sleep 2) (do_act sys (Shell script) w)))));
       Some (rawtime, w)
     }"

definition mountNextNtu :: "cmdd_system \<Rightarrow> int \<Rightarrow> cmdd \<Rightarrow> (int \<times> cmdd) option" where
  "mountNextNtu sys whichDrive w =
     do {
       (_, w) \<leftarrow> readConfig sys w;
       let currentNum = (if whichDrive = 0 then scan_disk (ntuName w) 0 + 1 else whichDrive);
       if 6 < currentNum then Some (- 1, w)
       else
         let name = ''disk'' @ show_int currentNum in
         remount sys ''ntuName'' name ''/home/anita/flightSoft/bin/mountCurrentNtu.sh'' 1 (\<lambda>w. w\<lparr>ntuName := name\<rparr>) w
     }"

definition scan_usb :: "string \<Rightarrow> int \<times> int" where
  "scan_usb s =
     (if take 3 s = ''rf_'' then
        (case scan_int (drop 3 s) of None \<Rightarrow> (1, 1)
         | Some (port, r) \<Rightarrow>
             if take 1 r = ''_'' then case scan_int (drop 1 r) of None \<Rightarrow> (port, 1) | Some (drive, _) \<Rightarrow> (port, drive) else (port, 1))
      else (1, 1))"

definition next_usb :: "int \<Rightarrow> int \<times> int \<Rightarrow> (int \<times> int) option" where
  "next_usb whichUsb p = (case p of (port, drive) \<Rightarrow>
     if whichUsb = 0 then
       if 8 < drive + 1 then if 3 < port + 1 then None else Some (port + 1, 1) else Some (port, drive + 1)
     else let port = whichUsb div 8 + 1 in if 3 < port then None else Some (port, whichUsb mod 8 + 1))"

definition mountNextUsb :: "cmdd_system \<Rightarrow> int \<Rightarrow> cmdd \<Rightarrow> (int \<times> cmdd) option" where
  "mountNextUsb sys whichUsb w =
     do {
       (_, w) \<leftarrow> readConfig sys w;
       (case next_usb whichUsb (scan_usb (usbName w)) of
          None \<Rightarrow> Some (0, w)
        | Some (port, drive) \<Rightarrow>
            let name = ''rf_'' @ show_int port @ ''_'' @ show_int drive in
            remount sys ''usbName'' name ''/home/anita/flightSoft/bin/mountCurrentUsb.sh'' 2 (\<lambda>w. w\<lparr>usbName := name\<rparr>) w)
     }"

definition tryAndMountSatadrives :: "cmdd_system \<Rightarrow> cmdd \<Rightarrow> (int \<times> cmdd) option" where
  "tryAndMountSatadrives sys w =
     do {
       (_, w) \<leftarrow> modify sys (global_setting ''disableHelium1'') (Int_values [0]) w;
       (_, w) \<leftarrow> modify sys (global_setting ''disableHelium2'') (Int_values [0]) (do_act sys (Sleep 1) w);
       new_run sys (do_act sys (Sleep 10) (do_act sys (Shell ''sudo /etc/init.d/anitamount start'') (do_act sys (Sleep 1) w)))
     }"

end
