(* ===== verification/Cmdd_Instruments.thy ===== *)
theory Cmdd_Instruments
  imports Cmdd_Disks
begin

text \<open>
  The commands of \<open>Cmdd.c\<close> for the trigger (Acqd), the prioritizer and the GPS phi mask (GPSd). A
  result of 0 is an error for the echo. A floating value outside the range of \<open>int\<close> that is
  converted to it is \<open>None\<close>.
\<close>

section \<open>Trigger rates\<close>

definition acqd :: "string \<Rightarrow> string \<Rightarrow> setting" where
  "acqd block key = (''Acqd.config'', block, key)"

definition acqd_int :: "string \<Rightarrow> string \<Rightarrow> int \<Rightarrow> reply" where
  "acqd_int block key v = set_int_to ''Acqd.config'' block key v ID_ACQD"

definition acqd_mask :: "string \<Rightarrow> int list \<Rightarrow> reply" where
  "acqd_mask key args = Set_all [uint_to ''Acqd.config'' ''thresholds'' key (word_at args 0)] (Checked ID_ACQD)"

text \<open>The commands that only write settings.\<close>

definition rate_setting :: "int \<Rightarrow> int list \<Rightarrow> reply option" where
  "rate_setting command args =
     (let v = word_at args 0 in
      if command = ACQD_RATE_ENABLE_CHAN_SERVO then Some (acqd_int ''thresholds'' ''enableChanServo'' (args ! 0))
      else if command = ACQD_RATE_SET_L2_TRIG_MASK then Some (acqd_mask ''l2TrigMask'' args)
      else if command = ACQD_RATE_SET_PHI_MASK then Some (acqd_mask ''phiTrigMask'' args)
      else if command = ACQD_RATE_SET_GPS_PHI_MASK then Some (acqd_mask ''gpsPhiMask'' args)
      else if command = ACQD_RATE_SET_RATE_SERVO then
        Some (Set_all
          (if 0 < v then [(acqd ''rates'' ''enableRateServo'', Int_values [1], False),
                          float_to ''Acqd.config'' ''rates'' ''rateGoal'' (real_of_int v / 1000)]
           else [int_to ''Acqd.config'' ''rates'' ''enableRateServo'' 0]) (Unchecked ID_ACQD))
      else if command = ACQD_RATE_ENABLE_DYNAMIC_PHI_MASK then Some (acqd_int ''rates'' ''enableDynamicPhiMasking'' (args ! 0))
      else if command = ACQD_RATE_ENABLE_DYNAMIC_L2_MASK then Some (acqd_int ''rates'' ''enableDynamicL2Masking'' (args ! 0))
      else if command = ACQD_RATE_SET_DYNAMIC_PHI_MASK_OVER then
        Some (Set_all [int_to ''Acqd.config'' ''rates'' ''dynamicPhiThresholdOverRate'' (args ! 0),
            int_to ''Acqd.config'' ''rates'' ''dynamicPhiThresholdOverWindow'' (args ! 1)] (Checked ID_ACQD))
      else if command = ACQD_RATE_SET_DYNAMIC_PHI_MASK_UNDER then
        Some (Set_all [int_to ''Acqd.config'' ''rates'' ''dynamicPhiThresholdUnderRate'' (args ! 0),
            int_to ''Acqd.config'' ''rates'' ''dynamicPhiThresholdUnderWindow'' (args ! 1)] (Checked ID_ACQD))
      else if command = ACQD_RATE_SET_DYNAMIC_L2_MASK_OVER_WINDOW then Some (acqd_int ''rates'' ''dynamicL2ThresholdOverWindow'' (args ! 0))
      else if command = ACQD_RATE_SET_DYNAMIC_L2_MASK_UNDER_WINDOW then Some (acqd_int ''rates'' ''dynamicL2ThresholdUnderWindow'' (args ! 0))
      else if command = ACQD_RATE_SET_GLOBAL_THRESHOLD then
        Some (Set_all [(acqd ''thresholds'' ''globalThreshold'', Int_values [v], False),
            int_to ''Acqd.config'' ''thresholds'' ''setGlobalThreshold'' (if 0 < v then 1 else 0)] (Checked ID_ACQD))
      else None)"

fun set_pid_goals :: "nat \<Rightarrow> int list \<Rightarrow> cmdd \<Rightarrow> cmdd option" where
  "set_pid_goals 0 args w = Some w"
| "set_pid_goals (Suc k) args w = do { w \<leftarrow> set_pid_goals k args w; set_int ''pidGoals'' (int k) (word_at args (2 * k)) w }"

definition trigger_band_mask :: "cmdd_system \<Rightarrow> int list \<Rightarrow> cmdd \<Rightarrow> (int \<times> cmdd) option" where
  "trigger_band_mask sys args w =
     do {
       w \<leftarrow> readAcqdConfig sys w;
       if args ! 0 < 12 then
         change_int sys (acqd ''thresholds'' ''surfTrigBandMasks'') ''surfTrigBandMasks'' 12 (args ! 0) (word_at args 1) (Checked ID_ACQD) w
       else give_notice sys (Checked ID_ACQD) (junk sys) w
     }"

definition dynamic_l2_rate :: "cmdd_system \<Rightarrow> string \<Rightarrow> int list \<Rightarrow> cmdd \<Rightarrow> (int \<times> cmdd) option" where
  "dynamic_l2_rate sys name args w =
     do {
       w \<leftarrow> readAcqdConfig sys w;
       if args ! 4 < 0 \<or> 15 < args ! 4 then Some (0, w)
       else change_int sys (acqd ''rates'' name) name 16 (args ! 4) (s32 (long_at args 0)) (Checked ID_ACQD) w
     }"

text \<open>The check of the index allows 3, the arrays have three elements.\<close>

definition pid_gain :: "cmdd_system \<Rightarrow> string \<Rightarrow> int list \<Rightarrow> cmdd \<Rightarrow> (int \<times> cmdd) option" where
  "pid_gain sys name args w =
     do {
       w \<leftarrow> readAcqdConfig sys w;
       if 3 < args ! 0 then Some (0, w)
       else change_float sys (acqd ''thresholds'' name) name 3 (args ! 0) (real_of_int (long_at args 1) / 10000) (Checked ID_ACQD) w
     }"

definition pid_limit :: "cmdd_system \<Rightarrow> string \<Rightarrow> int \<Rightarrow> int list \<Rightarrow> cmdd \<Rightarrow> (int \<times> cmdd) option" where
  "pid_limit sys name v args w =
     do {
       w \<leftarrow> readAcqdConfig sys w;
       if 3 < args ! 0 then Some (0, w)
       else change_int sys (acqd ''thresholds'' name) name 3 (args ! 0) v (Checked ID_ACQD) w
     }"

definition executeAcqdRateCommand :: "cmdd_system \<Rightarrow> int \<Rightarrow> int list \<Rightarrow> cmdd \<Rightarrow> (int \<times> cmdd) option" where
  "executeAcqdRateCommand sys command args w =
     (case rate_setting command args of
        Some r \<Rightarrow> give_reply sys r w
      | None \<Rightarrow>
          if command = ACQD_RATE_SET_PID_GOALS then
            do {
              w \<leftarrow> set_pid_goals 3 args w;
              (rawtime, w) \<leftarrow> write_ints sys (acqd ''thresholds'' ''pidGoals'') ''pidGoals'' 3 w;
              give_notice sys (Checked ID_ACQD) rawtime w
            }
          else if command = ACQD_SET_NADIR_PID_GOALS then
            do { w \<leftarrow> set_pid_goals 3 args w; give_notice sys (Checked ID_ACQD) (junk sys) w }
          else if command = ACQD_RATE_SET_SURF_BAND_TRIG_MASK then trigger_band_mask sys args w
          else if command = ACQD_RATE_SET_CHAN_PID_GOAL_SCALE then
            if 11 < args ! 0 \<or> 11 < args ! 1 then Some (0, w)
            else setPidGoalScaleFactor sys (args ! 0) (args ! 1) (real_of_int (word_at args 2) / 1000) w
          else if command = ACQD_RATE_SET_DYNAMIC_L2_MASK_OVER then dynamic_l2_rate sys ''dynamicL2ThresholdOverRate'' args w
          else if command = ACQD_RATE_SET_DYNAMIC_L2_MASK_UNDER then dynamic_l2_rate sys ''dynamicL2ThresholdUnderRate'' args w
          else if command = ACQD_SET_PID_PGAIN then pid_gain sys ''dacPGain'' args w
          else if command = ACQD_SET_PID_IGAIN then pid_gain sys ''dacIGain'' args w
          else if command = ACQD_SET_PID_DGAIN then pid_gain sys ''dacDGain'' args w
          else if command = ACQD_SET_PID_IMAX then pid_limit sys ''dacIMax'' (s32 (long_at args 1)) args w
          else if command = ACQD_SET_PID_IMIN then
            if args ! 0 \<le> 3 \<and> 2147483648 < long_at args 1 then None else pid_limit sys ''dacIMin'' (- long_at args 1) args w
          else Some (0, w))"

section \<open>Prioritizer\<close>

definition pri_float :: "string \<Rightarrow> real \<Rightarrow> reply" where
  "pri_float key v = Set_all [float_to ''Prioritizerd.config'' ''prioritizerd'' key v] No_notice"

definition pri_int :: "string \<Rightarrow> int \<Rightarrow> reply" where
  "pri_int key v = Set_all [int_to ''Prioritizerd.config'' ''prioritizerd'' key v] No_notice"

definition prioritizer_setting :: "int \<Rightarrow> int \<Rightarrow> int \<Rightarrow> reply" where
  "prioritizer_setting command v v2 =
     (let x = real_of_int v; x2 = real_of_int v2 in
      if command = PRI_PANIC_QUEUE_LENGTH then pri_int ''panicQueueLength'' v
      else if command = PRI_SLOPE_IMAGE_HILBERT then pri_float ''slopeOfImagePeakVsHilbertPeak'' x2
      else if command = PRI_INTERCEPT_IMAGE_HILBERT then pri_float ''interceptOfImagePeakVsHilbertPeak'' x2
      else if command = PRI_BIN_TO_BIN_THRESH then pri_float ''binToBinDifferenceThresh_dB'' (x2 / 10)
      else if command = PRI_ABS_MAG_THRESH then pri_float ''absMagnitudeThresh_dBm'' (x2 / 10)
      else if command = PRI_THETA_ANGLE_DEMOTION_LOW then pri_float ''thetaAngleLowForDemotion'' (x2 - 90)
      else if command = PRI_THETA_ANGLE_DEMOTION_HIGH then pri_float ''thetaAngleHighForDemotion'' x2
      else if command = PRI_THETA_ANGLE_DEMOTION_PRIORITY then pri_int ''thetaAnglePriorityDemotion'' v
      else if command = PRI_POWER_SPECTRUM_PERIOD then pri_int ''writePowSpecPeriodSeconds'' v2
      else if command = PRI_POS_SATUATION then pri_int ''positiveSaturation'' v2
      else if command = PRI_NEG_SATUATION then pri_int ''negativeSaturation'' (- v2)
      else if command = PRI_ASYM_SATURATION then pri_int ''asymSaturation'' v
      else if command = PRI_SLEEP_TIME_KILL_X then pri_int ''sleepTimeAfterKillingX'' v
      else if command = PRI_DISABLE_GPU then pri_int ''disableGpu'' v
      else if command = PRI_CALIB_VERSION then pri_int ''anitaCalibVersion'' v
      else if command = PRI_INVERT_TOP_RING_SOFTWARE then pri_int ''invertTopRingInSoftware'' v
      else if command = PRI_DEBUG_MODE then pri_int ''debugMode'' v
      else if command = PRI_BLAST_RATIO_MAX then pri_float ''blastRatioMax'' (x / 100)
      else if command = PRI_BLAST_RATIO_MIN then pri_float ''blastRatioMin'' (x / 100)
      else if command = PRI_BLAST_GRADIENT then pri_float ''blastGradient'' x
      else if command = PRI_USE_LONG_DYNAMIC_FILTERING then pri_int ''useLongDynamicFiltering'' v
      else if command = PRI_START_DYNAMIC_FREQUENCY then pri_float ''startDynamicFrequency'' x
      else if command = PRI_STOP_DYNAMIC_FREQUENCY then pri_float ''stopDynamicFrequency'' x
      else if command = PRI_CONSERVATIVE_START then pri_int ''conservativeStart'' v
      else if command = PRI_THRESH_DB then pri_float ''spikeThresh_dB'' (x / 100)
      else if command = PRI_DELTA_PHI_TRIG then pri_int ''deltaL3PhiTrig'' v
      else Answer (- 1))"

definition pri_array :: "cmdd_system \<Rightarrow> string \<Rightarrow> string \<Rightarrow> nat \<Rightarrow> int \<Rightarrow> real \<Rightarrow> cmdd \<Rightarrow> (int \<times> cmdd) option" where
  "pri_array sys block name n i x w = change_float sys (''Prioritizerd.config'', block, name) name n i x No_notice w"

text \<open>The index \<open>v\<close> comes from the command and is not checked.\<close>

definition executePrioritizerdCommand :: "cmdd_system \<Rightarrow> int \<Rightarrow> int \<Rightarrow> int \<Rightarrow> cmdd \<Rightarrow> (int \<times> cmdd) option" where
  "executePrioritizerdCommand sys command v v2 w =
     do {
       w \<leftarrow> readPrioritizerdConfig sys w;
       let x2 = real_of_int v2; pri = ''prioritizerd''; ant = ''antennalocations'';
           ratio = (\<lambda>name. change_int sys (''Prioritizerd.config'', pri, name) name 16 v v2 No_notice w) in
       if command = PRI_PARAMS_LOW_BIN_EDGE then pri_array sys pri ''priorityParamsLowBinEdge'' 10 v (x2 / 100) w
       else if command = PRI_PARAMS_HIGH_BIN_EDGE then pri_array sys pri ''priorityParamsHighBinEdge'' 10 v (x2 / 100) w
       else if command = PRI_ANT_PHI_POS then pri_array sys ant ''phiArrayDeg'' 48 v (x2 / 100) w
       else if command = PRI_ANT_R_POS then pri_array sys ant ''rArray'' 48 v (x2 / 1000) w
       else if command = PRI_ANT_Z_POS then pri_array sys ant ''zArray'' 48 v (- x2 / 10000) w
       else if command = PRI_SKIP_BLAST_RATIO_HPOL then ratio ''skipBlastRatioHPol''
       else if command = PRI_SKIP_BLAST_RATIO_VPOL then ratio ''skipBlastRatioVPol''
       else if command = PRI_STATIC_NOTCH_LOW_EDGE then pri_array sys pri ''staticNotchesLowEdgeMHz'' 10 v x2 w
       else if command = PRI_STATIC_NOTCH_HIGH_EDGE then pri_array sys pri ''staticNotchesHighEdgeMHz'' 10 v x2 w
       else give_reply sys (prioritizer_setting command v v2) w
     }"

section \<open>GPS phi mask\<close>

definition gpsd_source :: "string \<Rightarrow> setting" where
  "gpsd_source key = (''GPSd.config'', ''sourceList'', key)"

text \<open>
  The first argument is the number of the source and the low byte of the value. \<open>change\<close> sets the
  element and writes the array.
\<close>

definition change_source :: "cmdd_system \<Rightarrow> int \<Rightarrow> (int \<Rightarrow> cmdd \<Rightarrow> (int \<times> cmdd) option) \<Rightarrow> cmdd \<Rightarrow> (int \<times> cmdd) option" where
  "change_source sys source change w =
     do {
       w \<leftarrow> readGpsdConfig sys w;
       if 20 \<le> source \<or> source \<le> 0 then Some (0, w)
       else do {
         w \<leftarrow> (if numSources w < source then
                 map_option snd (modify sys (gpsd_source ''numSources'') (Int_values [source]) (w\<lparr>numSources := source\<rparr>))
               else Some w);
         change (source - 1) w
       }
     }"

definition change_source_value :: "cmdd_system \<Rightarrow> string \<Rightarrow> int list \<Rightarrow> real \<Rightarrow> cmdd \<Rightarrow> (int \<times> cmdd) option" where
  "change_source_value sys name args x w =
     change_source sys (args ! 0) (\<lambda>i. change_float sys (gpsd_source name) name 20 i x (Checked ID_GPSD)) w"

definition phi_mask_enable :: "cmdd_system \<Rightarrow> int \<Rightarrow> cmdd \<Rightarrow> (int \<times> cmdd) option" where
  "phi_mask_enable sys flag w =
     (if flag = 1 then give_reply sys (Set_all [(gpsd_source ''enableGpsPhiMasking'', Int_values [1], True)] (Checked ID_GPSD)) w
      else do {
        (rawtime, w) \<leftarrow> apply_changes sys
          [(gpsd_source ''enableGpsPhiMasking'', Int_values [0], True), (acqd ''thresholds'' ''gpsPhiTrigMask'', Int_values [0], True)] (junk sys) w;
        (rawtime, w) \<leftarrow> give_notice sys (Unchecked ID_GPSD) rawtime w;
        give_notice sys (Checked ID_ACQD) rawtime w
      })"

definition executeGpsPhiMaskCommand :: "cmdd_system \<Rightarrow> int \<Rightarrow> int list \<Rightarrow> cmdd \<Rightarrow> (int \<times> cmdd) option" where
  "executeGpsPhiMaskCommand sys command args w =
     (let v = real_of_int (long_at args 0) in
      if command = GPS_PHI_MASK_ENABLE then phi_mask_enable sys (args ! 0) w
      else if command = GPS_PHI_MASK_UPDATE_PERIOD then
        give_reply sys (set_int_to ''GPSd.config'' ''sourceList'' ''phiMaskingPeriod'' (word_at args 0) ID_GPSD) w
      else if command = GPS_PHI_MASK_SET_SOURCE_LATITUDE then change_source_value sys ''sourceLats'' args (v / 10000000 - 180) w
      else if command = GPS_PHI_MASK_SET_SOURCE_LONGITUDE then change_source_value sys ''sourceLongs'' args (v / 10000000 - 180) w
      else if command = GPS_PHI_MASK_SET_SOURCE_ALTITUDE then change_source_value sys ''sourceAlts'' args (v / 1000) w
      else if command = GPS_PHI_MASK_SET_SOURCE_HORIZON then change_source_value sys ''sourceDistKm'' args (v / 1000) w
      else if command = GPS_PHI_MASK_SET_SOURCE_WIDTH then
        if 8 < args ! 0 then map_option (Pair 0) (readGpsdConfig sys w)
        else change_source sys (args ! 0)
               (\<lambda>i. change_int sys (gpsd_source ''sourceDistKm'') ''sourcePhiWidth'' 20 i (args ! 0) (Checked ID_GPSD)) w
      else Some (0, w))"

end
