(* ===== verification/Cmdd_Devices.thy ===== *)
theory Cmdd_Devices
  imports Cmdd_Instruments
begin

text \<open>
  The commands of \<open>Cmdd.c\<close> for the playback (Playbackd), the RTL receivers (RTLd) and the tunable
  filters (Tuffd).
\<close>

section \<open>Playback\<close>

definition PLAYBACK_DIR :: string where "PLAYBACK_DIR = ''/tmp/anita/playbackd''"
definition PLAYBACK_LINK_DIR :: string where "PLAYBACK_LINK_DIR = ''/tmp/anita/playbackd/link''"

definition executePlaybackCommand :: "cmdd_system \<Rightarrow> int \<Rightarrow> int \<Rightarrow> int \<Rightarrow> cmdd \<Rightarrow> (int \<times> cmdd) option" where
  "executePlaybackCommand sys command uvalue1 uvalue2 w =
     (if command = PLAY_GET_EVENT then
        let filename = PLAYBACK_DIR @ ''/play_'' @ show_uint (nat uvalue1) @ ''.dat'';
            w = write_file sys filename (Play_request uvalue1 (s32 uvalue2)) w
        in Some (time_now sys (do_act sys (Make_link filename PLAYBACK_LINK_DIR) w))
      else give_reply sys (playback_setting command uvalue1) w)"

section \<open>RTL receivers\<close>

definition rtl_int :: "string \<Rightarrow> int \<Rightarrow> reply" where
  "rtl_int key v = Set_all [int_to ''RTLd.config'' ''rtl'' key v] (Unchecked ID_RTLD)"

text \<open>\<open>argAsShort * 1e6\<close> is converted to an \<open>int\<close>.\<close>

definition rtl_frequency :: "string \<Rightarrow> int \<Rightarrow> reply option" where
  "rtl_frequency key v = (if 2147483647 < v * 1000000 then None else Some (rtl_int key (v * 1000000)))"

definition rtl_setting :: "int \<Rightarrow> int list \<Rightarrow> reply option" where
  "rtl_setting command arg =
     (let v = word_at arg 0 in
      if command = RTL_SET_TELEM_EVERY then Some (rtl_int ''telemEvery'' (arg ! 0))
      else if command = RTL_SET_START_FREQUENCY then rtl_frequency ''startFreq'' v
      else if command = RTL_SET_END_FREQUENCY then rtl_frequency ''endFreq'' v
      else if command = RTL_SET_FREQUENCY_STEP then Some (rtl_int ''stepFreq'' (v * 1000))
      else if command = RTL_SET_GRACEFUL_TIMEOUT then Some (rtl_int ''gracefulTimeout'' v)
      else if command = RTL_SET_FAIL_TIMEOUT then Some (rtl_int ''failTimeout'' v)
      else if command = RTL_SET_MAX_FAIL then Some (rtl_int ''failThreshold'' v)
      else Some (Answer 0))"

text \<open>
  The arrays \<open>gain\<close> and \<open>disabled\<close> are local and not initialised: they start with what the model
  has under their names. The section is loaded without a reset of the key value pairs before it.
\<close>

definition rtl :: "string \<Rightarrow> setting" where
  "rtl key = (''RTLd.config'', ''rtl'', key)"

definition executeRTLCommand :: "cmdd_system \<Rightarrow> int \<Rightarrow> int list \<Rightarrow> cmdd \<Rightarrow> (int \<times> cmdd) option" where
  "executeRTLCommand sys command arg w =
     (if command = RTL_SET_GAIN then
        do {
          (_, w) \<leftarrow> load_section sys ''RTLd.config'' ''rtl'' w;
          w \<leftarrow> get_floats ''gain'' ''gain'' 6 w;
          change_float sys (rtl ''gain'') ''gain'' 6 (word_at arg 0 AND 7) (real_of_int (word_at arg 0 div 8) / 10) (Unchecked ID_RTLD) w
        }
      else if command = RTL_SET_DISABLED then
        do {
          (_, w) \<leftarrow> load_section sys ''RTLd.config'' ''rtl'' w;
          w \<leftarrow> get_ints ''disabled'' ''disabled'' 6 w;
          change_int sys (rtl ''disabled'') ''disabled'' 6 (arg ! 0) (arg ! 1) (Unchecked ID_RTLD) w
        }
      else do { r \<leftarrow> rtl_setting command arg; give_reply sys r w })"

section \<open>Tunable filters\<close>

definition TUFF_RAWCMD_DIR :: string where "TUFF_RAWCMD_DIR = ''/tmp/anita/tuff''"
definition TUFF_RAWCMD_LINK_DIR :: string where "TUFF_RAWCMD_LINK_DIR = ''/tmp/anita/tuff/link''"

definition doTuffRawCommand :: "cmdd_system \<Rightarrow> int \<Rightarrow> int \<Rightarrow> int \<Rightarrow> cmdd \<Rightarrow> int \<times> cmdd" where
  "doTuffRawCommand sys rfcm stack c w =
     (let (now, w) = time_now sys w;
          outName = TUFF_RAWCMD_DIR @ ''/tuff_rawcmd_'' @ show_int (rawtuff_counter w) @ ''.dat'';
          w = write_file sys outName (Tuff_raw (u32 now) c rfcm stack) (w\<lparr>rawtuff_counter := s32 (rawtuff_counter w + 1)\<rparr>)
      in (now, do_act sys (Make_link outName TUFF_RAWCMD_LINK_DIR) w))"

definition tuffd :: "string \<Rightarrow> string \<Rightarrow> int list \<Rightarrow> change" where
  "tuffd block key vs = ((''Tuffd.config'', block, key), Int_values vs, True)"

definition tuff_setting :: "int \<Rightarrow> int list \<Rightarrow> change list option" where
  "tuff_setting command arg =
     (if command = TUFF_SET_NOTCH then Some [tuffd ''notch'' ''notchPhiSectors'' (take 6 arg)]
      else if command = TUFF_SET_SLEEP_AMOUNT then Some [tuffd ''behavior'' ''sleepAmount'' [arg ! 0]]
      else if command = TUFF_SET_READ_TEMPERATURE then Some [tuffd ''behavior'' ''readTemperature'' [arg ! 0]]
      else if command = TUFF_SET_TELEM_EVERY then Some [tuffd ''behavior'' ''telemEvery'' [arg ! 0]]
      else if command = TUFF_SET_TELEM_AFTER_CHANGE then Some [tuffd ''behavior'' ''telemAfterChange'' [arg ! 0]]
      else if command = TUFF_DEGREES_FROM_NORTH_TO_NOTCH then Some [tuffd ''notch'' ''tuffDegreesFromNorth'' (map s8 (take 3 arg))]
      else if command = TUFF_SLOPE_THRESHOLD_TO_NOTCH_NEXT_SECTOR then
        Some [tuffd ''notch'' ''slopeThresholdToNotchNextSector'' (take 3 arg)]
      else if command = TUFF_MAX_HEADING_AGE then Some [tuffd ''notch'' ''maxHeadingAge'' [arg ! 0]]
      else if command = TUFF_SET_CAPS_ON_STARTUP then Some [tuffd ''cap'' ''setCapsOnStartup'' (take 3 arg)]
      else None)"

text \<open>
  A negative index means all, and the end of the range is a \<open>char\<close> too: index 127 ends at -128, so
  the range is empty.
\<close>

definition char_range :: "int \<Rightarrow> int \<Rightarrow> int list" where
  "char_range i n = (if i < 0 then [0..n - 1] else [i..s8 (i + 1) - 1])"

definition NUM_RFCM :: int where "NUM_RFCM = 4"
definition NUM_TUFFS_PER_RFCM :: int where "NUM_TUFFS_PER_RFCM = 24"
definition NUM_TUFF_NOTCHES :: int where "NUM_TUFF_NOTCHES = 3"

definition set_cap :: "int \<Rightarrow> int \<times> int \<Rightarrow> int list \<Rightarrow> int list option" where
  "set_cap cap p row = (case p of (rfcm, chan) \<Rightarrow>
     if rfcm < NUM_RFCM \<and> chan < NUM_TUFFS_PER_RFCM then Some (row[nat (rfcm * NUM_TUFFS_PER_RFCM + chan) := cap]) else None)"

fun set_caps :: "int \<Rightarrow> (int \<times> int) list \<Rightarrow> int list \<Rightarrow> int list option" where
  "set_caps cap [] row = Some row"
| "set_caps cap (p # ps) row = do { row \<leftarrow> set_cap cap p row; set_caps cap ps row }"

text \<open>
  The row of one notch, which must be read with all 96 elements; \<open>Inl\<close> is the world at \<open>return -1\<close>.
  There is no row behind the three notches of the array.
\<close>

definition cap_key :: "int \<Rightarrow> string" where
  "cap_key notch = ''notch'' @ show_int notch @ ''Caps''"

definition set_notch_caps :: "cmdd_system \<Rightarrow> (int \<times> int) list \<Rightarrow> int \<Rightarrow> int \<Rightarrow> cmdd \<Rightarrow> (cmdd + int \<times> cmdd) option" where
  "set_notch_caps sys ps cap notch w =
     do {
       (e, w) \<leftarrow> load_section sys ''Tuffd.config'' ''cap'' (kvp_reset w);
       if e \<noteq> CONFIG_E_OK then Some (Inl w)
       else do {
         (e, row, nread, k) \<leftarrow> kvpGetIntArray (cap_key notch) (if notch < NUM_TUFF_NOTCHES then replicate 96 (junk sys) else [])
            (NUM_TUFFS_PER_RFCM * NUM_RFCM) (store (conf w));
         let w = w\<lparr>conf := (conf w)\<lparr>store := k\<rparr>\<rparr> in
         if e \<noteq> KVP_E_OK \<or> nread \<noteq> NUM_RFCM * NUM_TUFFS_PER_RFCM then Some (Inl w)
         else do {
           row \<leftarrow> set_caps cap ps row;
           map_option Inr (modify sys (''Tuffd.config'', ''cap'', cap_key notch) (Int_values row) w)
         }
       }
     }"

fun set_all_caps :: "cmdd_system \<Rightarrow> (int \<times> int) list \<Rightarrow> int \<Rightarrow> int list \<Rightarrow> int \<Rightarrow> cmdd \<Rightarrow> (cmdd + int \<times> cmdd) option" where
  "set_all_caps sys ps cap [] rawtime w = Some (Inr (rawtime, w))"
| "set_all_caps sys ps cap (notch # notches) rawtime w =
     do {
       r \<leftarrow> set_notch_caps sys ps cap notch w;
       (case r of Inl w \<Rightarrow> Some (Inl w) | Inr (rawtime, w) \<Rightarrow> set_all_caps sys ps cap notches rawtime w)
     }"

definition executeTuffCommand :: "cmdd_system \<Rightarrow> int \<Rightarrow> int list \<Rightarrow> cmdd \<Rightarrow> (int \<times> cmdd) option" where
  "executeTuffCommand sys command arg w =
     (case tuff_setting command arg of
        Some cs \<Rightarrow> give_reply sys (Set_all cs (Unchecked ID_TUFFD)) w
      | None \<Rightarrow>
          if command = TUFF_SEND_RAW then
            let (rawtime, w) = doTuffRawCommand sys (arg ! 0 div 2) (arg ! 0 mod 2) (word_at arg 1) w in
            give_notice sys (Unchecked ID_TUFFD) rawtime w
          else if command = TUFF_ADJUST_ACCORDING_TO_HEADING then
            do {
              (rawtime, w) \<leftarrow> apply_changes sys
                [tuffd ''notch'' ''adjustAccordingToHeading'' (take 3 arg),
                 int_to ''GPSd.config'' ''output'' ''saveAttitudeForTuff'' (if arg ! 0 \<noteq> 0 \<or> arg ! 1 \<noteq> 0 \<or> arg ! 2 \<noteq> 0 then 1 else 0)] (junk sys) w;
              (rawtime, w) \<leftarrow> give_notice sys (Unchecked ID_GPSD) rawtime w;
              give_notice sys (Unchecked ID_TUFFD) rawtime w
            }
          else if command = TUFF_SET_CAP_VALUE then
            do {
              r \<leftarrow> set_all_caps sys (List.product (char_range (s8 (arg ! 1)) NUM_RFCM) (char_range (s8 (arg ! 2)) NUM_TUFFS_PER_RFCM)) (arg ! 3)
                (char_range (s8 (arg ! 0)) NUM_TUFF_NOTCHES) (junk sys) w;
              (case r of Inl w \<Rightarrow> Some (- 1, w) | Inr (rawtime, w) \<Rightarrow> give_notice sys (Unchecked ID_TUFFD) rawtime w)
            }
          else Some (0, w))"

end
