(* ===== verification/Link_Watch.thy ===== *)
theory Link_Watch
  imports Flight_Prelude "HOL-Library.Monad_Syntax"
begin

text \<open>
  The watched directories of \<open>src/common/linkWatchLib/linkWatchLib.c\<close>: for each directory a doubly
  linked list of the names of new links, on a heap. Nodes are addresses of the heap, 0 is the null
  pointer; a freed node is no longer in the heap, so that a use of it is \<open>None\<close>, as is an access
  outside an array. \<open>malloc\<close> always succeeds and never returns an address again.
\<close>

section \<open>State\<close>

definition MAX_WATCHES :: nat where "MAX_WATCHES = 100"

record list_item =
  watchIndex :: int
  linkName :: string
  prev_item :: nat
  next_item :: nat

text \<open>\<open>lookupIndex\<close> and \<open>lookupWd\<close> are the static variables of \<open>getWatchIndex\<close>.\<close>

record link_watch =
  heap :: "nat \<Rightarrow> list_item option"
  fresh :: nat
  firstLink :: "nat list"
  lastLink :: "nat list"
  numLinkArray :: "int list"
  wdArray :: "int list"
  watchDirArray :: "string list"
  numWatches :: nat
  lookupIndex :: int
  lookupWd :: int
  inotify_fd :: int
  alreadInit :: bool

definition link_watch_start :: link_watch where
  "link_watch_start = \<lparr>heap = (\<lambda>_. None), fresh = 1, firstLink = replicate MAX_WATCHES 0, lastLink = replicate MAX_WATCHES 0,
     numLinkArray = replicate MAX_WATCHES 0, wdArray = replicate MAX_WATCHES 0, watchDirArray = replicate MAX_WATCHES [], numWatches = 0,
     lookupIndex = -1, lookupWd = 0, inotify_fd = 0, alreadInit = False\<rparr>"

text \<open>
  The directories as \<open>scandir\<close> sees them, its sort order, and the byte that \<open>malloc\<close> leaves at the
  end of an array of a node.
\<close>

record link_env =
  dir_entries :: "string \<Rightarrow> string list option"
  versionsort :: "string list \<Rightarrow> string list"
  fillByte :: char

definition at_index :: "'a list \<Rightarrow> int \<Rightarrow> 'a option" where
  "at_index xs i = (if 0 \<le> i \<and> i < int (length xs) then Some (xs ! nat i) else None)"

section \<open>Operations\<close>

text \<open>A search that fails leaves \<open>i\<close> behind the last watch and \<open>wd\<close> as it was.\<close>

definition find_wd :: "int \<Rightarrow> link_watch \<Rightarrow> nat option" where
  "find_wd watchNumber s = List.find (\<lambda>i. wdArray s ! i = watchNumber) [0..<numWatches s]"

definition getWatchIndex :: "int \<Rightarrow> link_watch \<Rightarrow> int \<times> link_watch" where
  "getWatchIndex watchNumber s =
     (if lookupWd s = watchNumber then (lookupIndex s, s)
      else
        case find_wd watchNumber s of
          Some i \<Rightarrow> (int i, s\<lparr>lookupIndex := int i, lookupWd := watchNumber\<rparr>)
        | None \<Rightarrow> (-1, s\<lparr>lookupIndex := int (numWatches s)\<rparr>))"

text \<open>The first node of a list is cleared before its name is copied, a later one is not.\<close>

definition first_name :: "string \<Rightarrow> string" where "first_name name = take 99 name"

definition later_name :: "char \<Rightarrow> string \<Rightarrow> string" where
  "later_name stray name = take 99 name @ (if 99 \<le> length name \<and> stray \<noteq> CHR 0x00 then [stray] else [])"

definition addLink :: "link_env \<Rightarrow> int \<Rightarrow> string \<Rightarrow> link_watch \<Rightarrow> link_watch option" where
  "addLink env index name s =
     do {
       l \<leftarrow> at_index (lastLink s) index;
       let a = fresh s; i = nat index;
           s = s\<lparr>fresh := Suc a, lastLink := (lastLink s)[i := a], numLinkArray := (numLinkArray s)[i := numLinkArray s ! i + 1]\<rparr> in
       if l = 0 then
         Some (s\<lparr>heap := (heap s)(a \<mapsto> \<lparr>watchIndex = index, linkName = first_name name, prev_item = 0, next_item = 0\<rparr>),
                 firstLink := (firstLink s)[i := a]\<rparr>)
       else do {
         item \<leftarrow> heap s l;
         Some (s\<lparr>heap := (heap s)(l \<mapsto> item\<lparr>next_item := a\<rparr>,
                   a \<mapsto> \<lparr>watchIndex = index, linkName = later_name (fillByte env) name, prev_item = l, next_item = 0\<rparr>)\<rparr>)
       }
     }"

definition getNumLinks :: "int \<Rightarrow> link_watch \<Rightarrow> int" where
  "getNumLinks wd s = (case find_wd wd s of Some i \<Rightarrow> numLinkArray s ! i | None \<Rightarrow> -1)"

definition getLastLink :: "int \<Rightarrow> link_watch \<Rightarrow> (string option \<times> link_watch) option" where
  "getLastLink watchNumber s =
     (case getWatchIndex watchNumber s of (index, s) \<Rightarrow>
     do {
       l \<leftarrow> at_index (lastLink s) index;
       if l = 0 then Some (None, s)
       else do {
         item \<leftarrow> heap s l;
         let i = nat index; p = prev_item item; s = s\<lparr>numLinkArray := (numLinkArray s)[i := numLinkArray s ! i - 1]\<rparr> in
         if p \<noteq> 0 then
           do {
             before \<leftarrow> heap s p;
             Some (Some (linkName item), s\<lparr>heap := (heap s)(p \<mapsto> before\<lparr>next_item := 0\<rparr>, l := None), lastLink := (lastLink s)[i := p]\<rparr>)
           }
         else Some (Some (linkName item),
           s\<lparr>heap := (heap s)(l := None), lastLink := (lastLink s)[i := 0], firstLink := (firstLink s)[i := 0]\<rparr>)
       }
     })"

definition getFirstLink :: "int \<Rightarrow> link_watch \<Rightarrow> (string option \<times> link_watch) option" where
  "getFirstLink watchNumber s =
     (case getWatchIndex watchNumber s of (index, s) \<Rightarrow>
     do {
       f \<leftarrow> at_index (firstLink s) index;
       if f = 0 then Some (None, s)
       else do {
         item \<leftarrow> heap s f;
         let i = nat index; n = next_item item; s = s\<lparr>numLinkArray := (numLinkArray s)[i := numLinkArray s ! i - 1]\<rparr> in
         if n \<noteq> 0 then
           do {
             behind \<leftarrow> heap s n;
             Some (Some (linkName item), s\<lparr>heap := (heap s)(n \<mapsto> behind\<lparr>prev_item := 0\<rparr>, f := None), firstLink := (firstLink s)[i := n]\<rparr>)
           }
         else Some (Some (linkName item),
           s\<lparr>heap := (heap s)(f := None), firstLink := (firstLink s)[i := 0], lastLink := (lastLink s)[i := 0]\<rparr>)
       }
     })"

section \<open>Directories\<close>

definition c_strstr :: "string \<Rightarrow> string \<Rightarrow> bool" where
  "c_strstr s t = list_ex (\<lambda>i. take (length t) (drop i s) = t) [0..<Suc (length s)]"

definition filterHeaders :: "string \<Rightarrow> bool" where "filterHeaders name \<longleftrightarrow> take 2 name = ''hd''"
definition filterOnDats :: "string \<Rightarrow> bool" where "filterOnDats name \<longleftrightarrow> c_strstr name ''.dat''"
definition filterOnGzs :: "string \<Rightarrow> bool" where "filterOnGzs name \<longleftrightarrow> c_strstr name ''.gz''"

definition getListofLinks :: "link_env \<Rightarrow> string \<Rightarrow> string list option" where
  "getListofLinks env dir = map_option (\<lambda>names. versionsort env (filter filterOnDats names)) (dir_entries env dir)"

definition getListofPurgeFiles :: "link_env \<Rightarrow> string \<Rightarrow> string list option" where
  "getListofPurgeFiles env dir = map_option (\<lambda>names. versionsort env (filter filterOnGzs names)) (dir_entries env dir)"

fun add_links :: "link_env \<Rightarrow> int \<Rightarrow> string list \<Rightarrow> link_watch \<Rightarrow> link_watch option" where
  "add_links env i [] s = Some s"
| "add_links env i (name # names) s = do { s \<leftarrow> addLink env i name s; add_links env i names s }"

text \<open>When the directory cannot be read, the number of links is -1, and the loop that frees them does not end.\<close>

definition prepLinkList :: "link_env \<Rightarrow> int \<Rightarrow> link_watch \<Rightarrow> link_watch option" where
  "prepLinkList env i s =
     do {
       dir \<leftarrow> at_index (watchDirArray s) i;
       names \<leftarrow> getListofLinks env dir;
       add_links env i names s
     }"

text \<open>\<open>fd\<close> and \<open>wd\<close> are what \<open>inotify_init\<close> and \<open>inotify_add_watch\<close> return.\<close>

definition setupLinkWatchDir :: "link_env \<Rightarrow> int \<Rightarrow> int \<Rightarrow> string \<Rightarrow> link_watch \<Rightarrow> (int \<times> link_watch) option" where
  "setupLinkWatchDir env fd wd linkDir s =
     (let s = (if alreadInit s then s else s\<lparr>inotify_fd := fd, alreadInit := 0 \<le> fd\<rparr>) in
      if \<not> alreadInit s \<or> MAX_WATCHES \<le> numWatches s \<or> wd < 0 then Some (-1, s)
      else
        let n = numWatches s in
        map_option (Pair wd)
          (prepLinkList env (int n)
            (s\<lparr>wdArray := (wdArray s)[n := wd], watchDirArray := (watchDirArray s)[n := linkDir], numWatches := Suc n\<rparr>)))"

partial_function (option) drop_links :: "int \<Rightarrow> link_watch \<Rightarrow> link_watch option" where
  [code]: "drop_links watchNumber s =
     (case getLastLink watchNumber s of
        None \<Rightarrow> None
      | Some (None, s) \<Rightarrow> Some s
      | Some (Some _, s) \<Rightarrow> drop_links watchNumber s)"

fun refresh_each :: "link_env \<Rightarrow> nat list \<Rightarrow> link_watch \<Rightarrow> link_watch option" where
  "refresh_each env [] s = Some s"
| "refresh_each env (i # is) s =
     do { s \<leftarrow> drop_links (wdArray s ! i) s; s \<leftarrow> prepLinkList env (int i) s; refresh_each env is s }"

definition refreshLinkDirs :: "link_env \<Rightarrow> link_watch \<Rightarrow> link_watch option" where
  "refreshLinkDirs env s = refresh_each env [0..<numWatches s] s"

text \<open>
  The events that the reads of \<open>checkLinkDirs\<close> deliver until \<open>select\<close> times out, with the watch and
  the name of each; \<open>None\<close> is a read that fails. Without a timeout the pointer to it is null.
\<close>

type_synonym event = "int \<times> string"

fun add_events :: "link_env \<Rightarrow> event list \<Rightarrow> link_watch \<Rightarrow> link_watch option" where
  "add_events env [] s = Some s"
| "add_events env ((wd, name) # es) s =
     do {
       s \<leftarrow> (case find_wd wd s of None \<Rightarrow> Some s | Some i \<Rightarrow> addLink env (int i) name s);
       add_events env es s
     }"

definition checkLinkDirs :: "link_env \<Rightarrow> int \<Rightarrow> int \<Rightarrow> event list option list \<Rightarrow> link_watch \<Rightarrow> (int \<times> link_watch) option" where
  "checkLinkDirs env timeoutSec timeOutUSec reads s =
     (if timeoutSec = 0 \<and> timeOutUSec = 0 then None
      else
        let es = concat (map (\<lambda>r. case r of None \<Rightarrow> [] | Some es \<Rightarrow> es) reads) in
        map_option (Pair (int (length es))) (add_events env es s))"

end
