(* ===== verification/Link_Queues.thy ===== *)
theory Link_Queues
  imports Link_Watch
begin

text \<open>
  What the doubly linked lists of the directory watcher hold: one queue of names for each watched
  directory, without a leaked node. The interface \<open>link_queue\<close> states what the daemons rely on.
\<close>

section \<open>Segments of a doubly linked list\<close>

text \<open>
  The nodes at the addresses of \<open>xs\<close> lead from \<open>f\<close> to \<open>l\<close>, with \<open>p\<close> in front and \<open>e\<close> behind.
\<close>

fun seg :: "(nat \<Rightarrow> list_item option) \<Rightarrow> nat \<Rightarrow> nat \<Rightarrow> (nat \<times> string) list \<Rightarrow> nat \<Rightarrow> nat \<Rightarrow> bool" where
  "seg h p f [] l e \<longleftrightarrow> f = e \<and> l = p"
| "seg h p f ((a, n) # xs) l e \<longleftrightarrow> f = a \<and> a \<noteq> 0
     \<and> (case h a of None \<Rightarrow> False | Some item \<Rightarrow> linkName item = n \<and> prev_item item = p \<and> seg h a (next_item item) xs l e)"

lemma seg_append: "seg h p f (xs @ ys) l e \<longleftrightarrow> (\<exists>m k. seg h p f xs k m \<and> seg h k m ys l e)"
  by (induction h p f xs l e rule: seg.induct) (simp_all split: option.splits)

lemma seg_frame: "\<lbrakk>seg h p f xs l e; \<forall>a\<in>fst ` set xs. h' a = h a\<rbrakk> \<Longrightarrow> seg h' p f xs l e"
  by (induction xs arbitrary: p f) (auto split: option.splits)

lemma seg_in_heap: "seg h p f xs l e \<Longrightarrow> fst ` set xs \<subseteq> dom h - {0}"
  by (induction h p f xs l e rule: seg.induct) (auto split: option.splits)

lemma seg_first: "seg h p f xs l 0 \<Longrightarrow> f = (case xs of [] \<Rightarrow> 0 | x # _ \<Rightarrow> fst x)"
  by (cases xs) auto

lemma seg_last: "seg h 0 f xs l e \<Longrightarrow> l = (if xs = [] then 0 else fst (List.last xs))"
proof (cases xs rule: rev_cases)
  case (snoc ys y)
  then show "seg h 0 f xs l e \<Longrightarrow> ?thesis"
    by (cases y) (auto simp: seg_append split: option.splits)
qed simp

lemma seg_push:
  assumes "seg h 0 f (xs @ [(b, m)]) b 0" "distinct (map fst (xs @ [(b, m)]))" "h b = Some item"
    and "a \<notin> fst ` set (xs @ [(b, m)])" "a \<noteq> 0"
  shows "seg (h(b \<mapsto> item\<lparr>next_item := a\<rparr>, a \<mapsto> \<lparr>watchIndex = i, linkName = n, prev_item = b, next_item = 0\<rparr>)) 0 f (xs @ [(b, m), (a, n)]) a 0"
proof -
  obtain k where k: "seg h 0 f xs k b" "b \<noteq> 0" "linkName item = m" "prev_item item = k"
    using assms(1,3) by (auto simp: seg_append)
  have "seg (h(b \<mapsto> item\<lparr>next_item := a\<rparr>, a \<mapsto> \<lparr>watchIndex = i, linkName = n, prev_item = b, next_item = 0\<rparr>)) 0 f xs k b"
    using assms(2,4) by (intro seg_frame [OF k(1)]) (auto simp: image_iff)
  then show ?thesis
    using k(2-) assms(4,5) by (auto simp: seg_append)
qed

lemma seg_pop_front:
  assumes "seg h p a ((a, n) # (b, m) # xs) l 0" "distinct (map fst ((a, n) # (b, m) # xs))"
  shows "\<exists>item behind. h a = Some item \<and> linkName item = n \<and> next_item item = b \<and> b \<noteq> 0 \<and> h b = Some behind
    \<and> seg (h(b \<mapsto> behind\<lparr>prev_item := 0\<rparr>, a := None)) 0 b ((b, m) # xs) l 0"
proof -
  obtain item behind where i: "h a = Some item" "linkName item = n" "next_item item = b" "b \<noteq> 0" "h b = Some behind" "linkName behind = m"
    and xs: "seg h b (next_item behind) xs l 0"
    using assms(1) by (auto split: option.splits)
  have "seg (h(b \<mapsto> behind\<lparr>prev_item := 0\<rparr>, a := None)) b (next_item behind) xs l 0"
    using assms(2) by (intro seg_frame [OF xs]) (auto simp: image_iff)
  then show ?thesis
    using i assms(2) by auto
qed

lemma seg_pop_back:
  assumes "seg h 0 f (xs @ [(b, m), (a, n)]) a 0" "distinct (map fst (xs @ [(b, m), (a, n)]))"
  shows "\<exists>item before. h a = Some item \<and> linkName item = n \<and> prev_item item = b \<and> b \<noteq> 0 \<and> h b = Some before
    \<and> seg (h(b \<mapsto> before\<lparr>next_item := 0\<rparr>, a := None)) 0 f (xs @ [(b, m)]) b 0"
proof -
  obtain k item before where k: "seg h 0 f xs k b" and i: "h a = Some item" "linkName item = n" "prev_item item = b" "b \<noteq> 0" "h b = Some before"
    "linkName before = m" "prev_item before = k"
    using assms(1) by (auto simp: seg_append split: option.splits)
  have "seg (h(b \<mapsto> before\<lparr>next_item := 0\<rparr>, a := None)) 0 f xs k b"
    using assms(2) by (intro seg_frame [OF k]) (auto simp: image_iff)
  then show ?thesis
    using i assms(2) by (auto simp: seg_append)
qed

section \<open>The queues\<close>

text \<open>The nodes of each queue; all nodes of the heap belong to exactly one.\<close>

type_synonym nodes = "nat \<Rightarrow> (nat \<times> string) list"

definition addrs :: "(nat \<times> string) list \<Rightarrow> nat set" where "addrs xs = fst ` set xs"

definition queues :: "link_watch \<Rightarrow> nodes \<Rightarrow> bool" where
  "queues s L \<longleftrightarrow> length (firstLink s) = MAX_WATCHES \<and> length (lastLink s) = MAX_WATCHES \<and> length (numLinkArray s) = MAX_WATCHES
     \<and> (\<forall>i<MAX_WATCHES. seg (heap s) 0 (firstLink s ! i) (L i) (lastLink s ! i) 0 \<and> numLinkArray s ! i = int (length (L i)) \<and> distinct (map fst (L i)))
     \<and> (\<forall>i<MAX_WATCHES. \<forall>j<MAX_WATCHES. i \<noteq> j \<longrightarrow> addrs (L i) \<inter> addrs (L j) = {})
     \<and> dom (heap s) = (\<Union>i<MAX_WATCHES. addrs (L i)) \<and> (\<forall>a\<in>dom (heap s). a < fresh s) \<and> 0 < fresh s"

lemma queues_eq:
  "\<lbrakk>queues s L; heap s' = heap s; fresh s' = fresh s; firstLink s' = firstLink s; lastLink s' = lastLink s; numLinkArray s' = numLinkArray s\<rbrakk>
   \<Longrightarrow> queues s' L"
  by (simp add: queues_def)

lemma queues_start: "queues link_watch_start (\<lambda>_. [])"
  by (simp add: queues_def link_watch_start_def addrs_def MAX_WATCHES_def)

text \<open>Replacing one queue: what is left to show concerns this queue alone.\<close>

lemma queues_update:
  assumes q: "queues s L" and i: "i < MAX_WATCHES"
    and seg: "seg h' 0 f xs l 0" "distinct (map fst xs)"
    and frame: "\<forall>a. a \<notin> addrs (L i) \<union> addrs xs \<longrightarrow> h' a = heap s a" "\<forall>a\<in>addrs (L i) - addrs xs. h' a = None"
    and new: "\<forall>a\<in>addrs xs - addrs (L i). fresh s \<le> a \<and> a < fr" "fresh s \<le> fr"
  shows "queues (s\<lparr>heap := h', fresh := fr, firstLink := (firstLink s)[i := f], lastLink := (lastLink s)[i := l],
     numLinkArray := (numLinkArray s)[i := int (length xs)]\<rparr>) (L(i := xs))"
proof -
  have dom: "dom (heap s) = (\<Union>j<MAX_WATCHES. addrs (L j))" and below: "\<forall>a\<in>dom (heap s). a < fresh s"
    using q by (auto simp: queues_def)
  have apart: "addrs xs \<inter> addrs (L j) = {}" if "j < MAX_WATCHES" "j \<noteq> i" for j
  proof -
    have "a \<notin> addrs (L j)" if a: "a \<in> addrs xs" for a
    proof (cases "a \<in> addrs (L i)")
      case True
      then show ?thesis
        using q i \<open>j < MAX_WATCHES\<close> \<open>j \<noteq> i\<close> by (auto simp: queues_def)
    next
      case False
      then have "fresh s \<le> a"
        using new a by auto
      then show ?thesis
        using below dom \<open>j < MAX_WATCHES\<close> by force
    qed
    then show ?thesis
      by auto
  qed
  have others: "seg h' 0 (firstLink s ! j) (L j) (lastLink s ! j) 0" if j: "j < MAX_WATCHES" "j \<noteq> i" for j
  proof (rule seg_frame)
    show "seg (heap s) 0 (firstLink s ! j) (L j) (lastLink s ! j) 0"
      using q j by (auto simp: queues_def)
    have "addrs (L i) \<inter> addrs (L j) = {}"
      using q i j by (auto simp: queues_def)
    then have "a \<notin> addrs (L i) \<union> addrs xs" if "a \<in> addrs (L j)" for a
      using that apart [OF j] by auto
    then show "\<forall>a\<in>fst ` set (L j). h' a = heap s a"
      using frame(1) unfolding addrs_def by blast
  qed
  have dom': "dom h' = (\<Union>j<MAX_WATCHES. addrs ((L(i := xs)) j))"
  proof (rule set_eqI)
    fix a
    have xs: "addrs xs \<subseteq> dom h'"
      using seg_in_heap [OF seg(1)] by (auto simp: addrs_def)
    show "a \<in> dom h' \<longleftrightarrow> a \<in> (\<Union>j<MAX_WATCHES. addrs ((L(i := xs)) j))"
    proof (cases "a \<in> addrs xs")
      case True
      then show ?thesis
        using xs i by (auto intro!: bexI [of _ i])
    next
      case False
      then have "a \<in> dom h' \<longleftrightarrow> a \<in> dom (heap s) \<and> a \<notin> addrs (L i)"
        using frame by (cases "a \<in> addrs (L i)") auto
      also have "\<dots> \<longleftrightarrow> (\<exists>j<MAX_WATCHES. j \<noteq> i \<and> a \<in> addrs (L j))"
        using q i by (auto simp: dom queues_def)
      finally show ?thesis
        using False by auto
    qed
  qed
  have "a < fr" if "a \<in> dom h'" for a
  proof (cases "a \<in> dom (heap s)")
    case True
    then have "a < fresh s"
      using below by blast
    then show ?thesis
      using new(2) by simp
  next
    case False
    then have "a \<in> addrs xs - addrs (L i)"
      using that frame i dom by (auto simp: domIff)
    then show ?thesis
      using new by auto
  qed
  moreover have "length (firstLink s) = MAX_WATCHES" "length (lastLink s) = MAX_WATCHES" "length (numLinkArray s) = MAX_WATCHES" "0 < fr"
    "\<forall>j<MAX_WATCHES. numLinkArray s ! j = int (length (L j)) \<and> distinct (map fst (L j))"
    "\<forall>j<MAX_WATCHES. \<forall>k<MAX_WATCHES. j \<noteq> k \<longrightarrow> addrs (L j) \<inter> addrs (L k) = {}"
    using q new(2) by (auto simp: queues_def)
  ultimately show ?thesis
    unfolding queues_def using dom' others apart seg i by (auto simp: nth_list_update Int_commute)
qed

section \<open>The operations on the nodes\<close>

text \<open>Everything but the lists themselves is the same.\<close>

definition same_watches :: "link_watch \<Rightarrow> link_watch \<Rightarrow> bool" where
  "same_watches s s' \<longleftrightarrow> wdArray s' = wdArray s \<and> watchDirArray s' = watchDirArray s \<and> numWatches s' = numWatches s
     \<and> lookupIndex s' = lookupIndex s \<and> lookupWd s' = lookupWd s"

lemma at_index_int: "i < length xs \<Longrightarrow> at_index xs (int i) = Some (xs ! i)"
  by (simp add: at_index_def)

lemma find_wd_Some: "find_wd wd s = Some i \<Longrightarrow> i < numWatches s \<and> wdArray s ! i = wd"
  by (auto simp: find_wd_def find_Some_iff)

lemma find_wd_same: "same_watches s s' \<Longrightarrow> find_wd wd s' = find_wd wd s"
  by (simp add: same_watches_def find_wd_def)

lemma addLink_queues:
  assumes q: "queues s L" and i: "i < MAX_WATCHES" and name: "length name < 99"
  shows "\<exists>s'. addLink env (int i) name s = Some s' \<and> queues s' (L(i := L i @ [(fresh s, name)])) \<and> same_watches s s'"
proof -
  let ?a = "fresh s"
  have len: "length (firstLink s) = MAX_WATCHES" "length (lastLink s) = MAX_WATCHES" "length (numLinkArray s) = MAX_WATCHES"
    and L: "seg (heap s) 0 (firstLink s ! i) (L i) (lastLink s ! i) 0" "distinct (map fst (L i))" "numLinkArray s ! i = int (length (L i))"
    and below: "?a \<noteq> 0" "\<forall>a\<in>dom (heap s). a < ?a" and sub: "addrs (L i) \<subseteq> dom (heap s)"
    using q i by (auto simp: queues_def)
  have a: "?a \<noteq> 0" "?a \<notin> dom (heap s)"
    using below by blast+
  have notin: "?a \<notin> addrs (L i)"
    using a sub by blast
  show ?thesis
  proof (cases "L i" rule: rev_cases)
    case Nil
    let ?h = "(heap s)(?a \<mapsto> \<lparr>watchIndex = int i, linkName = name, prev_item = 0, next_item = 0\<rparr>)"
    have "queues (s\<lparr>heap := ?h, fresh := Suc ?a, firstLink := (firstLink s)[i := ?a], lastLink := (lastLink s)[i := ?a],
        numLinkArray := (numLinkArray s)[i := int (length [(?a, name)])]\<rparr>) (L(i := [(?a, name)]))"
      using a Nil by (intro queues_update [OF q i]) (auto simp: addrs_def)
    then show ?thesis
      using L len i name Nil by (auto simp: addLink_def at_index_int same_watches_def first_name_def Let_def elim!: queues_eq)
  next
    case (snoc xs y)
    obtain b m where y: "y = (b, m)"
      by fastforce
    have last: "lastLink s ! i = b"
      using seg_last [OF L(1)] by (simp add: snoc y)
    obtain item where item: "heap s b = Some item" "b \<noteq> 0"
      using L(1) by (auto simp: snoc y seg_append split: option.splits)
    let ?h = "(heap s)(b \<mapsto> item\<lparr>next_item := ?a\<rparr>, ?a \<mapsto> \<lparr>watchIndex = int i, linkName = name, prev_item = b, next_item = 0\<rparr>)"
    have "seg ?h 0 (firstLink s ! i) (xs @ [(b, m), (?a, name)]) ?a 0"
      using L a notin item by (intro seg_push) (simp_all add: snoc y last addrs_def)
    then have "seg ?h 0 (firstLink s ! i) (L i @ [(?a, name)]) ?a 0" "distinct (map fst (L i @ [(?a, name)]))"
      using L(2) notin by (simp_all add: snoc y addrs_def)
    moreover have "b \<in> addrs (L i)"
      by (simp add: snoc y addrs_def)
    moreover have "addrs (L i @ [(?a, name)]) = insert ?a (addrs (L i))"
      by (simp add: addrs_def)
    ultimately have "queues (s\<lparr>heap := ?h, fresh := Suc ?a, firstLink := (firstLink s)[i := firstLink s ! i], lastLink := (lastLink s)[i := ?a],
        numLinkArray := (numLinkArray s)[i := int (length (L i @ [(?a, name)]))]\<rparr>) (L(i := L i @ [(?a, name)]))"
      by (intro queues_update [OF q i]) auto
    then show ?thesis
      using L len i name item
      by (auto simp: addLink_def at_index_int same_watches_def later_name_def last Let_def add.commute elim!: queues_eq)
  qed
qed

text \<open>The search for a watch that exists finds it, and leaves it behind for the next search.\<close>

definition cache_ok :: "link_watch \<Rightarrow> bool" where
  "cache_ok s \<longleftrightarrow> (lookupWd s \<noteq> 0 \<longrightarrow> map_option int (find_wd (lookupWd s) s) = Some (lookupIndex s))"

definition looked_up :: "int \<Rightarrow> nat \<Rightarrow> link_watch \<Rightarrow> link_watch" where
  "looked_up wd i s = s\<lparr>lookupIndex := int i, lookupWd := wd\<rparr>"

lemma getWatchIndex_known:
  assumes "cache_ok s" "wd \<noteq> 0" "find_wd wd s = Some i"
  shows "getWatchIndex wd s = (int i, looked_up wd i s)"
  using assms by (auto simp: getWatchIndex_def looked_up_def cache_ok_def)

lemma looked_up_simps:
  "heap (looked_up wd i s) = heap s" "firstLink (looked_up wd i s) = firstLink s" "lastLink (looked_up wd i s) = lastLink s"
  "numLinkArray (looked_up wd i s) = numLinkArray s" "find_wd v (looked_up wd i s) = find_wd v s" "numWatches (looked_up wd i s) = numWatches s"
  "queues (looked_up wd i s) L \<longleftrightarrow> queues s L" "fresh (looked_up wd i s) = fresh s"
  "wdArray (looked_up wd i s) = wdArray s" "watchDirArray (looked_up wd i s) = watchDirArray s"
  by (simp_all add: looked_up_def queues_def find_wd_def)

lemma cache_ok_looked_up: "find_wd wd s = Some i \<Longrightarrow> cache_ok (looked_up wd i s)"
  by (simp add: cache_ok_def looked_up_simps(5)) (simp add: looked_up_def)

lemma getFirstLink_queues:
  assumes q: "queues s L" and known: "cache_ok s" "wd \<noteq> 0" "find_wd wd s = Some i" "numWatches s \<le> MAX_WATCHES"
  shows "L i = [] \<Longrightarrow> getFirstLink wd s = Some (None, looked_up wd i s)"
    and "L i = (a, n) # xs \<Longrightarrow> \<exists>s'. getFirstLink wd s = Some (Some n, s') \<and> queues s' (L(i := xs)) \<and> same_watches (looked_up wd i s) s'"
proof -
  have i: "i < MAX_WATCHES"
    using find_wd_Some [OF known(3)] known(4) by simp
  note simps = getFirstLink_def getWatchIndex_known [OF known(1-3)] looked_up_simps(1-6) looked_up_simps(8-) at_index_int
  have len: "length (firstLink s) = MAX_WATCHES" "length (lastLink s) = MAX_WATCHES" "length (numLinkArray s) = MAX_WATCHES"
    and L: "seg (heap s) 0 (firstLink s ! i) (L i) (lastLink s ! i) 0" "distinct (map fst (L i))" "numLinkArray s ! i = int (length (L i))"
    using q i by (auto simp: queues_def)
  show "getFirstLink wd s = Some (None, looked_up wd i s)" if "L i = []"
    using L(1) len i that by (simp add: simps)
  show "\<exists>s'. getFirstLink wd s = Some (Some n, s') \<and> queues s' (L(i := xs)) \<and> same_watches (looked_up wd i s) s'" if xs: "L i = (a, n) # xs"
  proof (cases xs)
    case Nil
    obtain item where item: "firstLink s ! i = a" "a \<noteq> 0" "heap s a = Some item" "linkName item = n" "next_item item = 0"
      using L(1) by (auto simp: xs Nil split: option.splits)
    have "queues (s\<lparr>heap := (heap s)(a := None), fresh := fresh s, firstLink := (firstLink s)[i := 0], lastLink := (lastLink s)[i := 0],
        numLinkArray := (numLinkArray s)[i := int (length ([] :: (nat \<times> string) list))]\<rparr>) (L(i := []))"
      by (intro queues_update [OF q i]) (auto simp: addrs_def xs Nil)
    then show ?thesis
      using item len i L(3) by (simp add: simps same_watches_def xs Nil Let_def queues_def)
  next
    case (Cons y ys)
    obtain b m where y: "y = (b, m)"
      by fastforce
    obtain item behind where item: "heap s a = Some item" "linkName item = n" "next_item item = b" "b \<noteq> 0" "heap s b = Some behind"
      and seg: "seg ((heap s)(b \<mapsto> behind\<lparr>prev_item := 0\<rparr>, a := None)) 0 b xs (lastLink s ! i) 0"
      using seg_pop_front [of "heap s" 0 a n b m ys "lastLink s ! i"] L(1,2) by (auto simp: xs Cons y split: option.splits)
    have f: "firstLink s ! i = a" "a \<noteq> 0"
      using L(1) by (auto simp: xs)
    have "queues (s\<lparr>heap := (heap s)(b \<mapsto> behind\<lparr>prev_item := 0\<rparr>, a := None), fresh := fresh s, firstLink := (firstLink s)[i := b],
        lastLink := (lastLink s)[i := lastLink s ! i], numLinkArray := (numLinkArray s)[i := int (length xs)]\<rparr>) (L(i := xs))"
      using L(2) by (intro queues_update [OF q i seg]) (auto simp: addrs_def xs Cons y)
    then show ?thesis
      using item f len i L(3) by (simp add: simps same_watches_def xs Let_def queues_def)
  qed
qed

lemma getLastLink_queues:
  assumes q: "queues s L" and known: "cache_ok s" "wd \<noteq> 0" "find_wd wd s = Some i" "numWatches s \<le> MAX_WATCHES"
  shows "L i = [] \<Longrightarrow> getLastLink wd s = Some (None, looked_up wd i s)"
    and "L i = xs @ [(a, n)] \<Longrightarrow> \<exists>s'. getLastLink wd s = Some (Some n, s') \<and> queues s' (L(i := xs)) \<and> same_watches (looked_up wd i s) s'"
proof -
  have i: "i < MAX_WATCHES"
    using find_wd_Some [OF known(3)] known(4) by simp
  note simps = getLastLink_def getWatchIndex_known [OF known(1-3)] looked_up_simps(1-6) looked_up_simps(8-) at_index_int
  have len: "length (firstLink s) = MAX_WATCHES" "length (lastLink s) = MAX_WATCHES" "length (numLinkArray s) = MAX_WATCHES"
    and L: "seg (heap s) 0 (firstLink s ! i) (L i) (lastLink s ! i) 0" "distinct (map fst (L i))" "numLinkArray s ! i = int (length (L i))"
    using q i by (auto simp: queues_def)
  show "getLastLink wd s = Some (None, looked_up wd i s)" if "L i = []"
    using L(1) len i that by (simp add: simps)
  show "\<exists>s'. getLastLink wd s = Some (Some n, s') \<and> queues s' (L(i := xs)) \<and> same_watches (looked_up wd i s) s'" if xs: "L i = xs @ [(a, n)]"
  proof (cases xs rule: rev_cases)
    case Nil
    obtain item where item: "lastLink s ! i = a" "a \<noteq> 0" "heap s a = Some item" "linkName item = n" "prev_item item = 0"
      using L(1) by (auto simp: xs Nil split: option.splits)
    have "queues (s\<lparr>heap := (heap s)(a := None), fresh := fresh s, firstLink := (firstLink s)[i := 0], lastLink := (lastLink s)[i := 0],
        numLinkArray := (numLinkArray s)[i := int (length ([] :: (nat \<times> string) list))]\<rparr>) (L(i := []))"
      by (intro queues_update [OF q i]) (auto simp: addrs_def xs Nil)
    then show ?thesis
      using item len i L(3) by (simp add: simps same_watches_def xs Nil Let_def queues_def)
  next
    case (snoc ys y)
    obtain b m where y: "y = (b, m)"
      by fastforce
    have l: "lastLink s ! i = a"
      using seg_last [OF L(1)] by (simp add: xs)
    obtain item before where item: "heap s a = Some item" "linkName item = n" "prev_item item = b" "b \<noteq> 0" "heap s b = Some before"
      and seg: "seg ((heap s)(b \<mapsto> before\<lparr>next_item := 0\<rparr>, a := None)) 0 (firstLink s ! i) xs b 0"
      using seg_pop_back [of "heap s" "firstLink s ! i" ys b m a n] L(1,2) by (auto simp: xs snoc y l)
    have a: "a \<noteq> 0"
      using seg_in_heap [OF L(1)] by (auto simp: xs)
    have "queues (s\<lparr>heap := (heap s)(b \<mapsto> before\<lparr>next_item := 0\<rparr>, a := None), fresh := fresh s, firstLink := (firstLink s)[i := firstLink s ! i],
        lastLink := (lastLink s)[i := b], numLinkArray := (numLinkArray s)[i := int (length xs)]\<rparr>) (L(i := xs))"
      using L(2) by (intro queues_update [OF q i seg]) (auto simp: addrs_def xs snoc y)
    then show ?thesis
      using item l a len i L(3) by (simp add: simps same_watches_def xs Let_def queues_def)
  qed
qed

section \<open>The watched directories\<close>

text \<open>
  The names that wait for each watch number. The watch numbers are positive and different, as
  \<open>inotify_add_watch\<close> gives them for different directories.
\<close>

type_synonym waiting = "int \<Rightarrow> string list option"

definition watches_ok :: "link_watch \<Rightarrow> bool" where
  "watches_ok s \<longleftrightarrow> cache_ok s \<and> numWatches s \<le> MAX_WATCHES \<and> length (wdArray s) = MAX_WATCHES \<and> length (watchDirArray s) = MAX_WATCHES
     \<and> (\<forall>i<numWatches s. 0 < wdArray s ! i) \<and> distinct (take (numWatches s) (wdArray s))"

definition names_of :: "link_watch \<Rightarrow> (nat \<Rightarrow> string list) \<Rightarrow> bool" where
  "names_of s N \<longleftrightarrow> (\<exists>L. queues s L \<and> N = (\<lambda>i. map snd (L i)))"

definition holds :: "link_watch \<Rightarrow> waiting \<Rightarrow> bool" where
  "holds s Q \<longleftrightarrow> watches_ok s \<and> (\<exists>N. names_of s N \<and> (\<forall>i\<ge>numWatches s. N i = []) \<and> Q = (\<lambda>wd. map_option N (find_wd wd s)))"

lemma find_wd_nth:
  assumes "watches_ok s" "i < numWatches s"
  shows "find_wd (wdArray s ! i) s = Some i"
proof -
  have "wdArray s ! j \<noteq> wdArray s ! i" if "j < i" for j
    using assms that nth_eq_iff_index_eq [of "take (numWatches s) (wdArray s)" j i] by (auto simp: watches_ok_def)
  then show ?thesis
    using assms(2) by (auto simp: find_wd_def find_Some_iff intro!: exI [of _ i])
qed

lemma find_wd_None: "find_wd wd s = None \<longleftrightarrow> (\<forall>i<numWatches s. wdArray s ! i \<noteq> wd)"
  by (auto simp: find_wd_def find_None_iff)

lemma find_wd_inj: "find_wd v s = Some i \<Longrightarrow> find_wd w s = Some i \<Longrightarrow> v = w"
  using find_wd_Some by metis

lemma known_facts: "watches_ok s \<Longrightarrow> find_wd wd s = Some i \<Longrightarrow> cache_ok s \<and> wd \<noteq> 0 \<and> numWatches s \<le> MAX_WATCHES \<and> i < MAX_WATCHES"
  using find_wd_Some [of wd s i] by (auto simp: watches_ok_def)

lemma watches_ok_same: "watches_ok s \<Longrightarrow> same_watches s s' \<Longrightarrow> watches_ok s'"
  using find_wd_same [of s s'] by (auto simp: watches_ok_def cache_ok_def same_watches_def)

lemma watches_ok_looked_up: "watches_ok s \<Longrightarrow> find_wd wd s = Some i \<Longrightarrow> watches_ok (looked_up wd i s)"
  using cache_ok_looked_up [of wd s i] by (simp add: watches_ok_def looked_up_simps)

lemma same_watches_trans: "same_watches s s' \<Longrightarrow> same_watches s' s'' \<Longrightarrow> same_watches s s''"
  by (simp add: same_watches_def)

lemma names_of_looked_up: "names_of (looked_up wd i s) N \<longleftrightarrow> names_of s N"
  by (simp add: names_of_def looked_up_simps)

lemma holds_looked_up: "holds s Q \<Longrightarrow> find_wd wd s = Some i \<Longrightarrow> holds (looked_up wd i s) Q"
  using watches_ok_looked_up [of s wd i] by (auto simp: holds_def names_of_looked_up looked_up_simps)

lemma map_option_upd:
  assumes "find_wd wd s = Some i"
  shows "(\<lambda>v. map_option (N(i := ns)) (find_wd v s)) = (\<lambda>v. map_option N (find_wd v s))(wd \<mapsto> ns)"
proof (rule ext)
  fix v
  show "map_option (N(i := ns)) (find_wd v s) = ((\<lambda>v. map_option N (find_wd v s))(wd \<mapsto> ns)) v"
    using assms find_wd_inj [of v s i wd] by (cases "find_wd v s") auto
qed

text \<open>After a change of one list the state holds the new names for its watch.\<close>

lemma holds_change:
  assumes "watches_ok s" "find_wd wd s = Some i" "same_watches (looked_up wd i s) s'" "names_of s' (N(i := ns))" "\<forall>i\<ge>numWatches s. N i = []"
  shows "holds s' ((\<lambda>v. map_option N (find_wd v s))(wd \<mapsto> ns))"
proof -
  have "find_wd v s' = find_wd v s" for v
    using find_wd_same [OF assms(3)] by (simp add: looked_up_simps)
  moreover have "\<forall>j\<ge>numWatches s'. (N(i := ns)) j = []"
    using assms(3,5) find_wd_Some [OF assms(2)] by (auto simp: same_watches_def looked_up_simps)
  ultimately show ?thesis
    using watches_ok_same [OF watches_ok_looked_up [OF assms(1,2)] assms(3)] assms(4) map_option_upd [OF assms(2), of N ns]
    unfolding holds_def by (intro conjI exI [of _ "N(i := ns)"]) simp_all
qed

lemma names_of_add:
  assumes "names_of s N" "i < MAX_WATCHES" "length name < 99"
  shows "\<exists>s'. addLink env (int i) name s = Some s' \<and> names_of s' (N(i := N i @ [name])) \<and> same_watches s s'"
proof -
  obtain L where L: "queues s L" "N = (\<lambda>i. map snd (L i))"
    using assms(1) by (auto simp: names_of_def)
  obtain s' where s': "addLink env (int i) name s = Some s'" "queues s' (L(i := L i @ [(fresh s, name)]))" "same_watches s s'"
    using addLink_queues [OF L(1) assms(2,3)] by blast
  have "N(i := N i @ [name]) = (\<lambda>j. map snd ((L(i := L i @ [(fresh s, name)])) j))"
    by (auto simp: L(2))
  then show ?thesis
    using s' unfolding names_of_def by blast
qed

lemma names_of_add_links:
  assumes "names_of s N" "i < MAX_WATCHES" "\<forall>name\<in>set names. length name < 99"
  shows "\<exists>s'. add_links env (int i) names s = Some s' \<and> names_of s' (N(i := N i @ names)) \<and> same_watches s s'"
  using assms
proof (induction names arbitrary: s N)
  case Nil
  then show ?case
    by (simp add: same_watches_def)
next
  case (Cons name names)
  then obtain s1 where 1: "addLink env (int i) name s = Some s1" "names_of s1 (N(i := N i @ [name]))" "same_watches s s1"
    using names_of_add by (metis list.set_intros(1))
  have "N(i := N i @ name # names) = (N(i := N i @ [name]))(i := (N(i := N i @ [name])) i @ names)"
    by simp
  then obtain s2 where "add_links env (int i) names s1 = Some s2" "names_of s2 (N(i := N i @ name # names))" "same_watches s1 s2"
    using Cons.IH [OF 1(2)] Cons.prems by (metis list.set_intros(2))
  then show ?case
    using 1(1) same_watches_trans [OF 1(3)] unfolding add_links.simps by (metis bind.bind_lunit)
qed

section \<open>Refinement of queues of names\<close>

lemma getNumLinks_holds: "holds s Q \<Longrightarrow> Q wd = Some ns \<Longrightarrow> getNumLinks wd s = int (length ns)"
  using known_facts by (fastforce simp: holds_def names_of_def queues_def getNumLinks_def split: option.splits)

lemma getFirstLink_holds:
  assumes "holds s Q"
  shows "Q wd = Some [] \<Longrightarrow> \<exists>s'. getFirstLink wd s = Some (None, s') \<and> holds s' Q"
    and "Q wd = Some (n # ns) \<Longrightarrow> \<exists>s'. getFirstLink wd s = Some (Some n, s') \<and> holds s' (Q(wd \<mapsto> ns))"
proof -
  obtain L where ok: "watches_ok s" and L: "queues s L" and Q: "Q = (\<lambda>wd. map_option (\<lambda>i. map snd (L i)) (find_wd wd s))"
    and rest: "\<forall>i\<ge>numWatches s. (\<lambda>i. map snd (L i)) i = []"
    using assms by (auto simp: holds_def names_of_def)
  note first = getFirstLink_queues [OF L]
  show "\<exists>s'. getFirstLink wd s = Some (None, s') \<and> holds s' Q" if "Q wd = Some []"
    using that known_facts [OF ok] holds_looked_up [OF assms] first(1) by (auto simp: Q)
  show "\<exists>s'. getFirstLink wd s = Some (Some n, s') \<and> holds s' (Q(wd \<mapsto> ns))" if q: "Q wd = Some (n # ns)"
  proof -
    obtain i a xs where i: "find_wd wd s = Some i" "L i = (a, n) # xs" "ns = map snd xs"
      using q by (auto simp: Q)
    obtain s' where s': "getFirstLink wd s = Some (Some n, s')" "queues s' (L(i := xs))" "same_watches (looked_up wd i s) s'"
      using first(2) [of wd i a n xs] i known_facts [OF ok i(1)] by auto
    have "names_of s' ((\<lambda>i. map snd (L i))(i := ns))"
      unfolding names_of_def using s'(2) i(3) by (intro exI [of _ "L(i := xs)"]) auto
    then show ?thesis
      using s'(1) holds_change [OF ok i(1) s'(3) _ rest] unfolding Q by blast
  qed
qed

lemma getLastLink_holds:
  assumes "holds s Q"
  shows "Q wd = Some [] \<Longrightarrow> \<exists>s'. getLastLink wd s = Some (None, s') \<and> holds s' Q"
    and "Q wd = Some (ns @ [n]) \<Longrightarrow> \<exists>s'. getLastLink wd s = Some (Some n, s') \<and> holds s' (Q(wd \<mapsto> ns))"
proof -
  obtain L where ok: "watches_ok s" and L: "queues s L" and Q: "Q = (\<lambda>wd. map_option (\<lambda>i. map snd (L i)) (find_wd wd s))"
    and rest: "\<forall>i\<ge>numWatches s. (\<lambda>i. map snd (L i)) i = []"
    using assms by (auto simp: holds_def names_of_def)
  note last = getLastLink_queues [OF L]
  show "\<exists>s'. getLastLink wd s = Some (None, s') \<and> holds s' Q" if "Q wd = Some []"
    using that known_facts [OF ok] holds_looked_up [OF assms] last(1) by (auto simp: Q)
  show "\<exists>s'. getLastLink wd s = Some (Some n, s') \<and> holds s' (Q(wd \<mapsto> ns))" if q: "Q wd = Some (ns @ [n])"
  proof -
    obtain i a xs where i: "find_wd wd s = Some i" "L i = xs @ [(a, n)]" "ns = map snd xs"
      using q by (auto simp: Q map_eq_append_conv)
    obtain s' where s': "getLastLink wd s = Some (Some n, s')" "queues s' (L(i := xs))" "same_watches (looked_up wd i s) s'"
      using last(2) [of wd i xs a n] i known_facts [OF ok i(1)] by auto
    have "names_of s' ((\<lambda>i. map snd (L i))(i := ns))"
      unfolding names_of_def using s'(2) i(3) by (intro exI [of _ "L(i := xs)"]) auto
    then show ?thesis
      using s'(1) holds_change [OF ok i(1) s'(3) _ rest] unfolding Q by blast
  qed
qed

section \<open>Directories and events\<close>

text \<open>The names that \<open>prepLinkList\<close> finds in the directory of a watch.\<close>

definition listed :: "link_env \<Rightarrow> link_watch \<Rightarrow> nat \<Rightarrow> string list \<Rightarrow> bool" where
  "listed env s i names \<longleftrightarrow> getListofLinks env (watchDirArray s ! i) = Some names \<and> (\<forall>name\<in>set names. length name < 99)"

lemma same_watches_known: "same_watches s s' \<Longrightarrow> find_wd wd s' = find_wd wd s \<and> numWatches s' = numWatches s \<and> watchDirArray s' = watchDirArray s \<and> wdArray s' = wdArray s"
  by (simp add: same_watches_def find_wd_def)

lemma holds_add:
  assumes "holds s Q" "find_wd wd s = Some i" "Q wd = Some ns" "\<forall>name\<in>set names. length name < 99"
  shows "\<exists>s'. add_links env (int i) names s = Some s' \<and> holds s' (Q(wd \<mapsto> ns @ names)) \<and> same_watches s s'"
proof -
  obtain N where ok: "watches_ok s" and N: "names_of s N" "Q = (\<lambda>wd. map_option N (find_wd wd s))" and rest: "\<forall>i\<ge>numWatches s. N i = []"
    using assms(1) by (auto simp: holds_def)
  then obtain s' where s': "add_links env (int i) names s = Some s'" "names_of s' (N(i := N i @ names))" "same_watches s s'"
    using names_of_add_links [OF N(1) _ assms(4)] known_facts [OF ok assms(2)] by blast
  have "\<forall>j\<ge>numWatches s'. (N(i := N i @ names)) j = []"
    using rest find_wd_Some [OF assms(2)] s'(3) by (auto simp: same_watches_def)
  moreover have "N i = ns"
    using assms(2,3) N(2) by simp
  ultimately have "holds s' (Q(wd \<mapsto> ns @ names))"
    unfolding holds_def N(2) map_option_upd [OF assms(2), symmetric] using s'(2) watches_ok_same [OF ok s'(3)] find_wd_same [OF s'(3)]
    by (intro conjI exI [of _ "N(i := N i @ names)"]) auto
  then show ?thesis
    using s' by blast
qed

lemma prepLinkList_holds:
  assumes "holds s Q" "find_wd wd s = Some i" "Q wd = Some ns" "listed env s i names"
  shows "\<exists>s'. prepLinkList env (int i) s = Some s' \<and> holds s' (Q(wd \<mapsto> ns @ names)) \<and> same_watches s s'"
proof -
  have "i < length (watchDirArray s)"
    using assms(1,2) find_wd_Some [of wd s i] by (auto simp: holds_def watches_ok_def)
  then show ?thesis
    using holds_add [OF assms(1-3), of names env] assms(4) by (simp add: prepLinkList_def at_index_int listed_def)
qed

text \<open>A new watch starts with the links that the directory has.\<close>

lemma find_append: "List.find P (xs @ ys) = (case List.find P xs of None \<Rightarrow> List.find P ys | Some x \<Rightarrow> Some x)"
  by (induction xs) auto

lemma find_wd_new:
  assumes "numWatches s < length (wdArray s)" "find_wd wd s = None"
  shows "find_wd v (s\<lparr>inotify_fd := fd, alreadInit := b, wdArray := (wdArray s)[numWatches s := wd], watchDirArray := ds, numWatches := Suc (numWatches s)\<rparr>)
    = (if v = wd then Some (numWatches s) else find_wd v s)"
proof -
  have "List.find (\<lambda>i. (wdArray s)[numWatches s := wd] ! i = v) [0..<numWatches s] = find_wd v s"
    unfolding find_wd_def by (intro find_cong) auto
  then have "find_wd v (s\<lparr>inotify_fd := fd, alreadInit := b, wdArray := (wdArray s)[numWatches s := wd], watchDirArray := ds, numWatches := Suc (numWatches s)\<rparr>)
      = (case find_wd v s of None \<Rightarrow> if wd = v then Some (numWatches s) else None | Some i \<Rightarrow> Some i)"
    using assms(1) by (simp add: find_wd_def [of v "s\<lparr>inotify_fd := _\<rparr>"] find_wd_def [of v "_ \<lparr>numWatches := _\<rparr>"] find_append
        split: option.splits)
  then show ?thesis
    using assms(2) by (auto split: option.splits)
qed

lemma watches_ok_new:
  assumes "watches_ok s" "find_wd wd s = None" "0 < wd" "numWatches s < MAX_WATCHES"
  shows "watches_ok (s\<lparr>inotify_fd := fd, alreadInit := b, wdArray := (wdArray s)[numWatches s := wd],
    watchDirArray := (watchDirArray s)[numWatches s := dir], numWatches := Suc (numWatches s)\<rparr>)"
proof -
  let ?s = "s\<lparr>inotify_fd := fd, alreadInit := b, wdArray := (wdArray s)[numWatches s := wd],
    watchDirArray := (watchDirArray s)[numWatches s := dir], numWatches := Suc (numWatches s)\<rparr>"
  have len: "numWatches s < length (wdArray s)"
    using assms(1,4) by (simp add: watches_ok_def)
  have "cache_ok ?s"
    using assms(1,2) by (auto simp: cache_ok_def find_wd_new [OF len assms(2)] watches_ok_def)
  moreover have "wd \<notin> set (take (numWatches s) (wdArray s))"
    using assms(2) len by (auto simp: find_wd_None in_set_conv_nth)
  ultimately show ?thesis
    using assms len by (auto simp: watches_ok_def take_Suc_conv_app_nth nth_list_update less_Suc_eq)
qed

lemma setupLinkWatchDir_holds:
  assumes s: "holds s Q" "Q wd = None" "0 < wd" "alreadInit s \<or> 0 \<le> fd" "numWatches s < MAX_WATCHES"
    and names: "getListofLinks env dir = Some names" "\<forall>name\<in>set names. length name < 99"
  shows "\<exists>s'. setupLinkWatchDir env fd wd dir s = Some (wd, s') \<and> holds s' (Q(wd \<mapsto> names)) \<and> numWatches s' = Suc (numWatches s)"
proof -
  let ?fd = "if alreadInit s then inotify_fd s else fd"
  let ?n = "numWatches s"
  let ?s = "s\<lparr>inotify_fd := ?fd, alreadInit := True, wdArray := (wdArray s)[?n := wd], watchDirArray := (watchDirArray s)[?n := dir], numWatches := Suc ?n\<rparr>"
  obtain N where ok: "watches_ok s" and N: "names_of s N" "\<forall>i\<ge>?n. N i = []" "Q = (\<lambda>wd. map_option N (find_wd wd s))"
    using s(1) by (auto simp: holds_def)
  have none: "find_wd wd s = None"
    using s(2) by (simp add: N(3))
  have len: "?n < length (wdArray s)" "?n < length (watchDirArray s)"
    using ok s(5) by (simp_all add: watches_ok_def)
  have find: "find_wd v ?s = (if v = wd then Some ?n else find_wd v s)" for v
    by (rule find_wd_new [OF len(1) none])
  have "names_of ?s N"
    using N(1) unfolding names_of_def by (elim ex_forward conj_forward queues_eq) simp_all
  then have "holds ?s (Q(wd \<mapsto> []))"
    using watches_ok_new [OF ok none s(3,5)] N(2) find unfolding holds_def
    by (intro conjI exI [of _ N]) (auto simp: N(3))
  then obtain s' where s': "prepLinkList env (int ?n) ?s = Some s'" "holds s' (Q(wd \<mapsto> names))" "same_watches ?s s'"
    using prepLinkList_holds [of ?s "Q(wd \<mapsto> [])" wd ?n "[]" env names] names len(2) find by (auto simp: listed_def)
  moreover have "(if alreadInit s then s else s\<lparr>inotify_fd := fd, alreadInit := 0 \<le> fd\<rparr>) = s\<lparr>inotify_fd := ?fd, alreadInit := True\<rparr>"
    using s(4) by (cases "alreadInit s") auto
  ultimately show ?thesis
    using s(3,5) by (simp add: setupLinkWatchDir_def Let_def same_watches_def)
qed

text \<open>The links that events announce wait behind those that are there; events of other watches are dropped.\<close>

definition arrive :: "event list \<Rightarrow> waiting \<Rightarrow> waiting" where
  "arrive es Q = (\<lambda>wd. map_option (\<lambda>ns. ns @ map snd (filter (\<lambda>e. fst e = wd) es)) (Q wd))"

lemma arrive_simps: "arrive [] Q = Q" "arrive es Q wd = None \<longleftrightarrow> Q wd = None"
  "Q wd = Some ns \<Longrightarrow> arrive ((wd, name) # es) Q = arrive es (Q(wd \<mapsto> ns @ [name]))"
  "Q wd = None \<Longrightarrow> arrive ((wd, name) # es) Q = arrive es Q"
  by (auto simp: arrive_def option.map_ident fun_eq_iff split: option.splits)

lemma add_events_holds:
  assumes "holds s Q" "\<forall>(wd, name)\<in>set es. length name < 99"
  shows "\<exists>s'. add_events env es s = Some s' \<and> holds s' (arrive es Q)"
  using assms
proof (induction es arbitrary: s Q)
  case Nil
  then show ?case
    by (simp add: arrive_simps)
next
  case (Cons e es)
  obtain wd name where e: "e = (wd, name)"
    by fastforce
  have Q: "(Q wd = None) = (find_wd wd s = None)"
    using Cons.prems(1) by (auto simp: holds_def)
  show ?case
  proof (cases "find_wd wd s")
    case None
    then show ?thesis
      using Cons.IH [OF Cons.prems(1)] Cons.prems(2) Q by (simp add: e arrive_simps)
  next
    case (Some i)
    then obtain ns where ns: "Q wd = Some ns"
      using Q by auto
    obtain s1 where 1: "add_links env (int i) [name] s = Some s1" "holds s1 (Q(wd \<mapsto> ns @ [name]))"
      using holds_add [OF Cons.prems(1) Some ns, of "[name]" env] Cons.prems(2) by (auto simp: e)
    then have a: "addLink env (int i) name s = Some s1"
      by (simp split: bind_splits)
    have "\<forall>(wd, name)\<in>set es. length name < 99"
      using Cons.prems(2) by simp
    then obtain s' where "add_events env es s1 = Some s'" "holds s' (arrive es (Q(wd \<mapsto> ns @ [name])))"
      using Cons.IH [OF 1(2)] by blast
    then show ?thesis
      using Some a by (simp add: e arrive_simps(3) [of Q wd ns, OF ns])
  qed
qed

definition read_events :: "event list option list \<Rightarrow> event list" where
  "read_events reads = concat (map (\<lambda>r. case r of None \<Rightarrow> [] | Some es \<Rightarrow> es) reads)"

lemma checkLinkDirs_holds:
  assumes "holds s Q" "timeoutSec \<noteq> 0 \<or> timeOutUSec \<noteq> 0" "\<forall>(wd, name)\<in>set (read_events reads). length name < 99"
  shows "\<exists>s'. checkLinkDirs env timeoutSec timeOutUSec reads s = Some (int (length (read_events reads)), s') \<and> holds s' (arrive (read_events reads) Q)"
  using add_events_holds [OF assms(1,3), of env] assms(2) unfolding checkLinkDirs_def read_events_def Let_def by auto

text \<open>Refreshing empties every list, whatever it holds, and fills it with what its directory has.\<close>

definition same_dirs :: "link_watch \<Rightarrow> link_watch \<Rightarrow> bool" where
  "same_dirs s s' \<longleftrightarrow> wdArray s' = wdArray s \<and> watchDirArray s' = watchDirArray s \<and> numWatches s' = numWatches s"

lemma same_dirs_trans: "same_dirs s s' \<Longrightarrow> same_dirs s' s'' \<Longrightarrow> same_dirs s s''"
  by (simp add: same_dirs_def)

lemma getLastLink_dirs: "getLastLink wd s = Some (r, s') \<Longrightarrow> same_dirs s s'"
  by (auto simp: getLastLink_def getWatchIndex_def same_dirs_def Let_def split: if_splits option.splits bind_splits)

lemma drop_links_holds:
  assumes "holds s Q" "Q wd = Some ns"
  shows "\<exists>s'. drop_links wd s = Some s' \<and> holds s' (Q(wd \<mapsto> [])) \<and> same_dirs s s'"
  using assms
proof (induction ns arbitrary: s Q rule: rev_induct)
  case Nil
  then obtain s' where s': "getLastLink wd s = Some (None, s')" "holds s' Q"
    using getLastLink_holds(1) by blast
  then show ?case
    using Nil.prems(2) getLastLink_dirs [OF s'(1)] by (simp add: drop_links.simps fun_upd_idem)
next
  case (snoc n ns)
  then obtain s1 where 1: "getLastLink wd s = Some (Some n, s1)" "holds s1 (Q(wd \<mapsto> ns))"
    using getLastLink_holds(2) by blast
  then obtain s' where s': "drop_links wd s1 = Some s'" "holds s' ((Q(wd \<mapsto> ns))(wd \<mapsto> []))" "same_dirs s1 s'"
    using snoc.IH [OF 1(2)] by (metis fun_upd_same)
  then show ?case
    using 1(1) same_dirs_trans [OF getLastLink_dirs [OF 1(1)] s'(3)] by (subst drop_links.simps) simp
qed

lemma refresh_each_holds:
  assumes "holds s Q" "\<forall>i\<in>set is. i < numWatches s \<and> listed env s i (D (wdArray s ! i))"
  shows "\<exists>s'. refresh_each env is s = Some s' \<and> holds s' (\<lambda>wd. if wd \<in> (!) (wdArray s) ` set is then Some (D wd) else Q wd)"
  using assms
proof (induction "is" arbitrary: s Q)
  case (Cons i "is")
  let ?wd = "wdArray s ! i"
  have i: "find_wd ?wd s = Some i" "i < numWatches s"
    using Cons.prems find_wd_nth by (auto simp: holds_def)
  then obtain ns where ns: "Q ?wd = Some ns"
    using Cons.prems(1) by (auto simp: holds_def)
  obtain s1 where 1: "drop_links ?wd s = Some s1" "holds s1 (Q(?wd \<mapsto> []))" "same_dirs s s1"
    using drop_links_holds [OF Cons.prems(1) ns] by blast
  have "find_wd ?wd s1 = Some i" "listed env s1 i (D ?wd)"
    using i 1(3) Cons.prems(2) by (simp_all add: same_dirs_def find_wd_def listed_def)
  then obtain s2 where 2: "prepLinkList env (int i) s1 = Some s2" "holds s2 ((Q(?wd \<mapsto> []))(?wd \<mapsto> [] @ D ?wd))" "same_watches s1 s2"
    using prepLinkList_holds [OF 1(2), of ?wd i "[]" env] by auto
  have same: "wdArray s2 = wdArray s" "watchDirArray s2 = watchDirArray s" "numWatches s2 = numWatches s"
    using 1(3) 2(3) by (simp_all add: same_dirs_def same_watches_def)
  have rest: "\<forall>j\<in>set is. j < numWatches s2 \<and> listed env s2 j (D (wdArray s2 ! j))"
    using Cons.prems(2) by (simp add: same listed_def)
  obtain s' where s': "refresh_each env is s2 = Some s'"
    "holds s' (\<lambda>wd. if wd \<in> (!) (wdArray s2) ` set is then Some (D wd) else ((Q(?wd \<mapsto> []))(?wd \<mapsto> [] @ D ?wd)) wd)"
    using Cons.IH [OF 2(2) rest] by blast
  have "(\<lambda>wd. if wd \<in> (!) (wdArray s2) ` set is then Some (D wd) else ((Q(?wd \<mapsto> []))(?wd \<mapsto> [] @ D ?wd)) wd)
    = (\<lambda>wd. if wd \<in> (!) (wdArray s) ` set (i # is) then Some (D wd) else Q wd)"
    by (auto simp: same)
  then show ?case
    using 1(1) 2(1) s' by simp
qed simp

lemma refreshLinkDirs_holds:
  assumes "holds s Q" "\<forall>i<numWatches s. listed env s i (D (wdArray s ! i))"
  shows "\<exists>s'. refreshLinkDirs env s = Some s' \<and> holds s' (\<lambda>wd. map_option (\<lambda>_. D wd) (Q wd))"
proof -
  have "(wd \<in> (!) (wdArray s) ` set [0..<numWatches s]) = (Q wd \<noteq> None)" for wd
    using assms(1) find_wd_None [of wd s] by (auto simp: holds_def)
  moreover have "(if Q wd \<noteq> None then Some (D wd) else Q wd) = map_option (\<lambda>_. D wd) (Q wd)" for wd
    by (cases "Q wd") auto
  ultimately have "(\<lambda>wd. if wd \<in> (!) (wdArray s) ` set [0..<numWatches s] then Some (D wd) else Q wd) = (\<lambda>wd. map_option (\<lambda>_. D wd) (Q wd))"
    by (intro ext) simp
  then show ?thesis
    using refresh_each_holds [OF assms(1), of "[0..<numWatches s]" env D] assms(2) by (simp add: refreshLinkDirs_def)
qed

lemma holds_start: "holds link_watch_start (\<lambda>_. None)"
  unfolding holds_def names_of_def using queues_start
  by (auto simp: watches_ok_def cache_ok_def link_watch_start_def MAX_WATCHES_def find_wd_def intro!: exI [of _ "\<lambda>_. []"])

section \<open>The interface\<close>

text \<open>What a program that works through its links relies on.\<close>

locale link_queue =
  fixes waits :: "'s \<Rightarrow> waiting \<Rightarrow> bool" and take_link :: "int \<Rightarrow> 's \<Rightarrow> (string option \<times> 's) option" and num_links :: "int \<Rightarrow> 's \<Rightarrow> int"
  assumes num: "waits s Q \<Longrightarrow> Q wd = Some ns \<Longrightarrow> num_links wd s = int (length ns)"
    and take_none: "waits s Q \<Longrightarrow> Q wd = Some [] \<Longrightarrow> \<exists>s'. take_link wd s = Some (None, s') \<and> waits s' Q"
    and take_some: "waits s Q \<Longrightarrow> Q wd = Some (n # ns) \<Longrightarrow> \<exists>s'. take_link wd s = Some (Some n, s') \<and> waits s' (Q(wd \<mapsto> ns))"

text \<open>The loop of such a program: \<open>body\<close> sees the number and the name of each link taken.\<close>

fun each_link :: "(int \<Rightarrow> 's \<Rightarrow> (string option \<times> 's) option) \<Rightarrow> (nat \<Rightarrow> string option \<Rightarrow> 'a \<Rightarrow> 'a) \<Rightarrow> int \<Rightarrow> nat list \<Rightarrow> 'a \<times> 's \<Rightarrow> ('a \<times> 's) option" where
  "each_link take_link body wd [] (x, s) = Some (x, s)"
| "each_link take_link body wd (i # is) (x, s) = do { (name, s) \<leftarrow> take_link wd s; each_link take_link body wd is (body i name x, s) }"

context link_queue
begin

lemma each_link_takes:
  assumes "waits s Q" "Q wd = Some (ns @ rest)" "length is = length ns"
  shows "\<exists>s'. each_link take_link body wd is (x, s) = Some (fold (\<lambda>(i, n). body i (Some n)) (zip is ns) x, s') \<and> waits s' (Q(wd \<mapsto> rest))"
  using assms
proof (induction "is" arbitrary: s Q ns x)
  case Nil
  then show ?case
    by (auto simp: fun_upd_idem)
next
  case (Cons i "is")
  then obtain n ms where ns: "ns = n # ms"
    by (cases ns) auto
  obtain s1 where 1: "take_link wd s = Some (Some n, s1)" "waits s1 (Q(wd \<mapsto> ms @ rest))"
    using take_some [OF Cons.prems(1)] Cons.prems(2) unfolding ns by fastforce
  have "(Q(wd \<mapsto> ms @ rest)) wd = Some (ms @ rest)" "length is = length ms"
    using Cons.prems(3) by (simp_all add: ns)
  then obtain s' where "each_link take_link body wd is (body i (Some n) x, s1) = Some (fold (\<lambda>(i, n). body i (Some n)) (zip is ms) (body i (Some n) x), s')"
    "waits s' ((Q(wd \<mapsto> ms @ rest))(wd \<mapsto> rest))"
    using Cons.IH [OF 1(2)] by blast
  then show ?case
    using 1(1) by (simp add: ns del: fun_upd_apply)
qed

end

interpretation lw: link_queue holds getFirstLink getNumLinks
  by unfold_locales (auto intro: getNumLinks_holds getFirstLink_holds)

section \<open>Any sequence of operations\<close>

datatype link_op = Check_dirs "event list option list" | Take_first int | Take_last int | Count_links int
datatype link_answer = Number int | Name "string option"

definition run_op :: "link_env \<Rightarrow> link_op \<Rightarrow> link_watch \<Rightarrow> (link_answer \<times> link_watch) option" where
  "run_op env op s =
     (case op of
        Check_dirs reads \<Rightarrow> map_option (\<lambda>(n, s). (Number n, s)) (checkLinkDirs env 1 0 reads s)
      | Take_first wd \<Rightarrow> map_option (\<lambda>(n, s). (Name n, s)) (getFirstLink wd s)
      | Take_last wd \<Rightarrow> map_option (\<lambda>(n, s). (Name n, s)) (getLastLink wd s)
      | Count_links wd \<Rightarrow> Some (Number (getNumLinks wd s), s))"

fun run_ops :: "link_env \<Rightarrow> link_op list \<Rightarrow> link_watch \<Rightarrow> (link_answer list \<times> link_watch) option" where
  "run_ops env [] s = Some ([], s)"
| "run_ops env (op # ops) s = do { (r, s) \<leftarrow> run_op env op s; (rs, s) \<leftarrow> run_ops env ops s; Some (r # rs, s) }"

text \<open>The specification works on lists of names.\<close>

definition spec_op :: "link_op \<Rightarrow> waiting \<Rightarrow> link_answer \<times> waiting" where
  "spec_op op Q =
     (case op of
        Check_dirs reads \<Rightarrow> (Number (int (length (read_events reads))), arrive (read_events reads) Q)
      | Take_first wd \<Rightarrow> (case the (Q wd) of [] \<Rightarrow> (Name None, Q) | n # ns \<Rightarrow> (Name (Some n), Q(wd \<mapsto> ns)))
      | Take_last wd \<Rightarrow> (if the (Q wd) = [] then (Name None, Q) else (Name (Some (List.last (the (Q wd)))), Q(wd \<mapsto> butlast (the (Q wd)))))
      | Count_links wd \<Rightarrow> (Number (int (length (the (Q wd)))), Q))"

fun spec_ops :: "link_op list \<Rightarrow> waiting \<Rightarrow> link_answer list \<times> waiting" where
  "spec_ops [] Q = ([], Q)"
| "spec_ops (op # ops) Q = (let (r, Q) = spec_op op Q; (rs, Q) = spec_ops ops Q in (r # rs, Q))"

text \<open>Watched directories only, and names that fit a node.\<close>

definition op_ok :: "int set \<Rightarrow> link_op \<Rightarrow> bool" where
  "op_ok W op =
     (case op of
        Check_dirs reads \<Rightarrow> \<forall>(wd, name)\<in>set (read_events reads). length name < 99
      | Take_first wd \<Rightarrow> wd \<in> W | Take_last wd \<Rightarrow> wd \<in> W | Count_links wd \<Rightarrow> wd \<in> W)"

lemma dom_arrive: "dom (arrive es Q) = dom Q"
  by (auto simp: dom_def arrive_def)

lemma spec_op_dom: "op_ok (dom Q) op \<Longrightarrow> dom (snd (spec_op op Q)) = dom Q"
  by (auto simp: spec_op_def op_ok_def dom_arrive split: link_op.splits list.splits)

lemma run_op_refines:
  assumes "holds s Q" "op_ok (dom Q) op"
  shows "\<exists>s'. run_op env op s = Some (fst (spec_op op Q), s') \<and> holds s' (snd (spec_op op Q))"
proof (cases op)
  case (Check_dirs reads)
  then show ?thesis
    using checkLinkDirs_holds [OF assms(1), of 1 0 reads env] assms(2) by (auto simp: run_op_def spec_op_def op_ok_def)
next
  case (Take_first wd)
  then obtain ns where ns: "Q wd = Some ns"
    using assms(2) by (auto simp: op_ok_def)
  show ?thesis
  proof (cases ns)
    case Nil
    then show ?thesis
      using getFirstLink_holds(1) [OF assms(1)] ns Take_first by (auto simp: run_op_def spec_op_def)
  next
    case (Cons n ms)
    then obtain s' where "getFirstLink wd s = Some (Some n, s')" "holds s' (Q(wd \<mapsto> ms))"
      using getFirstLink_holds(2) [OF assms(1)] ns by blast
    then show ?thesis
      using ns Cons Take_first by (simp add: run_op_def spec_op_def)
  qed
next
  case (Take_last wd)
  then obtain ns where ns: "Q wd = Some ns"
    using assms(2) by (auto simp: op_ok_def)
  show ?thesis
  proof (cases ns rule: rev_cases)
    case Nil
    then show ?thesis
      using getLastLink_holds(1) [OF assms(1)] ns Take_last by (auto simp: run_op_def spec_op_def)
  next
    case (snoc ms n)
    then obtain s' where "getLastLink wd s = Some (Some n, s')" "holds s' (Q(wd \<mapsto> ms))"
      using getLastLink_holds(2) [OF assms(1)] ns by blast
    then show ?thesis
      using ns snoc Take_last by (simp add: run_op_def spec_op_def)
  qed
next
  case (Count_links wd)
  then show ?thesis
    using getNumLinks_holds [OF assms(1)] assms by (auto simp: run_op_def spec_op_def op_ok_def)
qed

lemma run_ops_refine:
  assumes "holds s Q" "\<forall>op\<in>set ops. op_ok (dom Q) op"
  shows "\<exists>s'. run_ops env ops s = Some (fst (spec_ops ops Q), s') \<and> holds s' (snd (spec_ops ops Q))"
  using assms
proof (induction ops arbitrary: s Q)
  case (Cons op ops)
  obtain s1 where 1: "run_op env op s = Some (fst (spec_op op Q), s1)" "holds s1 (snd (spec_op op Q))"
    using run_op_refines [OF Cons.prems(1), of op env] Cons.prems(2) by auto
  have "\<forall>op\<in>set ops. op_ok (dom (snd (spec_op op' Q))) op" if "op' = op" for op'
    using Cons.prems(2) spec_op_dom [of Q op] that by auto
  then obtain s' where "run_ops env ops s1 = Some (fst (spec_ops ops (snd (spec_op op Q))), s')" "holds s' (snd (spec_ops ops (snd (spec_op op Q))))"
    using Cons.IH [OF 1(2)] by blast
  then show ?case
    using 1(1) by (simp add: case_prod_beta Let_def)
qed simp

section \<open>Properties\<close>

text \<open>
  C11. Whatever sequence of reading events, taking the first or the last link and counting links is
  called on watched directories, with names that fit a node, the doubly linked lists on the heap give
  the answers of plain lists of names, hold these names afterwards, and no node is lost or freed twice.
\<close>

theorem watch_operations:
  assumes "holds s Q" "\<forall>op\<in>set ops. op_ok (dom Q) op"
  shows "\<exists>s'. run_ops env ops s = Some (fst (spec_ops ops Q), s') \<and> holds s' (snd (spec_ops ops Q))"
  using assms by (rule run_ops_refine)

definition example_links :: "string list \<Rightarrow> link_env" where
  "example_links names = \<lparr>dir_entries = (\<lambda>_. Some names), versionsort = id, fillByte = CHR 0xFF\<rparr>"

text \<open>A watch of a directory with two links.\<close>

lemma example_setup: "\<exists>s. setupLinkWatchDir (example_links [''a.dat'', ''b.dat'', ''tmp'']) 3 1 ''/d'' link_watch_start = Some (1, s)
  \<and> holds s [1 \<mapsto> [''a.dat'', ''b.dat'']] \<and> numWatches s = 1"
proof -
  have "getListofLinks (example_links [''a.dat'', ''b.dat'', ''tmp'']) ''/d'' = Some [''a.dat'', ''b.dat'']"
    by code_simp
  then show ?thesis
    using setupLinkWatchDir_holds [OF holds_start, of 1 3 "example_links [''a.dat'', ''b.dat'', ''tmp'']" "''/d''" "[''a.dat'', ''b.dat'']"]
    by (simp add: link_watch_start_def MAX_WATCHES_def)
qed

lemma watch_operations_witness:
  "\<exists>s s'. setupLinkWatchDir (example_links [''a.dat'', ''b.dat'', ''tmp'']) 3 1 ''/d'' link_watch_start = Some (1, s)
    \<and> run_ops (example_links []) [Check_dirs [Some [(1, ''c.dat''), (2, ''x.dat'')], None], Take_first 1, Take_last 1, Count_links 1, Take_last 1, Take_last 1] s
        = Some ([Number 2, Name (Some ''a.dat''), Name (Some ''c.dat''), Number 1, Name (Some ''b.dat''), Name None], s')
    \<and> holds s' [1 \<mapsto> []]"
proof -
  let ?ops = "[Check_dirs [Some [(1, ''c.dat''), (2, ''x.dat'')], None], Take_first 1, Take_last 1, Count_links 1, Take_last 1, Take_last 1]"
  let ?Q = "[1 \<mapsto> [''a.dat'', ''b.dat'']] :: waiting"
  obtain s where s: "setupLinkWatchDir (example_links [''a.dat'', ''b.dat'', ''tmp'']) 3 1 ''/d'' link_watch_start = Some (1, s)" "holds s ?Q"
    using example_setup by blast
  have "\<forall>op\<in>set ?ops. op_ok (dom ?Q) op"
    by (simp add: op_ok_def read_events_def)
  moreover have "arrive [(1, ''c.dat''), (2, ''x.dat'')] ?Q = [1 \<mapsto> [''a.dat'', ''b.dat'', ''c.dat'']]"
    by (auto simp: arrive_def)
  then have "spec_ops ?ops ?Q = ([Number 2, Name (Some ''a.dat''), Name (Some ''c.dat''), Number 1, Name (Some ''b.dat''), Name None], [1 \<mapsto> []])"
    by (simp add: spec_op_def read_events_def)
  ultimately show ?thesis
    using watch_operations [OF s(2), of ?ops "example_links []"] s(1) by fastforce
qed

text \<open>
  C12. \<open>refreshLinkDirs\<close> ends whatever the lists hold, and every watched directory then has exactly
  the links that reading it gives, in their order, when every directory can be read.
\<close>

theorem refresh_reads_directories:
  assumes "holds s Q" "\<forall>i<numWatches s. listed env s i (D (wdArray s ! i))"
  shows "\<exists>s'. refreshLinkDirs env s = Some s' \<and> holds s' (\<lambda>wd. map_option (\<lambda>_. D wd) (Q wd))"
  using assms by (rule refreshLinkDirs_holds)

lemma refresh_reads_directories_witness:
  "\<exists>s s'. holds s [1 \<mapsto> [''a.dat'', ''b.dat'']] \<and> refreshLinkDirs (example_links [''c.dat'', ''d'']) s = Some s' \<and> holds s' [1 \<mapsto> [''c.dat'']]"
proof -
  obtain s where s: "holds s [1 \<mapsto> [''a.dat'', ''b.dat'']]" "numWatches s = 1"
    using example_setup by blast
  have "getListofLinks (example_links [''c.dat'', ''d'']) dir = Some [''c.dat'']" for dir
    unfolding getListofLinks_def example_links_def by (simp add: filterOnDats_def c_strstr_def)
  then have "\<forall>i<numWatches s. listed (example_links [''c.dat'', ''d'']) s i [''c.dat'']"
    by (simp add: listed_def)
  then obtain s' where s': "refreshLinkDirs (example_links [''c.dat'', ''d'']) s = Some s'"
    "holds s' (\<lambda>wd. map_option (\<lambda>_. [''c.dat'']) ([1 \<mapsto> [''a.dat'', ''b.dat'']] wd))"
    using refresh_reads_directories [OF s(1), of "example_links [''c.dat'', ''d'']" "\<lambda>_. [''c.dat'']"] by blast
  have "(\<lambda>wd. map_option (\<lambda>_. [''c.dat'']) ([1 \<mapsto> [''a.dat'', ''b.dat'']] wd)) = [1 \<mapsto> [''c.dat'']]"
    by auto
  then show ?thesis
    using s(1) s' by metis
qed

end
