(* ===== verification/Cmdd_Main.thy ===== *)
theory Cmdd_Main
  imports Cmdd_Devices Link_Queues
begin

text \<open>
  \<open>executeCommand\<close> and the main loop of \<open>Cmdd.c\<close>: commands are read from the files that others link
  into a directory watched by \<open>linkWatchLib\<close>, checked, executed unless they repeat the last one,
  and echoed.
\<close>

section \<open>executeCommand\<close>

text \<open>The commands that write settings and give notice, of all programs.\<close>

definition settings_reply :: "int list \<Rightarrow> reply option" where
  "settings_reply c =
     (let rs = List.map_filter (\<lambda>table. table c)
        [calib_command, gps_command, hk_command, acqd_command, monitord_command, archived_command, eventd_command]
      in if rs = [] then None else Some (hd rs))"

definition run_command :: "cmdd_system \<Rightarrow> string \<Rightarrow> cmdd \<Rightarrow> (int \<times> cmdd) option" where
  "run_command sys script w =
     do {
       w \<leftarrow> killDataPrograms sys w;
       let (r, w) = act sys (Shell script) w in
       if r = - 1 then Some (0, w) else Some (time_now sys w)
     }"

text \<open>The commands for the programs and the disks; \<open>CMD_SHUTDOWN_HALT\<close> also asks for the time before.\<close>

definition program_command :: "cmdd_system \<Rightarrow> int list \<Rightarrow> (cmdd \<Rightarrow> (int \<times> cmdd) option) option" where
  "program_command sys c =
     (let code = c ! 0; progMask = mask_at c 1 in
      if code = CMD_MAKE_NEW_RUN_DIRS then Some (\<lambda>w. Some (time_now sys (makeNewRunDirs sys w)))
      else if code = CMD_START_NEW_RUN then Some (new_run sys)
      else if code = CMD_TAIL_VAR_LOG_MESSAGES then Some (\<lambda>w. Some (requestJournalCtl sys JOURNALCTL_NO_OPT 0 (word_at c 1) w))
      else if code = CMD_TAIL_VAR_LOG_ANITA then Some (\<lambda>w. Some (requestJournalCtl sys JOURNALCTL_OPT_COMM 100 (word_at c 1) w))
      else if code = LOG_REQUEST_COMMAND then Some (\<lambda>w. Some (logRequestCommand sys (c ! 1) (word_at c 2) w))
      else if code = JOURNALCTL_REQUEST_COMMAND then Some (\<lambda>w. Some (requestJournalCtl sys (c ! 1) (word_at c 4) (word_at c 2) w))
      else if code = CMD_SHUTDOWN_HALT then Some (\<lambda>w. run_command sys ''/sbin/halt'' (snd (time_now sys w)))
      else if code = CMD_REBOOT then Some (run_command sys ''/sbin/reboot'')
      else if code = CMD_KILL_PROGS then Some (killPrograms sys progMask)
      else if code = CMD_REALLY_KILL_PROGS then Some (reallyKillPrograms sys progMask)
      else if code = CMD_RESPAWN_PROGS then Some (respawnPrograms sys progMask)
      else if code = CMD_START_PROGS then Some (startPrograms sys progMask)
      else if code = CMD_DISABLE_DISK then Some (disableDisk sys (c ! 2) (c ! 1))
      else if code = CMD_MOUNT_ARGH then Some (tryAndMountSatadrives sys)
      else if code = CMD_MOUNT_NEXT_NTU then Some (mountNextNtu sys (c ! 1))
      else if code = CMD_MOUNT_NEXT_USB then Some (mountNextUsb sys (c ! 1))
      else if code = CMD_EVENT_DISKTYPE then
        Some (\<lambda>w. if 0 \<le> c ! 1 \<and> c ! 1 \<le> 2 then setEventDiskBitMask sys (c ! 1) (word_at c 2) w else Some (0, w))
      else if code = CMD_HK_DISKTYPE then
        Some (\<lambda>w. if 0 \<le> c ! 1 \<and> c ! 1 \<le> 2 then setHkDiskBitMask sys (c ! 1) (word_at c 2) w else Some (0, w))
      else if code = CLEAN_DIRS then Some (\<lambda>w. Some (time_now sys w))
      else if code = CLEAR_RAMDISK then Some (\<lambda>w. map_option (time_now sys) (clearRamdisk sys w))
      else if code = SEND_CONFIG then Some (sendConfig sys progMask)
      else if code = DEFAULT_CONFIG then Some (defaultConfig sys progMask)
      else if code = SWITCH_CONFIG then Some (switchConfig sys progMask (c ! 4))
      else if code = SAVE_CONFIG then Some (saveConfig sys progMask (c ! 4))
      else if code = LAST_CONFIG then Some (lastConfig sys progMask)
      else None)"

text \<open>The commands for one element of an array, and those with a code of their own behind the first.\<close>

definition other_command :: "cmdd_system \<Rightarrow> int list \<Rightarrow> (cmdd \<Rightarrow> (int \<times> cmdd) option) option" where
  "other_command sys c =
     (let code = c ! 0; args = drop 2 c in
      if code = ARCHIVE_PRI_DISK then Some (setPriDiskMask sys (c ! 1) (word_at c 2))
      else if code = ARCHIVE_PRI_ENC_TYPE then Some (setPriEncodingType sys (c ! 1) (word_at c 2))
      else if code = ARCHIVE_DECIMATE_PRI then Some (setArchiveDecimatePri sys (c ! 1) (c ! 2) (real_of_int (word_at c 3) / 1000))
      else if code = ARCHIVE_GLOBAL_DECIMATE then Some (setArchiveGlobalDecimate sys (c ! 1) (real_of_int (word_at c 2) / 1000))
      else if code = TELEM_PRI_ENC_TYPE then Some (setTelemPriEncodingType sys (c ! 1) (word_at c 2) (word_at c 4))
      else if code = ACQD_PEDESTAL_RUN then
        Some (\<lambda>w. do { (_, w) \<leftarrow> modify sys (acqd ''acqd'' ''pedestalMode'') (Int_values [c ! 1 AND 1]) w; new_run sys w })
      else if code = ACQD_THRESHOLD_SCAN then
        Some (\<lambda>w. do { (_, w) \<leftarrow> modify sys (acqd ''thresholdScan'' ''doThresholdScan'') (Int_values [c ! 1 AND 1]) w; new_run sys w })
      else if code = SIPD_CONTROL_COMMAND then Some (executeSipdControlCommand sys (c ! 1) args)
      else if code = LOSD_CONTROL_COMMAND then Some (executeLosdControlCommand sys (c ! 1) args)
      else if code = GPSD_EXTRA_COMMAND then Some (give_reply sys (executeGpsdExtracommand (c ! 1) args))
      else if code = CALIBD_EXTRA_COMMAND then Some (give_reply sys (executeCalibdExtraCommand (c ! 1) args))
      else if code = ACQD_RATE_COMMAND then Some (executeAcqdRateCommand sys (c ! 1) args)
      else if code = ACQD_EXTRA_COMMAND then Some (give_reply sys (executeAcqdExtraCommand (c ! 1) (c ! 2)))
      else if code = GPS_PHI_MASK_COMMAND then Some (executeGpsPhiMaskCommand sys (c ! 1) args)
      else if code = PRIORITIZERD_COMMAND then Some (executePrioritizerdCommand sys (c ! 1) (word_at c 2) (word_at c 4))
      else if code = PLAYBACKD_COMMAND then Some (executePlaybackCommand sys (c ! 1) (long_at c 2) (c ! 6))
      else if code = TUFFD_COMMAND then Some (executeTuffCommand sys (c ! 1) args)
      else if code = RTLD_COMMAND then Some (executeRTLCommand sys (c ! 1) args)
      else None)"

definition executeCommand :: "cmdd_system \<Rightarrow> int list \<Rightarrow> cmdd \<Rightarrow> (int \<times> cmdd) option" where
  "executeCommand sys c w =
     (case settings_reply c of
        Some r \<Rightarrow> give_reply sys r w
      | None \<Rightarrow>
          case program_command sys c of
            Some run \<Rightarrow> run w
          | None \<Rightarrow> (case other_command sys c of Some run \<Rightarrow> run w | None \<Rightarrow> Some (0, w)))"

section \<open>The main loop\<close>

definition MAX_COMMANNDS :: nat where "MAX_COMMANNDS = 200"
definition CMDD_COMMAND_DIR :: string where "CMDD_COMMAND_DIR = ''/tmp/anita/cmdd''"
definition CMDD_COMMAND_LINK_DIR :: string where "CMDD_COMMAND_LINK_DIR = ''/tmp/anita/cmdd/link''"

text \<open>
  The daemon: its world, the slots \<open>theCmds\<close>, the last command executed with its time, the watched
  directories and the number of its own (the static \<open>wd\<close> of \<open>checkForNewCommand\<close>). \<open>lastCmd\<close> is not
  initialised.
\<close>

record daemon =
  world :: cmdd
  theCmds :: "command list"
  lastCmd :: command
  lastCmdTime :: int
  watched :: link_watch
  wd :: int

definition checkCommand :: "command \<Rightarrow> cmdd \<Rightarrow> bool option" where
  "checkCommand c w =
     (if numCmdBytes c = 0 then Some False
      else
        let code = nat (cmd c ! 0) in
        if length (ints w ''cmdLengths'') \<le> code then None else Some (numCmdBytes c = ints w ''cmdLengths'' ! code))"

definition sameCommand :: "command \<Rightarrow> command \<Rightarrow> bool" where
  "sameCommand theCmd c \<longleftrightarrow> (let n = nat (numCmdBytes theCmd) in
     numCmdBytes theCmd = numCmdBytes c \<and> take n (cmd theCmd) = take n (cmd c))"

definition copyCommand :: "command \<Rightarrow> command \<Rightarrow> command" where
  "copyCommand theCmd c =
     (let n = nat (numCmdBytes theCmd) in c\<lparr>numCmdBytes := numCmdBytes theCmd, cmd := take n (cmd theCmd) @ drop n (cmd c)\<rparr>)"

text \<open>
  What a round of the loop finds: the directories, the results of \<open>inotify_init\<close> and
  \<open>inotify_add_watch\<close>, the events, and what reading a file of a command makes of a slot.
\<close>

record round_input =
  linkEnv :: link_env
  initFd :: int
  addWatch :: int
  eventReads :: "event list option list"
  cmdFile :: "string \<Rightarrow> command \<Rightarrow> command"

text \<open>The names of the files are printed from what \<open>getFirstLink\<close> returns.\<close>

definition read_command :: "cmdd_system \<Rightarrow> round_input \<Rightarrow> nat \<Rightarrow> string option \<Rightarrow> command list \<times> cmdd \<Rightarrow> command list \<times> cmdd" where
  "read_command sys r uptoCmd tempString =
     (\<lambda>(cs, w).
       let name = (case tempString of None \<Rightarrow> ''(null)'' | Some n \<Rightarrow> n);
           currentFilename = CMDD_COMMAND_DIR @ ''/'' @ name; currentLinkname = CMDD_COMMAND_LINK_DIR @ ''/'' @ name in
       (cs[uptoCmd := cmdFile r currentFilename (cs ! uptoCmd)],
        do_act sys (Remove_file currentLinkname) (do_act sys (Remove_file currentFilename) w)))"

text \<open>The program exits when it cannot watch its directory.\<close>

datatype 'a outcome = Exit | Continue 'a

definition checkForNewCommand :: "cmdd_system \<Rightarrow> round_input \<Rightarrow> daemon \<Rightarrow> (int \<times> daemon) outcome option" where
  "checkForNewCommand sys r d =
     do {
       (wd, s) \<leftarrow> (if wd d = 0 then setupLinkWatchDir (linkEnv r) (initFd r) (addWatch r) CMDD_COMMAND_LINK_DIR (watched d) else Some (wd d, watched d));
       if daemon.wd d = 0 \<and> wd \<le> 0 then Some Exit
       else do {
         let numCmdLinks = (if daemon.wd d = 0 then getNumLinks wd s else 0);
         (retVal, s) \<leftarrow> checkLinkDirs (linkEnv r) 1 0 (eventReads r) s;
         let numCmdLinks = (if retVal \<noteq> 0 \<or> numCmdLinks \<noteq> 0 then getNumLinks wd s else numCmdLinks);
         ((cs, w), s) \<leftarrow> each_link getFirstLink (read_command sys r) wd [0..<min (nat numCmdLinks) MAX_COMMANNDS] ((theCmds d, world d), s);
         Some (Continue (numCmdLinks, d\<lparr>theCmds := cs, world := w, watched := s, wd := wd\<rparr>))
       }
     }"

text \<open>The loops over the bytes of a command run beyond its 20 when \<open>cmdLengths\<close> has a greater number.\<close>

definition run_one :: "cmdd_system \<Rightarrow> command \<Rightarrow> daemon \<Rightarrow> daemon option" where
  "run_one sys c d =
     do {
       good \<leftarrow> checkCommand c (world d);
       if \<not> good then Some d
       else if int MAX_CMD_LENGTH < numCmdBytes c then None
       else
         let (nowTime, w) = time_now sys (world d) in
         if 30 < nowTime - lastCmdTime d \<or> \<not> sameCommand c (lastCmd d) then
           do {
             (rawtime, w) \<leftarrow> executeCommand sys (cmd c) w;
             w \<leftarrow> writeCommandEcho sys c rawtime w;
             Some (d\<lparr>world := w, lastCmd := copyCommand c (lastCmd d), lastCmdTime := rawtime\<rparr>)
           }
         else do { w \<leftarrow> writeCommandEcho sys c (lastCmdTime d) w; Some (d\<lparr>world := w\<rparr>) }
     }"

fun run_commands :: "cmdd_system \<Rightarrow> nat list \<Rightarrow> daemon \<Rightarrow> daemon option" where
  "run_commands sys [] d = Some d"
| "run_commands sys (i # is) d =
     (if length (theCmds d) \<le> i then None else do { d \<leftarrow> run_one sys (theCmds d ! i) d; run_commands sys is d })"

definition loop_step :: "cmdd_system \<Rightarrow> round_input \<Rightarrow> daemon \<Rightarrow> daemon outcome option" where
  "loop_step sys r d =
     do {
       checked \<leftarrow> checkForNewCommand sys r d;
       case checked of
         Exit \<Rightarrow> Some Exit
       | Continue (numCmds, d) \<Rightarrow> map_option Continue (run_commands sys [0..<nat numCmds] d)
     }"

end
