(* ===== verification/Cmdd_Settings.thy ===== *)
theory Cmdd_Settings
  imports Cmdd_Main
begin

text \<open>
  What the commands of Cmdd do to the settings: those that carry values change exactly the settings
  they name, those for one element of an array change exactly that element, and the program
  concerned gets the signal to read its configuration again.
\<close>

section \<open>Changes\<close>

abbreviation plain_changes :: "change list \<Rightarrow> (setting \<times> kvp_value) list" where
  "plain_changes cs \<equiv> map (\<lambda>(s, v, _). (s, v)) cs"

text \<open>All changes concern settings of the configuration files \<open>F\<close> that accept the new value.\<close>

definition changes_ok :: "config_env \<Rightarrow> string set \<Rightarrow> config_state \<Rightarrow> change list \<Rightarrow> bool" where
  "changes_ok e F st cs \<longleftrightarrow> (\<forall>(s, v)\<in>set (plain_changes cs). setting_ok F s \<and> (\<exists>x. read_setting e s st = Some x \<and> entry_accepts x v))"

lemma modify_put: "put_setting (env sys) (Some (clock sys (ticks w))) s v (conf w) = Some c \<Longrightarrow>
    modify sys s v w = Some (clock sys (ticks w), w\<lparr>ticks := Suc (ticks w), conf := c\<rparr>)"
  by (cases s) (auto simp: put_setting_def modify_def time_now_def split: option.splits prod.splits ConfigErrorCode.splits)

lemma modify_null_put: "put_setting (env sys) None s v (conf w) = Some c \<Longrightarrow> modify_null sys s v w = Some (w\<lparr>conf := c\<rparr>)"
  by (cases s) (auto simp: put_setting_def modify_null_def split: option.splits prod.splits ConfigErrorCode.splits)

lemma changes_ok_accepted: "changes_ok e F st cs \<longleftrightarrow> (\<forall>c\<in>set (plain_changes cs). config.accepted F e c st)"
  by (auto simp: changes_ok_def config.accepted_def)

lemma apply_changes_shown:
  assumes "config_inv (env sys) d F (conf w)" "changes_ok (env sys) F (conf w) cs"
  shows "\<exists>r w'. apply_changes sys cs r0 w = Some (r, w') \<and> acts w' = acts w \<and> config_inv (env sys) d F (conf w')
    \<and> (\<forall>s e. setting_ok F s \<and> read_setting (env sys) s (conf w) = Some e
         \<longrightarrow> read_setting (env sys) s (conf w') = Some (after_changes put_value (plain_changes cs) s e))"
  using assms
proof (induction cs arbitrary: w r0)
  case (Cons c cs)
  obtain s v stamped where c: "c = (s, v, stamped)"
    by (cases c)
  let ?raw = "if stamped then Some (clock sys (ticks w)) else None"
  have acc: "config.accepted F (env sys) (s, v) (conf w)" "\<forall>x\<in>set (plain_changes cs). config.accepted F (env sys) x (conf w)"
    using Cons.prems(2) by (auto simp: c changes_ok_accepted)
  obtain st where st: "put_setting (env sys) ?raw s v (conf w) = Some st" "config_inv (env sys) d F st"
      "\<And>x. config.accepted F (env sys) x (conf w) \<Longrightarrow> config.accepted F (env sys) x st"
      "\<And>s' e. setting_ok F s' \<Longrightarrow> read_setting (env sys) s' (conf w) = Some e
         \<Longrightarrow> read_setting (env sys) s' st = Some (if s = s' then put_value v e else e)"
    using config.put_accepted [OF Cons.prems(1) acc(1), of ?raw] by auto
  obtain r1 w1 where step: "apply_changes sys (c # cs) r0 w = apply_changes sys cs r1 w1" "conf w1 = st" "acts w1 = acts w"
    using st(1) modify_put [of sys w s v st] modify_null_put [of sys s v w st] by (cases stamped) (auto simp: c)
  have "changes_ok (env sys) F (conf w1) cs"
    using acc(2) st(3) by (simp add: changes_ok_accepted step(2))
  then obtain r w' where "apply_changes sys cs r1 w1 = Some (r, w')" "acts w' = acts w1" "config_inv (env sys) d F (conf w')"
      "\<And>s e. setting_ok F s \<Longrightarrow> read_setting (env sys) s st = Some e
         \<Longrightarrow> read_setting (env sys) s (conf w') = Some (after_changes put_value (plain_changes cs) s e)"
    using Cons.IH [of w1 r1] st(2) step(2) by blast
  then show ?case
    using step st(4) by (auto simp: c)
qed simp

section \<open>Notices\<close>

text \<open>What \<open>sendSignal\<close> does: the pid file is read, and the signal is sent if it could be.\<close>

definition signal_acts :: "cmdd_system \<Rightarrow> action list \<Rightarrow> ProgramId_t \<Rightarrow> int \<Rightarrow> action list" where
  "signal_acts sys as p sig =
     (let rd = Read_pid (pid_file p); pid = outcome sys (as @ [rd]) in if pid < 0 then [rd] else [rd, Kill pid sig])"

lemma sendSignal_acts:
  assumes "data_program p"
  shows "\<exists>r. sendSignal sys p sig w = Some (r, w\<lparr>acts := acts w @ signal_acts sys (acts w) p sig\<rparr>)"
proof -
  obtain f where f: "getPidFile p = Some f" "pid_file p = f"
    using assms by (cases p) (simp_all add: data_program_def getPidFile_def pid_file_def)
  have "p \<noteq> ID_CMDD"
    using assms by (simp add: data_program_def)
  then show ?thesis
    using f by (auto simp: sendSignal_def signal_acts_def act_def Let_def)
qed

definition told :: "notice \<Rightarrow> ProgramId_t option" where
  "told n = (case n of Checked p \<Rightarrow> Some p | Unchecked p \<Rightarrow> Some p | _ \<Rightarrow> None)"

lemma give_notice_told:
  assumes "told n = Some p" "data_program p"
  shows "\<exists>r. give_notice sys n rawtime w = Some (r, w\<lparr>acts := acts w @ signal_acts sys (acts w) p SIGUSR1\<rparr>)"
  using sendSignal_acts [OF assms(2), of sys SIGUSR1 w] assms(1)
  by (cases n) (auto simp: give_notice_def told_def)

text \<open>The programs are respawned without a change of the configuration.\<close>

lemma conf_act [simp]: "conf (do_act sys a w) = conf w" "conf (snd (act sys a w)) = conf w" "conf (snd (time_now sys w)) = conf w"
  by (simp_all add: do_act_def act_def time_now_def)

lemma for_programs_keeps:
  "(\<And>p s s'. f p s = Some s' \<Longrightarrow> g s' = g s) \<Longrightarrow> for_programs f progMask ps s = Some s' \<Longrightarrow> g s' = g s"
  by (induction ps arbitrary: s) (auto split: if_splits option.splits)

lemma start_program_keeps: "start_program sys p s = Some s' \<Longrightarrow> conf (snd (snd s')) = conf (snd (snd s))"
  by (auto simp: start_program_def Let_def split_beta split: if_splits prod.splits)

lemma startPrograms_keeps: "\<exists>r w'. startPrograms sys progMask w = Some (r, w') \<and> conf w' = conf w"
proof -
  obtain t w0 where t: "time_now sys w = (t, w0)" "conf w0 = conf w"
    by (cases "time_now sys w") (auto simp: time_now_def)
  have "\<exists>s'. start_program sys p s = Some s'" for p s
    by (cases s) (simp add: start_program_def Let_def split_beta)
  then obtain n x w' where *: "for_programs (start_program sys) progMask all_programs (0, False, w0) = Some (n, x, w')"
    using for_programs_some [of all_programs progMask "start_program sys"] by (metis prod_cases3)
  have "conf w' = conf w0"
    using for_programs_keeps [of "start_program sys" "\<lambda>s. conf (snd (snd s))", OF start_program_keeps *] by simp
  then show ?thesis
    using * t by (simp add: startPrograms_def unless_errors_def)
qed

lemma respawn_program_keeps: "\<exists>s'. respawn_program sys p s = Some s' \<and> conf (snd s') = conf (snd s)"
proof -
  obtain n w where s: "s = (n, w)"
    by (cases s)
  let ?w = "snd (act sys (Read_pid (pid_file p)) w)"
  obtain r w' where "startPrograms sys (getIdMask p) ?w = Some (r, w')" "conf w' = conf ?w"
    using startPrograms_keeps by blast
  then show ?thesis
    by (simp add: respawn_program_def s Let_def split_beta)
qed

lemma respawnPrograms_keeps: "\<exists>r w'. respawnPrograms sys progMask w = Some (r, w') \<and> conf w' = conf w"
proof -
  obtain t w0 where t: "time_now sys w = (t, w0)" "conf w0 = conf w"
    by (cases "time_now sys w") (auto simp: time_now_def)
  have step: "\<exists>s'. respawn_program sys p s = Some s'" for p s
    using respawn_program_keeps by blast
  then obtain n w' where *: "for_programs (respawn_program sys) progMask all_programs (0, w0) = Some (n, w')"
    using for_programs_some [of all_programs progMask "respawn_program sys" "(0, w0)"] by auto
  have "conf (snd s') = conf (snd s)" if "respawn_program sys p s = Some s'" for p s s'
    using respawn_program_keeps [of sys p s] that by auto
  from for_programs_keeps [of "respawn_program sys" "\<lambda>s. conf (snd s)", OF this *] have "conf w' = conf w0"
    by simp
  then show ?thesis
    using * t by (simp add: respawnPrograms_def unless_errors_def)
qed

definition notice_ok :: "notice \<Rightarrow> bool" where
  "notice_ok n = (case n of Checked p \<Rightarrow> data_program p | Unchecked p \<Rightarrow> data_program p | _ \<Rightarrow> True)"

lemma notice_ok_simps [simp]:
  "notice_ok (Checked p) = data_program p" "notice_ok (Unchecked p) = data_program p" "notice_ok (Respawn m)" "notice_ok No_notice"
  by (simp_all add: notice_ok_def)

lemma give_notice_keeps:
  assumes "notice_ok n"
  shows "\<exists>r w'. give_notice sys n rawtime w = Some (r, w') \<and> conf w' = conf w
    \<and> (\<forall>p. told n = Some p \<longrightarrow> acts w' = acts w @ signal_acts sys (acts w) p SIGUSR1)"
proof (cases "told n")
  case (Some p)
  then have "data_program p"
    using assms by (cases n) (auto simp: told_def)
  then show ?thesis
    using give_notice_told [OF Some] Some by fastforce
next
  case None
  show ?thesis
  proof (cases n)
    case (Respawn m)
    then show ?thesis
      using respawnPrograms_keeps [of sys m w] by (auto simp: told_def give_notice_def)
  qed (use None in \<open>simp_all add: told_def give_notice_def\<close>)
qed

lemma give_reply_changes:
  assumes "config_inv (env sys) d F (conf w)" "changes_ok (env sys) F (conf w) cs" "notice_ok n"
  shows "\<exists>r w'. give_reply sys (Set_all cs n) w = Some (r, w') \<and> config_inv (env sys) d F (conf w')
    \<and> (\<forall>p. told n = Some p \<longrightarrow> acts w' = acts w @ signal_acts sys (acts w) p SIGUSR1)
    \<and> (\<forall>s e. setting_ok F s \<and> read_setting (env sys) s (conf w) = Some e
         \<longrightarrow> read_setting (env sys) s (conf w') = Some (after_changes put_value (plain_changes cs) s e))"
proof -
  obtain r1 w1 where 1: "apply_changes sys cs (junk sys) w = Some (r1, w1)" "acts w1 = acts w" "config_inv (env sys) d F (conf w1)"
    "\<forall>s e. setting_ok F s \<and> read_setting (env sys) s (conf w) = Some e
       \<longrightarrow> read_setting (env sys) s (conf w1) = Some (after_changes put_value (plain_changes cs) s e)"
    using apply_changes_shown [OF assms(1,2), of "junk sys"] by blast
  obtain r w' where "give_notice sys n r1 w1 = Some (r, w')" "conf w' = conf w1"
    "\<forall>p. told n = Some p \<longrightarrow> acts w' = acts w1 @ signal_acts sys (acts w1) p SIGUSR1"
    using give_notice_keeps [OF assms(3)] by blast
  then show ?thesis
    using 1 by (auto simp: give_reply_def)
qed

section \<open>The notices of the tables\<close>

definition reply_ok :: "reply \<Rightarrow> bool" where
  "reply_ok r = (case r of Set_all cs n \<Rightarrow> notice_ok n | Answer _ \<Rightarrow> True)"

lemma reply_ok_simps [simp]:
  "reply_ok (Set_all cs n) = notice_ok n" "reply_ok (Answer i)" "reply_ok (set_int_to f b k v p) = data_program p"
  "reply_ok (relays keys v)" "reply_ok (adu5_calibration key c)" "reply_ok (pps_decimate c)"
  by (simp_all add: reply_ok_def set_int_to_def relays_def adu5_calibration_def pps_decimate_def Let_def data_program_def split: option.splits)

lemma table_replies_ok:
  "calib_command c = Some r \<Longrightarrow> reply_ok r" "gps_command c = Some r \<Longrightarrow> reply_ok r" "hk_command c = Some r \<Longrightarrow> reply_ok r"
  "acqd_command c = Some r \<Longrightarrow> reply_ok r" "monitord_command c = Some r \<Longrightarrow> reply_ok r" "archived_command c = Some r \<Longrightarrow> reply_ok r"
  "eventd_command c = Some r \<Longrightarrow> reply_ok r"
  by (auto simp: calib_command_def gps_command_def hk_command_def acqd_command_def monitord_command_def archived_command_def
      eventd_command_def data_program_def Let_def split: if_splits)

lemma settings_reply_ok: "settings_reply c = Some r \<Longrightarrow> reply_ok r"
  using table_replies_ok [of c r]
  by (auto simp: settings_reply_def Let_def List.map_filter_simps split: option.splits if_splits)

section \<open>One element of an array\<close>

text \<open>An entry that lists the numbers \<open>js\<close>.\<close>

definition lists :: "kvp_entry \<Rightarrow> int list \<Rightarrow> bool" where
  "lists e js \<longleftrightarrow> valType e = KT_INT \<and> valPtr e = commas (map show_int js) \<and> nelements e = int (length js) \<and> js \<noteq> []
     \<and> (\<forall>i\<in>set js. - (2 ^ 31) \<le> i \<and> i < 2 ^ 31)"

lemma lists_accepts:
  "lists e js \<Longrightarrow> entry_accepts e (Int_values is) \<longleftrightarrow> length is = length js \<and> (\<forall>i\<in>set is. - (2 ^ 31) \<le> i \<and> i < 2 ^ 31)"
  by (auto simp: lists_def entry_accepts_def type_accepts_def number_value_def)

lemma lists_put:
  "lists e js \<Longrightarrow> length is = length js \<Longrightarrow> put_value (Int_values is) e = e\<lparr>valPtr := commas (map show_int is)\<rparr>"
  by (cases e) (auto simp: lists_def)

lemma change_int_listed:
  assumes inv: "config_inv (env sys) d F (conf w)" and s: "setting_ok F s" "read_setting (env sys) s (conf w) = Some e"
    and js: "lists e js" "ints w name = js" "n = length js" and i: "0 \<le> i" "i < int n" "- (2 ^ 31) \<le> v" "v < 2 ^ 31" and no: "notice_ok no"
  shows "\<exists>r w'. change_int sys s name n i v no w = Some (r, w') \<and> config_inv (env sys) d F (conf w')
    \<and> read_setting (env sys) s (conf w') = Some (e\<lparr>valPtr := commas (map show_int (js[nat i := v]))\<rparr>)
    \<and> (\<forall>s' e'. setting_ok F s' \<and> s' \<noteq> s \<and> read_setting (env sys) s' (conf w) = Some e' \<longrightarrow> read_setting (env sys) s' (conf w') = Some e')
    \<and> (\<forall>p. told no = Some p \<longrightarrow> acts w' = acts w @ signal_acts sys (acts w) p SIGUSR1)"
proof -
  let ?js = "js[nat i := v]"
  let ?w = "w\<lparr>ints := (ints w)(name := ?js)\<rparr>"
  have "\<forall>x\<in>set ?js. - (2 ^ 31) \<le> x \<and> x < 2 ^ 31"
    using js(1) i(3,4) set_update_subset_insert [of js "nat i" v] by (auto simp: lists_def)
  then have acc: "entry_accepts e (Int_values ?js)"
    using lists_accepts [OF js(1)] by simp
  obtain st where st: "put_setting (env sys) (Some (clock sys (ticks w))) s (Int_values ?js) (conf w) = Some st" "config_inv (env sys) d F st"
      "read_setting (env sys) s st = Some (put_value (Int_values ?js) e)"
      "\<And>s' e'. setting_ok F s' \<Longrightarrow> s' \<noteq> s \<Longrightarrow> read_setting (env sys) s' (conf w) = Some e' \<Longrightarrow> read_setting (env sys) s' st = Some e'"
    using config.put_get [OF inv s acc, of "Some (clock sys (ticks w))"] by blast
  let ?w1 = "?w\<lparr>ticks := Suc (ticks w), conf := st\<rparr>"
  have m: "modify sys s (Int_values ?js) ?w = Some (clock sys (ticks w), ?w1)"
    using modify_put [of sys ?w s "Int_values ?js" st] st(1) by simp
  obtain r w' where n: "give_notice sys no (clock sys (ticks w)) ?w1 = Some (r, w')" "conf w' = conf ?w1"
    "\<forall>p. told no = Some p \<longrightarrow> acts w' = acts ?w1 @ signal_acts sys (acts ?w1) p SIGUSR1"
    using give_notice_keeps [OF no] by blast
  have "change_int sys s name n i v no w = Some (r, w')"
    using i js m n(1) by (simp add: change_int_def set_int_def write_ints_def)
  then show ?thesis
    using st lists_put [OF js(1), of ?js] n(2,3) by auto
qed

lemma read_section_listed:
  assumes "read_setting (env sys) (f, block, key) (conf w) = Some e" "lists e js" "length (ints w name) = length js" "n = int (length js)"
  shows "\<exists>w'. read_section sys f block (get_globals [Ints key name n]) w = Some w' \<and> ints w' name = js \<and> acts w' = acts w
    \<and> files (conf w') = files (conf w)"
proof -
  obtain st where st: "configLoad (env sys) f block ((conf w)\<lparr>store := kvpReset (store (conf w))\<rparr>) = Some (CONFIG_E_OK, st)"
      "lookup_key key (store st) = Some e" "files st = files (conf w)"
    using read_setting_load [OF assms(1)] by metis
  have load: "load_section sys f block (kvp_reset w) = Some (CONFIG_E_OK, w\<lparr>conf := st\<rparr>)"
    using st(1) by (simp add: load_section_def kvp_reset_def)
  obtain k where "kvpGetIntArray key (ints w name) n (store st) = Some (KVP_E_OK, js @ drop (length js) (ints w name), int (length js), k)"
    using get_int_array_lookup [of key "store st" e js "ints w name" n] st(2) assms(2-4) by (auto simp: lists_def)
  then have "get_ints key name n (w\<lparr>conf := st\<rparr>)
      = Some (w\<lparr>conf := st\<lparr>store := k\<rparr>, ints := (ints w)(name := js)\<rparr>)"
    using assms(3) by (simp add: get_ints_def)
  then show ?thesis
    using load st(3) by (simp add: read_section_def)
qed

section \<open>Properties\<close>


definition example_system :: cmdd_system where
  "example_system = \<lparr>env = example_env, clock = (\<lambda>n. 1000 + int n), outcome = (\<lambda>as. if last as = Read_pid ''/tmp/anita/pid/hkd.pid'' then 77 else 0), junk = 5\<rparr>"

definition example_world :: "config_state \<Rightarrow> cmdd" where
  "example_world st = \<lparr>conf = st, ticks = 0, acts = [], ints = (\<lambda>name. if name = ''cmdLengths'' then replicate 256 2 else replicate 10 0),
     floats = (\<lambda>_. replicate 10 0), usbName = [], ntuName = [], hkDiskBitMask = 1, eventDiskBitMask = 1, numCmdsInConfig = 256, numSources = 1,
     requestCounter = 0, rawtuff_counter = 0, present = [], lastRunNumber = 8, lastEventNumber = 100\<rparr>"

lemma conf_example: "conf (example_world st) = st"
  by (simp add: example_world_def)

definition hk_sections :: "(string \<times> kvp_entry list) list" where
  "hk_sections = [(''hkd'', [\<lparr>keyPtr = ''readoutPeriod'', valPtr = ''5'', valType = KT_INT, nelements = 1\<rparr>,
                            \<lparr>keyPtr = ''telemEvery'', valPtr = ''1'', valType = KT_INT, nelements = 1\<rparr>])]"

lemma hk_fit: "sections_fit hk_sections" "CHR ''/'' \<notin> set ''Hkd.config''"
  by code_simp+

lemmas hk_facts = one_file_facts [OF hk_fit]


text \<open>
  The command for the bandwidth of one priority of LOSd changes that element of the array in the
  configuration file and nothing else: the other nine keep their values, as do all other settings of
  all files, and LOSd is told to read its configuration.
\<close>

theorem bandwidth_command:
  assumes inv: "config_inv (env sys) d F (conf w)" "''LOSd.config'' \<in> F"
    and e: "read_setting (env sys) (''LOSd.config'', ''bandwidth'', ''priorityBandwidths'') (conf w) = Some e" "lists e js"
    and len: "length js = 10" "length (ints w ''losdBandwidths'') = 10"
    and c: "c ! 0 = 196" "c ! 1 = 2" "0 \<le> c ! 2" "c ! 2 \<le> 9" "0 \<le> c ! 3" "c ! 3 \<le> 100" "4 \<le> length c"
  shows "\<exists>r w'. executeCommand sys c w = Some (r, w') \<and> config_inv (env sys) d F (conf w')
    \<and> read_setting (env sys) (''LOSd.config'', ''bandwidth'', ''priorityBandwidths'') (conf w') =
        Some (e\<lparr>valPtr := commas (map show_int (js[nat (c ! 2) := c ! 3]))\<rparr>)
    \<and> (\<forall>s' e'. setting_ok F s' \<and> s' \<noteq> (''LOSd.config'', ''bandwidth'', ''priorityBandwidths'') \<and> read_setting (env sys) s' (conf w) = Some e'
         \<longrightarrow> read_setting (env sys) s' (conf w') = Some e')
    \<and> acts w' = acts w @ signal_acts sys (acts w) ID_LOSD SIGUSR1"
proof -
  let ?s = "(''LOSd.config'', ''bandwidth'', ''priorityBandwidths'')"
  have "good_name ''bandwidth''" "c_trim ''priorityBandwidths'' = ''priorityBandwidths''"
    by code_simp+
  then have s: "setting_ok F ?s"
    using inv(2) by (simp add: setting_ok_def)
  obtain w1 where w1: "readLosdConfig sys w = Some w1" "ints w1 ''losdBandwidths'' = js" "acts w1 = acts w" "files (conf w1) = files (conf w)"
    using read_section_listed [OF e, of "''losdBandwidths''" 10] len by (auto simp: readLosdConfig_def)
  note same = config_same_files [OF inv(1) w1(4)]
  have "read_setting (env sys) ?s (conf w1) = Some e"
    using same(2) [OF s] e(1) by simp
  then obtain r w' where w': "change_int sys ?s ''losdBandwidths'' 10 (c ! 2) (c ! 3) (Unchecked ID_LOSD) w1 = Some (r, w')"
    "config_inv (env sys) d F (conf w')" "read_setting (env sys) ?s (conf w') = Some (e\<lparr>valPtr := commas (map show_int (js[nat (c ! 2) := c ! 3]))\<rparr>)"
    "\<And>s' e'. setting_ok F s' \<Longrightarrow> s' \<noteq> ?s \<Longrightarrow> read_setting (env sys) s' (conf w1) = Some e' \<Longrightarrow> read_setting (env sys) s' (conf w') = Some e'"
    "acts w' = acts w1 @ signal_acts sys (acts w1) ID_LOSD SIGUSR1"
    using change_int_listed [OF same(1) s _ e(2) w1(2), of 10 "c ! 2" "c ! 3" "Unchecked ID_LOSD"] len(1) c
    by (auto simp: told_def data_program_def)
  have "settings_reply c = None" "program_command sys c = None"
    using c(1) by (simp_all add: settings_reply_def List.map_filter_simps calib_command_def gps_command_def hk_command_def acqd_command_def
        monitord_command_def archived_command_def eventd_command_def program_command_def Let_def)
  moreover have "other_command sys c = Some (executeLosdControlCommand sys 2 (drop 2 c))"
    using c(1,2) by (simp add: other_command_def Let_def)
  moreover have "executeLosdControlCommand sys 2 (drop 2 c) w = setLosdPriorityBandwidth sys (c ! 2) (c ! 3) w"
    using c(3-7) by (simp add: executeLosdControlCommand_def Let_def)
  ultimately have "executeCommand sys c w = Some (r, w')"
    using w1(1) w'(1) by (simp add: executeCommand_def setLosdPriorityBandwidth_def)
  then show ?thesis
    using w' w1(3) same(2) by (intro exI [of _ r] exI [of _ w']) auto
qed

definition los_sections :: "(string \<times> kvp_entry list) list" where
  "los_sections = [(''losd'', [\<lparr>keyPtr = ''sendData'', valPtr = ''1'', valType = KT_INT, nelements = 1\<rparr>]),
     (''bandwidth'', [\<lparr>keyPtr = ''priorityBandwidths'', valPtr = ''100,90,80,70,60,50,40,30,20,10'', valType = KT_INT, nelements = 10\<rparr>])]"

lemma los_fit: "sections_fit los_sections" "CHR ''/'' \<notin> set ''LOSd.config''"
  by code_simp+

lemmas los_facts = one_file_facts [OF los_fit]

lemma bandwidth_command_witness:
  "\<exists>r w'. executeCommand example_system (196 # 2 # 3 # 15 # replicate 16 0) (example_world (one_file ''LOSd.config'' los_sections)) = Some (r, w')
    \<and> read_setting example_env (''LOSd.config'', ''bandwidth'', ''priorityBandwidths'') (conf w') =
        Some \<lparr>keyPtr = ''priorityBandwidths'', valPtr = ''100,90,80,15,60,50,40,30,20,10'', valType = KT_INT, nelements = 10\<rparr>"
proof -
  let ?c = "196 # 2 # 3 # 15 # replicate 16 0 :: int list" and ?w = "example_world (one_file ''LOSd.config'' los_sections)"
  let ?js = "[100, 90, 80, 70, 60, 50, 40, 30, 20, 10] :: int list" and ?s = "(''LOSd.config'', ''bandwidth'', ''priorityBandwidths'')"
  let ?e = "\<lparr>keyPtr = ''priorityBandwidths'', valPtr = ''100,90,80,70,60,50,40,30,20,10'', valType = KT_INT, nelements = 10\<rparr>"
  have names: "good_name ''bandwidth''" "c_trim ''priorityBandwidths'' = ''priorityBandwidths''"
    "commas (map show_int ?js) = ''100,90,80,70,60,50,40,30,20,10''"
    "commas (map show_int (?js[3 := 15])) = ''100,90,80,15,60,50,40,30,20,10''"
    by code_simp+
  have e: "env example_system = example_env" and len: "length (ints ?w ''losdBandwidths'') = 10"
    by (simp_all add: example_system_def example_world_def)
  have inv: "config_inv example_env ''/config'' {''LOSd.config''} (conf ?w)"
    unfolding conf_example by (rule los_facts(1))
  have reads: "read_setting example_env ?s (conf ?w) = Some ?e"
    unfolding conf_example los_facts(2) [OF names(1)] names by (simp add: los_sections_def)
  have js: "lists ?e ?js"
    using names(3) by (simp add: lists_def)
  have "\<exists>r w'. executeCommand example_system ?c ?w = Some (r, w')
     \<and> read_setting example_env ?s (conf w') = Some (?e\<lparr>valPtr := commas (map show_int (?js[nat (?c ! 2) := ?c ! 3]))\<rparr>)"
    using bandwidth_command [of example_system "''/config''" "{''LOSd.config''}" ?w ?e ?js ?c, unfolded e, OF inv _ reads js _ len] by auto
  moreover have "?js[nat (?c ! 2) := ?c ! 3] = ?js[3 := 15]"
    by (simp add: numeral_2_eq_2 numeral_3_eq_3)
  ultimately show ?thesis
    using names(4) by simp
qed

end
