(* ===== verification/Cmdd_Loop.thy ===== *)
theory Cmdd_Loop
  imports Cmdd_Settings
begin

text \<open>
  The main loop of Cmdd: which commands are executed and how each is answered.
\<close>

section \<open>Echoes\<close>

text \<open>The echo of a command: the same record in a new file for each of the three telemetry links, and in the archive.\<close>

definition echo_acts :: "string \<Rightarrow> string \<Rightarrow> string \<Rightarrow> payload \<Rightarrow> int \<Rightarrow> action list" where
  "echo_acts f1 f2 f3 e t =
     [Write_file f1 e, Make_link f1 ''/tmp/anita/telem/house/cmdlosd/link'', Write_file f2 e, Make_link f2 ''/tmp/anita/telem/house/cmdsipd/link'',
      Write_file f3 e, Make_link f3 ''/tmp/anita/telem/house/cmdopenportd/link'', Hk_write e (u32 t)]"

lemma echo_acts_written:
  assumes "numCmdBytes c \<le> 20"
  shows "\<exists>f1 f2 f3 w' t. writeCommandEcho sys c unixTime w = Some w' \<and> {f1, f2, f3} \<inter> set (present w) = {}
    \<and> t = (if unixTime = 0 then clock sys (ticks w) else unixTime) \<and> conf w' = conf w \<and> ints w' = ints w
    \<and> acts w' = acts w @ echo_acts f1 f2 f3 (echo_of c t (if unixTime = 0 then 0 else 1)) t"
  using echo_written [OF assms, of sys unixTime w] unfolding echo_acts_def Let_def by blast

definition echo_action :: "action \<Rightarrow> bool" where
  "echo_action a = (case a of Write_file _ (Cmd_echo _ _ _ _ _) \<Rightarrow> True | Make_link _ _ \<Rightarrow> True | Hk_write (Cmd_echo _ _ _ _ _) _ \<Rightarrow> True | _ \<Rightarrow> False)"

lemma echo_acts_facts: "length (echo_acts f1 f2 f3 (echo_of c t g) u) = 7" "list_all echo_action (echo_acts f1 f2 f3 (echo_of c t g) u)"
  by (simp_all add: echo_acts_def echo_of_def echo_action_def)

section \<open>Repeated commands\<close>

lemma run_one_repeat:
  assumes "checkCommand c (world d) = Some True" "numCmdBytes c \<le> 20" "sameCommand c (lastCmd d)"
    and "clock sys (ticks (world d)) \<le> lastCmdTime d + 30"
  shows "\<exists>w' as. run_one sys c d = Some (d\<lparr>world := w'\<rparr>) \<and> conf w' = conf (world d) \<and> ints w' = ints (world d)
    \<and> acts w' = acts (world d) @ as \<and> length as = 7 \<and> list_all echo_action as"
proof -
  obtain w where w: "time_now sys (world d) = (clock sys (ticks (world d)), w)" "conf w = conf (world d)" "ints w = ints (world d)" "acts w = acts (world d)"
    by (simp add: time_now_def)
  obtain f1 f2 f3 w' t where w': "writeCommandEcho sys c (lastCmdTime d) w = Some w'" "conf w' = conf w" "ints w' = ints w"
    "acts w' = acts w @ echo_acts f1 f2 f3 (echo_of c t (if lastCmdTime d = 0 then 0 else 1)) t"
    using echo_acts_written [OF assms(2), of sys "lastCmdTime d" w] by (elim exE conjE)
  have "\<not> int MAX_CMD_LENGTH < numCmdBytes c" "\<not> 30 < clock sys (ticks (world d)) - lastCmdTime d"
    using assms(2,4) by (simp_all add: MAX_CMD_LENGTH_def)
  then have "run_one sys c d = Some (d\<lparr>world := w'\<rparr>)"
    by (simp add: run_one_def assms(1,3) w(1) w'(1))
  then show ?thesis
    using w'(2-4) w(2-4) echo_acts_facts [of f1 f2 f3 c t "if lastCmdTime d = 0 then 0 else 1" t] by metis
qed

lemma repeats_skipped:
  assumes "\<forall>i\<in>set is. i < length (theCmds d) \<and> checkCommand (theCmds d ! i) (world d) = Some True \<and> numCmdBytes (theCmds d ! i) \<le> 20
      \<and> sameCommand (theCmds d ! i) (lastCmd d)" and "\<forall>k. clock sys k \<le> lastCmdTime d + 30"
  shows "\<exists>w' as. run_commands sys is d = Some (d\<lparr>world := w'\<rparr>) \<and> conf w' = conf (world d) \<and> ints w' = ints (world d)
    \<and> acts w' = acts (world d) @ as \<and> length as = 7 * length is \<and> list_all echo_action as"
  using assms
proof (induction "is" arbitrary: d)
  case Nil
  then show ?case
    by (intro exI [of _ "world d"] exI [of _ "[]"]) simp
next
  case (Cons i "is")
  obtain w1 as1 where 1: "run_one sys (theCmds d ! i) d = Some (d\<lparr>world := w1\<rparr>)" "conf w1 = conf (world d)" "ints w1 = ints (world d)"
    "acts w1 = acts (world d) @ as1" "length as1 = 7" "list_all echo_action as1"
    using run_one_repeat [of "theCmds d ! i" d sys] Cons.prems by auto
  have check: "checkCommand c w1 = checkCommand c (world d)" for c
    using 1(3) by (simp add: checkCommand_def Let_def)
  obtain w' as where 2: "run_commands sys is (d\<lparr>world := w1\<rparr>) = Some (d\<lparr>world := w'\<rparr>)" "conf w' = conf w1" "ints w' = ints w1"
    "acts w' = acts w1 @ as" "length as = 7 * length is" "list_all echo_action as"
    using Cons.IH [of "d\<lparr>world := w1\<rparr>"] Cons.prems check by auto
  then show ?case
    using 1 Cons.prems by (intro exI [of _ w'] exI [of _ "as1 @ as"]) simp
qed

section \<open>More commands than slots\<close>

lemma run_one_slots: "run_one sys c d = Some d' \<Longrightarrow> theCmds d' = theCmds d"
  by (auto simp: run_one_def Let_def split: if_splits option.splits prod.splits bind_splits)

lemma run_commands_slots: "run_commands sys is d = Some d' \<Longrightarrow> theCmds d' = theCmds d"
  by (induction "is" arbitrary: d) (auto split: if_splits bind_splits dest: run_one_slots)

lemma run_commands_append:
  "run_commands sys (is @ js) d = (case run_commands sys is d of None \<Rightarrow> None | Some d \<Rightarrow> run_commands sys js d)"
  by (induction "is" arbitrary: d) (auto split: bind_splits option.splits)

text \<open>Reading the files of the links puts the commands into the slots in their order.\<close>

definition removals :: "string \<Rightarrow> action list" where
  "removals n = [Remove_file (CMDD_COMMAND_DIR @ ''/'' @ n), Remove_file (CMDD_COMMAND_LINK_DIR @ ''/'' @ n)]"

definition filled :: "round_input \<Rightarrow> string list \<Rightarrow> nat \<Rightarrow> command list \<Rightarrow> command list" where
  "filled r ns k cs = map (\<lambda>i. if k \<le> i \<and> i < k + length ns then cmdFile r (CMDD_COMMAND_DIR @ ''/'' @ ns ! (i - k)) (cs ! i) else cs ! i) [0..<length cs]"

lemma filled_length [simp]: "length (filled r ns k cs) = length cs"
  by (simp add: filled_def)

lemma filled_Cons:
  "filled r (n # ns) k cs = filled r ns (Suc k) (cs[k := cmdFile r (CMDD_COMMAND_DIR @ ''/'' @ n) (cs ! k)])"
  by (rule nth_equalityI) (auto simp: filled_def nth_list_update nth_Cons' Suc_le_eq)

lemma filled_Nil: "filled r [] k cs = cs"
  by (rule nth_equalityI) (auto simp: filled_def)

lemma read_all:
  "fold (\<lambda>(i, n). read_command sys r i (Some n)) (zip [k..<k + length ns] ns) (cs, w) =
    (filled r ns k cs, w\<lparr>acts := acts w @ concat (map removals ns)\<rparr>)"
proof (induction ns arbitrary: k cs w)
  case (Cons n ns)
  have "[k..<k + length (n # ns)] = k # [Suc k..<Suc k + length ns]"
    using upt_conv_Cons [of k "k + length (n # ns)"] by simp
  then show ?case
    using Cons.IH [of "Suc k"] by (simp add: filled_Cons read_command_def do_act_def act_def removals_def Let_def)
qed (simp add: filled_Nil)

text \<open>A round with events: what it takes from the queue, and what the daemon is then.\<close>

definition round_ok :: "round_input \<Rightarrow> daemon \<Rightarrow> waiting \<Rightarrow> string list \<Rightarrow> bool" where
  "round_ok r d Q ws \<longleftrightarrow> holds (watched d) Q \<and> length (theCmds d) = MAX_COMMANNDS \<and> read_events (eventReads r) \<noteq> []
     \<and> (\<forall>(v, name)\<in>set (read_events (eventReads r)). length name < 99) \<and> arrive (read_events (eventReads r)) Q (wd d) = Some ws"

definition commands_read :: "round_input \<Rightarrow> string list \<Rightarrow> link_watch \<Rightarrow> daemon \<Rightarrow> daemon" where
  "commands_read r ws s d = d\<lparr>theCmds := filled r ws 0 (theCmds d), world := (world d)\<lparr>acts := acts (world d) @ concat (map removals ws)\<rparr>, watched := s\<rparr>"

lemma commands_read_slots [simp]: "length (theCmds (commands_read r ws s d)) = length (theCmds d)"
  by (simp add: commands_read_def)

lemma round_checked:
  assumes "round_ok r d Q ws"
  shows "\<exists>s. checkForNewCommand sys r d = Some (Continue (int (length ws), commands_read r (take MAX_COMMANNDS ws) s d))
    \<and> holds s ((arrive (read_events (eventReads r)) Q)(wd d \<mapsto> drop MAX_COMMANNDS ws))"
proof -
  let ?es = "read_events (eventReads r)" and ?n = "min (length ws) MAX_COMMANNDS"
  have Q: "holds (watched d) Q" and es: "\<forall>(v, name)\<in>set ?es. length name < 99" "?es \<noteq> []" and ws: "arrive ?es Q (wd d) = Some ws"
    using assms by (simp_all add: round_ok_def)
  have "Q (wd d) \<noteq> None"
    using ws arrive_simps(2) [of ?es Q "wd d"] by auto
  then have "wd d \<noteq> 0"
    using Q known_facts by (fastforce simp: holds_def)
  obtain s1 where s1: "checkLinkDirs (linkEnv r) 1 0 (eventReads r) (watched d) = Some (int (length ?es), s1)" "holds s1 (arrive ?es Q)"
    using checkLinkDirs_holds [OF Q _ es(1), of 1 0 "linkEnv r"] by auto
  have num: "getNumLinks (wd d) s1 = int (length ws)"
    by (rule lw.num [OF s1(2) ws])
  have "length [0..<?n] = length (take MAX_COMMANNDS ws)"
    by simp
  then obtain s2 where s2: "each_link getFirstLink (read_command sys r) (wd d) [0..<?n] ((theCmds d, world d), s1)
      = Some (fold (\<lambda>(i, n). read_command sys r i (Some n)) (zip [0..<?n] (take MAX_COMMANNDS ws)) (theCmds d, world d), s2)"
    "holds s2 ((arrive ?es Q)(wd d \<mapsto> drop MAX_COMMANNDS ws))"
    using lw.each_link_takes [OF s1(2), of "wd d" "take MAX_COMMANNDS ws" "drop MAX_COMMANNDS ws"] ws by fastforce
  have "fold (\<lambda>(i, n). read_command sys r i (Some n)) (zip [0..<?n] (take MAX_COMMANNDS ws)) (theCmds d, world d)
      = (theCmds (commands_read r (take MAX_COMMANNDS ws) s2 d), world (commands_read r (take MAX_COMMANNDS ws) s2 d))"
    using read_all [of sys r 0 "take MAX_COMMANNDS ws"] by (simp add: min.commute commands_read_def)
  then have "checkForNewCommand sys r d = Some (Continue (int (length ws), commands_read r (take MAX_COMMANNDS ws) s2 d))"
    using \<open>wd d \<noteq> 0\<close> s1(1) s2(1) num es(2) by (simp add: checkForNewCommand_def commands_read_def)
  then show ?thesis
    using s2(2) by blast
qed

lemma round_step:
  assumes "round_ok r d Q ws"
  shows "\<exists>s. loop_step sys r d = map_option Continue (run_commands sys [0..<length ws] (commands_read r (take MAX_COMMANNDS ws) s d))
    \<and> holds s ((arrive (read_events (eventReads r)) Q)(wd d \<mapsto> drop MAX_COMMANNDS ws))"
proof -
  obtain s where s: "checkForNewCommand sys r d = Some (Continue (int (length ws), commands_read r (take MAX_COMMANNDS ws) s d))"
    "holds s ((arrive (read_events (eventReads r)) Q)(wd d \<mapsto> drop MAX_COMMANNDS ws))"
    using round_checked [OF assms, of sys] by blast
  then show ?thesis
    by (intro exI [of _ s]) (simp add: loop_step_def)
qed

lemma overrun:
  assumes "length (theCmds d) = MAX_COMMANNDS" "MAX_COMMANNDS < n"
  shows "run_commands sys [0..<n] d = None"
proof -
  have "[0..<n] = [0..<MAX_COMMANNDS] @ [MAX_COMMANNDS..<n]"
    using assms(2) upt_add_eq_append [of 0 MAX_COMMANNDS "n - MAX_COMMANNDS"] by simp
  moreover have "[MAX_COMMANNDS..<n] = MAX_COMMANNDS # [Suc MAX_COMMANNDS..<n]"
    using assms(2) by (rule upt_conv_Cons)
  moreover have "run_commands sys (MAX_COMMANNDS # js) d' = None" if "run_commands sys [0..<MAX_COMMANNDS] d = Some d'" for d' js
    using run_commands_slots [OF that] assms(1) by simp
  ultimately show ?thesis
    by (auto simp: run_commands_append split: option.splits)
qed

section \<open>Properties\<close>

text \<open>
  C9. A command that is executed is echoed behind everything its execution did, to three files that
  were not there before and to the archive, with the time it returned, or as an error with the
  current time if it returned 0; it becomes the last command.
\<close>

theorem command_echoed:
  assumes "checkCommand c (world d) = Some True" "numCmdBytes c \<le> 20"
    and "30 < clock sys (ticks (world d)) - lastCmdTime d \<or> \<not> sameCommand c (lastCmd d)"
    and "executeCommand sys (cmd c) (snd (time_now sys (world d))) = Some (r, w)"
  shows "\<exists>f1 f2 f3 w' t. run_one sys c d = Some (d\<lparr>world := w', lastCmd := copyCommand c (lastCmd d), lastCmdTime := r\<rparr>)
    \<and> {f1, f2, f3} \<inter> set (present w) = {} \<and> t = (if r = 0 then clock sys (ticks w) else r) \<and> conf w' = conf w
    \<and> acts w' = acts w @ echo_acts f1 f2 f3 (echo_of c t (if r = 0 then 0 else 1)) t"
proof -
  obtain w0 where w0: "time_now sys (world d) = (clock sys (ticks (world d)), w0)"
    by (simp add: time_now_def)
  obtain f1 f2 f3 w' t where w': "writeCommandEcho sys c r w = Some w'" "{f1, f2, f3} \<inter> set (present w) = {}"
    "t = (if r = 0 then clock sys (ticks w) else r)" "conf w' = conf w"
    "acts w' = acts w @ echo_acts f1 f2 f3 (echo_of c t (if r = 0 then 0 else 1)) t"
    using echo_acts_written [OF assms(2), of sys r w] by (elim exE conjE)
  have "\<not> int MAX_CMD_LENGTH < numCmdBytes c"
    using assms(2) by (simp add: MAX_CMD_LENGTH_def)
  then have "run_one sys c d = Some (d\<lparr>world := w', lastCmd := copyCommand c (lastCmd d), lastCmdTime := r\<rparr>)"
    using assms(3,4) by (simp add: run_one_def assms(1) w0 w'(1))
  then show ?thesis
    using w'(2-5) by blast
qed

definition example_command :: command where
  "example_command = \<lparr>numCmdBytes = 2, cmd = [1, 50] @ replicate 18 0, fromSipd = 1\<rparr>"

definition example_daemon :: daemon where
  "example_daemon = \<lparr>world = example_world (one_file ''Hkd.config'' hk_sections), theCmds = replicate 200 example_command, lastCmd = example_command, lastCmdTime = 990,
     watched = link_watch_start, wd = 0\<rparr>"

lemma command_echoed_witness:
  "\<exists>f1 f2 f3 w'. run_one example_system example_command (example_daemon\<lparr>lastCmdTime := 900\<rparr>) =
      Some (example_daemon\<lparr>lastCmdTime := 1001, world := w'\<rparr>)
    \<and> acts w' = [Write_file ''/tmp/anita/logwatchd/request_0.dat'' (Log_request 50 1 3 0 []),
        Make_link ''/tmp/anita/logwatchd/request_0.dat'' ''/tmp/anita/logwatchd/link''] @ echo_acts f1 f2 f3 (Cmd_echo 1024 1001 1 2 [1, 50]) 1001"
proof -
  let ?d = "example_daemon\<lparr>lastCmdTime := 900\<rparr>" and ?w = "snd (time_now example_system (world example_daemon))"
  let ?f = "''/tmp/anita/logwatchd/request_0.dat''"
  let ?w1 = "?w\<lparr>ticks := 2, requestCounter := 1, present := [?f],
      acts := [Write_file ?f (Log_request 50 1 3 0 []), Make_link ?f ''/tmp/anita/logwatchd/link'']\<rparr>"
  have name: "show_int 0 = ''0''"
    by code_simp
  have none: "settings_reply (cmd example_command) = None"
    by (simp add: example_command_def settings_reply_def List.map_filter_simps calib_command_def gps_command_def hk_command_def acqd_command_def
        monitord_command_def archived_command_def eventd_command_def Let_def)
  have "program_command example_system (cmd example_command) = Some (\<lambda>w. Some (requestJournalCtl example_system 3 0 50 w))"
    by (simp add: program_command_def example_command_def word_at_def JOURNALCTL_NO_OPT_def)
  then have run: "executeCommand example_system (cmd example_command) ?w = Some (1001, ?w1)"
    using none name by (simp add: executeCommand_def requestJournalCtl_def put_request_def time_now_def write_file_def do_act_def act_def
        example_daemon_def example_world_def example_system_def LOGWATCH_DIR_def LOGWATCH_LINK_DIR_def u32_def s32_def Let_def)
  have check: "checkCommand example_command (world ?d) = Some True" "numCmdBytes example_command \<le> 20"
    "30 < clock example_system (ticks (world ?d)) - lastCmdTime ?d"
    by (simp_all add: checkCommand_def example_command_def example_daemon_def example_world_def example_system_def)
  have copy: "copyCommand example_command (lastCmd ?d) = lastCmd example_daemon"
    by (simp add: copyCommand_def example_daemon_def example_command_def)
  have e: "echo_of example_command 1001 1 = Cmd_echo 1024 1001 1 2 [1, 50]"
    by (simp add: echo_of_def example_command_def u32_def numeral_2_eq_2)
  obtain f1 f2 f3 w' where "run_one example_system example_command ?d
      = Some (?d\<lparr>world := w', lastCmd := copyCommand example_command (lastCmd ?d), lastCmdTime := 1001\<rparr>)"
    "acts w' = acts ?w1 @ echo_acts f1 f2 f3 (echo_of example_command 1001 1) 1001"
    using command_echoed [OF check(1,2) disjI1 [OF check(3)], of 1001 ?w1] run by auto
  then show ?thesis
    unfolding copy e by (intro exI [of _ f1] exI [of _ f2] exI [of _ f3] exI [of _ w']) simp
qed



text \<open>
  With more than 200 links in the command directory the main loop goes beyond the array of commands:
  at most 200 commands are read, but all links are counted.
\<close>

theorem too_many_commands:
  assumes "round_ok r d Q ws" "MAX_COMMANNDS < length ws"
  shows "loop_step sys r d = None"
proof -
  obtain s where "loop_step sys r d = map_option Continue (run_commands sys [0..<length ws] (commands_read r (take MAX_COMMANNDS ws) s d))"
    using round_step [OF assms(1), of sys] by blast
  then show ?thesis
    using overrun [of "commands_read r (take MAX_COMMANNDS ws) s d" "length ws" sys] assms by (simp add: round_ok_def)
qed

definition example_round :: "nat \<Rightarrow> round_input" where
  "example_round n = \<lparr>linkEnv = \<lparr>dir_entries = (\<lambda>_. Some []), versionsort = id, fillByte = CHR 0x00\<rparr>, initFd = 3, addWatch = 1,
     eventReads = [Some (replicate n (1, ''cmd_1.dat''))], cmdFile = (\<lambda>_ _. example_command)\<rparr>"

text \<open>The watch of the daemon after its first call.\<close>

definition example_watch :: link_watch where
  "example_watch = snd (the (setupLinkWatchDir (linkEnv (example_round 0)) 3 1 CMDD_COMMAND_LINK_DIR link_watch_start))"

lemma example_watch_holds: "holds example_watch [1 \<mapsto> []]"
proof -
  obtain s' where "setupLinkWatchDir (linkEnv (example_round 0)) 3 1 CMDD_COMMAND_LINK_DIR link_watch_start = Some (1, s')" "holds s' [1 \<mapsto> []]"
    using setupLinkWatchDir_holds [OF holds_start, of 1 3 "linkEnv (example_round 0)" CMDD_COMMAND_LINK_DIR "[]"]
    by (auto simp: getListofLinks_def example_round_def link_watch_start_def MAX_WATCHES_def)
  then show ?thesis
    by (simp add: example_watch_def)
qed

lemma example_round_ok: "0 < n \<Longrightarrow> round_ok (example_round n) (example_daemon\<lparr>watched := example_watch, wd := 1\<rparr>) [1 \<mapsto> []] (replicate n ''cmd_1.dat'')"
  using example_watch_holds
  by (simp add: round_ok_def example_daemon_def MAX_COMMANNDS_def example_round_def read_events_def arrive_def filter_replicate)

lemma too_many_commands_witness: "loop_step example_system (example_round 201) (example_daemon\<lparr>watched := example_watch, wd := 1\<rparr>) = None"
  by (rule too_many_commands [OF example_round_ok]) (simp_all add: MAX_COMMANNDS_def)

text \<open>
  C10. The links that wait and those that new events announce, up to 200, become the commands of a
  round, the oldest first, each read from its file; both files of each are removed, and no link waits afterwards.
\<close>

theorem commands_in_order:
  assumes "round_ok r d Q ws" "length ws \<le> MAX_COMMANNDS"
  shows "\<exists>s d'. loop_step sys r d = map_option Continue (run_commands sys [0..<length ws] d')
    \<and> (\<forall>i<length ws. theCmds d' ! i = cmdFile r (CMDD_COMMAND_DIR @ ''/'' @ ws ! i) (theCmds d ! i))
    \<and> world d' = (world d)\<lparr>acts := acts (world d) @ concat (map removals ws)\<rparr> \<and> lastCmd d' = lastCmd d \<and> lastCmdTime d' = lastCmdTime d
    \<and> watched d' = s \<and> holds s ((arrive (read_events (eventReads r)) Q)(wd d \<mapsto> []))"
proof -
  obtain s where s: "loop_step sys r d = map_option Continue (run_commands sys [0..<length ws] (commands_read r ws s d))"
    "holds s ((arrive (read_events (eventReads r)) Q)(wd d \<mapsto> []))"
    using round_step [OF assms(1), of sys] assms(2) by auto
  have "\<forall>i<length ws. theCmds (commands_read r ws s d) ! i = cmdFile r (CMDD_COMMAND_DIR @ ''/'' @ ws ! i) (theCmds d ! i)"
    using assms by (simp add: commands_read_def filled_def round_ok_def)
  then show ?thesis
    using s by (intro exI [of _ s] exI [of _ "commands_read r ws s d"]) (simp add: commands_read_def)
qed

lemma commands_in_order_witness:
  "\<exists>s d'. loop_step example_system (example_round 2) (example_daemon\<lparr>watched := example_watch, wd := 1\<rparr>)
      = map_option Continue (run_commands example_system [0, 1] d')
    \<and> theCmds d' ! 0 = example_command \<and> theCmds d' ! 1 = example_command \<and> acts (world d') = removals ''cmd_1.dat'' @ removals ''cmd_1.dat''
    \<and> watched d' = s \<and> holds s [1 \<mapsto> []]"
proof -
  let ?d = "example_daemon\<lparr>watched := example_watch, wd := 1\<rparr>" and ?ws = "[''cmd_1.dat'', ''cmd_1.dat'']"
  have ok: "round_ok (example_round 2) ?d [1 \<mapsto> []] ?ws"
    using example_round_ok [of 2] by (simp add: numeral_2_eq_2)
  have two: "[0..<length ?ws] = [0, 1]"
    by (simp add: upt_rec)
  obtain s d' where d': "loop_step example_system (example_round 2) ?d = map_option Continue (run_commands example_system [0..<length ?ws] d')"
    "\<forall>i<length ?ws. theCmds d' ! i = cmdFile (example_round 2) (CMDD_COMMAND_DIR @ ''/'' @ ?ws ! i) (theCmds ?d ! i)"
    "world d' = (world ?d)\<lparr>acts := acts (world ?d) @ concat (map removals ?ws)\<rparr>"
    "watched d' = s" "holds s ((arrive (read_events (eventReads (example_round 2))) [1 \<mapsto> []])(wd ?d \<mapsto> []))"
    using commands_in_order [OF ok, of example_system] by (auto simp: MAX_COMMANNDS_def)
  have "(arrive (read_events (eventReads (example_round 2))) [1 \<mapsto> []])(wd ?d \<mapsto> []) = [1 \<mapsto> []]"
    by (auto simp: arrive_def)
  then show ?thesis
    using d' unfolding two
    by (intro exI [of _ s] exI [of _ d']) (simp add: example_round_def example_daemon_def example_world_def)
qed

end
