(* ===== verification/Event_Header.thy ===== *)
theory Event_Header
  imports Event_Types
begin

text \<open>
  The event header of \<open>anitaStructures.h\<close>, which the programs fill in one after the other, and the
  directories and disks of \<open>anitaFlight.h\<close> through which it goes.
\<close>

record TurfioStruct_t =
  tf_trigType :: int
  tf_l3Type1Count :: int
  tf_trigNum :: int
  tf_trigTime :: int
  tf_ppsNum :: int
  tf_deadTime :: int
  tf_c3poNum :: int
  tf_l3TrigPattern :: int
  tf_l3TrigPatternH :: int
  tf_bufferDepth :: int
  tf_reserved :: "int list"

record AnitaEventHeader_t =
  hd_gHdr :: GenericHeader_t
  hd_unixTime :: int
  hd_unixTimeUs :: int
  hd_gpsSubTime :: int
  hd_turfEventId :: int
  hd_eventNumber :: int
  hd_calibStatus :: int
  hd_priority :: int
  hd_turfUpperWord :: int
  hd_otherFlag :: int
  hd_errorFlag :: int
  hd_surfSlipFlag :: int
  hd_peakThetaBin :: int
  hd_l2TrigMask :: int
  hd_l2TrigMaskH :: int
  hd_phiTrigMask :: int
  hd_phiTrigMaskH :: int
  hd_imagePeak :: int
  hd_coherentSumPeak :: int
  hd_prioritizerStuff :: int
  hd_turfio :: TurfioStruct_t

text \<open>A header with the given time, event number, priority, trigger type, PPS number and trigger time.\<close>

definition example_header_of :: "int \<Rightarrow> int \<Rightarrow> int \<Rightarrow> int \<Rightarrow> int \<Rightarrow> int \<Rightarrow> AnitaEventHeader_t" where
  "example_header_of t n pri trig pps ticks =
     \<lparr>hd_gHdr = \<lparr>gh_code = 0, gh_packetNumber = 0, gh_numBytes = 0, gh_feByte = 0, gh_verId = 0, gh_checksum = 0\<rparr>,
      hd_unixTime = t, hd_unixTimeUs = 0, hd_gpsSubTime = 0, hd_turfEventId = 0, hd_eventNumber = n, hd_calibStatus = 0, hd_priority = pri,
      hd_turfUpperWord = 0, hd_otherFlag = 0, hd_errorFlag = 0, hd_surfSlipFlag = 0, hd_peakThetaBin = 0, hd_l2TrigMask = 0, hd_l2TrigMaskH = 0,
      hd_phiTrigMask = 0, hd_phiTrigMaskH = 0, hd_imagePeak = 0, hd_coherentSumPeak = 0, hd_prioritizerStuff = 0,
      hd_turfio = \<lparr>tf_trigType = trig, tf_l3Type1Count = 0, tf_trigNum = 0, tf_trigTime = ticks, tf_ppsNum = pps, tf_deadTime = 0, tf_c3poNum = 0,
        tf_l3TrigPattern = 0, tf_l3TrigPatternH = 0, tf_bufferDepth = 0, tf_reserved = [0, 0, 0]\<rparr>\<rparr>"

lemma example_header_simps [simp]:
  "hd_unixTime (example_header_of t n pri trig pps ticks) = t" "hd_eventNumber (example_header_of t n pri trig pps ticks) = n"
  "hd_priority (example_header_of t n pri trig pps ticks) = pri" "tf_trigType (hd_turfio (example_header_of t n pri trig pps ticks)) = trig"
  "tf_ppsNum (hd_turfio (example_header_of t n pri trig pps ticks)) = pps" "tf_trigTime (hd_turfio (example_header_of t n pri trig pps ticks)) = ticks"
  by (simp_all add: example_header_of_def)

end
