(* ===== verification/Eventd.thy ===== *)
theory Eventd
  imports Link_Queues Config_Settings Event_Header
begin

text \<open>
  The event builder \<open>src/programs/Eventd/Eventd.c\<close>: for every event header that Acqd links into its
  directory it looks for a GPS time, adds the calibration status, writes the header for Prioritizerd and
  removes the old one. Files, directories and the clock are parameters that may depend on all actions so
  far; \<open>None\<close> is an access outside an array.
\<close>

section \<open>Data\<close>

record GpsSubTime_t =
  gps_unixTime :: int
  gps_subTime :: int
  fromAdu5 :: int

record CalibStruct_t =
  cal_unixTime :: int
  cal_status :: int

definition no_time :: GpsSubTime_t where "no_time = \<lparr>gps_unixTime = 0, gps_subTime = 0, fromAdu5 = 0\<rparr>"

definition MAX_GPS_TIMES :: nat where "MAX_GPS_TIMES = 500"
definition MAX_CALIB_TIMES :: nat where "MAX_CALIB_TIMES = 2000"
definition EVENT_TIMEOUT :: int where "EVENT_TIMEOUT = 5"
definition TIME_MATCH :: real where "TIME_MATCH = 5 / 1000"
definition GPS_CLOCK_TICKS :: int where "GPS_CLOCK_TICKS = 10000000"
definition DEFAULT_C3PO :: int where "DEFAULT_C3PO = 133000000"

definition ACQD_EVENT_DIR :: string where "ACQD_EVENT_DIR = ''/tmp/anita/acqd/event''"
definition ACQD_EVENT_LINK_DIR :: string where "ACQD_EVENT_LINK_DIR = ''/tmp/anita/acqd/event/link''"
definition EVENTD_EVENT_DIR :: string where "EVENTD_EVENT_DIR = ''/tmp/anita/eventd/event''"
definition EVENTD_EVENT_LINK_DIR :: string where "EVENTD_EVENT_LINK_DIR = ''/tmp/anita/eventd/event/link''"
definition CALIBD_STATUS_DIR :: string where "CALIBD_STATUS_DIR = ''/tmp/anita/calibd''"
definition CALIBD_STATUS_LINK_DIR :: string where "CALIBD_STATUS_LINK_DIR = ''/tmp/anita/calibd/link''"
definition GPSD_SUBTIME_DIR :: string where "GPSD_SUBTIME_DIR = ''/tmp/anita/gpsd/ttt''"
definition GPSD_SUBTIME_LINK_DIR :: string where "GPSD_SUBTIME_LINK_DIR = ''/tmp/anita/gpsd/ttt/link''"

datatype ev_action =
  Ev_remove string
| Ev_write string AnitaEventHeader_t
| Ev_link string string
| Ev_sleep nat

text \<open>The global and static variables; \<open>tempNum\<close> is a variable of \<open>main\<close>.\<close>

record eventd =
  ev_conf :: config_state
  ev_watch :: link_watch
  ev_checks :: nat
  ev_ticks :: nat
  ev_acts :: "ev_action list"
  wdEvent :: int
  wdGps :: int
  wdCalib :: int
  tryToMatchGps :: int
  g12Offset :: int
  adu52Offset :: int
  theAcqdEventHeader :: AnitaEventHeader_t
  tempNum :: int
  g12Array :: "GpsSubTime_t list"
  adu51Array :: "GpsSubTime_t list"
  adu52Array :: "GpsSubTime_t list"
  numG12Stored :: int
  numAdu51Stored :: int
  numAdu52Stored :: int
  lastPPSNum :: int
  turfPPSOffset :: int
  eventsThisEpoch :: int
  matchesThisEpoch :: int
  lastEventNumber :: int
  calibArray :: "CalibStruct_t list"
  numStored :: int

text \<open>
  What is outside: the configuration files' environment, the directories, what \<open>inotify\<close> returns, the
  events that the \<open>n\<close>-th call of \<open>checkLinkDirs\<close> reads, the files, and the clock. A GPS time that cannot
  be read in full is \<open>None\<close>.
\<close>

record eventd_system =
  ev_env :: config_env
  ev_dirs :: "ev_action list \<Rightarrow> link_env"
  ev_initFd :: int
  ev_addWatch :: "string \<Rightarrow> int"
  arrivals :: "nat \<Rightarrow> event list option list"
  headerFile :: "ev_action list \<Rightarrow> string \<Rightarrow> AnitaEventHeader_t \<Rightarrow> int \<times> AnitaEventHeader_t"
  gpsFile :: "ev_action list \<Rightarrow> string \<Rightarrow> GpsSubTime_t option"
  calibFile :: "ev_action list \<Rightarrow> string \<Rightarrow> CalibStruct_t \<Rightarrow> CalibStruct_t"
  ev_clock :: "nat \<Rightarrow> int"

definition ev_do :: "ev_action list \<Rightarrow> eventd \<Rightarrow> eventd" where
  "ev_do as s = s\<lparr>ev_acts := ev_acts s @ as\<rparr>"

definition ev_time :: "eventd_system \<Rightarrow> eventd \<Rightarrow> int \<times> eventd" where
  "ev_time sys s = (ev_clock sys (ev_ticks s), s\<lparr>ev_ticks := Suc (ev_ticks s)\<rparr>)"

definition link_text :: "string option \<Rightarrow> string" where
  "link_text n = (case n of None \<Rightarrow> ''(null)'' | Some n \<Rightarrow> n)"

section \<open>The directory watcher\<close>

definition ev_setup :: "eventd_system \<Rightarrow> string \<Rightarrow> eventd \<Rightarrow> (int \<times> eventd) option" where
  "ev_setup sys dir s =
     map_option (\<lambda>(wd, w). (wd, s\<lparr>ev_watch := w\<rparr>))
       (setupLinkWatchDir (ev_dirs sys (ev_acts s)) (ev_initFd sys) (ev_addWatch sys dir) dir (ev_watch s))"

definition ev_check :: "eventd_system \<Rightarrow> int \<Rightarrow> int \<Rightarrow> eventd \<Rightarrow> (int \<times> eventd) option" where
  "ev_check sys timeoutSec timeOutUSec s =
     map_option (\<lambda>(r, w). (r, s\<lparr>ev_watch := w, ev_checks := Suc (ev_checks s)\<rparr>))
       (checkLinkDirs (ev_dirs sys (ev_acts s)) timeoutSec timeOutUSec (arrivals sys (ev_checks s)) (ev_watch s))"

definition ev_first :: "int \<Rightarrow> eventd \<Rightarrow> (string \<times> eventd) option" where
  "ev_first wd s = map_option (\<lambda>(n, w). (link_text n, s\<lparr>ev_watch := w\<rparr>)) (getFirstLink wd (ev_watch s))"

section \<open>GPS times\<close>

definition compareGpsTimes :: "GpsSubTime_t \<Rightarrow> GpsSubTime_t \<Rightarrow> int" where
  "compareGpsTimes gps1 gps2 =
     (if gps_unixTime gps1 < gps_unixTime gps2 then - 1 else if gps_unixTime gps2 < gps_unixTime gps1 then 1
      else if gps_subTime gps1 < gps_subTime gps2 then - 1 else if gps_subTime gps2 < gps_subTime gps1 then 1 else 0)"

text \<open>The offset of a receiver; the comparison with a positive one is between unsigned numbers.\<close>

definition shift_time :: "int \<Rightarrow> GpsSubTime_t \<Rightarrow> GpsSubTime_t" where
  "shift_time offset g =
     (if 0 < offset \<and> offset < gps_subTime g \<or> offset < 0 \<and> gps_subTime g < offset + GPS_CLOCK_TICKS then
        g\<lparr>gps_subTime := u32 (gps_subTime g - offset)\<rparr>
      else if 0 < offset then
        g\<lparr>gps_unixTime := u32 (gps_unixTime g - 1), gps_subTime := u32 (gps_subTime g + (GPS_CLOCK_TICKS - offset))\<rparr>
      else if offset < 0 then
        g\<lparr>gps_unixTime := u32 (gps_unixTime g + 1), gps_subTime := u32 (gps_subTime g - (GPS_CLOCK_TICKS + offset))\<rparr>
      else g)"

definition put_at :: "'a list \<Rightarrow> int \<Rightarrow> 'a \<Rightarrow> 'a list option" where
  "put_at xs i x = (if 0 \<le> i \<and> i < int (length xs) then Some (xs[nat i := x]) else None)"

definition store_time :: "GpsSubTime_t \<Rightarrow> eventd \<Rightarrow> eventd option" where
  "store_time g s =
     (if fromAdu5 g = 0 then
        map_option (\<lambda>a. s\<lparr>g12Array := a, numG12Stored := numG12Stored s + 1\<rparr>) (put_at (g12Array s) (numG12Stored s) (shift_time (g12Offset s) g))
      else if fromAdu5 g = 1 then
        map_option (\<lambda>a. s\<lparr>adu51Array := a, numAdu51Stored := numAdu51Stored s + 1\<rparr>) (put_at (adu51Array s) (numAdu51Stored s) g)
      else if fromAdu5 g = 2 then
        map_option (\<lambda>a. s\<lparr>adu52Array := a, numAdu52Stored := numAdu52Stored s + 1\<rparr>) (put_at (adu52Array s) (numAdu52Stored s) (shift_time (adu52Offset s) g))
      else Some s)"

text \<open>The loops over the links: those that are too many are dropped, the others read.\<close>

fun drop_times :: "nat \<Rightarrow> eventd \<Rightarrow> eventd option" where
  "drop_times 0 s = Some s"
| "drop_times (Suc n) s =
     do {
       (name, s) \<leftarrow> ev_first (wdGps s) s;
       drop_times n (ev_do [Ev_remove (GPSD_SUBTIME_DIR @ ''/'' @ name), Ev_remove (GPSD_SUBTIME_LINK_DIR @ ''/'' @ name)] s)
     }"

fun load_times :: "eventd_system \<Rightarrow> nat \<Rightarrow> eventd \<Rightarrow> eventd option" where
  "load_times sys 0 s = Some s"
| "load_times sys (Suc n) s =
     do {
       (name, s) \<leftarrow> ev_first (wdGps s) s;
       s \<leftarrow> (case gpsFile sys (ev_acts s) (GPSD_SUBTIME_DIR @ ''/'' @ name) of None \<Rightarrow> Some s | Some g \<Rightarrow> store_time g s);
       load_times sys n (ev_do [Ev_remove (GPSD_SUBTIME_DIR @ ''/'' @ name), Ev_remove (GPSD_SUBTIME_LINK_DIR @ ''/'' @ name)] s)
     }"

definition gps_stored :: "eventd \<Rightarrow> int" where
  "gps_stored s = numG12Stored s + numAdu51Stored s + numAdu52Stored s"

definition junk_times :: "eventd \<Rightarrow> eventd" where
  "junk_times s =
     (let none = replicate MAX_GPS_TIMES no_time in
      s\<lparr>numG12Stored := 0, numAdu51Stored := 0, numAdu52Stored := 0, g12Array := none, adu51Array := none, adu52Array := none\<rparr>)"

definition take_times :: "eventd_system \<Rightarrow> eventd \<Rightarrow> eventd option" where
  "take_times sys s =
     (let numGpsTimeLinks = getNumLinks (wdGps s) (ev_watch s); most = int MAX_GPS_TIMES;
          s = (if most < gps_stored s + numGpsTimeLinks then junk_times s else s) in
      do {
        s \<leftarrow> (if most < numGpsTimeLinks then drop_times (nat (numGpsTimeLinks - 50)) s else Some s);
        let loadGpsLinks = (if most < numGpsTimeLinks then 50 else numGpsTimeLinks);
        load_times sys (nat loadGpsLinks) s
      })"

section \<open>Matching\<close>

text \<open>
  A conversion of an integer to \<open>float\<close> rounds to 24 bits, to the nearest and to even. All other
  operations are those of the real numbers.
\<close>

definition float_shift :: "int \<Rightarrow> nat" where
  "float_shift x = length (filter (\<lambda>k. 2 ^ (23 + k) \<le> \<bar>x\<bar>) [1..<41])"

definition float_of :: "int \<Rightarrow> int" where
  "float_of x =
     (let k = float_shift x; q = x div 2 ^ k; r = x mod 2 ^ k in
      if 2 * r < 2 ^ k \<or> 2 * r = 2 ^ k \<and> even q then q * 2 ^ k else (q + 1) * 2 ^ k)"

definition frac_turf :: "AnitaEventHeader_t \<Rightarrow> eventd \<Rightarrow> real" where
  "frac_turf h s =
     real_of_int (float_of (tf_trigTime (hd_turfio h))) / real_of_int (float_of DEFAULT_C3PO)
     + (if turfPPSOffset s \<noteq> 0 then real_of_int (float_of (u32 (turfPPSOffset s + tf_ppsNum (hd_turfio h))) - float_of (hd_unixTime h)) else 0)"

definition frac_gps :: "AnitaEventHeader_t \<Rightarrow> GpsSubTime_t \<Rightarrow> real" where
  "frac_gps h g = real_of_int (float_of (gps_subTime g)) / real_of_int GPS_CLOCK_TICKS
     + real_of_int (float_of (gps_unixTime g) - float_of (hd_unixTime h))"

definition times_match :: "AnitaEventHeader_t \<Rightarrow> GpsSubTime_t \<Rightarrow> eventd \<Rightarrow> bool" where
  "times_match h g s \<longleftrightarrow>
     \<bar>frac_turf h s - frac_gps h g\<bar> < TIME_MATCH
     \<or> turfPPSOffset s = 0 \<and> (\<bar>frac_turf h s + 1 - frac_gps h g\<bar> < TIME_MATCH \<or> \<bar>frac_turf h s - 1 - frac_gps h g\<bar> < TIME_MATCH)"

text \<open>
  The next time of the three receivers, whose times up to \<open>u12\<close>, \<open>u51\<close>, \<open>u52\<close> are taken: the indices are
  those of the code. The last case is not reached while fewer times are taken than stored.
\<close>

definition pick_time :: "eventd \<Rightarrow> int \<times> int \<times> int \<Rightarrow> (GpsSubTime_t \<times> int \<times> int \<times> int) option" where
  "pick_time s = (\<lambda>(u12, u51, u52).
     let use12 = map_option (\<lambda>g. (g, u12 + 1, u51, u52)) (at_index (g12Array s) u12);
         use51 = map_option (\<lambda>g. (g, u12, u51 + 1, u52)) (at_index (adu51Array s) u51);
         use52 = map_option (\<lambda>g. (g, u12, u51, u52 + 1)) (at_index (adu52Array s) u52) in
     if numG12Stored s - u12 \<noteq> 0 then
       if numAdu51Stored s - u51 \<noteq> 0 then
         do {
           g12 \<leftarrow> at_index (g12Array s) u12; g51 \<leftarrow> at_index (adu51Array s) u51;
           let comp1 = compareGpsTimes g12 g51;
           if numAdu52Stored s - u52 \<noteq> 0 then
             do {
               g52 \<leftarrow> at_index (adu52Array s) u52;
               if comp1 \<le> 0 then if compareGpsTimes g12 g52 \<le> 0 then use12 else use52
               else if compareGpsTimes g51 g52 \<le> 0 then use51 else use52
             }
           else if comp1 \<le> 0 then use12 else use51
         }
       else if numAdu52Stored s - u52 \<noteq> 0 then
         do {
           g12 \<leftarrow> at_index (g12Array s) u51; g52 \<leftarrow> at_index (adu52Array s) u52;
           if compareGpsTimes g12 g52 \<le> 0 then use12 else use52
         }
       else use12
     else if numAdu51Stored s - u51 \<noteq> 0 then
       do {
         g51 \<leftarrow> at_index (adu51Array s) u51; g52 \<leftarrow> at_index (adu52Array s) u52;
         if compareGpsTimes g51 g52 \<le> 0 then map_option (\<lambda>g. (g, u12, u51 + 1, u52)) (at_index (g12Array s) u51) else use52
       }
     else if numAdu52Stored s - u52 \<noteq> 0 then use52
     else None)"

text \<open>\<open>bzero\<close> and \<open>memmove\<close>: the first \<open>used\<close> of \<open>num\<close> times are dropped.\<close>

definition drop_first :: "int \<Rightarrow> GpsSubTime_t list \<times> int \<Rightarrow> (GpsSubTime_t list \<times> int) option" where
  "drop_first used = (\<lambda>(a, num).
     if used = 0 then Some (a, num)
     else if used < 0 \<or> int (length a) < max used num then None
     else
       let u = nat used; a = replicate u no_time @ drop u a; num = num - used; n = nat num in
       Some (if 0 < num then take n (drop u a) @ drop n a else a, num))"

definition new_sub_time :: "AnitaEventHeader_t \<Rightarrow> GpsSubTime_t \<Rightarrow> int" where
  "new_sub_time h g =
     (if gps_unixTime g < hd_unixTime h then s32 (s32 (gps_subTime g) - s32 (hd_unixTime h - gps_unixTime g))
      else if hd_unixTime h < gps_unixTime g then s32 (s32 (gps_subTime g) + s32 (gps_unixTime g - hd_unixTime h))
      else s32 (gps_subTime g))"

definition take_match :: "AnitaEventHeader_t \<Rightarrow> GpsSubTime_t \<Rightarrow> int \<times> int \<times> int \<Rightarrow> eventd \<Rightarrow> (AnitaEventHeader_t \<times> eventd) option" where
  "take_match h g = (\<lambda>(u12, u51, u52) s.
     do {
       (a12, n12) \<leftarrow> drop_first u12 (g12Array s, numG12Stored s);
       (a51, n51) \<leftarrow> drop_first u51 (adu51Array s, numAdu51Stored s);
       (a52, n52) \<leftarrow> drop_first u52 (adu52Array s, numAdu52Stored s);
       Some (h\<lparr>hd_gpsSubTime := new_sub_time h g\<rparr>,
         s\<lparr>g12Array := a12, adu51Array := a51, adu52Array := a52, numG12Stored := n12, numAdu51Stored := n51, numAdu52Stored := n52,
           turfPPSOffset := (if turfPPSOffset s = 0 then u32 (gps_unixTime g - tf_ppsNum (hd_turfio h)) else turfPPSOffset s),
           matchesThisEpoch := matchesThisEpoch s + 1\<rparr>)
     })"

fun match_times :: "nat \<Rightarrow> int \<times> int \<times> int \<Rightarrow> AnitaEventHeader_t \<Rightarrow> eventd \<Rightarrow> (int \<times> AnitaEventHeader_t \<times> eventd) option" where
  "match_times 0 u h s = Some (0, h, s)"
| "match_times (Suc n) u h s =
     do {
       (tempGps, u) \<leftarrow> pick_time s u;
       if times_match h tempGps s then map_option (Pair 1) (take_match h tempGps u s) else match_times n u h s
     }"

definition reset_epoch :: "eventd \<Rightarrow> eventd" where
  "reset_epoch s = s\<lparr>turfPPSOffset := 0, eventsThisEpoch := 0, matchesThisEpoch := 0\<rparr>"

definition start_epoch :: "AnitaEventHeader_t \<Rightarrow> eventd \<Rightarrow> eventd" where
  "start_epoch h s =
     (let s = (if tf_ppsNum (hd_turfio h) < lastPPSNum s \<or> tf_ppsNum (hd_turfio h) = 0 then reset_epoch s else s);
          s = (if 10 < eventsThisEpoch s \<and> real_of_int (matchesThisEpoch s) / real_of_int (eventsThisEpoch s) < 1 / 2 then reset_epoch s else s);
          s = (if hd_eventNumber h \<noteq> u32 (lastEventNumber s) then s\<lparr>eventsThisEpoch := eventsThisEpoch s + 1\<rparr> else s)
      in s\<lparr>lastPPSNum := tf_ppsNum (hd_turfio h), lastEventNumber := s32 (hd_eventNumber h)\<rparr>)"

definition fillGpsTime :: "eventd_system \<Rightarrow> AnitaEventHeader_t \<Rightarrow> eventd \<Rightarrow> (int \<times> AnitaEventHeader_t \<times> eventd) option" where
  "fillGpsTime sys h s =
     do {
       s \<leftarrow> (if wdGps s = 0 then map_option (\<lambda>(wd, s). s\<lparr>wdGps := wd\<rparr>) (ev_setup sys GPSD_SUBTIME_LINK_DIR s) else Some s);
       (_, s) \<leftarrow> ev_check sys 0 1 (start_epoch h s);
       s \<leftarrow> take_times sys s;
       match_times (nat (gps_stored s)) (0, 0, 0) h s
     }"

section \<open>The calibration status\<close>

definition stored_calib :: "eventd_system \<Rightarrow> string \<Rightarrow> eventd \<Rightarrow> eventd option" where
  "stored_calib sys path s =
     do {
       old \<leftarrow> at_index (calibArray s) (numStored s);
       a \<leftarrow> put_at (calibArray s) (numStored s) (calibFile sys (ev_acts s) path old);
       Some (s\<lparr>calibArray := a, numStored := numStored s + 1\<rparr>)
     }"

text \<open>The links of the status files: the first is only read when no status is known, the last is kept.\<close>

fun read_calibs :: "eventd_system \<Rightarrow> nat \<Rightarrow> nat list \<Rightarrow> eventd \<Rightarrow> eventd option" where
  "read_calibs sys numCalibLinks [] s = Some s"
| "read_calibs sys numCalibLinks (i # is) s =
     do {
       (name, s) \<leftarrow> ev_first (wdCalib s) s;
       let file = CALIBD_STATUS_LINK_DIR @ ''/'' @ name;
       let other = CALIBD_STATUS_DIR @ ''/'' @ name;
       s \<leftarrow> (if i \<noteq> 0 \<or> numStored s = 0 then stored_calib sys file s else Some s);
       read_calibs sys numCalibLinks is (if Suc i \<noteq> numCalibLinks then ev_do [Ev_remove file, Ev_remove other] s else s)
     }"

text \<open>The loop from the last status down, which goes on after it has found one.\<close>

fun scan_calibs :: "int \<Rightarrow> nat \<Rightarrow> CalibStruct_t list \<times> int \<times> int option \<Rightarrow> (CalibStruct_t list \<times> int \<times> int option) option" where
  "scan_calibs unixTime 0 r = Some r"
| "scan_calibs unixTime (Suc i) (a, n, got) =
     do {
       c \<leftarrow> at_index a (int i);
       if cal_unixTime c < u32 unixTime then
         let n = n - int i; k = nat n in
         if int (length a) < int i + n then None
         else scan_calibs unixTime i (if 0 < n then take k (drop i a) @ drop k a else a, n, Some (s32 (cal_status c)))
       else scan_calibs unixTime i (a, n, got)
     }"

definition getCalibStatus :: "eventd_system \<Rightarrow> int \<Rightarrow> eventd \<Rightarrow> (int \<times> eventd) option option" where
  "getCalibStatus sys unixTime s =
     do {
       (numCalibLinks, s) \<leftarrow>
         (if wdCalib s = 0 then map_option (\<lambda>(wd, s). (if wd \<le> 0 then 0 else getNumLinks wd (ev_watch s), s\<lparr>wdCalib := wd\<rparr>)) (ev_setup sys CALIBD_STATUS_LINK_DIR s)
          else Some (0, s));
       if wdCalib s \<le> 0 then Some None
       else do {
         (retVal, s) \<leftarrow> ev_check sys 0 1 s;
         let numCalibLinks = (if retVal \<noteq> 0 \<or> numCalibLinks \<noteq> 0 then getNumLinks (wdCalib s) (ev_watch s) else numCalibLinks);
         s \<leftarrow> (if 1 < numCalibLinks \<or> 0 < numCalibLinks \<and> numStored s = 0 then read_calibs sys (nat numCalibLinks) [0..<nat numCalibLinks] s else Some s);
         (a, n, got) \<leftarrow> scan_calibs unixTime (nat (numStored s)) (calibArray s, numStored s, None);
         Some (Some (case got of None \<Rightarrow> - 1 | Some status \<Rightarrow> status, s\<lparr>calibArray := a, numStored := n\<rparr>))
       }
     }"

section \<open>The main loop\<close>

text \<open>Every file of the directory of GPS times is removed; a directory that cannot be read leaves a pointer undefined.\<close>

definition clearGpsDir :: "eventd_system \<Rightarrow> eventd \<Rightarrow> eventd option" where
  "clearGpsDir sys s =
     map_option (\<lambda>names. ev_do (concat (map (\<lambda>n. [Ev_remove (GPSD_SUBTIME_LINK_DIR @ ''/'' @ n), Ev_remove (GPSD_SUBTIME_DIR @ ''/'' @ n)]) names)) s)
       (getListofLinks (ev_dirs sys (ev_acts s)) GPSD_SUBTIME_LINK_DIR)"

text \<open>At most 20 tries, one in a second, until the event is \<open>EVENT_TIMEOUT\<close> seconds old.\<close>

fun try_match :: "eventd_system \<Rightarrow> nat \<Rightarrow> AnitaEventHeader_t \<Rightarrow> eventd \<Rightarrow> (int \<times> AnitaEventHeader_t \<times> eventd) option" where
  "try_match sys 0 h s = Some (0, h, s)"
| "try_match sys (Suc n) h s =
     (if tryToMatchGps s = 0 then map_option (\<lambda>s. (0, h, s)) (clearGpsDir sys s)
      else do {
        (filledSubTime, h, s) \<leftarrow> fillGpsTime sys h s;
        if filledSubTime \<noteq> 0 then Some (filledSubTime, h, s)
        else
          let (now, s) = ev_time sys s in
          if EVENT_TIMEOUT \<le> now - hd_unixTime h then Some (0, h, s)
          else
            let (now, s) = ev_time sys (ev_do [Ev_sleep 1] s) in
            if EVENT_TIMEOUT \<le> now - hd_unixTime h then Some (0, h, s) else try_match sys n h s
      })"

definition header_name :: "AnitaEventHeader_t \<Rightarrow> string" where
  "header_name h = ''hd_'' @ show_int (s32 (hd_eventNumber h)) @ ''.dat''"

definition writeHeaderAndMakeLink :: "AnitaEventHeader_t \<Rightarrow> eventd \<Rightarrow> eventd" where
  "writeHeaderAndMakeLink h s =
     (let file = EVENTD_EVENT_DIR @ ''/'' @ header_name h in
      ev_do [Ev_write file h, Ev_link file EVENTD_EVENT_LINK_DIR,
        Ev_remove (ACQD_EVENT_DIR @ ''/'' @ header_name h), Ev_remove (ACQD_EVENT_LINK_DIR @ ''/'' @ header_name h)] s)"

text \<open>\<open>sscanf(tempString,"hd_%u.dat",&tempNum)\<close>\<close>

definition scan_hd :: "string \<Rightarrow> int \<Rightarrow> int" where
  "scan_hd name old =
     (if take 3 name \<noteq> ''hd_'' then old
      else case scan_number 10 (drop 3 name) of None \<Rightarrow> old | Some (neg, v, _) \<Rightarrow> u32 (if neg then - int v else int v))"

definition bad_header :: "string \<Rightarrow> eventd \<Rightarrow> eventd" where
  "bad_header name s =
     (let n = scan_hd name (tempNum s); s = s\<lparr>tempNum := n\<rparr>;
          s = ev_do [Ev_remove (ACQD_EVENT_LINK_DIR @ ''/'' @ name), Ev_remove (ACQD_EVENT_DIR @ ''/'' @ name)] s
      in if 0 < n then ev_do [Ev_remove (ACQD_EVENT_DIR @ ''/ev_'' @ show_uint (nat n) @ ''.dat'')] s else s)"

text \<open>One link of the event directory; \<open>None\<close> inside is the exit when the status directory cannot be watched.\<close>

definition one_event :: "eventd_system \<Rightarrow> string \<Rightarrow> eventd \<Rightarrow> eventd option option" where
  "one_event sys name s =
     (let (retVal, h) = headerFile sys (ev_acts s) (ACQD_EVENT_LINK_DIR @ ''/'' @ name) (theAcqdEventHeader s); s = s\<lparr>theAcqdEventHeader := h\<rparr> in
      if retVal < 0 then Some (Some (bad_header name s))
      else do {
        (filledSubTime, h, s) \<leftarrow> try_match sys 20 h s;
        let h = (if filledSubTime = 0 then h\<lparr>hd_gpsSubTime := - 1\<rparr> else h);
        r \<leftarrow> getCalibStatus sys (s32 (hd_unixTime h)) s;
        case r of
          None \<Rightarrow> Some None
        | Some (status, s) \<Rightarrow>
            let h = h\<lparr>hd_calibStatus := u16 status\<rparr> in
            Some (Some (writeHeaderAndMakeLink h (s\<lparr>theAcqdEventHeader := h\<rparr>)))
      })"

fun each_event :: "eventd_system \<Rightarrow> nat \<Rightarrow> eventd \<Rightarrow> eventd option option" where
  "each_event sys 0 s = Some (Some s)"
| "each_event sys (Suc n) s =
     do {
       (name, s) \<leftarrow> ev_first (wdEvent s) s;
       r \<leftarrow> one_event sys name s;
       case r of None \<Rightarrow> Some None | Some s \<Rightarrow> each_event sys n s
     }"

definition event_round :: "eventd_system \<Rightarrow> eventd \<Rightarrow> eventd option option" where
  "event_round sys s =
     do {
       (_, s) \<leftarrow> ev_check sys 1 0 s;
       each_event sys (nat (getNumLinks (wdEvent s) (ev_watch s))) s
     }"

text \<open>The status of the first load is lost; a setting that is not there has its default.\<close>

definition readConfigFile :: "eventd_system \<Rightarrow> eventd \<Rightarrow> (ConfigErrorCode \<times> eventd) option" where
  "readConfigFile sys s =
     do {
       let c = (ev_conf s)\<lparr>store := kvpReset (store (ev_conf s))\<rparr>;
       (_, c) \<leftarrow> configLoad (ev_env sys) ''Eventd.config'' ''output'' c;
       (e, c) \<leftarrow> configLoad (ev_env sys) ''Eventd.config'' ''eventd'' c;
       if e \<noteq> CONFIG_E_OK then Some (e, s\<lparr>ev_conf := c\<rparr>)
       else
         let (_, k) = kvpGetInt ''printToScreen'' 0 (store c); (_, k) = kvpGetInt ''verbosity'' 0 k; (try, k) = kvpGetInt ''tryToMatchGps'' 1 k;
             (g12, k) = kvpGetInt ''g12Offset'' 0 k; (adu52, k) = kvpGetInt ''adu52Offset'' 0 k in
         Some (e, s\<lparr>ev_conf := c\<lparr>store := k\<rparr>, tryToMatchGps := try, g12Offset := g12, adu52Offset := adu52\<rparr>)
     }"

text \<open>The beginning of \<open>main\<close> (\<open>None\<close> inside is the exit), and the first \<open>n\<close> rounds while the program is in its running state.\<close>

definition watch_events :: "eventd_system \<Rightarrow> eventd \<Rightarrow> eventd option option" where
  "watch_events sys s =
     (if wdEvent s = 0 then map_option (\<lambda>(wd, s). if wd \<le> 0 then None else Some (s\<lparr>wdEvent := wd\<rparr>)) (ev_setup sys ACQD_EVENT_LINK_DIR s)
      else Some (Some s))"

fun event_rounds :: "eventd_system \<Rightarrow> nat \<Rightarrow> eventd \<Rightarrow> eventd option option" where
  "event_rounds sys 0 s = Some (Some s)"
| "event_rounds sys (Suc n) s =
     do {
       r \<leftarrow> event_round sys s;
       case r of None \<Rightarrow> Some None | Some s \<Rightarrow> event_rounds sys n s
     }"

definition eventd_main :: "eventd_system \<Rightarrow> nat \<Rightarrow> eventd \<Rightarrow> eventd option option" where
  "eventd_main sys n s =
     do {
       r \<leftarrow> watch_events sys s;
       case r of None \<Rightarrow> Some None
       | Some s \<Rightarrow> do { (_, s) \<leftarrow> readConfigFile sys s; event_rounds sys n s }
     }"

end
