(* ===== verification/Eventd_Times.thy ===== *)
theory Eventd_Times
  imports Eventd
begin

text \<open>
  How Eventd handles the GPS times: it stays inside its arrays and takes every link, which of the stored
  times it picks, which it matches, and when these are the wrong ones.
\<close>

section \<open>Taking the links of the GPS times\<close>

definition times_ok :: "eventd \<Rightarrow> bool" where
  "times_ok s \<longleftrightarrow> length (g12Array s) = MAX_GPS_TIMES \<and> length (adu51Array s) = MAX_GPS_TIMES \<and> length (adu52Array s) = MAX_GPS_TIMES
     \<and> 0 \<le> numG12Stored s \<and> 0 \<le> numAdu51Stored s \<and> 0 \<le> numAdu52Stored s \<and> gps_stored s \<le> int MAX_GPS_TIMES"

text \<open>What the handling of GPS times leaves alone; of the files it only removes those of GPS times.\<close>

definition for_event :: "ev_action \<Rightarrow> bool" where
  "for_event a = (case a of Ev_remove p \<Rightarrow> take (length GPSD_SUBTIME_DIR) p \<noteq> GPSD_SUBTIME_DIR | Ev_sleep _ \<Rightarrow> False | _ \<Rightarrow> True)"

definition event_acts :: "ev_action list \<Rightarrow> ev_action list" where
  "event_acts = filter for_event"

lemma for_event_gps: "\<not> for_event (Ev_sleep k)" "\<not> for_event (Ev_remove (GPSD_SUBTIME_DIR @ x))" "\<not> for_event (Ev_remove (GPSD_SUBTIME_LINK_DIR @ x))"
  by (simp_all add: for_event_def GPSD_SUBTIME_DIR_def GPSD_SUBTIME_LINK_DIR_def)

abbreviation gps_removed :: "string \<Rightarrow> ev_action list" where
  "gps_removed n \<equiv> [Ev_remove (GPSD_SUBTIME_DIR @ ''/'' @ n), Ev_remove (GPSD_SUBTIME_LINK_DIR @ ''/'' @ n)]"

lemma event_acts_simps [simp]:
  "event_acts [] = []" "event_acts (as @ bs) = event_acts as @ event_acts bs" "event_acts (Ev_sleep k # as) = event_acts as"
  "event_acts (Ev_remove (GPSD_SUBTIME_DIR @ x) # as) = event_acts as" "event_acts (Ev_remove (GPSD_SUBTIME_LINK_DIR @ x) # as) = event_acts as"
  by (simp_all add: event_acts_def for_event_gps)

definition ev_frame :: "eventd \<Rightarrow> eventd \<Rightarrow> bool" where
  "ev_frame s s' \<longleftrightarrow> wdEvent s' = wdEvent s \<and> wdGps s' = wdGps s \<and> wdCalib s' = wdCalib s \<and> calibArray s' = calibArray s
     \<and> numStored s' = numStored s \<and> tryToMatchGps s' = tryToMatchGps s
     \<and> (\<exists>as. ev_acts s' = ev_acts s @ as \<and> event_acts as = [])"

definition g12_only :: "eventd \<Rightarrow> bool" where
  "g12_only s \<longleftrightarrow> numAdu51Stored s = 0 \<and> numAdu52Stored s = 0"

lemma ev_frame_refl [simp]: "ev_frame s s"
  by (simp add: ev_frame_def)

lemma ev_frame_trans: "ev_frame s s' \<Longrightarrow> ev_frame s' s'' \<Longrightarrow> ev_frame s s''"
  unfolding ev_frame_def by (elim exE conjE) simp

lemma ev_frame_do [simp]: "event_acts as = [] \<Longrightarrow> ev_frame s (ev_do as s)" "ev_frame s (s\<lparr>ev_watch := w\<rparr>)"
  by (simp_all add: ev_frame_def ev_do_def)

lemma times_ok_cong: "g12Array s' = g12Array s \<Longrightarrow> adu51Array s' = adu51Array s \<Longrightarrow> adu52Array s' = adu52Array s \<Longrightarrow> numG12Stored s' = numG12Stored s
    \<Longrightarrow> numAdu51Stored s' = numAdu51Stored s \<Longrightarrow> numAdu52Stored s' = numAdu52Stored s \<Longrightarrow> times_ok s' = times_ok s \<and> gps_stored s' = gps_stored s \<and> g12_only s' = g12_only s"
  by (simp add: times_ok_def gps_stored_def g12_only_def)

lemma times_simps [simp]:
  "times_ok (ev_do as s) = times_ok s" "gps_stored (ev_do as s) = gps_stored s" "g12_only (ev_do as s) = g12_only s" "ev_watch (ev_do as s) = ev_watch s" "wdGps (ev_do as s) = wdGps s"
  "times_ok (s\<lparr>ev_watch := w\<rparr>) = times_ok s" "gps_stored (s\<lparr>ev_watch := w\<rparr>) = gps_stored s" "g12_only (s\<lparr>ev_watch := w\<rparr>) = g12_only s"
  by (simp_all add: ev_do_def times_ok_def gps_stored_def g12_only_def)

lemma ev_first_some:
  assumes "holds (ev_watch s) Q" "Q wd = Some (n # ns)"
  shows "\<exists>w. ev_first wd s = Some (n, s\<lparr>ev_watch := w\<rparr>) \<and> holds w (Q(wd \<mapsto> ns))"
  using lw.take_some [OF assms] by (auto simp: ev_first_def link_text_def)

text \<open>What holds of a state however many times are taken in.\<close>

definition kept :: "eventd_system \<Rightarrow> (eventd \<Rightarrow> bool) \<Rightarrow> bool" where
  "kept sys P \<longleftrightarrow> (\<forall>s w n as. P s \<longrightarrow> P (s\<lparr>ev_watch := w\<rparr>) \<and> P (s\<lparr>ev_checks := n\<rparr>) \<and> P (s\<lparr>ev_acts := as\<rparr>) \<and> P (junk_times s))
     \<and> (\<forall>as p g s s'. gpsFile sys as p = Some g \<longrightarrow> store_time g s = Some s' \<longrightarrow> P s \<longrightarrow> P s')"

lemma keptD:
  assumes "kept sys P" "P s"
  shows "P (s\<lparr>ev_watch := w\<rparr>)" "P (s\<lparr>ev_checks := n\<rparr>)" "P (s\<lparr>ev_acts := as\<rparr>)" "P (junk_times s)" "P (ev_do as s)"
    "P (s\<lparr>ev_watch := w, ev_checks := n\<rparr>)" "P (s\<lparr>ev_acts := as, ev_watch := w\<rparr>)"
  using assms unfolding kept_def ev_do_def by blast+

lemma kept_g12: "\<forall>as p g. gpsFile sys as p = Some g \<longrightarrow> fromAdu5 g = 0 \<Longrightarrow> kept sys g12_only"
  by (auto simp: kept_def g12_only_def junk_times_def store_time_def Let_def)

lemma store_time_ok:
  assumes "times_ok s" "gps_stored s < int MAX_GPS_TIMES"
  shows "\<exists>s'. store_time g s = Some s' \<and> times_ok s' \<and> gps_stored s' \<le> gps_stored s + 1 \<and> ev_frame s s' \<and> ev_watch s' = ev_watch s
"
proof -
  have "numG12Stored s < 500" "numAdu51Stored s < 500" "numAdu52Stored s < 500" "0 \<le> numG12Stored s" "0 \<le> numAdu51Stored s" "0 \<le> numAdu52Stored s"
    using assms by (auto simp: times_ok_def gps_stored_def MAX_GPS_TIMES_def)
  then show ?thesis
    using assms by (auto simp: store_time_def put_at_def times_ok_def gps_stored_def MAX_GPS_TIMES_def ev_frame_def g12_only_def)
qed

lemma load_times_ok:
  assumes K: "kept sys P" and "P s" "times_ok s" "gps_stored s + int (length ns) \<le> int MAX_GPS_TIMES" "holds (ev_watch s) Q" "Q (wdGps s) = Some (ns @ rest)"
  shows "\<exists>s'. load_times sys (length ns) s = Some s' \<and> times_ok s' \<and> ev_frame s s' \<and> holds (ev_watch s') (Q(wdGps s \<mapsto> rest))
    \<and> P s'"
  using assms(2-)
proof (induction ns arbitrary: s Q)
  case Nil
  then show ?case
    by (simp add: fun_upd_idem)
next
  case (Cons n ns)
  obtain w where w: "ev_first (wdGps s) s = Some (n, s\<lparr>ev_watch := w\<rparr>)" "holds w (Q(wdGps s \<mapsto> ns @ rest))"
    using ev_first_some [OF Cons.prems(4), of "wdGps s" n "ns @ rest"] Cons.prems(5) by auto
  let ?s = "s\<lparr>ev_watch := w\<rparr>" and ?rm = "gps_removed n"
  let ?file = "gpsFile sys (ev_acts s) (GPSD_SUBTIME_DIR @ ''/'' @ n)"
  obtain s1 where s1: "(case ?file of None \<Rightarrow> Some ?s | Some g \<Rightarrow> store_time g ?s) = Some s1" "times_ok s1" "gps_stored s1 \<le> gps_stored s + 1"
    "ev_frame s s1" "ev_watch s1 = w" "P s1"
  proof (cases ?file)
    case None
    then show ?thesis
      using Cons.prems(2) keptD(1) [OF K Cons.prems(1)] by (intro that [of ?s]) simp_all
  next
    case (Some g)
    have "\<exists>s1. store_time g ?s = Some s1 \<and> times_ok s1 \<and> gps_stored s1 \<le> gps_stored ?s + 1 \<and> ev_frame ?s s1 \<and> ev_watch s1 = ev_watch ?s"
      using Cons.prems(2,3) by (intro store_time_ok) simp_all
    then obtain s1 where "store_time g ?s = Some s1" "times_ok s1" "gps_stored s1 \<le> gps_stored ?s + 1" "ev_frame ?s s1" "ev_watch s1 = ev_watch ?s"
      by (elim exE conjE)
    moreover have "P s1"
      using calculation(1) Some keptD(1) [OF K Cons.prems(1)] K unfolding kept_def by blast
    ultimately show ?thesis
      using Some ev_frame_trans [of s ?s s1] by (intro that [of s1]) auto
  qed
  have wd: "wdGps s1 = wdGps s"
    using s1(4) by (simp add: ev_frame_def)
  let ?s1 = "ev_do ?rm s1"
  have "\<exists>s'. load_times sys (length ns) ?s1 = Some s' \<and> times_ok s' \<and> ev_frame ?s1 s' \<and> holds (ev_watch s') ((Q(wdGps s \<mapsto> ns @ rest))(wdGps ?s1 \<mapsto> rest)) \<and> P s'"
    using s1 w(2) wd Cons.prems(3) keptD(5) [OF K s1(6)] by (intro Cons.IH) (simp_all del: fun_upd_apply add: fun_upd_same)
  then obtain s' where s': "load_times sys (length ns) ?s1 = Some s'" "times_ok s'" "ev_frame ?s1 s'" "holds (ev_watch s') ((Q(wdGps s \<mapsto> ns @ rest))(wdGps ?s1 \<mapsto> rest))" "P s'"
    by (elim exE conjE)
  have "ev_frame s s'"
    using ev_frame_trans [OF s1(4) ev_frame_trans [OF ev_frame_do(1) s'(3)]] by simp
  then show ?case
    using w(1) s1(1) s' wd by (intro exI [of _ s']) (simp del: fun_upd_apply)
qed

lemma drop_times_ok:
  assumes "holds (ev_watch s) Q" "Q (wdGps s) = Some (ns @ rest)"
  shows "\<exists>as w. drop_times (length ns) s = Some (s\<lparr>ev_acts := ev_acts s @ as, ev_watch := w\<rparr>) \<and> event_acts as = [] \<and> holds w (Q(wdGps s \<mapsto> rest))"
  using assms
proof (induction ns arbitrary: s Q)
  case Nil
  then show ?case
    by (intro exI [of _ "[]"] exI [of _ "ev_watch s"]) (simp add: fun_upd_idem)
next
  case (Cons n ns)
  let ?rm = "gps_removed n"
  obtain w where w: "ev_first (wdGps s) s = Some (n, s\<lparr>ev_watch := w\<rparr>)" "holds w (Q(wdGps s \<mapsto> ns @ rest))"
    using ev_first_some [OF Cons.prems(1), of "wdGps s" n "ns @ rest"] Cons.prems(2) by auto
  let ?s = "ev_do ?rm (s\<lparr>ev_watch := w\<rparr>)"
  have "\<exists>as w'. drop_times (length ns) ?s = Some (?s\<lparr>ev_acts := ev_acts ?s @ as, ev_watch := w'\<rparr>) \<and> event_acts as = [] \<and> holds w' ((Q(wdGps s \<mapsto> ns @ rest))(wdGps ?s \<mapsto> rest))"
    using w(2) by (intro Cons.IH) (simp_all add: ev_do_def del: fun_upd_apply add: fun_upd_same)
  then obtain as w' where "drop_times (length ns) ?s = Some (?s\<lparr>ev_acts := ev_acts ?s @ as, ev_watch := w'\<rparr>)" "event_acts as = []" "holds w' (Q(wdGps s \<mapsto> rest))"
    by (auto simp: ev_do_def)
  then show ?case
    using w(1) by (intro exI [of _ "?rm @ as"] exI [of _ w']) (simp add: ev_do_def del: fun_upd_apply)
qed

lemma take_times_ok:
  assumes "times_ok s" "holds (ev_watch s) Q" "Q (wdGps s) = Some ns" and K: "kept sys P" "P s"
  shows "\<exists>s'. take_times sys s = Some s' \<and> times_ok s' \<and> ev_frame s s' \<and> holds (ev_watch s') (Q(wdGps s \<mapsto> []))
    \<and> P s'"
proof -
  have n: "getNumLinks (wdGps s) (ev_watch s) = int (length ns)"
    using lw.num [OF assms(2,3)] .
  define s1 where "s1 = (if int MAX_GPS_TIMES < gps_stored s + int (length ns) then junk_times s else s)"
  have s1: "times_ok s1" "ev_frame s s1" "ev_watch s1 = ev_watch s" "P s1" "gps_stored s1 \<le> int MAX_GPS_TIMES"
    "gps_stored s1 + int (length ns) \<le> int MAX_GPS_TIMES \<or> gps_stored s1 = 0"
    using assms(1) keptD(4) [OF K] K(2) by (simp_all add: s1_def) (auto simp: junk_times_def times_ok_def gps_stored_def ev_frame_def Let_def)
  have wd: "wdGps s1 = wdGps s"
    using s1(2) by (simp add: ev_frame_def)
  show ?thesis
  proof (cases "int MAX_GPS_TIMES < int (length ns)")
    case True
    let ?k = "length ns - 50"
    have ns: "ns = take ?k ns @ drop ?k ns" "length (drop ?k ns) = 50" "length (take ?k ns) = ?k"
      using True by (auto simp: MAX_GPS_TIMES_def)
    have "\<exists>as w. drop_times (length (take ?k ns)) s1 = Some (s1\<lparr>ev_acts := ev_acts s1 @ as, ev_watch := w\<rparr>) \<and> event_acts as = [] \<and> holds w (Q(wdGps s1 \<mapsto> drop ?k ns))"
      using assms(2,3) s1(3) wd ns(1) by (intro drop_times_ok) simp_all
    then obtain as w where w: "drop_times ?k s1 = Some (s1\<lparr>ev_acts := ev_acts s1 @ as, ev_watch := w\<rparr>)" "holds w (Q(wdGps s1 \<mapsto> drop ?k ns))" "event_acts as = []"
      unfolding ns(3) by blast
    let ?s2 = "s1\<lparr>ev_acts := ev_acts s1 @ as, ev_watch := w\<rparr>"
    have z: "gps_stored s1 = 0"
      using s1(6) True assms(1) s1(1) by (auto simp: times_ok_def gps_stored_def)
    have "times_ok ?s2" "gps_stored ?s2 = 0" "wdGps ?s2 = wdGps s1" "ev_frame s1 ?s2" "P ?s2"
      using s1(1) z w(3) keptD(7) [OF K(1) s1(4)] by (simp_all add: times_ok_def gps_stored_def ev_frame_def)
    moreover have "\<exists>s'. load_times sys (length (drop ?k ns)) ?s2 = Some s' \<and> times_ok s' \<and> ev_frame ?s2 s' \<and> holds (ev_watch s') ((Q(wdGps s1 \<mapsto> drop ?k ns))(wdGps ?s2 \<mapsto> [])) \<and> P s'"
      using calculation w(2) ns(2) by (intro load_times_ok [OF K(1)]) (simp_all add: MAX_GPS_TIMES_def)
    ultimately obtain s' where s': "load_times sys 50 ?s2 = Some s'" "times_ok s'" "ev_frame ?s2 s'" "holds (ev_watch s') (Q(wdGps s \<mapsto> []))" "P s'" "ev_frame s1 ?s2"
      using s1(4) wd unfolding ns(2) by auto
    have "nat (int (length ns) - 50) = ?k" "s1 = junk_times s"
      using True assms(1) by (auto simp: s1_def times_ok_def gps_stored_def)
    then have "take_times sys s = Some s'"
      using True n w(1) s'(1) s1_def by (simp add: take_times_def Let_def)
    then show ?thesis
      using s' ev_frame_trans [OF s1(2) ev_frame_trans [OF s'(6,3)]] by blast
  next
    case False
    have "\<exists>s'. load_times sys (length ns) s1 = Some s' \<and> times_ok s' \<and> ev_frame s1 s' \<and> holds (ev_watch s') (Q(wdGps s1 \<mapsto> [])) \<and> P s'"
      using s1 False assms(2,3) wd by (intro load_times_ok [OF K(1)]) auto
    then obtain s' where s': "load_times sys (length ns) s1 = Some s'" "times_ok s'" "ev_frame s1 s'" "holds (ev_watch s') (Q(wdGps s \<mapsto> []))" "P s'"
      using s1(4) wd by auto
    have "take_times sys s = Some s'"
      using False n s'(1) by (simp add: take_times_def Let_def s1_def)
    then show ?thesis
      using s' ev_frame_trans [OF s1(2) s'(3)] by blast
  qed
qed

section \<open>Matching\<close>

definition used_ok :: "eventd \<Rightarrow> int \<times> int \<times> int \<Rightarrow> int \<Rightarrow> bool" where
  "used_ok s u k \<longleftrightarrow> (case u of (u12, u51, u52) \<Rightarrow> 0 \<le> u12 \<and> 0 \<le> u51 \<and> 0 \<le> u52 \<and> u12 + u51 + u52 = k)"

lemma at_index_some: "0 \<le> i \<Longrightarrow> i < int (length xs) \<Longrightarrow> at_index xs i = Some (xs ! nat i)"
  by (simp add: at_index_def)

text \<open>While fewer times are taken than stored, the code finds one and reads inside its arrays.\<close>

lemma pick_time_some:
  assumes "times_ok s" "used_ok s u k" "k < gps_stored s"
  shows "\<exists>g u'. pick_time s u = Some (g, u') \<and> used_ok s u' (k + 1)"
proof -
  obtain u12 u51 u52 where u: "u = (u12, u51, u52)"
    by (cases u) auto
  have r: "0 \<le> u12" "u12 < 500" "0 \<le> u51" "u51 < 500" "0 \<le> u52" "u52 < 500" "u12 + u51 + u52 = k"
    and len: "length (g12Array s) = 500" "length (adu51Array s) = 500" "length (adu52Array s) = 500"
    using assms by (auto simp: used_ok_def u times_ok_def MAX_GPS_TIMES_def)
  have "numG12Stored s - u12 \<noteq> 0 \<or> numAdu51Stored s - u51 \<noteq> 0 \<or> numAdu52Stored s - u52 \<noteq> 0"
    using assms(3) r(7) by (auto simp: gps_stored_def)
  then show ?thesis
    using r len by (auto simp: pick_time_def u at_index_some used_ok_def Let_def)
qed

lemma pick_time_g12:
  assumes "times_ok s" "g12_only s" "0 \<le> u12" "u12 < numG12Stored s"
  shows "pick_time s (u12, 0, 0) = Some (g12Array s ! nat u12, u12 + 1, 0, 0)"
proof -
  have "u12 < int (length (g12Array s))"
    using assms by (auto simp: times_ok_def gps_stored_def g12_only_def)
  then show ?thesis
    using assms by (simp add: pick_time_def g12_only_def at_index_some)
qed

lemma drop_first_ok:
  assumes "0 \<le> used" "used \<le> int MAX_GPS_TIMES" "num \<le> int MAX_GPS_TIMES" "length a = MAX_GPS_TIMES"
  shows "\<exists>a'. drop_first used (a, num) = Some (a', num - used) \<and> length a' = MAX_GPS_TIMES"
  using assms by (auto simp: drop_first_def Let_def)

lemma take_match_ok:
  assumes "times_ok s" "used_ok s (u12, u51, u52) k" "k \<le> int MAX_GPS_TIMES"
  shows "\<exists>s'. take_match h g (u12, u51, u52) s = Some (h\<lparr>hd_gpsSubTime := new_sub_time h g\<rparr>, s') \<and> ev_watch s' = ev_watch s
    \<and> length (g12Array s') = MAX_GPS_TIMES \<and> length (adu51Array s') = MAX_GPS_TIMES \<and> length (adu52Array s') = MAX_GPS_TIMES
    \<and> numG12Stored s' = numG12Stored s - u12 \<and> numAdu51Stored s' = numAdu51Stored s - u51 \<and> numAdu52Stored s' = numAdu52Stored s - u52
    \<and> wdEvent s' = wdEvent s \<and> wdGps s' = wdGps s \<and> wdCalib s' = wdCalib s \<and> calibArray s' = calibArray s \<and> numStored s' = numStored s
    \<and> tryToMatchGps s' = tryToMatchGps s \<and> ev_acts s' = ev_acts s"
proof -
  have u: "0 \<le> u12" "u12 \<le> int MAX_GPS_TIMES" "0 \<le> u51" "u51 \<le> int MAX_GPS_TIMES" "0 \<le> u52" "u52 \<le> int MAX_GPS_TIMES"
    and n: "numG12Stored s \<le> int MAX_GPS_TIMES" "numAdu51Stored s \<le> int MAX_GPS_TIMES" "numAdu52Stored s \<le> int MAX_GPS_TIMES"
    and len: "length (g12Array s) = MAX_GPS_TIMES" "length (adu51Array s) = MAX_GPS_TIMES" "length (adu52Array s) = MAX_GPS_TIMES"
    using assms by (auto simp: times_ok_def gps_stored_def used_ok_def)
  obtain a12 a51 a52 where "drop_first u12 (g12Array s, numG12Stored s) = Some (a12, numG12Stored s - u12)" "length a12 = MAX_GPS_TIMES"
    "drop_first u51 (adu51Array s, numAdu51Stored s) = Some (a51, numAdu51Stored s - u51)" "length a51 = MAX_GPS_TIMES"
    "drop_first u52 (adu52Array s, numAdu52Stored s) = Some (a52, numAdu52Stored s - u52)" "length a52 = MAX_GPS_TIMES"
    using drop_first_ok [OF u(1,2) n(1) len(1)] drop_first_ok [OF u(3,4) n(2) len(2)] drop_first_ok [OF u(5,6) n(3) len(3)] by blast
  then show ?thesis
    by (simp add: take_match_def)
qed

text \<open>After a match the sum of the counts is right, but that of a receiver may be negative.\<close>

definition matched_ok :: "eventd \<Rightarrow> eventd \<Rightarrow> bool" where
  "matched_ok s s' \<longleftrightarrow> length (g12Array s') = MAX_GPS_TIMES \<and> length (adu51Array s') = MAX_GPS_TIMES \<and> length (adu52Array s') = MAX_GPS_TIMES
     \<and> 0 \<le> gps_stored s' \<and> gps_stored s' < gps_stored s \<and> ev_watch s' = ev_watch s \<and> wdEvent s' = wdEvent s \<and> wdGps s' = wdGps s
     \<and> wdCalib s' = wdCalib s \<and> calibArray s' = calibArray s \<and> numStored s' = numStored s \<and> tryToMatchGps s' = tryToMatchGps s \<and> ev_acts s' = ev_acts s"

lemma match_times_some:
  assumes "times_ok s" "used_ok s u k" "k + int n = gps_stored s" "0 \<le> k"
  shows "match_times n u h s = Some (0, h, s)
    \<or> (\<exists>g s'. match_times n u h s = Some (1, h\<lparr>hd_gpsSubTime := new_sub_time h g\<rparr>, s') \<and> times_match h g s \<and> matched_ok s s')"
  using assms(2-)
proof (induction n arbitrary: u k)
  case (Suc n)
  then obtain g u' where u': "pick_time s u = Some (g, u')" "used_ok s u' (k + 1)"
    using pick_time_some [OF assms(1), of u k] by auto
  obtain u12 u51 u52 where v: "u' = (u12, u51, u52)"
    by (cases u') auto
  show ?case
  proof (cases "times_match h g s")
    case True
    have k: "k + 1 \<le> int MAX_GPS_TIMES" "u12 + u51 + u52 = k + 1" "k + 1 \<le> gps_stored s"
      using assms(1) Suc.prems(2) u'(2) by (auto simp: times_ok_def used_ok_def v)
    obtain s' where "take_match h g (u12, u51, u52) s = Some (h\<lparr>hd_gpsSubTime := new_sub_time h g\<rparr>, s')" "matched_ok s s'"
      using take_match_ok [OF assms(1), of u12 u51 u52 "k + 1" h g] u'(2) k Suc.prems(3) by (auto simp: v matched_ok_def gps_stored_def)
    then show ?thesis
      using True u'(1) v by auto
  next
    case False
    then show ?thesis
      using Suc.IH [OF u'(2)] Suc.prems(2,3) u'(1) by auto
  qed
qed simp

lemma match_times_g12:
  assumes "times_ok s" "g12_only s" "0 \<le> u12" "u12 + int n = numG12Stored s"
  shows "match_times n (u12, 0, 0) h s = Some (0, h, s)
    \<or> (\<exists>g s'. match_times n (u12, 0, 0) h s = Some (1, h\<lparr>hd_gpsSubTime := new_sub_time h g\<rparr>, s') \<and> matched_ok s s' \<and> times_ok s' \<and> g12_only s')"
  using assms(3,4)
proof (induction n arbitrary: u12)
  case (Suc n)
  have pick: "pick_time s (u12, 0, 0) = Some (g12Array s ! nat u12, u12 + 1, 0, 0)"
    using Suc.prems by (intro pick_time_g12 [OF assms(1,2)]) auto
  let ?g = "g12Array s ! nat u12"
  show ?case
  proof (cases "times_match h ?g s")
    case True
    have u: "used_ok s (u12 + 1, 0, 0) (u12 + 1)" "u12 + 1 \<le> int MAX_GPS_TIMES"
      using Suc.prems assms(1,2) by (auto simp: used_ok_def times_ok_def gps_stored_def g12_only_def)
    obtain s' where "take_match h ?g (u12 + 1, 0, 0) s = Some (h\<lparr>hd_gpsSubTime := new_sub_time h ?g\<rparr>, s')" "matched_ok s s'" "times_ok s'" "g12_only s'"
      using take_match_ok [OF assms(1) u, of h ?g] Suc.prems assms(1,2) by (auto simp: matched_ok_def times_ok_def gps_stored_def g12_only_def)
    then show ?thesis
      using True pick by auto
  next
    case False
    then show ?thesis
      using Suc.IH [of "u12 + 1"] Suc.prems pick by auto
  qed
qed simp

section \<open>One call\<close>

lemma ev_check_some:
  assumes "holds (ev_watch s) Q" "a \<noteq> 0 \<or> b \<noteq> 0" "\<forall>(wd, name)\<in>set (read_events (arrivals sys (ev_checks s))). length name < 99"
  shows "\<exists>w. ev_check sys a b s = Some (int (length (read_events (arrivals sys (ev_checks s)))), s\<lparr>ev_watch := w, ev_checks := Suc (ev_checks s)\<rparr>)
    \<and> holds w (arrive (read_events (arrivals sys (ev_checks s))) Q)"
  using checkLinkDirs_holds [OF assms, of "ev_dirs sys (ev_acts s)"] by (elim exE conjE) (auto simp: ev_check_def)

lemma times_ok_checked:
  "times_ok (s\<lparr>ev_watch := w, ev_checks := n\<rparr>) = times_ok s" "g12_only (s\<lparr>ev_watch := w, ev_checks := n\<rparr>) = g12_only s" "ev_frame s (s\<lparr>ev_watch := w, ev_checks := n\<rparr>)"
  by (simp_all add: times_ok_def gps_stored_def g12_only_def ev_frame_def)

lemma start_epoch_same:
  "times_ok (start_epoch h s) = times_ok s" "g12_only (start_epoch h s) = g12_only s" "ev_frame s (start_epoch h s)" "ev_watch (start_epoch h s) = ev_watch s"
  "ev_checks (start_epoch h s) = ev_checks s" "wdGps (start_epoch h s) = wdGps s" "gps_stored (start_epoch h s) = gps_stored s"
  by (simp_all add: start_epoch_def reset_epoch_def times_ok_def gps_stored_def g12_only_def ev_frame_def Let_def)

text \<open>The state in which the stored times are compared with the event.\<close>

lemma fill_prepared:
  assumes "times_ok s" "holds (ev_watch s) Q" "Q (wdGps s) = Some ns" "\<forall>(wd, name)\<in>set (read_events (arrivals sys (ev_checks s))). length name < 99"
    and K: "kept sys P" "P (start_epoch h s)"
  shows "\<exists>s1. fillGpsTime sys h s = match_times (nat (gps_stored s1)) (0, 0, 0) h s1 \<and> times_ok s1 \<and> ev_frame s s1
    \<and> holds (ev_watch s1) ((arrive (read_events (arrivals sys (ev_checks s))) Q)(wdGps s \<mapsto> [])) \<and> P s1"
proof -
  let ?es = "read_events (arrivals sys (ev_checks s))" and ?s = "start_epoch h s"
  have wd: "wdGps s \<noteq> 0"
    using assms(2,3) known_facts by (fastforce simp: holds_def)
  obtain w where w: "ev_check sys 0 1 ?s = Some (int (length ?es), ?s\<lparr>ev_watch := w, ev_checks := Suc (ev_checks s)\<rparr>)" "holds w (arrive ?es Q)"
    using ev_check_some [of ?s Q 0 1 sys] assms(2,4) by (auto simp: start_epoch_same)
  let ?s2 = "?s\<lparr>ev_watch := w, ev_checks := Suc (ev_checks s)\<rparr>"
  obtain ns' where ns': "arrive ?es Q (wdGps s) = Some ns'"
    using assms(3) by (auto simp: arrive_def)
  have "\<exists>s1. take_times sys ?s2 = Some s1 \<and> times_ok s1 \<and> ev_frame ?s2 s1 \<and> holds (ev_watch s1) ((arrive ?es Q)(wdGps ?s2 \<mapsto> [])) \<and> P s1"
    using assms(1) w(2) ns' keptD(6) [OF K] by (intro take_times_ok [where ns = ns'] K) (simp_all add: times_ok_checked start_epoch_same)
  then obtain s1 where s1: "take_times sys ?s2 = Some s1" "times_ok s1" "ev_frame ?s2 s1" "holds (ev_watch s1) ((arrive ?es Q)(wdGps s \<mapsto> []))" "P s1"
    by (auto simp: times_ok_checked start_epoch_same)
  have "ev_frame s s1"
    using ev_frame_trans [OF start_epoch_same(3) ev_frame_trans [OF times_ok_checked(3) s1(3)]] .
  moreover have "fillGpsTime sys h s = match_times (nat (gps_stored s1)) (0, 0, 0) h s1"
    using wd w(1) s1(1) by (simp add: fillGpsTime_def)
  ultimately show ?thesis
    using s1 by blast
qed

lemma matched_frame: "matched_ok s s' \<Longrightarrow> ev_frame s s'"
  by (simp add: matched_ok_def ev_frame_def)

lemma fill_some:
  assumes "times_ok s" "holds (ev_watch s) Q" "Q (wdGps s) = Some ns" "\<forall>(wd, name)\<in>set (read_events (arrivals sys (ev_checks s))). length name < 99"
  shows "\<exists>r h' s'. fillGpsTime sys h s = Some (r, h', s') \<and> (r = 0 \<and> h' = h \<and> times_ok s' \<or> r = 1 \<and> (\<exists>g. h' = h\<lparr>hd_gpsSubTime := new_sub_time h g\<rparr>))
    \<and> ev_frame s s' \<and> holds (ev_watch s') ((arrive (read_events (arrivals sys (ev_checks s))) Q)(wdGps s \<mapsto> []))
    \<and> length (g12Array s') = MAX_GPS_TIMES \<and> length (adu51Array s') = MAX_GPS_TIMES \<and> length (adu52Array s') = MAX_GPS_TIMES
    \<and> 0 \<le> gps_stored s' \<and> gps_stored s' \<le> int MAX_GPS_TIMES"
proof -
  obtain s1 where s1: "fillGpsTime sys h s = match_times (nat (gps_stored s1)) (0, 0, 0) h s1" "times_ok s1" "ev_frame s s1"
    "holds (ev_watch s1) ((arrive (read_events (arrivals sys (ev_checks s))) Q)(wdGps s \<mapsto> []))"
    using fill_prepared [OF assms, of "\<lambda>_. True" h] by (auto simp: kept_def)
  have n: "0 \<le> gps_stored s1" "gps_stored s1 \<le> int MAX_GPS_TIMES"
    using s1(2) by (auto simp: times_ok_def gps_stored_def)
  have "match_times (nat (gps_stored s1)) (0, 0, 0) h s1 = Some (0, h, s1)
    \<or> (\<exists>g s'. match_times (nat (gps_stored s1)) (0, 0, 0) h s1 = Some (1, h\<lparr>hd_gpsSubTime := new_sub_time h g\<rparr>, s') \<and> times_match h g s1 \<and> matched_ok s1 s')"
    using n by (intro match_times_some [OF s1(2), where k = 0]) (simp_all add: used_ok_def)
  then show ?thesis
  proof (elim disjE exE conjE)
    assume "match_times (nat (gps_stored s1)) (0, 0, 0) h s1 = Some (0, h, s1)"
    then show ?thesis
      using s1 n by (auto simp: times_ok_def)
  next
    fix g s'
    assume m: "match_times (nat (gps_stored s1)) (0, 0, 0) h s1 = Some (1, h\<lparr>hd_gpsSubTime := new_sub_time h g\<rparr>, s')" "matched_ok s1 s'"
    have "ev_frame s s'"
      using ev_frame_trans [OF s1(3) matched_frame [OF m(2)]] .
    then show ?thesis
      using m s1(1,4) n(2) unfolding matched_ok_def by auto
  qed
qed

lemma fill_g12:
  assumes "times_ok s" "g12_only s" "holds (ev_watch s) Q" "Q (wdGps s) = Some ns" "\<forall>(wd, name)\<in>set (read_events (arrivals sys (ev_checks s))). length name < 99"
    and "\<forall>as p g. gpsFile sys as p = Some g \<longrightarrow> fromAdu5 g = 0"
  shows "\<exists>r t s'. fillGpsTime sys h s = Some (r, h\<lparr>hd_gpsSubTime := t\<rparr>, s') \<and> (r = 0 \<longrightarrow> t = hd_gpsSubTime h)
    \<and> ev_frame s s' \<and> times_ok s' \<and> g12_only s' \<and> holds (ev_watch s') ((arrive (read_events (arrivals sys (ev_checks s))) Q)(wdGps s \<mapsto> []))"
proof -
  obtain s1 where s1: "fillGpsTime sys h s = match_times (nat (gps_stored s1)) (0, 0, 0) h s1" "times_ok s1" "ev_frame s s1" "g12_only s1"
    "holds (ev_watch s1) ((arrive (read_events (arrivals sys (ev_checks s))) Q)(wdGps s \<mapsto> []))"
    using fill_prepared [OF assms(1,3-5) kept_g12 [OF assms(6)], of h] assms(2) by (auto simp: start_epoch_same)
  have n: "0 \<le> numG12Stored s1" "gps_stored s1 = numG12Stored s1"
    using s1(2,4) by (auto simp: times_ok_def gps_stored_def g12_only_def)
  have "match_times (nat (gps_stored s1)) (0, 0, 0) h s1 = Some (0, h, s1)
    \<or> (\<exists>g s'. match_times (nat (gps_stored s1)) (0, 0, 0) h s1 = Some (1, h\<lparr>hd_gpsSubTime := new_sub_time h g\<rparr>, s') \<and> matched_ok s1 s' \<and> times_ok s' \<and> g12_only s')"
    using n by (intro match_times_g12 [OF s1(2,4)]) simp_all
  then show ?thesis
  proof (elim disjE exE conjE)
    assume "match_times (nat (gps_stored s1)) (0, 0, 0) h s1 = Some (0, h, s1)"
    then show ?thesis
      using s1 by (intro exI [of _ 0] exI [of _ "hd_gpsSubTime h"] exI [of _ s1]) simp
  next
    fix g s'
    assume m: "match_times (nat (gps_stored s1)) (0, 0, 0) h s1 = Some (1, h\<lparr>hd_gpsSubTime := new_sub_time h g\<rparr>, s')" "matched_ok s1 s'" "times_ok s'" "g12_only s'"
    have "ev_frame s s'" "ev_watch s' = ev_watch s1"
      using ev_frame_trans [OF s1(3) matched_frame [OF m(2)]] m(2) by (auto simp: matched_ok_def)
    then show ?thesis
      using m(1,3,4) s1(1,5) by (intro exI [of _ 1] exI [of _ "new_sub_time h g"] exI [of _ s']) simp
  qed
qed

section \<open>An example\<close>

text \<open>Eventd with its three directories watched, the links waiting there, and what it may see.\<close>

definition example_header :: "int \<Rightarrow> AnitaEventHeader_t" where
  "example_header n = example_header_of 1400000000 n 0 1 17 13300000"

definition example_eventd :: "link_watch \<Rightarrow> GpsSubTime_t list \<Rightarrow> GpsSubTime_t list \<Rightarrow> CalibStruct_t list \<Rightarrow> eventd" where
  "example_eventd w g12 adu51 cs =
     (let none = replicate MAX_GPS_TIMES no_time in
      \<lparr>ev_conf = \<lparr>files = (\<lambda>_. None), store = kvp_start, inBlock = False\<rparr>, ev_watch = w, ev_checks = 0, ev_ticks = 0, ev_acts = [], wdEvent = 1, wdGps = 2, wdCalib = 3,
       tryToMatchGps = 1, g12Offset = 0, adu52Offset = 0, theAcqdEventHeader = example_header 0, tempNum = 0,
       g12Array = g12 @ drop (length g12) none, adu51Array = adu51 @ drop (length adu51) none, adu52Array = none,
       numG12Stored = int (length g12), numAdu51Stored = int (length adu51), numAdu52Stored = 0, lastPPSNum = 0, turfPPSOffset = 0,
       eventsThisEpoch = 0, matchesThisEpoch = 0, lastEventNumber = 0,
       calibArray = cs @ replicate (MAX_CALIB_TIMES - length cs) \<lparr>cal_unixTime = 0, cal_status = 0\<rparr>, numStored = int (length cs)\<rparr>)"

definition example_world :: "GpsSubTime_t \<Rightarrow> event list option list \<Rightarrow> eventd_system" where
  "example_world g reads =
     \<lparr>ev_env = \<lparr>configDir = None, homeDir = ''/root'', canRead = (\<lambda>_. False), canWrite = (\<lambda>_. False), strayByte = CHR 0x00\<rparr>, ev_dirs = (\<lambda>_. example_links []),
      ev_initFd = 3, ev_addWatch = (\<lambda>_. 4), arrivals = (\<lambda>k. if k = 0 then reads else []), headerFile = (\<lambda>_ _ _. (0, example_header 41)),
      gpsFile = (\<lambda>_ _. Some g), calibFile = (\<lambda>_ _ c. c), ev_clock = int\<rparr>"

lemma example_watch:
  assumes "\<forall>name\<in>set es \<union> set gs. length name < 99"
    and "getListofLinks (example_links es) ''/d'' = Some es" "getListofLinks (example_links gs) ''/d'' = Some gs" "getListofLinks (example_links []) ''/d'' = Some []"
  shows "\<exists>w. holds w [1 \<mapsto> es, 2 \<mapsto> gs, 3 \<mapsto> []]"
proof -
  obtain w1 where w1: "holds w1 [1 \<mapsto> es]" "numWatches w1 = 1"
    using setupLinkWatchDir_holds [OF holds_start, of 1 3 "example_links es" "''/d''" es] assms by (auto simp: link_watch_start_def MAX_WATCHES_def)
  obtain w2 where w2: "holds w2 [1 \<mapsto> es, 2 \<mapsto> gs]" "numWatches w2 = 2"
    using setupLinkWatchDir_holds [OF w1(1), of 2 3 "example_links gs" "''/d''" gs] assms w1(2) by (auto simp: MAX_WATCHES_def)
  then show ?thesis
    using setupLinkWatchDir_holds [OF w2(1), of 3 3 "example_links []" "''/d''" "[]"] assms by (auto simp: MAX_WATCHES_def)
qed

lemma example_links_wait: "\<exists>w. holds w [1 \<mapsto> [''hd_41.dat'', ''hd_42.dat''], 2 \<mapsto> [''gps_1.dat''], 3 \<mapsto> []]"
proof (rule example_watch)
  show "getListofLinks (example_links [''hd_41.dat'', ''hd_42.dat'']) ''/d'' = Some [''hd_41.dat'', ''hd_42.dat'']"
    "getListofLinks (example_links [''gps_1.dat'']) ''/d'' = Some [''gps_1.dat'']" "getListofLinks (example_links []) ''/d'' = Some []"
    by code_simp+
  show "\<forall>name\<in>set [''hd_41.dat'', ''hd_42.dat''] \<union> set [''gps_1.dat'']. length name < 99"
    by simp
qed

lemma example_times_ok:
  "length g12 + length adu51 \<le> MAX_GPS_TIMES \<Longrightarrow> times_ok (example_eventd w g12 adu51 cs)" "g12_only (example_eventd w g12 [] cs)"
  by (simp_all add: example_eventd_def times_ok_def gps_stored_def g12_only_def Let_def)

lemma example_fields [simp]:
  "ev_watch (example_eventd w g12 adu51 cs) = w" "wdGps (example_eventd w g12 adu51 cs) = 2" "ev_checks (example_eventd w g12 adu51 cs) = 0"
  "wdEvent (example_eventd w g12 adu51 cs) = 1" "wdCalib (example_eventd w g12 adu51 cs) = 3" "turfPPSOffset (example_eventd w g12 adu51 cs) = 0"
  "arrivals (example_world g reads) k = (if k = 0 then reads else [])" "gpsFile (example_world g reads) as p = Some g" "headerFile (example_world g reads) as p h = (0, example_header 41)"
  by (simp_all add: example_eventd_def example_world_def Let_def)

section \<open>Property\<close>



end
