(* ===== verification/Eventd_Match.thy ===== *)
theory Eventd_Match
  imports Eventd_Times
begin

text \<open>
  Which of the stored GPS times Eventd takes for an event: with only a G12 the first that matches, with
  only an ADU51 never any; and how precise the comparison is.
\<close>

section \<open>Only a G12\<close>

definition g12_times :: "eventd \<Rightarrow> GpsSubTime_t list" where
  "g12_times s = take (nat (numG12Stored s)) (g12Array s)"

lemma drop_first_rest:
  assumes "0 < used" "used \<le> num" "num \<le> int (length a)" "drop_first used (a, num) = Some (a', num')"
  shows "take (nat num') a' = drop (nat used) (take (nat num) a)"
  using assms by (auto simp: drop_first_def Let_def take_drop nat_diff_distrib' split: if_splits)

lemma take_match_g12:
  assumes "times_ok s" "g12_only s" "0 < u" "u \<le> numG12Stored s"
  shows "\<exists>s'. take_match h g (u, 0, 0) s = Some (h\<lparr>hd_gpsSubTime := new_sub_time h g\<rparr>, s') \<and> g12_times s' = drop (nat u) (g12_times s) \<and> times_ok s' \<and> g12_only s'
    \<and> turfPPSOffset s' = (if turfPPSOffset s = 0 then u32 (gps_unixTime g - tf_ppsNum (hd_turfio h)) else turfPPSOffset s)
    \<and> matchesThisEpoch s' = matchesThisEpoch s + 1"
proof -
  have r: "numG12Stored s \<le> int MAX_GPS_TIMES" "length (g12Array s) = MAX_GPS_TIMES" "numAdu51Stored s = 0" "numAdu52Stored s = 0"
    using assms(1,2) by (auto simp: times_ok_def gps_stored_def g12_only_def)
  obtain a where a: "drop_first u (g12Array s, numG12Stored s) = Some (a, numG12Stored s - u)" "length a = MAX_GPS_TIMES"
    using drop_first_ok [of u "numG12Stored s" "g12Array s"] assms(3,4) r by auto
  have "take (nat (numG12Stored s - u)) a = drop (nat u) (g12_times s)"
    using drop_first_rest [OF assms(3,4) _ a(1)] r(1,2) by (simp add: g12_times_def)
  then show ?thesis
    using a r assms by (simp add: take_match_def drop_first_def g12_times_def times_ok_def gps_stored_def g12_only_def)
qed

lemma match_first:
  assumes "times_ok s" "g12_only s" "0 \<le> u" "u + int n = numG12Stored s"
  shows "case dropWhile (\<lambda>g. \<not> times_match h g s) (drop (nat u) (g12_times s)) of
      [] \<Rightarrow> match_times n (u, 0, 0) h s = Some (0, h, s)
    | g # gs \<Rightarrow> \<exists>s'. match_times n (u, 0, 0) h s = Some (1, h\<lparr>hd_gpsSubTime := new_sub_time h g\<rparr>, s') \<and> g12_times s' = gs 
        \<and> times_ok s' \<and> g12_only s' \<and> matchesThisEpoch s' = matchesThisEpoch s + 1
        \<and> turfPPSOffset s' = (if turfPPSOffset s = 0 then u32 (gps_unixTime g - tf_ppsNum (hd_turfio h)) else turfPPSOffset s)"
  using assms(3,4)
proof (induction n arbitrary: u)
  case 0
  then show ?case
    by (simp add: g12_times_def)
next
  case (Suc n)
  have len: "nat u < length (g12_times s)" "g12_times s ! nat u = g12Array s ! nat u"
    using Suc.prems assms(1) by (auto simp: g12_times_def times_ok_def gps_stored_def)
  have pick: "pick_time s (u, 0, 0) = Some (g12Array s ! nat u, u + 1, 0, 0)"
    using Suc.prems by (intro pick_time_g12 [OF assms(1,2)]) auto
  have next_time: "drop (nat u) (g12_times s) = g12Array s ! nat u # drop (nat (u + 1)) (g12_times s)"
    using Cons_nth_drop_Suc [OF len(1)] len(2) Suc.prems(1) by (simp add: Suc_nat_eq_nat_zadd1 add.commute)
  show ?case
  proof (cases "times_match h (g12Array s ! nat u) s")
    case True
    then show ?thesis
      using take_match_g12 [OF assms(1,2), of "u + 1" h "g12Array s ! nat u"] Suc.prems pick next_time by auto
  next
    case False
    then have step: "match_times (Suc n) (u, 0, 0) h s = match_times n (u + 1, 0, 0) h s"
      using pick by simp
    show ?thesis
      using Suc.IH [of "u + 1"] Suc.prems False unfolding next_time step by simp
  qed
qed

section \<open>Precision\<close>

lemma float_shift_unix:
  assumes "2 ^ 30 \<le> x" "x < 2 ^ 31"
  shows "float_shift x = 7"
proof -
  have "(2 :: int) ^ (23 + k) \<le> \<bar>x\<bar> \<longleftrightarrow> k \<le> 7" for k
  proof
    assume "(2 :: int) ^ (23 + k) \<le> \<bar>x\<bar>"
    then have "(2 :: int) ^ (23 + k) < 2 ^ 31"
      using assms by auto
    then show "k \<le> 7"
      by (simp only: power_strict_increasing_iff)
  next
    assume "k \<le> 7"
    then have "(2 :: int) ^ (23 + k) \<le> 2 ^ 30"
      by (intro power_increasing) auto
    then show "(2 :: int) ^ (23 + k) \<le> \<bar>x\<bar>"
      using assms by auto
  qed
  then have "filter (\<lambda>k. (2 :: int) ^ (23 + k) \<le> \<bar>x\<bar>) [1..<41] = filter (\<lambda>k. k \<le> 7) [1..<41]"
    by simp
  also have "\<dots> = [1, 2, 3, 4, 5, 6, 7]"
    by code_simp
  finally show ?thesis
    by (simp add: float_shift_def)
qed

text \<open>A \<open>float\<close> knows a time of these years to 128 seconds.\<close>

lemma float_unix:
  assumes "2 ^ 30 \<le> x" "x < 2 ^ 31" "128 * k - 64 < x" "x < 128 * k + 64"
  shows "float_of x = 128 * k"
proof -
  have D: "x div 128 = q \<and> x mod 128 = x - 128 * q" if "128 * q \<le> x" "x < 128 * q + 128" for q
    using that div_pos_pos_trivial [of "x - 128 * q" 128] mod_pos_pos_trivial [of "x - 128 * q" 128] div_mult_self4 [of 128 q "x - 128 * q"]
    by (simp add: minus_mult_div_eq_mod [symmetric])
  have "x div 128 = k \<and> x mod 128 < 64 \<or> x div 128 = k - 1 \<and> 64 < x mod 128"
    using assms(3,4) D [of k] D [of "k - 1"] by (cases "128 * k \<le> x") auto
  then show ?thesis
    using float_shift_unix [OF assms(1,2)] by (auto simp: float_of_def Let_def)
qed

section \<open>Only an ADU51\<close>

definition adu51_only :: "eventd \<Rightarrow> bool" where
  "adu51_only s \<longleftrightarrow> numG12Stored s = 0 \<and> numAdu52Stored s = 0 \<and> adu52Array s = replicate MAX_GPS_TIMES no_time \<and> turfPPSOffset s = 0
     \<and> 0 \<le> numAdu51Stored s \<and> (\<forall>g\<in>set (take (nat (numAdu51Stored s)) (adu51Array s)). 0 < gps_unixTime g)"

lemma adu51_only_store:
  assumes "store_time g s = Some s'" "fromAdu5 g = 1" "0 < gps_unixTime g" "adu51_only s"
  shows "adu51_only s'"
proof -
  have "0 \<le> numAdu51Stored s" "nat (numAdu51Stored s) < length (adu51Array s)"
    "s' = s\<lparr>adu51Array := (adu51Array s)[nat (numAdu51Stored s) := g], numAdu51Stored := numAdu51Stored s + 1\<rparr>"
    using assms(1,2) by (auto simp: store_time_def put_at_def split: if_splits)
  moreover have "take (Suc i) (xs[i := g]) = take i xs @ [g]" if "i < length xs" for i xs
    using that by (simp add: take_Suc_conv_app_nth)
  ultimately show ?thesis
    using assms(3,4) by (auto simp: adu51_only_def nat_add_distrib)
qed

lemma kept_adu51:
  assumes "\<forall>as p g. gpsFile sys as p = Some g \<longrightarrow> fromAdu5 g = 1 \<and> 0 < gps_unixTime g"
  shows "kept sys adu51_only"
  using assms adu51_only_store by (fastforce simp: kept_def adu51_only_def junk_times_def Let_def)

lemma float_of_nonneg: "0 \<le> x \<Longrightarrow> 0 \<le> float_of x"
  by (simp add: float_of_def Let_def pos_imp_zdiv_nonneg_iff)

lemma no_time_no_match:
  assumes "turfPPSOffset s = 0" "2 ^ 30 \<le> hd_unixTime h" "hd_unixTime h < 2 ^ 31" "0 \<le> tf_trigTime (hd_turfio h)"
  shows "\<not> times_match h no_time s"
proof -
  have "float_of 0 = 0" "0 < float_of DEFAULT_C3PO"
    by code_simp+
  then obtain t where t: "frac_turf h s = t" "0 \<le> t" "frac_gps h no_time = - real_of_int (float_of (hd_unixTime h))"
    using assms(1,4) float_of_nonneg by (simp_all add: frac_turf_def frac_gps_def no_time_def)
  have "2 ^ 30 div 2 ^ 7 \<le> hd_unixTime h div 2 ^ 7"
    using assms(2) by (intro zdiv_mono1) auto
  then have "2 \<le> float_of (hd_unixTime h)"
    using float_shift_unix [OF assms(2,3)] by (simp add: float_of_def Let_def)
  then have "2 \<le> real_of_int (float_of (hd_unixTime h))"
    by linarith
  then show ?thesis
    using t assms(1) by (auto simp: times_match_def TIME_MATCH_def)
qed

lemma match_adu51:
  assumes "times_ok s" "adu51_only s" "2 ^ 30 \<le> hd_unixTime h" "hd_unixTime h < 2 ^ 31" "0 \<le> tf_trigTime (hd_turfio h)"
    and "0 \<le> u" "u + int n = numAdu51Stored s"
  shows "match_times n (0, 0, u) h s = Some (0, h, s)"
  using assms(6,7)
proof (induction n arbitrary: u)
  case (Suc n)
  have r: "numAdu51Stored s \<le> 500" "length (adu51Array s) = 500" "numG12Stored s = 0"
    using assms(1,2) by (auto simp: times_ok_def gps_stored_def MAX_GPS_TIMES_def adu51_only_def)
  have u: "nat u < 500" "0 < numAdu51Stored s" "0 \<le> u" "u < 500"
    using Suc.prems r(1) by auto
  have "adu51Array s ! 0 \<in> set (take (nat (numAdu51Stored s)) (adu51Array s))"
    using u(2) r by (auto simp: in_set_conv_nth intro!: exI [of _ 0])
  then have "0 < gps_unixTime (adu51Array s ! 0)"
    using assms(2) by (simp add: adu51_only_def)
  then have "compareGpsTimes (adu51Array s ! 0) no_time = 1"
    by (simp add: compareGpsTimes_def no_time_def)
  then have "pick_time s (0, 0, u) = Some (no_time, 0, 0, u + 1)"
    using u r assms(2) by (simp add: pick_time_def adu51_only_def at_index_some MAX_GPS_TIMES_def Let_def)
  moreover have "\<not> times_match h no_time s"
    using assms(2-5) by (intro no_time_no_match) (simp_all add: adu51_only_def)
  ultimately show ?case
    using Suc.IH [of "u + 1"] Suc.prems by simp
qed simp

section \<open>Properties\<close>

definition g12_time :: "int \<Rightarrow> int \<Rightarrow> GpsSubTime_t" where
  "g12_time t sub = \<lparr>gps_unixTime = t, gps_subTime = sub, fromAdu5 = 0\<rparr>"

text \<open>The example event is a tenth of a second after its PPS.\<close>

lemma example_match:
  "times_match (example_header n) (g12_time 1400000000 5000000) (example_eventd w g12 adu51 cs) = False"
  "times_match (example_header n) (g12_time 1400000000 1000000) (example_eventd w g12 adu51 cs) = True"
proof -
  have "float_of 13300000 = 13300000" "float_of DEFAULT_C3PO = 133000000" "float_of 5000000 = 5000000" "float_of 1000000 = 1000000"
    by code_simp+
  then show "times_match (example_header n) (g12_time 1400000000 5000000) (example_eventd w g12 adu51 cs) = False"
    "times_match (example_header n) (g12_time 1400000000 1000000) (example_eventd w g12 adu51 cs) = True"
    by (simp_all add: times_match_def frac_turf_def frac_gps_def g12_time_def example_header_def TIME_MATCH_def GPS_CLOCK_TICKS_def)
qed

text \<open>
  C15. While only the G12 delivers times, the time of an event is the first of the stored ones that
  matches; it and all before it are given up, the later ones stay in their order, and the first match of
  an epoch fixes the offset of the PPS number. When none matches, nothing changes.
\<close>

theorem g12_first_match:
  assumes "times_ok s" "g12_only s"
  shows "case dropWhile (\<lambda>g. \<not> times_match h g s) (g12_times s) of
      [] \<Rightarrow> match_times (nat (gps_stored s)) (0, 0, 0) h s = Some (0, h, s)
    | g # gs \<Rightarrow> \<exists>s'. match_times (nat (gps_stored s)) (0, 0, 0) h s = Some (1, h\<lparr>hd_gpsSubTime := new_sub_time h g\<rparr>, s') \<and> g12_times s' = gs
        \<and> times_ok s' \<and> g12_only s' \<and> matchesThisEpoch s' = matchesThisEpoch s + 1
        \<and> turfPPSOffset s' = (if turfPPSOffset s = 0 then u32 (gps_unixTime g - tf_ppsNum (hd_turfio h)) else turfPPSOffset s)"
proof -
  have "0 \<le> numG12Stored s" "gps_stored s = numG12Stored s"
    using assms by (auto simp: times_ok_def gps_stored_def g12_only_def)
  then show ?thesis
    using match_first [OF assms, of 0 "nat (gps_stored s)" h] by simp
qed

lemma g12_first_match_witness:
  "\<exists>s'. match_times 3 (0, 0, 0) (example_header 41) (example_eventd link_watch_start [g12_time 1400000000 5000000, g12_time 1400000000 1000000, g12_time 1400000000 1000001] [] [])
      = Some (1, (example_header 41)\<lparr>hd_gpsSubTime := 1000000\<rparr>, s') \<and> g12_times s' = [g12_time 1400000000 1000001]"
proof -
  let ?s = "example_eventd link_watch_start [g12_time 1400000000 5000000, g12_time 1400000000 1000000, g12_time 1400000000 1000001] [] []"
  have s: "times_ok ?s" "g12_only ?s"
    by (simp_all add: example_times_ok MAX_GPS_TIMES_def)
  have "g12_times ?s = [g12_time 1400000000 5000000, g12_time 1400000000 1000000, g12_time 1400000000 1000001]" "gps_stored ?s = 3"
    by (simp_all add: g12_times_def gps_stored_def example_eventd_def Let_def)
  moreover have "new_sub_time (example_header 41) (g12_time 1400000000 1000000) = 1000000"
    by code_simp
  ultimately show ?thesis
    using g12_first_match [OF s, of "example_header 41"] by (auto simp: example_match)
qed

text \<open>
  An error: seconds since 1970 are subtracted as \<open>float\<close>s, which know them to 128 seconds. While no
  PPS offset is known, the seconds of a GPS time that is up to two minutes away have no influence on
  whether it matches: only its fraction of a second counts.
\<close>

theorem seconds_ignored:
  assumes "turfPPSOffset s = 0" "2 ^ 30 \<le> 128 * k - 64" "128 * k + 64 \<le> 2 ^ 31"
    and "128 * k - 64 < hd_unixTime h" "hd_unixTime h < 128 * k + 64" "128 * k - 64 < gps_unixTime g" "gps_unixTime g < 128 * k + 64"
  shows "times_match h g s \<longleftrightarrow> times_match h (g\<lparr>gps_unixTime := hd_unixTime h\<rparr>) s"
proof -
  have "float_of (hd_unixTime h) = 128 * k"
    using assms(2-5) by (intro float_unix) simp_all
  moreover have "float_of (gps_unixTime g) = 128 * k"
    using assms(2,3,6,7) by (intro float_unix) simp_all
  ultimately show ?thesis
    using assms(1) by (simp add: times_match_def frac_gps_def frac_turf_def)
qed

text \<open>A time a minute later is taken, and the minute is added as 60 ticks of 100 ns.\<close>

lemma seconds_ignored_witness:
  "times_match (example_header 41) (g12_time 1400000060 1000000) (example_eventd link_watch_start [] [] [])
    \<and> new_sub_time (example_header 41) (g12_time 1400000060 1000000) = 1000060"
proof
  have "times_match (example_header 41) (g12_time 1400000060 1000000) (example_eventd link_watch_start [] [] [])
      \<longleftrightarrow> times_match (example_header 41) ((g12_time 1400000060 1000000)\<lparr>gps_unixTime := hd_unixTime (example_header 41)\<rparr>) (example_eventd link_watch_start [] [] [])"
    by (rule seconds_ignored [where k = 10937500]) (simp_all add: example_header_def g12_time_def)
  also have "(g12_time 1400000060 1000000)\<lparr>gps_unixTime := hd_unixTime (example_header 41)\<rparr> = g12_time 1400000000 1000000"
    by (simp add: example_header_def g12_time_def)
  finally show "times_match (example_header 41) (g12_time 1400000060 1000000) (example_eventd link_watch_start [] [] [])"
    by (simp add: example_match)
  show "new_sub_time (example_header 41) (g12_time 1400000060 1000000) = 1000060"
    by code_simp
qed

text \<open>
  C17. An error: while only an ADU51 delivers times, no event ever gets one. The next time is looked for
  among those of the ADU52, of which there are none: every candidate is a cleared one, and the stored
  times stay until there are too many.
\<close>

theorem adu51_alone:
  assumes "times_ok s" "adu51_only s" "holds (ev_watch s) Q" "Q (wdGps s) = Some ns"
    and "\<forall>(wd, name)\<in>set (read_events (arrivals sys (ev_checks s))). length name < 99"
    and "\<forall>as p g. gpsFile sys as p = Some g \<longrightarrow> fromAdu5 g = 1 \<and> 0 < gps_unixTime g"
    and "2 ^ 30 \<le> hd_unixTime h" "hd_unixTime h < 2 ^ 31" "0 \<le> tf_trigTime (hd_turfio h)"
  shows "\<exists>s'. fillGpsTime sys h s = Some (0, h, s') \<and> times_ok s' \<and> adu51_only s'"
proof -
  have e: "adu51_only (start_epoch h s)"
    using assms(2) by (auto simp: adu51_only_def start_epoch_def reset_epoch_def Let_def)
  obtain s1 where s1: "fillGpsTime sys h s = match_times (nat (gps_stored s1)) (0, 0, 0) h s1" "times_ok s1" "adu51_only s1"
    using fill_prepared [OF assms(1,3-5) kept_adu51 [OF assms(6)] e] by blast
  have "match_times (nat (gps_stored s1)) (0, 0, 0) h s1 = Some (0, h, s1)"
    using s1(2,3) by (intro match_adu51 [OF s1(2,3) assms(7-9)]) (auto simp: times_ok_def gps_stored_def adu51_only_def)
  then show ?thesis
    using s1 by simp
qed

lemma adu51_alone_witness:
  "\<exists>w s'. fillGpsTime (example_world \<lparr>gps_unixTime = 1400000000, gps_subTime = 1000000, fromAdu5 = 1\<rparr> []) (example_header 41)
      (example_eventd w [] [\<lparr>gps_unixTime = 1400000000, gps_subTime = 1000000, fromAdu5 = 1\<rparr>] []) = Some (0, example_header 41, s')
    \<and> times_match (example_header 41) (g12_time 1400000000 1000000) (example_eventd w [] [] [])"
proof -
  obtain w where w: "holds w [1 \<mapsto> [''hd_41.dat'', ''hd_42.dat''], 2 \<mapsto> [''gps_1.dat''], 3 \<mapsto> []]"
    using example_links_wait by blast
  let ?g = "\<lparr>gps_unixTime = 1400000000, gps_subTime = 1000000, fromAdu5 = 1\<rparr>"
  let ?sys = "example_world ?g []" and ?s = "example_eventd w [] [?g] []"
  have s: "times_ok ?s" "adu51_only ?s"
    by (simp_all add: example_times_ok MAX_GPS_TIMES_def) (simp add: adu51_only_def example_eventd_def Let_def)
  have "\<exists>s'. fillGpsTime ?sys (example_header 41) ?s = Some (0, example_header 41, s') \<and> times_ok s' \<and> adu51_only s'"
    by (rule adu51_alone [where Q = "[1 \<mapsto> [''hd_41.dat'', ''hd_42.dat''], 2 \<mapsto> [''gps_1.dat''], 3 \<mapsto> []]" and ns = "[''gps_1.dat'']"])
      (use s w in \<open>simp_all add: read_events_def example_header_def\<close>)
  then show ?thesis
    using example_match(2) by blast
qed

end
