(* ===== verification/Eventd_Round.thy ===== *)
theory Eventd_Round
  imports Eventd_Times
begin

text \<open>
  One round of Eventd's main loop: while only the G12 delivers times and the calibration does not change,
  each event link leads to its header, with a GPS time and a status filled in, for Prioritizerd. And what
  the calibration status forgets.
\<close>

section \<open>The calibration status\<close>

definition calib_ok :: "eventd \<Rightarrow> bool" where
  "calib_ok s \<longleftrightarrow> length (calibArray s) = MAX_CALIB_TIMES \<and> 0 \<le> numStored s \<and> numStored s \<le> 2"

lemma scan_calibs_small:
  assumes "length a = MAX_CALIB_TIMES" "0 \<le> n" "n \<le> 2"
  shows "\<exists>a' n' got. scan_calibs t (nat n) (a, n, None) = Some (a', n', got) \<and> length a' = MAX_CALIB_TIMES \<and> 0 \<le> n' \<and> n' \<le> 2"
proof -
  have "n = 0 \<or> n = 1 \<or> n = 2"
    using assms by auto
  then show ?thesis
    using assms(1) by (elim disjE) (auto simp: numeral_2_eq_2 at_index_some MAX_CALIB_TIMES_def Let_def)
qed

section \<open>A round\<close>

definition ready :: "eventd \<Rightarrow> bool" where
  "ready s \<longleftrightarrow> times_ok s \<and> g12_only s \<and> calib_ok s \<and> tryToMatchGps s \<noteq> 0 \<and> 0 < wdCalib s
     \<and> wdEvent s \<noteq> wdGps s \<and> wdEvent s \<noteq> wdCalib s \<and> wdGps s \<noteq> wdCalib s"

text \<open>What may happen outside during the round: any links with short names, but none of a status, and only times of the G12.\<close>

definition g12_arrives :: "eventd_system \<Rightarrow> int \<Rightarrow> bool" where
  "g12_arrives sys wd_calib \<longleftrightarrow> (\<forall>k. \<forall>(wd, name)\<in>set (read_events (arrivals sys k)). length name < 99 \<and> wd \<noteq> wd_calib)
     \<and> (\<forall>as p g. gpsFile sys as p = Some g \<longrightarrow> fromAdu5 g = 0)"

definition links_wait :: "string list \<Rightarrow> eventd \<Rightarrow> bool" where
  "links_wait ns s \<longleftrightarrow> (\<exists>Q ts rest. holds (ev_watch s) Q \<and> Q (wdGps s) = Some ts \<and> Q (wdCalib s) = Some [] \<and> Q (wdEvent s) = Some (ns @ rest))"

definition same_event :: "AnitaEventHeader_t \<Rightarrow> AnitaEventHeader_t \<Rightarrow> bool" where
  "same_event h h' \<longleftrightarrow> (\<exists>t c. h' = h\<lparr>hd_gpsSubTime := t, hd_calibStatus := c\<rparr>)"

definition forwarded :: "AnitaEventHeader_t \<Rightarrow> ev_action list" where
  "forwarded h =
     [Ev_write (EVENTD_EVENT_DIR @ ''/'' @ header_name h) h, Ev_link (EVENTD_EVENT_DIR @ ''/'' @ header_name h) EVENTD_EVENT_LINK_DIR,
      Ev_remove (ACQD_EVENT_DIR @ ''/'' @ header_name h), Ev_remove (ACQD_EVENT_LINK_DIR @ ''/'' @ header_name h)]"

lemma g12_arrives_short: "g12_arrives sys c \<Longrightarrow> \<forall>(wd, name)\<in>set (read_events (arrivals sys k)). length name < 99"
  by (fastforce simp: g12_arrives_def)

lemma arrive_calib: "g12_arrives sys c \<Longrightarrow> Q c = Some [] \<Longrightarrow> arrive (read_events (arrivals sys k)) Q c = Some []"
  by (fastforce simp: g12_arrives_def arrive_def filter_empty_conv)

lemma arrive_some: "Q wd = Some ns \<Longrightarrow> \<exists>ms. arrive es Q wd = Some (ns @ ms)"
  by (simp add: arrive_def)

lemma ready_frame: "ready s \<Longrightarrow> ev_frame s s' \<Longrightarrow> times_ok s' \<Longrightarrow> g12_only s' \<Longrightarrow> ready s'"
  by (simp add: ready_def ev_frame_def calib_ok_def)

lemma fill_ready:
  assumes "ready s" "links_wait ns s" "g12_arrives sys (wdCalib s)"
  shows "\<exists>r t s'. fillGpsTime sys h s = Some (r, h\<lparr>hd_gpsSubTime := t\<rparr>, s') \<and> ev_frame s s' \<and> ready s' \<and> links_wait ns s'"
proof -
  obtain Q ts rest where Q: "holds (ev_watch s) Q" "Q (wdGps s) = Some ts" "Q (wdCalib s) = Some []" "Q (wdEvent s) = Some (ns @ rest)"
    using assms(2) by (auto simp: links_wait_def)
  let ?es = "read_events (arrivals sys (ev_checks s))"
  have "\<exists>r t s'. fillGpsTime sys h s = Some (r, h\<lparr>hd_gpsSubTime := t\<rparr>, s') \<and> (r = 0 \<longrightarrow> t = hd_gpsSubTime h)
    \<and> ev_frame s s' \<and> times_ok s' \<and> g12_only s' \<and> holds (ev_watch s') ((arrive ?es Q)(wdGps s \<mapsto> []))"
    using assms(1,3) Q g12_arrives_short [OF assms(3)] by (intro fill_g12) (auto simp: ready_def g12_arrives_def)
  then obtain r t s' where s': "fillGpsTime sys h s = Some (r, h\<lparr>hd_gpsSubTime := t\<rparr>, s')" "ev_frame s s'" "times_ok s'" "g12_only s'"
    "holds (ev_watch s') ((arrive ?es Q)(wdGps s \<mapsto> []))"
    by (elim exE conjE)
  obtain ms where ms: "arrive ?es Q (wdEvent s) = Some (ns @ rest @ ms)"
    using arrive_some [where Q = Q, OF Q(4), of ?es] by auto
  have "links_wait ns s'"
    using s'(2,5) ms arrive_calib [where Q = Q, OF assms(3) Q(3)] assms(1)
    by (auto simp: links_wait_def ev_frame_def ready_def intro!: exI [of _ "(arrive ?es Q)(wdGps s \<mapsto> [])"])
  then show ?thesis
    using s' ready_frame [OF assms(1) s'(2-4)] by blast
qed

lemma ready_cong: "ready (ev_do as s) = ready s" "ready (s\<lparr>ev_ticks := k\<rparr>) = ready s" "ready (s\<lparr>theAcqdEventHeader := h\<rparr>) = ready s"
  "links_wait ns (ev_do as s) = links_wait ns s" "links_wait ns (s\<lparr>ev_ticks := k\<rparr>) = links_wait ns s" "links_wait ns (s\<lparr>theAcqdEventHeader := h\<rparr>) = links_wait ns s"
  "wdCalib (ev_do as s) = wdCalib s"
  by (simp_all add: ready_def times_ok_def gps_stored_def g12_only_def calib_ok_def ev_do_def links_wait_def)

lemma frame_ticks [simp]: "ev_frame s (s\<lparr>ev_ticks := k\<rparr>)" "ev_frame s (s\<lparr>theAcqdEventHeader := h\<rparr>)"
  by (simp_all add: ev_frame_def)

lemma frame_wd: "ev_frame s s' \<Longrightarrow> wdCalib s' = wdCalib s" "ev_frame s s' \<Longrightarrow> wdEvent s' = wdEvent s"
  "ev_frame s s' \<Longrightarrow> event_acts (ev_acts s') = event_acts (ev_acts s)"
  by (auto simp: ev_frame_def)

lemma try_match_ready:
  assumes "ready s" "links_wait ns s" "g12_arrives sys (wdCalib s)"
  shows "\<exists>r t s'. try_match sys n h s = Some (r, h\<lparr>hd_gpsSubTime := t\<rparr>, s') \<and> ev_frame s s' \<and> ready s' \<and> links_wait ns s'"
  using assms
proof (induction n arbitrary: h s)
  case 0
  then show ?case
    by (intro exI [of _ 0] exI [of _ "hd_gpsSubTime h"] exI [of _ s]) simp
next
  case (Suc n)
  obtain r t s1 where s1: "fillGpsTime sys h s = Some (r, h\<lparr>hd_gpsSubTime := t\<rparr>, s1)" "ev_frame s s1" "ready s1" "links_wait ns s1"
    using fill_ready [OF Suc.prems] by blast
  define s2 where "s2 = snd (ev_time sys s1)"
  define s3 where "s3 = snd (ev_time sys (ev_do [Ev_sleep 1] s2))"
  have f2: "ev_frame s s2" "ready s2" "links_wait ns s2"
    using s1 ev_frame_trans [OF s1(2)] by (simp_all add: s2_def ev_time_def ready_cong)
  have f3: "ev_frame s s3" "ready s3" "links_wait ns s3"
    using f2 ev_frame_trans [OF f2(1) ev_frame_trans [OF ev_frame_do(1) frame_ticks(1)], of "[Ev_sleep 1]"] by (simp_all add: s3_def ev_time_def ready_cong)
  have "\<exists>r t' s'. try_match sys n (h\<lparr>hd_gpsSubTime := t\<rparr>) s3 = Some (r, (h\<lparr>hd_gpsSubTime := t\<rparr>)\<lparr>hd_gpsSubTime := t'\<rparr>, s') \<and> ev_frame s3 s' \<and> ready s' \<and> links_wait ns s'"
    using f3 Suc.prems(3) frame_wd(1) [OF f3(1)] by (intro Suc.IH) simp_all
  then obtain r' t' s' where s': "try_match sys n (h\<lparr>hd_gpsSubTime := t\<rparr>) s3 = Some (r', h\<lparr>hd_gpsSubTime := t'\<rparr>, s')" "ev_frame s3 s'" "ready s'" "links_wait ns s'"
    by auto
  have "tryToMatchGps s \<noteq> 0"
    using Suc.prems(1) by (simp add: ready_def)
  then have "try_match sys (Suc n) h s =
     (if r \<noteq> 0 then Some (r, h\<lparr>hd_gpsSubTime := t\<rparr>, s1)
      else if EVENT_TIMEOUT \<le> fst (ev_time sys s1) - hd_unixTime h then Some (0, h\<lparr>hd_gpsSubTime := t\<rparr>, s2)
      else if EVENT_TIMEOUT \<le> fst (ev_time sys (ev_do [Ev_sleep 1] s2)) - hd_unixTime h then Some (0, h\<lparr>hd_gpsSubTime := t\<rparr>, s3)
      else try_match sys n (h\<lparr>hd_gpsSubTime := t\<rparr>) s3)"
    using s1(1) by (simp add: s2_def s3_def ev_time_def Let_def)
  then show ?case
    using s1 f2 f3 s' ev_frame_trans [OF f3(1) s'(2)] by (metis (no_types))
qed

lemma calib_ready:
  assumes "ready s" "links_wait ns s" "g12_arrives sys (wdCalib s)"
  shows "\<exists>c s'. getCalibStatus sys t s = Some (Some (c, s')) \<and> ready s' \<and> links_wait ns s' \<and> ev_acts s' = ev_acts s \<and> wdCalib s' = wdCalib s \<and> wdEvent s' = wdEvent s"
proof -
  obtain Q ts rest where Q: "holds (ev_watch s) Q" "Q (wdGps s) = Some ts" "Q (wdCalib s) = Some []" "Q (wdEvent s) = Some (ns @ rest)"
    using assms(2) by (auto simp: links_wait_def)
  let ?es = "read_events (arrivals sys (ev_checks s))"
  obtain w where w: "ev_check sys 0 1 s = Some (int (length ?es), s\<lparr>ev_watch := w, ev_checks := Suc (ev_checks s)\<rparr>)" "holds w (arrive ?es Q)"
    using ev_check_some [OF Q(1), of 0 1 sys] g12_arrives_short [OF assms(3), of "ev_checks s"] by auto
  have none: "getNumLinks (wdCalib s) w = 0"
    using lw.num [OF w(2) arrive_calib [where Q = Q, OF assms(3) Q(3)]] by simp
  obtain a n got where scan: "scan_calibs t (nat (numStored s)) (calibArray s, numStored s, None) = Some (a, n, got)" "length a = MAX_CALIB_TIMES" "0 \<le> n" "n \<le> 2"
    using scan_calibs_small [of "calibArray s" "numStored s" t] assms(1) by (auto simp: ready_def calib_ok_def)
  let ?s' = "s\<lparr>ev_watch := w, ev_checks := Suc (ev_checks s), calibArray := a, numStored := n\<rparr>"
  have "ready ?s'"
    using assms(1) scan by (simp add: ready_def times_ok_def gps_stored_def g12_only_def calib_ok_def)
  moreover have "links_wait ns ?s'"
  proof -
    obtain us ms where "arrive ?es Q (wdGps s) = Some us" "arrive ?es Q (wdEvent s) = Some (ns @ rest @ ms)"
      using arrive_some [where Q = Q, OF Q(4), of ?es] arrive_some [where Q = Q, OF Q(2), of ?es] by auto
    then show ?thesis
      using w(2) arrive_calib [where Q = Q, OF assms(3) Q(3)] by (auto simp: links_wait_def intro!: exI [of _ "arrive ?es Q"])
  qed
  moreover have "getCalibStatus sys t s = Some (Some (case got of None \<Rightarrow> - 1 | Some c \<Rightarrow> c, ?s'))"
    using assms(1) w(1) none scan(1) by (simp add: getCalibStatus_def ready_def)
  ultimately show ?thesis
    by (intro exI [of _ "case got of None \<Rightarrow> - 1 | Some c \<Rightarrow> c"] exI [of _ ?s']) simp
qed

lemma forwarded_acts: "event_acts (forwarded h) = forwarded h"
  by (simp add: forwarded_def event_acts_def for_event_def ACQD_EVENT_DIR_def ACQD_EVENT_LINK_DIR_def GPSD_SUBTIME_DIR_def)

lemma one_event_ready:
  assumes "ready s" "links_wait ns s" "g12_arrives sys (wdCalib s)" "\<And>as p old. headerFile sys as p old = (0, H p)"
  shows "\<exists>h s'. one_event sys name s = Some (Some s') \<and> same_event (H (ACQD_EVENT_LINK_DIR @ ''/'' @ name)) h
    \<and> event_acts (ev_acts s') = event_acts (ev_acts s) @ forwarded h \<and> ready s' \<and> links_wait ns s' \<and> wdCalib s' = wdCalib s \<and> wdEvent s' = wdEvent s"
proof -
  let ?h = "H (ACQD_EVENT_LINK_DIR @ ''/'' @ name)"
  let ?s = "s\<lparr>theAcqdEventHeader := ?h\<rparr>"
  obtain r t s1 where s1: "try_match sys 20 ?h ?s = Some (r, ?h\<lparr>hd_gpsSubTime := t\<rparr>, s1)" "ev_frame ?s s1" "ready s1" "links_wait ns s1"
    using try_match_ready [of ?s ns sys 20 ?h] assms(1-3) by (auto simp: ready_cong)
  define h where "h = (if r = 0 then ?h\<lparr>hd_gpsSubTime := - 1\<rparr> else ?h\<lparr>hd_gpsSubTime := t\<rparr>)"
  have wd: "wdCalib s1 = wdCalib s" "wdEvent s1 = wdEvent s" "event_acts (ev_acts s1) = event_acts (ev_acts s)"
    using frame_wd [OF s1(2)] by simp_all
  obtain c s2 where s2: "getCalibStatus sys (s32 (hd_unixTime h)) s1 = Some (Some (c, s2))" "ready s2" "links_wait ns s2" "ev_acts s2 = ev_acts s1"
      "wdCalib s2 = wdCalib s1" "wdEvent s2 = wdEvent s1"
    using calib_ready [OF s1(3,4)] assms(3) wd(1) by metis
  let ?h2 = "h\<lparr>hd_calibStatus := u16 c\<rparr>"
  let ?s3 = "writeHeaderAndMakeLink ?h2 (s2\<lparr>theAcqdEventHeader := ?h2\<rparr>)"
  have "one_event sys name s = Some (Some ?s3)"
    using s1(1) s2(1) assms(4) by (cases "r = 0") (simp_all add: one_event_def Let_def h_def)
  moreover have "ev_acts ?s3 = ev_acts s2 @ forwarded ?h2" "ready ?s3" "links_wait ns ?s3" "wdCalib ?s3 = wdCalib s" "wdEvent ?s3 = wdEvent s"
    using s2 wd by (simp_all add: writeHeaderAndMakeLink_def Let_def ready_cong) (simp_all add: ev_do_def forwarded_def)
  moreover have "same_event ?h ?h2"
    by (auto simp: same_event_def h_def intro: exI [of _ "u16 c"])
  ultimately show ?thesis
    using s2(4) wd(3) by (intro exI [of _ ?h2] exI [of _ ?s3]) (simp add: forwarded_acts)
qed

lemma each_event_ready:
  assumes "ready s" "links_wait ns s" "g12_arrives sys (wdCalib s)" "\<And>as p old. headerFile sys as p old = (0, H p)"
  shows "\<exists>hs s'. each_event sys (length ns) s = Some (Some s') \<and> list_all2 same_event (map (\<lambda>n. H (ACQD_EVENT_LINK_DIR @ ''/'' @ n)) ns) hs
    \<and> event_acts (ev_acts s') = event_acts (ev_acts s) @ concat (map forwarded hs) \<and> ready s' \<and> wdEvent s' = wdEvent s"
  using assms(1-3)
proof (induction ns arbitrary: s)
  case Nil
  then show ?case
    by simp
next
  case (Cons n ns)
  obtain Q ts rest where Q: "holds (ev_watch s) Q" "Q (wdGps s) = Some ts" "Q (wdCalib s) = Some []" "Q (wdEvent s) = Some (n # ns @ rest)"
    using Cons.prems(2) by (auto simp: links_wait_def)
  obtain w where w: "ev_first (wdEvent s) s = Some (n, s\<lparr>ev_watch := w\<rparr>)" "holds w (Q(wdEvent s \<mapsto> ns @ rest))"
    using ev_first_some [OF Q(1,4)] by blast
  let ?s = "s\<lparr>ev_watch := w\<rparr>"
  have r: "ready ?s" "links_wait ns ?s" "g12_arrives sys (wdCalib ?s)"
    using Cons.prems(1,3) w(2) Q(2,3) by (auto simp: ready_def calib_ok_def links_wait_def intro!: exI [of _ "Q(wdEvent s \<mapsto> ns @ rest)"])
  obtain h s1 where s1: "one_event sys n ?s = Some (Some s1)" "same_event (H (ACQD_EVENT_LINK_DIR @ ''/'' @ n)) h"
    "event_acts (ev_acts s1) = event_acts (ev_acts ?s) @ forwarded h" "ready s1" "links_wait ns s1" "wdCalib s1 = wdCalib ?s" "wdEvent s1 = wdEvent ?s"
    using one_event_ready [OF r assms(4), of n] by blast
  have "g12_arrives sys (wdCalib s1)"
    using Cons.prems(3) s1(6) by simp
  then obtain hs s' where s': "each_event sys (length ns) s1 = Some (Some s')" "list_all2 same_event (map (\<lambda>n. H (ACQD_EVENT_LINK_DIR @ ''/'' @ n)) ns) hs"
    "event_acts (ev_acts s') = event_acts (ev_acts s1) @ concat (map forwarded hs)" "ready s'" "wdEvent s' = wdEvent s1"
    using Cons.IH [OF s1(4,5)] by blast
  then show ?case
    using w(1) s1 by (intro exI [of _ "h # hs"] exI [of _ s']) simp
qed

section \<open>Statuses that are all old\<close>

lemma scan_rest:
  assumes "\<forall>j<i. cal_unixTime (a ! j) < u32 t" "m \<le> 1" "i \<le> length a" "0 < length a"
  shows "scan_calibs t i (a, m, got) = Some (a, m - int (\<Sum>{..<i}), if i = 0 then got else Some (s32 (cal_status (a ! 0))))"
  using assms(1-3)
proof (induction i arbitrary: m got)
  case (Suc i)
  have a: "at_index a (int i) = Some (a ! i)" "cal_unixTime (a ! i) < u32 t" "int i + (m - int i) \<le> int (length a)"
    using Suc.prems by (simp_all add: at_index_some)
  have "take (nat (m - int i)) (drop i a) @ drop (nat (m - int i)) a = a" if "0 < m - int i"
  proof -
    have "m = 1" "i = 0"
      using that Suc.prems(2) by auto
    then show ?thesis
      by simp
  qed
  then have "scan_calibs t (Suc i) (a, m, got) = scan_calibs t i (a, m - int i, Some (s32 (cal_status (a ! i))))"
    using a by (simp add: Let_def)
  then show ?case
    using Suc.IH [of "m - int i"] Suc.prems by (cases "i = 0") auto
qed simp

lemma sum_lessThan: "2 * int (\<Sum>{..<n}) = int n * (int n - 1)" for n :: nat
  by (induction n) (auto simp: algebra_simps)

lemma scan_old:
  assumes "\<forall>c\<in>set (take n a). cal_unixTime c < u32 t" "0 < n" "n \<le> length a"
  shows "\<exists>a'. scan_calibs t n (a, int n, None) = Some (a', int n - int n * (int n - 1) div 2, Some (s32 (cal_status (a ! (n - 1))))) \<and> length a' = length a"
proof -
  obtain i where n: "n = Suc i"
    using assms(2) by (cases n) auto
  let ?a = "a ! i # drop 1 a"
  have a: "at_index a (int i) = Some (a ! i)" "\<forall>j<n. cal_unixTime (a ! j) < u32 t"
    using assms nth_mem [of _ "take n a"] by (fastforce simp: at_index_some n)+
  have "take 1 (drop i a) @ drop 1 a = ?a"
    using assms(3) by (simp add: n take_Suc_conv_app_nth)
  then have step: "scan_calibs t n (a, int n, None) = scan_calibs t i (?a, 1, Some (s32 (cal_status (a ! i))))"
    using a assms(3) by (simp add: n Let_def)
  have "?a ! j = (if j = 0 then a ! i else a ! j)" if "j < i" for j
    using that assms(3) by (cases j) (auto simp: n)
  then have "\<forall>j<i. cal_unixTime (?a ! j) < u32 t"
    using a(2) by (auto simp: n)
  then have "scan_calibs t i (?a, 1, Some (s32 (cal_status (a ! i)))) = Some (?a, 1 - int (\<Sum>{..<i}), Some (s32 (cal_status (a ! i))))"
    using scan_rest [of i ?a t 1] assms(3) by (auto simp: n)
  moreover have "1 - int (\<Sum>{..<i}) = int n - int n * (int n - 1) div 2"
    using sum_lessThan [of n] sum_lessThan [of i] by (simp add: n algebra_simps)
  ultimately show ?thesis
    using step assms(3) by (intro exI [of _ ?a]) (simp add: n)
qed

section \<open>Properties\<close>

text \<open>
  C13. While only the G12 delivers GPS times and no calibration status changes, one round forwards every
  event that waits, in the order of the links: its header goes to the directory of Eventd with no field
  changed but the GPS time and the calibration status, it is linked for Prioritizerd, then the header of
  Acqd and its link are removed; no other file of an event is touched, and the next round starts from such a
  state again.
\<close>

theorem event_round_forwards:
  assumes "ready s" "holds (ev_watch s) Q" "Q (wdGps s) = Some ts" "Q (wdCalib s) = Some []" "Q (wdEvent s) = Some ns0"
    and "g12_arrives sys (wdCalib s)" "\<And>as p old. headerFile sys as p old = (0, H p)"
    and "ns = the (arrive (read_events (arrivals sys (ev_checks s))) Q (wdEvent s))"
  shows "\<exists>hs s'. event_round sys s = Some (Some s') \<and> list_all2 same_event (map (\<lambda>n. H (ACQD_EVENT_LINK_DIR @ ''/'' @ n)) ns) hs
    \<and> event_acts (ev_acts s') = event_acts (ev_acts s) @ concat (map forwarded hs) \<and> ready s'"
proof -
  let ?es = "read_events (arrivals sys (ev_checks s))"
  obtain w where w: "ev_check sys 1 0 s = Some (int (length ?es), s\<lparr>ev_watch := w, ev_checks := Suc (ev_checks s)\<rparr>)" "holds w (arrive ?es Q)"
    using ev_check_some [OF assms(2), of 1 0 sys] g12_arrives_short [OF assms(6), of "ev_checks s"] by auto
  let ?s = "s\<lparr>ev_watch := w, ev_checks := Suc (ev_checks s)\<rparr>"
  obtain us ms where "arrive ?es Q (wdGps s) = Some us" "arrive ?es Q (wdEvent s) = Some (ns0 @ ms)"
    using arrive_some [where Q = Q and wd = "wdEvent s", OF assms(5)] arrive_some [where Q = Q and wd = "wdGps s", OF assms(3)] by blast
  then have q: "arrive ?es Q (wdEvent s) = Some ns" "arrive ?es Q (wdGps s) = Some us" "arrive ?es Q (wdCalib s) = Some []"
    using assms(8) arrive_calib [where Q = Q, OF assms(6,4)] by simp_all
  have r: "ready ?s" "links_wait ns ?s" "g12_arrives sys (wdCalib ?s)"
    using assms(1,6) q w(2) by (auto simp: ready_def calib_ok_def links_wait_def times_ok_checked)
  have n: "getNumLinks (wdEvent s) w = int (length ns)"
    using lw.num [OF w(2) q(1)] .
  have "event_round sys s = each_event sys (length ns) ?s"
    using w(1) n by (simp add: event_round_def)
  then show ?thesis
    using each_event_ready [OF r assms(7)] by auto
qed

lemma event_round_forwards_witness:
  "\<exists>w hs s'. event_round (example_world \<lparr>gps_unixTime = 1400000000, gps_subTime = 1000000, fromAdu5 = 0\<rparr> [Some [(1, ''hd_43.dat'')]]) (example_eventd w [] [] []) = Some (Some s')
    \<and> length hs = 3 \<and> event_acts (ev_acts s') = concat (map forwarded hs)"
proof -
  let ?Q = "[1 \<mapsto> [''hd_41.dat'', ''hd_42.dat''], 2 \<mapsto> [''gps_1.dat''], 3 \<mapsto> []] :: waiting"
  obtain w where w: "holds w ?Q"
    using example_links_wait by blast
  let ?sys = "example_world \<lparr>gps_unixTime = 1400000000, gps_subTime = 1000000, fromAdu5 = 0\<rparr> [Some [(1, ''hd_43.dat'')]]" and ?s = "example_eventd w [] [] []"
  have s: "ready ?s" "holds (ev_watch ?s) ?Q" "g12_arrives ?sys (wdCalib ?s)"
    using w by (auto simp: ready_def example_times_ok calib_ok_def g12_arrives_def read_events_def) (simp_all add: example_eventd_def Let_def)
  have Q: "?Q (wdGps ?s) = Some [''gps_1.dat'']" "?Q (wdCalib ?s) = Some []" "?Q (wdEvent ?s) = Some [''hd_41.dat'', ''hd_42.dat'']"
    "[''hd_41.dat'', ''hd_42.dat'', ''hd_43.dat''] = the (arrive (read_events (arrivals ?sys (ev_checks ?s))) ?Q (wdEvent ?s))"
    by (simp_all add: read_events_def arrive_def)
  have "headerFile ?sys as p old = (0, (\<lambda>_. example_header 41) p)" for as p old
    by simp
  then obtain hs s' where r: "event_round ?sys ?s = Some (Some s')"
    "list_all2 same_event (map (\<lambda>n. example_header 41) [''hd_41.dat'', ''hd_42.dat'', ''hd_43.dat'']) hs"
    "event_acts (ev_acts s') = event_acts (ev_acts ?s) @ concat (map forwarded hs)"
    using event_round_forwards [OF s(1,2) Q(1-3) s(3) _ Q(4), of "\<lambda>_. example_header 41"] by blast
  have "length hs = 3" "ev_acts ?s = []"
    using list_all2_lengthD [OF r(2)] by (simp_all add: example_eventd_def Let_def)
  then show ?thesis
    using r(1,3) by auto
qed

text \<open>
  C18. An error: the search for the calibration status of an event goes on below the entry it has found.
  When all \<open>n\<close> known statuses are older than the event, it returns the newest, but the number of
  statuses becomes \<open>n - n (n - 1) / 2\<close>: from three the status is forgotten, so the next event has
  none, and from four the next status is written before the array.
\<close>

theorem calib_forgets:
  assumes "length (calibArray s) = MAX_CALIB_TIMES" "numStored s = int n" "0 < n" "n \<le> MAX_CALIB_TIMES" "\<forall>c\<in>set (take n (calibArray s)). cal_unixTime c < u32 t"
    and "0 < wdCalib s" "holds (ev_watch s) Q" "Q (wdCalib s) = Some []"
    and "\<forall>(wd, name)\<in>set (read_events (arrivals sys (ev_checks s))). length name < 99 \<and> wd \<noteq> wdCalib s"
  shows "\<exists>s'. getCalibStatus sys t s = Some (Some (s32 (cal_status (calibArray s ! (n - 1))), s')) \<and> numStored s' = int n - int n * (int n - 1) div 2
    \<and> (n = 3 \<longrightarrow> scan_calibs t (nat (numStored s')) (calibArray s', numStored s', None) = Some (calibArray s', 0, None))
    \<and> (4 \<le> n \<longrightarrow> stored_calib sys path s' = None)"
proof -
  let ?es = "read_events (arrivals sys (ev_checks s))"
  obtain w where w: "ev_check sys 0 1 s = Some (int (length ?es), s\<lparr>ev_watch := w, ev_checks := Suc (ev_checks s)\<rparr>)" "holds w (arrive ?es Q)"
    using ev_check_some [OF assms(7), of 0 1 sys] assms(9) by auto
  have "arrive ?es Q (wdCalib s) = Some []"
    using assms(8,9) by (fastforce simp: arrive_def filter_empty_conv)
  then have none: "getNumLinks (wdCalib s) w = 0"
    using lw.num [OF w(2)] by simp
  let ?m = "int n - int n * (int n - 1) div 2"
  obtain a where scan: "scan_calibs t n (calibArray s, int n, None) = Some (a, ?m, Some (s32 (cal_status (calibArray s ! (n - 1)))))" "length a = MAX_CALIB_TIMES"
    using scan_old [OF assms(5,3)] assms(1,4) by auto
  let ?s' = "s\<lparr>ev_watch := w, ev_checks := Suc (ev_checks s), calibArray := a, numStored := ?m\<rparr>"
  have "getCalibStatus sys t s = Some (Some (s32 (cal_status (calibArray s ! (n - 1))), ?s'))"
    using assms(2,6) w(1) none scan(1) by (simp add: getCalibStatus_def)
  moreover have "?m < 0" if "4 \<le> n"
  proof -
    have "int n * 3 \<le> int n * (int n - 1)"
      using that by (intro mult_left_mono) auto
    then have "int n < int n * (int n - 1) div 2"
      using that by linarith
    then show ?thesis
      by simp
  qed
  then have "stored_calib sys path ?s' = None" if "4 \<le> n"
    using that by (simp add: stored_calib_def at_index_def)
  ultimately show ?thesis
    by (intro exI [of _ ?s']) simp
qed

text \<open>After four statuses the count is -2.\<close>

lemma calib_forgets_witness:
  "\<exists>w s'. getCalibStatus (example_world no_time []) 1400000000 (example_eventd w [] [] (map (\<lambda>t. \<lparr>cal_unixTime = t, cal_status = t\<rparr>) [1, 2, 3, 4])) = Some (Some (4, s'))
    \<and> numStored s' = - 2 \<and> stored_calib (example_world no_time []) ''c'' s' = None"
proof -
  let ?Q = "[1 \<mapsto> [''hd_41.dat'', ''hd_42.dat''], 2 \<mapsto> [''gps_1.dat''], 3 \<mapsto> []] :: waiting"
  obtain w where w: "holds w ?Q"
    using example_links_wait by blast
  let ?cs = "map (\<lambda>t. \<lparr>cal_unixTime = t, cal_status = t\<rparr>) [1, 2, 3, 4]"
  let ?s = "example_eventd w [] [] ?cs" and ?sys = "example_world no_time []"
  have s: "length (calibArray ?s) = MAX_CALIB_TIMES" "numStored ?s = int 4" "take 4 (calibArray ?s) = ?cs" "calibArray ?s ! 3 = \<lparr>cal_unixTime = 4, cal_status = 4\<rparr>"
    by (simp_all add: example_eventd_def Let_def MAX_CALIB_TIMES_def)
  have "\<exists>s'. getCalibStatus ?sys 1400000000 ?s = Some (Some (s32 (cal_status (calibArray ?s ! (4 - 1))), s')) \<and> numStored s' = int 4 - int 4 * (int 4 - 1) div 2
    \<and> ((4 :: nat) = 3 \<longrightarrow> scan_calibs 1400000000 (nat (numStored s')) (calibArray s', numStored s', None) = Some (calibArray s', 0, None))
    \<and> (4 \<le> (4 :: nat) \<longrightarrow> stored_calib ?sys ''c'' s' = None)"
    by (rule calib_forgets [where Q = ?Q, OF s(1,2)]) (use w s(3) in \<open>simp_all add: MAX_CALIB_TIMES_def read_events_def u32_def\<close>)
  moreover have "s32 4 = 4"
    by code_simp
  then have "s32 (cal_status (calibArray ?s ! (4 - 1))) = 4"
    by (simp add: example_eventd_def Let_def)
  ultimately obtain s' where "getCalibStatus ?sys 1400000000 ?s = Some (Some (4, s'))" "numStored s' = int 4 - int 4 * (int 4 - 1) div 2" "stored_calib ?sys ''c'' s' = None"
    by auto
  then show ?thesis
    by (intro exI [of _ w] exI [of _ s']) simp
qed

end
