(* ===== verification/Event_Writer.thy ===== *)
theory Event_Writer
  imports Event_Header C_Text "HOL-Library.Monad_Syntax"
begin

text \<open>
  The writer of event files in \<open>utilLib/utilLib.c\<close>: events are appended to files of a hundred in a
  buffer directory; when the next hundred begins, child processes compress these files and copy them to
  the disks. Files are maps from names to bytes; whether a file can be opened for writing, the bytes of a
  header and the compression are parameters. Writes to an open file and \<open>fork\<close>
  succeed, and the child processes run, one after the other, when the writer is done.
\<close>

section \<open>Disks and names\<close>

definition DISK_TYPES :: nat where "DISK_TYPES = 5"
definition EVENTS_PER_FILE :: int where "EVENTS_PER_FILE = 100"
definition EVENT_FILES_PER_DIR :: int where "EVENT_FILES_PER_DIR = 100"
definition DISK_BUFFER_DIR :: string where "DISK_BUFFER_DIR = ''/tmp/buffer''"

text \<open>Helium 1, Helium 2, USB, PMC and NTU; the events for all but the PMC go through the buffer.\<close>

definition diskBitMasks :: "int list" where "diskBitMasks = [0x1, 0x2, 0x4, 0x10, 0x8]"
definition diskNames :: "string list" where "diskNames = [''/mnt/helium1'', ''/mnt/helium2'', ''/mnt/usbint'', ''/mnt/pmcdata'', ''/tmp/ntu'']"
definition eventBufferDisk :: "bool list" where "eventBufferDisk = [True, True, True, False, True]"

definition dir_num :: "int \<Rightarrow> int \<Rightarrow> int" where
  "dir_num k eventNumber = s32 (u32 (k * (eventNumber div k)))"

section \<open>The writer\<close>

text \<open>An open file is its name, \<open>None\<close> the null pointer.\<close>

record AnitaEventWriterStruct_t =
  currentEventFilePtr :: "string option list"
  currentHeaderFilePtr :: "string option list"
  bufferEventFilePtr :: "string option"
  bufferHeaderFilePtr :: "string option"
  writeBitMask :: int
  helium1CloneMask :: int
  helium2CloneMask :: int
  usbCloneMask :: int
  fileEpoch :: int
  gotData :: int
  justHeader :: int
  filePrefix :: string
  relBaseName :: string
  currentEventFileName :: "string list"
  currentHeaderFileName :: "string list"
  currentDirName :: "string list"
  currentSubDirName :: "string list"
  bufferEventFileName :: string
  bufferHeaderFileName :: string
  bufferDirName :: string
  bufferSubDirName :: string

definition writer_start :: AnitaEventWriterStruct_t where
  "writer_start =
     \<lparr>currentEventFilePtr = replicate DISK_TYPES None, currentHeaderFilePtr = replicate DISK_TYPES None, bufferEventFilePtr = None, bufferHeaderFilePtr = None,
      writeBitMask = 0, helium1CloneMask = 0, helium2CloneMask = 0, usbCloneMask = 0, fileEpoch = 0, gotData = 0, justHeader = 0, filePrefix = [], relBaseName = [],
      currentEventFileName = replicate DISK_TYPES [], currentHeaderFileName = replicate DISK_TYPES [], currentDirName = replicate DISK_TYPES [],
      currentSubDirName = replicate DISK_TYPES [], bufferEventFileName = [], bufferHeaderFileName = [], bufferDirName = [], bufferSubDirName = []\<rparr>"

text \<open>A child process has its own copy of the writer.\<close>

datatype zip_job =
  Zip_events int AnitaEventWriterStruct_t
| Zip_headers int AnitaEventWriterStruct_t

type_synonym byte_files = "string \<Rightarrow> byte list option"

record event_disk =
  ed_files :: byte_files
  ed_dirs :: "string list"
  ed_jobs :: "zip_job list"

record archive_env =
  headerBytes :: "AnitaEventHeader_t \<Rightarrow> byte list"
  canOpen :: "string \<Rightarrow> bool"
  gz :: "byte list \<Rightarrow> byte list"

definition make_dir :: "string \<Rightarrow> event_disk \<Rightarrow> event_disk" where
  "make_dir dir d = d\<lparr>ed_dirs := ed_dirs d @ [dir]\<rparr>"

definition open_append :: "archive_env \<Rightarrow> string \<Rightarrow> event_disk \<Rightarrow> string option \<times> event_disk" where
  "open_append env name d =
     (if canOpen env name then (Some name, d\<lparr>ed_files := (ed_files d)(name \<mapsto> (case ed_files d name of None \<Rightarrow> [] | Some b \<Rightarrow> b))\<rparr>)
      else (None, d))"

text \<open>What is written to a file that was removed since it was opened is lost.\<close>

definition append_to :: "string \<Rightarrow> byte list \<Rightarrow> event_disk \<Rightarrow> event_disk" where
  "append_to name bytes d = (case ed_files d name of None \<Rightarrow> d | Some b \<Rightarrow> d\<lparr>ed_files := (ed_files d)(name \<mapsto> b @ bytes)\<rparr>)"

definition buffer_disks :: "AnitaEventWriterStruct_t \<Rightarrow> int" where
  "buffer_disks w = fold (\<lambda>i disks. if eventBufferDisk ! i then disks OR diskBitMasks ! i else disks) [0..<DISK_TYPES] 0 AND writeBitMask w"

definition closeEventFilesAndTidy :: "AnitaEventWriterStruct_t \<Rightarrow> event_disk \<Rightarrow> AnitaEventWriterStruct_t \<times> event_disk" where
  "closeEventFilesAndTidy w d =
     (let jobs = (if bufferHeaderFilePtr w = None then [] else
            (if bufferEventFilePtr w = None then [] else [Zip_events (buffer_disks w) w]) @ [Zip_headers (buffer_disks w) w]);
          w = w\<lparr>bufferEventFilePtr := None, bufferHeaderFilePtr := None\<rparr>
      in (fold (\<lambda>i w. if eventBufferDisk ! i then w\<lparr>currentHeaderFilePtr := (currentHeaderFilePtr w)[i := None], currentEventFilePtr := (currentEventFilePtr w)[i := None]\<rparr> else w)
            [0..<DISK_TYPES] w, d\<lparr>ed_jobs := ed_jobs d @ jobs\<rparr>))"

definition open_buffer_header :: "archive_env \<Rightarrow> int \<Rightarrow> AnitaEventWriterStruct_t \<times> event_disk \<Rightarrow> AnitaEventWriterStruct_t \<times> event_disk" where
  "open_buffer_header env n = (\<lambda>(w, d).
     if bufferHeaderFilePtr w \<noteq> None then (w, d)
     else
       let dir = DISK_BUFFER_DIR @ ''/'' @ relBaseName w @ ''/ev'' @ show_int (dir_num (EVENTS_PER_FILE * EVENT_FILES_PER_DIR * EVENT_FILES_PER_DIR) n);
           sub = dir @ ''/ev'' @ show_int (dir_num (EVENTS_PER_FILE * EVENT_FILES_PER_DIR) n);
           name = sub @ ''/hd_'' @ show_int (dir_num EVENTS_PER_FILE n) @ ''.dat'';
           (p, d) = open_append env name (make_dir sub (make_dir dir d))
       in (w\<lparr>bufferDirName := dir, bufferSubDirName := sub, bufferHeaderFileName := name, bufferHeaderFilePtr := p,
             fileEpoch := u32 (dir_num EVENTS_PER_FILE n + EVENTS_PER_FILE)\<rparr>, d))"

definition open_buffer_event :: "archive_env \<Rightarrow> int \<Rightarrow> AnitaEventWriterStruct_t \<times> event_disk \<Rightarrow> AnitaEventWriterStruct_t \<times> event_disk" where
  "open_buffer_event env n = (\<lambda>(w, d).
     if justHeader w \<noteq> 0 \<or> bufferEventFilePtr w \<noteq> None then (w, d)
     else
       let name = bufferSubDirName w @ ''/'' @ filePrefix w @ ''_'' @ show_int (dir_num EVENTS_PER_FILE n) @ ''.dat'';
           (p, d) = open_append env name d
       in (w\<lparr>bufferEventFileName := name, bufferEventFilePtr := p\<rparr>, d))"

text \<open>The counter of errors never counts: \<open>fwrite\<close> returns no negative value, and \<open>fopen\<close> no negative pointer.\<close>

definition write_buffer :: "archive_env \<Rightarrow> AnitaEventHeader_t \<Rightarrow> byte list \<Rightarrow> AnitaEventWriterStruct_t \<times> event_disk \<Rightarrow> AnitaEventWriterStruct_t \<times> event_disk" where
  "write_buffer env h bytes = (\<lambda>(w, d).
     let (w, d) = (case bufferHeaderFilePtr w of None \<Rightarrow> (w, d) | Some f \<Rightarrow> (w\<lparr>gotData := 1\<rparr>, append_to f (headerBytes env h) d)) in
     (w, if justHeader w \<noteq> 0 then d else case bufferEventFilePtr w of None \<Rightarrow> d | Some f \<Rightarrow> append_to f bytes d))"

text \<open>The loop over the disks opens files; what wrote to them is commented out in the source.\<close>

definition open_disk_header :: "archive_env \<Rightarrow> int \<Rightarrow> nat \<Rightarrow> AnitaEventWriterStruct_t \<times> event_disk \<Rightarrow> AnitaEventWriterStruct_t \<times> event_disk" where
  "open_disk_header env n i = (\<lambda>(w, d).
     if currentHeaderFilePtr w ! i \<noteq> None then (w, d)
     else
       let dir = diskNames ! i @ ''/'' @ relBaseName w @ ''/ev'' @ show_int (dir_num (EVENTS_PER_FILE * EVENT_FILES_PER_DIR * EVENT_FILES_PER_DIR) n);
           sub = dir @ ''/ev'' @ show_int (dir_num (EVENTS_PER_FILE * EVENT_FILES_PER_DIR) n);
           name = sub @ ''/hd_'' @ show_int (dir_num EVENTS_PER_FILE n) @ ''.dat'';
           d = make_dir sub (make_dir dir d);
           (p, d) = (if eventBufferDisk ! i then (bufferHeaderFilePtr w, d) else open_append env name d)
       in (w\<lparr>currentDirName := (currentDirName w)[i := dir], currentSubDirName := (currentSubDirName w)[i := sub],
             currentHeaderFileName := (currentHeaderFileName w)[i := name], currentHeaderFilePtr := (currentHeaderFilePtr w)[i := p],
             fileEpoch := u32 (dir_num EVENTS_PER_FILE n + EVENTS_PER_FILE)\<rparr>, d))"

definition open_disk_event :: "archive_env \<Rightarrow> int \<Rightarrow> nat \<Rightarrow> AnitaEventWriterStruct_t \<times> event_disk \<Rightarrow> AnitaEventWriterStruct_t \<times> event_disk" where
  "open_disk_event env n i = (\<lambda>(w, d).
     if justHeader w \<noteq> 0 \<or> currentEventFilePtr w ! i \<noteq> None then (w, d)
     else
       let name = currentSubDirName w ! i @ ''/'' @ filePrefix w @ ''_'' @ show_int (dir_num EVENTS_PER_FILE n) @ ''.dat'';
           (p, d) = (if eventBufferDisk ! i then (bufferEventFilePtr w, d) else open_append env name d)
       in (w\<lparr>currentEventFileName := (currentEventFileName w)[i := name], currentEventFilePtr := (currentEventFilePtr w)[i := p]\<rparr>, d))"

definition open_disk :: "archive_env \<Rightarrow> int \<Rightarrow> nat \<Rightarrow> AnitaEventWriterStruct_t \<times> event_disk \<Rightarrow> AnitaEventWriterStruct_t \<times> event_disk" where
  "open_disk env n i = (\<lambda>(w, d).
     if diskBitMasks ! i AND writeBitMask w = 0 then (w, d) else open_disk_event env n i (open_disk_header env n i (w, d)))"

definition cleverEventWrite :: "archive_env \<Rightarrow> byte list \<Rightarrow> AnitaEventHeader_t \<Rightarrow> AnitaEventWriterStruct_t \<times> event_disk \<Rightarrow> AnitaEventWriterStruct_t \<times> event_disk" where
  "cleverEventWrite env bytes h = (\<lambda>(w, d).
     let n = hd_eventNumber h;
         (w, d) = (if gotData w \<noteq> 0 \<and> fileEpoch w \<le> n then apfst (\<lambda>w. w\<lparr>gotData := 0\<rparr>) (closeEventFilesAndTidy w d) else (w, d))
     in fold (open_disk env n) [0..<DISK_TYPES] (write_buffer env h bytes (open_buffer_event env n (open_buffer_header env n (w, d)))))"

section \<open>The child processes\<close>

text \<open>\<open>copyFileToFile\<close> on files of bytes: a file that is not there gives an empty copy.\<close>

definition copy_bytes :: "archive_env \<Rightarrow> string \<Rightarrow> string \<Rightarrow> byte_files \<Rightarrow> byte_files" where
  "copy_bytes env theFile newFile fs = (if canOpen env newFile then fs(newFile \<mapsto> (case fs theFile of None \<Rightarrow> [] | Some b \<Rightarrow> b)) else fs)"

definition link_new :: "string \<Rightarrow> string \<Rightarrow> byte_files \<Rightarrow> byte_files" where
  "link_new old new fs = (if fs new = None then fs(new := fs old) else fs)"

definition zip_and_copy :: "archive_env \<Rightarrow> int \<Rightarrow> string \<Rightarrow> string list \<Rightarrow> byte_files \<Rightarrow> byte_files" where
  "zip_and_copy env disks name targets fs =
     (case fs name of None \<Rightarrow> fs
      | Some b \<Rightarrow>
          if b = [] then fs
          else
            let zipped = name @ ''.gz''; fs = (if canOpen env zipped then fs(zipped \<mapsto> gz env b) else fs); fs = fs(name := None) in
            (fold (\<lambda>i fs. if disks AND diskBitMasks ! i = 0 then fs
                else let out = targets ! i @ ''.gz''; temp = targets ! i @ ''.gz.new'' in (link_new temp out (copy_bytes env zipped temp fs))(temp := None))
              [0..<DISK_TYPES] fs)(zipped := None))"

definition zipBufferedHeaderFileAndCopy :: "archive_env \<Rightarrow> int \<Rightarrow> AnitaEventWriterStruct_t \<Rightarrow> byte_files \<Rightarrow> byte_files" where
  "zipBufferedHeaderFileAndCopy env disks w = zip_and_copy env disks (bufferHeaderFileName w) (currentHeaderFileName w)"

definition zipBufferedEventFileAndCopy :: "archive_env \<Rightarrow> int \<Rightarrow> AnitaEventWriterStruct_t \<Rightarrow> byte_files \<Rightarrow> byte_files" where
  "zipBufferedEventFileAndCopy env disks w = zip_and_copy env disks (bufferEventFileName w) (currentEventFileName w)"

definition run_job :: "archive_env \<Rightarrow> zip_job \<Rightarrow> byte_files \<Rightarrow> byte_files" where
  "run_job env job =
     (case job of Zip_events disks w \<Rightarrow> zipBufferedEventFileAndCopy env disks w | Zip_headers disks w \<Rightarrow> zipBufferedHeaderFileAndCopy env disks w)"

definition run_jobs :: "archive_env \<Rightarrow> event_disk \<Rightarrow> byte_files" where
  "run_jobs env d = fold (run_job env) (ed_jobs d) (ed_files d)"

end
