(* ===== verification/Archived.thy ===== *)
theory Archived
  imports Link_Queues Config_Settings Event_Pack Event_Writer
begin

text \<open>
  The archiver \<open>src/programs/Archived/Archived.c\<close>: every event that Prioritizerd links is packed, written
  to the disks that its priority selects, and handed to the telemetry. The files read, the random numbers,
  the bytes of a pedestal subtracted event in memory and what can be opened are parameters; \<open>None\<close> is
  an access outside an array or a value never set.
\<close>

section \<open>Data\<close>

definition NUM_PRIORITIES :: nat where "NUM_PRIORITIES = 10"
definition ARCHIVE_RAW :: int where "ARCHIVE_RAW = 1"
definition ARCHIVE_PEDSUBBED :: int where "ARCHIVE_PEDSUBBED = 2"
definition ARCHIVE_ENCODED :: int where "ARCHIVE_ENCODED = 3"
definition ARCHIVE_PEDSUBBED_ENCODED :: int where "ARCHIVE_PEDSUBBED_ENCODED = 4"

definition PRIORITIZERD_EVENT_DIR :: string where "PRIORITIZERD_EVENT_DIR = ''/tmp/anita/prioritizerd/event''"
definition PRIORITIZERD_EVENT_LINK_DIR :: string where "PRIORITIZERD_EVENT_LINK_DIR = ''/tmp/anita/prioritizerd/event/link''"
definition BASE_EVENT_TELEM_DIR :: string where "BASE_EVENT_TELEM_DIR = ''/tmp/anita/telem/event''"
definition EVENT_PRI_PREFIX :: string where "EVENT_PRI_PREFIX = ''pri''"
definition EVENT_ARCHIVE_DIR :: string where "EVENT_ARCHIVE_DIR = ''/current/event/''"
definition ANITA_INDEX_DIR :: string where "ANITA_INDEX_DIR = ''anita/index''"

datatype ar_action =
  Ar_remove string
| Ar_write string "byte list"
| Ar_header string AnitaEventHeader_t
| Ar_link string string
| Ar_makedir string

text \<open>The global and static variables; the writer of the index, which is never used, is left out.\<close>

record archived =
  ar_conf :: config_state
  ar_wd :: int
  ar_checks :: nat
  ar_draws :: nat
  ar_acts :: "ar_action list"
  ar_disk :: event_disk
  eventWriter :: AnitaEventWriterStruct_t
  theHead :: AnitaEventHeader_t
  pedSubBody :: PedSubbedEventBody_t
  outputBuffer :: mem
  writeTelem :: int
  onboardStorageType :: int
  telemType :: int
  priorityPPS1 :: int
  priorityPPS2 :: int
  prioritySoft :: int
  pps1FractionTelem :: real
  pps2FractionTelem :: real
  softFractionTelem :: real
  priDiskEncodingType :: "int list"
  priTelemEncodingType :: "int list"
  priTelemClockEncodingType :: "int list"
  priorityFractionGlobalDecimate :: "real list"
  priorityFractionDeleteHelium1 :: "real list"
  priorityFractionDeleteHelium2 :: "real list"
  priorityFractionDeleteUsb :: "real list"
  priorityFractionDeleteNeobrick :: "real list"
  priorityFractionDeletePmc :: "real list"
  priDiskEventMask :: "int list"
  eventDiskBitMask :: int
  ar_helium1CloneMask :: int
  ar_helium2CloneMask :: int
  ar_usbCloneMask :: int

record archived_system =
  ar_env :: config_env
  ar_dirs :: "ar_action list \<Rightarrow> link_env"
  ar_initFd :: int
  ar_addWatch :: "string \<Rightarrow> int"
  ar_arrivals :: "nat \<Rightarrow> event list option list"
  ar_headerFile :: "ar_action list \<Rightarrow> string \<Rightarrow> AnitaEventHeader_t \<Rightarrow> int \<times> AnitaEventHeader_t"
  ar_bodyFile :: "ar_action list \<Rightarrow> string \<Rightarrow> PedSubbedEventBody_t \<Rightarrow> int \<times> PedSubbedEventBody_t"
  bodyBytes :: "PedSubbedEventBody_t \<Rightarrow> byte list"
  drand48 :: "nat \<Rightarrow> real"
  ar_archive :: archive_env
  ar_canWrite :: "ar_action list \<Rightarrow> string \<Rightarrow> bool"

definition ar_do :: "ar_action list \<Rightarrow> archived \<Rightarrow> archived" where
  "ar_do as s = s\<lparr>ar_acts := ar_acts s @ as\<rparr>"

definition ar_draw :: "archived_system \<Rightarrow> archived \<Rightarrow> real \<times> archived" where
  "ar_draw sys s = (drand48 sys (ar_draws s), s\<lparr>ar_draws := Suc (ar_draws s)\<rparr>)"

section \<open>Decimation\<close>

definition shouldWeThrowAway :: "archived_system \<Rightarrow> int \<Rightarrow> archived \<Rightarrow> (bool \<times> archived) option" where
  "shouldWeThrowAway sys pri s =
     (let (testVal, s) = ar_draw sys s in
      map_option (\<lambda>f. (testVal < f, s)) (at_index (priorityFractionGlobalDecimate s) pri))"

definition fraction_delete :: "nat \<Rightarrow> archived \<Rightarrow> real list" where
  "fraction_delete diskInd =
     [priorityFractionDeleteHelium1, priorityFractionDeleteHelium2, priorityFractionDeleteUsb, priorityFractionDeletePmc, priorityFractionDeleteNeobrick] ! diskInd"

fun decimate_disks :: "archived_system \<Rightarrow> int \<Rightarrow> nat list \<Rightarrow> int \<Rightarrow> archived \<Rightarrow> (int \<times> archived) option" where
  "decimate_disks sys pri [] diskMask s = Some (diskMask, s)"
| "decimate_disks sys pri (diskInd # is) diskMask s =
     (if diskBitMasks ! diskInd AND diskMask = 0 then decimate_disks sys pri is diskMask s
      else
        let (testVal, s) = ar_draw sys s in
        do {
          f \<leftarrow> at_index (fraction_delete diskInd s) pri;
          decimate_disks sys pri is (if testVal < f then diskMask AND NOT (diskBitMasks ! diskInd) else diskMask) s
        })"

definition getDecimatedDiskMask :: "archived_system \<Rightarrow> int \<Rightarrow> int \<Rightarrow> archived \<Rightarrow> (int \<times> archived) option" where
  "getDecimatedDiskMask sys pri diskMask s = decimate_disks sys pri [0..<DISK_TYPES] diskMask s"

definition telemEvent :: "archived_system \<Rightarrow> int \<Rightarrow> archived \<Rightarrow> bool \<times> archived" where
  "telemEvent sys trigType s =
     (let (testVal, s) = ar_draw sys s in
      (if trigType AND 0x1 \<noteq> 0 then True
       else if trigType AND 0x2 \<noteq> 0 then testVal < pps1FractionTelem s
       else if trigType AND 0x4 \<noteq> 0 then testVal < pps2FractionTelem s
       else if trigType AND 0x8 \<noteq> 0 then testVal < softFractionTelem s
       else True, s))"

section \<open>Packing and writing\<close>

definition getFilePrefix :: "int \<Rightarrow> string" where
  "getFilePrefix dataType =
     (if dataType = ARCHIVE_RAW then ''ev'' else if dataType = ARCHIVE_PEDSUBBED then ''psev''
      else if dataType = ARCHIVE_ENCODED then ''encev'' else if dataType = ARCHIVE_PEDSUBBED_ENCODED then ''psencev''
      else ''unknownev'')"

text \<open>The encoding types of all channels; \<open>pedUnixTime\<close> is never set, and never read.\<close>

definition enc_control :: "int \<Rightarrow> int \<Rightarrow> EncodeControlStruct_t" where
  "enc_control ty clock =
     \<lparr>pedUnixTime = 0, encTypes = map (\<lambda>surf. map (\<lambda>chan. encType_of_code (if chan = 8 then clock else ty)) [0..<CHANNELS_PER_SURF]) [0..<ACTIVE_SURFS]\<rparr>"

definition copy_body :: "archived_system \<Rightarrow> PedSubbedEventBody_t \<Rightarrow> CompressErrorCode_t \<times> mem \<times> nat option" where
  "copy_body sys bd = (let bytes = bodyBytes sys bd in (COMPRESS_E_OK, \<lambda>a. if a < length bytes then bytes ! a else 0, Some (length bytes)))"

text \<open>The \<open>switch\<close> statements, which fall through; in the second no case may apply.\<close>

definition pack_for_disk :: "archived_system \<Rightarrow> EncodeControlStruct_t \<Rightarrow> archived \<Rightarrow> (CompressErrorCode_t \<times> mem \<times> nat option) option" where
  "pack_for_disk sys cntl s =
     (if onboardStorageType s = ARCHIVE_ENCODED \<or> onboardStorageType s = ARCHIVE_PEDSUBBED_ENCODED then packPedSubbedEvent (pedSubBody s) cntl 0 (\<lambda>_. 0)
      else Some (copy_body sys (pedSubBody s)))"

definition pack_for_telem :: "archived_system \<Rightarrow> EncodeControlStruct_t \<Rightarrow> CompressErrorCode_t \<Rightarrow> nat option \<Rightarrow> archived
    \<Rightarrow> (CompressErrorCode_t \<times> mem \<times> nat option) option" where
  "pack_for_telem sys cntl retVal numBytes s =
     (if telemType s = ARCHIVE_RAW \<or> telemType s = ARCHIVE_PEDSUBBED then Some (copy_body sys (pedSubBody s))
      else if telemType s = ARCHIVE_PEDSUBBED_ENCODED then packPedSubbedEvent (pedSubBody s) cntl 0 (\<lambda>_. 0)
      else Some (retVal, \<lambda>_. 0, numBytes))"

definition output_bytes :: "nat \<Rightarrow> archived \<Rightarrow> byte list" where
  "output_bytes numBytes s = map (outputBuffer s) [0..<numBytes]"

definition writeOutputToDisk :: "archived_system \<Rightarrow> nat \<Rightarrow> archived \<Rightarrow> archived" where
  "writeOutputToDisk sys numBytes s =
     (let (w, d) = cleverEventWrite (ar_archive sys) (output_bytes numBytes s) (theHead s) (eventWriter s, ar_disk s)
      in s\<lparr>eventWriter := w, ar_disk := d\<rparr>)"

definition eventTelemDir :: "int \<Rightarrow> string" where
  "eventTelemDir pri = BASE_EVENT_TELEM_DIR @ ''/'' @ EVENT_PRI_PREFIX @ show_int pri"

definition eventTelemLinkDir :: "int \<Rightarrow> string" where
  "eventTelemLinkDir pri = eventTelemDir pri @ ''/link''"

definition telem_priority :: "archived \<Rightarrow> int" where
  "telem_priority s =
     (let trig = tf_trigType (hd_turfio (theHead s)); ok = (\<lambda>p. 0 \<le> p \<and> p \<le> 9);
          pri = hd_priority (theHead s) AND 0xf;
          pri = (if trig AND 0x2 \<noteq> 0 \<and> ok (priorityPPS1 s) then priorityPPS1 s else pri);
          pri = (if trig AND 0x4 \<noteq> 0 \<and> ok (priorityPPS2 s) then priorityPPS2 s else pri);
          pri = (if trig AND 0x8 \<noteq> 0 \<and> ok (prioritySoft s) then prioritySoft s else pri)
      in if pri < 0 \<or> 9 < pri then 9 else pri)"

definition writeOutputForTelem :: "archived_system \<Rightarrow> nat \<Rightarrow> archived \<Rightarrow> archived" where
  "writeOutputForTelem sys numBytes s =
     (let pri = telem_priority s; (yes, s) = telemEvent sys (tf_trigType (hd_turfio (theHead s))) s in
      if yes \<and> justHeader (eventWriter s) = 0 then
        let number = show_int (hd_eventNumber (theHead s));
            bodyName = eventTelemDir pri @ ''/ev_'' @ number @ ''.dat''; headName = eventTelemDir pri @ ''/hd_'' @ number @ ''.dat'' in
        if ar_canWrite sys (ar_acts s) bodyName then
          ar_do [Ar_write bodyName (output_bytes numBytes s), Ar_header headName (theHead s), Ar_link headName (eventTelemLinkDir pri)] s
        else s
      else s)"

definition event_priority :: "AnitaEventHeader_t \<Rightarrow> int" where
  "event_priority h = (let priority = hd_priority h AND 0xf in if priority < 0 \<or> 9 < priority then 9 else priority)"

definition select_disks :: "archived_system \<Rightarrow> archived \<Rightarrow> archived option" where
  "select_disks sys s =
     (let priority = event_priority (theHead s) in
      do {
        diskMask \<leftarrow> at_index (priDiskEventMask s) priority;
        let thisBitMask = eventDiskBitMask s AND diskMask;
        let thisBitMask = (if eventDiskBitMask s AND 0x10 \<noteq> 0 \<and> diskMask AND 0x10 \<noteq> 0 then thisBitMask OR 0x10 else thisBitMask);
        (thisBitMask, s) \<leftarrow> getDecimatedDiskMask sys priority thisBitMask s;
        Some (s\<lparr>eventWriter := (eventWriter s)\<lparr>writeBitMask := u32 thisBitMask\<rparr>\<rparr>)
      })"

definition processEvent :: "archived_system \<Rightarrow> archived \<Rightarrow> archived option" where
  "processEvent sys s =
     do {
       s \<leftarrow> select_disks sys s;
       let priority = event_priority (theHead s);
       let just = (justHeader (eventWriter s) \<noteq> 0);
       diskType \<leftarrow> at_index (priDiskEncodingType s) priority;
       telemEnc \<leftarrow> at_index (priTelemEncodingType s) priority;
       clockEnc \<leftarrow> at_index (priTelemClockEncodingType s) priority;
       (retVal, m, numBytes) \<leftarrow> (if just then Some (COMPRESS_E_OK, outputBuffer s, Some 0) else pack_for_disk sys (enc_control diskType diskType) s);
       let s = s\<lparr>outputBuffer := m\<rparr>;
       s \<leftarrow> (if retVal = COMPRESS_E_OK \<or> just then map_option (\<lambda>n. writeOutputToDisk sys n s) numBytes else Some s);
       (retVal, m, numBytes) \<leftarrow> (if just then Some (retVal, outputBuffer s, numBytes) else pack_for_telem sys (enc_control telemEnc clockEnc) retVal numBytes s);
       let s = s\<lparr>outputBuffer := m\<rparr>;
       if writeTelem s \<noteq> 0 \<and> retVal = COMPRESS_E_OK then map_option (\<lambda>n. writeOutputForTelem sys n s) numBytes else Some s
     }"

section \<open>The main loop\<close>

definition body_name :: "AnitaEventHeader_t \<Rightarrow> string" where
  "body_name h = PRIORITIZERD_EVENT_DIR @ ''/psev_'' @ show_int (hd_eventNumber h) @ ''.dat''"

definition set_just :: "int \<Rightarrow> archived \<Rightarrow> archived" where
  "set_just j s = s\<lparr>eventWriter := (eventWriter s)\<lparr>justHeader := j\<rparr>\<rparr>"

text \<open>One link. \<open>lastEventNumber\<close> is never set, so that no gap of the numbers is reported.\<close>

definition archive_link :: "archived_system \<Rightarrow> string \<Rightarrow> archived \<Rightarrow> archived option" where
  "archive_link sys name s =
     (let (retVal, h) = ar_headerFile sys (ar_acts s) (PRIORITIZERD_EVENT_DIR @ ''/'' @ name) (theHead s);
          s = ar_do [Ar_remove (PRIORITIZERD_EVENT_DIR @ ''/'' @ name), Ar_remove (PRIORITIZERD_EVENT_LINK_DIR @ ''/'' @ name)] (s\<lparr>theHead := h\<rparr>) in
      if retVal \<noteq> 0 then Some s
      else do {
        (throw, s) \<leftarrow> shouldWeThrowAway sys (hd_priority h AND 0xf) s;
        s \<leftarrow> (if throw then processEvent sys (set_just 1 s)
             else
               let (retVal, b) = ar_bodyFile sys (ar_acts s) (body_name h) (pedSubBody s); s = s\<lparr>pedSubBody := b\<rparr> in
               processEvent sys (if retVal = 0 then s else set_just 1 s));
        Some (ar_do [Ar_remove (body_name h)] s)
      })"

text \<open>\<open>None\<close> inside is the exit when the directory cannot be watched.\<close>

definition watch_links :: "archived_system \<Rightarrow> archived \<times> link_watch \<Rightarrow> (archived \<times> link_watch \<times> int) option option" where
  "watch_links sys = (\<lambda>(s, w).
     if ar_wd s = 0 then
       map_option (\<lambda>(wd, w). if wd \<le> 0 then None else Some (s\<lparr>ar_wd := wd\<rparr>, w, getNumLinks wd w))
         (setupLinkWatchDir (ar_dirs sys (ar_acts s)) (ar_initFd sys) (ar_addWatch sys PRIORITIZERD_EVENT_LINK_DIR) PRIORITIZERD_EVENT_LINK_DIR w)
     else Some (Some (s, w, 0)))"

definition checkEvents :: "archived_system \<Rightarrow> archived \<times> link_watch \<Rightarrow> (archived \<times> link_watch) option option" where
  "checkEvents sys x =
     do {
       r \<leftarrow> watch_links sys x;
       case r of None \<Rightarrow> Some None
       | Some (s, w, numLinks) \<Rightarrow>
           do {
             (retVal, w) \<leftarrow> checkLinkDirs (ar_dirs sys (ar_acts s)) 1 0 (ar_arrivals sys (ar_checks s)) w;
             let numLinks = (if retVal \<noteq> 0 \<or> numLinks \<noteq> 0 then getNumLinks (ar_wd s) w else numLinks);
             let s = set_just 0 (s\<lparr>ar_checks := Suc (ar_checks s)\<rparr>);
             (s, w) \<leftarrow> each_link getFirstLink (\<lambda>_ name s. Option.bind s (archive_link sys (case name of None \<Rightarrow> ''(null)'' | Some n \<Rightarrow> n))) (ar_wd s) [0..<nat numLinks] (Some s, w);
             map_option (\<lambda>s. Some (s, w)) s
           }
     }"

fun check_rounds :: "archived_system \<Rightarrow> nat \<Rightarrow> archived \<times> link_watch \<Rightarrow> (archived \<times> link_watch) option option" where
  "check_rounds sys 0 x = Some (Some x)"
| "check_rounds sys (Suc n) x = do { r \<leftarrow> checkEvents sys x; case r of None \<Rightarrow> Some None | Some x \<Rightarrow> check_rounds sys n x }"

section \<open>The configuration\<close>

definition get_ints :: "string \<Rightarrow> int list \<Rightarrow> kvp \<Rightarrow> (int list \<times> kvp) option" where
  "get_ints key a k = map_option (\<lambda>(_, v, _, k). (v, k)) (kvpGetIntArray key a 10 k)"

definition get_floats :: "string \<Rightarrow> real list \<Rightarrow> kvp \<Rightarrow> (real list \<times> kvp) option" where
  "get_floats key a k = map_option (\<lambda>(_, v, _, k). (v, k)) (kvpGetFloatArray key a (int NUM_PRIORITIES) k)"

text \<open>The sum of two status codes is 0 exactly when both are. \<open>Fraction Delete\<close> of the triggers is read but not used.\<close>

definition read_numbers :: "kvp \<Rightarrow> archived \<Rightarrow> archived \<times> kvp" where
  "read_numbers k s =
     (let (wt, k) = kvpGetInt ''writeTelem'' 0 k; (_, k) = kvpGetInt ''printToScreen'' 0 k; (_, k) = kvpGetInt ''verbosity'' 0 k;
          (storage, k) = kvpGetInt ''onboardStorageType'' 1 k; (telem, k) = kvpGetInt ''telemType'' 1 k;
          (p1, k) = kvpGetInt ''priorityPPS1'' (- 1) k; (p2, k) = kvpGetInt ''priorityPPS2'' (- 1) k; (ps, k) = kvpGetInt ''prioritySoft'' (- 1) k;
          (_, k) = kvpGetFloat ''pps1FractionDelete'' 0 k; (_, k) = kvpGetFloat ''pps2FractionDelete'' 0 k; (_, k) = kvpGetFloat ''softFractionDelete'' 0 k;
          (f1, k) = kvpGetFloat ''pps1FractionTelem'' 0 k; (f2, k) = kvpGetFloat ''pps2FractionTelem'' 0 k; (fs, k) = kvpGetFloat ''softFractionTelem'' 0 k
      in (s\<lparr>writeTelem := wt, onboardStorageType := storage, telemType := telem, priorityPPS1 := p1, priorityPPS2 := p2, prioritySoft := ps,
            pps1FractionTelem := f1, pps2FractionTelem := f2, softFractionTelem := fs\<rparr>, k))"

definition read_arrays :: "kvp \<Rightarrow> archived \<Rightarrow> (archived \<times> kvp) option" where
  "read_arrays k s =
     do {
       (disk, k) \<leftarrow> get_ints ''priDiskEncodingType'' (priDiskEncodingType s) k;
       (telem, k) \<leftarrow> get_ints ''priTelemEncodingType'' (priTelemEncodingType s) k;
       (clock, k) \<leftarrow> get_ints ''priTelemClockEncodingType'' (priTelemClockEncodingType s) k;
       (glob, k) \<leftarrow> get_floats ''priorityFractionGlobalDecimate'' (priorityFractionGlobalDecimate s) k;
       (he1, k) \<leftarrow> get_floats ''priorityFractionDeleteHelium1'' (priorityFractionDeleteHelium1 s) k;
       (he2, k) \<leftarrow> get_floats ''priorityFractionDeleteHelium2'' (priorityFractionDeleteHelium2 s) k;
       (usb, k) \<leftarrow> get_floats ''priorityFractionDeleteUsb'' (priorityFractionDeleteUsb s) k;
       (neo, k) \<leftarrow> get_floats ''priorityFractionDeleteNeobrick'' (priorityFractionDeleteNeobrick s) k;
       (pmc, k) \<leftarrow> get_floats ''priorityFractionDeletePmc'' (priorityFractionDeletePmc s) k;
       (event_mask, k) \<leftarrow> get_ints ''priDiskEventMask'' (priDiskEventMask s) k;
       Some (s\<lparr>priDiskEncodingType := disk, priTelemEncodingType := telem, priTelemClockEncodingType := clock, priorityFractionGlobalDecimate := glob,
           priorityFractionDeleteHelium1 := he1, priorityFractionDeleteHelium2 := he2, priorityFractionDeleteUsb := usb,
           priorityFractionDeleteNeobrick := neo, priorityFractionDeletePmc := pmc, priDiskEventMask := event_mask\<rparr>, k)
     }"

definition readConfigFile_ar :: "archived_system \<Rightarrow> archived \<Rightarrow> (bool \<times> archived) option" where
  "readConfigFile_ar sys s =
     do {
       let c = (ar_conf s)\<lparr>store := kvpReset (store (ar_conf s))\<rparr>;
       (e1, c) \<leftarrow> configLoad (ar_env sys) ''Archived.config'' ''archived'' c;
       (e2, c) \<leftarrow> configLoad (ar_env sys) ''Archived.config'' ''output'' c;
       if e1 = CONFIG_E_OK \<and> e2 = CONFIG_E_OK then
         let (s, k) = read_numbers (store c) s in
         do {
           (s, k) \<leftarrow> read_arrays k s;
           Some (True, s\<lparr>ar_conf := c\<lparr>store := k\<rparr>\<rparr>)
         }
       else Some (False, s\<lparr>ar_conf := c\<rparr>)
     }"

definition prepWriterStructs_ar :: "archived \<Rightarrow> archived" where
  "prepWriterStructs_ar s =
     (let (w, d) = closeEventFilesAndTidy (eventWriter s) (ar_disk s) in
      s\<lparr>eventWriter := w\<lparr>relBaseName := EVENT_ARCHIVE_DIR, filePrefix := getFilePrefix (onboardStorageType s),
          currentHeaderFilePtr := map (\<lambda>_. None) (currentHeaderFilePtr w), currentEventFilePtr := map (\<lambda>_. None) (currentEventFilePtr w),
          helium1CloneMask := u32 (ar_helium1CloneMask s), helium2CloneMask := u32 (ar_helium2CloneMask s), usbCloneMask := u32 (ar_usbCloneMask s),
          gotData := 0, writeBitMask := u32 (eventDiskBitMask s)\<rparr>, ar_disk := d\<rparr>)"

text \<open>The beginning of \<open>main\<close>; run number and label of the USB disk go to the index only.\<close>

definition archived_start :: "archived_system \<Rightarrow> archived \<Rightarrow> archived option" where
  "archived_start sys s =
     do {
       (_, s) \<leftarrow> readConfigFile_ar sys s;
       let c = (ar_conf s)\<lparr>store := kvpReset (store (ar_conf s))\<rparr>;
       (e, c) \<leftarrow> configLoad (ar_env sys) ''anitaSoft.config'' ''global'' c;
       let s = (if e \<noteq> CONFIG_E_OK then s\<lparr>ar_conf := c\<rparr>
           else
             let (disks, k) = kvpGetInt ''eventDiskBitMask'' 1 (store c);
                 (noHe1, k) = kvpGetInt ''disableHelium1'' 0 k; disks = (if noHe1 \<noteq> 0 then disks AND NOT 0x1 else disks);
                 (noHe2, k) = kvpGetInt ''disableHelium2'' 0 k; disks = (if noHe2 \<noteq> 0 then disks AND NOT 0x2 else disks);
                 (noUsb, k) = kvpGetInt ''disableUsb'' 0 k; disks = (if noUsb \<noteq> 0 then disks AND NOT 0x4 else disks);
                 (he1, k) = kvpGetInt ''helium1CloneMask'' 0 k; (he2, k) = kvpGetInt ''helium2CloneMask'' 0 k; (usb, k) = kvpGetInt ''usbCloneMask'' 0 k;
                 (_, k) = kvpGetString ''usbName'' k
             in s\<lparr>ar_conf := c\<lparr>store := k\<rparr>, eventDiskBitMask := disks, ar_helium1CloneMask := he1, ar_helium2CloneMask := he2, ar_usbCloneMask := usb\<rparr>);
       Some (ar_do (map (\<lambda>pri. Ar_makedir (eventTelemLinkDir (int pri))) [0..<NUM_PRIORITIES] @ [Ar_makedir ANITA_INDEX_DIR, Ar_makedir PRIORITIZERD_EVENT_LINK_DIR]) s)
     }"

text \<open>
  The loop of \<open>main\<close>: \<open>ns\<close> has the number of rounds until each signal, all but the last of which make
  the program read its configuration again.
\<close>

fun archived_sessions :: "archived_system \<Rightarrow> nat list \<Rightarrow> archived \<times> link_watch \<Rightarrow> (archived \<times> link_watch) option option" where
  "archived_sessions sys [] x = Some (Some x)"
| "archived_sessions sys (n # ns) x =
     do {
       (_, s) \<leftarrow> readConfigFile_ar sys (fst x);
       r \<leftarrow> check_rounds sys n (prepWriterStructs_ar s, snd x);
       case r of None \<Rightarrow> Some None | Some x \<Rightarrow> archived_sessions sys ns x
     }"

definition close_archive :: "archived \<Rightarrow> archived" where
  "close_archive s = (let (w, d) = closeEventFilesAndTidy (eventWriter s) (ar_disk s) in s\<lparr>eventWriter := w, ar_disk := d\<rparr>)"

definition archived_main :: "archived_system \<Rightarrow> nat list \<Rightarrow> archived \<times> link_watch \<Rightarrow> archived option option" where
  "archived_main sys ns x =
     do {
       s \<leftarrow> archived_start sys (fst x);
       r \<leftarrow> archived_sessions sys ns (s, snd x);
       Some (map_option (\<lambda>(s, w). close_archive s) r)
     }"

end
