(* ===== verification/Event_Files.thy ===== *)
theory Event_Files
  imports Event_Writer
begin

text \<open>
  What the writer of event files leaves behind: every file of the buffer directory holds the headers, or
  the bodies, of the events of its hundred in their order, and the child processes bring it to the disks.
\<close>

section \<open>Names\<close>

definition sub_dir :: "string \<Rightarrow> int \<Rightarrow> string" where
  "sub_dir base n = base @ ''/ev'' @ show_int (dir_num (EVENTS_PER_FILE * EVENT_FILES_PER_DIR * EVENT_FILES_PER_DIR) n)
     @ ''/ev'' @ show_int (dir_num (EVENTS_PER_FILE * EVENT_FILES_PER_DIR) n)"

definition file_name :: "string \<Rightarrow> string \<Rightarrow> int \<Rightarrow> string" where
  "file_name base prefix n = sub_dir base n @ ''/'' @ prefix @ ''_'' @ show_int (dir_num EVENTS_PER_FILE n) @ ''.dat''"

abbreviation buffer_base :: "string \<Rightarrow> string" where
  "buffer_base rel \<equiv> DISK_BUFFER_DIR @ ''/'' @ rel"

abbreviation disk_base :: "nat \<Rightarrow> string \<Rightarrow> string" where
  "disk_base i rel \<equiv> diskNames ! i @ ''/'' @ rel"

definition number_ok :: "int \<Rightarrow> bool" where
  "number_ok n \<longleftrightarrow> 0 \<le> n \<and> n < 2 ^ 31 - 100"

lemma dir_num_ok: "number_ok n \<Longrightarrow> 0 < k \<Longrightarrow> dir_num k n = k * (n div k)"
proof -
  assume a: "number_ok n" "0 < k"
  then have "0 \<le> n div k"
    by (simp add: number_ok_def pos_imp_zdiv_nonneg_iff)
  then have "0 \<le> k * (n div k)" "k * (n div k) \<le> n"
    using a pos_mod_sign [of k n] mult_div_mod_eq [of k n] by (simp, linarith)
  then show ?thesis
    using a(1) by (simp add: dir_num_def number_ok_def u32_def s32_def take_bit_int_eq_self signed_take_bit_int_eq_self)
qed

lemma number_epoch: "number_ok n \<Longrightarrow> u32 (dir_num EVENTS_PER_FILE n + EVENTS_PER_FILE) = 100 * (n div 100) + 100"
  using dir_num_ok [of n 100] by (auto simp: number_ok_def EVENTS_PER_FILE_def u32_def take_bit_int_eq_self)

text \<open>All events of a hundred have the same file, and no others.\<close>

lemma file_name_group:
  assumes "number_ok n" "number_ok n'" "n div 100 = n' div 100"
  shows "file_name base prefix n = file_name base prefix n'" "sub_dir base n = sub_dir base n'"
proof -
  have "n div 10000 = n' div 10000" "n div 1000000 = n' div 1000000"
    using assms(3) zdiv_zmult2_eq [of 100 n 100] zdiv_zmult2_eq [of 100 n' 100] zdiv_zmult2_eq [of 10000 n 100] zdiv_zmult2_eq [of 10000 n' 100] by simp_all
  then show "file_name base prefix n = file_name base prefix n'" "sub_dir base n = sub_dir base n'"
    using assms by (simp_all add: file_name_def sub_dir_def dir_num_ok EVENTS_PER_FILE_def EVENT_FILES_PER_DIR_def)
qed

lemma last_split:
  assumes "xs @ c # ys = xs' @ c # ys'" "c \<notin> set ys" "c \<notin> set ys'"
  shows "xs = xs' \<and> ys = ys'"
proof -
  have "takeWhile (\<lambda>x. x \<noteq> c) (rev (zs @ c # us)) = rev us" if "c \<notin> set us" for zs us :: "'a list"
    using that takeWhile_append2 [of "rev us" "\<lambda>x. x \<noteq> c" "c # rev zs"] by auto
  then have "rev ys = rev ys'"
    using assms by metis
  then show ?thesis
    using assms(1) by simp
qed

lemma show_int_digits: "0 \<le> a \<Longrightarrow> c \<in> set (show_int a) \<Longrightarrow> is_digit c"
  using show_uint_digits [of "nat a"] by (auto simp: show_int_nat)

lemma file_name_inj:
  assumes "file_name base p n = file_name base' p' n'" "number_ok n" "number_ok n'" "CHR ''/'' \<notin> set p" "CHR ''/'' \<notin> set p'"
  shows "p = p' \<and> n div 100 = n' div 100 \<and> sub_dir base n = sub_dir base' n'"
proof -
  let ?a = "show_int (dir_num EVENTS_PER_FILE n)" and ?b = "show_int (dir_num EVENTS_PER_FILE n')"
  have nonneg: "0 \<le> dir_num EVENTS_PER_FILE n" "0 \<le> dir_num EVENTS_PER_FILE n'"
    using assms(2,3) dir_num_ok [of n 100] dir_num_ok [of n' 100] by (auto simp: EVENTS_PER_FILE_def number_ok_def)
  have "(sub_dir base n @ ''/'' @ p) @ CHR ''_'' # ?a = (sub_dir base' n' @ ''/'' @ p') @ CHR ''_'' # ?b"
    using assms(1) by (simp add: file_name_def)
  moreover have "CHR ''_'' \<notin> set ?a" "CHR ''_'' \<notin> set ?b"
    using show_int_digits [OF nonneg(1), of "CHR ''_''"] show_int_digits [OF nonneg(2), of "CHR ''_''"] by (auto simp: is_digit_def)
  ultimately have 1: "sub_dir base n @ CHR ''/'' # p = sub_dir base' n' @ CHR ''/'' # p'" "?a = ?b"
    using last_split [of "sub_dir base n @ ''/'' @ p" "CHR ''_''" ?a "sub_dir base' n' @ ''/'' @ p'" ?b] by auto
  have "sub_dir base n = sub_dir base' n'" "p = p'"
    using last_split [OF 1(1)] assms(4,5) by auto
  moreover have "n div 100 = n' div 100"
    using show_int_inj [OF nonneg 1(2)] dir_num_ok [OF assms(2), of 100] dir_num_ok [OF assms(3), of 100] by (simp add: EVENTS_PER_FILE_def)
  ultimately show ?thesis
    by simp
qed

section \<open>One event\<close>

definition pmc_ok :: "AnitaEventWriterStruct_t \<Rightarrow> bool" where
  "pmc_ok w \<longleftrightarrow> length (currentHeaderFilePtr w) = DISK_TYPES \<and> length (currentSubDirName w) = DISK_TYPES \<and> length (currentHeaderFileName w) = DISK_TYPES
     \<and> length (currentEventFilePtr w) = DISK_TYPES \<and> length (currentEventFileName w) = DISK_TYPES \<and> length (currentDirName w) = DISK_TYPES
     \<and> (currentHeaderFilePtr w ! 3 \<noteq> None \<longrightarrow> take 12 (currentSubDirName w ! 3) = ''/mnt/pmcdata'')"

definition writer_idle :: "string \<Rightarrow> string \<Rightarrow> AnitaEventWriterStruct_t \<Rightarrow> bool" where
  "writer_idle rel pre w \<longleftrightarrow> relBaseName w = rel \<and> filePrefix w = pre \<and> gotData w = 0 \<and> bufferHeaderFilePtr w = None \<and> bufferEventFilePtr w = None \<and> pmc_ok w"

definition writer_at :: "string \<Rightarrow> string \<Rightarrow> int \<Rightarrow> bool \<Rightarrow> AnitaEventWriterStruct_t \<Rightarrow> bool" where
  "writer_at rel pre n bodies w \<longleftrightarrow> relBaseName w = rel \<and> filePrefix w = pre \<and> gotData w \<noteq> 0 \<and> fileEpoch w = 100 * (n div 100) + 100
     \<and> bufferHeaderFileName w = file_name (buffer_base rel) ''hd'' n \<and> bufferHeaderFilePtr w = Some (bufferHeaderFileName w) \<and> bufferSubDirName w = sub_dir (buffer_base rel) n
     \<and> (if bodies then bufferEventFileName w = file_name (buffer_base rel) pre n \<and> bufferEventFilePtr w = Some (bufferEventFileName w) else bufferEventFilePtr w = None) \<and> pmc_ok w"

definition file_bytes :: "byte_files \<Rightarrow> string \<Rightarrow> byte list" where
  "file_bytes fs f = (case fs f of None \<Rightarrow> [] | Some b \<Rightarrow> b)"

definition buffered :: "archive_env \<Rightarrow> string \<Rightarrow> string \<Rightarrow> AnitaEventHeader_t \<Rightarrow> byte list \<Rightarrow> bool \<Rightarrow> byte_files \<Rightarrow> byte_files" where
  "buffered env rel pre h bytes just fs =
     (let H = file_name (buffer_base rel) ''hd'' (hd_eventNumber h); E = file_name (buffer_base rel) pre (hd_eventNumber h);
          fs = fs(H \<mapsto> file_bytes fs H @ headerBytes env h) in
      if just then fs else fs(E \<mapsto> file_bytes fs E @ bytes))"

definition disk_at :: "string \<Rightarrow> string \<Rightarrow> int \<Rightarrow> nat \<Rightarrow> AnitaEventWriterStruct_t \<Rightarrow> bool" where
  "disk_at rel pre n i w \<longleftrightarrow>
     (currentHeaderFilePtr w ! i \<noteq> None \<longrightarrow> currentHeaderFileName w ! i = file_name (disk_base i rel) ''hd'' n \<and> currentSubDirName w ! i = sub_dir (disk_base i rel) n)
     \<and> (currentEventFilePtr w ! i \<noteq> None \<longrightarrow> currentHeaderFilePtr w ! i \<noteq> None \<and> currentEventFileName w ! i = file_name (disk_base i rel) pre n)"

definition disks_at :: "string \<Rightarrow> string \<Rightarrow> int \<Rightarrow> AnitaEventWriterStruct_t \<Rightarrow> bool" where
  "disks_at rel pre n w \<longleftrightarrow> (\<forall>i<DISK_TYPES. i \<noteq> 3 \<longrightarrow> disk_at rel pre n i w)"

definition same_disks :: "AnitaEventWriterStruct_t \<Rightarrow> AnitaEventWriterStruct_t \<Rightarrow> bool" where
  "same_disks w w' \<longleftrightarrow> currentHeaderFilePtr w' = currentHeaderFilePtr w \<and> currentEventFilePtr w' = currentEventFilePtr w \<and> currentHeaderFileName w' = currentHeaderFileName w
     \<and> currentEventFileName w' = currentEventFileName w \<and> currentSubDirName w' = currentSubDirName w \<and> justHeader w' = justHeader w \<and> writeBitMask w' = writeBitMask w"

lemma same_disks: "same_disks w w" "same_disks w w' \<Longrightarrow> disks_at rel pre n w' = disks_at rel pre n w"
  by (simp_all add: same_disks_def disks_at_def disk_at_def)

lemma writer_at_group: "writer_at rel pre n bodies w \<Longrightarrow> number_ok n \<Longrightarrow> number_ok n' \<Longrightarrow> n div 100 = n' div 100 \<Longrightarrow> writer_at rel pre n' bodies w"
  using file_name_group [of n n'] by (simp add: writer_at_def)

lemma open_append_open: "canOpen env f \<Longrightarrow> open_append env f d = (Some f, d\<lparr>ed_files := (ed_files d)(f \<mapsto> file_bytes (ed_files d) f)\<rparr>)"
  by (simp add: open_append_def file_bytes_def)

lemma append_to_open: "ed_files d f \<noteq> None \<Longrightarrow> append_to f b d = d\<lparr>ed_files := (ed_files d)(f \<mapsto> file_bytes (ed_files d) f @ b)\<rparr>"
  by (auto simp: append_to_def file_bytes_def)

lemma open_header_at:
  assumes "writer_at rel pre n bodies w \<or> writer_idle rel pre w \<and> \<not> bodies" "\<And>f. canOpen env f" "number_ok n"
    and "bufferHeaderFilePtr w \<noteq> None \<Longrightarrow> ed_files d (file_name (buffer_base rel) ''hd'' n) \<noteq> None"
  shows "\<exists>w' d'. open_buffer_header env n (w, d) = (w', d') \<and> writer_at rel pre n bodies (w'\<lparr>gotData := 1\<rparr>) \<and> same_disks w w'
    \<and> ed_jobs d' = ed_jobs d \<and> ed_files d' = (ed_files d)(file_name (buffer_base rel) ''hd'' n \<mapsto> file_bytes (ed_files d) (file_name (buffer_base rel) ''hd'' n))"
proof (cases "bufferHeaderFilePtr w")
  case None
  have name: "DISK_BUFFER_DIR @ ''/'' @ rel @ ''/ev'' @ show_int (dir_num (EVENTS_PER_FILE * EVENT_FILES_PER_DIR * EVENT_FILES_PER_DIR) n)
      @ ''/ev'' @ show_int (dir_num (EVENTS_PER_FILE * EVENT_FILES_PER_DIR) n) @ ''/hd_'' @ show_int (dir_num EVENTS_PER_FILE n) @ ''.dat'' = file_name (buffer_base rel) ''hd'' n"
    by (simp add: file_name_def sub_dir_def)
  have "writer_idle rel pre w" "\<not> bodies"
    using assms(1) None by (auto simp: writer_at_def)
  then show ?thesis
    using None assms(2) number_epoch [OF assms(3)]
    by (simp add: open_buffer_header_def Let_def open_append_open writer_at_def writer_idle_def pmc_ok_def make_dir_def file_name_def sub_dir_def same_disks_def)
next
  case (Some f)
  then show ?thesis
    using assms(1,4) by (auto simp: open_buffer_header_def writer_at_def writer_idle_def pmc_ok_def file_bytes_def same_disks_def)
qed

lemma open_event_at:
  assumes "writer_at rel pre n bodies (w\<lparr>gotData := 1\<rparr>)" "\<And>f. canOpen env f" "bodies \<Longrightarrow> ed_files d (file_name (buffer_base rel) pre n) \<noteq> None"
  shows "\<exists>w' d'. open_buffer_event env n (w, d) = (w', d') \<and> writer_at rel pre n (bodies \<or> justHeader w = 0) (w'\<lparr>gotData := 1\<rparr>) \<and> same_disks w w' \<and> ed_jobs d' = ed_jobs d
    \<and> ed_files d' = (if justHeader w = 0 then (ed_files d)(file_name (buffer_base rel) pre n \<mapsto> file_bytes (ed_files d) (file_name (buffer_base rel) pre n)) else ed_files d)"
proof (cases "bufferEventFilePtr w")
  case None
  then show ?thesis
    using assms(1,2)
    by (auto simp: open_buffer_event_def Let_def open_append_open writer_at_def pmc_ok_def file_name_def same_disks_def split: if_splits)
next
  case (Some f)
  then show ?thesis
    using assms(1,3) by (auto simp: open_buffer_event_def writer_at_def file_bytes_def same_disks_def split: if_splits)
qed

lemma write_buffer_at:
  assumes "writer_at rel pre (hd_eventNumber h) bodies (w\<lparr>gotData := 1\<rparr>)" "justHeader w = 0 \<Longrightarrow> bodies" "pre \<noteq> ''hd''" "CHR ''/'' \<notin> set pre" "number_ok (hd_eventNumber h)"
    and "ed_files d (file_name (buffer_base rel) ''hd'' (hd_eventNumber h)) \<noteq> None"
    and "justHeader w = 0 \<Longrightarrow> ed_files d (file_name (buffer_base rel) pre (hd_eventNumber h)) \<noteq> None"
  shows "\<exists>w' d'. write_buffer env h bytes (w, d) = (w', d') \<and> writer_at rel pre (hd_eventNumber h) bodies w' \<and> same_disks w w'
    \<and> ed_jobs d' = ed_jobs d \<and> ed_files d' = buffered env rel pre h bytes (justHeader w \<noteq> 0) (ed_files d)"
proof -
  have ne: "file_name (buffer_base rel) ''hd'' (hd_eventNumber h) \<noteq> file_name (buffer_base rel) pre (hd_eventNumber h)"
    using file_name_inj [OF _ assms(5) assms(5) _ assms(4)] assms(3) by fastforce
  show ?thesis
    using assms(1,2,6,7) ne by (auto simp: write_buffer_def Let_def writer_at_def append_to_open buffered_def file_bytes_def pmc_ok_def same_disks_def)
qed

section \<open>The disks\<close>

definition disk_open :: "bool \<Rightarrow> nat \<Rightarrow> AnitaEventWriterStruct_t \<Rightarrow> bool" where
  "disk_open bodies i w \<longleftrightarrow> currentHeaderFilePtr w ! i \<noteq> None \<and> (bodies \<longrightarrow> currentEventFilePtr w ! i \<noteq> None)"

definition more_open :: "AnitaEventWriterStruct_t \<Rightarrow> AnitaEventWriterStruct_t \<Rightarrow> bool" where
  "more_open w w' \<longleftrightarrow> (\<forall>i bodies. disk_open bodies i w \<longrightarrow> disk_open bodies i w')"

definition off_pmc :: "byte_files \<Rightarrow> byte_files \<Rightarrow> bool" where
  "off_pmc fs fs' \<longleftrightarrow> (\<forall>f. take 12 f \<noteq> ''/mnt/pmcdata'' \<longrightarrow> fs' f = fs f)"

lemma more_open_refl [simp]: "more_open w w" "off_pmc fs fs"
  by (simp_all add: more_open_def off_pmc_def)

lemma more_open_trans: "more_open w w' \<Longrightarrow> more_open w' w'' \<Longrightarrow> more_open w w''" "off_pmc fs fs' \<Longrightarrow> off_pmc fs' fs'' \<Longrightarrow> off_pmc fs fs''"
  by (simp_all add: more_open_def off_pmc_def)

text \<open>What the loop over the disks needs and keeps; \<open>k\<close> says whether bodies are written.\<close>

definition disk_step :: "string \<Rightarrow> string \<Rightarrow> int \<Rightarrow> bool \<Rightarrow> AnitaEventWriterStruct_t \<Rightarrow> event_disk \<Rightarrow> AnitaEventWriterStruct_t \<Rightarrow> event_disk \<Rightarrow> bool" where
  "disk_step rel pre n bodies w d w' d' \<longleftrightarrow> writer_at rel pre n bodies w' \<and> disks_at rel pre n w' \<and> justHeader w' = justHeader w \<and> writeBitMask w' = writeBitMask w
     \<and> more_open w w' \<and> ed_jobs d' = ed_jobs d \<and> off_pmc (ed_files d) (ed_files d')"

lemma disk_step_trans: "disk_step rel pre n b w d w' d' \<Longrightarrow> disk_step rel pre n b w' d' w'' d'' \<Longrightarrow> disk_step rel pre n b w d w'' d''"
  using more_open_trans by (auto simp: disk_step_def)

lemma buffered_disk: "i < DISK_TYPES \<Longrightarrow> eventBufferDisk ! i = (i \<noteq> 3)"
proof -
  assume "i < DISK_TYPES"
  then have "i \<in> {0, 1, 2, 3, 4}"
    by (auto simp: DISK_TYPES_def)
  then show "eventBufferDisk ! i = (i \<noteq> 3)"
    by (auto simp: eventBufferDisk_def)
qed

lemma disk_names: "length (diskNames ! 3) = 12" "diskNames ! 3 = ''/mnt/pmcdata''"
  by (simp_all add: diskNames_def)

lemma open_disk_header_step:
  assumes "writer_at rel pre n bodies w" "disks_at rel pre n w" "\<And>f. canOpen env f" "number_ok n" "i < DISK_TYPES"
  shows "\<exists>w' d'. open_disk_header env n i (w, d) = (w', d') \<and> disk_step rel pre n bodies w d w' d' \<and> currentHeaderFilePtr w' ! i \<noteq> None
    \<and> (i \<noteq> 3 \<longrightarrow> currentSubDirName w' ! i = sub_dir (disk_base i rel) n) \<and> (i = 3 \<longrightarrow> take 12 (currentSubDirName w' ! 3) = ''/mnt/pmcdata'')"
proof (cases "currentHeaderFilePtr w ! i")
  case (Some f)
  then show ?thesis
    using assms(1,2,5) by (auto simp: open_disk_header_def disk_step_def disks_at_def disk_at_def writer_at_def pmc_ok_def)
next
  case None
  let ?dir = "diskNames ! i @ ''/'' @ relBaseName w @ ''/ev'' @ show_int (dir_num (EVENTS_PER_FILE * EVENT_FILES_PER_DIR * EVENT_FILES_PER_DIR) n)"
  let ?sub = "?dir @ ''/ev'' @ show_int (dir_num (EVENTS_PER_FILE * EVENT_FILES_PER_DIR) n)"
  let ?name = "?sub @ ''/hd_'' @ show_int (dir_num EVENTS_PER_FILE n) @ ''.dat''"
  let ?d = "make_dir ?sub (make_dir ?dir d)"
  define p where "p = (if eventBufferDisk ! i then bufferHeaderFilePtr w else Some ?name)"
  define d' where "d' = (if eventBufferDisk ! i then ?d else ?d\<lparr>ed_files := (ed_files ?d)(?name \<mapsto> file_bytes (ed_files ?d) ?name)\<rparr>)"
  define w' where "w' = w\<lparr>currentDirName := (currentDirName w)[i := ?dir], currentSubDirName := (currentSubDirName w)[i := ?sub],
    currentHeaderFileName := (currentHeaderFileName w)[i := ?name], currentHeaderFilePtr := (currentHeaderFilePtr w)[i := p],
    fileEpoch := u32 (dir_num EVENTS_PER_FILE n + EVENTS_PER_FILE)\<rparr>"
  have eq: "open_disk_header env n i (w, d) = (w', d')"
    using None assms(3) by (simp add: open_disk_header_def Let_def open_append_open w'_def d'_def p_def)
  have rel: "relBaseName w = rel" "bufferHeaderFilePtr w \<noteq> None" and pmc: "pmc_ok w"
    using assms(1) by (auto simp: writer_at_def)
  have names: "?name = file_name (disk_base i rel) ''hd'' n" "?sub = sub_dir (disk_base i rel) n"
    by (simp_all add: file_name_def sub_dir_def rel)
  have p: "p \<noteq> None"
    using rel by (simp add: p_def)
  have len: "i < length (currentHeaderFilePtr w)" "i < length (currentSubDirName w)" "i < length (currentHeaderFileName w)"
    using pmc assms(5) by (simp_all add: pmc_ok_def)
  have pmc': "pmc_ok w'"
    using pmc len by (auto simp: pmc_ok_def w'_def nth_list_update disk_names)
  have at: "writer_at rel pre n bodies w'"
    using assms(1) number_epoch [OF assms(4)] pmc' by (auto simp: writer_at_def w'_def)
  have disks: "disk_at rel pre n j w'" if "j < DISK_TYPES" "j \<noteq> 3" for j
    using assms(2) that rel(1) p len None by (auto simp: disks_at_def disk_at_def w'_def nth_list_update file_name_def sub_dir_def)
  have more: "more_open w w'"
    using p None len by (auto simp: more_open_def disk_open_def w'_def nth_list_update)
  have off: "off_pmc (ed_files d) (ed_files d')"
    using buffered_disk [OF assms(5)] by (auto simp: off_pmc_def d'_def make_dir_def disk_names)
  have "disk_step rel pre n bodies w d w' d'"
    using at disks more off by (simp add: disk_step_def disks_at_def) (simp add: w'_def d'_def make_dir_def)
  moreover have c: "currentHeaderFilePtr w' ! i \<noteq> None"
    using p len by (simp add: w'_def)
  moreover have "currentSubDirName w' ! i = sub_dir (disk_base i rel) n"
    using len names(2) by (simp add: w'_def)
  moreover have "i = 3 \<longrightarrow> take 12 (currentSubDirName w' ! 3) = ''/mnt/pmcdata''"
    using pmc' c by (auto simp: pmc_ok_def)
  ultimately show ?thesis
    using eq by blast
qed

lemma open_disk_event_step:
  assumes "writer_at rel pre n bodies w" "disks_at rel pre n w" "\<And>f. canOpen env f" "i < DISK_TYPES" "justHeader w = 0 \<Longrightarrow> bodies"
    and "currentHeaderFilePtr w ! i \<noteq> None" "i \<noteq> 3 \<longrightarrow> currentSubDirName w ! i = sub_dir (disk_base i rel) n" "i = 3 \<longrightarrow> take 12 (currentSubDirName w ! 3) = ''/mnt/pmcdata''"
  shows "\<exists>w' d'. open_disk_event env n i (w, d) = (w', d') \<and> disk_step rel pre n bodies w d w' d' \<and> disk_open (justHeader w = 0) i w'"
proof (cases "justHeader w \<noteq> 0 \<or> currentEventFilePtr w ! i \<noteq> None")
  case True
  then show ?thesis
    using assms(1,2,6) by (auto simp: open_disk_event_def disk_step_def disk_open_def)
next
  case False
  let ?name = "currentSubDirName w ! i @ ''/'' @ filePrefix w @ ''_'' @ show_int (dir_num EVENTS_PER_FILE n) @ ''.dat''"
  define p where "p = (if eventBufferDisk ! i then bufferEventFilePtr w else Some ?name)"
  define d' where "d' = (if eventBufferDisk ! i then d else d\<lparr>ed_files := (ed_files d)(?name \<mapsto> file_bytes (ed_files d) ?name)\<rparr>)"
  define w' where "w' = w\<lparr>currentEventFileName := (currentEventFileName w)[i := ?name], currentEventFilePtr := (currentEventFilePtr w)[i := p]\<rparr>"
  have eq: "open_disk_event env n i (w, d) = (w', d')"
    using False assms(3) by (simp add: open_disk_event_def Let_def open_append_open w'_def d'_def p_def)
  have at: "filePrefix w = pre" "bufferEventFilePtr w \<noteq> None" "pmc_ok w"
    using assms(1,5) False by (auto simp: writer_at_def)
  have p: "p \<noteq> None"
    using at by (simp add: p_def)
  have len: "i < length (currentEventFilePtr w)" "i < length (currentEventFileName w)"
    using at(3) assms(4) by (simp_all add: pmc_ok_def)
  have "writer_at rel pre n bodies w'"
    using assms(1) at(3) by (simp add: writer_at_def w'_def pmc_ok_def)
  moreover have "disk_at rel pre n j w'" if "j < DISK_TYPES" "j \<noteq> 3" for j
    using assms(2,6,7) that at(1) p len by (auto simp: disks_at_def disk_at_def w'_def nth_list_update file_name_def)
  moreover have "more_open w w'"
    using p len by (auto simp: more_open_def disk_open_def w'_def nth_list_update)
  moreover have "off_pmc (ed_files d) (ed_files d')"
  proof (cases "i = 3")
    case True
    then obtain x where "currentSubDirName w ! i = ''/mnt/pmcdata'' @ x"
      using assms(8) append_take_drop_id [of 12 "currentSubDirName w ! 3"] by metis
    then show ?thesis
      by (auto simp: off_pmc_def d'_def)
  next
    case False
    then show ?thesis
      using buffered_disk [OF assms(4)] by (simp add: d'_def)
  qed
  moreover have "disk_open (justHeader w = 0) i w'"
    using assms(6) p len by (simp add: disk_open_def w'_def)
  ultimately show ?thesis
    using eq by (intro exI [of _ w'] exI [of _ d']) (simp add: disk_step_def disks_at_def, simp add: w'_def d'_def)
qed

lemma open_disk_step:
  assumes "writer_at rel pre n bodies w" "disks_at rel pre n w" "\<And>f. canOpen env f" "number_ok n" "i < DISK_TYPES" "justHeader w = 0 \<Longrightarrow> bodies"
  shows "\<exists>w' d'. open_disk env n i (w, d) = (w', d') \<and> disk_step rel pre n bodies w d w' d'
    \<and> (diskBitMasks ! i AND writeBitMask w \<noteq> 0 \<longrightarrow> disk_open (justHeader w = 0) i w')"
proof (cases "diskBitMasks ! i AND writeBitMask w = 0")
  case True
  then show ?thesis
    using assms(1,2) by (auto simp: open_disk_def disk_step_def)
next
  case False
  obtain w1 d1 where 1: "open_disk_header env n i (w, d) = (w1, d1)" "disk_step rel pre n bodies w d w1 d1" "currentHeaderFilePtr w1 ! i \<noteq> None"
    "i \<noteq> 3 \<longrightarrow> currentSubDirName w1 ! i = sub_dir (disk_base i rel) n" "i = 3 \<longrightarrow> take 12 (currentSubDirName w1 ! 3) = ''/mnt/pmcdata''"
    using open_disk_header_step [where env = env and d = d, OF assms(1-5)] by blast
  have s: "writer_at rel pre n bodies w1" "disks_at rel pre n w1" "justHeader w1 = justHeader w"
    using 1(2) by (simp_all add: disk_step_def)
  obtain w2 d2 where 2: "open_disk_event env n i (w1, d1) = (w2, d2)" "disk_step rel pre n bodies w1 d1 w2 d2" "disk_open (justHeader w1 = 0) i w2"
    using open_disk_event_step [where env = env and d = d1, OF s(1,2) assms(3,5) _ 1(3-5)] assms(6) s(3) by metis
  show ?thesis
    using False 1(1) 2 s(3) disk_step_trans [OF 1(2) 2(2)] by (auto simp: open_disk_def)
qed

lemma open_disks:
  assumes "writer_at rel pre n bodies w" "disks_at rel pre n w" "\<And>f. canOpen env f" "number_ok n" "justHeader w = 0 \<Longrightarrow> bodies" "set is \<subseteq> {..<DISK_TYPES}"
  shows "\<exists>w' d'. fold (open_disk env n) is (w, d) = (w', d') \<and> disk_step rel pre n bodies w d w' d'
    \<and> (\<forall>i\<in>set is. diskBitMasks ! i AND writeBitMask w \<noteq> 0 \<longrightarrow> disk_open (justHeader w = 0) i w')"
  using assms(1,2,5,6)
proof (induction "is" arbitrary: w d)
  case Nil
  then show ?case
    by (simp add: disk_step_def)
next
  case (Cons i "is")
  obtain w1 d1 where 1: "open_disk env n i (w, d) = (w1, d1)" "disk_step rel pre n bodies w d w1 d1" "diskBitMasks ! i AND writeBitMask w \<noteq> 0 \<longrightarrow> disk_open (justHeader w = 0) i w1"
    using open_disk_step [where env = env and d = d, OF Cons.prems(1,2) assms(3,4)] Cons.prems(3,4) by (metis insert_subset lessThan_iff list.set(2))
  have s: "writer_at rel pre n bodies w1" "disks_at rel pre n w1" "justHeader w1 = justHeader w" "writeBitMask w1 = writeBitMask w"
    using 1(2) by (simp_all add: disk_step_def)
  obtain w2 d2 where 2: "fold (open_disk env n) is (w1, d1) = (w2, d2)" "disk_step rel pre n bodies w1 d1 w2 d2"
    "\<forall>i\<in>set is. diskBitMasks ! i AND writeBitMask w1 \<noteq> 0 \<longrightarrow> disk_open (justHeader w1 = 0) i w2"
    using Cons.IH [OF s(1,2), of d1] Cons.prems(3,4) s(3) by (metis insert_subset list.set(2))
  have "more_open w1 w2"
    using 2(2) by (simp add: disk_step_def)
  then show ?case
    using 1 2 s(3,4) disk_step_trans [OF 1(2) 2(2)] by (auto simp: more_open_def)
qed

section \<open>Any sequence of events\<close>

text \<open>An event to be written: its header, the bytes of its body, the disks and whether only the header is wanted.\<close>

record written_event =
  we_header :: AnitaEventHeader_t
  we_bytes :: "byte list"
  we_disks :: int
  we_just :: bool

definition write_event :: "archive_env \<Rightarrow> written_event \<Rightarrow> AnitaEventWriterStruct_t \<times> event_disk \<Rightarrow> AnitaEventWriterStruct_t \<times> event_disk" where
  "write_event env e = (\<lambda>(w, d).
     cleverEventWrite env (we_bytes e) (we_header e) (w\<lparr>writeBitMask := we_disks e, justHeader := (if we_just e then 1 else 0)\<rparr>, d))"

abbreviation number :: "written_event \<Rightarrow> int" where
  "number e \<equiv> hd_eventNumber (we_header e)"

definition of_group :: "int \<Rightarrow> written_event list \<Rightarrow> written_event list" where
  "of_group g es = filter (\<lambda>e. number e div 100 = g) es"

definition with_body :: "written_event list \<Rightarrow> written_event list" where
  "with_body es = filter (\<lambda>e. \<not> we_just e) es"

definition file_of :: "(written_event \<Rightarrow> byte list) \<Rightarrow> written_event list \<Rightarrow> byte list option" where
  "file_of bytes es = (if es = [] then None else Some (concat (map bytes es)))"

definition buffer_files :: "archive_env \<Rightarrow> string \<Rightarrow> string \<Rightarrow> written_event list \<Rightarrow> byte_files \<Rightarrow> bool" where
  "buffer_files env rel pre es fs \<longleftrightarrow> (\<forall>n. number_ok n \<longrightarrow>
     fs (file_name (buffer_base rel) ''hd'' n) = file_of (headerBytes env \<circ> we_header) (of_group (n div 100) es)
     \<and> fs (file_name (buffer_base rel) pre n) = file_of we_bytes (with_body (of_group (n div 100) es)))"

lemma group_simps: "of_group g (es @ [e]) = of_group g es @ (if number e div 100 = g then [e] else [])" "with_body [e] = (if we_just e then [] else [e])"
  "of_group g [] = []" "with_body [] = []" "with_body (es @ es') = with_body es @ with_body es'"
  by (simp_all add: of_group_def with_body_def)

lemma file_of_simps: "file_of f (es @ [e]) = Some ((case file_of f es of None \<Rightarrow> [] | Some b \<Rightarrow> b) @ f e)" "file_of f [] = None" "file_of f es = None \<longleftrightarrow> es = []"
  by (simp_all add: file_of_def)

lemma buffer_files_off_pmc: "buffer_files env rel pre es fs \<Longrightarrow> off_pmc fs fs' \<Longrightarrow> buffer_files env rel pre es fs'"
  by (simp add: buffer_files_def off_pmc_def file_name_def sub_dir_def DISK_BUFFER_DIR_def)

lemma buffer_files_step:
  assumes "buffer_files env rel pre es fs" "number_ok (number e)" "pre \<noteq> ''hd''" "CHR ''/'' \<notin> set pre"
  shows "buffer_files env rel pre (es @ [e]) (buffered env rel pre (we_header e) (we_bytes e) (we_just e) fs)"
  unfolding buffer_files_def
proof (intro allI impI)
  fix n assume n: "number_ok n"
  let ?base = "buffer_base rel" and ?fs = "buffered env rel pre (we_header e) (we_bytes e) (we_just e) fs"
  have hd: "CHR ''/'' \<notin> set ''hd''"
    by simp
  have files: "fs (file_name ?base ''hd'' n') = file_of (headerBytes env \<circ> we_header) (of_group (n' div 100) es)"
    "fs (file_name ?base pre n') = file_of we_bytes (with_body (of_group (n' div 100) es))" if "number_ok n'" for n'
    using assms(1) that by (simp_all add: buffer_files_def)
  have "file_name ?base ''hd'' n' \<noteq> file_name ?base pre n''" if "number_ok n'" "number_ok n''" for n' n''
    using file_name_inj [OF _ that hd assms(4)] assms(3) by blast
  note ne = this [OF n assms(2)] this [OF assms(2) n] this [OF assms(2,2)] this [OF n n]
  have same: "file_name ?base p n = file_name ?base p (number e) \<longleftrightarrow> number e div 100 = n div 100" if "CHR ''/'' \<notin> set p" for p
    using file_name_inj [OF _ n assms(2) that that, of ?base ?base] file_name_group(1) [OF n assms(2), of ?base p] by auto
  show "?fs (file_name ?base ''hd'' n) = file_of (headerBytes env \<circ> we_header) (of_group (n div 100) (es @ [e]))
      \<and> ?fs (file_name ?base pre n) = file_of we_bytes (with_body (of_group (n div 100) (es @ [e])))"
    using same [OF hd] same [OF assms(4)] ne files [OF n] files [OF assms(2)]
    by (auto simp: buffered_def Let_def file_bytes_def group_simps file_of_simps)
qed

text \<open>The state between two events.\<close>

definition between :: "archive_env \<Rightarrow> string \<Rightarrow> string \<Rightarrow> written_event list \<Rightarrow> AnitaEventWriterStruct_t \<Rightarrow> event_disk \<Rightarrow> bool" where
  "between env rel pre es w d \<longleftrightarrow> buffer_files env rel pre es (ed_files d)
     \<and> (if es = [] then writer_idle rel pre w \<and> (\<forall>n. disks_at rel pre n w)
        else writer_at rel pre (number (last es)) (with_body (of_group (number (last es) div 100) es) \<noteq> []) w \<and> disks_at rel pre (number (last es)) w)"

definition last_jobs :: "bool \<Rightarrow> AnitaEventWriterStruct_t \<Rightarrow> zip_job list" where
  "last_jobs bodies w = (if bodies then [Zip_events (buffer_disks w) w] else []) @ [Zip_headers (buffer_disks w) w]"

lemma close_at:
  assumes "writer_at rel pre n bodies w"
  shows "\<exists>w'. closeEventFilesAndTidy w d = (w', d\<lparr>ed_jobs := ed_jobs d @ last_jobs bodies w\<rparr>) \<and> writer_idle rel pre (w'\<lparr>gotData := 0\<rparr>)
    \<and> disks_at rel pre n' w' \<and> justHeader w' = justHeader w \<and> writeBitMask w' = writeBitMask w"
  using assms by (auto simp: closeEventFilesAndTidy_def last_jobs_def Let_def writer_at_def writer_idle_def pmc_ok_def disks_at_def disk_at_def
      eventBufferDisk_def DISK_TYPES_def less_Suc_eq numeral_eq_Suc split: if_splits)

lemma buffered_open:
  assumes "file_name (buffer_base rel) ''hd'' (hd_eventNumber h) \<noteq> file_name (buffer_base rel) pre (hd_eventNumber h)"
    and "fs1 = fs(file_name (buffer_base rel) ''hd'' (hd_eventNumber h) \<mapsto> file_bytes fs (file_name (buffer_base rel) ''hd'' (hd_eventNumber h)))"
    and "fs2 = (if just then fs1 else fs1(file_name (buffer_base rel) pre (hd_eventNumber h) \<mapsto> file_bytes fs1 (file_name (buffer_base rel) pre (hd_eventNumber h))))"
  shows "buffered env rel pre h bytes just fs2 = buffered env rel pre h bytes just fs"
  using assms by (auto simp: buffered_def Let_def file_bytes_def fun_eq_iff)

text \<open>From the point where the files of the last hundred are closed, if they have to be.\<close>

lemma write_open_group:
  assumes "writer_at rel pre n bodies w \<or> writer_idle rel pre w \<and> \<not> bodies" "disks_at rel pre n w" "buffer_files env rel pre es (ed_files d)"
    and "bodies = (with_body (of_group (n div 100) es) \<noteq> [])" "bufferHeaderFilePtr w \<noteq> None \<Longrightarrow> of_group (n div 100) es \<noteq> []"
    and "n = number e" "number_ok n" "\<And>f. canOpen env f" "pre \<noteq> ''hd''" "CHR ''/'' \<notin> set pre" "justHeader w = (if we_just e then 1 else 0)"
  shows "\<exists>w' d'. fold (open_disk env n) [0..<DISK_TYPES] (write_buffer env (we_header e) (we_bytes e) (open_buffer_event env n (open_buffer_header env n (w, d)))) = (w', d')
    \<and> buffer_files env rel pre (es @ [e]) (ed_files d') \<and> writer_at rel pre n (with_body (of_group (n div 100) (es @ [e])) \<noteq> []) w' \<and> disks_at rel pre n w'
    \<and> off_pmc (buffered env rel pre (we_header e) (we_bytes e) (we_just e) (ed_files d)) (ed_files d')
    \<and> ed_jobs d' = ed_jobs d \<and> writeBitMask w' = writeBitMask w \<and> more_open w w' \<and> (\<forall>i<DISK_TYPES. diskBitMasks ! i AND writeBitMask w \<noteq> 0 \<longrightarrow> disk_open (\<not> we_just e) i w')"
proof -
  let ?H = "file_name (buffer_base rel) ''hd'' n" and ?E = "file_name (buffer_base rel) pre n"
  have files: "ed_files d ?H = file_of (headerBytes env \<circ> we_header) (of_group (n div 100) es)" "ed_files d ?E = file_of we_bytes (with_body (of_group (n div 100) es))"
    using assms(3,7) by (simp_all add: buffer_files_def)
  have ne: "?H \<noteq> ?E"
    using file_name_inj [OF _ assms(7,7) _ assms(10), of "buffer_base rel" "''hd''"] assms(9) by fastforce
  have H: "ed_files d ?H \<noteq> None" if "bufferHeaderFilePtr w \<noteq> None"
    using assms(5) [OF that] files(1) by (simp add: file_of_simps)
  obtain w1 d1 where 1: "open_buffer_header env n (w, d) = (w1, d1)" "writer_at rel pre n bodies (w1\<lparr>gotData := 1\<rparr>)" "same_disks w w1"
    "ed_jobs d1 = ed_jobs d" "ed_files d1 = (ed_files d)(?H \<mapsto> file_bytes (ed_files d) ?H)"
    using open_header_at [where env = env and d = d, OF assms(1,8,7) H] by blast
  have just: "justHeader w1 = (if we_just e then 1 else 0)"
    using 1(3) assms(11) by (simp add: same_disks_def)
  have E: "ed_files d1 ?E \<noteq> None" if bodies
    using that assms(4) files(2) 1(5) ne by (auto simp: file_of_simps)
  obtain w2 d2 where 2: "open_buffer_event env n (w1, d1) = (w2, d2)" "writer_at rel pre n (bodies \<or> justHeader w1 = 0) (w2\<lparr>gotData := 1\<rparr>)" "same_disks w1 w2"
    "ed_jobs d2 = ed_jobs d1" "ed_files d2 = (if justHeader w1 = 0 then (ed_files d1)(?E \<mapsto> file_bytes (ed_files d1) ?E) else ed_files d1)"
    using open_event_at [where env = env and d = d1, OF 1(2) assms(8) E] by blast
  let ?b = "bodies \<or> \<not> we_just e"
  have just2: "justHeader w2 = (if we_just e then 1 else 0)"
    using 2(3) just by (simp add: same_disks_def)
  have at2: "writer_at rel pre (hd_eventNumber (we_header e)) ?b (w2\<lparr>gotData := 1\<rparr>)"
    using 2(2) just assms(6) by (cases "we_just e") simp_all
  have "\<exists>w' d'. write_buffer env (we_header e) (we_bytes e) (w2, d2) = (w', d') \<and> writer_at rel pre (hd_eventNumber (we_header e)) ?b w' \<and> same_disks w2 w'
      \<and> ed_jobs d' = ed_jobs d2 \<and> ed_files d' = buffered env rel pre (we_header e) (we_bytes e) (justHeader w2 \<noteq> 0) (ed_files d2)"
    using 1(5) 2(5) just just2 assms(6,7,9,10) by (intro write_buffer_at at2) auto
  then obtain w3 d3 where 3: "write_buffer env (we_header e) (we_bytes e) (w2, d2) = (w3, d3)" "writer_at rel pre n ?b w3" "same_disks w2 w3"
    "ed_jobs d3 = ed_jobs d2" "ed_files d3 = buffered env rel pre (we_header e) (we_bytes e) (we_just e) (ed_files d2)"
    using just2 assms(6) by auto
  have fd: "ed_files d3 = buffered env rel pre (we_header e) (we_bytes e) (we_just e) (ed_files d)"
    unfolding 3(5) by (rule buffered_open [OF _ 1(5) [unfolded assms(6)]]) (use ne 2(5) just assms(6) in auto)
  then have bf: "buffer_files env rel pre (es @ [e]) (ed_files d3)"
    using buffer_files_step [OF assms(3) assms(7) [unfolded assms(6)] assms(9,10)] by simp
  have sd: "same_disks w w3"
    using 1(3) 2(3) 3(3) by (simp add: same_disks_def)
  have s: "disks_at rel pre n w3" "justHeader w3 = (if we_just e then 1 else 0)" "writeBitMask w3 = writeBitMask w"
    using assms(2,11) sd same_disks(2) [OF sd] unfolding same_disks_def by simp_all
  have "\<exists>w' d'. fold (open_disk env n) [0..<DISK_TYPES] (w3, d3) = (w', d') \<and> disk_step rel pre n ?b w3 d3 w' d'
      \<and> (\<forall>i\<in>set [0..<DISK_TYPES]. diskBitMasks ! i AND writeBitMask w3 \<noteq> 0 \<longrightarrow> disk_open (justHeader w3 = 0) i w')"
    using s(2) by (intro open_disks [OF 3(2) s(1) assms(8,7)]) (auto split: if_splits)
  then obtain w4 d4 where 4: "fold (open_disk env n) [0..<DISK_TYPES] (w3, d3) = (w4, d4)" "disk_step rel pre n ?b w3 d3 w4 d4"
      "\<forall>i\<in>set [0..<DISK_TYPES]. diskBitMasks ! i AND writeBitMask w3 \<noteq> 0 \<longrightarrow> disk_open (justHeader w3 = 0) i w4"
    by blast
  have b: "?b = (with_body (of_group (n div 100) (es @ [e])) \<noteq> [])"
    using assms(4,6) by (simp add: group_simps)
  have "disk_open (\<not> we_just e) i w4" if "i < DISK_TYPES" "diskBitMasks ! i AND writeBitMask w \<noteq> 0" for i
    using 4(3) that s(2,3) by (cases "we_just e") auto
  moreover have "more_open w w3"
    using sd by (simp add: more_open_def disk_open_def same_disks_def)
  then have "more_open w w4"
    using 4(2) more_open_trans(1) by (auto simp: disk_step_def)
  ultimately show ?thesis
    using 1(1,4) 2(1,4) 3(1,4) 4(1,2) bf b s(3) buffer_files_off_pmc [OF bf] by (simp add: disk_step_def fd)
qed

definition group_of :: "written_event list \<Rightarrow> int" where
  "group_of es = number (last es) div 100"

lemma sorted_groups:
  assumes "sorted (map number (es @ [e]))"
  shows "x \<in> set es \<Longrightarrow> number x div 100 \<le> number e div 100" "es \<noteq> [] \<Longrightarrow> group_of es \<le> number e div 100" "es \<noteq> [] \<Longrightarrow> x \<in> set es \<Longrightarrow> number x div 100 \<le> group_of es"
proof -
  show 1: "x \<in> set es \<Longrightarrow> number x div 100 \<le> number e div 100" for x
    using assms by (auto simp: sorted_append intro: zdiv_mono1)
  show "es \<noteq> [] \<Longrightarrow> group_of es \<le> number e div 100"
    using 1 [of "last es"] by (simp add: group_of_def)
  show "es \<noteq> [] \<Longrightarrow> x \<in> set es \<Longrightarrow> number x div 100 \<le> group_of es"
    using assms by (cases es rule: rev_cases) (auto simp: sorted_append group_of_def intro: zdiv_mono1)
qed

lemma of_group_none: "\<forall>x\<in>set es. number x div 100 \<noteq> g \<Longrightarrow> of_group g es = []"
  by (simp add: of_group_def filter_empty_conv)

lemma of_group_last: "es \<noteq> [] \<Longrightarrow> of_group (group_of es) es \<noteq> []"
  by (auto simp: of_group_def filter_empty_conv group_of_def intro!: bexI [of _ "last es"])

definition set_event :: "written_event \<Rightarrow> AnitaEventWriterStruct_t \<Rightarrow> AnitaEventWriterStruct_t" where
  "set_event e w = w\<lparr>writeBitMask := we_disks e, justHeader := (if we_just e then 1 else 0)\<rparr>"

lemma set_event_keeps: "writer_at rel pre n b (set_event e w) = writer_at rel pre n b w" "writer_idle rel pre (set_event e w) = writer_idle rel pre w"
  "disks_at rel pre n (set_event e w) = disks_at rel pre n w" "disk_open b i (set_event e w) = disk_open b i w" "gotData (set_event e w) = gotData w" "fileEpoch (set_event e w) = fileEpoch w"
  "bufferHeaderFilePtr (set_event e w) = bufferHeaderFilePtr w" "justHeader (set_event e w) = (if we_just e then 1 else 0)" "writeBitMask (set_event e w) = we_disks e"
  by (simp_all add: set_event_def writer_at_def writer_idle_def pmc_ok_def disks_at_def disk_at_def disk_open_def)

text \<open>One event: it stays with its hundred, or begins a new one and leaves the old to the child processes.\<close>

lemma write_event_between:
  assumes "between env rel pre es w d" "sorted (map number (es @ [e]))" "\<forall>x\<in>set (es @ [e]). number_ok (number x)" "\<And>f. canOpen env f" "pre \<noteq> ''hd''" "CHR ''/'' \<notin> set pre"
  defines "new_group \<equiv> es \<noteq> [] \<and> group_of es < number e div 100"
  shows "\<exists>w' d'. write_event env e (w, d) = (w', d') \<and> between env rel pre (es @ [e]) w' d' \<and> writeBitMask w' = we_disks e
    \<and> ed_jobs d' = ed_jobs d @ (if new_group then last_jobs (with_body (of_group (group_of es) es) \<noteq> []) (set_event e w) else [])
    \<and> off_pmc (buffered env rel pre (we_header e) (we_bytes e) (we_just e) (ed_files d)) (ed_files d')
    \<and> (\<not> new_group \<longrightarrow> more_open w w') \<and> (\<forall>i<DISK_TYPES. diskBitMasks ! i AND we_disks e \<noteq> 0 \<longrightarrow> disk_open (\<not> we_just e) i w')"
proof -
  let ?n = "number e" and ?w = "set_event e w" and ?b = "with_body (of_group (group_of es) es) \<noteq> []"
  have ok: "number_ok ?n" and bf: "buffer_files env rel pre es (ed_files d)"
    using assms(1,3) by (simp_all add: between_def)
  have last_ok: "number_ok (number (last es))" if "es \<noteq> []"
    using assms(3) that by auto
  have at: "writer_at rel pre (number (last es)) ?b w" "disks_at rel pre (number (last es)) w" if "es \<noteq> []"
    using assms(1) that by (simp_all add: between_def group_of_def)
  have step: "write_event env e (w, d) = fold (open_disk env ?n) [0..<DISK_TYPES] (write_buffer env (we_header e) (we_bytes e) (open_buffer_event env ?n (open_buffer_header env ?n
      (if gotData w \<noteq> 0 \<and> fileEpoch w \<le> ?n then apfst (\<lambda>w. w\<lparr>gotData := 0\<rparr>) (closeEventFilesAndTidy ?w d) else (?w, d)))))"
    by (simp add: write_event_def cleverEventWrite_def Let_def set_event_def split: prod.splits)
  have result: ?thesis
    if c: "(if gotData w \<noteq> 0 \<and> fileEpoch w \<le> ?n then apfst (\<lambda>w. w\<lparr>gotData := 0\<rparr>) (closeEventFilesAndTidy ?w d) else (?w, d)) = (w1, d1)"
      and 1: "writer_at rel pre ?n b w1 \<or> writer_idle rel pre w1 \<and> \<not> b" "disks_at rel pre ?n w1" "ed_files d1 = ed_files d" "b = (with_body (of_group (?n div 100) es) \<noteq> [])"
        "bufferHeaderFilePtr w1 \<noteq> None \<Longrightarrow> of_group (?n div 100) es \<noteq> []" "justHeader w1 = (if we_just e then 1 else 0)" "writeBitMask w1 = we_disks e"
        "ed_jobs d1 = ed_jobs d @ (if new_group then last_jobs ?b ?w else [])" "\<not> new_group \<longrightarrow> more_open w w1" for w1 d1 b
  proof -
    obtain w' d' where "fold (open_disk env ?n) [0..<DISK_TYPES] (write_buffer env (we_header e) (we_bytes e) (open_buffer_event env ?n (open_buffer_header env ?n (w1, d1)))) = (w', d')"
      "buffer_files env rel pre (es @ [e]) (ed_files d')" "writer_at rel pre ?n (with_body (of_group (?n div 100) (es @ [e])) \<noteq> []) w'" "disks_at rel pre ?n w'"
      "off_pmc (buffered env rel pre (we_header e) (we_bytes e) (we_just e) (ed_files d1)) (ed_files d')"
      "ed_jobs d' = ed_jobs d1" "writeBitMask w' = writeBitMask w1" "more_open w1 w'" "\<forall>i<DISK_TYPES. diskBitMasks ! i AND writeBitMask w1 \<noteq> 0 \<longrightarrow> disk_open (\<not> we_just e) i w'"
      using write_open_group [where env = env and d = d1, OF 1(1,2) bf [folded 1(3)] 1(4,5) refl ok assms(4-6) 1(6)] by metis
    then show ?thesis
      unfolding step c using 1(3,7-9) more_open_trans(1) [of w w1 w'] by (simp add: between_def)
  qed
  show ?thesis
  proof (cases "es = []")
    case True
    then have "writer_idle rel pre w" "disks_at rel pre ?n w" "\<not> new_group"
      using assms(1) by (simp_all add: between_def new_group_def)
    moreover have "gotData w = 0" "bufferHeaderFilePtr w = None"
      using calculation(1) by (simp_all add: writer_idle_def)
    ultimately show ?thesis
      using True by (intro result [of ?w d False]) (simp_all add: set_event_keeps group_simps more_open_def)
  next
    case False
    show ?thesis
    proof (cases "group_of es = ?n div 100")
      case True
      then have w: "writer_at rel pre ?n ?b w" "disks_at rel pre ?n w"
        using at [OF False] writer_at_group [OF _ last_ok [OF False] ok] file_name_group [OF last_ok [OF False] ok] by (simp_all add: group_of_def disks_at_def disk_at_def)
      then have "\<not> fileEpoch w \<le> ?n"
        by (simp add: writer_at_def)
      then show ?thesis
        using w True of_group_last [OF False] by (intro result [of ?w d ?b]) (simp_all add: set_event_keeps new_group_def more_open_def)
    next
      case diff: False
      then have fresh: "new_group" "group_of es < ?n div 100"
        using sorted_groups(2) [OF assms(2) False] False by (simp_all add: new_group_def)
      have epoch: "gotData w \<noteq> 0" "fileEpoch w \<le> ?n"
        using at(1) [OF False] fresh(2) by (auto simp: writer_at_def group_of_def)
      have none: "of_group (?n div 100) es = []"
        using sorted_groups(3) [OF assms(2) False] fresh(2) by (intro of_group_none) force
      obtain w' where w': "closeEventFilesAndTidy ?w d = (w', d\<lparr>ed_jobs := ed_jobs d @ last_jobs ?b ?w\<rparr>)" "writer_idle rel pre (w'\<lparr>gotData := 0\<rparr>)"
        "disks_at rel pre ?n w'" "justHeader w' = justHeader ?w" "writeBitMask w' = writeBitMask ?w"
        using close_at [of rel pre "number (last es)" ?b ?w d ?n] at(1) [OF False] by (auto simp: set_event_keeps)
      have "disks_at rel pre ?n (w'\<lparr>gotData := 0\<rparr>)"
        using w'(3) by (simp add: disks_at_def disk_at_def)
      then show ?thesis
        using epoch w' fresh none by (intro result [of "w'\<lparr>gotData := 0\<rparr>" "d\<lparr>ed_jobs := ed_jobs d @ last_jobs ?b ?w\<rparr>" False])
          (simp_all add: set_event_keeps group_simps writer_idle_def)
    qed
  qed
qed

end
