(* ===== verification/Event_Copies.thy ===== *)
theory Event_Copies
  imports Event_Files
begin

text \<open>
  From the buffer directory to the disks: what the child processes leave when all events have been
  written, and on which disks.
\<close>

section \<open>One child process\<close>

lemma zip_targets:
  assumes "distinct ks" "\<And>f. canOpen env f" "fs Z = Some z"
    and "\<forall>i\<in>set ks. disks AND diskBitMasks ! i \<noteq> 0 \<longrightarrow> fs (ts ! i @ ''.gz'') = None \<and> ts ! i @ ''.gz'' \<noteq> Z \<and> ts ! i @ ''.gz.new'' \<noteq> Z"
    and "\<forall>i\<in>set ks. \<forall>j\<in>set ks. disks AND diskBitMasks ! i \<noteq> 0 \<longrightarrow> disks AND diskBitMasks ! j \<noteq> 0 \<longrightarrow> ts ! i = ts ! j \<longrightarrow> i = j"
  defines "step \<equiv> \<lambda>i fs. if disks AND diskBitMasks ! i = 0 then fs
      else let out = ts ! i @ ''.gz''; temp = ts ! i @ ''.gz.new'' in (link_new temp out (copy_bytes env Z temp fs))(temp := None)"
  shows "fold step ks fs Z = Some z \<and> (\<forall>i\<in>set ks. disks AND diskBitMasks ! i \<noteq> 0 \<longrightarrow> fold step ks fs (ts ! i @ ''.gz'') = Some z)
    \<and> (\<forall>f. (\<forall>i\<in>set ks. disks AND diskBitMasks ! i \<noteq> 0 \<longrightarrow> f \<noteq> ts ! i @ ''.gz'' \<and> f \<noteq> ts ! i @ ''.gz.new'') \<longrightarrow> fold step ks fs f = fs f)"
  using assms(1,3-5)
proof (induction ks arbitrary: fs)
  case (Cons i ks)
  show ?case
  proof (cases "disks AND diskBitMasks ! i = 0")
    case True
    then have "step i fs = fs"
      by (simp add: step_def)
    then show ?thesis
      using Cons.IH [of fs] Cons.prems True by auto
  next
    case False
    have new: "x @ ''.gz'' \<noteq> y @ ''.gz.new''" for x y :: string
      using arg_cong [of "x @ ''.gz''" "y @ ''.gz.new''" List.last] by auto
    have s: "step i fs = fs(ts ! i @ ''.gz'' \<mapsto> z, ts ! i @ ''.gz.new'' := None)"
      using False Cons.prems(2,3) assms(2) new by (auto simp: step_def Let_def copy_bytes_def link_new_def fun_eq_iff)
    have o: "ts ! j \<noteq> ts ! i" if "j \<in> set ks" "disks AND diskBitMasks ! j \<noteq> 0" for j
      using Cons.prems(1,4) that False by auto
    then have o': "ts ! i \<noteq> ts ! j" if "j \<in> set ks" "disks AND diskBitMasks ! j \<noteq> 0" for j
      using that by metis
    have "step i fs Z = Some z"
      using s Cons.prems(2,3) False by auto
    moreover have "\<forall>j\<in>set ks. disks AND diskBitMasks ! j \<noteq> 0 \<longrightarrow> step i fs (ts ! j @ ''.gz'') = None \<and> ts ! j @ ''.gz'' \<noteq> Z \<and> ts ! j @ ''.gz.new'' \<noteq> Z"
      using s Cons.prems(3) o new by auto
    ultimately have I: "fold step ks (step i fs) Z = Some z" "\<And>j. j \<in> set ks \<Longrightarrow> disks AND diskBitMasks ! j \<noteq> 0 \<Longrightarrow> fold step ks (step i fs) (ts ! j @ ''.gz'') = Some z"
      "\<And>f. (\<forall>j\<in>set ks. disks AND diskBitMasks ! j \<noteq> 0 \<longrightarrow> f \<noteq> ts ! j @ ''.gz'' \<and> f \<noteq> ts ! j @ ''.gz.new'') \<Longrightarrow> fold step ks (step i fs) f = step i fs f"
      using Cons.IH [of "step i fs"] Cons.prems(1,4) by auto
    have "step i fs (ts ! i @ ''.gz'') = Some z"
      using s new by simp
    then have "fold step ks (step i fs) (ts ! i @ ''.gz'') = Some z"
      using I(3) [of "ts ! i @ ''.gz''"] o' new by auto
    then show ?thesis
      using I s False by auto
  qed
qed simp

lemma zip_and_copy_result:
  assumes "\<And>f. canOpen env f" "fs N = Some b" "b \<noteq> []"
    and "\<forall>i<DISK_TYPES. disks AND diskBitMasks ! i \<noteq> 0 \<longrightarrow> fs (ts ! i @ ''.gz'') = None \<and> ts ! i @ ''.gz'' \<notin> {N, N @ ''.gz''} \<and> ts ! i @ ''.gz.new'' \<noteq> N @ ''.gz''"
    and "\<forall>i<DISK_TYPES. \<forall>j<DISK_TYPES. disks AND diskBitMasks ! i \<noteq> 0 \<longrightarrow> disks AND diskBitMasks ! j \<noteq> 0 \<longrightarrow> ts ! i = ts ! j \<longrightarrow> i = j"
  shows "\<forall>i<DISK_TYPES. disks AND diskBitMasks ! i \<noteq> 0 \<longrightarrow> zip_and_copy env disks N ts fs (ts ! i @ ''.gz'') = Some (gz env b)"
    and "f \<notin> {N, N @ ''.gz''} \<Longrightarrow> \<forall>i<DISK_TYPES. disks AND diskBitMasks ! i \<noteq> 0 \<longrightarrow> f \<noteq> ts ! i @ ''.gz'' \<and> f \<noteq> ts ! i @ ''.gz.new'' \<Longrightarrow> zip_and_copy env disks N ts fs f = fs f"
proof -
  let ?fs = "fs(N @ ''.gz'' \<mapsto> gz env b, N := None)"
  let ?step = "\<lambda>i fs. if disks AND diskBitMasks ! i = 0 then fs
      else let out = ts ! i @ ''.gz''; temp = ts ! i @ ''.gz.new'' in (link_new temp out (copy_bytes env (N @ ''.gz'') temp fs))(temp := None)"
  have eq: "zip_and_copy env disks N ts fs = (fold ?step [0..<DISK_TYPES] ?fs)(N @ ''.gz'' := None)"
    using assms(1-3) by (simp add: zip_and_copy_def Let_def)
  have r: "(\<forall>i\<in>set [0..<DISK_TYPES]. disks AND diskBitMasks ! i \<noteq> 0 \<longrightarrow> fold ?step [0..<DISK_TYPES] ?fs (ts ! i @ ''.gz'') = Some (gz env b))
    \<and> (\<forall>f. (\<forall>i\<in>set [0..<DISK_TYPES]. disks AND diskBitMasks ! i \<noteq> 0 \<longrightarrow> f \<noteq> ts ! i @ ''.gz'' \<and> f \<noteq> ts ! i @ ''.gz.new'') \<longrightarrow> fold ?step [0..<DISK_TYPES] ?fs f = ?fs f)"
  proof -
    have 1: "distinct [0..<DISK_TYPES]" and 2: "?fs (N @ ''.gz'') = Some (gz env b)"
      by simp_all
    have 3: "\<forall>i\<in>set [0..<DISK_TYPES]. disks AND diskBitMasks ! i \<noteq> 0 \<longrightarrow>
        ?fs (ts ! i @ ''.gz'') = None \<and> ts ! i @ ''.gz'' \<noteq> N @ ''.gz'' \<and> ts ! i @ ''.gz.new'' \<noteq> N @ ''.gz''"
      using assms(4) by simp
    have 4: "\<forall>i\<in>set [0..<DISK_TYPES]. \<forall>j\<in>set [0..<DISK_TYPES]. disks AND diskBitMasks ! i \<noteq> 0 \<longrightarrow> disks AND diskBitMasks ! j \<noteq> 0 \<longrightarrow> ts ! i = ts ! j \<longrightarrow> i = j"
      using assms(5) by simp
    show ?thesis
      using zip_targets [OF 1 assms(1) 2 3 4] by (elim conjE) (intro conjI)
  qed
  show "\<forall>i<DISK_TYPES. disks AND diskBitMasks ! i \<noteq> 0 \<longrightarrow> zip_and_copy env disks N ts fs (ts ! i @ ''.gz'') = Some (gz env b)"
    using r assms(4) unfolding eq by simp
  show "zip_and_copy env disks N ts fs f = fs f" if "f \<notin> {N, N @ ''.gz''}" "\<forall>i<DISK_TYPES. disks AND diskBitMasks ! i \<noteq> 0 \<longrightarrow> f \<noteq> ts ! i @ ''.gz'' \<and> f \<noteq> ts ! i @ ''.gz.new''"
    using r that unfolding eq by simp
qed

section \<open>All child processes\<close>

text \<open>A job concerns one file: its prefix and the number of an event in it.\<close>

definition buffer_name :: "string \<Rightarrow> string \<times> int \<Rightarrow> string" where
  "buffer_name rel q = file_name (buffer_base rel) (fst q) (snd q)"

definition disk_name :: "string \<Rightarrow> nat \<Rightarrow> string \<times> int \<Rightarrow> string" where
  "disk_name rel i q = file_name (disk_base i rel) (fst q) (snd q)"

definition name_ok :: "string \<times> int \<Rightarrow> bool" where
  "name_ok q \<longleftrightarrow> number_ok (snd q) \<and> CHR ''/'' \<notin> set (fst q)"

definition key :: "string \<times> int \<Rightarrow> string \<times> int" where
  "key q = (fst q, snd q div 100)"

lemma small_disk: "i < DISK_TYPES \<Longrightarrow> i \<in> {0, 1, 2, 3, 4}"
  by (auto simp: DISK_TYPES_def)

lemma disk_dirs: "i < DISK_TYPES \<Longrightarrow> sub_dir (buffer_base rel) n \<noteq> sub_dir (disk_base i rel) n'"
  using small_disk [of i] by (auto simp: sub_dir_def diskNames_def DISK_BUFFER_DIR_def)

lemma disk_dirs_differ: "i < DISK_TYPES \<Longrightarrow> j < DISK_TYPES \<Longrightarrow> sub_dir (disk_base i rel) n = sub_dir (disk_base j rel) n' \<Longrightarrow> i = j"
  using small_disk [of i] small_disk [of j] by (auto simp: sub_dir_def diskNames_def)

lemma disk_name_inj:
  assumes "name_ok q" "name_ok q'" "i < DISK_TYPES" "j < DISK_TYPES" "disk_name rel i q = disk_name rel j q'"
  shows "i = j \<and> key q = key q'"
proof -
  have "fst q = fst q' \<and> snd q div 100 = snd q' div 100 \<and> sub_dir (disk_base i rel) (snd q) = sub_dir (disk_base j rel) (snd q')"
    by (rule file_name_inj [OF assms(5) [unfolded disk_name_def]]) (use assms(1,2) in \<open>simp_all add: name_ok_def\<close>)
  then show ?thesis
    using disk_dirs_differ [OF assms(3,4)] unfolding key_def by blast
qed

lemma buffer_name_inj:
  assumes "name_ok q" "name_ok q'" "buffer_name rel q = buffer_name rel q'"
  shows "key q = key q'"
proof -
  have "fst q = fst q' \<and> snd q div 100 = snd q' div 100 \<and> sub_dir (buffer_base rel) (snd q) = sub_dir (buffer_base rel) (snd q')"
    by (rule file_name_inj [OF assms(3) [unfolded buffer_name_def]]) (use assms(1,2) in \<open>simp_all add: name_ok_def\<close>)
  then show ?thesis
    unfolding key_def by simp
qed

lemma buffer_name_disk: "name_ok q \<Longrightarrow> name_ok q' \<Longrightarrow> i < DISK_TYPES \<Longrightarrow> buffer_name rel q \<noteq> disk_name rel i q'"
  unfolding name_ok_def buffer_name_def disk_name_def using file_name_inj disk_dirs by metis

lemma name_ends: "buffer_name rel q \<noteq> x @ ''.gz''" "buffer_name rel q \<noteq> x @ ''.gz.new''" "x @ ''.gz'' \<noteq> y @ ''.gz.new''"
proof -
  have l: "List.last (buffer_name rel q) = CHR ''t''"
    by (simp add: buffer_name_def file_name_def)
  show "buffer_name rel q \<noteq> x @ ''.gz''" "buffer_name rel q \<noteq> x @ ''.gz.new''"
    using l by auto
  show "x @ ''.gz'' \<noteq> y @ ''.gz.new''"
    using arg_cong [of "x @ ''.gz''" "y @ ''.gz.new''" List.last] by auto
qed

definition job_for :: "archive_env \<Rightarrow> string \<Rightarrow> int \<Rightarrow> string \<times> int \<Rightarrow> zip_job \<Rightarrow> bool" where
  "job_for env rel disks q job \<longleftrightarrow> (\<exists>ts. run_job env job = zip_and_copy env disks (buffer_name rel q) ts
     \<and> (\<forall>i<DISK_TYPES. disks AND diskBitMasks ! i \<noteq> 0 \<longrightarrow> ts ! i = disk_name rel i q))"

definition files_ready :: "string \<Rightarrow> int \<Rightarrow> (string \<times> int \<Rightarrow> byte list) \<Rightarrow> (string \<times> int) set \<Rightarrow> byte_files \<Rightarrow> bool" where
  "files_ready rel disks content qs fs \<longleftrightarrow> (\<forall>q\<in>qs. name_ok q \<and> fs (buffer_name rel q) = Some (content q) \<and> content q \<noteq> []
     \<and> (\<forall>i<DISK_TYPES. disks AND diskBitMasks ! i \<noteq> 0 \<longrightarrow> fs (disk_name rel i q @ ''.gz'') = None))"

lemma run_one_job:
  assumes "job_for env rel disks q job" "\<And>f. canOpen env f" "files_ready rel disks content {q} fs"
  shows "i < DISK_TYPES \<Longrightarrow> disks AND diskBitMasks ! i \<noteq> 0 \<Longrightarrow> run_job env job fs (disk_name rel i q @ ''.gz'') = Some (gz env (content q))"
    and "name_ok q' \<Longrightarrow> key q' \<noteq> key q \<Longrightarrow> run_job env job fs (buffer_name rel q') = fs (buffer_name rel q')"
    and "name_ok q' \<Longrightarrow> key q' \<noteq> key q \<Longrightarrow> j < DISK_TYPES \<Longrightarrow> run_job env job fs (disk_name rel j q' @ ''.gz'') = fs (disk_name rel j q' @ ''.gz'')"
proof -
  obtain ts where ts: "run_job env job = zip_and_copy env disks (buffer_name rel q) ts"
    "\<And>i. i < DISK_TYPES \<Longrightarrow> disks AND diskBitMasks ! i \<noteq> 0 \<Longrightarrow> ts ! i = disk_name rel i q"
    using assms(1) by (auto simp: job_for_def)
  have q: "name_ok q" "fs (buffer_name rel q) = Some (content q)" "content q \<noteq> []"
    "\<And>i. i < DISK_TYPES \<Longrightarrow> disks AND diskBitMasks ! i \<noteq> 0 \<Longrightarrow> fs (disk_name rel i q @ ''.gz'') = None"
    using assms(3) by (simp_all add: files_ready_def)
  have pre: "\<forall>i<DISK_TYPES. disks AND diskBitMasks ! i \<noteq> 0 \<longrightarrow> fs (ts ! i @ ''.gz'') = None \<and> ts ! i @ ''.gz'' \<notin> {buffer_name rel q, buffer_name rel q @ ''.gz''}
      \<and> ts ! i @ ''.gz.new'' \<noteq> buffer_name rel q @ ''.gz''"
  proof (intro allI impI)
    fix i assume i: "i < DISK_TYPES" "disks AND diskBitMasks ! i \<noteq> 0"
    have "disk_name rel i q \<noteq> buffer_name rel q"
      using buffer_name_disk [OF q(1,1) i(1)] by metis
    then show "fs (ts ! i @ ''.gz'') = None \<and> ts ! i @ ''.gz'' \<notin> {buffer_name rel q, buffer_name rel q @ ''.gz''} \<and> ts ! i @ ''.gz.new'' \<noteq> buffer_name rel q @ ''.gz''"
      using q(4) [OF i] ts(2) [OF i] name_ends(1) [of rel q "disk_name rel i q"] name_ends(3) [of "buffer_name rel q" "disk_name rel i q"] by auto
  qed
  have inj: "\<forall>i<DISK_TYPES. \<forall>j<DISK_TYPES. disks AND diskBitMasks ! i \<noteq> 0 \<longrightarrow> disks AND diskBitMasks ! j \<noteq> 0 \<longrightarrow> ts ! i = ts ! j \<longrightarrow> i = j"
    using ts(2) disk_name_inj [OF q(1,1)] by metis
  note result = zip_and_copy_result [OF assms(2) q(2,3) pre inj]
  show "run_job env job fs (disk_name rel i q @ ''.gz'') = Some (gz env (content q))" if "i < DISK_TYPES" "disks AND diskBitMasks ! i \<noteq> 0"
    using result(1) that ts by auto
  show "run_job env job fs (buffer_name rel q') = fs (buffer_name rel q')" if "name_ok q'" "key q' \<noteq> key q"
    unfolding ts(1) using name_ends(1,2) buffer_name_inj [OF that(1) q(1)] that(2) by (intro result(2)) auto
  show "run_job env job fs (disk_name rel j q' @ ''.gz'') = fs (disk_name rel j q' @ ''.gz'')" if "name_ok q'" "key q' \<noteq> key q" "j < DISK_TYPES"
  proof -
    have "disk_name rel j q' @ ''.gz'' \<notin> {buffer_name rel q, buffer_name rel q @ ''.gz''}"
      using name_ends(1) [of rel q "disk_name rel j q'"] buffer_name_disk [OF q(1) that(1,3), of rel] by auto
    moreover have "disk_name rel j q' @ ''.gz'' \<noteq> ts ! i @ ''.gz'' \<and> disk_name rel j q' @ ''.gz'' \<noteq> ts ! i @ ''.gz.new''" if "i < DISK_TYPES" "disks AND diskBitMasks ! i \<noteq> 0" for i
      using ts(2) [OF that] name_ends(3) disk_name_inj [OF \<open>name_ok q'\<close> q(1) \<open>j < DISK_TYPES\<close> that(1), of rel] \<open>key q' \<noteq> key q\<close> by auto
    ultimately show ?thesis
      unfolding ts(1) by (intro result(2)) auto
  qed
qed

lemma run_all_jobs:
  assumes "list_all2 (job_for env rel disks) qs jobs" "distinct (map key qs)" "\<And>f. canOpen env f" "files_ready rel disks content (set qs) fs"
  shows "(\<forall>q\<in>set qs. \<forall>i<DISK_TYPES. disks AND diskBitMasks ! i \<noteq> 0 \<longrightarrow> fold (run_job env) jobs fs (disk_name rel i q @ ''.gz'') = Some (gz env (content q)))
    \<and> (\<forall>q j. name_ok q \<longrightarrow> key q \<notin> key ` set qs \<longrightarrow> j < DISK_TYPES \<longrightarrow> fold (run_job env) jobs fs (disk_name rel j q @ ''.gz'') = fs (disk_name rel j q @ ''.gz''))"
  using assms(1,2,4)
proof (induction qs jobs arbitrary: fs rule: list_all2_induct)
  case (Cons q qs job jobs)
  have one: "files_ready rel disks content {q} fs"
    using Cons.prems(2) by (simp add: files_ready_def)
  note r = run_one_job [OF Cons.hyps(1) assms(3) one]
  have "key q' \<noteq> key q" if "q' \<in> set qs" for q'
    using Cons.prems(1) that by (metis distinct.simps(2) image_eqI list.map(2) set_map)
  then have "files_ready rel disks content (set qs) (run_job env job fs)"
    using Cons.prems(2) r(2,3) by (simp add: files_ready_def)
  then have I: "\<And>q i. q \<in> set qs \<Longrightarrow> i < DISK_TYPES \<Longrightarrow> disks AND diskBitMasks ! i \<noteq> 0 \<Longrightarrow> fold (run_job env) jobs (run_job env job fs) (disk_name rel i q @ ''.gz'') = Some (gz env (content q))"
    "\<And>q j. name_ok q \<Longrightarrow> key q \<notin> key ` set qs \<Longrightarrow> j < DISK_TYPES \<Longrightarrow> fold (run_job env) jobs (run_job env job fs) (disk_name rel j q @ ''.gz'') = run_job env job fs (disk_name rel j q @ ''.gz'')"
    using Cons.IH [of "run_job env job fs"] Cons.prems(1) by auto
  have q: "name_ok q" "key q \<notin> key ` set qs"
    using one Cons.prems(1) by (auto simp: files_ready_def)
  show ?case
    using I r q by auto
qed simp

section \<open>Any sequence of events\<close>

lemma buffer_disks_eval: "buffer_disks w = 15 AND writeBitMask w"
  by (simp add: buffer_disks_def eventBufferDisk_def diskBitMasks_def DISK_TYPES_def upt_rec nth_Cons')

lemma disk_bit: "i < DISK_TYPES \<Longrightarrow> (15 AND m) AND diskBitMasks ! i \<noteq> 0 \<longleftrightarrow> i \<noteq> 3 \<and> diskBitMasks ! i AND m \<noteq> 0" for m :: int
proof -
  assume "i < DISK_TYPES"
  then have "i \<in> {0, 1, 2, 3, 4}"
    by (rule small_disk)
  moreover have "(15 AND m) AND k = m AND (15 AND k)" for k :: int
    by (simp add: and.assoc and.left_commute)
  ultimately show ?thesis
    by (auto simp: diskBitMasks_def and.commute)
qed

lemma last_jobs_for:
  assumes "writer_at rel pre n bodies w" "disks_at rel pre n w" "\<forall>i<DISK_TYPES. diskBitMasks ! i AND writeBitMask w \<noteq> 0 \<longrightarrow> disk_open bodies i w"
  shows "list_all2 (job_for env rel (15 AND writeBitMask w)) ((if bodies then [(pre, n)] else []) @ [(''hd'', n)]) (last_jobs bodies w)"
proof -
  have d: "disk_at rel pre n i w" "disk_open bodies i w" if "i < DISK_TYPES" "(15 AND writeBitMask w) AND diskBitMasks ! i \<noteq> 0" for i
    using assms(2,3) that disk_bit by (auto simp: disks_at_def)
  have "job_for env rel (15 AND writeBitMask w) (''hd'', n) (Zip_headers (buffer_disks w) w)"
    unfolding job_for_def
    by (rule exI [of _ "currentHeaderFileName w"])
      (use assms(1) d in \<open>auto simp: run_job_def zipBufferedHeaderFileAndCopy_def buffer_disks_eval buffer_name_def disk_name_def writer_at_def disk_at_def disk_open_def\<close>)
  moreover have "job_for env rel (15 AND writeBitMask w) (pre, n) (Zip_events (buffer_disks w) w)" if bodies
    unfolding job_for_def
    by (rule exI [of _ "currentEventFileName w"])
      (use assms(1) d that in \<open>auto simp: run_job_def zipBufferedEventFileAndCopy_def buffer_disks_eval buffer_name_def disk_name_def writer_at_def disk_at_def disk_open_def\<close>)
  ultimately show ?thesis
    by (simp add: last_jobs_def)
qed

definition finished :: "string \<Rightarrow> written_event list \<Rightarrow> int \<Rightarrow> (string \<times> int) list \<Rightarrow> bool" where
  "finished pre es g qs \<longleftrightarrow> distinct (map key qs) \<and> (\<forall>q\<in>set qs. name_ok q)
     \<and> key ` set qs = {(''hd'', k) |k. k < g \<and> of_group k es \<noteq> []} \<union> {(pre, k) |k. k < g \<and> with_body (of_group k es) \<noteq> []}"

lemma finished_next:
  assumes "finished pre es g qs" "number_ok n" "n div 100 = g" "of_group g es \<noteq> []" "pre \<noteq> ''hd''" "CHR ''/'' \<notin> set pre" "b = (with_body (of_group g es) \<noteq> [])"
  shows "finished pre es (g + 1) (qs @ (if b then [(pre, n)] else []) @ [(''hd'', n)])"
proof -
  have k: "k < g + 1 \<longleftrightarrow> k < g \<or> k = g" for k :: int
    by auto
  let ?K = "\<lambda>g. {(''hd'', k) |k. k < g \<and> of_group k es \<noteq> []} \<union> {(pre, k) |k. k < g \<and> with_body (of_group k es) \<noteq> []}"
  have qs: "distinct (map key qs)" "\<forall>q\<in>set qs. name_ok q" "key ` set qs = ?K g"
    using assms(1) by (simp_all add: finished_def)
  have keys: "key (pre, n) = (pre, g)" "key (''hd'', n) = (''hd'', g)"
    using assms(3) by (simp_all add: key_def)
  have new: "(''hd'', g) \<notin> key ` set qs" "(pre, g) \<notin> key ` set qs"
    unfolding qs(3) by auto
  have "distinct (map key (qs @ (if b then [(pre, n)] else []) @ [(''hd'', n)]))"
    using qs(1) new keys assms(5) by (cases b) simp_all
  moreover have "key ` set (qs @ (if b then [(pre, n)] else []) @ [(''hd'', n)]) = ?K g \<union> (if b then {(pre, g)} else {}) \<union> {(''hd'', g)}"
    using keys by (cases b) (simp_all add: image_Un qs(3) insert_commute)
  moreover have "?K g \<union> (if b then {(pre, g)} else {}) \<union> {(''hd'', g)} = ?K (g + 1)"
    using assms(4,7) unfolding k by auto
  moreover have "\<forall>q\<in>set (qs @ (if b then [(pre, n)] else []) @ [(''hd'', n)]). name_ok q"
    using qs(2) assms(2,6) by (auto simp: name_ok_def)
  ultimately show ?thesis
    unfolding finished_def by (intro conjI) simp_all
qed

lemma finished_same: "finished pre es g qs \<Longrightarrow> \<forall>k<g. of_group k es' = of_group k es \<Longrightarrow> finished pre es' g qs"
  unfolding finished_def by (elim conjE) (intro conjI; auto)

definition write_events :: "archive_env \<Rightarrow> written_event list \<Rightarrow> AnitaEventWriterStruct_t \<times> event_disk \<Rightarrow> AnitaEventWriterStruct_t \<times> event_disk" where
  "write_events env = fold (write_event env)"

definition no_copies :: "string \<Rightarrow> event_disk \<Rightarrow> bool" where
  "no_copies rel d \<longleftrightarrow> (\<forall>q i. name_ok q \<longrightarrow> i < DISK_TYPES \<longrightarrow> i \<noteq> 3 \<longrightarrow> ed_files d (disk_name rel i q @ ''.gz'') = None)"

lemma no_copies_keep:
  assumes "no_copies rel d" "off_pmc (buffered env rel pre h bytes just (ed_files d)) (ed_files d')"
  shows "no_copies rel d'"
  unfolding no_copies_def
proof (intro allI impI)
  fix q i assume q: "name_ok q" "i < DISK_TYPES" "i \<noteq> 3"
  have "take 12 (disk_name rel i q @ ''.gz'') \<noteq> ''/mnt/pmcdata''"
    using small_disk [OF q(2)] q(3) by (auto simp: disk_name_def file_name_def sub_dir_def diskNames_def)
  then have "ed_files d' (disk_name rel i q @ ''.gz'') = buffered env rel pre h bytes just (ed_files d) (disk_name rel i q @ ''.gz'')"
    using assms(2) by (simp add: off_pmc_def)
  also have "\<dots> = ed_files d (disk_name rel i q @ ''.gz'')"
    using name_ends(1) [of rel "(''hd'', hd_eventNumber h)" "disk_name rel i q"] name_ends(1) [of rel "(pre, hd_eventNumber h)" "disk_name rel i q"]
    by (auto simp: buffered_def Let_def buffer_name_def)
  also have "\<dots> = None"
    using assms(1) q unfolding no_copies_def by blast
  finally show "ed_files d' (disk_name rel i q @ ''.gz'') = None" .
qed

lemma write_events_inv:
  assumes "sorted (map number es)" "\<forall>x\<in>set es. number_ok (number x) \<and> we_disks x = m" "\<And>f. canOpen env f" "pre \<noteq> ''hd''" "CHR ''/'' \<notin> set pre"
    and "between env rel pre [] w d" "ed_jobs d = []" "no_copies rel d"
  shows "\<exists>w' d' qs. write_events env es (w, d) = (w', d') \<and> between env rel pre es w' d' \<and> no_copies rel d'
    \<and> (es = [] \<longrightarrow> ed_jobs d' = []) \<and> (es \<noteq> [] \<longrightarrow> writeBitMask w' = m \<and> list_all2 (job_for env rel (15 AND m)) qs (ed_jobs d') \<and> finished pre es (group_of es) qs
      \<and> (\<forall>i<DISK_TYPES. diskBitMasks ! i AND m \<noteq> 0 \<longrightarrow> disk_open (with_body (of_group (group_of es) es) \<noteq> []) i w'))"
  using assms(1,2)
proof (induction es rule: rev_induct)
  case Nil
  then show ?case
    using assms(6-8) by (simp add: write_events_def)
next
  case (snoc e es)
  have ok: "\<forall>x\<in>set (es @ [e]). number_ok (number x)" "we_disks e = m" "number_ok (number e)"
    using snoc.prems(2) by auto
  have "sorted (map number es)" "\<forall>x\<in>set es. number_ok (number x) \<and> we_disks x = m"
    using snoc.prems by (simp_all add: sorted_append)
  then obtain w1 d1 qs where 1: "write_events env es (w, d) = (w1, d1)" "between env rel pre es w1 d1" "no_copies rel d1" "es = [] \<Longrightarrow> ed_jobs d1 = []"
    "es \<noteq> [] \<Longrightarrow> writeBitMask w1 = m \<and> list_all2 (job_for env rel (15 AND m)) qs (ed_jobs d1) \<and> finished pre es (group_of es) qs
      \<and> (\<forall>i<DISK_TYPES. diskBitMasks ! i AND m \<noteq> 0 \<longrightarrow> disk_open (with_body (of_group (group_of es) es) \<noteq> []) i w1)"
    using snoc.IH by blast
  define new where "new = (es \<noteq> [] \<and> group_of es < number e div 100)"
  let ?b = "with_body (of_group (group_of es) es) \<noteq> []"
  obtain w2 d2 where 2: "write_event env e (w1, d1) = (w2, d2)" "between env rel pre (es @ [e]) w2 d2" "writeBitMask w2 = we_disks e"
    "ed_jobs d2 = ed_jobs d1 @ (if new then last_jobs ?b (set_event e w1) else [])" "off_pmc (buffered env rel pre (we_header e) (we_bytes e) (we_just e) (ed_files d1)) (ed_files d2)"
    "\<not> new \<longrightarrow> more_open w1 w2" "\<forall>i<DISK_TYPES. diskBitMasks ! i AND we_disks e \<noteq> 0 \<longrightarrow> disk_open (\<not> we_just e) i w2"
    using write_event_between [OF 1(2) snoc.prems(1) ok(1) assms(3-5)] unfolding new_def by blast
  have g: "group_of (es @ [e]) = number e div 100"
    by (simp add: group_of_def)
  have step: "write_events env (es @ [e]) (w, d) = (w2, d2)"
    using 1(1) 2(1) by (simp add: write_events_def)
  have copies: "no_copies rel d2"
    using no_copies_keep [OF 1(3) 2(5)] .
  have before: "of_group k (es @ [e]) = of_group k es" if "k < number e div 100" for k
    using that by (simp add: group_simps)
  have rest: "\<exists>qs. list_all2 (job_for env rel (15 AND m)) qs (ed_jobs d2) \<and> finished pre (es @ [e]) (number e div 100) qs
      \<and> (\<forall>i<DISK_TYPES. diskBitMasks ! i AND m \<noteq> 0 \<longrightarrow> disk_open (with_body (of_group (number e div 100) (es @ [e])) \<noteq> []) i w2)"
  proof (cases "es = []")
    case True
    have "finished pre (es @ [e]) (number e div 100) []"
      using before True by (simp add: finished_def group_simps)
    then show ?thesis
      using True 1(4) 2(4,7) ok(2) by (intro exI [of _ "[]"]) (cases "we_just e"; simp add: new_def of_group_def with_body_def)
  next
    case ne: False
    note old = 1(5) [OF ne]
    show ?thesis
    proof (cases "new")
      case True
      let ?n = "number (last es)"
      have n: "number_ok ?n" "?n div 100 = group_of es"
        using ne ok(1) by (simp_all add: group_of_def)
      have at: "writer_at rel pre ?n ?b (set_event e w1)" "disks_at rel pre ?n (set_event e w1)"
        using 1(2) ne by (simp_all add: between_def set_event_keeps group_of_def)
      have "list_all2 (job_for env rel (15 AND m)) ((if ?b then [(pre, ?n)] else []) @ [(''hd'', ?n)]) (last_jobs ?b (set_event e w1))"
        using last_jobs_for [OF at] old ok(2) by (simp add: set_event_keeps)
      then have jobs: "list_all2 (job_for env rel (15 AND m)) (qs @ (if ?b then [(pre, ?n)] else []) @ [(''hd'', ?n)]) (ed_jobs d2)"
        using old 2(4) True by (simp add: list_all2_appendI)
      have "finished pre es (group_of es + 1) (qs @ (if ?b then [(pre, ?n)] else []) @ [(''hd'', ?n)])"
        using old of_group_last [OF ne] n assms(4,5) by (intro finished_next) simp_all
      moreover have gap: "of_group k es = []" if "group_of es < k" for k
        using sorted_groups(3) [OF snoc.prems(1) ne] that by (intro of_group_none) force
      have range: "k < group_of es + 1 \<and> of_group k es \<noteq> [] \<longleftrightarrow> k < number e div 100 \<and> of_group k (es @ [e]) \<noteq> []" for k
        using gap [of k] before [of k] True by (cases "k < group_of es + 1") (auto simp: new_def)
      have range': "k < group_of es + 1 \<and> with_body (of_group k es) \<noteq> [] \<longleftrightarrow> k < number e div 100 \<and> with_body (of_group k (es @ [e])) \<noteq> []" for k
        using gap [of k] before [of k] True by (cases "k < group_of es + 1") (auto simp: new_def group_simps)
      ultimately have "finished pre (es @ [e]) (number e div 100) (qs @ (if ?b then [(pre, ?n)] else []) @ [(''hd'', ?n)])"
        unfolding finished_def range range' by simp
      moreover have "of_group (number e div 100) es = []"
        using True by (intro gap) (simp add: new_def)
      ultimately show ?thesis
        using jobs 2(7) ok(2) by (intro exI [of _ "qs @ (if ?b then [(pre, ?n)] else []) @ [(''hd'', ?n)]"]) (cases "we_just e"; simp add: group_simps)
    next
      case False
      then have same: "number e div 100 = group_of es"
        using sorted_groups(2) [OF snoc.prems(1) ne] ne by (simp add: new_def)
      have "finished pre (es @ [e]) (number e div 100) qs"
        using finished_same [of pre es "group_of es" qs "es @ [e]"] old before same by simp
      moreover have "disk_open (with_body (of_group (number e div 100) (es @ [e])) \<noteq> []) i w2" if "i < DISK_TYPES" "diskBitMasks ! i AND m \<noteq> 0" for i
      proof -
        have "disk_open ?b i w2" "disk_open (\<not> we_just e) i w2"
          using old 2(6,7) False that ok(2) by (auto simp: more_open_def)
        then show ?thesis
          using same by (auto simp: disk_open_def group_simps)
      qed
      ultimately show ?thesis
        using old 2(4) False by auto
    qed
  qed
  then show ?case
    using step 2(2,3) ok(2) copies g by auto
qed

text \<open>The writer after \<open>prepWriterStructs\<close> on an empty file system.\<close>

definition fresh_writer :: "string \<Rightarrow> string \<Rightarrow> AnitaEventWriterStruct_t \<times> event_disk" where
  "fresh_writer rel pre = (writer_start\<lparr>relBaseName := rel, filePrefix := pre\<rparr>, \<lparr>ed_files = (\<lambda>_. None), ed_dirs = [], ed_jobs = []\<rparr>)"

lemma fresh_between: "between env rel pre [] (fst (fresh_writer rel pre)) (snd (fresh_writer rel pre))" "no_copies rel (snd (fresh_writer rel pre))" "ed_jobs (snd (fresh_writer rel pre)) = []"
  by (simp_all add: fresh_writer_def between_def buffer_files_def group_simps file_of_simps writer_idle_def writer_start_def pmc_ok_def DISK_TYPES_def
      disks_at_def disk_at_def no_copies_def less_Suc_eq numeral_eq_Suc)

lemma copies_of_files:
  assumes "between env rel pre es w d" "no_copies rel d" "finished pre es g qs" "list_all2 (job_for env rel (15 AND m)) qs (ed_jobs d)" "\<And>f. canOpen env f"
    and "\<And>h. headerBytes env h \<noteq> []" "\<forall>x\<in>set es. we_bytes x \<noteq> []" "pre \<noteq> ''hd''"
    and "q \<in> set qs" "i < DISK_TYPES" "i \<noteq> 3" "diskBitMasks ! i AND m \<noteq> 0"
  shows "run_jobs env d (disk_name rel i q @ ''.gz'') = Some (gz env (concat (if fst q = ''hd'' then map (headerBytes env \<circ> we_header) (of_group (snd q div 100) es)
    else map we_bytes (with_body (of_group (snd q div 100) es)))))"
proof -
  let ?content = "\<lambda>q. concat (if fst q = ''hd'' then map (headerBytes env \<circ> we_header) (of_group (snd q div 100) es) else map we_bytes (with_body (of_group (snd q div 100) es)))"
  have files: "ed_files d (file_name (buffer_base rel) ''hd'' n) = file_of (headerBytes env \<circ> we_header) (of_group (n div 100) es)"
    "ed_files d (file_name (buffer_base rel) pre n) = file_of we_bytes (with_body (of_group (n div 100) es))" if "number_ok n" for n
    using assms(1) that by (simp_all add: between_def buffer_files_def)
  have "files_ready rel (15 AND m) ?content (set qs) (ed_files d)"
    unfolding files_ready_def
  proof (intro ballI conjI)
    fix q assume q: "q \<in> set qs"
    then show ok: "name_ok q"
      using assms(3) by (simp add: finished_def)
    have "key q \<in> key ` set qs"
      using q by simp
    then have k: "fst q = ''hd'' \<and> of_group (snd q div 100) es \<noteq> [] \<or> fst q = pre \<and> with_body (of_group (snd q div 100) es) \<noteq> []"
      using assms(3) unfolding finished_def key_def by auto
    have w: "we_bytes x \<noteq> []" if "x \<in> set (with_body (of_group k es))" for x k
      using that assms(7) by (simp add: with_body_def of_group_def)
    have n: "number_ok (snd q)"
      using ok by (simp add: name_ok_def)
    show "ed_files d (buffer_name rel q) = Some (?content q)"
      using k files [OF n] assms(8) by (auto simp: buffer_name_def file_of_def)
    show "?content q \<noteq> []"
      using k w assms(6,8) by (auto simp: neq_Nil_conv)
    show "\<forall>i<DISK_TYPES. (15 AND m) AND diskBitMasks ! i \<noteq> 0 \<longrightarrow> ed_files d (disk_name rel i q @ ''.gz'') = None"
      using assms(2) ok disk_bit unfolding no_copies_def by blast
  qed
  moreover have "distinct (map key qs)"
    using assms(3) by (simp add: finished_def)
  moreover have "(15 AND m) AND diskBitMasks ! i \<noteq> 0"
    using disk_bit [OF assms(10)] assms(11,12) by simp
  ultimately show ?thesis
    using run_all_jobs [OF assms(4) _ assms(5), of ?content "ed_files d"] assms(9,10) by (simp add: run_jobs_def)
qed

text \<open>What is on disk when every event was written and the last file closed.\<close>

definition written_and_closed :: "archive_env \<Rightarrow> written_event list \<Rightarrow> AnitaEventWriterStruct_t \<times> event_disk \<Rightarrow> event_disk" where
  "written_and_closed env es x = (case write_events env es x of (w, d) \<Rightarrow> snd (closeEventFilesAndTidy w d))"

lemma copies_complete:
  assumes "sorted (map number es)" "\<forall>x\<in>set es. number_ok (number x) \<and> we_disks x = m \<and> we_bytes x \<noteq> []" "\<And>f. canOpen env f" "\<And>h. headerBytes env h \<noteq> []"
    and "pre \<noteq> ''hd''" "CHR ''/'' \<notin> set pre" "e \<in> set es" "i < DISK_TYPES" "i \<noteq> 3" "diskBitMasks ! i AND m \<noteq> 0"
    and "between env rel pre [] w d" "ed_jobs d = []" "no_copies rel d"
  shows "run_jobs env (written_and_closed env es (w, d)) (file_name (disk_base i rel) ''hd'' (number e) @ ''.gz'')
      = Some (gz env (concat (map (headerBytes env \<circ> we_header) (of_group (number e div 100) es))))
    \<and> (\<not> we_just e \<longrightarrow> run_jobs env (written_and_closed env es (w, d)) (file_name (disk_base i rel) pre (number e) @ ''.gz'')
      = Some (gz env (concat (map we_bytes (with_body (of_group (number e div 100) es))))))"
proof -
  have es: "es \<noteq> []" and all: "\<forall>x\<in>set es. number_ok (number x) \<and> we_disks x = m" "\<forall>x\<in>set es. we_bytes x \<noteq> []"
    using assms(2,7) by auto
  obtain w1 d1 qs where 1: "write_events env es (w, d) = (w1, d1)" "between env rel pre es w1 d1" "no_copies rel d1" "writeBitMask w1 = m"
    "list_all2 (job_for env rel (15 AND m)) qs (ed_jobs d1)" "finished pre es (group_of es) qs"
    "\<forall>i<DISK_TYPES. diskBitMasks ! i AND m \<noteq> 0 \<longrightarrow> disk_open (with_body (of_group (group_of es) es) \<noteq> []) i w1"
    using write_events_inv [OF assms(1) all(1) assms(3,5,6,11-13)] es by auto
  let ?n = "number (last es)" and ?b = "with_body (of_group (group_of es) es) \<noteq> []" and ?d = "written_and_closed env es (w, d)"
  have at: "writer_at rel pre ?n ?b w1" "disks_at rel pre ?n w1"
    using 1(2) es by (simp_all add: between_def group_of_def)
  obtain w2 where w2: "closeEventFilesAndTidy w1 d1 = (w2, d1\<lparr>ed_jobs := ed_jobs d1 @ last_jobs ?b w1\<rparr>)"
    using close_at [OF at(1)] by blast
  then have d: "?d = d1\<lparr>ed_jobs := ed_jobs d1 @ last_jobs ?b w1\<rparr>"
    using 1(1) by (simp add: written_and_closed_def)
  let ?qs = "qs @ (if ?b then [(pre, ?n)] else []) @ [(''hd'', ?n)]"
  have jobs: "list_all2 (job_for env rel (15 AND m)) ?qs (ed_jobs ?d)"
    using list_all2_appendI [OF 1(5) last_jobs_for [OF at, unfolded 1(4), OF 1(7)]] d by simp
  have fin: "finished pre es (group_of es + 1) ?qs"
    using all(1) es of_group_last [OF es] by (intro finished_next [OF 1(6) _ _ _ assms(5,6)]) (simp_all add: group_of_def)
  have bd: "between env rel pre es w1 ?d" "no_copies rel ?d"
    using 1(2,3) d by (simp_all add: between_def no_copies_def)
  note copy = copies_of_files [OF bd fin jobs assms(3,4) all(2) assms(5) _ assms(8-10)]
  have ok: "number_ok (number e)"
    using all(1) assms(7) by blast
  have "number e \<le> number (last es)"
    using assms(1,7) by (cases es rule: rev_cases) (auto simp: sorted_append)
  then have le: "number e div 100 < group_of es + 1"
    using zdiv_mono1 [of "number e" "number (last es)" 100] by (simp add: group_of_def)
  have mem: "e \<in> set (of_group (number e div 100) es)"
    using assms(7) by (simp add: of_group_def)
  have copied: "run_jobs env ?d (file_name (disk_base i rel) p (number e) @ ''.gz'') = Some (gz env (concat (if p = ''hd'' then map (headerBytes env \<circ> we_header) (of_group (number e div 100) es)
      else map we_bytes (with_body (of_group (number e div 100) es)))))" if k: "(p, number e div 100) \<in> key ` set ?qs" for p
  proof -
    obtain q where q: "q \<in> set ?qs" "fst q = p" "snd q div 100 = number e div 100"
      using k unfolding key_def image_iff by (elim bexE) simp
    have "number_ok (snd q)"
      using fin q(1) unfolding finished_def name_ok_def by blast
    then have "disk_name rel i q = file_name (disk_base i rel) p (number e)"
      unfolding disk_name_def q(2) using file_name_group(1) [OF _ ok q(3)] by metis
    then show ?thesis
      using copy [OF q(1)] q(2,3) by simp
  qed
  have keys: "key ` set ?qs = {(''hd'', k) |k. k < group_of es + 1 \<and> of_group k es \<noteq> []} \<union> {(pre, k) |k. k < group_of es + 1 \<and> with_body (of_group k es) \<noteq> []}"
    using fin by (simp add: finished_def)
  have "(''hd'', number e div 100) \<in> key ` set ?qs"
    unfolding keys using le mem by auto
  moreover have "(pre, number e div 100) \<in> key ` set ?qs" if "\<not> we_just e"
    unfolding keys using le mem that by (auto simp: with_body_def filter_empty_conv)
  ultimately show ?thesis
    using copied [of "''hd''"] copied [of pre] assms(5) by simp
qed

section \<open>Properties\<close>

text \<open>
  C7. When all events of a run go to the same disks and their numbers do not decrease, then after the
  last file is closed and the child processes have run, every buffered disk of the selection holds, for
  each hundred of event numbers, the compressed headers of exactly its events in their order, and the
  compressed bodies of those that have one.
\<close>

theorem archive_complete:
  assumes "sorted (map number es)" "\<forall>x\<in>set es. number_ok (number x) \<and> we_disks x = m \<and> we_bytes x \<noteq> []" "\<And>f. canOpen env f" "\<And>h. headerBytes env h \<noteq> []"
    and "pre \<noteq> ''hd''" "CHR ''/'' \<notin> set pre" "e \<in> set es" "i < DISK_TYPES" "i \<noteq> 3" "diskBitMasks ! i AND m \<noteq> 0"
  shows "run_jobs env (written_and_closed env es (fresh_writer rel pre)) (file_name (disk_base i rel) ''hd'' (number e) @ ''.gz'')
      = Some (gz env (concat (map (headerBytes env \<circ> we_header) (of_group (number e div 100) es))))
    \<and> (\<not> we_just e \<longrightarrow> run_jobs env (written_and_closed env es (fresh_writer rel pre)) (file_name (disk_base i rel) pre (number e) @ ''.gz'')
      = Some (gz env (concat (map we_bytes (with_body (of_group (number e div 100) es))))))"
  using copies_complete [OF assms fresh_between(1,3,2)] by (simp del: o_apply)

text \<open>A body and a header in the first hundred, a body in the second.\<close>

definition example_events :: "written_event list" where
  "example_events =
     [\<lparr>we_header = example_header_of 0 7 1 0 0 0, we_bytes = [1, 2], we_disks = 1, we_just = False\<rparr>,
      \<lparr>we_header = example_header_of 0 42 2 0 0 0, we_bytes = [3], we_disks = 1, we_just = True\<rparr>,
      \<lparr>we_header = example_header_of 0 105 3 0 0 0, we_bytes = [4], we_disks = 1, we_just = False\<rparr>]"

definition example_archive_env :: archive_env where
  "example_archive_env = \<lparr>headerBytes = (\<lambda>h. [word_of_int (hd_priority h)]), canOpen = (\<lambda>_. True), gz = (\<lambda>b. 31 # b)\<rparr>"

lemma archive_complete_witness:
  "run_jobs example_archive_env (written_and_closed example_archive_env example_events (fresh_writer ''run1'' ''psev'')) (file_name (disk_base 0 ''run1'') ''hd'' 7 @ ''.gz'') = Some [31, 1, 2]
    \<and> run_jobs example_archive_env (written_and_closed example_archive_env example_events (fresh_writer ''run1'' ''psev'')) (file_name (disk_base 0 ''run1'') ''psev'' 7 @ ''.gz'') = Some [31, 1, 2]"
proof -
  have e: "example_events ! 0 \<in> set example_events" "number (example_events ! 0) = 7"
    by (simp_all add: example_events_def)
  have g: "of_group 0 example_events = take 2 example_events" "with_body (take 2 example_events) = take 1 example_events"
    by (simp_all add: example_events_def of_group_def with_body_def)
  have "sorted (map number example_events)"
    "\<forall>x\<in>set example_events. number_ok (number x) \<and> we_disks x = 1 \<and> we_bytes x \<noteq> []" "\<And>f. canOpen example_archive_env f" "\<And>h. headerBytes example_archive_env h \<noteq> []"
    by (simp_all add: example_events_def example_archive_env_def number_ok_def)
  note r = archive_complete [OF this _ _ e(1), of "''psev''" 0 "''run1''", unfolded e(2)]
  then show ?thesis
    by (simp add: DISK_TYPES_def diskBitMasks_def g) (simp add: example_events_def example_archive_env_def)
qed

end
