(* ===== verification/Archived_Rounds.thy ===== *)
theory Archived_Rounds
  imports Archived Event_Copies
begin

text \<open>
  Rounds of the archiver: what it writes for the events that are linked, and what the disks hold in the
  end.
\<close>

section \<open>What an operation leaves alone\<close>

text \<open>The settings and the watched directory stay through a round.\<close>

definition settings :: "archived \<Rightarrow> archived" where
  "settings s = s\<lparr>ar_acts := [], ar_draws := 0, ar_checks := 0, ar_disk := \<lparr>ed_files = (\<lambda>_. None), ed_dirs = [], ed_jobs = []\<rparr>, eventWriter := writer_start,
     theHead := example_header_of 0 0 0 0 0 0, pedSubBody := example_event, outputBuffer := (\<lambda>_. 0)\<rparr>"

definition continues :: "archived \<Rightarrow> archived \<Rightarrow> bool" where
  "continues s s' \<longleftrightarrow> settings s' = settings s"

lemma continues_refl [simp]: "continues s s"
  by (simp add: continues_def)

lemma continues_trans [trans]: "continues s s' \<Longrightarrow> continues s' s'' \<Longrightarrow> continues s s''"
  by (simp add: continues_def)

lemma continues_upd [simp]:
  "continues s (s'\<lparr>ar_acts := as\<rparr>) = continues s s'" "continues s (s'\<lparr>ar_draws := k\<rparr>) = continues s s'" "continues s (s'\<lparr>ar_checks := c\<rparr>) = continues s s'"
  "continues s (s'\<lparr>eventWriter := w\<rparr>) = continues s s'" "continues s (s'\<lparr>ar_disk := d\<rparr>) = continues s s'" "continues s (s'\<lparr>theHead := h\<rparr>) = continues s s'"
  "continues s (s'\<lparr>pedSubBody := b\<rparr>) = continues s s'" "continues s (s'\<lparr>outputBuffer := m\<rparr>) = continues s s'"
  by (simp_all add: continues_def settings_def)

lemma settings_fields:
  "ar_wd (settings s) = ar_wd s" "writeTelem (settings s) = writeTelem s" "onboardStorageType (settings s) = onboardStorageType s"
  "telemType (settings s) = telemType s" "priorityPPS1 (settings s) = priorityPPS1 s" "priorityPPS2 (settings s) = priorityPPS2 s"
  "prioritySoft (settings s) = prioritySoft s" "priDiskEncodingType (settings s) = priDiskEncodingType s" "priTelemEncodingType (settings s) = priTelemEncodingType s"
  "priTelemClockEncodingType (settings s) = priTelemClockEncodingType s" "priorityFractionGlobalDecimate (settings s) = priorityFractionGlobalDecimate s" "priorityFractionDeleteHelium1 (settings s) = priorityFractionDeleteHelium1 s"
  "priorityFractionDeleteHelium2 (settings s) = priorityFractionDeleteHelium2 s" "priorityFractionDeleteUsb (settings s) = priorityFractionDeleteUsb s" "priorityFractionDeleteNeobrick (settings s) = priorityFractionDeleteNeobrick s"
  "priorityFractionDeletePmc (settings s) = priorityFractionDeletePmc s" "priDiskEventMask (settings s) = priDiskEventMask s" "eventDiskBitMask (settings s) = eventDiskBitMask s"
  by (simp_all add: settings_def)

lemma continues_fields:
  "continues s s' \<Longrightarrow> ar_wd s' = ar_wd s" "continues s s' \<Longrightarrow> writeTelem s' = writeTelem s" "continues s s' \<Longrightarrow> onboardStorageType s' = onboardStorageType s"
  "continues s s' \<Longrightarrow> telemType s' = telemType s" "continues s s' \<Longrightarrow> priorityPPS1 s' = priorityPPS1 s" "continues s s' \<Longrightarrow> priorityPPS2 s' = priorityPPS2 s"
  "continues s s' \<Longrightarrow> prioritySoft s' = prioritySoft s" "continues s s' \<Longrightarrow> priDiskEncodingType s' = priDiskEncodingType s" "continues s s' \<Longrightarrow> priTelemEncodingType s' = priTelemEncodingType s"
  "continues s s' \<Longrightarrow> priTelemClockEncodingType s' = priTelemClockEncodingType s" "continues s s' \<Longrightarrow> priorityFractionGlobalDecimate s' = priorityFractionGlobalDecimate s" "continues s s' \<Longrightarrow> priorityFractionDeleteHelium1 s' = priorityFractionDeleteHelium1 s"
  "continues s s' \<Longrightarrow> priorityFractionDeleteHelium2 s' = priorityFractionDeleteHelium2 s" "continues s s' \<Longrightarrow> priorityFractionDeleteUsb s' = priorityFractionDeleteUsb s" "continues s s' \<Longrightarrow> priorityFractionDeleteNeobrick s' = priorityFractionDeleteNeobrick s"
  "continues s s' \<Longrightarrow> priorityFractionDeletePmc s' = priorityFractionDeletePmc s" "continues s s' \<Longrightarrow> priDiskEventMask s' = priDiskEventMask s" "continues s s' \<Longrightarrow> eventDiskBitMask s' = eventDiskBitMask s"
  unfolding continues_def by (metis settings_fields)+

section \<open>The writer keeps the flag of the event\<close>

lemma fold_keeps: "(\<And>i x. P (f i x) = P x) \<Longrightarrow> P (fold f is x) = P x"
  by (induction "is" arbitrary: x) simp_all

lemma close_keeps: "justHeader (fst (closeEventFilesAndTidy w d)) = justHeader w"
  unfolding closeEventFilesAndTidy_def Let_def fst_conv by (subst fold_keeps [where P = justHeader]) simp_all

lemma open_keeps: "justHeader (fst (open_disk env n i x)) = justHeader (fst x)" "justHeader (fst (open_buffer_header env n x)) = justHeader (fst x)"
  "justHeader (fst (open_buffer_event env n x)) = justHeader (fst x)" "justHeader (fst (write_buffer env h bytes x)) = justHeader (fst x)"
  by (cases x; simp add: open_disk_def open_disk_event_def open_disk_header_def open_buffer_header_def open_buffer_event_def write_buffer_def Let_def case_prod_beta
      split: option.splits)+

lemma write_keeps: "justHeader (fst (cleverEventWrite env bytes h (w, d))) = justHeader w"
  unfolding cleverEventWrite_def Let_def prod.case case_prod_beta
  by (subst fold_keeps [where P = "\<lambda>x. justHeader (fst x)"]) (simp_all add: open_keeps close_keeps)

section \<open>The selection of the disks\<close>

definition fractions :: "archived \<Rightarrow> real list list" where
  "fractions s = [priorityFractionGlobalDecimate s, priorityFractionDeleteHelium1 s, priorityFractionDeleteHelium2 s, priorityFractionDeleteUsb s,
     priorityFractionDeleteNeobrick s, priorityFractionDeletePmc s]"

definition arrays_ok :: "archived \<Rightarrow> bool" where
  "arrays_ok s \<longleftrightarrow> (\<forall>a\<in>set (fractions s). length a = NUM_PRIORITIES)
     \<and> (\<forall>a\<in>set [priDiskEncodingType s, priTelemEncodingType s, priTelemClockEncodingType s, priDiskEventMask s]. length a = NUM_PRIORITIES)"

text \<open>No event is thrown away and no disk left out.\<close>

definition keeps_all :: "archived_system \<Rightarrow> archived \<Rightarrow> bool" where
  "keeps_all sys s \<longleftrightarrow> (\<forall>k. 0 \<le> drand48 sys k) \<and> (\<forall>a\<in>set (fractions s). \<forall>f\<in>set a. f \<le> 0)"

lemma fractions_continue: "continues s s' \<Longrightarrow> fractions s' = fractions s" "continues s s' \<Longrightarrow> i < DISK_TYPES \<Longrightarrow> fraction_delete i s' = fraction_delete i s"
  using small_disk [of i] by (auto simp: fractions_def fraction_delete_def continues_fields)

lemma arrays_continue: "continues s s' \<Longrightarrow> arrays_ok s' = arrays_ok s" "continues s s' \<Longrightarrow> keeps_all sys s' = keeps_all sys s"
  by (simp_all add: arrays_ok_def keeps_all_def fractions_continue continues_fields)

lemma fraction_delete_in: "i < DISK_TYPES \<Longrightarrow> fraction_delete i s \<in> set (fractions s)"
  using small_disk [of i] by (auto simp: fraction_delete_def fractions_def)

lemma at_priority: "length a = NUM_PRIORITIES \<Longrightarrow> 0 \<le> p \<Longrightarrow> p \<le> 9 \<Longrightarrow> at_index a p = Some (a ! nat p) \<and> a ! nat p \<in> set a"
  by (auto simp: at_index_def NUM_PRIORITIES_def intro: nth_mem)

lemma event_priority_range: "0 \<le> event_priority h" "event_priority h \<le> 9"
  by (auto simp: event_priority_def Let_def)

lemma at_event_priority: "length a = NUM_PRIORITIES \<Longrightarrow> at_index a (event_priority h) = Some (a ! nat (event_priority h))"
  using at_priority event_priority_range by blast

lemma decimate_any:
  assumes "arrays_ok s" "0 \<le> p" "p \<le> 9" "set is \<subseteq> {..<DISK_TYPES}"
  shows "\<exists>k m'. decimate_disks sys p is m s = Some (m', s\<lparr>ar_draws := k\<rparr>) \<and> m' AND m = m' \<and> (keeps_all sys s \<longrightarrow> m' = m)"
  using assms(1,4)
proof (induction "is" arbitrary: m s)
  case Nil
  have "s = s\<lparr>ar_draws := ar_draws s\<rparr>"
    by simp
  then show ?case
    by (metis and.idem decimate_disks.simps(1))
next
  case (Cons i "is")
  show ?case
  proof (cases "diskBitMasks ! i AND m = 0")
    case True
    then show ?thesis
      using Cons.IH [of s m] Cons.prems by simp
  next
    case False
    define s1 where "s1 = s\<lparr>ar_draws := Suc (ar_draws s)\<rparr>"
    have i: "i < DISK_TYPES"
      using Cons.prems(2) by simp
    have cont: "continues s s1"
      by (simp add: s1_def)
    note same = arrays_continue [OF cont] fractions_continue(2) [OF cont i]
    define f where "f = fraction_delete i s ! nat p"
    have a: "fraction_delete i s \<in> set (fractions s)"
      using i by (rule fraction_delete_in)
    then have f: "at_index (fraction_delete i s) p = Some f" "f \<in> set (fraction_delete i s)"
      using at_priority [of "fraction_delete i s" p] assms(2,3) Cons.prems(1) by (simp_all add: arrays_ok_def f_def)
    define m1 where "m1 = (if drand48 sys (ar_draws s) < f then m AND NOT (diskBitMasks ! i) else m)"
    have step: "decimate_disks sys p (i # is) m s = decimate_disks sys p is m1 s1"
      using False f(1) same(3) by (simp add: ar_draw_def m1_def s1_def [symmetric])
    have sub: "m1 AND m = m1"
      by (simp add: m1_def and.commute and.left_commute)
    have all: "m1 = m" if "keeps_all sys s"
    proof -
      have "f \<le> 0" "0 \<le> drand48 sys (ar_draws s)"
        using that a f(2) unfolding keeps_all_def by blast+
      then show ?thesis
        by (simp add: m1_def)
    qed
    obtain k m' where IH: "decimate_disks sys p is m1 s1 = Some (m', s1\<lparr>ar_draws := k\<rparr>)" "m' AND m1 = m'" "keeps_all sys s1 \<longrightarrow> m' = m1"
      using Cons.IH [of s1 m1] Cons.prems same(1) by auto
    have "m' AND m = m'"
      using IH(2) sub and.assoc [of m' m1 m] by simp
    then show ?thesis
      using step IH(1,3) all same(2) by (intro exI [of _ k] exI [of _ m']) (simp add: s1_def)
  qed
qed

definition disk_selection :: "archived \<Rightarrow> AnitaEventHeader_t \<Rightarrow> int" where
  "disk_selection s h = eventDiskBitMask s AND priDiskEventMask s ! nat (event_priority h)"

lemma bit_16: "bit (16 :: int) n \<longleftrightarrow> n = 4"
  using bit_exp_iff [where ?'a = int, of 4 n] by simp

lemma and_16: "(a :: int) AND 16 \<noteq> 0 \<longleftrightarrow> bit a 4"
  using and_exp_eq_0_iff_not_bit [of a 4] by simp

lemma or_16: "bit (a :: int) 4 \<Longrightarrow> a OR 16 = a"
  by (intro bit_eqI) (auto simp: bit_or_iff bit_16)

lemma select_disks_some:
  assumes "arrays_ok s"
  shows "\<exists>k m. select_disks sys s = Some (s\<lparr>ar_draws := k, eventWriter := (eventWriter s)\<lparr>writeBitMask := u32 m\<rparr>\<rparr>)
    \<and> m AND disk_selection s (theHead s) = m \<and> (keeps_all sys s \<longrightarrow> m = disk_selection s (theHead s))"
proof -
  let ?p = "event_priority (theHead s)" and ?m = "disk_selection s (theHead s)"
  have mask: "at_index (priDiskEventMask s) ?p = Some (priDiskEventMask s ! nat ?p)"
    using assms by (simp add: arrays_ok_def at_event_priority)
  have "?m OR 16 = ?m" if "eventDiskBitMask s AND 16 \<noteq> 0" "priDiskEventMask s ! nat ?p AND 16 \<noteq> 0"
    using that unfolding and_16 disk_selection_def by (intro or_16) (simp add: bit_and_iff)
  then have sel: "(if eventDiskBitMask s AND 0x10 \<noteq> 0 \<and> priDiskEventMask s ! nat ?p AND 0x10 \<noteq> 0 then ?m OR 0x10 else ?m) = ?m"
    by simp
  have range: "set [0..<DISK_TYPES] \<subseteq> {..<DISK_TYPES}"
    by auto
  obtain k m where "getDecimatedDiskMask sys ?p ?m s = Some (m, s\<lparr>ar_draws := k\<rparr>)" "m AND ?m = m" "keeps_all sys s \<longrightarrow> m = ?m"
    using decimate_any [OF assms event_priority_range(1,2) [of "theHead s"] range, of sys ?m] by (auto simp: getDecimatedDiskMask_def)
  then show ?thesis
    using mask sel by (intro exI [of _ k] exI [of _ m]) (auto simp: select_disks_def Let_def disk_selection_def)
qed

section \<open>One event\<close>

abbreviation written :: "AnitaEventHeader_t \<Rightarrow> byte list \<Rightarrow> int \<Rightarrow> bool \<Rightarrow> written_event" where
  "written h bytes m just \<equiv> \<lparr>we_header = h, we_bytes = bytes, we_disks = u32 m, we_just = just\<rparr>"

abbreviation archive_of :: "archived \<Rightarrow> AnitaEventWriterStruct_t \<times> event_disk" where
  "archive_of s \<equiv> (eventWriter s, ar_disk s)"

lemma write_to_disk:
  assumes "writeBitMask (eventWriter s) = u32 m" "justHeader (eventWriter s) = (if just then 1 else 0)" "output_bytes n s = bytes"
  shows "\<exists>w d. writeOutputToDisk sys n s = s\<lparr>eventWriter := w, ar_disk := d\<rparr> \<and> justHeader w = justHeader (eventWriter s)
    \<and> write_event (ar_archive sys) (written (theHead s) bytes m just) (archive_of s) = (w, d)"
proof -
  obtain w d where c: "cleverEventWrite (ar_archive sys) bytes (theHead s) (archive_of s) = (w, d)"
    by fastforce
  have "(eventWriter s)\<lparr>writeBitMask := u32 m, justHeader := (if just then 1 else 0)\<rparr> = eventWriter s"
    using assms(1,2) by (cases "eventWriter s") auto
  then show ?thesis
    using c assms(3) write_keeps [of "ar_archive sys" bytes "theHead s" "eventWriter s" "ar_disk s"]
    by (simp add: writeOutputToDisk_def write_event_def)
qed

lemma write_event_mask: "write_event env (written h b m j) (w\<lparr>writeBitMask := k\<rparr>, d) = write_event env (written h b m j) (w, d)"
  by (simp add: write_event_def)

lemma enc_types_some:
  assumes "arrays_ok s"
  shows "at_index (priDiskEncodingType s) (event_priority h) = Some (priDiskEncodingType s ! nat (event_priority h))"
    "at_index (priTelemEncodingType s) (event_priority h) = Some (priTelemEncodingType s ! nat (event_priority h))"
    "at_index (priTelemClockEncodingType s) (event_priority h) = Some (priTelemClockEncodingType s ! nat (event_priority h))"
  using assms by (simp_all add: arrays_ok_def at_event_priority)

text \<open>An event of which only the header is written.\<close>

lemma process_just:
  assumes "arrays_ok s" "justHeader (eventWriter s) = 1"
  shows "\<exists>s' m. processEvent sys s = Some s' \<and> continues s s' \<and> ar_checks s' = ar_checks s \<and> ar_acts s' = ar_acts s \<and> justHeader (eventWriter s') = 1
    \<and> m AND disk_selection s (theHead s) = m \<and> write_event (ar_archive sys) (written (theHead s) [] m True) (archive_of s) = archive_of s'"
proof -
  obtain k m where sel: "select_disks sys s = Some (s\<lparr>ar_draws := k, eventWriter := (eventWriter s)\<lparr>writeBitMask := u32 m\<rparr>\<rparr>)"
    "m AND disk_selection s (theHead s) = m"
    using select_disks_some [OF assms(1)] by blast
  let ?s = "s\<lparr>ar_draws := k, eventWriter := (eventWriter s)\<lparr>writeBitMask := u32 m\<rparr>\<rparr>"
  obtain w d where w: "writeOutputToDisk sys 0 ?s = ?s\<lparr>eventWriter := w, ar_disk := d\<rparr>" "justHeader w = 1"
    "write_event (ar_archive sys) (written (theHead s) [] m True) (archive_of s) = (w, d)"
    using write_to_disk [of ?s m True 0 "[]" sys] assms(2) by (auto simp: output_bytes_def write_event_mask)
  let ?s2 = "s\<lparr>ar_draws := k, eventWriter := w, ar_disk := d\<rparr>"
  have tel: "writeOutputForTelem sys 0 ?s2 = ?s2\<lparr>ar_draws := Suc k\<rparr>"
    using w(2) by (simp add: writeOutputForTelem_def telemEvent_def ar_draw_def Let_def)
  have "processEvent sys s = Some (if writeTelem s \<noteq> 0 then ?s2\<lparr>ar_draws := Suc k\<rparr> else ?s2)"
    using sel(1) w(1) tel assms(2) enc_types_some [OF assms(1)] by (simp add: processEvent_def Let_def)
  then show ?thesis
    using w(2,3) sel(2) by (intro exI [of _ "if writeTelem s \<noteq> 0 then ?s2\<lparr>ar_draws := Suc k\<rparr> else ?s2"] exI [of _ m]) simp
qed

text \<open>What packing gives for the disk, and for the telemetry after it.\<close>

definition image_of :: "CompressErrorCode_t \<times> mem \<times> nat option \<Rightarrow> byte list option" where
  "image_of r = (case r of (e, m, n) \<Rightarrow> if e = COMPRESS_E_OK then map_option (\<lambda>n. map m [0..<n]) n else None)"

definition disk_image :: "archived_system \<Rightarrow> archived \<Rightarrow> AnitaEventHeader_t \<Rightarrow> PedSubbedEventBody_t \<Rightarrow> byte list option" where
  "disk_image sys s h b =
     (let ty = priDiskEncodingType s ! nat (event_priority h) in Option.bind (pack_for_disk sys (enc_control ty ty) (s\<lparr>pedSubBody := b\<rparr>)) image_of)"

definition telem_image :: "archived_system \<Rightarrow> archived \<Rightarrow> AnitaEventHeader_t \<Rightarrow> PedSubbedEventBody_t \<Rightarrow> nat \<Rightarrow> byte list option" where
  "telem_image sys s h b n =
     (let p = nat (event_priority h) in
      Option.bind (pack_for_telem sys (enc_control (priTelemEncodingType s ! p) (priTelemClockEncodingType s ! p)) COMPRESS_E_OK (Some n) (s\<lparr>pedSubBody := b\<rparr>)) image_of)"

definition telem_files :: "archived \<Rightarrow> AnitaEventHeader_t \<Rightarrow> byte list \<Rightarrow> ar_action list" where
  "telem_files s h bytes =
     (let dir = eventTelemDir (telem_priority (s\<lparr>theHead := h\<rparr>)); number = show_int (hd_eventNumber h); head = dir @ ''/hd_'' @ number @ ''.dat'' in
      [Ar_write (dir @ ''/ev_'' @ number @ ''.dat'') bytes, Ar_header head h, Ar_link head (dir @ ''/link'')])"

definition telemetered :: "archived_system \<Rightarrow> archived \<Rightarrow> AnitaEventHeader_t \<Rightarrow> byte list \<Rightarrow> ar_action list \<Rightarrow> bool" where
  "telemetered sys s h bytes ta \<longleftrightarrow> (ta = [] \<or> ta = telem_files s h bytes) \<and> (writeTelem s = 0 \<longrightarrow> ta = [])
     \<and> (writeTelem s \<noteq> 0 \<and> tf_trigType (hd_turfio h) AND 1 \<noteq> 0 \<and> (\<forall>as f. ar_canWrite sys as f) \<longrightarrow> ta = telem_files s h bytes)"

lemma image_some: "Option.bind r image_of = Some bytes \<Longrightarrow> \<exists>m n. r = Some (COMPRESS_E_OK, m, Some n) \<and> bytes = map m [0..<n]"
  by (auto simp: image_of_def split: bind_splits if_splits)

lemma telem_priority_continue: "continues s s' \<Longrightarrow> telem_priority (s'\<lparr>theHead := h\<rparr>) = telem_priority (s\<lparr>theHead := h\<rparr>)"
  by (simp add: telem_priority_def Let_def continues_fields cong: if_cong)

lemma write_for_telem:
  "\<exists>k ta. writeOutputForTelem sys n s = s\<lparr>ar_draws := k, ar_acts := ar_acts s @ ta\<rparr> \<and> (ta = [] \<or> ta = telem_files s (theHead s) (output_bytes n s))
    \<and> (justHeader (eventWriter s) = 0 \<and> tf_trigType (hd_turfio (theHead s)) AND 1 \<noteq> 0 \<and> (\<forall>as f. ar_canWrite sys as f) \<longrightarrow> ta = telem_files s (theHead s) (output_bytes n s))"
proof -
  obtain b where b: "telemEvent sys (tf_trigType (hd_turfio (theHead s))) s = (b, s\<lparr>ar_draws := Suc (ar_draws s)\<rparr>)" "tf_trigType (hd_turfio (theHead s)) AND 1 \<noteq> 0 \<longrightarrow> b"
    by (simp add: telemEvent_def ar_draw_def Let_def)
  let ?yes = "b \<and> justHeader (eventWriter s) = 0 \<and> ar_canWrite sys (ar_acts s) (eventTelemDir (telem_priority s) @ ''/ev_'' @ show_int (hd_eventNumber (theHead s)) @ ''.dat'')"
  let ?ta = "if ?yes then telem_files s (theHead s) (output_bytes n s) else []"
  have "writeOutputForTelem sys n s = s\<lparr>ar_draws := Suc (ar_draws s), ar_acts := ar_acts s @ ?ta\<rparr>"
    using b(1) by (simp add: writeOutputForTelem_def Let_def ar_do_def telem_files_def eventTelemLinkDir_def output_bytes_def)
  then show ?thesis
    using b(2) by (intro exI [of _ "Suc (ar_draws s)"] exI [of _ ?ta]) auto
qed

lemma process_full:
  assumes "arrays_ok s" "justHeader (eventWriter s) = 0" "disk_image sys s (theHead s) (pedSubBody s) = Some bytes"
    and "telem_image sys s (theHead s) (pedSubBody s) (length bytes) = Some tbytes"
  shows "\<exists>s' m ta. processEvent sys s = Some s' \<and> continues s s' \<and> ar_checks s' = ar_checks s \<and> ar_acts s' = ar_acts s @ ta \<and> telemetered sys s (theHead s) tbytes ta
    \<and> justHeader (eventWriter s') = 0 \<and> m AND disk_selection s (theHead s) = m \<and> (keeps_all sys s \<longrightarrow> m = disk_selection s (theHead s))
    \<and> write_event (ar_archive sys) (written (theHead s) bytes m False) (archive_of s) = archive_of s'"
proof -
  obtain k m where sel: "select_disks sys s = Some (s\<lparr>ar_draws := k, eventWriter := (eventWriter s)\<lparr>writeBitMask := u32 m\<rparr>\<rparr>)"
    "m AND disk_selection s (theHead s) = m" "keeps_all sys s \<longrightarrow> m = disk_selection s (theHead s)"
    using select_disks_some [OF assms(1)] by blast
  let ?p = "nat (event_priority (theHead s))"
  obtain dm n where d: "pack_for_disk sys (enc_control (priDiskEncodingType s ! ?p) (priDiskEncodingType s ! ?p)) s = Some (COMPRESS_E_OK, dm, Some n)" "bytes = map dm [0..<n]"
    using assms(3) image_some unfolding disk_image_def Let_def by fastforce
  obtain tm tn where t: "pack_for_telem sys (enc_control (priTelemEncodingType s ! ?p) (priTelemClockEncodingType s ! ?p)) COMPRESS_E_OK (Some n) s = Some (COMPRESS_E_OK, tm, Some tn)"
    "tbytes = map tm [0..<tn]"
    using assms(4) d(2) image_some unfolding telem_image_def Let_def by fastforce
  define s1 where "s1 = s\<lparr>ar_draws := k, eventWriter := (eventWriter s)\<lparr>writeBitMask := u32 m\<rparr>, outputBuffer := dm\<rparr>"
  obtain w e where w: "writeOutputToDisk sys n s1 = s1\<lparr>eventWriter := w, ar_disk := e\<rparr>" "justHeader w = 0"
    "write_event (ar_archive sys) (written (theHead s) bytes m False) (archive_of s) = (w, e)"
    using write_to_disk [of s1 m False n bytes sys] assms(2) d(2) by (auto simp: s1_def output_bytes_def write_event_mask)
  define s2 where "s2 = s1\<lparr>eventWriter := w, ar_disk := e, outputBuffer := tm\<rparr>"
  have c2: "continues s s2"
    by (simp add: s2_def s1_def)
  have pt: "pack_for_telem sys cntl r l (s1\<lparr>eventWriter := w, ar_disk := e\<rparr>) = pack_for_telem sys cntl r l s" for cntl r l
    by (simp add: pack_for_telem_def s1_def)
  have pd: "pack_for_disk sys cntl (s\<lparr>ar_draws := k, eventWriter := (eventWriter s)\<lparr>writeBitMask := u32 m\<rparr>\<rparr>) = pack_for_disk sys cntl s" for cntl
    by (simp add: pack_for_disk_def)
  have proc: "processEvent sys s = Some (if writeTelem s \<noteq> 0 then writeOutputForTelem sys tn s2 else s2)"
    using sel(1) w(1) d(1) t(1) assms(2) enc_types_some [OF assms(1)] pd pt
    by (simp add: processEvent_def Let_def s1_def [symmetric] s2_def) (simp add: s1_def)
  obtain k' ta where ta: "writeOutputForTelem sys tn s2 = s2\<lparr>ar_draws := k', ar_acts := ar_acts s2 @ ta\<rparr>" "ta = [] \<or> ta = telem_files s2 (theHead s2) (output_bytes tn s2)"
    "justHeader (eventWriter s2) = 0 \<and> tf_trigType (hd_turfio (theHead s2)) AND 1 \<noteq> 0 \<and> (\<forall>as f. ar_canWrite sys as f) \<longrightarrow> ta = telem_files s2 (theHead s2) (output_bytes tn s2)"
    using write_for_telem [of sys tn s2] by blast
  have same: "theHead s2 = theHead s" "ar_checks s2 = ar_checks s" "ar_acts s2 = ar_acts s" "output_bytes tn s2 = tbytes" "eventWriter s2 = w" "ar_disk s2 = e"
    by (simp_all add: s2_def s1_def output_bytes_def t(2))
  have files: "telem_files s2 h b = telem_files s h b" for h b
    using telem_priority_continue [OF c2] by (simp add: telem_files_def)
  show ?thesis
  proof (cases "writeTelem s = 0")
    case True
    then show ?thesis
      using proc c2 sel(2,3) w(2,3) same by (intro exI [of _ s2] exI [of _ m] exI [of _ "[]"]) (simp add: telemetered_def)
  next
    case False
    then show ?thesis
      using proc c2 sel(2,3) w(2,3) same ta files by (intro exI [of _ "s2\<lparr>ar_draws := k', ar_acts := ar_acts s2 @ ta\<rparr>"] exI [of _ m] exI [of _ ta]) (simp add: telemetered_def)
  qed
qed

section \<open>One link\<close>

definition link_acts :: "string \<Rightarrow> AnitaEventHeader_t \<Rightarrow> ar_action list \<Rightarrow> ar_action list" where
  "link_acts name h ta = [Ar_remove (PRIORITIZERD_EVENT_DIR @ ''/'' @ name), Ar_remove (PRIORITIZERD_EVENT_LINK_DIR @ ''/'' @ name)] @ ta @ [Ar_remove (body_name h)]"

abbreviation header_at :: "(string \<Rightarrow> AnitaEventHeader_t) \<Rightarrow> string \<Rightarrow> AnitaEventHeader_t" where
  "header_at H name \<equiv> H (PRIORITIZERD_EVENT_DIR @ ''/'' @ name)"

definition headers_read :: "archived_system \<Rightarrow> (string \<Rightarrow> AnitaEventHeader_t) \<Rightarrow> bool" where
  "headers_read sys H \<longleftrightarrow> (\<forall>as p old. ar_headerFile sys as p old = (0, H p))"

definition bodies_read :: "archived_system \<Rightarrow> (string \<Rightarrow> PedSubbedEventBody_t) \<Rightarrow> bool" where
  "bodies_read sys B \<longleftrightarrow> (\<forall>as p old. ar_bodyFile sys as p old = (0, B p))"

lemma image_continue: "continues s s' \<Longrightarrow> disk_image sys s' h b = disk_image sys s h b" "continues s s' \<Longrightarrow> telem_image sys s' h b n = telem_image sys s h b n"
  "continues s s' \<Longrightarrow> disk_selection s' h = disk_selection s h" "continues s s' \<Longrightarrow> telemetered sys s' h bs ta = telemetered sys s h bs ta"
  using telem_priority_continue [of s s' h]
  by (simp_all add: disk_image_def telem_image_def pack_for_disk_def pack_for_telem_def disk_selection_def telemetered_def telem_files_def continues_fields Let_def cong: if_cong)

lemma throw_some:
  assumes "arrays_ok s" "hd_priority h AND 15 \<le> 9"
  shows "shouldWeThrowAway sys (hd_priority h AND 15) s
    = Some (drand48 sys (ar_draws s) < priorityFractionGlobalDecimate s ! nat (hd_priority h AND 15), s\<lparr>ar_draws := Suc (ar_draws s)\<rparr>)"
    and "keeps_all sys s \<Longrightarrow> \<not> drand48 sys k < priorityFractionGlobalDecimate s ! nat (hd_priority h AND 15)"
proof -
  let ?a = "priorityFractionGlobalDecimate s" and ?p = "hd_priority h AND 15"
  have a: "length ?a = NUM_PRIORITIES" "?a \<in> set (fractions s)"
    using assms(1) by (simp_all add: arrays_ok_def fractions_def)
  have "at_index ?a ?p = Some (?a ! nat ?p)" "?a ! nat ?p \<in> set ?a"
    using at_priority [OF a(1) _ assms(2)] by simp_all
  then show "shouldWeThrowAway sys ?p s = Some (drand48 sys (ar_draws s) < ?a ! nat ?p, s\<lparr>ar_draws := Suc (ar_draws s)\<rparr>)"
    and "keeps_all sys s \<Longrightarrow> \<not> drand48 sys k < ?a ! nat ?p"
    using a(2) by (auto simp: shouldWeThrowAway_def ar_draw_def keeps_all_def not_less intro: order_trans)
qed

text \<open>The state when the header is read and it and its link are removed.\<close>

definition header_taken :: "string \<Rightarrow> AnitaEventHeader_t \<Rightarrow> archived \<Rightarrow> archived" where
  "header_taken name h s = ar_do [Ar_remove (PRIORITIZERD_EVENT_DIR @ ''/'' @ name), Ar_remove (PRIORITIZERD_EVENT_LINK_DIR @ ''/'' @ name)] (s\<lparr>theHead := h\<rparr>)"

lemma archive_link_read:
  assumes "headers_read sys H" "h = header_at H name" "shouldWeThrowAway sys (hd_priority h AND 15) (header_taken name h s) = Some (throw, s1)"
    and "ar_bodyFile sys (ar_acts s1) (body_name h) (pedSubBody s1) = (r, b)"
  shows "archive_link sys name s = map_option (ar_do [Ar_remove (body_name h)])
    (processEvent sys (if throw then set_just 1 s1 else if r = 0 then s1\<lparr>pedSubBody := b\<rparr> else set_just 1 (s1\<lparr>pedSubBody := b\<rparr>)))"
proof -
  have "ar_headerFile sys (ar_acts s) (PRIORITIZERD_EVENT_DIR @ ''/'' @ name) (theHead s) = (0, h)"
    using assms(1,2) by (simp add: headers_read_def)
  then show ?thesis
    using assms(3,4) unfolding archive_link_def header_taken_def
    by (simp add: Let_def map_conv_bind_option o_def split: if_splits)
qed

lemma link_full:
  assumes "arrays_ok s" "keeps_all sys s" "justHeader (eventWriter s) = 0" "headers_read sys H" "bodies_read sys B" "h = header_at H name" "b = B (body_name h)"
    and "hd_priority h AND 15 \<le> 9" "disk_image sys s h b = Some bytes" "telem_image sys s h b (length bytes) = Some tbytes"
  shows "\<exists>s' ta. archive_link sys name s = Some s' \<and> continues s s' \<and> ar_checks s' = ar_checks s \<and> ar_acts s' = ar_acts s @ link_acts name h ta \<and> telemetered sys s h tbytes ta
    \<and> justHeader (eventWriter s') = 0 \<and> write_event (ar_archive sys) (written h bytes (disk_selection s h) False) (archive_of s) = archive_of s'"
proof -
  define s1 where "s1 = header_taken name h s"
  define s2 where "s2 = s1\<lparr>ar_draws := Suc (ar_draws s), pedSubBody := b\<rparr>"
  have c: "continues s s1" "continues s s2"
    by (simp_all add: s1_def s2_def header_taken_def ar_do_def)
  have f: "ar_draws s1 = ar_draws s" "theHead s2 = h" "pedSubBody s2 = b" "archive_of s2 = archive_of s" "ar_checks s2 = ar_checks s"
    by (simp_all add: s1_def s2_def header_taken_def ar_do_def)
  have throw: "shouldWeThrowAway sys (hd_priority h AND 15) s1 = Some (False, s1\<lparr>ar_draws := Suc (ar_draws s)\<rparr>)"
    using throw_some(1) [of s1 h sys] throw_some(2) [of s1 h sys "ar_draws s"] arrays_continue [OF c(1)] assms(1,2,8) f(1) by simp
  obtain s3 m ta where s3: "processEvent sys s2 = Some s3" "continues s2 s3" "ar_checks s3 = ar_checks s" "ar_acts s3 = ar_acts s2 @ ta" "telemetered sys s h tbytes ta" "justHeader (eventWriter s3) = 0"
    "m = disk_selection s h" "write_event (ar_archive sys) (written h bytes m False) (archive_of s) = archive_of s3"
    using process_full [of s2 sys bytes tbytes] arrays_continue [OF c(2)] image_continue [OF c(2)] assms(1-3,9,10) f by auto
  have "archive_link sys name s = Some (ar_do [Ar_remove (body_name h)] s3)"
    using archive_link_read [OF assms(4,6) throw [unfolded s1_def]] s3(1) assms(5,7) by (simp add: bodies_read_def s1_def s2_def)
  moreover have "ar_acts s2 = ar_acts s @ [Ar_remove (PRIORITIZERD_EVENT_DIR @ ''/'' @ name), Ar_remove (PRIORITIZERD_EVENT_LINK_DIR @ ''/'' @ name)]"
    by (simp add: s2_def s1_def header_taken_def ar_do_def)
  ultimately show ?thesis
    using s3 continues_trans [OF c(2) s3(2)] by (intro exI [of _ "ar_do [Ar_remove (body_name h)] s3"] exI [of _ ta]) (simp add: ar_do_def link_acts_def)
qed

text \<open>Only the header is written when that was so for an event before in the round, when the event is thrown away, or its body cannot be read.\<close>

definition header_only :: "archived_system \<Rightarrow> archived \<Rightarrow> AnitaEventHeader_t \<Rightarrow> bool" where
  "header_only sys s h \<longleftrightarrow> justHeader (eventWriter s) = 1 \<or> drand48 sys (ar_draws s) < priorityFractionGlobalDecimate s ! nat (hd_priority h AND 15)
     \<or> (\<forall>as old. fst (ar_bodyFile sys as (body_name h) old) \<noteq> 0)"

lemma link_just:
  assumes "arrays_ok s" "headers_read sys H" "h = header_at H name" "hd_priority h AND 15 \<le> 9" "header_only sys s h"
  shows "\<exists>s' m. archive_link sys name s = Some s' \<and> continues s s' \<and> ar_checks s' = ar_checks s \<and> ar_acts s' = ar_acts s @ link_acts name h [] \<and> justHeader (eventWriter s') = 1
    \<and> m AND disk_selection s h = m \<and> write_event (ar_archive sys) (written h [] m True) (archive_of s) = archive_of s'"
proof -
  define s1 where "s1 = header_taken name h s"
  have c: "continues s s1" and d: "ar_draws s1 = ar_draws s"
    by (simp_all add: s1_def header_taken_def ar_do_def)
  let ?throw = "drand48 sys (ar_draws s) < priorityFractionGlobalDecimate s ! nat (hd_priority h AND 15)"
  have throw: "shouldWeThrowAway sys (hd_priority h AND 15) s1 = Some (?throw, s1\<lparr>ar_draws := Suc (ar_draws s)\<rparr>)"
    using throw_some(1) [of s1 h sys] arrays_continue [OF c] assms(1,4) d continues_fields [OF c] by simp
  obtain r b where body: "ar_bodyFile sys (ar_acts s1) (body_name h) (pedSubBody s1) = (r, b)"
    by fastforce
  define s2 where "s2 = (if ?throw then set_just 1 (s1\<lparr>ar_draws := Suc (ar_draws s)\<rparr>)
      else if r = 0 then s1\<lparr>ar_draws := Suc (ar_draws s), pedSubBody := b\<rparr> else set_just 1 (s1\<lparr>ar_draws := Suc (ar_draws s), pedSubBody := b\<rparr>))"
  have c2: "continues s s2" and f: "theHead s2 = h" "ar_disk s2 = ar_disk s" "ar_acts s2 = ar_acts s1" "ar_checks s2 = ar_checks s"
    by (simp_all add: s2_def s1_def set_just_def header_taken_def ar_do_def)
  have just: "eventWriter s2 = (eventWriter s)\<lparr>justHeader := 1\<rparr>"
  proof -
    have "r = 0 \<Longrightarrow> \<not> ?throw \<Longrightarrow> justHeader (eventWriter s) = 1"
      using assms(5) body unfolding header_only_def by (metis fst_conv)
    then show ?thesis
      by (cases "eventWriter s") (auto simp: s2_def s1_def set_just_def header_taken_def ar_do_def)
  qed
  obtain s3 m where s3: "processEvent sys s2 = Some s3" "continues s2 s3" "ar_checks s3 = ar_checks s" "ar_acts s3 = ar_acts s2" "justHeader (eventWriter s3) = 1"
    "m AND disk_selection s h = m" "write_event (ar_archive sys) (written h [] m True) (archive_of s2) = archive_of s3"
    using process_just [of s2 sys] arrays_continue [OF c2] image_continue [OF c2] assms(1) f just by auto
  have w: "write_event (ar_archive sys) (written h [] m True) (archive_of s2) = write_event (ar_archive sys) (written h [] m True) (archive_of s)"
    using f just by (simp add: write_event_def)
  have "archive_link sys name s = Some (ar_do [Ar_remove (body_name h)] s3)"
    using archive_link_read [OF assms(2,3) throw [unfolded s1_def], of r b] body s3(1) by (simp add: s1_def s2_def split: if_splits)
  then show ?thesis
    using s3 w f(3) continues_trans [OF c2 s3(2)] by (intro exI [of _ "ar_do [Ar_remove (body_name h)] s3"] exI [of _ m]) (simp add: ar_do_def link_acts_def s1_def header_taken_def)
qed

end
