(* ===== verification/Archived_Complete.thy ===== *)
theory Archived_Complete
  imports Archived_Rounds
begin

text \<open>
  The rounds of the archiver over the links of the watched directory, from the first to the files on the
  disks; and what becomes of the events behind one of which only the header is kept.
\<close>

section \<open>The links of a round\<close>

fun archive_links :: "archived_system \<Rightarrow> string list \<Rightarrow> archived \<Rightarrow> archived option" where
  "archive_links sys [] s = Some s"
| "archive_links sys (n # ns) s = Option.bind (archive_link sys n s) (archive_links sys ns)"

lemma fold_links:
  assumes "length is = length ns"
  shows "fold (\<lambda>(i, n) s. Option.bind s (archive_link sys (case Some n of None \<Rightarrow> z | Some n \<Rightarrow> n))) (zip is ns) s = Option.bind s (archive_links sys ns)"
  using assms
proof (induction ns arbitrary: "is" s)
  case (Cons n ns)
  then obtain j js where "is = j # js" "length js = length ns"
    by (cases "is") auto
  then show ?case
    using Cons.IH [of js] by (cases s) simp_all
next
  case Nil
  then show ?case
    by (cases s) simp_all
qed

definition new_links :: "archived_system \<Rightarrow> nat \<Rightarrow> int \<Rightarrow> string list" where
  "new_links sys k wd = map snd (filter (\<lambda>e. fst e = wd) (read_events (ar_arrivals sys k)))"

definition short_links :: "archived_system \<Rightarrow> bool" where
  "short_links sys \<longleftrightarrow> (\<forall>k. \<forall>(wd, name)\<in>set (read_events (ar_arrivals sys k)). length name < 99)"

lemma checkEvents_links:
  assumes "holds w Q" "Q (ar_wd s) = Some []" "ar_wd s \<noteq> 0" "short_links sys"
  shows "\<exists>w' Q'. holds w' Q' \<and> Q' (ar_wd s) = Some [] \<and>
    checkEvents sys (s, w) = map_option (\<lambda>s'. Some (s', w')) (archive_links sys (new_links sys (ar_checks s) (ar_wd s)) (set_just 0 (s\<lparr>ar_checks := Suc (ar_checks s)\<rparr>)))"
proof -
  let ?es = "read_events (ar_arrivals sys (ar_checks s))" and ?wd = "ar_wd s" and ?ns = "new_links sys (ar_checks s) (ar_wd s)"
  let ?s = "set_just 0 (s\<lparr>ar_checks := Suc (ar_checks s)\<rparr>)"
  let ?body = "\<lambda>_ name s. Option.bind s (archive_link sys (case name of None \<Rightarrow> ''(null)'' | Some n \<Rightarrow> n))"
  have short: "\<forall>(wd, name)\<in>set ?es. length name < 99"
    using assms(4) by (auto simp: short_links_def)
  obtain w1 where w1: "checkLinkDirs (ar_dirs sys (ar_acts s)) 1 0 (ar_arrivals sys (ar_checks s)) w = Some (int (length ?es), w1)" "holds w1 (arrive ?es Q)"
    using checkLinkDirs_holds [OF assms(1) _ short, of 1 0 "ar_dirs sys (ar_acts s)"] by auto
  have Q: "arrive ?es Q ?wd = Some ?ns"
    using assms(2) by (simp add: arrive_def new_links_def)
  have num: "getNumLinks ?wd w1 = int (length ?ns)"
    by (rule lw.num [OF w1(2) Q])
  have none: "?ns = []" if "?es = []"
    using that by (simp add: new_links_def)
  have n: "(if int (length ?es) \<noteq> 0 \<or> (0 :: int) \<noteq> 0 then getNumLinks ?wd w1 else 0) = int (length ?ns)"
    using num none by auto
  have indices: "length [0..<length ?ns] = length ?ns"
    by simp
  obtain w' where w': "each_link getFirstLink ?body ?wd [0..<length ?ns] (Some ?s, w1) = Some (fold (\<lambda>(i, n). ?body i (Some n)) (zip [0..<length ?ns] ?ns) (Some ?s), w')"
    "holds w' ((arrive ?es Q)(?wd \<mapsto> []))"
    using lw.each_link_takes [where body = ?body and x = "Some ?s" and rest = "[]" and ns = ?ns, OF w1(2) _ indices] Q by auto
  have "fold (\<lambda>(i, n). ?body i (Some n)) (zip [0..<length ?ns] ?ns) (Some ?s) = archive_links sys ?ns ?s"
    using fold_links [of "[0..<length ?ns]" ?ns sys "''(null)''" "Some ?s"] by (simp add: case_prod_unfold)
  then have "each_link getFirstLink ?body ?wd [0..<nat (int (length ?ns))] (Some ?s, w1) = Some (archive_links sys ?ns ?s, w')"
    using w'(1) by simp
  moreover have "ar_wd ?s = ?wd"
    by (simp add: set_just_def)
  ultimately have "checkEvents sys (s, w) = map_option (\<lambda>s'. Some (s', w')) (archive_links sys ?ns ?s)"
    using assms(3) w1(1) n by (simp add: checkEvents_def watch_links_def Let_def)
  then show ?thesis
    using w'(2) by (intro exI [of _ w'] exI [of _ "(arrive ?es Q)(?wd \<mapsto> [])"]) simp
qed

section \<open>Rounds in which every event is kept\<close>

definition kept_event :: "archived_system \<Rightarrow> archived \<Rightarrow> (string \<Rightarrow> PedSubbedEventBody_t) \<Rightarrow> AnitaEventHeader_t \<Rightarrow> written_event" where
  "kept_event sys s B h = written h (the (disk_image sys s h (B (body_name h)))) (disk_selection s h) False"

definition packs :: "archived_system \<Rightarrow> archived \<Rightarrow> (string \<Rightarrow> PedSubbedEventBody_t) \<Rightarrow> AnitaEventHeader_t \<Rightarrow> bool" where
  "packs sys s B h \<longleftrightarrow> hd_priority h AND 15 \<le> 9
     \<and> (\<exists>bytes tbytes. disk_image sys s h (B (body_name h)) = Some bytes \<and> bytes \<noteq> [] \<and> telem_image sys s h (B (body_name h)) (length bytes) = Some tbytes)"

definition telem_bytes :: "archived_system \<Rightarrow> archived \<Rightarrow> (string \<Rightarrow> PedSubbedEventBody_t) \<Rightarrow> AnitaEventHeader_t \<Rightarrow> byte list" where
  "telem_bytes sys s B h = the (telem_image sys s h (B (body_name h)) (length (the (disk_image sys s h (B (body_name h))))))"

text \<open>What the program does for the links \<open>ns\<close>: \<open>tas\<close> is what went to the telemetry for each.\<close>

definition does_links :: "archived_system \<Rightarrow> (string \<Rightarrow> AnitaEventHeader_t) \<Rightarrow> (string \<Rightarrow> PedSubbedEventBody_t) \<Rightarrow> string list \<Rightarrow> archived \<Rightarrow> archived \<Rightarrow> bool" where
  "does_links sys H B ns s s' \<longleftrightarrow> continues s s' \<and> justHeader (eventWriter s') = 0
     \<and> write_events (ar_archive sys) (map (\<lambda>n. kept_event sys s B (header_at H n)) ns) (archive_of s) = archive_of s'
     \<and> (\<exists>tas. list_all2 (\<lambda>n ta. telemetered sys s (header_at H n) (telem_bytes sys s B (header_at H n)) ta) ns tas
          \<and> ar_acts s' = ar_acts s @ concat (map2 (\<lambda>n ta. link_acts n (header_at H n) ta) ns tas))"

lemma does_links_continue: "continues s s1 \<Longrightarrow> kept_event sys s1 = kept_event sys s" "continues s s1 \<Longrightarrow> packs sys s1 = packs sys s" "continues s s1 \<Longrightarrow> telem_bytes sys s1 = telem_bytes sys s"
  by (simp_all add: fun_eq_iff kept_event_def packs_def telem_bytes_def image_continue)

lemma does_links_append:
  assumes "does_links sys H B ns s s1" "does_links sys H B ms s1 s2"
  shows "does_links sys H B (ns @ ms) s s2"
proof -
  have c: "continues s s1" "continues s s2"
    using assms continues_trans by (auto simp: does_links_def)
  obtain tas where 1: "list_all2 (\<lambda>n ta. telemetered sys s (header_at H n) (telem_bytes sys s B (header_at H n)) ta) ns tas"
    "ar_acts s1 = ar_acts s @ concat (map2 (\<lambda>n ta. link_acts n (header_at H n) ta) ns tas)"
    using assms(1) unfolding does_links_def by blast
  obtain uas where 2: "list_all2 (\<lambda>n ta. telemetered sys s (header_at H n) (telem_bytes sys s B (header_at H n)) ta) ms uas"
    "ar_acts s2 = ar_acts s1 @ concat (map2 (\<lambda>n ta. link_acts n (header_at H n) ta) ms uas)"
    using assms(2) unfolding does_links_def image_continue(4) [OF c(1)] does_links_continue(3) [OF c(1)] by blast
  have w: "write_events (ar_archive sys) (map (\<lambda>n. kept_event sys s B (header_at H n)) (ns @ ms)) (archive_of s) = archive_of s2"
    using assms does_links_continue(1) [OF c(1)] by (simp add: does_links_def write_events_def)
  have "list_all2 (\<lambda>n ta. telemetered sys s (header_at H n) (telem_bytes sys s B (header_at H n)) ta) (ns @ ms) (tas @ uas)"
    using 1(1) 2(1) by (rule list_all2_appendI)
  moreover have "ar_acts s2 = ar_acts s @ concat (map2 (\<lambda>n ta. link_acts n (header_at H n) ta) (ns @ ms) (tas @ uas))"
    using 1(2) 2(2) list_all2_lengthD [OF 1(1)] by simp
  ultimately show ?thesis
    unfolding does_links_def using c(2) w assms(2) by (auto simp: does_links_def)
qed

lemma does_no_links: "justHeader (eventWriter s) = 0 \<Longrightarrow> does_links sys H B [] s s"
  by (simp add: does_links_def write_events_def)

lemma links_full:
  assumes "arrays_ok s" "keeps_all sys s" "justHeader (eventWriter s) = 0" "headers_read sys H" "bodies_read sys B" "\<forall>n\<in>set ns. packs sys s B (header_at H n)"
  shows "\<exists>s'. archive_links sys ns s = Some s' \<and> ar_checks s' = ar_checks s \<and> does_links sys H B ns s s'"
  using assms(1-3,6)
proof (induction ns arbitrary: s)
  case Nil
  then show ?case
    using does_no_links by simp
next
  case (Cons n ns)
  let ?h = "header_at H n"
  obtain bytes tbytes where b: "hd_priority ?h AND 15 \<le> 9" "disk_image sys s ?h (B (body_name ?h)) = Some bytes" "telem_image sys s ?h (B (body_name ?h)) (length bytes) = Some tbytes"
    using Cons.prems(4) by (auto simp: packs_def)
  obtain s1 ta where 1: "archive_link sys n s = Some s1" "continues s s1" "ar_checks s1 = ar_checks s" "ar_acts s1 = ar_acts s @ link_acts n ?h ta" "telemetered sys s ?h tbytes ta"
    "justHeader (eventWriter s1) = 0" "write_event (ar_archive sys) (written ?h bytes (disk_selection s ?h) False) (archive_of s) = archive_of s1"
    using link_full [OF Cons.prems(1-3) assms(4,5) refl refl b] by blast
  have "does_links sys H B [n] s s1"
    unfolding does_links_def using 1 b by (intro conjI exI [of _ "[ta]"]) (simp_all add: kept_event_def telem_bytes_def write_events_def)
  moreover obtain s' where "archive_links sys ns s1 = Some s'" "ar_checks s' = ar_checks s1" "does_links sys H B ns s1 s'"
    using Cons.IH [of s1] Cons.prems arrays_continue [OF 1(2)] does_links_continue(2) [OF 1(2)] 1(6) by auto
  ultimately show ?case
    using 1(1,3) does_links_append [of sys H B "[n]" s s1 ns s'] by auto
qed

text \<open>The links that arrive in \<open>n\<close> rounds from the \<open>k\<close>-th look at the directory on.\<close>

definition all_links :: "archived_system \<Rightarrow> nat \<Rightarrow> nat \<Rightarrow> int \<Rightarrow> string list" where
  "all_links sys k n wd = concat (map (\<lambda>j. new_links sys j wd) [k..<k + n])"

lemma all_links_Suc: "all_links sys k (Suc n) wd = new_links sys k wd @ all_links sys (Suc k) n wd"
  by (simp add: all_links_def upt_conv_Cons del: upt_Suc)

lemma rounds_full:
  assumes "arrays_ok s" "keeps_all sys s" "justHeader (eventWriter s) = 0" "headers_read sys H" "bodies_read sys B"
    and "\<forall>n\<in>set (all_links sys (ar_checks s) rounds (ar_wd s)). packs sys s B (header_at H n)"
    and "holds w Q" "Q (ar_wd s) = Some []" "ar_wd s \<noteq> 0" "short_links sys"
  shows "\<exists>s' w'. check_rounds sys rounds (s, w) = Some (Some (s', w')) \<and> does_links sys H B (all_links sys (ar_checks s) rounds (ar_wd s)) s s'"
  using assms(1-3,6-9)
proof (induction rounds arbitrary: s w Q)
  case 0
  then show ?case
    using does_no_links by (simp add: all_links_def)
next
  case (Suc n)
  let ?ns = "new_links sys (ar_checks s) (ar_wd s)"
  define s0 where "s0 = set_just 0 (s\<lparr>ar_checks := Suc (ar_checks s)\<rparr>)"
  have "eventWriter s0 = eventWriter s"
    using Suc.prems(3) by (cases "eventWriter s") (simp add: s0_def set_just_def)
  then have 0: "continues s s0" "archive_of s0 = archive_of s" "ar_acts s0 = ar_acts s" "ar_checks s0 = Suc (ar_checks s)" "ar_wd s0 = ar_wd s" "justHeader (eventWriter s0) = 0"
    using Suc.prems(3) by (simp_all add: s0_def set_just_def)
  obtain w1 Q1 where w1: "holds w1 Q1" "Q1 (ar_wd s) = Some []" "checkEvents sys (s, w) = map_option (\<lambda>s'. Some (s', w1)) (archive_links sys ?ns s0)"
    using checkEvents_links [where Q = Q, OF Suc.prems(5-7) assms(10)] unfolding s0_def by blast
  obtain s1 where s1: "archive_links sys ?ns s0 = Some s1" "ar_checks s1 = ar_checks s0" "does_links sys H B ?ns s0 s1"
    using links_full [of s0 sys H B ?ns] arrays_continue [OF 0(1)] does_links_continue(2) [OF 0(1)] Suc.prems(1,2,4) 0(6) assms(4,5)
    by (auto simp: all_links_Suc)
  have d1: "does_links sys H B ?ns s s1"
    using s1(3) 0(2,3) continues_trans [OF 0(1)] unfolding does_links_def image_continue(4) [OF 0(1)] does_links_continue(1,3) [OF 0(1)] by simp
  then have c1: "continues s s1" "justHeader (eventWriter s1) = 0"
    by (simp_all add: does_links_def)
  have k: "ar_checks s1 = Suc (ar_checks s)" "ar_wd s1 = ar_wd s"
    using s1(2) 0(4) continues_fields(1) [OF c1(1)] by simp_all
  obtain s' w' where s': "check_rounds sys n (s1, w1) = Some (Some (s', w'))" "does_links sys H B (all_links sys (ar_checks s1) n (ar_wd s1)) s1 s'"
    using Suc.IH [where s = s1 and w = w1 and Q = Q1] arrays_continue [OF c1(1)] does_links_continue(2) [OF c1(1)] Suc.prems(1,2,4,7) c1(2) w1(1,2) k
    by (auto simp: all_links_Suc)
  then show ?case
    using w1(3) s1(1) does_links_append [OF d1 s'(2)] k by (simp add: all_links_Suc)
qed

section \<open>The start\<close>

definition empty_disk :: event_disk where "empty_disk = \<lparr>ed_files = (\<lambda>_. None), ed_dirs = [], ed_jobs = []\<rparr>"

lemma replicate_update: "(replicate n x)[i := x] = replicate n x"
  by (induction n arbitrary: i) (simp_all split: nat.split)

lemma close_start: "closeEventFilesAndTidy writer_start d = (writer_start, d)"
proof -
  have "fold (\<lambda>i w. if eventBufferDisk ! i then w\<lparr>currentHeaderFilePtr := (currentHeaderFilePtr w)[i := None], currentEventFilePtr := (currentEventFilePtr w)[i := None]\<rparr> else w) is writer_start
      = writer_start" for "is"
  proof (induction "is")
    case (Cons i "is")
    have "(replicate DISK_TYPES None)[i := None] = replicate DISK_TYPES (None :: string option)"
      by (rule replicate_update)
    then show ?case
      using Cons by (simp add: writer_start_def)
  qed simp
  moreover have "bufferHeaderFilePtr writer_start = None" "writer_start\<lparr>bufferEventFilePtr := None, bufferHeaderFilePtr := None\<rparr> = writer_start"
    by (simp_all add: writer_start_def)
  ultimately show ?thesis
    by (simp add: closeEventFilesAndTidy_def Let_def)
qed

definition prepared_writer :: "archived \<Rightarrow> AnitaEventWriterStruct_t" where
  "prepared_writer s = writer_start\<lparr>relBaseName := EVENT_ARCHIVE_DIR, filePrefix := getFilePrefix (onboardStorageType s), helium1CloneMask := u32 (ar_helium1CloneMask s),
     helium2CloneMask := u32 (ar_helium2CloneMask s), usbCloneMask := u32 (ar_usbCloneMask s), writeBitMask := u32 (eventDiskBitMask s)\<rparr>"

lemma prepared_start: "eventWriter s = writer_start \<Longrightarrow> prepWriterStructs_ar s = s\<lparr>eventWriter := prepared_writer s\<rparr>"
  by (simp add: prepWriterStructs_ar_def close_start prepared_writer_def) (simp add: writer_start_def map_replicate_const)

lemma prefix_ok: "getFilePrefix ty \<noteq> ''hd''" "CHR ''/'' \<notin> set (getFilePrefix ty)"
  by (simp_all add: getFilePrefix_def)

lemma prepared_between:
  "between env EVENT_ARCHIVE_DIR (getFilePrefix (onboardStorageType s)) [] (prepared_writer s) empty_disk" "ed_jobs empty_disk = []" "no_copies EVENT_ARCHIVE_DIR empty_disk"
  "justHeader (prepared_writer s) = 0"
  by (simp_all add: prepared_writer_def empty_disk_def between_def buffer_files_def group_simps file_of_simps writer_idle_def writer_start_def pmc_ok_def DISK_TYPES_def
      disks_at_def disk_at_def no_copies_def less_Suc_eq numeral_eq_Suc)

lemma close_archive_disk: "ar_disk (close_archive s) = snd (closeEventFilesAndTidy (eventWriter s) (ar_disk s))"
  by (simp add: close_archive_def case_prod_beta)

text \<open>The headers that arrive in the first \<open>rounds\<close> rounds.\<close>

definition arriving :: "archived_system \<Rightarrow> (string \<Rightarrow> AnitaEventHeader_t) \<Rightarrow> nat \<Rightarrow> archived \<Rightarrow> AnitaEventHeader_t list" where
  "arriving sys H rounds s = map (header_at H) (all_links sys (ar_checks s) rounds (ar_wd s))"

definition archiving :: "archived_system \<Rightarrow> (string \<Rightarrow> AnitaEventHeader_t) \<Rightarrow> (string \<Rightarrow> PedSubbedEventBody_t) \<Rightarrow> archived \<Rightarrow> link_watch \<Rightarrow> bool" where
  "archiving sys H B s w \<longleftrightarrow> eventWriter s = writer_start \<and> ar_disk s = empty_disk \<and> arrays_ok s \<and> keeps_all sys s \<and> headers_read sys H \<and> bodies_read sys B
     \<and> (\<exists>Q. holds w Q \<and> Q (ar_wd s) = Some []) \<and> ar_wd s \<noteq> 0 \<and> short_links sys"

lemma archiving_rounds:
  assumes "archiving sys H B s w" "\<forall>h\<in>set (arriving sys H rounds s). packs sys s B h"
  shows "\<exists>s' w'. check_rounds sys rounds (prepWriterStructs_ar s, w) = Some (Some (s', w'))
    \<and> does_links sys H B (all_links sys (ar_checks s) rounds (ar_wd s)) (prepWriterStructs_ar s) s' \<and> continues s s'"
proof -
  let ?s = "prepWriterStructs_ar s"
  have eq: "?s = s\<lparr>eventWriter := prepared_writer s\<rparr>"
    using assms(1) prepared_start by (simp add: archiving_def)
  then have c: "continues s ?s" "ar_checks ?s = ar_checks s" "ar_wd ?s = ar_wd s" "justHeader (eventWriter ?s) = 0"
    using prepared_between(4) by simp_all
  have p: "\<forall>n\<in>set (all_links sys (ar_checks ?s) rounds (ar_wd ?s)). packs sys ?s B (header_at H n)"
    using assms(2) does_links_continue(2) [OF c(1)] c(2,3) by (simp add: arriving_def)
  obtain Q where Q: "holds w Q" "Q (ar_wd ?s) = Some []"
    using assms(1) c(3) by (auto simp: archiving_def)
  obtain s' w' where s': "check_rounds sys rounds (?s, w) = Some (Some (s', w'))" "does_links sys H B (all_links sys (ar_checks ?s) rounds (ar_wd ?s)) ?s s'"
    using rounds_full [where Q = Q and s = ?s and B = B and H = H and sys = sys, OF _ _ c(4) _ _ p Q] assms(1) arrays_continue [OF c(1)] c(3) by (auto simp: archiving_def)
  then show ?thesis
    using c continues_trans [OF c(1)] by (auto simp: does_links_def)
qed

section \<open>Packed bodies\<close>

lemma enc_types_nth: "i < NUM_DIGITZED_CHANNELS \<Longrightarrow> encTypes (enc_control ty ty) ! (i div 9) ! (i mod 9) = encType_of_code ty"
  by (simp add: enc_control_def less_mult_imp_div_less)

lemma image_unpacks:
  assumes "onboardStorageType s = ARCHIVE_ENCODED \<or> onboardStorageType s = ARCHIVE_PEDSUBBED_ENCODED"
    and "ty = priDiskEncodingType s ! nat (event_priority h)" "\<forall>i < NUM_DIGITZED_CHANNELS. ps_chan_valid (encType_of_code ty) (pb_channel b ! i)"
    and "is_u32 (pb_eventNumber b)" "is_u32 (pb_whichPeds b)"
    and "length (pb_channel dst) = NUM_DIGITZED_CHANNELS" "\<forall>ch\<in>set (pb_channel dst). length (ps_data ch) = MAX_NUMBER_SAMPLES"
  shows "\<exists>bytes. disk_image sys s h b = Some bytes \<and> bytes \<noteq> [] \<and> length bytes \<le> 57876 \<and>
    unpackToPedSubbedEvent img dst (\<lambda>a. if a < length bytes then bytes ! a else 0) 0 (int (length bytes)) =
      (let bd' = dst\<lparr>pb_whichPeds := pb_whichPeds b, pb_eventNumber := pb_eventNumber b,
                     pb_channel := event_results (enc_control ty ty) (pb_channel b) (pb_channel dst)\<rparr>
       in Some (COMPRESS_E_OK, bd'\<lparr>pb_gHdr := fill_gHdr (img bd') (packet_code PACKET_PED_SUBBED_EVENT) (int (length bytes) - 24) (pb_gHdr bd')\<rparr>))"
proof -
  let ?cntl = "enc_control ty ty"
  have valid: "\<forall>i < NUM_DIGITZED_CHANNELS. ps_chan_valid (encTypes ?cntl ! (i div 9) ! (i mod 9)) (pb_channel b ! i)"
    using assms(3) enc_types_nth by simp
  have ready: "\<forall>ch\<in>set (pb_channel dst). ps_chan_ready ch"
    using assms(7) by (simp add: ps_chan_ready_def)
  have zero: "zeroed (\<lambda>_. 0) 0 (0 + 57876)"
    by (simp add: zeroed_def)
  obtain m n where p: "packPedSubbedEvent b ?cntl 0 (\<lambda>_. 0) = Some (COMPRESS_E_OK, m, Some n)" "24 \<le> n" "n \<le> 57876" "same_outside (\<lambda>_. 0) m 0 (0 + n)"
    "unpackToPedSubbedEvent img dst m 0 (int n) = (let bd' = dst\<lparr>pb_whichPeds := pb_whichPeds b, pb_eventNumber := pb_eventNumber b,
                     pb_channel := event_results ?cntl (pb_channel b) (pb_channel dst)\<rparr>
       in Some (COMPRESS_E_OK, bd'\<lparr>pb_gHdr := fill_gHdr (img bd') (packet_code PACKET_PED_SUBBED_EVENT) (int n - 24) (pb_gHdr bd')\<rparr>))"
    using event_pack_unpack [OF valid assms(4,5) zero assms(6) ready, of img] by blast
  define bytes where "bytes = map m [0..<n]"
  have "(\<lambda>a. if a < length bytes then bytes ! a else 0) = m"
    using p(4) by (auto simp: bytes_def same_outside_def fun_eq_iff)
  moreover have "disk_image sys s h b = Some bytes"
    using assms(1,2) p(1) by (simp add: disk_image_def pack_for_disk_def image_of_def bytes_def Let_def)
  ultimately show ?thesis
    using p(2,3,5) by (intro exI [of _ bytes]) (simp add: bytes_def)
qed

section \<open>Behind an event of which only the header is kept\<close>

lemma links_just:
  assumes "arrays_ok s" "headers_read sys H" "\<forall>n\<in>set ns. hd_priority (header_at H n) AND 15 \<le> 9" "justHeader (eventWriter s) = 1"
  shows "\<exists>s' es. archive_links sys ns s = Some s' \<and> write_events (ar_archive sys) es (archive_of s) = archive_of s' \<and> map we_header es = map (header_at H) ns
    \<and> (\<forall>e\<in>set es. we_just e) \<and> ar_acts s' = ar_acts s @ concat (map (\<lambda>n. link_acts n (header_at H n) []) ns)"
  using assms(1,3,4)
proof (induction ns arbitrary: s)
  case Nil
  show ?case
    by (intro exI [of _ s] exI [of _ "[]"]) (simp add: write_events_def)
next
  case (Cons n ns)
  let ?h = "header_at H n"
  have "header_only sys s ?h" "hd_priority ?h AND 15 \<le> 9"
    using Cons.prems(2,3) by (simp_all add: header_only_def)
  then obtain s1 m where 1: "archive_link sys n s = Some s1" "continues s s1" "ar_acts s1 = ar_acts s @ link_acts n ?h []" "justHeader (eventWriter s1) = 1"
    "write_event (ar_archive sys) (written ?h [] m True) (archive_of s) = archive_of s1"
    using link_just [OF Cons.prems(1) assms(2) refl] by blast
  obtain s' es where s': "archive_links sys ns s1 = Some s'" "write_events (ar_archive sys) es (archive_of s1) = archive_of s'" "map we_header es = map (header_at H) ns"
    "\<forall>e\<in>set es. we_just e" "ar_acts s' = ar_acts s1 @ concat (map (\<lambda>n. link_acts n (header_at H n) []) ns)"
    using Cons.IH [of s1] Cons.prems arrays_continue [OF 1(2)] 1(4) by auto
  then show ?case
    using 1 by (intro exI [of _ s'] exI [of _ "written ?h [] m True # es"]) (simp add: write_events_def)
qed

lemma write_event_just: "write_event env e (w\<lparr>justHeader := j\<rparr>, d) = write_event env e (w, d)"
  by (simp add: write_event_def)

section \<open>An example\<close>

text \<open>Two events in the first round and one in the second; a body of one byte stands for that of an event.\<close>

definition example_header_file :: "string \<Rightarrow> AnitaEventHeader_t" where
  "example_header_file p =
     example_header_of 0 (if p = PRIORITIZERD_EVENT_DIR @ ''/hd_7.dat'' then 7 else if p = PRIORITIZERD_EVENT_DIR @ ''/hd_42.dat'' then 42 else 105) 1 1 0 0"

definition example_archive_system :: archived_system where
  "example_archive_system =
     \<lparr>ar_env = \<lparr>configDir = None, homeDir = ''/root'', canRead = (\<lambda>_. False), canWrite = (\<lambda>_. False), strayByte = CHR 0x00\<rparr>, ar_dirs = (\<lambda>_. example_links []),
      ar_initFd = 3, ar_addWatch = (\<lambda>_. 1),
      ar_arrivals = (\<lambda>k. if k = 0 then [Some [(1, ''hd_7.dat''), (1, ''hd_42.dat'')]] else if k = 1 then [Some [(1, ''hd_105.dat'')]] else []),
      ar_headerFile = (\<lambda>_ p _. (0, example_header_file p)), ar_bodyFile = (\<lambda>_ _ _. (0, example_event)), bodyBytes = (\<lambda>_. [9]), drand48 = (\<lambda>_. 0),
      ar_archive = example_archive_env, ar_canWrite = (\<lambda>_ _. True)\<rparr>"

definition example_archived :: "int \<Rightarrow> real \<Rightarrow> archived" where
  "example_archived storage fraction =
     (let none = replicate NUM_PRIORITIES 0 in
      \<lparr>ar_conf = \<lparr>files = (\<lambda>_. None), store = kvp_start, inBlock = False\<rparr>, ar_wd = 1, ar_checks = 0, ar_draws = 0, ar_acts = [], ar_disk = empty_disk, eventWriter = writer_start,
       theHead = example_header_of 0 0 0 0 0 0, pedSubBody = example_event, outputBuffer = (\<lambda>_. 0), writeTelem = 1, onboardStorageType = storage, telemType = ARCHIVE_PEDSUBBED,
       priorityPPS1 = - 1, priorityPPS2 = - 1, prioritySoft = - 1, pps1FractionTelem = 0, pps2FractionTelem = 0, softFractionTelem = 0,
       priDiskEncodingType = replicate NUM_PRIORITIES (encType_code ENCODE_LOSSLESS_FIBONACCI), priTelemEncodingType = none, priTelemClockEncodingType = none,
       priorityFractionGlobalDecimate = replicate NUM_PRIORITIES fraction, priorityFractionDeleteHelium1 = none, priorityFractionDeleteHelium2 = none,
       priorityFractionDeleteUsb = none, priorityFractionDeleteNeobrick = none, priorityFractionDeletePmc = none, priDiskEventMask = replicate NUM_PRIORITIES 1,
       eventDiskBitMask = 1, ar_helium1CloneMask = 0, ar_helium2CloneMask = 0, ar_usbCloneMask = 0\<rparr>)"

lemma example_archived_arrays: "arrays_ok (example_archived storage fraction)" "fraction \<le> 0 \<Longrightarrow> keeps_all example_archive_system (example_archived storage fraction)"
  by (simp_all add: arrays_ok_def keeps_all_def fractions_def example_archived_def example_archive_system_def Let_def)

lemma example_archived_reads: "headers_read example_archive_system example_header_file" "bodies_read example_archive_system (\<lambda>_. example_event)" "short_links example_archive_system"
  by (auto simp: headers_read_def bodies_read_def short_links_def read_events_def example_archive_system_def)

lemma example_new_links: "new_links example_archive_system 0 1 = [''hd_7.dat'', ''hd_42.dat'']" "new_links example_archive_system 1 1 = [''hd_105.dat'']"
  by (simp_all add: new_links_def read_events_def example_archive_system_def)

lemma example_archived_fields: "ar_wd (example_archived storage fraction) = 1" "ar_checks (example_archived storage fraction) = 0" "ar_draws (example_archived storage fraction) = 0"
  "ar_acts (example_archived storage fraction) = []" "onboardStorageType (example_archived storage fraction) = storage" "writeTelem (example_archived storage fraction) = 1"
  by (simp_all add: example_archived_def Let_def)

lemma example_arriving: "arriving example_archive_system example_header_file 2 (example_archived storage fraction)
  = [example_header_of 0 7 1 1 0 0, example_header_of 0 42 1 1 0 0, example_header_of 0 105 1 1 0 0]"
proof -
  have "all_links example_archive_system 0 2 1 = [''hd_7.dat'', ''hd_42.dat'', ''hd_105.dat'']"
    using example_new_links by (simp add: all_links_def upt_rec)
  then show ?thesis
    by (simp add: arriving_def example_archived_fields example_header_file_def)
qed

lemma example_no_links: "\<exists>w. holds w [1 \<mapsto> []]"
proof -
  have "getListofLinks (example_links []) ''/d'' = Some []"
    by code_simp
  then show ?thesis
    using setupLinkWatchDir_holds [OF holds_start, of 1 3 "example_links []" "''/d''" "[]"] by (auto simp: link_watch_start_def MAX_WATCHES_def)
qed

lemma example_archiving: "holds w [1 \<mapsto> []] \<Longrightarrow> archiving example_archive_system example_header_file (\<lambda>_. example_event) (example_archived storage 0) w"
  using example_archived_arrays(1) [of storage 0] example_archived_arrays(2) [of 0 storage] example_archived_reads
  by (auto simp: archiving_def example_archived_fields) (simp_all add: example_archived_def Let_def)

lemma example_packs: "disk_image example_archive_system (example_archived ARCHIVE_PEDSUBBED 0) h b = Some [9]" "hd_priority h = 1 \<Longrightarrow> packs example_archive_system (example_archived ARCHIVE_PEDSUBBED 0) B h"
  "hd_priority h = 1 \<Longrightarrow> disk_selection (example_archived ARCHIVE_PEDSUBBED 0) h = 1"
  by (simp_all add: packs_def disk_image_def telem_image_def pack_for_disk_def pack_for_telem_def copy_body_def image_of_def disk_selection_def event_priority_def Let_def
      example_archive_system_def example_archived_def ARCHIVE_PEDSUBBED_def ARCHIVE_ENCODED_def ARCHIVE_PEDSUBBED_ENCODED_def ARCHIVE_RAW_def NUM_PRIORITIES_def)

section \<open>Properties\<close>







text \<open>
  C16. An error: when the first event of a round is thrown away, every event behind it in the same round
  loses its body as well, whatever its own random number says: only its header is written, nothing goes
  to the telemetry, and its body is removed.
\<close>

theorem header_only_sticks:
  assumes "holds w Q" "Q (ar_wd s) = Some []" "ar_wd s \<noteq> 0" "short_links sys" "arrays_ok s" "headers_read sys H"
    and "new_links sys (ar_checks s) (ar_wd s) = n0 # ns" "\<forall>n\<in>set (n0 # ns). hd_priority (header_at H n) AND 15 \<le> 9"
    and "drand48 sys (ar_draws s) < priorityFractionGlobalDecimate s ! nat (hd_priority (header_at H n0) AND 15)"
  shows "\<exists>s' w' es. checkEvents sys (s, w) = Some (Some (s', w')) \<and> write_events (ar_archive sys) es (eventWriter s, ar_disk s) = (eventWriter s', ar_disk s')
    \<and> map we_header es = map (header_at H) (n0 # ns) \<and> (\<forall>e\<in>set es. we_just e)
    \<and> ar_acts s' = ar_acts s @ concat (map (\<lambda>n. link_acts n (header_at H n) []) (n0 # ns))"
proof -
  define s0 where "s0 = set_just 0 (s\<lparr>ar_checks := Suc (ar_checks s)\<rparr>)"
  have c: "continues s s0" "ar_draws s0 = ar_draws s" "ar_acts s0 = ar_acts s" "archive_of s0 = ((eventWriter s)\<lparr>justHeader := 0\<rparr>, ar_disk s)"
    by (simp_all add: s0_def set_just_def)
  obtain w' where w': "checkEvents sys (s, w) = map_option (\<lambda>s'. Some (s', w')) (archive_links sys (n0 # ns) s0)"
    using checkEvents_links [where Q = Q, OF assms(1-4)] unfolding s0_def assms(7) by blast
  have only: "header_only sys s0 (header_at H n0)" "hd_priority (header_at H n0) AND 15 \<le> 9" "arrays_ok s0"
    using assms(5,8,9) c(2) continues_fields [OF c(1)] arrays_continue [OF c(1)] by (simp_all add: header_only_def)
  obtain s1 m where 1: "archive_link sys n0 s0 = Some s1" "continues s0 s1" "ar_acts s1 = ar_acts s0 @ link_acts n0 (header_at H n0) []" "justHeader (eventWriter s1) = 1"
    "write_event (ar_archive sys) (written (header_at H n0) [] m True) (archive_of s0) = archive_of s1"
    using link_just [OF only(3) assms(6) refl only(2,1)] by blast
  obtain s' es where s': "archive_links sys ns s1 = Some s'" "write_events (ar_archive sys) es (archive_of s1) = archive_of s'" "map we_header es = map (header_at H) ns"
    "\<forall>e\<in>set es. we_just e" "ar_acts s' = ar_acts s1 @ concat (map (\<lambda>n. link_acts n (header_at H n) []) ns)"
    using links_just [of s1 sys H ns] only(3) arrays_continue [OF 1(2)] assms(6,8) 1(4) by auto
  show ?thesis
    using w' 1 s' c(3,4)
    by (intro exI [of _ s'] exI [of _ w'] exI [of _ "written (header_at H n0) [] m True # es"]) (simp add: write_events_def write_event_just)
qed

text \<open>Only the random number of the first event is below the fraction.\<close>

lemma header_only_sticks_witness:
  "\<exists>w s' w' es. checkEvents (example_archive_system\<lparr>drand48 := (\<lambda>k. if k = 0 then 0 else 1 / 2)\<rparr>) (example_archived ARCHIVE_PEDSUBBED (1 / 4), w) = Some (Some (s', w'))
    \<and> write_events example_archive_env es (writer_start, empty_disk) = (eventWriter s', ar_disk s') \<and> map (hd_eventNumber \<circ> we_header) es = [7, 42] \<and> (\<forall>e\<in>set es. we_just e)"
proof -
  let ?sys = "example_archive_system\<lparr>drand48 := (\<lambda>k. if k = 0 then 0 else 1 / 2)\<rparr>" and ?s = "example_archived ARCHIVE_PEDSUBBED (1 / 4)"
  obtain w where w: "holds w [1 \<mapsto> []]"
    using example_no_links by blast
  have "([1 \<mapsto> []] :: waiting) (ar_wd ?s) = Some []" "ar_wd ?s \<noteq> 0" "short_links ?sys" "arrays_ok ?s" "headers_read ?sys example_header_file"
    "new_links ?sys (ar_checks ?s) (ar_wd ?s) = ''hd_7.dat'' # [''hd_42.dat'']"
    "\<forall>n\<in>set (''hd_7.dat'' # [''hd_42.dat'']). hd_priority (header_at example_header_file n) AND 15 \<le> 9"
    "drand48 ?sys (ar_draws ?s) < priorityFractionGlobalDecimate ?s ! nat (hd_priority (header_at example_header_file ''hd_7.dat'') AND 15)"
    using example_archived_reads example_new_links example_archived_arrays(1)
    by (simp_all add: example_archived_fields short_links_def headers_read_def new_links_def example_header_file_def) (simp add: example_archived_def Let_def NUM_PRIORITIES_def)
  from header_only_sticks [where Q = "[1 \<mapsto> []]", OF w this] obtain s' w' es where r: "checkEvents ?sys (?s, w) = Some (Some (s', w'))"
    "write_events (ar_archive ?sys) es (eventWriter ?s, ar_disk ?s) = (eventWriter s', ar_disk s')"
    "map we_header es = map (header_at example_header_file) [''hd_7.dat'', ''hd_42.dat'']" "\<forall>e\<in>set es. we_just e"
    by blast
  have "map (hd_eventNumber \<circ> we_header) es = map hd_eventNumber (map we_header es)"
    by simp
  also have "\<dots> = [7, 42]"
    unfolding r(3) by (simp add: example_header_file_def)
  finally have "map (hd_eventNumber \<circ> we_header) es = [7, 42]" .
  moreover have "eventWriter ?s = writer_start" "ar_disk ?s = empty_disk" "ar_archive ?sys = example_archive_env"
    by (simp_all add: example_archived_def example_archive_system_def Let_def)
  ultimately show ?thesis
    using r by metis
qed

end
