(* ===== verification/Spec2Isabelle.thy ===== *)
theory Spec2Isabelle
  imports Event_Chain Ped_Calc Code_Pack Sip_Writer Key_Value_Store Cmdd_Loop Eventd_Match Eventd_Round Archived_Complete
begin

text \<open>
  A verification of the ANITA flight software (C programs for a balloon-borne radio telescope):
  the libraries that carry an event from the digitizers to the telemetry stream, and the way of a
  command from the serial line to the configuration files of the programs.

  The program. An event is 108 channels (12 SURF boards of 9) of 260 samples. The acquisition
  programs read raw events, \<open>pedestalLib\<close> subtracts pedestals, \<open>compressLib\<close> packs an event as a
  wrapper of 12 SURF packets of 9 encoded channels, \<open>utilLib\<close> fills and checks the generic header
  of every packet, and the ground unpacks and adds the pedestals again.

  Conventions of the model. A C integer is an \<open>int\<close> in the range of its type, wrapped at the
  casts and stores by \<open>u8\<close>, \<open>u16\<close>, \<open>u32\<close>, \<open>s16\<close>, \<open>s32\<close> (theory \<open>Flight_Prelude\<close>). Bytes in memory
  are a function from addresses to bytes (\<open>mem\<close>), loads and stores are little endian. A \<open>float\<close> or
  \<open>double\<close> is a real number: rounding is not modelled. \<open>None\<close> is a read outside an array or a
  shift out of range, in short: no defined result. A loop that counts is a fold or a structural
  recursion; a loop that consumes bits is a \<open>function\<close> with a measure. Fuel is only used in
  \<open>Fib_Codec\<close> and \<open>BinFib_Codec\<close> where the source bounds the loop by the number of samples.

  The theories and the code they model:
  \<^item> \<open>Flight_Prelude\<close>: casts, memory, lists. Shared by all.
  \<^item> \<open>Fibonacci\<close>: \<open>compressLib/fibonacci.c\<close>. \<open>Pack12\<close>: \<open>pack12bit.c\<close>. \<open>MuLaw_Tables\<close>, \<open>MuLaw\<close>:
    \<open>mulawTables.h\<close>, \<open>mulaw.c\<close>. \<open>Comp_Utils\<close>, \<open>Code_Pack\<close>: \<open>compUtils.c\<close>.
  \<^item> \<open>Compress_Types\<close>: the encoding types, error codes and channel structures of
    \<open>anitaStructures.h\<close> and \<open>compressLib.h\<close>.
  \<^item> \<open>Bit_Stream\<close>: the bit writing and reading loops of the waveform codecs;
    \<open>Wave_Interface\<close>: the locales that say what a waveform codec promises;
    \<open>Wave_Codec\<close>, \<open>Fib_Codec\<close>, \<open>BinFib_Codec\<close>: the codecs of \<open>compressLib.c\<close>;
    \<open>Channel_Codec\<close>: \<open>encodePSChannel\<close> and its siblings, with the mu-law codec and the statistics.
  \<^item> \<open>Checksum\<close>: the word sums of \<open>crc_simple.c\<close>, \<open>utilLib.c\<close>, \<open>compressLib.c\<close>; \<open>Packets\<close>: the generic
    header, the packet check and the tables of programs of \<open>utilLib.c\<close>.
  \<^item> \<open>Channel_Interface\<close>: the loops over the channels and SURFs of a packed event, proved for any
    channel codec that keeps the contract (locales \<open>channel_codec\<close>, \<open>event_codec\<close>);
    \<open>Channel_Packets\<close>: the channel codecs keep it.
  \<^item> \<open>Event_Types\<close>, \<open>Event_Pack\<close>: the event bodies and \<open>packEvent\<close>, \<open>packPedSubbedEvent\<close>,
    \<open>unpackToPedSubbedEvent\<close> and its siblings.
  \<^item> \<open>Pedestals\<close>: the subtraction, addition and the files of \<open>pedestalLib/pedestalLib.c\<close>; \<open>Ped_Calc\<close>:
    the calculation of new pedestals from events and the unwrapping of a channel; \<open>Event_Chain\<close>: \<open>unpackEvent\<close> and the chain of both
    libraries.

  \<^item> \<open>Sip_Reader\<close>: the reader threads of \<open>sipcomLib/sipcom.c\<close>, which take the bytes of a serial line
    apart and put the science commands together; \<open>Sip_Writer\<close>: the other direction, with
    \<open>telemwrap.c\<close> and \<open>sipthrottle.c\<close>.

  \<^item> \<open>C_Text\<close>: the functions of the C library on texts that the code uses (\<open>strtol\<close>, \<open>fgets\<close>,
    \<open>snprintf\<close>, \<open>%g\<close> and their like).
  \<^item> \<open>Key_Value\<close>: the key/value store \<open>kvpLib/keyValuePair.c\<close>; \<open>Key_Value_Scan\<close>, \<open>Key_Value_Space\<close>,
    \<open>Key_Value_Facts\<close>: printed values are valid, fit their space, and are read back;
    \<open>Key_Value_Store\<close>: the reachable stores.
  \<^item> \<open>Config_File\<close>: the configuration files of \<open>configLib\<close> (\<open>configLoad.c\<close>, \<open>configStore.c\<close>,
    \<open>configFileSpec.c\<close>) over a map of files; \<open>Config_Text\<close>: a written file is loaded again;
    \<open>Config_Modify\<close>: what \<open>configModify\<close> writes; \<open>Config_Settings\<close>: the interface \<open>setting_store\<close>, on which
    the programs that change settings rely, and its interpretation on the configuration library.

  \<^item> \<open>Link_Watch\<close>: the directory watcher \<open>linkWatchLib/linkWatchLib.c\<close>, its doubly linked lists on a
    heap; \<open>Link_Queues\<close>: the lists hold queues of names, and the interface \<open>link_queue\<close> of the programs
    that work through their links.

  \<^item> The command daemon \<open>programs/Cmdd/Cmdd.c\<close>. \<open>Cmdd_World\<close>: its state, and what it does to the
    world outside the configuration files as a list of actions; \<open>Cmdd_Codes\<close>: the codes of
    \<open>anitaCommand.h\<close>; \<open>Cmdd_Programs\<close>, \<open>Cmdd_Files\<close>, \<open>Cmdd_Disks\<close>: the commands for programs, files
    and disks; \<open>Cmdd_Tables\<close>: those that write settings they carry; \<open>Cmdd_Arrays\<close>,
    \<open>Cmdd_Instruments\<close>, \<open>Cmdd_Devices\<close>: those that read a configuration file before they change it;
    \<open>Cmdd_Main\<close>: \<open>executeCommand\<close> and the main loop; \<open>Cmdd_Settings\<close>: which settings a command
    changes, over the interface of \<open>Config_Settings\<close>; \<open>Cmdd_Loop\<close>: which commands are executed, and their
    echoes.

  \<^item> The event builder \<open>programs/Eventd/Eventd.c\<close> (theory \<open>Eventd\<close>, over \<open>Link_Queues\<close>).
    \<open>Eventd_Times\<close>: its arrays of GPS times stay in bounds; \<open>Eventd_Match\<close>: which time an event gets;
    \<open>Eventd_Round\<close>: a round of the main loop forwards its events, and what becomes of the calibration
    status. \<open>Event_Header\<close>: the header of an event.

  \<^item> \<open>Event_Writer\<close>: the writer of event files in \<open>utilLib\<close> (\<open>cleverEventWrite\<close>, \<open>closeEventFilesAndTidy\<close>
    and the child processes that compress and copy) over a map of files; \<open>Event_Files\<close>: what the buffer
    directory holds between two events; \<open>Event_Copies\<close>: what the disks hold in the end.

  \<^item> The archiver \<open>programs/Archived/Archived.c\<close> (theory \<open>Archived\<close>), which packs the events that
    Prioritizerd links, writes them over \<open>Event_Writer\<close> and hands them to the telemetry, over the interface
    of \<open>Link_Queues\<close>. \<open>Archived_Rounds\<close>: what becomes of one event; \<open>Archived_Complete\<close>: of all events of its
    rounds, down to the bytes on the disks and back to the channels.

  What the lemmas show. Round trips of every codec, from the Fibonacci code words up to whole
  events; what a lossy codec loses; the behaviour at the edges (a maximum that does not fit its
  bits, a checksum that does not match, a packet that is too long); that the cached pedestals are
  the requested ones in every reachable state; that a command that changes a setting changes this
  setting for every program that loads it and no other, up to the command daemon, where the command
  arrives as bytes; that the links of a watched directory are taken in their order and none is lost; that every event
  written is on the disks in the end, in the file of its hundred; that waiting for the programs of a run to end is bounded.

  Not modelled: file, directory, socket, serial and PCI input and output; the hardware drivers; the
  main loops of the programs other than Cmdd, Eventd and Archived; everything under \<open>outside/\<close>, which is third-party code. The layout of the
  structures that the compiler chooses is a parameter (\<open>img\<close>, \<open>sizeof\<close>).
\<close>

end
